(* ===== verification/Prelude.thy ===== *)
theory Prelude
  imports Main "HOL-Library.AList" "HOL-Library.Char_ord" "HOL-Library.List_Lexorder" "HOL-Library.Sublist"
begin

text \<open>
  Shared vocabulary of the development: the parts of JavaScript's standard library the modelled
  code uses, as executable HOL functions, with the generic lemmas the component theories share.

  A JavaScript string is a HOL \<open>string\<close>, read as its UTF-8 bytes; lengths and slices count bytes and
  case mapping and white space are the ASCII ones, so the model agrees with the code on ASCII text.
  A JavaScript number that the code only uses as an integer is an \<open>int\<close>; an optional field is an
  \<open>option\<close>; a \<open>Record<string, string>\<close> is an association list read with \<open>map_of\<close>.
\<close>

named_theorems js_simps "unfolding rules of the JavaScript string, number and option helpers"

section \<open>Options\<close>

fun opt_default :: "'a \<Rightarrow> 'a option \<Rightarrow> 'a" where
  "opt_default d None = d"
| "opt_default d (Some x) = x"

abbreviation opt_or :: "'a option \<Rightarrow> 'a option \<Rightarrow> 'a option" where
  "opt_or a b \<equiv> (case a of None \<Rightarrow> b | Some x \<Rightarrow> Some x)"

definition truthy :: "string option \<Rightarrow> bool" where
  [js_simps]: "truthy s \<longleftrightarrow> (case s of None \<Rightarrow> False | Some t \<Rightarrow> t \<noteq> [])"

lemma truthy_simps [simp]:
  "truthy None = False" "truthy (Some t) = (t \<noteq> [])"
  by (simp_all add: truthy_def)

lemma truthyE [elim]: "truthy s \<Longrightarrow> (\<And>t. s = Some t \<Longrightarrow> t \<noteq> [] \<Longrightarrow> P) \<Longrightarrow> P"
  by (cases s) auto

section \<open>Characters and strings\<close>

abbreviation char_code :: "char \<Rightarrow> nat" where
  "char_code c \<equiv> of_char c"

definition nl :: char where
  [js_simps]: "nl = CHR 0x0A"

definition char_between :: "char \<Rightarrow> char \<Rightarrow> char \<Rightarrow> bool" where
  [js_simps]: "char_between lo hi c \<longleftrightarrow> char_code lo \<le> char_code c \<and> char_code c \<le> char_code hi"

definition is_ws :: "char \<Rightarrow> bool" where
  [js_simps]: "is_ws c \<longleftrightarrow> (9 \<le> char_code c \<and> char_code c \<le> 13) \<or> char_code c = 32"

definition is_digit :: "char \<Rightarrow> bool" where
  [js_simps]: "is_digit c \<longleftrightarrow> char_between CHR ''0'' CHR ''9'' c"

definition is_lower :: "char \<Rightarrow> bool" where
  [js_simps]: "is_lower c \<longleftrightarrow> char_between CHR ''a'' CHR ''z'' c"

definition is_upper :: "char \<Rightarrow> bool" where
  [js_simps]: "is_upper c \<longleftrightarrow> char_between CHR ''A'' CHR ''Z'' c"

definition char_lower :: "char \<Rightarrow> char" where
  "char_lower c = (if is_upper c then char_of (char_code c + 32) else c)"

definition char_upper :: "char \<Rightarrow> char" where
  "char_upper c = (if is_lower c then char_of (char_code c - 32) else c)"

abbreviation js_lower :: "string \<Rightarrow> string" where
  "js_lower s \<equiv> map char_lower s"

abbreviation js_upper :: "string \<Rightarrow> string" where
  "js_upper s \<equiv> map char_upper s"

definition js_trim_start :: "string \<Rightarrow> string" where
  "js_trim_start s = dropWhile is_ws s"

definition js_trim_end :: "string \<Rightarrow> string" where
  "js_trim_end s = rev (dropWhile is_ws (rev s))"

definition js_trim :: "string \<Rightarrow> string" where
  "js_trim s = js_trim_end (js_trim_start s)"

fun starts_with :: "string \<Rightarrow> string \<Rightarrow> bool" where
  "starts_with s [] = True"
| "starts_with [] (p # ps) = False"
| "starts_with (c # cs) (p # ps) = (c = p \<and> starts_with cs ps)"

fun js_includes :: "string \<Rightarrow> string \<Rightarrow> bool" where
  "js_includes [] p = (p = [])"
| "js_includes (c # cs) p = (starts_with (c # cs) p \<or> js_includes cs p)"

fun js_split :: "char \<Rightarrow> string \<Rightarrow> string list" where
  "js_split sep [] = [[]]"
| "js_split sep (c # cs) =
     (if c = sep then [] # js_split sep cs
      else (case js_split sep cs of [] \<Rightarrow> [[c]] | p # ps \<Rightarrow> (c # p) # ps))"

fun js_join :: "string \<Rightarrow> string list \<Rightarrow> string" where
  "js_join sep [] = []"
| "js_join sep [s] = s"
| "js_join sep (s # t # ss) = s @ sep @ js_join sep (t # ss)"

lemma starts_with_iff: "starts_with s p \<longleftrightarrow> (\<exists>r. s = p @ r)"
  by (induction s p rule: starts_with.induct) auto

lemma starts_with_append [simp]: "starts_with (p @ r) p"
  by (simp add: starts_with_iff)

lemma js_includes_iff: "js_includes s p \<longleftrightarrow> (\<exists>a b. s = a @ p @ b)"
proof (induction s)
  case Nil
  then show ?case by simp
next
  case (Cons c cs)
  have "(\<exists>a b. c # cs = a @ p @ b) \<longleftrightarrow> (\<exists>b. c # cs = p @ b) \<or> (\<exists>a b. cs = a @ p @ b)"
    by (metis append_Cons append_Nil append_eq_Cons_conv)
  with Cons show ?case by (simp add: starts_with_iff)
qed

lemma js_split_ne [simp]: "js_split sep s \<noteq> []"
  by (induction s) (auto split: list.splits)

lemma js_join_Cons: "ss \<noteq> [] \<Longrightarrow> js_join sep (s # ss) = s @ sep @ js_join sep ss"
  by (cases ss) auto

lemma js_join_split: "js_join [sep] (js_split sep s) = s"
proof (induction s)
  case Nil
  then show ?case by simp
next
  case (Cons c s)
  obtain p ps where ps: "js_split sep s = p # ps" by (cases "js_split sep s") auto
  show ?case
  proof (cases "c = sep")
    case True
    then show ?thesis using Cons ps by (simp add: js_join_Cons)
  next
    case False
    then show ?thesis using Cons ps by (cases ps) auto
  qed
qed

lemma js_split_no_sep: "p \<in> set (js_split sep s) \<Longrightarrow> sep \<notin> set p"
proof (induction s arbitrary: p)
  case Nil
  then show ?case by simp
next
  case (Cons c s)
  obtain q qs where qs: "js_split sep s = q # qs" by (cases "js_split sep s") auto
  have "\<And>p. p = q \<or> p \<in> set qs \<Longrightarrow> sep \<notin> set p" using Cons.IH qs by auto
  with Cons.prems qs show ?case by (auto split: if_splits)
qed

lemma js_split_single: "sep \<notin> set p \<Longrightarrow> js_split sep p = [p]"
  by (induction p) auto

lemma js_split_append: "sep \<notin> set p \<Longrightarrow> js_split sep (p @ sep # s) = p # js_split sep s"
  by (induction p) auto

lemma js_split_join:
  "ss \<noteq> [] \<Longrightarrow> (\<And>p. p \<in> set ss \<Longrightarrow> sep \<notin> set p) \<Longrightarrow> js_split sep (js_join [sep] ss) = ss"
proof (induction ss)
  case Nil
  then show ?case by simp
next
  case (Cons p ss)
  then show ?case
    by (cases ss) (auto simp: js_split_single js_split_append)
qed

lemma js_trim_start_idem: "js_trim_start (js_trim_start s) = js_trim_start s"
  by (simp add: js_trim_start_def)

lemma dropWhile_append_last: "xs \<noteq> [] \<Longrightarrow> \<not> P (last xs) \<Longrightarrow> dropWhile P xs \<noteq> []"
  by (metis dropWhile_eq_Nil_conv last_in_set)

section \<open>Decimal numerals\<close>

definition digit_char :: "nat \<Rightarrow> char" where
  "digit_char d = char_of (48 + d)"

fun nat_str :: "nat \<Rightarrow> string" where
  "nat_str n = (if n < 10 then [digit_char n] else nat_str (n div 10) @ [digit_char (n mod 10)])"

declare nat_str.simps [simp del]

definition int_str :: "int \<Rightarrow> string" where
  [js_simps]: "int_str i = (if i < 0 then CHR ''-'' # nat_str (nat (- i)) else nat_str (nat i))"

definition digit_val :: "char \<Rightarrow> nat" where
  "digit_val c = char_code c - 48"

definition digits_val :: "string \<Rightarrow> nat" where
  "digits_val ds = foldl (\<lambda>acc c. acc * 10 + digit_val c) 0 ds"

lemma digit_char_val [simp]: "d < 10 \<Longrightarrow> digit_val (digit_char d) = d"
  by (simp add: digit_val_def digit_char_def of_char_of)

lemma digit_char_is_digit [simp]: "d < 10 \<Longrightarrow> is_digit (digit_char d)"
  by (simp add: is_digit_def char_between_def digit_char_def of_char_of)

lemma nat_str_ne [simp]: "nat_str n \<noteq> []"
  by (subst nat_str.simps) simp

lemma nat_str_digits: "c \<in> set (nat_str n) \<Longrightarrow> is_digit c"
proof (induction n arbitrary: c rule: nat_str.induct)
  case (1 n)
  then show ?case
    by (subst (asm) (2) nat_str.simps) (auto split: if_splits)
qed

lemma digits_val_snoc: "digits_val (ds @ [c]) = digits_val ds * 10 + digit_val c"
  by (simp add: digits_val_def)

lemma digits_val_nat_str [simp]: "digits_val (nat_str n) = n"
proof (induction n rule: nat_str.induct)
  case (1 n)
  then show ?case
    by (subst nat_str.simps) (auto simp: digits_val_snoc, simp add: digits_val_def)
qed

lemma nat_str_inj: "nat_str m = nat_str n \<Longrightarrow> m = n"
  by (metis digits_val_nat_str)

definition js_inf_bound :: int where
  "js_inf_bound = 2 ^ 1024 - 2 ^ 970"

text \<open>
  \<open>Number.parseInt(s, 10)\<close>: white space, a sign, the longest run of digits; \<open>None\<close> when the result is
  \<open>NaN\<close> or infinite.  Rounding of integers above \<open>2 ^ 53\<close> to a double is not modelled.
\<close>

definition js_parse_int :: "string \<Rightarrow> int option" where
  "js_parse_int s =
    (let t = js_trim_start s;
         (neg, ds) = (case t of [] \<Rightarrow> (False, [])
                      | c # cs \<Rightarrow> if c = CHR ''-'' then (True, cs)
                                  else if c = CHR ''+'' then (False, cs) else (False, t));
         digits = takeWhile is_digit ds
     in if digits = [] then None
        else let n = int (digits_val digits) in
          if n \<ge> js_inf_bound then None else Some (if neg then - n else n))"

lemma takeWhile_all: "(\<And>c. c \<in> set s \<Longrightarrow> P c) \<Longrightarrow> takeWhile P s = s"
  by (induction s) auto

lemma is_digit_not_ws: "is_digit c \<Longrightarrow> \<not> is_ws c \<and> c \<noteq> CHR ''-'' \<and> c \<noteq> CHR ''+''"
  by (auto simp: is_digit_def is_ws_def char_between_def)

lemma js_parse_int_nat_str:
  assumes "int n < js_inf_bound"
  shows "js_parse_int (nat_str n) = Some (int n)"
proof -
  obtain c cs where c: "nat_str n = c # cs" by (cases "nat_str n") auto
  then have "is_digit c" using nat_str_digits [of c n] by simp
  then have "\<not> is_ws c" "c \<noteq> CHR ''-''" "c \<noteq> CHR ''+''" using is_digit_not_ws by auto
  moreover have "takeWhile is_digit (nat_str n) = nat_str n"
    by (rule takeWhile_all) (rule nat_str_digits)
  ultimately show ?thesis
    using assms c digits_val_nat_str [of n] by (simp add: js_parse_int_def js_trim_start_def)
qed

section \<open>Stable sorting by a comparator\<close>

text \<open>
  \<open>Array.prototype.sort(compare)\<close> is stable: an element goes before the first one it does not
  compare greater than, the list being built from its end.
\<close>

fun insert_by :: "('a \<Rightarrow> 'a \<Rightarrow> int) \<Rightarrow> 'a \<Rightarrow> 'a list \<Rightarrow> 'a list" where
  "insert_by cmp x [] = [x]"
| "insert_by cmp x (y # ys) = (if cmp x y \<le> 0 then x # y # ys else y # insert_by cmp x ys)"

definition js_sort_by :: "('a \<Rightarrow> 'a \<Rightarrow> int) \<Rightarrow> 'a list \<Rightarrow> 'a list" where
  "js_sort_by cmp xs = foldr (insert_by cmp) xs []"

lemma set_insert_by [simp]: "set (insert_by cmp x ys) = insert x (set ys)"
  by (induction ys) auto

lemma length_insert_by [simp]: "length (insert_by cmp x ys) = Suc (length ys)"
  by (induction ys) auto

lemma mset_insert_by: "count_list (insert_by cmp x ys) z = count_list (x # ys) z"
  by (induction ys) auto

lemma set_js_sort_by [simp]: "set (js_sort_by cmp xs) = set xs"
  by (induction xs) (auto simp: js_sort_by_def)

lemma length_js_sort_by [simp]: "length (js_sort_by cmp xs) = length xs"
  by (induction xs) (auto simp: js_sort_by_def)

definition cmp_total_preorder :: "('a \<Rightarrow> 'a \<Rightarrow> int) \<Rightarrow> bool" where
  "cmp_total_preorder cmp \<longleftrightarrow>
     (\<forall>x y. cmp x y \<le> 0 \<or> cmp y x \<le> 0) \<and>
     (\<forall>x y z. cmp x y \<le> 0 \<longrightarrow> cmp y z \<le> 0 \<longrightarrow> cmp x z \<le> 0)"

lemma sorted_insert_by:
  assumes "cmp_total_preorder cmp"
  shows "sorted_wrt (\<lambda>a b. cmp a b \<le> 0) ys \<Longrightarrow> sorted_wrt (\<lambda>a b. cmp a b \<le> 0) (insert_by cmp x ys)"
proof (induction ys)
  case Nil
  then show ?case by simp
next
  case (Cons y ys)
  show ?case
  proof (cases "cmp x y \<le> 0")
    case True
    then have "\<And>z. z \<in> set ys \<Longrightarrow> cmp x z \<le> 0"
      using Cons.prems assms unfolding cmp_total_preorder_def by (metis sorted_wrt.simps(2))
    then show ?thesis using True Cons.prems by simp
  next
    case False
    then have "cmp y x \<le> 0" using assms unfolding cmp_total_preorder_def by blast
    then show ?thesis using False Cons by simp
  qed
qed

lemma sorted_js_sort_by:
  "cmp_total_preorder cmp \<Longrightarrow> sorted_wrt (\<lambda>a b. cmp a b \<le> 0) (js_sort_by cmp xs)"
  by (induction xs) (auto simp: js_sort_by_def intro: sorted_insert_by)

section \<open>Regular expressions as lists of matches\<close>

text \<open>
  A matcher returns what it can match at the start of a string, with the rest of the string, in the
  order in which a backtracking engine tries them: the engine's match is the head of the list.
\<close>

type_synonym 'a matcher = "string \<Rightarrow> ('a \<times> string) list"

definition m_ret :: "'a \<Rightarrow> 'a matcher" where
  "m_ret a s = [(a, s)]"

definition m_bind :: "'a matcher \<Rightarrow> ('a \<Rightarrow> 'b matcher) \<Rightarrow> 'b matcher" where
  "m_bind m f s = concat (map (\<lambda>(a, r). f a r) (m s))"

definition m_seq :: "'a matcher \<Rightarrow> 'b matcher \<Rightarrow> 'b matcher" where
  "m_seq m n = m_bind m (\<lambda>_. n)"

definition m_alt :: "'a matcher \<Rightarrow> 'a matcher \<Rightarrow> 'a matcher" where
  "m_alt m n s = m s @ n s"

definition m_lit :: "string \<Rightarrow> string matcher" where
  "m_lit l s = (if starts_with s l then [(l, drop (length l) s)] else [])"

definition m_span :: "(char \<Rightarrow> bool) \<Rightarrow> nat \<Rightarrow> nat option \<Rightarrow> string matcher" where
  "m_span P lo hi s =
    (let n = length (takeWhile P s);
         n = (case hi of None \<Rightarrow> n | Some h \<Rightarrow> min n h)
     in map (\<lambda>k. (take k s, drop k s)) (rev [lo..<Suc n]))"

definition m_eos :: "unit matcher" where
  "m_eos s = (if s = [] then [((), [])] else [])"

text \<open>Greedy repetition of a matcher that consumes at least one character at each turn.\<close>

fun m_star :: "nat \<Rightarrow> 'a matcher \<Rightarrow> 'a list matcher" where
  "m_star 0 m s = [([], s)]"
| "m_star (Suc n) m s =
     concat (map (\<lambda>(a, r). if length r < length s
                           then map (\<lambda>(as, r'). (a # as, r')) (m_star n m r) else []) (m s)) @ [([], s)]"

text \<open>The substring a matcher consumed, as a capture group.\<close>

definition m_group :: "'a matcher \<Rightarrow> string matcher" where
  "m_group m s = map (\<lambda>(_, r). (take (length s - length r) s, r)) (m s)"

definition m_first :: "'a matcher \<Rightarrow> string \<Rightarrow> 'a option" where
  "m_first m s = (case m s of [] \<Rightarrow> None | (a, _) # _ \<Rightarrow> Some a)"

definition m_suffixes :: "'a matcher \<Rightarrow> bool" where
  "m_suffixes m \<longleftrightarrow> (\<forall>s a r. (a, r) \<in> set (m s) \<longrightarrow> (\<exists>p. s = p @ r))"

lemma m_lit_mem: "(a, r) \<in> set (m_lit l s) \<longleftrightarrow> a = l \<and> s = l @ r"
  by (auto simp: m_lit_def starts_with_iff)

lemma m_span_mem: "(a, r) \<in> set (m_span P lo hi s) \<Longrightarrow> s = a @ r"
  by (auto simp: m_span_def Let_def)

lemma m_span_mem_set:
  assumes "(a, r) \<in> set (m_span P lo hi s)"
  shows "c \<in> set a \<Longrightarrow> P c" and "lo \<le> length a"
    and "hi = Some h \<Longrightarrow> length a \<le> h"
proof -
  from assms obtain k where k: "a = take k s" "lo \<le> k" "k \<le> length (takeWhile P s)"
    and kh: "\<And>h. hi = Some h \<Longrightarrow> k \<le> h"
    by (auto simp: m_span_def Let_def less_Suc_eq_le split: option.splits)
  from k(3) have ks: "k \<le> length s" using length_takeWhile_le [of P s] by linarith
  have "a = take k (takeWhile P s)"
    using k(1,3) by (metis min.absorb1 take_take takeWhile_eq_take)
  then show "c \<in> set a \<Longrightarrow> P c" by (meson in_set_takeD set_takeWhileD)
  show "lo \<le> length a" "hi = Some h \<Longrightarrow> length a \<le> h" using k ks kh by auto
qed

lemma m_bind_mem: "(b, r) \<in> set (m_bind m f s) \<longleftrightarrow> (\<exists>a t. (a, t) \<in> set (m s) \<and> (b, r) \<in> set (f a t))"
  by (force simp: m_bind_def)

lemma m_seq_mem: "(b, r) \<in> set (m_seq m n s) \<longleftrightarrow> (\<exists>a t. (a, t) \<in> set (m s) \<and> (b, r) \<in> set (n t))"
  by (simp add: m_seq_def m_bind_mem)

lemma m_first_SomeD: "m_first m s = Some a \<Longrightarrow> \<exists>r. (a, r) \<in> set (m s)"
  by (auto simp: m_first_def split: list.splits)

text \<open>A greedy span followed by a character outside its class matches the whole run first.\<close>

lemma m_span_hd:
  assumes "\<And>c. c \<in> set a \<Longrightarrow> P c" and "r = [] \<or> \<not> P (hd r)"
    and "lo \<le> length a" and "hi = None \<or> (\<exists>h. hi = Some h \<and> length a \<le> h)"
  shows "\<exists>ms. m_span P lo hi (a @ r) = (a, r) # ms"
proof -
  have tw: "takeWhile P (a @ r) = a"
    using assms(1,2) by (cases r) (simp_all add: takeWhile_append takeWhile_all)
  have n: "(case hi of None \<Rightarrow> length a | Some h \<Rightarrow> min (length a) h) = length a"
    using assms(4) by (auto split: option.splits)
  have up: "rev [lo..<Suc (length a)] = length a # rev [lo..<length a]"
    using assms(3) by simp
  show ?thesis unfolding m_span_def Let_def tw n up by simp
qed

lemma m_span_ws_single:
  assumes "\<not> is_ws c"
  shows "m_span is_ws 0 None (CHR '' '' # c # r) = [([CHR '' ''], c # r), ([], CHR '' '' # c # r)]"
    and "m_span is_ws 1 None (CHR '' '' # c # r) = [([CHR '' ''], c # r)]"
proof -
  have sp: "is_ws (CHR '' '')" by (simp add: is_ws_def)
  show "m_span is_ws 0 None (CHR '' '' # c # r) = [([CHR '' ''], c # r), ([], CHR '' '' # c # r)]"
    and "m_span is_ws 1 None (CHR '' '' # c # r) = [([CHR '' ''], c # r)]"
    using assms sp by (simp_all add: m_span_def)
qed

end
