(* ===== verification/Autofix.thy ===== *)
theory Autofix
  imports Prelude
begin

text \<open>
  The auto-fix pipeline of the daemon: the task state machine
  (\<open>src/src/autofix/state-machine.ts\<close>), the fast-path decision engine
  (\<open>decision-engine.ts\<close>), the audit engine (\<open>audit-engine.ts\<close>) and the loop that
  drives them (\<open>index.ts\<close>).  The terminal of an agent is outside the repository's control: what it
  shows when the engine reads it is an argument, and what is typed into it is an effect.
\<close>

section \<open>The state machine (state-machine.ts)\<close>

datatype autofix_state =
  Af_planning | Af_design_review | Af_implementing | Af_code_review | Af_approved | Af_done | Af_failed

datatype autofix_transition =
  Start_planning | Submit_design | Approve_design | Reject_design | Start_implementing
| Submit_code | Approve_code | Reject_code | Complete | Fail

record autofix_task =
  aft_id :: string
  aft_issueId :: "string option"
  aft_title :: string
  aft_description :: string
  aft_state :: autofix_state
  aft_discussionRounds :: int
  aft_maxDiscussionRounds :: int
  aft_coderSession :: string
  aft_auditorSession :: string
  aft_projectName :: string
  aft_branch :: "string option"
  aft_startedAt :: int
  aft_updatedAt :: int
  aft_error :: "string option"

datatype state_machine_error = State_machine_error string

fun autofix_state_name :: "autofix_state \<Rightarrow> string" where
  "autofix_state_name Af_planning = ''planning''"
| "autofix_state_name Af_design_review = ''design_review''"
| "autofix_state_name Af_implementing = ''implementing''"
| "autofix_state_name Af_code_review = ''code_review''"
| "autofix_state_name Af_approved = ''approved''"
| "autofix_state_name Af_done = ''done''"
| "autofix_state_name Af_failed = ''failed''"

fun autofix_transition_name :: "autofix_transition \<Rightarrow> string" where
  "autofix_transition_name Start_planning = ''start_planning''"
| "autofix_transition_name Submit_design = ''submit_design''"
| "autofix_transition_name Approve_design = ''approve_design''"
| "autofix_transition_name Reject_design = ''reject_design''"
| "autofix_transition_name Start_implementing = ''start_implementing''"
| "autofix_transition_name Submit_code = ''submit_code''"
| "autofix_transition_name Approve_code = ''approve_code''"
| "autofix_transition_name Reject_code = ''reject_code''"
| "autofix_transition_name Complete = ''complete''"
| "autofix_transition_name Fail = ''fail''"

fun valid_transitions :: "autofix_state \<Rightarrow> autofix_transition list" where
  "valid_transitions Af_planning = [Submit_design, Fail]"
| "valid_transitions Af_design_review = [Approve_design, Reject_design, Fail]"
| "valid_transitions Af_implementing = [Submit_code, Fail]"
| "valid_transitions Af_code_review = [Approve_code, Reject_code, Fail]"
| "valid_transitions Af_approved = [Complete, Fail]"
| "valid_transitions Af_done = []"
| "valid_transitions Af_failed = []"

fun state_after :: "autofix_transition \<Rightarrow> autofix_state" where
  "state_after Start_planning = Af_planning"
| "state_after Submit_design = Af_design_review"
| "state_after Approve_design = Af_implementing"
| "state_after Reject_design = Af_planning"
| "state_after Start_implementing = Af_implementing"
| "state_after Submit_code = Af_code_review"
| "state_after Approve_code = Af_approved"
| "state_after Reject_code = Af_implementing"
| "state_after Complete = Af_done"
| "state_after Fail = Af_failed"

definition canTransition :: "autofix_task \<Rightarrow> autofix_transition \<Rightarrow> bool" where
  "canTransition task tr \<longleftrightarrow> tr \<in> set (valid_transitions (aft_state task))"

definition transition ::
  "int \<Rightarrow> autofix_task \<Rightarrow> autofix_transition \<Rightarrow> state_machine_error + autofix_task" where
  "transition now task tr =
    (if \<not> canTransition task tr then
       Inl (State_machine_error
         (''Invalid transition \"'' @ autofix_transition_name tr @ ''\" from state \"'' @
          autofix_state_name (aft_state task) @ ''\" for task \"'' @ aft_id task @ ''\"''))
     else
       let updated = task\<lparr>aft_state := state_after tr, aft_updatedAt := now\<rparr> in
       if tr = Reject_design \<or> tr = Reject_code then
         let updated = updated\<lparr>aft_discussionRounds := aft_discussionRounds task + 1\<rparr> in
         if aft_discussionRounds updated > aft_maxDiscussionRounds task then
           Inr (updated\<lparr>aft_state := Af_failed,
             aft_error := Some (''Max discussion rounds ('' @
               int_str (aft_maxDiscussionRounds task) @ '') exceeded'')\<rparr>)
         else Inr updated
       else Inr updated)"

text \<open>
  \<open>createTask\<close>: the options record, with the generated id (clock and random suffix) and the clock as
  arguments.
\<close>

record autofix_opts =
  afo_id :: "string option"
  afo_title :: string
  afo_description :: string
  afo_coderSession :: string
  afo_auditorSession :: string
  afo_projectName :: string
  afo_issueId :: "string option"
  afo_maxDiscussionRounds :: "int option"

definition createTask :: "int \<Rightarrow> string \<Rightarrow> autofix_opts \<Rightarrow> autofix_task" where
  "createTask now generated_id opts = \<lparr>
     aft_id = opt_default generated_id (afo_id opts),
     aft_issueId = afo_issueId opts,
     aft_title = afo_title opts,
     aft_description = afo_description opts,
     aft_state = Af_planning,
     aft_discussionRounds = 0,
     aft_maxDiscussionRounds = opt_default 3 (afo_maxDiscussionRounds opts),
     aft_coderSession = afo_coderSession opts,
     aft_auditorSession = afo_auditorSession opts,
     aft_projectName = afo_projectName opts,
     aft_branch = None,
     aft_startedAt = now,
     aft_updatedAt = now,
     aft_error = None\<rparr>"

section \<open>The audit engine (audit-engine.ts)\<close>

record audit_result =
  ar_approved :: bool
  ar_findings :: "string list"
  ar_summary :: string

text \<open>
  The replacements \<open>/^APPROVED:?\s*/i\<close> and \<open>/^REJECTED:?\s*/i\<close>: the word has eight letters, an optional
  colon and white space follow it.
\<close>

definition strip_decision :: "string \<Rightarrow> string \<Rightarrow> string" where
  "strip_decision word line =
    (if starts_with (js_upper line) word then
       let rest = drop (length word) line in
       let rest = (case rest of [] \<Rightarrow> [] | c # cs \<Rightarrow> if c = CHR '':'' then cs else rest) in
       dropWhile is_ws rest
     else line)"

definition numbered_line :: "string \<Rightarrow> bool" where
  "numbered_line l \<longleftrightarrow> takeWhile is_digit l \<noteq> [] \<and> starts_with (dropWhile is_digit l) ''.''"

definition parseAuditResult :: "string \<Rightarrow> audit_result" where
  "parseAuditResult out =
    (let lines = [l \<leftarrow> map js_trim (js_split nl out). l \<noteq> []];
         approvedLine = find (\<lambda>l. starts_with (js_upper l) ''APPROVED'') lines;
         rejectedLine = find (\<lambda>l. starts_with (js_upper l) ''REJECTED'') lines
     in case approvedLine of
       Some l \<Rightarrow> \<lparr>ar_approved = True, ar_findings = [],
                 ar_summary = js_trim (strip_decision ''APPROVED'' l)\<rparr>
     | None \<Rightarrow>
       (case rejectedLine of
          Some l \<Rightarrow>
            \<lparr>ar_approved = False,
             ar_findings = [f \<leftarrow> drop 1 (dropWhile (\<lambda>x. x \<noteq> l) lines).
                              starts_with f ''-'' \<or> numbered_line f],
             ar_summary = js_trim (strip_decision ''REJECTED'' l)\<rparr>
        | None \<Rightarrow> \<lparr>ar_approved = False, ar_findings = [''No clear decision in audit output''],
                    ar_summary = ''Unclear audit result''\<rparr>))"

datatype af_effect =
  Send_keys string string
| Push_branch string
| Close_issue string

definition buildDesignReviewPrompt :: "string \<Rightarrow> string \<Rightarrow> string" where
  "buildDesignReviewPrompt title coderOutput = js_join [nl]
    [''Please review this design proposal for: \"'' @ title @ ''\"'', [], coderOutput, [],
     ''Evaluate:'', ''1. Is the approach technically sound?'', ''2. Are there security concerns?'',
     ''3. Are edge cases handled?'', ''4. Is it consistent with the existing architecture?'', [],
     ''Respond with:'', ''- APPROVED: <brief summary> (if the design is acceptable)'',
     ''- REJECTED: <list of issues, one per line> (if changes are needed)'']"

definition buildCodeReviewPrompt :: "string \<Rightarrow> string \<Rightarrow> string \<Rightarrow> string" where
  "buildCodeReviewPrompt title description coderOutput = js_join [nl]
    [''Please review the code implementation for: \"'' @ title @ ''\"'', [],
     ''Task description: '' @ description, [], ''Implementation output:'', coderOutput, [],
     ''Evaluate:'', ''1. Does it correctly implement the requirements?'',
     ''2. Are there bugs or logic errors?'',
     ''3. Security issues? (injection, auth bypass, data exposure)'',
     ''4. Code quality and test coverage?'', [], ''Respond with:'',
     ''- APPROVED: <brief summary> (if the implementation is acceptable)'',
     ''- REJECTED: <list of specific issues, one per line> (if changes are needed)'']"

text \<open>
  The two reviews.  \<open>coderOut\<close> and \<open>auditorOut\<close> are what the two terminals show when the engine reads
  them (\<open>captureAgentOutput\<close>, \<open>waitForIdle\<close>); the result carries the keys typed, in order.
\<close>

definition runDesignReview ::
  "int \<Rightarrow> string \<Rightarrow> string \<Rightarrow> autofix_task \<Rightarrow>
   state_machine_error + (autofix_task \<times> audit_result \<times> af_effect list)" where
  "runDesignReview now coderOut auditorOut task =
    (let sent = Send_keys (aft_auditorSession task)
                  (buildDesignReviewPrompt (aft_title task) coderOut);
         result = parseAuditResult auditorOut
     in if ar_approved result then
          (case transition now task Approve_design of
             Inl e \<Rightarrow> Inl e | Inr t \<Rightarrow> Inr (t, result, [sent]))
        else
          (case transition now task Reject_design of
             Inl e \<Rightarrow> Inl e
           | Inr t \<Rightarrow> Inr (t, result,
               [sent, Send_keys (aft_coderSession task)
                  (''Design review findings:'' @ [nl] @ js_join [nl] (ar_findings result) @
                   [nl, nl] @ ''Please revise.'')])))"

definition runCodeReview ::
  "int \<Rightarrow> string \<Rightarrow> string \<Rightarrow> autofix_task \<Rightarrow>
   state_machine_error + (autofix_task \<times> audit_result \<times> af_effect list)" where
  "runCodeReview now coderOut auditorOut task =
    (let sent = Send_keys (aft_auditorSession task)
                  (buildCodeReviewPrompt (aft_title task) (aft_description task) coderOut);
         result = parseAuditResult auditorOut
     in if ar_approved result then
          (case transition now task Approve_code of
             Inl e \<Rightarrow> Inl e | Inr t \<Rightarrow> Inr (t, result, [sent]))
        else
          (case transition now task Reject_code of
             Inl e \<Rightarrow> Inl e
           | Inr t \<Rightarrow> Inr (t, result,
               [sent, Send_keys (aft_coderSession task)
                  (''Code review findings:'' @ [nl] @ js_join [nl] (ar_findings result) @
                   [nl, nl] @ ''Please address these issues.'')])))"

section \<open>The decision engine (decision-engine.ts)\<close>

datatype action_type =
  Send_to_worker | Audit | Act_approve_design | Act_approve_code | Push | Close | Wait | Act_fail

record decision =
  dec_action :: action_type
  dec_target :: "string option"
  dec_message :: "string option"
  dec_reason :: "string option"

definition buildPlanningPrompt :: "autofix_task \<Rightarrow> string" where
  "buildPlanningPrompt task = js_join [nl]
    [''You are tasked with: '' @ aft_title task, [], aft_description task, [],
     ''Please start by creating a design document that includes:'',
     ''1. Problem analysis'', ''2. Proposed solution approach'',
     ''3. Files to be modified/created'', ''4. Potential risks or trade-offs'',
     ''5. Testing strategy'', [],
     ''When your design is complete, I will have it reviewed before you start coding.'']"

definition no_decision :: "action_type \<Rightarrow> decision" where
  "no_decision a = \<lparr>dec_action = a, dec_target = None, dec_message = None, dec_reason = None\<rparr>"

definition fastPathDecision :: "autofix_task \<Rightarrow> decision option" where
  "fastPathDecision task = (case aft_state task of
     Af_planning \<Rightarrow> Some ((no_decision Send_to_worker)\<lparr>dec_target := Some (aft_coderSession task),
                      dec_message := Some (buildPlanningPrompt task)\<rparr>)
   | Af_design_review \<Rightarrow> Some ((no_decision Audit)\<lparr>dec_target := Some (aft_auditorSession task)\<rparr>)
   | Af_code_review \<Rightarrow> Some ((no_decision Audit)\<lparr>dec_target := Some (aft_auditorSession task)\<rparr>)
   | Af_approved \<Rightarrow> Some ((no_decision Push)\<lparr>dec_target := aft_branch task\<rparr>)
   | Af_done \<Rightarrow> Some (no_decision Close)
   | Af_failed \<Rightarrow> Some ((no_decision Act_fail)\<lparr>dec_reason :=
                     Some (opt_default ''Task failed'' (aft_error task))\<rparr>)
   | Af_implementing \<Rightarrow> None)"

text \<open>
  The two sets of executors the loop of \<open>index.ts\<close> builds: in standalone mode pushing and closing only
  log; in tracker mode they push \<open>t.branch\<close> and close \<open>t.issueId\<close> when those are set.
\<close>

datatype af_mode = Standalone | Tracker

definition pushChanges :: "af_mode \<Rightarrow> autofix_task \<Rightarrow> af_effect list" where
  "pushChanges mode t = (case mode of
     Standalone \<Rightarrow> []
   | Tracker \<Rightarrow> (if truthy (aft_branch t) then [Push_branch (the (aft_branch t))] else []))"

definition closeIssue :: "af_mode \<Rightarrow> autofix_task \<Rightarrow> af_effect list" where
  "closeIssue mode t = (case mode of
     Standalone \<Rightarrow> []
   | Tracker \<Rightarrow> (if truthy (aft_issueId t) then [Close_issue (the (aft_issueId t))] else []))"

record af_env =
  env_now :: int
  env_coderOut :: string
  env_auditorOut :: string

definition executeDecision ::
  "af_mode \<Rightarrow> af_env \<Rightarrow> decision \<Rightarrow> autofix_task \<Rightarrow>
   state_machine_error + (autofix_task \<times> af_effect list)" where
  "executeDecision mode env d task = (case dec_action d of
     Send_to_worker \<Rightarrow>
       Inr (task, if truthy (dec_target d) \<and> truthy (dec_message d)
                  then [Send_keys (the (dec_target d)) (the (dec_message d))] else [])
   | Audit \<Rightarrow>
       (if aft_state task = Af_design_review then
          (case runDesignReview (env_now env) (env_coderOut env) (env_auditorOut env) task of
             Inl e \<Rightarrow> Inl e | Inr (t, _, effs) \<Rightarrow> Inr (t, effs))
        else if aft_state task = Af_code_review then
          (case runCodeReview (env_now env) (env_coderOut env) (env_auditorOut env) task of
             Inl e \<Rightarrow> Inl e | Inr (t, _, effs) \<Rightarrow> Inr (t, effs))
        else Inr (task, []))
   | Act_approve_design \<Rightarrow> Inr (task, [])
   | Act_approve_code \<Rightarrow> Inr (task, [])
   | Push \<Rightarrow> Inr (task, pushChanges mode task)
   | Close \<Rightarrow> Inr (task, closeIssue mode task)
   | Act_fail \<Rightarrow> Inr (task\<lparr>aft_state := Af_failed, aft_error := dec_reason d\<rparr>, [])
   | Wait \<Rightarrow> Inr (task, []))"

section \<open>The pipeline loop (index.ts)\<close>

text \<open>
  One iteration of \<open>while (task.state !== 'done' && task.state !== 'failed')\<close> and the loop itself, over
  the list of what the terminals show at each iteration; \<open>Inr (None, effs)\<close> is a loop still
  running when the list is used up.
\<close>

definition pipeline_step ::
  "af_mode \<Rightarrow> af_env \<Rightarrow> autofix_task \<Rightarrow> state_machine_error + (autofix_task \<times> af_effect list)" where
  "pipeline_step mode env task = (case fastPathDecision task of
     Some d \<Rightarrow> executeDecision mode env d task
   | None \<Rightarrow> Inr (task, []))"

fun pipeline_loop ::
  "af_mode \<Rightarrow> af_env list \<Rightarrow> autofix_task \<Rightarrow>
   state_machine_error + (autofix_task option \<times> af_effect list)" where
  "pipeline_loop mode envs task =
    (if aft_state task = Af_done \<or> aft_state task = Af_failed then Inr (Some task, [])
     else case envs of
       [] \<Rightarrow> Inr (None, [])
     | env # envs' \<Rightarrow>
         (case pipeline_step mode env task of
            Inl e \<Rightarrow> Inl e
          | Inr (t, effs) \<Rightarrow>
              (case pipeline_loop mode envs' t of
                 Inl e \<Rightarrow> Inl e
               | Inr (r, effs') \<Rightarrow> Inr (r, effs @ effs'))))"

declare pipeline_loop.simps [simp del]

section \<open>Branch names (branch-manager.ts)\<close>

definition slug_char :: "char \<Rightarrow> bool" where
  "slug_char c \<longleftrightarrow> is_lower c \<or> is_digit c"

text \<open>\<open>.replace(/[^a-z0-9]+/g, '-')\<close>: every maximal run of other characters becomes one hyphen.\<close>

fun hyphenate :: "bool \<Rightarrow> string \<Rightarrow> string" where
  "hyphenate in_run [] = []"
| "hyphenate in_run (c # cs) =
     (if slug_char c then c # hyphenate False cs
      else if in_run then hyphenate True cs
      else CHR ''-'' # hyphenate True cs)"

definition strip_hyphens :: "string \<Rightarrow> string" where
  "strip_hyphens s = rev (dropWhile (\<lambda>c. c = CHR ''-'') (rev (dropWhile (\<lambda>c. c = CHR ''-'') s)))"

definition buildBranchName :: "string \<Rightarrow> string \<Rightarrow> string" where
  "buildBranchName issueId title =
    ''fix/'' @ issueId @ ''-'' @ take 50 (strip_hyphens (hyphenate False (js_lower title)))"

section \<open>Properties\<close>

lemmas transition_defs = transition_def canTransition_def Let_def

lemma transition_Inr_cases:
  assumes "transition now t tr = Inr t'"
  shows "tr \<in> set (valid_transitions (aft_state t))"
    and "aft_maxDiscussionRounds t' = aft_maxDiscussionRounds t"
    and "tr \<noteq> Reject_design \<and> tr \<noteq> Reject_code \<Longrightarrow>
           aft_state t' = state_after tr \<and> aft_discussionRounds t' = aft_discussionRounds t"
    and "tr = Reject_design \<or> tr = Reject_code \<Longrightarrow>
           aft_discussionRounds t' = aft_discussionRounds t + 1 \<and>
           aft_state t' = (if aft_discussionRounds t + 1 > aft_maxDiscussionRounds t
                           then Af_failed else state_after tr)"
  using assms by (auto simp: transition_defs split: if_splits)

fun run_transitions ::
  "autofix_task \<Rightarrow> (int \<times> autofix_transition) list \<Rightarrow> state_machine_error + autofix_task" where
  "run_transitions t [] = Inr t"
| "run_transitions t ((now, tr) # trs) =
     (case transition now t tr of Inl e \<Rightarrow> Inl e | Inr t' \<Rightarrow> run_transitions t' trs)"

text \<open>The budget of transitions a task in a given state has left.\<close>

fun state_budget :: "autofix_state \<Rightarrow> nat" where
  "state_budget Af_planning = 5"
| "state_budget Af_design_review = 4"
| "state_budget Af_implementing = 3"
| "state_budget Af_code_review = 2"
| "state_budget Af_approved = 1"
| "state_budget Af_done = 0"
| "state_budget Af_failed = 0"

definition task_budget :: "autofix_task \<Rightarrow> nat" where
  "task_budget t = (case aft_state t of
     Af_failed \<Rightarrow> 0 | Af_done \<Rightarrow> 0
   | s \<Rightarrow> state_budget s + 2 * nat (aft_maxDiscussionRounds t - aft_discussionRounds t))"

lemma transition_budget:
  assumes "transition now t tr = Inr t'"
  shows "task_budget t' < task_budget t"
proof -
  note facts = transition_Inr_cases [OF assms]
  show ?thesis
    using facts by (cases "aft_state t") (auto simp: task_budget_def split: if_splits)
qed

lemma run_transitions_budget:
  "run_transitions t trs = Inr t' \<Longrightarrow> length trs + task_budget t' \<le> task_budget t"
proof (induction t trs rule: run_transitions.induct)
  case (1 t)
  then show ?case by simp
next
  case (2 t now tr trs)
  then show ?case
    by (auto split: sum.splits dest!: transition_budget)
qed

text \<open>
  C26. The auto-fix task machine terminates: from a freshly created task with a round limit \<open>m\<close> no
  sequence of accepted transitions is longer than \<open>2 * m + 5\<close>, whatever the reviews say.
\<close>

theorem autofix_runs_bounded:
  assumes "run_transitions (createTask now gid opts) trs = Inr t'"
    and "aft_maxDiscussionRounds (createTask now gid opts) = m" and "0 \<le> m"
  shows "int (length trs) \<le> 2 * m + 5"
  using run_transitions_budget [OF assms(1)] assms(2,3)
  by (auto simp: task_budget_def createTask_def)

definition sample_opts :: autofix_opts where
  "sample_opts = \<lparr>afo_id = Some ''t1'', afo_title = ''Fix'', afo_description = ''Body'',
     afo_coderSession = ''c'', afo_auditorSession = ''a'', afo_projectName = ''p'',
     afo_issueId = None, afo_maxDiscussionRounds = Some 0\<rparr>"

definition sample_run :: "(int \<times> autofix_transition) list" where
  "sample_run = [(1, Submit_design), (2, Approve_design), (3, Submit_code), (4, Approve_code),
     (5, Complete)]"

lemma sample_run_ok:
  "\<exists>t'. run_transitions (createTask 0 [] sample_opts) sample_run = Inr t'"
  by (simp add: sample_run_def sample_opts_def createTask_def transition_defs)

theorem autofix_runs_bounded_witness:
  "int (length sample_run) \<le> 2 * (0::int) + 5"
proof -
  obtain t' where r: "run_transitions (createTask 0 [] sample_opts) sample_run = Inr t'"
    using sample_run_ok by blast
  show ?thesis
    by (rule autofix_runs_bounded [OF r]) (simp_all add: sample_opts_def createTask_def)
qed

lemma pipeline_planning_stuck:
  "aft_state task = Af_planning \<Longrightarrow>
   \<exists>effs. pipeline_loop mode envs task = Inr (None, effs) \<and>
     (\<forall>e \<in> set effs. e = Send_keys (aft_coderSession task) (buildPlanningPrompt task)) \<and>
     (aft_coderSession task \<noteq> [] \<longrightarrow> length effs = length envs)"
proof (induction envs)
  case Nil
  then show ?case by (simp add: pipeline_loop.simps)
next
  case (Cons env envs)
  then obtain effs where ih: "pipeline_loop mode envs task = Inr (None, effs)"
    "\<forall>e \<in> set effs. e = Send_keys (aft_coderSession task) (buildPlanningPrompt task)"
    "aft_coderSession task \<noteq> [] \<longrightarrow> length effs = length envs"
    by blast
  have "pipeline_step mode env task = Inr (task,
          if aft_coderSession task \<noteq> [] then
            [Send_keys (aft_coderSession task) (buildPlanningPrompt task)] else [])"
    using Cons.prems
    by (simp add: pipeline_step_def fastPathDecision_def executeDecision_def no_decision_def
        buildPlanningPrompt_def)
  with Cons.prems ih show ?case
    by (subst pipeline_loop.simps) auto
qed

text \<open>
  C27. The pipeline loop never leaves the planning state: nothing it runs performs the transition
  \<open>submit_design\<close>, so for every sequence of terminal contents the loop started on a fresh task is still
  running after all of them, having typed the planning prompt into the coder's terminal at every
  iteration.
\<close>

theorem pipeline_never_finishes:
  "\<exists>effs. pipeline_loop mode envs (createTask now gid opts) = Inr (None, effs) \<and>
     (afo_coderSession opts = [] \<or>
      effs = replicate (length envs) (Send_keys (afo_coderSession opts)
               (buildPlanningPrompt (createTask now gid opts))))"
proof -
  have "aft_state (createTask now gid opts) = Af_planning"
    and cs: "aft_coderSession (createTask now gid opts) = afo_coderSession opts"
    by (simp_all add: createTask_def)
  from pipeline_planning_stuck [OF this(1), of mode envs] obtain effs where
    "pipeline_loop mode envs (createTask now gid opts) = Inr (None, effs)"
    "\<forall>e \<in> set effs. e = Send_keys (afo_coderSession opts)
       (buildPlanningPrompt (createTask now gid opts))"
    "afo_coderSession opts \<noteq> [] \<longrightarrow> length effs = length envs"
    using cs by auto
  then show ?thesis by (metis replicate_eqI)
qed

end
