(* ===== verification/AuditSeverity.thy ===== *)
theory AuditSeverity
  imports Prelude
begin

text \<open>
  The severity part of the audit convergence contract (\<open>src/shared/audit-convergence.ts\<close>) and the
  judgement of a verdict marker against a pair's blocking set (\<open>src/shared/task-pair.ts\<close>).
\<close>

section \<open>Severities (audit-convergence.ts)\<close>

datatype audit_severity = P0 | P1 | P2 | P3 | P4

definition audit_severity_levels :: "audit_severity list" where
  "audit_severity_levels = [P0, P1, P2, P3, P4]"

fun severity_name :: "audit_severity \<Rightarrow> string" where
  "severity_name P0 = ''P0''"
| "severity_name P1 = ''P1''"
| "severity_name P2 = ''P2''"
| "severity_name P3 = ''P3''"
| "severity_name P4 = ''P4''"

definition isAuditSeverity :: "string \<Rightarrow> bool" where
  "isAuditSeverity v \<longleftrightarrow> v \<in> set (map severity_name audit_severity_levels)"

definition audit_default_blocking :: "audit_severity list" where
  "audit_default_blocking = [P0]"

text \<open>The argument is the array of names given, \<open>None\<close> when it is missing or not an array.\<close>

definition normalizeAuditBlockingSeverities :: "string list option \<Rightarrow> audit_severity list" where
  "normalizeAuditBlockingSeverities v =
    (let selected = (case v of None \<Rightarrow> [] | Some xs \<Rightarrow> filter isAuditSeverity xs);
         levels = filter (\<lambda>l. severity_name l \<in> set selected) audit_severity_levels
     in if levels \<noteq> [] then levels else audit_default_blocking)"

definition formatAuditBlockingSeverities :: "string list option \<Rightarrow> string" where
  "formatAuditBlockingSeverities levels =
    (let names = map severity_name (normalizeAuditBlockingSeverities levels) in
     if length names > 1 then js_join '', '' (butlast names) @ '' or '' @ last names
     else js_join [] names)"

definition nonBlockingSeverities :: "audit_severity list \<Rightarrow> audit_severity list" where
  "nonBlockingSeverities blocking = filter (\<lambda>l. l \<notin> set blocking) audit_severity_levels"

instantiation audit_severity :: linorder
begin

definition less_eq_audit_severity :: "audit_severity \<Rightarrow> audit_severity \<Rightarrow> bool" where
  "less_eq_audit_severity a b \<longleftrightarrow> severity_name a \<le> severity_name b"

definition less_audit_severity :: "audit_severity \<Rightarrow> audit_severity \<Rightarrow> bool" where
  "less_audit_severity a b \<longleftrightarrow> severity_name a < severity_name b"

instance
proof
  fix x y z :: audit_severity
  have inj: "severity_name a = severity_name b \<Longrightarrow> a = b" for a b
    by (cases a; cases b) simp_all
  show "(x < y) = (x \<le> y \<and> \<not> y \<le> x)"
    by (auto simp: less_eq_audit_severity_def less_audit_severity_def)
  show "x \<le> x" by (simp add: less_eq_audit_severity_def)
  show "x \<le> y \<Longrightarrow> y \<le> z \<Longrightarrow> x \<le> z" by (simp add: less_eq_audit_severity_def)
  show "x \<le> y \<Longrightarrow> y \<le> x \<Longrightarrow> x = y" using inj by (simp add: less_eq_audit_severity_def)
  show "x \<le> y \<or> y \<le> x" by (auto simp: less_eq_audit_severity_def)
qed

end

lemma severity_name_inj [simp]: "severity_name a = severity_name b \<longleftrightarrow> a = b"
  by (cases a; cases b) simp_all

lemma severity_in_levels [simp]: "l \<in> set audit_severity_levels"
  by (cases l) (simp_all add: audit_severity_levels_def)

lemma set_severity_levels [simp]: "set audit_severity_levels = UNIV"
  using severity_in_levels by blast

lemma no_severity_iff: "filter isAuditSeverity xs = [] \<longleftrightarrow> (\<forall>l. severity_name l \<notin> set xs)"
  by (induction xs) (auto simp: isAuditSeverity_def)

lemma isAuditSeverity_name [simp]: "isAuditSeverity (severity_name l)"
  by (simp add: isAuditSeverity_def)

lemma sorted_levels: "sorted audit_severity_levels" and distinct_levels: "distinct audit_severity_levels"
  by (simp_all add: audit_severity_levels_def less_eq_audit_severity_def)

section \<open>Judging a verdict (task-pair.ts)\<close>

type_synonym attrs = "(string \<times> string) list"

abbreviation attr :: "attrs \<Rightarrow> string \<Rightarrow> string option" where
  "attr \<equiv> map_of"

type_synonym severity_counts = "audit_severity \<Rightarrow> int"

datatype verdict_verb = VPass | VRework

datatype verdict_judgement = Consistent | Inconsistent | Missing_severity | Implicit_zero

record verdict_result =
  vr_judgement :: verdict_judgement
  vr_counts :: severity_counts
  vr_blockingCount :: int
  vr_statedBlocking :: "audit_severity list option"
  vr_blockingMismatch :: bool

definition emptySeverityCounts :: severity_counts where
  "emptySeverityCounts = (\<lambda>_. 0)"

definition parseBlockingAttr :: "string option \<Rightarrow> audit_severity list option" where
  "parseBlockingAttr v = (case v of
     None \<Rightarrow> None
   | Some s \<Rightarrow> Some (normalizeAuditBlockingSeverities
                 (Some (map (\<lambda>l. js_upper (js_trim l)) (js_split CHR '','' s)))))"

definition count_attr :: "attrs \<Rightarrow> audit_severity \<Rightarrow> int option" where
  "count_attr attrs level = (case attr attrs (js_lower (severity_name level)) of
     None \<Rightarrow> None
   | Some raw \<Rightarrow> Some (case js_parse_int raw of
       None \<Rightarrow> 0 | Some n \<Rightarrow> if n > 0 then n else 0))"

definition judgeTaskPairVerdict ::
  "verdict_verb \<Rightarrow> attrs \<Rightarrow> audit_severity list \<Rightarrow> verdict_result" where
  "judgeTaskPairVerdict verb attrs pairBlocking =
    (let counts = foldl (\<lambda>c l. case count_attr attrs l of None \<Rightarrow> c | Some n \<Rightarrow> c(l := n))
                    emptySeverityCounts audit_severity_levels;
         hasSeverity = (attr attrs ''blocking'' \<noteq> None \<or>
                        (\<exists>l \<in> set audit_severity_levels. count_attr attrs l \<noteq> None));
         stated = parseBlockingAttr (attr attrs ''blocking'');
         mismatch = (case stated of None \<Rightarrow> False | Some b \<Rightarrow> b \<noteq> pairBlocking);
         blockingCount = foldl (\<lambda>sum l. sum + counts l) 0 pairBlocking
     in \<lparr>vr_judgement =
          (if \<not> hasSeverity then (case verb of VPass \<Rightarrow> Implicit_zero | VRework \<Rightarrow> Missing_severity)
           else case verb of
             VRework \<Rightarrow> if blockingCount \<ge> 1 then Consistent else Inconsistent
           | VPass \<Rightarrow> if blockingCount = 0 then Consistent else Inconsistent),
         vr_counts = counts, vr_blockingCount = blockingCount,
         vr_statedBlocking = stated, vr_blockingMismatch = mismatch\<rparr>)"

definition isAppliedVerdict :: "verdict_judgement \<Rightarrow> bool" where
  "isAppliedVerdict j \<longleftrightarrow> j = Consistent \<or> j = Implicit_zero"

definition formatTaskPairSeverityCounts :: "severity_counts \<Rightarrow> string" where
  "formatTaskPairSeverityCounts counts = js_join '' ''
     (map (\<lambda>l. js_lower (severity_name l) @ ''='' @ int_str (counts l)) audit_severity_levels)"

section \<open>Properties\<close>

lemma normalize_mem:
  "l \<in> set (normalizeAuditBlockingSeverities v) \<longleftrightarrow>
     (case v of None \<Rightarrow> l = P0
      | Some xs \<Rightarrow> if filter isAuditSeverity xs = [] then l = P0 else severity_name l \<in> set xs)"
proof (cases v)
  case None
  then show ?thesis
    by (simp add: normalizeAuditBlockingSeverities_def audit_default_blocking_def)
next
  case (Some xs)
  have lev: "filter (\<lambda>k. severity_name k \<in> set (filter isAuditSeverity xs)) audit_severity_levels = [] \<longleftrightarrow>
      filter isAuditSeverity xs = []"
    by (auto simp: filter_empty_conv no_severity_iff [unfolded filter_empty_conv])
  show ?thesis
  proof (cases "filter isAuditSeverity xs = []")
    case True
    then show ?thesis using Some lev
      by (simp add: normalizeAuditBlockingSeverities_def audit_default_blocking_def Let_def)
  next
    case False
    then show ?thesis using Some lev
      by (simp add: normalizeAuditBlockingSeverities_def Let_def)
  qed
qed

lemma normalize_ne [simp]: "normalizeAuditBlockingSeverities v \<noteq> []"
  by (simp add: normalizeAuditBlockingSeverities_def audit_default_blocking_def Let_def)

lemma normalize_sorted: "sorted (normalizeAuditBlockingSeverities v)"
  and normalize_distinct: "distinct (normalizeAuditBlockingSeverities v)"
  by (simp_all add: normalizeAuditBlockingSeverities_def audit_default_blocking_def Let_def
      sorted_filter [of id, simplified] sorted_levels distinct_levels)

text \<open>
  A blocking set is canonical whatever the configuration holds: never empty, in the order P0 to
  P4 and without repetition, the names known among those given when there is one and the
  default P0 otherwise; normalising a normalised set changes nothing.
\<close>

theorem blocking_set_canonical:
  shows "normalizeAuditBlockingSeverities v \<noteq> [] \<and>
    sorted (normalizeAuditBlockingSeverities v) \<and> distinct (normalizeAuditBlockingSeverities v) \<and>
    set (normalizeAuditBlockingSeverities v) =
      (let known = {l. \<exists>xs. v = Some xs \<and> severity_name l \<in> set xs}
       in if known = {} then {P0} else known) \<and>
    normalizeAuditBlockingSeverities (Some (map severity_name (normalizeAuditBlockingSeverities v))) =
      normalizeAuditBlockingSeverities v"
proof -
  let ?n = "normalizeAuditBlockingSeverities"
  have mem: "set (?n v) = (let known = {l. \<exists>xs. v = Some xs \<and> severity_name l \<in> set xs}
       in if known = {} then {P0} else known)"
    by (cases v) (auto simp: normalize_mem no_severity_iff Let_def split: if_splits)
  have "set (?n (Some (map severity_name (?n v)))) = set (?n v)"
  proof -
    have "filter isAuditSeverity (map severity_name (?n v)) \<noteq> []"
      by (cases "?n v") simp_all
    then show ?thesis by (auto simp: normalize_mem [of _ "Some (map severity_name (?n v))"])
  qed
  then have "?n (Some (map severity_name (?n v))) = ?n v"
    by (intro sorted_distinct_set_unique) (simp_all add: normalize_sorted normalize_distinct)
  with mem show ?thesis by (simp add: normalize_sorted normalize_distinct)
qed

definition stated_count :: "attrs \<Rightarrow> audit_severity \<Rightarrow> int" where
  "stated_count attrs l = opt_default 0 (count_attr attrs l)"

lemma count_attr_nonneg: "count_attr attrs l = Some n \<Longrightarrow> 0 \<le> n"
  by (auto simp: count_attr_def split: option.splits if_splits)

lemma stated_count_nonneg: "0 \<le> stated_count attrs l"
  by (cases "count_attr attrs l") (auto simp: stated_count_def count_attr_nonneg)

lemma judge_counts: "vr_counts (judgeTaskPairVerdict verb attrs b) = stated_count attrs"
proof
  fix l
  show "vr_counts (judgeTaskPairVerdict verb attrs b) l = stated_count attrs l"
    by (cases l) (auto simp: judgeTaskPairVerdict_def Let_def audit_severity_levels_def
        emptySeverityCounts_def stated_count_def split: option.splits)
qed

lemma foldl_sum_list: "foldl (\<lambda>s l. s + f l) (a::int) xs = a + sum_list (map f xs)"
  by (induction xs arbitrary: a) auto

lemma judge_blockingCount:
  "vr_blockingCount (judgeTaskPairVerdict verb attrs b) = sum_list (map (stated_count attrs) b)"
  using judge_counts [of verb attrs b]
  by (simp add: judgeTaskPairVerdict_def Let_def foldl_sum_list)

lemma sum_counts_pos: "1 \<le> sum_list (map (stated_count attrs) b) \<longleftrightarrow> (\<exists>l \<in> set b. 1 \<le> stated_count attrs l)"
proof -
  have "0 \<le> sum_list (map (stated_count attrs) xs)" for xs
    by (induction xs) (auto simp: stated_count_nonneg)
  moreover have "1 \<le> x + y \<longleftrightarrow> 1 \<le> x \<or> 1 \<le> y" if "0 \<le> x" "0 \<le> y" for x y :: int
    using that by linarith
  ultimately show ?thesis
    by (induction b) (auto simp: stated_count_nonneg)
qed

lemma sum_counts_zero: "sum_list (map (stated_count attrs) b) = 0 \<longleftrightarrow> (\<forall>l \<in> set b. stated_count attrs l = 0)"
proof -
  have nn: "0 \<le> sum_list (map (stated_count attrs) b)"
    by (induction b) (auto simp: stated_count_nonneg)
  have z: "stated_count attrs l = 0 \<longleftrightarrow> \<not> 1 \<le> stated_count attrs l" for l
    using stated_count_nonneg [of attrs l] by linarith
  have "sum_list (map (stated_count attrs) b) = 0 \<longleftrightarrow> \<not> 1 \<le> sum_list (map (stated_count attrs) b)"
    using nn by linarith
  then show ?thesis unfolding z using sum_counts_pos [of attrs b] by blast
qed

definition states_severity :: "attrs \<Rightarrow> bool" where
  "states_severity attrs \<longleftrightarrow> attr attrs ''blocking'' \<noteq> None \<or> (\<exists>l. count_attr attrs l \<noteq> None)"

lemma verdict_applies:
  "isAppliedVerdict (vr_judgement (judgeTaskPairVerdict verb attrs blocking)) \<longleftrightarrow>
     (case verb of VRework \<Rightarrow> \<exists>l \<in> set blocking. 1 \<le> stated_count attrs l
      | VPass \<Rightarrow> \<not> (\<exists>l \<in> set blocking. 1 \<le> stated_count attrs l))"
proof -
  have none: "\<not> states_severity attrs \<Longrightarrow> stated_count attrs l = 0" for l
    by (auto simp: states_severity_def stated_count_def)
  have cnt: "vr_blockingCount (judgeTaskPairVerdict verb attrs blocking) =
      sum_list (map (stated_count attrs) blocking)" for verb
    by (rule judge_blockingCount)
  have sev: "(attr attrs ''blocking'' \<noteq> None \<or>
      (\<exists>l \<in> set audit_severity_levels. count_attr attrs l \<noteq> None)) = states_severity attrs"
    by (simp add: states_severity_def)
  have j: "vr_judgement (judgeTaskPairVerdict verb attrs blocking) =
      (if \<not> states_severity attrs then (case verb of VPass \<Rightarrow> Implicit_zero | VRework \<Rightarrow> Missing_severity)
       else case verb of
         VRework \<Rightarrow> if sum_list (map (stated_count attrs) blocking) \<ge> 1 then Consistent else Inconsistent
       | VPass \<Rightarrow> if sum_list (map (stated_count attrs) blocking) = 0 then Consistent else Inconsistent)"
    for verb
    using cnt [of verb] sev by (simp add: judgeTaskPairVerdict_def Let_def)
  have nn: "stated_count attrs l = 0 \<longleftrightarrow> \<not> 1 \<le> stated_count attrs l" for l
    using stated_count_nonneg [of attrs l] by linarith
  show ?thesis
  proof (cases "states_severity attrs")
    case True
    then show ?thesis
      by (simp add: j sum_counts_pos sum_counts_zero isAppliedVerdict_def nn split: verdict_verb.split)
  next
    case False
    then show ?thesis using none by (auto simp: j isAppliedVerdict_def split: verdict_verb.split)
  qed
qed

text \<open>
  Which verdicts apply: a REWORK applies exactly when it states at least one finding at a level
  that blocks the pair, a PASS exactly when it states none (also when it states no severity at
  all); a REWORK without any severity never applies.
\<close>

theorem verdict_applies_iff:
  "(isAppliedVerdict (vr_judgement (judgeTaskPairVerdict VRework attrs blocking)) \<longleftrightarrow>
      (\<exists>l \<in> set blocking. 1 \<le> stated_count attrs l)) \<and>
   (isAppliedVerdict (vr_judgement (judgeTaskPairVerdict VPass attrs blocking)) \<longleftrightarrow>
      \<not> (\<exists>l \<in> set blocking. 1 \<le> stated_count attrs l))"
  using verdict_applies [of VRework attrs blocking] verdict_applies [of VPass attrs blocking] by simp

end
