(* ===== verification/Checklist.thy ===== *)
theory Checklist
  imports AuditSeverity
begin

text \<open>
  The Markdown checklist of a pair brief (\<open>src/shared/task-pair-checklist.ts\<close>): its parser, the update
  of its boxes, and the CHECK marker's attributes (\<open>src/shared/task-pair.ts\<close>).
\<close>

section \<open>Lines\<close>

text \<open>\<open>text.split(/\r?\n/)\<close>: a carriage return right before a line feed belongs to the separator.\<close>

abbreviation cr :: char where
  "cr \<equiv> CHR 0x0D"

definition chomp :: "string \<Rightarrow> string" where
  "chomp l = (if l \<noteq> [] \<and> last l = cr then butlast l else l)"

definition js_lines :: "string \<Rightarrow> string list" where
  "js_lines s = (let ps = js_split nl s in map chomp (butlast ps) @ [last ps])"

section \<open>The checklist grammar\<close>

record checklist_item =
  ci_index :: nat
  ci_line :: nat
  ci_text :: string
  ci_implemented :: bool
  ci_audited :: bool
  ci_hasAuditBox :: bool

definition is_mark :: "char \<Rightarrow> bool" where
  "is_mark c \<longleftrightarrow> c = CHR '' '' \<or> c = CHR ''x'' \<or> c = CHR ''X''"

definition dot :: "char \<Rightarrow> bool" where
  "dot c \<longleftrightarrow> c \<noteq> nl \<and> c \<noteq> cr"

text \<open>
  \<open>/^(\s*-\s+)\[([ xX])\](?:\[([ xX])\])?\s+(.*)$/\<close>.  No backtracking is needed: a bracket follows the
  first group, so both runs of white space are maximal, and the text after the last one takes the
  rest of the line.  The result is the four groups.
\<close>

definition checklist_box :: "string \<Rightarrow> (char \<times> string) option" where
  "checklist_box s = (case s of
     a # m # b # r \<Rightarrow> if a = CHR ''['' \<and> is_mark m \<and> b = CHR '']'' then Some (m, r) else None
   | _ \<Rightarrow> None)"

definition checklist_tail :: "string \<Rightarrow> string option" where
  "checklist_tail s =
    (if takeWhile is_ws s = [] then None
     else let t = dropWhile is_ws s in if list_all dot t then Some t else None)"

definition checklist_match :: "string \<Rightarrow> (string \<times> char \<times> char option \<times> string) option" where
  "checklist_match line =
    (let lead = takeWhile is_ws line; r = dropWhile is_ws line in
     case r of
       [] \<Rightarrow> None
     | c # r1 \<Rightarrow>
         if c \<noteq> CHR ''-'' \<or> takeWhile is_ws r1 = [] then None
         else (case checklist_box (dropWhile is_ws r1) of
             None \<Rightarrow> None
           | Some (m2, r2) \<Rightarrow>
               let g1 = lead @ [c] @ takeWhile is_ws r1 in
               (case checklist_box r2 of
                  Some (m3, r3) \<Rightarrow>
                    (case checklist_tail r3 of
                       None \<Rightarrow> None | Some t \<Rightarrow> Some (g1, m2, Some m3, t))
                | None \<Rightarrow>
                    (case checklist_tail r2 of
                       None \<Rightarrow> None | Some t \<Rightarrow> Some (g1, m2, None, t)))))"

text \<open>\<open>/^\s*(`{3,}|~{3,})/\<close>, the character of the fence when the line opens or closes one.\<close>

definition checklist_fence :: "string \<Rightarrow> char option" where
  "checklist_fence line =
    (let r = dropWhile is_ws line in
     if starts_with r ''```'' then Some (CHR ''`'')
     else if starts_with r ''~~~'' then Some (CHR ''~'') else None)"

fun is_x :: "char \<Rightarrow> bool" where
  "is_x c = (char_lower c = CHR ''x'')"

definition checklist_item_of ::
  "nat \<Rightarrow> nat \<Rightarrow> (string \<times> char \<times> char option \<times> string) \<Rightarrow> checklist_item" where
  "checklist_item_of idx ln g = (case g of (_, m2, m3, t) \<Rightarrow>
     \<lparr>ci_index = idx, ci_line = ln, ci_text = t, ci_implemented = is_x m2,
      ci_audited = (case m3 of None \<Rightarrow> False | Some m \<Rightarrow> is_x m), ci_hasAuditBox = (m3 \<noteq> None)\<rparr>)"

text \<open>
  The loop over the lines, with the open fence's character (\<open>fenced\<close>, \<open>fenceChar\<close>), the number of items
  found so far and the index of the line.
\<close>

fun checklist_scan :: "char option \<Rightarrow> nat \<Rightarrow> nat \<Rightarrow> string list \<Rightarrow> checklist_item list" where
  "checklist_scan fence n ln [] = []"
| "checklist_scan fence n ln (line # ls) =
     (case checklist_fence line of
        Some c \<Rightarrow>
          checklist_scan (case fence of None \<Rightarrow> Some c | Some f \<Rightarrow> if c = f then None else Some f)
            n (Suc ln) ls
      | None \<Rightarrow>
          if fence \<noteq> None then checklist_scan fence n (Suc ln) ls
          else (case checklist_match line of
                  None \<Rightarrow> checklist_scan fence n (Suc ln) ls
                | Some g \<Rightarrow> checklist_item_of (Suc n) ln g # checklist_scan fence (Suc n) (Suc ln) ls))"

definition parseTaskPairChecklist :: "string \<Rightarrow> checklist_item list" where
  "parseTaskPairChecklist markdown = checklist_scan None 0 0 (js_lines markdown)"

definition taskPairChecklistCounts :: "string \<Rightarrow> nat \<times> nat \<times> nat" where
  "taskPairChecklistCounts markdown =
    (let items = parseTaskPairChecklist markdown in
     (length items, length (filter ci_implemented items), length (filter ci_audited items)))"

datatype checklist_box_kind = Box_implemented | Box_audited

definition checklist_rewrite :: "checklist_box_kind \<Rightarrow> bool \<Rightarrow> string \<Rightarrow> string" where
  "checklist_rewrite box checked line = (case checklist_match line of
     None \<Rightarrow> line
   | Some (g1, m2, m3, t) \<Rightarrow>
       let mark = (if checked then CHR ''x'' else CHR '' '');
           first = (if box = Box_implemented then mark else m2);
           second = (if box = Box_audited then mark else opt_default (CHR '' '') m3)
       in g1 @ ''['' @ [first] @ '']'' @
          (if m3 \<noteq> None \<or> box = Box_audited then ''['' @ [second] @ '']'' else []) @ '' '' @ t)"

definition updateTaskPairChecklist ::
  "string \<Rightarrow> nat list \<Rightarrow> checklist_box_kind \<Rightarrow> bool \<Rightarrow> string" where
  "updateTaskPairChecklist markdown indexes box checked =
    (if indexes = [] then markdown
     else
       let newline = (if js_includes markdown [cr, nl] then [cr, nl] else [nl]);
           lines = js_lines markdown;
           items = parseTaskPairChecklist markdown
       in js_join newline
            (foldl (\<lambda>ls it. if ci_index it \<in> set indexes
                            then ls[ci_line it := checklist_rewrite box checked (ls ! ci_line it)] else ls)
              lines items))"

section \<open>The CHECK marker (task-pair.ts)\<close>

record checklist_check =
  cc_box :: checklist_box_kind
  cc_indexes :: "nat list"
  cc_checked :: bool

definition js_max_safe :: int where
  "js_max_safe = 2 ^ 53 - 1"

text \<open>\<open>/^\d+(?:,\d+)*$/\<close>: every comma-separated part is a non-empty run of digits.\<close>

definition digit_list :: "string \<Rightarrow> bool" where
  "digit_list s \<longleftrightarrow> list_all (\<lambda>p. p \<noteq> [] \<and> list_all is_digit p) (js_split CHR '','' s)"

definition parse_check_indexes :: "string \<Rightarrow> nat list option" where
  "parse_check_indexes raw =
    (if raw = ''all'' then Some []
     else if \<not> digit_list raw then None
     else let ns = map js_parse_int (js_split CHR '','' raw) in
       if list_ex (\<lambda>n. case n of None \<Rightarrow> True | Some i \<Rightarrow> i > js_max_safe \<or> i < 1) ns then None
       else Some (map (\<lambda>n. nat (the n)) ns))"

definition parse_box :: "string option \<Rightarrow> checklist_box_kind option" where
  "parse_box b =
    (if b = Some ''implemented'' then Some Box_implemented
     else if b = Some ''audited'' then Some Box_audited else None)"

definition parseTaskPairChecklistCheck :: "attrs \<Rightarrow> checklist_check option" where
  "parseTaskPairChecklistCheck attrs =
    (case parse_box (attr attrs ''box'') of
       None \<Rightarrow> None
     | Some box \<Rightarrow>
         if \<not> truthy (attr attrs ''items'') then None
         else (case parse_check_indexes (the (attr attrs ''items'')) of
             None \<Rightarrow> None
           | Some idx \<Rightarrow>
               let checkedRaw = attr attrs ''checked'' in
               if checkedRaw \<noteq> None \<and> checkedRaw \<noteq> Some ''true'' \<and> checkedRaw \<noteq> Some ''false''
               then None
               else Some \<lparr>cc_box = box, cc_indexes = idx, cc_checked = (checkedRaw \<noteq> Some ''false'')\<rparr>))"

definition resolveTaskPairChecklistIndexes :: "string \<Rightarrow> checklist_check \<Rightarrow> nat list" where
  "resolveTaskPairChecklistIndexes markdown check =
    (if cc_indexes check \<noteq> [] then sort (remdups (cc_indexes check))
     else map ci_index (parseTaskPairChecklist markdown))"

definition applyTaskPairChecklistCheck :: "string \<Rightarrow> checklist_check \<Rightarrow> string \<times> nat list" where
  "applyTaskPairChecklistCheck markdown check =
    (let indexes = resolveTaskPairChecklistIndexes markdown check in
     (updateTaskPairChecklist markdown indexes (cc_box check) (cc_checked check), indexes))"

section \<open>Properties\<close>

definition set_box :: "checklist_box_kind \<Rightarrow> bool \<Rightarrow> checklist_item \<Rightarrow> checklist_item" where
  "set_box box checked it = (case box of
     Box_implemented \<Rightarrow> it\<lparr>ci_implemented := checked\<rparr>
   | Box_audited \<Rightarrow> it\<lparr>ci_audited := checked, ci_hasAuditBox := True\<rparr>)"

lemma js_lines_ne [simp]: "js_lines s \<noteq> []"
  by (simp add: js_lines_def Let_def)

lemma chomp_subset: "set (chomp p) \<subseteq> set p"
  by (auto simp: chomp_def dest: in_set_butlastD)

lemma js_lines_no_nl:
  assumes "l \<in> set (js_lines s)"
  shows "nl \<notin> set l"
proof -
  have "\<exists>p. p \<in> set (js_split nl s) \<and> set l \<subseteq> set p"
  proof (cases "l = last (js_split nl s)")
    case True
    then show ?thesis using last_in_set [OF js_split_ne [of nl s]] by (intro exI [of _ l]) auto
  next
    case False
    then obtain x where "x \<in> set (butlast (js_split nl s))" "l = chomp x"
      using assms by (auto simp: js_lines_def Let_def)
    then show ?thesis using chomp_subset [of x] in_set_butlastD [of x "js_split nl s"] by auto
  qed
  then show ?thesis using js_split_no_sep by blast
qed

lemma ws_facts [simp]: "is_ws (CHR '' '')" "\<not> is_ws (CHR ''-'')" "\<not> is_ws (CHR ''['')"
  "\<not> is_ws (CHR '']'')" "\<not> is_ws (CHR ''`'')" "\<not> is_ws (CHR ''~'')"
  by (simp_all add: is_ws_def)

lemma checklist_box_simps [simp]:
  "checklist_box (CHR ''['' # m # CHR '']'' # r) = (if is_mark m then Some (m, r) else None)"
  "checklist_box (CHR '' '' # r) = None"
  by (auto simp: checklist_box_def split: list.splits)

lemma checklist_box_mark: "checklist_box s = Some (m, r) \<Longrightarrow> is_mark m"
  by (auto simp: checklist_box_def split: list.splits if_splits)

lemma checklist_tail_props:
  assumes "checklist_tail s = Some t"
  shows "list_all dot t" and "t = [] \<or> \<not> is_ws (hd t)"
proof -
  from assms have t: "t = dropWhile is_ws s" "list_all dot t"
    by (auto simp: checklist_tail_def Let_def split: if_splits)
  then show "list_all dot t" "t = [] \<or> \<not> is_ws (hd t)"
    using hd_dropWhile [of is_ws s] by auto
qed

lemma checklist_tail_build:
  "list_all dot t \<Longrightarrow> t = [] \<or> \<not> is_ws (hd t) \<Longrightarrow> checklist_tail (CHR '' '' # t) = Some t"
  by (cases t) (auto simp: checklist_tail_def is_ws_def Let_def)

lemma checklist_match_split:
  assumes "checklist_match line = Some (g1, m2, m3, t)"
  obtains lead ws where "g1 = lead @ ''-'' @ ws" "list_all is_ws lead" "list_all is_ws ws" "ws \<noteq> []"
    "is_mark m2" "\<And>m. m3 = Some m \<Longrightarrow> is_mark m" "list_all dot t" "t = [] \<or> \<not> is_ws (hd t)"
proof -
  from assms obtain r1 m r2 where
    d: "dropWhile is_ws line = CHR ''-'' # r1" "takeWhile is_ws r1 \<noteq> []"
      "checklist_box (dropWhile is_ws r1) = Some (m, r2)"
    by (auto simp: checklist_match_def Let_def split: list.splits if_splits option.splits prod.splits)
  have rest: "m2 = m \<and> g1 = takeWhile is_ws line @ ''-'' @ takeWhile is_ws r1 \<and>
      ((\<exists>m' r3. m3 = Some m' \<and> checklist_box r2 = Some (m', r3) \<and> checklist_tail r3 = Some t) \<or>
       (m3 = None \<and> checklist_tail r2 = Some t))"
    using assms d by (auto simp: checklist_match_def Let_def split: option.splits prod.splits)
  have ws: "list_all is_ws (takeWhile is_ws s)" for s
    by (auto simp: list_all_iff dest: set_takeWhileD)
  have tl: "list_all dot t \<and> (t = [] \<or> \<not> is_ws (hd t))"
    using rest checklist_tail_props by blast
  have mm: "is_mark m'" if "m3 = Some m'" for m'
    using rest that checklist_box_mark by blast
  show ?thesis
    by (rule that [of "takeWhile is_ws line" "takeWhile is_ws r1"])
       (use d(2) rest ws tl mm checklist_box_mark [OF d(3)] in auto)
qed

lemma takeWhile_ws_append:
  "list_all is_ws ws \<Longrightarrow> r = [] \<or> \<not> is_ws (hd r) \<Longrightarrow>
   takeWhile is_ws (ws @ r) = ws \<and> dropWhile is_ws (ws @ r) = r"
  by (induction ws) (auto simp: list_all_iff, (cases r, auto)+)

lemma checklist_match_build:
  assumes "list_all is_ws lead" "list_all is_ws ws" "ws \<noteq> []" "is_mark m2"
    "\<And>m. m3 = Some m \<Longrightarrow> is_mark m" "list_all dot t" "t = [] \<or> \<not> is_ws (hd t)"
  shows "checklist_match (lead @ ''-'' @ ws @ ''['' @ [m2] @ '']'' @
      (case m3 of None \<Rightarrow> [] | Some m \<Rightarrow> ''['' @ [m] @ '']'') @ '' '' @ t) =
    Some (lead @ ''-'' @ ws, m2, m3, t)"
proof -
  have ht: "takeWhile is_ws t = []" "dropWhile is_ws t = t" using assms(7) by (cases t; simp)+
  have l: "takeWhile is_ws (lead @ CHR ''-'' # x) = lead" "dropWhile is_ws (lead @ CHR ''-'' # x) = CHR ''-'' # x" for x
    using takeWhile_ws_append [OF assms(1), of "CHR ''-'' # x"] by simp_all
  have w: "takeWhile is_ws (ws @ CHR ''['' # x) = ws" "dropWhile is_ws (ws @ CHR ''['' # x) = CHR ''['' # x" for x
    using takeWhile_ws_append [OF assms(2), of "CHR ''['' # x"] by simp_all
  show ?thesis
  proof (cases m3)
    case None
    then show ?thesis using assms ht l w
      by (simp add: checklist_match_def Let_def checklist_tail_build)
  next
    case (Some m)
    then show ?thesis using assms ht l w
      by (simp add: checklist_match_def Let_def checklist_tail_build)
  qed
qed

lemma checklist_match_rewrite:
  assumes "checklist_match line = Some (g1, m2, m3, t)"
  shows "checklist_match (checklist_rewrite box checked line) =
    Some (g1, if box = Box_implemented then (if checked then CHR ''x'' else CHR '' '') else m2,
          if box = Box_audited then Some (if checked then CHR ''x'' else CHR '' '') else m3, t)"
proof -
  let ?mark = "if checked then CHR ''x'' else CHR '' ''"
  from assms obtain lead ws where g: "g1 = lead @ ''-'' @ ws" "list_all is_ws lead" "list_all is_ws ws"
    "ws \<noteq> []" "is_mark m2" "\<And>m. m3 = Some m \<Longrightarrow> is_mark m" "list_all dot t" "t = [] \<or> \<not> is_ws (hd t)"
    by (rule checklist_match_split) blast
  have mk: "is_mark ?mark" by (simp add: is_mark_def)
  let ?n2 = "if box = Box_implemented then ?mark else m2"
  let ?n3 = "if box = Box_audited then Some ?mark else m3"
  have eq: "checklist_rewrite box checked line = lead @ ''-'' @ ws @ ''['' @ [?n2] @ '']'' @
      (case ?n3 of None \<Rightarrow> [] | Some m \<Rightarrow> ''['' @ [m] @ '']'') @ '' '' @ t"
    using assms g(1) by (auto simp: checklist_rewrite_def Let_def split: option.splits)
  have "checklist_match (checklist_rewrite box checked line) = Some (lead @ ''-'' @ ws, ?n2, ?n3, t)"
    unfolding eq by (rule checklist_match_build) (use g mk in \<open>auto split: if_splits\<close>)
  then show ?thesis using g(1) by simp
qed

text \<open>The lines after an update, by the traversal of the parser.\<close>

fun scan_update ::
  "nat set \<Rightarrow> checklist_box_kind \<Rightarrow> bool \<Rightarrow> char option \<Rightarrow> nat \<Rightarrow> string list \<Rightarrow> string list" where
  "scan_update wanted box checked fence n [] = []"
| "scan_update wanted box checked fence n (line # ls) =
     (case checklist_fence line of
        Some c \<Rightarrow> line # scan_update wanted box checked
          (case fence of None \<Rightarrow> Some c | Some f \<Rightarrow> if c = f then None else Some f) n ls
      | None \<Rightarrow>
          if fence \<noteq> None then line # scan_update wanted box checked fence n ls
          else (case checklist_match line of
                  None \<Rightarrow> line # scan_update wanted box checked fence n ls
                | Some g \<Rightarrow> (if Suc n \<in> wanted then checklist_rewrite box checked line else line) #
                    scan_update wanted box checked fence (Suc n) ls))"

lemma foldl_scan_update:
  "foldl (\<lambda>ls it. if ci_index it \<in> wanted
                  then ls[ci_line it := checklist_rewrite box checked (ls ! ci_line it)] else ls)
     (pre @ ls) (checklist_scan fence n (length pre) ls) =
   pre @ scan_update wanted box checked fence n ls"
proof (induction ls arbitrary: pre fence n)
  case Nil
  then show ?case by simp
next
  case (Cons line ls)
  have ih: "foldl (\<lambda>ls it. if ci_index it \<in> wanted
                  then ls[ci_line it := checklist_rewrite box checked (ls ! ci_line it)] else ls)
     (pre @ l # ls) (checklist_scan fence n (Suc (length pre)) ls) =
     pre @ l # scan_update wanted box checked fence n ls" for l fence n
    using Cons.IH [of "pre @ [l]" fence n] by simp
  show ?case
    by (auto simp: ih checklist_item_of_def list_update_append split: option.splits prod.splits)
qed

lemma checklist_match_no_fence:
  assumes "checklist_match line = Some g"
  shows "checklist_fence line = None"
proof -
  obtain r where "dropWhile is_ws line = CHR ''-'' # r"
    using assms by (auto simp: checklist_match_def Let_def split: list.splits if_splits)
  then show ?thesis by (simp add: checklist_fence_def)
qed

lemma scan_update_scan:
  "checklist_scan fence n ln (scan_update wanted box checked fence n ls) =
   map (\<lambda>it. if ci_index it \<in> wanted then set_box box checked it else it)
     (checklist_scan fence n ln ls)"
proof (induction ls arbitrary: fence n ln)
  case Nil
  then show ?case by simp
next
  case (Cons line ls)
  show ?case
  proof (cases "checklist_fence line = None \<and> fence = None \<and> checklist_match line \<noteq> None")
    case True
    then obtain g1 m2 m3 t where g: "checklist_match line = Some (g1, m2, m3, t)"
      by (cases "checklist_match line") auto
    note rw = checklist_match_rewrite [OF g, of box checked]
    have x: "is_x (CHR ''x'')" "\<not> is_x (CHR '' '')" by (simp_all add: char_lower_def is_upper_def char_between_def)
    show ?thesis
      using True g rw checklist_match_no_fence [OF rw] Cons.IH x
      by (cases box) (auto simp: checklist_item_of_def set_box_def)
  next
    case False
    then show ?thesis using Cons.IH by (auto split: option.splits)
  qed
qed

definition line_kept :: "string \<Rightarrow> string \<Rightarrow> bool" where
  "line_kept l l' \<longleftrightarrow> l' = l \<or> ((nl \<notin> set l \<longrightarrow> nl \<notin> set l') \<and> l' \<noteq> [] \<and> last l' \<noteq> cr)"

lemma checklist_match_prefix:
  assumes "checklist_match line = Some (g1, m2, m3, t)"
  shows "\<exists>r. line = g1 @ r"
proof -
  from assms obtain r1 where d: "dropWhile is_ws line = CHR ''-'' # r1"
    by (auto simp: checklist_match_def Let_def split: list.splits if_splits)
  then have g1: "g1 = takeWhile is_ws line @ CHR ''-'' # takeWhile is_ws r1"
    using assms by (auto simp: checklist_match_def Let_def split: option.splits if_splits prod.splits)
  have "line = takeWhile is_ws line @ CHR ''-'' # takeWhile is_ws r1 @ dropWhile is_ws r1"
    by (metis d takeWhile_dropWhile_id)
  then have "line = g1 @ dropWhile is_ws r1" using g1 by simp
  then show ?thesis ..
qed

lemma line_kept_rewrite:
  assumes "checklist_match line = Some g"
  shows "line_kept line (checklist_rewrite box checked line)"
proof -
  obtain g1 m2 m3 t where g: "checklist_match line = Some (g1, m2, m3, t)" using assms by (cases g) auto
  from g have t: "list_all dot t" by (rule checklist_match_split)
  have g1: "set g1 \<subseteq> set line" using checklist_match_prefix [OF g] by auto
  have m: "is_mark m2" "\<And>m. m3 = Some m \<Longrightarrow> is_mark m" using g by (auto elim: checklist_match_split)
  have nlm: "\<not> is_mark nl" by (simp add: is_mark_def nl_def)
  have "nl \<notin> set t" using t by (auto simp: list_all_iff dot_def)
  moreover have "t \<noteq> [] \<Longrightarrow> last t \<noteq> cr" using t by (auto simp: list_all_iff dot_def)
  ultimately show ?thesis
    using g g1 m nlm by (auto simp: line_kept_def checklist_rewrite_def Let_def nl_def split: option.splits if_splits)
qed

lemma scan_update_kept:
  "list_all2 line_kept ls (scan_update wanted box checked fence n ls)"
proof (induction ls arbitrary: fence n)
  case Nil
  then show ?case by simp
next
  case (Cons line ls)
  have refl: "line_kept line line" by (simp add: line_kept_def)
  show ?case using Cons.IH refl line_kept_rewrite by (auto split: option.splits)
qed

lemma join_infix: "p \<in> set (butlast ps) \<Longrightarrow> \<exists>a b. js_join sep ps = a @ p @ sep @ b"
proof (induction ps)
  case Nil
  then show ?case by simp
next
  case (Cons q ps)
  then have ne: "ps \<noteq> []" and cs: "p = q \<or> p \<in> set (butlast ps)" by (cases ps; auto)+
  from cs show ?case
  proof
    assume "p = q"
    then show ?case using ne by (intro exI [of _ "[]"] exI [of _ "js_join sep ps"]) (simp add: js_join_Cons)
  next
    assume "p \<in> set (butlast ps)"
    then obtain a b where "js_join sep ps = a @ p @ sep @ b" using Cons.IH by blast
    then show ?case using ne
      by (intro exI [of _ "q @ sep @ a"] exI [of _ b]) (simp add: js_join_Cons)
  qed
qed

lemma no_crlf_lines:
  assumes "\<not> js_includes s [cr, nl]" and "p \<in> set (butlast (js_split nl s))"
  shows "p = [] \<or> last p \<noteq> cr"
proof (rule ccontr)
  assume "\<not> ?thesis"
  then obtain q where "p = q @ [cr]" by (metis append_butlast_last_id)
  moreover obtain a b where "s = a @ p @ [nl] @ b"
    using join_infix [OF assms(2), of "[nl]"] by (auto simp: js_join_split)
  ultimately have "s = (a @ q) @ [cr, nl] @ b" by simp
  then show False using assms(1) unfolding js_includes_iff by blast
qed

lemma js_join_crlf: "ls \<noteq> [] \<Longrightarrow>
  js_join [cr, nl] ls = js_join [nl] (map (\<lambda>l. l @ [cr]) (butlast ls) @ [last ls])"
  by (induction ls) (auto simp: js_join_Cons)

lemma js_lines_join_crlf:
  assumes "ls \<noteq> []" and "\<And>l. l \<in> set ls \<Longrightarrow> nl \<notin> set l"
  shows "js_lines (js_join [cr, nl] ls) = ls"
proof -
  have "js_split nl (js_join [cr, nl] ls) = map (\<lambda>l. l @ [cr]) (butlast ls) @ [last ls]"
    unfolding js_join_crlf [OF assms(1)]
    by (rule js_split_join) (use assms in \<open>auto simp: nl_def dest: in_set_butlastD\<close>)
  then show ?thesis using assms(1) by (simp add: js_lines_def chomp_def o_def)
qed

lemma js_lines_join_lf:
  assumes "ls \<noteq> []" and "\<And>l. l \<in> set ls \<Longrightarrow> nl \<notin> set l"
    and "\<And>l. l \<in> set (butlast ls) \<Longrightarrow> l = [] \<or> last l \<noteq> cr"
  shows "js_lines (js_join [nl] ls) = ls"
proof -
  have "js_split nl (js_join [nl] ls) = ls" by (rule js_split_join) (use assms in auto)
  moreover have "map chomp (butlast ls) = butlast ls"
    by (rule map_idI) (use assms(3) in \<open>auto simp: chomp_def\<close>)
  ultimately show ?thesis using assms(1) by (simp add: js_lines_def)
qed

lemma list_all2_butlast: "list_all2 P xs ys \<Longrightarrow> list_all2 P (butlast xs) (butlast ys)"
  by (auto simp: list_all2_conv_all_nth nth_butlast)

lemma list_all2_in2: "list_all2 P xs ys \<Longrightarrow> y \<in> set ys \<Longrightarrow> \<exists>x \<in> set xs. P x y"
  by (induction rule: list_all2_induct) auto

text \<open>
  C20. Reading a checklist back after an update: the parser finds the same items with the same
  texts in the same places, with the chosen box of every wanted item set as asked (an item without
  an audit box gets one when its audit box is set), and every other item as it was.
\<close>

theorem checklist_update_parse:
  "parseTaskPairChecklist (updateTaskPairChecklist md indexes box checked) =
   map (\<lambda>it. if ci_index it \<in> set indexes then set_box box checked it else it)
     (parseTaskPairChecklist md)"
proof (cases "indexes = []")
  case True
  then show ?thesis by (simp add: updateTaskPairChecklist_def)
next
  case False
  let ?ls = "js_lines md"
  let ?us = "scan_update (set indexes) box checked None 0 ?ls"
  let ?sep = "if js_includes md [cr, nl] then [cr, nl] else [nl]"
  have up: "updateTaskPairChecklist md indexes box checked = js_join ?sep ?us"
    using False foldl_scan_update [of "set indexes" box checked "[]" ?ls None 0]
    by (simp add: updateTaskPairChecklist_def parseTaskPairChecklist_def Let_def)
  note kept = scan_update_kept [of ?ls "set indexes" box checked None 0]
  have ne: "?us \<noteq> []" using kept js_lines_ne [of md] by (metis list_all2_Nil2)
  have nonl: "nl \<notin> set l" if "l \<in> set ?us" for l
  proof -
    from list_all2_in2 [OF kept that] obtain l0 where "l0 \<in> set ?ls" "line_kept l0 l" ..
    then show ?thesis using js_lines_no_nl [of l0 md] by (auto simp: line_kept_def)
  qed
  have nocr: "l = [] \<or> last l \<noteq> cr" if "l \<in> set (butlast ?us)" "\<not> js_includes md [cr, nl]" for l
  proof -
    from list_all2_in2 [OF list_all2_butlast [OF kept] that(1)]
    obtain l0 where l0: "l0 \<in> set (butlast ?ls)" "line_kept l0 l" ..
    from l0(1) obtain p where "p \<in> set (butlast (js_split nl md))" "l0 = chomp p"
      by (auto simp: js_lines_def Let_def)
    then have "l0 = [] \<or> last l0 \<noteq> cr" using no_crlf_lines [OF that(2)] by (auto simp: chomp_def)
    then show ?thesis using l0(2) by (auto simp: line_kept_def)
  qed
  have "js_lines (js_join ?sep ?us) = ?us"
    using js_lines_join_crlf [OF ne] js_lines_join_lf [OF ne] nonl nocr by auto
  then show ?thesis
    by (simp add: up parseTaskPairChecklist_def scan_update_scan)
qed

end
