(* ===== verification/Marker.thy ===== *)
theory Marker
  imports Checklist
begin

text \<open>
  The marker grammar of task pairs: the Markdown fence tracker (\<open>src/shared/markdown-fence.ts\<close>) and the
  scanner that finds one-line markers and QUEUE briefs in assistant text (\<open>src/shared/task-pair.ts\<close>).
  The regular expressions are matchers of the prelude, in the order of the pattern.
\<close>

section \<open>Markdown fences (markdown-fence.ts)\<close>

record fence_state =
  fn_delimiter :: char
  fn_length :: nat

text \<open>\<open>/^[ \t]{0,3}(`{3,}|~{3,})/\<close>: the run of the fence, when the line starts with one.\<close>

definition blank :: "char \<Rightarrow> bool" where
  "blank c \<longleftrightarrow> c = CHR '' '' \<or> c = CHR 0x09"

definition fence_open :: "string matcher" where
  "fence_open = m_seq (m_span blank 0 (Some 3))
     (m_alt (m_span (\<lambda>c. c = CHR ''`'') 3 None) (m_span (\<lambda>c. c = CHR ''~'') 3 None))"

definition advanceMarkdownFence :: "string \<Rightarrow> fence_state option \<Rightarrow> fence_state option \<times> bool" where
  "advanceMarkdownFence line fence =
    (let m = m_first fence_open line in
     case fence of
       Some f \<Rightarrow>
         let closes = (case m of None \<Rightarrow> False
                       | Some run \<Rightarrow> hd run = fn_delimiter f \<and> length run \<ge> fn_length f)
         in (if closes then None else Some f, True)
     | None \<Rightarrow>
         (case m of
            Some run \<Rightarrow> (Some \<lparr>fn_delimiter = hd run, fn_length = length run\<rparr>, True)
          | None \<Rightarrow> (None, False)))"

section \<open>Verbs and markers\<close>

datatype verb =
  DISPATCH | QUEUE | STARTED | WORKING | READY_FOR_AUDIT | PASS | REWORK | DONE | BLOCKED
| NEEDS_INPUT | REASSIGN | CANCEL | CLAIM | CHECK | NEXT_ROUND

definition task_pair_verbs :: "verb list" where
  "task_pair_verbs = [DISPATCH, QUEUE, STARTED, WORKING, READY_FOR_AUDIT, PASS, REWORK, DONE, BLOCKED,
     NEEDS_INPUT, REASSIGN, CANCEL, CLAIM, CHECK, NEXT_ROUND]"

fun verb_name :: "verb \<Rightarrow> string" where
  "verb_name DISPATCH = ''DISPATCH''"
| "verb_name QUEUE = ''QUEUE''"
| "verb_name STARTED = ''STARTED''"
| "verb_name WORKING = ''WORKING''"
| "verb_name READY_FOR_AUDIT = ''READY_FOR_AUDIT''"
| "verb_name PASS = ''PASS''"
| "verb_name REWORK = ''REWORK''"
| "verb_name DONE = ''DONE''"
| "verb_name BLOCKED = ''BLOCKED''"
| "verb_name NEEDS_INPUT = ''NEEDS_INPUT''"
| "verb_name REASSIGN = ''REASSIGN''"
| "verb_name CANCEL = ''CANCEL''"
| "verb_name CLAIM = ''CLAIM''"
| "verb_name CHECK = ''CHECK''"
| "verb_name NEXT_ROUND = ''NEXT_ROUND''"

definition marker_tag :: string where
  "marker_tag = ''IMCODES_TASK''"

definition brief_end_tag :: string where
  "brief_end_tag = ''IMCODES_TASK_END''"

definition brief_max :: nat where
  "brief_max = 256 * 1024"

definition attr_value_max :: nat where
  "attr_value_max = 500"

definition infer_task_id :: string where
  "infer_task_id = ''-''"

record marker =
  mk_verb :: string
  mk_knownVerb :: "verb option"
  mk_taskId :: string
  mk_attrs :: attrs
  mk_lineIndex :: nat
  mk_markerIndex :: nat
  mk_brief :: "string option"
  mk_briefMissing :: bool

definition id_char :: "char \<Rightarrow> bool" where
  "id_char c \<longleftrightarrow> is_upper c \<or> is_lower c \<or> is_digit c \<or>
     c = CHR ''.'' \<or> c = CHR ''_'' \<or> c = CHR '':'' \<or> c = CHR ''-''"

definition verb_char :: "char \<Rightarrow> bool" where
  "verb_char c \<longleftrightarrow> is_upper c \<or> is_lower c \<or> c = CHR ''_''"

definition key_char :: "char \<Rightarrow> bool" where
  "key_char c \<longleftrightarrow> is_lower c \<or> is_digit c \<or> c = CHR ''_''"

definition bare_char :: "char \<Rightarrow> bool" where
  "bare_char c \<longleftrightarrow> \<not> is_ws c \<and> c \<noteq> CHR 0x22 \<and> c \<noteq> CHR ''>''"

abbreviation quote_char :: char where
  "quote_char \<equiv> CHR 0x22"

abbreviation backslash :: char where
  "backslash \<equiv> CHR 0x5C"

definition m_char :: "(char \<Rightarrow> bool) \<Rightarrow> string matcher" where
  "m_char P s = (case s of [] \<Rightarrow> [] | c # cs \<Rightarrow> if P c then [([c], cs)] else [])"

text \<open>\<open>[^"\\]|\\.\<close>, one unit of a quoted value.\<close>

definition m_unit :: "string matcher" where
  "m_unit = m_alt (m_char (\<lambda>c. c \<noteq> quote_char \<and> c \<noteq> backslash))
     (m_seq (m_char (\<lambda>c. c = backslash)) (m_char dot))"

definition m_key_eq :: "string matcher" where
  "m_key_eq = m_bind (m_span key_char 1 None) (\<lambda>k. m_seq (m_lit ''='') (m_ret k))"

text \<open>\<open>\s+[a-z0-9_]+=(?:"(?:[^"\\]|\\.){0,500}"|[^\s">]+)\<close>, one attribute of the marker line.\<close>

definition m_attr :: "unit matcher" where
  "m_attr = m_seq (m_span is_ws 1 None) (m_seq m_key_eq
     (m_alt
       (m_seq (m_lit [quote_char]) (m_seq (m_star attr_value_max m_unit) (m_seq (m_lit [quote_char]) (m_ret ()))))
       (m_seq (m_span bare_char 1 None) (m_ret ()))))"

definition m_attrs_group :: "string matcher" where
  "m_attrs_group s = m_group (m_star (length s) m_attr) s"

text \<open>\<open>MARKER_LINE_RE\<close>: the verb, the task id and the raw attributes.\<close>

definition m_marker_line :: "(string \<times> string \<times> string) matcher" where
  "m_marker_line =
    m_seq (m_span blank 0 (Some 3)) (m_seq (m_lit ''<!--'') (m_seq (m_span is_ws 0 None)
      (m_seq (m_lit marker_tag) (m_seq (m_span is_ws 1 None)
        (m_bind (m_span verb_char 1 None) (\<lambda>v. m_seq (m_span is_ws 1 None)
          (m_bind (m_alt (m_span id_char 1 (Some 64)) (m_lit ''-'')) (\<lambda>i.
            m_bind m_attrs_group (\<lambda>raw.
              m_seq (m_span is_ws 0 None) (m_seq (m_lit ''-->'') (m_seq (m_span blank 0 None)
                (m_seq m_eos (m_ret (v, i, raw))))))))))))))"

definition m_brief_end :: "string \<Rightarrow> unit matcher" where
  "m_brief_end taskId =
    m_seq (m_span blank 0 (Some 3)) (m_seq (m_lit ''<!--'') (m_seq (m_span is_ws 0 None)
      (m_seq (m_lit brief_end_tag) (m_seq (m_span is_ws 1 None) (m_seq (m_lit taskId)
        (m_seq (m_span is_ws 0 None) (m_seq (m_lit ''-->'') (m_seq (m_span blank 0 None) m_eos))))))))"

text \<open>\<open>ATTR_RE\<close>, one match at the head of the string, and all the matches of the raw attributes.\<close>

fun unescape :: "string \<Rightarrow> string" where
  "unescape [] = []"
| "unescape [c] = [c]"
| "unescape (c # d # cs) =
     (if c = backslash \<and> dot d then d # unescape cs else c # unescape (d # cs))"

definition m_attr_pair :: "(string \<times> string) matcher" where
  "m_attr_pair s = m_bind m_key_eq (\<lambda>k.
     m_alt
       (m_seq (m_lit [quote_char]) (m_bind (m_group (m_star (length s) m_unit)) (\<lambda>v.
          m_seq (m_lit [quote_char]) (m_ret (k, unescape v)))))
       (m_bind (m_span bare_char 1 None) (\<lambda>v. m_ret (k, v)))) s"

fun attr_all :: "nat \<Rightarrow> string \<Rightarrow> (string \<times> string) list" where
  "attr_all 0 s = []"
| "attr_all (Suc n) [] = []"
| "attr_all (Suc n) (c # cs) =
     (case m_attr_pair (c # cs) of
        [] \<Rightarrow> attr_all n cs
      | (kv, r) # _ \<Rightarrow> kv # attr_all n r)"

text \<open>
  The attribute object: a repeated key keeps its place and takes the last value; assigning a
  string to \<open>__proto__\<close> of a plain object has no effect.
\<close>

definition parseAttrs :: "string \<Rightarrow> attrs" where
  "parseAttrs raw = foldl (\<lambda>m (k, v). if k = ''__proto__'' then m else AList.update k v m) []
     (attr_all (length raw) raw)"

definition knownVerb :: "string \<Rightarrow> verb option" where
  "knownVerb v = find (\<lambda>k. verb_name k = js_upper v) task_pair_verbs"

section \<open>The scanner\<close>

fun find_index :: "('a \<Rightarrow> bool) \<Rightarrow> 'a list \<Rightarrow> nat option" where
  "find_index P [] = None"
| "find_index P (x # xs) = (if P x then Some 0 else map_option Suc (find_index P xs))"

definition is_brief_end :: "string \<Rightarrow> string \<Rightarrow> bool" where
  "is_brief_end taskId line \<longleftrightarrow> m_brief_end taskId line \<noteq> []"

definition truncate_brief :: "string \<Rightarrow> string" where
  "truncate_brief b = (if length b > brief_max then take brief_max b else b)"

fun scan_markers ::
  "fence_state option \<Rightarrow> nat \<Rightarrow> nat \<Rightarrow> string list \<Rightarrow> marker list \<times> nat list" where
  "scan_markers fence i n [] = ([], [])"
| "scan_markers fence i n (line # ls) =
    (let (fence', fenced) = advanceMarkdownFence line fence in
     if fenced then scan_markers fence' (Suc i) n ls
     else (case m_first m_marker_line line of
         None \<Rightarrow> scan_markers fence' (Suc i) n ls
       | Some (v, tid, raw) \<Rightarrow>
           let mk = \<lparr>mk_verb = v, mk_knownVerb = knownVerb v, mk_taskId = tid, mk_attrs = parseAttrs raw,
                     mk_lineIndex = i, mk_markerIndex = n, mk_brief = None, mk_briefMissing = False\<rparr>
           in if (mk_knownVerb mk = Some QUEUE \<or> mk_knownVerb mk = Some DISPATCH) \<and> tid \<noteq> infer_task_id
              then (case find_index (is_brief_end tid) ls of
                  Some e \<Rightarrow>
                    let brief = truncate_brief (js_join [nl] (take e ls));
                        (ms, ix) = scan_markers None (Suc (i + Suc e)) (Suc n) (drop (Suc e) ls)
                    in (mk\<lparr>mk_brief := Some brief\<rparr> # ms, i # (i + Suc e) # ix)
                | None \<Rightarrow>
                    let (ms, ix) = scan_markers fence' (Suc i) (Suc n) ls
                    in (mk\<lparr>mk_briefMissing := True\<rparr> # ms, i # ix))
              else let (ms, ix) = scan_markers fence' (Suc i) (Suc n) ls in (mk # ms, i # ix)))"

definition scanTaskPairMarkers :: "string \<Rightarrow> marker list \<times> nat list" where
  "scanTaskPairMarkers text = scan_markers None 0 0 (js_lines text)"

definition stripTaskPairMarkersForDisplay :: "string \<Rightarrow> string" where
  "stripTaskPairMarkersForDisplay text =
    (let hidden = snd (scanTaskPairMarkers text) in
     if hidden = [] then text
     else let ls = js_lines text in
       js_join [nl] (map snd (filter (\<lambda>(i, _). i \<notin> set hidden) (zip [0..<length ls] ls))))"

definition mayContainTaskPairMarker :: "string \<Rightarrow> bool" where
  "mayContainTaskPairMarker text \<longleftrightarrow> js_includes text marker_tag"

definition hasTaskPairNeedsDecisionMarker :: "string \<Rightarrow> bool" where
  "hasTaskPairNeedsDecisionMarker text \<longleftrightarrow>
     mayContainTaskPairMarker text \<and>
     list_ex (\<lambda>m. js_upper (mk_verb m) = ''NEEDS_DECISION'') (fst (scanTaskPairMarkers text))"

declare scan_markers.simps(2) [simp del]

lemmas scan_step = scan_markers.simps(2)

section \<open>Properties\<close>

lemma marker_line_tag:
  assumes "m_first m_marker_line line = Some a"
  shows "js_includes line marker_tag"
proof -
  from assms obtain r where "(a, r) \<in> set (m_marker_line line)" by (auto dest: m_first_SomeD)
  then obtain p1 s1 p2 s2 p3 s3 p4 s4 where
    s: "(p1, s1) \<in> set (m_span blank 0 (Some 3) line)" "(p2, s2) \<in> set (m_lit ''<!--'' s1)"
    "(p3, s3) \<in> set (m_span is_ws 0 None s2)" "(p4, s4) \<in> set (m_lit marker_tag s3)"
    unfolding m_marker_line_def m_seq_mem by blast
  from s have "line = (p1 @ p2 @ p3) @ marker_tag @ s4"
    by (auto simp: m_lit_mem dest!: m_span_mem)
  then show ?thesis unfolding js_includes_iff by blast
qed

lemma includes_trans:
  assumes "js_includes l t" and "s = a @ l @ b"
  shows "js_includes s t"
proof -
  from assms(1) obtain c d where "l = c @ t @ d" unfolding js_includes_iff by blast
  with assms(2) have "s = (a @ c) @ t @ (d @ b)" by simp
  then show ?thesis unfolding js_includes_iff by blast
qed

lemma join_infix_all: "p \<in> set ps \<Longrightarrow> \<exists>a b. js_join sep ps = a @ p @ b"
proof (induction ps)
  case Nil
  then show ?case by simp
next
  case (Cons q ps)
  show ?case
  proof (cases "p \<in> set ps")
    case True
    then obtain a b where "js_join sep ps = a @ p @ b" using Cons.IH by blast
    moreover have "ps \<noteq> []" using True by auto
    ultimately have "js_join sep (q # ps) = (q @ sep @ a) @ p @ b" by (simp add: js_join_Cons)
    then show ?thesis by blast
  next
    case False
    then have "p = q" using Cons.prems by simp
    then show ?thesis by (cases ps) (auto intro: exI [of _ "[]"])
  qed
qed

lemma chomp_prefix: "\<exists>r. p = chomp p @ r"
  by (cases "p = []") (simp_all add: chomp_def, metis append_butlast_last_id)

lemma js_lines_infix:
  assumes "l \<in> set (js_lines s)"
  shows "\<exists>a b. s = a @ l @ b"
proof -
  have mem: "\<exists>p. p \<in> set (js_split nl s) \<and> (\<exists>r. p = l @ r)"
  proof (cases "l = last (js_split nl s)")
    case True
    then show ?thesis using last_in_set [OF js_split_ne [of nl s]] by (intro exI [of _ l]) auto
  next
    case False
    then obtain x where "x \<in> set (butlast (js_split nl s))" "l = chomp x"
      using assms by (auto simp: js_lines_def Let_def)
    then show ?thesis using chomp_prefix [of x] by (blast dest: in_set_butlastD)
  qed
  then obtain p r where p: "p \<in> set (js_split nl s)" "p = l @ r" by blast
  then obtain a b where "js_join [nl] (js_split nl s) = a @ p @ b" using join_infix_all by blast
  then show ?thesis using p(2) js_join_split [of nl s] by auto
qed

lemma scan_markers_none:
  assumes "\<And>l. l \<in> set ls \<Longrightarrow> m_first m_marker_line l = None"
  shows "scan_markers fence i n ls = ([], [])"
  using assms
  by (induction ls arbitrary: fence i) (auto simp: scan_step split: prod.splits)

text \<open>
  The cheap pre-check is sound: text without the marker tag has no marker, and hiding the markers
  of such a text for display changes nothing.
\<close>

theorem precheck_sound:
  assumes "\<not> mayContainTaskPairMarker text"
  shows "scanTaskPairMarkers text = ([], []) \<and> stripTaskPairMarkersForDisplay text = text \<and>
    \<not> hasTaskPairNeedsDecisionMarker text"
proof -
  have "m_first m_marker_line l = None" if "l \<in> set (js_lines text)" for l
  proof (rule ccontr)
    assume "m_first m_marker_line l \<noteq> None"
    then have "js_includes l marker_tag" using marker_line_tag by auto
    with js_lines_infix [OF that] have "js_includes text marker_tag" using includes_trans by blast
    with assms show False by (simp add: mayContainTaskPairMarker_def)
  qed
  then have "scanTaskPairMarkers text = ([], [])"
    unfolding scanTaskPairMarkers_def by (rule scan_markers_none)
  then show ?thesis
    using assms by (simp add: stripTaskPairMarkersForDisplay_def hasTaskPairNeedsDecisionMarker_def)
qed

theorem precheck_sound_witness:
  "scanTaskPairMarkers ''hello'' = ([], []) \<and> stripTaskPairMarkersForDisplay ''hello'' = ''hello'' \<and>
    \<not> hasTaskPairNeedsDecisionMarker ''hello''"
  by (rule precheck_sound) (simp add: mayContainTaskPairMarker_def marker_tag_def)

definition marker_wf :: "marker \<Rightarrow> bool" where
  "marker_wf m \<longleftrightarrow>
     mk_verb m \<noteq> [] \<and> (\<forall>c \<in> set (mk_verb m). verb_char c) \<and>
     1 \<le> length (mk_taskId m) \<and> length (mk_taskId m) \<le> 64 \<and> (\<forall>c \<in> set (mk_taskId m). id_char c) \<and>
     mk_knownVerb m = knownVerb (mk_verb m) \<and>
     (mk_brief m \<noteq> None \<longrightarrow> mk_knownVerb m \<in> {Some QUEUE, Some DISPATCH} \<and>
        length (the (mk_brief m)) \<le> brief_max \<and> \<not> mk_briefMissing m)"

lemma marker_line_parts:
  assumes "m_first m_marker_line line = Some (v, tid, raw)"
  shows "v \<noteq> []" and "c \<in> set v \<Longrightarrow> verb_char c" and "1 \<le> length tid" and "length tid \<le> 64"
    and "d \<in> set tid \<Longrightarrow> id_char d"
proof -
  from assms obtain r where "((v, tid, raw), r) \<in> set (m_marker_line line)" by (auto dest: m_first_SomeD)
  then obtain s1 s2 s3 s4 where
    s: "(v, s2) \<in> set (m_span verb_char 1 None s1)"
    "(tid, s4) \<in> set (m_alt (m_span id_char 1 (Some 64)) (m_lit ''-'') s3)"
    unfolding m_marker_line_def m_seq_mem m_bind_mem m_ret_def by auto
  show "v \<noteq> []" "c \<in> set v \<Longrightarrow> verb_char c"
    using m_span_mem_set(1) [OF s(1)] m_span_mem_set(2) [OF s(1)] by auto
  from s(2) consider "(tid, s4) \<in> set (m_span id_char 1 (Some 64) s3)" | "tid = ''-''"
    by (auto simp: m_alt_def m_lit_mem)
  then have "1 \<le> length tid \<and> length tid \<le> 64 \<and> (\<forall>d \<in> set tid. id_char d)"
  proof cases
    case 1
    then show ?thesis using m_span_mem_set [OF 1] by auto
  next
    case 2
    then show ?thesis by (simp add: id_char_def)
  qed
  then show "1 \<le> length tid" "length tid \<le> 64" "d \<in> set tid \<Longrightarrow> id_char d" by auto
qed

lemma find_index_Some:
  "find_index P xs = Some k \<Longrightarrow> k < length xs \<and> P (xs ! k) \<and> (\<forall>j < k. \<not> P (xs ! j))"
proof (induction xs arbitrary: k)
  case Nil
  then show ?case by simp
next
  case (Cons x xs)
  then show ?case by (auto split: if_splits simp: nth_Cons split: nat.splits)
qed

lemma truncate_brief_length: "length (truncate_brief b) \<le> brief_max"
  by (simp add: truncate_brief_def)

definition scan_ok :: "nat \<Rightarrow> nat \<Rightarrow> nat \<Rightarrow> marker list \<times> nat list \<Rightarrow> bool" where
  "scan_ok i n len r \<longleftrightarrow> (case r of (ms, ix) \<Rightarrow>
     list_all marker_wf ms \<and> map mk_markerIndex ms = [n..<n + length ms] \<and>
     sorted_wrt (<) ix \<and> list_all (\<lambda>x. i \<le> x \<and> x < i + len) ix \<and>
     sorted_wrt (<) (map mk_lineIndex ms) \<and> set (map mk_lineIndex ms) \<subseteq> set ix)"

lemma scan_ok_weaken:
  "scan_ok j n len r \<Longrightarrow> i \<le> j \<Longrightarrow> j + len \<le> i + len' \<Longrightarrow> scan_ok i n len' r"
  by (auto simp: scan_ok_def list_all_iff)

lemma scan_ok_cons:
  assumes "scan_ok j (Suc n) len (ms, ix)" and "marker_wf m" "mk_markerIndex m = n" "mk_lineIndex m = i"
    and "hidden = [] \<or> (\<exists>h. hidden = [h] \<and> i < h \<and> h < j)" and "i < j" "j + len \<le> i + len'"
  shows "scan_ok i n len' (m # ms, i # hidden @ ix)"
proof -
  have ix: "x \<in> set ix \<Longrightarrow> j \<le> x \<and> x < j + len" for x
    using assms(1) by (auto simp: scan_ok_def list_all_iff)
  have up: "[n..<n + length (m # ms)] = n # [Suc n..<Suc n + length ms]"
    by (simp add: upt_rec)
  from assms(1) have li: "mk_lineIndex x \<in> set ix" if "x \<in> set ms" for x
    using that by (auto simp: scan_ok_def)
  have lt: "i < mk_lineIndex x" if "x \<in> set ms" for x
    using ix [OF li [OF that]] assms(6) by linarith
  have h: "h \<in> set (hidden @ ix) \<Longrightarrow> i < h \<and> h < i + len'" for h
    using assms(5-7) ix by fastforce
  have sorted: "sorted_wrt (<) (hidden @ ix)"
    using assms(1,5) ix by (fastforce simp: scan_ok_def sorted_wrt_append)
  show ?thesis
    unfolding scan_ok_def prod.case
  proof (intro conjI)
    show "list_all marker_wf (m # ms)" using assms(1,2) by (simp add: scan_ok_def)
    show "map mk_markerIndex (m # ms) = [n..<n + length (m # ms)]"
      unfolding up using assms(1,3) by (simp add: scan_ok_def)
    show "sorted_wrt (<) (i # hidden @ ix)" using sorted h by simp
    show "list_all (\<lambda>x. i \<le> x \<and> x < i + len') (i # hidden @ ix)"
      using h assms(6,7) by (auto simp: list_all_iff less_imp_le)
    show "sorted_wrt (<) (map mk_lineIndex (m # ms))"
      using assms(1,4) lt by (simp add: scan_ok_def)
    show "set (map mk_lineIndex (m # ms)) \<subseteq> set (i # hidden @ ix)"
      using assms(4) li by auto
  qed
qed

lemma scan_markers_ok: "scan_ok i n (length ls) (scan_markers fence i n ls)"
proof (induction "length ls" arbitrary: fence i n ls rule: less_induct)
  case less
  show ?case
  proof (cases ls)
    case Nil
    then show ?thesis by (simp add: scan_ok_def)
  next
    case (Cons line rest)
    have ih: "scan_ok j m (length l) (scan_markers f j m l)" if "length l \<le> length rest" for f j m l
      using less that Cons by simp
    obtain fence' fenced where f: "advanceMarkdownFence line fence = (fence', fenced)" by force
    show ?thesis
    proof (cases "fenced \<or> m_first m_marker_line line = None")
      case True
      have "scan_ok i n (length (line # rest)) (scan_markers fence' (Suc i) n rest)"
        by (rule scan_ok_weaken [OF ih]) simp_all
      then show ?thesis using True f Cons by (auto simp: scan_step)
    next
      case False
      then obtain v tid raw where m: "m_first m_marker_line line = Some (v, tid, raw)"
        by (cases "m_first m_marker_line line") auto
      let ?mk = "\<lparr>mk_verb = v, mk_knownVerb = knownVerb v, mk_taskId = tid, mk_attrs = parseAttrs raw,
                     mk_lineIndex = i, mk_markerIndex = n, mk_brief = None, mk_briefMissing = False\<rparr>"
      have wf: "marker_wf ?mk" "marker_wf (?mk\<lparr>mk_briefMissing := True\<rparr>)"
        using marker_line_parts [OF m] by (auto simp: marker_wf_def)
      let ?brf = "(knownVerb v = Some QUEUE \<or> knownVerb v = Some DISPATCH) \<and> tid \<noteq> infer_task_id"
      show ?thesis
      proof (cases "?brf \<and> find_index (is_brief_end tid) rest \<noteq> None")
        case True
        then obtain e where e: "find_index (is_brief_end tid) rest = Some e" by auto
        obtain ms ix where r: "scan_markers None (Suc (i + Suc e)) (Suc n) (drop (Suc e) rest) = (ms, ix)"
          by force
        let ?m = "?mk\<lparr>mk_brief := Some (truncate_brief (js_join [nl] (take e rest)))\<rparr>"
        have wfm: "marker_wf ?m" using wf True truncate_brief_length by (simp add: marker_wf_def)
        have el: "e < length rest" using find_index_Some [OF e] by simp
        have "scan_ok (Suc (i + Suc e)) (Suc n) (length (drop (Suc e) rest)) (ms, ix)"
          using ih [of "drop (Suc e) rest"] r by (metis diff_le_self length_drop)
        then have "scan_ok i n (length (line # rest)) (?m # ms, i # [i + Suc e] @ ix)"
          by (rule scan_ok_cons) (use wfm el in simp_all)
        then show ?thesis using True False f m e r Cons by (simp add: scan_step)
      next
        case no: False
        obtain ms ix where r: "scan_markers fence' (Suc i) (Suc n) rest = (ms, ix)" by force
        have "scan_ok (Suc i) (Suc n) (length rest) (ms, ix)" using ih [of rest] r by (metis order_refl)
        then have ok: "scan_ok i n (length (line # rest)) (mk # ms, i # [] @ ix)"
          if "marker_wf mk" "mk_markerIndex mk = n" "mk_lineIndex mk = i" for mk
          by (rule scan_ok_cons) (use that in simp_all)
        show ?thesis
        proof (cases ?brf)
          case True
          then show ?thesis using ok [OF wf(2)] no False f m r Cons by (simp add: scan_step)
        next
          case nb: False
          then have "scan_markers fence i n (line # rest) = (?mk # ms, i # ix)"
            using no False f m r by (cases "tid = infer_task_id") (simp_all add: scan_step Let_def)
          then show ?thesis using ok [OF wf(1)] Cons by simp
        qed
      qed
    qed
  qed
qed

text \<open>
  What the scanner returns: markers in the order of their lines, numbered from 0, each with a
  task id of 1 to 64 id characters and a verb of letters and underscores; a brief only on QUEUE and
  DISPATCH and within its limit; the lines to hide are lines of the text, in increasing order, and
  hold every marker's line.
\<close>

theorem scan_well_formed:
  "case scanTaskPairMarkers text of (ms, hidden) \<Rightarrow>
     list_all marker_wf ms \<and> map mk_markerIndex ms = [0..<length ms] \<and>
     sorted_wrt (<) (map mk_lineIndex ms) \<and> set (map mk_lineIndex ms) \<subseteq> set hidden \<and>
     sorted_wrt (<) hidden \<and> list_all (\<lambda>i. i < length (js_lines text)) hidden"
  using scan_markers_ok [of 0 0 "js_lines text" None]
  by (auto simp: scanTaskPairMarkers_def scan_ok_def list_all_iff split: prod.splits)

definition closes_fence :: "fence_state \<Rightarrow> string \<Rightarrow> bool" where
  "closes_fence f line \<longleftrightarrow> fst (advanceMarkdownFence line (Some f)) = None"

text \<open>
  A fence hides its content: scanning inside an open fence skips every line up to and including
  the first one that closes it, whatever these lines hold, and goes on after it; an unclosed fence
  hides the rest of the text.
\<close>

theorem fence_hides_markers:
  "scan_markers (Some f) i n ls =
     (case find_index (closes_fence f) ls of
        None \<Rightarrow> ([], [])
      | Some k \<Rightarrow> scan_markers None (Suc (i + k)) n (drop (Suc k) ls))"
proof (induction ls arbitrary: i)
  case Nil
  then show ?case by simp
next
  case (Cons line ls)
  have adv: "advanceMarkdownFence line (Some f) = (if closes_fence f line then None else Some f, True)"
    by (auto simp: closes_fence_def advanceMarkdownFence_def Let_def)
  show ?case using Cons.IH [of "Suc i"]
    by (simp add: scan_step adv split: option.splits)
qed

section \<open>The canonical marker line\<close>

definition m_hd :: "'a matcher \<Rightarrow> string \<Rightarrow> 'a \<Rightarrow> string \<Rightarrow> bool" where
  "m_hd m s a r \<longleftrightarrow> (\<exists>ms. m s = (a, r) # ms)"

lemma m_hd_bind: "m_hd m s a r \<Longrightarrow> m_hd (f a) r b t \<Longrightarrow> m_hd (m_bind m f) s b t"
  by (auto simp: m_hd_def m_bind_def)

lemma m_hd_seq: "m_hd m s a r \<Longrightarrow> m_hd n r b t \<Longrightarrow> m_hd (m_seq m n) s b t"
  unfolding m_seq_def by (rule m_hd_bind)

lemma m_hd_lit: "m_hd (m_lit l) (l @ r) l r"
  by (simp add: m_hd_def m_lit_def)

lemma m_hd_alt: "m_hd m s a r \<Longrightarrow> m_hd (m_alt m n) s a r"
  by (auto simp: m_hd_def m_alt_def)

lemma m_hd_span:
  assumes "\<And>c. c \<in> set a \<Longrightarrow> P c" and "r = [] \<or> \<not> P (hd r)"
    and "lo \<le> length a" and "hi = None \<or> (\<exists>h. hi = Some h \<and> length a \<le> h)"
  shows "m_hd (m_span P lo hi) (a @ r) a r"
  unfolding m_hd_def by (rule m_span_hd) (use assms in auto)

lemma m_hd_eos: "m_hd m_eos [] () []" and m_hd_ret: "m_hd (m_ret a) s a s"
  by (simp_all add: m_hd_def m_eos_def m_ret_def)

lemma m_hd_first: "m_hd m s a r \<Longrightarrow> m_first m s = Some a"
  by (auto simp: m_hd_def m_first_def)

lemma m_hd_attrs_none: "m_hd m_attrs_group '' -->'' [] '' -->''"
proof -
  have "m_attr '' -->'' = []"
    by (simp add: m_attr_def m_seq_def m_bind_def m_span_def m_key_eq_def is_ws_def key_char_def
        is_lower_def is_digit_def char_between_def)
  then show ?thesis
    by (simp add: m_hd_def m_attrs_group_def m_group_def eval_nat_numeral)
qed

lemma char_class_facts:
  "verb_char c \<Longrightarrow> \<not> is_ws c" "id_char c \<Longrightarrow> \<not> is_ws c"
  by (auto simp: verb_char_def id_char_def is_upper_def is_lower_def is_digit_def char_between_def is_ws_def)

lemma class_facts:
  "\<not> id_char (CHR '' '')" "\<not> verb_char (CHR '' '')" "is_ws (CHR '' '')" "\<not> is_ws (CHR ''I'')"
  "\<not> blank (CHR ''<'')"
  by (simp_all add: id_char_def verb_char_def is_upper_def is_lower_def is_digit_def char_between_def
      is_ws_def blank_def)

lemma m_hd_ws:
  assumes "r \<noteq> []" "\<not> is_ws (hd r)" "lo \<le> 1"
  shows "m_hd (m_span is_ws lo None) (CHR '' '' # r) '' '' r"
  using m_hd_span [of "'' ''" is_ws r lo None] assms by (simp add: class_facts)

lemma m_hd_line_end:
  "m_hd (m_seq (m_span is_ws 0 None) (m_seq (m_lit ''-->'') (m_seq (m_span blank 0 None)
     (m_seq m_eos (m_ret a))))) '' -->'' a []"
  by (simp add: m_hd_def m_seq_def m_bind_def m_span_def m_lit_def m_eos_def m_ret_def is_ws_def)

text \<open>
  A marker line written the canonical way is read back as it was written, for every verb and every
  task id of the grammar: the scanner returns that one marker, with no attributes and no brief.
\<close>

theorem canonical_line_parses:
  assumes v: "v \<noteq> []" "\<And>c. c \<in> set v \<Longrightarrow> verb_char c"
    and t: "1 \<le> length tid" "length tid \<le> 64" "\<And>c. c \<in> set tid \<Longrightarrow> id_char c"
  shows "m_first m_marker_line (''<!-- IMCODES_TASK '' @ v @ '' '' @ tid @ '' -->'') = Some (v, tid, [])"
proof -
  let ?E = "\<lambda>a. m_seq (m_span is_ws 0 None) (m_seq (m_lit ''-->'') (m_seq (m_span blank 0 None)
      (m_seq m_eos (m_ret a))))"
  let ?I = "\<lambda>v. m_bind (m_alt (m_span id_char 1 (Some 64)) (m_lit ''-'')) (\<lambda>i.
      m_bind m_attrs_group (\<lambda>raw. ?E (v, i, raw)))"
  let ?V = "m_bind (m_span verb_char 1 None) (\<lambda>v. m_seq (m_span is_ws 1 None) (?I v))"
  let ?si = "tid @ '' -->''" and ?sv = "v @ CHR '' '' # tid @ '' -->''"
  have tne: "tid \<noteq> []" using t(1) by auto
  have "m_hd (m_span id_char 1 (Some 64)) ?si tid '' -->''"
    by (rule m_hd_span) (use t in \<open>simp_all add: class_facts\<close>)
  then have alt: "m_hd (m_alt (m_span id_char 1 (Some 64)) (m_lit ''-'')) ?si tid '' -->''"
    by (rule m_hd_alt)
  have "m_hd (m_bind m_attrs_group (\<lambda>raw. ?E (v, tid, raw))) '' -->'' (v, tid, []) []"
    by (rule m_hd_bind, rule m_hd_attrs_none, rule m_hd_line_end)
  with alt have h1: "m_hd (?I v) ?si (v, tid, []) []"
    by (rule m_hd_bind)
  have "\<not> is_ws (hd ?si)" using tne t(3) char_class_facts(2) by simp
  then have h2: "m_hd (m_seq (m_span is_ws 1 None) (?I v)) (CHR '' '' # ?si) (v, tid, []) []"
    by (intro m_hd_seq [OF m_hd_ws [where r = ?si] h1]) (use tne in simp_all)
  have "m_hd (m_span verb_char 1 None) ?sv v (CHR '' '' # ?si)"
    by (rule m_hd_span) (use v in \<open>simp_all add: class_facts Suc_le_eq\<close>)
  then have h3: "m_hd ?V ?sv (v, tid, []) []" by (rule m_hd_bind) (rule h2)
  have "\<not> is_ws (hd ?sv)" using v char_class_facts(1) by simp
  then have h4: "m_hd (m_seq (m_span is_ws 1 None) ?V) (CHR '' '' # ?sv) (v, tid, []) []"
    by (intro m_hd_seq [OF m_hd_ws [where r = ?sv] h3]) (use v in simp_all)
  have h5: "m_hd (m_seq (m_lit marker_tag) (m_seq (m_span is_ws 1 None) ?V))
      (marker_tag @ CHR '' '' # ?sv) (v, tid, []) []"
    by (rule m_hd_seq [OF m_hd_lit h4])
  have h6: "m_hd (m_seq (m_span is_ws 0 None) (m_seq (m_lit marker_tag) (m_seq (m_span is_ws 1 None) ?V)))
      (CHR '' '' # marker_tag @ CHR '' '' # ?sv) (v, tid, []) []"
    by (rule m_hd_seq [OF m_hd_ws h5]) (simp_all add: marker_tag_def class_facts)
  have h7: "m_hd m_marker_line ([] @ ''<!--'' @ CHR '' '' # marker_tag @ CHR '' '' # ?sv) (v, tid, []) []"
    unfolding m_marker_line_def
    by (rule m_hd_seq [OF m_hd_span m_hd_seq [OF m_hd_lit h6]]) (simp_all add: class_facts)
  show ?thesis using m_hd_first [OF h7] by (simp add: marker_tag_def)
qed

theorem canonical_line_parses_witness:
  "m_first m_marker_line (''<!-- IMCODES_TASK '' @ ''PASS'' @ '' '' @ ''t-1'' @ '' -->'') =
     Some (''PASS'', ''t-1'', [])"
  by (rule canonical_line_parses)
    (simp_all, (elim disjE;
      simp add: verb_char_def id_char_def is_upper_def is_lower_def is_digit_def char_between_def)+)

end
