(* ===== verification/TaskPair.thy ===== *)
theory TaskPair
  imports Marker
begin

text \<open>
  The data of the task-pair state machine (\<open>src/shared/task-pair.ts\<close>): the pair's state, the intents the
  daemon executes, the context of a marker, and the helpers the transition function is built from.
  The code mutates a fresh clone of the pair; here each helper returns the updated pair.
\<close>

section \<open>Enumerations\<close>

datatype status =
  Queued | Working | In_audit | Awaiting_audit | Awaiting_brain_decision | Rework | Passed | Done | Cancelled

datatype flag =
  Fl_blocked | Fl_needs_input | Fl_unaudited | Fl_needs_auditor | Fl_over_limit | Fl_off_pool
| Fl_economy_unreviewed | Fl_waiting_for_capacity | Fl_executor_silent | Fl_verdict_inconsistent
| Fl_awaiting_audit_ignored | Fl_replacement_churn | Fl_markers_unresolved | Fl_all_providers_limited
| Fl_auditor_capacity_hold | Fl_policy_violation | Fl_no_pool_configured | Fl_brain_reminder_due

datatype role = Brain | Executor | Auditor | Other | Daemon

datatype source =
  Src_marker | Src_implicit_dispatch | Src_legacy_tool | Src_legacy_import | Src_heartbeat | Src_queue
| Src_mcp | Src_daemon

datatype capped_reason =
  Verdict_correction | Done_reminder_cap | Policy_rejection | Blocked_replacement | Unresolved_hint

fun capped_flag :: "capped_reason \<Rightarrow> flag" where
  "capped_flag Verdict_correction = Fl_verdict_inconsistent"
| "capped_flag Done_reminder_cap = Fl_awaiting_audit_ignored"
| "capped_flag Policy_rejection = Fl_policy_violation"
| "capped_flag Blocked_replacement = Fl_replacement_churn"
| "capped_flag Unresolved_hint = Fl_markers_unresolved"

definition capped_reasons :: "capped_reason list" where
  "capped_reasons = [Verdict_correction, Done_reminder_cap, Policy_rejection, Blocked_replacement, Unresolved_hint]"

fun status_name :: "status \<Rightarrow> string" where
  "status_name Queued = ''queued''"
| "status_name Working = ''working''"
| "status_name In_audit = ''in_audit''"
| "status_name Awaiting_audit = ''awaiting_audit''"
| "status_name Awaiting_brain_decision = ''awaiting_brain_decision''"
| "status_name Rework = ''rework''"
| "status_name Passed = ''passed''"
| "status_name Done = ''done''"
| "status_name Cancelled = ''cancelled''"

definition message_cap_per_round :: int where
  "message_cap_per_round = 2"

definition no_auditor :: string where
  "no_auditor = ''none''"

definition terminal_statuses :: "status list" where
  "terminal_statuses = [Done, Cancelled]"

definition open_statuses :: "status list" where
  "open_statuses = [Working, In_audit, Awaiting_audit, Awaiting_brain_decision, Rework, Passed]"

definition participant_statuses :: "status list" where
  "participant_statuses = [Working, In_audit, Awaiting_audit, Awaiting_brain_decision, Rework, Passed]"

definition audit_held_statuses :: "status list" where
  "audit_held_statuses = [In_audit, Awaiting_audit]"

definition isTerminalTaskPairStatus :: "status \<Rightarrow> bool" where
  "isTerminalTaskPairStatus s \<longleftrightarrow> s \<in> set terminal_statuses"

text \<open>Pacing of Brain reminders, in milliseconds.\<close>

definition resolveTaskPairBrainReminderInterval :: "int \<Rightarrow> int" where
  "resolveTaskPairBrainReminderInterval count =
    (if count \<le> 0 then 5 * 60000 else if count = 1 then 10 * 60000 else 15 * 60000)"

section \<open>Records\<close>

record scheduling =
  sch_epoch :: int
  sch_manual :: bool
  sch_dependsOn :: "string list"
  sch_since :: int
  sch_writer :: string
  sch_note :: "string option"
  sch_resumePending :: bool
  sch_admitted :: bool
  sch_resumedAt :: "int option"
  sch_resumeRetryAt :: "int option"
  sch_failureNotified :: bool
  sch_dependencyCount :: "int option"
  sch_details :: "(string list \<times> string option) option"

record material_hold =
  mh_head :: string
  mh_base :: string
  mh_at :: int

datatype base_source = Passed_head | From_brain

record round_base =
  rb_commit :: string
  rb_source :: base_source
  rb_deliveryRound :: int
  rb_previousHead :: "string option"
  rb_note :: "string option"
  rb_at :: int

record material =
  mat_worktree :: "string option"
  mat_head :: "string option"
  mat_base :: "string option"
  mat_path :: "string option"
  mat_report :: bool
  mat_intentionalNote :: "string option"
  mat_files :: "string option"
  mat_at :: int

datatype workspace_kind = Ws_worktree | Ws_dir
datatype requested_kind = Kind_worktree | Kind_dir | Kind_none
datatype workspace_status = Ws_active | Ws_ended | Ws_removed | Ws_kept

record workspace =
  ws_kind :: workspace_kind
  ws_path :: string
  ws_workingDir :: "string option"
  ws_base :: "string option"
  ws_branch :: "string option"
  ws_lastHead :: "string option"
  ws_lastHeadAt :: "int option"
  ws_createdAt :: int
  ws_status :: workspace_status
  ws_endedAt :: "int option"
  ws_previousPaths :: "string list"

record deliverable =
  out_path :: string
  out_dest :: "string option"

record last_verdict =
  lv_verb :: verdict_verb
  lv_counts :: severity_counts
  lv_judgement :: verdict_judgement
  lv_round :: int
  lv_noticeText :: "string option"

record flag_sides =
  fs_blocked :: "role option"
  fs_needs_input :: "role option"

record wait_resolution =
  wr_writer :: string
  wr_note :: "string option"
  wr_at :: int

datatype blocking_source = Blk_explicit | Blk_config

text \<open>
  \<open>TaskPairState\<close>.  Fields no transition reads or writes (title access, resource claims, the
  workspace's clean-up bookkeeping) are left out.
\<close>

record pair =
  tp_scheduling :: "scheduling option"
  tp_taskId :: string
  tp_brain :: string
  tp_executor :: "string option"
  tp_auditor :: "string option"
  tp_title :: "string option"
  tp_status :: status
  tp_flags :: "flag list"
  tp_flagSides :: flag_sides
  tp_blockedNote :: "string option"
  tp_lastWaitResolution :: "wait_resolution option"
  tp_round :: int
  tp_passRound :: "int option"
  tp_deliveryRound :: "int option"
  tp_roundBase :: "round_base option"
  tp_materialHold :: "material_hold option"
  tp_blocking :: "audit_severity list"
  tp_blockingSource :: "blocking_source option"
  tp_lastVerdict :: "last_verdict option"
  tp_previousAuditors :: "string list"
  tp_auditorPinned :: "string option"
  tp_executorPool :: "string option"
  tp_executorModel :: "string option"
  tp_executorThinking :: "string option"
  tp_auditorModel :: "string option"
  tp_auditorThinking :: "string option"
  tp_brief :: "string option"
  tp_material :: "material option"
  tp_workspace :: "workspace option"
  tp_capacityWaitReason :: "string option"
  tp_auditorProposalNudgeRound :: "int option"
  tp_workspaceKind :: "requested_kind option"
  tp_parallelInPlace :: bool
  tp_urgent :: "bool option"
  tp_output :: "deliverable option"
  tp_capCounts :: "capped_reason \<Rightarrow> int option"
  tp_capRound :: int
  tp_closedNoticeSentTo :: "string list"
  tp_inAuditNoticeRound :: "int option"
  tp_integrationDismissedAt :: "int option"
  tp_startedAt :: "int option"
  tp_createdAt :: int
  tp_updatedAt :: int

datatype intent =
  Pick_auditor
| Pick_executor
| Correction string verdict_judgement
| Done_reminder string
| Rework_notice string severity_counts
| Brain_reopen_notice "string option"
| Next_round_notice "string option"
| Auditor_proposal_nudge string
| Convergence_checkpoint_nudge string
| Audit_request string
| Replace_auditor
| Brain_notice flag
| Slot_changed
| Queue_settings string int
| Closed_pair_notice string
| Policy_notice string string string

datatype effect =
  Eff_unrecognized | Eff_queue_settings | Eff_recorded | Eff_unresolved | Eff_created | Eff_title_updated
| Eff_reopened | Eff_checklist_unchanged | Eff_checklist_updated | Eff_updated | Eff_dispatched
| Eff_in_audit_guarded | Eff_status | Eff_duplicate_ready | Eff_verdict | Eff_verdict_held
| Eff_next_round | Eff_forced | Eff_reported_to_brain | Eff_brain_resolved | Eff_flag
| Eff_reassigned_auditor | Eff_reassigned | Eff_integration_dismissed

record transition_result =
  tr_pair :: "pair option"
  tr_fromStatus :: "status option"
  tr_toStatus :: "status option"
  tr_effect :: effect
  tr_unusual :: bool
  tr_intents :: "intent list"
  tr_verdict :: "verdict_result option"

record apply_context =
  ctx_writer :: string
  ctx_fallbackBrain :: string
  ctx_projectBlocking :: "string list option"
  ctx_now :: int
  ctx_source :: source
  ctx_busySessions :: "string list option"
  ctx_turnText :: "string option"
  ctx_requireStructuredPairCreate :: bool

section \<open>Roles and bindings\<close>

definition taskPairRoleOf :: "pair option \<Rightarrow> string \<Rightarrow> role" where
  "taskPairRoleOf p writer =
    (if writer = ''daemon'' then Daemon
     else case p of
       None \<Rightarrow> Other
     | Some pr \<Rightarrow>
         if writer = tp_brain pr then Brain
         else if Some writer = tp_executor pr then Executor
         else if Some writer = tp_auditor pr then Auditor
         else Other)"

datatype binding_role = Bind_executor | Bind_auditor

fun binding_role_name :: "binding_role \<Rightarrow> string" where
  "binding_role_name Bind_executor = ''executor''"
| "binding_role_name Bind_auditor = ''auditor''"

definition taskPairBindingId :: "string \<Rightarrow> binding_role \<Rightarrow> string" where
  "taskPairBindingId taskId r = ''pair:'' @ taskId @ '':'' @ binding_role_name r"

text \<open>
  \<open>parseTaskPairBindingId\<close> on a string value: the last colon separates the role; the id between the
  prefix and that colon must not be empty.
\<close>

definition parseTaskPairBindingId :: "string \<Rightarrow> (string \<times> binding_role) option" where
  "parseTaskPairBindingId value =
    (if \<not> starts_with value ''pair:'' then None
     else
       let roleName = rev (takeWhile (\<lambda>c. c \<noteq> CHR '':'') (rev value));
           cut = length value - Suc (length roleName);
           taskId = drop 5 (take cut value)
       in if cut < 5 \<or> taskId = [] then None
          else if roleName = ''executor'' then Some (taskId, Bind_executor)
          else if roleName = ''auditor'' then Some (taskId, Bind_auditor) else None)"

definition taskPairBindingOf :: "pair option \<Rightarrow> string \<Rightarrow> string option" where
  "taskPairBindingOf p sessionName = (case p of
     None \<Rightarrow> None
   | Some pr \<Rightarrow>
       if Some sessionName = tp_executor pr then Some (taskPairBindingId (tp_taskId pr) Bind_executor)
       else if Some sessionName = tp_auditor pr \<and> tp_auditor pr \<noteq> Some no_auditor
       then Some (taskPairBindingId (tp_taskId pr) Bind_auditor) else None)"

text \<open>Order of the queue: urgent first, then by queue order.\<close>

definition compareQueuedTaskPairs :: "(int \<times> bool) \<Rightarrow> (int \<times> bool) \<Rightarrow> int" where
  "compareQueuedTaskPairs a b =
    (let d = (if snd b then 1 else 0) - (if snd a then 1 else 0) in
     if d \<noteq> 0 then d else fst a - fst b)"

section \<open>Suspension (task-pair-suspension.ts)\<close>

definition isTaskPairSuspended :: "scheduling option \<Rightarrow> status \<Rightarrow> bool" where
  "isTaskPairSuspended sch st \<longleftrightarrow>
     \<not> isTerminalTaskPairStatus st \<and>
     (case sch of None \<Rightarrow> False
      | Some s \<Rightarrow> sch_manual s \<or>
          opt_default (int (length (sch_dependsOn s))) (sch_dependencyCount s) > 0 \<or> sch_resumePending s)"

datatype wait_kind = Paused | Waiting_dependencies | Resuming

definition taskPairWaitKind :: "scheduling option \<Rightarrow> status \<Rightarrow> wait_kind option" where
  "taskPairWaitKind sch st =
    (if isTerminalTaskPairStatus st then None
     else case sch of None \<Rightarrow> None
      | Some s \<Rightarrow>
          if sch_manual s then Some Paused
          else if opt_default (int (length (sch_dependsOn s))) (sch_dependencyCount s) \<noteq> 0
          then Some Waiting_dependencies
          else if sch_resumePending s then Some Resuming else None)"

definition projectPairScheduling :: "scheduling \<Rightarrow> scheduling" where
  "projectPairScheduling s = s\<lparr>sch_dependsOn := [], sch_note := None,
     sch_dependencyCount := Some (int (length (sch_dependsOn s))),
     sch_details := Some (sch_dependsOn s, if truthy (sch_note s) then sch_note s else None)\<rparr>"

text \<open>
  Reading the wire form back spreads \<open>details.brief\<close> over the record: the dependencies are replaced,
  the note only when the brief carries one.
\<close>

definition readPairScheduling :: "scheduling option \<Rightarrow> scheduling option" where
  "readPairScheduling s = (case s of
     None \<Rightarrow> None
   | Some x \<Rightarrow> (case sch_details x of
       None \<Rightarrow> Some x
     | Some (deps, note) \<Rightarrow>
         Some (x\<lparr>sch_dependsOn := deps,
           sch_note := (case note of None \<Rightarrow> sch_note x | Some n \<Rightarrow> Some n)\<rparr>)))"

definition taskPairHoldsExecutionSlot :: "pair \<Rightarrow> (string \<Rightarrow> bool) \<Rightarrow> bool" where
  "taskPairHoldsExecutionSlot p busy \<longleftrightarrow>
    (if tp_status p \<notin> set open_statuses then False
     else if \<not> isTaskPairSuspended (tp_scheduling p) (tp_status p) \<or>
             (case tp_scheduling p of None \<Rightarrow> False | Some s \<Rightarrow> sch_admitted s) then True
     else list_ex (\<lambda>n. truthy n \<and> n \<noteq> Some no_auditor \<and> busy (the n)) [tp_executor p, tp_auditor p])"

section \<open>Material\<close>

definition is_hex :: "char \<Rightarrow> bool" where
  "is_hex c \<longleftrightarrow> is_digit c \<or> char_between CHR ''a'' CHR ''f'' c"

definition commit_id :: "string \<Rightarrow> bool" where
  "commit_id s \<longleftrightarrow> 7 \<le> length s \<and> length s \<le> 64 \<and> list_all is_hex s"

definition sameTaskPairCommit :: "string \<Rightarrow> string \<Rightarrow> bool" where
  "sameTaskPairCommit a b =
    (let l = js_lower (js_trim a); r = js_lower (js_trim b) in
     if \<not> commit_id l \<or> \<not> commit_id r then l = r
     else starts_with l r \<or> starts_with r l)"

definition taskPairDeliveryRound :: "pair \<Rightarrow> int" where
  "taskPairDeliveryRound p = (case tp_deliveryRound p of
     None \<Rightarrow> 1 | Some n \<Rightarrow> if n > 1 then n else 1)"

definition attr_truthy :: "attrs \<Rightarrow> string \<Rightarrow> string option" where
  "attr_truthy attrs k = (if truthy (attr attrs k) then attr attrs k else None)"

definition materialFromAttrs :: "attrs \<Rightarrow> int \<Rightarrow> material option" where
  "materialFromAttrs attrs now =
    (let note0 = attr_truthy attrs ''intentionalNote'';
         m = \<lparr>mat_worktree = attr_truthy attrs ''worktree'', mat_head = attr_truthy attrs ''head'',
              mat_base = attr_truthy attrs ''base'', mat_path = attr_truthy attrs ''path'',
              mat_report = False,
              mat_intentionalNote = opt_or note0 (attr_truthy attrs ''note''),
              mat_files = attr_truthy attrs ''files'', mat_at = now\<rparr>
     in if mat_worktree m \<noteq> None \<or> mat_head m \<noteq> None \<or> mat_base m \<noteq> None \<or> mat_path m \<noteq> None
        then Some m else None)"

definition taskPairFileSet :: "string option \<Rightarrow> string" where
  "taskPairFileSet files = js_join [nl] (sort (filter (\<lambda>f. f \<noteq> [])
     (map (\<lambda>f. map (\<lambda>c. if c = backslash then CHR ''/'' else c) (js_trim f))
        (js_split CHR '','' (opt_default [] files)))))"

definition sameAuditMaterial :: "material \<Rightarrow> material \<Rightarrow> bool" where
  "sameAuditMaterial current nxt =
    (if (mat_head current = None) \<noteq> (mat_head nxt = None) then False
     else if (case (mat_head current, mat_head nxt) of
          (Some a, Some b) \<Rightarrow> \<not> sameTaskPairCommit a b | _ \<Rightarrow> False) then False
     else if mat_worktree current \<noteq> mat_worktree nxt \<or> mat_path current \<noteq> mat_path nxt then False
     else if taskPairFileSet (mat_files current) \<noteq> taskPairFileSet (mat_files nxt) then False
     else if (case mat_base nxt of None \<Rightarrow> False
          | Some b \<Rightarrow> (case mat_base current of None \<Rightarrow> True | Some c \<Rightarrow> \<not> sameTaskPairCommit c b))
          then False
     else if mat_intentionalNote nxt \<noteq> None \<and> mat_intentionalNote nxt \<noteq> mat_intentionalNote current
          then False
     else True)"

section \<open>Attributes\<close>

definition isTrue :: "string option \<Rightarrow> bool" where
  "isTrue v \<longleftrightarrow> v = Some ''true'' \<or> v = Some ''1'' \<or> v = Some ''yes''"

definition isTaskPairWorkspaceRequest :: "string \<Rightarrow> bool" where
  "isTaskPairWorkspaceRequest v \<longleftrightarrow> v \<in> set [''auto'', ''worktree'', ''dir'', ''none'']"

definition requested_kind_of :: "string \<Rightarrow> requested_kind option" where
  "requested_kind_of v =
    (if v = ''worktree'' then Some Kind_worktree else if v = ''dir'' then Some Kind_dir
     else if v = ''none'' then Some Kind_none else None)"

definition applyWorkspaceAttr :: "pair \<Rightarrow> attrs \<Rightarrow> pair" where
  "applyWorkspaceAttr p attrs =
    (let p = (case attr_truthy attrs ''workspace'' of
          None \<Rightarrow> p
        | Some k \<Rightarrow> if k \<noteq> ''auto'' \<and> isTaskPairWorkspaceRequest k
                    then p\<lparr>tp_workspaceKind := requested_kind_of k\<rparr> else p)
     in if attr attrs ''parallel'' = Some ''true'' then p\<lparr>tp_parallelInPlace := True\<rparr> else p)"

definition applyOutputAttr :: "pair \<Rightarrow> attrs \<Rightarrow> pair" where
  "applyOutputAttr p attrs = (case attr_truthy attrs ''output'' of
     None \<Rightarrow> p
   | Some path \<Rightarrow> p\<lparr>tp_output := Some \<lparr>out_path = path, out_dest = attr_truthy attrs ''dest''\<rparr>\<rparr>)"

definition taskPairBlockingSource :: "pair \<Rightarrow> blocking_source" where
  "taskPairBlockingSource p = opt_default Blk_config (tp_blockingSource p)"

definition hasAudit :: "pair \<Rightarrow> bool" where
  "hasAudit p \<longleftrightarrow> tp_auditor p \<noteq> Some no_auditor"

section \<open>Flags, waits and caps\<close>

definition addFlag :: "pair \<Rightarrow> flag \<Rightarrow> pair" where
  "addFlag p f = (if f \<in> set (tp_flags p) then p else p\<lparr>tp_flags := tp_flags p @ [f]\<rparr>)"

definition removeFlag :: "pair \<Rightarrow> flag \<Rightarrow> pair" where
  "removeFlag p f = p\<lparr>tp_flags := filter (\<lambda>e. e \<noteq> f) (tp_flags p)\<rparr>"

definition markTaskPairStarted :: "pair \<Rightarrow> int \<Rightarrow> pair" where
  "markTaskPairStarted p now =
    (removeFlag (removeFlag (p\<lparr>tp_status := Working, tp_startedAt := Some now\<rparr>) Fl_waiting_for_capacity)
       Fl_no_pool_configured)\<lparr>tp_capacityWaitReason := None\<rparr>"

definition resolveTaskPairBrainWait :: "pair \<Rightarrow> int \<Rightarrow> (string \<times> string option) option \<Rightarrow> pair" where
  "resolveTaskPairBrainWait p now resolution =
    (let p = (removeFlag (removeFlag p Fl_blocked) Fl_needs_input)
               \<lparr>tp_flagSides := \<lparr>fs_blocked = None, fs_needs_input = None\<rparr>, tp_blockedNote := None\<rparr>;
         p = (case resolution of None \<Rightarrow> p
              | Some (w, note) \<Rightarrow> p\<lparr>tp_lastWaitResolution := Some
                  \<lparr>wr_writer = w, wr_note = (if truthy note then note else None), wr_at = now\<rparr>\<rparr>)
     in if tp_status p = Awaiting_brain_decision then markTaskPairStarted p now else p)"

definition newPair :: "string \<Rightarrow> string \<Rightarrow> apply_context \<Rightarrow> status \<Rightarrow> pair" where
  "newPair taskId brain ctx st = \<lparr>
     tp_scheduling = None, tp_taskId = taskId, tp_brain = brain, tp_executor = None, tp_auditor = None,
     tp_title = None, tp_status = st, tp_flags = [],
     tp_flagSides = \<lparr>fs_blocked = None, fs_needs_input = None\<rparr>,
     tp_blockedNote = None, tp_lastWaitResolution = None, tp_round = 0, tp_passRound = None,
     tp_deliveryRound = None, tp_roundBase = None, tp_materialHold = None,
     tp_blocking = normalizeAuditBlockingSeverities (ctx_projectBlocking ctx),
     tp_blockingSource = Some Blk_config, tp_lastVerdict = None, tp_previousAuditors = [],
     tp_auditorPinned = None, tp_executorPool = None, tp_executorModel = None,
     tp_executorThinking = None, tp_auditorModel = None, tp_auditorThinking = None, tp_brief = None,
     tp_material = None, tp_workspace = None, tp_capacityWaitReason = None,
     tp_auditorProposalNudgeRound = None, tp_workspaceKind = None, tp_parallelInPlace = False,
     tp_urgent = None, tp_output = None, tp_capCounts = Map.empty, tp_capRound = 0,
     tp_closedNoticeSentTo = [], tp_inAuditNoticeRound = None, tp_integrationDismissedAt = None,
     tp_startedAt = (if st \<noteq> Queued then Some (ctx_now ctx) else None),
     tp_createdAt = ctx_now ctx, tp_updatedAt = ctx_now ctx\<rparr>"

text \<open>
  \<open>spendCap\<close>: whether one more capped message may be sent, the pair with its counters, and the intents
  with the one notice to Brain when the cap is passed for the first time.
\<close>

definition spendCap :: "pair \<Rightarrow> capped_reason \<Rightarrow> intent list \<Rightarrow> bool \<times> pair \<times> intent list" where
  "spendCap p r intents =
    (let p = (if tp_capRound p \<noteq> tp_round p then p\<lparr>tp_capRound := tp_round p, tp_capCounts := Map.empty\<rparr> else p);
         used = opt_default 0 (tp_capCounts p r)
     in if used < message_cap_per_round
        then (True, p\<lparr>tp_capCounts := (tp_capCounts p)(r \<mapsto> used + 1)\<rparr>, intents)
        else if capped_flag r \<in> set (tp_flags p) then (False, p, intents)
        else (False, addFlag p (capped_flag r), intents @ [Brain_notice (capped_flag r)]))"

definition resetCaps :: "pair \<Rightarrow> pair" where
  "resetCaps p = foldl removeFlag (p\<lparr>tp_capCounts := Map.empty, tp_capRound := tp_round p\<rparr>)
     (map capped_flag capped_reasons)"

definition setField :: "attrs \<Rightarrow> string \<Rightarrow> (string option \<Rightarrow> pair \<Rightarrow> pair) \<Rightarrow> pair \<Rightarrow> pair" where
  "setField attrs k upd p = (if truthy (attr attrs k) then upd (attr attrs k) p else p)"

definition setBlockingAttr :: "attrs \<Rightarrow> pair \<Rightarrow> pair" where
  "setBlockingAttr attrs p = (case parseBlockingAttr (attr attrs ''blocking'') of
     None \<Rightarrow> p | Some b \<Rightarrow> p\<lparr>tp_blocking := b, tp_blockingSource := Some Blk_explicit\<rparr>)"

definition setRolesFromAttrs :: "pair \<Rightarrow> attrs \<Rightarrow> intent list \<Rightarrow> pair \<times> intent list" where
  "setRolesFromAttrs p attrs intents =
    (let p = setField attrs ''executor'' (\<lambda>v p. p\<lparr>tp_executor := v\<rparr>) p;
         p = setField attrs ''executormodel'' (\<lambda>v p. p\<lparr>tp_executorModel := v\<rparr>) p;
         p = setField attrs ''executorthinking'' (\<lambda>v p. p\<lparr>tp_executorThinking := v\<rparr>) p;
         p = setField attrs ''auditor'' (\<lambda>v p.
               let p = (if truthy (tp_auditor p) \<and> tp_auditor p \<noteq> v \<and> tp_auditor p \<noteq> Some no_auditor
                        then p\<lparr>tp_previousAuditors := tp_previousAuditors p @ [the (tp_auditor p)]\<rparr> else p)
               in removeFlag (p\<lparr>tp_auditor := v\<rparr>) Fl_needs_auditor) p;
         p = setField attrs ''auditormodel'' (\<lambda>v p. p\<lparr>tp_auditorModel := v\<rparr>) p;
         p = setField attrs ''auditorthinking'' (\<lambda>v p. p\<lparr>tp_auditorThinking := v\<rparr>) p;
         p = setField attrs ''title'' (\<lambda>v p. p\<lparr>tp_title := v\<rparr>) p;
         p = setField attrs ''pool'' (\<lambda>v p. p\<lparr>tp_executorPool := v\<rparr>) p;
         p = applyWorkspaceAttr p attrs;
         p = setBlockingAttr attrs p
     in if \<not> truthy (tp_auditor p) then (addFlag p Fl_needs_auditor, intents @ [Pick_auditor])
        else (p, intents))"

definition setRolesFromAttrsQueued :: "pair \<Rightarrow> attrs \<Rightarrow> pair" where
  "setRolesFromAttrsQueued p attrs =
    (let p = setField attrs ''executor'' (\<lambda>v p. p\<lparr>tp_executor := v\<rparr>) p;
         p = setField attrs ''executormodel'' (\<lambda>v p. p\<lparr>tp_executorModel := v\<rparr>) p;
         p = setField attrs ''executorthinking'' (\<lambda>v p. p\<lparr>tp_executorThinking := v\<rparr>) p;
         p = setField attrs ''auditor'' (\<lambda>v p. p\<lparr>tp_auditor := v\<rparr>) p;
         p = setField attrs ''auditormodel'' (\<lambda>v p. p\<lparr>tp_auditorModel := v\<rparr>) p;
         p = setField attrs ''auditorthinking'' (\<lambda>v p. p\<lparr>tp_auditorThinking := v\<rparr>) p;
         p = setField attrs ''title'' (\<lambda>v p. p\<lparr>tp_title := v\<rparr>) p;
         p = setField attrs ''pool'' (\<lambda>v p. p\<lparr>tp_executorPool := v\<rparr>) p;
         p = (if attr attrs ''urgent'' \<noteq> None then p\<lparr>tp_urgent := Some (isTrue (attr attrs ''urgent''))\<rparr> else p);
         p = applyWorkspaceAttr p attrs
     in setBlockingAttr attrs p)"

definition namedParticipantIsBusy :: "attrs \<Rightarrow> string list option \<Rightarrow> bool" where
  "namedParticipantIsBusy attrs busy = (case busy of
     None \<Rightarrow> False
   | Some bs \<Rightarrow>
       (case attr attrs ''executor'' of None \<Rightarrow> False | Some e \<Rightarrow> e \<in> set bs) \<or>
       (case attr attrs ''auditor'' of None \<Rightarrow> False | Some a \<Rightarrow> a \<noteq> no_auditor \<and> a \<in> set bs))"

definition progress_verbs :: "verb list" where
  "progress_verbs = [DISPATCH, STARTED, WORKING, READY_FOR_AUDIT, PASS, REWORK, DONE]"

definition clearSideFlags :: "pair \<Rightarrow> role \<Rightarrow> bool \<Rightarrow> pair" where
  "clearSideFlags p r all =
    (let p = (if all \<or> fs_blocked (tp_flagSides p) = Some r
              then (removeFlag p Fl_blocked)\<lparr>tp_flagSides := (tp_flagSides p)\<lparr>fs_blocked := None\<rparr>,
                     tp_blockedNote := None\<rparr> else p)
     in if all \<or> fs_needs_input (tp_flagSides p) = Some r
        then (removeFlag p Fl_needs_input)\<lparr>tp_flagSides := (tp_flagSides p)\<lparr>fs_needs_input := None\<rparr>,
               tp_blockedNote := None\<rparr> else p)"

section \<open>Words in a text\<close>

text \<open>A word boundary search, case-insensitive: the pattern's matches between two word boundaries.\<close>

definition word_char :: "char \<Rightarrow> bool" where
  "word_char c \<longleftrightarrow> is_upper c \<or> is_lower c \<or> is_digit c \<or> c = CHR ''_''"

fun search_word :: "'a matcher \<Rightarrow> bool \<Rightarrow> string \<Rightarrow> bool" where
  "search_word m prev [] = False"
| "search_word m prev (c # cs) =
     ((prev \<noteq> word_char c \<and>
       list_ex (\<lambda>(_, r). r = [] \<or> \<not> word_char (hd r)) (m (c # cs)))
      \<or> search_word m (word_char c) cs)"

definition isAboutAuditor :: "attrs \<Rightarrow> bool" where
  "isAboutAuditor attrs \<longleftrightarrow> attr attrs ''about'' = Some ''auditor'' \<or>
     search_word (m_lit ''auditor'') False (js_lower (opt_default [] (attr attrs ''note'')))"

definition m_alts :: "'a matcher list \<Rightarrow> 'a matcher" where
  "m_alts ms = foldr m_alt ms (\<lambda>_. [])"

text \<open>
  \<open>proposed?\s+(?:solution|fix|approach)|recommend(?:ation|ed)?|trade[- ]?off|suggest(?:ed|ion)?|approach\<close>;
  every alternative ends in a word character, so a longer optional suffix is only taken when it
  reaches a word boundary.
\<close>

definition m_proposal :: "string matcher" where
  "m_proposal = m_alts
    [m_seq (m_alt (m_lit ''proposed'') (m_lit ''propose'')) (m_seq (m_span is_ws 1 None)
       (m_alts [m_lit ''solution'', m_lit ''fix'', m_lit ''approach''])),
     m_lit ''recommendation'', m_lit ''recommended'', m_lit ''recommend'',
     m_lit ''trade-off'', m_lit ''trade off'', m_lit ''tradeoff'',
     m_lit ''suggested'', m_lit ''suggestion'', m_lit ''suggest'', m_lit ''approach'']"

text \<open>The four Chinese cues, as their UTF-8 bytes: plan, suggestion, trade-off, direction of the repair.\<close>

definition utf8 :: "nat list \<Rightarrow> string" where
  "utf8 bs = map char_of bs"

definition proposal_cues :: "string list" where
  "proposal_cues =
    [utf8 [0xE6,0x96,0xB9,0xE6,0xA1,0x88], utf8 [0xE5,0xBB,0xBA,0xE8,0xAE,0xAE],
     utf8 [0xE5,0x8F,0x96,0xE8,0x88,0x8D],
     utf8 [0xE4,0xBF,0xAE,0xE5,0xA4,0x8D,0xE6,0x96,0xB9,0xE5,0x90,0x91]]"

definition hasAuditorProposal :: "string option \<Rightarrow> bool" where
  "hasAuditorProposal text = (case text of
     None \<Rightarrow> False
   | Some t \<Rightarrow> t \<noteq> [] \<and>
      (search_word m_proposal False (js_lower t) \<or> list_ex (js_includes t) proposal_cues))"

end
