(* ===== verification/TaskPairApply.thy ===== *)
theory TaskPairApply
  imports TaskPair
begin

text \<open>
  The transition function of task pairs, \<open>applyTaskPairMarker\<close> of \<open>src/shared/task-pair.ts\<close>: one definition
  per verb of its switch, the guards before the switch, and their composition.  The intents array
  the code appends to is threaded; it is empty when the switch is reached.
\<close>

section \<open>Results\<close>

definition recorded :: "pair option \<Rightarrow> bool \<Rightarrow> intent list \<Rightarrow> transition_result" where
  "recorded p unusual intents = \<lparr>tr_pair = None, tr_fromStatus = map_option tp_status p,
     tr_toStatus = map_option tp_status p, tr_effect = Eff_recorded, tr_unusual = unusual,
     tr_intents = intents, tr_verdict = None\<rparr>"

record step_env =
  se_existing :: pair
  se_marker :: marker
  se_ctx :: apply_context
  se_role :: role
  se_brainAuthority :: bool
  se_roleAuthority :: bool
  se_unusual :: bool

abbreviation se_now :: "step_env \<Rightarrow> int" where
  "se_now e \<equiv> ctx_now (se_ctx e)"

abbreviation se_attrs :: "step_env \<Rightarrow> attrs" where
  "se_attrs e \<equiv> mk_attrs (se_marker e)"

abbreviation se_taskId :: "step_env \<Rightarrow> string" where
  "se_taskId e \<equiv> mk_taskId (se_marker e)"

abbreviation se_terminal :: "step_env \<Rightarrow> bool" where
  "se_terminal e \<equiv> isTerminalTaskPairStatus (tp_status (se_existing e))"

text \<open>The closures \<open>done\<close> and \<open>reject\<close>.\<close>

definition finish :: "step_env \<Rightarrow> pair \<Rightarrow> effect \<Rightarrow> bool \<Rightarrow> intent list \<Rightarrow> transition_result" where
  "finish e p eff unusual intents = \<lparr>tr_pair = Some p,
     tr_fromStatus = Some (tp_status (se_existing e)), tr_toStatus = Some (tp_status p),
     tr_effect = eff, tr_unusual = unusual, tr_intents = intents, tr_verdict = None\<rparr>"

abbreviation finish_usual :: "step_env \<Rightarrow> pair \<Rightarrow> effect \<Rightarrow> intent list \<Rightarrow> transition_result" where
  "finish_usual e p eff intents \<equiv> finish e p eff (se_unusual e) intents"

definition reject :: "step_env \<Rightarrow> pair \<Rightarrow> intent list \<Rightarrow> string \<Rightarrow> transition_result" where
  "reject e p intents txt =
    (let (ok, p, intents) = spendCap p Policy_rejection intents in
     if \<not> ok then recorded (Some (se_existing e)) True []
     else finish e p Eff_recorded True
            (intents @ [Policy_notice (ctx_writer (se_ctx e)) (se_taskId e) txt]))"

definition with_brief :: "step_env \<Rightarrow> pair \<Rightarrow> pair" where
  "with_brief e p = (case mk_brief (se_marker e) of None \<Rightarrow> p | Some b \<Rightarrow> p\<lparr>tp_brief := Some b\<rparr>)"

definition trimmed :: "string option \<Rightarrow> string option" where
  "trimmed v = (case v of None \<Rightarrow> None | Some s \<Rightarrow> if js_trim s = [] then None else Some (js_trim s))"

definition dismissIntegration :: "pair \<Rightarrow> int \<Rightarrow> transition_result" where
  "dismissIntegration p now =
    (if tp_integrationDismissedAt p \<noteq> None then recorded (Some p) False []
     else \<lparr>tr_pair = Some (p\<lparr>tp_updatedAt := now, tp_integrationDismissedAt := Some now\<rparr>),
       tr_fromStatus = Some (tp_status p), tr_toStatus = Some (tp_status p),
       tr_effect = Eff_integration_dismissed, tr_unusual = False, tr_intents = [], tr_verdict = None\<rparr>)"

section \<open>No pair yet\<close>

definition create_required_message :: string where
  "create_required_message = ''New Brain work on the pairs engine must use pair_create; send_message task metadata and new DISPATCH/QUEUE markers cannot create a pair.''"

definition created :: "pair \<Rightarrow> bool \<Rightarrow> intent list \<Rightarrow> transition_result" where
  "created p unusual intents = \<lparr>tr_pair = Some p, tr_fromStatus = None, tr_toStatus = Some (tp_status p),
     tr_effect = Eff_created, tr_unusual = unusual, tr_intents = intents, tr_verdict = None\<rparr>"

definition brief_of :: "marker \<Rightarrow> pair \<Rightarrow> pair" where
  "brief_of mk p = (case mk_brief mk of None \<Rightarrow> p | Some b \<Rightarrow> p\<lparr>tp_brief := Some b\<rparr>)"

definition create_queued :: "marker \<Rightarrow> apply_context \<Rightarrow> transition_result" where
  "create_queued mk ctx =
    (let p = newPair (mk_taskId mk) (ctx_writer ctx) ctx Queued;
         p = setRolesFromAttrsQueued p (mk_attrs mk)
     in created (brief_of mk p) False [Slot_changed])"

definition create_dispatch :: "marker \<Rightarrow> apply_context \<Rightarrow> transition_result" where
  "create_dispatch mk ctx =
    (if ctx_source ctx = Src_marker then create_queued mk ctx
     else
       let busy = namedParticipantIsBusy (mk_attrs mk) (ctx_busySessions ctx);
           p = newPair (mk_taskId mk) (ctx_writer ctx) ctx (if busy then Queued else Working);
           (p, intents) = (if busy then (setRolesFromAttrsQueued p (mk_attrs mk), [])
                           else setRolesFromAttrs p (mk_attrs mk) []);
           p = brief_of mk p;
           intents = (if \<not> busy \<and> \<not> truthy (tp_executor p) then intents @ [Pick_executor] else intents)
       in created p False intents)"

definition create_progress :: "verb \<Rightarrow> marker \<Rightarrow> apply_context \<Rightarrow> transition_result" where
  "create_progress v mk ctx =
    (let p = (newPair (mk_taskId mk) (ctx_fallbackBrain ctx) ctx Working)\<lparr>tp_executor := Some (ctx_writer ctx)\<rparr>;
         (p, intents) = setRolesFromAttrs p (mk_attrs mk) []
     in if v = READY_FOR_AUDIT \<and> hasAudit p then
          let p = p\<lparr>tp_status := In_audit, tp_round := 1\<rparr>;
              p = (case materialFromAttrs (mk_attrs mk) (ctx_now ctx) of
                     None \<Rightarrow> p | Some m \<Rightarrow> p\<lparr>tp_material := Some m\<rparr>);
              intents = (if truthy (tp_auditor p) then intents @ [Audit_request (the (tp_auditor p))] else intents)
          in created p True intents
        else if v = DONE then
          let p = applyOutputAttr p (mk_attrs mk)
          in if \<not> hasAudit p then created (p\<lparr>tp_status := Awaiting_brain_decision\<rparr>) True intents
             else
               let p = p\<lparr>tp_status := Awaiting_audit\<rparr>;
                   (ok, p, intents) = spendCap p Done_reminder_cap intents;
                   intents = (if ok then intents @ [Done_reminder (ctx_writer ctx)] else intents)
               in created p True intents
        else created p True intents)"

definition apply_no_pair :: "verb \<Rightarrow> marker \<Rightarrow> apply_context \<Rightarrow> transition_result" where
  "apply_no_pair v mk ctx =
    (let notice = (\<lambda>txt. recorded None True [Policy_notice (ctx_writer ctx) (mk_taskId mk) txt]) in
     case v of
       QUEUE \<Rightarrow> create_queued mk ctx
     | DISPATCH \<Rightarrow> create_dispatch mk ctx
     | STARTED \<Rightarrow> create_progress v mk ctx
     | WORKING \<Rightarrow> create_progress v mk ctx
     | READY_FOR_AUDIT \<Rightarrow> create_progress v mk ctx
     | DONE \<Rightarrow> create_progress v mk ctx
     | PASS \<Rightarrow> notice (''No audit round is open for '' @ mk_taskId mk @ ''. Brain must dispatch the pair and an executor must submit material with READY_FOR_AUDIT before the auditor can write '' @ verb_name v @ ''.'')
     | REWORK \<Rightarrow> notice (''No audit round is open for '' @ mk_taskId mk @ ''. Brain must dispatch the pair and an executor must submit material with READY_FOR_AUDIT before the auditor can write '' @ verb_name v @ ''.'')
     | CHECK \<Rightarrow> notice (''No task pair '' @ mk_taskId mk @ '' exists for this CHECK marker; it was recorded but not applied.'')
     | CANCEL \<Rightarrow> notice (''Only Brain or the daemon may CANCEL '' @ mk_taskId mk @ ''; your marker was recorded but not applied.'')
     | _ \<Rightarrow> recorded None True [])"

section \<open>CHECK, QUEUE and DISPATCH\<close>

definition apply_check :: "step_env \<Rightarrow> pair \<Rightarrow> transition_result" where
  "apply_check e p = (case parseTaskPairChecklistCheck (se_attrs e) of
     None \<Rightarrow> reject e p [] ''CHECK requires box=implemented|audited, items=1,2,5|all, and optional checked=true|false.''
   | Some check \<Rightarrow>
       if \<not> (se_role e = Brain \<or> se_role e = Daemon \<or>
             (cc_box check = Box_implemented \<and> se_role e = Executor) \<or>
             (cc_box check = Box_audited \<and> se_role e = Auditor))
       then reject e p [] (''Only the executor may CHECK implemented items and only the auditor may CHECK audited items for '' @ se_taskId e @ ''; Brain may update either box.'')
       else
         let currentBrief = opt_default [] (tp_brief p);
             (md, indexes) = applyTaskPairChecklistCheck currentBrief check
         in if indexes = [] \<or> md = currentBrief then finish_usual e p Eff_checklist_unchanged []
            else finish_usual e (p\<lparr>tp_brief := Some md\<rparr>) Eff_checklist_updated [])"

definition apply_queue :: "step_env \<Rightarrow> pair \<Rightarrow> transition_result" where
  "apply_queue e p =
    (if \<not> se_roleAuthority e then recorded (Some (se_existing e)) True []
     else if tp_status p = Queued then
       finish_usual e (with_brief e (setRolesFromAttrsQueued p (se_attrs e))) Eff_updated []
     else if se_terminal e then
       let p = p\<lparr>tp_status := Queued, tp_closedNoticeSentTo := []\<rparr>
       in finish e (with_brief e (setRolesFromAttrsQueued p (se_attrs e))) Eff_reopened True [Slot_changed]
     else recorded (Some (se_existing e)) True [])"

definition apply_dispatch :: "step_env \<Rightarrow> pair \<Rightarrow> transition_result" where
  "apply_dispatch e p =
    (if \<not> se_roleAuthority e then recorded (Some (se_existing e)) True []
     else if se_terminal e then
       reject e p [] (''Task '' @ se_taskId e @ '' is '' @ status_name (tp_status p) @ ''; only a title-only DISPATCH may update it. Use a new taskId instead of reviving a terminal pair.'')
     else
       let p = resetCaps p;
           busy = namedParticipantIsBusy (se_attrs e) (ctx_busySessions (se_ctx e));
           roles = (\<lambda>p. if busy then (setRolesFromAttrsQueued p (se_attrs e), [])
                        else setRolesFromAttrs p (se_attrs e) [])
       in if tp_status p = Awaiting_brain_decision then
            let (p, intents) = roles p; p = with_brief e p
            in if busy then finish_usual e (p\<lparr>tp_status := Queued\<rparr>) Eff_dispatched (intents @ [Slot_changed])
               else finish_usual e (markTaskPairStarted p (se_now e)) Eff_dispatched intents
          else if tp_status p = Queued \<and> ctx_source (se_ctx e) \<noteq> Src_queue then
            let p = with_brief e (setRolesFromAttrsQueued p (se_attrs e))
            in finish_usual e (p\<lparr>tp_status := Queued\<rparr>) Eff_dispatched [Slot_changed]
          else
            let (p, intents) = roles p;
                intents = (if \<not> busy \<and> \<not> truthy (tp_executor p) then intents @ [Pick_executor] else intents)
            in if busy then
                 finish_usual e (p\<lparr>tp_status := Queued\<rparr>) Eff_dispatched (intents @ [Slot_changed])
               else if tp_status p = Queued then
                 finish_usual e (markTaskPairStarted p (se_now e)) Eff_dispatched (intents @ [Slot_changed])
               else finish_usual e p Eff_dispatched intents)"

section \<open>Progress: STARTED and WORKING\<close>

definition apply_progress :: "verb \<Rightarrow> step_env \<Rightarrow> pair \<Rightarrow> transition_result" where
  "apply_progress v e p =
    (let existing = se_existing e; terminal = se_terminal e in
     if se_role e = Executor \<and> \<not> se_roleAuthority e \<and> tp_status existing \<in> set audit_held_statuses then
       if tp_inAuditNoticeRound existing = Some (tp_round existing)
       then (recorded (Some existing) True [])\<lparr>tr_effect := Eff_in_audit_guarded\<rparr>
       else \<lparr>tr_pair = Some (existing\<lparr>tp_updatedAt := se_now e,
                tp_inAuditNoticeRound := Some (tp_round existing)\<rparr>),
             tr_fromStatus = Some (tp_status existing), tr_toStatus = Some (tp_status existing),
             tr_effect = Eff_in_audit_guarded, tr_unusual = True,
             tr_intents = [Policy_notice (ctx_writer (se_ctx e)) (se_taskId e)
               (''Your '' @ verb_name v @ '' for '' @ se_taskId e @ '' was ignored: the pair is '' @
                (if tp_status existing = In_audit then ''in audit'' else ''awaiting audit'') @
                '' and a status change would void the auditor's pending verdict. Answer questions with a plain reply (no marker); after new commits send a new READY_FOR_AUDIT with the new head.'')],
             tr_verdict = None\<rparr>
     else if tp_status p = Awaiting_brain_decision \<and> (se_role e = Executor \<or> se_roleAuthority e) then
       finish_usual e (markTaskPairStarted p (se_now e)) Eff_status []
     else if tp_status p = Awaiting_brain_decision then
       reject e p [] (''Only the executor or Brain may resume '' @ se_taskId e @ '' while it awaits Brain's decision; your marker was recorded but not applied.'')
     else
       let startsPair = tp_status p = Queued \<or> terminal;
           unusual = (se_unusual e \<or> tp_status p = In_audit \<or> tp_status p = Passed \<or> terminal);
           intents = (if terminal then [Slot_changed] else []);
           p = (if startsPair then markTaskPairStarted p (se_now e) else p\<lparr>tp_status := Working\<rparr>)
       in finish e p Eff_status unusual intents)"

section \<open>READY_FOR_AUDIT\<close>

definition workspace_material :: "workspace \<Rightarrow> int \<Rightarrow> material" where
  "workspace_material w now = \<lparr>mat_worktree = None,
     mat_head = (if truthy (ws_lastHead w) then ws_lastHead w else None),
     mat_base = None, mat_path = Some (ws_path w), mat_report = False, mat_intentionalNote = None,
     mat_files = None, mat_at = now\<rparr>"

definition fill_base :: "string option \<Rightarrow> material \<Rightarrow> material" where
  "fill_base roundBase m =
    (if truthy roundBase \<and> \<not> truthy (mat_base m) then m\<lparr>mat_base := roundBase\<rparr> else m)"

definition with_base :: "string option \<Rightarrow> material \<Rightarrow> material" where
  "with_base roundBase m = (if truthy roundBase then m\<lparr>mat_base := roundBase\<rparr> else m)"

definition usable_workspace :: "pair \<Rightarrow> workspace option" where
  "usable_workspace p = (case tp_workspace p of
     None \<Rightarrow> None | Some w \<Rightarrow> if ws_path w \<noteq> [] then Some w else None)"

definition round_base_commit :: "pair \<Rightarrow> string option" where
  "round_base_commit p = (case tp_roundBase p of None \<Rightarrow> None | Some rb \<Rightarrow> Some (rb_commit rb))"

text \<open>The material a READY names, against the one the open round already holds.\<close>

definition ready_candidate :: "pair \<Rightarrow> material option \<Rightarrow> int \<Rightarrow> material option" where
  "ready_candidate p m now = (case m of
     Some x \<Rightarrow> Some (fill_base (round_base_commit p) x)
   | None \<Rightarrow> map_option (\<lambda>w. workspace_material w now) (usable_workspace p))"

definition ready_material :: "pair \<Rightarrow> material option \<Rightarrow> int \<Rightarrow> pair" where
  "ready_material p m now =
    (let rb = round_base_commit p in
     case m of
       Some x \<Rightarrow> p\<lparr>tp_material := Some (fill_base rb x)\<rparr>
     | None \<Rightarrow>
         if tp_workspaceKind p = Some Kind_none then
           p\<lparr>tp_material := Some (with_base rb \<lparr>mat_worktree = None, mat_head = None, mat_base = None,
               mat_path = None, mat_report = True, mat_intentionalNote = None, mat_files = None,
               mat_at = now\<rparr>)\<rparr>
         else (case usable_workspace p of
             None \<Rightarrow> p
           | Some w \<Rightarrow> p\<lparr>tp_material := Some (with_base rb (workspace_material w now))\<rparr>))"

text \<open>A new audit round: a config-derived blocking set follows the current configuration.\<close>

definition open_audit_round :: "apply_context \<Rightarrow> pair \<Rightarrow> pair" where
  "open_audit_round ctx p =
    (let p = p\<lparr>tp_status := In_audit, tp_round := tp_round p + 1\<rparr>;
         p = (if taskPairBlockingSource p \<noteq> Blk_explicit
              then p\<lparr>tp_blocking := normalizeAuditBlockingSeverities (ctx_projectBlocking ctx),
                     tp_blockingSource := Some Blk_config\<rparr> else p)
     in removeFlag (resetCaps p) Fl_executor_silent)"

definition ready_accept :: "step_env \<Rightarrow> pair \<Rightarrow> material option \<Rightarrow> transition_result" where
  "ready_accept e p material =
    (let terminal = se_terminal e;
         resubmitsHeld = (tp_materialHold p \<noteq> None);
         p = ready_material (p\<lparr>tp_materialHold := None\<rparr>) material (se_now e)
     in if tp_status p = In_audit then
          finish_usual e p Eff_status
            (if (material \<noteq> None \<or> resubmitsHeld) \<and> truthy (tp_auditor p) \<and> tp_auditor p \<noteq> Some no_auditor
             then [Audit_request (the (tp_auditor p))] else [])
        else
          let unusual = (se_unusual e \<or> tp_status p = Queued \<or> tp_status p = Passed \<or> terminal);
              intents = (if terminal then [Slot_changed] else []);
              p = open_audit_round (se_ctx e) p
          in if \<not> truthy (tp_auditor p)
             then finish e (addFlag p Fl_needs_auditor) Eff_status unusual (intents @ [Pick_auditor])
             else finish e p Eff_status unusual (intents @ [Audit_request (the (tp_auditor p))]))"

text \<open>A READY whose base is not the base of the delivery round.\<close>

definition ready_base_mismatch :: "pair \<Rightarrow> material option \<Rightarrow> bool" where
  "ready_base_mismatch p m =
    (let rb = round_base_commit p; base = (case m of None \<Rightarrow> None | Some x \<Rightarrow> mat_base x)
     in truthy rb \<and> truthy base \<and> \<not> sameTaskPairCommit (the base) (the rb))"

text \<open>A READY that names the material the open round already holds.\<close>

definition ready_duplicate :: "pair \<Rightarrow> pair \<Rightarrow> material option \<Rightarrow> int \<Rightarrow> bool" where
  "ready_duplicate existing p m now \<longleftrightarrow>
     tp_status existing = In_audit \<and> tp_materialHold existing = None \<and>
     (case (tp_material existing, ready_candidate p m now) of
        (Some cur, Some cand) \<Rightarrow> sameAuditMaterial cur cand | _ \<Rightarrow> False)"

definition ready_mismatch_text :: "step_env \<Rightarrow> pair \<Rightarrow> material option \<Rightarrow> string" where
  "ready_mismatch_text e p m =
    (let rb = the (round_base_commit p); base = the (mat_base (the m)) in
     ''Delivery round '' @ int_str (taskPairDeliveryRound p) @ '' of '' @ se_taskId e @
     '' is based on '' @ rb @ ''; READY_FOR_AUDIT base='' @ base @
     '' does not match. Omit base= or name '' @ rb @ '', rebase your work onto it, commit, and resend.'')"

definition apply_ready :: "step_env \<Rightarrow> pair \<Rightarrow> transition_result" where
  "apply_ready e p =
    (let existing = se_existing e; material = materialFromAttrs (se_attrs e) (se_now e) in
     if \<not> hasAudit p then recorded (Some existing) True []
     else if ready_base_mismatch p material then reject e p [] (ready_mismatch_text e p material)
     else if ready_duplicate existing p material (se_now e)
     then (recorded (Some existing) False [])\<lparr>tr_effect := Eff_duplicate_ready\<rparr>
     else ready_accept e p material)"

section \<open>PASS and REWORK\<close>

definition notice_text :: "apply_context \<Rightarrow> string option" where
  "notice_text ctx =
    (if truthy (ctx_turnText ctx) then
       let t = take 4000 (js_trim (stripTaskPairMarkersForDisplay (the (ctx_turnText ctx))))
       in if t = [] then None else Some t
     else None)"

definition last_verdict_of :: "pair \<Rightarrow> verdict_verb \<Rightarrow> verdict_result \<Rightarrow> apply_context \<Rightarrow> last_verdict" where
  "last_verdict_of p v r ctx = \<lparr>lv_verb = v, lv_counts = vr_counts r, lv_judgement = vr_judgement r,
     lv_round = tp_round p, lv_noticeText = notice_text ctx\<rparr>"

definition applyVerdict ::
  "pair \<Rightarrow> verdict_verb \<Rightarrow> verdict_result \<Rightarrow> apply_context \<Rightarrow> intent list \<Rightarrow> pair \<times> intent list" where
  "applyVerdict p v r ctx intents =
    (let p = p\<lparr>tp_lastVerdict := Some (last_verdict_of p v r ctx)\<rparr> in
     if \<not> isAppliedVerdict (vr_judgement r) then
       let (ok, p, intents) = spendCap p Verdict_correction intents
       in (p, if ok then intents @ [Correction (ctx_writer ctx) (vr_judgement r)] else intents)
     else
       let p = removeFlag p Fl_verdict_inconsistent in
       case v of
         VPass \<Rightarrow> (p\<lparr>tp_status := Passed, tp_passRound := Some (tp_round p)\<rparr>, intents)
       | VRework \<Rightarrow>
           let wasRework = (tp_status p = Rework);
               p = p\<lparr>tp_status := Rework\<rparr>;
               intents = (if \<not> wasRework \<and> truthy (tp_executor p)
                          then intents @ [Rework_notice (the (tp_executor p)) (vr_counts r)] else intents);
               nudge = (Some (ctx_writer ctx) = tp_auditor p \<and> truthy (ctx_turnText ctx) \<and>
                        \<not> hasAuditorProposal (ctx_turnText ctx) \<and> truthy (tp_auditor p) \<and>
                        tp_auditor p \<noteq> Some no_auditor \<and>
                        tp_auditorProposalNudgeRound p \<noteq> Some (tp_round p));
               intents = (if nudge then intents @ [Auditor_proposal_nudge (the (tp_auditor p))] else intents);
               p = (if nudge then p\<lparr>tp_auditorProposalNudgeRound := Some (tp_round p)\<rparr> else p);
               intents = (if tp_round p > 0 \<and> tp_round p mod 2 = 0 \<and> truthy (tp_auditor p) \<and>
                             tp_auditor p \<noteq> Some no_auditor
                          then intents @ [Convergence_checkpoint_nudge (the (tp_auditor p))] else intents)
           in (p, intents))"

definition apply_verdict_marker :: "verdict_verb \<Rightarrow> step_env \<Rightarrow> pair \<Rightarrow> transition_result" where
  "apply_verdict_marker v e p =
    (let ctx = se_ctx e; tid = se_taskId e;
         vname = (case v of VPass \<Rightarrow> ''PASS'' | VRework \<Rightarrow> ''REWORK'') in
     if \<not> hasAudit p \<or> tp_status p \<noteq> In_audit \<or> tp_material p = None then
       reject e p [] (''No material-backed audit round is open for '' @ tid @ ''. READY_FOR_AUDIT with material is required before PASS or REWORK can apply.'')
     else if se_role e \<noteq> Auditor \<and> \<not> se_roleAuthority e then
       reject e p [] (''Only the assigned auditor may write '' @ vname @ '' for '' @ tid @ ''; your marker was recorded but not applied.'')
     else if v = VPass \<and> tp_materialHold p \<noteq> None then
       let held = the (tp_materialHold p);
           blocked = reject e p [] (''PASS for '' @ tid @ '' was held: the round's material head '' @ mh_head held @
             '' does not descend from the round base '' @ mh_base held @
             ''. The executor was asked to send a new READY_FOR_AUDIT; wait for the resent audit request (REWORK still applies).'')
       in if tr_pair blocked \<noteq> None \<and> truthy (tp_executor p)
          then blocked\<lparr>tr_intents := tr_intents blocked @ [Policy_notice (the (tp_executor p)) tid
             (''A PASS for '' @ tid @ '' was held: your head '' @ mh_head held @
              '' does not descend from the round base '' @ mh_base held @ ''. Rebase or merge onto '' @
              mh_base held @ '', commit, and send a new READY_FOR_AUDIT with the new head.'')]\<rparr>
          else blocked
     else
       let r = judgeTaskPairVerdict v (se_attrs e) (tp_blocking p);
           unusual = (se_unusual e \<or> vr_blockingMismatch r)
       in if se_terminal e \<and> v = VPass then
            (finish e (p\<lparr>tp_lastVerdict := Some (last_verdict_of p v r ctx)\<rparr>) Eff_recorded unusual [])
              \<lparr>tr_verdict := Some r\<rparr>
          else
            let (p, intents) = applyVerdict p v r ctx [];
                p = p\<lparr>tp_materialHold := None\<rparr>;
                p = (if se_role e = Brain then resetCaps p else p)
            in (finish e p (if isAppliedVerdict (vr_judgement r) then Eff_verdict else Eff_verdict_held)
                  unusual intents)\<lparr>tr_verdict := Some r\<rparr>)"

section \<open>NEXT_ROUND\<close>

definition apply_next_round :: "step_env \<Rightarrow> pair \<Rightarrow> transition_result" where
  "apply_next_round e p =
    (let tid = se_taskId e; attrs = se_attrs e;
         named = map_option js_trim (attr attrs ''base'') in
     if \<not> se_brainAuthority e then
       reject e p [] (''Only Brain may open the next round of '' @ tid @ ''; your marker was recorded but not applied.'')
     else if se_terminal e then
       reject e p [] (''Task '' @ tid @ '' is '' @ status_name (tp_status p) @ ''; a closed pair cannot start another round. Use a new taskId.'')
     else if tp_status p \<noteq> Passed then
       reject e p [] (''NEXT_ROUND applies only to a passed pair ('' @ tid @ '' is '' @ status_name (tp_status p) @ ''); the current round is still open.'')
     else if truthy named \<and> \<not> commit_id (js_lower (the named)) then
       reject e p [] (''NEXT_ROUND base= must be a commit id (7-64 hex characters), got \"'' @ the named @ ''\".'')
     else
       let previousHead = opt_or (case tp_material p of None \<Rightarrow> None | Some m \<Rightarrow> mat_head m)
                                 (case tp_workspace p of None \<Rightarrow> None | Some w \<Rightarrow> ws_lastHead w);
           commit = opt_or named previousHead;
           deliveryRound = taskPairDeliveryRound p + 1;
           note = trimmed (attr attrs ''note'');
           p = resolveTaskPairBrainWait p (se_now e) (Some (ctx_writer (se_ctx e), note));
           p = p\<lparr>tp_deliveryRound := Some deliveryRound,
                 tp_roundBase := (if truthy commit then Some \<lparr>rb_commit = the commit,
                     rb_source = (if truthy named then From_brain else Passed_head),
                     rb_deliveryRound = deliveryRound,
                     rb_previousHead = (if truthy previousHead then previousHead else None),
                     rb_note = note, rb_at = se_now e\<rparr> else None),
                 tp_status := Working, tp_material := None, tp_passRound := None, tp_lastVerdict := None\<rparr>;
           p = removeFlag (resetCaps p) Fl_executor_silent
       in finish_usual e p Eff_next_round [Next_round_notice note])"

section \<open>DONE, BLOCKED and NEEDS_INPUT\<close>

definition apply_done :: "step_env \<Rightarrow> pair \<Rightarrow> transition_result" where
  "apply_done e p =
    (let attrs = se_attrs e; existing = se_existing e;
         force = (se_role e = Brain \<and> isTrue (attr attrs ''force'')) in
     if se_terminal e \<and> tp_status existing = Done \<and> se_roleAuthority e \<and>
        attr attrs ''integration'' = Some ''dismiss'' then dismissIntegration existing (se_now e)
     else if se_terminal e then recorded (Some existing) False []
     else if force then
       let p = applyOutputAttr p attrs;
           p = (if tp_status p \<noteq> Passed \<and> hasAudit p then addFlag p Fl_unaudited else p)
       in finish_usual e (p\<lparr>tp_status := Done\<rparr>) Eff_forced [Slot_changed]
     else if hasAudit p \<and> se_role e = Executor \<and> tp_status p = Passed then
       finish_usual e ((applyOutputAttr p attrs)\<lparr>tp_status := Done\<rparr>) Eff_status [Slot_changed]
     else if \<not> hasAudit p \<and> se_roleAuthority e then
       finish_usual e ((applyOutputAttr p attrs)\<lparr>tp_status := Done\<rparr>) Eff_status [Slot_changed]
     else if \<not> hasAudit p \<and> se_role e = Executor \<and> tp_status p \<noteq> Awaiting_brain_decision then
       finish_usual e ((applyOutputAttr p attrs)\<lparr>tp_status := Awaiting_brain_decision\<rparr>) Eff_reported_to_brain []
     else reject e p []
       (if hasAudit p
        then ''DONE cannot close or advance an audited pair. The executor may DONE only after an auditor PASS has been applied in a material-backed audit round; Brain may use DONE force=true to accept.''
        else ''Only the executor may report completion. This pair cannot be closed by DONE from another participant; Brain decides with DONE or CANCEL.''))"

definition side_flag :: "verb \<Rightarrow> flag" where
  "side_flag v = (if v = BLOCKED then Fl_blocked else Fl_needs_input)"

definition side_of :: "verb \<Rightarrow> flag_sides \<Rightarrow> role option" where
  "side_of v s = (if v = BLOCKED then fs_blocked s else fs_needs_input s)"

definition set_side :: "verb \<Rightarrow> role \<Rightarrow> flag_sides \<Rightarrow> flag_sides" where
  "set_side v r s = (if v = BLOCKED then s\<lparr>fs_blocked := Some r\<rparr> else s\<lparr>fs_needs_input := Some r\<rparr>)"

definition apply_wait :: "verb \<Rightarrow> step_env \<Rightarrow> pair \<Rightarrow> transition_result" where
  "apply_wait v e p =
    (let attrs = se_attrs e in
     if se_terminal e then recorded (Some (se_existing e)) False []
     else if se_roleAuthority e then finish_usual e p Eff_brain_resolved []
     else
       let f = side_flag v;
           fresh = (f \<notin> set (tp_flags p) \<or> side_of v (tp_flagSides p) \<noteq> Some (se_role e));
           p = (addFlag p f)\<lparr>tp_flagSides := set_side v (se_role e) (tp_flagSides p),
                 tp_blockedNote := trimmed (attr attrs ''note''), tp_lastWaitResolution := None\<rparr>;
           intents = (if fresh \<and> se_role e = Executor then [Brain_notice f] else [])
       in if v = BLOCKED \<and> se_role e = Executor \<and> isAboutAuditor attrs \<and> hasAudit p then
            let (ok, p, intents) = spendCap p Blocked_replacement intents
            in finish_usual e p Eff_flag (if ok then intents @ [Replace_auditor] else intents)
          else finish_usual e p Eff_flag intents)"

section \<open>REASSIGN and CANCEL\<close>

definition roles_named :: "attrs \<Rightarrow> bool" where
  "roles_named attrs \<longleftrightarrow> attr attrs ''executor'' \<noteq> None \<or> attr attrs ''auditor'' \<noteq> None"

definition reassign_resume :: "step_env \<Rightarrow> pair \<Rightarrow> pair" where
  "reassign_resume e p =
    (let p = (if se_role e = Brain then resetCaps p else p)
     in if tp_status p = Awaiting_brain_decision then markTaskPairStarted p (se_now e) else p)"

definition reassign_roles :: "step_env \<Rightarrow> pair \<Rightarrow> pair \<times> intent list" where
  "reassign_roles e p =
    (let attrs = se_attrs e;
         (p, intents) = setRolesFromAttrs p attrs [];
         p = (if se_brainAuthority e \<and> attr attrs ''auditor'' \<noteq> None
              then p\<lparr>tp_auditorPinned := (if attr attrs ''auditor'' = Some no_auditor then None
                                          else attr attrs ''auditor'')\<rparr> else p);
         p = (if roles_named attrs
              then removeFlag (p\<lparr>tp_capacityWaitReason := None\<rparr>) Fl_waiting_for_capacity else p)
     in (p, intents))"

definition reassign_admission :: "step_env \<Rightarrow> pair \<times> intent list \<Rightarrow> pair \<times> intent list" where
  "reassign_admission e pi =
    (let (p, intents) = pi; attrs = se_attrs e in
     if namedParticipantIsBusy attrs (ctx_busySessions (se_ctx e)) then
       (let p = p\<lparr>tp_status := Queued\<rparr>
        in (if roles_named attrs then addFlag p Fl_waiting_for_capacity else p, intents @ [Slot_changed]))
     else if tp_status p = Queued \<and> roles_named attrs then (p, intents @ [Slot_changed])
     else (p, intents))"

definition apply_reassign :: "step_env \<Rightarrow> pair \<Rightarrow> transition_result" where
  "apply_reassign e p =
    (let attrs = se_attrs e in
     if \<not> se_roleAuthority e \<or> se_terminal e then recorded (Some (se_existing e)) True []
     else
       let p = reassign_resume e p;
           auditorBefore = tp_auditor p;
           (p, intents) = reassign_admission e (reassign_roles e p);
           intents = (if \<not> truthy (tp_executor p) \<and> truthy (attr attrs ''executormodel'')
                      then intents @ [Pick_executor] else intents);
           p = (if truthy (attr attrs ''executor'') then removeFlag p Fl_executor_silent else p);
           p = (if attr attrs ''auditor'' = Some no_auditor \<and> tp_status p = In_audit
                then p\<lparr>tp_status := Working\<rparr> else p)
       in finish_usual e p (if auditorBefore \<noteq> tp_auditor p then Eff_reassigned_auditor else Eff_reassigned) intents)"

definition apply_cancel :: "step_env \<Rightarrow> pair \<Rightarrow> transition_result" where
  "apply_cancel e p =
    (if \<not> se_roleAuthority e then
       reject e p [] ''Only Brain or the daemon may CANCEL a pair; your marker was recorded but not applied.''
     else if tp_status (se_existing e) = Done then dismissIntegration (se_existing e) (se_now e)
     else if se_terminal e then recorded (Some (se_existing e)) False []
     else finish_usual e (p\<lparr>tp_status := Cancelled\<rparr>) Eff_status [Slot_changed])"

section \<open>The guards and the switch\<close>

definition apply_verb :: "verb \<Rightarrow> step_env \<Rightarrow> pair \<Rightarrow> transition_result" where
  "apply_verb v e p = (case v of
     CHECK \<Rightarrow> apply_check e p
   | QUEUE \<Rightarrow> apply_queue e p
   | DISPATCH \<Rightarrow> apply_dispatch e p
   | STARTED \<Rightarrow> apply_progress v e p
   | WORKING \<Rightarrow> apply_progress v e p
   | READY_FOR_AUDIT \<Rightarrow> apply_ready e p
   | PASS \<Rightarrow> apply_verdict_marker VPass e p
   | REWORK \<Rightarrow> apply_verdict_marker VRework e p
   | NEXT_ROUND \<Rightarrow> apply_next_round e p
   | DONE \<Rightarrow> apply_done e p
   | BLOCKED \<Rightarrow> apply_wait v e p
   | NEEDS_INPUT \<Rightarrow> apply_wait v e p
   | REASSIGN \<Rightarrow> apply_reassign e p
   | CANCEL \<Rightarrow> apply_cancel e p
   | CLAIM \<Rightarrow> recorded (Some (se_existing e)) True [])"

definition guarded_verbs :: "verb list" where
  "guarded_verbs = [STARTED, WORKING, READY_FOR_AUDIT, PASS, REWORK, CHECK]"

definition brain_reopen_verbs :: "verb list" where
  "brain_reopen_verbs = [STARTED, WORKING, REWORK]"

text \<open>The effects every marker of an existing pair has before its verb is looked at.\<close>

definition prepare_pair :: "verb \<Rightarrow> step_env \<Rightarrow> pair" where
  "prepare_pair v e =
    (let p = (se_existing e)\<lparr>tp_updatedAt := se_now e\<rparr>;
         auth = se_roleAuthority e;
         p = (if (v \<in> set progress_verbs \<and> \<not> (se_terminal e \<and> v = DISPATCH)) \<or>
                 (auth \<and> (v = QUEUE \<or> v = REASSIGN))
              then clearSideFlags p (se_role e) auth else p)
     in if auth \<and> v \<in> set [STARTED, WORKING, DISPATCH, QUEUE, REASSIGN, NEEDS_INPUT]
        then resolveTaskPairBrainWait p (se_now e)
               (Some (ctx_writer (se_ctx e), attr (se_attrs e) ''note''))
        else p)"

definition brain_reopen :: "verb \<Rightarrow> step_env \<Rightarrow> pair \<Rightarrow> transition_result" where
  "brain_reopen v e p =
    finish_usual e (resetCaps (p\<lparr>tp_status := (if v = REWORK then Rework else Working),
        tp_material := None, tp_passRound := None, tp_lastVerdict := None\<rparr>)) Eff_reopened
      [Brain_reopen_notice (trimmed (attr (se_attrs e) ''note''))]"

definition apply_main :: "verb \<Rightarrow> step_env \<Rightarrow> transition_result" where
  "apply_main v e =
    (let existing = se_existing e; ctx = se_ctx e in
     if (ctx_source ctx = Src_heartbeat \<or> ctx_source ctx = Src_queue) \<and>
        isTaskPairSuspended (tp_scheduling existing) (tp_status existing)
     then recorded (Some existing) False []
     else
       let p = prepare_pair v e;
           guardedAfterPass = (tp_status p = Passed \<and> v \<in> set guarded_verbs \<and>
             \<not> (se_role e = Brain \<and> v \<in> set brain_reopen_verbs));
           guardedAfterClose = (se_terminal e \<and> v \<in> set guarded_verbs)
       in if guardedAfterPass \<or> guardedAfterClose then recorded (Some existing) True []
          else if tp_status p = Passed \<and> se_role e = Brain \<and> v \<in> set brain_reopen_verbs
          then brain_reopen v e p
          else apply_verb v e p)"

definition closed_notice :: "step_env \<Rightarrow> transition_result" where
  "closed_notice e =
    (let existing = se_existing e; w = ctx_writer (se_ctx e) in
     if w \<in> set (tp_closedNoticeSentTo existing) then recorded (Some existing) True []
     else \<lparr>tr_pair = Some (existing\<lparr>tp_updatedAt := se_now e,
             tp_closedNoticeSentTo := tp_closedNoticeSentTo existing @ [w]\<rparr>),
           tr_fromStatus = Some (tp_status existing), tr_toStatus = Some (tp_status existing),
           tr_effect = Eff_recorded, tr_unusual = True, tr_intents = [Closed_pair_notice w],
           tr_verdict = None\<rparr>)"

definition title_only :: "verb \<Rightarrow> step_env \<Rightarrow> bool" where
  "title_only v e \<longleftrightarrow> v = DISPATCH \<and> length (se_attrs e) = 1 \<and> attr (se_attrs e) ''title'' \<noteq> None \<and>
     (case mk_brief (se_marker e) of None \<Rightarrow> True | Some b \<Rightarrow> js_trim b = [])"

definition title_dispatch :: "step_env \<Rightarrow> transition_result" where
  "title_dispatch e =
    (let existing = se_existing e; t = js_trim (the (attr (se_attrs e) ''title'')) in
     if \<not> se_roleAuthority e \<or> t = [] then recorded (Some existing) True []
     else \<lparr>tr_pair = Some (existing\<lparr>tp_updatedAt := se_now e, tp_title := Some t\<rparr>),
           tr_fromStatus = Some (tp_status existing), tr_toStatus = Some (tp_status existing),
           tr_effect = Eff_title_updated, tr_unusual = False, tr_intents = [], tr_verdict = None\<rparr>)"

definition apply_existing :: "verb \<Rightarrow> step_env \<Rightarrow> transition_result" where
  "apply_existing v e =
    (let existing = se_existing e; src = ctx_source (se_ctx e); auth = se_roleAuthority e in
     if tp_status existing = Queued \<and> \<not> truthy (tp_executor existing) \<and> \<not> auth \<and>
        v \<in> set [STARTED, WORKING, READY_FOR_AUDIT, DONE]
     then recorded (Some existing) True []
     else if tp_status existing = Queued \<and> src \<noteq> Src_queue \<and> v \<in> set [STARTED, WORKING, READY_FOR_AUDIT] \<and>
        (\<not> auth \<or> src = Src_implicit_dispatch)
     then recorded (Some existing) (src \<noteq> Src_implicit_dispatch) [Slot_changed]
     else if (tp_status existing = Cancelled \<or> tp_status existing = Done) \<and> \<not> auth \<and>
        v \<in> set [STARTED, WORKING, READY_FOR_AUDIT, REWORK]
     then closed_notice e
     else if title_only v e then title_dispatch e
     else apply_main v e)"

definition make_env :: "pair \<Rightarrow> marker \<Rightarrow> apply_context \<Rightarrow> step_env" where
  "make_env existing mk ctx =
    (let r = taskPairRoleOf (Some existing) (ctx_writer ctx);
         ba = (r = Brain \<or> ctx_writer ctx = ctx_fallbackBrain ctx)
     in \<lparr>se_existing = existing, se_marker = mk, se_ctx = ctx, se_role = r, se_brainAuthority = ba,
         se_roleAuthority = (ba \<or> r = Daemon), se_unusual = (r = Other)\<rparr>)"

definition queue_settings :: "marker \<Rightarrow> apply_context \<Rightarrow> transition_result" where
  "queue_settings mk ctx = (case js_parse_int (opt_default [] (attr (mk_attrs mk) ''max'')) of
     Some m \<Rightarrow> if m > 0
       then \<lparr>tr_pair = None, tr_fromStatus = None, tr_toStatus = None, tr_effect = Eff_queue_settings,
              tr_unusual = False, tr_intents = [Queue_settings (ctx_writer ctx) m], tr_verdict = None\<rparr>
       else recorded None True []
   | None \<Rightarrow> recorded None True [])"

definition applyTaskPairMarker :: "pair option \<Rightarrow> marker \<Rightarrow> apply_context \<Rightarrow> transition_result" where
  "applyTaskPairMarker existing mk ctx = (case mk_knownVerb mk of
     None \<Rightarrow> (recorded existing True [])\<lparr>tr_effect := Eff_unrecognized\<rparr>
   | Some v \<Rightarrow>
       if v = QUEUE \<and> mk_taskId mk = infer_task_id then queue_settings mk ctx
       else if mk_taskId mk = infer_task_id then (recorded existing True [])\<lparr>tr_effect := Eff_unresolved\<rparr>
       else (case existing of
           None \<Rightarrow>
             if ctx_requireStructuredPairCreate ctx \<and> ctx_writer ctx = ctx_fallbackBrain ctx \<and>
                ctx_source ctx \<in> set [Src_marker, Src_implicit_dispatch, Src_legacy_tool] \<and>
                (v = DISPATCH \<or> v = QUEUE)
             then recorded None True [Policy_notice (ctx_writer ctx) (mk_taskId mk) create_required_message]
             else apply_no_pair v mk ctx
         | Some p \<Rightarrow> apply_existing v (make_env p mk ctx)))"

definition taskPairSideToAct :: "pair \<Rightarrow> role option" where
  "taskPairSideToAct p =
    (if isTaskPairSuspended (tp_scheduling p) (tp_status p) then None
     else case tp_status p of
       Working \<Rightarrow> Some Executor
     | Rework \<Rightarrow> Some Executor
     | Awaiting_audit \<Rightarrow> Some Executor
     | Passed \<Rightarrow> Some Executor
     | In_audit \<Rightarrow> Some (if hasAudit p then Auditor else Executor)
     | _ \<Rightarrow> None)"

end
