(* ===== verification/TaskPairLegacy.thy ===== *)
theory TaskPairLegacy
  imports TaskPairApply
begin

text \<open>
  What changes a pair other than a marker: the import of legacy supervised tasks
  (\<open>src/src/daemon/task-pairs/legacy-import.ts\<close>), and the writes that the daemon makes by itself
  (\<open>savePair\<close> in \<open>service.ts\<close> and \<open>scheduler.ts\<close> of the same directory).  The registry of legacy tasks, the pair
  store and the messages are not modelled: a task, its sessions and the events of its pair are arguments.
\<close>

section \<open>Legacy tasks\<close>

datatype lifecycle =
  L_planned | L_delegated | L_implementing | L_retrying_external_ci | L_validated | L_ready_for_audit | L_auditing | L_rework
| L_passed | L_ready_for_integration | L_integrating | L_final_audit | L_finalizing | L_committed | L_pushed | L_recovered
| L_finalized | L_blocked | L_cancelled

datatype legacy_role = Legacy_coordinator | Legacy_integration_owner | Legacy_implementer | Legacy_auditor

record legacy_assignment =
  la_role :: legacy_role
  la_status :: lifecycle
  la_sessionName :: string

record legacy_receipt =
  lr_final :: bool
  lr_createdAt :: int
  lr_sequence :: int
  lr_verdict :: "string option"

record legacy_task =
  lt_taskId :: string
  lt_projectName :: string
  lt_objective :: string
  lt_status :: lifecycle
  lt_assignments :: "legacy_assignment list"
  lt_auditReceipts :: "legacy_receipt list option"
  lt_archivedAt :: "int option"

record session_record =
  sn_name :: string
  sn_projectName :: string
  sn_brain :: bool

definition terminal_legacy :: "lifecycle list" where
  "terminal_legacy = [L_pushed, L_finalized, L_cancelled]"

definition parked_legacy :: "lifecycle list" where
  "parked_legacy = [L_blocked, L_recovered]"

definition default_objective :: string where
  "default_objective = ''Delegated supervised task''"

definition isPlaceholderLegacyObjective :: "string \<Rightarrow> bool" where
  "isPlaceholderLegacyObjective objective \<longleftrightarrow> js_trim objective = [] \<or> js_trim objective = default_objective"

fun mapLegacyStatus :: "lifecycle \<Rightarrow> bool \<Rightarrow> status option" where
  "mapLegacyStatus L_planned _ = Some Queued"
| "mapLegacyStatus L_delegated _ = Some Queued"
| "mapLegacyStatus L_implementing _ = Some Working"
| "mapLegacyStatus L_retrying_external_ci _ = Some Working"
| "mapLegacyStatus L_rework _ = Some Rework"
| "mapLegacyStatus L_validated _ = Some In_audit"
| "mapLegacyStatus L_ready_for_audit _ = Some In_audit"
| "mapLegacyStatus L_auditing _ = Some In_audit"
| "mapLegacyStatus L_final_audit _ = Some In_audit"
| "mapLegacyStatus L_ready_for_integration pass = Some (if pass then Passed else In_audit)"
| "mapLegacyStatus L_integrating pass = Some (if pass then Passed else In_audit)"
| "mapLegacyStatus L_passed _ = Some Passed"
| "mapLegacyStatus L_finalizing _ = Some Passed"
| "mapLegacyStatus L_committed _ = Some Passed"
| "mapLegacyStatus L_pushed _ = Some Done"
| "mapLegacyStatus L_finalized _ = Some Done"
| "mapLegacyStatus L_cancelled _ = Some Cancelled"
| "mapLegacyStatus L_blocked _ = None"
| "mapLegacyStatus L_recovered _ = None"

definition last_item :: "'a list \<Rightarrow> 'a option" where
  "last_item xs = (if xs = [] then None else Some (last xs))"

definition hasLegacyPassReceipt :: "legacy_task \<Rightarrow> bool" where
  "hasLegacyPassReceipt task =
    (let finals = js_sort_by (\<lambda>a b. if lr_createdAt a - lr_createdAt b \<noteq> 0 then lr_createdAt a - lr_createdAt b
                                    else lr_sequence a - lr_sequence b)
       (filter lr_final (opt_default [] (lt_auditReceipts task)))
     in case last_item finals of None \<Rightarrow> False | Some r \<Rightarrow> lr_verdict r = Some ''PASS'')"

definition nonempty :: "string \<Rightarrow> string option" where
  "nonempty s = (if s = [] then None else Some s)"

definition liveSession :: "legacy_task \<Rightarrow> legacy_role list \<Rightarrow> string option" where
  "liveSession task roles =
    (let mine = filter (\<lambda>a. la_role a \<in> set roles) (lt_assignments task);
         live = filter (\<lambda>a. la_status a \<notin> set terminal_legacy) mine
     in case opt_or (last_item live) (last_item mine) of None \<Rightarrow> None | Some a \<Rightarrow> nonempty (la_sessionName a))"

definition projectBrainSession :: "session_record list \<Rightarrow> string \<Rightarrow> string" where
  "projectBrainSession sessions project =
    (case find (\<lambda>s. sn_projectName s = project \<and> sn_brain s) sessions of
       Some s \<Rightarrow> sn_name s
     | None \<Rightarrow> ''deck_'' @ project @ ''_brain'')"

definition legacyTaskToPair :: "session_record list \<Rightarrow> legacy_task \<Rightarrow> int \<Rightarrow> string list \<Rightarrow> pair option" where
  "legacyTaskToPair sessions task now projectBlocking =
    (case mapLegacyStatus (lt_status task) (hasLegacyPassReceipt task) of
       None \<Rightarrow> None
     | Some st \<Rightarrow>
         let executor = liveSession task [Legacy_implementer, Legacy_integration_owner];
             auditor = (case find (\<lambda>a. la_role a = Legacy_auditor \<and> la_status a \<notin> set terminal_legacy) (lt_assignments task) of
                          None \<Rightarrow> None | Some a \<Rightarrow> nonempty (la_sessionName a));
             brain = opt_default (projectBrainSession sessions (lt_projectName task)) (liveSession task [Legacy_coordinator]);
             inAudit = (st \<in> {In_audit, Rework, Passed})
         in Some \<lparr>
           tp_scheduling = None, tp_taskId = lt_taskId task, tp_brain = brain, tp_executor = executor, tp_auditor = auditor,
           tp_title = Some (take 120 (hd (js_split nl (lt_objective task)))), tp_status = st,
           tp_flags = (if auditor = None \<and> st \<noteq> Passed then [Fl_needs_auditor] else []),
           tp_flagSides = \<lparr>fs_blocked = None, fs_needs_input = None\<rparr>,
           tp_blockedNote = None, tp_lastWaitResolution = None, tp_round = (if inAudit then 1 else 0),
           tp_passRound = (if st = Passed then Some 1 else None),
           tp_deliveryRound = None, tp_roundBase = None, tp_materialHold = None,
           tp_blocking = normalizeAuditBlockingSeverities (Some projectBlocking),
           tp_blockingSource = Some Blk_config, tp_lastVerdict = None, tp_previousAuditors = [],
           tp_auditorPinned = None, tp_executorPool = None, tp_executorModel = None,
           tp_executorThinking = None, tp_auditorModel = None, tp_auditorThinking = None,
           tp_brief = (if isPlaceholderLegacyObjective (lt_objective task) then None else Some (take brief_max (lt_objective task))),
           tp_material = None, tp_workspace = None, tp_capacityWaitReason = None,
           tp_auditorProposalNudgeRound = None, tp_workspaceKind = None, tp_parallelInPlace = False,
           tp_urgent = None, tp_output = None, tp_capCounts = Map.empty, tp_capRound = (if inAudit then 1 else 0),
           tp_closedNoticeSentTo = [], tp_inAuditNoticeRound = None, tp_integrationDismissedAt = None,
           tp_startedAt = None, tp_createdAt = now, tp_updatedAt = now\<rparr>)"

section \<open>The correction of an earlier import\<close>

record legacy_event =
  ev_id :: string
  ev_verb :: string
  ev_at :: int
  ev_toStatus :: "status option"
  ev_legacyStatus :: "lifecycle option"

definition post_import_advancing_verbs :: "string list" where
  "post_import_advancing_verbs = [''PASS'', ''REWORK'', ''DONE'', ''READY_FOR_AUDIT'']"

definition import_event_id :: "string \<Rightarrow> string" where
  "import_event_id taskId = ''legacy_import:'' @ taskId"

text \<open>\<open>already\<close> says whether the store has the correction event.\<close>

definition correctUnauditedPassedImport :: "pair \<Rightarrow> bool \<Rightarrow> legacy_event list \<Rightarrow> legacy_task \<Rightarrow> int \<Rightarrow> pair option" where
  "correctUnauditedPassedImport p already events task now =
    (if tp_status p \<noteq> Passed then None
     else if already then None
     else case find (\<lambda>e. ev_id e = import_event_id (tp_taskId p)) events of
       None \<Rightarrow> None
     | Some imported \<Rightarrow>
         if ev_toStatus imported \<noteq> Some Passed then None
         else if list_ex (\<lambda>e. ev_at e \<ge> ev_at imported \<and> ev_id e \<noteq> ev_id imported \<and>
                   ev_verb e \<in> set post_import_advancing_verbs) events then None
         else case mapLegacyStatus (opt_default (lt_status task) (ev_legacyStatus imported)) (hasLegacyPassReceipt task) of
           None \<Rightarrow> None
         | Some st \<Rightarrow>
             if st = Passed then None
             else
               let hasAuditor = (truthy (tp_auditor p) \<and> tp_auditor p \<noteq> Some no_auditor);
                   flags = filter (\<lambda>f. f \<noteq> Fl_executor_silent \<and> f \<noteq> Fl_needs_auditor) (tp_flags p)
               in Some (p\<lparr>tp_status := st, tp_flags := (if hasAuditor then flags else flags @ [Fl_needs_auditor]),
                    tp_round := max 1 (tp_round p), tp_passRound := None, tp_lastVerdict := None,
                    tp_capCounts := Map.empty, tp_capRound := max 1 (tp_round p), tp_updatedAt := now\<rparr>))"

section \<open>The import of one task\<close>

datatype import_outcome =
  Import_skipped
| Import_corrected pair
| Import_parked string
| Import_placeholder string
| Imported pair

text \<open>
  The body of the loop of \<open>importLegacyTasks\<close>, up to the notices: \<open>pairs_project\<close> is \<open>isPairsEngineProject\<close>, \<open>existing\<close> the pair
  imported for this task, with its correction mark and events.
\<close>

definition importLegacyTask ::
  "session_record list \<Rightarrow> string list \<Rightarrow> int \<Rightarrow> (string \<Rightarrow> bool) \<Rightarrow> (pair \<times> bool \<times> legacy_event list) option \<Rightarrow> legacy_task \<Rightarrow>
   import_outcome" where
  "importLegacyTask sessions blocking now pairs_project existing task =
    (if lt_status task \<in> set terminal_legacy \<or> (case lt_archivedAt task of None \<Rightarrow> False | Some t \<Rightarrow> t \<noteq> 0) then Import_skipped
     else if lt_projectName task = [] \<or> \<not> pairs_project (lt_projectName task) then Import_skipped
     else case existing of
       Some (p, already, events) \<Rightarrow>
         (case correctUnauditedPassedImport p already events task now of None \<Rightarrow> Import_skipped | Some p' \<Rightarrow> Import_corrected p')
     | None \<Rightarrow>
         if lt_status task \<in> set parked_legacy then Import_parked (lt_taskId task)
         else if mapLegacyStatus (lt_status task) (hasLegacyPassReceipt task) = Some Queued \<and>
           isPlaceholderLegacyObjective (lt_objective task) then Import_placeholder (lt_taskId task)
         else case legacyTaskToPair sessions task now blocking of None \<Rightarrow> Import_skipped | Some p \<Rightarrow> Imported p)"

section \<open>The daemon's own writes\<close>

definition normalizeWorkspacePath :: "string \<Rightarrow> string" where
  "normalizeWorkspacePath value =
    (let slashed = rev (dropWhile (\<lambda>c. c = CHR ''/'') (rev (map (\<lambda>c. if c = backslash then CHR ''/'' else c) value)))
     in case slashed of
          d # c # s # _ \<Rightarrow> if (is_upper d \<or> is_lower d) \<and> c = CHR '':'' \<and> s = CHR ''/'' then js_lower slashed else slashed
        | _ \<Rightarrow> slashed)"

definition without_slashes :: "string \<Rightarrow> string" where
  "without_slashes p = rev (dropWhile (\<lambda>c. c = backslash \<or> c = CHR ''/'') (rev p))"

fun redirect_from :: "string \<Rightarrow> string list \<Rightarrow> string \<Rightarrow> string" where
  "redirect_from target [] path = path"
| "redirect_from target (previous # rest) path =
    (let wanted = normalizeWorkspacePath path; old = normalizeWorkspacePath previous in
     if wanted = old then target
     else if starts_with wanted (old @ ''/'') then without_slashes target @ drop (length (without_slashes previous)) path
     else redirect_from target rest path)"

definition redirectTaskPairWorkspacePath :: "workspace option \<Rightarrow> string \<Rightarrow> string" where
  "redirectTaskPairWorkspacePath ws path =
    (case ws of None \<Rightarrow> path
     | Some w \<Rightarrow> if ws_previousPaths w = [] \<or> path = [] then path else redirect_from (ws_path w) (ws_previousPaths w) path)"

definition redirectMaterialToCurrentWorkspace :: "pair \<Rightarrow> pair" where
  "redirectMaterialToCurrentWorkspace p =
    p\<lparr>tp_material := map_option (\<lambda>m. m\<lparr>mat_worktree := map_option (redirectTaskPairWorkspacePath (tp_workspace p)) (mat_worktree m),
        mat_path := map_option (redirectTaskPairWorkspacePath (tp_workspace p)) (mat_path m)\<rparr>) (tp_material p)\<rparr>"

text \<open>The flags that the scheduler and the service set by themselves.\<close>

definition daemon_flags :: "flag list" where
  "daemon_flags = [Fl_auditor_capacity_hold, Fl_executor_silent, Fl_waiting_for_capacity, Fl_all_providers_limited,
     Fl_needs_auditor, Fl_economy_unreviewed, Fl_no_pool_configured]"

datatype daemon_write =
  Write_workspace "workspace option"
| Write_scheduling scheduling
| Write_hold string string
| Write_flag flag
| Write_unflag "flag list"
| Write_waitReason "string option"
| Write_executorPool string
| Write_title string
| Write_tick checklist_box_kind
| Write_brainMessage string string

definition flagOnce :: "flag \<Rightarrow> int \<Rightarrow> pair \<Rightarrow> pair" where
  "flagOnce f now p = (if f \<in> set (tp_flags p) then p else p\<lparr>tp_flags := tp_flags p @ [f], tp_updatedAt := now\<rparr>)"

definition patchScheduling :: "scheduling \<Rightarrow> int \<Rightarrow> pair \<Rightarrow> pair" where
  "patchScheduling s now p =
    (if isTerminalTaskPairStatus (tp_status p) then p else p\<lparr>tp_scheduling := Some s, tp_updatedAt := now\<rparr>)"

definition holdMaterialOutsideBase :: "string \<Rightarrow> string \<Rightarrow> int \<Rightarrow> pair \<Rightarrow> pair" where
  "holdMaterialOutsideBase head base at p =
    (if tp_status p \<noteq> In_audit \<or> tp_materialHold p \<noteq> None then p
     else case (case tp_material p of None \<Rightarrow> None | Some m \<Rightarrow> mat_head m) of
       None \<Rightarrow> p
     | Some h \<Rightarrow>
         if h = [] \<or> \<not> sameTaskPairCommit h head then p
         else p\<lparr>tp_materialHold := Some \<lparr>mh_head = head, mh_base = base, mh_at = at\<rparr>, tp_updatedAt := at\<rparr>)"

text \<open>One box of \<open>#autoTickChecklist\<close>.\<close>

definition autoTickChecklist :: "checklist_box_kind \<Rightarrow> int \<Rightarrow> pair \<Rightarrow> pair" where
  "autoTickChecklist box now p =
    (let brief = opt_default [] (tp_brief p);
         ticked = (\<lambda>i. case box of Box_implemented \<Rightarrow> ci_implemented i | Box_audited \<Rightarrow> ci_audited i);
         items = map ci_index (filter (\<lambda>i. \<not> ticked i) (parseTaskPairChecklist brief));
         markdown = updateTaskPairChecklist brief items box True
     in if items = [] \<or> markdown = brief then p else p\<lparr>tp_brief := Some markdown, tp_updatedAt := now\<rparr>)"

text \<open>A message of Brain to a participant resolves what the pair waits for.\<close>

definition resolveBrainReply :: "string \<Rightarrow> string \<Rightarrow> int \<Rightarrow> pair \<Rightarrow> pair" where
  "resolveBrainReply writer target now p =
    (if tp_brain p \<noteq> writer \<or>
        (Some target \<noteq> tp_executor p \<and> (tp_auditor p = None \<or> tp_auditor p = Some no_auditor \<or> Some target \<noteq> tp_auditor p)) then p
     else if Fl_blocked \<notin> set (tp_flags p) \<and> Fl_needs_input \<notin> set (tp_flags p) \<and> tp_status p \<noteq> Awaiting_brain_decision then p
     else resolveTaskPairBrainWait (p\<lparr>tp_updatedAt := now\<rparr>) now None)"

fun daemon_writes :: "int \<Rightarrow> daemon_write \<Rightarrow> pair \<Rightarrow> pair" where
  "daemon_writes now (Write_workspace ws) p = (redirectMaterialToCurrentWorkspace (p\<lparr>tp_workspace := ws\<rparr>))\<lparr>tp_updatedAt := now\<rparr>"
| "daemon_writes now (Write_scheduling s) p = patchScheduling s now p"
| "daemon_writes now (Write_hold head base) p = holdMaterialOutsideBase head base now p"
| "daemon_writes now (Write_flag f) p = (if f \<in> set daemon_flags then flagOnce f now p else p)"
| "daemon_writes now (Write_unflag fs) p = p\<lparr>tp_flags := filter (\<lambda>f. f \<notin> set fs) (tp_flags p), tp_updatedAt := now\<rparr>"
| "daemon_writes now (Write_waitReason r) p = p\<lparr>tp_capacityWaitReason := r, tp_updatedAt := now\<rparr>"
| "daemon_writes now (Write_executorPool pool) p = p\<lparr>tp_executorPool := Some pool\<rparr>"
| "daemon_writes now (Write_title t) p = p\<lparr>tp_title := Some t, tp_updatedAt := now\<rparr>"
| "daemon_writes now (Write_tick box) p = autoTickChecklist box now p"
| "daemon_writes now (Write_brainMessage writer target) p = resolveBrainReply writer target now p"

section \<open>What the import does\<close>

lemma imported_pair:
  assumes "legacyTaskToPair sessions task now b = Some p"
  shows "mapLegacyStatus (lt_status task) (hasLegacyPassReceipt task) = Some (tp_status p) \<and>
    tp_round p = (if tp_status p \<in> {In_audit, Rework, Passed} then 1 else 0) \<and>
    tp_passRound p = (if tp_status p = Passed then Some 1 else None) \<and> tp_capRound p = tp_round p \<and>
    tp_capCounts p = Map.empty \<and> tp_material p = None \<and> tp_blocking p = normalizeAuditBlockingSeverities (Some b) \<and>
    tp_flags p = (if tp_auditor p = None \<and> tp_status p \<noteq> Passed then [Fl_needs_auditor] else [])"
proof (cases "mapLegacyStatus (lt_status task) (hasLegacyPassReceipt task)")
  case (Some st)
  have p: "p = the (legacyTaskToPair sessions task now b)" using assms by simp
  show ?thesis unfolding p legacyTaskToPair_def Some by (simp add: Let_def)
qed (use assms in \<open>simp add: legacyTaskToPair_def\<close>)

text \<open>A legacy task becomes a passed pair only if it had passed, or has a final receipt whose latest verdict is PASS.\<close>

lemma imported_pass:
  assumes "legacyTaskToPair sessions task now b = Some p" and "tp_status p = Passed"
  shows "lt_status task \<in> {L_passed, L_finalizing, L_committed} \<or>
    lt_status task \<in> {L_ready_for_integration, L_integrating} \<and> hasLegacyPassReceipt task"
proof -
  have "mapLegacyStatus (lt_status task) (hasLegacyPassReceipt task) = Some Passed" using imported_pair [OF assms(1)] assms(2) by simp
  then show ?thesis by (cases "lt_status task") (simp_all split: if_split_asm)
qed

lemma imported_outcome:
  "importLegacyTask sessions b now pj existing task = Imported p \<longleftrightarrow>
    existing = None \<and> legacyTaskToPair sessions task now b = Some p \<and>
    lt_status task \<notin> set terminal_legacy \<and> (case lt_archivedAt task of None \<Rightarrow> True | Some t \<Rightarrow> t = 0) \<and>
    lt_projectName task \<noteq> [] \<and> pj (lt_projectName task) \<and> lt_status task \<notin> set parked_legacy \<and>
    \<not> (mapLegacyStatus (lt_status task) (hasLegacyPassReceipt task) = Some Queued \<and> isPlaceholderLegacyObjective (lt_objective task))"
  by (auto simp: importLegacyTask_def split: option.splits)

lemma corrected_outcome:
  "importLegacyTask sessions b now pj existing task = Import_corrected p' \<Longrightarrow>
    \<exists>p already events. existing = Some (p, already, events) \<and> correctUnauditedPassedImport p already events task now = Some p'"
  by (auto simp: importLegacyTask_def split: option.splits if_splits)

lemma corrected_pair:
  assumes "correctUnauditedPassedImport p already events task now = Some p'"
  obtains st where "tp_status p = Passed" "st \<noteq> Passed"
    "p' = p\<lparr>tp_status := st, tp_flags := tp_flags p', tp_round := max 1 (tp_round p), tp_passRound := None, tp_lastVerdict := None,
       tp_capCounts := Map.empty, tp_capRound := max 1 (tp_round p), tp_updatedAt := now\<rparr>"
    "tp_flags p' = filter (\<lambda>f. f \<noteq> Fl_executor_silent \<and> f \<noteq> Fl_needs_auditor) (tp_flags p) \<or>
     tp_flags p' = filter (\<lambda>f. f \<noteq> Fl_executor_silent \<and> f \<noteq> Fl_needs_auditor) (tp_flags p) @ [Fl_needs_auditor]"
  using assms
  by (auto simp: correctUnauditedPassedImport_def Let_def split: if_splits option.splits)

end
