(* ===== verification/TaskPairProps.thy ===== *)
theory TaskPairProps
  imports TaskPairLegacy
begin

text \<open>
  The properties of the task-pair state machine.  The first section says which fields each helper
  leaves alone; the second characterises, per handler, the status and the counters of the pair it
  returns; the properties follow by cases on the verb.
\<close>

section \<open>Frames of the helpers\<close>

lemma setField_frame:
  assumes "\<And>v q. f (upd v q) = f q"
  shows "f (setField attrs k upd p) = f p"
  using assms by (simp add: setField_def)

lemmas setField_frames = setField_frame [where f = tp_scheduling]
  setField_frame [where f = tp_taskId]
  setField_frame [where f = tp_brain]
  setField_frame [where f = tp_executor]
  setField_frame [where f = tp_auditor]
  setField_frame [where f = tp_status]
  setField_frame [where f = tp_flags]
  setField_frame [where f = tp_round]
  setField_frame [where f = tp_passRound]
  setField_frame [where f = tp_deliveryRound]
  setField_frame [where f = tp_roundBase]
  setField_frame [where f = tp_materialHold]
  setField_frame [where f = tp_blocking]
  setField_frame [where f = tp_material]
  setField_frame [where f = tp_capCounts]
  setField_frame [where f = tp_capRound]

lemma addFlag_frame [simp]:
  "tp_scheduling (addFlag p f) = tp_scheduling p"  "tp_taskId (addFlag p f) = tp_taskId p"
  "tp_brain (addFlag p f) = tp_brain p"  "tp_executor (addFlag p f) = tp_executor p"
  "tp_auditor (addFlag p f) = tp_auditor p"  "tp_status (addFlag p f) = tp_status p"
  "tp_round (addFlag p f) = tp_round p"  "tp_passRound (addFlag p f) = tp_passRound p"
  "tp_deliveryRound (addFlag p f) = tp_deliveryRound p"  "tp_roundBase (addFlag p f) = tp_roundBase p"
  "tp_materialHold (addFlag p f) = tp_materialHold p"  "tp_blocking (addFlag p f) = tp_blocking p"
  "tp_material (addFlag p f) = tp_material p"  "tp_capCounts (addFlag p f) = tp_capCounts p"
  "tp_capRound (addFlag p f) = tp_capRound p"
  by (simp_all add: addFlag_def)

lemma removeFlag_frame [simp]:
  "tp_scheduling (removeFlag p f) = tp_scheduling p"  "tp_taskId (removeFlag p f) = tp_taskId p"
  "tp_brain (removeFlag p f) = tp_brain p"  "tp_executor (removeFlag p f) = tp_executor p"
  "tp_auditor (removeFlag p f) = tp_auditor p"  "tp_status (removeFlag p f) = tp_status p"
  "tp_round (removeFlag p f) = tp_round p"  "tp_passRound (removeFlag p f) = tp_passRound p"
  "tp_deliveryRound (removeFlag p f) = tp_deliveryRound p"  "tp_roundBase (removeFlag p f) = tp_roundBase p"
  "tp_materialHold (removeFlag p f) = tp_materialHold p"  "tp_blocking (removeFlag p f) = tp_blocking p"
  "tp_material (removeFlag p f) = tp_material p"  "tp_capCounts (removeFlag p f) = tp_capCounts p"
  "tp_capRound (removeFlag p f) = tp_capRound p"
  by (simp_all add: removeFlag_def)

lemma markTaskPairStarted_frame [simp]:
  "tp_scheduling (markTaskPairStarted p now) = tp_scheduling p"  "tp_taskId (markTaskPairStarted p now) = tp_taskId p"
  "tp_brain (markTaskPairStarted p now) = tp_brain p"  "tp_executor (markTaskPairStarted p now) = tp_executor p"
  "tp_auditor (markTaskPairStarted p now) = tp_auditor p"  "tp_round (markTaskPairStarted p now) = tp_round p"
  "tp_passRound (markTaskPairStarted p now) = tp_passRound p"  "tp_deliveryRound (markTaskPairStarted p now) = tp_deliveryRound p"
  "tp_roundBase (markTaskPairStarted p now) = tp_roundBase p"  "tp_materialHold (markTaskPairStarted p now) = tp_materialHold p"
  "tp_blocking (markTaskPairStarted p now) = tp_blocking p"  "tp_material (markTaskPairStarted p now) = tp_material p"
  "tp_capCounts (markTaskPairStarted p now) = tp_capCounts p"  "tp_capRound (markTaskPairStarted p now) = tp_capRound p"
  by (simp_all add: markTaskPairStarted_def)

lemma resolveTaskPairBrainWait_frame [simp]:
  "tp_scheduling (resolveTaskPairBrainWait p now res) = tp_scheduling p"  "tp_taskId (resolveTaskPairBrainWait p now res) = tp_taskId p"
  "tp_brain (resolveTaskPairBrainWait p now res) = tp_brain p"  "tp_executor (resolveTaskPairBrainWait p now res) = tp_executor p"
  "tp_auditor (resolveTaskPairBrainWait p now res) = tp_auditor p"  "tp_round (resolveTaskPairBrainWait p now res) = tp_round p"
  "tp_passRound (resolveTaskPairBrainWait p now res) = tp_passRound p"  "tp_deliveryRound (resolveTaskPairBrainWait p now res) = tp_deliveryRound p"
  "tp_roundBase (resolveTaskPairBrainWait p now res) = tp_roundBase p"  "tp_materialHold (resolveTaskPairBrainWait p now res) = tp_materialHold p"
  "tp_blocking (resolveTaskPairBrainWait p now res) = tp_blocking p"  "tp_material (resolveTaskPairBrainWait p now res) = tp_material p"
  "tp_capCounts (resolveTaskPairBrainWait p now res) = tp_capCounts p"  "tp_capRound (resolveTaskPairBrainWait p now res) = tp_capRound p"
  by (simp_all add: resolveTaskPairBrainWait_def Let_def split: option.splits)

lemma spendCap_frame [simp]:
  "tp_scheduling (fst (snd (spendCap p r is))) = tp_scheduling p"  "tp_taskId (fst (snd (spendCap p r is))) = tp_taskId p"
  "tp_brain (fst (snd (spendCap p r is))) = tp_brain p"  "tp_executor (fst (snd (spendCap p r is))) = tp_executor p"
  "tp_auditor (fst (snd (spendCap p r is))) = tp_auditor p"  "tp_status (fst (snd (spendCap p r is))) = tp_status p"
  "tp_round (fst (snd (spendCap p r is))) = tp_round p"  "tp_passRound (fst (snd (spendCap p r is))) = tp_passRound p"
  "tp_deliveryRound (fst (snd (spendCap p r is))) = tp_deliveryRound p"  "tp_roundBase (fst (snd (spendCap p r is))) = tp_roundBase p"
  "tp_materialHold (fst (snd (spendCap p r is))) = tp_materialHold p"  "tp_blocking (fst (snd (spendCap p r is))) = tp_blocking p"
  "tp_material (fst (snd (spendCap p r is))) = tp_material p"
  by (simp_all add: spendCap_def Let_def)

lemma resetCaps_frame [simp]:
  "tp_scheduling (resetCaps p) = tp_scheduling p"  "tp_taskId (resetCaps p) = tp_taskId p"
  "tp_brain (resetCaps p) = tp_brain p"  "tp_executor (resetCaps p) = tp_executor p"
  "tp_auditor (resetCaps p) = tp_auditor p"  "tp_status (resetCaps p) = tp_status p"
  "tp_round (resetCaps p) = tp_round p"  "tp_passRound (resetCaps p) = tp_passRound p"
  "tp_deliveryRound (resetCaps p) = tp_deliveryRound p"  "tp_roundBase (resetCaps p) = tp_roundBase p"
  "tp_materialHold (resetCaps p) = tp_materialHold p"  "tp_blocking (resetCaps p) = tp_blocking p"
  "tp_material (resetCaps p) = tp_material p"
  by (simp_all add: resetCaps_def capped_reasons_def)

lemma applyWorkspaceAttr_frame [simp]:
  "tp_scheduling (applyWorkspaceAttr p a) = tp_scheduling p"  "tp_taskId (applyWorkspaceAttr p a) = tp_taskId p"
  "tp_brain (applyWorkspaceAttr p a) = tp_brain p"  "tp_executor (applyWorkspaceAttr p a) = tp_executor p"
  "tp_auditor (applyWorkspaceAttr p a) = tp_auditor p"  "tp_status (applyWorkspaceAttr p a) = tp_status p"
  "tp_flags (applyWorkspaceAttr p a) = tp_flags p"  "tp_round (applyWorkspaceAttr p a) = tp_round p"
  "tp_passRound (applyWorkspaceAttr p a) = tp_passRound p"  "tp_deliveryRound (applyWorkspaceAttr p a) = tp_deliveryRound p"
  "tp_roundBase (applyWorkspaceAttr p a) = tp_roundBase p"  "tp_materialHold (applyWorkspaceAttr p a) = tp_materialHold p"
  "tp_blocking (applyWorkspaceAttr p a) = tp_blocking p"  "tp_material (applyWorkspaceAttr p a) = tp_material p"
  "tp_capCounts (applyWorkspaceAttr p a) = tp_capCounts p"  "tp_capRound (applyWorkspaceAttr p a) = tp_capRound p"
  by (simp_all add: applyWorkspaceAttr_def Let_def split: option.splits)

lemma applyOutputAttr_frame [simp]:
  "tp_scheduling (applyOutputAttr p a) = tp_scheduling p"  "tp_taskId (applyOutputAttr p a) = tp_taskId p"
  "tp_brain (applyOutputAttr p a) = tp_brain p"  "tp_executor (applyOutputAttr p a) = tp_executor p"
  "tp_auditor (applyOutputAttr p a) = tp_auditor p"  "tp_status (applyOutputAttr p a) = tp_status p"
  "tp_flags (applyOutputAttr p a) = tp_flags p"  "tp_round (applyOutputAttr p a) = tp_round p"
  "tp_passRound (applyOutputAttr p a) = tp_passRound p"  "tp_deliveryRound (applyOutputAttr p a) = tp_deliveryRound p"
  "tp_roundBase (applyOutputAttr p a) = tp_roundBase p"  "tp_materialHold (applyOutputAttr p a) = tp_materialHold p"
  "tp_blocking (applyOutputAttr p a) = tp_blocking p"  "tp_material (applyOutputAttr p a) = tp_material p"
  "tp_capCounts (applyOutputAttr p a) = tp_capCounts p"  "tp_capRound (applyOutputAttr p a) = tp_capRound p"
  by (simp_all add: applyOutputAttr_def split: option.splits)

lemma setBlockingAttr_frame [simp]:
  "tp_scheduling (setBlockingAttr a p) = tp_scheduling p"  "tp_taskId (setBlockingAttr a p) = tp_taskId p"
  "tp_brain (setBlockingAttr a p) = tp_brain p"  "tp_executor (setBlockingAttr a p) = tp_executor p"
  "tp_auditor (setBlockingAttr a p) = tp_auditor p"  "tp_status (setBlockingAttr a p) = tp_status p"
  "tp_flags (setBlockingAttr a p) = tp_flags p"  "tp_round (setBlockingAttr a p) = tp_round p"
  "tp_passRound (setBlockingAttr a p) = tp_passRound p"  "tp_deliveryRound (setBlockingAttr a p) = tp_deliveryRound p"
  "tp_roundBase (setBlockingAttr a p) = tp_roundBase p"  "tp_materialHold (setBlockingAttr a p) = tp_materialHold p"
  "tp_material (setBlockingAttr a p) = tp_material p"  "tp_capCounts (setBlockingAttr a p) = tp_capCounts p"
  "tp_capRound (setBlockingAttr a p) = tp_capRound p"
  by (simp_all add: setBlockingAttr_def split: option.splits)

lemma setRolesFromAttrsQueued_frame [simp]:
  "tp_scheduling (setRolesFromAttrsQueued p a) = tp_scheduling p"  "tp_taskId (setRolesFromAttrsQueued p a) = tp_taskId p"
  "tp_brain (setRolesFromAttrsQueued p a) = tp_brain p"  "tp_status (setRolesFromAttrsQueued p a) = tp_status p"
  "tp_flags (setRolesFromAttrsQueued p a) = tp_flags p"  "tp_round (setRolesFromAttrsQueued p a) = tp_round p"
  "tp_passRound (setRolesFromAttrsQueued p a) = tp_passRound p"  "tp_deliveryRound (setRolesFromAttrsQueued p a) = tp_deliveryRound p"
  "tp_roundBase (setRolesFromAttrsQueued p a) = tp_roundBase p"  "tp_materialHold (setRolesFromAttrsQueued p a) = tp_materialHold p"
  "tp_material (setRolesFromAttrsQueued p a) = tp_material p"  "tp_capCounts (setRolesFromAttrsQueued p a) = tp_capCounts p"
  "tp_capRound (setRolesFromAttrsQueued p a) = tp_capRound p"
  by (simp_all add: setField_frames setRolesFromAttrsQueued_def Let_def)

lemma setRolesFromAttrs_frame [simp]:
  "tp_scheduling (fst (setRolesFromAttrs p a is)) = tp_scheduling p"  "tp_taskId (fst (setRolesFromAttrs p a is)) = tp_taskId p"
  "tp_brain (fst (setRolesFromAttrs p a is)) = tp_brain p"  "tp_status (fst (setRolesFromAttrs p a is)) = tp_status p"
  "tp_round (fst (setRolesFromAttrs p a is)) = tp_round p"  "tp_passRound (fst (setRolesFromAttrs p a is)) = tp_passRound p"
  "tp_deliveryRound (fst (setRolesFromAttrs p a is)) = tp_deliveryRound p"  "tp_roundBase (fst (setRolesFromAttrs p a is)) = tp_roundBase p"
  "tp_materialHold (fst (setRolesFromAttrs p a is)) = tp_materialHold p"  "tp_material (fst (setRolesFromAttrs p a is)) = tp_material p"
  "tp_capCounts (fst (setRolesFromAttrs p a is)) = tp_capCounts p"  "tp_capRound (fst (setRolesFromAttrs p a is)) = tp_capRound p"
  by (simp_all add: setField_frames setRolesFromAttrs_def Let_def)

lemma clearSideFlags_frame [simp]:
  "tp_scheduling (clearSideFlags p r all) = tp_scheduling p"  "tp_taskId (clearSideFlags p r all) = tp_taskId p"
  "tp_brain (clearSideFlags p r all) = tp_brain p"  "tp_executor (clearSideFlags p r all) = tp_executor p"
  "tp_auditor (clearSideFlags p r all) = tp_auditor p"  "tp_status (clearSideFlags p r all) = tp_status p"
  "tp_round (clearSideFlags p r all) = tp_round p"  "tp_passRound (clearSideFlags p r all) = tp_passRound p"
  "tp_deliveryRound (clearSideFlags p r all) = tp_deliveryRound p"  "tp_roundBase (clearSideFlags p r all) = tp_roundBase p"
  "tp_materialHold (clearSideFlags p r all) = tp_materialHold p"  "tp_blocking (clearSideFlags p r all) = tp_blocking p"
  "tp_material (clearSideFlags p r all) = tp_material p"  "tp_capCounts (clearSideFlags p r all) = tp_capCounts p"
  "tp_capRound (clearSideFlags p r all) = tp_capRound p"
  by (simp_all add: clearSideFlags_def Let_def)

lemma with_brief_frame [simp]:
  "tp_scheduling (with_brief e p) = tp_scheduling p"  "tp_taskId (with_brief e p) = tp_taskId p"
  "tp_brain (with_brief e p) = tp_brain p"  "tp_executor (with_brief e p) = tp_executor p"
  "tp_auditor (with_brief e p) = tp_auditor p"  "tp_status (with_brief e p) = tp_status p"
  "tp_flags (with_brief e p) = tp_flags p"  "tp_round (with_brief e p) = tp_round p"
  "tp_passRound (with_brief e p) = tp_passRound p"  "tp_deliveryRound (with_brief e p) = tp_deliveryRound p"
  "tp_roundBase (with_brief e p) = tp_roundBase p"  "tp_materialHold (with_brief e p) = tp_materialHold p"
  "tp_blocking (with_brief e p) = tp_blocking p"  "tp_material (with_brief e p) = tp_material p"
  "tp_capCounts (with_brief e p) = tp_capCounts p"  "tp_capRound (with_brief e p) = tp_capRound p"
  by (simp_all add: with_brief_def split: option.splits)

lemma brief_of_frame [simp]:
  "tp_scheduling (brief_of mk p) = tp_scheduling p"  "tp_taskId (brief_of mk p) = tp_taskId p"
  "tp_brain (brief_of mk p) = tp_brain p"  "tp_executor (brief_of mk p) = tp_executor p"
  "tp_auditor (brief_of mk p) = tp_auditor p"  "tp_status (brief_of mk p) = tp_status p"
  "tp_flags (brief_of mk p) = tp_flags p"  "tp_round (brief_of mk p) = tp_round p"
  "tp_passRound (brief_of mk p) = tp_passRound p"  "tp_deliveryRound (brief_of mk p) = tp_deliveryRound p"
  "tp_roundBase (brief_of mk p) = tp_roundBase p"  "tp_materialHold (brief_of mk p) = tp_materialHold p"
  "tp_blocking (brief_of mk p) = tp_blocking p"  "tp_material (brief_of mk p) = tp_material p"
  "tp_capCounts (brief_of mk p) = tp_capCounts p"  "tp_capRound (brief_of mk p) = tp_capRound p"
  by (simp_all add: brief_of_def split: option.splits)

lemma reassign_resume_frame [simp]:
  "tp_scheduling (reassign_resume e p) = tp_scheduling p"  "tp_taskId (reassign_resume e p) = tp_taskId p"
  "tp_brain (reassign_resume e p) = tp_brain p"  "tp_executor (reassign_resume e p) = tp_executor p"
  "tp_auditor (reassign_resume e p) = tp_auditor p"  "tp_round (reassign_resume e p) = tp_round p"
  "tp_passRound (reassign_resume e p) = tp_passRound p"  "tp_deliveryRound (reassign_resume e p) = tp_deliveryRound p"
  "tp_roundBase (reassign_resume e p) = tp_roundBase p"  "tp_materialHold (reassign_resume e p) = tp_materialHold p"
  "tp_blocking (reassign_resume e p) = tp_blocking p"  "tp_material (reassign_resume e p) = tp_material p"
  by (simp_all add: reassign_resume_def Let_def)

lemma reassign_roles_frame [simp]:
  "tp_scheduling (fst (reassign_roles e p)) = tp_scheduling p"  "tp_taskId (fst (reassign_roles e p)) = tp_taskId p"
  "tp_brain (fst (reassign_roles e p)) = tp_brain p"  "tp_status (fst (reassign_roles e p)) = tp_status p"
  "tp_round (fst (reassign_roles e p)) = tp_round p"  "tp_passRound (fst (reassign_roles e p)) = tp_passRound p"
  "tp_deliveryRound (fst (reassign_roles e p)) = tp_deliveryRound p"  "tp_roundBase (fst (reassign_roles e p)) = tp_roundBase p"
  "tp_materialHold (fst (reassign_roles e p)) = tp_materialHold p"  "tp_material (fst (reassign_roles e p)) = tp_material p"
  "tp_capCounts (fst (reassign_roles e p)) = tp_capCounts p"  "tp_capRound (fst (reassign_roles e p)) = tp_capRound p"
  by (simp_all add: reassign_roles_def Let_def case_prod_beta)

lemma reassign_admission_frame [simp]:
  "tp_scheduling (fst (reassign_admission e q)) = tp_scheduling (fst q)"  "tp_taskId (fst (reassign_admission e q)) = tp_taskId (fst q)"
  "tp_brain (fst (reassign_admission e q)) = tp_brain (fst q)"  "tp_executor (fst (reassign_admission e q)) = tp_executor (fst q)"
  "tp_auditor (fst (reassign_admission e q)) = tp_auditor (fst q)"  "tp_round (fst (reassign_admission e q)) = tp_round (fst q)"
  "tp_passRound (fst (reassign_admission e q)) = tp_passRound (fst q)"  "tp_deliveryRound (fst (reassign_admission e q)) = tp_deliveryRound (fst q)"
  "tp_roundBase (fst (reassign_admission e q)) = tp_roundBase (fst q)"  "tp_materialHold (fst (reassign_admission e q)) = tp_materialHold (fst q)"
  "tp_blocking (fst (reassign_admission e q)) = tp_blocking (fst q)"  "tp_material (fst (reassign_admission e q)) = tp_material (fst q)"
  "tp_capCounts (fst (reassign_admission e q)) = tp_capCounts (fst q)"  "tp_capRound (fst (reassign_admission e q)) = tp_capRound (fst q)"
  by (simp_all add: reassign_admission_def Let_def case_prod_beta)

lemma ready_material_frame [simp]:
  "tp_scheduling (ready_material p m now) = tp_scheduling p"  "tp_taskId (ready_material p m now) = tp_taskId p"
  "tp_brain (ready_material p m now) = tp_brain p"  "tp_executor (ready_material p m now) = tp_executor p"
  "tp_auditor (ready_material p m now) = tp_auditor p"  "tp_status (ready_material p m now) = tp_status p"
  "tp_flags (ready_material p m now) = tp_flags p"  "tp_round (ready_material p m now) = tp_round p"
  "tp_passRound (ready_material p m now) = tp_passRound p"  "tp_deliveryRound (ready_material p m now) = tp_deliveryRound p"
  "tp_roundBase (ready_material p m now) = tp_roundBase p"  "tp_materialHold (ready_material p m now) = tp_materialHold p"
  "tp_blocking (ready_material p m now) = tp_blocking p"  "tp_capCounts (ready_material p m now) = tp_capCounts p"
  "tp_capRound (ready_material p m now) = tp_capRound p"
  by (simp_all add: ready_material_def Let_def split: option.splits)

lemma open_audit_round_frame [simp]:
  "tp_scheduling (open_audit_round c p) = tp_scheduling p"  "tp_taskId (open_audit_round c p) = tp_taskId p"
  "tp_brain (open_audit_round c p) = tp_brain p"  "tp_executor (open_audit_round c p) = tp_executor p"
  "tp_auditor (open_audit_round c p) = tp_auditor p"  "tp_status (open_audit_round c p) = In_audit"
  "tp_round (open_audit_round c p) = tp_round p + 1"  "tp_passRound (open_audit_round c p) = tp_passRound p"
  "tp_deliveryRound (open_audit_round c p) = tp_deliveryRound p"
  "tp_roundBase (open_audit_round c p) = tp_roundBase p"
  "tp_materialHold (open_audit_round c p) = tp_materialHold p"
  "tp_material (open_audit_round c p) = tp_material p"
  "tp_capCounts (open_audit_round c p) = Map.empty"  "tp_capRound (open_audit_round c p) = tp_round p + 1"
  by (simp_all add: open_audit_round_def Let_def resetCaps_def capped_reasons_def)

section \<open>Results of the building blocks\<close>

lemma recorded_simps [simp]:
  "tr_pair (recorded p u is) = None" "tr_intents (recorded p u is) = is"
  by (simp_all add: recorded_def)

lemma finish_simps [simp]:
  "tr_pair (finish e p eff u is) = Some p" "tr_intents (finish e p eff u is) = is"
  by (simp_all add: finish_def)

lemma created_simps [simp]:
  "tr_pair (created p u is) = Some p" "tr_intents (created p u is) = is"
  by (simp_all add: created_def)

text \<open>A rejection changes only the counters of the caps.\<close>

lemma spendCap_ok:
  "fst (spendCap p r is) \<Longrightarrow> snd (snd (spendCap p r is)) = is \<and>
     tp_flags (fst (snd (spendCap p r is))) = tp_flags p"
  by (auto simp: spendCap_def Let_def split: if_splits)

lemma reject_pair:
  assumes "tr_pair (reject e p is txt) = Some p'"
  shows "p' = p\<lparr>tp_capCounts := tp_capCounts p', tp_capRound := tp_capRound p'\<rparr>"
proof -
  from assms have "fst (spendCap p Policy_rejection is)" "p' = fst (snd (spendCap p Policy_rejection is))"
    by (auto simp: reject_def Let_def case_prod_beta split: if_splits)
  then show ?thesis by (auto simp: spendCap_def Let_def split: if_splits)
qed

lemma reject_fields:
  assumes "tr_pair (reject e p is txt) = Some p'"
  shows "tp_status p' = tp_status p" "tp_executor p' = tp_executor p" "tp_auditor p' = tp_auditor p"
    "tp_round p' = tp_round p" "tp_passRound p' = tp_passRound p" "tp_deliveryRound p' = tp_deliveryRound p"
    "tp_material p' = tp_material p" "tp_materialHold p' = tp_materialHold p" "tp_flags p' = tp_flags p"
    "tp_blocking p' = tp_blocking p" "tp_brain p' = tp_brain p" "tp_taskId p' = tp_taskId p"
    "tp_capRound p' = tp_round p"
proof -
  note eq = reject_pair [OF assms]
  show "tp_status p' = tp_status p" "tp_executor p' = tp_executor p" "tp_auditor p' = tp_auditor p"
    "tp_round p' = tp_round p" "tp_passRound p' = tp_passRound p" "tp_deliveryRound p' = tp_deliveryRound p"
    "tp_material p' = tp_material p" "tp_materialHold p' = tp_materialHold p" "tp_flags p' = tp_flags p"
    "tp_blocking p' = tp_blocking p" "tp_brain p' = tp_brain p" "tp_taskId p' = tp_taskId p"
    by (subst eq, simp)+
  from assms have "p' = fst (snd (spendCap p Policy_rejection is))"
    by (auto simp: reject_def Let_def case_prod_beta split: if_splits)
  then show "tp_capRound p' = tp_round p" by (auto simp: spendCap_def Let_def)
qed

lemma verdict_blocked_pair:
  "tr_pair (b\<lparr>tr_intents := is\<rparr>) = tr_pair b" "tr_pair (b\<lparr>tr_effect := f\<rparr>) = tr_pair b"
  "tr_pair (b\<lparr>tr_verdict := v\<rparr>) = tr_pair b"
  by simp_all

section \<open>Statuses\<close>

text \<open>
  The pair a handler works on is the existing one after \<open>prepare_pair\<close>: only flags, waits and
  the status \<open>awaiting_brain_decision\<close> can differ.
\<close>

lemma prepare_pair_frame [simp]:
  "tp_scheduling (prepare_pair v e) = tp_scheduling (se_existing e)"
  "tp_taskId (prepare_pair v e) = tp_taskId (se_existing e)"
  "tp_brain (prepare_pair v e) = tp_brain (se_existing e)"
  "tp_executor (prepare_pair v e) = tp_executor (se_existing e)"
  "tp_auditor (prepare_pair v e) = tp_auditor (se_existing e)"
  "tp_round (prepare_pair v e) = tp_round (se_existing e)"
  "tp_passRound (prepare_pair v e) = tp_passRound (se_existing e)"
  "tp_deliveryRound (prepare_pair v e) = tp_deliveryRound (se_existing e)"
  "tp_roundBase (prepare_pair v e) = tp_roundBase (se_existing e)"
  "tp_materialHold (prepare_pair v e) = tp_materialHold (se_existing e)"
  "tp_blocking (prepare_pair v e) = tp_blocking (se_existing e)"
  "tp_material (prepare_pair v e) = tp_material (se_existing e)"
  "tp_capCounts (prepare_pair v e) = tp_capCounts (se_existing e)"
  "tp_capRound (prepare_pair v e) = tp_capRound (se_existing e)"
  by (simp_all add: prepare_pair_def Let_def)

lemma markTaskPairStarted_status [simp]: "tp_status (markTaskPairStarted p now) = Working"
  by (simp add: markTaskPairStarted_def)

lemma resolveWait_status:
  "tp_status (resolveTaskPairBrainWait p now res) =
     (if tp_status p = Awaiting_brain_decision then Working else tp_status p)"
  by (auto simp: resolveTaskPairBrainWait_def Let_def split: option.splits)

lemma prepare_pair_status:
  "tp_status (prepare_pair v e) =
     (if se_roleAuthority e \<and> v \<in> set [STARTED, WORKING, DISPATCH, QUEUE, REASSIGN, NEEDS_INPUT] \<and>
         tp_status (se_existing e) = Awaiting_brain_decision
      then Working else tp_status (se_existing e))"
  by (auto simp: prepare_pair_def Let_def resolveWait_status)

lemma isTerminal_iff [simp]: "isTerminalTaskPairStatus s \<longleftrightarrow> s = Done \<or> s = Cancelled"
  by (simp add: isTerminalTaskPairStatus_def terminal_statuses_def)

lemma applyVerdict_status:
  "tp_status (fst (applyVerdict p v r ctx is)) =
     (if isAppliedVerdict (vr_judgement r) then (case v of VPass \<Rightarrow> Passed | VRework \<Rightarrow> Rework)
      else tp_status p)"
  by (auto simp: applyVerdict_def Let_def case_prod_beta split: verdict_verb.splits)

lemma apply_check_status:
  "tr_pair (apply_check e p) = Some p' \<Longrightarrow> tp_status p' = tp_status p"
  by (auto simp: apply_check_def Let_def case_prod_beta  dest!: reject_fields(1) split: option.splits if_splits)

lemma apply_queue_status:
  "tr_pair (apply_queue e p) = Some p' \<Longrightarrow>
     tp_status p' = Queued \<and> se_roleAuthority e \<and> (tp_status p = Queued \<or> se_terminal e)"
  by (auto simp: apply_queue_def Let_def dest!: reject_fields(1) split: if_splits)

lemma apply_dispatch_status:
  "tr_pair (apply_dispatch e p) = Some p' \<Longrightarrow>
     se_roleAuthority e \<and>
     (tp_status p' = tp_status p \<or> \<not> se_terminal e \<and> (tp_status p' = Queued \<or> tp_status p' = Working))"
  by (auto simp: apply_dispatch_def Let_def case_prod_beta dest!: reject_fields(1) split: if_splits)

lemma apply_progress_status:
  "tr_pair (apply_progress v e p) = Some p' \<Longrightarrow>
     tp_status p' = Working \<or> tp_status p' = tp_status p \<or> tp_status p' = tp_status (se_existing e)"
  by (auto simp: apply_progress_def Let_def dest!: reject_fields(1) split: if_splits)

lemma ready_accept_status:
  "tr_pair (ready_accept e p m) = Some p' \<Longrightarrow> tp_status p' = In_audit"
  by (simp add: ready_accept_def Let_def split: if_split_asm) auto

lemma apply_ready_status:
  "tr_pair (apply_ready e p) = Some p' \<Longrightarrow> tp_status p' = In_audit \<or> tp_status p' = tp_status p"
  by (auto simp: apply_ready_def Let_def  dest!: ready_accept_status reject_fields(1) split: if_splits)

lemma apply_verdict_status:
  assumes "tr_pair (apply_verdict_marker v e p) = Some p'"
  shows "tp_status p' = tp_status p \<or>
    (tp_status p = In_audit \<and> tp_material p \<noteq> None \<and> hasAudit p \<and>
     (se_role e = Auditor \<or> se_roleAuthority e) \<and> \<not> (v = VPass \<and> tp_materialHold p \<noteq> None) \<and>
     isAppliedVerdict (vr_judgement (judgeTaskPairVerdict v (se_attrs e) (tp_blocking p))) \<and>
     tp_status p' = (case v of VPass \<Rightarrow> Passed | VRework \<Rightarrow> Rework))"
  using assms
  by (auto simp: apply_verdict_marker_def Let_def case_prod_beta applyVerdict_status dest!: reject_fields(1) split: if_splits)

lemma apply_next_round_status:
  "tr_pair (apply_next_round e p) = Some p' \<Longrightarrow>
     tp_status p' = tp_status p \<or>
     (tp_status p = Passed \<and> tp_status p' = Working \<and> se_brainAuthority e \<and> \<not> se_terminal e)"
  by (auto simp: apply_next_round_def Let_def dest!: reject_fields(1) split: if_splits)

lemma dismiss_status:
  "tr_pair (dismissIntegration q now) = Some p' \<Longrightarrow>
     p' = q\<lparr>tp_updatedAt := now, tp_integrationDismissedAt := Some now\<rparr>"
  by (auto simp: dismissIntegration_def split: if_splits)

lemma apply_done_status:
  assumes "tr_pair (apply_done e p) = Some p'"
  shows "tp_status p' = tp_status p \<or> tp_status p' = tp_status (se_existing e) \<or>
    (\<not> se_terminal e \<and>
     ((tp_status p' = Done \<and>
        ((se_role e = Brain \<and> isTrue (attr (se_attrs e) ''force'')) \<or>
         (hasAudit p \<and> se_role e = Executor \<and> tp_status p = Passed) \<or>
         (\<not> hasAudit p \<and> se_roleAuthority e))) \<or>
      (tp_status p' = Awaiting_brain_decision \<and> \<not> hasAudit p \<and> se_role e = Executor)))"
  using assms
  by (auto simp: apply_done_def Let_def  dest!: dismiss_status reject_fields(1) split: if_splits)

lemma apply_wait_status:
  "tr_pair (apply_wait v e p) = Some p' \<Longrightarrow> tp_status p' = tp_status p"
  by (auto simp: apply_wait_def Let_def case_prod_beta dest!: reject_fields(1) split: if_splits)

lemma reassign_resume_status:
  "tp_status (reassign_resume e p) = (if tp_status p = Awaiting_brain_decision then Working else tp_status p)"
  by (simp add: reassign_resume_def Let_def)

lemma reassign_admission_status:
  "tp_status (fst (reassign_admission e q)) = Queued \<or>
   tp_status (fst (reassign_admission e q)) = tp_status (fst q)"
  by (simp add: reassign_admission_def Let_def case_prod_beta)

lemma apply_reassign_status:
  "tr_pair (apply_reassign e p) = Some p' \<Longrightarrow>
     se_roleAuthority e \<and> \<not> se_terminal e \<and>
     (tp_status p' = tp_status p \<or> tp_status p' = Queued \<or> tp_status p' = Working)"
  using reassign_admission_status [of e "reassign_roles e (reassign_resume e p)"]
  by (auto simp: apply_reassign_def Let_def case_prod_beta reassign_resume_status split: if_splits)

lemma apply_cancel_status:
  "tr_pair (apply_cancel e p) = Some p' \<Longrightarrow>
     tp_status p' = tp_status p \<or> tp_status p' = tp_status (se_existing e) \<or>
     (tp_status p' = Cancelled \<and> se_roleAuthority e \<and> \<not> se_terminal e)"
  by (auto simp: apply_cancel_def Let_def  dest!: dismiss_status reject_fields(1) split: if_splits)

lemmas verb_status = apply_check_status apply_queue_status apply_dispatch_status apply_progress_status
  apply_ready_status apply_verdict_status apply_next_round_status apply_done_status apply_wait_status
  apply_reassign_status apply_cancel_status

section \<open>The ways a marker changes a pair\<close>

lemma closed_notice_pair:
  "tr_pair (closed_notice e) = Some p' \<Longrightarrow>
     p' = (se_existing e)\<lparr>tp_updatedAt := se_now e,
        tp_closedNoticeSentTo := tp_closedNoticeSentTo (se_existing e) @ [ctx_writer (se_ctx e)]\<rparr>"
  by (auto simp: closed_notice_def Let_def split: if_splits)

lemma title_dispatch_pair:
  "tr_pair (title_dispatch e) = Some p' \<Longrightarrow>
     se_roleAuthority e \<and> p' = (se_existing e)\<lparr>tp_updatedAt := se_now e,
        tp_title := Some (js_trim (the (attr (se_attrs e) ''title'')))\<rparr>"
  by (auto simp: title_dispatch_def Let_def split: if_splits)

lemma tr_pair_guards:
  "tr_pair (if A then recorded q u is else if B then recorded q' u' is' else if C then x else y) = Some p' \<Longrightarrow>
     \<not> A \<and> \<not> B \<and> (if C then tr_pair x else tr_pair y) = Some p'"
  by (cases A; cases B; cases C) simp_all

lemma apply_main_cases:
  assumes "tr_pair (apply_main v e) = Some p'"
  obtains (reopen) "tp_status (prepare_pair v e) = Passed" "se_role e = Brain" "v \<in> set brain_reopen_verbs"
      "p' = resetCaps ((prepare_pair v e)\<lparr>tp_status := (if v = REWORK then Rework else Working),
        tp_material := None, tp_passRound := None, tp_lastVerdict := None\<rparr>)" "\<not> se_terminal e"
  | (verb) "tr_pair (apply_verb v e (prepare_pair v e)) = Some p'"
      "\<not> (se_terminal e \<and> v \<in> set guarded_verbs)"
      "\<not> (tp_status (prepare_pair v e) = Passed \<and> v \<in> set guarded_verbs)"
proof -
  let ?p = "prepare_pair v e"
  let ?R = "tp_status ?p = Passed \<and> se_role e = Brain \<and> v \<in> set brain_reopen_verbs"
  note g = tr_pair_guards [OF assms [unfolded apply_main_def Let_def]]
  show ?thesis
  proof (cases ?R)
    case True
    then have "tr_pair (brain_reopen v e ?p) = Some p'" using g by simp
    then have "p' = resetCaps (?p\<lparr>tp_status := (if v = REWORK then Rework else Working),
        tp_material := None, tp_passRound := None, tp_lastVerdict := None\<rparr>)"
      by (simp add: brain_reopen_def)
    moreover have "\<not> se_terminal e" using True by (auto simp: prepare_pair_status split: if_splits)
    ultimately show ?thesis using True reopen by blast
  next
    case False
    then have "tr_pair (apply_verb v e ?p) = Some p'" using g by (simp only: if_False)
    then show ?thesis using verb g False by blast
  qed
qed

lemma apply_cases:
  assumes "tr_pair (applyTaskPairMarker ex mk ctx) = Some p'"
  obtains (new) v where "ex = None" "mk_knownVerb mk = Some v" "tr_pair (apply_no_pair v mk ctx) = Some p'"
  | (closed) p v e where "ex = Some p" "mk_knownVerb mk = Some v" "e = make_env p mk ctx"
      "tp_status p \<in> {Done, Cancelled}" "\<not> se_roleAuthority e"
      "p' = p\<lparr>tp_updatedAt := ctx_now ctx,
              tp_closedNoticeSentTo := tp_closedNoticeSentTo p @ [ctx_writer ctx]\<rparr>"
  | (title) p v e t where "ex = Some p" "mk_knownVerb mk = Some v" "e = make_env p mk ctx"
      "se_roleAuthority e" "p' = p\<lparr>tp_updatedAt := ctx_now ctx, tp_title := t\<rparr>"
  | (main) p v e where "ex = Some p" "mk_knownVerb mk = Some v" "e = make_env p mk ctx"
      "tr_pair (apply_main v e) = Some p'"
proof -
  obtain v where v: "mk_knownVerb mk = Some v" "mk_taskId mk \<noteq> infer_task_id"
    using assms by (auto simp: applyTaskPairMarker_def queue_settings_def split: option.splits if_splits)
  show ?thesis
  proof (cases ex)
    case None
    then have "tr_pair (apply_no_pair v mk ctx) = Some p'"
      using assms v by (auto simp: applyTaskPairMarker_def split: if_splits)
    then show ?thesis using None v new by blast
  next
    case (Some p)
    let ?e = "make_env p mk ctx"
    have env: "se_existing ?e = p" "se_ctx ?e = ctx" by (simp_all add: make_env_def Let_def)
    have r: "tr_pair (apply_existing v ?e) = Some p'"
      using assms v Some by (auto simp: applyTaskPairMarker_def split: if_splits)
    consider "tr_pair (closed_notice ?e) = Some p'" "tp_status p \<in> {Done, Cancelled}" "\<not> se_roleAuthority ?e"
      | "tr_pair (title_dispatch ?e) = Some p'" | "tr_pair (apply_main v ?e) = Some p'"
      using r env by (auto simp: apply_existing_def Let_def split: if_splits)
    then show ?thesis
    proof cases
      case 1
      then show ?thesis using closed_notice_pair [OF 1(1)] env Some v closed by fastforce
    next
      case 2
      then show ?thesis using title_dispatch_pair [OF 2] env Some v title by fastforce
    next
      case 3
      then show ?thesis using Some v main by blast
    qed
  qed
qed

lemma make_env_simps [simp]:
  "se_existing (make_env p mk ctx) = p" "se_marker (make_env p mk ctx) = mk" "se_ctx (make_env p mk ctx) = ctx"
  "se_role (make_env p mk ctx) = taskPairRoleOf (Some p) (ctx_writer ctx)"
  "se_brainAuthority (make_env p mk ctx) \<longleftrightarrow>
     taskPairRoleOf (Some p) (ctx_writer ctx) = Brain \<or> ctx_writer ctx = ctx_fallbackBrain ctx"
  by (simp_all add: make_env_def Let_def)

text \<open>The writer may control the pair: its Brain, the project's Brain or the daemon.\<close>

definition has_authority :: "pair \<Rightarrow> apply_context \<Rightarrow> bool" where
  "has_authority p ctx \<longleftrightarrow> taskPairRoleOf (Some p) (ctx_writer ctx) \<in> {Brain, Daemon} \<or>
     ctx_writer ctx = ctx_fallbackBrain ctx"

lemma make_env_authority [simp]: "se_roleAuthority (make_env p mk ctx) \<longleftrightarrow> has_authority p ctx"
  by (auto simp: make_env_def Let_def has_authority_def)

lemma apply_verb_status:
  assumes "tr_pair (apply_verb v e p) = Some p'"
  shows "v = PASS \<and> tp_status p' = Passed \<or> v = REWORK \<and> tp_status p' = Rework \<or>
    v = DONE \<and> tp_status p' = Done \<or> v = CANCEL \<and> tp_status p' = Cancelled \<or>
    tp_status p' \<in> {Queued, Working, In_audit, Awaiting_brain_decision} \<or>
    tp_status p' = tp_status p \<or> tp_status p' = tp_status (se_existing e)"
proof (cases v)
  case PASS
  then show ?thesis using assms by (auto simp: apply_verb_def dest!: apply_verdict_status)
next
  case REWORK
  then show ?thesis using assms by (auto simp: apply_verb_def dest!: apply_verdict_status)
next
  case DONE
  then show ?thesis using assms by (auto simp: apply_verb_def dest!: apply_done_status)
next
  case CANCEL
  then show ?thesis using assms by (auto simp: apply_verb_def dest!: apply_cancel_status)
qed (use assms in \<open>auto simp: apply_verb_def dest!: apply_check_status apply_queue_status apply_dispatch_status
      apply_progress_status apply_ready_status apply_next_round_status apply_wait_status apply_reassign_status\<close>)

section \<open>Counters and material\<close>

definition core :: "pair \<Rightarrow> int \<times> int option \<times> int option \<times> round_base option \<times> material option \<times> material_hold option" where
  "core p = (tp_round p, tp_passRound p, tp_deliveryRound p, tp_roundBase p, tp_material p, tp_materialHold p)"

lemma core_helpers [simp]:
  "core (addFlag p f) = core p" "core (removeFlag p f) = core p" "core (markTaskPairStarted p now) = core p"
  "core (resolveTaskPairBrainWait p now res) = core p" "core (fst (snd (spendCap p r is))) = core p"
  "core (resetCaps p) = core p" "core (applyWorkspaceAttr p a) = core p" "core (applyOutputAttr p a) = core p"
  "core (setRolesFromAttrsQueued p a) = core p" "core (fst (setRolesFromAttrs p a is)) = core p"
  "core (with_brief e p) = core p" "core (prepare_pair v e) = core (se_existing e)"
  "core (reassign_resume e p) = core p" "core (fst (reassign_roles e p)) = core p"
  "core (fst (reassign_admission e q)) = core (fst q)"
  by (simp_all add: core_def)

lemma core_updates [simp]:
  "core (p\<lparr>tp_status := s\<rparr>) = core p" "core (p\<lparr>tp_brief := b\<rparr>) = core p"
  "core (p\<lparr>tp_closedNoticeSentTo := c\<rparr>) = core p" "core (p\<lparr>tp_updatedAt := u\<rparr>) = core p"
  "core (p\<lparr>tp_title := t\<rparr>) = core p" "core (p\<lparr>tp_inAuditNoticeRound := i\<rparr>) = core p"
  "core (p\<lparr>tp_integrationDismissedAt := d\<rparr>) = core p" "core (p\<lparr>tp_flagSides := fs\<rparr>) = core p"
  "core (p\<lparr>tp_blockedNote := n\<rparr>) = core p" "core (p\<lparr>tp_lastWaitResolution := l\<rparr>) = core p"
  "core (p\<lparr>tp_lastVerdict := lv\<rparr>) = core p" "core (p\<lparr>tp_auditorProposalNudgeRound := ar\<rparr>) = core p"
  by (simp_all add: core_def)

lemma core_caps [simp]: "core (p\<lparr>tp_capCounts := c, tp_capRound := r\<rparr>) = core p"
  by (simp add: core_def)

lemma reject_core:
  assumes "tr_pair (reject e p intents txt) = Some p'"
  shows "core p' = core p"
  by (subst reject_pair [OF assms]) simp

lemma dismiss_core: "tr_pair (dismissIntegration q now) = Some p' \<Longrightarrow> core p' = core q"
  by (auto dest!: dismiss_status simp: core_def)

lemma apply_check_core: "tr_pair (apply_check e p) = Some p' \<Longrightarrow> core p' = core p"
  by (auto simp: apply_check_def Let_def case_prod_beta dest!: reject_core split: option.splits if_splits)

lemma apply_queue_core: "tr_pair (apply_queue e p) = Some p' \<Longrightarrow> core p' = core p"
  by (auto simp: apply_queue_def Let_def split: if_splits)

lemma apply_dispatch_core: "tr_pair (apply_dispatch e p) = Some p' \<Longrightarrow> core p' = core p"
  by (auto simp: apply_dispatch_def Let_def case_prod_beta dest!: reject_core split: if_splits)

lemma apply_progress_core:
  "tr_pair (apply_progress v e p) = Some p' \<Longrightarrow> core p' = core p \<or> core p' = core (se_existing e)"
  by (auto simp: apply_progress_def Let_def dest!: reject_core split: if_splits)

lemma apply_done_core:
  "tr_pair (apply_done e p) = Some p' \<Longrightarrow> core p' = core p \<or> core p' = core (se_existing e)"
  by (auto simp: apply_done_def Let_def dest!: reject_core dismiss_core split: if_splits)

lemma apply_cancel_core:
  "tr_pair (apply_cancel e p) = Some p' \<Longrightarrow> core p' = core p \<or> core p' = core (se_existing e)"
  by (auto simp: apply_cancel_def Let_def dest!: reject_core dismiss_core split: if_splits)

lemma apply_wait_core: "tr_pair (apply_wait v e p) = Some p' \<Longrightarrow> core p' = core p"
  by (auto simp: apply_wait_def Let_def case_prod_beta split: if_splits)

lemma apply_reassign_core: "tr_pair (apply_reassign e p) = Some p' \<Longrightarrow> core p' = core p"
  by (auto simp: apply_reassign_def Let_def case_prod_beta split: if_splits)

lemma ready_accept_core:
  assumes "tr_pair (ready_accept e p m) = Some p'"
  shows "tp_round p' = tp_round p + (if tp_status p = In_audit then 0 else 1) \<and>
    tp_passRound p' = tp_passRound p \<and> tp_deliveryRound p' = tp_deliveryRound p \<and>
    tp_roundBase p' = tp_roundBase p \<and> tp_materialHold p' = None"
  using assms by (auto simp: ready_accept_def Let_def split: if_split_asm)

lemma apply_ready_core:
  assumes "tr_pair (apply_ready e p) = Some p'"
  shows "core p' = core p \<and> tp_status p' = tp_status p \<or>
    (tp_status p' = In_audit \<and> tp_round p' = tp_round p + (if tp_status p = In_audit then 0 else 1) \<and>
     tp_passRound p' = tp_passRound p \<and> tp_deliveryRound p' = tp_deliveryRound p)"
proof -
  consider msg where "tr_pair (reject e p [] msg) = Some p'"
    | m where "tr_pair (ready_accept e p m) = Some p'"
    using assms by (auto simp: apply_ready_def Let_def split: if_split_asm)
  then show ?thesis
  proof cases
    case 1
    then show ?thesis using reject_core [OF 1] reject_fields(1) [OF 1] by simp
  next
    case 2
    then show ?thesis using ready_accept_core [OF 2] ready_accept_status [OF 2] by simp
  qed
qed

lemma applyVerdict_core:
  "core (fst (applyVerdict p v r ctx is)) =
    (if isAppliedVerdict (vr_judgement r) \<and> v = VPass
     then (tp_round p, Some (tp_round p), tp_deliveryRound p, tp_roundBase p, tp_material p, tp_materialHold p)
     else core p)"
  by (auto simp: applyVerdict_def Let_def case_prod_beta split: verdict_verb.splits) (simp_all add: core_def)

lemma apply_verdict_core:
  assumes "tr_pair (apply_verdict_marker v e p) = Some p'"
  shows "tp_round p' = tp_round p \<and> tp_deliveryRound p' = tp_deliveryRound p \<and> tp_material p' = tp_material p \<and>
    (tp_passRound p' = tp_passRound p \<and> (tp_status p' = Passed \<longrightarrow> tp_status p = Passed)
     \<or> tp_passRound p' = Some (tp_round p) \<and> tp_status p' = Passed \<and> tp_status p = In_audit)"
proof -
  let ?r = "judgeTaskPairVerdict v (se_attrs e) (tp_blocking p)"
  let ?q = "fst (applyVerdict p v ?r (se_ctx e) [])"
  consider (rej) msg where "tr_pair (reject e p [] msg) = Some p'"
    | (keep) "p' = p\<lparr>tp_lastVerdict := Some (last_verdict_of p v ?r (se_ctx e))\<rparr>"
    | (ver) "tp_status p = In_audit" "tp_material p \<noteq> None"
        "p' = ?q\<lparr>tp_materialHold := None\<rparr> \<or> p' = resetCaps (?q\<lparr>tp_materialHold := None\<rparr>)"
    using assms by (simp add: apply_verdict_marker_def Let_def case_prod_beta split: if_split_asm)
  then show ?thesis
  proof cases
    case rej
    then show ?thesis using reject_fields [OF rej] by simp
  next
    case keep
    then show ?thesis by simp
  next
    case ver
    have c: "tp_round p' = tp_round ?q" "tp_passRound p' = tp_passRound ?q" "tp_status p' = tp_status ?q"
      "tp_deliveryRound p' = tp_deliveryRound ?q" "tp_material p' = tp_material ?q"
      using ver(3) by auto
    show ?thesis
      using applyVerdict_core [of p v ?r "se_ctx e" "[]"] applyVerdict_status [of p v ?r "se_ctx e" "[]"] ver(1)
      by (cases v) (auto simp: c core_def split: if_splits)
  qed
qed

lemma next_round_pair_core:
  assumes "tr_pair (apply_next_round e p) = Some p'"
  obtains (rej) msg where "tr_pair (reject e p [] msg) = Some p'"
  | (opened) "tp_status p = Passed" "tp_status p' = Working" "tp_round p' = tp_round p" "tp_passRound p' = None"
     "tp_material p' = None" "tp_deliveryRound p' = Some (taskPairDeliveryRound p + 1)"
     "se_brainAuthority e" "\<not> se_terminal e"
  using assms unfolding apply_next_round_def Let_def
  by (cases "se_brainAuthority e"; cases "se_terminal e"; cases "tp_status p = Passed")
     (auto split: if_split_asm)

lemma apply_next_round_core:
  assumes "tr_pair (apply_next_round e p) = Some p'"
  shows "core p' = core p \<and> tp_status p' = tp_status p \<or>
    (tp_status p = Passed \<and> tp_status p' = Working \<and> tp_round p' = tp_round p \<and> tp_passRound p' = None \<and>
     tp_material p' = None \<and> tp_deliveryRound p' = Some (taskPairDeliveryRound p + 1) \<and> se_brainAuthority e)"
  using assms by (cases rule: next_round_pair_core) (use reject_core reject_fields(1) in blast)+

section \<open>The invariant\<close>

definition caps_ok :: "pair \<Rightarrow> bool" where
  "caps_ok p \<longleftrightarrow> (\<forall>r n. tp_capCounts p r = Some n \<longrightarrow> 0 \<le> n \<and> n \<le> message_cap_per_round) \<and>
     tp_capRound p \<le> tp_round p"

definition flags_ok :: "pair \<Rightarrow> bool" where
  "flags_ok p \<longleftrightarrow> distinct (tp_flags p) \<and> Fl_policy_violation \<notin> set (tp_flags p)"

definition blocking_ok :: "pair \<Rightarrow> bool" where
  "blocking_ok p \<longleftrightarrow> tp_blocking p \<noteq> [] \<and> sorted (tp_blocking p) \<and> distinct (tp_blocking p)"

text \<open>
  The counters: passed rounds are rounds that were opened, and a passed pair still has the material it was passed on,
  unless it was imported as passed.
\<close>

definition rounds_ok :: "bool \<Rightarrow> pair \<Rightarrow> bool" where
  "rounds_ok imported p \<longleftrightarrow> 0 \<le> tp_round p \<and>
     (\<forall>n. tp_passRound p = Some n \<longrightarrow> 1 \<le> n \<and> n \<le> tp_round p) \<and>
     (tp_status p = In_audit \<longrightarrow> 1 \<le> tp_round p) \<and>
     (tp_status p = Passed \<longrightarrow> tp_passRound p = Some (tp_round p) \<and> (\<not> imported \<longrightarrow> tp_material p \<noteq> None))"

definition pair_inv :: "bool \<Rightarrow> pair \<Rightarrow> bool" where
  "pair_inv imported p \<longleftrightarrow> caps_ok p \<and> flags_ok p \<and> blocking_ok p \<and> rounds_ok imported p"

text \<open>The parts other than the rounds are kept by every helper.\<close>

definition base_ok :: "pair \<Rightarrow> bool" where
  "base_ok p \<longleftrightarrow> caps_ok p \<and> flags_ok p \<and> blocking_ok p"

lemmas base_defs = base_ok_def caps_ok_def flags_ok_def blocking_ok_def

lemma base_updates [simp]:
  "base_ok (p\<lparr>tp_status := s\<rparr>) = base_ok p" "base_ok (p\<lparr>tp_brief := b\<rparr>) = base_ok p"
  "base_ok (p\<lparr>tp_closedNoticeSentTo := c\<rparr>) = base_ok p" "base_ok (p\<lparr>tp_updatedAt := u\<rparr>) = base_ok p"
  "base_ok (p\<lparr>tp_title := t\<rparr>) = base_ok p" "base_ok (p\<lparr>tp_inAuditNoticeRound := i\<rparr>) = base_ok p"
  "base_ok (p\<lparr>tp_integrationDismissedAt := d\<rparr>) = base_ok p" "base_ok (p\<lparr>tp_flagSides := fs\<rparr>) = base_ok p"
  "base_ok (p\<lparr>tp_blockedNote := n\<rparr>) = base_ok p" "base_ok (p\<lparr>tp_lastWaitResolution := l\<rparr>) = base_ok p"
  "base_ok (p\<lparr>tp_lastVerdict := lv\<rparr>) = base_ok p" "base_ok (p\<lparr>tp_auditorProposalNudgeRound := ar\<rparr>) = base_ok p"
  "base_ok (p\<lparr>tp_material := m\<rparr>) = base_ok p" "base_ok (p\<lparr>tp_materialHold := h\<rparr>) = base_ok p"
  "base_ok (p\<lparr>tp_passRound := pr\<rparr>) = base_ok p" "base_ok (p\<lparr>tp_deliveryRound := dr\<rparr>) = base_ok p"
  "base_ok (p\<lparr>tp_roundBase := rb\<rparr>) = base_ok p" "base_ok (p\<lparr>tp_capacityWaitReason := cw\<rparr>) = base_ok p"
  "base_ok (p\<lparr>tp_startedAt := sa\<rparr>) = base_ok p" "base_ok (p\<lparr>tp_executor := ex\<rparr>) = base_ok p"
  "base_ok (p\<lparr>tp_auditor := au\<rparr>) = base_ok p" "base_ok (p\<lparr>tp_auditorPinned := ap\<rparr>) = base_ok p"
  "base_ok (p\<lparr>tp_executorModel := em\<rparr>) = base_ok p" "base_ok (p\<lparr>tp_executorThinking := et\<rparr>) = base_ok p"
  "base_ok (p\<lparr>tp_auditorModel := am\<rparr>) = base_ok p" "base_ok (p\<lparr>tp_auditorThinking := at\<rparr>) = base_ok p"
  "base_ok (p\<lparr>tp_executorPool := ep\<rparr>) = base_ok p" "base_ok (p\<lparr>tp_urgent := ur\<rparr>) = base_ok p"
  "base_ok (p\<lparr>tp_previousAuditors := pa\<rparr>) = base_ok p" "base_ok (p\<lparr>tp_workspaceKind := wk\<rparr>) = base_ok p"
  "base_ok (p\<lparr>tp_workspace := ws\<rparr>) = base_ok p" "base_ok (p\<lparr>tp_scheduling := sc\<rparr>) = base_ok p"
  "base_ok (p\<lparr>tp_parallelInPlace := pp\<rparr>) = base_ok p" "base_ok (p\<lparr>tp_output := ou\<rparr>) = base_ok p"
  by (simp_all add: base_defs)

lemma base_addFlag [simp, intro]: "base_ok p \<Longrightarrow> f \<noteq> Fl_policy_violation \<Longrightarrow> base_ok (addFlag p f)"
  by (auto simp: base_defs addFlag_def)

lemma base_removeFlag [simp, intro]: "base_ok p \<Longrightarrow> base_ok (removeFlag p f)"
  by (auto simp: base_defs removeFlag_def)

lemma base_started [simp, intro]: "base_ok p \<Longrightarrow> base_ok (markTaskPairStarted p now)"
  by (auto simp: markTaskPairStarted_def)

lemma base_resolve [simp, intro]: "base_ok p \<Longrightarrow> base_ok (resolveTaskPairBrainWait p now res)"
  by (auto simp: resolveTaskPairBrainWait_def Let_def split: option.splits)

lemma base_spend:
  "base_ok p \<Longrightarrow> r \<noteq> Policy_rejection \<or> fst (spendCap p r is) \<Longrightarrow> base_ok (fst (snd (spendCap p r is)))"
proof -
  assume b: "base_ok p" and ok: "r \<noteq> Policy_rejection \<or> fst (spendCap p r is)"
  have nn: "0 \<le> opt_default 0 (tp_capCounts p r)"
    using b by (cases "tp_capCounts p r") (auto simp: base_defs)
  have fl: "Fl_policy_violation = capped_flag r \<longleftrightarrow> r = Policy_rejection" by (cases r) auto
  show ?thesis
    using b ok nn
    by (auto simp: fl base_defs spendCap_def Let_def addFlag_def message_cap_per_round_def split: if_splits)
qed

lemma base_reset [simp, intro]: "base_ok p \<Longrightarrow> base_ok (resetCaps p)"
  by (auto simp: base_defs resetCaps_def capped_reasons_def removeFlag_def)

lemma base_workspace [simp]: "base_ok (applyWorkspaceAttr p a) = base_ok p"
  by (auto simp: applyWorkspaceAttr_def Let_def split: option.splits)

lemma base_output [simp]: "base_ok (applyOutputAttr p a) = base_ok p"
  by (auto simp: applyOutputAttr_def split: option.splits)

lemma base_blocking [simp, intro]: "base_ok p \<Longrightarrow> base_ok (setBlockingAttr a p)"
  by (auto simp: setBlockingAttr_def base_defs parseBlockingAttr_def normalize_sorted normalize_distinct
      split: option.splits)

lemma base_setField: "base_ok p \<Longrightarrow> (\<And>v q. base_ok q \<Longrightarrow> base_ok (upd v q)) \<Longrightarrow> base_ok (setField a k upd p)"
  by (simp add: setField_def)

lemma base_queued [simp, intro]: "base_ok p \<Longrightarrow> base_ok (setRolesFromAttrsQueued p a)"
  unfolding setRolesFromAttrsQueued_def Let_def
  by (intro base_blocking) (auto intro!: base_setField)

lemma base_roles [simp, intro]:
  assumes "base_ok p"
  shows "base_ok (fst (setRolesFromAttrs p a is))"
proof -
  let ?p = "setBlockingAttr a (applyWorkspaceAttr (setField a ''pool'' (\<lambda>v p. p\<lparr>tp_executorPool := v\<rparr>)
    (setField a ''title'' (\<lambda>v p. p\<lparr>tp_title := v\<rparr>) (setField a ''auditorthinking'' (\<lambda>v p. p\<lparr>tp_auditorThinking := v\<rparr>)
    (setField a ''auditormodel'' (\<lambda>v p. p\<lparr>tp_auditorModel := v\<rparr>) (setField a ''auditor'' (\<lambda>v p.
       removeFlag ((if truthy (tp_auditor p) \<and> tp_auditor p \<noteq> v \<and> tp_auditor p \<noteq> Some no_auditor
                        then p\<lparr>tp_previousAuditors := tp_previousAuditors p @ [the (tp_auditor p)]\<rparr> else p)
         \<lparr>tp_auditor := v\<rparr>) Fl_needs_auditor) (setField a ''executorthinking'' (\<lambda>v p. p\<lparr>tp_executorThinking := v\<rparr>)
    (setField a ''executormodel'' (\<lambda>v p. p\<lparr>tp_executorModel := v\<rparr>)
    (setField a ''executor'' (\<lambda>v p. p\<lparr>tp_executor := v\<rparr>) p)))))))) a)"
  have b: "base_ok ?p"
    by (intro base_blocking) (simp, intro base_setField assms; auto)
  have eq: "fst (setRolesFromAttrs p a is) = (if \<not> truthy (tp_auditor ?p) then addFlag ?p Fl_needs_auditor else ?p)"
    by (simp add: setRolesFromAttrs_def Let_def)
  show ?thesis unfolding eq using b by (auto split: if_splits)
qed

lemma base_with_brief [simp]: "base_ok (with_brief e p) = base_ok p" "base_ok (brief_of mk p) = base_ok p"
  by (auto simp: with_brief_def brief_of_def split: option.splits)

lemma base_clear [simp, intro]: "base_ok p \<Longrightarrow> base_ok (clearSideFlags p r all)"
  by (auto simp: clearSideFlags_def Let_def)

lemma base_prepare [simp, intro]: "base_ok (se_existing e) \<Longrightarrow> base_ok (prepare_pair v e)"
  by (auto simp: prepare_pair_def Let_def)

lemma base_new: "base_ok (newPair t b ctx st)"
  by (simp add: base_defs newPair_def normalize_sorted normalize_distinct)

lemma base_ready_material [simp]: "base_ok (ready_material p m now) = base_ok p"
  by (auto simp: ready_material_def Let_def split: option.splits)

lemma base_open [simp, intro]: "base_ok p \<Longrightarrow> base_ok (open_audit_round c p)"
proof -
  assume b: "base_ok p"
  let ?p = "p\<lparr>tp_status := In_audit, tp_round := tp_round p + 1\<rparr>"
  let ?q = "if taskPairBlockingSource ?p \<noteq> Blk_explicit
              then ?p\<lparr>tp_blocking := normalizeAuditBlockingSeverities (ctx_projectBlocking c),
                     tp_blockingSource := Some Blk_config\<rparr> else ?p"
  have "base_ok ?q" using b by (auto simp: base_defs normalize_sorted normalize_distinct)
  then show ?thesis unfolding open_audit_round_def Let_def by (intro base_removeFlag base_reset)
qed

lemma base_reject: 
  assumes "base_ok p" "tr_pair (reject e p is t) = Some p'"
  shows "base_ok p'"
proof -
  from assms(2) have "fst (spendCap p Policy_rejection is)" "p' = fst (snd (spendCap p Policy_rejection is))"
    by (auto simp: reject_def Let_def case_prod_beta split: if_splits)
  then show ?thesis using base_spend [OF assms(1), of Policy_rejection "is"] by simp
qed

lemma base_dismiss: "base_ok q \<Longrightarrow> tr_pair (dismissIntegration q now) = Some p' \<Longrightarrow> base_ok p'"
  by (auto dest!: dismiss_status)

lemmas base_handler = Let_def case_prod_beta

lemma base_check: "base_ok p \<Longrightarrow> tr_pair (apply_check e p) = Some p' \<Longrightarrow> base_ok p'"
  by (auto simp: apply_check_def base_handler dest: base_reject split: option.splits if_splits)

lemma base_queue: "base_ok p \<Longrightarrow> tr_pair (apply_queue e p) = Some p' \<Longrightarrow> base_ok p'"
  by (auto simp: apply_queue_def base_handler split: if_splits)

lemma base_dispatch: "base_ok p \<Longrightarrow> tr_pair (apply_dispatch e p) = Some p' \<Longrightarrow> base_ok p'"
  by (auto simp: apply_dispatch_def base_handler dest: base_reject split: if_splits)

lemma base_progress:
  "base_ok p \<Longrightarrow> base_ok (se_existing e) \<Longrightarrow> tr_pair (apply_progress v e p) = Some p' \<Longrightarrow> base_ok p'"
  by (auto simp: apply_progress_def base_handler dest: base_reject split: if_splits)

lemma base_accept: "base_ok p \<Longrightarrow> tr_pair (ready_accept e p m) = Some p' \<Longrightarrow> base_ok p'"
  by (auto simp: ready_accept_def base_handler split: if_split_asm)

lemma base_ready: "base_ok p \<Longrightarrow> tr_pair (apply_ready e p) = Some p' \<Longrightarrow> base_ok p'"
  by (auto simp: apply_ready_def base_handler dest: base_reject base_accept split: if_split_asm)

lemma base_applyVerdict: "base_ok p \<Longrightarrow> base_ok (fst (applyVerdict p v r ctx is))"
  using base_spend [of "p\<lparr>tp_lastVerdict := Some (last_verdict_of p v r ctx)\<rparr>" Verdict_correction "is"]
  by (auto simp: applyVerdict_def base_handler split: verdict_verb.splits)

lemma base_verdict:
  assumes "base_ok p" "tr_pair (apply_verdict_marker v e p) = Some p'"
  shows "base_ok p'"
proof -
  let ?r = "judgeTaskPairVerdict v (se_attrs e) (tp_blocking p)"
  let ?q = "fst (applyVerdict p v ?r (se_ctx e) [])"
  consider (rej) msg where "tr_pair (reject e p [] msg) = Some p'"
    | (keep) "p' = p\<lparr>tp_lastVerdict := Some (last_verdict_of p v ?r (se_ctx e))\<rparr>"
    | (ver) "p' = ?q\<lparr>tp_materialHold := None\<rparr> \<or> p' = resetCaps (?q\<lparr>tp_materialHold := None\<rparr>)"
    using assms(2) by (simp add: apply_verdict_marker_def Let_def case_prod_beta split: if_split_asm)
  then show ?thesis
    by cases (use assms(1) base_reject base_applyVerdict [OF assms(1)] in auto)
qed

lemma base_next_round:
  assumes "base_ok p" "tr_pair (apply_next_round e p) = Some p'"
  shows "base_ok p'"
  using assms base_reject [OF assms(1)]
  by (simp add: apply_next_round_def Let_def split: if_split_asm) auto

lemma base_done:
  "base_ok p \<Longrightarrow> base_ok (se_existing e) \<Longrightarrow> tr_pair (apply_done e p) = Some p' \<Longrightarrow> base_ok p'"
  by (auto simp: apply_done_def base_handler dest: base_reject base_dismiss split: if_splits)

lemma base_wait:
  assumes "base_ok p" "tr_pair (apply_wait v e p) = Some p'"
  shows "base_ok p'"
proof -
  let ?q = "(addFlag p (side_flag v))\<lparr>tp_flagSides := set_side v (se_role e) (tp_flagSides p),
                 tp_blockedNote := trimmed (attr (se_attrs e) ''note''), tp_lastWaitResolution := None\<rparr>"
  have q: "base_ok ?q" using assms(1) by (auto simp: side_flag_def)
  have "p' = p \<or> p' = ?q \<or> (\<exists>is. p' = fst (snd (spendCap ?q Blocked_replacement is)))"
    using assms(2) by (auto simp: apply_wait_def Let_def case_prod_beta addFlag_def split: if_splits)
  then show ?thesis using assms(1) q base_spend [OF q, of Blocked_replacement] by auto
qed

lemma base_reassign: "base_ok p \<Longrightarrow> tr_pair (apply_reassign e p) = Some p' \<Longrightarrow> base_ok p'"
proof -
  assume b: "base_ok p" and r: "tr_pair (apply_reassign e p) = Some p'"
  have 1: "base_ok (reassign_resume e p)" using b by (auto simp: reassign_resume_def Let_def)
  have 2: "base_ok q \<Longrightarrow> base_ok (fst (reassign_roles e q))" for q
    by (auto simp: reassign_roles_def base_handler)
  have 3: "base_ok (fst x) \<Longrightarrow> base_ok (fst (reassign_admission e x))" for x
    by (auto simp: reassign_admission_def base_handler)
  show ?thesis using r 3 [OF 2 [OF 1]]
    by (auto simp: apply_reassign_def base_handler split: if_splits)
qed

lemma base_cancel:
  "base_ok p \<Longrightarrow> base_ok (se_existing e) \<Longrightarrow> tr_pair (apply_cancel e p) = Some p' \<Longrightarrow> base_ok p'"
  by (auto simp: apply_cancel_def base_handler dest: base_reject base_dismiss split: if_splits)

lemma base_verb:
  assumes "base_ok (se_existing e)" "tr_pair (apply_verb v e (prepare_pair v e)) = Some p'"
  shows "base_ok p'"
proof -
  have p: "base_ok (prepare_pair w e)" for w using assms(1) by simp
  show ?thesis using assms
    by (cases v) (auto simp: apply_verb_def dest: base_check [OF p] base_queue [OF p] base_dispatch [OF p]
        base_progress [OF p] base_ready [OF p] base_verdict [OF p] base_next_round [OF p] base_done [OF p]
        base_wait [OF p] base_reassign [OF p] base_cancel [OF p])
qed

lemma rounds_core:
  assumes "rounds_ok imp p" "core p' = core p" "tp_status p' = In_audit \<longrightarrow> 1 \<le> tp_round p"
    "tp_status p' = Passed \<longrightarrow> tp_status p = Passed"
  shows "rounds_ok imp p'"
  using assms by (auto simp: rounds_ok_def core_def)

lemma rounds_verb:
  assumes inv: "rounds_ok imp (se_existing e)" and r: "tr_pair (apply_verb v e (prepare_pair v e)) = Some p'"
  shows "rounds_ok imp p'"
proof -
  let ?p = "prepare_pair v e" and ?x = "se_existing e"
  have same: "rounds_ok imp p'" if "core p' = core ?x" "tp_status p' = In_audit \<longrightarrow> tp_status ?x = In_audit"
      "tp_status p' = Passed \<longrightarrow> tp_status ?x = Passed"
    by (rule rounds_core [OF inv that(1)]) (use inv that in \<open>auto simp: rounds_ok_def\<close>)
  have st: "tp_status ?p = In_audit \<longrightarrow> tp_status ?x = In_audit" "tp_status ?p = Passed \<longrightarrow> tp_status ?x = Passed"
    by (auto simp: prepare_pair_status)
  have pc: "core ?p = core ?x" by simp
  have other: "rounds_ok imp p'" if v: "v \<notin> {READY_FOR_AUDIT, PASS, REWORK, NEXT_ROUND}"
  proof (rule same)
    show "core p' = core ?x" using r v
      by (cases v) (auto simp: apply_verb_def dest!: apply_check_core apply_queue_core apply_dispatch_core
          apply_progress_core apply_done_core apply_cancel_core apply_wait_core apply_reassign_core)
    have s: "tp_status p' = tp_status ?p \<or> tp_status p' = tp_status ?x \<or> tp_status p' \<noteq> In_audit \<and> tp_status p' \<noteq> Passed"
      using r v by (cases v) (auto simp: apply_verb_def dest!: apply_check_status apply_queue_status
          apply_dispatch_status apply_progress_status apply_done_status apply_wait_status
          apply_reassign_status apply_cancel_status)
    show "tp_status p' = In_audit \<longrightarrow> tp_status ?x = In_audit" "tp_status p' = Passed \<longrightarrow> tp_status ?x = Passed"
      using s st by metis+
  qed
  show ?thesis
  proof (cases v)
    case READY_FOR_AUDIT
    then have "tr_pair (apply_ready e ?p) = Some p'" using r by (simp add: apply_verb_def)
    from apply_ready_core [OF this] consider "core p' = core ?p" "tp_status p' = tp_status ?p"
      | "tp_status p' = In_audit" "tp_round p' = tp_round ?x + (if tp_status ?p = In_audit then 0 else 1)"
        "tp_passRound p' = tp_passRound ?x" by auto
    then show ?thesis
    proof cases
      case 1
      then show ?thesis using same pc st by auto
    next
      case 2
      have "n \<le> tp_round ?x + 1" if "tp_passRound ?x = Some n" for n
        using inv that by (fastforce simp: rounds_ok_def)
      then show ?thesis using inv 2 st by (auto simp: rounds_ok_def)
    qed
  next
    case PASS
    then have "tr_pair (apply_verdict_marker VPass e ?p) = Some p'" using r by (simp add: apply_verb_def)
    from apply_verdict_core [OF this] apply_verdict_status [OF this] inv st show ?thesis
      by (auto simp: rounds_ok_def)
  next
    case REWORK
    then have "tr_pair (apply_verdict_marker VRework e ?p) = Some p'" using r by (simp add: apply_verb_def)
    from apply_verdict_core [OF this] apply_verdict_status [OF this] inv st show ?thesis
      by (auto simp: rounds_ok_def)
  next
    case NEXT_ROUND
    then show ?thesis using r apply_next_round_core [of e ?p p'] inv st
      by (auto simp: apply_verb_def rounds_ok_def core_def)
  qed (use other in auto)
qed

section \<open>Properties\<close>

lemma prepare_passed: "tp_status (prepare_pair v e) = s \<Longrightarrow> s \<noteq> Working \<Longrightarrow> tp_status (se_existing e) = s"
  by (auto simp: prepare_pair_status split: if_splits)

lemma create_status:
  assumes "tr_pair (apply_no_pair v mk ctx) = Some p'"
  shows "tp_status p' \<in> {Queued, Working, In_audit, Awaiting_audit, Awaiting_brain_decision}"
proof -
  have q: "tr_pair (create_queued mk ctx) = Some p' \<Longrightarrow> tp_status p' = Queued"
    by (auto simp: create_queued_def Let_def newPair_def)
  have d: "tr_pair (create_dispatch mk ctx) = Some p' \<Longrightarrow> tp_status p' = Queued \<or> tp_status p' = Working"
    using q by (auto simp: create_dispatch_def Let_def case_prod_beta newPair_def split: if_splits)
  have s: "tp_status (fst (snd (spendCap x r is))) = tp_status x" for x r "is" by simp
  have p: "tr_pair (create_progress w mk ctx) = Some p' \<Longrightarrow> ?thesis" for w
    by (auto simp: create_progress_def Let_def case_prod_beta newPair_def split: if_splits option.splits)
  show ?thesis using assms q d p by (auto simp: apply_no_pair_def Let_def split: verb.splits)
qed

text \<open>
  C1. A pair is passed only by an audit: when a marker takes a pair to \<open>passed\<close>, the marker is a PASS, the pair
  was in audit with material and no hold on it, the writer is its auditor or has authority over it,
  the marker states no finding at a blocking level, and the pass is recorded for the round that was open.
\<close>

theorem passed_only_by_audit:
  assumes "tr_pair (applyTaskPairMarker ex mk ctx) = Some p'"
    and "tp_status p' = Passed"
    and "\<And>p. ex = Some p \<Longrightarrow> tp_status p \<noteq> Passed"
  shows "\<exists>p. ex = Some p \<and> mk_knownVerb mk = Some PASS \<and> tp_status p = In_audit \<and>
    tp_material p \<noteq> None \<and> tp_materialHold p = None \<and> hasAudit p \<and>
    (taskPairRoleOf (Some p) (ctx_writer ctx) = Auditor \<or> has_authority p ctx) \<and>
    \<not> (\<exists>l \<in> set (tp_blocking p). 1 \<le> stated_count (mk_attrs mk) l) \<and>
    tp_passRound p' = Some (tp_round p)"
  using assms(1)
proof (cases rule: apply_cases)
  case (new v)
  then show ?thesis using assms(2) create_status by fastforce
next
  case (closed p v e)
  then show ?thesis using assms(2) by auto
next
  case (title p v e t)
  then show ?thesis using assms(2,3) by auto
next
  case (main p v e)
  have np: "tp_status (prepare_pair v e) \<noteq> Passed"
    using assms(3) [OF main(1)] prepare_passed [of v e Passed] main(3) by auto
  from main(4) show ?thesis
  proof (cases rule: apply_main_cases)
    case reopen
    then show ?thesis using np by simp
  next
    case verb
    then have v: "v = PASS"
      using apply_verb_status [OF verb(1)] np assms(2,3) main(1,3) by auto
    have "tr_pair (apply_verdict_marker VPass e (prepare_pair v e)) = Some p'"
      using verb(1) v by (simp add: apply_verb_def)
    from apply_verdict_status [OF this] np assms(2) have
      f: "tp_status (prepare_pair v e) = In_audit" "tp_material (prepare_pair v e) \<noteq> None"
        "hasAudit (prepare_pair v e)" "se_role e = Auditor \<or> se_roleAuthority e"
        "tp_materialHold (prepare_pair v e) = None"
        "isAppliedVerdict (vr_judgement (judgeTaskPairVerdict VPass (se_attrs e) (tp_blocking (prepare_pair v e))))"
      by auto
    have "tp_status p = In_audit" using prepare_passed [OF f(1)] main(3) by simp
    moreover have "tp_passRound p' = Some (tp_round (prepare_pair v e))"
      using apply_verdict_core [OF \<open>tr_pair (apply_verdict_marker VPass e (prepare_pair v e)) = Some p'\<close>]
        assms(2) np by auto
    ultimately show ?thesis
      using f v main verdict_applies [of VPass "mk_attrs mk" "tp_blocking p"] by (auto simp: hasAudit_def)
  qed
qed

definition sample_ctx :: "string \<Rightarrow> source \<Rightarrow> apply_context" where
  "sample_ctx w src = \<lparr>ctx_writer = w, ctx_fallbackBrain = ''b'', ctx_projectBlocking = None, ctx_now = 5,
     ctx_source = src, ctx_busySessions = None, ctx_turnText = None, ctx_requireStructuredPairCreate = False\<rparr>"

definition sample_marker :: "verb \<Rightarrow> attrs \<Rightarrow> marker" where
  "sample_marker v a = \<lparr>mk_verb = verb_name v, mk_knownVerb = Some v, mk_taskId = ''t'', mk_attrs = a,
     mk_lineIndex = 0, mk_markerIndex = 0, mk_brief = None, mk_briefMissing = False\<rparr>"

definition sample_pair :: "status \<Rightarrow> pair" where
  "sample_pair st = (newPair ''t'' ''b'' (sample_ctx ''b'' Src_mcp) st)
     \<lparr>tp_executor := Some ''x'', tp_auditor := Some ''a'', tp_round := 1,
      tp_material := materialFromAttrs [(''head'', ''abcdef0'')] 3\<rparr>"

lemmas sample_defs = sample_ctx_def sample_marker_def sample_pair_def newPair_def infer_task_id_def
  materialFromAttrs_def attr_truthy_def normalizeAuditBlockingSeverities_def audit_default_blocking_def

lemma sample_pass:
  "\<exists>p'. tr_pair (applyTaskPairMarker (Some (sample_pair In_audit)) (sample_marker PASS []) (sample_ctx ''a'' Src_marker))
     = Some p' \<and> tp_status p' = Passed"
  by (simp add: applyTaskPairMarker_def apply_existing_def apply_main_def make_env_def taskPairRoleOf_def
      prepare_pair_def clearSideFlags_def progress_verbs_def guarded_verbs_def brain_reopen_verbs_def
      apply_verb_def apply_verdict_marker_def hasAudit_def no_auditor_def judgeTaskPairVerdict_def
      count_attr_def parseBlockingAttr_def isAppliedVerdict_def applyVerdict_def removeFlag_def
      sample_defs Let_def finish_def title_only_def)

theorem passed_only_by_audit_witness:
  "tp_status (sample_pair In_audit) = In_audit \<and>
   \<not> (\<exists>l \<in> set (tp_blocking (sample_pair In_audit)). 1 \<le> stated_count [] l)"
proof -
  obtain p' where "tr_pair (applyTaskPairMarker (Some (sample_pair In_audit)) (sample_marker PASS [])
      (sample_ctx ''a'' Src_marker)) = Some p'" "tp_status p' = Passed"
    using sample_pass by blast
  from passed_only_by_audit [OF this] show ?thesis
    by (auto simp: sample_pair_def sample_marker_def newPair_def)
qed

text \<open>
  The pairs a project can have: what markers make of a new pair, what the import makes of a legacy task, the correction of an
  import, and the daemon's own writes.  The first argument is ghost state: the pair was imported as passed and has been
  passed since.
\<close>

inductive pair_reachable :: "bool \<Rightarrow> pair \<Rightarrow> bool" where
  create: "tr_pair (applyTaskPairMarker None mk ctx) = Some p \<Longrightarrow> pair_reachable False p"
| legacy: "importLegacyTask sessions blocking now pairs_project None task = Imported p \<Longrightarrow> pair_reachable (tp_status p = Passed) p"
| mark: "pair_reachable imp p \<Longrightarrow> tr_pair (applyTaskPairMarker (Some p) mk ctx) = Some p' \<Longrightarrow>
    pair_reachable (imp \<and> tp_status p' = Passed) p'"
| correct: "pair_reachable imp p \<Longrightarrow>
    importLegacyTask sessions blocking now pairs_project (Some (p, already, events)) task = Import_corrected p' \<Longrightarrow>
    pair_reachable False p'"
| daemon: "pair_reachable imp p \<Longrightarrow> pair_reachable (imp \<and> tp_status (daemon_writes now w p) = Passed) (daemon_writes now w p)"

lemma newPair_fields [simp]:
  "tp_status (newPair t b c st) = st" "tp_round (newPair t b c st) = 0" "tp_passRound (newPair t b c st) = None"
  "tp_flags (newPair t b c st) = []"
  by (simp_all add: newPair_def)

lemma create_queued_ok:
  "tr_pair (create_queued mk ctx) = Some p' \<Longrightarrow>
     base_ok p' \<and> tp_status p' = Queued \<and> tp_round p' = 0 \<and> tp_passRound p' = None"
  by (auto simp: create_queued_def Let_def base_new)

lemma create_dispatch_ok:
  "tr_pair (create_dispatch mk ctx) = Some p' \<Longrightarrow>
     base_ok p' \<and> tp_status p' \<noteq> In_audit \<and> tp_round p' = 0 \<and> tp_passRound p' = None"
  using create_queued_ok [of mk ctx p']
  by (auto simp: create_dispatch_def Let_def case_prod_beta base_new split: if_splits)

lemma base_round: "base_ok p \<Longrightarrow> 0 \<le> n \<Longrightarrow> tp_capRound p \<le> n \<Longrightarrow> base_ok (p\<lparr>tp_round := n\<rparr>)"
  by (simp add: base_defs)

lemma create_progress_ok:
  assumes "tr_pair (create_progress v mk ctx) = Some p'"
  shows "base_ok p' \<and> tp_passRound p' = None \<and> 0 \<le> tp_round p' \<and> (tp_status p' = In_audit \<longrightarrow> 1 \<le> tp_round p')"
proof -
  let ?n = "(newPair (mk_taskId mk) (ctx_fallbackBrain ctx) ctx Working)\<lparr>tp_executor := Some (ctx_writer ctx)\<rparr>"
  let ?q = "fst (setRolesFromAttrs ?n (mk_attrs mk) [])"
  have q: "base_ok ?q" by (simp add: base_new)
  have f: "tp_round ?q = 0" "tp_passRound ?q = None" "tp_status ?q = Working" "tp_capRound ?q = 0"
    by (simp_all add: newPair_def)
  have aud: "base_ok (?q\<lparr>tp_status := In_audit, tp_round := 1\<rparr>)"
    using base_round [of "?q\<lparr>tp_status := In_audit\<rparr>" 1] q f(4) by simp
  show ?thesis
  proof (cases "v = READY_FOR_AUDIT \<and> hasAudit ?q")
    case True
    then show ?thesis using assms aud f
      by (auto simp: create_progress_def Let_def case_prod_beta split: option.splits)
  next
    case no: False
    show ?thesis
    proof (cases "v = DONE")
      case True
      let ?o = "(applyOutputAttr ?q (mk_attrs mk))\<lparr>tp_status := Awaiting_audit\<rparr>"
      have o: "base_ok ?o" using q by simp
      show ?thesis using assms True q f o base_spend [OF o, of Done_reminder_cap]
        by (auto simp: create_progress_def Let_def case_prod_beta split: if_splits)
    next
      case False
      then show ?thesis using assms no q f by (auto simp: create_progress_def Let_def case_prod_beta)
    qed
  qed
qed

lemma create_ok:
  assumes "tr_pair (apply_no_pair v mk ctx) = Some p'"
  shows "pair_inv False p'"
proof -
  have "base_ok p' \<and> tp_passRound p' = None \<and> 0 \<le> tp_round p' \<and> (tp_status p' = In_audit \<longrightarrow> 1 \<le> tp_round p')"
    using assms create_queued_ok [of mk ctx p'] create_dispatch_ok [of mk ctx p'] create_progress_ok
    by (auto simp: apply_no_pair_def Let_def split: verb.splits)
  with create_status [OF assms] show ?thesis by (auto simp: pair_inv_def base_ok_def rounds_ok_def)
qed

lemma pair_inv_iff: "pair_inv imp p \<longleftrightarrow> base_ok p \<and> rounds_ok imp p"
  by (auto simp: pair_inv_def base_ok_def)

lemma rounds_moved: "rounds_ok imp p \<Longrightarrow> rounds_ok (imp \<and> tp_status p = Passed) p"
  by (auto simp: rounds_ok_def)

lemma marker_keeps_inv:
  assumes inv: "pair_inv imp p" and r: "tr_pair (applyTaskPairMarker (Some p) mk ctx) = Some p'"
  shows "pair_inv imp p'"
  using r
proof (cases rule: apply_cases)
  case (new v)
  then show ?thesis by simp
next
  case (closed q v e)
  then show ?thesis using inv by (auto simp: pair_inv_iff rounds_ok_def)
next
  case (title q v e t)
  then show ?thesis using inv by (auto simp: pair_inv_iff rounds_ok_def)
next
  case (main q v e)
  then have x: "se_existing e = p" by simp
  from main(4) show ?thesis
  proof (cases rule: apply_main_cases)
    case reopen
    have "base_ok (prepare_pair v e)" using inv x by (simp add: pair_inv_iff)
    then show ?thesis using reopen inv x by (auto simp: pair_inv_iff rounds_ok_def)
  next
    case verb
    then show ?thesis using inv x base_verb [of e v p'] rounds_verb [where e = e and v = v and p' = p'] by (simp add: pair_inv_iff)
  qed
qed

lemma imported_inv:
  assumes "importLegacyTask sessions b now pj None task = Imported p"
  shows "pair_inv (tp_status p = Passed) p"
proof -
  have "legacyTaskToPair sessions task now b = Some p" using assms by (simp add: imported_outcome)
  from imported_pair [OF this] show ?thesis
    by (auto simp: pair_inv_iff base_defs rounds_ok_def normalize_sorted normalize_distinct)
qed

lemma corrected_inv:
  assumes "pair_inv imp p" and "correctUnauditedPassedImport p already events task now = Some p'"
  shows "pair_inv False p'"
proof -
  obtain st where st: "st \<noteq> Passed"
    and p': "p' = p\<lparr>tp_status := st, tp_flags := tp_flags p', tp_round := max 1 (tp_round p), tp_passRound := None,
      tp_lastVerdict := None, tp_capCounts := Map.empty, tp_capRound := max 1 (tp_round p), tp_updatedAt := now\<rparr>"
    and fl: "tp_flags p' = filter (\<lambda>f. f \<noteq> Fl_executor_silent \<and> f \<noteq> Fl_needs_auditor) (tp_flags p) \<or>
      tp_flags p' = filter (\<lambda>f. f \<noteq> Fl_executor_silent \<and> f \<noteq> Fl_needs_auditor) (tp_flags p) @ [Fl_needs_auditor]"
    using assms(2) by (rule corrected_pair)
  have "flags_ok p'" using fl assms(1) by (auto simp: pair_inv_def flags_ok_def)
  moreover have "caps_ok p'" by (subst p') (simp add: caps_ok_def)
  moreover have "blocking_ok p'" using assms(1) by (subst p') (simp add: pair_inv_def blocking_ok_def)
  moreover have "rounds_ok False p'" using st by (subst p') (simp add: rounds_ok_def)
  ultimately show ?thesis by (simp add: pair_inv_def)
qed

lemma pair_inv_writes:
  assumes "pair_inv imp p"
  shows "pair_inv imp (daemon_writes now w p)"
proof -
  have resolve: "pair_inv imp (resolveTaskPairBrainWait (p\<lparr>tp_updatedAt := now\<rparr>) now None)"
  proof -
    have "rounds_ok imp (resolveTaskPairBrainWait (p\<lparr>tp_updatedAt := now\<rparr>) now None)"
      using assms by (auto simp: pair_inv_iff rounds_ok_def resolveTaskPairBrainWait_def markTaskPairStarted_def Let_def)
    then show ?thesis using assms by (simp add: pair_inv_iff base_resolve)
  qed
  have flag: "pair_inv imp (flagOnce f now p)" if "f \<noteq> Fl_policy_violation" for f
    using assms that
    by (auto simp: pair_inv_def caps_ok_def flags_ok_def blocking_ok_def rounds_ok_def flagOnce_def)
  show ?thesis
  proof (cases w)
    case (Write_flag f)
    then show ?thesis using assms flag [of f] by (auto simp: daemon_flags_def)
  next
    case (Write_unflag fs)
    then show ?thesis using assms by (auto simp: pair_inv_def caps_ok_def flags_ok_def blocking_ok_def rounds_ok_def)
  next
    case (Write_brainMessage a b)
    then show ?thesis using assms resolve by (simp add: resolveBrainReply_def)
  qed (use assms in \<open>auto simp: pair_inv_iff rounds_ok_def redirectMaterialToCurrentWorkspace_def holdMaterialOutsideBase_def patchScheduling_def
      autoTickChecklist_def Let_def split: option.splits\<close>)
qed

lemma reachable_inv:
  assumes "pair_reachable imp p"
  shows "pair_inv imp p"
  using assms
proof induction
  case (create mk ctx p)
  then show ?case by (cases rule: apply_cases) (auto intro: create_ok)
next
  case (legacy sessions blocking now pairs_project task p)
  then show ?case by (rule imported_inv)
next
  case (mark imp p mk ctx p')
  then have "pair_inv imp p'" using marker_keeps_inv by blast
  then show ?case using rounds_moved by (simp add: pair_inv_iff)
next
  case (correct imp p sessions blocking now pairs_project already events task p')
  then have "correctUnauditedPassedImport p already events task now = Some p'" using corrected_outcome by fastforce
  with correct.IH show ?case by (rule corrected_inv)
next
  case (daemon imp p now w)
  then show ?case using pair_inv_writes [of imp p now w] rounds_moved by (simp add: pair_inv_iff)
qed

text \<open>
  C2. The invariant of every pair that markers, the import of legacy tasks, its correction and the daemon's own writes can make: at
  most two capped messages per reason and round, counted in a round that was opened; flags without repetition; a canonical,
  non-empty blocking set; a pass only in a round that was opened; and a passed pair still holds the material of the round it
  passed, unless it was imported as passed and has been passed since.
\<close>

theorem reachable_pair_inv:
  assumes "pair_reachable imported p"
  shows "pair_inv imported p"
  by (rule reachable_inv [OF assms])

lemma sample_created:
  "\<exists>p. tr_pair (applyTaskPairMarker None (sample_marker QUEUE []) (sample_ctx ''b'' Src_mcp)) = Some p"
  by (simp add: applyTaskPairMarker_def apply_no_pair_def create_queued_def sample_marker_def sample_ctx_def
      infer_task_id_def Let_def)

definition sample_task :: legacy_task where
  "sample_task = \<lparr>lt_taskId = ''t'', lt_projectName = ''p'', lt_objective = ''port the parser'', lt_status = L_committed,
     lt_assignments = [], lt_auditReceipts = None, lt_archivedAt = None\<rparr>"

lemma sample_imported:
  "\<exists>p. importLegacyTask [] [] 5 (\<lambda>_. True) None sample_task = Imported p \<and> tp_status p = Passed"
  by (simp add: imported_outcome legacyTaskToPair_def sample_task_def Let_def terminal_legacy_def parked_legacy_def)

theorem reachable_pair_inv_witness:
  "(\<exists>p. tr_pair (applyTaskPairMarker None (sample_marker QUEUE []) (sample_ctx ''b'' Src_mcp)) = Some p \<and> pair_inv False p) \<and>
   (\<exists>p. importLegacyTask [] [] 5 (\<lambda>_. True) None sample_task = Imported p \<and> tp_status p = Passed \<and> pair_inv True p)"
proof -
  obtain p where p: "tr_pair (applyTaskPairMarker None (sample_marker QUEUE []) (sample_ctx ''b'' Src_mcp)) = Some p"
    using sample_created by blast
  obtain q where q: "importLegacyTask [] [] 5 (\<lambda>_. True) None sample_task = Imported q" "tp_status q = Passed"
    using sample_imported by blast
  from reachable_pair_inv [OF pair_reachable.create [OF p]] reachable_pair_inv [OF pair_reachable.legacy [OF q(1)]] p q
  show ?thesis by auto
qed

section \<open>Authority\<close>

lemma apply_verb_participants:
  assumes "tr_pair (apply_verb v e (prepare_pair v e)) = Some p'" and "\<not> se_roleAuthority e"
  shows "tp_executor p' = tp_executor (se_existing e) \<and> tp_auditor p' = tp_auditor (se_existing e)"
proof -
  have k: "tp_executor p' = tp_executor q \<and> tp_auditor p' = tp_auditor q"
    if "tr_pair (reject e q is t) = Some p'" for q "is" t
    using reject_fields [OF that] by simp
  have d: "tp_executor p' = tp_executor q \<and> tp_auditor p' = tp_auditor q"
    if "tr_pair (dismissIntegration q n) = Some p'" for q n
    using dismiss_status [OF that] by simp
  have vd: "tp_executor (fst (applyVerdict q w r c is)) = tp_executor q \<and>
      tp_auditor (fst (applyVerdict q w r c is)) = tp_auditor q" for q w r c "is"
    by (auto simp: applyVerdict_def Let_def case_prod_beta split: verdict_verb.splits)
  show ?thesis
    using assms
    by (cases v)
      (auto simp: apply_verb_def apply_check_def apply_queue_def apply_dispatch_def apply_progress_def
        apply_ready_def ready_accept_def apply_verdict_marker_def apply_next_round_def apply_done_def
        apply_wait_def apply_reassign_def apply_cancel_def Let_def case_prod_beta vd
        dest!: k d split: option.splits if_split_asm)
qed

text \<open>
  The two sessions of a pair change only by authority: a marker from anyone but the pair's Brain, the
  project's Brain or the daemon leaves the executor and the auditor as they are.
\<close>

theorem participants_need_authority:
  assumes "tr_pair (applyTaskPairMarker (Some p) mk ctx) = Some p'" and "\<not> has_authority p ctx"
  shows "tp_executor p' = tp_executor p \<and> tp_auditor p' = tp_auditor p"
  using assms(1)
proof (cases rule: apply_cases)
  case (main q v e)
  from main(4) show ?thesis
  proof (cases rule: apply_main_cases)
    case reopen
    then show ?thesis using main by auto
  next
    case verb
    then show ?thesis using apply_verb_participants [OF verb(1)] main assms(2) by auto
  qed
qed (use assms(2) in auto)

lemma sample_blocked:
  "\<exists>p'. tr_pair (applyTaskPairMarker (Some (sample_pair Working)) (sample_marker BLOCKED [(''executor'', ''y'')])
     (sample_ctx ''x'' Src_marker)) = Some p'"
  by (simp add: applyTaskPairMarker_def apply_existing_def apply_main_def make_env_def taskPairRoleOf_def
      prepare_pair_def progress_verbs_def guarded_verbs_def brain_reopen_verbs_def
      apply_verb_def apply_wait_def isAboutAuditor_def sample_defs Let_def title_only_def)

theorem participants_need_authority_witness:
  "\<exists>p'. tr_pair (applyTaskPairMarker (Some (sample_pair Working)) (sample_marker BLOCKED [(''executor'', ''y'')])
     (sample_ctx ''x'' Src_marker)) = Some p' \<and> tp_executor p' = Some ''x''"
proof -
  have na: "\<not> has_authority (sample_pair Working) (sample_ctx ''x'' Src_marker)"
    by (simp add: has_authority_def taskPairRoleOf_def sample_pair_def newPair_def sample_ctx_def)
  obtain p' where p: "tr_pair (applyTaskPairMarker (Some (sample_pair Working))
      (sample_marker BLOCKED [(''executor'', ''y'')]) (sample_ctx ''x'' Src_marker)) = Some p'"
    using sample_blocked by blast
  from participants_need_authority [OF p na] p show ?thesis by (simp add: sample_pair_def)
qed

lemma prepare_terminal: "se_terminal e \<Longrightarrow> tp_status (prepare_pair v e) = tp_status (se_existing e)"
  by (auto simp: prepare_pair_status)

lemma terminal_verb_status:
  assumes "tr_pair (apply_verb v e (prepare_pair v e)) = Some p'" and "se_terminal e" "v \<notin> set guarded_verbs"
  shows "tp_status p' = tp_status (se_existing e) \<or> v = QUEUE \<and> se_roleAuthority e \<and> tp_status p' = Queued"
proof -
  have s: "tp_status (prepare_pair v e) = tp_status (se_existing e)" for v using assms(2) by (rule prepare_terminal)
  show ?thesis using assms s
    by (cases v) (auto simp: apply_verb_def guarded_verbs_def dest!: apply_queue_status apply_dispatch_status
        apply_done_status apply_wait_status apply_reassign_status apply_cancel_status apply_next_round_status)
qed

text \<open>
  C4. A finished pair: the only marker that takes a done or cancelled pair to another status is a QUEUE with
  authority, which puts it back in the queue; every other marker, DISPATCH included, leaves it finished.
\<close>

theorem finished_only_requeued:
  assumes "tr_pair (applyTaskPairMarker (Some p) mk ctx) = Some p'"
    and "tp_status p = Done \<or> tp_status p = Cancelled" and "tp_status p' \<noteq> tp_status p"
  shows "mk_knownVerb mk = Some QUEUE \<and> has_authority p ctx \<and> tp_status p' = Queued"
  using assms(1)
proof (cases rule: apply_cases)
  case (main q v e)
  from main(4) show ?thesis
  proof (cases rule: apply_main_cases)
    case reopen
    then show ?thesis using main assms(2) by auto
  next
    case verb
    then show ?thesis using terminal_verb_status [OF verb(1)] main assms(2,3) by auto
  qed
qed (use assms(3) in auto)

lemma sample_requeue:
  "\<exists>p'. tr_pair (applyTaskPairMarker (Some (sample_pair Cancelled)) (sample_marker QUEUE [])
     (sample_ctx ''b'' Src_mcp)) = Some p' \<and> tp_status p' = Queued"
  by (simp add: applyTaskPairMarker_def apply_existing_def apply_main_def make_env_def taskPairRoleOf_def
      prepare_pair_def progress_verbs_def guarded_verbs_def brain_reopen_verbs_def clearSideFlags_def
      removeFlag_def resolveTaskPairBrainWait_def apply_verb_def apply_queue_def with_brief_def
      sample_defs Let_def title_only_def)

theorem finished_only_requeued_witness:
  "has_authority (sample_pair Cancelled) (sample_ctx ''b'' Src_mcp)"
proof -
  obtain p' where p: "tr_pair (applyTaskPairMarker (Some (sample_pair Cancelled)) (sample_marker QUEUE [])
     (sample_ctx ''b'' Src_mcp)) = Some p'" "tp_status p' = Queued"
    using sample_requeue by blast
  show ?thesis using finished_only_requeued [OF p(1)] p(2) by (simp add: sample_pair_def newPair_def)
qed

text \<open>
  C3. How a pair becomes done: by the Brain's DONE with \<open>force\<close>; by the executor's DONE on an audited pair that has
  passed; or, on a pair with no audit, by a DONE with authority.  Nothing else finishes a pair.
\<close>

theorem done_only_by:
  assumes "tr_pair (applyTaskPairMarker (Some p) mk ctx) = Some p'"
    and "tp_status p' = Done" "tp_status p \<noteq> Done"
  shows "mk_knownVerb mk = Some DONE \<and> tp_status p \<noteq> Cancelled \<and>
    (taskPairRoleOf (Some p) (ctx_writer ctx) = Brain \<and> isTrue (attr (mk_attrs mk) ''force'') \<or>
     hasAudit p \<and> taskPairRoleOf (Some p) (ctx_writer ctx) = Executor \<and> tp_status p = Passed \<or>
     \<not> hasAudit p \<and> has_authority p ctx)"
  using assms(1)
proof (cases rule: apply_cases)
  case (main q v e)
  then have x: "se_existing e = p" by simp
  from main(4) show ?thesis
  proof (cases rule: apply_main_cases)
    case reopen
    then show ?thesis using assms(2) by (simp split: if_splits)
  next
    case verb
    have pd: "tp_status (prepare_pair v e) \<noteq> Done"
      using assms(3) x by (auto simp: prepare_pair_status split: if_splits)
    have vd: "v = DONE" using apply_verb_status [OF verb(1)] assms(2,3) pd x by auto
    then have "tr_pair (apply_done e (prepare_pair v e)) = Some p'" using verb(1) by (simp add: apply_verb_def)
    from apply_done_status [OF this] have
      "\<not> se_terminal e" "se_role e = Brain \<and> isTrue (attr (se_attrs e) ''force'') \<or>
       hasAudit p \<and> se_role e = Executor \<and> tp_status (prepare_pair v e) = Passed \<or> \<not> hasAudit p \<and> se_roleAuthority e"
      using pd assms(2,3) x by (auto simp: hasAudit_def)
    then show ?thesis using main x vd prepare_passed [of v e Passed] by auto
  qed
qed (use assms(2,3) in auto)

lemma sample_done:
  "\<exists>p'. tr_pair (applyTaskPairMarker (Some (sample_pair Passed)) (sample_marker DONE [])
     (sample_ctx ''x'' Src_marker)) = Some p' \<and> tp_status p' = Done"
  by (simp add: applyTaskPairMarker_def apply_existing_def apply_main_def make_env_def taskPairRoleOf_def
      prepare_pair_def progress_verbs_def guarded_verbs_def brain_reopen_verbs_def clearSideFlags_def
      apply_verb_def apply_done_def hasAudit_def no_auditor_def applyOutputAttr_def
      sample_defs Let_def title_only_def)

theorem done_only_by_witness:
  "hasAudit (sample_pair Passed) \<and> taskPairRoleOf (Some (sample_pair Passed)) ''x'' = Executor"
proof -
  obtain p' where p: "tr_pair (applyTaskPairMarker (Some (sample_pair Passed)) (sample_marker DONE [])
     (sample_ctx ''x'' Src_marker)) = Some p'" "tp_status p' = Done"
    using sample_done by blast
  have "hasAudit (sample_pair Passed)" by (simp add: hasAudit_def no_auditor_def sample_pair_def)
  then show ?thesis using done_only_by [OF p]
    by (simp add: sample_pair_def newPair_def sample_marker_def isTrue_def sample_ctx_def)
qed

text \<open>
  The two round counters: an audit round opens only by a READY on a pair that is not in audit, not passed and
  not finished, and counts one; a delivery round opens only by Brain's NEXT_ROUND on a passed pair, counts
  one and drops the pass and its material, so the new round needs its own audit.
\<close>

theorem round_counters:
  assumes "tr_pair (applyTaskPairMarker (Some p) mk ctx) = Some p'"
  shows "(tp_round p' = tp_round p \<or>
      mk_knownVerb mk = Some READY_FOR_AUDIT \<and> tp_round p' = tp_round p + 1 \<and> tp_status p' = In_audit \<and>
      tp_status p \<notin> {In_audit, Passed, Done, Cancelled}) \<and>
    (tp_deliveryRound p' = tp_deliveryRound p \<or>
      mk_knownVerb mk = Some NEXT_ROUND \<and> tp_status p = Passed \<and> tp_status p' = Working \<and>
      tp_deliveryRound p' = Some (taskPairDeliveryRound p + 1) \<and> tp_passRound p' = None \<and> tp_material p' = None \<and>
      (taskPairRoleOf (Some p) (ctx_writer ctx) = Brain \<or> ctx_writer ctx = ctx_fallbackBrain ctx))"
  using assms
proof (cases rule: apply_cases)
  case (main q v e)
  then have x: "se_existing e = p" by simp
  have cp: "core (prepare_pair v e) = core p" using x by simp
  from main(4) show ?thesis
  proof (cases rule: apply_main_cases)
    case reopen
    then show ?thesis using x by simp
  next
    case verb
    show ?thesis
    proof (cases "v \<in> {READY_FOR_AUDIT, PASS, REWORK, NEXT_ROUND}")
      case False
      then have "core p' = core p" using verb(1) x
        by (cases v) (auto simp: apply_verb_def dest!: apply_check_core apply_queue_core apply_dispatch_core
          apply_progress_core apply_done_core apply_cancel_core apply_wait_core apply_reassign_core)
      then show ?thesis by (simp add: core_def)
    next
      case True
      then consider "v = READY_FOR_AUDIT" | w where "tr_pair (apply_verdict_marker w e (prepare_pair v e)) = Some p'"
        | "v = NEXT_ROUND"
        using verb(1) by (auto simp: apply_verb_def)
      then show ?thesis
      proof cases
        case 1
        then have "tr_pair (apply_ready e (prepare_pair v e)) = Some p'" using verb(1) by (simp add: apply_verb_def)
        from apply_ready_core [OF this] show ?thesis
          using verb(2,3) 1 main x by (auto simp: core_def guarded_verbs_def prepare_pair_status split: if_splits)
      next
        case 2
        from apply_verdict_core [OF 2] show ?thesis using x by simp
      next
        case 3
        then have "tr_pair (apply_next_round e (prepare_pair v e)) = Some p'" using verb(1) by (simp add: apply_verb_def)
        from apply_next_round_core [OF this] show ?thesis
          using 3 main x prepare_passed [of v e Passed] by (auto simp: core_def taskPairDeliveryRound_def)
      qed
    qed
  qed
qed auto

lemma sample_ready:
  "\<exists>p'. tr_pair (applyTaskPairMarker (Some (sample_pair Working)) (sample_marker READY_FOR_AUDIT [(''head'', ''abcdef0'')])
     (sample_ctx ''x'' Src_marker)) = Some p'"
  by (simp add: applyTaskPairMarker_def apply_existing_def apply_main_def make_env_def taskPairRoleOf_def
      prepare_pair_def progress_verbs_def guarded_verbs_def brain_reopen_verbs_def clearSideFlags_def
      apply_verb_def apply_ready_def ready_base_mismatch_def ready_duplicate_def round_base_commit_def
      ready_accept_def hasAudit_def no_auditor_def sample_defs Let_def title_only_def)

theorem round_counters_witness:
  "\<exists>p'. tr_pair (applyTaskPairMarker (Some (sample_pair Working)) (sample_marker READY_FOR_AUDIT [(''head'', ''abcdef0'')])
     (sample_ctx ''x'' Src_marker)) = Some p' \<and> (tp_round p' = 1 \<or> tp_round p' = 2)"
proof -
  obtain p' where p: "tr_pair (applyTaskPairMarker (Some (sample_pair Working))
      (sample_marker READY_FOR_AUDIT [(''head'', ''abcdef0'')]) (sample_ctx ''x'' Src_marker)) = Some p'"
    using sample_ready by blast
  from round_counters [OF p] p show ?thesis by (auto simp: sample_pair_def)
qed

section \<open>Rejections and their cap\<close>

lemma spend_intents:
  "set (snd (snd (spendCap p r is))) \<subseteq> set is \<union> {Brain_notice (capped_flag r)}"
  by (auto simp: spendCap_def Let_def)

lemma roles_intents: "set (snd (setRolesFromAttrs p a is)) \<subseteq> set is \<union> {Pick_auditor}"
  by (auto simp: setRolesFromAttrs_def Let_def)

definition quiet :: "intent list \<Rightarrow> bool" where
  "quiet is \<longleftrightarrow> Brain_notice Fl_policy_violation \<notin> set is"

lemma quiet_simps [simp]:
  "quiet []" "quiet (i # is) \<longleftrightarrow> i \<noteq> Brain_notice Fl_policy_violation \<and> quiet is" "quiet (is @ js) \<longleftrightarrow> quiet is \<and> quiet js"
  by (auto simp: quiet_def)

lemma quiet_spend [simp]:
  "r \<noteq> Policy_rejection \<Longrightarrow> quiet is \<Longrightarrow> quiet (snd (snd (spendCap p r is)))"
  using spend_intents [of p r "is"] by (cases r) (auto simp: quiet_def)

lemma quiet_roles [simp]: "quiet is \<Longrightarrow> quiet (snd (setRolesFromAttrs p a is))"
  using roles_intents [of p a "is"] by (auto simp: quiet_def)

lemma quiet_reject [simp]: "quiet is \<Longrightarrow> quiet (tr_intents (reject e p is t))"
  using spendCap_ok [of p Policy_rejection "is"]
  by (auto simp: reject_def Let_def case_prod_beta)

lemma quiet_dismiss [simp]: "quiet (tr_intents (dismissIntegration q n))"
  by (auto simp: dismissIntegration_def)

lemma quiet_applyVerdict [simp]: "quiet is \<Longrightarrow> quiet (snd (applyVerdict p v r c is))"
  by (auto simp: applyVerdict_def Let_def case_prod_beta split: verdict_verb.splits)

lemma quiet_wait [simp]: "quiet (tr_intents (apply_wait v e p))"
  by (auto simp: apply_wait_def Let_def case_prod_beta side_flag_def)

lemma quiet_admission [simp]: "quiet (snd q) \<Longrightarrow> quiet (snd (reassign_admission e q))"
  by (auto simp: reassign_admission_def Let_def case_prod_beta)

lemma quiet_reassign [simp]: "quiet (tr_intents (apply_reassign e p))"
  by (auto simp: apply_reassign_def reassign_roles_def Let_def case_prod_beta)

lemma quiet_verdict_marker [simp]: "quiet (tr_intents (apply_verdict_marker v e p))"
  by (auto simp: apply_verdict_marker_def Let_def case_prod_beta)

lemma quiet_ready [simp]: "quiet (tr_intents (apply_ready e p))"
  by (auto simp: apply_ready_def ready_accept_def Let_def)

lemma quiet_next_round [simp]: "quiet (tr_intents (apply_next_round e p))"
  by (auto simp: apply_next_round_def Let_def)

lemma quiet_dispatch [simp]: "quiet (tr_intents (apply_dispatch e p))"
  by (auto simp: apply_dispatch_def Let_def case_prod_beta)

lemma quiet_verb [simp]: "quiet (tr_intents (apply_verb v e p))"
  by (cases v) (auto simp: apply_verb_def apply_check_def apply_queue_def apply_progress_def apply_done_def
      apply_cancel_def Let_def case_prod_beta split: option.splits)

lemma quiet_no_pair: "quiet (tr_intents (apply_no_pair v mk ctx))"
  by (cases v) (auto simp: apply_no_pair_def create_queued_def create_dispatch_def create_progress_def
      Let_def case_prod_beta split: option.splits)

text \<open>
  C19. A rejection past its cap is lost: when a writer has used up the two policy notices of a round, the next
  rejected marker of that round is only recorded, so the flag \<open>policy_violation\<close> is never set on any pair
  and no transition ever sends Brain the notice the cap is meant to raise.
\<close>

theorem policy_violation_never_raised:
  shows "(\<forall>imported p. pair_reachable imported p \<longrightarrow> Fl_policy_violation \<notin> set (tp_flags p)) \<and>
    Brain_notice Fl_policy_violation \<notin> set (tr_intents (applyTaskPairMarker ex mk ctx)) \<and>
    (tp_capRound q = tp_round q \<and> tp_capCounts q Policy_rejection = Some message_cap_per_round \<longrightarrow>
      reject e q [] msg = recorded (Some (se_existing e)) True [])"
proof (intro conjI allI impI)
  fix imported p
  assume "pair_reachable imported p"
  then show "Fl_policy_violation \<notin> set (tp_flags p)"
    using reachable_inv by (auto simp: pair_inv_def flags_ok_def)
next
  have "quiet (tr_intents (applyTaskPairMarker ex mk ctx))"
    by (auto simp: applyTaskPairMarker_def queue_settings_def apply_existing_def closed_notice_def
        title_dispatch_def apply_main_def brain_reopen_def quiet_no_pair Let_def split: option.splits)
  then show "Brain_notice Fl_policy_violation \<notin> set (tr_intents (applyTaskPairMarker ex mk ctx))"
    by (simp add: quiet_def)
next
  assume "tp_capRound q = tp_round q \<and> tp_capCounts q Policy_rejection = Some message_cap_per_round"
  then show "reject e q [] msg = recorded (Some (se_existing e)) True []"
    by (simp add: reject_def spendCap_def Let_def)
qed

text \<open>The existing pair of such a writer: an executor whose third CANCEL of the round is recorded.\<close>

definition capped_pair :: pair where
  "capped_pair = (sample_pair Working)\<lparr>tp_capCounts := [Policy_rejection \<mapsto> 2], tp_capRound := 1\<rparr>"

theorem policy_violation_never_raised_witness:
  "reject (make_env capped_pair (sample_marker CANCEL []) (sample_ctx ''x'' Src_marker)) capped_pair [] ''m'' =
     recorded (Some capped_pair) True []"
proof -
  have "tp_capRound capped_pair = tp_round capped_pair \<and>
      tp_capCounts capped_pair Policy_rejection = Some message_cap_per_round"
    by (simp add: capped_pair_def sample_pair_def newPair_def message_cap_per_round_def)
  with policy_violation_never_raised [of None "sample_marker CANCEL []" "sample_ctx ''x'' Src_marker" capped_pair
      "make_env capped_pair (sample_marker CANCEL []) (sample_ctx ''x'' Src_marker)" "''m''"]
  show ?thesis by simp
qed

section \<open>Bindings, queue order and suspension\<close>

lemma rev_takeWhile_colon:
  "CHR '':'' \<notin> set s \<Longrightarrow> rev (takeWhile (\<lambda>c. c \<noteq> CHR '':'') (rev (p @ CHR '':'' # s))) = s"
  by (simp add: takeWhile_append takeWhile_all)

text \<open>
  Binding ids are read back as they were made, for every task id that is not empty (colons and role names
  in it included); so two bindings with the same id are the same role of the same task.
\<close>

theorem binding_id_roundtrip:
  assumes "taskId \<noteq> []"
  shows "parseTaskPairBindingId (taskPairBindingId taskId r) = Some (taskId, r)"
proof -
  let ?n = "binding_role_name r"
  have n: "CHR '':'' \<notin> set ?n" by (cases r) simp_all
  have v: "taskPairBindingId taskId r = (''pair:'' @ taskId) @ CHR '':'' # ?n" by (simp add: taskPairBindingId_def)
  have role: "rev (takeWhile (\<lambda>c. c \<noteq> CHR '':'') (rev (taskPairBindingId taskId r))) = ?n"
    unfolding v by (rule rev_takeWhile_colon [OF n])
  have cut: "length (taskPairBindingId taskId r) - Suc (length ?n) = 5 + length taskId"
    unfolding v by simp
  have st: "starts_with (taskPairBindingId taskId r) ''pair:''" by (simp add: taskPairBindingId_def)
  have mid: "drop 5 (take (5 + length taskId) (taskPairBindingId taskId r)) = taskId"
  proof -
    have l: "5 + length taskId = length (''pair:'' @ taskId)" by simp
    have "take (length (''pair:'' @ taskId)) ((''pair:'' @ taskId) @ CHR '':'' # ?n) = ''pair:'' @ taskId"
      by (metis append_eq_conv_conj)
    then show ?thesis unfolding v l by simp
  qed
  show ?thesis
    unfolding parseTaskPairBindingId_def Let_def role cut mid
    using assms st by (cases r) simp_all
qed

theorem binding_id_roundtrip_witness:
  "parseTaskPairBindingId (taskPairBindingId ''a:executor'' Bind_auditor) = Some (''a:executor'', Bind_auditor)"
  by (rule binding_id_roundtrip) simp

text \<open>
  The queue order is a total preorder and sorting by it puts every urgent pair before every other one,
  first in first out within each group.
\<close>

theorem queue_order:
  "cmp_total_preorder compareQueuedTaskPairs \<and>
   sorted_wrt (\<lambda>a b. if snd a = snd b then fst a \<le> fst b else snd a) (js_sort_by compareQueuedTaskPairs qs)"
proof -
  have le: "compareQueuedTaskPairs a b \<le> 0 \<longleftrightarrow> (if snd a = snd b then fst a \<le> fst b else snd a)" for a b
    by (auto simp: compareQueuedTaskPairs_def Let_def)
  have t: "cmp_total_preorder compareQueuedTaskPairs"
    unfolding cmp_total_preorder_def le by (auto split: if_splits)
  then show ?thesis using sorted_js_sort_by [OF t, of qs] unfolding le by simp
qed

text \<open>
  The wire form of a pair's scheduling keeps what suspends it: a reader of the projected form sees the same
  wait (also an older one that knows only the count), and reading the form back restores the
  dependencies and the note.
\<close>

theorem scheduling_projection:
  assumes "sch_dependencyCount s = None" and "sch_note s \<noteq> Some []"
  shows "taskPairWaitKind (Some (projectPairScheduling s)) st = taskPairWaitKind (Some s) st \<and>
    isTaskPairSuspended (Some (projectPairScheduling s)) st = isTaskPairSuspended (Some s) st \<and>
    (\<exists>r. readPairScheduling (Some (projectPairScheduling s)) = Some r \<and>
       sch_dependsOn r = sch_dependsOn s \<and> sch_note r = sch_note s \<and> sch_manual r = sch_manual s)"
  using assms
  by (cases "sch_note s")
    (auto simp: taskPairWaitKind_def isTaskPairSuspended_def projectPairScheduling_def readPairScheduling_def)

definition sample_scheduling :: scheduling where
  "sample_scheduling = \<lparr>sch_epoch = 1, sch_manual = False, sch_dependsOn = [''a''], sch_since = 0, sch_writer = ''b'',
     sch_note = Some ''n'', sch_resumePending = False, sch_admitted = False, sch_resumedAt = None,
     sch_resumeRetryAt = None, sch_failureNotified = False, sch_dependencyCount = None, sch_details = None\<rparr>"

theorem scheduling_projection_witness:
  "taskPairWaitKind (Some (projectPairScheduling sample_scheduling)) Working = Some Waiting_dependencies"
proof -
  have "sch_dependencyCount sample_scheduling = None" "sch_note sample_scheduling \<noteq> Some []"
    by (simp_all add: sample_scheduling_def)
  from scheduling_projection [OF this, of Working] show ?thesis
    by (simp add: taskPairWaitKind_def sample_scheduling_def)
qed

section \<open>A READY sent twice\<close>

lemma sameTaskPairCommit_refl [simp]: "sameTaskPairCommit a a"
  by (simp add: sameTaskPairCommit_def Let_def starts_with_iff)

lemma materialFromAttrs_at:
  "materialFromAttrs a t = map_option (\<lambda>m. m\<lparr>mat_at := t\<rparr>) (materialFromAttrs a now)"
  by (simp add: materialFromAttrs_def Let_def)

lemma sameAuditMaterial_resend: "sameAuditMaterial (fill_base rb m) (fill_base rb (m\<lparr>mat_at := t\<rparr>))"
  by (auto simp: sameAuditMaterial_def fill_base_def split: option.splits)

lemma ready_effect_status:
  assumes "tr_effect (apply_ready e p) = Eff_status" "tr_pair (apply_ready e p) = Some p'"
  shows "hasAudit p" "\<not> ready_base_mismatch p (materialFromAttrs (se_attrs e) (se_now e))"
    "tr_pair (ready_accept e p (materialFromAttrs (se_attrs e) (se_now e))) = Some p'"
proof -
  have "tr_effect (reject e p is t) \<noteq> Eff_status" for "is" t
    by (simp add: reject_def Let_def case_prod_beta recorded_def finish_def)
  then show "hasAudit p" "\<not> ready_base_mismatch p (materialFromAttrs (se_attrs e) (se_now e))"
    "tr_pair (ready_accept e p (materialFromAttrs (se_attrs e) (se_now e))) = Some p'"
    using assms by (auto simp: apply_ready_def Let_def recorded_def split: if_split_asm)
qed

lemma ready_accept_kept:
  assumes "tr_pair (ready_accept e p (Some m)) = Some p'"
  shows "tp_material p' = Some (fill_base (round_base_commit p) m)" "tp_roundBase p' = tp_roundBase p"
    "tp_auditor p' = tp_auditor p" "tp_executor p' = tp_executor p" "tp_brain p' = tp_brain p"
    "tp_scheduling p' = tp_scheduling p" "tp_materialHold p' = None" "tp_status p' = In_audit"
proof -
  have m: "tp_material (ready_material (p\<lparr>tp_materialHold := None\<rparr>) (Some m) n) = Some (fill_base (round_base_commit p) m)" for n
    by (simp add: ready_material_def round_base_commit_def)
  show "tp_material p' = Some (fill_base (round_base_commit p) m)" "tp_roundBase p' = tp_roundBase p"
    "tp_auditor p' = tp_auditor p" "tp_executor p' = tp_executor p" "tp_brain p' = tp_brain p"
    "tp_scheduling p' = tp_scheduling p" "tp_materialHold p' = None" "tp_status p' = In_audit"
    using assms m by (auto simp: ready_accept_def Let_def split: if_split_asm)
qed

lemma ready_duplicate_result:
  assumes p: "tp_status p = In_audit" "tp_materialHold p = None" "hasAudit p"
    and m: "materialFromAttrs (mk_attrs mk) (ctx_now ctx) = Some x" "tp_material p = Some (fill_base (round_base_commit p) y)"
      "sameAuditMaterial (fill_base (round_base_commit p) y) (fill_base (round_base_commit p) x)"
      "\<not> ready_base_mismatch p (Some x)"
    and mk: "mk_knownVerb mk = Some READY_FOR_AUDIT" "mk_taskId mk \<noteq> infer_task_id"
    and s: "\<not> ((ctx_source ctx = Src_heartbeat \<or> ctx_source ctx = Src_queue) \<and> isTaskPairSuspended (tp_scheduling p) In_audit)"
  shows "applyTaskPairMarker (Some p) mk ctx = (recorded (Some p) False [])\<lparr>tr_effect := Eff_duplicate_ready\<rparr>"
proof -
  let ?e = "make_env p mk ctx"
  let ?q = "prepare_pair READY_FOR_AUDIT ?e"
  have q: "hasAudit ?q" "round_base_commit ?q = round_base_commit p"
    using p(3) by (simp_all add: hasAudit_def round_base_commit_def)
  have mm: "\<not> ready_base_mismatch ?q (Some x)" using m(4) q(2) by (simp add: ready_base_mismatch_def)
  have dup: "ready_duplicate p ?q (Some x) (ctx_now ctx)"
    using p m q(2) by (simp add: ready_duplicate_def ready_candidate_def)
  have ar: "apply_ready ?e ?q = (recorded (Some p) False [])\<lparr>tr_effect := Eff_duplicate_ready\<rparr>"
    using q(1) mm dup m(1) by (simp add: apply_ready_def Let_def)
  have st: "tp_status ?q = In_audit" using p(1) by (simp add: prepare_pair_status)
  show ?thesis
    using mk p(1) s st ar
    by (auto simp: applyTaskPairMarker_def apply_existing_def apply_main_def title_only_def apply_verb_def Let_def)
qed

text \<open>
  A READY seen twice is a no-op: after a READY that named its material was accepted, the same marker from the
  same writer, at any later time, changes nothing, sends nothing and is reported as a duplicate.
\<close>

theorem ready_resend_noop:
  assumes r: "tr_pair (applyTaskPairMarker (Some p) mk ctx) = Some p'"
    "tr_effect (applyTaskPairMarker (Some p) mk ctx) = Eff_status"
    and v: "mk_knownVerb mk = Some READY_FOR_AUDIT"
    and m: "materialFromAttrs (mk_attrs mk) (ctx_now ctx) \<noteq> None"
  shows "applyTaskPairMarker (Some p') mk (ctx\<lparr>ctx_now := t\<rparr>) =
    (recorded (Some p') False [])\<lparr>tr_effect := Eff_duplicate_ready\<rparr>"
proof -
  let ?e = "make_env p mk ctx"
  let ?q = "prepare_pair READY_FOR_AUDIT ?e"
  obtain x where x: "materialFromAttrs (mk_attrs mk) (ctx_now ctx) = Some x" using m by auto
  have id: "mk_taskId mk \<noteq> infer_task_id" using r v by (auto simp: applyTaskPairMarker_def)
  have ex: "applyTaskPairMarker (Some p) mk ctx = apply_existing READY_FOR_AUDIT ?e"
    using v id by (simp add: applyTaskPairMarker_def)
  have "tr_effect (closed_notice ?e) \<noteq> Eff_status" by (simp add: closed_notice_def Let_def recorded_def)
  then have main: "apply_existing READY_FOR_AUDIT ?e = apply_main READY_FOR_AUDIT ?e"
    using r(2) unfolding ex by (auto simp: apply_existing_def Let_def recorded_def title_only_def split: if_split_asm)
  have rm: "tr_pair (apply_main READY_FOR_AUDIT ?e) = Some p'" using r(1) ex main by simp
  then have ns: "\<not> ((ctx_source ctx = Src_heartbeat \<or> ctx_source ctx = Src_queue) \<and>
      isTaskPairSuspended (tp_scheduling p) (tp_status p))"
    by (auto simp: apply_main_def Let_def)
  from rm have nt: "\<not> se_terminal ?e"
    by (cases rule: apply_main_cases) (auto simp: brain_reopen_verbs_def guarded_verbs_def)
  have ar: "apply_main READY_FOR_AUDIT ?e = apply_ready ?e ?q"
    using rm ns by (auto simp: apply_main_def apply_verb_def brain_reopen_verbs_def Let_def split: if_split_asm)
  have eff: "tr_effect (apply_ready ?e ?q) = Eff_status" "tr_pair (apply_ready ?e ?q) = Some p'"
    using r ex main ar by simp_all
  note rs = ready_effect_status [OF eff]
  have acc: "tr_pair (ready_accept ?e ?q (Some x)) = Some p'" using rs(3) x by simp
  note k = ready_accept_kept [OF acc]
  have rb: "round_base_commit ?q = round_base_commit p'" using k(2) by (simp add: round_base_commit_def)
  have x': "materialFromAttrs (mk_attrs mk) t = Some (x\<lparr>mat_at := t\<rparr>)"
    using materialFromAttrs_at [of "mk_attrs mk" t "ctx_now ctx"] x by simp
  have sus: "isTaskPairSuspended s In_audit \<longrightarrow> isTaskPairSuspended s st" if "st \<noteq> Done" "st \<noteq> Cancelled" for s st
    using that by (simp add: isTaskPairSuspended_def)
  show ?thesis
  proof (rule ready_duplicate_result)
    show "tp_status p' = In_audit" "tp_materialHold p' = None" using k by simp_all
    show "hasAudit p'" using rs(1) k by (simp add: hasAudit_def)
    show "materialFromAttrs (mk_attrs mk) (ctx_now (ctx\<lparr>ctx_now := t\<rparr>)) = Some (x\<lparr>mat_at := t\<rparr>)" using x' by simp
    show "tp_material p' = Some (fill_base (round_base_commit p') x)" using k(1) rb by simp
    show "sameAuditMaterial (fill_base (round_base_commit p') x) (fill_base (round_base_commit p') (x\<lparr>mat_at := t\<rparr>))"
      by (rule sameAuditMaterial_resend)
    show "\<not> ready_base_mismatch p' (Some (x\<lparr>mat_at := t\<rparr>))"
      using rs(2) x rb by (simp add: ready_base_mismatch_def Let_def)
    show "mk_knownVerb mk = Some READY_FOR_AUDIT" "mk_taskId mk \<noteq> infer_task_id" using v id by simp_all
    show "\<not> ((ctx_source (ctx\<lparr>ctx_now := t\<rparr>) = Src_heartbeat \<or> ctx_source (ctx\<lparr>ctx_now := t\<rparr>) = Src_queue) \<and>
        isTaskPairSuspended (tp_scheduling p') In_audit)"
      using ns nt sus k(6) by auto
  qed
qed

lemma sample_ready_status:
  "\<exists>p'. tr_pair (applyTaskPairMarker (Some (sample_pair Working)) (sample_marker READY_FOR_AUDIT [(''head'', ''abcdef0'')])
     (sample_ctx ''x'' Src_marker)) = Some p' \<and>
   tr_effect (applyTaskPairMarker (Some (sample_pair Working)) (sample_marker READY_FOR_AUDIT [(''head'', ''abcdef0'')])
     (sample_ctx ''x'' Src_marker)) = Eff_status"
  by (simp add: applyTaskPairMarker_def apply_existing_def apply_main_def make_env_def taskPairRoleOf_def
      prepare_pair_def progress_verbs_def guarded_verbs_def brain_reopen_verbs_def clearSideFlags_def
      apply_verb_def apply_ready_def ready_base_mismatch_def ready_duplicate_def round_base_commit_def
      ready_accept_def hasAudit_def no_auditor_def sample_defs Let_def title_only_def finish_def)

theorem ready_resend_noop_witness:
  "\<exists>p'. tr_pair (applyTaskPairMarker (Some (sample_pair Working)) (sample_marker READY_FOR_AUDIT [(''head'', ''abcdef0'')])
     (sample_ctx ''x'' Src_marker)) = Some p' \<and>
   tr_effect (applyTaskPairMarker (Some p') (sample_marker READY_FOR_AUDIT [(''head'', ''abcdef0'')])
     ((sample_ctx ''x'' Src_marker)\<lparr>ctx_now := 9\<rparr>)) = Eff_duplicate_ready"
proof -
  obtain p' where p: "tr_pair (applyTaskPairMarker (Some (sample_pair Working)) (sample_marker READY_FOR_AUDIT [(''head'', ''abcdef0'')])
     (sample_ctx ''x'' Src_marker)) = Some p'"
     "tr_effect (applyTaskPairMarker (Some (sample_pair Working)) (sample_marker READY_FOR_AUDIT [(''head'', ''abcdef0'')])
     (sample_ctx ''x'' Src_marker)) = Eff_status"
    using sample_ready_status by blast
  have "mk_knownVerb (sample_marker READY_FOR_AUDIT [(''head'', ''abcdef0'')]) = Some READY_FOR_AUDIT"
    by (simp add: sample_marker_def)
  moreover have "materialFromAttrs (mk_attrs (sample_marker READY_FOR_AUDIT [(''head'', ''abcdef0'')]))
      (ctx_now (sample_ctx ''x'' Src_marker)) \<noteq> None"
    by (simp add: sample_defs Let_def)
  ultimately show ?thesis using ready_resend_noop [OF p, of 9] p(1) by auto
qed

end
