(* ===== verification/JsValue.thy ===== *)
theory JsValue
  imports Prelude
begin

text \<open>
  JavaScript values that reach the code untyped: parsed JSON with \<open>undefined\<close>, and numbers with the
  three values that are not finite.  Every finite number is an integer here; the modelled code only
  compares, adds and rounds them.  The members of an object keep their order of insertion.
\<close>

section \<open>Numbers\<close>

datatype js_number = JFin int | JNaN | JPosInf | JNegInf

fun js_finite :: "js_number \<Rightarrow> bool" where
  "js_finite (JFin i) = True"
| "js_finite _ = False"

fun js_lt :: "js_number \<Rightarrow> js_number \<Rightarrow> bool" where
  "js_lt (JFin a) (JFin b) = (a < b)"
| "js_lt (JFin _) JPosInf = True"
| "js_lt JNegInf (JFin _) = True"
| "js_lt JNegInf JPosInf = True"
| "js_lt _ _ = False"

fun js_num_eq :: "js_number \<Rightarrow> js_number \<Rightarrow> bool" where
  "js_num_eq (JFin a) (JFin b) = (a = b)"
| "js_num_eq JPosInf JPosInf = True"
| "js_num_eq JNegInf JNegInf = True"
| "js_num_eq _ _ = False"

text \<open>\<open>Math.max(a, b)\<close>: \<open>NaN\<close> when either argument is.\<close>

definition js_max :: "js_number \<Rightarrow> js_number \<Rightarrow> js_number" where
  "js_max a b = (if a = JNaN \<or> b = JNaN then JNaN else if js_lt a b then b else a)"

lemma js_finiteE: "js_finite n \<Longrightarrow> (\<And>i. n = JFin i \<Longrightarrow> P) \<Longrightarrow> P"
  by (cases n) auto

lemma js_max_finite [simp]: "js_max (JFin a) (JFin b) = JFin (max a b)"
  by (simp add: js_max_def max_def)

section \<open>Values\<close>

datatype json =
  JUndefined
| JNull
| JBool bool
| JNum js_number
| JStr string
| JArr "json list"
| JObj "(string \<times> json) list"

fun is_record :: "json \<Rightarrow> bool" where
  "is_record (JObj _) = True"
| "is_record _ = False"

fun is_jstr :: "json \<Rightarrow> bool" where
  "is_jstr (JStr _) = True"
| "is_jstr _ = False"

fun is_jarr :: "json \<Rightarrow> bool" where
  "is_jarr (JArr _) = True"
| "is_jarr _ = False"

fun jitems :: "json \<Rightarrow> json list" where
  "jitems (JArr xs) = xs"
| "jitems _ = []"

fun jmembers :: "json \<Rightarrow> (string \<times> json) list" where
  "jmembers (JObj kvs) = kvs"
| "jmembers _ = []"

text \<open>Reading a member of an object; a missing one is \<open>undefined\<close>.\<close>

definition jget :: "json \<Rightarrow> string \<Rightarrow> json" where
  "jget v k = (case map_of (jmembers v) k of None \<Rightarrow> JUndefined | Some x \<Rightarrow> x)"

definition jhas :: "json \<Rightarrow> string \<Rightarrow> bool" where
  "jhas v k \<longleftrightarrow> map_of (jmembers v) k \<noteq> None"

text \<open>\<open>{ ...v, [k]: x }\<close>: the member keeps its place, a new one goes to the end.\<close>

definition jset :: "json \<Rightarrow> string \<Rightarrow> json \<Rightarrow> json" where
  "jset v k x = JObj (AList.update k x (jmembers v))"

text \<open>\<open>a ?? b\<close>\<close>

definition jnullish :: "json \<Rightarrow> json \<Rightarrow> json" where
  "jnullish a b = (if a = JUndefined \<or> a = JNull then b else a)"

fun jfinite :: "json \<Rightarrow> bool" where
  "jfinite (JNum n) = js_finite n"
| "jfinite _ = False"

fun jtruthy :: "json \<Rightarrow> bool" where
  "jtruthy JUndefined = False"
| "jtruthy JNull = False"
| "jtruthy (JBool b) = b"
| "jtruthy (JNum n) = (n \<noteq> JNaN \<and> n \<noteq> JFin 0)"
| "jtruthy (JStr s) = (s \<noteq> [])"
| "jtruthy _ = True"

text \<open>A member that is only written when it has a value: \<open>...(x ? { k: x } : {})\<close>.\<close>

definition opt_member :: "string \<Rightarrow> ('a \<Rightarrow> json) \<Rightarrow> 'a option \<Rightarrow> (string \<times> json) list" where
  "opt_member k f x = (case x of None \<Rightarrow> [] | Some v \<Rightarrow> [(k, f v)])"

text \<open>The keys of a value, at any depth.\<close>

inductive key_in :: "string \<Rightarrow> json \<Rightarrow> bool" where
  key_here: "(k, v) \<in> set kvs \<Longrightarrow> key_in k (JObj kvs)"
| key_member: "(k', v) \<in> set kvs \<Longrightarrow> key_in k v \<Longrightarrow> key_in k (JObj kvs)"
| key_item: "x \<in> set xs \<Longrightarrow> key_in k x \<Longrightarrow> key_in k (JArr xs)"

inductive_simps key_in_simps [simp]:
  "key_in k (JObj kvs)" "key_in k (JArr xs)" "key_in k (JStr s)" "key_in k (JNum n)" "key_in k (JBool b)"
  "key_in k JNull" "key_in k JUndefined"

lemma jget_obj [simp]: "jget (JObj kvs) k = (case map_of kvs k of None \<Rightarrow> JUndefined | Some x \<Rightarrow> x)"
  by (simp add: jget_def)

lemma jget_jset [simp]: "jget (jset v k x) k' = (if k' = k then x else jget v k')"
  by (simp add: jget_def jset_def update_conv' fun_upd_def)

lemma jhas_jset [simp]: "jhas (jset v k x) k' \<longleftrightarrow> k' = k \<or> jhas v k'"
  by (simp add: jhas_def jset_def update_conv')

lemma is_record_jset [simp]: "is_record (jset v k x)"
  by (simp add: jset_def)

lemma opt_member_simps [simp]:
  "opt_member k f None = []" "opt_member k f (Some v) = [(k, f v)]"
  by (simp_all add: opt_member_def)

lemma map_of_opt_member [simp]:
  "map_of (opt_member k f x @ kvs) k' = (if k' = k \<and> x \<noteq> None then Some (f (the x)) else map_of kvs k')"
  "map_of (opt_member k f x) k' = (if k' = k \<and> x \<noteq> None then Some (f (the x)) else None)"
  by (cases x; auto)+

declare map_of_append [simp del]

section \<open>Comparators\<close>

text \<open>\<open>f(a) - f(b) || c(a, b)\<close>\<close>

definition cmp_lex :: "('a \<Rightarrow> int) \<Rightarrow> ('a \<Rightarrow> 'a \<Rightarrow> int) \<Rightarrow> 'a \<Rightarrow> 'a \<Rightarrow> int" where
  "cmp_lex f c a b = (if f a - f b \<noteq> 0 then f a - f b else c a b)"

lemma cmp_lex_le: "cmp_lex f c a b \<le> 0 \<longleftrightarrow> f a < f b \<or> f a = f b \<and> c a b \<le> 0"
  by (auto simp: cmp_lex_def)

lemma cmp_lex_preorder:
  assumes "cmp_total_preorder c"
  shows "cmp_total_preorder (cmp_lex f c)"
  unfolding cmp_total_preorder_def cmp_lex_le
proof (intro conjI allI impI)
  fix a b
  have "c a b \<le> 0 \<or> c b a \<le> 0" using assms unfolding cmp_total_preorder_def by blast
  then show "(f a < f b \<or> f a = f b \<and> c a b \<le> 0) \<or> (f b < f a \<or> f b = f a \<and> c b a \<le> 0)"
    by linarith
next
  fix x y z
  assume xy: "f x < f y \<or> f x = f y \<and> c x y \<le> 0" and yz: "f y < f z \<or> f y = f z \<and> c y z \<le> 0"
  have "c x y \<le> 0 \<Longrightarrow> c y z \<le> 0 \<Longrightarrow> c x z \<le> 0"
    using assms unfolding cmp_total_preorder_def by blast
  then show "f x < f z \<or> f x = f z \<and> c x z \<le> 0" using xy yz by linarith
qed

lemma cmp_comap_preorder: "cmp_total_preorder c \<Longrightarrow> cmp_total_preorder (\<lambda>a b. c (g a) (g b))"
  unfolding cmp_total_preorder_def by blast

lemma cmp_diff_preorder: "cmp_total_preorder (\<lambda>a b. f a - (f b :: int))"
  by (auto simp: cmp_total_preorder_def)

section \<open>Sequences of events\<close>

text \<open>
  What a component that reduces a stream of events promises: an invariant of its state, kept by every
  admissible event, and a preorder along which every admissible event moves the state.  Then
  the same holds for a whole stream, and between any two of its prefixes.
\<close>

locale event_reducer =
  fixes reduce :: "'s \<Rightarrow> 'e \<Rightarrow> 's"
    and admissible :: "'e \<Rightarrow> bool"
    and inv :: "'s \<Rightarrow> bool"
    and advances :: "'s \<Rightarrow> 's \<Rightarrow> bool"
  assumes reduce_inv: "inv s \<Longrightarrow> admissible e \<Longrightarrow> inv (reduce s e)"
    and reduce_advances: "inv s \<Longrightarrow> admissible e \<Longrightarrow> advances s (reduce s e)"
    and advances_refl: "advances s s"
    and advances_trans: "advances s t \<Longrightarrow> advances t u \<Longrightarrow> advances s u"
begin

lemma stream_inv: "inv s \<Longrightarrow> list_all admissible es \<Longrightarrow> inv (foldl reduce s es)"
  by (induction es arbitrary: s) (auto intro: reduce_inv)

lemma stream_advances: "inv s \<Longrightarrow> list_all admissible es \<Longrightarrow> advances s (foldl reduce s es)"
proof (induction es arbitrary: s)
  case Nil
  then show ?case by (simp add: advances_refl)
next
  case (Cons e es)
  then have "inv s" "admissible e" and es: "list_all admissible es" by auto
  then have "advances s (reduce s e)" "inv (reduce s e)" by (auto intro: reduce_advances reduce_inv)
  moreover have "advances (reduce s e) (foldl reduce (reduce s e) es)"
    using Cons.IH calculation(2) es by blast
  ultimately show ?case by (auto intro: advances_trans)
qed

lemma prefix_advances:
  assumes "inv s" and "list_all admissible (es @ fs)"
  shows "advances (foldl reduce s es) (foldl reduce s (es @ fs))"
proof -
  have "inv (foldl reduce s es)" using assms by (auto intro: stream_inv)
  then show ?thesis using assms stream_advances [of "foldl reduce s es" fs] by simp
qed

end

end
