(* ===== verification/TransportQueue.thy ===== *)
theory TransportQueue
  imports JsValue
begin

text \<open>
  The client's view of a session's message queue, \<open>src/shared/transport-queue-types.ts\<close> and
  \<open>src/shared/transport-queue-reducer.ts\<close>: snapshots, deliveries, failures and resets of a queue that
  lives in the daemon arrive in any order and more than once; the reducer keeps one epoch with one
  authority, never goes back in version, and remembers what was delivered.
  \<open>String.prototype.localeCompare\<close> is the parameter \<open>lc\<close> of the definitions that sort.
\<close>

section \<open>Entries\<close>

datatype queue_entry_status =
  Qs_queued | Qs_handoff_inflight | Qs_dispatching | Qs_failed | Qs_expired | Qs_capacity_evicted
| Qs_cancelled | Qs_sent | Qs_deleted | Qs_dismissed | Qs_session_removed

datatype queue_placement = Place_normal | Place_front

datatype queue_supervision_reference =
  Exact_integration string string string
| Implementation_blocker string string string string

datatype queue_drop_reason =
  Qd_expired | Qd_stale_expired | Qd_superseded | Qd_capacity_evicted | Qd_user_cleared | Qd_user_stopped
| Qd_session_removed | Qd_private_material_missing

datatype queue_failure_reason =
  Qf_dispatch_failed | Qf_expired | Qf_capacity_evicted | Qf_cancelled | Qf_private_material_missing
| Qf_sqlite_degraded

datatype activity_generation = Gen_number int | Gen_string string

record queue_shared_actor =
  qa_actorId :: "string option"
  qa_displayName :: "string option"
  qa_role :: "string option"
  qa_type :: "string option"
  qa_avatarUrl :: "string option"
  qa_color :: "string option"

record queue_attachment =
  qt_attachmentId :: string
  qt_filename :: "string option"
  qt_mimeType :: "string option"
  qt_size :: "js_number option"

record queue_delivery_policy =
  qd_deliveryMode :: "string option"
  qd_appendFallbackReason :: "string option"

record queue_projection_entry =
  qp_policy :: queue_delivery_policy
  qp_clientMessageId :: string
  qp_text :: string
  qp_status :: queue_entry_status
  qp_placement :: queue_placement
  qp_ordinal :: int
  qp_createdAt :: int
  qp_updatedAt :: int
  qp_commandId :: "string option"
  qp_activityGeneration :: "activity_generation option"
  qp_replacesClientMessageId :: "string option"
  qp_failureReason :: "queue_failure_reason option"
  qp_dropReason :: "queue_drop_reason option"
  qp_attachments :: "queue_attachment list option"
  qp_sharedActor :: "queue_shared_actor option"
  qp_supervisionReference :: "queue_supervision_reference option"

definition live_queue_entry_statuses :: "queue_entry_status list" where
  "live_queue_entry_statuses = [Qs_queued, Qs_handoff_inflight, Qs_dispatching]"

definition failed_queue_entry_statuses :: "queue_entry_status list" where
  "failed_queue_entry_statuses = [Qs_failed, Qs_expired, Qs_capacity_evicted, Qs_cancelled]"

text \<open>The reset reason of an event is the string on the wire: the reducer checks that it knows it.\<close>

definition queue_reset_reasons :: "string list" where
  "queue_reset_reasons =
     [''sqlite_restore'', ''runtime_recreated'', ''user_clear'', ''authority_corrupt_reinitialized'']"

section \<open>Events\<close>

record queue_snapshot =
  sn_sessionName :: string
  sn_queueEpoch :: string
  sn_queueAuthorityId :: string
  sn_version :: js_number
  sn_pending :: "queue_projection_entry list"
  sn_failed :: "queue_projection_entry list"
  sn_source :: string
  sn_resetReason :: "string option"
  sn_dropReason :: "queue_drop_reason option"
  sn_activityGeneration :: "activity_generation option"
  sn_degraded :: "bool option"
  sn_degradedReason :: "string option"

record queue_delivery_fact =
  df_sessionName :: string
  df_clientMessageId :: string
  df_queueEpoch :: string
  df_queueAuthorityId :: string
  df_version :: js_number
  df_deliveryFrameId :: string
  df_deliveryFrameVersion :: js_number
  df_activityGeneration :: "activity_generation option"
  df_providerEventId :: "string option"

record queue_mutation_receipt =
  mr_sessionName :: string
  mr_commandId :: string
  mr_accepted :: bool
  mr_reason :: "string option"

record queue_failure_event =
  fe_sessionName :: string
  fe_queueEpoch :: string
  fe_queueAuthorityId :: string
  fe_version :: js_number
  fe_clientMessageId :: string
  fe_failureReason :: "queue_failure_reason option"
  fe_dropReason :: "queue_drop_reason option"

record queue_reset_event =
  re_sessionName :: string
  re_queueEpoch :: string
  re_queueAuthorityId :: string
  re_version :: js_number
  re_resetReason :: string

datatype queue_event =
  Ev_snapshot queue_snapshot
| Ev_delivery queue_delivery_fact
| Ev_receipt queue_mutation_receipt
| Ev_failure queue_failure_event
| Ev_reset queue_reset_event
| Ev_other string

section \<open>The reducer\<close>

record queue_state =
  rq_sessionName :: "string option"
  rq_queueEpoch :: "string option"
  rq_queueAuthorityId :: "string option"
  rq_version :: "js_number option"
  rq_pending :: "queue_projection_entry list"
  rq_failed :: "queue_projection_entry list"
  rq_tombstones :: "string set"
  rq_receipts :: "string \<Rightarrow> queue_mutation_receipt option"
  rq_degraded :: "string list"

definition createTransportQueueReducerState :: "string option \<Rightarrow> queue_state" where
  "createTransportQueueReducerState name =
    \<lparr>rq_sessionName = (if truthy name then name else None), rq_queueEpoch = None, rq_queueAuthorityId = None,
     rq_version = None, rq_pending = [], rq_failed = [], rq_tombstones = {}, rq_receipts = Map.empty,
     rq_degraded = []\<rparr>"

definition entry_cmp ::
  "(string \<Rightarrow> string \<Rightarrow> int) \<Rightarrow> queue_projection_entry \<Rightarrow> queue_projection_entry \<Rightarrow> int" where
  "entry_cmp lc a b =
    (if qp_placement a \<noteq> qp_placement b then (if qp_placement a = Place_front then -1 else 1)
     else if qp_ordinal a - qp_ordinal b \<noteq> 0 then qp_ordinal a - qp_ordinal b
     else if qp_createdAt a - qp_createdAt b \<noteq> 0 then qp_createdAt a - qp_createdAt b
     else lc (qp_clientMessageId a) (qp_clientMessageId b))"

definition sortEntries ::
  "(string \<Rightarrow> string \<Rightarrow> int) \<Rightarrow> queue_projection_entry list \<Rightarrow> queue_projection_entry list" where
  "sortEntries lc = js_sort_by (entry_cmp lc)"

definition tombstoneKey :: "string \<Rightarrow> string \<Rightarrow> string" where
  "tombstoneKey epoch clientMessageId = epoch @ CHR '':'' # clientMessageId"

definition hasBaseline :: "queue_state \<Rightarrow> bool" where
  "hasBaseline s \<longleftrightarrow> truthy (rq_queueEpoch s) \<and> truthy (rq_queueAuthorityId s) \<and> rq_version s \<noteq> None"

definition withDegraded :: "queue_state \<Rightarrow> string \<Rightarrow> queue_state" where
  "withDegraded s reason = s\<lparr>rq_degraded := rq_degraded s @ [reason]\<rparr>"

text \<open>\<open>None\<close> is the \<open>true\<close> of the code, \<open>Some\<close> the reason of the refusal.\<close>

definition canApplySnapshot ::
  "queue_state \<Rightarrow> string \<Rightarrow> string \<Rightarrow> js_number \<Rightarrow> string option \<Rightarrow> string option" where
  "canApplySnapshot s epoch authority version resetReason =
    (if epoch = [] \<or> authority = [] \<or> \<not> js_finite version then Some ''missing_epoch_authority_or_version''
     else if \<not> hasBaseline s then None
     else if Some epoch = rq_queueEpoch s \<and> Some authority \<noteq> rq_queueAuthorityId s then
       Some ''same_epoch_authority_mismatch''
     else if Some epoch \<noteq> rq_queueEpoch s \<and> Some authority = rq_queueAuthorityId s then
       Some ''different_epoch_authority_reuse''
     else if Some epoch \<noteq> rq_queueEpoch s then
       (case resetReason of
          Some r \<Rightarrow> if r \<noteq> [] \<and> r \<in> set queue_reset_reasons then None
                    else Some ''cross_epoch_without_recognized_reset''
        | None \<Rightarrow> Some ''cross_epoch_without_recognized_reset'')
     else if js_lt version (the (rq_version s)) then Some ''stale_version''
     else None)"

definition applySnapshot :: "(string \<Rightarrow> string \<Rightarrow> int) \<Rightarrow> queue_state \<Rightarrow> queue_snapshot \<Rightarrow> queue_state" where
  "applySnapshot lc s n =
    (case canApplySnapshot s (sn_queueEpoch n) (sn_queueAuthorityId n) (sn_version n) (sn_resetReason n) of
       Some reason \<Rightarrow> withDegraded s reason
     | None \<Rightarrow>
       (let isNewEpoch = rq_queueEpoch s \<noteq> None \<and> rq_queueEpoch s \<noteq> Some (sn_queueEpoch n);
            tombs = (if isNewEpoch then {} else rq_tombstones s);
            live = sortEntries lc
              (filter (\<lambda>e. tombstoneKey (sn_queueEpoch n) (qp_clientMessageId e) \<notin> tombs)
                (filter (\<lambda>e. qp_status e \<in> set live_queue_entry_statuses) (sn_pending n)));
            failed = sortEntries lc (filter (\<lambda>e. qp_status e \<in> set failed_queue_entry_statuses) (sn_failed n))
        in s\<lparr>rq_sessionName := Some (sn_sessionName n), rq_queueEpoch := Some (sn_queueEpoch n),
             rq_queueAuthorityId := Some (sn_queueAuthorityId n), rq_version := Some (sn_version n),
             rq_pending := live, rq_failed := failed, rq_tombstones := tombs\<rparr>))"

definition applyDelivery :: "queue_state \<Rightarrow> queue_delivery_fact \<Rightarrow> queue_state" where
  "applyDelivery s d =
    (if \<not> hasBaseline s then withDegraded s ''delivery_without_baseline''
     else if Some (df_queueEpoch d) \<noteq> rq_queueEpoch s \<or> Some (df_queueAuthorityId d) \<noteq> rq_queueAuthorityId s then
       withDegraded s ''delivery_epoch_or_authority_mismatch''
     else s\<lparr>rq_version := Some (js_max (the (rq_version s)) (df_version d)),
       rq_pending := filter (\<lambda>e. qp_clientMessageId e \<noteq> df_clientMessageId d) (rq_pending s),
       rq_failed := filter (\<lambda>e. qp_clientMessageId e \<noteq> df_clientMessageId d) (rq_failed s),
       rq_tombstones := insert (tombstoneKey (df_queueEpoch d) (df_clientMessageId d)) (rq_tombstones s)\<rparr>)"

definition applyReset :: "queue_state \<Rightarrow> queue_reset_event \<Rightarrow> queue_state" where
  "applyReset s r =
    (case canApplySnapshot s (re_queueEpoch r) (re_queueAuthorityId r) (re_version r) (Some (re_resetReason r)) of
       Some reason \<Rightarrow> withDegraded s reason
     | None \<Rightarrow> s\<lparr>rq_sessionName := Some (re_sessionName r), rq_queueEpoch := Some (re_queueEpoch r),
         rq_queueAuthorityId := Some (re_queueAuthorityId r), rq_version := Some (re_version r),
         rq_pending := [], rq_failed := [], rq_tombstones := {}\<rparr>)"

definition applyFailure :: "queue_state \<Rightarrow> queue_failure_event \<Rightarrow> queue_state" where
  "applyFailure s f =
    (if \<not> hasBaseline s \<or> Some (fe_queueEpoch f) \<noteq> rq_queueEpoch s \<or>
        Some (fe_queueAuthorityId f) \<noteq> rq_queueAuthorityId s then
       withDegraded s ''failure_epoch_or_authority_mismatch''
     else s\<lparr>rq_version := Some (js_max (the (rq_version s)) (fe_version f)),
       rq_pending := filter (\<lambda>e. qp_clientMessageId e \<noteq> fe_clientMessageId f) (rq_pending s),
       rq_tombstones := insert (tombstoneKey (fe_queueEpoch f) (fe_clientMessageId f)) (rq_tombstones s)\<rparr>)"

definition reduceTransportQueueEvent ::
  "(string \<Rightarrow> string \<Rightarrow> int) \<Rightarrow> queue_state \<Rightarrow> queue_event \<Rightarrow> queue_state" where
  "reduceTransportQueueEvent lc s ev =
    (case ev of
       Ev_snapshot n \<Rightarrow> applySnapshot lc s n
     | Ev_delivery d \<Rightarrow> applyDelivery s d
     | Ev_reset r \<Rightarrow> applyReset s r
     | Ev_receipt m \<Rightarrow> s\<lparr>rq_receipts := (rq_receipts s)(mr_commandId m \<mapsto> m)\<rparr>
     | Ev_failure f \<Rightarrow> applyFailure s f
     | Ev_other _ \<Rightarrow> s)"

definition selectLiveQueueEntries :: "queue_state \<Rightarrow> queue_projection_entry list" where
  "selectLiveQueueEntries s = rq_pending s"

definition selectFailedQueueEntries :: "queue_state \<Rightarrow> queue_projection_entry list" where
  "selectFailedQueueEntries s = rq_failed s"

definition selectLiveQueueCount :: "queue_state \<Rightarrow> nat" where
  "selectLiveQueueCount s = length (rq_pending s)"

definition selectSessionHasLiveQueue :: "queue_state \<Rightarrow> bool" where
  "selectSessionHasLiveQueue s \<longleftrightarrow> selectLiveQueueCount s > 0"

definition selectReceipt :: "queue_state \<Rightarrow> string \<Rightarrow> queue_mutation_receipt option" where
  "selectReceipt s commandId = rq_receipts s commandId"

section \<open>The invariant of the client's queue\<close>

lemma tombstoneKey_inj [simp]: "tombstoneKey e a = tombstoneKey e b \<longleftrightarrow> a = b"
  by (simp add: tombstoneKey_def)

definition queue_ok :: "queue_state \<Rightarrow> bool" where
  "queue_ok s \<longleftrightarrow>
     (\<forall>e \<in> set (rq_pending s). qp_status e \<in> set live_queue_entry_statuses) \<and>
     (\<forall>e \<in> set (rq_failed s). qp_status e \<in> set failed_queue_entry_statuses) \<and>
     (case rq_queueEpoch s of
        None \<Rightarrow> rq_queueAuthorityId s = None \<and> rq_version s = None \<and> rq_pending s = [] \<and> rq_failed s = [] \<and>
          rq_tombstones s = {}
      | Some ep \<Rightarrow> hasBaseline s \<and> (\<forall>e \<in> set (rq_pending s). tombstoneKey ep (qp_clientMessageId e) \<notin> rq_tombstones s))"

lemma queue_ok_create [simp]: "queue_ok (createTransportQueueReducerState n)"
  by (simp add: queue_ok_def createTransportQueueReducerState_def)

lemma withDegraded_fields [simp]:
  "rq_sessionName (withDegraded s r) = rq_sessionName s" "rq_queueEpoch (withDegraded s r) = rq_queueEpoch s"
  "rq_queueAuthorityId (withDegraded s r) = rq_queueAuthorityId s" "rq_version (withDegraded s r) = rq_version s"
  "rq_pending (withDegraded s r) = rq_pending s" "rq_failed (withDegraded s r) = rq_failed s"
  "rq_tombstones (withDegraded s r) = rq_tombstones s" "rq_receipts (withDegraded s r) = rq_receipts s"
  by (simp_all add: withDegraded_def)

lemma hasBaseline_withDegraded [simp]: "hasBaseline (withDegraded s r) = hasBaseline s"
  by (simp add: hasBaseline_def)

lemma queue_ok_withDegraded [simp]: "queue_ok (withDegraded s r) = queue_ok s"
  by (simp add: queue_ok_def cong: option.case_cong)

lemma canApply_baseline:
  "canApplySnapshot s ep au v r = None \<Longrightarrow> ep \<noteq> [] \<and> au \<noteq> [] \<and> js_finite v"
  by (auto simp: canApplySnapshot_def split: if_splits)

lemma set_sortEntries [simp]: "set (sortEntries lc es) = set es"
  by (simp add: sortEntries_def)

lemma queue_ok_baseline: "queue_ok s \<Longrightarrow> rq_queueEpoch s = Some ep \<Longrightarrow> hasBaseline s"
  by (simp add: queue_ok_def)

lemma applySnapshot_ok: "queue_ok s \<Longrightarrow> queue_ok (applySnapshot lc s n)"
  using canApply_baseline [of s "sn_queueEpoch n" "sn_queueAuthorityId n" "sn_version n" "sn_resetReason n"]
  by (auto simp: applySnapshot_def Let_def split: option.split)
    (auto simp: queue_ok_def hasBaseline_def split: option.splits)

lemma applyReset_ok: "queue_ok s \<Longrightarrow> queue_ok (applyReset s r)"
  using canApply_baseline [of s "re_queueEpoch r" "re_queueAuthorityId r" "re_version r" "Some (re_resetReason r)"]
  by (auto simp: applyReset_def split: option.split) (auto simp: queue_ok_def hasBaseline_def split: option.splits)

lemma applyDelivery_ok: "queue_ok s \<Longrightarrow> queue_ok (applyDelivery s d)"
  by (auto simp: applyDelivery_def) (auto simp: queue_ok_def hasBaseline_def split: option.splits)

lemma applyFailure_ok: "queue_ok s \<Longrightarrow> queue_ok (applyFailure s f)"
  by (auto simp: applyFailure_def) (auto simp: queue_ok_def hasBaseline_def split: option.splits)

lemma reduce_queue_ok: "queue_ok s \<Longrightarrow> queue_ok (reduceTransportQueueEvent lc s ev)"
  by (cases ev)
    (auto simp: reduceTransportQueueEvent_def applySnapshot_ok applyReset_ok applyDelivery_ok applyFailure_ok,
     auto simp: queue_ok_def hasBaseline_def split: option.splits)

section \<open>Streams of ordinary events\<close>

text \<open>
  The events of one epoch: everything but resets and snapshots that carry a recognised reset reason;
  deliveries and failures carry a finite version, as the wire check demands.
\<close>

fun ordinary_event :: "queue_event \<Rightarrow> bool" where
  "ordinary_event (Ev_snapshot n) = (\<forall>r \<in> set_option (sn_resetReason n). r \<notin> set queue_reset_reasons)"
| "ordinary_event (Ev_delivery d) = js_finite (df_version d)"
| "ordinary_event (Ev_failure f) = js_finite (fe_version f)"
| "ordinary_event (Ev_reset r) = False"
| "ordinary_event _ = True"

definition version_le :: "js_number \<Rightarrow> js_number \<Rightarrow> bool" where
  "version_le a b \<longleftrightarrow> (case a of JFin i \<Rightarrow> (case b of JFin j \<Rightarrow> i \<le> j | _ \<Rightarrow> False) | _ \<Rightarrow> True)"

definition queue_advances :: "queue_state \<Rightarrow> queue_state \<Rightarrow> bool" where
  "queue_advances s t \<longleftrightarrow> rq_queueEpoch s = None \<or>
     (rq_queueEpoch t = rq_queueEpoch s \<and> rq_queueAuthorityId t = rq_queueAuthorityId s \<and>
      version_le (the (rq_version s)) (the (rq_version t)) \<and> rq_tombstones s \<subseteq> rq_tombstones t)"

lemma version_le_refl [simp]: "version_le a a"
  by (simp add: version_le_def split: js_number.split)

lemma version_le_trans: "version_le a b \<Longrightarrow> version_le b c \<Longrightarrow> version_le a c"
  by (auto simp: version_le_def split: js_number.splits)

lemma version_le_max: "js_finite v \<Longrightarrow> version_le a (js_max a v)"
  by (auto simp: version_le_def elim!: js_finiteE split: js_number.split)

lemma version_le_not_lt: "js_finite v \<Longrightarrow> \<not> js_lt v a \<Longrightarrow> version_le a v"
  by (auto simp: version_le_def elim!: js_finiteE split: js_number.split)

lemma canApply_ordinary:
  assumes "canApplySnapshot s ep au v r = None" and "hasBaseline s"
    and "\<forall>x \<in> set_option r. x \<notin> set queue_reset_reasons"
  shows "rq_queueEpoch s = Some ep \<and> rq_queueAuthorityId s = Some au \<and> version_le (the (rq_version s)) v"
  using assms by (auto simp: canApplySnapshot_def intro: version_le_not_lt split: if_splits option.splits)

lemma reduce_queue_advances:
  assumes "queue_ok s" and "ordinary_event ev"
  shows "queue_advances s (reduceTransportQueueEvent lc s ev)"
proof (cases "rq_queueEpoch s")
  case None
  then show ?thesis by (simp add: queue_advances_def)
next
  case (Some ep)
  then have b: "hasBaseline s" using assms(1) by (auto intro: queue_ok_baseline)
  show ?thesis
  proof (cases ev)
    case (Ev_snapshot n)
    then show ?thesis
      using assms(2) canApply_ordinary [OF _ b, of "sn_queueEpoch n" "sn_queueAuthorityId n" "sn_version n" "sn_resetReason n"]
      by (auto simp: reduceTransportQueueEvent_def applySnapshot_def Let_def queue_advances_def split: option.split)
  qed (use assms(2) in \<open>auto simp: reduceTransportQueueEvent_def applyDelivery_def applyFailure_def queue_advances_def
      version_le_max\<close>)
qed

interpretation queue_stream: event_reducer "reduceTransportQueueEvent lc" ordinary_event queue_ok queue_advances for lc
proof unfold_locales
  show "queue_advances s t \<Longrightarrow> queue_advances t u \<Longrightarrow> queue_advances s u" for s t u
    by (auto simp: queue_advances_def intro: version_le_trans)
  show "queue_advances s s" for s by (simp add: queue_advances_def)
qed (auto intro: reduce_queue_ok reduce_queue_advances)

interpretation queue_any: event_reducer "reduceTransportQueueEvent lc" "\<lambda>_. True" queue_ok "\<lambda>_ _. True" for lc
  by unfold_locales (auto simp: reduce_queue_ok)

definition queue_after :: "(string \<Rightarrow> string \<Rightarrow> int) \<Rightarrow> string option \<Rightarrow> queue_event list \<Rightarrow> queue_state" where
  "queue_after lc name evs = foldl (reduceTransportQueueEvent lc) (createTransportQueueReducerState name) evs"

lemma queue_after_ok: "queue_ok (queue_after lc n evs)"
  unfolding queue_after_def by (rule queue_any.stream_inv) (simp_all add: list_all_iff)

section \<open>Properties\<close>

lemma queue_after_append: "queue_after lc n (hist @ es) = foldl (reduceTransportQueueEvent lc) (queue_after lc n hist) es"
  by (simp add: queue_after_def)

text \<open>Deliveries and failures end a message: its epoch, authority and id.\<close>

fun terminal_of :: "queue_event \<Rightarrow> (string \<times> string \<times> string) option" where
  "terminal_of (Ev_delivery d) = Some (df_queueEpoch d, df_queueAuthorityId d, df_clientMessageId d)"
| "terminal_of (Ev_failure f) = Some (fe_queueEpoch f, fe_queueAuthorityId f, fe_clientMessageId f)"
| "terminal_of _ = None"

lemma reduce_terminal:
  assumes "queue_ok s" and "terminal_of ev = Some (ep, au, m)"
    and "rq_queueEpoch s = Some ep" and "rq_queueAuthorityId s = Some au"
  shows "rq_queueEpoch (reduceTransportQueueEvent lc s ev) = Some ep \<and>
    tombstoneKey ep m \<in> rq_tombstones (reduceTransportQueueEvent lc s ev)"
  using assms queue_ok_baseline [OF assms(1,3)]
  by (cases ev) (auto simp: reduceTransportQueueEvent_def applyDelivery_def applyFailure_def)

text \<open>
  C21. A message that was delivered or has failed in the client's epoch is not in the live queue again,
  whatever ordinary events follow: late and repeated snapshots included.
\<close>

theorem delivered_never_resurrected:
  assumes "terminal_of ev = Some (ep, au, m)"
    and "rq_queueEpoch (queue_after lc name hist) = Some ep"
    and "rq_queueAuthorityId (queue_after lc name hist) = Some au"
    and "list_all ordinary_event es"
  shows "m \<notin> qp_clientMessageId ` set (selectLiveQueueEntries (queue_after lc name (hist @ ev # es)))"
proof -
  let ?s = "reduceTransportQueueEvent lc (queue_after lc name hist) ev"
  let ?t = "foldl (reduceTransportQueueEvent lc) ?s es"
  have ok: "queue_ok ?s" by (intro reduce_queue_ok queue_after_ok)
  have k: "rq_queueEpoch ?s = Some ep" "tombstoneKey ep m \<in> rq_tombstones ?s"
    using reduce_terminal [OF queue_after_ok assms(1-3)] by auto
  have "queue_advances ?s ?t" by (rule queue_stream.stream_advances [OF ok assms(4)])
  then have "rq_queueEpoch ?t = Some ep" "tombstoneKey ep m \<in> rq_tombstones ?t"
    using k by (auto simp: queue_advances_def)
  moreover have "queue_ok ?t" by (rule queue_stream.stream_inv [OF ok assms(4)])
  ultimately have "m \<notin> qp_clientMessageId ` set (rq_pending ?t)"
    by (auto simp: queue_ok_def)
  then show ?thesis by (simp add: queue_after_append selectLiveQueueEntries_def)
qed

definition sample_queue_entry :: "string \<Rightarrow> int \<Rightarrow> queue_projection_entry" where
  "sample_queue_entry m n = \<lparr>qp_policy = \<lparr>qd_deliveryMode = None, qd_appendFallbackReason = None\<rparr>,
     qp_clientMessageId = m, qp_text = ''hi'', qp_status = Qs_queued, qp_placement = Place_normal, qp_ordinal = n,
     qp_createdAt = 0, qp_updatedAt = 0, qp_commandId = None, qp_activityGeneration = None,
     qp_replacesClientMessageId = None, qp_failureReason = None, qp_dropReason = None, qp_attachments = None,
     qp_sharedActor = None, qp_supervisionReference = None\<rparr>"

definition sample_queue_snapshot :: "queue_projection_entry list \<Rightarrow> queue_snapshot" where
  "sample_queue_snapshot es = \<lparr>sn_sessionName = ''s'', sn_queueEpoch = ''e'', sn_queueAuthorityId = ''a'',
     sn_version = JFin 3, sn_pending = es, sn_failed = [], sn_source = [], sn_resetReason = None,
     sn_dropReason = None, sn_activityGeneration = None, sn_degraded = None, sn_degradedReason = None\<rparr>"

definition sample_delivery :: "string \<Rightarrow> queue_delivery_fact" where
  "sample_delivery m = \<lparr>df_sessionName = ''s'', df_clientMessageId = m, df_queueEpoch = ''e'',
     df_queueAuthorityId = ''a'', df_version = JFin 4, df_deliveryFrameId = ''f'', df_deliveryFrameVersion = JFin 1,
     df_activityGeneration = None, df_providerEventId = None\<rparr>"

lemma sample_queue_after:
  "rq_queueEpoch (queue_after lc None [Ev_snapshot (sample_queue_snapshot es)]) = Some ''e''"
  "rq_queueAuthorityId (queue_after lc None [Ev_snapshot (sample_queue_snapshot es)]) = Some ''a''"
  by (simp_all add: queue_after_def reduceTransportQueueEvent_def applySnapshot_def canApplySnapshot_def
      hasBaseline_def createTransportQueueReducerState_def sample_queue_snapshot_def Let_def)

lemma sample_snapshot_ordinary [simp]: "ordinary_event (Ev_snapshot (sample_queue_snapshot es))"
  by (simp add: sample_queue_snapshot_def)

lemma sample_terminal [simp]: "terminal_of (Ev_delivery (sample_delivery m)) = Some (''e'', ''a'', m)"
  by (simp add: sample_delivery_def)

theorem delivered_never_resurrected_witness:
  "''m'' \<notin> qp_clientMessageId ` set (selectLiveQueueEntries (queue_after (\<lambda>_ _. 0) None
     ([Ev_snapshot (sample_queue_snapshot [sample_queue_entry ''m'' 1])] @ Ev_delivery (sample_delivery ''m'') #
      [Ev_snapshot (sample_queue_snapshot [sample_queue_entry ''m'' 1])])))"
  by (rule delivered_never_resurrected [where ep = "''e''" and au = "''a''"])
    (simp_all add: sample_queue_after del: terminal_of.simps ordinary_event.simps)

text \<open>
  Within an epoch the client never goes back: along any stream of ordinary events the epoch and its authority
  stay, the version does not decrease, and a message once ended stays ended.
\<close>

theorem queue_never_goes_back:
  assumes "list_all ordinary_event es" and "rq_queueEpoch (queue_after lc name hist) = Some ep"
  shows "rq_queueEpoch (queue_after lc name (hist @ es)) = Some ep \<and>
    rq_queueAuthorityId (queue_after lc name (hist @ es)) = rq_queueAuthorityId (queue_after lc name hist) \<and>
    version_le (the (rq_version (queue_after lc name hist))) (the (rq_version (queue_after lc name (hist @ es)))) \<and>
    rq_tombstones (queue_after lc name hist) \<subseteq> rq_tombstones (queue_after lc name (hist @ es))"
  using queue_stream.stream_advances [OF queue_after_ok assms(1), of lc name hist] assms(2)
  by (simp add: queue_after_append queue_advances_def)

theorem queue_never_goes_back_witness:
  "version_le (the (rq_version (queue_after (\<lambda>_ _. 0) None [Ev_snapshot (sample_queue_snapshot [])])))
     (the (rq_version (queue_after (\<lambda>_ _. 0) None
       ([Ev_snapshot (sample_queue_snapshot [])] @ [Ev_delivery (sample_delivery ''m'')]))))"
proof -
  have "list_all ordinary_event [Ev_delivery (sample_delivery ''m'')]" by (simp add: sample_delivery_def)
  from queue_never_goes_back [OF this sample_queue_after(1), of "\<lambda>_ _. 0" "[]"] show ?thesis by blast
qed

lemma canApply_epoch:
  assumes "canApplySnapshot s ep au v r = None" and "hasBaseline s"
  shows "if Some ep = rq_queueEpoch s then Some au = rq_queueAuthorityId s \<and> \<not> js_lt v (the (rq_version s))
    else Some au \<noteq> rq_queueAuthorityId s \<and> (\<exists>x. r = Some x \<and> x \<in> set queue_reset_reasons)"
  using assms by (auto simp: canApplySnapshot_def split: if_splits option.splits)

text \<open>
  Only a reset can replace the epoch the client follows: if an event changes the epoch of a client that
  has one, the event is a reset or a snapshot, gives a reset reason the client knows, and comes from
  another authority; and no event changes the authority of an epoch.
\<close>

theorem epoch_change_needs_reset:
  fixes lc name hist ev
  defines "s \<equiv> queue_after lc name hist" and "t \<equiv> queue_after lc name (hist @ [ev])"
  assumes "rq_queueEpoch s = Some ep"
  shows "if rq_queueEpoch t = Some ep then rq_queueAuthorityId t = rq_queueAuthorityId s
    else rq_queueAuthorityId t \<noteq> rq_queueAuthorityId s \<and>
      (case ev of Ev_reset r \<Rightarrow> re_resetReason r \<in> set queue_reset_reasons
       | Ev_snapshot n \<Rightarrow> (\<exists>x. sn_resetReason n = Some x \<and> x \<in> set queue_reset_reasons)
       | _ \<Rightarrow> False)"
proof -
  have ok: "queue_ok s" unfolding s_def by (rule queue_after_ok)
  have b: "hasBaseline s" using ok assms(3) by (rule queue_ok_baseline)
  have t: "t = reduceTransportQueueEvent lc s ev" by (simp add: t_def s_def queue_after_append)
  show ?thesis
  proof (cases ev)
    case (Ev_snapshot n)
    then show ?thesis
      using canApply_epoch [OF _ b, of "sn_queueEpoch n" "sn_queueAuthorityId n" "sn_version n" "sn_resetReason n"] assms(3)
      by (auto simp: t reduceTransportQueueEvent_def applySnapshot_def Let_def split: option.split if_splits)
  next
    case (Ev_reset r)
    then show ?thesis
      using canApply_epoch [OF _ b, of "re_queueEpoch r" "re_queueAuthorityId r" "re_version r" "Some (re_resetReason r)"] assms(3)
      by (auto simp: t reduceTransportQueueEvent_def applyReset_def split: option.split if_splits)
  qed (use assms(3) in \<open>auto simp: t reduceTransportQueueEvent_def applyDelivery_def applyFailure_def\<close>)
qed

theorem epoch_change_needs_reset_witness:
  "rq_queueAuthorityId (queue_after (\<lambda>_ _. 0) None ([Ev_snapshot (sample_queue_snapshot [])] @ [Ev_other []])) = Some ''a''"
proof -
  let ?q = "queue_after (\<lambda>_ _. 0) None"
  have e: "?q ([Ev_snapshot (sample_queue_snapshot [])] @ [Ev_other []]) = ?q [Ev_snapshot (sample_queue_snapshot [])]"
    unfolding queue_after_append by (simp add: reduceTransportQueueEvent_def)
  show ?thesis
    using epoch_change_needs_reset [OF sample_queue_after(1), of "\<lambda>_ _. 0" "[]" "Ev_other []"]
    unfolding e by (simp add: sample_queue_after)
qed

text \<open>
  A snapshot the client accepts shows exactly what it says: its live entries but those already ended in its
  epoch, and its failed entries; receiving it again changes nothing.
\<close>

theorem snapshot_shown_and_idempotent:
  assumes "canApplySnapshot s (sn_queueEpoch n) (sn_queueAuthorityId n) (sn_version n) (sn_resetReason n) = None"
  shows "let t = reduceTransportQueueEvent lc s (Ev_snapshot n) in
    set (selectLiveQueueEntries t) = {e \<in> set (sn_pending n). qp_status e \<in> set live_queue_entry_statuses \<and>
       tombstoneKey (sn_queueEpoch n) (qp_clientMessageId e) \<notin> rq_tombstones t} \<and>
    set (selectFailedQueueEntries t) = {e \<in> set (sn_failed n). qp_status e \<in> set failed_queue_entry_statuses} \<and>
    rq_version t = Some (sn_version n) \<and> rq_degraded t = rq_degraded s \<and>
    reduceTransportQueueEvent lc t (Ev_snapshot n) = t"
proof -
  let ?t = "reduceTransportQueueEvent lc s (Ev_snapshot n)"
  have ne: "sn_queueEpoch n \<noteq> []" "sn_queueAuthorityId n \<noteq> []" "js_finite (sn_version n)"
    using canApply_baseline [OF assms] by auto
  have t: "rq_queueEpoch ?t = Some (sn_queueEpoch n)" "rq_queueAuthorityId ?t = Some (sn_queueAuthorityId n)"
      "rq_version ?t = Some (sn_version n)"
    using assms by (simp_all add: reduceTransportQueueEvent_def applySnapshot_def Let_def)
  have again: "canApplySnapshot ?t (sn_queueEpoch n) (sn_queueAuthorityId n) (sn_version n) (sn_resetReason n) = None"
    using ne t by (auto simp: canApplySnapshot_def hasBaseline_def elim: js_finiteE)
  have "reduceTransportQueueEvent lc ?t (Ev_snapshot n) = ?t"
    using assms again by (simp add: reduceTransportQueueEvent_def applySnapshot_def Let_def)
  then show ?thesis
    using assms by (auto simp: reduceTransportQueueEvent_def applySnapshot_def Let_def selectLiveQueueEntries_def
        selectFailedQueueEntries_def)
qed

theorem snapshot_shown_and_idempotent_witness:
  "set (selectLiveQueueEntries (reduceTransportQueueEvent (\<lambda>_ _. 0) (createTransportQueueReducerState None)
     (Ev_snapshot (sample_queue_snapshot [sample_queue_entry ''m'' 1])))) = {sample_queue_entry ''m'' 1}"
proof -
  let ?n = "sample_queue_snapshot [sample_queue_entry ''m'' 1]"
  have c: "canApplySnapshot (createTransportQueueReducerState None) (sn_queueEpoch ?n) (sn_queueAuthorityId ?n)
      (sn_version ?n) (sn_resetReason ?n) = None"
    by (simp add: canApplySnapshot_def sample_queue_snapshot_def hasBaseline_def createTransportQueueReducerState_def)
  let ?t = "reduceTransportQueueEvent (\<lambda>_ _. 0) (createTransportQueueReducerState None) (Ev_snapshot ?n)"
  have tombs: "rq_tombstones ?t = {}"
    using c by (simp add: reduceTransportQueueEvent_def applySnapshot_def Let_def createTransportQueueReducerState_def)
  have "set (selectLiveQueueEntries ?t) = {e \<in> set (sn_pending ?n). qp_status e \<in> set live_queue_entry_statuses \<and>
      tombstoneKey (sn_queueEpoch ?n) (qp_clientMessageId e) \<notin> rq_tombstones ?t}"
    using snapshot_shown_and_idempotent [OF c, of "\<lambda>_ _. 0"] unfolding Let_def by (elim conjE)
  moreover have "sn_pending ?n = [sample_queue_entry ''m'' 1]" by (simp add: sample_queue_snapshot_def)
  moreover have "qp_status (sample_queue_entry ''m'' 1) \<in> set live_queue_entry_statuses"
    by (simp add: sample_queue_entry_def live_queue_entry_statuses_def)
  ultimately show ?thesis using tombs by auto
qed

lemma entry_cmp_preorder:
  assumes "cmp_total_preorder lc"
  shows "cmp_total_preorder (entry_cmp lc)"
proof -
  have "entry_cmp lc = cmp_lex (\<lambda>e. if qp_placement e = Place_front then 0 else 1)
      (cmp_lex qp_ordinal (cmp_lex qp_createdAt (\<lambda>a b. lc (qp_clientMessageId a) (qp_clientMessageId b))))"
  proof (intro ext)
    fix a b
    show "entry_cmp lc a b = cmp_lex (\<lambda>e. if qp_placement e = Place_front then 0 else 1)
      (cmp_lex qp_ordinal (cmp_lex qp_createdAt (\<lambda>a b. lc (qp_clientMessageId a) (qp_clientMessageId b)))) a b"
      by (cases "qp_placement a"; cases "qp_placement b") (simp_all add: entry_cmp_def cmp_lex_def)
  qed
  then show ?thesis using assms by (simp add: cmp_lex_preorder cmp_comap_preorder)
qed

definition queue_sorted :: "(string \<Rightarrow> string \<Rightarrow> int) \<Rightarrow> queue_state \<Rightarrow> bool" where
  "queue_sorted lc s \<longleftrightarrow> sorted_wrt (\<lambda>a b. entry_cmp lc a b \<le> 0) (rq_pending s) \<and>
     sorted_wrt (\<lambda>a b. entry_cmp lc a b \<le> 0) (rq_failed s)"

lemma reduce_queue_sorted:
  assumes "cmp_total_preorder lc" and "queue_sorted lc s"
  shows "queue_sorted lc (reduceTransportQueueEvent lc s ev)"
  using assms(2) sorted_js_sort_by [OF entry_cmp_preorder [OF assms(1)]]
  by (cases ev)
    (auto simp: reduceTransportQueueEvent_def applySnapshot_def applyReset_def applyDelivery_def applyFailure_def
      queue_sorted_def sortEntries_def withDegraded_def Let_def sorted_wrt_filter split: option.split)

text \<open>
  Whatever arrives, the client shows only live messages as pending and only failed ones as failed, none of the
  pending ones ended in its epoch, and both lists in the order front first, then ordinal, creation
  time and id (for a \<open>localeCompare\<close> that orders strings).
\<close>

theorem queue_view_sound:
  assumes "cmp_total_preorder lc"
  shows "queue_ok (queue_after lc name evs) \<and> queue_sorted lc (queue_after lc name evs)"
proof
  show "queue_sorted lc (queue_after lc name evs)"
    by (induction evs rule: rev_induct)
      (simp_all add: queue_after_append reduce_queue_sorted [OF assms],
       simp add: queue_after_def createTransportQueueReducerState_def queue_sorted_def)
qed (rule queue_after_ok)

theorem queue_view_sound_witness: "queue_ok (queue_after (\<lambda>_ _. 0) None [])"
proof -
  have "cmp_total_preorder (\<lambda>_ _. 0)" by (simp add: cmp_total_preorder_def)
  from queue_view_sound [OF this, of None "[]"] show ?thesis by blast
qed

end
