(* ===== verification/QueueWire.thy ===== *)
theory QueueWire
  imports TransportQueue
begin

text \<open>
  The queue on the wire: \<open>src/shared/transport-queue-privacy.ts\<close> (what of a stored entry may leave the
  daemon), \<open>src/shared/transport-queue-wire.ts\<close> (what a relay or a client accepts) and the delivery
  policy of \<open>src/shared/session-send-delivery.ts\<close>.  Projections are written to JSON as the objects
  the code builds; attachments and actors of a stored entry are untyped values.
\<close>

section \<open>Delivery policy\<close>

definition session_send_delivery_modes :: "string list" where
  "session_send_delivery_modes = [''append'', ''queue'']"

definition transport_append_fallback_reasons :: "string list" where
  "transport_append_fallback_reasons = [''unsupported'', ''attachments_unsupported'', ''control_unsupported'', ''stale'']"

definition known_string :: "string list \<Rightarrow> json \<Rightarrow> string option" where
  "known_string known v = (case v of JStr s \<Rightarrow> if s \<in> set known then Some s else None | _ \<Rightarrow> None)"

definition readQueueDeliveryPolicy :: "json \<Rightarrow> json \<Rightarrow> queue_delivery_policy" where
  "readQueueDeliveryPolicy deliveryMode appendFallbackReason =
    \<lparr>qd_deliveryMode = known_string session_send_delivery_modes deliveryMode,
     qd_appendFallbackReason = known_string transport_append_fallback_reasons appendFallbackReason\<rparr>"

datatype delivery_label = Label_queued | Label_append_pending | Label_append_fallback

definition queuedMessageDeliveryLabelKey :: "json \<Rightarrow> json \<Rightarrow> delivery_label" where
  "queuedMessageDeliveryLabelKey deliveryMode appendFallbackReason =
    (let safe = readQueueDeliveryPolicy deliveryMode appendFallbackReason in
     if qd_appendFallbackReason safe \<noteq> None then Label_append_fallback
     else if qd_deliveryMode safe = Some ''append'' then Label_append_pending else Label_queued)"

section \<open>Projection of stored entries\<close>

record queue_stored_entry =
  qe_deliveryMode :: json
  qe_appendFallbackReason :: json
  qe_sessionName :: string
  qe_queueEpoch :: string
  qe_queueAuthorityId :: string
  qe_clientMessageId :: string
  qe_commandId :: "string option"
  qe_text :: string
  qe_status :: queue_entry_status
  qe_placement :: queue_placement
  qe_ordinal :: int
  qe_createdAt :: int
  qe_updatedAt :: int
  qe_version :: int
  qe_activityGeneration :: "activity_generation option"
  qe_replacesClientMessageId :: "string option"
  qe_failureReason :: "queue_failure_reason option"
  qe_dropReason :: "queue_drop_reason option"
  qe_resetReason :: "string option"
  qe_attachments :: "json list"
  qe_sharedActor :: json
  qe_handoffId :: "string option"
  qe_handoffStartedAt :: "int option"
  qe_handoffExpiresAt :: "int option"
  qe_handoffAttempt :: "int option"
  qe_privateMaterialRef :: "string option"
  qe_supervisionReference :: "queue_supervision_reference option"

definition safeString :: "json \<Rightarrow> nat \<Rightarrow> string option" where
  "safeString v maxLength =
    (case v of
       JStr s \<Rightarrow>
         (let trimmed = js_trim s in
          if trimmed = [] then None
          else Some (if length trimmed > maxLength then take maxLength trimmed else trimmed))
     | _ \<Rightarrow> None)"

definition safeNumber :: "json \<Rightarrow> js_number option" where
  "safeNumber v = (case v of JNum n \<Rightarrow> if js_finite n then Some n else None | _ \<Rightarrow> None)"

definition buildQueueSharedActorProjection :: "json \<Rightarrow> queue_shared_actor option" where
  "buildQueueSharedActorProjection v =
    (if \<not> is_record v then None
     else
       let p = \<lparr>qa_actorId = safeString (jnullish (jget v ''actorId'') (jget v ''id'')) 128,
                qa_displayName = safeString (jnullish (jget v ''displayName'') (jget v ''name'')) 128,
                qa_role = safeString (jget v ''role'') 64,
                qa_type = safeString (jget v ''type'') 64,
                qa_avatarUrl = safeString (jget v ''avatarUrl'') 512,
                qa_color = safeString (jget v ''color'') 64\<rparr>
       in if p = \<lparr>qa_actorId = None, qa_displayName = None, qa_role = None, qa_type = None, qa_avatarUrl = None,
                   qa_color = None\<rparr> then None else Some p)"

definition buildQueueAttachmentProjection :: "json \<Rightarrow> queue_attachment option" where
  "buildQueueAttachmentProjection v =
    (if \<not> is_record v then None
     else case safeString (jnullish (jget v ''attachmentId'') (jget v ''id'')) 256 of
       None \<Rightarrow> None
     | Some i \<Rightarrow> Some \<lparr>qt_attachmentId = i,
         qt_filename = safeString (jnullish (jget v ''filename'') (jget v ''name'')) 256,
         qt_mimeType = safeString (jnullish (jget v ''mimeType'') (jget v ''type'')) 128,
         qt_size = safeNumber (jget v ''size'')\<rparr>)"

definition nonempty_opt :: "string option \<Rightarrow> string option" where
  "nonempty_opt s = (if truthy s then s else None)"

definition buildQueueProjectionEntry :: "queue_stored_entry \<Rightarrow> queue_projection_entry" where
  "buildQueueProjectionEntry e =
    \<lparr>qp_policy = readQueueDeliveryPolicy (qe_deliveryMode e) (qe_appendFallbackReason e),
     qp_clientMessageId = qe_clientMessageId e,
     qp_text = qe_text e,
     qp_status = qe_status e,
     qp_placement = qe_placement e,
     qp_ordinal = qe_ordinal e,
     qp_createdAt = qe_createdAt e,
     qp_updatedAt = qe_updatedAt e,
     qp_commandId = nonempty_opt (qe_commandId e),
     qp_activityGeneration = qe_activityGeneration e,
     qp_replacesClientMessageId = nonempty_opt (qe_replacesClientMessageId e),
     qp_failureReason = qe_failureReason e,
     qp_dropReason = qe_dropReason e,
     qp_attachments =
       (if qe_attachments e \<noteq> [] then Some (List.map_filter buildQueueAttachmentProjection (qe_attachments e)) else None),
     qp_sharedActor = (if jtruthy (qe_sharedActor e) then buildQueueSharedActorProjection (qe_sharedActor e) else None),
     qp_supervisionReference = qe_supervisionReference e\<rparr>"

definition prohibited_queue_fields :: "string list" where
  "prohibited_queue_fields =
    [''messagePreamble'', ''providerText'', ''daemonPath'', ''rawProviderPayload'', ''providerPayload'', ''toolInput'',
     ''toolOutput'', ''env'', ''secret'', ''secrets'', ''rawSessionHistory'', ''rawSharedActorEnvelope'',
     ''sharedActorEnvelope'', ''sharedMachineAuthority'', ''fullChildTranscript'', ''timelineCommitted'',
     ''historyCommitted'', ''privateMaterialRef'', ''providerRouting'']"

text \<open>The walks over a value: a member name anywhere in it.\<close>

fun has_member_in :: "string list \<Rightarrow> json \<Rightarrow> bool" where
  "has_member_in names (JArr xs) = (\<exists>x \<in> set xs. has_member_in names x)"
| "has_member_in names (JObj kvs) = (\<exists>kv \<in> set kvs. fst kv \<in> set names \<or> has_member_in names (snd kv))"
| "has_member_in names _ = False"

definition containsProhibitedQueueProjectionField :: "json \<Rightarrow> bool" where
  "containsProhibitedQueueProjectionField = has_member_in prohibited_queue_fields"

section \<open>The wire check\<close>

definition legacy_live_queue_fields :: "string list" where
  "legacy_live_queue_fields = [''pendingMessages'', ''transportPendingMessages'', ''pendingCount'']"

definition containsLegacyLiveQueueEvidence :: "json \<Rightarrow> bool" where
  "containsLegacyLiveQueueEvidence = has_member_in legacy_live_queue_fields"

definition queue_event_types :: "string list" where
  "queue_event_types = [''transport.queue.snapshot'', ''transport.queue.delivery'', ''transport.queue.receipt'',
     ''transport.queue.failure'', ''transport.queue.reset'']"

definition isTransportQueueEventType :: "json \<Rightarrow> bool" where
  "isTransportQueueEventType t \<longleftrightarrow> (case t of JStr s \<Rightarrow> s \<in> set queue_event_types | _ \<Rightarrow> False)"

fun status_string :: "queue_entry_status \<Rightarrow> string" where
  "status_string Qs_queued = ''queued''"
| "status_string Qs_handoff_inflight = ''handoff_inflight''"
| "status_string Qs_dispatching = ''dispatching''"
| "status_string Qs_failed = ''failed''"
| "status_string Qs_expired = ''expired''"
| "status_string Qs_capacity_evicted = ''capacity_evicted''"
| "status_string Qs_cancelled = ''cancelled''"
| "status_string Qs_sent = ''sent''"
| "status_string Qs_deleted = ''deleted''"
| "status_string Qs_dismissed = ''dismissed''"
| "status_string Qs_session_removed = ''session_removed''"

fun drop_reason_string :: "queue_drop_reason \<Rightarrow> string" where
  "drop_reason_string Qd_expired = ''expired''"
| "drop_reason_string Qd_stale_expired = ''stale_expired''"
| "drop_reason_string Qd_superseded = ''superseded''"
| "drop_reason_string Qd_capacity_evicted = ''capacity_evicted''"
| "drop_reason_string Qd_user_cleared = ''user_cleared''"
| "drop_reason_string Qd_user_stopped = ''user_stopped''"
| "drop_reason_string Qd_session_removed = ''session_removed''"
| "drop_reason_string Qd_private_material_missing = ''private_material_missing''"

definition queue_drop_reasons :: "string list" where
  "queue_drop_reasons = map drop_reason_string
     [Qd_expired, Qd_stale_expired, Qd_superseded, Qd_capacity_evicted, Qd_user_cleared, Qd_user_stopped,
      Qd_session_removed, Qd_private_material_missing]"

definition jstr_in :: "string list \<Rightarrow> json \<Rightarrow> bool" where
  "jstr_in names v \<longleftrightarrow> (case v of JStr s \<Rightarrow> s \<in> set names | _ \<Rightarrow> False)"

definition hasQueueBaseline :: "json \<Rightarrow> bool" where
  "hasQueueBaseline v \<longleftrightarrow> is_jstr (jget v ''sessionName'') \<and> is_jstr (jget v ''queueEpoch'') \<and>
     is_jstr (jget v ''queueAuthorityId'') \<and> jfinite (jget v ''pendingMessageVersion'')"

definition isProjectionEntry :: "queue_entry_status list \<Rightarrow> json \<Rightarrow> bool" where
  "isProjectionEntry statuses v \<longleftrightarrow> is_record v \<and> is_jstr (jget v ''clientMessageId'') \<and> is_jstr (jget v ''text'') \<and>
     jstr_in (map status_string statuses) (jget v ''status'') \<and> jstr_in [''normal'', ''front''] (jget v ''placement'') \<and>
     jfinite (jget v ''ordinal'') \<and> jfinite (jget v ''createdAt'') \<and> jfinite (jget v ''updatedAt'') \<and>
     (jget v ''dropReason'' = JUndefined \<or> jstr_in queue_drop_reasons (jget v ''dropReason''))"

definition isValidTransportQueueWireEvent :: "json \<Rightarrow> bool" where
  "isValidTransportQueueWireEvent v \<longleftrightarrow>
    is_record v \<and> isTransportQueueEventType (jget v ''type'') \<and>
    \<not> containsLegacyLiveQueueEvidence v \<and> \<not> containsProhibitedQueueProjectionField v \<and>
    (let t = jget v ''type'' in
     if t = JStr ''transport.queue.snapshot'' then
       hasQueueBaseline v \<and>
       is_jarr (jget v ''pendingMessageEntries'') \<and>
       list_all (isProjectionEntry live_queue_entry_statuses) (jitems (jget v ''pendingMessageEntries'')) \<and>
       is_jarr (jget v ''failedMessageEntries'') \<and>
       list_all (isProjectionEntry failed_queue_entry_statuses) (jitems (jget v ''failedMessageEntries'')) \<and>
       (jget v ''resetReason'' = JUndefined \<or> jstr_in queue_reset_reasons (jget v ''resetReason'')) \<and>
       (jget v ''dropReason'' = JUndefined \<or> jstr_in queue_drop_reasons (jget v ''dropReason''))
     else if t = JStr ''transport.queue.delivery'' then
       hasQueueBaseline v \<and> is_jstr (jget v ''clientMessageId'') \<and> is_jstr (jget v ''deliveryFrameId'') \<and>
       jfinite (jget v ''deliveryFrameVersion'')
     else if t = JStr ''transport.queue.receipt'' then
       is_jstr (jget v ''sessionName'') \<and> is_jstr (jget v ''commandId'') \<and>
       jstr_in [''accepted'', ''error''] (jget v ''status'')
     else if t = JStr ''transport.queue.failure'' then
       hasQueueBaseline v \<and> is_jstr (jget v ''clientMessageId'') \<and>
       (jget v ''dropReason'' = JUndefined \<or> jstr_in queue_drop_reasons (jget v ''dropReason''))
     else hasQueueBaseline v \<and> jstr_in queue_reset_reasons (jget v ''resetReason''))"

section \<open>Events as wire values\<close>

definition member_of_generation :: "activity_generation \<Rightarrow> json" where
  "member_of_generation g = (case g of Gen_number n \<Rightarrow> JNum (JFin n) | Gen_string s \<Rightarrow> JStr s)"

definition json_of_attachment :: "queue_attachment \<Rightarrow> json" where
  "json_of_attachment a = JObj ([(''attachmentId'', JStr (qt_attachmentId a))] @
     opt_member ''filename'' JStr (qt_filename a) @ opt_member ''mimeType'' JStr (qt_mimeType a) @
     opt_member ''size'' JNum (qt_size a))"

definition json_of_actor :: "queue_shared_actor \<Rightarrow> json" where
  "json_of_actor a = JObj (opt_member ''actorId'' JStr (qa_actorId a) @ opt_member ''displayName'' JStr (qa_displayName a) @
     opt_member ''role'' JStr (qa_role a) @ opt_member ''type'' JStr (qa_type a) @
     opt_member ''avatarUrl'' JStr (qa_avatarUrl a) @ opt_member ''color'' JStr (qa_color a))"

fun json_of_reference :: "queue_supervision_reference \<Rightarrow> json" where
  "json_of_reference (Exact_integration t a r) = JObj [(''kind'', JStr ''exact_integration''), (''taskId'', JStr t),
     (''assignmentId'', JStr a), (''revision'', JStr r)]"
| "json_of_reference (Implementation_blocker t a r e) = JObj [(''kind'', JStr ''implementation_blocker''),
     (''taskId'', JStr t), (''assignmentId'', JStr a), (''revision'', JStr r), (''exactError'', JStr e)]"

fun failure_reason_string :: "queue_failure_reason \<Rightarrow> string" where
  "failure_reason_string Qf_dispatch_failed = ''dispatch_failed''"
| "failure_reason_string Qf_expired = ''expired''"
| "failure_reason_string Qf_capacity_evicted = ''capacity_evicted''"
| "failure_reason_string Qf_cancelled = ''cancelled''"
| "failure_reason_string Qf_private_material_missing = ''private_material_missing''"
| "failure_reason_string Qf_sqlite_degraded = ''sqlite_degraded''"

definition json_of_entry :: "queue_projection_entry \<Rightarrow> json" where
  "json_of_entry e = JObj (
     opt_member ''deliveryMode'' JStr (qd_deliveryMode (qp_policy e)) @
     opt_member ''appendFallbackReason'' JStr (qd_appendFallbackReason (qp_policy e)) @
     [(''clientMessageId'', JStr (qp_clientMessageId e)), (''text'', JStr (qp_text e)),
      (''status'', JStr (status_string (qp_status e))),
      (''placement'', JStr (if qp_placement e = Place_front then ''front'' else ''normal'')),
      (''ordinal'', JNum (JFin (qp_ordinal e))), (''createdAt'', JNum (JFin (qp_createdAt e))),
      (''updatedAt'', JNum (JFin (qp_updatedAt e)))] @
     opt_member ''commandId'' JStr (qp_commandId e) @
     opt_member ''activityGeneration'' member_of_generation (qp_activityGeneration e) @
     opt_member ''replacesClientMessageId'' JStr (qp_replacesClientMessageId e) @
     opt_member ''failureReason'' (\<lambda>r. JStr (failure_reason_string r)) (qp_failureReason e) @
     opt_member ''dropReason'' (\<lambda>r. JStr (drop_reason_string r)) (qp_dropReason e) @
     opt_member ''attachments'' (\<lambda>as. JArr (map json_of_attachment as)) (qp_attachments e) @
     opt_member ''sharedActor'' json_of_actor (qp_sharedActor e) @
     opt_member ''supervisionReference'' json_of_reference (qp_supervisionReference e))"

definition baseline_members :: "string \<Rightarrow> string \<Rightarrow> string \<Rightarrow> js_number \<Rightarrow> (string \<times> json) list" where
  "baseline_members name epoch authority version = [(''sessionName'', JStr name), (''queueEpoch'', JStr epoch),
     (''queueAuthorityId'', JStr authority), (''pendingMessageVersion'', JNum version)]"

definition json_of_snapshot :: "queue_snapshot \<Rightarrow> json" where
  "json_of_snapshot n = JObj ([(''type'', JStr ''transport.queue.snapshot'')] @
     baseline_members (sn_sessionName n) (sn_queueEpoch n) (sn_queueAuthorityId n) (sn_version n) @
     [(''pendingMessageEntries'', JArr (map json_of_entry (sn_pending n))),
      (''failedMessageEntries'', JArr (map json_of_entry (sn_failed n))), (''source'', JStr (sn_source n))] @
     opt_member ''resetReason'' JStr (sn_resetReason n) @
     opt_member ''dropReason'' (\<lambda>r. JStr (drop_reason_string r)) (sn_dropReason n) @
     opt_member ''activityGeneration'' member_of_generation (sn_activityGeneration n) @
     opt_member ''degraded'' JBool (sn_degraded n) @ opt_member ''degradedReason'' JStr (sn_degradedReason n))"

fun json_of_event :: "queue_event \<Rightarrow> json" where
  "json_of_event (Ev_snapshot n) = json_of_snapshot n"
| "json_of_event (Ev_delivery d) = JObj ([(''type'', JStr ''transport.queue.delivery'')] @
     baseline_members (df_sessionName d) (df_queueEpoch d) (df_queueAuthorityId d) (df_version d) @
     [(''clientMessageId'', JStr (df_clientMessageId d)), (''deliveryFrameId'', JStr (df_deliveryFrameId d)),
      (''deliveryFrameVersion'', JNum (df_deliveryFrameVersion d))] @
     opt_member ''activityGeneration'' member_of_generation (df_activityGeneration d) @
     opt_member ''providerEventId'' JStr (df_providerEventId d))"
| "json_of_event (Ev_receipt m) = JObj ([(''type'', JStr ''transport.queue.receipt''),
      (''sessionName'', JStr (mr_sessionName m)), (''commandId'', JStr (mr_commandId m)),
      (''status'', JStr (if mr_accepted m then ''accepted'' else ''error''))] @ opt_member ''reason'' JStr (mr_reason m))"
| "json_of_event (Ev_failure f) = JObj ([(''type'', JStr ''transport.queue.failure'')] @
     baseline_members (fe_sessionName f) (fe_queueEpoch f) (fe_queueAuthorityId f) (fe_version f) @
     [(''clientMessageId'', JStr (fe_clientMessageId f))] @
     opt_member ''failureReason'' (\<lambda>r. JStr (failure_reason_string r)) (fe_failureReason f) @
     opt_member ''dropReason'' (\<lambda>r. JStr (drop_reason_string r)) (fe_dropReason f))"
| "json_of_event (Ev_reset r) = JObj ([(''type'', JStr ''transport.queue.reset'')] @
     baseline_members (re_sessionName r) (re_queueEpoch r) (re_queueAuthorityId r) (re_version r) @
     [(''resetReason'', JStr (re_resetReason r))])"
| "json_of_event (Ev_other t) = JObj [(''type'', JStr t)]"

section \<open>No member of an event is prohibited\<close>

lemma has_member_append:
  "has_member_in names (JObj (as @ bs)) \<longleftrightarrow> has_member_in names (JObj as) \<or> has_member_in names (JObj bs)"
  by auto

lemma has_member_opt:
  "has_member_in names (JObj (opt_member k f x)) \<longleftrightarrow> (\<exists>v. x = Some v \<and> (k \<in> set names \<or> has_member_in names (f v)))"
  by (cases x) auto

lemma member_strings [simp]:
  "has_member_in names (JStr s) = False" "has_member_in names (JNum v) = False" "has_member_in names (JBool b) = False"
  "has_member_in names (member_of_generation g) = False"
  by (simp_all add: member_of_generation_def split: activity_generation.split)

lemmas member_rules = has_member_append has_member_opt

definition hidden_names :: "string list" where
  "hidden_names = prohibited_queue_fields @ legacy_live_queue_fields"

lemma has_member_union:
  "has_member_in (as @ bs) v \<longleftrightarrow> has_member_in as v \<or> has_member_in bs v"
proof (induction v)
  case (JObj kvs)
  have ih: "has_member_in (as @ bs) (snd kv) \<longleftrightarrow> has_member_in as (snd kv) \<or> has_member_in bs (snd kv)"
    if "kv \<in> set kvs" for kv
    using JObj.IH [OF that, of "snd kv"] by (cases kv) simp
  show ?case by (simp add: ih cong: bex_cong) blast
qed auto

lemma hidden_split: "has_member_in hidden_names v \<longleftrightarrow>
  containsProhibitedQueueProjectionField v \<or> containsLegacyLiveQueueEvidence v"
  by (simp add: hidden_names_def containsProhibitedQueueProjectionField_def containsLegacyLiveQueueEvidence_def
      has_member_union)

lemma open_name [simp]:
  "''type'' \<notin> set hidden_names" "''sessionName'' \<notin> set hidden_names"
  "''queueEpoch'' \<notin> set hidden_names" "''queueAuthorityId'' \<notin> set hidden_names"
  "''pendingMessageVersion'' \<notin> set hidden_names" "''pendingMessageEntries'' \<notin> set hidden_names"
  "''failedMessageEntries'' \<notin> set hidden_names" "''source'' \<notin> set hidden_names"
  "''resetReason'' \<notin> set hidden_names" "''dropReason'' \<notin> set hidden_names"
  "''activityGeneration'' \<notin> set hidden_names" "''degraded'' \<notin> set hidden_names"
  "''degradedReason'' \<notin> set hidden_names" "''clientMessageId'' \<notin> set hidden_names"
  "''deliveryFrameId'' \<notin> set hidden_names" "''deliveryFrameVersion'' \<notin> set hidden_names"
  "''providerEventId'' \<notin> set hidden_names" "''commandId'' \<notin> set hidden_names"
  "''status'' \<notin> set hidden_names" "''reason'' \<notin> set hidden_names"
  "''failureReason'' \<notin> set hidden_names" "''deliveryMode'' \<notin> set hidden_names"
  "''appendFallbackReason'' \<notin> set hidden_names" "''text'' \<notin> set hidden_names"
  "''placement'' \<notin> set hidden_names" "''ordinal'' \<notin> set hidden_names"
  "''createdAt'' \<notin> set hidden_names" "''updatedAt'' \<notin> set hidden_names"
  "''replacesClientMessageId'' \<notin> set hidden_names" "''attachments'' \<notin> set hidden_names"
  "''sharedActor'' \<notin> set hidden_names" "''supervisionReference'' \<notin> set hidden_names"
  "''attachmentId'' \<notin> set hidden_names" "''filename'' \<notin> set hidden_names"
  "''mimeType'' \<notin> set hidden_names" "''size'' \<notin> set hidden_names"
  "''actorId'' \<notin> set hidden_names" "''displayName'' \<notin> set hidden_names"
  "''role'' \<notin> set hidden_names" "''avatarUrl'' \<notin> set hidden_names"
  "''color'' \<notin> set hidden_names" "''kind'' \<notin> set hidden_names"
  "''taskId'' \<notin> set hidden_names" "''assignmentId'' \<notin> set hidden_names"
  "''revision'' \<notin> set hidden_names" "''exactError'' \<notin> set hidden_names"
  by (simp_all add: hidden_names_def prohibited_queue_fields_def legacy_live_queue_fields_def)

lemma open_attachment [simp]: "\<not> has_member_in hidden_names (json_of_attachment a)"
  unfolding json_of_attachment_def member_rules by simp

lemma open_actor [simp]: "\<not> has_member_in hidden_names (json_of_actor a)"
  unfolding json_of_actor_def member_rules by simp

lemma open_reference [simp]: "\<not> has_member_in hidden_names (json_of_reference r)"
  by (cases r) simp_all

lemma open_entry [simp]: "\<not> has_member_in hidden_names (json_of_entry e)"
  unfolding json_of_entry_def member_rules by simp

lemma open_baseline [simp]: "\<not> has_member_in hidden_names (JObj (baseline_members n e a v))"
  by (simp add: baseline_members_def)

lemma open_event [simp]: "\<not> has_member_in hidden_names (json_of_event ev)"
proof (cases ev)
  case (Ev_snapshot n)
  show ?thesis unfolding Ev_snapshot json_of_event.simps json_of_snapshot_def member_rules
    by (simp add: baseline_members_def)
qed (simp_all only: json_of_event.simps member_rules, simp_all add: baseline_members_def)

section \<open>What the wire check accepts\<close>

definition entry_statuses_ok :: "queue_snapshot \<Rightarrow> bool" where
  "entry_statuses_ok n \<longleftrightarrow> (\<forall>e \<in> set (sn_pending n). qp_status e \<in> set live_queue_entry_statuses) \<and>
     (\<forall>e \<in> set (sn_failed n). qp_status e \<in> set failed_queue_entry_statuses)"

fun wire_event_ok :: "queue_event \<Rightarrow> bool" where
  "wire_event_ok (Ev_snapshot n) \<longleftrightarrow> js_finite (sn_version n) \<and> entry_statuses_ok n \<and>
     (\<forall>r \<in> set_option (sn_resetReason n). r \<in> set queue_reset_reasons)"
| "wire_event_ok (Ev_delivery d) \<longleftrightarrow> js_finite (df_version d) \<and> js_finite (df_deliveryFrameVersion d)"
| "wire_event_ok (Ev_receipt m) \<longleftrightarrow> True"
| "wire_event_ok (Ev_failure f) \<longleftrightarrow> js_finite (fe_version f)"
| "wire_event_ok (Ev_reset r) \<longleftrightarrow> js_finite (re_version r) \<and> re_resetReason r \<in> set queue_reset_reasons"
| "wire_event_ok (Ev_other t) \<longleftrightarrow> False"

lemma drop_reason_known [simp]: "drop_reason_string r \<in> set queue_drop_reasons"
  by (cases r) (simp_all add: queue_drop_reasons_def)

lemma status_string_inj [simp]: "status_string a = status_string b \<longleftrightarrow> a = b"
  by (cases a; cases b) simp_all

lemma entry_members:
  "jget (json_of_entry e) ''clientMessageId'' = JStr (qp_clientMessageId e)"
  "jget (json_of_entry e) ''text'' = JStr (qp_text e)"
  "jget (json_of_entry e) ''status'' = JStr (status_string (qp_status e))"
  "jget (json_of_entry e) ''placement'' = JStr (if qp_placement e = Place_front then ''front'' else ''normal'')"
  "jget (json_of_entry e) ''ordinal'' = JNum (JFin (qp_ordinal e))"
  "jget (json_of_entry e) ''createdAt'' = JNum (JFin (qp_createdAt e))"
  "jget (json_of_entry e) ''updatedAt'' = JNum (JFin (qp_updatedAt e))"
  "jget (json_of_entry e) ''dropReason'' =
     (if qp_dropReason e = None then JUndefined else JStr (drop_reason_string (the (qp_dropReason e))))"
  "is_record (json_of_entry e)"
  by (simp_all add: json_of_entry_def)

lemma entry_on_wire: "isProjectionEntry sts (json_of_entry e) \<longleftrightarrow> qp_status e \<in> set sts"
  unfolding isProjectionEntry_def entry_members by (auto simp: jstr_in_def entry_members)

lemma baseline_on_wire [simp]:
  "map_of (baseline_members n e a v @ kvs) k = (if k = ''sessionName'' then Some (JStr n)
     else if k = ''queueEpoch'' then Some (JStr e) else if k = ''queueAuthorityId'' then Some (JStr a)
     else if k = ''pendingMessageVersion'' then Some (JNum v) else map_of kvs k)"
  by (simp add: baseline_members_def)

lemma opt_on_wire [simp]:
  "(case (if x = None then a else Some (g (the x))) of None \<Rightarrow> u | Some v \<Rightarrow> h v) =
   (case x of None \<Rightarrow> (case a of None \<Rightarrow> u | Some v \<Rightarrow> h v) | Some y \<Rightarrow> h (g y))"
  by (cases x) auto

lemma entries_on_wire:
  "list_all (isProjectionEntry sts) (map json_of_entry es) \<longleftrightarrow> (\<forall>e \<in> set es. qp_status e \<in> set sts)"
  by (auto simp: list_all_iff entry_on_wire)

lemma wire_check:
  "isValidTransportQueueWireEvent (json_of_event ev) \<longleftrightarrow> wire_event_ok ev"
proof -
  have hid: "\<not> containsProhibitedQueueProjectionField (json_of_event ev)"
    "\<not> containsLegacyLiveQueueEvidence (json_of_event ev)"
    using open_event [of ev] unfolding hidden_split by auto
  show ?thesis
  proof (cases ev)
    case (Ev_snapshot n)
    then show ?thesis using hid
      by (auto simp: isValidTransportQueueWireEvent_def json_of_snapshot_def isTransportQueueEventType_def queue_event_types_def
          hasQueueBaseline_def entries_on_wire entry_statuses_ok_def jstr_in_def split: option.split)
  qed (use hid in \<open>auto simp: isValidTransportQueueWireEvent_def isTransportQueueEventType_def queue_event_types_def
          hasQueueBaseline_def jstr_in_def Let_def split: option.split\<close>)
qed

section \<open>What the wire check accepts of arbitrary values\<close>

text \<open>
  A raw value is read as an event when it has the members that tell the event: those of \<open>event_keys\<close> are
  the members of the event's own JSON object, and the entries of a snapshot are read item by item.
\<close>

definition same_members :: "string list \<Rightarrow> json \<Rightarrow> json \<Rightarrow> bool" where
  "same_members ks v w \<longleftrightarrow> is_record v \<and> (\<forall>k \<in> set ks. jget v k = jget w k)"

definition entry_keys :: "string list" where
  "entry_keys = [''clientMessageId'', ''text'', ''status'', ''placement'', ''ordinal'', ''createdAt'', ''updatedAt'', ''dropReason'']"

definition read_as_entry :: "json \<Rightarrow> queue_projection_entry \<Rightarrow> bool" where
  "read_as_entry v e \<longleftrightarrow> same_members entry_keys v (json_of_entry e)"

definition baseline_keys :: "string list" where
  "baseline_keys = [''sessionName'', ''queueEpoch'', ''queueAuthorityId'', ''pendingMessageVersion'']"

fun event_keys :: "queue_event \<Rightarrow> string list" where
  "event_keys (Ev_snapshot n) = ''type'' # baseline_keys @ [''resetReason'', ''dropReason'']"
| "event_keys (Ev_delivery d) = ''type'' # baseline_keys @ [''clientMessageId'', ''deliveryFrameId'', ''deliveryFrameVersion'']"
| "event_keys (Ev_receipt m) = [''type'', ''sessionName'', ''commandId'', ''status'']"
| "event_keys (Ev_failure f) = ''type'' # baseline_keys @ [''clientMessageId'', ''dropReason'']"
| "event_keys (Ev_reset r) = ''type'' # baseline_keys @ [''resetReason'']"
| "event_keys (Ev_other t) = []"

fun read_as :: "json \<Rightarrow> queue_event \<Rightarrow> bool" where
  "read_as v (Ev_snapshot n) \<longleftrightarrow> same_members (event_keys (Ev_snapshot n)) v (json_of_event (Ev_snapshot n)) \<and>
     (\<exists>ps fs. jget v ''pendingMessageEntries'' = JArr ps \<and> list_all2 read_as_entry ps (sn_pending n) \<and>
        jget v ''failedMessageEntries'' = JArr fs \<and> list_all2 read_as_entry fs (sn_failed n))"
| "read_as v ev \<longleftrightarrow> same_members (event_keys ev) v (json_of_event ev)"

lemma is_jstrE: "is_jstr v \<Longrightarrow> (\<And>s. v = JStr s \<Longrightarrow> P) \<Longrightarrow> P"
  by (cases v) auto

lemma jfiniteE: "jfinite v \<Longrightarrow> (\<And>i. v = JNum (JFin i) \<Longrightarrow> P) \<Longrightarrow> P"
  by (cases v) (auto elim: js_finiteE)

lemma is_jarrE: "is_jarr v \<Longrightarrow> (\<And>xs. v = JArr xs \<Longrightarrow> P) \<Longrightarrow> P"
  by (cases v) auto

lemma jstr_inE: "jstr_in names v \<Longrightarrow> (\<And>s. v = JStr s \<Longrightarrow> s \<in> set names \<Longrightarrow> P) \<Longrightarrow> P"
  by (cases v) (auto simp: jstr_in_def)

lemma jstr_in_string: "jstr_in names (JStr s) \<longleftrightarrow> s \<in> set names" "\<not> jstr_in names JUndefined"
  by (simp_all add: jstr_in_def)

lemma drop_reasonE:
  "v = JUndefined \<or> jstr_in queue_drop_reasons v \<Longrightarrow>
   (\<And>r. v = (if r = None then JUndefined else JStr (drop_reason_string (the r))) \<Longrightarrow> P) \<Longrightarrow> P"
  by (auto elim!: jstr_inE simp: queue_drop_reasons_def) (metis option.distinct(1) option.sel drop_reason_string.simps)+

lemma entry_accepted:
  "isProjectionEntry sts v \<longleftrightarrow> (\<exists>e. read_as_entry v e \<and> qp_status e \<in> set sts)"
proof
  assume "isProjectionEntry sts v"
  then have r: "is_record v" and m: "is_jstr (jget v ''clientMessageId'')" "is_jstr (jget v ''text'')"
      "jstr_in (map status_string sts) (jget v ''status'')" "jstr_in [''normal'', ''front''] (jget v ''placement'')"
      "jfinite (jget v ''ordinal'')" "jfinite (jget v ''createdAt'')" "jfinite (jget v ''updatedAt'')"
      "jget v ''dropReason'' = JUndefined \<or> jstr_in queue_drop_reasons (jget v ''dropReason'')"
    unfolding isProjectionEntry_def by simp_all
  obtain i t st pl ord c u dr where v: "jget v ''clientMessageId'' = JStr i" "jget v ''text'' = JStr t"
      "jget v ''status'' = JStr (status_string st)" "st \<in> set sts" "jget v ''placement'' = JStr pl" "pl \<in> set [''normal'', ''front'']"
      "jget v ''ordinal'' = JNum (JFin ord)" "jget v ''createdAt'' = JNum (JFin c)" "jget v ''updatedAt'' = JNum (JFin u)"
      "jget v ''dropReason'' = (if dr = None then JUndefined else JStr (drop_reason_string (the dr)))"
    using m by (elim is_jstrE jfiniteE jstr_inE drop_reasonE) auto
  let ?e = "\<lparr>qp_policy = \<lparr>qd_deliveryMode = None, qd_appendFallbackReason = None\<rparr>, qp_clientMessageId = i, qp_text = t,
    qp_status = st, qp_placement = (if pl = ''front'' then Place_front else Place_normal), qp_ordinal = ord, qp_createdAt = c,
    qp_updatedAt = u, qp_commandId = None, qp_activityGeneration = None, qp_replacesClientMessageId = None,
    qp_failureReason = None, qp_dropReason = dr, qp_attachments = None, qp_sharedActor = None, qp_supervisionReference = None\<rparr>"
  have "read_as_entry v ?e" using r v unfolding read_as_entry_def same_members_def entry_keys_def by (auto simp: entry_members)
  then show "\<exists>e. read_as_entry v e \<and> qp_status e \<in> set sts" using v(4) by (intro exI [of _ ?e]) simp
next
  assume "\<exists>e. read_as_entry v e \<and> qp_status e \<in> set sts"
  then show "isProjectionEntry sts v"
    by (auto simp: read_as_entry_def same_members_def entry_keys_def isProjectionEntry_def entry_members jstr_in_string
        split: if_splits)
qed

lemma entries_accepted:
  "list_all (isProjectionEntry sts) vs \<longleftrightarrow> (\<exists>es. list_all2 read_as_entry vs es \<and> (\<forall>e \<in> set es. qp_status e \<in> set sts))"
proof (induction vs)
  case (Cons v vs)
  show ?case
  proof
    assume "list_all (isProjectionEntry sts) (v # vs)"
    then obtain e es where "read_as_entry v e" "qp_status e \<in> set sts" "list_all2 read_as_entry vs es" "\<forall>e \<in> set es. qp_status e \<in> set sts"
      using Cons.IH by (auto simp: entry_accepted)
    then show "\<exists>es. list_all2 read_as_entry (v # vs) es \<and> (\<forall>e \<in> set es. qp_status e \<in> set sts)"
      by (intro exI [of _ "e # es"]) simp
  qed (use Cons.IH in \<open>auto simp: list_all2_Cons1 entry_accepted\<close>)
qed simp

lemma has_member_key: "has_member_in names v \<longleftrightarrow> (\<exists>k \<in> set names. key_in k v)"
  by (induction names v rule: has_member_in.induct) (auto simp: Bex_def split_paired_Ex)

lemmas reads_simps = same_members_def baseline_keys_def json_of_snapshot_def

lemma baseline_accepted:
  "hasQueueBaseline v \<longleftrightarrow>
    (\<exists>n e a i. jget v ''sessionName'' = JStr n \<and> jget v ''queueEpoch'' = JStr e \<and> jget v ''queueAuthorityId'' = JStr a \<and>
       jget v ''pendingMessageVersion'' = JNum (JFin i))"
  by (auto simp: hasQueueBaseline_def elim!: is_jstrE jfiniteE)

lemma snapshot_read:
  assumes v: "is_record v" "jget v ''type'' = JStr ''transport.queue.snapshot''" "hasQueueBaseline v"
      "is_jarr (jget v ''pendingMessageEntries'')"
      "list_all (isProjectionEntry live_queue_entry_statuses) (jitems (jget v ''pendingMessageEntries''))"
      "is_jarr (jget v ''failedMessageEntries'')"
      "list_all (isProjectionEntry failed_queue_entry_statuses) (jitems (jget v ''failedMessageEntries''))"
      "jget v ''resetReason'' = JUndefined \<or> jstr_in queue_reset_reasons (jget v ''resetReason'')"
      "jget v ''dropReason'' = JUndefined \<or> jstr_in queue_drop_reasons (jget v ''dropReason'')"
  shows "\<exists>ev. read_as v ev \<and> wire_event_ok ev"
proof -
  obtain n e a i where b: "jget v ''sessionName'' = JStr n" "jget v ''queueEpoch'' = JStr e" "jget v ''queueAuthorityId'' = JStr a"
      "jget v ''pendingMessageVersion'' = JNum (JFin i)"
    using v(3) unfolding baseline_accepted by blast
  obtain ps fs where l: "jget v ''pendingMessageEntries'' = JArr ps" "jget v ''failedMessageEntries'' = JArr fs"
    using v(4,6) by (elim is_jarrE)
  obtain pes fes where es: "list_all2 read_as_entry ps pes" "\<forall>x \<in> set pes. qp_status x \<in> set live_queue_entry_statuses"
      "list_all2 read_as_entry fs fes" "\<forall>x \<in> set fes. qp_status x \<in> set failed_queue_entry_statuses"
    using v(5,7) unfolding l jitems.simps entries_accepted by blast
  obtain rr where rr: "jget v ''resetReason'' = (if rr = None then JUndefined else JStr (the rr))" "\<forall>r \<in> set_option rr. r \<in> set queue_reset_reasons"
  proof (cases "jget v ''resetReason'' = JUndefined")
    case True
    then show ?thesis using that [of None] by simp
  next
    case False
    then obtain s where "jget v ''resetReason'' = JStr s" "s \<in> set queue_reset_reasons" using v(8) by (auto elim: jstr_inE)
    then show ?thesis using that [of "Some s"] by simp
  qed
  obtain dr where dr: "jget v ''dropReason'' = (if dr = None then JUndefined else JStr (drop_reason_string (the dr)))"
    using v(9) by (elim drop_reasonE)
  let ?n = "\<lparr>sn_sessionName = n, sn_queueEpoch = e, sn_queueAuthorityId = a, sn_version = JFin i, sn_pending = pes, sn_failed = fes,
    sn_source = [], sn_resetReason = rr, sn_dropReason = dr, sn_activityGeneration = None, sn_degraded = None, sn_degradedReason = None\<rparr>"
  have "read_as v (Ev_snapshot ?n)" using v(1,2) b l es rr(1) dr by (auto simp: reads_simps)
  moreover have "wire_event_ok (Ev_snapshot ?n)" using es rr(2) by (simp add: entry_statuses_ok_def)
  ultimately show ?thesis by blast
qed

lemma other_reads:
  assumes v: "is_record v" "jget v ''type'' = JStr t" and "isValidTransportQueueWireEvent v"
    and t: "t \<in> set queue_event_types" "t \<noteq> ''transport.queue.snapshot''"
  shows "\<exists>ev. read_as v ev \<and> wire_event_ok ev"
proof -
  consider (delivery) "t = ''transport.queue.delivery''" | (receipt) "t = ''transport.queue.receipt''"
    | (failure) "t = ''transport.queue.failure''" | (reset) "t = ''transport.queue.reset''"
    using t by (auto simp: queue_event_types_def)
  then show ?thesis
  proof cases
    case delivery
    then obtain n e a i c f w where "jget v ''sessionName'' = JStr n" "jget v ''queueEpoch'' = JStr e" "jget v ''queueAuthorityId'' = JStr a"
        "jget v ''pendingMessageVersion'' = JNum (JFin i)" "jget v ''clientMessageId'' = JStr c" "jget v ''deliveryFrameId'' = JStr f"
        "jget v ''deliveryFrameVersion'' = JNum (JFin w)"
      using assms(3) v(2) by (auto simp: isValidTransportQueueWireEvent_def baseline_accepted elim!: is_jstrE jfiniteE)
    then show ?thesis using v delivery
      by (intro exI [of _ "Ev_delivery \<lparr>df_sessionName = n, df_clientMessageId = c, df_queueEpoch = e, df_queueAuthorityId = a,
        df_version = JFin i, df_deliveryFrameId = f, df_deliveryFrameVersion = JFin w, df_activityGeneration = None, df_providerEventId = None\<rparr>"])
        (simp add: reads_simps)
  next
    case receipt
    then obtain n c st where "jget v ''sessionName'' = JStr n" "jget v ''commandId'' = JStr c" "jget v ''status'' = JStr st"
        "st = ''accepted'' \<or> st = ''error''"
      using assms(3) v(2) by (auto simp: isValidTransportQueueWireEvent_def elim!: is_jstrE jstr_inE)
    then show ?thesis using v receipt
      by (intro exI [of _ "Ev_receipt \<lparr>mr_sessionName = n, mr_commandId = c, mr_accepted = (st = ''accepted''), mr_reason = None\<rparr>"])
        (auto simp: reads_simps)
  next
    case failure
    then obtain n e a i c where m: "jget v ''sessionName'' = JStr n" "jget v ''queueEpoch'' = JStr e" "jget v ''queueAuthorityId'' = JStr a"
        "jget v ''pendingMessageVersion'' = JNum (JFin i)" "jget v ''clientMessageId'' = JStr c"
        "jget v ''dropReason'' = JUndefined \<or> jstr_in queue_drop_reasons (jget v ''dropReason'')"
      using assms(3) v(2) by (auto simp: isValidTransportQueueWireEvent_def baseline_accepted elim!: is_jstrE jfiniteE)
    obtain dr where "jget v ''dropReason'' = (if dr = None then JUndefined else JStr (drop_reason_string (the dr)))"
      using m(6) by (elim drop_reasonE)
    then show ?thesis using v m failure
      by (intro exI [of _ "Ev_failure \<lparr>fe_sessionName = n, fe_queueEpoch = e, fe_queueAuthorityId = a, fe_version = JFin i,
        fe_clientMessageId = c, fe_failureReason = None, fe_dropReason = dr\<rparr>"]) (auto simp: reads_simps)
  next
    case reset
    then obtain n e a i r where "jget v ''sessionName'' = JStr n" "jget v ''queueEpoch'' = JStr e" "jget v ''queueAuthorityId'' = JStr a"
        "jget v ''pendingMessageVersion'' = JNum (JFin i)" "jget v ''resetReason'' = JStr r" "r \<in> set queue_reset_reasons"
      using assms(3) v(2) by (auto simp: isValidTransportQueueWireEvent_def baseline_accepted elim!: is_jstrE jfiniteE jstr_inE)
    then show ?thesis using v reset
      by (intro exI [of _ "Ev_reset \<lparr>re_sessionName = n, re_queueEpoch = e, re_queueAuthorityId = a, re_version = JFin i,
        re_resetReason = r\<rparr>"]) (simp add: reads_simps)
  qed
qed

lemma valid_reads:
  assumes "isValidTransportQueueWireEvent v"
  shows "\<exists>ev. read_as v ev \<and> wire_event_ok ev"
proof -
  obtain t where t: "jget v ''type'' = JStr t" "t \<in> set queue_event_types" and r: "is_record v"
    using assms by (auto simp: isValidTransportQueueWireEvent_def isTransportQueueEventType_def split: json.splits)
  show ?thesis
  proof (cases "t = ''transport.queue.snapshot''")
    case True
    then show ?thesis using assms t(1) r unfolding isValidTransportQueueWireEvent_def by (intro snapshot_read) simp_all
  next
    case False
    then show ?thesis using other_reads [OF r t(1) assms t(2)] by blast
  qed
qed

lemma valid_open:
  "isValidTransportQueueWireEvent v \<Longrightarrow> \<not> containsProhibitedQueueProjectionField v \<and> \<not> containsLegacyLiveQueueEvidence v"
  by (simp add: isValidTransportQueueWireEvent_def)

lemma reads_valid:
  assumes "read_as v ev" and "wire_event_ok ev"
    and "\<not> containsProhibitedQueueProjectionField v" and "\<not> containsLegacyLiveQueueEvidence v"
  shows "isValidTransportQueueWireEvent v"
proof (cases ev)
  case (Ev_snapshot n)
  obtain ps fs where l: "jget v ''pendingMessageEntries'' = JArr ps" "list_all2 read_as_entry ps (sn_pending n)"
      "jget v ''failedMessageEntries'' = JArr fs" "list_all2 read_as_entry fs (sn_failed n)"
    using assms(1) unfolding Ev_snapshot by auto
  have "list_all (isProjectionEntry live_queue_entry_statuses) ps" "list_all (isProjectionEntry failed_queue_entry_statuses) fs"
    using l(2,4) assms(2) unfolding Ev_snapshot entries_accepted by (auto simp: entry_statuses_ok_def)
  then show ?thesis using assms l(1,3) unfolding Ev_snapshot
    by (auto simp: reads_simps isValidTransportQueueWireEvent_def isTransportQueueEventType_def queue_event_types_def
        hasQueueBaseline_def jstr_in_string split: option.split)
qed (use assms in \<open>auto simp: reads_simps isValidTransportQueueWireEvent_def isTransportQueueEventType_def queue_event_types_def
        hasQueueBaseline_def jstr_in_string Let_def split: option.split\<close>)

text \<open>
  C22. The wire check accepts an arbitrary value exactly when no prohibited and no legacy field occurs in it, at any
  depth, and its members tell a typed event that may be sent: one with finite versions, each entry in the list its status
  belongs to, and a known reset reason.
\<close>

theorem wire_check_exact:
  "isValidTransportQueueWireEvent v \<longleftrightarrow>
    (\<nexists>k. k \<in> set prohibited_queue_fields \<union> set legacy_live_queue_fields \<and> key_in k v) \<and>
    (\<exists>ev. read_as v ev \<and> wire_event_ok ev)"
proof -
  have hid: "(\<nexists>k. k \<in> set prohibited_queue_fields \<union> set legacy_live_queue_fields \<and> key_in k v) \<longleftrightarrow>
      \<not> containsProhibitedQueueProjectionField v \<and> \<not> containsLegacyLiveQueueEvidence v"
    by (auto simp: containsProhibitedQueueProjectionField_def containsLegacyLiveQueueEvidence_def has_member_key)
  show ?thesis
    unfolding hid using valid_reads [of v] reads_valid [of v] valid_open [of v] by blast
qed

section \<open>What a projection shows\<close>

definition short :: "nat \<Rightarrow> string option \<Rightarrow> bool" where
  "short n s \<longleftrightarrow> (\<forall>t \<in> set_option s. t \<noteq> [] \<and> length t \<le> n)"

definition attachment_public :: "queue_attachment \<Rightarrow> bool" where
  "attachment_public a \<longleftrightarrow> short 256 (Some (qt_attachmentId a)) \<and> short 256 (qt_filename a) \<and>
     short 128 (qt_mimeType a) \<and> (\<forall>n \<in> set_option (qt_size a). js_finite n)"

definition actor_public :: "queue_shared_actor \<Rightarrow> bool" where
  "actor_public a \<longleftrightarrow> short 128 (qa_actorId a) \<and> short 128 (qa_displayName a) \<and> short 64 (qa_role a) \<and>
     short 64 (qa_type a) \<and> short 512 (qa_avatarUrl a) \<and> short 64 (qa_color a)"

definition policy_public :: "queue_delivery_policy \<Rightarrow> bool" where
  "policy_public p \<longleftrightarrow> set_option (qd_deliveryMode p) \<subseteq> set session_send_delivery_modes \<and>
     set_option (qd_appendFallbackReason p) \<subseteq> set transport_append_fallback_reasons"

definition entry_public :: "queue_projection_entry \<Rightarrow> bool" where
  "entry_public e \<longleftrightarrow> policy_public (qp_policy e) \<and>
     (\<forall>as \<in> set_option (qp_attachments e). \<forall>a \<in> set as. attachment_public a) \<and>
     (\<forall>a \<in> set_option (qp_sharedActor e). actor_public a)"

lemma safeString_short: "1 \<le> n \<Longrightarrow> short n (safeString v n)"
  by (auto simp: short_def safeString_def Let_def split: json.splits if_splits)

lemma safeString_some: "safeString v n = Some t \<Longrightarrow> 1 \<le> n \<Longrightarrow> short n (Some t)"
  using safeString_short [of n v] by simp

lemma known_string_known: "known_string ks v = Some x \<Longrightarrow> x \<in> set ks"
  by (auto simp: known_string_def split: json.splits if_splits)

lemma attachment_projection_public:
  assumes "buildQueueAttachmentProjection v = Some a"
  shows "attachment_public a"
  using assms
  by (auto simp: buildQueueAttachmentProjection_def attachment_public_def safeString_short safeNumber_def
      intro: safeString_some split: if_splits option.splits json.splits)

lemma actor_projection_public:
  assumes "buildQueueSharedActorProjection v = Some a"
  shows "actor_public a"
proof -
  let ?p = "\<lparr>qa_actorId = safeString (jnullish (jget v ''actorId'') (jget v ''id'')) 128,
                qa_displayName = safeString (jnullish (jget v ''displayName'') (jget v ''name'')) 128,
                qa_role = safeString (jget v ''role'') 64, qa_type = safeString (jget v ''type'') 64,
                qa_avatarUrl = safeString (jget v ''avatarUrl'') 512, qa_color = safeString (jget v ''color'') 64\<rparr>"
  have "a = ?p"
    using assms unfolding buildQueueSharedActorProjection_def Let_def by (simp only: option.inject option.distinct simp_thms split: if_split_asm)
  then show ?thesis by (simp add: actor_public_def safeString_short)
qed

lemma entry_projection_public: "entry_public (buildQueueProjectionEntry e)"
proof -
  have "attachment_public a" if "a \<in> set (List.map_filter buildQueueAttachmentProjection vs)" for a vs
    using that attachment_projection_public by (auto simp: List.map_filter_def)
  then show ?thesis
    by (auto simp: entry_public_def buildQueueProjectionEntry_def policy_public_def readQueueDeliveryPolicy_def
        dest: known_string_known actor_projection_public split: if_splits)
qed

text \<open>
  What the daemon shows of its stored queue passes the wire check and is public: a snapshot of projected
  entries, each in the list of its status, is accepted, and its entries carry only known delivery
  policies and short non-empty strings of actors and attachments, whatever the stored entries hold.
\<close>

theorem projected_snapshot_public:
  assumes "sn_pending n = map buildQueueProjectionEntry ps" and "sn_failed n = map buildQueueProjectionEntry fs"
    and "\<forall>e \<in> set ps. qe_status e \<in> set live_queue_entry_statuses"
    and "\<forall>e \<in> set fs. qe_status e \<in> set failed_queue_entry_statuses"
    and "js_finite (sn_version n)" and "sn_resetReason n = None"
  shows "isValidTransportQueueWireEvent (json_of_event (Ev_snapshot n)) \<and>
    (\<forall>e \<in> set (sn_pending n) \<union> set (sn_failed n). entry_public e)"
proof -
  have "qp_status (buildQueueProjectionEntry e) = qe_status e" for e
    by (simp add: buildQueueProjectionEntry_def)
  then have "wire_event_ok (Ev_snapshot n)" using assms by (simp add: entry_statuses_ok_def)
  moreover have "isValidTransportQueueWireEvent (json_of_event (Ev_snapshot n)) \<longleftrightarrow> wire_event_ok (Ev_snapshot n)"
    by (rule wire_check)
  ultimately show ?thesis using assms(1,2) by (auto simp: entry_projection_public)
qed

definition sample_stored_entry :: queue_stored_entry where
  "sample_stored_entry = \<lparr>qe_deliveryMode = JStr ''append'', qe_appendFallbackReason = JStr ''other'', qe_sessionName = ''s'',
     qe_queueEpoch = ''e'', qe_queueAuthorityId = ''a'', qe_clientMessageId = ''m'', qe_commandId = None, qe_text = ''hi'',
     qe_status = Qs_queued, qe_placement = Place_front, qe_ordinal = 1, qe_createdAt = 0, qe_updatedAt = 0, qe_version = 3,
     qe_activityGeneration = None, qe_replacesClientMessageId = None, qe_failureReason = None, qe_dropReason = None,
     qe_resetReason = None, qe_attachments = [JObj [(''id'', JStr '' x ''), (''daemonPath'', JStr ''/root'')]],
     qe_sharedActor = JObj [(''secret'', JStr ''k'')], qe_handoffId = None, qe_handoffStartedAt = None,
     qe_handoffExpiresAt = None, qe_handoffAttempt = None, qe_privateMaterialRef = Some ''r'',
     qe_supervisionReference = None\<rparr>"

theorem projected_snapshot_public_witness:
  "isValidTransportQueueWireEvent (json_of_event (Ev_snapshot
     (sample_queue_snapshot [buildQueueProjectionEntry sample_stored_entry])))"
proof -
  let ?n = "sample_queue_snapshot [buildQueueProjectionEntry sample_stored_entry]"
  have "sn_pending ?n = map buildQueueProjectionEntry [sample_stored_entry]"
    "sn_failed ?n = map buildQueueProjectionEntry []" "js_finite (sn_version ?n)" "sn_resetReason ?n = None"
    by (simp_all add: sample_queue_snapshot_def)
  from projected_snapshot_public [OF this(1,2) _ _ this(3,4)] show ?thesis
    by (simp add: sample_stored_entry_def live_queue_entry_statuses_def)
qed

end
