(* ===== verification/StableSort.thy ===== *)
theory StableSort
  imports Prelude "HOL-Library.Multiset"
begin

text \<open>
  \<open>Array.prototype.sort\<close> with a comparator (\<^const>\<open>js_sort_by\<close>) keeps the elements with their multiplicity.
\<close>

lemma mset_insert_by' [simp]: "mset (insert_by cmp x ys) = add_mset x (mset ys)"
  by (induction ys) auto

lemma mset_js_sort_by [simp]: "mset (js_sort_by cmp xs) = mset xs"
  by (induction xs) (auto simp: js_sort_by_def)

lemma distinct_js_sort_by [simp]: "distinct (map f (js_sort_by cmp xs)) \<longleftrightarrow> distinct (map f xs)"
  by (rule mset_eq_imp_distinct_iff) simp

lemma js_sort_by_nil [simp]: "js_sort_by cmp xs = [] \<longleftrightarrow> xs = []"
  by (metis length_js_sort_by length_0_conv)

end
