(* ===== verification/TimelineMerge.thy ===== *)
theory TimelineMerge
  imports JsValue StableSort "HOL-Library.Product_Lexorder"
begin

text \<open>
  Merging of timeline events, \<open>src/src/shared/timeline/merge.ts\<close>: which of two versions of one event
  is shown, which of two last-value signals is current, and the merge of a cached window with
  incoming events.  The code compares event objects by identity; the cached and the incoming list are
  taken to share no object, so that "the preferred event is the existing one" is a flag here.
\<close>

record timeline_event =
  te_eventId :: string
  te_sessionId :: string
  te_ts :: int
  te_seq :: int
  te_epoch :: int
  te_source :: string
  te_confidence :: string
  te_type :: string
  te_payload :: json
  te_completeness :: json
  te_timelineCompleteness :: json
  te_detailRefs :: json
  te_hidden :: "bool option"
  te_summary :: "bool option"

section \<open>Two versions of one event\<close>

definition isStreaming :: "timeline_event \<Rightarrow> bool" where
  "isStreaming e \<longleftrightarrow> jget (te_payload e) ''streaming'' = JBool True"

definition isUserDeletedTimelineEvent :: "timeline_event \<Rightarrow> bool" where
  "isUserDeletedTimelineEvent e \<longleftrightarrow> jget (te_payload e) ''userDeleted'' = JBool True"

definition hasDetailRefs :: "json \<Rightarrow> bool" where
  "hasDetailRefs v \<longleftrightarrow> is_jarr v \<and> jitems v \<noteq> []"

definition getCompletenessRank :: "timeline_event \<Rightarrow> int" where
  "getCompletenessRank e =
    (let payload = te_payload e;
         completeness = jnullish (jget payload ''completeness'')
           (jnullish (jget payload ''timelineCompleteness'') (jnullish (te_completeness e) (te_timelineCompleteness e)))
     in if completeness = JStr ''hydrated'' then 2
        else if completeness = JStr ''full'' then 1
        else if jget payload ''historyPayloadTruncated'' = JBool True then 0
        else if jget payload ''payloadTruncated'' = JBool True then 0
        else if jget payload ''timelinePayloadTruncated'' = JBool True then 0
        else if jget payload ''completeness'' = JStr ''preview'' then 0
        else if jget payload ''timelineCompleteness'' = JStr ''preview'' then 0
        else if te_completeness e = JStr ''preview'' then 0
        else if te_timelineCompleteness e = JStr ''preview'' then 0
        else if hasDetailRefs (jget payload ''detailRefs'') then 0
        else if hasDetailRefs (te_detailRefs e) then 0
        else if is_record (jget payload ''detail'') \<and> jget (jget payload ''detail'') ''truncated'' = JBool True then 0
        else 1)"

definition compareCompleteness :: "timeline_event \<Rightarrow> timeline_event \<Rightarrow> int" where
  "compareCompleteness existing incoming =
    (if getCompletenessRank existing = getCompletenessRank incoming then 0
     else if getCompletenessRank incoming > getCompletenessRank existing then 1 else -1)"

definition compareNumbers :: "js_number option \<Rightarrow> js_number option \<Rightarrow> int" where
  "compareNumbers a b =
    (let left = opt_default JNegInf a; right = opt_default JNegInf b in
     if js_num_eq left right then 0 else if js_lt right left then 1 else -1)"

abbreviation compare_field :: "(timeline_event \<Rightarrow> int) \<Rightarrow> timeline_event \<Rightarrow> timeline_event \<Rightarrow> int" where
  "compare_field f incoming existing \<equiv> compareNumbers (Some (JFin (f incoming))) (Some (JFin (f existing)))"

definition isPeerAuditVerdict :: "json \<Rightarrow> bool" where
  "isPeerAuditVerdict v \<longleftrightarrow> v = JStr ''PASS'' \<or> v = JStr ''REWORK''"

definition isAuthoritativeDelegationAuditVerdict :: "timeline_event \<Rightarrow> bool" where
  "isAuthoritativeDelegationAuditVerdict e \<longleftrightarrow> te_type e = ''delegation.reply'' \<and> te_source e = ''daemon'' \<and>
     te_confidence e = ''high'' \<and> isPeerAuditVerdict (jget (te_payload e) ''verdict'')"

definition usage_snapshot_payload_keys :: "string list" where
  "usage_snapshot_payload_keys = [''inputTokens'', ''cacheTokens'', ''outputTokens'', ''costUsd'', ''codexStatus'']"

definition usageContextWindowSourceRank :: "json \<Rightarrow> int" where
  "usageContextWindowSourceRank v = (if v = JStr ''provider'' then 2 else if v = JStr ''preset'' then 1 else 0)"

definition canShareUsageContext :: "timeline_event \<Rightarrow> timeline_event \<Rightarrow> bool" where
  "canShareUsageContext preferred alternate \<longleftrightarrow>
    (let p = jget (te_payload preferred) ''model''; a = jget (te_payload alternate) ''model'' in
     \<not> is_jstr p \<or> \<not> is_jstr a \<or> p = a)"

definition positive_finite :: "json \<Rightarrow> bool" where
  "positive_finite v \<longleftrightarrow> (case v of JNum (JFin n) \<Rightarrow> 0 < n | _ \<Rightarrow> False)"

text \<open>
  The payload is copied when the first field is carried over: \<open>None\<close> is the payload that is still the
  preferred event's own.
\<close>

definition supplement_key :: "json \<Rightarrow> json \<Rightarrow> json option \<Rightarrow> string \<Rightarrow> json option" where
  "supplement_key preferred alternate payload key =
    (if jhas preferred key \<or> \<not> jhas alternate key then payload
     else Some (jset (opt_default preferred payload) key (jget alternate key)))"

definition supplemented_payload :: "timeline_event \<Rightarrow> timeline_event \<Rightarrow> json option" where
  "supplemented_payload preferred alternate =
    (if te_type preferred \<noteq> ''usage.update'' \<or> te_type alternate \<noteq> ''usage.update'' then None
     else
       let p = te_payload preferred; a = te_payload alternate;
           payload = foldl (supplement_key p a) None usage_snapshot_payload_keys
       in if usageContextWindowSourceRank (jget a ''contextWindowSource'') >
               usageContextWindowSourceRank (jget p ''contextWindowSource'') \<and>
             positive_finite (jget a ''contextWindow'') \<and> canShareUsageContext preferred alternate
          then Some (jset (jset (opt_default p payload) ''contextWindow'' (jget a ''contextWindow''))
                       ''contextWindowSource'' (jget a ''contextWindowSource''))
          else payload)"

definition supplementUsageSnapshot :: "timeline_event \<Rightarrow> timeline_event \<Rightarrow> timeline_event" where
  "supplementUsageSnapshot preferred alternate =
    (case supplemented_payload preferred alternate of
       None \<Rightarrow> preferred | Some payload \<Rightarrow> preferred\<lparr>te_payload := payload\<rparr>)"

text \<open>Whether the incoming event is the preferred one.\<close>

definition choosePreferredTimelineEvent :: "timeline_event \<Rightarrow> timeline_event \<Rightarrow> bool" where
  "choosePreferredTimelineEvent existing incoming =
    (if isUserDeletedTimelineEvent existing \<noteq> isUserDeletedTimelineEvent incoming then
       isUserDeletedTimelineEvent incoming
     else if isStreaming existing \<noteq> isStreaming incoming then \<not> isStreaming incoming
     else if isAuthoritativeDelegationAuditVerdict existing \<noteq> isAuthoritativeDelegationAuditVerdict incoming then
       isAuthoritativeDelegationAuditVerdict incoming
     else if isStreaming existing \<and> isStreaming incoming \<and> compare_field te_epoch incoming existing \<noteq> 0 then
       compare_field te_epoch incoming existing > 0
     else if isStreaming existing \<and> isStreaming incoming \<and> compare_field te_seq incoming existing \<noteq> 0 then
       compare_field te_seq incoming existing > 0
     else if compareCompleteness existing incoming \<noteq> 0 then compareCompleteness existing incoming > 0
     else if compare_field te_epoch incoming existing \<noteq> 0 then compare_field te_epoch incoming existing > 0
     else if compare_field te_seq incoming existing \<noteq> 0 then compare_field te_seq incoming existing > 0
     else if compare_field te_ts incoming existing \<noteq> 0 then compare_field te_ts incoming existing > 0
     else True)"

definition preferTimelineEvent :: "timeline_event \<Rightarrow> timeline_event \<Rightarrow> timeline_event" where
  "preferTimelineEvent existing incoming =
    (if choosePreferredTimelineEvent existing incoming then supplementUsageSnapshot incoming existing
     else supplementUsageSnapshot existing incoming)"

text \<open>Whether the result is the existing event object itself.\<close>

definition prefers_existing :: "timeline_event \<Rightarrow> timeline_event \<Rightarrow> bool" where
  "prefers_existing existing incoming \<longleftrightarrow>
     \<not> choosePreferredTimelineEvent existing incoming \<and> supplemented_payload existing incoming = None"

definition preferLastValueSignal :: "timeline_event \<Rightarrow> timeline_event \<Rightarrow> timeline_event" where
  "preferLastValueSignal existing incoming =
    (if compare_field te_epoch incoming existing \<noteq> 0 then
       (if compare_field te_epoch incoming existing > 0 then incoming else existing)
     else if compare_field te_seq incoming existing \<noteq> 0 then
       (if compare_field te_seq incoming existing > 0 then incoming else existing)
     else if compare_field te_ts incoming existing \<noteq> 0 then
       (if compare_field te_ts incoming existing > 0 then incoming else existing)
     else preferTimelineEvent existing incoming)"

section \<open>Merging a window\<close>

text \<open>A \<open>Map\<close> from event ids in order of insertion.\<close>

type_synonym event_map = "(string \<times> timeline_event) list"

definition index_incoming :: "event_map \<Rightarrow> timeline_event \<Rightarrow> event_map" where
  "index_incoming m event =
    (case map_of m (te_eventId event) of
       None \<Rightarrow> AList.update (te_eventId event) event m
     | Some prev \<Rightarrow> AList.update (te_eventId event) (preferTimelineEvent prev event) m)"

fun replace_existing :: "event_map \<Rightarrow> timeline_event list \<Rightarrow> bool \<times> event_map \<times> timeline_event list" where
  "replace_existing m [] = (False, m, [])"
| "replace_existing m (event # rest) =
     (case map_of m (te_eventId event) of
        None \<Rightarrow> (let (changed, m', out) = replace_existing m rest in (changed, m', event # out))
      | Some nxt \<Rightarrow>
          (let (changed, m', out) = replace_existing (AList.delete (te_eventId event) m) rest
           in (changed \<or> \<not> prefers_existing event nxt, m', preferTimelineEvent event nxt # out)))"

definition event_cmp :: "timeline_event \<Rightarrow> timeline_event \<Rightarrow> int" where
  "event_cmp a b = (if te_ts a - te_ts b \<noteq> 0 then te_ts a - te_ts b else te_seq a - te_seq b)"

fun merge_sorted :: "timeline_event list \<Rightarrow> timeline_event list \<Rightarrow> timeline_event list" where
  "merge_sorted [] rs = rs"
| "merge_sorted ls [] = ls"
| "merge_sorted (l # ls) (r # rs) =
     (if te_ts l < te_ts r \<or> (te_ts l = te_ts r \<and> te_seq l \<le> te_seq r) then l # merge_sorted ls (r # rs)
      else r # merge_sorted (l # ls) rs)"

fun out_of_order :: "timeline_event list \<Rightarrow> bool" where
  "out_of_order (previous # current # rest) =
     (te_ts previous > te_ts current \<or> (te_ts previous = te_ts current \<and> te_seq previous > te_seq current) \<or>
      out_of_order (current # rest))"
| "out_of_order _ = False"

text \<open>\<open>xs.slice(start)\<close>, a negative start counted from the end; \<open>-0\<close> is \<open>0\<close>.\<close>

definition js_slice :: "int \<Rightarrow> 'a list \<Rightarrow> 'a list" where
  "js_slice start xs = (if start < 0 then drop (nat (int (length xs) + start)) xs else drop (nat start) xs)"

definition mergeTimelineEvents :: "timeline_event list \<Rightarrow> timeline_event list \<Rightarrow> int \<Rightarrow> timeline_event list" where
  "mergeTimelineEvents existing incoming maxEvents =
    (let (changed, m, replaced) = replace_existing (foldl index_incoming [] incoming) existing;
         newEvents = js_sort_by event_cmp (map snd m)
     in if \<not> changed \<and> newEvents = [] then existing
        else
          let merged = merge_sorted replaced newEvents;
              bounded = (if int (length merged) > maxEvents then js_slice (int (length merged) - maxEvents) merged
                         else merged)
          in if out_of_order bounded then js_sort_by event_cmp bounded else bounded)"

section \<open>Merging with independent text and detail tails\<close>

definition timeline_text_history_event_types :: "string list" where
  "timeline_text_history_event_types = [''user.message'', ''assistant.text'']"

definition is_text_event :: "timeline_event \<Rightarrow> bool" where
  "is_text_event e \<longleftrightarrow> te_type e \<in> set timeline_text_history_event_types"

fun class_transitions :: "bool option \<Rightarrow> timeline_event list \<Rightarrow> nat" where
  "class_transitions prev [] = 0"
| "class_transitions prev (e # es) =
     (if prev \<noteq> None \<and> prev \<noteq> Some (is_text_event e) then 1 else 0) + class_transitions (Some (is_text_event e)) es"

definition text_tail :: "int \<Rightarrow> int \<Rightarrow> timeline_event list \<Rightarrow> timeline_event list" where
  "text_tail maxTextEvents totalBudget merged =
     js_slice (- min maxTextEvents totalBudget) (filter is_text_event merged)"

definition detail_tail :: "int \<Rightarrow> int \<Rightarrow> timeline_event list \<Rightarrow> timeline_event list" where
  "detail_tail maxDetailEvents detailBudget merged =
     js_slice (- min maxDetailEvents detailBudget) (filter (\<lambda>e. \<not> is_text_event e) merged)"

definition mergeTimelineEventsWithTextPriority ::
  "timeline_event list \<Rightarrow> timeline_event list \<Rightarrow> int \<Rightarrow> int \<Rightarrow> int \<Rightarrow> timeline_event list" where
  "mergeTimelineEventsWithTextPriority existing incoming maxDetailEvents maxTextEvents maxTotalEvents =
    (let merged = mergeTimelineEvents existing incoming
           (max (max maxDetailEvents maxTextEvents) (int (length existing) + int (length incoming)));
         totalBudget = max 0 maxTotalEvents;
         text = text_tail maxTextEvents totalBudget merged;
         detailBudget = max 0 (totalBudget - int (length text));
         detail = detail_tail maxDetailEvents detailBudget merged
     in if int (length merged) > totalBudget \<and> class_transitions None merged > 2 then
          js_slice (- totalBudget) merged
        else js_sort_by event_cmp (text @ detail))"

section \<open>Which version is preferred\<close>

lemma supplement_fields [simp]:
  "te_eventId (supplementUsageSnapshot p a) = te_eventId p" "te_type (supplementUsageSnapshot p a) = te_type p"
  "te_ts (supplementUsageSnapshot p a) = te_ts p" "te_seq (supplementUsageSnapshot p a) = te_seq p"
  "te_epoch (supplementUsageSnapshot p a) = te_epoch p"
  by (simp_all add: supplementUsageSnapshot_def split: option.split)

lemma supplement_key_other:
  "k \<noteq> key \<Longrightarrow> jget (opt_default p (supplement_key p a x key)) k = jget (opt_default p x) k"
  by (simp add: supplement_key_def)

lemma supplement_keys_other:
  "k \<notin> set keys \<Longrightarrow> jget (opt_default p (foldl (supplement_key p a) x keys)) k = jget (opt_default p x) k"
  by (induction keys arbitrary: x) (simp_all add: supplement_key_other)

lemma supplement_other:
  assumes "k \<notin> set usage_snapshot_payload_keys" and "k \<noteq> ''contextWindow''" and "k \<noteq> ''contextWindowSource''"
  shows "jget (te_payload (supplementUsageSnapshot p a)) k = jget (te_payload p) k"
proof -
  have "te_payload (supplementUsageSnapshot p a) = opt_default (te_payload p) (supplemented_payload p a)"
    by (simp add: supplementUsageSnapshot_def split: option.split)
  moreover have "jget (opt_default (te_payload p) (supplemented_payload p a)) k = jget (te_payload p) k"
    using assms(2,3) supplement_keys_other [OF assms(1), of "te_payload p" "te_payload a" None]
    by (auto simp: supplemented_payload_def Let_def)
  ultimately show ?thesis by simp
qed

lemma supplement_flags [simp]:
  "isUserDeletedTimelineEvent (supplementUsageSnapshot p a) = isUserDeletedTimelineEvent p"
  "isStreaming (supplementUsageSnapshot p a) = isStreaming p"
  by (simp_all add: isUserDeletedTimelineEvent_def isStreaming_def supplement_other usage_snapshot_payload_keys_def)

lemma compare_field_sign:
  "compare_field f a b = (if f a = f b then 0 else if f b < f a then 1 else -1)"
  by (simp add: compareNumbers_def)

lemma prefer_id [simp]:
  "te_eventId e = te_eventId i \<Longrightarrow> te_eventId (preferTimelineEvent e i) = te_eventId i"
  by (simp add: preferTimelineEvent_def)

lemma prefer_deleted [simp]:
  "isUserDeletedTimelineEvent (preferTimelineEvent e i) \<longleftrightarrow> isUserDeletedTimelineEvent e \<or> isUserDeletedTimelineEvent i"
  by (auto simp: preferTimelineEvent_def choosePreferredTimelineEvent_def)

lemma prefer_streaming:
  assumes "isUserDeletedTimelineEvent e = isUserDeletedTimelineEvent i"
  shows "isStreaming (preferTimelineEvent e i) \<longleftrightarrow> isStreaming e \<and> isStreaming i"
  using assms by (auto simp: preferTimelineEvent_def choosePreferredTimelineEvent_def)

lemma prefers_existing_same: "prefers_existing e i \<Longrightarrow> preferTimelineEvent e i = e"
  by (simp add: prefers_existing_def preferTimelineEvent_def supplementUsageSnapshot_def)

definition version_key :: "timeline_event \<Rightarrow> int \<times> int" where
  "version_key e = (te_epoch e, te_seq e)"

text \<open>
  Lifecycle and freshness of one message: a deleted version wins over one that is not; otherwise the settled
  version of an event wins over a streaming one, then an authoritative audit verdict over prose, and
  between two streaming versions the one with the greater epoch and sequence number.
\<close>

theorem prefer_lifecycle:
  "let w = preferTimelineEvent existing incoming;
       del = isUserDeletedTimelineEvent; str = isStreaming; verdict = isAuthoritativeDelegationAuditVerdict
   in (del w \<longleftrightarrow> del existing \<or> del incoming) \<and>
      version_key w =
        (if del existing \<noteq> del incoming then version_key (if del incoming then incoming else existing)
         else if str existing \<noteq> str incoming then version_key (if str existing then incoming else existing)
         else if verdict existing \<noteq> verdict incoming then version_key (if verdict incoming then incoming else existing)
         else if str existing then max (version_key existing) (version_key incoming)
         else version_key w) \<and>
      (str w \<longleftrightarrow> (if del existing \<noteq> del incoming then str (if del incoming then incoming else existing)
                else str existing \<and> str incoming))"
  by (auto simp: preferTimelineEvent_def choosePreferredTimelineEvent_def compare_field_sign Let_def version_key_def
      max_def less_eq_prod_def less_prod_def)

section \<open>Last-value signals\<close>

definition signal_key :: "timeline_event \<Rightarrow> int \<times> int \<times> int" where
  "signal_key e = (te_epoch e, te_seq e, te_ts e)"

lemma signal_key_prefer [simp]:
  "signal_key e = signal_key i \<Longrightarrow> signal_key (preferTimelineEvent e i) = signal_key e"
  by (simp add: preferTimelineEvent_def signal_key_def)

lemma last_value_key: "signal_key (preferLastValueSignal e i) = max (signal_key e) (signal_key i)"
proof (cases "signal_key e = signal_key i")
  case True
  then have "preferLastValueSignal e i = preferTimelineEvent e i"
    by (simp add: preferLastValueSignal_def compare_field_sign signal_key_def)
  then show ?thesis using True by simp
next
  case False
  then show ?thesis
    by (auto simp: preferLastValueSignal_def compare_field_sign signal_key_def max_def less_eq_prod_def less_prod_def)
qed

interpretation last_value: event_reducer preferLastValueSignal "\<lambda>_. True" "\<lambda>_. True" "\<lambda>a b. signal_key a \<le> signal_key b"
  by unfold_locales (auto simp: last_value_key)

interpretation revisions: event_reducer preferTimelineEvent "\<lambda>_. True" "\<lambda>_. True"
  "\<lambda>a b. isUserDeletedTimelineEvent a \<longrightarrow> isUserDeletedTimelineEvent b"
  by unfold_locales auto

lemma foldl_max: "foldl max a xs = Max (set (a # (xs :: 'a::linorder list)))"
proof (induction xs arbitrary: a)
  case (Cons x xs)
  show ?case by (cases "xs = []") (simp_all add: Cons.IH max.assoc)
qed simp

lemma last_value_fold:
  "signal_key (foldl preferLastValueSignal e es) = foldl max (signal_key e) (map signal_key es)"
  by (induction es arbitrary: e) (simp_all add: last_value_key)

text \<open>
  The current value of a signal is the newest one received: after any sequence of signals, in any order, the
  value kept has the greatest epoch, sequence number and time of all of them, and is at least as new as
  after any prefix of the sequence.
\<close>

theorem last_value_is_newest:
  "signal_key (foldl preferLastValueSignal e (es @ fs)) = Max (set (map signal_key (e # es @ fs))) \<and>
   signal_key (foldl preferLastValueSignal e es) \<le> signal_key (foldl preferLastValueSignal e (es @ fs))"
proof
  show "signal_key (foldl preferLastValueSignal e (es @ fs)) = Max (set (map signal_key (e # es @ fs)))"
    unfolding last_value_fold foldl_max by simp
qed (rule last_value.prefix_advances; simp add: list_all_iff)

section \<open>The merged window\<close>

lemma event_cmp_lex: "event_cmp = cmp_lex te_ts (\<lambda>a b. te_seq a - te_seq b)"
  by (intro ext) (simp add: event_cmp_def cmp_lex_def)

lemma event_cmp_preorder: "cmp_total_preorder event_cmp"
  unfolding event_cmp_lex by (intro cmp_lex_preorder cmp_diff_preorder)

lemma event_cmp_le: "event_cmp a b \<le> 0 \<longleftrightarrow> te_ts a < te_ts b \<or> (te_ts a = te_ts b \<and> te_seq a \<le> te_seq b)"
  by (auto simp: event_cmp_lex cmp_lex_le)

definition chronological :: "timeline_event list \<Rightarrow> bool" where
  "chronological = sorted_wrt (\<lambda>a b. event_cmp a b \<le> 0)"

lemma chronological_sort [simp]: "chronological (js_sort_by event_cmp es)"
  unfolding chronological_def by (rule sorted_js_sort_by [OF event_cmp_preorder])

lemma in_order_chronological: "\<not> out_of_order es \<Longrightarrow> chronological es"
proof (induction es rule: out_of_order.induct)
  case (1 a b rest)
  then have ab: "event_cmp a b \<le> 0" and c: "chronological (b # rest)" by (auto simp: event_cmp_le)
  have "event_cmp a x \<le> 0" if "x \<in> set (b # rest)" for x
    using c that ab by (auto simp: chronological_def event_cmp_le)
  then show ?case using c by (simp add: chronological_def)
qed (simp_all add: chronological_def)

lemma set_merge_sorted [simp]: "set (merge_sorted ls rs) = set ls \<union> set rs"
  by (induction ls rs rule: merge_sorted.induct) auto

lemma mset_merge_sorted [simp]: "mset (merge_sorted ls rs) = mset ls + mset rs"
  by (induction ls rs rule: merge_sorted.induct) auto

lemma length_merge_sorted [simp]: "length (merge_sorted ls rs) = length ls + length rs"
  by (induction ls rs rule: merge_sorted.induct) auto

lemma length_js_slice: "0 \<le> start \<Longrightarrow> int (length (js_slice start xs)) = max 0 (int (length xs) - start)"
  by (simp add: js_slice_def)

lemma length_js_slice_neg: "start < 0 \<Longrightarrow> int (length (js_slice start xs)) = min (int (length xs)) (- start)"
  by (simp add: js_slice_def)

definition bound_window :: "int \<Rightarrow> timeline_event list \<Rightarrow> timeline_event list" where
  "bound_window n merged = (if int (length merged) > n then js_slice (int (length merged) - n) merged else merged)"

lemma merged_cases [consumes 1, case_names same new]:
  assumes r: "replace_existing (foldl index_incoming [] incoming) existing = (changed, m, replaced)"
    and same: "\<not> changed \<Longrightarrow> m = [] \<Longrightarrow> mergeTimelineEvents existing incoming n = existing \<Longrightarrow> P"
    and new: "mset (mergeTimelineEvents existing incoming n) =
          mset (bound_window n (merge_sorted replaced (js_sort_by event_cmp (map snd m)))) \<Longrightarrow>
        chronological (mergeTimelineEvents existing incoming n) \<Longrightarrow> P"
  shows P
proof (cases "\<not> changed \<and> js_sort_by event_cmp (map snd m) = []")
  case True
  then have "m = []" by (metis length_js_sort_by length_map length_0_conv)
  moreover have "mergeTimelineEvents existing incoming n = existing"
    unfolding mergeTimelineEvents_def r Let_def prod.case if_P [OF True] ..
  ultimately show ?thesis using True same by blast
next
  case False
  let ?b = "bound_window n (merge_sorted replaced (js_sort_by event_cmp (map snd m)))"
  have "mergeTimelineEvents existing incoming n = (if out_of_order ?b then js_sort_by event_cmp ?b else ?b)"
    unfolding mergeTimelineEvents_def r Let_def prod.case if_not_P [OF False] bound_window_def ..
  then show ?thesis using new in_order_chronological by auto
qed

text \<open>
  A merged window is the cached one unchanged, or it is in chronological order and within its bound, also when
  the cached window was out of order.
\<close>

theorem merge_ordered_bounded:
  "mergeTimelineEvents existing incoming n = existing \<or>
   (chronological (mergeTimelineEvents existing incoming n) \<and>
    int (length (mergeTimelineEvents existing incoming n)) \<le> max 0 n)"
proof -
  obtain changed m replaced where r: "replace_existing (foldl index_incoming [] incoming) existing = (changed, m, replaced)"
    by (cases "replace_existing (foldl index_incoming [] incoming) existing")
  then show ?thesis
  proof (cases rule: merged_cases [where n = n])
    case new
    let ?b = "bound_window n (merge_sorted replaced (js_sort_by event_cmp (map snd m)))"
    have "int (length ?b) \<le> max 0 n"
      unfolding bound_window_def by (simp add: length_js_slice)
    moreover have "length (mergeTimelineEvents existing incoming n) = length ?b"
      using new(1) by (metis size_mset)
    ultimately show ?thesis using new(2) by simp
  qed simp
qed

section \<open>The contents of a merged window\<close>

definition add_revision :: "string \<Rightarrow> timeline_event option \<Rightarrow> timeline_event \<Rightarrow> timeline_event option" where
  "add_revision i acc e =
    (if te_eventId e = i then Some (case acc of None \<Rightarrow> e | Some p \<Rightarrow> preferTimelineEvent p e) else acc)"

text \<open>The version of an event that the incoming events give, and the one shown for a cached event.\<close>

definition incoming_version :: "timeline_event list \<Rightarrow> string \<Rightarrow> timeline_event option" where
  "incoming_version incoming i = foldl (add_revision i) None incoming"

definition shown_version :: "timeline_event list \<Rightarrow> timeline_event \<Rightarrow> timeline_event" where
  "shown_version incoming e =
    (case incoming_version incoming (te_eventId e) of None \<Rightarrow> e | Some v \<Rightarrow> preferTimelineEvent e v)"

definition keyed :: "event_map \<Rightarrow> bool" where
  "keyed m \<longleftrightarrow> distinct (map fst m) \<and> (\<forall>(k, v) \<in> set m. te_eventId v = k)"

lemma set_update_subset: "set (AList.update k v m) \<subseteq> insert (k, v) (set m)"
  by (induction m) auto

lemma keyed_update: "keyed m \<Longrightarrow> te_eventId v = k \<Longrightarrow> keyed (AList.update k v m)"
  using set_update_subset [of k v m] by (fastforce simp: keyed_def distinct_update)

lemma keyed_get: "keyed m \<Longrightarrow> map_of m i = Some v \<Longrightarrow> te_eventId v = i"
  by (auto simp: keyed_def dest: map_of_SomeD)

lemma keyed_delete: "keyed m \<Longrightarrow> keyed (AList.delete k m)"
  by (auto simp: keyed_def AList.delete_eq distinct_map_filter)

lemma keyed_index: "keyed m \<Longrightarrow> keyed (foldl index_incoming m es)"
proof (induction es arbitrary: m)
  case (Cons e es)
  have "keyed (index_incoming m e)"
    using Cons.prems by (auto simp: index_incoming_def keyed_get intro!: keyed_update split: option.split)
  then show ?case using Cons.IH by simp
qed simp

lemma index_get: "map_of (foldl index_incoming m es) i = foldl (add_revision i) (map_of m i) es"
proof (induction es arbitrary: m)
  case (Cons e es)
  have "map_of (index_incoming m e) i = add_revision i (map_of m i) e"
    by (auto simp: index_incoming_def add_revision_def update_conv' split: option.split)
  then show ?case using Cons.IH by simp
qed simp

lemma length_update: "length (AList.update k v m) \<le> Suc (length m)"
  by (induction m) auto

lemma length_index: "length (foldl index_incoming m es) \<le> length m + length es"
proof (induction es arbitrary: m)
  case (Cons e es)
  have "length (index_incoming m e) \<le> Suc (length m)"
    by (simp add: index_incoming_def length_update split: option.split)
  then show ?case using Cons.IH [of "index_incoming m e"] by simp
qed simp

definition shown_from :: "event_map \<Rightarrow> timeline_event \<Rightarrow> timeline_event" where
  "shown_from m e = (case map_of m (te_eventId e) of None \<Rightarrow> e | Some v \<Rightarrow> preferTimelineEvent e v)"

lemma replace_existing_result:
  assumes "replace_existing m es = (changed, m', out)" and "distinct (map te_eventId es)"
  shows "out = map (shown_from m) es \<and> m' = filter (\<lambda>(k, v). k \<notin> te_eventId ` set es) m \<and>
    (\<not> changed \<longrightarrow> out = es)"
  using assms
proof (induction es arbitrary: m changed m' out)
  case (Cons e es)
  have fresh: "te_eventId e \<notin> te_eventId ` set es" using Cons.prems(2) by simp
  show ?case
  proof (cases "map_of m (te_eventId e)")
    case None
    then obtain c o2 where r: "replace_existing m es = (c, m', o2)" "out = e # o2" "changed = c"
      using Cons.prems(1) by (auto split: prod.splits)
    have "te_eventId e \<notin> fst ` set m" using None by (simp add: map_of_eq_None_iff)
    then have "filter (\<lambda>(k, v). k \<notin> te_eventId ` set (e # es)) m = filter (\<lambda>(k, v). k \<notin> te_eventId ` set es) m"
      by (intro filter_cong) (auto simp: image_iff)
    then show ?thesis using Cons.IH [OF r(1)] Cons.prems(2) None r(2,3) by (auto simp: shown_from_def)
  next
    case (Some v)
    let ?d = "AList.delete (te_eventId e) m"
    obtain c o2 where r: "replace_existing ?d es = (c, m', o2)" "out = preferTimelineEvent e v # o2"
        "changed = (c \<or> \<not> prefers_existing e v)"
      using Cons.prems(1) Some by (auto split: prod.splits)
    have "shown_from ?d x = shown_from m x" if "x \<in> set es" for x
      using fresh that by (auto simp: shown_from_def AList.delete_conv' image_iff)
    moreover have "filter (\<lambda>(k, v). k \<notin> te_eventId ` set es) ?d = filter (\<lambda>(k, v). k \<notin> te_eventId ` set (e # es)) m"
      by (auto simp: AList.delete_eq intro: filter_cong)
    ultimately show ?thesis
      using Cons.IH [OF r(1)] Cons.prems(2) Some r(2,3) prefers_existing_same [of e v]
      by (auto simp: shown_from_def)
  qed
qed simp

definition new_versions :: "timeline_event list \<Rightarrow> timeline_event list \<Rightarrow> timeline_event set" where
  "new_versions existing incoming =
     {v. \<exists>i. i \<notin> te_eventId ` set existing \<and> incoming_version incoming i = Some v}"

lemma shown_from_index [simp]: "shown_from (foldl index_incoming [] incoming) = shown_version incoming"
  by (intro ext) (simp add: shown_from_def shown_version_def incoming_version_def index_get)

lemma shown_id [simp]: "te_eventId (shown_version incoming e) = te_eventId e"
proof -
  have "keyed (foldl index_incoming [] incoming)" by (rule keyed_index) (simp add: keyed_def)
  then have "te_eventId v = te_eventId e" if "incoming_version incoming (te_eventId e) = Some v" for v
    using that keyed_get [of "foldl index_incoming [] incoming" "te_eventId e" v]
    by (simp add: index_get incoming_version_def)
  then show ?thesis by (cases "incoming_version incoming (te_eventId e)") (simp_all add: shown_version_def)
qed

text \<open>The window before it is cut: the preferred version of each event, once.\<close>

lemma merge_window:
  assumes "distinct (map te_eventId existing)"
  obtains w new where "mset w = mset (map (shown_version incoming) existing @ new)"
    and "set new = new_versions existing incoming" and "distinct (map te_eventId (map (shown_version incoming) existing @ new))"
    and "length new \<le> length incoming"
    and "(mergeTimelineEvents existing incoming n = existing \<and> mset w = mset existing) \<or>
      mset (mergeTimelineEvents existing incoming n) = mset (bound_window n w)"
proof -
  let ?m = "foldl index_incoming [] incoming"
  obtain changed m' replaced where r: "replace_existing ?m existing = (changed, m', replaced)"
    by (cases "replace_existing ?m existing")
  note rr = replace_existing_result [OF r assms(1)]
  have m': "m' = filter (\<lambda>(k, v). k \<notin> te_eventId ` set existing) ?m" and rep: "replaced = map (shown_version incoming) existing"
    using rr by simp_all
  have k: "keyed ?m" by (rule keyed_index) (simp add: keyed_def)
  have d: "distinct (map fst m')" using k unfolding m' keyed_def by (simp add: distinct_map_filter)
  have ids: "map te_eventId (map snd m') = map fst m'"
    using k unfolding m' keyed_def by (auto intro: map_cong)
  have "length m' \<le> length ?m" unfolding m' by (rule length_filter_le)
  also have "\<dots> \<le> length incoming" using length_index [of "[]" incoming] by simp
  finally have len: "length (map snd m') \<le> length incoming" by simp
  have vals: "set (map snd m') = new_versions existing incoming"
  proof -
    have "(i, v) \<in> set ?m \<longleftrightarrow> incoming_version incoming i = Some v" for i v
      using k map_of_eq_Some_iff [of ?m i v] by (simp add: keyed_def incoming_version_def index_get)
    then show ?thesis unfolding m' new_versions_def by (auto simp: image_iff)
  qed
  have dist: "distinct (map te_eventId (map (shown_version incoming) existing @ map snd m'))"
  proof -
    have "set (map fst m') \<inter> te_eventId ` set existing = {}" unfolding m' by auto
    moreover have "map te_eventId (map (shown_version incoming) existing) = map te_eventId existing" by simp
    ultimately show ?thesis using d assms(1) ids by (auto simp: distinct_append simp del: map_map)
  qed
  let ?w = "merge_sorted replaced (js_sort_by event_cmp (map snd m'))"
  have w: "mset ?w = mset (map (shown_version incoming) existing @ map snd m')" by (simp add: rep)
  show ?thesis
  proof (rule that [OF w vals dist len])
    show "(mergeTimelineEvents existing incoming n = existing \<and> mset ?w = mset existing) \<or>
      mset (mergeTimelineEvents existing incoming n) = mset (bound_window n ?w)"
      using r
    proof (cases rule: merged_cases [where n = n])
      case same
      then have "replaced = existing" using rr by blast
      then show ?thesis using same by simp
    qed blast
  qed
qed

lemma set_bound_window: "set (bound_window n w) \<subseteq> set w"
  by (auto simp: bound_window_def js_slice_def dest: in_set_dropD)

lemma distinct_bound_window: "distinct (map f w) \<Longrightarrow> distinct (map f (bound_window n w))"
  by (simp add: bound_window_def js_slice_def flip: drop_map)

lemma length_bound_window: "0 \<le> n \<Longrightarrow> int (length (bound_window n w)) = min n (int (length w))"
  by (simp add: bound_window_def length_js_slice)

lemma uncut_window: "int (length w) \<le> n \<Longrightarrow> bound_window n w = w"
  by (simp add: bound_window_def)

lemma distinct_ids_mset: "mset xs = mset ys \<Longrightarrow> distinct (map te_eventId xs) \<Longrightarrow> distinct (map te_eventId ys)"
  by (metis mset_map mset_eq_imp_distinct_iff)

lemma merge_contents_window:
  fixes existing incoming
  assumes "distinct (map te_eventId existing)"
  defines "all \<equiv> shown_version incoming ` set existing \<union> new_versions existing incoming"
  shows "distinct (map te_eventId (mergeTimelineEvents existing incoming n))"
    and "set (mergeTimelineEvents existing incoming n) \<subseteq> all"
    and "int (length existing) + int (length incoming) \<le> n \<Longrightarrow> set (mergeTimelineEvents existing incoming n) = all"
    and "0 \<le> n \<Longrightarrow> mergeTimelineEvents existing incoming n = existing \<or>
      int (length (mergeTimelineEvents existing incoming n)) = min n (int (card all))"
proof -
  obtain w new where w: "mset w = mset (map (shown_version incoming) existing @ new)"
      "set new = new_versions existing incoming" "distinct (map te_eventId (map (shown_version incoming) existing @ new))"
      "length new \<le> length incoming"
    and m: "(mergeTimelineEvents existing incoming n = existing \<and> mset w = mset existing) \<or>
      mset (mergeTimelineEvents existing incoming n) = mset (bound_window n w)"
    using merge_window [OF assms(1), of incoming n] by blast
  let ?r = "mergeTimelineEvents existing incoming n"
  have dw: "distinct (map te_eventId w)" using distinct_ids_mset [OF w(1) [symmetric] w(3)] .
  have sw: "set w = all" using mset_eq_setD [OF w(1)] w(2) by (simp add: all_def)
  have lw: "length w = length existing + length new" using arg_cong [OF w(1), of size] by simp
  have card: "card all = length w"
    unfolding sw [symmetric] using dw distinct_card by (auto simp: distinct_map)
  have part: "mset ?r = mset w \<or> mset ?r = mset (bound_window n w)" using m by metis
  show "distinct (map te_eventId ?r)"
    using part distinct_ids_mset [OF _ dw] distinct_ids_mset [OF _ distinct_bound_window [OF dw]] by metis
  show "set ?r \<subseteq> all" using part set_bound_window [of n w] unfolding sw [symmetric] by (metis mset_eq_setD order_refl)
  show "set ?r = all" if "int (length existing) + int (length incoming) \<le> n"
  proof -
    have "bound_window n w = w" using that w(4) lw by (intro uncut_window) simp
    then show ?thesis using part unfolding sw [symmetric] by (metis mset_eq_setD)
  qed
  show "?r = existing \<or> int (length ?r) = min n (int (card all))" if "0 \<le> n"
    using m length_bound_window [OF that, of w] card by (metis size_mset)
qed

lemma merge_set:
  assumes "distinct (map te_eventId existing)" and "int (length existing) + int (length incoming) \<le> n"
  shows "set (mergeTimelineEvents existing incoming n) =
      shown_version incoming ` set existing \<union> new_versions existing incoming \<and>
    distinct (map te_eventId (mergeTimelineEvents existing incoming n))"
  using merge_contents_window [OF assms(1)] assms(2) by blast


definition sample_event :: "string \<Rightarrow> string \<Rightarrow> int \<Rightarrow> (string \<times> json) list \<Rightarrow> timeline_event" where
  "sample_event i t n payload = \<lparr>te_eventId = i, te_sessionId = ''s'', te_ts = n, te_seq = n, te_epoch = 1,
     te_source = ''daemon'', te_confidence = ''high'', te_type = t, te_payload = JObj payload,
     te_completeness = JUndefined, te_timelineCompleteness = JUndefined, te_detailRefs = JUndefined,
     te_hidden = None, te_summary = None\<rparr>"

lemma sample_event_fields [simp]:
  "te_eventId (sample_event i t n p) = i" "te_type (sample_event i t n p) = t" "te_ts (sample_event i t n p) = n"
  "te_seq (sample_event i t n p) = n" "te_epoch (sample_event i t n p) = 1" "te_payload (sample_event i t n p) = JObj p"
  by (simp_all add: sample_event_def)


section \<open>Deletions\<close>

lemma revisions_deleted:
  "isUserDeletedTimelineEvent (foldl preferTimelineEvent e es) \<longleftrightarrow> (\<exists>x \<in> set (e # es). isUserDeletedTimelineEvent x)"
  by (induction es arbitrary: e) auto

lemma incoming_version_revisions:
  "incoming_version es i = (case filter (\<lambda>e. te_eventId e = i) es of [] \<Rightarrow> None | e # r \<Rightarrow> Some (foldl preferTimelineEvent e r))"
  by (induction es rule: rev_induct) (auto simp: incoming_version_def add_revision_def split: list.splits)

lemma incoming_version_deleted:
  assumes "d \<in> set incoming" and "isUserDeletedTimelineEvent d"
  shows "\<exists>v. incoming_version incoming (te_eventId d) = Some v \<and> isUserDeletedTimelineEvent v"
proof -
  let ?r = "filter (\<lambda>e. te_eventId e = te_eventId d) incoming"
  have d: "d \<in> set ?r" using assms(1) by simp
  then obtain e r where r: "?r = e # r" by (cases ?r) auto
  then have "isUserDeletedTimelineEvent (foldl preferTimelineEvent e r)"
    using d assms(2) unfolding revisions_deleted by metis
  then show ?thesis using r by (simp add: incoming_version_revisions)
qed

text \<open>
  A user's delete is final: if any version of an event, cached or incoming, is the tombstone of a delete, the
  merged window shows that event as deleted.
\<close>

theorem deleted_stays_deleted:
  assumes "distinct (map te_eventId existing)" and "int (length existing) + int (length incoming) \<le> n"
    and "d \<in> set existing \<union> set incoming" and "isUserDeletedTimelineEvent d"
    and "e \<in> set (mergeTimelineEvents existing incoming n)" and "te_eventId e = te_eventId d"
  shows "isUserDeletedTimelineEvent e"
proof -
  have v: "\<exists>v. incoming_version incoming (te_eventId d) = Some v \<and> isUserDeletedTimelineEvent v" if "d \<in> set incoming"
    using incoming_version_deleted that assms(4) by blast
  have keyed: "te_eventId x = i" if "incoming_version incoming i = Some x" for i x
    using that keyed_get [OF keyed_index [of "[]" incoming], of i x] by (simp add: keyed_def index_get incoming_version_def)
  consider (old) x where "x \<in> set existing" "e = shown_version incoming x" | (new) "e \<in> new_versions existing incoming"
    using merge_set [OF assms(1,2)] assms(5) by auto
  then show ?thesis
  proof cases
    case old
    then have id: "te_eventId x = te_eventId d" using assms(6) by simp
    show ?thesis
    proof (cases "d \<in> set incoming")
      case True
      then show ?thesis using v id old(2) by (auto simp: shown_version_def)
    next
      case False
      then have "x = d" using assms(1,3) id old(1) by (auto simp: distinct_map dest: inj_onD)
      then show ?thesis using assms(4) old(2) by (auto simp: shown_version_def split: option.split)
    qed
  next
    case new
    then obtain i where i: "i \<notin> te_eventId ` set existing" "incoming_version incoming i = Some e"
      by (auto simp: new_versions_def)
    then have "i = te_eventId d" using keyed assms(6) by auto
    then show ?thesis using v i assms(3) by auto
  qed
qed

theorem deleted_stays_deleted_witness:
  "isUserDeletedTimelineEvent (hd (mergeTimelineEvents
     [sample_event ''a'' ''user.message'' 1 [(''userDeleted'', JBool True)]] [sample_event ''a'' ''user.message'' 9 []] 300))"
proof -
  let ?x = "sample_event ''a'' ''user.message'' 1 [(''userDeleted'', JBool True)]" and ?i = "sample_event ''a'' ''user.message'' 9 []"
  let ?m = "mergeTimelineEvents [?x] [?i] 300"
  have p: "distinct (map te_eventId [?x])" "int (length [?x]) + int (length [?i]) \<le> 300" by simp_all
  have set: "set ?m = {shown_version [?i] ?x}"
    using merge_set [OF p] by (auto simp: new_versions_def incoming_version_def add_revision_def split: if_splits)
  then have "hd ?m \<in> set ?m" "te_eventId (hd ?m) = te_eventId ?x"
    by (metis hd_in_set insert_not_empty set_empty, metis hd_in_set insert_not_empty set_empty shown_id singletonD)
  from deleted_stays_deleted [OF p _ _ this] show ?thesis
    by (simp add: isUserDeletedTimelineEvent_def)
qed

section \<open>Text and detail tails\<close>

text \<open>The merged list both tails are taken from.\<close>

definition full_merge :: "timeline_event list \<Rightarrow> timeline_event list \<Rightarrow> int \<Rightarrow> int \<Rightarrow> timeline_event list" where
  "full_merge existing incoming d t = mergeTimelineEvents existing incoming
     (max (max d t) (int (length existing) + int (length incoming)))"

lemma text_priority_unfold:
  "mergeTimelineEventsWithTextPriority existing incoming d t n =
    (let merged = full_merge existing incoming d t; budget = max 0 n; text = text_tail t budget merged
     in if int (length merged) > budget \<and> class_transitions None merged > 2 then js_slice (- budget) merged
        else js_sort_by event_cmp (text @ detail_tail d (max 0 (budget - int (length text))) merged))"
  by (simp add: mergeTimelineEventsWithTextPriority_def full_merge_def Let_def)

lemma set_js_slice: "set (js_slice k xs) \<subseteq> set xs"
  by (auto simp: js_slice_def dest: in_set_dropD)

text \<open>
  With a text tail smaller than the window and a positive detail tail, the window keeps its bound, holds only merged
  events, and holds the newest text unless the history is interleaved, when it is a contiguous tail.
\<close>

theorem text_priority_bounded:
  assumes "0 < maxDetail" and "0 < maxText" and "maxText < maxTotal"
  shows "let w = mergeTimelineEventsWithTextPriority existing incoming maxDetail maxText maxTotal;
      merged = full_merge existing incoming maxDetail maxText
    in int (length w) \<le> maxTotal \<and> set w \<subseteq> set merged \<and>
      (set (text_tail maxText maxTotal merged) \<subseteq> set w \<or>
       (w = js_slice (- maxTotal) merged \<and> class_transitions None merged > 2))"
proof -
  let ?m = "full_merge existing incoming maxDetail maxText"
  let ?t = "text_tail maxText maxTotal ?m"
  let ?d = "detail_tail maxDetail (max 0 (maxTotal - int (length ?t))) ?m"
  have t: "int (length ?t) \<le> maxText"
    using assms by (simp add: text_tail_def length_js_slice_neg)
  then have "0 < maxTotal - int (length ?t)" using assms by linarith
  then have d: "int (length ?d) \<le> maxTotal - int (length ?t)"
    using assms by (simp add: detail_tail_def length_js_slice_neg)
  have sub: "set ?t \<subseteq> set ?m" "set ?d \<subseteq> set ?m"
    unfolding text_tail_def detail_tail_def using set_js_slice by (metis filter_is_subset subset_trans)+
  have b: "max 0 maxTotal = maxTotal" using assms by simp
  show ?thesis
  proof (cases "int (length ?m) > maxTotal \<and> class_transitions None ?m > 2")
    case True
    then have "mergeTimelineEventsWithTextPriority existing incoming maxDetail maxText maxTotal = js_slice (- maxTotal) ?m"
      unfolding text_priority_unfold Let_def b by simp
    then show ?thesis using True assms set_js_slice by (simp add: Let_def length_js_slice_neg)
  next
    case False
    then have "mergeTimelineEventsWithTextPriority existing incoming maxDetail maxText maxTotal = js_sort_by event_cmp (?t @ ?d)"
      unfolding text_priority_unfold Let_def b by (subst if_not_P [OF False]) (rule refl)
    then show ?thesis using d sub by (simp add: Let_def)
  qed
qed

theorem text_priority_bounded_witness:
  "int (length (mergeTimelineEventsWithTextPriority
     [sample_event ''a'' ''user.message'' 1 [], sample_event ''b'' ''tool.call'' 2 [], sample_event ''c'' ''tool.call'' 3 []] [] 1 1 2)) \<le> 2"
  using text_priority_bounded [of 1 1 2
      "[sample_event ''a'' ''user.message'' 1 [], sample_event ''b'' ''tool.call'' 2 [], sample_event ''c'' ''tool.call'' 3 []]" "[]"]
  by (simp only: Let_def zero_less_one one_less_numeral_iff semiring_norm simp_thms)

text \<open>
  When the text alone fills the window, the detail budget is zero and \<open>slice(-0)\<close> keeps every detail event: unless the
  history is interleaved, the window then exceeds its bound by the number of all detail events.
\<close>

theorem zero_detail_budget_keeps_all:
  assumes "0 \<le> maxDetail" and "0 < maxTotal" and "maxTotal \<le> maxText"
    and "maxTotal \<le> int (length (filter is_text_event (full_merge existing incoming maxDetail maxText)))"
    and "class_transitions None (full_merge existing incoming maxDetail maxText) \<le> 2"
  shows "int (length (mergeTimelineEventsWithTextPriority existing incoming maxDetail maxText maxTotal)) =
    maxTotal + int (length (filter (\<lambda>e. \<not> is_text_event e) (full_merge existing incoming maxDetail maxText)))"
proof -
  let ?m = "full_merge existing incoming maxDetail maxText"
  have b: "max 0 maxTotal = maxTotal" using assms by simp
  have t: "int (length (text_tail maxText maxTotal ?m)) = maxTotal"
    using assms by (simp add: text_tail_def length_js_slice_neg)
  then have "detail_tail maxDetail (max 0 (maxTotal - int (length (text_tail maxText maxTotal ?m)))) ?m =
      filter (\<lambda>e. \<not> is_text_event e) ?m"
    using assms(1) by (simp add: detail_tail_def js_slice_def)
  then show ?thesis
    unfolding text_priority_unfold Let_def b using assms(5) t by simp
qed

theorem zero_detail_budget_keeps_all_witness:
  "int (length (mergeTimelineEventsWithTextPriority
     [sample_event ''a'' ''user.message'' 1 [], sample_event ''b'' ''tool.call'' 2 [], sample_event ''c'' ''tool.call'' 3 []] [] 1 1 1)) = 3"
proof -
  let ?es = "[sample_event ''a'' ''user.message'' 1 [], sample_event ''b'' ''tool.call'' 2 [], sample_event ''c'' ''tool.call'' 3 []]"
  have m: "full_merge ?es [] 1 1 = ?es"
    by (simp add: full_merge_def mergeTimelineEvents_def js_sort_by_def)
  show ?thesis
    using zero_detail_budget_keeps_all [of 1 1 1 ?es "[]"]
    unfolding m by (simp add: is_text_event_def timeline_text_history_event_types_def)
qed

end
