(* ===== verification/Journal.thy ===== *)
theory Journal
  imports JsValue
begin

text \<open>
  Append-only journals of JSON lines, the storage of \<open>src/shared/core-lane-inbox.ts\<close> and
  \<open>src/src/daemon/ack-outbox.ts\<close>.  A file is the list of its lines: the text of a record and a line
  feed, or what a crash can leave of it at the end of the file (a torn text, or a whole text
  without its line feed).  What is appended next continues an unfinished line, which then
  is not the text of any record.  \<open>JSON.parse\<close> is taken to undo \<open>JSON.stringify\<close> on records and to
  refuse torn and joined lines.
\<close>

datatype 'e disk_record = Disk_entry 'e | Disk_ack string

datatype 'e disk_line =
  Line "'e disk_record"
| Unterminated "'e disk_record"
| Torn
| Garbled

type_synonym 'e disk_file = "'e disk_line list"
type_synonym 'e memory = "(string \<times> 'e) list"

fun finished :: "'e disk_line \<Rightarrow> bool" where
  "finished (Line r) = True"
| "finished Garbled = True"
| "finished _ = False"

definition append_line :: "'e disk_file \<Rightarrow> 'e disk_record \<Rightarrow> 'e disk_file" where
  "append_line f r = (if f \<noteq> [] \<and> \<not> finished (last f) then butlast f @ [Garbled] else f @ [Line r])"

fun line_record :: "'e disk_line \<Rightarrow> 'e disk_record option" where
  "line_record (Line r) = Some r"
| "line_record (Unterminated r) = Some r"
| "line_record _ = None"

definition file_records :: "'e disk_file \<Rightarrow> 'e disk_record list" where
  "file_records f = List.map_filter line_record f"

definition file_clean :: "'e disk_file \<Rightarrow> bool" where
  "file_clean f \<longleftrightarrow> list_all finished f"

text \<open>What a crash while a record is appended can leave in the file.\<close>

inductive crash_append :: "'e disk_file \<Rightarrow> 'e disk_record \<Rightarrow> 'e disk_file \<Rightarrow> bool" where
  nothing: "crash_append f r f"
| torn: "finished (last (Line r # f)) \<Longrightarrow> crash_append f r (f @ [Torn])"
| unterminated: "finished (last (Line r # f)) \<Longrightarrow> crash_append f r (f @ [Unterminated r])"
| whole: "crash_append f r (append_line f r)"

lemma file_records_simps [simp]:
  "file_records [] = []"
  "file_records (f @ g) = file_records f @ file_records g"
  "file_records [Line r] = [r]" "file_records [Unterminated r] = [r]"
  "file_records [Torn] = []" "file_records [Garbled] = []"
  by (simp_all add: file_records_def map_filter_def)

lemma file_clean_simps [simp]:
  "file_clean []" "file_clean (f @ g) \<longleftrightarrow> file_clean f \<and> file_clean g" "file_clean [l] = finished l"
  by (simp_all add: file_clean_def)

lemma append_clean [simp]: "file_clean f \<Longrightarrow> append_line f r = f @ [Line r]"
  by (cases f rule: rev_cases) (simp_all add: append_line_def)

lemma append_line_clean: "file_clean f \<Longrightarrow> file_clean (append_line f r)"
  by simp

lemma last_finished: "file_clean f \<Longrightarrow> finished (last (Line r # f))"
  by (cases f rule: rev_cases) simp_all

text \<open>
  A store that loads such a journal: the provider reads records with \<open>load_step\<close>; on the entries it admits
  this is setting and deleting in its memory.  Then loading the journal that the operations of the
  store have written gives back its memory, and a crash loses at most the record being written.
\<close>

locale journal_store =
  fixes ident :: "'e \<Rightarrow> string"
    and load_step :: "'e memory \<Rightarrow> 'e disk_record \<Rightarrow> 'e memory"
    and admits :: "'e \<Rightarrow> bool"
    and valid_key :: "string \<Rightarrow> bool"
  assumes load_entry: "admits e \<Longrightarrow> load_step m (Disk_entry e) = AList.update (ident e) e m"
    and load_ack: "valid_key k \<Longrightarrow> load_step m (Disk_ack k) = AList.delete k m"
begin

lemma replay_append_entry:
  "file_clean f \<Longrightarrow> admits e \<Longrightarrow>
   foldl load_step [] (file_records (append_line f (Disk_entry e))) =
   AList.update (ident e) e (foldl load_step [] (file_records f))"
  by (simp add: load_entry)

lemma replay_append_ack:
  "file_clean f \<Longrightarrow> valid_key k \<Longrightarrow>
   foldl load_step [] (file_records (append_line f (Disk_ack k))) =
   AList.delete k (foldl load_step [] (file_records f))"
  by (simp add: load_ack)

lemma replay_crash:
  assumes "crash_append f r f'" and "file_clean f"
  shows "foldl load_step [] (file_records f') = foldl load_step [] (file_records f) \<or>
    foldl load_step [] (file_records f') = foldl load_step [] (file_records (append_line f r))"
  using assms by cases auto

lemma replay_rewritten_fold:
  assumes "distinct (map fst (m @ es))" and "\<forall>(k, e) \<in> set es. k = ident e \<and> admits e"
  shows "foldl load_step m (map (\<lambda>(k, e). Disk_entry e) es) = m @ es"
  using assms
proof (induction es arbitrary: m)
  case (Cons ke es)
  obtain k e where ke: "ke = (k, e)" by (cases ke)
  have "AList.update k e m = m @ [(k, e)]"
    using Cons.prems(1) unfolding ke by (induction m) auto
  then have "load_step m (Disk_entry e) = m @ [(k, e)]"
    using Cons.prems(2) load_entry [of e m] unfolding ke by simp
  then show ?case
    using Cons.IH [of "m @ [(k, e)]"] Cons.prems unfolding ke by simp
qed simp

lemma replay_rewritten:
  assumes "distinct (map fst es)" and "\<forall>(k, e) \<in> set es. k = ident e \<and> admits e"
  shows "foldl load_step [] (file_records (map (\<lambda>(k, e). Line (Disk_entry e)) es)) = es"
proof -
  have "file_records (map (\<lambda>(k, e). Line (Disk_entry e)) es) = map (\<lambda>(k, e). Disk_entry e) es"
    by (induction es) (auto simp: file_records_def map_filter_def)
  then show ?thesis using replay_rewritten_fold [of "[]" es] assms by simp
qed

end

end
