(* ===== verification/CoreLaneInbox.thy ===== *)
theory CoreLaneInbox
  imports Journal
begin

text \<open>
  The crash-safe inbox of the link worker, \<open>src/shared/core-lane-inbox.ts\<close>: entries are kept in memory and in a
  journal; a restart loads the journal.
\<close>

record core_lane_inbound_record =
  cl_id :: string
  cl_commandId :: string
  cl_session :: string
  cl_payload :: string
  cl_ts :: int

record inbox =
  ib_entries :: "core_lane_inbound_record memory"
  ib_file :: "core_lane_inbound_record disk_file"

definition inbox_load_step ::
  "core_lane_inbound_record memory \<Rightarrow> core_lane_inbound_record disk_record \<Rightarrow> core_lane_inbound_record memory" where
  "inbox_load_step m r =
    (case r of
       Disk_entry e \<Rightarrow> if cl_id e \<noteq> [] then AList.update (cl_id e) e m else m
     | Disk_ack k \<Rightarrow> if k \<noteq> [] then AList.delete k m else m)"

definition inbox_load :: "core_lane_inbound_record disk_file \<Rightarrow> core_lane_inbound_record memory" where
  "inbox_load f = foldl inbox_load_step [] (file_records f)"

definition inbox_open :: "core_lane_inbound_record disk_file \<Rightarrow> inbox" where
  "inbox_open f = \<lparr>ib_entries = inbox_load f, ib_file = f\<rparr>"

definition inbox_pending :: "inbox \<Rightarrow> core_lane_inbound_record list" where
  "inbox_pending b = js_sort_by (\<lambda>x y. cl_ts x - cl_ts y) (map snd (ib_entries b))"

definition inbox_append :: "inbox \<Rightarrow> core_lane_inbound_record \<Rightarrow> inbox" where
  "inbox_append b e = b\<lparr>ib_entries := AList.update (cl_id e) e (ib_entries b),
     ib_file := append_line (ib_file b) (Disk_entry e)\<rparr>"

definition inbox_compact :: "inbox \<Rightarrow> inbox" where
  "inbox_compact b = b\<lparr>ib_file := map (\<lambda>(k, e). Line (Disk_entry e)) (ib_entries b)\<rparr>"

definition inbox_acknowledge :: "inbox \<Rightarrow> string \<Rightarrow> inbox" where
  "inbox_acknowledge b i =
    (if map_of (ib_entries b) i = None then b
     else let b = b\<lparr>ib_entries := AList.delete i (ib_entries b), ib_file := append_line (ib_file b) (Disk_ack i)\<rparr>
       in if ib_entries b = [] then inbox_compact b else b)"

definition replayCoreLaneInbound :: "core_lane_inbound_record list \<Rightarrow> core_lane_inbound_record list" where
  "replayCoreLaneInbound entries = entries"

section \<open>Restarting\<close>

interpretation inbox_journal: journal_store cl_id inbox_load_step "\<lambda>e. cl_id e \<noteq> []" "\<lambda>k. k \<noteq> []"
  by unfold_locales (simp_all add: inbox_load_step_def)

text \<open>An inbox whose journal ends in finished lines and loads to its memory.\<close>

definition inbox_ok :: "inbox \<Rightarrow> bool" where
  "inbox_ok b \<longleftrightarrow> file_clean (ib_file b) \<and> inbox_load (ib_file b) = ib_entries b \<and>
     distinct (map fst (ib_entries b)) \<and> (\<forall>(k, e) \<in> set (ib_entries b). k = cl_id e \<and> cl_id e \<noteq> [])"

lemma set_update_sub: "set (AList.update k v m) \<subseteq> insert (k, v) (set m)"
  by (induction m) auto

lemma inbox_append_ok: "inbox_ok b \<Longrightarrow> cl_id e \<noteq> [] \<Longrightarrow> inbox_ok (inbox_append b e)"
  using set_update_sub [of "cl_id e" e "ib_entries b"]
  by (auto simp: inbox_ok_def inbox_append_def inbox_load_def inbox_load_step_def distinct_update)

lemma inbox_compact_ok: "inbox_ok b \<Longrightarrow> inbox_ok (inbox_compact b)"
  by (auto simp: inbox_ok_def inbox_compact_def inbox_load_def inbox_journal.replay_rewritten file_clean_def list_all_iff)

lemma inbox_acknowledge_ok:
  assumes "inbox_ok b"
  shows "inbox_ok (inbox_acknowledge b i)"
proof (cases "map_of (ib_entries b) i")
  case None
  then show ?thesis using assms by (simp add: inbox_acknowledge_def)
next
  case (Some e)
  let ?b = "b\<lparr>ib_entries := AList.delete i (ib_entries b), ib_file := append_line (ib_file b) (Disk_ack i)\<rparr>"
  have "i \<noteq> []" using Some assms by (auto simp: inbox_ok_def dest: map_of_SomeD)
  then have "inbox_ok ?b"
    using assms by (auto simp: inbox_ok_def inbox_load_def inbox_load_step_def AList.delete_eq distinct_map_filter)
  moreover have "inbox_acknowledge b i = (if ib_entries ?b = [] then inbox_compact ?b else ?b)"
    using Some by (simp only: inbox_acknowledge_def Let_def) simp
  ultimately show ?thesis using inbox_compact_ok [of ?b] by (simp only: split: if_split) blast
qed

datatype inbox_op = Op_append core_lane_inbound_record | Op_acknowledge string

fun inbox_do :: "inbox \<Rightarrow> inbox_op \<Rightarrow> inbox" where
  "inbox_do b (Op_append e) = inbox_append b e"
| "inbox_do b (Op_acknowledge i) = inbox_acknowledge b i"

fun inbox_op_ok :: "inbox_op \<Rightarrow> bool" where
  "inbox_op_ok (Op_append e) = (cl_id e \<noteq> [])"
| "inbox_op_ok (Op_acknowledge i) = True"

interpretation inbox_run: event_reducer inbox_do inbox_op_ok inbox_ok "\<lambda>_ _. True"
proof unfold_locales
  show "inbox_ok s \<Longrightarrow> inbox_op_ok e \<Longrightarrow> inbox_ok (inbox_do s e)" for s e
    by (cases e) (auto intro: inbox_append_ok inbox_acknowledge_ok)
qed auto

definition inbox_keyed :: "core_lane_inbound_record memory \<Rightarrow> bool" where
  "inbox_keyed m \<longleftrightarrow> distinct (map fst m) \<and> (\<forall>(k, e) \<in> set m. k = cl_id e \<and> cl_id e \<noteq> [])"

lemma inbox_keyed_update: "inbox_keyed m \<Longrightarrow> cl_id e \<noteq> [] \<Longrightarrow> inbox_keyed (AList.update (cl_id e) e m)"
  using set_update_sub [of "cl_id e" e m] by (auto simp: inbox_keyed_def distinct_update)

lemma inbox_keyed_delete: "inbox_keyed m \<Longrightarrow> inbox_keyed (AList.delete k m)"
  by (auto simp: inbox_keyed_def AList.delete_eq distinct_map_filter)

lemma inbox_keyed_load: "inbox_keyed m \<Longrightarrow> inbox_keyed (foldl inbox_load_step m rs)"
proof (induction rs arbitrary: m)
  case (Cons r rs)
  have "inbox_keyed (inbox_load_step m r)"
    using Cons.prems by (cases r) (simp_all add: inbox_load_step_def inbox_keyed_update inbox_keyed_delete)
  then show ?case using Cons.IH by simp
qed simp

lemma inbox_open_ok: "file_clean f \<Longrightarrow> inbox_ok (inbox_open f)"
  using inbox_keyed_load [of "[]" "file_records f"]
  by (simp add: inbox_ok_def inbox_open_def inbox_load_def inbox_keyed_def)

text \<open>
  C25. The inbox survives restarts on a journal of finished lines: opened on any such journal, after any
  sequence of appends of entries with an id and of acknowledgements, opening the journal again gives the same
  entries in the same order, and a crash in the middle of one more append leaves the entries as they were before
  it or as they are after it.  A journal that ends in an unfinished line is excluded: there the next
  append is lost as well (\<open>torn_line_swallows_next\<close>).
\<close>

theorem inbox_restart:
  assumes "file_clean f" and "list_all inbox_op_ok ops"
  defines "b \<equiv> foldl inbox_do (inbox_open f) ops"
  shows "inbox_open (ib_file b) = b \<and>
    (cl_id e \<noteq> [] \<and> crash_append (ib_file b) (Disk_entry e) f' \<longrightarrow>
       inbox_load f' = ib_entries b \<or> inbox_load f' = ib_entries (inbox_append b e))"
proof (intro conjI impI)
  have ok: "inbox_ok b" unfolding b_def by (rule inbox_run.stream_inv [OF inbox_open_ok [OF assms(1)] assms(2)])
  then show "inbox_open (ib_file b) = b" by (simp add: inbox_open_def inbox_ok_def)
  assume e: "cl_id e \<noteq> [] \<and> crash_append (ib_file b) (Disk_entry e) f'"
  then have "inbox_ok (inbox_append b e)" using ok by (simp add: inbox_append_ok)
  then show "inbox_load f' = ib_entries b \<or> inbox_load f' = ib_entries (inbox_append b e)"
    using inbox_journal.replay_crash [of "ib_file b" "Disk_entry e" f'] e ok
    by (auto simp: inbox_ok_def inbox_load_def inbox_append_def)
qed

definition sample_inbound :: "string \<Rightarrow> core_lane_inbound_record" where
  "sample_inbound i = \<lparr>cl_id = i, cl_commandId = i, cl_session = ''s'', cl_payload = [], cl_ts = 1\<rparr>"

lemma sample_inbound_id [simp]: "cl_id (sample_inbound i) = i"
  by (simp add: sample_inbound_def)

theorem inbox_restart_witness:
  "inbox_load [Line (Disk_entry (sample_inbound ''a'')), Torn] = [(''a'', sample_inbound ''a'')]"
proof -
  let ?ops = "[Op_append (sample_inbound ''a'')]" and ?f = "[Line (Disk_entry (sample_inbound ''a'')), Torn]"
  let ?b = "foldl inbox_do (inbox_open []) ?ops"
  have b: "ib_file ?b = [Line (Disk_entry (sample_inbound ''a''))]" "ib_entries ?b = [(''a'', sample_inbound ''a'')]"
    by (simp_all add: inbox_append_def inbox_open_def inbox_load_def append_line_def)
  have ops: "list_all inbox_op_ok ?ops" by simp
  have "crash_append (ib_file ?b) (Disk_entry (sample_inbound ''b'')) ?f"
    unfolding b using crash_append.torn [of "Disk_entry (sample_inbound ''b'')" "[Line (Disk_entry (sample_inbound ''a''))]"] by simp
  then have "inbox_load ?f = ib_entries ?b \<or> inbox_load ?f = ib_entries (inbox_append ?b (sample_inbound ''b''))"
    using inbox_restart [OF _ ops, of "[]" "sample_inbound ''b''" ?f] by simp
  moreover have "length (ib_entries (inbox_append ?b (sample_inbound ''b''))) = 2" unfolding inbox_append_def b by simp
  moreover have "length (inbox_load ?f) \<noteq> 2" 
    by (simp add: inbox_load_def inbox_load_step_def file_records_def map_filter_def)
  ultimately show ?thesis unfolding b by metis
qed

text \<open>
  A torn line swallows the next entry: after a crash that left an unfinished line, the inbox opened on it takes
  the next entry into memory and writes it through, but the record lands on the unfinished line: the
  following restart finds neither that entry nor the one whose line only missed its line feed.
\<close>

theorem torn_line_swallows_next:
  assumes "crash_append g r f" and "file_clean g" and "\<not> file_clean f"
  shows "map_of (ib_entries (inbox_append (inbox_open f) e)) (cl_id e) = Some e \<and>
    inbox_load (ib_file (inbox_append (inbox_open f) e)) = inbox_load g"
proof -
  have "f = g @ [Torn] \<or> f = g @ [Unterminated r]" using assms by cases auto
  then have "f \<noteq> []" "\<not> finished (last f)" "butlast f = g" by auto
  moreover have "file_records (g @ [Garbled]) = file_records g" by simp
  ultimately show ?thesis
    by (simp add: inbox_append_def inbox_open_def inbox_load_def append_line_def update_conv')
qed

theorem torn_line_swallows_next_witness:
  "inbox_load (ib_file (inbox_append (inbox_open [Unterminated (Disk_entry (sample_inbound ''a''))]) (sample_inbound ''b''))) = []"
  using torn_line_swallows_next [OF crash_append.unterminated, of "Disk_entry (sample_inbound ''a'')" "[]" "sample_inbound ''b''"]
  by (simp add: inbox_load_def)

end
