(* ===== verification/AckOutbox.thy ===== *)
theory AckOutbox
  imports Journal
begin

text \<open>
  The outbox of command acknowledgements of the daemon, \<open>src/src/daemon/ack-outbox.ts\<close>.  Entries are objects that the map,
  running flushes and pending disk writes share: an entry is its index in \<open>ob_heap\<close>.  The appends to the file form one
  chain, \<open>ob_writing\<close>; an append takes the text of its entry when its turn comes, and it is taken to succeed.  A promise is
  the number of appends after which it is resolved.  A flush and a collection run up to their next \<open>await\<close>; what is left
  of them waits in \<open>ob_flushes\<close> and \<open>ob_gcs\<close>, and anything may happen in between.  \<open>init\<close> is awaited before any other
  call (\<open>src/src/daemon/lifecycle.ts\<close>) and is one step.  The link is a parameter of the steps that use it: whether it is
  connected, and what sending does.
\<close>

definition ack_outbox_ttl_ms :: int where
  "ack_outbox_ttl_ms = 10 * 60000"

definition ack_outbox_max_attempts :: int where
  "ack_outbox_max_attempts = 10"

record ack_entry =
  ak_commandId :: string
  ak_sessionName :: string
  ak_status :: string
  ak_error :: "string option"
  ak_extras :: "json option"
  ak_ts :: int
  ak_attempts :: int

datatype outbox_write = Write_entry nat | Write_ack string

record outbox =
  ob_heap :: "ack_entry list"
  ob_entries :: "nat memory"
  ob_file :: "ack_entry disk_file"
  ob_writing :: "outbox_write list"
  ob_written :: nat
  ob_flushes :: "(nat list \<times> nat) list"
  ob_gcs :: "(string list \<times> nat) list"
  ob_initialized :: bool

definition outbox_new :: "ack_entry disk_file \<Rightarrow> outbox" where
  "outbox_new f = \<lparr>ob_heap = [], ob_entries = [], ob_file = f, ob_writing = [], ob_written = 0, ob_flushes = [], ob_gcs = [],
     ob_initialized = False\<rparr>"

abbreviation entry_at :: "outbox \<Rightarrow> nat \<Rightarrow> ack_entry" where
  "entry_at b a \<equiv> ob_heap b ! a"

text \<open>\<open>entries.set\<close> with a new object.\<close>

definition set_entry :: "ack_entry \<Rightarrow> outbox \<Rightarrow> outbox" where
  "set_entry e b = b\<lparr>ob_heap := ob_heap b @ [e], ob_entries := AList.update (ak_commandId e) (length (ob_heap b)) (ob_entries b)\<rparr>"

definition outbox_load_step :: "int \<Rightarrow> ack_entry memory \<Rightarrow> ack_entry disk_record \<Rightarrow> ack_entry memory" where
  "outbox_load_step now m r =
    (case r of
       Disk_entry e \<Rightarrow>
         if now - ak_ts e > ack_outbox_ttl_ms then m
         else if ak_attempts e \<ge> ack_outbox_max_attempts then m
         else AList.update (ak_commandId e) e m
     | Disk_ack k \<Rightarrow> AList.delete k m)"

definition loadFromDisk :: "int \<Rightarrow> ack_entry disk_file \<Rightarrow> ack_entry memory" where
  "loadFromDisk now f = foldl (outbox_load_step now) [] (file_records f)"

definition outbox_snapshot :: "outbox \<Rightarrow> ack_entry list" where
  "outbox_snapshot b = map (\<lambda>(k, a). entry_at b a) (ob_entries b)"

definition outbox_size :: "outbox \<Rightarrow> nat" where
  "outbox_size b = length (ob_entries b)"

definition rewriteAll :: "outbox \<Rightarrow> outbox" where
  "rewriteAll b = b\<lparr>ob_file := map (\<lambda>e. Line (Disk_entry e)) (outbox_snapshot b)\<rparr>"

definition outbox_init :: "int \<Rightarrow> outbox \<Rightarrow> outbox" where
  "outbox_init now b =
    (if ob_initialized b then b
     else (rewriteAll (foldl (\<lambda>b (i, e). set_entry e b) b (loadFromDisk now (ob_file b))))\<lparr>ob_initialized := True\<rparr>)"

text \<open>An append is chained; its promise is resolved when it and all before it are done.\<close>

definition outbox_append_record :: "outbox \<Rightarrow> outbox_write \<Rightarrow> nat \<times> outbox" where
  "outbox_append_record b r = (ob_written b + length (ob_writing b) + 1, b\<lparr>ob_writing := ob_writing b @ [r]\<rparr>)"

definition write_record :: "ack_entry list \<Rightarrow> outbox_write \<Rightarrow> ack_entry disk_record" where
  "write_record heap w = (case w of Write_entry a \<Rightarrow> Disk_entry (heap ! a) | Write_ack i \<Rightarrow> Disk_ack i)"

text \<open>The next append of the chain is done.\<close>

definition outbox_write_next :: "outbox \<Rightarrow> outbox" where
  "outbox_write_next b =
    (case ob_writing b of
       [] \<Rightarrow> b
     | w # ws \<Rightarrow> b\<lparr>ob_file := append_line (ob_file b) (write_record (ob_heap b) w), ob_writing := ws, ob_written := ob_written b + 1\<rparr>)"

text \<open>\<open>close\<close> awaits the chain.\<close>

definition outbox_close :: "outbox \<Rightarrow> outbox" where
  "outbox_close b = (outbox_write_next ^^ length (ob_writing b)) b"

definition outbox_enqueue :: "outbox \<Rightarrow> ack_entry \<Rightarrow> nat \<times> outbox" where
  "outbox_enqueue b e = outbox_append_record (set_entry e b) (Write_entry (length (ob_heap b)))"

definition markAcked :: "outbox \<Rightarrow> string \<Rightarrow> nat \<times> outbox" where
  "markAcked b i =
    (if map_of (ob_entries b) i = None then (0, b)
     else outbox_append_record (b\<lparr>ob_entries := AList.delete i (ob_entries b)\<rparr>) (Write_ack i))"

section \<open>Flushing\<close>

datatype send_outcome = Sent | Not_sent | Threw

text \<open>The message handed to the link; stored extras are spread over it.\<close>

definition ack_message :: "ack_entry \<Rightarrow> json" where
  "ack_message e =
    foldl (\<lambda>v (k, x). jset v k x)
      (JObj ([(''type'', JStr ''command.ack''), (''commandId'', JStr (ak_commandId e)), (''status'', JStr (ak_status e)),
              (''session'', JStr (ak_sessionName e))] @
             (if truthy (ak_error e) then opt_member ''error'' JStr (ak_error e) else [])))
      (case ak_extras e of None \<Rightarrow> [] | Some x \<Rightarrow> jmembers x)"

text \<open>The link during a step: whether it is connected, and what sending a message does.\<close>

type_synonym ack_link = "bool \<times> (json \<Rightarrow> send_outcome)"

definition counted :: "ack_entry \<Rightarrow> ack_entry" where
  "counted e = e\<lparr>ak_attempts := ak_attempts e + 1\<rparr>"

definition await_flush :: "nat list \<Rightarrow> nat \<times> outbox \<Rightarrow> outbox" where
  "await_flush rest = (\<lambda>(ticket, b). b\<lparr>ob_flushes := ob_flushes b @ [(rest, ticket)]\<rparr>)"

text \<open>
  The loop of \<open>flushOnReconnect\<close>, up to its next \<open>await\<close>: each entry ends in one, or ends the loop.  The appends of a failed
  attempt are awaited only to return.
\<close>

fun flush_loop :: "ack_link \<Rightarrow> nat list \<Rightarrow> outbox \<Rightarrow> outbox" where
  "flush_loop link [] b = b"
| "flush_loop (connected, send) (a # rest) b =
    (let e = entry_at b a in
     if ak_attempts e \<ge> ack_outbox_max_attempts then await_flush rest (markAcked b (ak_commandId e))
     else if \<not> connected then b
     else
       let b = b\<lparr>ob_heap := (ob_heap b)[a := counted e]\<rparr>
       in case send (ack_message (counted e)) of
            Sent \<Rightarrow> await_flush rest (markAcked b (ak_commandId e))
          | Not_sent \<Rightarrow> snd (outbox_append_record b (Write_entry a))
          | Threw \<Rightarrow> snd (outbox_append_record b (Write_entry a)))"

definition outbox_ordered :: "outbox \<Rightarrow> nat list" where
  "outbox_ordered b = js_sort_by (\<lambda>x y. ak_ts (entry_at b x) - ak_ts (entry_at b y)) (map snd (ob_entries b))"

definition flushOnReconnect :: "ack_link \<Rightarrow> outbox \<Rightarrow> outbox" where
  "flushOnReconnect link b = flush_loop link (outbox_ordered b) b"

text \<open>A flush goes on when what it awaits is resolved.\<close>

definition flush_ready :: "outbox \<Rightarrow> nat \<Rightarrow> bool" where
  "flush_ready b k \<longleftrightarrow> k < length (ob_flushes b) \<and> snd (ob_flushes b ! k) \<le> ob_written b"

definition without_flush :: "nat \<Rightarrow> outbox \<Rightarrow> outbox" where
  "without_flush k b = b\<lparr>ob_flushes := take k (ob_flushes b) @ drop (Suc k) (ob_flushes b)\<rparr>"

definition flush_resume :: "ack_link \<Rightarrow> nat \<Rightarrow> outbox \<Rightarrow> outbox" where
  "flush_resume link k b =
    (if flush_ready b k then flush_loop link (fst (ob_flushes b ! k)) (without_flush k b) else b)"

definition gc_drops :: "int \<Rightarrow> outbox \<Rightarrow> string list" where
  "gc_drops now b =
     map fst (filter (\<lambda>(i, a). now - ak_ts (entry_at b a) > ack_outbox_ttl_ms \<or> ak_attempts (entry_at b a) \<ge> ack_outbox_max_attempts)
       (ob_entries b))"

text \<open>The second loop of \<open>gc\<close>, up to its next \<open>await\<close>.\<close>

fun gc_loop :: "string list \<Rightarrow> outbox \<Rightarrow> outbox" where
  "gc_loop [] b = b"
| "gc_loop (i # rest) b =
     (let (ticket, b) = outbox_append_record (b\<lparr>ob_entries := AList.delete i (ob_entries b)\<rparr>) (Write_ack i)
      in b\<lparr>ob_gcs := ob_gcs b @ [(rest, ticket)]\<rparr>)"

definition outbox_gc :: "int \<Rightarrow> outbox \<Rightarrow> outbox" where
  "outbox_gc now b = gc_loop (gc_drops now b) b"

definition gc_resume :: "nat \<Rightarrow> outbox \<Rightarrow> outbox" where
  "gc_resume k b =
    (if k < length (ob_gcs b) \<and> snd (ob_gcs b ! k) \<le> ob_written b
     then gc_loop (fst (ob_gcs b ! k)) (b\<lparr>ob_gcs := take k (ob_gcs b) @ drop (Suc k) (ob_gcs b)\<rparr>) else b)"

section \<open>Histories\<close>

datatype outbox_op =
  Ob_enqueue ack_entry
| Ob_acked string
| Ob_write
| Ob_flush ack_link
| Ob_flush_resume ack_link nat
| Ob_gc int
| Ob_gc_resume nat

fun outbox_do :: "outbox \<Rightarrow> outbox_op \<Rightarrow> outbox" where
  "outbox_do b (Ob_enqueue e) = snd (outbox_enqueue b e)"
| "outbox_do b (Ob_acked i) = snd (markAcked b i)"
| "outbox_do b Ob_write = outbox_write_next b"
| "outbox_do b (Ob_flush link) = flushOnReconnect link b"
| "outbox_do b (Ob_flush_resume link k) = flush_resume link k b"
| "outbox_do b (Ob_gc now) = outbox_gc now b"
| "outbox_do b (Ob_gc_resume k) = gc_resume k b"

text \<open>The entry that the map has for a command.\<close>

definition outbox_get :: "outbox \<Rightarrow> string \<Rightarrow> ack_entry option" where
  "outbox_get b i = map_option (entry_at b) (map_of (ob_entries b) i)"

section \<open>What the journal holds\<close>

definition fresh :: "int \<Rightarrow> ack_entry \<Rightarrow> bool" where
  "fresh now e \<longleftrightarrow> now - ak_ts e \<le> ack_outbox_ttl_ms \<and> ak_attempts e < ack_outbox_max_attempts"

text \<open>The journal read without dropping anything.\<close>

definition replay_step :: "ack_entry memory \<Rightarrow> ack_entry disk_record \<Rightarrow> ack_entry memory" where
  "replay_step m r = (case r of Disk_entry e \<Rightarrow> AList.update (ak_commandId e) e m | Disk_ack k \<Rightarrow> AList.delete k m)"

interpretation outbox_journal: journal_store ak_commandId "outbox_load_step now" "fresh now" "\<lambda>_. True" for now
  by unfold_locales (auto simp: outbox_load_step_def fresh_def)

interpretation outbox_replay: journal_store ak_commandId replay_step "\<lambda>_. True" "\<lambda>_. True"
  by unfold_locales (simp_all add: replay_step_def)

lemma load_step_cases:
  "outbox_load_step now m (Disk_entry e) = (if fresh now e then AList.update (ak_commandId e) e m else m)"
  "outbox_load_step now m (Disk_ack k) = AList.delete k m"
  "replay_step m (Disk_entry e) = AList.update (ak_commandId e) e m"
  "replay_step m (Disk_ack k) = AList.delete k m"
  by (auto simp: outbox_load_step_def replay_step_def fresh_def)

definition replayed :: "ack_entry disk_record list \<Rightarrow> string \<Rightarrow> ack_entry option" where
  "replayed rs = map_of (foldl replay_step [] rs)"

lemma replayed_simps [simp]:
  "replayed [] i = None"
  "replayed (rs @ [Disk_entry e]) i = (if i = ak_commandId e then Some e else replayed rs i)"
  "replayed (rs @ [Disk_ack k]) i = (if i = k then None else replayed rs i)"
  by (simp_all add: replayed_def load_step_cases update_conv' delete_conv')

lemma filtered_replay:
  "(case replayed rs i of
      None \<Rightarrow> map_of (foldl (outbox_load_step now) [] rs) i = None
    | Some e \<Rightarrow> fresh now e \<longrightarrow> map_of (foldl (outbox_load_step now) [] rs) i = Some e)"
proof (induction rs rule: rev_induct)
  case (snoc r rs)
  then show ?case
    by (cases r) (auto simp: load_step_cases update_conv' delete_conv' split: option.splits)
qed simp

text \<open>All records: those of the file and those still to be written.\<close>

definition journal :: "outbox \<Rightarrow> ack_entry disk_record list" where
  "journal b = file_records (ob_file b) @ map (write_record (ob_heap b)) (ob_writing b)"

definition outbox_wf :: "outbox \<Rightarrow> bool" where
  "outbox_wf b \<longleftrightarrow> file_clean (ob_file b) \<and> distinct (map fst (ob_entries b)) \<and>
     (\<forall>k a. map_of (ob_entries b) k = Some a \<longrightarrow> a < length (ob_heap b) \<and> ak_commandId (entry_at b a) = k) \<and>
     (\<forall>a. Write_entry a \<in> set (ob_writing b) \<longrightarrow> a < length (ob_heap b)) \<and>
     (\<forall>f \<in> set (ob_flushes b). \<forall>a \<in> set (fst f). a < length (ob_heap b))"

definition outbox_ok :: "outbox \<Rightarrow> bool" where
  "outbox_ok b \<longleftrightarrow> outbox_wf b \<and> (\<forall>i. replayed (journal b) i = outbox_get b i)"

lemma append_record_ok:
  assumes "outbox_wf b" and "\<And>a. w = Write_entry a \<Longrightarrow> a < length (ob_heap b)"
    and "\<And>i. replayed (journal b @ [write_record (ob_heap b) w]) i = outbox_get b i"
  shows "outbox_ok (snd (outbox_append_record b w))"
  using assms by (auto simp: outbox_ok_def outbox_wf_def outbox_append_record_def journal_def outbox_get_def)

lemma delete_wf: "outbox_wf b \<Longrightarrow> outbox_wf (b\<lparr>ob_entries := AList.delete i (ob_entries b)\<rparr>)"
  by (auto simp: outbox_wf_def delete_conv' distinct_delete split: if_splits)

lemma delete_ok:
  assumes "outbox_wf b" and "\<And>j. j \<noteq> i \<Longrightarrow> replayed (journal b) j = outbox_get b j"
  shows "outbox_ok (snd (outbox_append_record (b\<lparr>ob_entries := AList.delete i (ob_entries b)\<rparr>) (Write_ack i)))"
proof (rule append_record_ok [OF delete_wf [OF assms(1)]])
  let ?b = "b\<lparr>ob_entries := AList.delete i (ob_entries b)\<rparr>"
  have "journal ?b = journal b" by (simp add: journal_def)
  then show "replayed (journal ?b @ [write_record (ob_heap ?b) (Write_ack i)]) j = outbox_get ?b j" for j
    using assms(2) by (simp add: write_record_def outbox_get_def delete_conv')
qed simp

text \<open>An acknowledgement puts a command in order, even if the journal and the map disagreed on its entry.\<close>

lemma markAcked_ok':
  assumes "outbox_wf b" and "\<And>j. j \<noteq> i \<Longrightarrow> replayed (journal b) j = outbox_get b j"
    and "outbox_get b i = None \<Longrightarrow> replayed (journal b) i = None"
  shows "outbox_ok (snd (markAcked b i))"
proof (cases "map_of (ob_entries b) i")
  case None
  then have "replayed (journal b) j = outbox_get b j" for j using assms(2,3) by (cases "j = i") (simp_all add: outbox_get_def)
  with None assms(1) show ?thesis by (simp add: markAcked_def outbox_ok_def)
qed (use delete_ok [OF assms(1,2)] in \<open>simp add: markAcked_def\<close>)

lemma markAcked_ok: "outbox_ok b \<Longrightarrow> outbox_ok (snd (markAcked b i))"
  by (rule markAcked_ok') (simp_all add: outbox_ok_def)

lemma enqueue_ok:
  assumes "outbox_ok b"
  shows "outbox_ok (snd (outbox_enqueue b e))"
  unfolding outbox_enqueue_def
proof (rule append_record_ok)
  have wf: "outbox_wf b" using assms by (simp add: outbox_ok_def)
  then show "outbox_wf (set_entry e b)"
    by (fastforce simp: outbox_wf_def set_entry_def update_conv' distinct_update nth_append split: if_splits)
  have "write_record (ob_heap b @ [e]) w = write_record (ob_heap b) w" if "w \<in> set (ob_writing b)" for w
    using that wf unfolding outbox_wf_def
    by (cases w rule: outbox_write.exhaust) (auto simp: write_record_def nth_append)
  then have j: "journal (set_entry e b) = journal b" unfolding journal_def set_entry_def by (auto intro!: map_cong)
  have old: "outbox_get (set_entry e b) i = outbox_get b i" if "i \<noteq> ak_commandId e" for i
    using that wf by (cases "map_of (ob_entries b) i") (auto simp: outbox_get_def set_entry_def update_conv' outbox_wf_def nth_append)
  show "replayed (journal (set_entry e b) @ [write_record (ob_heap (set_entry e b)) (Write_entry (length (ob_heap b)))]) i =
      outbox_get (set_entry e b) i" for i
  proof (cases "i = ak_commandId e")
    case True
    then show ?thesis by (simp add: write_record_def set_entry_def outbox_get_def update_conv')
  next
    case False
    have "replayed (journal b) i = outbox_get b i" using assms by (simp add: outbox_ok_def)
    then show ?thesis using False old [OF False] by (simp add: j write_record_def) (simp add: set_entry_def)
  qed
qed (simp add: set_entry_def)

lemma write_next_journal:
  "file_clean (ob_file b) \<Longrightarrow> file_clean (ob_file (outbox_write_next b)) \<and> journal (outbox_write_next b) = journal b"
  by (cases "ob_writing b") (simp_all add: outbox_write_next_def journal_def)

lemma write_next_ok:
  assumes "outbox_ok b"
  shows "outbox_ok (outbox_write_next b)"
proof (cases "ob_writing b")
  case (Cons w ws)
  have clean: "file_clean (ob_file b)" using assms by (simp add: outbox_ok_def outbox_wf_def)
  with write_next_journal have "journal (outbox_write_next b) = journal b" by blast
  then show ?thesis using assms clean by (auto simp: outbox_ok_def outbox_wf_def outbox_write_next_def Cons outbox_get_def)
qed (use assms in \<open>simp add: outbox_write_next_def\<close>)

lemma close_ok: "outbox_ok b \<Longrightarrow> outbox_ok (outbox_close b)"
proof -
  have "outbox_ok ((outbox_write_next ^^ n) b)" if "outbox_ok b" for n
    using that by (induction n) (simp_all add: write_next_ok)
  then show "outbox_ok b \<Longrightarrow> ?thesis" by (simp add: outbox_close_def)
qed

lemma write_next_fields [simp]:
  "ob_heap (outbox_write_next b) = ob_heap b" "ob_entries (outbox_write_next b) = ob_entries b"
  "ob_writing (outbox_write_next b) = tl (ob_writing b)"
  by (simp_all add: outbox_write_next_def split: list.split)

lemma close_fields [simp]: "ob_writing (outbox_close b) = []" "outbox_get (outbox_close b) i = outbox_get b i"
proof -
  have "ob_heap ((outbox_write_next ^^ n) b) = ob_heap b \<and> ob_entries ((outbox_write_next ^^ n) b) = ob_entries b \<and>
      ob_writing ((outbox_write_next ^^ n) b) = drop n (ob_writing b)" for n
    by (induction n) (simp_all add: drop_Suc tl_drop)
  then show "ob_writing (outbox_close b) = []" "outbox_get (outbox_close b) i = outbox_get b i"
    by (simp_all add: outbox_close_def outbox_get_def)
qed

lemma gc_loop_ok: "outbox_ok b \<Longrightarrow> outbox_ok (gc_loop is b)"
proof (cases "is")
  case (Cons i rest)
  assume "outbox_ok b"
  then have "outbox_ok (snd (outbox_append_record (b\<lparr>ob_entries := AList.delete i (ob_entries b)\<rparr>) (Write_ack i)))"
    by (intro delete_ok) (simp_all add: outbox_ok_def)
  then show ?thesis
    by (simp add: Cons outbox_append_record_def outbox_ok_def outbox_wf_def journal_def outbox_get_def)
qed simp

lemma gc_ok: "outbox_ok b \<Longrightarrow> outbox_ok (outbox_gc now b)"
  by (simp add: outbox_gc_def gc_loop_ok)

lemma gc_resume_ok:
  assumes "outbox_ok b"
  shows "outbox_ok (gc_resume k b)"
proof -
  have "outbox_ok (b\<lparr>ob_gcs := gs\<rparr>)" for gs
    using assms by (simp add: outbox_ok_def outbox_wf_def journal_def outbox_get_def)
  then show ?thesis using assms by (simp add: gc_resume_def gc_loop_ok)
qed

text \<open>Counting an attempt changes the records of that object that are still to be written; all are records of its command.\<close>

definition record_alike :: "string \<Rightarrow> ack_entry disk_record \<Rightarrow> ack_entry disk_record \<Rightarrow> bool" where
  "record_alike i r r' \<longleftrightarrow> r = r' \<or> (\<exists>e e'. r = Disk_entry e \<and> r' = Disk_entry e' \<and> ak_commandId e = i \<and> ak_commandId e' = i)"

lemma nth_update_cases: "xs[i := x] ! j = (if i = j \<and> i < length xs then x else xs ! j)"
  by (cases "i = j"; cases "i < length xs") (simp_all add: list_update_beyond)

lemma replayed_alike:
  assumes "list_all2 (record_alike i) rs rs'"
  shows "(j \<noteq> i \<longrightarrow> replayed rs j = replayed rs' j) \<and> (replayed rs i = None \<longleftrightarrow> replayed rs' i = None)"
  using assms
proof (induction rs arbitrary: rs' rule: rev_induct)
  case (snoc r rs)
  then obtain r' ss where "rs' = ss @ [r']" "list_all2 (record_alike i) rs ss" "record_alike i r r'"
    by (auto simp: list_all2_append1 list_all2_Cons1)
  note here = this snoc.IH [OF this(2)]
  show ?case
  proof (cases "r = r'")
    case True
    have "(j \<noteq> i \<longrightarrow> replayed (rs @ [r]) j = replayed (ss @ [r]) j) \<and>
        (replayed (rs @ [r]) i = None \<longleftrightarrow> replayed (ss @ [r]) i = None)"
      using here(4) by (cases r; cases "j = i") (simp_all only: replayed_simps split: if_split, simp_all)
    with True here(1) show ?thesis by simp
  qed (use here(1,3,4) in \<open>auto simp: record_alike_def [of i r r']\<close>)
qed simp

abbreviation count_attempt :: "nat \<Rightarrow> outbox \<Rightarrow> outbox" where
  "count_attempt a b \<equiv> b\<lparr>ob_heap := (ob_heap b)[a := counted (entry_at b a)]\<rparr>"

lemma counted_id [simp]: "ak_commandId (counted e) = ak_commandId e"
  by (simp add: counted_def)

lemma count_id [simp]: "ak_commandId ((ob_heap b)[a := counted (entry_at b a)] ! x) = ak_commandId (entry_at b x)"
  by (cases "a = x"; cases "x < length (ob_heap b)") (simp_all add: nth_list_update list_update_beyond)

lemma count_wf: "outbox_wf b \<Longrightarrow> outbox_wf (count_attempt a b)"
  by (simp add: outbox_wf_def)

lemma count_replayed:
  fixes a
  assumes "outbox_ok b"
  defines "i \<equiv> ak_commandId (entry_at b a)"
  shows "j \<noteq> i \<Longrightarrow> replayed (journal (count_attempt a b)) j = outbox_get (count_attempt a b) j"
    and "outbox_get (count_attempt a b) i = None \<Longrightarrow> replayed (journal (count_attempt a b)) i = None"
proof -
  have "record_alike i (write_record (ob_heap b) w) (write_record (ob_heap (count_attempt a b)) w)" for w
    by (cases w) (auto simp: record_alike_def write_record_def i_def nth_update_cases split: if_splits)
  then have "list_all2 (record_alike i) (journal b) (journal (count_attempt a b))"
    unfolding journal_def by (intro list_all2_appendI) (auto simp: list_all2_conv_all_nth record_alike_def)
  note alike = replayed_alike [OF this]
  have eq: "replayed (journal b) j = outbox_get b j" for j using assms(1) by (simp add: outbox_ok_def)
  have wf: "outbox_wf b" using assms(1) by (simp add: outbox_ok_def)
  show "replayed (journal (count_attempt a b)) j = outbox_get (count_attempt a b) j" if j: "j \<noteq> i"
  proof -
    have "outbox_get (count_attempt a b) j = outbox_get b j"
      using j wf by (cases "map_of (ob_entries b) j") (auto simp: outbox_get_def outbox_wf_def i_def nth_update_cases)
    then show ?thesis using alike j eq by metis
  qed
  show "replayed (journal (count_attempt a b)) i = None" if "outbox_get (count_attempt a b) i = None"
    using that alike eq [of i] by (auto simp: outbox_get_def)
qed

text \<open>
  A flush that has awaited can hold an entry that was acknowledged, or replaced under its command, in the meantime.
  A failed attempt writes such an entry all the same.  The other steps of a flush are \<open>calm\<close>.
\<close>

fun flush_calm :: "ack_link \<Rightarrow> nat list \<Rightarrow> outbox \<Rightarrow> bool" where
  "flush_calm link [] b \<longleftrightarrow> True"
| "flush_calm (connected, send) (a # rest) b \<longleftrightarrow>
    (let e = entry_at b a in
     ak_attempts e \<ge> ack_outbox_max_attempts \<or> \<not> connected \<or> send (ack_message (counted e)) = Sent \<or>
     map_of (ob_entries b) (ak_commandId e) = Some a)"

definition calm :: "outbox \<Rightarrow> outbox_op \<Rightarrow> bool" where
  "calm b oper = (case oper of Ob_flush_resume link k \<Rightarrow> flush_ready b k \<longrightarrow> flush_calm link (fst (ob_flushes b ! k)) b | _ \<Rightarrow> True)"

fun calm_run :: "outbox \<Rightarrow> outbox_op list \<Rightarrow> bool" where
  "calm_run b [] \<longleftrightarrow> True"
| "calm_run b (x # xs) \<longleftrightarrow> calm b x \<and> calm_run (outbox_do b x) xs"

lemma await_flush_ok:
  assumes "outbox_ok (snd tb)" and "\<forall>a \<in> set rest. a < length (ob_heap (snd tb))"
  shows "outbox_ok (await_flush rest tb)"
  using assms by (auto simp: await_flush_def split_beta outbox_ok_def outbox_wf_def journal_def outbox_get_def)

lemma markAcked_heap [simp]: "ob_heap (snd (markAcked b i)) = ob_heap b"
  by (simp add: markAcked_def outbox_append_record_def)

lemma failed_ok:
  assumes "outbox_ok b" and "map_of (ob_entries b) (ak_commandId (entry_at b a)) = Some a"
  shows "outbox_ok (snd (outbox_append_record (count_attempt a b) (Write_entry a)))"
proof (rule append_record_ok)
  have wf: "outbox_wf b" using assms(1) by (simp add: outbox_ok_def)
  then show "outbox_wf (count_attempt a b)" by (rule count_wf)
  have a: "a < length (ob_heap b)" using wf assms(2) by (auto simp: outbox_wf_def)
  then show "x < length (ob_heap (count_attempt a b))" if "Write_entry a = Write_entry x" for x using that by simp
  show "replayed (journal (count_attempt a b) @ [write_record (ob_heap (count_attempt a b)) (Write_entry a)]) i =
      outbox_get (count_attempt a b) i" for i
  proof (cases "i = ak_commandId (entry_at b a)")
    case True
    then show ?thesis using assms(2) a by (simp add: write_record_def outbox_get_def)
  next
    case False
    then show ?thesis using count_replayed(1) [OF assms(1) False] a by (simp add: write_record_def)
  qed
qed

lemma flush_loop_ok:
  assumes ok: "outbox_ok b" and heap: "\<forall>a \<in> set as. a < length (ob_heap b)" and "flush_calm link as b"
  shows "outbox_ok (flush_loop link as b)"
proof (cases "as")
  case (Cons a rest)
  obtain connected send where link: "link = (connected, send)" by (cases link)
  let ?e = "entry_at b a"
  have mark: "outbox_ok (snd (markAcked (count_attempt a b) (ak_commandId ?e)))"
    using ok count_replayed [OF ok] by (intro markAcked_ok' count_wf) (simp_all add: outbox_ok_def)
  consider "ak_attempts ?e \<ge> ack_outbox_max_attempts" | "\<not> connected" "\<not> ak_attempts ?e \<ge> ack_outbox_max_attempts"
    | "connected" "\<not> ak_attempts ?e \<ge> ack_outbox_max_attempts" "send (ack_message (counted ?e)) = Sent"
    | "connected" "\<not> ak_attempts ?e \<ge> ack_outbox_max_attempts" "send (ack_message (counted ?e)) \<noteq> Sent" by blast
  then show ?thesis
  proof cases
    case 1
    then show ?thesis using heap await_flush_ok [OF markAcked_ok [OF ok]] by (simp add: Cons link)
  next
    case 3
    then show ?thesis using heap await_flush_ok [OF mark] by (simp add: Cons link Let_def)
  next
    case 4
    then show ?thesis
      using assms(3) failed_ok [OF ok, of a] by (auto simp: Cons link Let_def split: send_outcome.split)
  qed (simp add: Cons link ok)
qed (simp add: ok)

lemma flush_ok:
  assumes "outbox_ok b"
  shows "outbox_ok (flushOnReconnect link b)"
  unfolding flushOnReconnect_def
proof (rule flush_loop_ok [OF assms])
  have wf: "outbox_wf b" using assms by (simp add: outbox_ok_def)
  have current: "a < length (ob_heap b) \<and> map_of (ob_entries b) (ak_commandId (entry_at b a)) = Some a"
    if "a \<in> set (outbox_ordered b)" for a
  proof -
    have "a \<in> snd ` set (ob_entries b)" using that by (simp add: outbox_ordered_def)
    then obtain k where "(k, a) \<in> set (ob_entries b)" by force
    then have "map_of (ob_entries b) k = Some a" using wf by (simp add: outbox_wf_def)
    then show ?thesis using wf by (auto simp: outbox_wf_def)
  qed
  then show "\<forall>a \<in> set (outbox_ordered b). a < length (ob_heap b)" by simp
  show "flush_calm link (outbox_ordered b) b"
    using current by (cases link; cases "outbox_ordered b") (simp_all add: Let_def)
qed

lemma flush_resume_ok:
  assumes "outbox_ok b" and "calm b (Ob_flush_resume link k)"
  shows "outbox_ok (flush_resume link k b)"
proof (cases "flush_ready b k")
  case True
  have "outbox_ok (without_flush k b)"
    using assms(1)
    by (auto simp: without_flush_def outbox_ok_def outbox_wf_def journal_def outbox_get_def dest: in_set_takeD in_set_dropD)
  moreover have "\<forall>a \<in> set (fst (ob_flushes b ! k)). a < length (ob_heap b)"
    using assms(1) True by (auto simp: outbox_ok_def outbox_wf_def flush_ready_def)
  moreover have "flush_calm link as (without_flush k b) = flush_calm link as b" for as
    by (cases link; cases "as") (simp_all add: without_flush_def Let_def)
  ultimately show ?thesis
    using assms(2) True flush_loop_ok [of "without_flush k b" "fst (ob_flushes b ! k)" link]
    by (simp add: flush_resume_def calm_def) (simp add: without_flush_def)
qed (simp add: flush_resume_def assms)

lemma outbox_do_ok: "outbox_ok b \<Longrightarrow> calm b x \<Longrightarrow> outbox_ok (outbox_do b x)"
  by (cases x) (simp_all add: enqueue_ok markAcked_ok write_next_ok flush_ok flush_resume_ok gc_ok gc_resume_ok)

lemma calm_run_ok: "outbox_ok b \<Longrightarrow> calm_run b xs \<Longrightarrow> outbox_ok (foldl outbox_do b xs)"
  by (induction xs arbitrary: b) (simp_all add: outbox_do_ok)

section \<open>Loading\<close>

definition outbox_keyed :: "ack_entry memory \<Rightarrow> bool" where
  "outbox_keyed m \<longleftrightarrow> distinct (map fst m) \<and> (\<forall>(k, e) \<in> set m. k = ak_commandId e)"

lemma set_update_cases: "x \<in> set (AList.update k e m) \<Longrightarrow> x = (k, e) \<or> x \<in> set m"
  by (induction m) (auto split: if_splits)

lemma load_outbox_keyed: "outbox_keyed m \<Longrightarrow> outbox_keyed (foldl (outbox_load_step now) m rs)"
proof (induction rs arbitrary: m)
  case (Cons r rs)
  have "outbox_keyed (AList.update (ak_commandId e) e m)" for e
    using Cons.prems by (auto simp: outbox_keyed_def distinct_update dest!: set_update_cases)
  moreover have "outbox_keyed (AList.delete k m)" for k
    using Cons.prems by (auto simp: outbox_keyed_def AList.delete_eq distinct_map_filter)
  ultimately have "outbox_keyed (outbox_load_step now m r)"
    using Cons.prems by (auto simp: outbox_load_step_def split: disk_record.split)
  then show ?case using Cons.IH by simp
qed simp

lemma update_new_key: "k \<notin> fst ` set m \<Longrightarrow> AList.update k e m = m @ [(k, e)]"
  by (induction m) auto

text \<open>Reading the entries of a journal into a new outbox gives each an object of its own.\<close>

lemma set_entries:
  assumes "outbox_keyed es" and "fst ` set (ob_entries b) \<inter> fst ` set es = {}"
  shows "foldl (\<lambda>b (i, e). set_entry e b) b es =
    b\<lparr>ob_heap := ob_heap b @ map snd es,
      ob_entries := ob_entries b @ zip (map fst es) [length (ob_heap b)..<length (ob_heap b) + length es]\<rparr>"
  using assms
proof (induction es arbitrary: b)
  case (Cons ke es)
  obtain k e where ke: "ke = (k, e)" "k = ak_commandId e" using Cons.prems(1) by (cases ke) (auto simp: outbox_keyed_def)
  have "k \<notin> fst ` set (ob_entries b)" using Cons.prems(2) ke by auto
  then have "set_entry e b = b\<lparr>ob_heap := ob_heap b @ [e], ob_entries := ob_entries b @ [(k, length (ob_heap b))]\<rparr>"
    using ke by (simp add: set_entry_def update_new_key)
  moreover have "outbox_keyed es" "k \<notin> fst ` set es" using Cons.prems(1) ke by (auto simp: outbox_keyed_def)
  ultimately show ?case
    using Cons.IH [of "set_entry e b"] Cons.prems(2) ke by (simp add: upt_conv_Cons disjoint_iff del: upt_Suc)
qed simp

lemma loaded:
  fixes now f
  defines "es \<equiv> loadFromDisk now f"
  shows "outbox_init now (outbox_new f) =
    (outbox_new f)\<lparr>ob_heap := map snd es, ob_entries := zip (map fst es) [0..<length es],
      ob_file := map (\<lambda>(k, e). Line (Disk_entry e)) es, ob_initialized := True\<rparr>"
proof -
  have "outbox_keyed es" unfolding es_def loadFromDisk_def by (rule load_outbox_keyed) (simp add: outbox_keyed_def)
  note set = set_entries [OF this, of "outbox_new f"]
  have "map (\<lambda>(k, a). map snd es ! a) (zip (map fst es) [0..<length es]) = map snd es"
    by (rule nth_equalityI) simp_all
  then have "map (Line \<circ> Disk_entry) (map (\<lambda>(k, a). map snd es ! a) (zip (map fst es) [0..<length es])) =
      map (Line \<circ> Disk_entry) (map snd es)" by (rule arg_cong)
  then show ?thesis
    using set by (simp add: outbox_init_def outbox_new_def rewriteAll_def outbox_snapshot_def es_def comp_def split_beta)
qed

lemma init_get: "outbox_get (outbox_init now (outbox_new f)) i = map_of (loadFromDisk now f) i"
proof -
  let ?es = "loadFromDisk now f"
  have "map (\<lambda>(k, a). (k, map snd ?es ! a)) (zip (map fst ?es) [0..<length ?es]) = ?es"
    by (rule nth_equalityI) simp_all
  then have "map_of ?es i = map_option ((!) (map snd ?es)) (map_of (zip (map fst ?es) [0..<length ?es]) i)"
    using map_of_map [of "(!) (map snd ?es)" "zip (map fst ?es) [0..<length ?es]"] by (metis comp_apply)
  then show ?thesis by (simp add: loaded outbox_get_def)
qed

lemma init_ok: "outbox_ok (outbox_init now (outbox_new f))"
proof -
  let ?es = "loadFromDisk now f" and ?b = "outbox_init now (outbox_new f)"
  have k: "outbox_keyed ?es" unfolding loadFromDisk_def by (rule load_outbox_keyed) (simp add: outbox_keyed_def)
  have ids: "a < length (ob_heap ?b) \<and> ak_commandId (entry_at ?b a) = j" if "map_of (ob_entries ?b) j = Some a" for j a
  proof -
    have "(j, a) \<in> set (zip (map fst ?es) [0..<length ?es])" using map_of_SomeD [OF that] by (simp add: loaded)
    then have a: "a < length ?es" "j = fst (?es ! a)" by (auto simp: in_set_zip)
    then have "fst (?es ! a) = ak_commandId (snd (?es ! a))" using k nth_mem [OF a(1)] by (auto simp: outbox_keyed_def)
    with a show ?thesis by (simp add: loaded)
  qed
  have clean: "file_clean (ob_file ?b)" by (auto simp: loaded file_clean_def list_all_iff)
  have d: "distinct (map fst (ob_entries ?b))" using k by (simp add: loaded outbox_keyed_def)
  have no: "ob_writing ?b = []" "ob_flushes ?b = []" unfolding loaded by (simp_all add: outbox_new_def)
  with ids clean d have "outbox_wf ?b" unfolding outbox_wf_def by (simp only: list.set ball_empty empty_iff) simp
  moreover have "journal ?b = file_records (map (\<lambda>(k, e). Line (Disk_entry e)) ?es)"
    unfolding journal_def no by (simp add: loaded)
  then have "replayed (journal ?b) i = outbox_get ?b i" for i
    using k outbox_replay.replay_rewritten [of ?es] unfolding init_get by (simp add: replayed_def outbox_keyed_def)
  ultimately show ?thesis by (simp add: outbox_ok_def)
qed

section \<open>Restarting\<close>

lemma close_records: "outbox_wf b \<Longrightarrow> file_records (ob_file (outbox_close b)) = journal b"
proof -
  have "file_clean (ob_file b) \<Longrightarrow> file_clean (ob_file ((outbox_write_next ^^ n) b)) \<and> journal ((outbox_write_next ^^ n) b) = journal b" for n
    by (induction n) (simp_all add: write_next_journal)
  then have "outbox_wf b \<Longrightarrow> journal (outbox_close b) = journal b" by (simp add: outbox_close_def outbox_wf_def)
  then show "outbox_wf b \<Longrightarrow> ?thesis" by (simp add: journal_def)
qed

lemma reopened:
  fixes b now
  assumes "outbox_wf b"
  defines "b' \<equiv> outbox_init now (outbox_new (ob_file (outbox_close b)))"
  shows "case replayed (journal b) i of None \<Rightarrow> outbox_get b' i = None | Some e \<Rightarrow> fresh now e \<longrightarrow> outbox_get b' i = Some e"
  using filtered_replay [where rs = "journal b" and i = i and now = now]
  unfolding b'_def init_get loadFromDisk_def close_records [OF assms(1)] by (auto split: option.splits)

text \<open>
  C24. A restart keeps what it should.  Take any interleaving of enqueueing, acknowledging, flushes, collections and single appends
  since the outbox was opened on a journal, in whatever state that journal was, in which no failing attempt of a flush is made
  on an entry that was acknowledged, dropped or replaced while the flush awaited (\<open>calm_run\<close>).  When the outbox is closed and the
  journal opened again, every entry that is neither expired nor over its attempts is exactly as it was in memory,
  and none is there that was acknowledged or dropped.
\<close>

theorem outbox_restart:
  fixes f ops t now
  defines "b \<equiv> outbox_close (foldl outbox_do (outbox_init t (outbox_new f)) ops)"
  defines "b' \<equiv> outbox_init now (outbox_new (ob_file b))"
  assumes "calm_run (outbox_init t (outbox_new f)) ops"
  shows "case outbox_get b i of
      None \<Rightarrow> outbox_get b' i = None
    | Some e \<Rightarrow> if fresh now e then outbox_get b' i = Some e else True"
proof -
  have "outbox_ok (foldl outbox_do (outbox_init t (outbox_new f)) ops)" (is "outbox_ok ?c")
    using init_ok assms(3) by (rule calm_run_ok)
  then have "outbox_wf ?c" "replayed (journal ?c) i = outbox_get b i" by (simp_all add: outbox_ok_def b_def)
  then show ?thesis
    using reopened [of ?c now i] unfolding b'_def b_def by (auto split: option.splits)
qed

definition example_ack :: "string \<Rightarrow> int \<Rightarrow> ack_entry" where
  "example_ack i t = \<lparr>ak_commandId = i, ak_sessionName = ''s'', ak_status = ''accepted'', ak_error = None, ak_extras = None,
     ak_ts = t, ak_attempts = 0\<rparr>"

text \<open>The first entry is handed over, the second is acknowledged while the flush awaits, and the third fails.\<close>

definition example_interleaving :: "outbox_op list" where
  "example_interleaving =
    [Ob_enqueue (example_ack ''a'' 1), Ob_enqueue (example_ack ''b'' 2), Ob_enqueue (example_ack ''c'' 3),
     Ob_flush (True, \<lambda>_. Sent), Ob_write, Ob_write, Ob_acked ''b'', Ob_write, Ob_write,
     Ob_flush_resume (True, \<lambda>_. Sent) 0, Ob_write, Ob_flush_resume (True, \<lambda>_. Threw) 0]"

lemma example_calm: "calm_run (outbox_init 0 (outbox_new [])) example_interleaving"
  by code_simp

lemma outbox_restart_witness:
  "outbox_get (outbox_init 5 (outbox_new (ob_file (outbox_close (foldl outbox_do (outbox_init 0 (outbox_new [])) example_interleaving)))))
     ''c'' = Some (counted (example_ack ''c'' 3))"
proof -
  have "outbox_get (outbox_close (foldl outbox_do (outbox_init 0 (outbox_new [])) example_interleaving)) ''c'' =
      Some (counted (example_ack ''c'' 3))" "fresh 5 (counted (example_ack ''c'' 3))" by code_simp+
  then show ?thesis
    using outbox_restart [OF example_calm, where i = "''c''" and now = 5] by (simp only: option.case if_True)
qed

text \<open>
  The one exception is real: when a flush comes back from an \<open>await\<close> to an entry that was acknowledged or dropped in
  the meantime, and the attempt fails, the entry is appended after its acknowledgement, so a restart has it again.
\<close>

theorem stale_failure_revives:
  fixes f ops t now k send
  defines "b \<equiv> foldl outbox_do (outbox_init t (outbox_new f)) ops"
  defines "a \<equiv> hd (fst (ob_flushes b ! k))"
  defines "e \<equiv> entry_at b a"
  defines "c \<equiv> outbox_close (flush_resume (True, send) k b)"
  assumes "calm_run (outbox_init t (outbox_new f)) ops" and "flush_ready b k" and "fst (ob_flushes b ! k) \<noteq> []"
    and "outbox_get b (ak_commandId e) = None"
    and "ak_attempts e < ack_outbox_max_attempts" and "send (ack_message (counted e)) \<noteq> Sent" and "fresh now (counted e)"
  shows "outbox_get c (ak_commandId e) = None \<and>
    outbox_get (outbox_init now (outbox_new (ob_file c))) (ak_commandId e) = Some (counted e)"
proof -
  obtain rest where flush: "fst (ob_flushes b ! k) = a # rest" using assms(7) by (cases "fst (ob_flushes b ! k)") (simp_all add: a_def)
  have "outbox_ok b" unfolding b_def using init_ok assms(5) by (rule calm_run_ok)
  then have wf: "outbox_wf b" by (simp add: outbox_ok_def)
  have "ob_flushes b ! k \<in> set (ob_flushes b)" using assms(6) by (simp add: flush_ready_def)
  moreover have "a \<in> set (fst (ob_flushes b ! k))" by (simp add: flush)
  ultimately have a: "a < length (ob_heap b)" using wf unfolding outbox_wf_def by blast
  let ?b = "without_flush k b"
  let ?c = "snd (outbox_append_record (count_attempt a ?b) (Write_entry a))"
  have same: "ob_heap ?b = ob_heap b" "ob_entries ?b = ob_entries b" "ob_file ?b = ob_file b" "ob_writing ?b = ob_writing b"
    by (simp_all add: without_flush_def)
  have e: "entry_at ?b a = e" by (simp add: same e_def)
  have "flush_loop (True, send) (a # rest) ?b = ?c"
    using assms(9,10) e by (cases "send (ack_message (counted e))") (simp_all add: Let_def)
  then have step: "flush_resume (True, send) k b = ?c" using assms(6) flush by (simp add: flush_resume_def)
  have "map_of (ob_entries b) (ak_commandId e) = None" using assms(8) by (simp add: outbox_get_def)
  then have gone: "outbox_get c (ak_commandId e) = None"
    by (simp add: c_def step) (simp add: outbox_get_def outbox_append_record_def same)
  have "outbox_wf (count_attempt a ?b)"
    using wf by (intro count_wf) (auto simp: outbox_wf_def without_flush_def dest: in_set_takeD in_set_dropD)
  then have "outbox_wf ?c" using a by (auto simp: outbox_wf_def outbox_append_record_def same)
  moreover have "replayed (journal ?c) (ak_commandId e) = Some (counted e)"
    using a by (simp add: journal_def outbox_append_record_def write_record_def same e_def flip: append_assoc)
  ultimately show ?thesis
    using gone reopened [of ?c now "ak_commandId e"] assms(11) by (simp add: c_def step)
qed

definition example_stale :: "outbox_op list" where
  "example_stale = butlast (butlast (butlast example_interleaving))"

lemma stale_failure_revives_witness:
  "outbox_get (outbox_init 5 (outbox_new (ob_file (outbox_close (flush_resume (True, \<lambda>_. Threw) 0
     (foldl outbox_do (outbox_init 0 (outbox_new [])) example_stale)))))) ''b'' = Some (counted (example_ack ''b'' 2))"
proof -
  let ?b = "foldl outbox_do (outbox_init 0 (outbox_new [])) example_stale"
  have e: "entry_at ?b (hd (fst (ob_flushes ?b ! 0))) = example_ack ''b'' 2" by code_simp
  have i: "ak_commandId (example_ack ''b'' 2) = ''b''" by code_simp
  show ?thesis
  proof (rule stale_failure_revives [where f = "[]" and t = 0 and ops = example_stale and k = 0 and now = 5, unfolded e i, THEN conjunct2])
    show "calm_run (outbox_init 0 (outbox_new [])) example_stale" by code_simp
    show "flush_ready ?b 0" "fst (ob_flushes ?b ! 0) \<noteq> []" "outbox_get ?b ''b'' = None" by code_simp+
    show "ak_attempts (example_ack ''b'' 2) < ack_outbox_max_attempts" "fresh 5 (counted (example_ack ''b'' 2))" by code_simp+
  qed simp
qed

end
