(* ===== verification/RateLimits.thy ===== *)
theory RateLimits
  imports JsValue
begin

text \<open>
  Rate limits and single-use routes of the server: the in-memory limiter of
  \<open>src/server/src/ws/rate-limiter.ts\<close> (sliding window, single-use token ids, lockout), the share limits of
  \<open>src/server/src/share/share-rate-limit.ts\<close> (fixed windows), and the one-shot route of
  an acknowledgement to the socket that sent its command,
  \<open>src/server/src/ws/command-ack-origin-router.ts\<close>.  The clock of each call is an argument.
\<close>

section \<open>The in-memory limiter\<close>

definition lockout_threshold :: int where
  "lockout_threshold = 5"

definition lockout_duration_ms :: int where
  "lockout_duration_ms = 15 * 60 * 1000"

record lockout_entry =
  lo_failedAttempts :: int
  lo_lockedUntil :: "int option"
  lo_lastAttemptAt :: int

record limiter =
  rl_windows :: "(string \<times> int list) list"
  rl_jtis :: "(string \<times> int) list"
  rl_lockouts :: "(string \<times> lockout_entry) list"

definition limiter_new :: limiter where
  "limiter_new = \<lparr>rl_windows = [], rl_jtis = [], rl_lockouts = []\<rparr>"

definition limiter_check :: "string \<Rightarrow> int \<Rightarrow> int \<Rightarrow> int \<Rightarrow> limiter \<Rightarrow> bool \<times> limiter" where
  "limiter_check key limit windowMs now m =
    (let cutoff = now - windowMs;
         entries = filter (\<lambda>t. t > cutoff) (opt_default [] (map_of (rl_windows m) key))
     in if int (length entries) \<ge> limit then (False, m\<lparr>rl_windows := AList.update key entries (rl_windows m)\<rparr>)
        else (True, m\<lparr>rl_windows := AList.update key (entries @ [now]) (rl_windows m)\<rparr>))"

definition consumeJti :: "string \<Rightarrow> int \<Rightarrow> int \<Rightarrow> limiter \<Rightarrow> bool \<times> limiter" where
  "consumeJti jti ttlMs now m =
    (case map_of (rl_jtis m) jti of
       Some existing \<Rightarrow> if existing > now then (False, m)
         else (True, m\<lparr>rl_jtis := AList.update jti (now + ttlMs) (rl_jtis m)\<rparr>)
     | None \<Rightarrow> (True, m\<lparr>rl_jtis := AList.update jti (now + ttlMs) (rl_jtis m)\<rparr>))"

text \<open>A lockout result: \<open>None\<close> when not locked, else until when.\<close>

definition limiter_recordAuthFailure :: "string \<Rightarrow> int \<Rightarrow> limiter \<Rightarrow> int option \<times> limiter" where
  "limiter_recordAuthFailure identity now m =
    (let entry = opt_default \<lparr>lo_failedAttempts = 0, lo_lockedUntil = None, lo_lastAttemptAt = now\<rparr>
           (map_of (rl_lockouts m) identity);
         entry = (case lo_lockedUntil entry of
             Some u \<Rightarrow> if u \<le> now then entry\<lparr>lo_failedAttempts := 0, lo_lockedUntil := None\<rparr> else entry
           | None \<Rightarrow> entry);
         entry = entry\<lparr>lo_failedAttempts := lo_failedAttempts entry + 1, lo_lastAttemptAt := now\<rparr>;
         entry = (if lo_failedAttempts entry \<ge> lockout_threshold then entry\<lparr>lo_lockedUntil := Some (now + lockout_duration_ms)\<rparr>
                  else entry)
     in (lo_lockedUntil entry, m\<lparr>rl_lockouts := AList.update identity entry (rl_lockouts m)\<rparr>))"

definition limiter_checkLockout :: "string \<Rightarrow> int \<Rightarrow> limiter \<Rightarrow> int option" where
  "limiter_checkLockout identity now m =
    (case map_of (rl_lockouts m) identity of
       None \<Rightarrow> None
     | Some entry \<Rightarrow> (case lo_lockedUntil entry of Some u \<Rightarrow> if u > now then Some u else None | None \<Rightarrow> None))"

definition limiter_cleanup :: "int \<Rightarrow> limiter \<Rightarrow> limiter" where
  "limiter_cleanup now m =
    m\<lparr>rl_windows := filter (\<lambda>(k, entries). entries \<noteq> []) (rl_windows m),
      rl_jtis := filter (\<lambda>(k, expireAt). \<not> expireAt \<le> now) (rl_jtis m),
      rl_lockouts := filter (\<lambda>(k, e). case lo_lockedUntil e of Some u \<Rightarrow> \<not> u \<le> now | None \<Rightarrow> True) (rl_lockouts m)\<rparr>"

section \<open>Share limits\<close>

definition share_send_pending_limit :: int where "share_send_pending_limit = 10"
definition share_send_attempt_limit :: int where "share_send_attempt_limit = 30"
definition share_cancel_attempt_limit :: int where "share_cancel_attempt_limit = 10"
definition share_rate_limit_window_ms :: int where "share_rate_limit_window_ms = 60000"

datatype share_command_type = Share_send | Share_cancel

record share_bucket =
  sb_windowStart :: int
  sb_count :: int

type_synonym share_buckets = "(string \<times> share_bucket) list"

record share_limits =
  sl_send :: share_buckets
  sl_cancel :: share_buckets

definition consumeShareRateBucket :: "string \<Rightarrow> int \<Rightarrow> int \<Rightarrow> share_buckets \<Rightarrow> bool \<times> share_buckets" where
  "consumeShareRateBucket key limit now buckets =
    (case map_of buckets key of
       None \<Rightarrow> (True, AList.update key \<lparr>sb_windowStart = now, sb_count = 1\<rparr> buckets)
     | Some current \<Rightarrow>
         if now - sb_windowStart current \<ge> share_rate_limit_window_ms then
           (True, AList.update key \<lparr>sb_windowStart = now, sb_count = 1\<rparr> buckets)
         else if sb_count current \<ge> limit then (False, buckets)
         else (True, AList.update key (current\<lparr>sb_count := sb_count current + 1\<rparr>) buckets))"

definition share_key :: "string \<Rightarrow> string \<Rightarrow> string \<Rightarrow> string" where
  "share_key userId serverId sessionName = userId @ '':'' @ serverId @ '':'' @ sessionName"

text \<open>The result is whether the command is admitted (\<open>null\<close> in the code).\<close>

definition evaluateSharedCommandRateLimit ::
  "string \<Rightarrow> string \<Rightarrow> string \<Rightarrow> share_command_type \<Rightarrow> int \<Rightarrow> int option \<Rightarrow> share_limits \<Rightarrow> bool \<times> share_limits" where
  "evaluateSharedCommandRateLimit userId serverId sessionName commandType now pendingSendCount s =
    (let key = share_key userId serverId sessionName in
     case commandType of
       Share_send \<Rightarrow>
         if opt_default 0 pendingSendCount \<ge> share_send_pending_limit then (False, s)
         else (let (ok, b) = consumeShareRateBucket key share_send_attempt_limit now (sl_send s) in (ok, s\<lparr>sl_send := b\<rparr>))
     | Share_cancel \<Rightarrow>
         (let (ok, b) = consumeShareRateBucket key share_cancel_attempt_limit now (sl_cancel s) in (ok, s\<lparr>sl_cancel := b\<rparr>)))"

section \<open>Routes of acknowledgements\<close>

text \<open>A socket is its identity.\<close>

record ack_origin =
  or_socket :: nat
  or_expiresAt :: int

type_synonym ack_origins = "(string \<times> ack_origin) list"

definition origin_record :: "int \<Rightarrow> string \<Rightarrow> nat \<Rightarrow> int \<Rightarrow> ack_origins \<Rightarrow> ack_origins" where
  "origin_record ttlMs commandId socket now m =
     AList.update commandId \<lparr>or_socket = socket, or_expiresAt = now + ttlMs\<rparr> m"

definition origin_take :: "string \<Rightarrow> int \<Rightarrow> ack_origins \<Rightarrow> nat option \<times> ack_origins" where
  "origin_take commandId now m =
    (case map_of m commandId of
       None \<Rightarrow> (None, m)
     | Some entry \<Rightarrow> (if or_expiresAt entry \<ge> now then Some (or_socket entry) else None, AList.delete commandId m))"

definition origin_dropSocket :: "nat \<Rightarrow> ack_origins \<Rightarrow> ack_origins" where
  "origin_dropSocket socket m = filter (\<lambda>(k, e). or_socket e \<noteq> socket) m"

definition origin_sweep :: "int \<Rightarrow> ack_origins \<Rightarrow> ack_origins" where
  "origin_sweep now m = filter (\<lambda>(k, e). \<not> or_expiresAt e < now) m"

definition origin_size :: "ack_origins \<Rightarrow> nat" where
  "origin_size m = length m"

section \<open>Request timestamps\<close>

definition timestamp_tolerance_ms :: int where
  "timestamp_tolerance_ms = 5 * 60 * 1000"

definition verifyTimestamp :: "string option \<Rightarrow> int \<Rightarrow> bool" where
  "verifyTimestamp header now =
    (if \<not> truthy header then False
     else case js_parse_int (the header) of None \<Rightarrow> False | Some tsMs \<Rightarrow> \<bar>now - tsMs\<bar> \<le> timestamp_tolerance_ms)"

section \<open>What a limiter over a window promises\<close>

text \<open>The times at which a sequence of events was granted.\<close>

fun grants_of :: "('e \<Rightarrow> 's \<Rightarrow> bool \<times> 's) \<Rightarrow> ('e \<Rightarrow> int) \<Rightarrow> 's \<Rightarrow> 'e list \<Rightarrow> int list" where
  "grants_of step time s [] = []"
| "grants_of step time s (e # es) =
     (let (ok, s') = step e s in (if ok then [time e] else []) @ grants_of step time s' es)"

definition in_window :: "int \<Rightarrow> int \<Rightarrow> int list \<Rightarrow> int" where
  "in_window a w g = int (length (filter (\<lambda>x. a < x \<and> x \<le> a + w) g))"

text \<open>
  A provider keeps an invariant between the time of its last event, the grants so far and its state, and grants
  only while fewer than \<open>n\<close> grants are younger than \<open>w\<close>.  Then no window of length \<open>w\<close>, wherever it
  starts, holds more than \<open>n\<close> grants.
\<close>

locale window_limiter =
  fixes step :: "'e \<Rightarrow> 's \<Rightarrow> bool \<times> 's"
    and time :: "'e \<Rightarrow> int"
    and admissible :: "'e \<Rightarrow> bool"
    and inv :: "int \<Rightarrow> int list \<Rightarrow> 's \<Rightarrow> bool"
    and n :: int
    and w :: int
  assumes inv_past: "inv c g s \<Longrightarrow> x \<in> set g \<Longrightarrow> x \<le> c"
    and step_inv: "inv c g s \<Longrightarrow> c \<le> time e \<Longrightarrow> admissible e \<Longrightarrow>
      inv (time e) (if fst (step e s) then g @ [time e] else g) (snd (step e s))"
    and step_bound: "inv c g s \<Longrightarrow> c \<le> time e \<Longrightarrow> admissible e \<Longrightarrow> fst (step e s) \<Longrightarrow>
      int (length (filter (\<lambda>x. time e - w < x) g)) < n"
begin

lemma window_bound_from:
  assumes "inv c g s" and "sorted (c # map time es)" and "list_all admissible es" and "in_window a w g \<le> n"
  shows "in_window a w (g @ grants_of step time s es) \<le> n"
  using assms
proof (induction es arbitrary: c g s)
  case (Cons e es)
  obtain ok s' where st: "step e s = (ok, s')" by (cases "step e s")
  have c: "c \<le> time e" and adm: "admissible e" using Cons.prems by auto
  let ?g = "if ok then g @ [time e] else g"
  have i: "inv (time e) ?g s'" using step_inv [OF Cons.prems(1) c adm] st by simp
  have b: "in_window a w ?g \<le> n"
  proof (cases "ok \<and> a < time e \<and> time e \<le> a + w")
    case True
    have "length (filter (\<lambda>x. a < x \<and> x \<le> a + w) g) \<le> length (filter (\<lambda>x. time e - w < x) g)"
      using True by (induction g) auto
    moreover have "int (length (filter (\<lambda>x. time e - w < x) g)) < n"
      using step_bound [OF Cons.prems(1) c adm] st True by simp
    ultimately show ?thesis using True by (simp add: in_window_def)
  next
    case False
    then show ?thesis using Cons.prems(4) by (auto simp: in_window_def)
  qed
  have "in_window a w (?g @ grants_of step time s' es) \<le> n"
    using Cons.prems by (intro Cons.IH [OF i _ _ b]) auto
  then show ?case using st by (cases ok) simp_all
qed simp

lemma window_bound:
  "inv c [] s \<Longrightarrow> sorted (c # map time es) \<Longrightarrow> list_all admissible es \<Longrightarrow> 0 \<le> n \<Longrightarrow>
   in_window a w (grants_of step time s es) \<le> n"
  using window_bound_from [of c "[]" s es a] by (simp add: in_window_def)

end

section \<open>The sliding window\<close>

datatype limiter_op =
  Lim_check string int int int
| Lim_jti string int int
| Lim_failure string int
| Lim_cleanup int

fun limiter_op_time :: "limiter_op \<Rightarrow> int" where
  "limiter_op_time (Lim_check _ _ _ now) = now"
| "limiter_op_time (Lim_jti _ _ now) = now"
| "limiter_op_time (Lim_failure _ now) = now"
| "limiter_op_time (Lim_cleanup now) = now"

fun limiter_do :: "limiter_op \<Rightarrow> limiter \<Rightarrow> limiter" where
  "limiter_do (Lim_check key limit windowMs now) m = snd (limiter_check key limit windowMs now m)"
| "limiter_do (Lim_jti jti ttl now) m = snd (consumeJti jti ttl now m)"
| "limiter_do (Lim_failure identity now) m = snd (limiter_recordAuthFailure identity now m)"
| "limiter_do (Lim_cleanup now) m = limiter_cleanup now m"

text \<open>Whether an operation is a check of a key that is granted.\<close>

definition limiter_step :: "string \<Rightarrow> limiter_op \<Rightarrow> limiter \<Rightarrow> bool \<times> limiter" where
  "limiter_step k op m =
    ((case op of Lim_check key limit windowMs now \<Rightarrow> key = k \<and> fst (limiter_check key limit windowMs now m) | _ \<Rightarrow> False),
     limiter_do op m)"

definition uses_limit :: "string \<Rightarrow> int \<Rightarrow> int \<Rightarrow> limiter_op \<Rightarrow> bool" where
  "uses_limit k n w op \<longleftrightarrow> (case op of Lim_check key limit windowMs _ \<Rightarrow> key = k \<longrightarrow> limit = n \<and> windowMs = w | _ \<Rightarrow> True)"

definition window_of :: "string \<Rightarrow> limiter \<Rightarrow> int list" where
  "window_of k m = opt_default [] (map_of (rl_windows m) k)"

text \<open>The stored window of a key is its grants after some earlier cutoff.\<close>

definition window_inv :: "string \<Rightarrow> int \<Rightarrow> int \<Rightarrow> int list \<Rightarrow> limiter \<Rightarrow> bool" where
  "window_inv k w c g m \<longleftrightarrow> 0 < w \<and> (\<forall>x \<in> set g. x \<le> c) \<and> distinct (map fst (rl_windows m)) \<and>
     (\<exists>d \<le> c - w. window_of k m = filter (\<lambda>x. d < x) g)"

lemma windows_other:
  "rl_windows (snd (consumeJti j ttl now m)) = rl_windows m"
  "rl_windows (snd (limiter_recordAuthFailure i now m)) = rl_windows m"
  by (simp_all add: consumeJti_def limiter_recordAuthFailure_def Let_def split: option.split)

lemma map_of_filter_none:
  "distinct (map fst m) \<Longrightarrow> map_of (filter (\<lambda>(k, v). P v) m) k = (case map_of m k of Some v \<Rightarrow> if P v then Some v else None | None \<Rightarrow> None)"
  by (induction m) (auto simp: map_of_eq_None_iff split: option.split)

lemma window_of_cleanup:
  "distinct (map fst (rl_windows m)) \<Longrightarrow> window_of k (limiter_cleanup now m) = window_of k m"
  by (simp add: window_of_def limiter_cleanup_def map_of_filter_none split: option.split)

lemma window_of_check:
  "window_of k (snd (limiter_check key limit windowMs now m)) =
     (if key \<noteq> k then window_of k m
      else filter (\<lambda>t. t > now - windowMs) (window_of k m) @
        (if fst (limiter_check key limit windowMs now m) then [now] else []))"
  "fst (limiter_check key limit windowMs now m) \<longleftrightarrow>
     int (length (filter (\<lambda>t. t > now - windowMs) (window_of key m))) < limit"
  by (auto simp: window_of_def limiter_check_def Let_def update_conv')

lemma distinct_windows_do: "distinct (map fst (rl_windows m)) \<Longrightarrow> distinct (map fst (rl_windows (limiter_do op m)))"
  by (cases op)
    (simp_all add: windows_other limiter_check_def limiter_cleanup_def Let_def distinct_update distinct_map_filter)

lemma filter_cutoff: "d \<le> e \<Longrightarrow> filter (\<lambda>t. (e::int) < t) (filter (\<lambda>x. d < x) g) = filter (\<lambda>t. e < t) g"
  by (auto intro: filter_cong)

lemma window_inv_step:
  assumes "window_inv k w c g m" and "c \<le> limiter_op_time op" and "uses_limit k n w op"
  shows "window_inv k w (limiter_op_time op) (if fst (limiter_step k op m) then g @ [limiter_op_time op] else g)
    (snd (limiter_step k op m))"
proof -
  obtain d where d: "d \<le> c - w" "window_of k m = filter (\<lambda>x. d < x) g"
    using assms(1) by (auto simp: window_inv_def)
  have pos: "0 < w" using assms(1) by (simp add: window_inv_def)
  have past: "\<forall>x \<in> set g. x \<le> limiter_op_time op" using assms(1,2) by (force simp: window_inv_def)
  have dist: "distinct (map fst (rl_windows (limiter_do op m)))"
    using assms(1) distinct_windows_do by (simp add: window_inv_def)
  show ?thesis
  proof (cases op)
    case (Lim_check key limit windowMs now)
    show ?thesis
    proof (cases "key = k")
      case True
      then have "windowMs = w" using assms(3) Lim_check by (simp add: uses_limit_def)
      moreover have "filter (\<lambda>t. now - w < t) (window_of k m) = filter (\<lambda>t. now - w < t) g"
        unfolding d(2) using d(1) assms(2) Lim_check by (intro filter_cutoff) simp
      ultimately show ?thesis
        using True Lim_check past dist assms(1)
        by (auto simp: window_inv_def limiter_step_def window_of_check(1) intro!: exI [of _ "now - w"])
    next
      case False
      then show ?thesis
        using d assms(2) past dist pos Lim_check
        by (auto simp: window_inv_def limiter_step_def window_of_check(1) intro!: exI [of _ d])
    qed
  qed (use d assms(1,2) past dist in \<open>auto simp: window_inv_def limiter_step_def window_of_cleanup windows_other
        intro!: exI [of _ d]\<close>, auto simp: window_of_def windows_other)
qed

lemma window_inv_bound:
  assumes "window_inv k w c g m" and "c \<le> limiter_op_time op" and "uses_limit k n w op" and "fst (limiter_step k op m)"
  shows "int (length (filter (\<lambda>x. limiter_op_time op - w < x) g)) < n"
proof -
  obtain d where d: "d \<le> c - w" "window_of k m = filter (\<lambda>x. d < x) g"
    using assms(1) by (auto simp: window_inv_def)
  obtain now where op: "op = Lim_check k n w now"
    using assms(3,4) by (auto simp: limiter_step_def uses_limit_def split: limiter_op.splits)
  have "filter (\<lambda>t. now - w < t) (window_of k m) = filter (\<lambda>t. now - w < t) g"
    unfolding d(2) using d(1) assms(2) op by (intro filter_cutoff) simp
  then show ?thesis using assms(4) op by (simp add: limiter_step_def window_of_check(2))
qed

interpretation sliding: window_limiter "limiter_step k" limiter_op_time "uses_limit k n w" "window_inv k w" n w for k n w
  by unfold_locales (auto simp: window_inv_step window_inv_bound, simp add: window_inv_def)

lemma window_inv_new: "0 < w \<Longrightarrow> window_inv k w c [] limiter_new"
  by (auto simp: window_inv_def limiter_new_def window_of_def)

text \<open>
  The sliding window holds its limit: while the clock does not go back and the checks of a key all use one limit
  and window, no stretch of time as long as the window, wherever it starts, has more granted checks
  of the key than the limit, whatever else the limiter is used for, clean-ups included.
\<close>

theorem sliding_window_bound:
  assumes "sorted (map limiter_op_time ops)" and "list_all (uses_limit k n w) ops" and "0 < w" and "0 \<le> n"
  shows "in_window a w (grants_of (limiter_step k) limiter_op_time limiter_new ops) \<le> n"
proof (cases ops)
  case (Cons op rest)
  then have "sorted (limiter_op_time op # map limiter_op_time ops)" using assms(1) by auto
  then show ?thesis
    using sliding.window_bound [OF window_inv_new [OF assms(3)]] assms(2,4) by blast
qed (use assms in \<open>simp add: in_window_def\<close>)

theorem sliding_window_bound_witness:
  "in_window 0 10 (grants_of (limiter_step ''k'') limiter_op_time limiter_new
     [Lim_check ''k'' 1 10 1, Lim_check ''k'' 1 10 2, Lim_cleanup 3, Lim_check ''k'' 1 10 11]) \<le> 1"
  by (rule sliding_window_bound) (simp_all add: uses_limit_def)

section \<open>The window against its history\<close>

text \<open>
  The specification of a check: it is granted when fewer than the limit of all grants of the key so far are younger
  than the window.  The code forgets what its last check of the key found too old.
\<close>

fun spec_decisions :: "(string \<Rightarrow> int) \<Rightarrow> (string \<Rightarrow> int) \<Rightarrow> (string \<Rightarrow> int list) \<Rightarrow> (string \<times> int) list \<Rightarrow> bool list" where
  "spec_decisions limit window history [] = []"
| "spec_decisions limit window history ((k, now) # calls) =
     (let ok = int (length (filter (\<lambda>t. now - window k < t) (history k))) < limit k
      in ok # spec_decisions limit window (if ok then history(k := history k @ [now]) else history) calls)"

fun limiter_decisions :: "(string \<Rightarrow> int) \<Rightarrow> (string \<Rightarrow> int) \<Rightarrow> limiter \<Rightarrow> (string \<times> int) list \<Rightarrow> bool list" where
  "limiter_decisions limit window m [] = []"
| "limiter_decisions limit window m ((k, now) # calls) =
     (let (ok, m') = limiter_check k (limit k) (window k) now m in ok # limiter_decisions limit window m' calls)"

definition history_related :: "(string \<Rightarrow> int) \<Rightarrow> int \<Rightarrow> (string \<Rightarrow> int list) \<Rightarrow> limiter \<Rightarrow> bool" where
  "history_related window c history m \<longleftrightarrow> (\<forall>k. \<exists>d \<le> c - window k. window_of k m = filter (\<lambda>x. d < x) (history k))"

lemma check_simulates:
  assumes "history_related window c history m" and "c \<le> now" and "0 < window k"
    and "limiter_check k n (window k) now m = (ok, m')"
  shows "ok \<longleftrightarrow> int (length (filter (\<lambda>t. now - window k < t) (history k))) < n"
    and "history_related window now (if ok then history(k := history k @ [now]) else history) m'"
proof -
  obtain d where d: "d \<le> c - window k" "window_of k m = filter (\<lambda>x. d < x) (history k)"
    using assms(1) by (auto simp: history_related_def)
  have f: "filter (\<lambda>t. now - window k < t) (window_of k m) = filter (\<lambda>t. now - window k < t) (history k)"
    unfolding d(2) using d(1) assms(2) by (intro filter_cutoff) simp
  show ok: "ok \<longleftrightarrow> int (length (filter (\<lambda>t. now - window k < t) (history k))) < n"
    using window_of_check(2) [of k n "window k" now m] assms(4) f by simp
  have w: "window_of j m' = (if k \<noteq> j then window_of j m
      else filter (\<lambda>t. now - window k < t) (history k) @ (if ok then [now] else []))" for j
    using window_of_check(1) [of j k n "window k" now m] assms(4) f by auto
  show "history_related window now (if ok then history(k := history k @ [now]) else history) m'"
    unfolding history_related_def
  proof
    fix j
    show "\<exists>d \<le> now - window j. window_of j m' =
        filter (\<lambda>x. d < x) ((if ok then history(k := history k @ [now]) else history) j)"
    proof (cases "j = k")
      case True
      then show ?thesis using w assms(3) by (intro exI [of _ "now - window k"]) auto
    next
      case False
      obtain e where "e \<le> c - window j" "window_of j m = filter (\<lambda>x. e < x) (history j)"
        using assms(1) by (auto simp: history_related_def)
      then show ?thesis using False w assms(2) by (intro exI [of _ e]) auto
    qed
  qed
qed

lemma decisions_simulate:
  assumes "history_related window c history m" and "sorted (c # map snd calls)" and "\<forall>k. 0 < window k"
  shows "limiter_decisions limit window m calls = spec_decisions limit window history calls"
  using assms(1,2)
proof (induction calls arbitrary: c history m)
  case (Cons call calls)
  obtain k now where call: "call = (k, now)" by (cases call)
  obtain ok m' where st: "limiter_check k (limit k) (window k) now m = (ok, m')"
    by (cases "limiter_check k (limit k) (window k) now m")
  have c: "c \<le> now" and rest: "sorted (now # map snd calls)" using Cons.prems(2) call by auto
  note sim = check_simulates [OF Cons.prems(1) c assms(3) [rule_format] st]
  show ?case using Cons.IH [OF sim(2) rest] sim(1) by (auto simp: call st Let_def)
qed simp

text \<open>
  C28. Forgetting old grants changes no decision: while the clock does not go back, the limiter decides every sequence
  of checks exactly as the specification that remembers all grants.
\<close>

theorem limiter_refines_history:
  assumes "sorted (map snd calls)" and "\<forall>k. 0 < window k"
  shows "limiter_decisions limit window limiter_new calls = spec_decisions limit window (\<lambda>_. []) calls"
proof (cases calls)
  case (Cons call rest)
  then have "sorted (snd call # map snd calls)" using assms(1) by auto
  moreover have "history_related window (snd call) (\<lambda>_. []) limiter_new"
    by (auto simp: history_related_def window_of_def limiter_new_def)
  ultimately show ?thesis using decisions_simulate [OF _ _ assms(2)] by blast
qed simp

theorem limiter_refines_history_witness:
  "limiter_decisions (\<lambda>_. 1) (\<lambda>_. 10) limiter_new [(''a'', 1), (''a'', 5), (''b'', 6), (''a'', 11)] = [True, False, True, True]"
proof -
  let ?calls = "[(''a'', 1), (''a'', 5), (''b'', 6), (''a'', 11)]"
  have "limiter_decisions (\<lambda>_. 1) (\<lambda>_. 10) limiter_new ?calls = spec_decisions (\<lambda>_. 1) (\<lambda>_. 10) (\<lambda>_. []) ?calls"
    by (rule limiter_refines_history) simp_all
  then show ?thesis by simp
qed

section \<open>Token ids and lockouts\<close>

lemma jti_do:
  "distinct (map fst (rl_jtis m)) \<Longrightarrow> map_of (rl_jtis m) j = Some u \<Longrightarrow> limiter_op_time op < u \<Longrightarrow>
   distinct (map fst (rl_jtis (limiter_do op m))) \<and> map_of (rl_jtis (limiter_do op m)) j = Some u"
  by (cases op)
    (auto simp: limiter_check_def consumeJti_def limiter_recordAuthFailure_def limiter_cleanup_def Let_def
      distinct_update update_conv' distinct_map_filter map_of_filter_none simp del: map_of_eq_Some_iff split: option.split)

lemma jti_run:
  assumes "distinct (map fst (rl_jtis m))" and "map_of (rl_jtis m) j = Some u"
    and "list_all (\<lambda>op. limiter_op_time op < u) ops"
  shows "map_of (rl_jtis (foldl (\<lambda>m op. limiter_do op m) m ops)) j = Some u"
  using assms
proof (induction ops arbitrary: m)
  case (Cons op ops)
  then show ?case using jti_do [of m j u op] by (simp del: map_of_eq_Some_iff)
qed simp

lemma distinct_jtis_do: "distinct (map fst (rl_jtis m)) \<Longrightarrow> distinct (map fst (rl_jtis (limiter_do op m)))"
  by (cases op)
    (auto simp: limiter_check_def consumeJti_def limiter_recordAuthFailure_def limiter_cleanup_def Let_def
      distinct_update distinct_map_filter split: option.split)

definition limiter_run :: "limiter_op list \<Rightarrow> limiter" where
  "limiter_run ops = foldl (\<lambda>m op. limiter_do op m) limiter_new ops"

lemma limiter_run_distinct: "distinct (map fst (rl_jtis (limiter_run ops)))"
  by (induction ops rule: rev_induct)
    (simp_all add: limiter_run_def limiter_new_def distinct_jtis_do)

text \<open>
  A token id is used once: after it was consumed, and until its time to live is over, no later attempt to consume it
  succeeds, whatever other calls and clean-ups come between.
\<close>

theorem jti_single_use:
  assumes "fst (consumeJti jti ttl now (limiter_run before))"
    and "list_all (\<lambda>op. limiter_op_time op < now + ttl) after" and "later < now + ttl"
  shows "\<not> fst (consumeJti jti ttl' later (limiter_run (before @ Lim_jti jti ttl now # after)))"
proof -
  let ?m = "snd (consumeJti jti ttl now (limiter_run before))"
  have "map_of (rl_jtis ?m) jti = Some (now + ttl)"
    using assms(1) by (auto simp: consumeJti_def update_conv' split: option.splits if_splits)
  moreover have "distinct (map fst (rl_jtis ?m))"
    using distinct_jtis_do [OF limiter_run_distinct, of "Lim_jti jti ttl now" before] by simp
  ultimately have "map_of (rl_jtis (limiter_run (before @ Lim_jti jti ttl now # after))) jti = Some (now + ttl)"
    using jti_run [OF _ _ assms(2), of ?m jti] by (simp add: limiter_run_def)
  then show ?thesis using assms(3) by (simp add: consumeJti_def)
qed

theorem jti_single_use_witness:
  "\<not> fst (consumeJti ''j'' 30 29 (limiter_run ([] @ Lim_jti ''j'' 30 0 # [Lim_cleanup 20])))"
  by (rule jti_single_use) (simp_all add: limiter_run_def limiter_new_def consumeJti_def)

text \<open>
  Five failures lock an identity for fifteen minutes: of the failures of a fresh identity the first four lock nothing,
  and from the fifth the identity is locked until fifteen minutes after its last failure, and not longer.
\<close>

theorem fifth_failure_locks:
  assumes "map_of (rl_lockouts m) i = None" and "ts \<noteq> []" and "sorted ts"
    and "last ts < ts ! (if length ts \<le> 5 then length ts - 1 else 4) + lockout_duration_ms"
  shows "limiter_checkLockout i now (foldl (\<lambda>m t. snd (limiter_recordAuthFailure i t m)) m ts) =
    (if 5 \<le> length ts \<and> now < last ts + lockout_duration_ms then Some (last ts + lockout_duration_ms) else None)"
proof -
  let ?run = "\<lambda>ts. foldl (\<lambda>m t. snd (limiter_recordAuthFailure i t m)) m ts"
  have "map_of (rl_lockouts (?run ts)) i = Some \<lparr>lo_failedAttempts = int (length ts),
      lo_lockedUntil = (if 5 \<le> length ts then Some (last ts + lockout_duration_ms) else None), lo_lastAttemptAt = last ts\<rparr>"
    using assms(2-4)
  proof (induction ts rule: rev_induct)
    case (snoc t ts)
    show ?case
    proof (cases "ts = []")
      case True
      then show ?thesis using assms(1)
        by (simp add: limiter_recordAuthFailure_def Let_def update_conv' lockout_threshold_def)
    next
      case False
      have le: "last ts \<le> t" using snoc.prems(2) False by (auto simp: sorted_append)
      have nth: "ts ! (if length ts \<le> 5 then length ts - 1 else 4) \<le> last ts"
        using snoc.prems(2) False by (auto simp: last_conv_nth sorted_append intro!: sorted_nth_mono)
      have dur: "0 < lockout_duration_ms" by (simp add: lockout_duration_ms_def)
      have live: "5 \<le> length ts \<Longrightarrow> t < ts ! 4 + lockout_duration_ms"
        using snoc.prems(3) by (auto simp: nth_append split: if_splits)
      have "last ts < ts ! (if length ts \<le> 5 then length ts - 1 else 4) + lockout_duration_ms"
      proof (cases "length ts \<le> 5")
        case True
        then show ?thesis using False dur by (simp add: last_conv_nth)
      next
        case 2: False
        then show ?thesis using live le by simp
      qed
      then have ih: "map_of (rl_lockouts (?run ts)) i = Some \<lparr>lo_failedAttempts = int (length ts),
          lo_lockedUntil = (if 5 \<le> length ts then Some (last ts + lockout_duration_ms) else None), lo_lastAttemptAt = last ts\<rparr>"
        using snoc.IH False snoc.prems(2) by (simp add: sorted_append)
      have "5 \<le> length ts \<Longrightarrow> ts ! 4 \<le> last ts"
        using snoc.prems(2) False by (auto simp: last_conv_nth sorted_append intro!: sorted_nth_mono)
      then have "5 \<le> length ts \<Longrightarrow> t < last ts + lockout_duration_ms" using live by simp
      then show ?thesis using ih
        by (auto simp: limiter_recordAuthFailure_def Let_def update_conv' lockout_threshold_def)
    qed
  qed simp
  then show ?thesis by (auto simp: limiter_checkLockout_def)
qed

theorem fifth_failure_locks_witness:
  "limiter_checkLockout ''i'' 900004 (foldl (\<lambda>m t. snd (limiter_recordAuthFailure ''i'' t m)) limiter_new [1, 2, 3, 4, 5])
     = Some 900005"
  using fifth_failure_locks [of limiter_new "''i''" "[1, 2, 3, 4, 5]" 900004]
  by (simp add: limiter_new_def lockout_duration_ms_def)

section \<open>Share limits\<close>

text \<open>
  A bucket of a key with its grants: those since the start of the bucket are counted, those of the bucket before are
  at most the limit.
\<close>

definition bucket_inv :: "string \<Rightarrow> int \<Rightarrow> int \<Rightarrow> int list \<Rightarrow> share_buckets \<Rightarrow> bool" where
  "bucket_inv k limit c g b \<longleftrightarrow> 0 < limit \<and> (\<forall>x \<in> set g. x \<le> c) \<and>
    (case map_of b k of
       None \<Rightarrow> g = []
     | Some e \<Rightarrow> sb_windowStart e \<le> c \<and> (\<forall>x \<in> set g. x < sb_windowStart e + share_rate_limit_window_ms) \<and>
         int (length (filter (\<lambda>x. sb_windowStart e \<le> x) g)) = sb_count e \<and> sb_count e \<le> limit \<and>
         int (length (filter (\<lambda>x. sb_windowStart e - share_rate_limit_window_ms < x \<and> x < sb_windowStart e) g)) \<le> limit)"

definition bucket_step :: "string \<Rightarrow> int \<Rightarrow> string \<times> int \<Rightarrow> share_buckets \<Rightarrow> bool \<times> share_buckets" where
  "bucket_step k limit call b =
    (let (ok, b') = consumeShareRateBucket (fst call) limit (snd call) b in (fst call = k \<and> ok, b'))"

lemma length_filter_mono: "(\<And>x. x \<in> set g \<Longrightarrow> P x \<Longrightarrow> Q x) \<Longrightarrow> length (filter P g) \<le> length (filter Q g)"
  by (induction g) auto

lemma length_filter_split:
  "(\<And>x. x \<in> set g \<Longrightarrow> P x \<Longrightarrow> Q x \<or> R x) \<Longrightarrow> length (filter P g) \<le> length (filter Q g) + length (filter R g)"
  by (induction g) auto

lemma bucket_other: "fst call \<noteq> k \<Longrightarrow> map_of (snd (bucket_step k limit call b)) k = map_of b k"
  by (simp add: bucket_step_def consumeShareRateBucket_def update_conv' split_beta split: option.split)

lemma bucket_inv_later:
  "bucket_inv k limit c g b \<Longrightarrow> c \<le> t \<Longrightarrow> map_of b' k = map_of b k \<Longrightarrow> bucket_inv k limit t g b'"
  by (force simp: bucket_inv_def split: option.splits)

lemma bucket_inv_step:
  assumes "bucket_inv k limit c g b" and "c \<le> snd call"
  shows "bucket_inv k limit (snd call) (if fst (bucket_step k limit call b) then g @ [snd call] else g)
    (snd (bucket_step k limit call b))"
proof (cases "fst call = k")
  case False
  then show ?thesis
    using bucket_inv_later [OF assms bucket_other] by (simp add: bucket_step_def split_beta)
next
  case True
  let ?w = share_rate_limit_window_ms and ?t = "snd call"
  have w: "0 < ?w" by (simp add: share_rate_limit_window_ms_def)
  have past: "\<And>x. x \<in> set g \<Longrightarrow> x \<le> ?t" using assms by (force simp: bucket_inv_def)
  show ?thesis
  proof (cases "map_of b k")
    case None
    then show ?thesis
      using True assms w by (simp add: bucket_inv_def bucket_step_def consumeShareRateBucket_def update_conv')
  next
    case (Some e)
    note i = assms(1) [unfolded bucket_inv_def Some option.case]
    consider (fresh) "?t - sb_windowStart e \<ge> ?w" | (full) "\<not> ?t - sb_windowStart e \<ge> ?w" "sb_count e \<ge> limit"
      | (ok) "\<not> ?t - sb_windowStart e \<ge> ?w" "\<not> sb_count e \<ge> limit" by blast
    then show ?thesis
    proof cases
      case fresh
      then have "filter (\<lambda>x. ?t \<le> x) g = []" using i by (force simp: filter_empty_conv)
      moreover have "length (filter (\<lambda>x. ?t - ?w < x \<and> x < ?t) g) \<le> length (filter (\<lambda>x. sb_windowStart e \<le> x) g)"
        using fresh by (intro length_filter_mono) auto
      ultimately show ?thesis
        using True Some fresh i past w by (auto simp: bucket_inv_def bucket_step_def consumeShareRateBucket_def update_conv')
    next
      case full
      then show ?thesis
        using True Some i past assms(2) by (auto simp: bucket_inv_def bucket_step_def consumeShareRateBucket_def)
    next
      case ok
      then show ?thesis
        using True Some i past assms(2) by (auto simp: bucket_inv_def bucket_step_def consumeShareRateBucket_def update_conv')
    qed
  qed
qed

lemma bucket_inv_bound:
  assumes "bucket_inv k limit c g b" and "c \<le> snd call" and "fst (bucket_step k limit call b)"
  shows "int (length (filter (\<lambda>x. snd call - share_rate_limit_window_ms < x) g)) < 2 * limit"
proof (cases "map_of b k")
  case None
  then show ?thesis using assms(1) by (simp add: bucket_inv_def)
next
  case (Some e)
  let ?w = share_rate_limit_window_ms and ?t = "snd call"
  note i = assms(1) [unfolded bucket_inv_def Some option.case]
  show ?thesis
  proof (cases "?t - sb_windowStart e \<ge> ?w")
    case True
    have "length (filter (\<lambda>x. ?t - ?w < x) g) \<le> length (filter (\<lambda>x. sb_windowStart e \<le> x) g)"
      using True by (intro length_filter_mono) auto
    then show ?thesis using i by linarith
  next
    case False
    have "fst call = k" using assms(3) by (simp add: bucket_step_def split_beta)
    then have "sb_count e < limit"
      using assms(3) Some False by (simp add: bucket_step_def consumeShareRateBucket_def split: if_splits)
    moreover have "length (filter (\<lambda>x. ?t - ?w < x) g) \<le> length (filter (\<lambda>x. sb_windowStart e \<le> x) g) +
        length (filter (\<lambda>x. sb_windowStart e - ?w < x \<and> x < sb_windowStart e) g)"
      using i assms(2) by (intro length_filter_split) auto
    ultimately show ?thesis using i by linarith
  qed
qed

interpretation share_bucket: window_limiter "bucket_step k limit" snd "\<lambda>_. True" "bucket_inv k limit" "2 * limit"
  share_rate_limit_window_ms for k limit
  by unfold_locales (auto simp: bucket_inv_step bucket_inv_bound, simp add: bucket_inv_def)

text \<open>A command of a share: its user, server and session, kind, time and number of pending sends.\<close>

record share_call =
  sc_userId :: string
  sc_serverId :: string
  sc_sessionName :: string
  sc_type :: share_command_type
  sc_now :: int
  sc_pending :: "int option"

definition share_do :: "share_call \<Rightarrow> share_limits \<Rightarrow> bool \<times> share_limits" where
  "share_do call = evaluateSharedCommandRateLimit (sc_userId call) (sc_serverId call) (sc_sessionName call) (sc_type call)
     (sc_now call) (sc_pending call)"

definition share_call_key :: "share_call \<Rightarrow> string" where
  "share_call_key call = share_key (sc_userId call) (sc_serverId call) (sc_sessionName call)"

definition share_step :: "share_command_type \<Rightarrow> string \<Rightarrow> share_call \<Rightarrow> share_limits \<Rightarrow> bool \<times> share_limits" where
  "share_step ty k call s =
    (let (ok, s') = share_do call s in (sc_type call = ty \<and> share_call_key call = k \<and> ok, s'))"

fun share_type_limit :: "share_command_type \<Rightarrow> int" where
  "share_type_limit Share_send = share_send_attempt_limit"
| "share_type_limit Share_cancel = share_cancel_attempt_limit"

fun share_type_buckets :: "share_command_type \<Rightarrow> share_limits \<Rightarrow> share_buckets" where
  "share_type_buckets Share_send s = sl_send s"
| "share_type_buckets Share_cancel s = sl_cancel s"

lemma share_step_bucket:
  "(fst (share_step ty k call s) = (fst (bucket_step k (share_type_limit ty) (share_call_key call, sc_now call) (share_type_buckets ty s)))
     \<and> share_type_buckets ty (snd (share_step ty k call s)) =
         snd (bucket_step k (share_type_limit ty) (share_call_key call, sc_now call) (share_type_buckets ty s)))
   \<or> (\<not> fst (share_step ty k call s) \<and> share_type_buckets ty (snd (share_step ty k call s)) = share_type_buckets ty s)"
  by (cases ty; cases "sc_type call")
    (auto simp: share_step_def share_do_def evaluateSharedCommandRateLimit_def bucket_step_def share_call_key_def Let_def
      split_beta)

definition share_inv :: "share_command_type \<Rightarrow> string \<Rightarrow> int \<Rightarrow> int list \<Rightarrow> share_limits \<Rightarrow> bool" where
  "share_inv ty k c g s \<longleftrightarrow> bucket_inv k (share_type_limit ty) c g (share_type_buckets ty s)"

interpretation share: window_limiter "share_step ty k" sc_now "\<lambda>_. True" "share_inv ty k" "2 * share_type_limit ty"
  share_rate_limit_window_ms for ty k
proof unfold_locales
  show "share_inv ty k c g s \<Longrightarrow> x \<in> set g \<Longrightarrow> x \<le> c" for ty k c g s x
    by (auto simp: share_inv_def dest: share_bucket.inv_past)
  show "share_inv ty k (sc_now e) (if fst (share_step ty k e s) then g @ [sc_now e] else g) (snd (share_step ty k e s))"
    if "share_inv ty k c g s" "c \<le> sc_now e" for ty k c g s e
    using share_step_bucket [of ty k e s] bucket_inv_step [of k "share_type_limit ty" c g "share_type_buckets ty s" "(share_call_key e, sc_now e)"]
      bucket_inv_later [of k "share_type_limit ty" c g "share_type_buckets ty s" "sc_now e"] that
    by (auto simp: share_inv_def)
  show "int (length (filter (\<lambda>x. sc_now e - share_rate_limit_window_ms < x) g)) < 2 * share_type_limit ty"
    if "share_inv ty k c g s" "c \<le> sc_now e" "fst (share_step ty k e s)" for ty k c g s e
    using share_step_bucket [of ty k e s] bucket_inv_bound [of k "share_type_limit ty" c g "share_type_buckets ty s" "(share_call_key e, sc_now e)"]
      that by (auto simp: share_inv_def)
qed

text \<open>
  A share cannot flood a session: for each user, server and session and each kind of command, no minute, wherever it
  starts, has more admitted commands than twice the limit of a bucket (60 sends, 20 cancels).
\<close>

theorem share_limit_bound:
  assumes "sorted (map sc_now calls)"
  shows "in_window a share_rate_limit_window_ms (grants_of (share_step ty k) sc_now \<lparr>sl_send = [], sl_cancel = []\<rparr> calls)
    \<le> 2 * share_type_limit ty"
proof (cases calls)
  case Nil
  then show ?thesis by (cases ty) (simp_all add: in_window_def share_send_attempt_limit_def share_cancel_attempt_limit_def)
next
  case (Cons call rest)
  have "share_inv ty k (sc_now call) [] \<lparr>sl_send = [], sl_cancel = []\<rparr>"
    by (cases ty) (simp_all add: share_inv_def bucket_inv_def share_send_attempt_limit_def share_cancel_attempt_limit_def)
  moreover have "sorted (sc_now call # map sc_now calls)" using assms Cons by auto
  moreover have "0 \<le> 2 * share_type_limit ty"
    by (cases ty) (simp_all add: share_send_attempt_limit_def share_cancel_attempt_limit_def)
  ultimately show ?thesis by (intro share.window_bound [where c = "sc_now call"]) (simp_all add: list_all_iff)
qed

theorem share_limit_bound_witness:
  "in_window 0 share_rate_limit_window_ms (grants_of (share_step Share_cancel ''u:v:s'') sc_now \<lparr>sl_send = [], sl_cancel = []\<rparr>
     [\<lparr>sc_userId = ''u'', sc_serverId = ''v'', sc_sessionName = ''s'', sc_type = Share_cancel, sc_now = 1, sc_pending = None\<rparr>]) \<le> 20"
proof -
  have "2 * share_type_limit Share_cancel = 20" by (simp add: share_cancel_attempt_limit_def)
  then show ?thesis using share_limit_bound [where ty = Share_cancel] by (metis (no_types, lifting) list.simps(8,9) sorted1)
qed

section \<open>Routes of acknowledgements\<close>

datatype origin_op = Or_record string nat int | Or_take string int | Or_drop nat | Or_sweep int

fun origin_do :: "int \<Rightarrow> ack_origins \<Rightarrow> origin_op \<Rightarrow> ack_origins" where
  "origin_do ttl m (Or_record i s now) = origin_record ttl i s now m"
| "origin_do ttl m (Or_take i now) = snd (origin_take i now m)"
| "origin_do ttl m (Or_drop s) = origin_dropSocket s m"
| "origin_do ttl m (Or_sweep now) = origin_sweep now m"

text \<open>The specification: the live routes as a function, changed by one operation.\<close>

fun route_do :: "int \<Rightarrow> (string \<Rightarrow> ack_origin option) \<Rightarrow> origin_op \<Rightarrow> string \<Rightarrow> ack_origin option" where
  "route_do ttl r (Or_record i s now) = r(i \<mapsto> \<lparr>or_socket = s, or_expiresAt = now + ttl\<rparr>)"
| "route_do ttl r (Or_take i now) = r(i := None)"
| "route_do ttl r (Or_drop s) = (\<lambda>i. case r i of Some e \<Rightarrow> if or_socket e = s then None else Some e | None \<Rightarrow> None)"
| "route_do ttl r (Or_sweep now) = (\<lambda>i. case r i of Some e \<Rightarrow> if or_expiresAt e < now then None else Some e | None \<Rightarrow> None)"

lemma origin_distinct: "distinct (map fst m) \<Longrightarrow> distinct (map fst (origin_do ttl m op))"
  by (cases op)
    (auto simp: origin_record_def origin_take_def origin_dropSocket_def origin_sweep_def distinct_update AList.delete_eq
      distinct_map_filter split: option.split)

lemma origin_simulates:
  assumes "distinct (map fst m)"
  shows "map_of (origin_do ttl m op) = route_do ttl (map_of m) op"
proof (cases op)
  case (Or_take i now)
  then show ?thesis
    by (cases "map_of m i") (auto simp: origin_take_def AList.delete_conv' fun_eq_iff)
qed (use assms in \<open>auto simp: origin_record_def origin_dropSocket_def origin_sweep_def update_conv' map_of_filter_none fun_eq_iff
      simp del: map_of_eq_Some_iff split: option.split\<close>)

lemma origin_run_simulates:
  "distinct (map fst m) \<Longrightarrow> map_of (foldl (origin_do ttl) m ops) = foldl (route_do ttl) (map_of m) ops"
  by (induction ops arbitrary: m) (simp_all add: origin_distinct origin_simulates)

text \<open>
  The table of routes implements its specification: after any operations a take answers what the map from
  command to latest live route answers, the socket just when it was recorded last, not taken or dropped
  since, and has not expired; and a second take answers nothing.
\<close>

theorem ack_routes_refine:
  "let m = foldl (origin_do ttl) [] ops; r = foldl (route_do ttl) (\<lambda>_. None) ops in
   fst (origin_take i now m) = (case r i of Some e \<Rightarrow> if now \<le> or_expiresAt e then Some (or_socket e) else None | None \<Rightarrow> None) \<and>
   fst (origin_take i later (snd (origin_take i now m))) = None \<and>
   map_of (snd (origin_take i now m)) = r(i := None)"
proof -
  have m: "map_of (foldl (origin_do ttl) [] ops) = foldl (route_do ttl) (\<lambda>_. None) ops"
    using origin_run_simulates [of "[]" ttl ops] by (simp add: fun_eq_iff)
  show ?thesis
    unfolding Let_def m [symmetric] by (auto simp: origin_take_def AList.delete_conv' fun_eq_iff split: option.split)
qed

section \<open>Windows are never reclaimed\<close>

definition positive_limit :: "limiter_op \<Rightarrow> bool" where
  "positive_limit op \<longleftrightarrow> (case op of Lim_check _ limit _ _ \<Rightarrow> 0 < limit | _ \<Rightarrow> True)"

lemma window_stays:
  assumes "distinct (map fst (rl_windows m))" and "window_of k m \<noteq> []" and "positive_limit op"
  shows "window_of k (limiter_do op m) \<noteq> []"
proof (cases op)
  case (Lim_check key limit windowMs now)
  show ?thesis
  proof (cases "fst (limiter_check key limit windowMs now m)")
    case True
    then show ?thesis using assms(2) by (auto simp: Lim_check window_of_check(1))
  next
    case False
    then have "filter (\<lambda>t. t > now - windowMs) (window_of key m) \<noteq> []"
      using assms(3) by (auto simp: window_of_check(2) positive_limit_def Lim_check)
    then show ?thesis using False assms(2) by (auto simp: Lim_check window_of_check(1))
  qed
qed (use assms in \<open>simp_all add: window_of_def windows_other window_of_cleanup[unfolded window_of_def]\<close>)

text \<open>
  The periodic cleanup removes only empty windows, and a window that was checked with a positive limit is never empty
  again: however old its times are, the entry of a key stays in the table for ever.
\<close>

theorem window_keys_stay:
  assumes "distinct (map fst (rl_windows m))" and "fst (limiter_check k limit windowMs now m)"
    and "list_all positive_limit ops"
  shows "window_of k (fold limiter_do ops (snd (limiter_check k limit windowMs now m))) \<noteq> []"
proof -
  have "window_of k (fold limiter_do ops m') \<noteq> []"
    if "distinct (map fst (rl_windows m'))" "window_of k m' \<noteq> []" for m'
    using that assms(3)
    by (induction ops arbitrary: m') (simp_all add: distinct_windows_do window_stays)
  then show ?thesis
    using assms(1,2) distinct_windows_do[of m "Lim_check k limit windowMs now"] by (simp add: window_of_check(1))
qed

end
