(* ===== verification/PreviewFanout.thy ===== *)
theory PreviewFanout
  imports JsValue
begin

text \<open>
  The dispatcher of preview answers, \<open>src/src/daemon/file-preview-read-fanout.ts\<close>: one terminal message for
  each registered request, sent through one chain of operations.  A message is any value; the messages that the
  code builds when an operation runs are arguments here.  The log of sent messages carries the
  request a terminal message answers (\<open>None\<close> for a detached one); the callbacks \<open>onTerminal\<close>
  are logged.  A timer is the event that it fires; the clock is an argument.
\<close>

record 'm fan_record =
  fr_rawPath :: string
  fr_deadlineAt :: int
  fr_timeoutMessage :: 'm
  fr_terminal :: bool
  fr_terminalReason :: "string option"
  fr_timer :: bool

datatype 'm fan_operation =
  Fan_answer string 'm string
| Fan_send "string option" 'm

record 'm fanout =
  fo_records :: "(string \<times> 'm fan_record) list"
  fo_chain :: "'m fan_operation list"
  fo_sent :: "(string option \<times> 'm) list"
  fo_terminals :: "(string \<times> string) list"

definition fanout_new :: "'m fanout" where
  "fanout_new = \<lparr>fo_records = [], fo_chain = [], fo_sent = [], fo_terminals = []\<rparr>"

definition fan_enqueue :: "'m fan_operation \<Rightarrow> 'm fanout \<Rightarrow> 'm fanout" where
  "fan_enqueue op d = d\<lparr>fo_chain := fo_chain d @ [op]\<rparr>"

definition safeSend :: "string option \<Rightarrow> 'm \<Rightarrow> 'm fanout \<Rightarrow> 'm fanout" where
  "safeSend tag m d = d\<lparr>fo_sent := fo_sent d @ [(tag, m)]\<rparr>"

definition markTerminal :: "string \<Rightarrow> string \<Rightarrow> 'm fanout \<Rightarrow> 'm fanout" where
  "markTerminal requestId reason d =
    (case map_of (fo_records d) requestId of
       None \<Rightarrow> d
     | Some r \<Rightarrow> if fr_terminal r then d
         else d\<lparr>fo_records := AList.delete requestId (fo_records d),
                fo_terminals := fo_terminals d @ [(requestId, reason)]\<rparr>)"

text \<open>A record that is still open.\<close>

definition open_record :: "'m fanout \<Rightarrow> string \<Rightarrow> 'm fan_record option" where
  "open_record d requestId =
    (case map_of (fo_records d) requestId of Some r \<Rightarrow> if fr_terminal r then None else Some r | None \<Rightarrow> None)"

definition fan_register :: "string \<Rightarrow> string \<Rightarrow> int \<Rightarrow> 'm \<Rightarrow> 'm fanout \<Rightarrow> bool \<times> 'm fanout" where
  "fan_register requestId rawPath deadlineAt onTimeout d =
    (if map_of (fo_records d) requestId \<noteq> None then (False, d)
     else (True, d\<lparr>fo_records := AList.update requestId
       \<lparr>fr_rawPath = rawPath, fr_deadlineAt = deadlineAt, fr_timeoutMessage = onTimeout, fr_terminal = False,
        fr_terminalReason = None, fr_timer = True\<rparr> (fo_records d)\<rparr>))"

definition fan_has :: "string \<Rightarrow> 'm fanout \<Rightarrow> bool" where
  "fan_has requestId d \<longleftrightarrow> map_of (fo_records d) requestId \<noteq> None"

definition sendTerminal :: "string \<Rightarrow> 'm \<Rightarrow> string \<Rightarrow> 'm fanout \<Rightarrow> bool \<times> 'm fanout" where
  "sendTerminal requestId message reason d =
    (if open_record d requestId = None then (False, d)
     else (True, fan_enqueue (Fan_answer requestId message reason) d))"

fun sendTerminalMany :: "(string \<times> 'm) list \<Rightarrow> string \<Rightarrow> 'm fanout \<Rightarrow> nat \<times> 'm fanout" where
  "sendTerminalMany [] reason d = (0, d)"
| "sendTerminalMany ((requestId, message) # rest) reason d =
     (let (ok, d) = sendTerminal requestId message reason d;
          (count, d) = sendTerminalMany rest reason d
      in ((if ok then Suc count else count), d))"

definition forceTerminal :: "string \<Rightarrow> 'm \<Rightarrow> string \<Rightarrow> 'm fanout \<Rightarrow> bool \<times> 'm fanout" where
  "forceTerminal requestId message reason d =
    (if open_record d requestId = None then (False, d)
     else (True, fan_enqueue (Fan_send (Some requestId) message) (markTerminal requestId reason d)))"

definition sendDetached :: "'m \<Rightarrow> 'm fanout \<Rightarrow> 'm fanout" where
  "sendDetached message d = fan_enqueue (Fan_send None message) d"

definition fan_cancel :: "string \<Rightarrow> string \<Rightarrow> 'm fanout \<Rightarrow> bool \<times> 'm fanout" where
  "fan_cancel requestId reason d =
    (if open_record d requestId = None then (False, d) else (True, markTerminal requestId reason d))"

definition fan_clear :: "'m fanout \<Rightarrow> 'm fanout" where
  "fan_clear d = d\<lparr>fo_records := []\<rparr>"

definition timeoutRecord :: "string \<Rightarrow> 'm fanout \<Rightarrow> 'm fanout" where
  "timeoutRecord requestId d =
    (case open_record d requestId of
       None \<Rightarrow> d
     | Some r \<Rightarrow> fan_enqueue (Fan_send (Some requestId) (fr_timeoutMessage r)) (markTerminal requestId ''timeout'' d))"

text \<open>The next operation of the chain runs.\<close>

definition fan_perform :: "int \<Rightarrow> 'm fan_operation \<Rightarrow> 'm fanout \<Rightarrow> 'm fanout" where
  "fan_perform now op d =
    (case op of
       Fan_send tag m \<Rightarrow> safeSend tag m d
     | Fan_answer requestId m reason \<Rightarrow>
         (case open_record d requestId of
            None \<Rightarrow> d
          | Some r \<Rightarrow>
              if now \<ge> fr_deadlineAt r then
                safeSend (Some requestId) (fr_timeoutMessage r) (markTerminal requestId ''timeout'' d)
              else safeSend (Some requestId) m (markTerminal requestId reason d)))"

definition fan_run :: "int \<Rightarrow> 'm fanout \<Rightarrow> 'm fanout" where
  "fan_run now d =
    (case fo_chain d of [] \<Rightarrow> d | op # ops \<Rightarrow> fan_perform now op (d\<lparr>fo_chain := ops\<rparr>))"

text \<open>The view of a request that is still registered.\<close>

definition getRequestView :: "string \<Rightarrow> 'm fanout \<Rightarrow> (string \<times> string \<times> int \<times> bool \<times> string option) option" where
  "getRequestView requestId d =
    (case map_of (fo_records d) requestId of
       None \<Rightarrow> None
     | Some r \<Rightarrow> Some (requestId, fr_rawPath r, fr_deadlineAt r, fr_terminal r,
         if truthy (fr_terminalReason r) then fr_terminalReason r else None))"

section \<open>Histories\<close>

datatype 'm fan_event =
  Fe_register string string int 'm
| Fe_answer string 'm string
| Fe_force string 'm string
| Fe_detached 'm
| Fe_cancel string string
| Fe_timer string
| Fe_clear
| Fe_run int

fun fan_do :: "'m fanout \<Rightarrow> 'm fan_event \<Rightarrow> 'm fanout" where
  "fan_do d (Fe_register i p t m) = snd (fan_register i p t m d)"
| "fan_do d (Fe_answer i m r) = snd (sendTerminal i m r d)"
| "fan_do d (Fe_force i m r) = snd (forceTerminal i m r d)"
| "fan_do d (Fe_detached m) = sendDetached m d"
| "fan_do d (Fe_cancel i r) = snd (fan_cancel i r d)"
| "fan_do d (Fe_timer i) = timeoutRecord i d"
| "fan_do d Fe_clear = fan_clear d"
| "fan_do d (Fe_run now) = fan_run now d"

definition fan_history :: "'m fan_event list \<Rightarrow> 'm fanout" where
  "fan_history evs = foldl fan_do fanout_new evs"

text \<open>How many registrations of a request were accepted, and how many of them a cancel or a clear dropped.\<close>

fun accepts_one :: "string \<Rightarrow> 'm fanout \<Rightarrow> 'm fan_event \<Rightarrow> nat" where
  "accepts_one i d (Fe_register j p t m) = (if j = i \<and> fst (fan_register j p t m d) then 1 else 0)"
| "accepts_one i d _ = 0"

fun drops_one :: "string \<Rightarrow> 'm fanout \<Rightarrow> 'm fan_event \<Rightarrow> nat" where
  "drops_one i d (Fe_cancel j r) = (if j = i \<and> fst (fan_cancel j r d) then 1 else 0)"
| "drops_one i d Fe_clear = (if fan_has i d then 1 else 0)"
| "drops_one i d _ = 0"

fun along :: "('m fanout \<Rightarrow> 'm fan_event \<Rightarrow> nat) \<Rightarrow> 'm fanout \<Rightarrow> 'm fan_event list \<Rightarrow> nat" where
  "along f d [] = 0"
| "along f d (ev # evs) = f d ev + along f (fan_do d ev) evs"

section \<open>Every accepted request has one outcome\<close>

text \<open>How many messages answer a request, sent or in the chain.\<close>

definition answers :: "string \<Rightarrow> 'm fanout \<Rightarrow> nat" where
  "answers i d = length (filter (\<lambda>(tag, m). tag = Some i) (fo_sent d)) +
     length (filter (\<lambda>op. case op of Fan_send tag m \<Rightarrow> tag = Some i | Fan_answer j m r \<Rightarrow> False) (fo_chain d))"

text \<open>Keys are unique; a registered request is not terminal and its timer is armed.\<close>

definition fan_wf :: "'m fanout \<Rightarrow> bool" where
  "fan_wf d \<longleftrightarrow> distinct (map fst (fo_records d)) \<and> (\<forall>(i, r) \<in> set (fo_records d). \<not> fr_terminal r \<and> fr_timer r)"

lemma fan_wf_open: "fan_wf d \<Longrightarrow> open_record d i = map_of (fo_records d) i"
  by (auto simp: fan_wf_def open_record_def dest: map_of_SomeD split: option.split)

lemma fan_wf_armed: "fan_wf d \<Longrightarrow> map_of (fo_records d) i = Some r \<Longrightarrow> \<not> fr_terminal r \<and> fr_timer r"
  by (auto simp: fan_wf_def dest: map_of_SomeD)

lemma fan_wf_mark:
  assumes "fan_wf d"
  shows "markTerminal i reason d =
    (if fan_has i d then d\<lparr>fo_records := AList.delete i (fo_records d), fo_terminals := fo_terminals d @ [(i, reason)]\<rparr> else d)"
  using assms by (auto simp: fan_wf_def markTerminal_def fan_has_def dest: map_of_SomeD split: option.split)

lemma fan_wf_delete: "fan_wf d \<Longrightarrow> fan_wf (d\<lparr>fo_records := AList.delete i (fo_records d), fo_terminals := ts\<rparr>)"
  by (auto simp: fan_wf_def AList.delete_eq distinct_map inj_on_def)

lemma fan_wf_fields [simp]:
  "fan_wf (d\<lparr>fo_chain := ops\<rparr>) = fan_wf d" "fan_wf (d\<lparr>fo_sent := ms\<rparr>) = fan_wf d"
  "fan_wf (fan_enqueue op d) = fan_wf d" "fan_wf (safeSend tag m d) = fan_wf d"
  by (simp_all add: fan_wf_def fan_enqueue_def safeSend_def)

lemma fan_has_fields [simp]:
  "fan_has i (d\<lparr>fo_chain := ops\<rparr>) = fan_has i d"
  "fan_has i (fan_enqueue op d) = fan_has i d" "fan_has i (safeSend tag m d) = fan_has i d"
  "fan_has i (d\<lparr>fo_records := rs, fo_terminals := ts\<rparr>) = (map_of rs i \<noteq> None)"
  "fan_has i fanout_new = False"
  by (simp_all add: fan_has_def fan_enqueue_def safeSend_def fanout_new_def)

lemma open_record_fields [simp]: "open_record (d\<lparr>fo_chain := ops\<rparr>) i = open_record d i"
  by (simp add: open_record_def)

lemma answers_fields [simp]:
  "answers i (fan_enqueue (Fan_answer j m r) d) = answers i d"
  "answers i (fan_enqueue (Fan_send tag m) d) = answers i d + (if tag = Some i then 1 else 0)"
  "answers i (safeSend tag m d) = answers i d + (if tag = Some i then 1 else 0)"
  "answers i (d\<lparr>fo_records := rs, fo_terminals := ts\<rparr>) = answers i d"
  "answers i (d\<lparr>fo_records := rs\<rparr>) = answers i d"
  "answers i fanout_new = 0"
  by (auto simp: answers_def fan_enqueue_def safeSend_def fanout_new_def)

lemma fan_wf_mark' [simp]: "fan_wf d \<Longrightarrow> fan_wf (markTerminal i reason d)"
  by (simp add: fan_wf_mark fan_wf_delete)

lemma update_absent: "map_of al k = None \<Longrightarrow> AList.update k v al = al @ [(k, v)]"
  by (induction al) (auto split: if_splits)

lemma fan_wf_register: "fan_wf d \<Longrightarrow> fan_wf (snd (fan_register i p t m d))"
  by (auto simp: fan_register_def fan_wf_def update_absent map_of_eq_None_iff)

lemma fan_wf_do: "fan_wf d \<Longrightarrow> fan_wf (fan_do d ev)"
  by (cases ev) (auto simp: fan_wf_register sendTerminal_def forceTerminal_def sendDetached_def fan_cancel_def
      timeoutRecord_def fan_clear_def fan_run_def fan_perform_def fan_wf_def[of "d\<lparr>fo_records := []\<rparr>"]
      split: option.split list.split fan_operation.split)

text \<open>One event keeps the account of a request.\<close>

definition outcomes :: "string \<Rightarrow> 'm fanout \<Rightarrow> nat" where
  "outcomes i d = answers i d + (if fan_has i d then 1 else 0)"

lemma fan_has_mark: "fan_wf d \<Longrightarrow> fan_has j (markTerminal i reason d) = (j \<noteq> i \<and> fan_has j d)"
  by (auto simp: fan_wf_mark delete_conv' fan_has_def[of _ d])

lemma answers_mark: "fan_wf d \<Longrightarrow> answers j (markTerminal i reason d) = answers j d"
  by (simp add: fan_wf_mark)

lemma open_iff: "fan_wf d \<Longrightarrow> open_record d i = None \<longleftrightarrow> \<not> fan_has i d"
  by (simp add: fan_wf_open fan_has_def)

lemma open_has: "open_record d i = Some r \<Longrightarrow> fan_has i d"
  by (auto simp: open_record_def fan_has_def split: option.splits)

lemmas fan_account = outcomes_def fan_has_mark answers_mark open_iff

lemma outcomes_run:
  assumes "fan_wf d"
  shows "outcomes i (fan_run now d) = outcomes i d"
proof (cases "fo_chain d")
  case Nil
  then show ?thesis by (simp add: fan_run_def)
next
  case (Cons op ops)
  let ?d = "d\<lparr>fo_chain := ops\<rparr>"
  have wf: "fan_wf ?d" using assms by simp
  have a: "answers i d = answers i ?d + (case op of Fan_send tag m \<Rightarrow> if tag = Some i then 1 else 0 | Fan_answer j m r \<Rightarrow> 0)"
    by (simp add: answers_def Cons split: fan_operation.split)
  show ?thesis
  proof (cases op)
    case (Fan_send tag m)
    then show ?thesis using a by (simp add: fan_run_def Cons fan_perform_def outcomes_def)
  next
    case (Fan_answer j m r)
    then show ?thesis using a wf open_iff[OF wf, of j]
      by (auto simp: fan_run_def Cons fan_perform_def fan_account dest: open_has split: option.split)
  qed
qed

lemma outcomes_do:
  assumes "fan_wf d"
  shows "outcomes i (fan_do d ev) + drops_one i d ev = outcomes i d + accepts_one i d ev"
proof (cases ev)
  case (Fe_run now)
  then show ?thesis using outcomes_run[OF assms] by simp
next
  case (Fe_timer j)
  then show ?thesis using assms open_iff[OF assms, of j]
    by (auto simp: timeoutRecord_def fan_account dest: open_has split: option.split)
next
  case (Fe_register j p t m)
  then show ?thesis using assms
    by (auto simp: fan_register_def outcomes_def fan_has_def update_conv')
next
  case Fe_clear
  then show ?thesis by (simp add: fan_clear_def outcomes_def fan_has_def)
qed (use assms in \<open>auto simp: sendTerminal_def forceTerminal_def sendDetached_def fan_cancel_def fan_account\<close>)

lemma outcomes_along:
  "fan_wf d \<Longrightarrow> outcomes i (foldl fan_do d evs) + along (drops_one i) d evs = outcomes i d + along (accepts_one i) d evs"
proof (induction evs arbitrary: d)
  case (Cons ev evs)
  show ?case using Cons.IH[OF fan_wf_do[OF Cons.prems, of ev]] outcomes_do[OF Cons.prems, of i ev] by simp
qed simp

lemma fan_wf_new [simp]: "fan_wf fanout_new"
  by (simp add: fan_wf_def fanout_new_def)

lemma fan_wf_foldl: "fan_wf d \<Longrightarrow> fan_wf (foldl fan_do d evs)"
  by (induction evs arbitrary: d) (simp_all add: fan_wf_do)

text \<open>
  Every accepted registration of a request has exactly one outcome: over any sequence of registrations,
  answers, forced answers, cancels, timers, clears and steps of the send chain, the messages that answer the
  request (sent or waiting in the chain), the registrations dropped by a cancel or a clear, and the one
  that may still be open add up to the accepted registrations.
\<close>

theorem one_outcome_each:
  "answers i (fan_history evs) + along (drops_one i) fanout_new evs + (if fan_has i (fan_history evs) then 1 else 0)
   = along (accepts_one i) fanout_new evs"
  using outcomes_along[OF fan_wf_new, of i evs] by (simp add: outcomes_def fan_history_def)

text \<open>
  An answer in the chain closes its request when it runs.
\<close>

lemma run_chain: "fo_chain (fan_run now d) = tl (fo_chain d)"
  by (cases "fo_chain d") (auto simp: fan_run_def fan_perform_def markTerminal_def safeSend_def
      split: fan_operation.split option.split)

lemma run_has: "fan_wf d \<Longrightarrow> fan_has i (fan_run now d) \<Longrightarrow> fan_has i d"
  by (cases "fo_chain d") (auto simp: fan_run_def fan_perform_def fan_has_mark split: fan_operation.splits option.splits if_splits)

lemma run_answer_closes:
  "fan_wf d \<Longrightarrow> fo_chain d = Fan_answer i m r # ops \<Longrightarrow> \<not> fan_has i (fan_run now d)"
  using open_iff[of "d\<lparr>fo_chain := ops\<rparr>" i]
  by (auto simp: fan_run_def fan_perform_def fan_has_mark split: option.split)

lemma fan_wf_run: "fan_wf d \<Longrightarrow> fan_wf (fan_run now d)"
  using fan_wf_do[of d "Fe_run now"] by simp

lemma runs_close:
  "fan_wf d \<Longrightarrow> Fan_answer i m r \<in> set (take (length nows) (fo_chain d)) \<Longrightarrow>
   \<not> fan_has i (foldl (\<lambda>d now. fan_run now d) d nows)"
proof (induction nows arbitrary: d)
  case (Cons now nows)
  obtain op ops where chain: "fo_chain d = op # ops" using Cons.prems(2) by (cases "fo_chain d") auto
  have stay: "\<not> fan_has i d \<Longrightarrow> fan_wf d \<Longrightarrow> \<not> fan_has i (foldl (\<lambda>d now. fan_run now d) d nows)" for d
    by (induction nows arbitrary: d) (auto dest: run_has intro: fan_wf_run)
  show ?case
  proof (cases "op = Fan_answer i m r")
    case True
    then show ?thesis using stay[OF run_answer_closes[OF Cons.prems(1)] fan_wf_run[OF Cons.prems(1)]] chain by simp
  next
    case False
    then show ?thesis using Cons.IH[OF fan_wf_run[OF Cons.prems(1)]] Cons.prems(2) chain by (simp add: run_chain)
  qed
qed simp

text \<open>
  An accepted answer closes its request: when the send chain has run through, the request is not open
  and has one message more than before that answers it.
\<close>

theorem accepted_answer_closes:
  assumes "fst (sendTerminal i m r (fan_history evs))"
    and "length nows = length (fo_chain (fan_history evs)) + 1"
    and "d = foldl (\<lambda>d now. fan_run now d) (snd (sendTerminal i m r (fan_history evs))) nows"
  shows "\<not> fan_has i d \<and> answers i d = answers i (fan_history evs) + 1"
proof
  let ?d = "fan_history evs" and ?e = "snd (sendTerminal i m r (fan_history evs))"
  have wf: "fan_wf ?d" by (simp add: fan_history_def fan_wf_foldl)
  have e: "?e = fan_enqueue (Fan_answer i m r) ?d" and has: "fan_has i ?d"
    using assms(1) open_iff[OF wf, of i] by (auto simp: sendTerminal_def split: if_splits)
  have wfe: "fan_wf ?e" using wf e by simp
  show closed: "\<not> fan_has i d"
    using runs_close[OF wfe, of i m r nows] assms(2,3) by (simp add: e fan_enqueue_def)
  have out: "fan_wf c \<Longrightarrow> outcomes i (foldl (\<lambda>d now. fan_run now d) c ns) = outcomes i c" for c :: "'a fanout" and ns
    by (induction ns arbitrary: c) (simp_all add: fan_wf_run outcomes_run)
  show "answers i d = answers i ?d + 1"
    using out[OF wfe, of nows] closed has by (simp add: outcomes_def e assms(3))
qed

definition fan_sample :: "nat fan_event list" where
  "fan_sample = [Fe_register ''a'' ''/x'' 100 0, Fe_register ''b'' ''/y'' 50 0, Fe_answer ''b'' 2 ''complete'']"

definition fan_sample_end :: "nat fanout" where
  "fan_sample_end = foldl (\<lambda>d now. fan_run now d) (snd (sendTerminal ''a'' 7 ''complete'' (fan_history fan_sample))) [40, 60]"

theorem accepted_answer_closes_witness:
  "\<not> fan_has ''a'' fan_sample_end \<and> fo_sent fan_sample_end = [(Some ''b'', 2), (Some ''a'', 7)]"
proof
  show "\<not> fan_has ''a'' fan_sample_end"
    by (rule accepted_answer_closes[THEN conjunct1, of "''a''" 7 "''complete''" fan_sample "[40, 60]"])
      (code_simp, code_simp, simp add: fan_sample_end_def)
  show "fo_sent fan_sample_end = [(Some ''b'', 2), (Some ''a'', 7)]" by code_simp
qed

end
