(* ===== verification/PreviewPool.thy ===== *)
theory PreviewPool
  imports JsValue "HOL-Library.Multiset"
begin

text \<open>
  The pool of worker threads that read files for previews, \<open>src/src/daemon/file-preview-read-pool.ts\<close>
  (with the identities and limits of \<open>file-preview-read-types.ts\<close>).  A slot object is its index in
  \<open>pp_heap\<close>; \<open>pp_slots\<close> lists the slots of the array \<open>slots\<close>, which
  \<open>shutdown\<close> empties while closures may still hold a slot.  A promise is its job id; the log
  \<open>pp_settled\<close> holds how each one was settled, and \<open>pp_posted\<close>, \<open>pp_created\<close> and
  \<open>pp_terminated\<close> log the jobs given to workers and the workers.  Timers, messages of workers and the end of a
  termination are events; what \<open>createWorker\<close>, \<open>postMessage\<close> and the clock answer
  during an event is its \<open>pool_env\<close>.
\<close>

section \<open>Limits\<close>

definition default_preview_read_workers_target :: int where "default_preview_read_workers_target = 2"
definition min_preview_read_workers_target :: int where "min_preview_read_workers_target = 1"
definition hard_max_preview_read_workers :: int where "hard_max_preview_read_workers = 4"
definition default_preview_read_pool_queue_cap :: int where "default_preview_read_pool_queue_cap = 32"
definition default_preview_read_worker_restart_backoff_ms :: int where
  "default_preview_read_worker_restart_backoff_ms = 250"
definition max_preview_read_worker_restart_backoff_ms :: int where
  "max_preview_read_worker_restart_backoff_ms = 60000"
definition default_preview_read_worker_recycle_job_count :: int where
  "default_preview_read_worker_recycle_job_count = 50"
definition default_preview_read_active_job_timeout_ms :: int where
  "default_preview_read_active_job_timeout_ms = 18000"

text \<open>A number that is not finite is \<open>None\<close>, as \<open>undefined\<close> is.\<close>

definition clampPreviewReadWorkersTarget :: "int option \<Rightarrow> int" where
  "clampPreviewReadWorkersTarget value =
    (case value of
       None \<Rightarrow> default_preview_read_workers_target
     | Some v \<Rightarrow> min hard_max_preview_read_workers (max min_preview_read_workers_target v))"

section \<open>Data\<close>

datatype slot_state = Slot_idle | Slot_busy | Slot_restarting | Slot_dead

datatype pool_error = Pool_queue_full | Pool_unavailable | Pool_crashed | Pool_shutdown | Pool_stale_result | Pool_timeout

record worker_identity =
  workerRequestId :: nat
  workerSlotId :: nat
  workerGeneration :: nat

record 'i queued_job =
  qj_id :: nat
  qj_input :: 'i
  qj_deadlineAt :: "int option"

record 'i active_job =
  aj_job :: "'i queued_job"
  aj_identity :: worker_identity
  aj_timer :: bool

record 'i worker_slot =
  ws_slotId :: nat
  ws_generation :: nat
  ws_state :: slot_state
  ws_worker :: bool
  ws_currentJob :: "'i active_job option"
  ws_jobCount :: int
  ws_restartTimer :: "int option"
  ws_stopping :: bool
  ws_crashStreak :: int

datatype 'r job_outcome = Job_resolved worker_identity 'r | Job_rejected pool_error

record pool_options =
  po_workersTarget :: "int option"
  po_queueCap :: "int option"
  po_restartBackoffMs :: "int option"
  po_activeJobTimeoutMs :: "int option option"
  po_workerRecycleJobCount :: "int option option"

record pool_config =
  pc_workersTarget :: nat
  pc_queueCap :: int
  pc_restartBackoffMs :: int
  pc_activeJobTimeoutMs :: "int option"
  pc_workerRecycleJobCount :: "int option"

text \<open>What follows the end of a termination: a restart of a recycled slot, or one after a timeout.\<close>

datatype after_terminate = After_recycle | After_timeout

record ('i, 'r) pool =
  pp_config :: pool_config
  pp_heap :: "'i worker_slot list"
  pp_slots :: "nat list"
  pp_queue :: "'i queued_job list"
  pp_nextWorkerRequestId :: nat
  pp_started :: bool
  pp_shuttingDown :: bool
  pp_dispatched :: nat
  pp_settled :: "(nat \<times> 'r job_outcome) list"
  pp_posted :: "(nat \<times> worker_identity) list"
  pp_created :: "(nat \<times> nat) list"
  pp_terminated :: "(nat \<times> nat) list"
  pp_terminating :: "(nat \<times> after_terminate) list"
  pp_shutdowns :: nat

record pool_env =
  pe_now :: int
  pe_createWorker :: "nat \<Rightarrow> nat \<Rightarrow> bool"
  pe_postMessage :: "worker_identity \<Rightarrow> bool"

definition pool_constructor :: "pool_options \<Rightarrow> pool_config" where
  "pool_constructor options =
    \<lparr>pc_workersTarget = nat (clampPreviewReadWorkersTarget (po_workersTarget options)),
     pc_queueCap = max 0 (opt_default default_preview_read_pool_queue_cap (po_queueCap options)),
     pc_restartBackoffMs = max 0 (opt_default default_preview_read_worker_restart_backoff_ms (po_restartBackoffMs options)),
     pc_activeJobTimeoutMs =
       (case po_activeJobTimeoutMs options of
          None \<Rightarrow> Some default_preview_read_active_job_timeout_ms
        | Some None \<Rightarrow> None
        | Some (Some t) \<Rightarrow> Some (max 1 t)),
     pc_workerRecycleJobCount =
       (case po_workerRecycleJobCount options of
          None \<Rightarrow> Some default_preview_read_worker_recycle_job_count
        | Some None \<Rightarrow> None
        | Some (Some n) \<Rightarrow> Some (max 1 n))\<rparr>"

definition pool_new :: "pool_config \<Rightarrow> ('i, 'r) pool" where
  "pool_new c = \<lparr>pp_config = c, pp_heap = [], pp_slots = [], pp_queue = [], pp_nextWorkerRequestId = 1,
     pp_started = False, pp_shuttingDown = False, pp_dispatched = 0, pp_settled = [], pp_posted = [], pp_created = [],
     pp_terminated = [], pp_terminating = [], pp_shutdowns = 0\<rparr>"

section \<open>Views and deadlines\<close>

abbreviation slot_at :: "('i, 'r) pool \<Rightarrow> nat \<Rightarrow> 'i worker_slot" where
  "slot_at p h \<equiv> pp_heap p ! h"

definition set_slot :: "nat \<Rightarrow> 'i worker_slot \<Rightarrow> ('i, 'r) pool \<Rightarrow> ('i, 'r) pool" where
  "set_slot h s p = p\<lparr>pp_heap := (pp_heap p)[h := s]\<rparr>"

definition getQueueDepth :: "('i, 'r) pool \<Rightarrow> nat" where
  "getQueueDepth p = length (pp_queue p)"

definition getSlotViews :: "('i, 'r) pool \<Rightarrow> (nat \<times> nat \<times> slot_state \<times> worker_identity option \<times> int) list" where
  "getSlotViews p = map (\<lambda>h. let s = slot_at p h in
     (ws_slotId s, ws_generation s, ws_state s, map_option aj_identity (ws_currentJob s), ws_jobCount s)) (pp_slots p)"

definition live_state :: "slot_state \<Rightarrow> bool" where
  "live_state st \<longleftrightarrow> st = Slot_idle \<or> st = Slot_busy"

definition has_live_capacity :: "('i, 'r) pool \<Rightarrow> bool" where
  "has_live_capacity p \<longleftrightarrow> list_ex (\<lambda>h. live_state (ws_state (slot_at p h))) (pp_slots p)"

definition pool_isAvailable :: "('i, 'r) pool \<Rightarrow> bool" where
  "pool_isAvailable p \<longleftrightarrow> \<not> pp_shuttingDown p \<and> (\<not> pp_started p \<or> has_live_capacity p)"

definition isDeadlineExpired :: "int \<Rightarrow> int option \<Rightarrow> bool" where
  "isDeadlineExpired now deadlineAt = (case deadlineAt of None \<Rightarrow> False | Some d \<Rightarrow> d \<le> now)"

definition getActiveJobTimeoutMs :: "pool_config \<Rightarrow> int \<Rightarrow> int option \<Rightarrow> int" where
  "getActiveJobTimeoutMs c now deadlineAt =
    (case deadlineAt of
       None \<Rightarrow> opt_default 0 (pc_activeJobTimeoutMs c)
     | Some d \<Rightarrow> (case pc_activeJobTimeoutMs c of None \<Rightarrow> d - now | Some t \<Rightarrow> min t (d - now)))"

definition restartDelayFor :: "pool_config \<Rightarrow> int \<Rightarrow> int" where
  "restartDelayFor c crashStreak =
    (let doublings = min (max 0 (crashStreak - 1)) 20
     in min (pc_restartBackoffMs c * 2 ^ nat doublings) max_preview_read_worker_restart_backoff_ms)"

definition isPreviewReadWorkerResultFor :: "worker_identity \<Rightarrow> worker_identity \<Rightarrow> bool" where
  "isPreviewReadWorkerResultFor result identity \<longleftrightarrow>
     workerRequestId result = workerRequestId identity \<and> workerSlotId result = workerSlotId identity
     \<and> workerGeneration result = workerGeneration identity"

definition sameWorkerIdentity :: "worker_identity \<Rightarrow> worker_identity \<Rightarrow> bool" where
  "sameWorkerIdentity a b \<longleftrightarrow>
     workerRequestId a = workerRequestId b \<and> workerSlotId a = workerSlotId b \<and> workerGeneration a = workerGeneration b"

section \<open>Failures and restarts\<close>

definition settle :: "nat \<Rightarrow> 'r job_outcome \<Rightarrow> ('i, 'r) pool \<Rightarrow> ('i, 'r) pool" where
  "settle i outcome p = p\<lparr>pp_settled := pp_settled p @ [(i, outcome)]\<rparr>"

definition reject_active :: "'i active_job option \<Rightarrow> pool_error \<Rightarrow> ('i, 'r) pool \<Rightarrow> ('i, 'r) pool" where
  "reject_active active e p = (case active of None \<Rightarrow> p | Some a \<Rightarrow> settle (qj_id (aj_job a)) (Job_rejected e) p)"

definition reject_queue :: "pool_error \<Rightarrow> ('i, 'r) pool \<Rightarrow> ('i, 'r) pool" where
  "reject_queue e p = p\<lparr>pp_queue := [], pp_settled := pp_settled p @ map (\<lambda>j. (qj_id j, Job_rejected e)) (pp_queue p)\<rparr>"

definition drainQueueIfNoLiveCapacity :: "('i, 'r) pool \<Rightarrow> ('i, 'r) pool" where
  "drainQueueIfNoLiveCapacity p =
    (if pp_shuttingDown p \<or> pp_queue p = [] then p
     else if has_live_capacity p then p
     else reject_queue Pool_unavailable p)"

definition scheduleRestart :: "nat \<Rightarrow> ('i, 'r) pool \<Rightarrow> ('i, 'r) pool" where
  "scheduleRestart h p =
    (if pp_shuttingDown p then p
     else if ws_restartTimer (slot_at p h) \<noteq> None then p
     else let p = set_slot h ((slot_at p h)\<lparr>ws_state := Slot_restarting\<rparr>) p;
              p = drainQueueIfNoLiveCapacity p
          in set_slot h ((slot_at p h)\<lparr>ws_restartTimer := Some (restartDelayFor (pp_config p) (ws_crashStreak (slot_at p h)))\<rparr>) p)"

definition handleWorkerFailure :: "nat \<Rightarrow> nat \<Rightarrow> ('i, 'r) pool \<Rightarrow> ('i, 'r) pool" where
  "handleWorkerFailure h generation p =
    (let s = slot_at p h in
     if ws_generation s \<noteq> generation \<or> ws_stopping s then p
     else scheduleRestart h (reject_active (ws_currentJob s) Pool_crashed
            (set_slot h (s\<lparr>ws_crashStreak := ws_crashStreak s + 1, ws_currentJob := None, ws_worker := False,
                           ws_state := Slot_restarting\<rparr>) p)))"

text \<open>The worker of a slot is terminated; the callback of \<open>finally\<close> is due later.\<close>

definition terminate_worker :: "nat \<Rightarrow> 'i worker_slot \<Rightarrow> after_terminate \<Rightarrow> ('i, 'r) pool \<Rightarrow> ('i, 'r) pool" where
  "terminate_worker h s k p =
    (if ws_worker s then
       p\<lparr>pp_terminated := pp_terminated p @ [(h, ws_generation s)], pp_terminating := pp_terminating p @ [(h, k)]\<rparr>
     else p)"

definition handleActiveJobTimeout :: "nat \<Rightarrow> worker_identity \<Rightarrow> ('i, 'r) pool \<Rightarrow> ('i, 'r) pool" where
  "handleActiveJobTimeout h identity p =
    (let s = slot_at p h in
     case ws_currentJob s of
       None \<Rightarrow> p
     | Some active \<Rightarrow>
         if \<not> sameWorkerIdentity (aj_identity active) identity then p
         else terminate_worker h s After_timeout
                (set_slot h (s\<lparr>ws_currentJob := None, ws_worker := False, ws_state := Slot_restarting, ws_stopping := True\<rparr>)
                  (settle (qj_id (aj_job active)) (Job_rejected Pool_timeout) p)))"

definition armActiveJobTimer :: "pool_env \<Rightarrow> nat \<Rightarrow> 'i active_job \<Rightarrow> ('i, 'r) pool \<Rightarrow> ('i, 'r) pool" where
  "armActiveJobTimer env h active p =
    (if pc_activeJobTimeoutMs (pp_config p) = None \<and> qj_deadlineAt (aj_job active) = None then p
     else if getActiveJobTimeoutMs (pp_config p) (pe_now env) (qj_deadlineAt (aj_job active)) \<le> 0 then
       handleActiveJobTimeout h (aj_identity active) p
     else set_slot h ((slot_at p h)\<lparr>ws_currentJob := Some (active\<lparr>aj_timer := True\<rparr>)\<rparr>) p)"

section \<open>The pump\<close>

text \<open>A queued job is handed to a free slot.\<close>

definition start_job :: "pool_env \<Rightarrow> nat \<Rightarrow> 'i queued_job \<Rightarrow> ('i, 'r) pool \<Rightarrow> ('i, 'r) pool" where
  "start_job env h job p =
    (let s = slot_at p h;
         identity = \<lparr>workerRequestId = pp_nextWorkerRequestId p, workerSlotId = ws_slotId s, workerGeneration = ws_generation s\<rparr>;
         active = \<lparr>aj_job = job, aj_identity = identity, aj_timer = False\<rparr>;
         p = set_slot h (s\<lparr>ws_currentJob := Some active, ws_state := Slot_busy\<rparr>)
               (p\<lparr>pp_nextWorkerRequestId := pp_nextWorkerRequestId p + 1, pp_posted := pp_posted p @ [(qj_id job, identity)]\<rparr>)
     in if pe_postMessage env identity then armActiveJobTimer env h active p
        else handleWorkerFailure h (ws_generation (slot_at p h))
               (settle (qj_id job) (Job_rejected Pool_unavailable)
                 (set_slot h ((slot_at p h)\<lparr>ws_currentJob := None\<rparr>) p)))"

lemma set_slot_fields [simp]:
  "pp_config (set_slot h s p) = pp_config p" "pp_slots (set_slot h s p) = pp_slots p"
  "pp_queue (set_slot h s p) = pp_queue p" "pp_shuttingDown (set_slot h s p) = pp_shuttingDown p"
  "pp_settled (set_slot h s p) = pp_settled p" "pp_dispatched (set_slot h s p) = pp_dispatched p"
  "pp_started (set_slot h s p) = pp_started p" "pp_terminating (set_slot h s p) = pp_terminating p"
  "pp_heap (set_slot h s p) = (pp_heap p)[h := s]" "pp_created (set_slot h s p) = pp_created p"
  "pp_terminated (set_slot h s p) = pp_terminated p"
  "pp_nextWorkerRequestId (set_slot h s p) = pp_nextWorkerRequestId p" "pp_shutdowns (set_slot h s p) = pp_shutdowns p"
  "pp_posted (set_slot h s p) = pp_posted p"
  by (simp_all add: set_slot_def)

lemmas failure_defs = drainQueueIfNoLiveCapacity_def reject_queue_def scheduleRestart_def handleWorkerFailure_def
  reject_active_def settle_def terminate_worker_def handleActiveJobTimeout_def armActiveJobTimer_def

lemma queue_drain: "length (pp_queue (drainQueueIfNoLiveCapacity p)) \<le> length (pp_queue p)"
  by (simp add: drainQueueIfNoLiveCapacity_def reject_queue_def)

lemma queue_scheduleRestart: "length (pp_queue (scheduleRestart h p)) \<le> length (pp_queue p)"
  by (auto simp: scheduleRestart_def Let_def intro: order_trans[OF queue_drain])

lemma queue_failure: "length (pp_queue (handleWorkerFailure h g p)) \<le> length (pp_queue p)"
  by (auto simp: handleWorkerFailure_def Let_def reject_active_def settle_def
      intro: order_trans[OF queue_scheduleRestart] split: option.split)

lemma queue_start_job: "length (pp_queue (start_job env h job p)) \<le> length (pp_queue p)"
  by (auto simp: start_job_def Let_def armActiveJobTimer_def handleActiveJobTimeout_def terminate_worker_def settle_def
      intro: order_trans[OF queue_failure] split: option.split)

definition slot_free :: "'i worker_slot \<Rightarrow> bool" where
  "slot_free s \<longleftrightarrow> ws_state s = Slot_idle \<and> ws_worker s \<and> ws_currentJob s = None"

text \<open>The loop of \<open>pump\<close> over the slots; an expired job starts the pump anew.\<close>

function pump_loop :: "pool_env \<Rightarrow> nat list \<Rightarrow> ('i, 'r) pool \<Rightarrow> ('i, 'r) pool" where
  "pump_loop env [] p = p"
| "pump_loop env (h # hs) p =
    (case pp_queue p of
       [] \<Rightarrow> p
     | job # rest \<Rightarrow>
         if \<not> slot_free (slot_at p h) then pump_loop env hs p
         else
           let p = p\<lparr>pp_queue := rest\<rparr> in
           if isDeadlineExpired (pe_now env) (qj_deadlineAt job) then
             let p = settle (qj_id job) (Job_rejected Pool_timeout) p in
             if pp_shuttingDown p \<or> rest = [] then p else pump_loop env (pp_slots p) p
           else pump_loop env hs (start_job env h job p))"
  by pat_completeness auto
termination
proof (relation "measures [\<lambda>(env, hs, p). length (pp_queue p), \<lambda>(env, hs, p). length hs]", goal_cases)
  case (4 env h hs p job rest p')
  then show ?case
    using queue_start_job[of env h job p'] by auto
qed (auto simp: settle_def)

definition pump :: "pool_env \<Rightarrow> ('i, 'r) pool \<Rightarrow> ('i, 'r) pool" where
  "pump env p = (if pp_shuttingDown p \<or> pp_queue p = [] then p else pump_loop env (pp_slots p) p)"

section \<open>Slots\<close>

definition startSlot :: "pool_env \<Rightarrow> nat \<Rightarrow> ('i, 'r) pool \<Rightarrow> ('i, 'r) pool" where
  "startSlot env h p =
    (if pp_shuttingDown p then p
     else let s = slot_at p h;
              s = s\<lparr>ws_restartTimer := None, ws_generation := ws_generation s + 1, ws_state := Slot_restarting, ws_stopping := False\<rparr>
          in if pe_createWorker env (ws_slotId s) (ws_generation s) then
               pump env (set_slot h (s\<lparr>ws_worker := True, ws_state := Slot_idle\<rparr>)
                 (p\<lparr>pp_created := pp_created p @ [(h, ws_generation s)]\<rparr>))
             else scheduleRestart h (set_slot h (s\<lparr>ws_worker := False, ws_state := Slot_dead\<rparr>) p))"

definition new_slot :: "nat \<Rightarrow> 'i worker_slot" where
  "new_slot i = \<lparr>ws_slotId = i + 1, ws_generation = 0, ws_state = Slot_dead, ws_worker = False, ws_currentJob = None,
     ws_jobCount = 0, ws_restartTimer = None, ws_stopping = False, ws_crashStreak = 0\<rparr>"

definition push_slot :: "nat \<Rightarrow> ('i, 'r) pool \<Rightarrow> ('i, 'r) pool" where
  "push_slot i p = p\<lparr>pp_heap := pp_heap p @ [new_slot i], pp_slots := pp_slots p @ [length (pp_heap p)]\<rparr>"

fun start_slots :: "pool_env \<Rightarrow> nat list \<Rightarrow> ('i, 'r) pool \<Rightarrow> ('i, 'r) pool" where
  "start_slots env [] p = p"
| "start_slots env (i # is) p = start_slots env is (startSlot env (length (pp_heap p)) (push_slot i p))"

definition ensureStarted :: "pool_env \<Rightarrow> ('i, 'r) pool \<Rightarrow> ('i, 'r) pool" where
  "ensureStarted env p =
    (if pp_started p then p else start_slots env [0..<pc_workersTarget (pp_config p)] (p\<lparr>pp_started := True\<rparr>))"

definition recycleSlot :: "nat \<Rightarrow> ('i, 'r) pool \<Rightarrow> ('i, 'r) pool" where
  "recycleSlot h p =
    (let s = slot_at p h in
     terminate_worker h s After_recycle
       (set_slot h (s\<lparr>ws_worker := False, ws_state := Slot_restarting, ws_jobCount := 0, ws_stopping := True\<rparr>) p))"

text \<open>A worker answers: its identity and what it read.\<close>

definition handleWorkerMessage :: "pool_env \<Rightarrow> nat \<Rightarrow> nat \<Rightarrow> worker_identity \<Rightarrow> 'r \<Rightarrow> ('i, 'r) pool \<Rightarrow> ('i, 'r) pool" where
  "handleWorkerMessage env h generation message result p =
    (let s = slot_at p h in
     if ws_generation s \<noteq> generation \<or> ws_state s = Slot_dead then p
     else case ws_currentJob s of
       None \<Rightarrow> p
     | Some current \<Rightarrow>
         if \<not> isPreviewReadWorkerResultFor message (aj_identity current) then p
         else
           let s = s\<lparr>ws_currentJob := None, ws_state := Slot_idle, ws_jobCount := ws_jobCount s + 1, ws_crashStreak := 0\<rparr>;
               p = settle (qj_id (aj_job current)) (Job_resolved message result) (set_slot h s p)
           in case pc_workerRecycleJobCount (pp_config p) of
                Some n \<Rightarrow> if ws_jobCount s \<ge> n then recycleSlot h p else pump env p
              | None \<Rightarrow> pump env p)"

section \<open>Dispatch and shutdown\<close>

text \<open>The promise that \<open>dispatch\<close> returns is the next job id; a throw rejects it at once.\<close>

definition dispatch :: "pool_env \<Rightarrow> 'i \<Rightarrow> int option \<Rightarrow> ('i, 'r) pool \<Rightarrow> ('i, 'r) pool" where
  "dispatch env inp deadlineAt p =
    (let i = pp_dispatched p; p = p\<lparr>pp_dispatched := pp_dispatched p + 1\<rparr> in
     if pp_shuttingDown p then settle i (Job_rejected Pool_shutdown) p
     else if isDeadlineExpired (pe_now env) deadlineAt then settle i (Job_rejected Pool_timeout) p
     else
       let p = ensureStarted env p in
       if \<not> pool_isAvailable p then settle i (Job_rejected Pool_unavailable) p
       else if int (length (pp_queue p)) \<ge> pc_queueCap (pp_config p) then settle i (Job_rejected Pool_queue_full) p
       else pump env (p\<lparr>pp_queue := pp_queue p @ [\<lparr>qj_id = i, qj_input = inp, qj_deadlineAt = deadlineAt\<rparr>]\<rparr>))"

definition stop_slot :: "nat \<Rightarrow> ('i, 'r) pool \<Rightarrow> ('i, 'r) pool" where
  "stop_slot h p =
    (let s = slot_at p h;
         p = reject_active (ws_currentJob s) Pool_shutdown
               (set_slot h (s\<lparr>ws_restartTimer := None, ws_currentJob := None, ws_worker := False, ws_state := Slot_dead,
                              ws_stopping := True\<rparr>) p)
     in if ws_worker s then p\<lparr>pp_terminated := pp_terminated p @ [(h, ws_generation s)]\<rparr> else p)"

text \<open>
  The part of \<open>shutdown\<close> before it awaits the terminations, and the part after; \<open>pp_shutdowns\<close>
  counts the calls that still await.
\<close>

definition shutdown_begin :: "('i, 'r) pool \<Rightarrow> ('i, 'r) pool" where
  "shutdown_begin p = fold stop_slot (pp_slots p) (reject_queue Pool_shutdown
     (p\<lparr>pp_shuttingDown := True, pp_shutdowns := pp_shutdowns p + 1\<rparr>))"

definition shutdown_end :: "('i, 'r) pool \<Rightarrow> ('i, 'r) pool" where
  "shutdown_end p = p\<lparr>pp_shutdowns := pp_shutdowns p - 1, pp_slots := [], pp_started := False, pp_shuttingDown := False\<rparr>"

section \<open>Events\<close>

text \<open>An event that names a slot or a termination which does not exist changes nothing.\<close>

definition fire_restart :: "pool_env \<Rightarrow> nat \<Rightarrow> ('i, 'r) pool \<Rightarrow> ('i, 'r) pool" where
  "fire_restart env h p =
    (if ws_restartTimer (slot_at p h) = None then p
     else startSlot env h (set_slot h ((slot_at p h)\<lparr>ws_restartTimer := None\<rparr>) p))"

definition fire_timeout :: "nat \<Rightarrow> ('i, 'r) pool \<Rightarrow> ('i, 'r) pool" where
  "fire_timeout h p =
    (case ws_currentJob (slot_at p h) of
       None \<Rightarrow> p
     | Some active \<Rightarrow> if aj_timer active then handleActiveJobTimeout h (aj_identity active) p else p)"

text \<open>The termination at a position of the list ends; its callback runs.\<close>

definition finish_terminate :: "pool_env \<Rightarrow> nat \<Rightarrow> ('i, 'r) pool \<Rightarrow> ('i, 'r) pool" where
  "finish_terminate env k p =
    (let (h, what) = pp_terminating p ! k;
         p = set_slot h ((slot_at p h)\<lparr>ws_stopping := False\<rparr>)
               (p\<lparr>pp_terminating := take k (pp_terminating p) @ drop (Suc k) (pp_terminating p)\<rparr>)
     in case what of After_recycle \<Rightarrow> startSlot env h p | After_timeout \<Rightarrow> scheduleRestart h p)"

datatype ('i, 'r) pool_event =
  Pe_dispatch 'i "int option"
| Pe_message nat nat worker_identity 'r
| Pe_failure nat nat
| Pe_restart nat
| Pe_timeout nat
| Pe_terminated nat
| Pe_shutdown
| Pe_shutdown_done

fun pool_step :: "('i, 'r) pool \<Rightarrow> pool_env \<times> ('i, 'r) pool_event \<Rightarrow> ('i, 'r) pool" where
  "pool_step p (env, Pe_dispatch inp deadlineAt) = dispatch env inp deadlineAt p"
| "pool_step p (env, Pe_message h g message result) =
     (if h < length (pp_heap p) then handleWorkerMessage env h g message result p else p)"
| "pool_step p (env, Pe_failure h g) = (if h < length (pp_heap p) then handleWorkerFailure h g p else p)"
| "pool_step p (env, Pe_restart h) = (if h < length (pp_heap p) then fire_restart env h p else p)"
| "pool_step p (env, Pe_timeout h) = (if h < length (pp_heap p) then fire_timeout h p else p)"
| "pool_step p (env, Pe_terminated k) =
     (if k < length (pp_terminating p) \<and> fst (pp_terminating p ! k) < length (pp_heap p) then finish_terminate env k p else p)"
| "pool_step p (env, Pe_shutdown) = shutdown_begin p"
| "pool_step p (env, Pe_shutdown_done) = (if pp_shutdowns p > 0 then shutdown_end p else p)"

definition pool_run :: "pool_config \<Rightarrow> (pool_env \<times> ('i, 'r) pool_event) list \<Rightarrow> ('i, 'r) pool" where
  "pool_run c evs = foldl pool_step (pool_new c) evs"

section \<open>What the operations leave alone\<close>

text \<open>
  The parts of a pool that the steps of a slot do not touch: configuration, array of slots, flags,
  number of dispatches and size of the heap; the queue gets no longer and pending terminations stay.
\<close>

definition same_frame :: "('i, 'r) pool \<Rightarrow> ('i, 'r) pool \<Rightarrow> bool" where
  "same_frame p q \<longleftrightarrow> pp_config q = pp_config p \<and> pp_slots q = pp_slots p \<and> pp_shuttingDown q = pp_shuttingDown p \<and>
     pp_started q = pp_started p \<and> pp_dispatched q = pp_dispatched p \<and> length (pp_heap q) = length (pp_heap p) \<and>
     set (pp_terminating p) \<subseteq> set (pp_terminating q) \<and> pp_shutdowns q = pp_shutdowns p \<and>
     length (pp_queue q) \<le> length (pp_queue p)"

named_theorems pool_frame

lemma same_frame_refl [simp, intro!, pool_frame]: "same_frame p p"
  by (simp add: same_frame_def)

lemma same_frame_trans: "same_frame p q \<Longrightarrow> same_frame q r \<Longrightarrow> same_frame p r"
  by (auto simp: same_frame_def)

lemma same_frame_set [pool_frame]: "same_frame p q \<Longrightarrow> same_frame p (set_slot h s q)"
  by (simp add: same_frame_def)

lemma same_frame_settle [pool_frame]: "same_frame p q \<Longrightarrow> same_frame p (settle i out q)"
  by (simp add: same_frame_def settle_def)

lemma same_frame_reject [pool_frame]: "same_frame p q \<Longrightarrow> same_frame p (reject_active a e q)"
  by (simp add: reject_active_def same_frame_settle split: option.split)

lemma same_frame_drain [pool_frame]: "same_frame p q \<Longrightarrow> same_frame p (drainQueueIfNoLiveCapacity q)"
  by (simp add: same_frame_def drainQueueIfNoLiveCapacity_def reject_queue_def)

lemma same_frame_restart [pool_frame]: "same_frame p q \<Longrightarrow> same_frame p (scheduleRestart h q)"
  by (simp add: scheduleRestart_def Let_def pool_frame)

lemma same_frame_failure [pool_frame]: "same_frame p q \<Longrightarrow> same_frame p (handleWorkerFailure h g q)"
  by (simp add: handleWorkerFailure_def Let_def pool_frame)

lemma same_frame_terminate [pool_frame]: "same_frame p q \<Longrightarrow> same_frame p (terminate_worker h s k q)"
  by (auto simp: same_frame_def terminate_worker_def)

lemma same_frame_timeout [pool_frame]: "same_frame p q \<Longrightarrow> same_frame p (handleActiveJobTimeout h i q)"
  by (simp add: handleActiveJobTimeout_def Let_def pool_frame split: option.split)

lemma same_frame_arm [pool_frame]: "same_frame p q \<Longrightarrow> same_frame p (armActiveJobTimer env h a q)"
  by (simp add: armActiveJobTimer_def pool_frame)

lemma same_frame_queue [pool_frame]:
  "same_frame p q \<Longrightarrow> length js \<le> length (pp_queue q) \<Longrightarrow> same_frame p (q\<lparr>pp_queue := js\<rparr>)"
  "same_frame p q \<Longrightarrow> same_frame p (q\<lparr>pp_nextWorkerRequestId := n\<rparr>)"
  "same_frame p q \<Longrightarrow> same_frame p (q\<lparr>pp_nextWorkerRequestId := n, pp_posted := l\<rparr>)"
  "same_frame p q \<Longrightarrow> same_frame p (q\<lparr>pp_created := c\<rparr>)"
  by (simp_all add: same_frame_def)

lemma same_frame_start [pool_frame]: "same_frame p q \<Longrightarrow> same_frame p (start_job env h j q)"
  by (simp add: start_job_def Let_def pool_frame)

lemma same_frame_loop [pool_frame]: "same_frame p q \<Longrightarrow> same_frame p (pump_loop env hs q)"
proof (induction env hs q rule: pump_loop.induct)
  case (2 env h hs q)
  then show ?case by (auto simp: Let_def pool_frame split: list.split)
qed simp

lemma same_frame_pump [pool_frame]: "same_frame p q \<Longrightarrow> same_frame p (pump env q)"
  by (simp add: pump_def pool_frame)

lemma same_frame_startSlot [pool_frame]: "same_frame p q \<Longrightarrow> same_frame p (startSlot env h q)"
  by (simp add: startSlot_def Let_def pool_frame)

lemma same_frame_recycle [pool_frame]: "same_frame p q \<Longrightarrow> same_frame p (recycleSlot h q)"
  by (simp add: recycleSlot_def Let_def pool_frame)

lemma same_frame_message [pool_frame]: "same_frame p q \<Longrightarrow> same_frame p (handleWorkerMessage env h g m r q)"
  by (simp add: handleWorkerMessage_def Let_def pool_frame split: option.split)

section \<open>Where a job is\<close>

definition job_of :: "'i worker_slot \<Rightarrow> nat multiset" where
  "job_of s = (case ws_currentJob s of None \<Rightarrow> {#} | Some a \<Rightarrow> {#qj_id (aj_job a)#})"

definition job_places :: "('i, 'r) pool \<Rightarrow> nat multiset" where
  "job_places p = mset (map qj_id (pp_queue p)) + sum_list (map job_of (pp_heap p)) + mset (map fst (pp_settled p))"

named_theorems places

lemma job_of_update [simp]:
  "job_of (s\<lparr>ws_state := st\<rparr>) = job_of s" "job_of (s\<lparr>ws_restartTimer := b\<rparr>) = job_of s" "job_of (s\<lparr>ws_stopping := c\<rparr>) = job_of s"
  "job_of (s\<lparr>ws_worker := d\<rparr>) = job_of s" "job_of (s\<lparr>ws_jobCount := e\<rparr>) = job_of s" "job_of (s\<lparr>ws_crashStreak := e\<rparr>) = job_of s"
  "job_of (s\<lparr>ws_generation := f\<rparr>) = job_of s"
  "job_of (s\<lparr>ws_currentJob := None\<rparr>) = {#}" "job_of (s\<lparr>ws_currentJob := Some a\<rparr>) = {#qj_id (aj_job a)#}"
  by (simp_all add: job_of_def)

lemma sum_update: "h < length xs \<Longrightarrow> sum_list (map f (xs[h := s])) + f (xs ! h) = sum_list (map f xs) + (f s :: nat multiset)"
proof (induction xs arbitrary: h)
  case (Cons x xs)
  then show ?case by (cases h) (simp_all add: algebra_simps)
qed simp

lemma places_set:
  "h < length (pp_heap p) \<Longrightarrow> job_places (set_slot h s p) + job_of (slot_at p h) = job_places p + job_of s"
  using sum_update[of h "pp_heap p" job_of s] by (simp add: job_places_def algebra_simps)

lemma places_set_same [places]:
  "h < length (pp_heap p) \<Longrightarrow> job_of s = job_of (slot_at p h) \<Longrightarrow> job_places (set_slot h s p) = job_places p"
  using places_set[of h p s] by simp

lemma places_settle [places]: "job_places (settle i out p) = add_mset i (job_places p)"
  by (simp add: job_places_def settle_def)

lemma places_reject [places]: "job_places (reject_queue e p) = job_places p"
  by (simp add: job_places_def reject_queue_def comp_def)

lemma places_drain [places]: "job_places (drainQueueIfNoLiveCapacity p) = job_places p"
  by (simp add: drainQueueIfNoLiveCapacity_def places)

lemma places_fields [places]:
  "job_places (p\<lparr>pp_nextWorkerRequestId := n\<rparr>) = job_places p" "job_places (p\<lparr>pp_nextWorkerRequestId := n, pp_posted := l\<rparr>) = job_places p" "job_places (p\<lparr>pp_created := c\<rparr>) = job_places p"
  "job_places (p\<lparr>pp_started := b\<rparr>) = job_places p" "job_places (p\<lparr>pp_shuttingDown := b\<rparr>) = job_places p"
  "job_places (p\<lparr>pp_terminated := c\<rparr>) = job_places p" "job_places (p\<lparr>pp_terminating := t\<rparr>) = job_places p"
  "job_places (p\<lparr>pp_slots := hs\<rparr>) = job_places p" "job_places (p\<lparr>pp_shutdowns := n\<rparr>) = job_places p"
  "job_places (p\<lparr>pp_dispatched := n\<rparr>) = job_places p"
  by (simp_all add: job_places_def)

lemma heap_drain [simp]: "pp_heap (drainQueueIfNoLiveCapacity p) = pp_heap p"
  by (simp add: drainQueueIfNoLiveCapacity_def reject_queue_def)

lemma places_restart [places]: "h < length (pp_heap p) \<Longrightarrow> job_places (scheduleRestart h p) = job_places p"
  by (simp add: scheduleRestart_def Let_def places)

lemma heap_settle [simp]:
  "pp_heap (settle i out p) = pp_heap p" "pp_heap (reject_active a e p) = pp_heap p"
  "pp_heap (terminate_worker h s k p) = pp_heap p" "pp_heap (reject_queue e p) = pp_heap p"
  by (simp_all add: settle_def reject_active_def terminate_worker_def reject_queue_def split: option.split)

lemma places_terminate [places]: "job_places (terminate_worker h s k p) = job_places p"
  by (simp add: terminate_worker_def places)

lemma places_reject_active [places]:
  "job_places (reject_active (ws_currentJob s) e p) = job_places p + job_of s"
  by (simp add: reject_active_def job_of_def places split: option.split)

lemma places_failure [places]: "h < length (pp_heap p) \<Longrightarrow> job_places (handleWorkerFailure h g p) = job_places p"
  using places_set[of h p "(slot_at p h)\<lparr>ws_crashStreak := ws_crashStreak (slot_at p h) + 1, ws_currentJob := None,
    ws_worker := False, ws_state := Slot_restarting\<rparr>"]
  by (simp add: handleWorkerFailure_def Let_def places)

lemma places_timeout [places]:
  assumes "h < length (pp_heap p)"
  shows "job_places (handleActiveJobTimeout h i p) = job_places p"
proof (cases "ws_currentJob (slot_at p h)")
  case (Some a)
  then show ?thesis
    using places_set[of h "settle (qj_id (aj_job a)) (Job_rejected Pool_timeout) p" "(slot_at p h)\<lparr>ws_currentJob := None,
        ws_worker := False, ws_state := Slot_restarting, ws_stopping := True\<rparr>"] assms
    by (simp add: handleActiveJobTimeout_def Let_def places job_of_def)
qed (simp add: handleActiveJobTimeout_def Let_def)

lemma places_arm:
  assumes "h < length (pp_heap p)" and "ws_currentJob (slot_at p h) = Some a"
  shows "job_places (armActiveJobTimer env h a p) = job_places p"
  using places_set[of h p "(slot_at p h)\<lparr>ws_currentJob := Some (a\<lparr>aj_timer := True\<rparr>)\<rparr>"] assms
  by (simp add: armActiveJobTimer_def places job_of_def)

lemma places_start_job:
  assumes "h < length (pp_heap p)" and "ws_currentJob (slot_at p h) = None"
  shows "job_places (start_job env h job p) = add_mset (qj_id job) (job_places p)"
proof -
  let ?s = "slot_at p h"
  let ?i = "\<lparr>workerRequestId = pp_nextWorkerRequestId p, workerSlotId = ws_slotId ?s, workerGeneration = ws_generation ?s\<rparr>"
  let ?a = "\<lparr>aj_job = job, aj_identity = ?i, aj_timer = False\<rparr>"
  let ?p = "p\<lparr>pp_nextWorkerRequestId := pp_nextWorkerRequestId p + 1, pp_posted := pp_posted p @ [(qj_id job, ?i)]\<rparr>"
  let ?q = "set_slot h (?s\<lparr>ws_currentJob := Some ?a, ws_state := Slot_busy\<rparr>) ?p"
  have q: "job_places ?q = add_mset (qj_id job) (job_places p)"
    using places_set[of h ?p "?s\<lparr>ws_currentJob := Some ?a, ws_state := Slot_busy\<rparr>"] assms
    by (simp add: places job_of_def)
  have r: "job_places (set_slot h ((slot_at ?q h)\<lparr>ws_currentJob := None\<rparr>) ?q) = job_places p"
    using places_set[of h ?q "(slot_at ?q h)\<lparr>ws_currentJob := None\<rparr>"] assms q by (simp add: job_of_def)
  show ?thesis
    using assms q r by (simp add: start_job_def Let_def places places_arm)
qed

lemma frameD:
  "same_frame p q \<Longrightarrow> length (pp_heap q) = length (pp_heap p)" "same_frame p q \<Longrightarrow> pp_slots q = pp_slots p"
  "same_frame p q \<Longrightarrow> pp_config q = pp_config p" "same_frame p q \<Longrightarrow> pp_shuttingDown q = pp_shuttingDown p"
  "same_frame p q \<Longrightarrow> pp_started q = pp_started p" "same_frame p q \<Longrightarrow> pp_dispatched q = pp_dispatched p"
  "same_frame p q \<Longrightarrow> set (pp_terminating p) \<subseteq> set (pp_terminating q)"
  by (auto simp: same_frame_def)

definition slots_exist :: "('i, 'r) pool \<Rightarrow> bool" where
  "slots_exist p \<longleftrightarrow> (\<forall>h \<in> set (pp_slots p). h < length (pp_heap p))"

lemma slots_exist_frame: "same_frame p q \<Longrightarrow> slots_exist p \<Longrightarrow> slots_exist q"
  by (simp add: slots_exist_def same_frame_def)

lemma start_frame: "same_frame p (start_job env h job p)"
  by (rule same_frame_start) simp

lemma settle_fields [simp]:
  "pp_slots (settle i out p) = pp_slots p" "pp_shuttingDown (settle i out p) = pp_shuttingDown p"
  "pp_queue (settle i out p) = pp_queue p" "pp_started (settle i out p) = pp_started p"
  "pp_dispatched (settle i out p) = pp_dispatched p" "pp_config (settle i out p) = pp_config p"
  "pp_terminating (settle i out p) = pp_terminating p"
  by (simp_all add: settle_def)

lemma places_loop:
  "slots_exist p \<Longrightarrow> \<forall>h \<in> set hs. h < length (pp_heap p) \<Longrightarrow> job_places (pump_loop env hs p) = job_places p"
proof (induction env hs p rule: pump_loop.induct)
  case (2 env h hs p)
  show ?case
  proof (cases "pp_queue p")
    case (Cons job rest)
    let ?p = "p\<lparr>pp_queue := rest\<rparr>"
    have pop: "job_places p = add_mset (qj_id job) (job_places ?p)" by (simp add: job_places_def Cons)
    show ?thesis
    proof (cases "slot_free (slot_at p h)")
      case free: True
      show ?thesis
      proof (cases "isDeadlineExpired (pe_now env) (qj_deadlineAt job)")
        case True
        then show ?thesis
          using "2.IH"(2)[OF Cons] "2.prems" free pop by (auto simp: Cons Let_def places slots_exist_def)
      next
        case False
        have "job_places (start_job env h job ?p) = job_places p"
          using places_start_job[of h ?p env job] "2.prems" free pop by (simp add: slot_free_def)
        then show ?thesis
          using "2.IH"(3)[OF Cons] False free "2.prems" start_frame[of ?p env h job]
          by (simp add: Cons slots_exist_def same_frame_def)
      qed
    qed (use "2.IH"(1)[OF Cons] "2.prems" Cons in simp)
  qed simp
qed simp

lemma places_pump: "slots_exist p \<Longrightarrow> job_places (pump env p) = job_places p"
  by (simp add: pump_def places_loop slots_exist_def)

lemma places_startSlot:
  assumes "slots_exist p" and "h < length (pp_heap p)"
  shows "job_places (startSlot env h p) = job_places p"
  using assms by (simp add: startSlot_def Let_def places places_pump slots_exist_def)

lemma places_push [places]: "job_places (push_slot i p) = job_places p"
  by (simp add: push_slot_def job_places_def new_slot_def job_of_def)

lemma slots_exist_push: "slots_exist p \<Longrightarrow> slots_exist (push_slot i p)"
  by (auto simp: slots_exist_def push_slot_def)

lemma places_start_slots: "slots_exist p \<Longrightarrow> job_places (start_slots env is p) = job_places p \<and> slots_exist (start_slots env is p)"
proof (induction "is" arbitrary: p)
  case (Cons i "is")
  let ?q = "push_slot i p"
  have q: "slots_exist ?q" using Cons.prems by (rule slots_exist_push)
  have "length (pp_heap p) < length (pp_heap ?q)" by (simp add: push_slot_def)
  then have "job_places (startSlot env (length (pp_heap p)) ?q) = job_places p"
    using places_startSlot[OF q] by (simp add: places)
  moreover have "slots_exist (startSlot env (length (pp_heap p)) ?q)"
    using slots_exist_frame[OF same_frame_startSlot[OF same_frame_refl] q] .
  ultimately show ?case using Cons.IH by simp
qed simp

lemma places_ensureStarted:
  "slots_exist p \<Longrightarrow> job_places (ensureStarted env p) = job_places p \<and> slots_exist (ensureStarted env p)"
  using places_start_slots[of "p\<lparr>pp_started := True\<rparr>"] by (simp add: ensureStarted_def places slots_exist_def)

lemma slots_exist_set [simp]: "slots_exist (set_slot h s p) = slots_exist p" "slots_exist (settle i out p) = slots_exist p"
  by (simp_all add: slots_exist_def)

lemma places_recycle: "h < length (pp_heap p) \<Longrightarrow> job_places (recycleSlot h p) = job_places p"
  by (simp add: recycleSlot_def Let_def places)

lemma places_message:
  assumes "slots_exist p" and "h < length (pp_heap p)"
  shows "job_places (handleWorkerMessage env h g m r p) = job_places p"
proof (cases "ws_currentJob (slot_at p h)")
  case (Some a)
  let ?s = "(slot_at p h)\<lparr>ws_currentJob := None, ws_state := Slot_idle, ws_jobCount := ws_jobCount (slot_at p h) + 1, ws_crashStreak := 0\<rparr>"
  have "job_places (settle (qj_id (aj_job a)) out (set_slot h ?s p)) = job_places p" for out
    using places_set[of h p ?s] assms(2) Some by (simp add: places job_of_def)
  then show ?thesis
    using assms Some by (simp add: handleWorkerMessage_def Let_def places_recycle places_pump split: option.split)
qed (simp add: handleWorkerMessage_def Let_def)

lemma dispatched_start_slots: "pp_dispatched (start_slots env is p) = pp_dispatched p"
proof (induction "is" arbitrary: p)
  case (Cons i "is")
  then show ?case
    using frameD(6)[OF same_frame_startSlot[OF same_frame_refl, of "push_slot i p" env]] by (simp add: push_slot_def)
qed simp

lemma dispatched_ensureStarted: "pp_dispatched (ensureStarted env p) = pp_dispatched p"
  by (simp add: ensureStarted_def dispatched_start_slots)

lemma places_enqueue:
  "job_places (p\<lparr>pp_queue := pp_queue p @ [j]\<rparr>) = add_mset (qj_id j) (job_places p)"
  by (simp add: job_places_def)

lemma slots_exist_fields [simp]:
  "slots_exist (p\<lparr>pp_queue := js\<rparr>) = slots_exist p" "slots_exist (p\<lparr>pp_dispatched := n\<rparr>) = slots_exist p"
  "slots_exist (p\<lparr>pp_shuttingDown := b, pp_shutdowns := k\<rparr>) = slots_exist p"
  by (simp_all add: slots_exist_def)

lemma places_dispatch:
  assumes "slots_exist p"
  shows "job_places (dispatch env inp d p) = add_mset (pp_dispatched p) (job_places p)"
proof -
  let ?p = "p\<lparr>pp_dispatched := pp_dispatched p + 1\<rparr>"
  have e: "job_places (ensureStarted env ?p) = job_places p" "slots_exist (ensureStarted env ?p)"
    using places_ensureStarted[of ?p env] assms by (simp_all add: places)
  then show ?thesis by (simp add: dispatch_def Let_def places places_pump places_enqueue)
qed

lemma places_stop_slot:
  assumes "h < length (pp_heap p)"
  shows "job_places (stop_slot h p) = job_places p" "length (pp_heap (stop_slot h p)) = length (pp_heap p)"
proof -
  let ?s = "(slot_at p h)\<lparr>ws_restartTimer := None, ws_currentJob := None, ws_worker := False, ws_state := Slot_dead, ws_stopping := True\<rparr>"
  show "job_places (stop_slot h p) = job_places p" "length (pp_heap (stop_slot h p)) = length (pp_heap p)"
    using places_set[of h p ?s] assms by (simp_all add: stop_slot_def Let_def places)
qed

lemma places_stop_slots:
  "\<forall>h \<in> set hs. h < length (pp_heap p) \<Longrightarrow> job_places (fold stop_slot hs p) = job_places p"
  by (induction hs arbitrary: p) (simp_all add: places_stop_slot)

lemma reject_queue_fields [simp]:
  "pp_slots (reject_queue e p) = pp_slots p" "pp_shuttingDown (reject_queue e p) = pp_shuttingDown p"
  "pp_started (reject_queue e p) = pp_started p" "pp_dispatched (reject_queue e p) = pp_dispatched p"
  "pp_config (reject_queue e p) = pp_config p" "pp_queue (reject_queue e p) = []"
  "pp_terminating (reject_queue e p) = pp_terminating p"
  by (simp_all add: reject_queue_def)

lemma places_shutdown: "slots_exist p \<Longrightarrow> job_places (shutdown_begin p) = job_places p"
  by (simp add: shutdown_begin_def places places_stop_slots slots_exist_def)

lemma stop_slot_fields [simp]:
  "pp_slots (stop_slot h p) = pp_slots p" "pp_started (stop_slot h p) = pp_started p" "pp_queue (stop_slot h p) = pp_queue p"
  "pp_shuttingDown (stop_slot h p) = pp_shuttingDown p" "pp_dispatched (stop_slot h p) = pp_dispatched p"
  "pp_config (stop_slot h p) = pp_config p" "length (pp_heap (stop_slot h p)) = length (pp_heap p)"
  "pp_terminating (stop_slot h p) = pp_terminating p"
  by (simp_all add: stop_slot_def Let_def reject_active_def split: option.split)

lemma stop_slots_fields [simp]:
  "pp_slots (fold stop_slot hs p) = pp_slots p" "pp_started (fold stop_slot hs p) = pp_started p"
  "pp_queue (fold stop_slot hs p) = pp_queue p" "pp_shuttingDown (fold stop_slot hs p) = pp_shuttingDown p"
  "pp_dispatched (fold stop_slot hs p) = pp_dispatched p" "pp_config (fold stop_slot hs p) = pp_config p"
  "length (pp_heap (fold stop_slot hs p)) = length (pp_heap p)" "pp_terminating (fold stop_slot hs p) = pp_terminating p"
  by (induction hs arbitrary: p) simp_all

section \<open>The shape of the slots\<close>

definition slot_shape :: "'i worker_slot \<Rightarrow> bool" where
  "slot_shape s \<longleftrightarrow> (case ws_state s of
       Slot_idle \<Rightarrow> ws_worker s \<and> ws_currentJob s = None \<and> \<not> ws_stopping s \<and> ws_restartTimer s = None
     | Slot_busy \<Rightarrow> ws_worker s \<and> ws_currentJob s \<noteq> None \<and> \<not> ws_stopping s \<and> ws_restartTimer s = None
     | Slot_restarting \<Rightarrow> \<not> ws_worker s \<and> ws_currentJob s = None
     | Slot_dead \<Rightarrow> \<not> ws_worker s \<and> ws_currentJob s = None \<and> ws_restartTimer s = None)"

text \<open>A slot that has a timer or a termination pending, which will start it again.\<close>

definition coming_back :: "('i, 'r) pool \<Rightarrow> nat \<Rightarrow> bool" where
  "coming_back p h \<longleftrightarrow> ws_restartTimer (slot_at p h) \<noteq> None \<or> h \<in> fst ` set (pp_terminating p)"

definition pool_ok :: "nat set \<Rightarrow> ('i, 'r) pool \<Rightarrow> bool" where
  "pool_ok X p \<longleftrightarrow> (\<forall>h < length (pp_heap p). slot_shape (slot_at p h)) \<and> slots_exist p \<and>
     (pp_shuttingDown p \<longrightarrow> pp_queue p = []) \<and>
     (\<not> pp_shuttingDown p \<longrightarrow> (\<forall>h \<in> set (pp_slots p) - X. live_state (ws_state (slot_at p h)) \<or> coming_back p h))"

definition no_free_slot :: "('i, 'r) pool \<Rightarrow> bool" where
  "no_free_slot p \<longleftrightarrow> pp_queue p = [] \<or> (\<forall>h \<in> set (pp_slots p). \<not> slot_free (slot_at p h))"

text \<open>A step that changes one slot only.\<close>

definition one_slot :: "nat \<Rightarrow> ('i, 'r) pool \<Rightarrow> ('i, 'r) pool \<Rightarrow> bool" where
  "one_slot h p q \<longleftrightarrow> same_frame p q \<and> (\<forall>k. k \<noteq> h \<longrightarrow> slot_at q k = slot_at p k) \<and> (pp_queue q = pp_queue p \<or> pp_queue q = [])"

lemma pool_ok_one:
  assumes "pool_ok X p" and "one_slot h p q" and "h < length (pp_heap p)" and "slot_shape (slot_at q h)"
    and "\<not> pp_shuttingDown p \<Longrightarrow> live_state (ws_state (slot_at q h)) \<or> coming_back q h"
  shows "pool_ok (X - {h}) q"
proof -
  have k: "k \<noteq> h \<Longrightarrow> slot_at q k = slot_at p k" for k using assms(2) by (simp add: one_slot_def)
  have frame: "same_frame p q" and queue: "pp_queue q = pp_queue p \<or> pp_queue q = []"
    using assms(2) by (simp_all add: one_slot_def)
  have later: "coming_back q k" if "coming_back p k" "k \<noteq> h" for k
    using that k[of k] frameD(7)[OF frame] by (auto simp: coming_back_def)
  have "slot_shape (slot_at q k)" if "k < length (pp_heap q)" for k
    using that assms(1,4) k[of k] frameD(1)[OF frame] by (cases "k = h") (simp_all add: pool_ok_def)
  then have shapes: "\<forall>k < length (pp_heap q). slot_shape (slot_at q k)" by blast
  have "slots_exist q" using slots_exist_frame[OF frame] assms(1) by (simp add: pool_ok_def)
  moreover have "pp_shuttingDown q \<longrightarrow> pp_queue q = []"
    using queue assms(1) frameD(4)[OF frame] by (auto simp: pool_ok_def)
  moreover have "live_state (ws_state (slot_at q k)) \<or> coming_back q k"
    if "\<not> pp_shuttingDown q" "k \<in> set (pp_slots q) - (X - {h})" for k
  proof (cases "k = h")
    case True
    then show ?thesis using assms(5) that(1) frameD(4)[OF frame] by simp
  next
    case False
    then have "live_state (ws_state (slot_at p k)) \<or> coming_back p k"
      using assms(1) that frameD(2,4)[OF frame] by (auto simp: pool_ok_def)
    then show ?thesis using later[of k] k[of k] False by auto
  qed
  ultimately show ?thesis using shapes unfolding pool_ok_def by blast
qed

lemma no_free_one:
  "no_free_slot p \<Longrightarrow> one_slot h p q \<Longrightarrow> \<not> slot_free (slot_at q h) \<Longrightarrow> no_free_slot q"
  unfolding no_free_slot_def one_slot_def same_frame_def by metis

lemma one_slot_trans: "one_slot h p q \<Longrightarrow> one_slot h q r \<Longrightarrow> one_slot h p r"
  by (auto simp: one_slot_def intro: same_frame_trans)

lemma one_slot_set: "one_slot h p (set_slot h s p)"
  by (simp add: one_slot_def pool_frame)

lemma one_slot_heap:
  "same_frame p q \<Longrightarrow> pp_heap q = pp_heap p \<Longrightarrow> pp_queue q = pp_queue p \<or> pp_queue q = [] \<Longrightarrow> one_slot h p q"
  by (simp add: one_slot_def)

lemma queue_settled [simp]:
  "pp_queue (reject_active a e p) = pp_queue p" "pp_queue (terminate_worker h s k p) = pp_queue p"
  "pp_shuttingDown (reject_active a e p) = pp_shuttingDown p"
  "pp_config (drainQueueIfNoLiveCapacity p) = pp_config p"
  by (simp_all add: reject_active_def terminate_worker_def drainQueueIfNoLiveCapacity_def reject_queue_def split: option.split)

lemma queue_drained: "pp_queue (drainQueueIfNoLiveCapacity p) = pp_queue p \<or> pp_queue (drainQueueIfNoLiveCapacity p) = []"
  by (simp add: drainQueueIfNoLiveCapacity_def)

lemma one_slot_restart: "one_slot h p (scheduleRestart h p)"
  using queue_drained[of "set_slot h ((slot_at p h)\<lparr>ws_state := Slot_restarting\<rparr>) p"]
  by (auto simp: one_slot_def pool_frame) (auto simp: scheduleRestart_def Let_def)

lemma slot_restart:
  assumes "h < length (pp_heap p)" and "\<not> pp_shuttingDown p" and "ws_restartTimer (slot_at p h) = None"
  shows "slot_at (scheduleRestart h p) h = (slot_at p h)\<lparr>ws_state := Slot_restarting,
    ws_restartTimer := Some (restartDelayFor (pp_config p) (ws_crashStreak (slot_at p h)))\<rparr>"
  using assms by (simp add: scheduleRestart_def Let_def)

lemma slot_restart_noop:
  "pp_shuttingDown p \<or> ws_restartTimer (slot_at p h) \<noteq> None \<Longrightarrow> scheduleRestart h p = p"
  by (auto simp: scheduleRestart_def)

text \<open>A slot without worker and job that is scheduled to restart.\<close>

definition stopped_slot :: "'i worker_slot \<Rightarrow> bool" where
  "stopped_slot s \<longleftrightarrow> \<not> ws_worker s \<and> ws_currentJob s = None \<and> slot_shape s"

lemma restart_ok:
  assumes "h < length (pp_heap p)" and "stopped_slot (slot_at p h)"
  shows "slot_shape (slot_at (scheduleRestart h p) h)" "\<not> slot_free (slot_at (scheduleRestart h p) h)"
    "\<not> pp_shuttingDown p \<Longrightarrow> coming_back (scheduleRestart h p) h"
  using assms slot_restart[of h p] slot_restart_noop[of p h]
  by (cases "pp_shuttingDown p \<or> ws_restartTimer (slot_at p h) \<noteq> None";
      auto simp: stopped_slot_def slot_free_def coming_back_def slot_shape_def)+

text \<open>A slot whose worker is being terminated waits for the end of that and nothing else.\<close>

definition awaits_end :: "'i worker_slot \<Rightarrow> bool" where
  "awaits_end s \<longleftrightarrow> ws_stopping s \<and> \<not> live_state (ws_state s) \<and> ws_restartTimer s = None"

definition pending_ok :: "('i, 'r) pool \<Rightarrow> bool" where
  "pending_ok p \<longleftrightarrow> distinct (map fst (pp_terminating p)) \<and>
     (\<forall>h \<in> fst ` set (pp_terminating p). h < length (pp_heap p) \<and> awaits_end (slot_at p h))"

text \<open>
  The promise of a step of a slot: the slot ends in shape, not free, live or coming back, and awaits
  the end of a termination that the step began.
\<close>

definition slot_handled :: "nat \<Rightarrow> ('i, 'r) pool \<Rightarrow> ('i, 'r) pool \<Rightarrow> bool" where
  "slot_handled h p q \<longleftrightarrow> one_slot h p q \<and> slot_shape (slot_at q h) \<and> \<not> slot_free (slot_at q h) \<and>
     (\<not> pp_shuttingDown p \<longrightarrow> live_state (ws_state (slot_at q h)) \<or> coming_back q h) \<and>
     (pp_terminating q = pp_terminating p \<or>
      (\<exists>k. pp_terminating q = pp_terminating p @ [(h, k)]) \<and> awaits_end (slot_at q h))"

lemma handledD:
  assumes "slot_handled h p q"
  shows "same_frame p q" "k \<noteq> h \<Longrightarrow> slot_at q k = slot_at p k" "\<not> slot_free (slot_at q h)"
  using assms by (simp_all add: slot_handled_def one_slot_def)

lemma handled_pending:
  assumes "pending_ok p" and "slot_handled h p q" and "h \<notin> fst ` set (pp_terminating p)" and "h < length (pp_heap p)"
  shows "pending_ok q"
proof -
  have "slot_at q k = slot_at p k" if "k \<in> fst ` set (pp_terminating p)" for k
    using assms(2,3) that by (auto simp: slot_handled_def one_slot_def)
  moreover have len: "length (pp_heap q) = length (pp_heap p)" using frameD(1)[OF handledD(1)[OF assms(2)]] .
  ultimately have keep: "\<forall>k \<in> fst ` set (pp_terminating p). k < length (pp_heap q) \<and> awaits_end (slot_at q k)" and dist: "distinct (map fst (pp_terminating p))"
    using assms(1) by (simp_all add: pending_ok_def)
  consider "pp_terminating q = pp_terminating p"
    | k where "pp_terminating q = pp_terminating p @ [(h, k)]" "awaits_end (slot_at q h)"
    using assms(2) by (auto simp: slot_handled_def)
  then show ?thesis
    by cases (use keep dist assms(3,4) len in \<open>simp_all add: pending_ok_def\<close>)
qed

lemma handled_ok: "pool_ok X p \<Longrightarrow> slot_handled h p q \<Longrightarrow> h < length (pp_heap p) \<Longrightarrow> pool_ok (X - {h}) q"
  by (rule pool_ok_one) (auto simp: slot_handled_def)

lemma handled_no_free: "no_free_slot p \<Longrightarrow> slot_handled h p q \<Longrightarrow> no_free_slot q"
  by (rule no_free_one) (auto simp: slot_handled_def)

lemma handled_after:
  assumes "one_slot h p q" and "pp_terminating q = pp_terminating p" and "slot_handled h q r"
  shows "slot_handled h p r"
proof -
  have "pp_shuttingDown q = pp_shuttingDown p" using assms(1) by (simp add: one_slot_def same_frame_def)
  then show ?thesis using assms one_slot_trans[OF assms(1)] by (simp add: slot_handled_def)
qed

lemma terminating_restart [simp]: "pp_terminating (scheduleRestart h p) = pp_terminating p"
  by (simp add: scheduleRestart_def Let_def drainQueueIfNoLiveCapacity_def)

lemma terminating_reject [simp]: "pp_terminating (reject_active a e p) = pp_terminating p"
  by (simp add: reject_active_def split: option.split)

lemma handled_restart:
  "h < length (pp_heap p) \<Longrightarrow> stopped_slot (slot_at p h) \<Longrightarrow> slot_handled h p (scheduleRestart h p)"
  unfolding slot_handled_def by (simp add: one_slot_restart restart_ok)

lemma one_slot_settled:
  "one_slot h p q \<Longrightarrow> one_slot h p (settle i out q)" "one_slot h p q \<Longrightarrow> one_slot h p (reject_active a e q)"
  "one_slot h p q \<Longrightarrow> one_slot h p (set_slot h s q)" "one_slot h p q \<Longrightarrow> one_slot h p (terminate_worker h s k q)"
  by (simp_all add: one_slot_def pool_frame)

lemma one_slot_refl [simp]: "one_slot h p p"
  by (simp add: one_slot_def)

lemma handled_failure:
  assumes "h < length (pp_heap p)" and "ws_generation (slot_at p h) = g" and "\<not> ws_stopping (slot_at p h)"
  shows "slot_handled h p (handleWorkerFailure h g p)"
proof -
  let ?s = "(slot_at p h)\<lparr>ws_crashStreak := ws_crashStreak (slot_at p h) + 1, ws_currentJob := None,
    ws_worker := False, ws_state := Slot_restarting\<rparr>"
  let ?q = "reject_active (ws_currentJob (slot_at p h)) Pool_crashed (set_slot h ?s p)"
  have "slot_at ?q h = ?s" using assms(1) by simp
  then have "slot_handled h ?q (scheduleRestart h ?q)"
    using assms(1) by (intro handled_restart) (simp_all add: stopped_slot_def slot_shape_def)
  then show ?thesis
    using handled_after[of h p ?q] assms by (simp add: handleWorkerFailure_def Let_def one_slot_settled)
qed

lemma failure_noop:
  "ws_generation (slot_at p h) \<noteq> g \<or> ws_stopping (slot_at p h) \<Longrightarrow> handleWorkerFailure h g p = p"
  by (auto simp: handleWorkerFailure_def Let_def)

lemma handled_timeout:
  assumes "h < length (pp_heap p)" and "ws_currentJob (slot_at p h) = Some a" and "slot_shape (slot_at p h)"
    and "sameWorkerIdentity (aj_identity a) i"
  shows "slot_handled h p (handleActiveJobTimeout h i p)"
proof -
  have busy: "ws_state (slot_at p h) = Slot_busy" "ws_worker (slot_at p h)" "ws_restartTimer (slot_at p h) = None"
    using assms(2,3) by (auto simp: slot_shape_def split: slot_state.splits)
  have "one_slot h p (handleActiveJobTimeout h i p)"
    using assms(2,4) by (simp add: handleActiveJobTimeout_def Let_def one_slot_settled)
  moreover have "slot_at (handleActiveJobTimeout h i p) h =
      (slot_at p h)\<lparr>ws_currentJob := None, ws_worker := False, ws_state := Slot_restarting, ws_stopping := True\<rparr>"
    using assms by (simp add: handleActiveJobTimeout_def Let_def)
  moreover have "pp_terminating (handleActiveJobTimeout h i p) = pp_terminating p @ [(h, After_timeout)]"
    using assms busy by (simp add: handleActiveJobTimeout_def Let_def terminate_worker_def)
  ultimately show ?thesis
    using busy by (simp add: slot_handled_def slot_shape_def slot_free_def coming_back_def awaits_end_def live_state_def)
qed

lemma timeout_noop: "ws_currentJob (slot_at p h) = Some a \<Longrightarrow> \<not> sameWorkerIdentity (aj_identity a) i \<Longrightarrow> handleActiveJobTimeout h i p = p"
  by (simp add: handleActiveJobTimeout_def Let_def)

lemma same_identity_refl [simp]: "sameWorkerIdentity i i"
  by (simp add: sameWorkerIdentity_def)

definition busy_with :: "'i active_job \<Rightarrow> 'i worker_slot \<Rightarrow> bool" where
  "busy_with a s \<longleftrightarrow> ws_state s = Slot_busy \<and> ws_currentJob s = Some a \<and> slot_shape s"

lemma handled_arm:
  assumes "h < length (pp_heap p)" and "busy_with a (slot_at p h)"
  shows "slot_handled h p (armActiveJobTimer env h a p)"
proof -
  have "slot_handled h p p"
    using assms by (simp add: slot_handled_def busy_with_def slot_free_def live_state_def)
  moreover have "slot_handled h p (handleActiveJobTimeout h (aj_identity a) p)"
    using assms by (intro handled_timeout) (auto simp: busy_with_def)
  moreover have "slot_handled h p (set_slot h ((slot_at p h)\<lparr>ws_currentJob := Some (a\<lparr>aj_timer := True\<rparr>)\<rparr>) p)"
    using assms by (auto simp: slot_handled_def one_slot_settled busy_with_def slot_free_def live_state_def slot_shape_def)
  ultimately show ?thesis by (simp add: armActiveJobTimer_def)
qed

lemma handled_start_job:
  assumes "h < length (pp_heap p)" and "slot_free (slot_at p h)" and "slot_shape (slot_at p h)"
  shows "slot_handled h p (start_job env h job p)"
proof -
  let ?s = "slot_at p h"
  let ?i = "\<lparr>workerRequestId = pp_nextWorkerRequestId p, workerSlotId = ws_slotId ?s, workerGeneration = ws_generation ?s\<rparr>"
  let ?a = "\<lparr>aj_job = job, aj_identity = ?i, aj_timer = False\<rparr>"
  let ?q = "set_slot h (?s\<lparr>ws_currentJob := Some ?a, ws_state := Slot_busy\<rparr>)
    (p\<lparr>pp_nextWorkerRequestId := pp_nextWorkerRequestId p + 1, pp_posted := pp_posted p @ [(qj_id job, ?i)]\<rparr>)"
  let ?r = "settle (qj_id job) (Job_rejected Pool_unavailable) (set_slot h ((slot_at ?q h)\<lparr>ws_currentJob := None\<rparr>) ?q)"
  have q: "one_slot h p ?q" by (simp add: one_slot_def pool_frame)
  have r: "one_slot h p ?r" using q by (simp add: one_slot_settled)
  have "slot_handled h p (armActiveJobTimer env h ?a ?q)"
    using assms by (intro handled_after[OF q] handled_arm) (auto simp: busy_with_def slot_free_def slot_shape_def)
  moreover have "slot_handled h p (handleWorkerFailure h (ws_generation ?s) ?r)"
    using assms by (intro handled_after[OF r] handled_failure) (auto simp: slot_free_def slot_shape_def)
  ultimately show ?thesis
    using assms(1) by (simp add: start_job_def Let_def)
qed

lemma pool_ok_mono: "pool_ok X p \<Longrightarrow> X \<subseteq> Y \<Longrightarrow> pool_ok Y p"
  unfolding pool_ok_def by blast

lemma pool_ok_settle [simp]: "pool_ok X (settle i out p) = pool_ok X p" "pending_ok (settle i out p) = pending_ok p"
  by (simp_all add: pool_ok_def coming_back_def pending_ok_def)

lemma pool_ok_queue:
  "pool_ok X p \<Longrightarrow> (pp_shuttingDown p \<Longrightarrow> js = []) \<Longrightarrow> pool_ok X (p\<lparr>pp_queue := js\<rparr>)"
  "pending_ok (p\<lparr>pp_queue := js\<rparr>) = pending_ok p"
  by (simp_all add: pool_ok_def coming_back_def slots_exist_def pending_ok_def)

lemma free_not_pending: "pending_ok p \<Longrightarrow> slot_free (slot_at p h) \<Longrightarrow> h \<notin> fst ` set (pp_terminating p)"
  by (auto simp: pending_ok_def awaits_end_def slot_free_def live_state_def)

lemma pump_loop_ok:
  "pool_ok X p \<Longrightarrow> pending_ok p \<Longrightarrow> \<forall>h \<in> set hs. h < length (pp_heap p) \<Longrightarrow>
   \<forall>h \<in> set (pp_slots p) - set hs. \<not> slot_free (slot_at p h) \<Longrightarrow>
   pool_ok X (pump_loop env hs p) \<and> pending_ok (pump_loop env hs p) \<and> no_free_slot (pump_loop env hs p)"
proof (induction env hs p rule: pump_loop.induct)
  case (1 env p)
  then show ?case by (simp add: no_free_slot_def)
next
  case (2 env h hs p)
  show ?case
  proof (cases "pp_queue p")
    case Nil
    then show ?thesis using "2.prems" by (simp add: no_free_slot_def)
  next
    case (Cons job rest)
    let ?p = "p\<lparr>pp_queue := rest\<rparr>"
    have ok: "pool_ok X ?p" "pending_ok ?p" and run: "\<not> pp_shuttingDown p"
      using "2.prems"(1,2) Cons pool_ok_queue(1)[of X p rest] by (auto simp: pool_ok_def[of X p] pool_ok_queue)
    show ?thesis
    proof (cases "slot_free (slot_at p h)")
      case free: True
      show ?thesis
      proof (cases "isDeadlineExpired (pe_now env) (qj_deadlineAt job)")
        case True
        then show ?thesis
          using "2.IH"(2)[OF Cons, of ?p "settle (qj_id job) (Job_rejected Pool_timeout) ?p"] "2.prems"(1) free run ok
          by (auto simp: Cons Let_def no_free_slot_def pool_ok_def[of X p] slots_exist_def)
      next
        case False
        let ?q = "start_job env h job ?p"
        have h: "h < length (pp_heap p)" "slot_shape (slot_at p h)"
          using "2.prems"(1,3) by (auto simp: pool_ok_def)
        have started: "slot_handled h ?p ?q" using handled_start_job[of h ?p env job] h free by simp
        have "pool_ok X ?q" using pool_ok_mono[OF handled_ok[OF ok(1) started]] h by simp
        moreover have "pending_ok ?q"
          using handled_pending[OF ok(2) started] free_not_pending[OF "2.prems"(2) free] h by simp
        moreover have "\<forall>k \<in> set (pp_slots ?q) - set hs. \<not> slot_free (slot_at ?q k)"
        proof
          fix k
          assume k: "k \<in> set (pp_slots ?q) - set hs"
          show "\<not> slot_free (slot_at ?q k)"
            using k "2.prems"(4) frameD(2)[OF handledD(1)[OF started]] handledD(2,3)[OF started]
            by (cases "k = h") simp_all
        qed
        moreover have "\<forall>k \<in> set hs. k < length (pp_heap ?q)"
          using "2.prems"(3) frameD(1)[OF handledD(1)[OF started]] by simp
        ultimately show ?thesis
          using "2.IH"(3)[OF Cons _ refl] False free by (simp add: Cons)
      qed
    next
      case False
      then show ?thesis using "2.IH"(1)[OF Cons False] "2.prems" Cons by (auto simp: Let_def)
    qed
  qed
qed

definition pool_inv :: "nat set \<Rightarrow> ('i, 'r) pool \<Rightarrow> bool" where
  "pool_inv X p \<longleftrightarrow> pool_ok X p \<and> pending_ok p \<and> no_free_slot p"

lemma pump_inv: "pool_ok X p \<Longrightarrow> pending_ok p \<Longrightarrow> pool_inv X (pump env p)"
proof -
  assume ok: "pool_ok X p" "pending_ok p"
  have "\<forall>h \<in> set (pp_slots p). h < length (pp_heap p)" using ok(1) by (simp add: pool_ok_def slots_exist_def)
  then show ?thesis
    using pump_loop_ok[OF ok, of "pp_slots p" env] ok by (auto simp: pump_def pool_inv_def no_free_slot_def pool_ok_def)
qed

lemma handled_inv:
  "pool_inv X p \<Longrightarrow> slot_handled h p q \<Longrightarrow> h < length (pp_heap p) \<Longrightarrow> h \<notin> fst ` set (pp_terminating p) \<Longrightarrow> pool_inv (X - {h}) q"
  unfolding pool_inv_def using handled_ok handled_pending handled_no_free by blast

lemma pool_ok_shutting: "pool_ok X p \<Longrightarrow> pp_shuttingDown p \<Longrightarrow> pool_ok Y p"
  by (simp add: pool_ok_def)

lemma pending_set:
  assumes "pending_ok p" and "h \<notin> fst ` set (pp_terminating p)"
  shows "pending_ok (set_slot h s p)"
proof -
  have "slot_at (set_slot h s p) k = slot_at p k" if "k \<in> fst ` set (pp_terminating p)" for k
    using that assms(2) by (cases "k = h") simp_all
  then show ?thesis using assms(1) by (simp add: pending_ok_def)
qed

lemma created_ok [simp]:
  "pool_ok X (p\<lparr>pp_created := c\<rparr>) = pool_ok X p" "pending_ok (p\<lparr>pp_created := c\<rparr>) = pending_ok p"
  by (simp_all add: pool_ok_def coming_back_def slots_exist_def pending_ok_def)

lemma pool_ok_set:
  assumes "pool_ok X p" and "h < length (pp_heap p)" and "slot_shape s" and "live_state (ws_state s)"
  shows "pool_ok (X - {h}) (set_slot h s p)"
  using assms by (intro pool_ok_one[OF assms(1) one_slot_set]) simp_all

lemma startSlot_inv:
  assumes "pool_inv X p" and "h < length (pp_heap p)" and "h \<notin> fst ` set (pp_terminating p)"
    and "ws_currentJob (slot_at p h) = None"
  shows "pool_inv (X - {h}) (startSlot env h p)"
proof (cases "pp_shuttingDown p")
  case True
  then show ?thesis using assms(1) pool_ok_shutting[of X p] by (simp add: startSlot_def pool_inv_def)
next
  case False
  let ?s = "(slot_at p h)\<lparr>ws_restartTimer := None, ws_generation := ws_generation (slot_at p h) + 1,
    ws_state := Slot_restarting, ws_stopping := False\<rparr>"
  let ?up = "set_slot h (?s\<lparr>ws_worker := True, ws_state := Slot_idle\<rparr>) (p\<lparr>pp_created := pp_created p @ [(h, ws_generation ?s)]\<rparr>)"
  let ?dead = "set_slot h (?s\<lparr>ws_worker := False, ws_state := Slot_dead\<rparr>) p"
  have ok: "pool_ok X p" "pending_ok p" using assms(1) by (simp_all add: pool_inv_def)
  have "pool_ok (X - {h}) ?up"
    by (rule pool_ok_set) (simp_all add: ok assms(2,4) slot_shape_def live_state_def)
  moreover have "pending_ok ?up"
    by (rule pending_set) (simp_all add: ok assms(3))
  ultimately have up: "pool_inv (X - {h}) (pump env ?up)" by (rule pump_inv)
  have "slot_handled h p (scheduleRestart h ?dead)"
    by (rule handled_after[OF one_slot_set _ handled_restart]) (simp_all add: assms(2,4) stopped_slot_def slot_shape_def)
  then have dead: "pool_inv (X - {h}) (scheduleRestart h ?dead)" by (rule handled_inv[OF assms(1) _ assms(2,3)])
  have "startSlot env h p = (if pe_createWorker env (ws_slotId ?s) (ws_generation ?s) then pump env ?up else scheduleRestart h ?dead)"
    unfolding startSlot_def Let_def by (simp only: False if_False)
  then show ?thesis using up dead by presburger
qed

text \<open>Slots that wait for a timer or a termination are stopped.\<close>

lemma awaits_stopped: "slot_shape s \<Longrightarrow> awaits_end s \<Longrightarrow> stopped_slot s"
  by (cases "ws_state s") (simp_all add: slot_shape_def awaits_end_def stopped_slot_def live_state_def)

lemma timer_stopped: "slot_shape s \<Longrightarrow> ws_restartTimer s \<noteq> None \<Longrightarrow> stopped_slot s \<and> \<not> awaits_end s"
  by (cases "ws_state s") (auto simp: slot_shape_def awaits_end_def stopped_slot_def)

lemma job_busy: "slot_shape s \<Longrightarrow> ws_currentJob s = Some a \<Longrightarrow> ws_state s = Slot_busy \<and> \<not> awaits_end s"
  by (cases "ws_state s") (auto simp: slot_shape_def awaits_end_def)

lemma pending_awaits: "pending_ok p \<Longrightarrow> \<not> awaits_end (slot_at p h) \<Longrightarrow> h \<notin> fst ` set (pp_terminating p)"
  by (auto simp: pending_ok_def)

lemma pool_inv_shape: "pool_inv X p \<Longrightarrow> h < length (pp_heap p) \<Longrightarrow> slot_shape (slot_at p h)"
  by (simp add: pool_inv_def pool_ok_def)

lemma inv_exempt:
  assumes "pool_inv {} p" and "h < length (pp_heap p)" and "slot_shape s" and "\<not> slot_free s"
    and "h \<notin> fst ` set (pp_terminating p)"
  shows "pool_inv {h} (set_slot h s p)"
proof -
  let ?q = "set_slot h s p"
  have "coming_back ?q k = coming_back p k" if "k \<noteq> h" for k using that by (simp add: coming_back_def)
  then have "pool_ok {h} ?q"
    using assms by (auto simp: pool_inv_def pool_ok_def nth_list_update slots_exist_def)
  moreover have "pending_ok ?q" using assms by (intro pending_set) (simp_all add: pool_inv_def)
  moreover have "no_free_slot ?q"
    using assms by (auto simp: pool_inv_def no_free_slot_def nth_list_update)
  ultimately show ?thesis by (simp add: pool_inv_def)
qed

lemma restart_event_inv:
  assumes "pool_inv {} p" and "h < length (pp_heap p)"
  shows "pool_inv {} (fire_restart env h p)"
proof (cases "ws_restartTimer (slot_at p h) = None")
  case False
  let ?s = "(slot_at p h)\<lparr>ws_restartTimer := None\<rparr>"
  have st: "stopped_slot (slot_at p h)" "h \<notin> fst ` set (pp_terminating p)"
    using timer_stopped[OF pool_inv_shape[OF assms] False] pending_awaits[of p h] assms(1) by (auto simp: pool_inv_def)
  have "stopped_slot ?s" using st(1) by (auto simp: stopped_slot_def slot_shape_def split: slot_state.splits)
  then have "pool_inv {h} (set_slot h ?s p)"
    using assms st(2) by (intro inv_exempt) (auto simp: stopped_slot_def slot_free_def)
  then have "pool_inv ({h} - {h}) (startSlot env h (set_slot h ?s p))"
    using assms(2) st by (intro startSlot_inv) (auto simp: stopped_slot_def)
  then show ?thesis using False by (auto simp: fire_restart_def)
qed (simp add: fire_restart_def assms)

lemma failure_event_inv:
  assumes "pool_inv {} p" and "h < length (pp_heap p)"
  shows "pool_inv {} (handleWorkerFailure h g p)"
proof (cases "ws_generation (slot_at p h) \<noteq> g \<or> ws_stopping (slot_at p h)")
  case False
  then have "slot_handled h p (handleWorkerFailure h g p)" using assms(2) by (intro handled_failure) auto
  moreover have "h \<notin> fst ` set (pp_terminating p)"
    using False pending_awaits[of p h] assms(1) by (auto simp: pool_inv_def awaits_end_def)
  ultimately show ?thesis using handled_inv[OF assms(1)] assms(2) by fastforce
qed (simp add: failure_noop assms)

lemma timeout_event_inv:
  assumes "pool_inv {} p" and "h < length (pp_heap p)"
  shows "pool_inv {} (fire_timeout h p)"
proof (cases "ws_currentJob (slot_at p h)")
  case (Some a)
  have shape: "slot_shape (slot_at p h)" using pool_inv_shape[OF assms] .
  have "slot_handled h p (handleActiveJobTimeout h (aj_identity a) p)"
    using assms(2) Some shape by (intro handled_timeout) auto
  moreover have "h \<notin> fst ` set (pp_terminating p)"
    using job_busy[OF shape Some] pending_awaits[of p h] assms(1) by (auto simp: pool_inv_def)
  ultimately have "pool_inv {} (handleActiveJobTimeout h (aj_identity a) p)"
    using handled_inv[OF assms(1)] assms(2) by fastforce
  then show ?thesis using Some assms(1) by (simp add: fire_timeout_def)
qed (simp add: fire_timeout_def assms)

text \<open>The end of a termination.\<close>

lemma remove_nth_facts:
  assumes "k < length xs" and "distinct (map fst xs)"
  shows "set (take k xs @ drop (Suc k) xs) = set xs - {xs ! k}"
    and "distinct (map fst (take k xs @ drop (Suc k) xs))"
    and "fst ` set (take k xs @ drop (Suc k) xs) = fst ` set xs - {fst (xs ! k)}"
proof -
  have xs: "xs = take k xs @ xs ! k # drop (Suc k) xs" using assms(1) by (rule id_take_nth_drop)
  have d: "distinct (map fst (take k xs @ xs ! k # drop (Suc k) xs))" using assms(2) xs by simp
  then show "distinct (map fst (take k xs @ drop (Suc k) xs))" by auto
  have "xs ! k \<notin> set (take k xs @ drop (Suc k) xs)" using d by (auto simp del: id_take_nth_drop)
  moreover have "set xs = insert (xs ! k) (set (take k xs @ drop (Suc k) xs))" by (subst xs) simp
  ultimately show "set (take k xs @ drop (Suc k) xs) = set xs - {xs ! k}" by blast
  have "fst (xs ! k) \<notin> fst ` set (take k xs @ drop (Suc k) xs)" using d by (auto simp del: id_take_nth_drop)
  moreover have "fst ` set xs = insert (fst (xs ! k)) (fst ` set (take k xs @ drop (Suc k) xs))" by (subst xs) simp
  ultimately show "fst ` set (take k xs @ drop (Suc k) xs) = fst ` set xs - {fst (xs ! k)}" by blast
qed

lemma terminated_event_inv:
  assumes "pool_inv {} p" and "k < length (pp_terminating p)" and "fst (pp_terminating p ! k) < length (pp_heap p)"
  shows "pool_inv {} (finish_terminate env k p)"
proof -
  obtain h what where hw: "pp_terminating p ! k = (h, what)" by fastforce
  let ?T = "take k (pp_terminating p) @ drop (Suc k) (pp_terminating p)"
  let ?s = "(slot_at p h)\<lparr>ws_stopping := False\<rparr>"
  let ?q = "set_slot h ?s (p\<lparr>pp_terminating := ?T\<rparr>)"
  have pend: "pending_ok p" and ok: "pool_ok {} p" and nf: "no_free_slot p" using assms(1) by (simp_all add: pool_inv_def)
  have dist: "distinct (map fst (pp_terminating p))" using pend by (simp add: pending_ok_def)
  note rem = remove_nth_facts[OF assms(2) dist, unfolded hw fst_conv]
  have h: "h < length (pp_heap p)" using assms(3) hw by simp
  have "h \<in> fst ` set (pp_terminating p)" using assms(2) hw by (metis fst_conv image_eqI nth_mem)
  then have aw: "awaits_end (slot_at p h)" using pending_awaits[OF pend, of h] by blast
  have st: "stopped_slot (slot_at p h)" using awaits_stopped[OF pool_inv_shape[OF assms(1) h] aw] .
  then have sts: "stopped_slot ?s" "slot_shape ?s" "\<not> slot_free ?s"
    by (auto simp: stopped_slot_def slot_shape_def slot_free_def split: slot_state.splits)
  have others: "slot_at ?q j = slot_at p j" if "j \<noteq> h" for j using that by simp
  have later: "coming_back ?q j = coming_back p j" if "j \<noteq> h" for j
    using that rem(3) others[OF that] by (simp add: coming_back_def)
  have "pool_ok {h} ?q"
    using ok sts(2) others later h by (auto simp: pool_ok_def slots_exist_def nth_list_update)
  moreover have notin: "h \<notin> fst ` set (pp_terminating ?q)" using rem(3) by simp
  moreover have "pending_ok ?q"
  proof -
    have "j < length (pp_heap ?q) \<and> awaits_end (slot_at ?q j)" if "j \<in> fst ` set ?T" for j
    proof -
      have "j \<noteq> h" "j \<in> fst ` set (pp_terminating p)" using that rem(3) by auto
      then show ?thesis using pend unfolding pending_ok_def by auto
    qed
    then show ?thesis using rem(2) unfolding pending_ok_def by simp
  qed
  moreover have "no_free_slot ?q"
    using nf sts(3) h by (auto simp: no_free_slot_def nth_list_update)
  ultimately have q: "pool_inv {h} ?q" by (simp add: pool_inv_def)
  have hq: "h < length (pp_heap ?q)" and sq: "slot_at ?q h = ?s" using h by simp_all
  have "pool_inv ({h} - {h}) (startSlot env h ?q)"
    by (rule startSlot_inv[OF q hq notin]) (use st in \<open>simp add: h stopped_slot_def\<close>)
  moreover have "pool_inv ({h} - {h}) (scheduleRestart h ?q)"
    by (rule handled_inv[OF q handled_restart hq notin]) (use sts h in simp_all)
  ultimately show ?thesis
    by (simp add: finish_terminate_def hw Let_def split: after_terminate.split)
qed

lemma handled_recycle:
  assumes "h < length (pp_heap p)" and "slot_shape (slot_at p h)" and "ws_state (slot_at p h) = Slot_idle"
  shows "slot_handled h p (recycleSlot h p)"
proof -
  have idle: "ws_worker (slot_at p h)" "ws_currentJob (slot_at p h) = None" "ws_restartTimer (slot_at p h) = None"
    using assms(2,3) by (auto simp: slot_shape_def)
  have "slot_at (recycleSlot h p) h = (slot_at p h)\<lparr>ws_worker := False, ws_state := Slot_restarting, ws_jobCount := 0, ws_stopping := True\<rparr>"
    using assms(1) by (simp add: recycleSlot_def Let_def)
  moreover have "pp_terminating (recycleSlot h p) = pp_terminating p @ [(h, After_recycle)]"
    using idle by (simp add: recycleSlot_def Let_def terminate_worker_def)
  moreover have "one_slot h p (recycleSlot h p)" by (simp add: recycleSlot_def Let_def one_slot_settled)
  ultimately show ?thesis
    using idle by (simp add: slot_handled_def slot_shape_def slot_free_def coming_back_def awaits_end_def live_state_def)
qed

lemma message_event_inv:
  assumes "pool_inv {} p" and "h < length (pp_heap p)"
  shows "pool_inv {} (handleWorkerMessage env h g m r p)"
proof (cases "ws_currentJob (slot_at p h)")
  case (Some a)
  let ?s = "(slot_at p h)\<lparr>ws_currentJob := None, ws_state := Slot_idle, ws_jobCount := ws_jobCount (slot_at p h) + 1, ws_crashStreak := 0\<rparr>"
  let ?q = "settle (qj_id (aj_job a)) (Job_resolved m r) (set_slot h ?s p)"
  have busy: "ws_state (slot_at p h) = Slot_busy" "h \<notin> fst ` set (pp_terminating p)"
    using job_busy[OF pool_inv_shape[OF assms] Some] pending_awaits[of p h] assms(1) by (auto simp: pool_inv_def)
  then have shape: "slot_shape ?s" using pool_inv_shape[OF assms] by (auto simp: slot_shape_def)
  have ok: "pool_ok {} p" "pending_ok p" using assms(1) by (simp_all add: pool_inv_def)
  have "pool_ok {} (set_slot h ?s p)" using pool_ok_set[OF ok(1) assms(2) shape] by (simp add: live_state_def)
  moreover have "pending_ok (set_slot h ?s p)" using pending_set[OF ok(2) busy(2)] .
  ultimately have pumped: "pool_inv {} (pump env ?q)" by (intro pump_inv) simp_all
  have "slot_handled h p (recycleSlot h ?q)"
    by (rule handled_after[OF one_slot_settled(1)[OF one_slot_set] _ handled_recycle]) (use shape assms(2) in simp_all)
  then have "pool_inv {} (recycleSlot h ?q)"
    using handled_inv[OF assms(1) _ assms(2) busy(2)] by simp
  with pumped show ?thesis
    using assms(1) Some by (simp add: handleWorkerMessage_def Let_def split: option.split)
qed (simp add: handleWorkerMessage_def Let_def assms)

text \<open>Dispatches and shutdowns.\<close>

lemma pool_inv_settle [simp]: "pool_inv X (settle i out p) = pool_inv X p"
  by (simp add: pool_inv_def no_free_slot_def)

lemma pool_inv_fields [simp]:
  "pool_inv X (p\<lparr>pp_dispatched := n\<rparr>) = pool_inv X p" "pool_inv X (p\<lparr>pp_started := b\<rparr>) = pool_inv X p"
  by (simp_all add: pool_inv_def pool_ok_def pending_ok_def no_free_slot_def coming_back_def slots_exist_def)

text \<open>As many slots as configured once the pool is started, and none before; the queue within its cap.\<close>

definition pool_sized :: "('i, 'r) pool \<Rightarrow> bool" where
  "pool_sized p \<longleftrightarrow> length (pp_slots p) = (if pp_started p then pc_workersTarget (pp_config p) else 0) \<and>
     int (length (pp_queue p)) \<le> max 0 (pc_queueCap (pp_config p))"

lemma push_ok:
  assumes "pool_inv {} p"
  shows "pool_inv {length (pp_heap p)} (push_slot i p)"
proof -
  let ?n = "length (pp_heap p)" and ?q = "push_slot i p"
  have at: "slot_at ?q k = slot_at p k" if "k < ?n" for k using that by (simp add: push_slot_def nth_append)
  have atn: "slot_at ?q ?n = new_slot i" by (simp add: push_slot_def)
  have fields: "pp_slots ?q = pp_slots p @ [?n]" "length (pp_heap ?q) = Suc ?n" "pp_queue ?q = pp_queue p"
    "pp_shuttingDown ?q = pp_shuttingDown p" "pp_terminating ?q = pp_terminating p"
    by (simp_all add: push_slot_def)
  have ok: "pool_ok {} p" "pending_ok p" "no_free_slot p" using assms by (simp_all add: pool_inv_def)
  have lt: "\<forall>k \<in> set (pp_slots p). k < ?n" using ok(1) by (simp add: pool_ok_def slots_exist_def)
  have later: "coming_back ?q k = coming_back p k" if "k < ?n" for k using at[OF that] fields by (simp add: coming_back_def)
  have shapes: "slot_shape (slot_at ?q k)" if "k < Suc ?n" for k
  proof (cases "k = ?n")
    case True
    then show ?thesis by (simp add: atn new_slot_def slot_shape_def)
  next
    case False
    then show ?thesis using that at[of k] ok(1) by (simp add: pool_ok_def)
  qed
  have "pool_ok {?n} ?q"
    using ok(1) shapes lt at later fields by (auto simp: pool_ok_def slots_exist_def less_SucI)
  moreover have "pending_ok ?q" using ok(2) at fields by (auto simp: pending_ok_def less_SucI)
  moreover have "no_free_slot ?q"
    using ok(3) lt at fields atn by (auto simp: no_free_slot_def new_slot_def slot_free_def)
  ultimately show ?thesis by (simp add: pool_inv_def)
qed

lemma start_slots_inv: "pool_inv {} p \<Longrightarrow> pool_inv {} (start_slots env is p)"
proof (induction "is" arbitrary: p)
  case (Cons i "is")
  let ?n = "length (pp_heap p)" and ?q = "push_slot i p"
  have "?n < length (pp_heap ?q)" "ws_currentJob (slot_at ?q ?n) = None" "pp_terminating ?q = pp_terminating p"
    by (simp_all add: push_slot_def new_slot_def)
  moreover have "?n \<notin> fst ` set (pp_terminating p)" using Cons.prems by (auto simp: pool_inv_def pending_ok_def)
  ultimately have "pool_inv ({?n} - {?n}) (startSlot env ?n ?q)"
    by (intro startSlot_inv push_ok Cons.prems) simp_all
  then show ?case using Cons.IH by simp
qed simp

lemma ensureStarted_inv: "pool_inv {} p \<Longrightarrow> pool_inv {} (ensureStarted env p)"
  by (simp add: ensureStarted_def start_slots_inv)

lemma shutting_start_slots [simp]: "pp_shuttingDown (start_slots env is p) = pp_shuttingDown p"
proof (induction "is" arbitrary: p)
  case (Cons i "is")
  then show ?case
    using frameD(4)[OF same_frame_startSlot[OF same_frame_refl, of "push_slot i p" env]] by (simp add: push_slot_def)
qed simp

lemma dispatch_inv:
  assumes "pool_inv {} p"
  shows "pool_inv {} (dispatch env inp d p)"
proof -
  let ?q = "ensureStarted env (p\<lparr>pp_dispatched := pp_dispatched p + 1\<rparr>)"
  have q: "pool_inv {} ?q" using assms by (intro ensureStarted_inv) simp
  have "pool_inv {} (pump env (?q\<lparr>pp_queue := js\<rparr>))" if "\<not> pp_shuttingDown p" for js
  proof -
    have "\<not> pp_shuttingDown ?q" using that by (simp add: ensureStarted_def)
    then show ?thesis using q by (intro pump_inv pool_ok_queue(1)) (simp_all add: pool_inv_def pool_ok_queue(2))
  qed
  then show ?thesis using assms q by (simp add: dispatch_def Let_def)
qed

lemma slot_stopped:
  "h < length (pp_heap p) \<Longrightarrow> slot_shape (slot_at (stop_slot h p) h) \<and> awaits_end (slot_at (stop_slot h p) h)"
  and slot_not_stopped: "k \<noteq> h \<Longrightarrow> slot_at (stop_slot h p) k = slot_at p k"
  by (simp_all add: stop_slot_def Let_def slot_shape_def awaits_end_def live_state_def)

lemma stop_slots_ok:
  "\<forall>k < length (pp_heap p). slot_shape (slot_at p k) \<Longrightarrow> pending_ok p \<Longrightarrow> \<forall>h \<in> set hs. h < length (pp_heap p) \<Longrightarrow>
   (\<forall>k < length (pp_heap p). slot_shape (slot_at (fold stop_slot hs p) k)) \<and> pending_ok (fold stop_slot hs p)"
proof (induction hs arbitrary: p)
  case (Cons h hs)
  let ?q = "stop_slot h p"
  have "slot_shape (slot_at ?q k)" if "k < length (pp_heap p)" for k
    using slot_stopped[of h p] slot_not_stopped[of k h p] Cons.prems that by (cases "k = h") simp_all
  moreover have "pending_ok ?q"
  proof -
    have "awaits_end (slot_at ?q k)" if "k \<in> fst ` set (pp_terminating p)" for k
      using slot_stopped[of h p] slot_not_stopped[of k h p] Cons.prems(2,3) that
      by (cases "k = h") (auto simp: pending_ok_def)
    then show ?thesis using Cons.prems(2) by (auto simp: pending_ok_def)
  qed
  ultimately show ?case using Cons.IH[of ?q] Cons.prems(3) by simp
qed simp

lemma shutdown_begin_inv:
  assumes "pool_inv {} p"
  shows "pool_inv {} (shutdown_begin p)"
proof -
  let ?p = "reject_queue Pool_shutdown (p\<lparr>pp_shuttingDown := True, pp_shutdowns := pp_shutdowns p + 1\<rparr>)"
  have "\<forall>k < length (pp_heap ?p). slot_shape (slot_at ?p k)" "\<forall>h \<in> set (pp_slots p). h < length (pp_heap ?p)"
    using assms by (simp_all add: pool_inv_def pool_ok_def slots_exist_def)
  moreover have "pending_ok ?p" using assms by (simp add: pool_inv_def pending_ok_def)
  ultimately have "\<forall>k < length (pp_heap ?p). slot_shape (slot_at (fold stop_slot (pp_slots p) ?p) k)"
    "pending_ok (fold stop_slot (pp_slots p) ?p)"
    using stop_slots_ok[of ?p "pp_slots p"] by simp_all
  then show ?thesis
    using assms by (simp add: shutdown_begin_def pool_inv_def pool_ok_def no_free_slot_def slots_exist_def)
qed

lemma shutdown_end_inv: "pool_inv {} p \<Longrightarrow> pool_inv {} (shutdown_end p)"
  by (simp add: shutdown_end_def pool_inv_def pool_ok_def pending_ok_def no_free_slot_def slots_exist_def)

lemma pool_step_inv: "pool_inv {} p \<Longrightarrow> pool_inv {} (pool_step p ev)"
proof -
  assume inv: "pool_inv {} p"
  obtain env e where ev: "ev = (env, e)" by fastforce
  show ?thesis
    by (cases e) (simp_all add: ev inv dispatch_inv message_event_inv failure_event_inv restart_event_inv timeout_event_inv
        terminated_event_inv shutdown_begin_inv shutdown_end_inv)
qed

lemma pool_new_inv: "pool_inv {} (pool_new c)"
  by (simp add: pool_inv_def pool_ok_def pending_ok_def no_free_slot_def slots_exist_def pool_new_def)

lemma pool_foldl_inv: "pool_inv {} p \<Longrightarrow> pool_inv {} (foldl pool_step p evs)"
  by (induction evs arbitrary: p) (simp_all add: pool_step_inv)

lemma pool_run_inv: "pool_inv {} (pool_run c evs)"
  unfolding pool_run_def by (rule pool_foldl_inv[OF pool_new_inv])

section \<open>Jobs\<close>

lemma pool_inv_exist: "pool_inv X p \<Longrightarrow> slots_exist p"
  by (simp add: pool_inv_def pool_ok_def)

lemma places_restart_event: "slots_exist p \<Longrightarrow> h < length (pp_heap p) \<Longrightarrow> job_places (fire_restart env h p) = job_places p"
  by (simp add: fire_restart_def places_startSlot places)

lemma places_timeout_event: "h < length (pp_heap p) \<Longrightarrow> job_places (fire_timeout h p) = job_places p"
  by (simp add: fire_timeout_def places split: option.split)

lemma places_terminated_event:
  assumes "slots_exist p" and "fst (pp_terminating p ! k) < length (pp_heap p)"
  shows "job_places (finish_terminate env k p) = job_places p"
proof -
  obtain h what where hw: "pp_terminating p ! k = (h, what)" by fastforce
  let ?q = "set_slot h ((slot_at p h)\<lparr>ws_stopping := False\<rparr>)
    (p\<lparr>pp_terminating := take k (pp_terminating p) @ drop (Suc k) (pp_terminating p)\<rparr>)"
  have q: "job_places ?q = job_places p" "slots_exist ?q" "h < length (pp_heap ?q)"
    using assms hw by (simp_all add: places slots_exist_def)
  then show ?thesis
    using places_startSlot[OF q(2,3)] places_restart[OF q(3)]
    by (simp add: finish_terminate_def hw Let_def split: after_terminate.split)
qed

definition dispatches :: "pool_env \<times> ('i, 'r) pool_event \<Rightarrow> bool" where
  "dispatches ev = (case snd ev of Pe_dispatch inp d \<Rightarrow> True | _ \<Rightarrow> False)"

lemma places_step:
  assumes "slots_exist p"
  shows "job_places (pool_step p ev) = (if dispatches ev then add_mset (pp_dispatched p) (job_places p) else job_places p)"
proof -
  obtain env e where ev: "ev = (env, e)" by fastforce
  show ?thesis
    by (cases e) (simp_all add: ev dispatches_def assms places_dispatch places_message places_failure places_restart_event
        places_timeout_event places_terminated_event places_shutdown shutdown_end_def places)
qed

lemma dispatched_pump: "pp_dispatched (pump env p) = pp_dispatched p"
  using frameD(6)[OF same_frame_pump[OF same_frame_refl]] .

lemma dispatched_startSlot: "pp_dispatched (startSlot env h p) = pp_dispatched p"
  using frameD(6)[OF same_frame_startSlot[OF same_frame_refl]] .

lemma dispatched_step: "pp_dispatched (pool_step p ev) = (if dispatches ev then Suc (pp_dispatched p) else pp_dispatched p)"
proof -
  obtain env e where ev: "ev = (env, e)" by fastforce
  have [simp]: "pp_dispatched (handleWorkerMessage env h g m r p) = pp_dispatched p"
    "pp_dispatched (handleWorkerFailure h g p) = pp_dispatched p" "pp_dispatched (handleActiveJobTimeout h i p) = pp_dispatched p"
    "pp_dispatched (scheduleRestart h p) = pp_dispatched p" for env h g m r i and p :: "('a, 'b) pool"
    by (rule frameD(6)[OF same_frame_message] frameD(6)[OF same_frame_failure] frameD(6)[OF same_frame_timeout]
        frameD(6)[OF same_frame_restart], rule same_frame_refl)+
  show ?thesis
    by (cases e) (simp_all add: ev dispatches_def dispatch_def Let_def dispatched_pump dispatched_ensureStarted dispatched_startSlot
        fire_restart_def fire_timeout_def finish_terminate_def shutdown_begin_def shutdown_end_def
        split: option.split after_terminate.split prod.split)
qed

lemma jobs_accounted:
  "pool_inv {} p \<Longrightarrow> job_places p = mset [0..<pp_dispatched p] \<Longrightarrow>
   job_places (foldl pool_step p evs) = mset [0..<pp_dispatched (foldl pool_step p evs)]"
proof (induction evs arbitrary: p)
  case (Cons ev evs)
  have "job_places (pool_step p ev) = mset [0..<pp_dispatched (pool_step p ev)]"
    using Cons.prems by (simp add: places_step[OF pool_inv_exist] dispatched_step atLeast0_lessThan_Suc)
  then show ?case
    using Cons.IH[OF pool_step_inv[OF Cons.prems(1)]] by simp
qed simp

text \<open>
  C29. Every dispatched job is in one place: over any sequence of dispatches, worker messages, failures,
  timeouts, restarts, terminations and shutdowns (overlapping ones too), each job waits in the queue once, or
  runs on one slot, or its promise was settled once.
\<close>

theorem each_job_in_one_place:
  "mset (map qj_id (pp_queue (pool_run c evs))) + sum_list (map job_of (pp_heap (pool_run c evs)))
     + mset (map fst (pp_settled (pool_run c evs))) = mset [0..<pp_dispatched (pool_run c evs)]"
proof -
  have "job_places (pool_new c :: ('a, 'b) pool) = mset [0..<pp_dispatched (pool_new c :: ('a, 'b) pool)]"
    by (simp add: pool_new_def job_places_def)
  from jobs_accounted[OF pool_new_inv this, of evs] show ?thesis by (simp add: pool_run_def job_places_def)
qed

text \<open>
  C30. The pool never idles with work and never gets stuck: while jobs wait, each slot of
  the pool runs a job or will start again by a timer or the end of a termination.
\<close>

theorem pool_busy_while_jobs_wait:
  assumes "pp_queue (pool_run c evs) \<noteq> []" and "h \<in> set (pp_slots (pool_run c evs))"
  shows "ws_currentJob (slot_at (pool_run c evs) h) \<noteq> None \<or> coming_back (pool_run c evs) h"
proof -
  let ?p = "pool_run c evs" and ?s = "slot_at (pool_run c evs) h"
  have inv: "pool_inv {} ?p" by (rule pool_run_inv)
  then have run: "\<not> pp_shuttingDown ?p" and h: "h < length (pp_heap ?p)" and nf: "\<not> slot_free ?s"
    using assms by (auto simp: pool_inv_def pool_ok_def slots_exist_def no_free_slot_def)
  then have "live_state (ws_state ?s) \<or> coming_back ?p h"
    using inv assms(2) by (auto simp: pool_inv_def pool_ok_def)
  moreover have "ws_currentJob ?s \<noteq> None" if "live_state (ws_state ?s)"
    using that nf pool_inv_shape[OF inv h] by (auto simp: live_state_def slot_shape_def slot_free_def)
  ultimately show ?thesis by blast
qed

text \<open>The sizes of a pool.\<close>

lemma pool_sized_frame: "pool_sized p \<Longrightarrow> same_frame p q \<Longrightarrow> pool_sized q"
  by (auto simp: pool_sized_def same_frame_def)

lemma start_slots_length:
  "length (pp_slots (start_slots env is p)) = length (pp_slots p) + length is \<and>
   pp_config (start_slots env is p) = pp_config p \<and> pp_started (start_slots env is p) = pp_started p \<and>
   length (pp_queue (start_slots env is p)) \<le> length (pp_queue p)"
proof (induction "is" arbitrary: p)
  case (Cons i "is")
  let ?q = "startSlot env (length (pp_heap p)) (push_slot i p)"
  have f: "same_frame (push_slot i p) ?q" by (rule same_frame_startSlot) simp
  have "length (pp_slots ?q) = Suc (length (pp_slots p))" "pp_config ?q = pp_config p" "pp_started ?q = pp_started p"
    "length (pp_queue ?q) \<le> length (pp_queue p)"
    using f by (simp_all add: same_frame_def push_slot_def)
  then show ?case using Cons.IH[of ?q] by simp
qed simp

lemma ensureStarted_sized:
  "pool_sized p \<Longrightarrow> pool_sized (ensureStarted env p) \<and> pp_config (ensureStarted env p) = pp_config p"
  using start_slots_length[of env "[0..<pc_workersTarget (pp_config p)]" "p\<lparr>pp_started := True\<rparr>"]
  by (auto simp: pool_sized_def ensureStarted_def)

lemma pump_sized: "pool_sized p \<Longrightarrow> pool_sized (pump env p)"
  using pool_sized_frame same_frame_pump same_frame_refl by blast

lemma config_pump [simp]: "pp_config (pump env p) = pp_config p"
  by (rule frameD(3)[OF same_frame_pump[OF same_frame_refl]])

lemma dispatch_sized:
  assumes "pool_sized p"
  shows "pool_sized (dispatch env inp d p) \<and> pp_config (dispatch env inp d p) = pp_config p"
proof -
  let ?p = "p\<lparr>pp_dispatched := pp_dispatched p + 1\<rparr>"
  let ?q = "ensureStarted env ?p"
  have sized: "pool_sized ?p" using assms by (simp add: pool_sized_def)
  from ensureStarted_sized[OF this, of env] have q: "pool_sized ?q" "pp_config ?q = pp_config p" by simp_all
  have settled: "pool_sized (settle i out r)" if "pool_sized r" for i out and r :: "('a, 'b) pool"
    using pool_sized_frame[OF that same_frame_settle[OF same_frame_refl]] .
  have "pool_sized (pump env (?q\<lparr>pp_queue := pp_queue ?q @ [j]\<rparr>))"
    if "\<not> int (length (pp_queue ?q)) \<ge> pc_queueCap (pp_config ?q)" for j
    using that q(1) by (intro pump_sized) (auto simp: pool_sized_def)
  then show ?thesis
    using q settled[OF sized] settled[OF q(1)]
    by (simp add: dispatch_def Let_def)
qed

lemma slot_event_frame:
  assumes "\<not> dispatches (env, e)" and "e \<noteq> Pe_shutdown" and "e \<noteq> Pe_shutdown_done"
  shows "same_frame (p\<lparr>pp_terminating := []\<rparr>) (pool_step p (env, e))"
proof -
  have base: "same_frame (p\<lparr>pp_terminating := []\<rparr>) p" "same_frame (p\<lparr>pp_terminating := []\<rparr>) (p\<lparr>pp_terminating := t\<rparr>)" for t
    by (simp_all add: same_frame_def)
  show ?thesis using assms
    by (cases e) (auto simp: dispatches_def fire_restart_def fire_timeout_def finish_terminate_def Let_def pool_frame base
        split: option.split prod.split after_terminate.split)
qed

lemma step_sized:
  assumes "pool_sized p"
  shows "pool_sized (pool_step p ev) \<and> pp_config (pool_step p ev) = pp_config p"
proof -
  obtain env e where ev: "ev = (env, e)" by fastforce
  show ?thesis
  proof (cases "dispatches ev")
    case True
    then show ?thesis using dispatch_sized[OF assms] ev by (cases e) (simp_all add: dispatches_def)
  next
    case False
    show ?thesis
    proof (cases "e = Pe_shutdown \<or> e = Pe_shutdown_done")
      case True
      then show ?thesis
        using assms ev by (auto simp: shutdown_begin_def shutdown_end_def pool_sized_def)
    next
      case no: False
      have "same_frame (p\<lparr>pp_terminating := []\<rparr>) (pool_step p ev)"
        using slot_event_frame[of env e p] False no ev by simp
      moreover have "pool_sized (p\<lparr>pp_terminating := []\<rparr>)" using assms by (simp add: pool_sized_def)
      ultimately show ?thesis using pool_sized_frame by (auto dest: frameD(3))
    qed
  qed
qed

lemma run_sized: "pool_sized p \<Longrightarrow> pool_sized (foldl pool_step p evs) \<and> pp_config (foldl pool_step p evs) = pp_config p"
proof (induction evs arbitrary: p)
  case (Cons ev evs)
  then show ?case using step_sized[OF Cons.prems, of ev] by simp
qed simp

text \<open>
  The pool keeps its limits: whatever is configured and whatever happens, it has from one to four
  slots once it has started (none before), and its queue holds at most the configured number of jobs.
\<close>

theorem pool_within_limits:
  "length (pp_slots (pool_run (pool_constructor o') evs)) \<le> 4 \<and>
   pp_started (pool_run (pool_constructor o') evs) = (pp_slots (pool_run (pool_constructor o') evs) \<noteq> []) \<and>
   int (length (pp_queue (pool_run (pool_constructor o') evs))) \<le> pc_queueCap (pool_constructor o')"
proof -
  let ?c = "pool_constructor o'"
  let ?p = "pool_run ?c evs"
  have "pool_sized (pool_new ?c :: ('a, 'b) pool)" by (simp add: pool_sized_def pool_new_def)
  from run_sized[OF this, of evs] have p: "pool_sized ?p" "pp_config ?p = ?c"
    by (simp_all add: pool_run_def pool_new_def)
  have "1 \<le> pc_workersTarget ?c" "pc_workersTarget ?c \<le> 4"
    by (auto simp: pool_constructor_def clampPreviewReadWorkersTarget_def default_preview_read_workers_target_def
        hard_max_preview_read_workers_def min_preview_read_workers_target_def split: option.split)
  moreover have "0 \<le> pc_queueCap ?c" by (simp add: pool_constructor_def)
  ultimately show ?thesis using p by (auto simp: pool_sized_def)
qed

section \<open>Results reach the job they were read for\<close>

text \<open>Jobs run and resolve under the identity they were posted with, and identities are used once.\<close>

fun result_posted :: "(nat \<times> worker_identity) set \<Rightarrow> nat \<times> 'r job_outcome \<Rightarrow> bool" where
  "result_posted P (i, Job_resolved m r) \<longleftrightarrow> (i, m) \<in> P"
| "result_posted P (i, Job_rejected e) \<longleftrightarrow> True"

lemma result_posted_mono: "result_posted P x \<Longrightarrow> P \<subseteq> Q \<Longrightarrow> result_posted Q x"
  by (cases "(P, x)" rule: result_posted.cases) auto

definition posts_ok :: "('i, 'r) pool \<Rightarrow> bool" where
  "posts_ok p \<longleftrightarrow>
     (\<forall>s \<in> set (pp_heap p). \<forall>a. ws_currentJob s = Some a \<longrightarrow> (qj_id (aj_job a), aj_identity a) \<in> set (pp_posted p)) \<and>
     (\<forall>x \<in> set (pp_settled p). result_posted (set (pp_posted p)) x) \<and>
     distinct (map (\<lambda>x. workerRequestId (snd x)) (pp_posted p)) \<and>
     (\<forall>x \<in> set (pp_posted p). workerRequestId (snd x) < pp_nextWorkerRequestId p)"

named_theorems posts

lemma posts_set:
  assumes "posts_ok p" and "\<And>a. ws_currentJob s = Some a \<Longrightarrow> (qj_id (aj_job a), aj_identity a) \<in> set (pp_posted p)"
  shows "posts_ok (set_slot h s p)"
proof -
  have "(qj_id (aj_job a), aj_identity a) \<in> set (pp_posted p)" if "t \<in> set ((pp_heap p)[h := s])" "ws_currentJob t = Some a" for t a
    using that assms set_update_subset_insert[of "pp_heap p" h s] by (auto simp: posts_ok_def)
  then show ?thesis using assms(1) by (simp add: posts_ok_def)
qed

lemma posts_set_idle [posts]: "posts_ok p \<Longrightarrow> ws_currentJob s = None \<Longrightarrow> posts_ok (set_slot h s p)"
  by (rule posts_set) simp_all

lemma posts_set_same [posts]:
  assumes "posts_ok p" and "ws_currentJob s = ws_currentJob (slot_at p h)"
  shows "posts_ok (set_slot h s p)"
proof (cases "h < length (pp_heap p)")
  case True
  then have "slot_at p h \<in> set (pp_heap p)" by simp
  then show ?thesis using assms by (intro posts_set) (auto simp: posts_ok_def)
qed (use assms(1) in \<open>simp add: set_slot_def list_update_beyond linorder_not_less\<close>)

lemma posts_fields [posts]:
  "posts_ok p \<Longrightarrow> posts_ok (settle i (Job_rejected e) p)"
  "posts_ok p \<Longrightarrow> posts_ok (reject_active a e p)"
  "posts_ok p \<Longrightarrow> posts_ok (reject_queue e p)"
  "posts_ok p \<Longrightarrow> posts_ok (drainQueueIfNoLiveCapacity p)"
  "posts_ok p \<Longrightarrow> posts_ok (terminate_worker h s k p)"
  "posts_ok p \<Longrightarrow> posts_ok (p\<lparr>pp_queue := js\<rparr>)" "posts_ok p \<Longrightarrow> posts_ok (p\<lparr>pp_created := c\<rparr>)"
  "posts_ok p \<Longrightarrow> posts_ok (p\<lparr>pp_started := b\<rparr>)" "posts_ok p \<Longrightarrow> posts_ok (p\<lparr>pp_dispatched := n\<rparr>)"
  "posts_ok p \<Longrightarrow> posts_ok (p\<lparr>pp_terminating := t\<rparr>)" "posts_ok p \<Longrightarrow> posts_ok (p\<lparr>pp_terminated := c\<rparr>)"
  "posts_ok p \<Longrightarrow> posts_ok (p\<lparr>pp_shuttingDown := b, pp_shutdowns := k'\<rparr>)"
  "posts_ok p \<Longrightarrow> posts_ok (shutdown_end p)"
  "posts_ok p \<Longrightarrow> posts_ok (push_slot n p)"
  by (auto simp: posts_ok_def settle_def reject_active_def reject_queue_def drainQueueIfNoLiveCapacity_def terminate_worker_def
      shutdown_end_def push_slot_def new_slot_def image_def split: option.split)

lemma posts_restart [posts]: "posts_ok p \<Longrightarrow> posts_ok (scheduleRestart h p)"
  by (simp add: scheduleRestart_def Let_def posts)

lemma posts_failure [posts]: "posts_ok p \<Longrightarrow> posts_ok (handleWorkerFailure h g p)"
  by (simp add: handleWorkerFailure_def Let_def posts)

lemma posts_timeout [posts]: "posts_ok p \<Longrightarrow> posts_ok (handleActiveJobTimeout h i p)"
  by (simp add: handleActiveJobTimeout_def Let_def posts split: option.split)

lemma posts_active: "posts_ok p \<Longrightarrow> h < length (pp_heap p) \<Longrightarrow> ws_currentJob (slot_at p h) = Some a \<Longrightarrow>
  (qj_id (aj_job a), aj_identity a) \<in> set (pp_posted p)"
  by (auto simp: posts_ok_def)

lemma posts_arm [posts]:
  assumes "posts_ok p" and "h < length (pp_heap p)" and "ws_currentJob (slot_at p h) = Some a"
  shows "posts_ok (armActiveJobTimer env h a p)"
proof -
  have "posts_ok (set_slot h ((slot_at p h)\<lparr>ws_currentJob := Some (a\<lparr>aj_timer := True\<rparr>)\<rparr>) p)"
    by (rule posts_set[OF assms(1)]) (use posts_active[OF assms] in auto)
  then show ?thesis using assms(1) by (simp add: armActiveJobTimer_def posts)
qed

lemma posts_start_job [posts]:
  assumes "posts_ok p" and "h < length (pp_heap p)"
  shows "posts_ok (start_job env h job p)"
proof -
  let ?s = "slot_at p h"
  let ?i = "\<lparr>workerRequestId = pp_nextWorkerRequestId p, workerSlotId = ws_slotId ?s, workerGeneration = ws_generation ?s\<rparr>"
  let ?a = "\<lparr>aj_job = job, aj_identity = ?i, aj_timer = False\<rparr>"
  let ?p = "p\<lparr>pp_nextWorkerRequestId := pp_nextWorkerRequestId p + 1, pp_posted := pp_posted p @ [(qj_id job, ?i)]\<rparr>"
  let ?q = "set_slot h (?s\<lparr>ws_currentJob := Some ?a, ws_state := Slot_busy\<rparr>) ?p"
  have "posts_ok ?p" using assms(1)
    by (auto simp: posts_ok_def less_SucI elim!: result_posted_mono)
  then have q: "posts_ok ?q" by (rule posts_set) simp
  then have "posts_ok (armActiveJobTimer env h ?a ?q)" using assms(2) by (intro posts_arm) simp_all
  moreover have "posts_ok (handleWorkerFailure h (ws_generation ?s) (settle (qj_id job) (Job_rejected Pool_unavailable)
      (set_slot h ((slot_at ?q h)\<lparr>ws_currentJob := None\<rparr>) ?q)))"
    using q by (simp add: posts)
  ultimately show ?thesis using assms(2) by (simp add: start_job_def Let_def)
qed

lemma posts_loop:
  "posts_ok p \<Longrightarrow> slots_exist p \<Longrightarrow> \<forall>h \<in> set hs. h < length (pp_heap p) \<Longrightarrow> posts_ok (pump_loop env hs p)"
proof (induction env hs p rule: pump_loop.induct)
  case (2 env h hs p)
  show ?case
  proof (cases "pp_queue p")
    case (Cons job rest)
    let ?p = "p\<lparr>pp_queue := rest\<rparr>"
    have frame: "same_frame ?p (start_job env h job ?p)" by (rule start_frame)
    then have q: "posts_ok (start_job env h job ?p)" "slots_exist (start_job env h job ?p)"
      "\<forall>k \<in> set hs. k < length (pp_heap (start_job env h job ?p))"
      using "2.prems" posts_start_job[of ?p h env job] slots_exist_frame[of ?p "start_job env h job ?p"] frameD(1)[OF frame]
      by (simp_all add: posts)
    show ?thesis
      using "2.IH"(1)[OF Cons] "2.IH"(2)[OF Cons _ refl] "2.IH"(3)[OF Cons _ refl] q "2.prems"
      by (simp add: Cons Let_def posts) (simp add: slots_exist_def posts)
  qed (use "2.prems" in simp)
qed simp

lemma posts_pump [posts]: "posts_ok p \<Longrightarrow> slots_exist p \<Longrightarrow> posts_ok (pump env p)"
  by (simp add: pump_def posts_loop slots_exist_def)

lemma posts_startSlot [posts]: "posts_ok p \<Longrightarrow> slots_exist p \<Longrightarrow> posts_ok (startSlot env h p)"
  by (simp add: startSlot_def Let_def posts slots_exist_def)

lemma posts_start_slots [posts]: "posts_ok p \<Longrightarrow> slots_exist p \<Longrightarrow> posts_ok (start_slots env is p)"
proof (induction "is" arbitrary: p)
  case (Cons i "is")
  let ?q = "startSlot env (length (pp_heap p)) (push_slot i p)"
  have "slots_exist ?q" using slots_exist_frame[OF same_frame_startSlot[OF same_frame_refl] slots_exist_push[OF Cons.prems(2)]] .
  then show ?case using Cons by (simp add: posts slots_exist_push)
qed simp

lemma posts_dispatch [posts]:
  assumes "posts_ok p" and "slots_exist p"
  shows "posts_ok (dispatch env inp d p)"
proof -
  let ?q = "ensureStarted env (p\<lparr>pp_dispatched := pp_dispatched p + 1\<rparr>)"
  have "posts_ok ?q" "slots_exist ?q"
    using assms places_ensureStarted[of "p\<lparr>pp_dispatched := pp_dispatched p + 1\<rparr>" env]
    by (simp_all add: ensureStarted_def posts slots_exist_def)
  then show ?thesis using assms by (simp add: dispatch_def Let_def posts)
qed

lemma posts_message [posts]:
  assumes "posts_ok p" and "slots_exist p" and "h < length (pp_heap p)"
  shows "posts_ok (handleWorkerMessage env h g m r p)"
proof (cases "ws_currentJob (slot_at p h)")
  case (Some a)
  let ?s = "(slot_at p h)\<lparr>ws_currentJob := None, ws_state := Slot_idle, ws_jobCount := ws_jobCount (slot_at p h) + 1, ws_crashStreak := 0\<rparr>"
  let ?q = "settle (qj_id (aj_job a)) (Job_resolved m r) (set_slot h ?s p)"
  have "posts_ok ?q" if "isPreviewReadWorkerResultFor m (aj_identity a)"
  proof -
    have "m = aj_identity a" using that by (simp add: isPreviewReadWorkerResultFor_def)
    then have "(qj_id (aj_job a), m) \<in> set (pp_posted p)" using posts_active[OF assms(1,3) Some] by simp
    moreover have "posts_ok (set_slot h ?s p)" using assms(1) by (simp add: posts)
    ultimately show ?thesis by (simp add: posts_ok_def settle_def)
  qed
  then show ?thesis
    using assms Some by (simp add: handleWorkerMessage_def Let_def recycleSlot_def posts split: option.split)
qed (simp add: handleWorkerMessage_def Let_def assms)

lemma posts_stop [posts]: "posts_ok p \<Longrightarrow> posts_ok (fold stop_slot hs p)"
proof (induction hs arbitrary: p)
  case (Cons h hs)
  have "posts_ok (stop_slot h p)" using Cons.prems by (simp add: stop_slot_def Let_def posts)
  then show ?case using Cons.IH by simp
qed simp

lemma posts_step:
  assumes "posts_ok p" and "slots_exist p"
  shows "posts_ok (pool_step p ev)"
proof -
  obtain env e where ev: "ev = (env, e)" by fastforce
  show ?thesis
    using assms by (cases e) (simp_all add: ev posts fire_restart_def fire_timeout_def finish_terminate_def shutdown_begin_def
        Let_def slots_exist_def split: option.split prod.split after_terminate.split)
qed

lemma posts_foldl: "posts_ok p \<Longrightarrow> pool_inv {} p \<Longrightarrow> posts_ok (foldl pool_step p evs)"
proof (induction evs arbitrary: p)
  case (Cons ev evs)
  then show ?case
    using Cons.IH[OF posts_step[OF Cons.prems(1) pool_inv_exist[OF Cons.prems(2)]] pool_step_inv[OF Cons.prems(2)]] by simp
qed simp

lemma filter_one: "distinct xs \<Longrightarrow> a \<in> set xs \<Longrightarrow> filter (\<lambda>x. x = a) xs = [a]"
  by (induction xs) (auto simp: filter_empty_conv)

lemma distinct_map_inj: "distinct (map f xs) \<Longrightarrow> x \<in> set xs \<Longrightarrow> y \<in> set xs \<Longrightarrow> f x = f y \<Longrightarrow> x = y"
  by (auto simp: distinct_map inj_on_def)

text \<open>
  No result reaches a wrong job: a promise resolves only with a message that carries the identity under
  which exactly this job was posted to a worker; late answers of timed-out, crashed or recycled
  workers never settle another job.
\<close>

theorem result_reaches_its_job:
  assumes "(i, Job_resolved m r) \<in> set (pp_settled (pool_run c evs))"
  shows "(i, m) \<in> set (pp_posted (pool_run c evs)) \<and>
    filter (\<lambda>(j, m'). workerRequestId m' = workerRequestId m) (pp_posted (pool_run c evs)) = [(i, m)]"
proof -
  let ?p = "pool_run c evs"
  have "posts_ok (pool_new c :: ('b, 'a) pool)" by (simp add: posts_ok_def pool_new_def)
  from posts_foldl[OF this pool_new_inv, of evs] have ok: "posts_ok ?p" by (simp add: pool_run_def)
  then have posted: "(i, m) \<in> set (pp_posted ?p)" using assms by (fastforce simp: posts_ok_def)
  have dist: "distinct (map (\<lambda>x. workerRequestId (snd x)) (pp_posted ?p))" using ok by (simp add: posts_ok_def)
  have "filter (\<lambda>(j, m'). workerRequestId m' = workerRequestId m) (pp_posted ?p) = filter (\<lambda>x. x = (i, m)) (pp_posted ?p)"
    using distinct_map_inj[OF dist _ posted] by (intro filter_cong refl) auto
  also have "\<dots> = [(i, m)]"
    using dist posted by (intro filter_one) (simp_all add: distinct_map)
  finally show ?thesis using posted by simp
qed

section \<open>Examples\<close>

text \<open>An environment in which everything works, at a time.\<close>

definition env_ok :: "int \<Rightarrow> pool_env" where
  "env_ok now = \<lparr>pe_now = now, pe_createWorker = \<lambda>_ _. True, pe_postMessage = \<lambda>_. True\<rparr>"

definition one_worker :: pool_options where
  "one_worker = \<lparr>po_workersTarget = Some 1, po_queueCap = None, po_restartBackoffMs = None, po_activeJobTimeoutMs = None,
     po_workerRecycleJobCount = Some (Some 1)\<rparr>"

definition two_jobs :: "(pool_env \<times> (nat, nat) pool_event) list" where
  "two_jobs = [(env_ok 0, Pe_dispatch 10 None), (env_ok 1, Pe_dispatch 11 None)]"

definition first_done :: "(pool_env \<times> (nat, nat) pool_event) list" where
  "first_done = two_jobs @ [(env_ok 2, Pe_message 0 1 \<lparr>workerRequestId = 1, workerSlotId = 1, workerGeneration = 1\<rparr> 77)]"

theorem pool_busy_while_jobs_wait_witness:
  "coming_back (pool_run (pool_constructor one_worker) first_done) 0 \<and>
   getQueueDepth (pool_run (pool_constructor one_worker) first_done) = 1"
proof
  let ?p = "pool_run (pool_constructor one_worker) first_done"
  have "pp_queue ?p \<noteq> []" "0 \<in> set (pp_slots ?p)" "ws_currentJob (slot_at ?p 0) = None" by code_simp+
  then show "coming_back ?p 0" using pool_busy_while_jobs_wait[of "pool_constructor one_worker" first_done 0] by simp
  show "getQueueDepth ?p = 1" by code_simp
qed

theorem result_reaches_its_job_witness:
  "(0, \<lparr>workerRequestId = 1, workerSlotId = 1, workerGeneration = 1\<rparr>) \<in> set (pp_posted (pool_run (pool_constructor one_worker) first_done))"
proof (rule result_reaches_its_job[THEN conjunct1, of 0 _ 77])
  show "(0, Job_resolved \<lparr>workerRequestId = 1, workerSlotId = 1, workerGeneration = 1\<rparr> 77)
    \<in> set (pp_settled (pool_run (pool_constructor one_worker) first_done))"
    by code_simp
qed

section \<open>A slot that the pool no longer has\<close>

named_theorems aside_rules

text \<open>A slot outside of the array, as \<open>x\<close> and with \<open>t\<close> terminations of its workers so far.\<close>

definition aside :: "nat \<Rightarrow> 'i worker_slot \<Rightarrow> nat \<Rightarrow> ('i, 'r) pool \<Rightarrow> bool" where
  "aside h x t p \<longleftrightarrow> h < length (pp_heap p) \<and> slot_at p h = x \<and> h \<notin> set (pp_slots p) \<and>
     h \<notin> fst ` set (pp_terminating p) \<and> length (filter (\<lambda>(j, g). j = h) (pp_terminated p)) = t"

lemma aside_set [aside_rules]: "aside h x t p \<Longrightarrow> j \<noteq> h \<Longrightarrow> aside h x t (set_slot j s p)"
  by (simp add: aside_def)

lemma aside_fields [aside_rules]:
  "aside h x t p \<Longrightarrow> aside h x t (settle i out p)" "aside h x t p \<Longrightarrow> aside h x t (reject_active a e p)"
  "aside h x t p \<Longrightarrow> aside h x t (reject_queue e p)" "aside h x t p \<Longrightarrow> aside h x t (drainQueueIfNoLiveCapacity p)"
  "aside h x t p \<Longrightarrow> aside h x t (p\<lparr>pp_queue := q\<rparr>)" "aside h x t p \<Longrightarrow> aside h x t (p\<lparr>pp_created := c\<rparr>)"
  "aside h x t p \<Longrightarrow> aside h x t (p\<lparr>pp_dispatched := n\<rparr>)" "aside h x t p \<Longrightarrow> aside h x t (p\<lparr>pp_started := b\<rparr>)"
  "aside h x t p \<Longrightarrow> aside h x t (p\<lparr>pp_nextWorkerRequestId := n, pp_posted := l\<rparr>)"
  "aside h x t p \<Longrightarrow> aside h x t (p\<lparr>pp_shuttingDown := b, pp_shutdowns := n\<rparr>)"
  "aside h x t p \<Longrightarrow> aside h x t (shutdown_end p)"
  by (auto simp: aside_def settle_def reject_active_def reject_queue_def drainQueueIfNoLiveCapacity_def shutdown_end_def
      split: option.split)

lemma aside_restart [aside_rules]: "aside h x t p \<Longrightarrow> j \<noteq> h \<Longrightarrow> aside h x t (scheduleRestart j p)"
  by (simp add: scheduleRestart_def Let_def aside_rules)

lemma aside_failure [aside_rules]: "aside h x t p \<Longrightarrow> j \<noteq> h \<Longrightarrow> aside h x t (handleWorkerFailure j g p)"
  by (simp add: handleWorkerFailure_def Let_def aside_rules)

lemma aside_terminate [aside_rules]: "aside h x t p \<Longrightarrow> j \<noteq> h \<Longrightarrow> aside h x t (terminate_worker j s k p)"
  by (auto simp: terminate_worker_def aside_def)

lemma aside_timeout [aside_rules]: "aside h x t p \<Longrightarrow> j \<noteq> h \<Longrightarrow> aside h x t (handleActiveJobTimeout j i p)"
  by (simp add: handleActiveJobTimeout_def Let_def aside_rules split: option.split)

lemma aside_start_job [aside_rules]: "aside h x t p \<Longrightarrow> j \<noteq> h \<Longrightarrow> aside h x t (start_job env j job p)"
  by (simp add: start_job_def armActiveJobTimer_def Let_def aside_rules)

lemma aside_slots: "aside h x t p \<Longrightarrow> h \<notin> set (pp_slots p)"
  by (simp add: aside_def)

lemma aside_loop: "aside h x t p \<Longrightarrow> h \<notin> set hs \<Longrightarrow> aside h x t (pump_loop env hs p)"
proof (induction env hs p rule: pump_loop.induct)
  case (2 env j hs p)
  show ?case
  proof (cases "pp_queue p")
    case (Cons job rest)
    have q: "aside h x t (p\<lparr>pp_queue := rest\<rparr>)" using 2(4) by (rule aside_rules)
    have s: "aside h x t (settle (qj_id job) (Job_rejected Pool_timeout) (p\<lparr>pp_queue := rest\<rparr>))" using q by (rule aside_rules)
    have "j \<noteq> h" using 2(5) by auto
    then show ?thesis
      using 2(1)[OF Cons] 2(2)[OF Cons _ refl _ refl] 2(3)[OF Cons _ refl] 2(4,5) s aside_slots[OF s] aside_start_job[OF q, of j env job]
      by (simp add: Cons Let_def)
  qed (use 2 in simp)
qed simp

lemma aside_pump [aside_rules]: "aside h x t p \<Longrightarrow> aside h x t (pump env p)"
  using aside_loop[of h x t p "pp_slots p" env] aside_slots[of h x t p] by (simp add: pump_def)

lemma aside_startSlot [aside_rules]: "aside h x t p \<Longrightarrow> j \<noteq> h \<Longrightarrow> aside h x t (startSlot env j p)"
  by (simp add: startSlot_def Let_def aside_rules)

lemma aside_start_slots: "aside h x t p \<Longrightarrow> aside h x t (start_slots env is p)"
proof (induction "is" arbitrary: p)
  case (Cons i "is")
  have "aside h x t (push_slot i p)" "length (pp_heap p) \<noteq> h" using Cons.prems by (auto simp: aside_def push_slot_def nth_append)
  then show ?case using Cons.IH by (simp add: aside_rules)
qed simp

lemma aside_dispatch [aside_rules]: "aside h x t p \<Longrightarrow> aside h x t (dispatch env inp d p)"
  by (simp add: dispatch_def ensureStarted_def Let_def aside_rules aside_start_slots)

lemma aside_message [aside_rules]: "aside h x t p \<Longrightarrow> j \<noteq> h \<Longrightarrow> aside h x t (handleWorkerMessage env j g m r p)"
  by (simp add: handleWorkerMessage_def recycleSlot_def Let_def aside_rules split: option.split)

lemma aside_stop: "aside h x t p \<Longrightarrow> h \<notin> set hs \<Longrightarrow> aside h x t (fold stop_slot hs p)"
proof (induction hs arbitrary: p)
  case (Cons j hs)
  let ?s = "slot_at p j"
  have "aside h x t (reject_active (ws_currentJob ?s) Pool_shutdown (set_slot j (?s\<lparr>ws_restartTimer := None, ws_currentJob := None,
      ws_worker := False, ws_state := Slot_dead, ws_stopping := True\<rparr>) p))"
    using Cons.prems by (intro aside_rules) auto
  then have "aside h x t (stop_slot j p)" using Cons.prems(2) by (auto simp: stop_slot_def Let_def aside_def)
  then show ?case using Cons by simp
qed simp

lemma aside_shutdown [aside_rules]: "aside h x t p \<Longrightarrow> aside h x t (shutdown_begin p)"
  using aside_stop[of h x t "reject_queue Pool_shutdown (p\<lparr>pp_shuttingDown := True, pp_shutdowns := pp_shutdowns p + 1\<rparr>)" "pp_slots p"]
  by (simp add: shutdown_begin_def aside_rules aside_slots)

lemma aside_finish [aside_rules]: "aside h x t p \<Longrightarrow> k < length (pp_terminating p) \<Longrightarrow> aside h x t (finish_terminate env k p)"
proof -
  assume a: "aside h x t p" and k: "k < length (pp_terminating p)"
  obtain j what where jw: "pp_terminating p ! k = (j, what)" by fastforce
  have j: "j \<noteq> h" using a k jw unfolding aside_def by (metis fst_conv image_eqI nth_mem)
  have "aside h x t (p\<lparr>pp_terminating := take k (pp_terminating p) @ drop (Suc k) (pp_terminating p)\<rparr>)"
    using a unfolding aside_def by (auto dest: in_set_takeD in_set_dropD)
  then show ?thesis using j by (simp add: finish_terminate_def jw Let_def aside_rules split: after_terminate.split)
qed

text \<open>The slot's own worker fails, which is the only event that reaches the slot again.\<close>

fun fails :: "nat \<Rightarrow> ('i, 'r) pool_event \<Rightarrow> bool" where
  "fails h (Pe_failure j g) \<longleftrightarrow> j = h"
| "fails h _ \<longleftrightarrow> False"

lemma aside_step:
  assumes "aside h x t p" and "slot_free x" and "ws_restartTimer x = None" and "\<not> fails h ev"
  shows "aside h x t (pool_step p (env, ev))"
proof (cases ev)
  case (Pe_message j g m r)
  have "handleWorkerMessage env h g m r p = p" using assms(1,2) by (simp add: handleWorkerMessage_def aside_def slot_free_def Let_def)
  then show ?thesis using assms(1) by (cases "j = h") (simp_all add: Pe_message aside_rules)
next
  case (Pe_restart j)
  have "fire_restart env h p = p" using assms(1,3) by (simp add: fire_restart_def aside_def)
  then show ?thesis using assms(1) by (cases "j = h") (simp_all add: Pe_restart fire_restart_def aside_rules)
next
  case (Pe_timeout j)
  have "fire_timeout h p = p" using assms(1,2) by (simp add: fire_timeout_def aside_def slot_free_def)
  then show ?thesis
    using assms(1) by (cases "j = h") (simp_all add: Pe_timeout fire_timeout_def aside_rules split: option.split)
qed (use assms in \<open>simp_all add: aside_rules\<close>)

lemma aside_steps:
  "aside h x t p \<Longrightarrow> slot_free x \<Longrightarrow> ws_restartTimer x = None \<Longrightarrow> list_all (\<lambda>(env, ev). \<not> fails h ev) evs \<Longrightarrow>
   aside h x t (foldl pool_step p evs)"
  by (induction evs arbitrary: p) (auto simp: aside_step)

text \<open>The termination of a recycled worker ends when the pool no longer has the slot: a new worker starts.\<close>

lemma recycled_outside:
  assumes inv: "pool_inv {} p" and k: "k < length (pp_terminating p)" "pp_terminating p ! k = (h, After_recycle)"
    and out: "h \<notin> set (pp_slots p)" and up: "\<not> pp_shuttingDown p"
    and w: "pe_createWorker env (ws_slotId (slot_at p h)) (ws_generation (slot_at p h) + 1)"
  shows "\<exists>x. aside h x (length (filter (\<lambda>(j, g). j = h) (pp_terminated p))) (pool_step p (env, Pe_terminated k)) \<and>
    slot_free x \<and> ws_restartTimer x = None \<and> ws_generation x = ws_generation (slot_at p h) + 1"
proof -
  have pend: "pending_ok p" using inv by (simp add: pool_inv_def)
  have mem: "h \<in> fst ` set (pp_terminating p)" using k by (metis fst_conv image_eqI nth_mem)
  then have h: "h < length (pp_heap p)" and aw: "awaits_end (slot_at p h)" using pend by (auto simp: pending_ok_def)
  have st: "stopped_slot (slot_at p h)" using awaits_stopped[OF pool_inv_shape[OF inv h] aw] .
  let ?T = "take k (pp_terminating p) @ drop (Suc k) (pp_terminating p)"
  let ?s = "(slot_at p h)\<lparr>ws_restartTimer := None, ws_generation := ws_generation (slot_at p h) + 1, ws_stopping := False,
      ws_worker := True, ws_state := Slot_idle\<rparr>"
  let ?q = "set_slot h ((slot_at p h)\<lparr>ws_stopping := False\<rparr>) (p\<lparr>pp_terminating := ?T\<rparr>)"
  let ?r = "set_slot h ?s (?q\<lparr>pp_created := pp_created ?q @ [(h, ws_generation ?s)]\<rparr>)"
  have "h \<notin> fst ` set ?T" using remove_nth_facts(3)[OF k(1)] pend k(2) by (simp add: pending_ok_def)
  then have "aside h ?s (length (filter (\<lambda>(j, g). j = h) (pp_terminated p))) ?r"
    using h out by (simp add: aside_def)
  then have a: "aside h ?s (length (filter (\<lambda>(j, g). j = h) (pp_terminated p))) (pump env ?r)" by (rule aside_pump)
  have "pool_step p (env, Pe_terminated k) = pump env ?r"
    using k h w up by (simp add: finish_terminate_def startSlot_def Let_def)
  then show ?thesis using a st by (intro exI[of _ ?s]) (simp add: slot_free_def stopped_slot_def)
qed

text \<open>
  C31. A pool that shuts down while a worker is being recycled starts a worker that nobody can stop: take any history
  after which a recycled worker's termination is under way, let the pool shut down and then the termination end.
  A new worker is then created for a slot that the pool no longer has, and whatever happens later, other shutdowns
  included, as long as that worker does not fail by itself, it stays alive and is never terminated.
\<close>

theorem orphan_worker_after_shutdown:
  fixes e1 e2 env :: pool_env
  assumes "k < length (pp_terminating (pool_run c evs))" and "pp_terminating (pool_run c evs) ! k = (h, After_recycle)"
    and "list_all (\<lambda>(env, ev). \<not> fails h ev) later" and "\<And>i g. pe_createWorker env i g"
  defines "p \<equiv> pool_run c (evs @ [(e1, Pe_shutdown), (e2, Pe_shutdown_done)])"
  defines "q \<equiv> pool_run c (evs @ [(e1, Pe_shutdown), (e2, Pe_shutdown_done), (env, Pe_terminated k)] @ later)"
  shows "ws_worker (slot_at q h) \<and> ws_state (slot_at q h) = Slot_idle \<and>
    ws_generation (slot_at q h) = ws_generation (slot_at p h) + 1 \<and> h \<notin> set (pp_slots q) \<and>
    length (filter (\<lambda>(j, g). j = h) (pp_terminated q)) = length (filter (\<lambda>(j, g). j = h) (pp_terminated p))"
proof -
  have sd: "pp_shutdowns (fold stop_slot hs r) = pp_shutdowns r" for hs and r :: "('a, 'b) pool"
    by (induction hs arbitrary: r) (simp_all add: stop_slot_def Let_def reject_active_def settle_def split: option.split)
  have p: "p = shutdown_end (shutdown_begin (pool_run c evs))"
    by (simp add: p_def pool_run_def shutdown_begin_def sd reject_queue_def)
  have T: "pp_terminating p = pp_terminating (pool_run c evs)"
    by (simp add: p shutdown_end_def shutdown_begin_def)
  have inv: "pool_inv {} p" unfolding p_def by (rule pool_run_inv)
  have "h \<notin> set (pp_slots p)" "\<not> pp_shuttingDown p" by (simp_all add: p shutdown_end_def)
  then obtain x where x: "aside h x (length (filter (\<lambda>(j, g). j = h) (pp_terminated p))) (pool_step p (env, Pe_terminated k))"
      "slot_free x" "ws_restartTimer x = None" "ws_generation x = ws_generation (slot_at p h) + 1"
    using recycled_outside[OF inv, of k h env] assms(1,2,4) by (auto simp: T)
  have q: "q = foldl pool_step (pool_step p (env, Pe_terminated k)) later"
    by (simp add: q_def p_def pool_run_def)
  have "aside h x (length (filter (\<lambda>(j, g). j = h) (pp_terminated p))) q"
    unfolding q by (rule aside_steps[OF x(1-3) assms(3)])
  then show ?thesis using x by (simp add: aside_def slot_free_def)
qed

theorem orphan_worker_after_shutdown_witness:
  "ws_worker (slot_at (pool_run (pool_constructor one_worker)
     (first_done @ [(env_ok 3, Pe_shutdown), (env_ok 4, Pe_shutdown_done), (env_ok 5, Pe_terminated 0)] @
      [(env_ok 6, Pe_shutdown), (env_ok 7, Pe_shutdown_done)])) 0)"
proof -
  have "pp_terminating (pool_run (pool_constructor one_worker) first_done) = [(0, After_recycle)]" by code_simp
  then show ?thesis
    using orphan_worker_after_shutdown[where k = 0 and c = "pool_constructor one_worker" and evs = first_done and h = 0
        and later = "[(env_ok 6, Pe_shutdown), (env_ok 7, Pe_shutdown_done)]" and env = "env_ok 5" and ?e1.0 = "env_ok 3" and ?e2.0 = "env_ok 4"]
    by (simp add: env_ok_def)
qed

text \<open>
  The delay before a restart doubles with each crash of a streak, up to the ceiling: the limit of twenty
  doublings is never what bounds it.
\<close>

theorem restart_delay_doubles:
  assumes "1 \<le> pc_restartBackoffMs c" and "1 \<le> streak"
  shows "restartDelayFor c streak = min (pc_restartBackoffMs c * 2 ^ nat (streak - 1)) 60000"
proof (cases "streak - 1 \<le> 20")
  case True
  then show ?thesis using assms(2) by (simp add: restartDelayFor_def Let_def max_preview_read_worker_restart_backoff_ms_def)
next
  case False
  have big: "60000 \<le> pc_restartBackoffMs c * 2 ^ n" if "20 \<le> n" for n :: nat
  proof -
    have "(2::int) ^ 20 \<le> 2 ^ n" using that by (intro power_increasing) simp_all
    then have "60000 \<le> 1 * (2::int) ^ n" by simp
    also have "\<dots> \<le> pc_restartBackoffMs c * 2 ^ n" using assms(1) by (intro mult_right_mono) simp_all
    finally show ?thesis .
  qed
  have "20 \<le> nat (streak - 1)" using False by simp
  then show ?thesis
    using False big[of 20] big[of "nat (streak - 1)"]
    by (simp add: restartDelayFor_def Let_def max_preview_read_worker_restart_backoff_ms_def min_def)
qed

theorem restart_delay_doubles_witness:
  "restartDelayFor (pool_constructor one_worker) 4 = 2000"
  using restart_delay_doubles[of "pool_constructor one_worker" 4]
  by (simp add: pool_constructor_def one_worker_def default_preview_read_worker_restart_backoff_ms_def)

end
