(* ===== verification/PreviewAdmission.thy ===== *)
theory PreviewAdmission
  imports PreviewPool Complex_Main
begin

text \<open>
  Admission of preview reads, \<open>src/src/daemon/file-preview-read-admission.ts\<close>: how long a new read
  would wait, from the median of the last durations, against what the deadline leaves.  Durations are
  rationals; a duration that is not finite is \<open>None\<close>.
\<close>

definition default_preview_read_deadline_ms :: int where "default_preview_read_deadline_ms = 18000"
definition default_preview_read_safety_margin_ms :: int where "default_preview_read_safety_margin_ms = 2000"
definition default_preview_read_t_estimate_ms :: int where "default_preview_read_t_estimate_ms = 1500"
definition default_preview_read_estimate_sample_size :: int where "default_preview_read_estimate_sample_size = 16"
definition default_preview_read_attached_cap :: int where "default_preview_read_attached_cap = 32"

record admission_options =
  ado_workersTarget :: "int option"
  ado_queueCap :: "int option"
  ado_attachedCap :: "int option"
  ado_deadlineMs :: "int option"
  ado_safetyMarginMs :: "int option"
  ado_tEstimateMs :: "int option"
  ado_estimateSampleSize :: "int option"

record admission_controller =
  adm_workersTarget :: int
  adm_queueCap :: int
  adm_attachedCap :: int
  adm_deadlineMs :: int
  adm_safetyMarginMs :: int
  adm_estimateSampleSize :: int
  adm_completed :: "rat list"
  adm_seeded :: int

datatype admission_reject_reason = Reject_queue_cap | Reject_projected_wait

record admission_decision =
  ad_admitted :: bool
  ad_projectedWaitMs :: rat
  ad_projectedTotalMs :: rat
  ad_availableBudgetMs :: int
  ad_reason :: "admission_reject_reason option"

definition admission_new :: "admission_options \<Rightarrow> admission_controller" where
  "admission_new options =
    \<lparr>adm_workersTarget = clampPreviewReadWorkersTarget
       (Some (opt_default default_preview_read_workers_target (ado_workersTarget options))),
     adm_queueCap = max 0 (opt_default default_preview_read_pool_queue_cap (ado_queueCap options)),
     adm_attachedCap = max 1 (opt_default default_preview_read_attached_cap (ado_attachedCap options)),
     adm_deadlineMs = max 1 (opt_default default_preview_read_deadline_ms (ado_deadlineMs options)),
     adm_safetyMarginMs = max 0 (opt_default default_preview_read_safety_margin_ms (ado_safetyMarginMs options)),
     adm_estimateSampleSize = max 1 (opt_default default_preview_read_estimate_sample_size (ado_estimateSampleSize options)),
     adm_completed = [],
     adm_seeded = max 1 (opt_default default_preview_read_t_estimate_ms (ado_tEstimateMs options))\<rparr>"

definition tEstimateMs :: "admission_controller \<Rightarrow> rat" where
  "tEstimateMs a =
    (if adm_completed a = [] then of_int (adm_seeded a)
     else
       let sorted = sort (adm_completed a);
           mid = length sorted div 2
       in if length sorted mod 2 = 1 then sorted ! mid else (sorted ! (mid - 1) + sorted ! mid) / 2)"

definition setTestEstimateMs :: "int \<Rightarrow> admission_controller \<Rightarrow> admission_controller" where
  "setTestEstimateMs v a = a\<lparr>adm_completed := [], adm_seeded := max 1 v\<rparr>"

text \<open>The loop of \<open>shift\<close>: drops from the front until the length fits.\<close>

fun shift_to :: "int \<Rightarrow> 'a list \<Rightarrow> 'a list" where
  "shift_to n [] = []"
| "shift_to n (x # xs) = (if int (length (x # xs)) > n then shift_to n xs else x # xs)"

definition recordJobDuration :: "rat option \<Rightarrow> admission_controller \<Rightarrow> admission_controller" where
  "recordJobDuration durationMs a =
    (case durationMs of
       None \<Rightarrow> a
     | Some d \<Rightarrow> if d < 0 then a
         else a\<lparr>adm_completed := shift_to (adm_estimateSampleSize a) (adm_completed a @ [d])\<rparr>)"

definition admission_decide :: "int \<Rightarrow> admission_controller \<Rightarrow> admission_decision" where
  "admission_decide queueDepth a =
    (let boundedQueueDepth = max 0 queueDepth;
         projectedWaitMs = (of_int boundedQueueDepth + 1) * tEstimateMs a / of_int (adm_workersTarget a);
         projectedTotalMs = projectedWaitMs + tEstimateMs a;
         availableBudgetMs = adm_deadlineMs a - adm_safetyMarginMs a;
         d = \<lparr>ad_admitted = False, ad_projectedWaitMs = projectedWaitMs, ad_projectedTotalMs = projectedTotalMs,
              ad_availableBudgetMs = availableBudgetMs, ad_reason = None\<rparr>
     in if boundedQueueDepth \<ge> adm_queueCap a then d\<lparr>ad_reason := Some Reject_queue_cap\<rparr>
        else if projectedTotalMs > of_int availableBudgetMs then d\<lparr>ad_reason := Some Reject_projected_wait\<rparr>
        else d\<lparr>ad_admitted := True\<rparr>)"

definition deadlineFromNow :: "int \<Rightarrow> admission_controller \<Rightarrow> int \<times> int" where
  "deadlineFromNow now a = (now, now + adm_deadlineMs a)"

section \<open>The samples\<close>

definition valid_durations :: "rat option list \<Rightarrow> rat list" where
  "valid_durations ds = filter (\<lambda>d. 0 \<le> d) (List.map_filter (\<lambda>d. d) ds)"

definition last_of :: "int \<Rightarrow> 'a list \<Rightarrow> 'a list" where
  "last_of n xs = drop (length xs - nat n) xs"

lemma shift_to_last: "shift_to n xs = last_of n xs"
proof (induction xs)
  case (Cons x xs)
  show ?case
  proof (cases "int (length (x # xs)) > n")
    case True
    then have "length (x # xs) - nat n = Suc (length xs - nat n)" by auto
    then show ?thesis using True Cons by (simp add: last_of_def)
  next
    case False
    then have "length (x # xs) - nat n = 0" by auto
    then show ?thesis using False unfolding last_of_def by simp
  qed
qed (simp add: last_of_def)

lemma last_of_snoc: "1 \<le> n \<Longrightarrow> last_of n (last_of n xs @ [x]) = last_of n (xs @ [x])"
proof (cases "nat n \<le> length xs")
  case True
  assume "1 \<le> n"
  then have "last_of n (last_of n xs @ [x]) = drop 1 (drop (length xs - nat n) xs) @ [x]"
    using True by (simp add: last_of_def)
  also have "\<dots> = last_of n (xs @ [x])"
    using True \<open>1 \<le> n\<close> by (simp add: last_of_def Suc_diff_le)
  finally show ?thesis .
qed (simp add: last_of_def)

lemma record_fields:
  "adm_estimateSampleSize (recordJobDuration d a) = adm_estimateSampleSize a"
  "adm_workersTarget (recordJobDuration d a) = adm_workersTarget a" "adm_seeded (recordJobDuration d a) = adm_seeded a"
  by (simp_all add: recordJobDuration_def split: option.split)

text \<open>
  The estimate looks at the last samples only: whatever durations are reported, the controller holds the
  latest valid ones, as many as its sample size.
\<close>

theorem samples_are_latest:
  "adm_completed (foldl (\<lambda>a d. recordJobDuration d a) (admission_new options) ds)
   = last_of (adm_estimateSampleSize (admission_new options)) (valid_durations ds)"
proof (induction ds rule: rev_induct)
  case Nil
  then show ?case by (simp add: admission_new_def last_of_def valid_durations_def map_filter_def)
next
  case (snoc d ds)
  let ?a = "foldl (\<lambda>a d. recordJobDuration d a) (admission_new options) ds"
  have size: "adm_estimateSampleSize ?a = adm_estimateSampleSize (admission_new options)"
    by (induction ds rule: rev_induct) (simp_all add: record_fields)
  have one: "1 \<le> adm_estimateSampleSize (admission_new options)" by (simp add: admission_new_def)
  have "adm_completed (recordJobDuration d ?a) = last_of (adm_estimateSampleSize (admission_new options)) (valid_durations (ds @ [d]))"
  proof (cases d)
    case None
    then show ?thesis using snoc.IH by (simp add: recordJobDuration_def valid_durations_def map_filter_def)
  next
    case (Some v)
    have "adm_completed (recordJobDuration d ?a) =
        (if v < 0 then adm_completed ?a else last_of (adm_estimateSampleSize ?a) (adm_completed ?a @ [v]))"
      by (simp add: recordJobDuration_def Some shift_to_last)
    then show ?thesis
      unfolding size snoc.IH using Some by (simp add: last_of_snoc[OF one] valid_durations_def map_filter_def)
  qed
  then show ?case by simp
qed

section \<open>The estimate\<close>

lemma nth_sort_bounds:
  assumes "\<forall>x \<in> set xs. lo \<le> x \<and> x \<le> hi" and "k < length xs"
  shows "lo \<le> sort xs ! k" "sort xs ! k \<le> hi"
  using assms by (metis length_sort nth_mem set_sort)+

lemma average_bounds: "lo \<le> x \<Longrightarrow> x \<le> hi \<Longrightarrow> lo \<le> y \<Longrightarrow> y \<le> (hi::rat) \<Longrightarrow> lo \<le> (x + y) / 2 \<and> (x + y) / 2 \<le> hi"
  by (simp add: field_simps)

lemma estimate_bounds:
  assumes "\<forall>x \<in> set (adm_completed a). lo \<le> x \<and> x \<le> hi" and "adm_completed a \<noteq> []"
  shows "lo \<le> tEstimateMs a \<and> tEstimateMs a \<le> hi"
proof -
  let ?n = "length (adm_completed a)"
  have n: "0 < ?n" using assms(2) by simp
  have m1: "?n div 2 < ?n" using n by simp
  note m = m1 less_imp_diff_less[OF m1, of 1]
  show ?thesis
    using assms(2) nth_sort_bounds[OF assms(1) m(1)] nth_sort_bounds[OF assms(1) m(2)]
      average_bounds[of lo "sort (adm_completed a) ! (?n div 2 - 1)" hi "sort (adm_completed a) ! (?n div 2)"]
    unfolding tEstimateMs_def Let_def by (simp add: length_sort del: One_nat_def)
qed

definition admission_ok :: "admission_controller \<Rightarrow> bool" where
  "admission_ok a \<longleftrightarrow> 1 \<le> adm_workersTarget a \<and> 1 \<le> adm_seeded a \<and> (\<forall>x \<in> set (adm_completed a). 0 \<le> x)"

lemma estimate_nonneg: "admission_ok a \<Longrightarrow> 0 \<le> tEstimateMs a"
proof (cases "adm_completed a = []")
  case False
  assume ok: "admission_ok a"
  have "0 \<le> x \<and> x \<le> Max (set (adm_completed a))" if "x \<in> set (adm_completed a)" for x
    using ok that by (simp add: admission_ok_def)
  then show ?thesis using estimate_bounds[of a 0] False by blast
qed (simp add: tEstimateMs_def admission_ok_def)

lemma admission_ok_new: "admission_ok (admission_new options)"
  by (simp add: admission_ok_def admission_new_def clampPreviewReadWorkersTarget_def
      hard_max_preview_read_workers_def min_preview_read_workers_target_def)

lemma set_last_of: "set (last_of n xs) \<subseteq> set xs"
  by (simp add: last_of_def set_drop_subset)

lemma admission_ok_record: "admission_ok a \<Longrightarrow> admission_ok (recordJobDuration d a)"
  by (auto simp: admission_ok_def recordJobDuration_def shift_to_last split: option.split dest!: subsetD[OF set_last_of])

lemma admission_ok_run: "admission_ok (foldl (\<lambda>a d. recordJobDuration d a) (admission_new options) ds)"
  by (induction ds rule: rev_induct) (simp_all add: admission_ok_new admission_ok_record)

text \<open>
  Admission is monotone: a read that would be admitted behind a queue is admitted behind any shorter one,
  and its wait is projected no longer.
\<close>

theorem admission_monotone:
  assumes "a = foldl (\<lambda>a d. recordJobDuration d a) (admission_new options) ds"
    and "ad_admitted (admission_decide q a)" and "q' \<le> q"
  shows "ad_admitted (admission_decide q' a) \<and> ad_projectedTotalMs (admission_decide q' a) \<le> ad_projectedTotalMs (admission_decide q a)"
proof -
  have ok: "admission_ok a" using assms(1) admission_ok_run by simp
  have "(of_int (max 0 q') + 1) * tEstimateMs a / of_int (adm_workersTarget a)
      \<le> (of_int (max 0 q) + 1) * tEstimateMs a / of_int (adm_workersTarget a)"
    using ok assms(3) estimate_nonneg[OF ok] by (intro divide_right_mono mult_right_mono) (auto simp: admission_ok_def)
  then show ?thesis
    using assms(2,3) by (auto simp: admission_decide_def Let_def split: if_splits)
qed

definition default_options :: admission_options where
  "default_options = \<lparr>ado_workersTarget = None, ado_queueCap = None, ado_attachedCap = None, ado_deadlineMs = None,
     ado_safetyMarginMs = None, ado_tEstimateMs = None, ado_estimateSampleSize = None\<rparr>"

text \<open>With the defaults, before any duration is known, the projected wait limits the queue to 18 reads, not the cap of 32.\<close>

lemma default_admission: "ad_admitted (admission_decide q (admission_new default_options)) \<longleftrightarrow> q \<le> 18"
proof -
  have small: "(55 < 3 * (of_int m :: rat)) = (55 < 3 * m)" for m :: int
    by (metis of_int_less_iff of_int_mult of_int_numeral)
  have total: "((of_int m + 1) * 1500 / 2 + 1500 > (16000 :: rat)) = (55 < 3 * (of_int m :: rat))" for m :: int
    by (simp add: field_simps)
  have "ad_admitted (admission_decide q (admission_new default_options)) \<longleftrightarrow>
      max 0 q < 32 \<and> \<not> (of_int (max 0 q) + 1) * 1500 / 2 + 1500 > (16000 :: rat)"
    by (simp del: of_int_max add: admission_decide_def admission_new_def default_options_def Let_def tEstimateMs_def
        clampPreviewReadWorkersTarget_def default_preview_read_workers_target_def hard_max_preview_read_workers_def
        min_preview_read_workers_target_def default_preview_read_pool_queue_cap_def default_preview_read_deadline_ms_def
        default_preview_read_safety_margin_ms_def default_preview_read_t_estimate_ms_def) auto
  then show ?thesis unfolding total small by auto
qed

theorem admission_monotone_witness:
  "ad_admitted (admission_decide 3 (foldl (\<lambda>a d. recordJobDuration d a) (admission_new default_options) []))"
  using admission_monotone[of "admission_new default_options" default_options "[]" 18 3] by (simp add: default_admission)

end
