(* ===== verification/PreviewFiles.thy ===== *)
theory PreviewFiles
  imports JsValue Complex_Main
begin

text \<open>
  What the daemon may preview and how: the functions of Node's \<open>path.posix\<close> that the code uses, the path policy
  of \<open>src/src/daemon/file-preview-path-policy.ts\<close>, the classes of files of \<open>file-preview-classifier.ts\<close> and the
  error codes of \<open>shared/fs-read-error-codes.ts\<close>.  The path functions of Windows are a parameter.
\<close>

section \<open>Paths\<close>

text \<open>
  \<open>path.posix\<close>: a path is split at its slashes; empty and dot segments go, a double dot takes the segment before
  it, or stays where the path may go above its start.
\<close>

definition push_seg :: "bool \<Rightarrow> string list \<Rightarrow> string \<Rightarrow> string list" where
  "push_seg up acc s =
    (if s = [] \<or> s = ''.'' then acc
     else if s = ''..'' then
       (if acc \<noteq> [] \<and> last acc \<noteq> ''..'' then butlast acc else if up then acc @ [s] else acc)
     else acc @ [s])"

definition path_segs :: "bool \<Rightarrow> string \<Rightarrow> string list" where
  "path_segs up p = foldl (push_seg up) [] (js_split CHR ''/'' p)"

definition is_absolute :: "string \<Rightarrow> bool" where
  "is_absolute p \<longleftrightarrow> starts_with p ''/''"

definition ends_with_char :: "char \<Rightarrow> string \<Rightarrow> bool" where
  "ends_with_char c p \<longleftrightarrow> p \<noteq> [] \<and> last p = c"

definition posix_normalize :: "string \<Rightarrow> string" where
  "posix_normalize p =
    (if p = [] then ''.''
     else
       let body = js_join ''/'' (path_segs (\<not> is_absolute p) p);
           trailing = ends_with_char CHR ''/'' p
       in if body = [] then (if is_absolute p then ''/'' else if trailing then ''./'' else ''.'')
          else (if is_absolute p then ''/'' else []) @ body @ (if trailing then ''/'' else []))"

definition posix_join :: "string list \<Rightarrow> string" where
  "posix_join ps = (let ps = filter (\<lambda>p. p \<noteq> []) ps in if ps = [] then ''.'' else posix_normalize (js_join ''/'' ps))"

text \<open>\<open>resolve(...ps)\<close>: from the right to the first absolute path, or to the working directory.\<close>

fun resolve_from :: "string \<Rightarrow> string list \<Rightarrow> string" where
  "resolve_from acc [] = acc"
| "resolve_from acc (p # ps) =
     (if is_absolute acc then acc
      else if p = [] then resolve_from acc ps
      else resolve_from (p @ ''/'' @ acc) ps)"

definition posix_resolve :: "string \<Rightarrow> string list \<Rightarrow> string" where
  "posix_resolve cwd ps =
    (let p = resolve_from [] (rev ps @ [cwd]);
         body = js_join ''/'' (path_segs (\<not> is_absolute p) p)
     in if is_absolute p then ''/'' @ body else if body = [] then ''.'' else body)"

text \<open>The last segment, without the slashes at the end, and its extension.\<close>

definition posix_basename :: "string \<Rightarrow> string" where
  "posix_basename p = rev (takeWhile (\<lambda>c. c \<noteq> CHR ''/'') (dropWhile (\<lambda>c. c = CHR ''/'') (rev p)))"

definition posix_extname :: "string \<Rightarrow> string" where
  "posix_extname p =
    (let b = posix_basename p;
         after = rev (takeWhile (\<lambda>c. c \<noteq> CHR ''.'') (rev b))
     in if after = b \<or> length after + 1 = length b \<or> b = ''..'' then [] else CHR ''.'' # after)"

section \<open>Path policy\<close>

text \<open>The functions of a platform's \<open>path\<close> module; those of Windows are an argument of the policy.\<close>

record platform_path =
  pth_join :: "string list \<Rightarrow> string"
  pth_normalize :: "string \<Rightarrow> string"
  pth_isAbsolute :: "string \<Rightarrow> bool"
  pth_resolve :: "string list \<Rightarrow> string"
  pth_root :: "string \<Rightarrow> string"

definition posix_path :: "string \<Rightarrow> platform_path" where
  "posix_path cwd = \<lparr>pth_join = posix_join, pth_normalize = posix_normalize, pth_isAbsolute = is_absolute,
     pth_resolve = posix_resolve cwd, pth_root = (\<lambda>p. if is_absolute p then ''/'' else [])\<rparr>"

record policy_options =
  pol_platform :: string
  pol_homedir :: string
  pol_cwd :: string
  pol_win32 :: platform_path

definition file_preview_denied_home_dirs :: "string list" where
  "file_preview_denied_home_dirs = [''.ssh'', ''.gnupg'', ''.pki'']"

definition getPlatformPath :: "policy_options \<Rightarrow> platform_path" where
  "getPlatformPath opts = (if pol_platform opts = ''win32'' then pol_win32 opts else posix_path (pol_cwd opts))"

definition isCaseInsensitiveFilePreviewPlatform :: "string \<Rightarrow> bool" where
  "isCaseInsensitiveFilePreviewPlatform platform \<longleftrightarrow> platform = ''win32'' \<or> platform = ''darwin''"

definition expandFilePreviewPath :: "policy_options \<Rightarrow> string \<Rightarrow> string" where
  "expandFilePreviewPath opts rawPath =
    (if rawPath = ''~'' then pol_homedir opts
     else if starts_with rawPath ''~/'' \<or> starts_with rawPath [CHR ''~'', CHR 0x5C] then
       pth_join (getPlatformPath opts) [pol_homedir opts, drop 2 rawPath]
     else rawPath)"

definition resolvePlatformPath :: "policy_options \<Rightarrow> string \<Rightarrow> string" where
  "resolvePlatformPath opts targetPath =
    (let path = getPlatformPath opts in
     if pth_isAbsolute path targetPath then pth_normalize path targetPath
     else pth_resolve path [pol_cwd opts, targetPath])"

definition is_separator :: "char \<Rightarrow> bool" where
  "is_separator c \<longleftrightarrow> c = CHR ''/'' \<or> c = CHR 0x5C"

text \<open>The loop of \<open>stripTrailingSeparators\<close>, on the reversed path, for a root of a given length.\<close>

fun strip_rev :: "nat \<Rightarrow> string \<Rightarrow> string" where
  "strip_rev n [] = []"
| "strip_rev n (c # cs) = (if length (c # cs) > n \<and> is_separator c then strip_rev n cs else c # cs)"

definition stripTrailingSeparators :: "platform_path \<Rightarrow> string \<Rightarrow> string" where
  "stripTrailingSeparators path v = rev (strip_rev (length (pth_root path v)) (rev v))"

definition normalizeForPolicy :: "policy_options \<Rightarrow> string \<Rightarrow> string" where
  "normalizeForPolicy opts v =
    (let path = getPlatformPath opts; normalized = stripTrailingSeparators path (pth_normalize path v)
     in if isCaseInsensitiveFilePreviewPlatform (pol_platform opts) then js_lower normalized else normalized)"

definition isSameOrInside :: "policy_options \<Rightarrow> string \<Rightarrow> string \<Rightarrow> bool" where
  "isSameOrInside opts base candidate =
    (let normalizedRoot = normalizeForPolicy opts base;
         normalizedCandidate = normalizeForPolicy opts candidate;
         separator = (if pol_platform opts = ''win32'' then CHR 0x5C else CHR ''/'')
     in normalizedCandidate = normalizedRoot \<or> starts_with normalizedCandidate (normalizedRoot @ [separator]))"

definition getDeniedSensitivePathPrefixes :: "policy_options \<Rightarrow> string list" where
  "getDeniedSensitivePathPrefixes opts = map (\<lambda>d. pth_join (getPlatformPath opts) [pol_homedir opts, d]) file_preview_denied_home_dirs"

definition isFilePreviewPathAllowed :: "policy_options \<Rightarrow> string \<Rightarrow> bool" where
  "isFilePreviewPathAllowed opts realPath =
    list_all (\<lambda>d. \<not> isSameOrInside opts (pth_join (getPlatformPath opts) [pol_homedir opts, d]) realPath) file_preview_denied_home_dirs"

definition asValidatedRealPath :: "policy_options \<Rightarrow> string \<Rightarrow> string option" where
  "asValidatedRealPath opts realPath = (if isFilePreviewPathAllowed opts realPath then Some realPath else None)"

text \<open>An error of a file system call: its code and its message, in lower case.\<close>

record fs_error =
  fse_code :: "string option"
  fse_message :: string

definition isWindowsLenientRealpathFallbackError :: "fs_error \<Rightarrow> bool" where
  "isWindowsLenientRealpathFallbackError e =
    (if \<not> list_ex (js_includes (js_lower (fse_message e)))
         [''reparse'', ''junction'', ''symlink'', ''symbolic link'', ''too many levels''] then False
     else case fse_code e of None \<Rightarrow> True
       | Some c \<Rightarrow> c = [] \<or> c \<in> {''EINVAL'', ''ELOOP''} \<or> c = ''UNKNOWN'')"

datatype canonical_mode = Mode_strict | Mode_lenient

record canonical_path =
  cp_rawPath :: string
  cp_expandedPath :: string
  cp_resolvedPath :: string
  cp_realPath :: string
  cp_usedFallback :: bool
  cp_validatedRealPath :: "string option"

definition getValidatedRealPath :: "canonical_path option \<Rightarrow> string option" where
  "getValidatedRealPath result =
    (case result of None \<Rightarrow> None | Some r \<Rightarrow> if cp_usedFallback r then None else cp_validatedRealPath r)"

definition resolveCanonical ::
  "(string \<Rightarrow> fs_error + string) \<Rightarrow> policy_options \<Rightarrow> canonical_mode \<Rightarrow> string \<Rightarrow> canonical_path option" where
  "resolveCanonical realpath opts mode rawPath =
    (if rawPath = [] then None
     else
       let expandedPath = expandFilePreviewPath opts rawPath;
           resolvedPath = resolvePlatformPath opts expandedPath
       in case realpath resolvedPath of
            Inr realPath \<Rightarrow>
              if \<not> isFilePreviewPathAllowed opts realPath then None
              else Some \<lparr>cp_rawPath = rawPath, cp_expandedPath = expandedPath, cp_resolvedPath = resolvedPath,
                cp_realPath = realPath, cp_usedFallback = False, cp_validatedRealPath = Some realPath\<rparr>
          | Inl e \<Rightarrow>
              if mode \<noteq> Mode_lenient \<or> pol_platform opts \<noteq> ''win32'' \<or> \<not> isWindowsLenientRealpathFallbackError e then None
              else if \<not> isFilePreviewPathAllowed opts resolvedPath then None
              else Some \<lparr>cp_rawPath = rawPath, cp_expandedPath = expandedPath, cp_resolvedPath = resolvedPath,
                cp_realPath = resolvedPath, cp_usedFallback = True, cp_validatedRealPath = None\<rparr>)"

section \<open>Error codes\<close>

definition fs_generic_error_code_values :: "string list" where
  "fs_generic_error_code_values =
    [''forbidden_path'', ''file_too_large'', ''fs_list_timeout'', ''worker_queue_full'', ''worker_timeout'',
     ''worker_unavailable'', ''invalid_request'', ''internal_error'', ''parent_not_found'']"

definition fs_read_error_code_values :: "string list" where
  "fs_read_error_code_values =
    [''binary_file'', ''is_directory'', ''forbidden_path'', ''file_too_large'', ''fs_list_timeout'',
     ''preview_worker_queue_full'', ''preview_worker_timeout'', ''preview_worker_unavailable'',
     ''preview_worker_crashed'', ''preview_bridge_timeout'', ''stale_read'', ''invalid_request'', ''internal_error'',
     ''parent_not_found'']"

definition fs_read_preview_reason_values :: "string list" where
  "fs_read_preview_reason_values = [''too_large'', ''binary'', ''unknown_type'']"

definition isFsGenericErrorCode :: "json \<Rightarrow> bool" where
  "isFsGenericErrorCode v = (case v of JStr s \<Rightarrow> s \<in> set fs_generic_error_code_values | _ \<Rightarrow> False)"

definition isFsReadErrorCode :: "json \<Rightarrow> bool" where
  "isFsReadErrorCode v = (case v of JStr s \<Rightarrow> s \<in> set fs_read_error_code_values | _ \<Rightarrow> False)"

definition isFsReadPreviewReason :: "json \<Rightarrow> bool" where
  "isFsReadPreviewReason v = (case v of JStr s \<Rightarrow> s \<in> set fs_read_preview_reason_values | _ \<Rightarrow> False)"

section \<open>Classes of files\<close>

definition fs_read_size_limit :: int where "fs_read_size_limit = 100 * 1024 * 1024"
definition fs_read_inline_size_limit :: int where "fs_read_inline_size_limit = 2 * 1024 * 1024"
definition binary_detection_sample_bytes :: int where "binary_detection_sample_bytes = 8192"

definition image_mime_by_extension :: "(string \<times> string) list" where
  "image_mime_by_extension =
    [(''png'', ''image/png''), (''jpg'', ''image/jpeg''), (''jpeg'', ''image/jpeg''), (''gif'', ''image/gif''),
     (''webp'', ''image/webp''), (''ico'', ''image/x-icon''), (''bmp'', ''image/bmp''),
     (''svg'', ''image/svg+xml'')]"

definition office_mime_by_extension :: "(string \<times> string) list" where
  "office_mime_by_extension =
    [(''pdf'', ''application/pdf''),
     (''docx'', ''application/vnd.openxmlformats-officedocument.wordprocessingml.document''),
     (''xlsx'', ''application/vnd.openxmlformats-officedocument.spreadsheetml.sheet'')]"

definition video_mime_by_extension :: "(string \<times> string) list" where
  "video_mime_by_extension =
    [(''mp4'', ''video/mp4''), (''m4v'', ''video/mp4''), (''mov'', ''video/quicktime''),
     (''webm'', ''video/webm''), (''ogv'', ''video/ogg''), (''mkv'', ''video/x-matroska''),
     (''avi'', ''video/x-msvideo'')]"

definition audio_mime_by_extension :: "(string \<times> string) list" where
  "audio_mime_by_extension =
    [(''mp3'', ''audio/mpeg''), (''wav'', ''audio/wav''), (''m4a'', ''audio/mp4''), (''aac'', ''audio/aac''),
     (''flac'', ''audio/flac''), (''ogg'', ''audio/ogg''), (''oga'', ''audio/ogg''), (''opus'', ''audio/ogg''),
     (''weba'', ''audio/webm'')]"

definition text_mime_by_extension :: "(string \<times> string) list" where
  "text_mime_by_extension =
    [(''ts'', ''text/typescript''), (''tsx'', ''text/typescript''), (''js'', ''text/javascript''),
     (''jsx'', ''text/javascript''), (''mjs'', ''text/javascript''), (''cjs'', ''text/javascript''),
     (''json'', ''application/json''), (''md'', ''text/markdown''), (''txt'', ''text/plain''),
     (''html'', ''text/html''), (''css'', ''text/css''), (''xml'', ''text/xml''), (''yaml'', ''text/yaml''),
     (''yml'', ''text/yaml''), (''toml'', ''text/toml''), (''sh'', ''text/x-shellscript''),
     (''py'', ''text/x-python''), (''rb'', ''text/x-ruby''), (''go'', ''text/x-go''), (''rs'', ''text/x-rust''),
     (''java'', ''text/x-java''), (''kt'', ''text/x-kotlin''), (''swift'', ''text/x-swift''),
     (''c'', ''text/x-c''), (''cpp'', ''text/x-c++''), (''h'', ''text/x-c''), (''hpp'', ''text/x-c++''),
     (''sql'', ''text/x-sql''), (''lua'', ''text/x-lua'')]"

text \<open>The spread of the tables: a later one would win.\<close>

definition preview_mime_by_extension :: "(string \<times> string) list" where
  "preview_mime_by_extension = audio_mime_by_extension @ video_mime_by_extension @ office_mime_by_extension @
     image_mime_by_extension @ text_mime_by_extension"

text \<open>
  A table is an object literal, so reading a member that it does not have finds the members that every object
  inherits.
\<close>

datatype mime_value = Mime string | Inherited string

definition object_prototype_members :: "string list" where
  "object_prototype_members =
    [''constructor'', ''__proto__'', ''hasOwnProperty'', ''isPrototypeOf'', ''propertyIsEnumerable'', ''toLocaleString'',
     ''toString'', ''valueOf'', ''__defineGetter__'', ''__defineSetter__'', ''__lookupGetter__'', ''__lookupSetter__'']"

definition mime_lookup :: "(string \<times> string) list \<Rightarrow> string \<Rightarrow> mime_value option" where
  "mime_lookup table extension =
    (case map_of table extension of
       Some m \<Rightarrow> Some (Mime m)
     | None \<Rightarrow> if extension \<in> set object_prototype_members then Some (Inherited extension) else None)"

datatype preview_kind = Kind_text | Kind_image | Kind_office | Kind_video | Kind_audio | Kind_too_large | Kind_unknown

record file_classification =
  fc_previewKind :: preview_kind
  fc_extension :: string
  fc_size :: int
  fc_sizeLimitBytes :: int
  fc_mimeType :: "mime_value option"
  fc_previewMode :: "string option"
  fc_previewReason :: "string option"

definition getFileExtension :: "string \<Rightarrow> string" where
  "getFileExtension filePath =
    (let ext = js_lower (posix_extname filePath) in if starts_with ext ''.'' then drop 1 ext else ext)"

definition lookupPreviewMimeByExtension :: "string \<Rightarrow> mime_value option" where
  "lookupPreviewMimeByExtension extension =
    mime_lookup preview_mime_by_extension
      (if starts_with extension ''.'' then js_lower (drop 1 extension) else js_lower extension)"

definition lookupPreviewMimeType :: "string \<Rightarrow> mime_value option" where
  "lookupPreviewMimeType filePath = lookupPreviewMimeByExtension (getFileExtension filePath)"

definition classifyPreviewByPath :: "string \<Rightarrow> int \<Rightarrow> file_classification" where
  "classifyPreviewByPath filePath bytes =
    (let extension = getFileExtension filePath;
         imageMime = mime_lookup image_mime_by_extension extension;
         officeMime = mime_lookup office_mime_by_extension extension;
         videoMime = mime_lookup video_mime_by_extension extension;
         audioMime = mime_lookup audio_mime_by_extension extension;
         textMime = mime_lookup text_mime_by_extension extension;
         mimeType = opt_or imageMime (opt_or officeMime (opt_or videoMime (opt_or audioMime textMime)));
         streamed = (\<lambda>kind mime. \<lparr>fc_previewKind = kind, fc_extension = extension, fc_size = bytes,
           fc_sizeLimitBytes = fs_read_size_limit, fc_mimeType = mime, fc_previewMode = Some ''stream'',
           fc_previewReason = None\<rparr>)
     in if videoMime \<noteq> None then streamed Kind_video videoMime
        else if audioMime \<noteq> None then streamed Kind_audio audioMime
        else if imageMime \<noteq> None then streamed Kind_image imageMime
        else if officeMime \<noteq> None then streamed Kind_office officeMime
        else if bytes > fs_read_inline_size_limit then
          \<lparr>fc_previewKind = Kind_too_large, fc_extension = extension, fc_size = bytes,
           fc_sizeLimitBytes = fs_read_inline_size_limit, fc_mimeType = mimeType, fc_previewMode = None,
           fc_previewReason = Some ''too_large''\<rparr>
        else \<lparr>fc_previewKind = Kind_text, fc_extension = extension, fc_size = bytes,
           fc_sizeLimitBytes = fs_read_inline_size_limit, fc_mimeType = textMime, fc_previewMode = None,
           fc_previewReason = None\<rparr>)"

definition classifyFile :: "string \<Rightarrow> int \<Rightarrow> file_classification" where
  "classifyFile realPath bytes = classifyPreviewByPath realPath bytes"

definition sampleBytesForBinaryDetection :: "int \<Rightarrow> string \<Rightarrow> string" where
  "sampleBytesForBinaryDetection maxBytes bytes = take (nat (max 0 maxBytes)) bytes"

definition isBinaryDetectionSample :: "string \<Rightarrow> bool" where
  "isBinaryDetectionSample sample \<longleftrightarrow> CHR 0x00 \<in> set sample"

definition isLikelyBinaryBuffer :: "string \<Rightarrow> bool" where
  "isLikelyBinaryBuffer bytes \<longleftrightarrow> isBinaryDetectionSample (sampleBytesForBinaryDetection binary_detection_sample_bytes bytes)"

text \<open>A time of modification need not be whole; how JavaScript writes it is an argument.\<close>

definition createFileSignature :: "(rat \<Rightarrow> string) \<Rightarrow> rat \<Rightarrow> int \<Rightarrow> string" where
  "createFileSignature num_str mtimeMs bytes = num_str mtimeMs @ '':'' @ int_str bytes"

section \<open>Normal paths\<close>

text \<open>The segments of an absolute path: no empty or dot segments, no double dots, no slashes.\<close>

definition clean_seg :: "string \<Rightarrow> bool" where
  "clean_seg s \<longleftrightarrow> s \<noteq> [] \<and> s \<noteq> ''.'' \<and> s \<noteq> ''..'' \<and> CHR ''/'' \<notin> set s"

definition plain_path :: "string list \<Rightarrow> string" where
  "plain_path ss = ''/'' @ js_join ''/'' ss"

lemma push_seg_clean:
  "CHR ''/'' \<notin> set s \<Longrightarrow> list_all clean_seg acc \<Longrightarrow> list_all clean_seg (push_seg False acc s)"
  by (auto simp: push_seg_def clean_seg_def list_all_iff dest: in_set_butlastD)

lemma path_segs_clean: "list_all clean_seg (path_segs False p)"
proof -
  have "list_all clean_seg (foldl (push_seg False) acc ps)"
    if "list_all clean_seg acc" "\<And>s. s \<in> set ps \<Longrightarrow> CHR ''/'' \<notin> set s" for ps acc
    using that by (induction ps arbitrary: acc) (simp_all add: push_seg_clean)
  then show ?thesis unfolding path_segs_def using js_split_no_sep by (metis list.pred_inject(1))
qed

lemma foldl_clean: "list_all clean_seg ss \<Longrightarrow> foldl (push_seg False) acc ss = acc @ ss"
  by (induction ss arbitrary: acc) (simp_all add: push_seg_def clean_seg_def)

lemma path_segs_plain:
  assumes "list_all clean_seg ss"
  shows "path_segs False (plain_path ss) = ss"
proof (cases "ss = []")
  case True
  then show ?thesis by (simp add: plain_path_def path_segs_def push_seg_def)
next
  case False
  then have "js_split CHR ''/'' (js_join ''/'' ss) = ss"
    using assms by (intro js_split_join) (auto simp: list_all_iff clean_seg_def)
  then show ?thesis using foldl_clean[OF assms, of "[]"] by (simp add: plain_path_def path_segs_def push_seg_def)
qed

lemma js_join_snoc: "ss \<noteq> [] \<Longrightarrow> js_join sep (ss @ [t]) = js_join sep ss @ sep @ t"
proof (induction ss)
  case (Cons a ss)
  then show ?case by (cases "ss = []") (simp_all add: js_join_Cons)
qed simp

lemma plain_path_snoc: "plain_path (ss @ [t]) = (if ss = [] then ''/'' else plain_path ss @ ''/'') @ t"
  by (simp add: plain_path_def js_join_snoc)

lemma js_join_append: "ss \<noteq> [] \<Longrightarrow> ts \<noteq> [] \<Longrightarrow> js_join sep (ss @ ts) = js_join sep ss @ sep @ js_join sep ts"
proof (induction ss)
  case (Cons a ss)
  then show ?case by (cases "ss = []") (simp_all add: js_join_Cons)
qed simp

lemma plain_path_append: "ss \<noteq> [] \<Longrightarrow> plain_path (ss @ ts) = plain_path ss @ (if ts = [] then [] else plain_path ts)"
  by (simp add: plain_path_def js_join_append)

lemma last_plain: "ss \<noteq> [] \<Longrightarrow> last ss \<noteq> [] \<Longrightarrow> last (plain_path ss) = last (last ss)"
  by (cases ss rule: rev_cases) (auto simp: plain_path_snoc)

lemma js_join_nil: "list_all clean_seg ss \<Longrightarrow> js_join ''/'' ss = [] \<longleftrightarrow> ss = []"
  by (cases ss) (auto simp: clean_seg_def js_join_Cons dest: js_join.elims)

lemma normalize_absolute:
  assumes "is_absolute p"
  shows "posix_normalize p = plain_path (path_segs False p) @
    (if path_segs False p \<noteq> [] \<and> ends_with_char CHR ''/'' p then ''/'' else [])"
proof -
  have "p \<noteq> []" using assms by (auto simp: is_absolute_def)
  then show ?thesis using assms js_join_nil[OF path_segs_clean, of p]
    by (auto simp: posix_normalize_def plain_path_def Let_def)
qed

lemma split_append_slash: "js_split c (p @ c # q) = js_split c p @ js_split c q"
proof (induction p)
  case (Cons d p)
  then show ?case by (cases "js_split c p") auto
qed simp

text \<open>Joining a directory with a name of one segment.\<close>

lemma join_dir:
  assumes "is_absolute h" and "clean_seg d"
  shows "posix_join [h, d] = plain_path (path_segs False h @ [d])"
proof -
  have ne: "h \<noteq> []" "d \<noteq> []" using assms by (auto simp: is_absolute_def clean_seg_def)
  have "path_segs False (h @ ''/'' @ d) = path_segs False h @ [d]"
    using assms(2) by (simp add: path_segs_def split_append_slash js_split_single clean_seg_def push_seg_def)
  moreover have "is_absolute (h @ ''/'' @ d)" using assms(1) ne(1) by (cases h) (auto simp: is_absolute_def)
  moreover have "\<not> ends_with_char CHR ''/'' (h @ ''/'' @ d)"
  proof -
    have "last d \<noteq> CHR ''/''" using assms(2) last_in_set[OF ne(2)] unfolding clean_seg_def by force
    then show ?thesis using ne(2) by (simp add: ends_with_char_def)
  qed
  ultimately show ?thesis using ne by (simp add: posix_join_def normalize_absolute)
qed

section \<open>Trailing separators\<close>

text \<open>The separators at the end go, but nothing of a part that does not end with one.\<close>

lemma strip_rev_keeps:
  assumes "cs = [] \<or> \<not> is_separator (hd cs)"
  shows "\<exists>k. strip_rev n (ds @ cs) = drop k ds @ cs"
proof (induction ds)
  case Nil
  have "strip_rev n cs = cs" using assms by (cases cs) auto
  then show ?case by simp
next
  case (Cons d ds)
  show ?case
  proof (cases "length ((d # ds) @ cs) > n \<and> is_separator d")
    case True
    then obtain k where "strip_rev n (ds @ cs) = drop k ds @ cs" using Cons.IH by blast
    then have "strip_rev n ((d # ds) @ cs) = drop (Suc k) (d # ds) @ cs" using True by simp
    then show ?thesis by blast
  next
    case False
    then have "strip_rev n ((d # ds) @ cs) = drop 0 (d # ds) @ cs" by auto
    then show ?thesis by blast
  qed
qed

lemma strip_keeps:
  assumes "a = [] \<or> \<not> is_separator (last a)"
  shows "\<exists>k. stripTrailingSeparators path (a @ w) = a @ take k w"
proof -
  have "rev a = [] \<or> \<not> is_separator (hd (rev a))" using assms by (simp add: hd_rev)
  then obtain k where "strip_rev (length (pth_root path (a @ w))) (rev w @ rev a) = drop k (rev w) @ rev a"
    using strip_rev_keeps by blast
  then have "stripTrailingSeparators path (a @ w) = a @ take (length w - k) w"
    by (simp add: stripTrailingSeparators_def rev_drop)
  then show ?thesis by blast
qed

lemma strip_fixed: "a = [] \<or> \<not> is_separator (last a) \<Longrightarrow> stripTrailingSeparators path a = a"
  using strip_keeps[of a path "[]"] by simp

section \<open>The policy is containment of directories\<close>

definition fold_case :: "policy_options \<Rightarrow> string \<Rightarrow> string" where
  "fold_case opts s = (if isCaseInsensitiveFilePreviewPlatform (pol_platform opts) then js_lower s else s)"

text \<open>A path lies in a directory: its segments begin with those of the directory.\<close>

definition lies_in :: "policy_options \<Rightarrow> string list \<Rightarrow> string \<Rightarrow> bool" where
  "lies_in opts dir p \<longleftrightarrow> prefix (map (fold_case opts) dir) (map (fold_case opts) (path_segs False p))"

definition denied_dirs :: "policy_options \<Rightarrow> string list list" where
  "denied_dirs opts = map (\<lambda>d. path_segs False (pol_homedir opts) @ [d]) file_preview_denied_home_dirs"

lemma fold_case_length [simp]: "length (fold_case opts s) = length s"
  by (simp add: fold_case_def)

lemma fold_case_append [simp]: "fold_case opts (s @ t) = fold_case opts s @ fold_case opts t"
  by (simp add: fold_case_def)

lemma fold_case_nil [simp]: "fold_case opts s = [] \<longleftrightarrow> s = []" "fold_case opts [] = []"
  by (simp_all add: fold_case_def)

lemma char_lower_separator: "is_separator (char_lower c) = is_separator c"
proof (cases "is_upper c")
  case True
  then have "char_code (char_lower c) = char_code c + 32" "65 \<le> char_code c" "char_code c \<le> 90"
    by (auto simp: char_lower_def is_upper_def char_between_def of_char_of)
  then show ?thesis by (auto simp: is_separator_def)
qed (simp add: char_lower_def)

lemma char_lower_slash: "char_lower c = CHR ''/'' \<Longrightarrow> c = CHR ''/''"
proof (cases "is_upper c")
  case True
  then have "char_code (char_lower c) = char_code c + 32" "65 \<le> char_code c" "char_code c \<le> 90"
    by (auto simp: char_lower_def is_upper_def char_between_def of_char_of)
  moreover assume "char_lower c = CHR ''/''"
  ultimately show ?thesis by auto
qed (simp add: char_lower_def)

lemma slash_in_fold: "CHR ''/'' \<in> set (fold_case opts s) \<Longrightarrow> CHR ''/'' \<in> set s"
proof (cases "isCaseInsensitiveFilePreviewPlatform (pol_platform opts)")
  case True
  assume "CHR ''/'' \<in> set (fold_case opts s)"
  then obtain c where "c \<in> set s" "CHR ''/'' = char_lower c" using True unfolding fold_case_def by auto
  then show ?thesis using char_lower_slash by metis
qed (simp add: fold_case_def)

lemma fold_case_slash [simp]: "fold_case opts ''/'' = ''/''" "fold_case opts (CHR ''/'' # s) = CHR ''/'' # fold_case opts s"
  by (simp_all add: fold_case_def char_lower_def is_upper_def char_between_def)

lemma fold_case_plain: "fold_case opts (plain_path ss) = plain_path (map (fold_case opts) ss)"
proof -
  have "fold_case opts (js_join ''/'' ss) = js_join ''/'' (map (fold_case opts) ss)"
    by (induction "''/''" ss rule: js_join.induct) simp_all
  then show ?thesis by (simp add: plain_path_def)
qed

lemma last_separator: "s \<noteq> [] \<Longrightarrow> is_separator (last (fold_case opts s)) = is_separator (last s)"
  by (simp add: fold_case_def last_map char_lower_separator)

lemma denied_clean:
  "d \<in> set file_preview_denied_home_dirs \<Longrightarrow> clean_seg d \<and> \<not> is_separator (last d)"
  by (auto simp: file_preview_denied_home_dirs_def clean_seg_def is_separator_def)

lemma normalizeForPolicy_posix:
  "pol_platform opts \<noteq> ''win32'' \<Longrightarrow>
   normalizeForPolicy opts v = fold_case opts (stripTrailingSeparators (getPlatformPath opts) (posix_normalize v))"
  by (simp add: normalizeForPolicy_def getPlatformPath_def posix_path_def fold_case_def Let_def)

lemma normalize_denied:
  assumes "pol_platform opts \<noteq> ''win32''" and "is_absolute (pol_homedir opts)" and "d \<in> set file_preview_denied_home_dirs"
  shows "normalizeForPolicy opts (pth_join (getPlatformPath opts) [pol_homedir opts, d]) =
    fold_case opts (plain_path (path_segs False (pol_homedir opts) @ [d]))"
proof -
  let ?ss = "path_segs False (pol_homedir opts) @ [d]"
  have d: "clean_seg d" "\<not> is_separator (last d)" using denied_clean[OF assms(3)] by auto
  have clean: "list_all clean_seg ?ss" using d path_segs_clean by simp
  have last: "last (plain_path ?ss) = last d" using d by (simp add: last_plain clean_seg_def)
  have ns: "\<not> is_separator (last (plain_path ?ss))" using last d by simp
  then have "\<not> ends_with_char CHR ''/'' (plain_path ?ss)" by (auto simp: ends_with_char_def is_separator_def)
  then have "posix_normalize (plain_path ?ss) = plain_path ?ss"
    using path_segs_plain[OF clean] by (subst normalize_absolute) (simp_all add: is_absolute_def plain_path_def)
  then show ?thesis
    using assms(1) join_dir[OF assms(2) d(1)] strip_fixed ns
    by (simp add: normalizeForPolicy_posix) (simp add: getPlatformPath_def posix_path_def)
qed

text \<open>The denied directories catch every path that lies in one of them.\<close>

lemma inside_denied:
  assumes "pol_platform opts \<noteq> ''win32''" and "is_absolute (pol_homedir opts)" and "is_absolute p"
    and d: "d \<in> set file_preview_denied_home_dirs" and inside: "lies_in opts (path_segs False (pol_homedir opts) @ [d]) p"
  shows "isSameOrInside opts (pth_join (getPlatformPath opts) [pol_homedir opts, d]) p"
proof -
  let ?dir = "path_segs False (pol_homedir opts) @ [d]"
  obtain rest where rest: "map (fold_case opts) (path_segs False p) = map (fold_case opts) ?dir @ rest"
    using inside by (auto simp: lies_in_def prefix_def)
  define as bs where "as = take (length ?dir) (path_segs False p)" and "bs = drop (length ?dir) (path_segs False p)"
  have segs: "path_segs False p = as @ bs" by (simp add: as_def bs_def)
  have as: "map (fold_case opts) as = map (fold_case opts) ?dir"
    using rest by (simp add: as_def take_map[symmetric])
  have as_ne: "as \<noteq> []" using as by auto
  have clean: "list_all clean_seg as" using path_segs_clean[of p] segs by simp
  have "fold_case opts (last as) = fold_case opts d" using as as_ne by (metis last_map last_snoc list.map_disc_iff map_append)
  moreover have "last as \<noteq> []" "d \<noteq> []"
    using clean as_ne denied_clean[OF d] by (auto simp: clean_seg_def list_all_iff dest: last_in_set)
  ultimately have "\<not> is_separator (last (last as))"
    using denied_clean[OF d] last_separator by metis
  then have ns: "\<not> is_separator (last (plain_path as))" using as_ne \<open>last as \<noteq> []\<close> by (simp add: last_plain)
  define w where "w = (if bs = [] then [] else plain_path bs) @ (if ends_with_char CHR ''/'' p then ''/'' else [])"
  have w: "posix_normalize p = plain_path as @ w" "w = [] \<or> hd w = CHR ''/''"
    using normalize_absolute[OF assms(3)] as_ne by (simp_all add: segs plain_path_append w_def) (simp add: plain_path_def)
  obtain k where k: "stripTrailingSeparators (getPlatformPath opts) (posix_normalize p) = plain_path as @ take k w"
    using strip_keeps[of "plain_path as" "getPlatformPath opts" w] ns w(1) by auto
  have cand: "normalizeForPolicy opts p = fold_case opts (plain_path ?dir) @ fold_case opts (take k w)"
  proof -
    have "fold_case opts (plain_path as) = fold_case opts (plain_path ?dir)" using as by (simp add: fold_case_plain)
    moreover have "normalizeForPolicy opts p = fold_case opts (stripTrailingSeparators (getPlatformPath opts) (posix_normalize p))"
      using assms(1) by (simp add: normalizeForPolicy_posix)
    ultimately show ?thesis using k by simp
  qed
  have "take k w = [] \<or> (\<exists>t. take k w = CHR ''/'' # t)" using w(2) by (cases w; cases k) auto
  then show ?thesis
    using assms(1) cand normalize_denied[OF assms(1,2) d]
    by (auto simp: isSameOrInside_def starts_with_iff)
qed

lemma split_chars: "s \<in> set (js_split sep p) \<Longrightarrow> c \<in> set s \<Longrightarrow> c \<in> set p"
proof (induction p arbitrary: s)
  case (Cons d p)
  obtain q qs where q: "js_split sep p = q # qs" by (cases "js_split sep p") auto
  show ?case using Cons.prems Cons.IH[of q] Cons.IH[of s] q by (auto split: if_splits)
qed simp

lemma push_seg_subset: "set (push_seg up acc s) \<subseteq> insert s (set acc)"
  by (auto simp: push_seg_def dest: in_set_butlastD)

lemma path_segs_subset: "set (path_segs up p) \<subseteq> set (js_split CHR ''/'' p)"
proof -
  have "set (foldl (push_seg up) acc ps) \<subseteq> set acc \<union> set ps" for acc ps
  proof (induction ps arbitrary: acc)
    case (Cons a ps)
    then show ?case using push_seg_subset[of up acc a] Cons.IH[of "push_seg up acc a"] by auto
  qed simp
  then show ?thesis unfolding path_segs_def by force
qed

text \<open>And only those, but for paths with a backslash, which counts as a separator at the end.\<close>

lemma denied_inside:
  assumes "pol_platform opts \<noteq> ''win32''" and "is_absolute (pol_homedir opts)" and "is_absolute p"
    and no_bs: "CHR 0x5C \<notin> set p" and d: "d \<in> set file_preview_denied_home_dirs"
    and inside: "isSameOrInside opts (pth_join (getPlatformPath opts) [pol_homedir opts, d]) p"
  shows "lies_in opts (path_segs False (pol_homedir opts) @ [d]) p"
proof -
  let ?D = "map (fold_case opts) (path_segs False (pol_homedir opts) @ [d])"
  let ?segs = "path_segs False p"
  let ?S = "map (fold_case opts) ?segs"
  have clean: "list_all clean_seg ?segs" by (rule path_segs_clean)
  have strip: "stripTrailingSeparators (getPlatformPath opts) (posix_normalize p) = plain_path ?segs"
  proof (cases "?segs = []")
    case True
    then show ?thesis
      using assms(1,3) by (simp add: normalize_absolute plain_path_def stripTrailingSeparators_def getPlatformPath_def posix_path_def is_absolute_def)
  next
    case False
    then have mem: "last ?segs \<in> set ?segs" by simp
    then have ne: "last ?segs \<noteq> []" and "CHR ''/'' \<notin> set (last ?segs)"
      using clean by (auto simp: list_all_iff clean_seg_def)
    moreover have "CHR 0x5C \<notin> set (last ?segs)"
      using mem path_segs_subset[of False p] split_chars[of "last ?segs"] no_bs by blast
    ultimately have "\<not> is_separator (last (last ?segs))"
      using last_in_set[OF ne] by (metis is_separator_def)
    then have ns: "\<not> is_separator (last (plain_path ?segs))" using False ne by (simp add: last_plain)
    have slash: "is_separator CHR ''/''" by (simp add: is_separator_def)
    let ?w = "if ends_with_char CHR ''/'' p then ''/'' else []"
    have "stripTrailingSeparators (getPlatformPath opts) (plain_path ?segs @ ?w) = plain_path ?segs"
    proof -
      have len: "length (plain_path ?segs) > 1" using False ne by (cases ?segs rule: rev_cases) (auto simp: plain_path_snoc)
      have "rev (plain_path ?segs) \<noteq> []" "\<not> is_separator (hd (rev (plain_path ?segs)))" using len ns by (auto simp: hd_rev)
      then have "strip_rev n (rev (plain_path ?segs)) = rev (plain_path ?segs)" for n
        by (cases "rev (plain_path ?segs)") auto
      moreover have "length (pth_root (getPlatformPath opts) v) < Suc (length (plain_path ?segs))" for v
        using assms(1) len by (auto simp: getPlatformPath_def posix_path_def)
      ultimately show ?thesis
        using slash by (simp add: stripTrailingSeparators_def)
    qed
    then show ?thesis using False normalize_absolute[OF assms(3)] by simp
  qed
  have "fold_case opts (plain_path ?segs) = fold_case opts (plain_path (path_segs False (pol_homedir opts) @ [d])) \<or>
      starts_with (fold_case opts (plain_path ?segs)) (fold_case opts (plain_path (path_segs False (pol_homedir opts) @ [d])) @ ''/'')"
    using inside assms(1) normalize_denied[OF assms(1,2) d] strip
    by (simp add: isSameOrInside_def normalizeForPolicy_posix Let_def)
  moreover have "fold_case opts (plain_path ss) = CHR ''/'' # js_join ''/'' (map (fold_case opts) ss)" for ss
    using fold_case_plain[of opts ss] by (simp add: plain_path_def)
  ultimately have "js_join ''/'' ?S = js_join ''/'' ?D \<or> starts_with (js_join ''/'' ?S) (js_join ''/'' ?D @ ''/'')"
    by (simp only: list.inject append_Cons starts_with.simps simp_thms)
  then have "\<exists>r. js_join ''/'' ?S = js_join ''/'' ?D @ r \<and> (r = [] \<or> hd r = CHR ''/'')"
  proof
    assume "js_join ''/'' ?S = js_join ''/'' ?D"
    then show ?thesis by (intro exI[of _ "[]"]) simp
  next
    assume "starts_with (js_join ''/'' ?S) (js_join ''/'' ?D @ ''/'')"
    then obtain t where "js_join ''/'' ?S = (js_join ''/'' ?D @ ''/'') @ t" unfolding starts_with_iff by blast
    then show ?thesis by (intro exI[of _ "''/'' @ t"]) simp
  qed
  then obtain r where r: "js_join ''/'' ?S = js_join ''/'' ?D @ r" "r = [] \<or> hd r = CHR ''/''" by blast
  have no_slash: "CHR ''/'' \<notin> set (fold_case opts s)" if "clean_seg s" for s
    using that slash_in_fold unfolding clean_seg_def by blast
  have sp: "js_split CHR ''/'' (js_join ''/'' (map (fold_case opts) ss)) = map (fold_case opts) ss"
    if "list_all clean_seg ss" "ss \<noteq> []" for ss
    using that no_slash by (intro js_split_join) (auto simp: list_all_iff)
  have D: "js_split CHR ''/'' (js_join ''/'' ?D) = ?D"
    using path_segs_clean denied_clean[OF d] by (intro sp) auto
  have ne: "?segs \<noteq> []"
  proof
    assume "?segs = []"
    then have "js_join ''/'' ?D = []" using r by simp
    then have "?D = [[]]" using D by simp
    then show False using denied_clean[OF d] by (auto simp: clean_seg_def Cons_eq_append_conv)
  qed
  have S: "js_split CHR ''/'' (js_join ''/'' ?S) = ?S" using clean ne by (intro sp)
  have "prefix ?D ?S"
  proof (cases r)
    case Nil
    then show ?thesis using r(1) S D by simp
  next
    case (Cons c t)
    then have "?S = ?D @ js_split CHR ''/'' t"
      using r S D split_append_slash[of "CHR ''/''" "js_join ''/'' ?D" t] by simp
    then show ?thesis by (metis prefixI)
  qed
  then show ?thesis by (simp add: lies_in_def)
qed

lemma allowed_outside:
  assumes "pol_platform opts \<noteq> ''win32''" and "is_absolute (pol_homedir opts)" and "is_absolute p"
    and "isFilePreviewPathAllowed opts p"
  shows "list_all (\<lambda>dir. \<not> lies_in opts dir p) (denied_dirs opts)"
  using assms(4) inside_denied[OF assms(1-3)] by (auto simp: isFilePreviewPathAllowed_def denied_dirs_def list_all_iff)

text \<open>
  C35. The policy is containment of directories, on systems with slashes and for absolute paths: a path that is allowed has
  segments which, after dots and double dots are resolved, do not begin with those of a denied directory of the home (up
  to case where the system ignores it), and a path without backslashes is allowed exactly then.  With backslashes the policy
  denies more: it strips them from the end, so a file that is named like a denied directory with a backslash behind it
  is denied too.
\<close>

theorem policy_is_containment:
  assumes "pol_platform opts \<noteq> ''win32''" and "is_absolute (pol_homedir opts)" and "is_absolute p"
  shows "(isFilePreviewPathAllowed opts p \<longrightarrow> list_all (\<lambda>dir. \<not> lies_in opts dir p) (denied_dirs opts)) \<and>
    (CHR 0x5C \<notin> set p \<longrightarrow>
       isFilePreviewPathAllowed opts p = list_all (\<lambda>dir. \<not> lies_in opts dir p) (denied_dirs opts))"
proof (intro conjI impI)
  show "list_all (\<lambda>dir. \<not> lies_in opts dir p) (denied_dirs opts)" if "isFilePreviewPathAllowed opts p"
    by (rule allowed_outside[OF assms that])
  show "isFilePreviewPathAllowed opts p = list_all (\<lambda>dir. \<not> lies_in opts dir p) (denied_dirs opts)" if "CHR 0x5C \<notin> set p"
    using inside_denied[OF assms] denied_inside[OF assms that]
    by (auto simp: isFilePreviewPathAllowed_def denied_dirs_def list_all_iff)
qed

definition example_policy :: policy_options where
  "example_policy = \<lparr>pol_platform = ''darwin'', pol_homedir = ''/Users/u'', pol_cwd = ''/'', pol_win32 = posix_path ''/''\<rparr>"

theorem policy_is_containment_witness:
  "\<not> isFilePreviewPathAllowed example_policy ''/Users/u/x/../.SSH/id'' \<and> isFilePreviewPathAllowed example_policy ''/Users/u/.sshd''"
proof -
  have "isFilePreviewPathAllowed example_policy p = list_all (\<lambda>dir. \<not> lies_in example_policy dir p) (denied_dirs example_policy)"
    if "is_absolute p" "CHR 0x5C \<notin> set p" for p
    using that policy_is_containment[of example_policy p] by (simp add: example_policy_def is_absolute_def)
  moreover have "\<not> list_all (\<lambda>dir. \<not> lies_in example_policy dir ''/Users/u/x/../.SSH/id'') (denied_dirs example_policy)"
    "list_all (\<lambda>dir. \<not> lies_in example_policy dir ''/Users/u/.sshd'') (denied_dirs example_policy)"
    by code_simp+
  ultimately show ?thesis by (simp add: is_absolute_def)
qed

end
