(* ===== verification/PreviewWorker.thy ===== *)
theory PreviewWorker
  imports PreviewFiles
begin

text \<open>
  What the preview worker does with a request, \<open>src/src/daemon/file-preview-read-worker.ts\<close>, its requests and
  results (\<open>file-preview-read-types.ts\<close>) and the answer that is assembled from a result
  (\<open>file-preview-read-response.ts\<close>).  The file system is the functions of the dependencies; an error that they
  throw is an \<open>fs_error\<close>.  The identity of a worker is kept by the pool, outside of requests and results.
\<close>

section \<open>Requests and results\<close>

text \<open>What a preflight found, which is what a snapshot request carries.\<close>

record file_info =
  fi_realPath :: string
  fi_startSignature :: string
  fi_size :: int
  fi_mtimeMs :: rat
  fi_fileName :: string
  fi_classification :: file_classification

datatype worker_input = In_preflight string | In_snapshot file_info

datatype snapshot_payload =
  Payload_text string
| Payload_base64 string mime_value
| Payload_stream mime_value int
| Payload_unavailable string "string option"

record snapshot_success = file_info +
  sn_endSignature :: string
  sn_payload :: snapshot_payload

datatype worker_phase = Phase_preflight | Phase_snapshot

datatype worker_result =
  Res_error worker_phase string "string option"
| Res_preflight file_info
| Res_snapshot snapshot_success

section \<open>Dependencies\<close>

record stat_view =
  sv_mtimeMs :: rat
  sv_size :: int
  sv_isFile :: "bool option"
  sv_isDirectory :: "bool option"

record worker_error_codes =
  wec_binaryFile :: string
  wec_forbiddenPath :: string
  wec_fileTooLarge :: string
  wec_staleRead :: string
  wec_invalidRequest :: string
  wec_internalError :: string
  wec_parentNotFound :: string
  wec_isDirectory :: "string option"

record worker_preview_reasons =
  wpr_binary :: string
  wpr_tooLarge :: string
  wpr_unknownType :: string

record worker_deps =
  wd_errorCodes :: worker_error_codes
  wd_previewReasons :: worker_preview_reasons
  wd_resolveCanonicalStrict :: "string \<Rightarrow> fs_error + string option"
  wd_isPathAllowed :: "string \<Rightarrow> bool"
  wd_stat :: "string \<Rightarrow> fs_error + stat_view"
  wd_readFile :: "string \<Rightarrow> fs_error + string"
  wd_classifyFile :: "string \<Rightarrow> int \<Rightarrow> rat \<Rightarrow> file_classification"
  wd_isBinaryBuffer :: "(string \<Rightarrow> bool) option"
  wd_signatureForStat :: "(stat_view \<Rightarrow> string) option"
  wd_num_str :: "rat \<Rightarrow> string"

definition binary_scan_bytes :: nat where "binary_scan_bytes = 8192"

definition statSignature :: "worker_deps \<Rightarrow> stat_view \<Rightarrow> string" where
  "statSignature deps st = wd_num_str deps (sv_mtimeMs st) @ '':'' @ int_str (sv_size st)"

definition hasNulByte :: "string \<Rightarrow> bool" where
  "hasNulByte buffer \<longleftrightarrow> CHR 0x00 \<in> set (take binary_scan_bytes buffer)"

definition signature_of :: "worker_deps \<Rightarrow> stat_view \<Rightarrow> string" where
  "signature_of deps st = (case wd_signatureForStat deps of Some f \<Rightarrow> f st | None \<Rightarrow> statSignature deps st)"

section \<open>The handlers\<close>

text \<open>A thrown error goes to the handler of the request.\<close>

definition handlePreflight :: "worker_deps \<Rightarrow> string \<Rightarrow> fs_error + worker_result" where
  "handlePreflight deps rawPath =
    (let codes = wd_errorCodes deps; fail = (\<lambda>code. Inr (Res_error Phase_preflight code None)) in
     if js_trim rawPath = [] then fail (wec_invalidRequest codes)
     else case wd_resolveCanonicalStrict deps rawPath of
       Inl e \<Rightarrow> Inl e
     | Inr found \<Rightarrow>
         if \<not> truthy found then fail (wec_internalError codes)
         else
           let realPath = opt_default [] found in
           if \<not> wd_isPathAllowed deps realPath then fail (wec_forbiddenPath codes)
           else case wd_stat deps realPath of
             Inl e \<Rightarrow> Inl e
           | Inr st \<Rightarrow>
               if sv_isFile st = Some False then
                 fail (if sv_isDirectory st = Some True then opt_default (wec_internalError codes) (wec_isDirectory codes)
                       else wec_internalError codes)
               else Inr (Res_preflight
                 \<lparr>fi_realPath = realPath, fi_startSignature = signature_of deps st, fi_size = sv_size st,
                  fi_mtimeMs = sv_mtimeMs st, fi_fileName = posix_basename realPath,
                  fi_classification = wd_classifyFile deps realPath (sv_size st) (sv_mtimeMs st)\<rparr>))"

text \<open>A snapshot that ends with a given state of the file.\<close>

definition snapshot_of :: "worker_deps \<Rightarrow> file_info \<Rightarrow> stat_view \<Rightarrow> snapshot_payload \<Rightarrow> worker_result" where
  "snapshot_of deps f endStats payload = Res_snapshot
    \<lparr>fi_realPath = fi_realPath f, fi_startSignature = fi_startSignature f, fi_size = sv_size endStats,
     fi_mtimeMs = sv_mtimeMs endStats, fi_fileName = fi_fileName f, fi_classification = fi_classification f,
     sn_endSignature = signature_of deps endStats, sn_payload = payload\<rparr>"

definition handleSnapshot :: "worker_deps \<Rightarrow> file_info \<Rightarrow> fs_error + worker_result" where
  "handleSnapshot deps f =
    (let classification = fi_classification f; kind = fc_previewKind classification;
         codes = wd_errorCodes deps; reasons = wd_previewReasons deps
     in if kind = Kind_too_large then
          (case wd_stat deps (fi_realPath f) of
             Inl e \<Rightarrow> Inl e
           | Inr st \<Rightarrow> Inr (snapshot_of deps f st (Payload_unavailable (wec_fileTooLarge codes) (Some (wpr_tooLarge reasons)))))
        else if kind \<in> {Kind_video, Kind_audio, Kind_image, Kind_office} \<and> fc_mimeType classification \<notin> {None, Some (Mime [])} then
          (case wd_stat deps (fi_realPath f) of
             Inl e \<Rightarrow> Inl e
           | Inr st \<Rightarrow> Inr (snapshot_of deps f st (Payload_stream (the (fc_mimeType classification)) (sv_size st))))
        else
          (case wd_readFile deps (fi_realPath f) of
             Inl e \<Rightarrow> Inl e
           | Inr buffer \<Rightarrow>
               (case wd_stat deps (fi_realPath f) of
                  Inl e \<Rightarrow> Inl e
                | Inr st \<Rightarrow>
                    if (case wd_isBinaryBuffer deps of Some b \<Rightarrow> b buffer | None \<Rightarrow> hasNulByte buffer) then
                      Inr (snapshot_of deps f st (Payload_unavailable (wec_binaryFile codes) (Some (wpr_binary reasons))))
                    else Inr (snapshot_of deps f st (Payload_text buffer)))))"

definition phase_of :: "worker_input \<Rightarrow> worker_phase" where
  "phase_of inp = (case inp of In_preflight p \<Rightarrow> Phase_preflight | In_snapshot f \<Rightarrow> Phase_snapshot)"

definition handlePreviewReadWorkerRequest :: "worker_deps \<Rightarrow> worker_input \<Rightarrow> worker_result" where
  "handlePreviewReadWorkerRequest deps inp =
    (case (case inp of In_preflight p \<Rightarrow> handlePreflight deps p | In_snapshot f \<Rightarrow> handleSnapshot deps f) of
       Inr r \<Rightarrow> r
     | Inl e \<Rightarrow>
         Res_error (phase_of inp)
           (if opt_default [] (fse_code e) \<in> {''ENOENT'', ''ENOTDIR''} then wec_parentNotFound (wd_errorCodes deps)
            else wec_internalError (wd_errorCodes deps)) None)"

text \<open>
  The dependencies of the worker: the policy and the classifier of \<open>PreviewFiles\<close> over the calls of the file
  system, with the codes of \<open>FS_READ_ERROR_CODES\<close>.
\<close>

definition default_worker_error_codes :: worker_error_codes where
  "default_worker_error_codes = \<lparr>wec_binaryFile = ''binary_file'', wec_forbiddenPath = ''forbidden_path'',
     wec_fileTooLarge = ''file_too_large'', wec_staleRead = ''stale_read'', wec_invalidRequest = ''invalid_request'',
     wec_internalError = ''internal_error'', wec_parentNotFound = ''parent_not_found'',
     wec_isDirectory = Some ''is_directory''\<rparr>"

record file_system =
  fs_realpath :: "string \<Rightarrow> fs_error + string"
  fs_stat :: "string \<Rightarrow> fs_error + stat_view"
  fs_readFile :: "string \<Rightarrow> fs_error + string"

definition createDefaultPreviewReadWorkerDependencies ::
  "policy_options \<Rightarrow> (rat \<Rightarrow> string) \<Rightarrow> file_system \<Rightarrow> worker_deps" where
  "createDefaultPreviewReadWorkerDependencies opts num_str fs =
    \<lparr>wd_errorCodes = default_worker_error_codes,
     wd_previewReasons = \<lparr>wpr_binary = ''binary'', wpr_tooLarge = ''too_large'', wpr_unknownType = ''unknown_type''\<rparr>,
     wd_resolveCanonicalStrict = (\<lambda>rawPath.
       case fs_realpath fs (pth_resolve (getPlatformPath opts) [expandFilePreviewPath opts rawPath]) of
         Inl e \<Rightarrow> Inl e
       | Inr p \<Rightarrow> Inr (Some p)),
     wd_isPathAllowed = isFilePreviewPathAllowed opts,
     wd_stat = fs_stat fs,
     wd_readFile = fs_readFile fs,
     wd_classifyFile = (\<lambda>realPath bytes mtimeMs. classifyFile realPath bytes),
     wd_isBinaryBuffer = Some isLikelyBinaryBuffer,
     wd_signatureForStat = Some (\<lambda>st. createFileSignature num_str (sv_mtimeMs st) (sv_size st)),
     wd_num_str = num_str\<rparr>"

text \<open>
  The worker posts its result as a structured clone, which fails for a function; then the process of the worker
  ends (\<open>None\<close>).  Every member that an object inherits is a function, but the prototype itself.
\<close>

definition clonable_mime :: "mime_value option \<Rightarrow> bool" where
  "clonable_mime m = (case m of Some (Inherited name) \<Rightarrow> name = ''__proto__'' | _ \<Rightarrow> True)"

definition clonable_payload :: "snapshot_payload \<Rightarrow> bool" where
  "clonable_payload p = (case p of Payload_base64 c m \<Rightarrow> clonable_mime (Some m) | Payload_stream m n \<Rightarrow> clonable_mime (Some m) | _ \<Rightarrow> True)"

definition clonable :: "worker_result \<Rightarrow> bool" where
  "clonable r = (case r of
       Res_error phase code reason \<Rightarrow> True
     | Res_preflight f \<Rightarrow> clonable_mime (fc_mimeType (fi_classification f))
     | Res_snapshot s \<Rightarrow> clonable_mime (fc_mimeType (fi_classification s)) \<and> clonable_payload (sn_payload s))"

definition worker_on_message :: "worker_deps \<Rightarrow> worker_input \<Rightarrow> worker_result option" where
  "worker_on_message deps inp =
    (let response = handlePreviewReadWorkerRequest deps inp in if clonable response then Some response else None)"

section \<open>Answers\<close>

record public_terminal =
  pt_requestId :: string
  pt_rawPath :: string
  pt_ok :: bool
  pt_resolvedPath :: "string option"
  pt_content :: "string option"
  pt_encoding :: "string option"
  pt_mimeType :: "mime_value option"
  pt_previewMode :: "string option"
  pt_size :: "int option"
  pt_downloadId :: "string option"
  pt_mtime :: "rat option"
  pt_error :: "string option"
  pt_previewReason :: "string option"

definition blank_terminal :: "string \<Rightarrow> string \<Rightarrow> bool \<Rightarrow> string \<Rightarrow> public_terminal" where
  "blank_terminal requestId rawPath ok resolvedPath =
    \<lparr>pt_requestId = requestId, pt_rawPath = rawPath, pt_ok = ok, pt_resolvedPath = Some resolvedPath, pt_content = None,
     pt_encoding = None, pt_mimeType = None, pt_previewMode = None, pt_size = None, pt_downloadId = None,
     pt_mtime = None, pt_error = None, pt_previewReason = None\<rparr>"

text \<open>The random id of a new handle is an argument.\<close>

definition createHandle :: "policy_options \<Rightarrow> string \<Rightarrow> string \<Rightarrow> string option" where
  "createHandle opts newId realPath = (case asValidatedRealPath opts realPath of None \<Rightarrow> None | Some p \<Rightarrow> Some newId)"

definition assemblePreflightTerminal ::
  "policy_options \<Rightarrow> string \<Rightarrow> string \<Rightarrow> string \<Rightarrow> file_info \<Rightarrow> public_terminal option" where
  "assemblePreflightTerminal opts newId requestId rawPath preflight =
    (let classification = fi_classification preflight; kind = fc_previewKind classification in
     if kind \<noteq> Kind_too_large \<and> kind \<noteq> Kind_video \<and> kind \<noteq> Kind_audio then None
     else case createHandle opts newId (fi_realPath preflight) of
       None \<Rightarrow> Some ((blank_terminal requestId rawPath False (fi_realPath preflight))\<lparr>pt_error := Some ''forbidden_path''\<rparr>)
     | Some downloadId \<Rightarrow>
         if kind = Kind_too_large then
           Some ((blank_terminal requestId rawPath False (fi_realPath preflight))
             \<lparr>pt_error := Some ''file_too_large'', pt_previewReason := fc_previewReason classification,
              pt_downloadId := Some downloadId, pt_mtime := Some (fi_mtimeMs preflight)\<rparr>)
         else
           Some ((blank_terminal requestId rawPath True (fi_realPath preflight))
             \<lparr>pt_mimeType := fc_mimeType classification, pt_previewMode := Some ''stream'',
              pt_size := Some (fi_size preflight), pt_downloadId := Some downloadId,
              pt_mtime := Some (fi_mtimeMs preflight)\<rparr>))"

definition assembleSnapshotTerminal ::
  "policy_options \<Rightarrow> string \<Rightarrow> string \<Rightarrow> string \<Rightarrow> snapshot_success \<Rightarrow> public_terminal" where
  "assembleSnapshotTerminal opts newId requestId rawPath snapshot =
    (case createHandle opts newId (fi_realPath snapshot) of
       None \<Rightarrow> (blank_terminal requestId rawPath False (fi_realPath snapshot))\<lparr>pt_error := Some ''forbidden_path''\<rparr>
     | Some downloadId \<Rightarrow>
         let handled = (\<lambda>ok. (blank_terminal requestId rawPath ok (fi_realPath snapshot))
               \<lparr>pt_downloadId := Some downloadId, pt_mtime := Some (fi_mtimeMs snapshot)\<rparr>)
         in case sn_payload snapshot of
              Payload_unavailable error reason \<Rightarrow>
                (handled False)\<lparr>pt_error := Some error, pt_previewReason := reason\<rparr>
            | Payload_stream mime n \<Rightarrow>
                (handled True)\<lparr>pt_mimeType := Some mime, pt_previewMode := Some ''stream'', pt_size := Some n\<rparr>
            | Payload_base64 content mime \<Rightarrow>
                (handled True)\<lparr>pt_content := Some content, pt_encoding := Some ''base64'', pt_mimeType := Some mime\<rparr>
            | Payload_text content \<Rightarrow> (handled True)\<lparr>pt_content := Some content\<rparr>)"

section \<open>What the worker promises\<close>

lemma preflight_success:
  "handlePreflight deps rawPath = Inr (Res_preflight f) \<longleftrightarrow>
   (\<exists>st. js_trim rawPath \<noteq> [] \<and> wd_resolveCanonicalStrict deps rawPath = Inr (Some (fi_realPath f)) \<and> fi_realPath f \<noteq> [] \<and>
      wd_isPathAllowed deps (fi_realPath f) \<and> wd_stat deps (fi_realPath f) = Inr st \<and> sv_isFile st \<noteq> Some False \<and>
      f = \<lparr>fi_realPath = fi_realPath f, fi_startSignature = signature_of deps st, fi_size = sv_size st,
           fi_mtimeMs = sv_mtimeMs st, fi_fileName = posix_basename (fi_realPath f),
           fi_classification = wd_classifyFile deps (fi_realPath f) (sv_size st) (sv_mtimeMs st)\<rparr>)"
  by (cases f) (auto simp: handlePreflight_def Let_def truthy_def split: sum.splits option.splits if_splits)

lemma request_preflight:
  "handlePreviewReadWorkerRequest deps (In_preflight p) = Res_preflight f \<longleftrightarrow> handlePreflight deps p = Inr (Res_preflight f)"
  by (auto simp: handlePreviewReadWorkerRequest_def split: sum.split)

lemma request_snapshot:
  "handlePreviewReadWorkerRequest deps (In_snapshot f) = Res_snapshot s \<longleftrightarrow> handleSnapshot deps f = Inr (Res_snapshot s)"
  by (auto simp: handlePreviewReadWorkerRequest_def split: sum.split)

lemma default_deps [simp]:
  "wd_isPathAllowed (createDefaultPreviewReadWorkerDependencies opts num_str fs) = isFilePreviewPathAllowed opts"
  "wd_classifyFile (createDefaultPreviewReadWorkerDependencies opts num_str fs) p n t = classifyFile p n"
  "wd_errorCodes (createDefaultPreviewReadWorkerDependencies opts num_str fs) = default_worker_error_codes"
  "signature_of (createDefaultPreviewReadWorkerDependencies opts num_str fs) st = createFileSignature num_str (sv_mtimeMs st) (sv_size st)"
  by (simp_all add: createDefaultPreviewReadWorkerDependencies_def signature_of_def)

text \<open>
  No file of a denied directory passes the preflight, however the path is written and wherever its links lead: the
  canonical path of every accepted request lies outside of these directories.
\<close>

theorem preflight_outside_denied:
  assumes "pol_platform opts \<noteq> ''win32''" and "is_absolute (pol_homedir opts)"
    and canonical: "\<And>p q. fs_realpath fs p = Inr q \<Longrightarrow> is_absolute q"
    and "handlePreviewReadWorkerRequest (createDefaultPreviewReadWorkerDependencies opts num_str fs) (In_preflight rawPath)
      = Res_preflight f"
  shows "list_all (\<lambda>dir. \<not> lies_in opts dir (fi_realPath f)) (denied_dirs opts)"
proof -
  let ?deps = "createDefaultPreviewReadWorkerDependencies opts num_str fs"
  have f: "wd_resolveCanonicalStrict ?deps rawPath = Inr (Some (fi_realPath f))" "isFilePreviewPathAllowed opts (fi_realPath f)"
    using assms(4) by (auto simp: request_preflight preflight_success)
  then have "is_absolute (fi_realPath f)"
    using canonical by (auto simp: createDefaultPreviewReadWorkerDependencies_def split: sum.splits)
  then show ?thesis using allowed_outside[OF assms(1,2)] f(2) by blast
qed

text \<open>A file system of one file.\<close>

definition one_file :: "string \<Rightarrow> string \<Rightarrow> string \<Rightarrow> file_system" where
  "one_file link target content =
    (let missing = \<lparr>fse_code = Some ''ENOENT'', fse_message = ''no such file''\<rparr>;
         st = \<lparr>sv_mtimeMs = 7, sv_size = int (length content), sv_isFile = Some True, sv_isDirectory = Some False\<rparr>
     in \<lparr>fs_realpath = (\<lambda>p. if p = link \<or> p = target then Inr target else Inl missing),
         fs_stat = (\<lambda>p. if p = target then Inr st else Inl missing),
         fs_readFile = (\<lambda>p. if p = target then Inr content else Inl missing)\<rparr>)"

theorem preflight_outside_denied_witness:
  "\<exists>f. handlePreviewReadWorkerRequest
      (createDefaultPreviewReadWorkerDependencies example_policy (\<lambda>_. ''7'') (one_file ''/tmp/link'' ''/data/a.md'' ''hi''))
      (In_preflight ''/tmp/./link'') = Res_preflight f \<and> fi_realPath f = ''/data/a.md'' \<and>
    list_all (\<lambda>dir. \<not> lies_in example_policy dir (fi_realPath f)) (denied_dirs example_policy)"
proof -
  let ?fs = "one_file ''/tmp/link'' ''/data/a.md'' ''hi''"
  let ?deps = "createDefaultPreviewReadWorkerDependencies example_policy (\<lambda>_. ''7'') ?fs"
  let ?r = "handlePreviewReadWorkerRequest ?deps (In_preflight ''/tmp/./link'')"
  have r: "(case ?r of Res_preflight f \<Rightarrow> fi_realPath f = ''/data/a.md'' | _ \<Rightarrow> False)" by code_simp
  then obtain f where f: "?r = Res_preflight f" "fi_realPath f = ''/data/a.md''"
    by (cases ?r) simp_all
  have "list_all (\<lambda>dir. \<not> lies_in example_policy dir (fi_realPath f)) (denied_dirs example_policy)"
    by (rule preflight_outside_denied[OF _ _ _ f(1)])
      (auto simp: example_policy_def is_absolute_def one_file_def Let_def split: if_splits)
  then show ?thesis using f by blast
qed

text \<open>
  C36. The worker's errors can be shown to anyone: for every request and every state of the file system they are
  codes and reasons of the public lists, and carry nothing of what the system reported.
\<close>

theorem worker_errors_public:
  "case handlePreviewReadWorkerRequest (createDefaultPreviewReadWorkerDependencies opts num_str fs) inp of
     Res_error phase code reason \<Rightarrow> isFsReadErrorCode (JStr code) \<and> reason = None
   | Res_preflight f \<Rightarrow> True
   | Res_snapshot s \<Rightarrow>
       (case sn_payload s of
          Payload_unavailable code reason \<Rightarrow> isFsReadErrorCode (JStr code) \<and> isFsReadPreviewReason (JStr (opt_default [] reason))
        | _ \<Rightarrow> True)"
proof -
  let ?deps = "createDefaultPreviewReadWorkerDependencies opts num_str fs"
  have codes: "isFsReadErrorCode (JStr c)"
    if "c \<in> {''binary_file'', ''forbidden_path'', ''file_too_large'', ''invalid_request'', ''internal_error'',
      ''parent_not_found'', ''is_directory''}" for c
    using that by (auto simp: isFsReadErrorCode_def fs_read_error_code_values_def)
  have reasons: "isFsReadPreviewReason (JStr ''binary'')" "isFsReadPreviewReason (JStr ''too_large'')"
    by (simp_all add: isFsReadPreviewReason_def fs_read_preview_reason_values_def)
  show ?thesis
  proof (cases inp)
    case (In_preflight p)
    then show ?thesis
      by (auto simp: handlePreviewReadWorkerRequest_def handlePreflight_def Let_def default_worker_error_codes_def codes
          split: sum.splits option.splits)
  next
    case (In_snapshot f)
    then show ?thesis
      by (auto simp: handlePreviewReadWorkerRequest_def handleSnapshot_def snapshot_of_def Let_def default_worker_error_codes_def
          codes reasons createDefaultPreviewReadWorkerDependencies_def split: sum.splits option.splits)
  qed
qed

section \<open>Sizes\<close>

lemma int_str_inj: "int_str a = int_str b \<Longrightarrow> a = b"
proof -
  have "CHR ''-'' \<notin> set (nat_str n)" for n
    using nat_str_digits[of "CHR ''-''" n] by (auto simp: is_digit_def char_between_def)
  then have "CHR ''-'' # s \<noteq> nat_str n" for s n by (metis list.set_intros(1))
  moreover assume "int_str a = int_str b"
  ultimately show ?thesis
    by (auto simp: int_str_def split: if_splits dest: nat_str_inj) (metis nat_str_inj nat_0_le linorder_not_less)+
qed

lemma signature_size:
  assumes "CHR '':'' \<notin> set (num_str a)" and "CHR '':'' \<notin> set (num_str b)"
    and "createFileSignature num_str a m = createFileSignature num_str b n"
  shows "m = n"
proof -
  have "js_split CHR '':'' (int_str m) = js_split CHR '':'' (int_str n)"
    using assms js_split_append[of "CHR '':''" "num_str a" "int_str m"] js_split_append[of "CHR '':''" "num_str b" "int_str n"]
    by (simp add: createFileSignature_def)
  then show ?thesis by (metis js_join_split int_str_inj)
qed

lemma mime_lookup_ne:
  assumes "table \<in> {image_mime_by_extension, office_mime_by_extension, video_mime_by_extension, audio_mime_by_extension, text_mime_by_extension}"
  shows "mime_lookup table ext \<noteq> Some (Mime [])"
proof -
  have "list_all (\<lambda>(k, v). v \<noteq> []) table"
    using assms by (auto simp: image_mime_by_extension_def office_mime_by_extension_def video_mime_by_extension_def
        audio_mime_by_extension_def text_mime_by_extension_def)
  then show ?thesis by (auto simp: mime_lookup_def list_all_iff dest!: map_of_SomeD split: option.splits if_splits)
qed

text \<open>The streamed kinds have a type; what is neither streamed nor too large is small.\<close>

lemma classify_cases:
  "(fc_previewKind (classifyFile p n) \<in> {Kind_video, Kind_audio, Kind_image, Kind_office} \<and>
      fc_mimeType (classifyFile p n) \<notin> {None, Some (Mime [])}) \<or>
   fc_previewKind (classifyFile p n) = Kind_too_large \<or> n \<le> fs_read_inline_size_limit"
  by (simp add: classifyFile_def classifyPreviewByPath_def Let_def mime_lookup_ne)

lemma preflight_info:
  assumes "handlePreviewReadWorkerRequest (createDefaultPreviewReadWorkerDependencies opts num_str fs) (In_preflight rawPath)
      = Res_preflight f"
  shows "\<exists>st :: stat_view. fi_startSignature f = createFileSignature num_str (sv_mtimeMs st) (sv_size st) \<and>
    fi_classification f = classifyFile (fi_realPath f) (sv_size st)"
proof -
  let ?deps = "createDefaultPreviewReadWorkerDependencies opts num_str fs"
  obtain st where "f = \<lparr>fi_realPath = fi_realPath f, fi_startSignature = signature_of ?deps st, fi_size = sv_size st,
      fi_mtimeMs = sv_mtimeMs st, fi_fileName = posix_basename (fi_realPath f),
      fi_classification = wd_classifyFile ?deps (fi_realPath f) (sv_size st) (sv_mtimeMs st)\<rparr>" (is "_ = ?f")
    using assms unfolding request_preflight preflight_success by blast
  then have "fi_startSignature f = fi_startSignature ?f" "fi_classification f = fi_classification ?f"
    by (rule arg_cong)+
  then show ?thesis by (intro exI[of _ st]) simp
qed

lemma text_snapshot:
  assumes "handleSnapshot deps f = Inr (Res_snapshot s)" and "sn_payload s = Payload_text content"
  shows "fc_previewKind (fi_classification f) \<noteq> Kind_too_large \<and>
    \<not> (fc_previewKind (fi_classification f) \<in> {Kind_video, Kind_audio, Kind_image, Kind_office} \<and>
       fc_mimeType (fi_classification f) \<notin> {None, Some (Mime [])}) \<and>
    fi_startSignature s = fi_startSignature f \<and>
    (\<exists>st. sn_endSignature s = signature_of deps st \<and> fi_size s = sv_size st)"
  using assms by (auto simp: handleSnapshot_def snapshot_of_def Let_def split: sum.splits if_splits)

text \<open>
  Text is only shown when it is small: a snapshot with text whose file did not change since the preflight is of a file
  of at most two megabytes, however large the file was in between.
\<close>

theorem inline_text_small:
  assumes "handlePreviewReadWorkerRequest (createDefaultPreviewReadWorkerDependencies opts num_str fs) (In_preflight rawPath)
      = Res_preflight f"
    and "handlePreviewReadWorkerRequest (createDefaultPreviewReadWorkerDependencies opts num_str fs') (In_snapshot f)
      = Res_snapshot s"
    and "sn_payload s = Payload_text content" and "sn_endSignature s = fi_startSignature s"
    and "\<And>t. CHR '':'' \<notin> set (num_str t)"
  shows "fi_size s \<le> 2 * 1024 * 1024"
proof -
  obtain st :: stat_view where st: "fi_startSignature f = createFileSignature num_str (sv_mtimeMs st) (sv_size st)"
      "fi_classification f = classifyFile (fi_realPath f) (sv_size st)"
    using preflight_info[OF assms(1)] by blast
  obtain st' :: stat_view where st': "sn_endSignature s = createFileSignature num_str (sv_mtimeMs st') (sv_size st')" "fi_size s = sv_size st'"
    using text_snapshot[OF assms(2)[unfolded request_snapshot] assms(3)] unfolding default_deps by blast
  have "fi_startSignature s = fi_startSignature f"
    using text_snapshot[OF assms(2)[unfolded request_snapshot] assms(3)] by blast
  then have "createFileSignature num_str (sv_mtimeMs st') (sv_size st') = createFileSignature num_str (sv_mtimeMs st) (sv_size st)"
    using st(1) st'(1) assms(4) by simp
  then have "sv_size st' = sv_size st" by (rule signature_size[OF assms(5) assms(5)])
  moreover have "sv_size st \<le> fs_read_inline_size_limit"
    using text_snapshot[OF assms(2)[unfolded request_snapshot] assms(3)] classify_cases[of "fi_realPath f" "sv_size st"]
    unfolding st(2)[symmetric] by blast
  ultimately show ?thesis using st'(2) by (simp add: fs_read_inline_size_limit_def)
qed

definition example_deps :: "string \<Rightarrow> worker_deps" where
  "example_deps target = createDefaultPreviewReadWorkerDependencies example_policy (\<lambda>_. ''7'') (one_file ''/tmp/link'' target ''hi'')"

theorem inline_text_small_witness:
  "\<exists>f s. handlePreviewReadWorkerRequest (example_deps ''/data/a.md'') (In_preflight ''/tmp/link'') = Res_preflight f \<and>
     handlePreviewReadWorkerRequest (example_deps ''/data/a.md'') (In_snapshot f) = Res_snapshot s \<and>
     sn_payload s = Payload_text ''hi'' \<and> fi_size s \<le> 2 * 1024 * 1024"
proof -
  let ?deps = "example_deps ''/data/a.md''"
  let ?r = "handlePreviewReadWorkerRequest ?deps (In_preflight ''/tmp/link'')"
  have r: "(case ?r of Res_preflight f \<Rightarrow>
      (case handlePreviewReadWorkerRequest ?deps (In_snapshot f) of
         Res_snapshot s \<Rightarrow> sn_payload s = Payload_text ''hi'' \<and> sn_endSignature s = fi_startSignature s
       | _ \<Rightarrow> False) | _ \<Rightarrow> False)" by code_simp
  then obtain f where f: "?r = Res_preflight f" by (cases ?r) simp_all
  obtain s where s: "handlePreviewReadWorkerRequest ?deps (In_snapshot f) = Res_snapshot s"
      "sn_payload s = Payload_text ''hi''" "sn_endSignature s = fi_startSignature s"
    using r f by (cases "handlePreviewReadWorkerRequest ?deps (In_snapshot f)") simp_all
  have "fi_size s \<le> 2 * 1024 * 1024"
    by (rule inline_text_small[OF f[unfolded example_deps_def] s(1)[unfolded example_deps_def] s(2,3)]) simp
  then show ?thesis using f s by blast
qed

text \<open>
  C37. A file named like a member that every object inherits ends the worker: for a file with the extension
  \<open>constructor\<close>, the type that is looked up is a function, the result cannot be cloned and the worker
  exits; the preview never gets an answer of its own.
\<close>

theorem constructor_name_ends_worker:
  assumes "handlePreviewReadWorkerRequest (createDefaultPreviewReadWorkerDependencies opts num_str fs) (In_preflight rawPath)
      = Res_preflight f"
    and "getFileExtension (fi_realPath f) = ''constructor''"
  shows "worker_on_message (createDefaultPreviewReadWorkerDependencies opts num_str fs) (In_preflight rawPath) = None"
proof -
  obtain st :: stat_view where "fi_classification f = classifyFile (fi_realPath f) (sv_size st)"
    using preflight_info[OF assms(1)] by blast
  moreover have "mime_lookup video_mime_by_extension ''constructor'' = Some (Inherited ''constructor'')" by code_simp
  ultimately have "fc_mimeType (fi_classification f) = Some (Inherited ''constructor'')"
    using assms(2) by (simp add: classifyFile_def classifyPreviewByPath_def Let_def)
  then show ?thesis
    using assms(1) by (simp add: worker_on_message_def clonable_def clonable_mime_def)
qed

theorem constructor_name_ends_worker_witness:
  "worker_on_message (example_deps ''/data/my.constructor'') (In_preflight ''/tmp/link'') = None"
proof -
  let ?r = "handlePreviewReadWorkerRequest (example_deps ''/data/my.constructor'') (In_preflight ''/tmp/link'')"
  have r: "(case ?r of Res_preflight f \<Rightarrow> getFileExtension (fi_realPath f) = ''constructor'' | _ \<Rightarrow> False)" by code_simp
  then obtain f where "?r = Res_preflight f" "getFileExtension (fi_realPath f) = ''constructor''" by (cases ?r) simp_all
  then show ?thesis using constructor_name_ends_worker[of example_policy "\<lambda>_. ''7''" _ "''/tmp/link''" f]
    unfolding example_deps_def by blast
qed

text \<open>What an answer shows with success lies where previews are allowed.\<close>

lemma shown_is_allowed:
  "pt_ok (assembleSnapshotTerminal opts newId requestId rawPath s) \<Longrightarrow> isFilePreviewPathAllowed opts (fi_realPath s)"
  by (auto simp: assembleSnapshotTerminal_def createHandle_def asValidatedRealPath_def blank_terminal_def split: if_splits)

end
