(* ===== verification/PreviewCache.thy ===== *)
theory PreviewCache
  imports PreviewWorker
begin

text \<open>
  The cache of preview snapshots, \<open>src/src/daemon/file-preview-read-cache-facade.ts\<close>: one snapshot for each
  path, valid while the file has its signature, the path its generation and the entry its time; an invalidation
  raises the generation.  Limits hold for the number of entries, their bytes and each entry.  The values of the
  in-flight table are of any type; the clock is an argument.
\<close>

definition default_preview_read_cache_ttl_ms :: int where "default_preview_read_cache_ttl_ms = 5000"
definition default_preview_read_cache_max_entries :: int where "default_preview_read_cache_max_entries = 64"
definition default_preview_read_cache_max_bytes :: int where "default_preview_read_cache_max_bytes = 16 * 1024 * 1024"
definition default_preview_read_cache_max_entry_bytes :: int where
  "default_preview_read_cache_max_entry_bytes = 2 * 1024 * 1024"

record cached_snapshot =
  cs_realPath :: string
  cs_signature :: string
  cs_generation :: nat
  cs_expiresAt :: int
  cs_bytes :: int
  cs_value :: snapshot_success

record cache_options =
  cao_ttlMs :: "int option"
  cao_maxEntries :: "int option"
  cao_maxBytes :: "int option"
  cao_maxEntryBytes :: "int option"

record 'j preview_cache =
  cf_cwd :: string
  cf_ttlMs :: int
  cf_maxEntries :: int
  cf_maxBytes :: int
  cf_maxEntryBytes :: int
  cf_cache :: "(string \<times> cached_snapshot) list"
  cf_inflight :: "(string \<times> 'j) list"
  cf_generations :: "(string \<times> nat) list"
  cf_cacheBytes :: int

definition cache_new :: "string \<Rightarrow> cache_options \<Rightarrow> 'j preview_cache" where
  "cache_new cwd options =
    \<lparr>cf_cwd = cwd,
     cf_ttlMs = max 0 (opt_default default_preview_read_cache_ttl_ms (cao_ttlMs options)),
     cf_maxEntries = max 0 (opt_default default_preview_read_cache_max_entries (cao_maxEntries options)),
     cf_maxBytes = max 0 (opt_default default_preview_read_cache_max_bytes (cao_maxBytes options)),
     cf_maxEntryBytes = max 0 (opt_default default_preview_read_cache_max_entry_bytes (cao_maxEntryBytes options)),
     cf_cache = [], cf_inflight = [], cf_generations = [], cf_cacheBytes = 0\<rparr>"

definition normalizePath :: "'j preview_cache \<Rightarrow> string \<Rightarrow> string" where
  "normalizePath c value = posix_resolve (cf_cwd c) [value]"

definition getGeneration :: "string \<Rightarrow> 'j preview_cache \<Rightarrow> nat" where
  "getGeneration realPath c = opt_default 0 (map_of (cf_generations c) (normalizePath c realPath))"

definition bumpGeneration :: "string \<Rightarrow> 'j preview_cache \<Rightarrow> nat \<times> 'j preview_cache" where
  "bumpGeneration realPath c =
    (let normalized = normalizePath c realPath; after = getGeneration normalized c + 1
     in (after, c\<lparr>cf_generations := AList.update normalized after (cf_generations c)\<rparr>))"

definition makeSnapshotKey :: "'j preview_cache \<Rightarrow> string \<Rightarrow> string \<Rightarrow> nat \<Rightarrow> string" where
  "makeSnapshotKey c realPath signature resourceGeneration =
    normalizePath c realPath @ ''::'' @ signature @ ''::'' @ nat_str resourceGeneration"

definition deleteCached :: "string \<Rightarrow> 'j preview_cache \<Rightarrow> 'j preview_cache" where
  "deleteCached normalizedPath c =
    (case map_of (cf_cache c) normalizedPath of
       None \<Rightarrow> c
     | Some cached \<Rightarrow> c\<lparr>cf_cache := AList.delete normalizedPath (cf_cache c),
                       cf_cacheBytes := max 0 (cf_cacheBytes c - cs_bytes cached)\<rparr>)"

definition sweepExpired :: "int \<Rightarrow> 'j preview_cache \<Rightarrow> 'j preview_cache" where
  "sweepExpired now c =
    fold (\<lambda>(key, cached) c. if cs_expiresAt cached \<le> now then deleteCached key c else c) (cf_cache c) c"

function evictOverLimit :: "'j preview_cache \<Rightarrow> 'j preview_cache" where
  "evictOverLimit c =
    (if int (length (cf_cache c)) > cf_maxEntries c \<or> cf_cacheBytes c > cf_maxBytes c then
       (case cf_cache c of [] \<Rightarrow> c | (oldestKey, cached) # rest \<Rightarrow> evictOverLimit (deleteCached oldestKey c))
     else c)"
  by auto

termination
proof (relation "measure (\<lambda>c. length (cf_cache c))", goal_cases)
  case 1
  then show ?case by simp
next
  case (2 c p rest k e)
  have "length (AList.delete k rest) \<le> length rest" by (simp add: AList.delete_eq)
  moreover have "p = (k, e)" using 2 by simp
  ultimately show ?case using 2(1,2) by (simp add: deleteCached_def)
qed

definition getCached :: "int \<Rightarrow> string \<Rightarrow> string \<Rightarrow> 'j preview_cache \<Rightarrow> snapshot_success option \<times> 'j preview_cache" where
  "getCached now realPath signature c =
    (let c = sweepExpired now c; normalized = normalizePath c realPath in
     case map_of (cf_cache c) normalized of
       None \<Rightarrow> (None, c)
     | Some cached \<Rightarrow>
         if cs_expiresAt cached \<le> now then (None, deleteCached normalized c)
         else if cs_signature cached \<noteq> signature then (None, c)
         else if cs_generation cached \<noteq> getGeneration normalized c then (None, c)
         else (Some (cs_value cached), c))"

definition isWritebackEligible :: "'j preview_cache \<Rightarrow> string \<Rightarrow> nat \<Rightarrow> string \<Rightarrow> string \<Rightarrow> bool" where
  "isWritebackEligible c realPath generation startSignature endSignature \<longleftrightarrow>
     startSignature = endSignature \<and> getGeneration realPath c = generation"

definition estimateSnapshotBytes :: "snapshot_success \<Rightarrow> int" where
  "estimateSnapshotBytes value =
    (let baseBytes = int (length (fi_realPath value)) + int (length (fi_fileName value)) + 256 in
     case sn_payload value of
       Payload_text content \<Rightarrow> baseBytes + int (length content)
     | Payload_base64 content mime \<Rightarrow> baseBytes + int (length content)
     | Payload_stream mime n \<Rightarrow> baseBytes
     | Payload_unavailable error reason \<Rightarrow> baseBytes)"

definition writeSnapshot :: "int \<Rightarrow> snapshot_success \<Rightarrow> nat \<Rightarrow> 'j preview_cache \<Rightarrow> bool \<times> 'j preview_cache" where
  "writeSnapshot now value generation c =
    (let c = sweepExpired now c in
     if \<not> isWritebackEligible c (fi_realPath value) generation (fi_startSignature value) (sn_endSignature value) then (False, c)
     else
       let normalized = normalizePath c (fi_realPath value); bytes = estimateSnapshotBytes value in
       if bytes > cf_maxEntryBytes c \<or> cf_maxEntries c = 0 \<or> cf_maxBytes c = 0 then (False, c)
       else
         let c = deleteCached normalized c;
             c = c\<lparr>cf_cache := AList.update normalized
                     \<lparr>cs_realPath = normalized, cs_signature = fi_startSignature value, cs_generation = generation,
                      cs_expiresAt = now + cf_ttlMs c, cs_bytes = bytes, cs_value = value\<rparr> (cf_cache c),
                   cf_cacheBytes := cf_cacheBytes c + bytes\<rparr>
         in (True, evictOverLimit c))"

definition getInflight :: "string \<Rightarrow> 'j preview_cache \<Rightarrow> 'j option" where
  "getInflight key c = map_of (cf_inflight c) key"

definition setInflight :: "string \<Rightarrow> 'j \<Rightarrow> 'j preview_cache \<Rightarrow> 'j preview_cache" where
  "setInflight key value c = c\<lparr>cf_inflight := AList.update key value (cf_inflight c)\<rparr>"

definition deleteInflight :: "string \<Rightarrow> 'j preview_cache \<Rightarrow> 'j preview_cache" where
  "deleteInflight key c = c\<lparr>cf_inflight := AList.delete key (cf_inflight c)\<rparr>"

definition cache_invalidatePath :: "string \<Rightarrow> 'j preview_cache \<Rightarrow> 'j preview_cache" where
  "cache_invalidatePath realPath c =
    (let normalized = normalizePath c realPath;
         c = deleteCached normalized (snd (bumpGeneration normalized c))
     in c\<lparr>cf_inflight := filter (\<lambda>(key, job). \<not> starts_with key (normalized @ ''::'')) (cf_inflight c)\<rparr>)"

definition cache_clear :: "'j preview_cache \<Rightarrow> 'j preview_cache" where
  "cache_clear c = c\<lparr>cf_cache := [], cf_inflight := [], cf_generations := [], cf_cacheBytes := 0\<rparr>"

definition cacheSize :: "'j preview_cache \<Rightarrow> nat" where
  "cacheSize c = length (cf_cache c)"

definition inflightSize :: "'j preview_cache \<Rightarrow> nat" where
  "inflightSize c = length (cf_inflight c)"

section \<open>Histories\<close>

datatype 'j cache_event =
  Ce_get int string string
| Ce_write int snapshot_success nat
| Ce_invalidate string
| Ce_bump string
| Ce_set_inflight string 'j
| Ce_delete_inflight string
| Ce_clear

fun cache_do :: "'j preview_cache \<Rightarrow> 'j cache_event \<Rightarrow> 'j preview_cache" where
  "cache_do c (Ce_get now p sig) = snd (getCached now p sig c)"
| "cache_do c (Ce_write now v g) = snd (writeSnapshot now v g c)"
| "cache_do c (Ce_invalidate p) = cache_invalidatePath p c"
| "cache_do c (Ce_bump p) = snd (bumpGeneration p c)"
| "cache_do c (Ce_set_inflight key job) = setInflight key job c"
| "cache_do c (Ce_delete_inflight key) = deleteInflight key c"
| "cache_do c Ce_clear = cache_clear c"

definition cache_run :: "string \<Rightarrow> cache_options \<Rightarrow> 'j cache_event list \<Rightarrow> 'j preview_cache" where
  "cache_run cwd options evs = foldl cache_do (cache_new cwd options) evs"

section \<open>Limits\<close>

declare evictOverLimit.simps [simp del]

definition same_setup :: "'j preview_cache \<Rightarrow> 'j preview_cache \<Rightarrow> bool" where
  "same_setup c d \<longleftrightarrow> cf_cwd d = cf_cwd c \<and> cf_ttlMs d = cf_ttlMs c \<and> cf_maxEntries d = cf_maxEntries c \<and>
     cf_maxBytes d = cf_maxBytes c \<and> cf_maxEntryBytes d = cf_maxEntryBytes c"

text \<open>What removing entries leaves alone: the conf and the generations.\<close>

definition only_removes :: "'j preview_cache \<Rightarrow> 'j preview_cache \<Rightarrow> bool" where
  "only_removes c d \<longleftrightarrow> same_setup c d \<and> cf_generations d = cf_generations c \<and> cf_inflight d = cf_inflight c \<and>
     set (cf_cache d) \<subseteq> set (cf_cache c)"

lemma only_removes_refl [simp]: "only_removes c c"
  by (simp add: only_removes_def same_setup_def)

lemma only_removes_trans: "only_removes c d \<Longrightarrow> only_removes d e \<Longrightarrow> only_removes c e"
  by (auto simp: only_removes_def same_setup_def)

lemma set_delete: "set (AList.delete k al) \<subseteq> set al"
  by (auto simp: AList.delete_eq)

lemma only_removes_delete: "only_removes c (deleteCached k c)"
  using set_delete[of k "cf_cache c"] by (auto simp: deleteCached_def only_removes_def same_setup_def split: option.split)

lemma only_removes_sweep: "only_removes c (sweepExpired now c)"
proof -
  have "only_removes d (fold (\<lambda>(key, cached) c. if cs_expiresAt cached \<le> now then deleteCached key c else c) l d)" for l and d :: "'a preview_cache"
  proof (induction l arbitrary: d)
    case (Cons x l)
    obtain k e where x: "x = (k, e)" by fastforce
    show ?case using Cons.IH only_removes_trans[OF only_removes_delete Cons.IH, of d k] by (simp add: x)
  qed simp
  then show ?thesis by (simp add: sweepExpired_def)
qed

lemma only_removes_evict: "only_removes c (evictOverLimit c)"
proof (induction c rule: evictOverLimit.induct)
  case (1 c)
  show ?case
  proof (cases "(int (length (cf_cache c)) > cf_maxEntries c \<or> cf_cacheBytes c > cf_maxBytes c) \<and> cf_cache c \<noteq> []")
    case True
    then obtain k e rest where c: "cf_cache c = (k, e) # rest" by (cases "cf_cache c") auto
    have "only_removes (deleteCached k c) (evictOverLimit (deleteCached k c))" using 1 True c by blast
    then have "only_removes c (evictOverLimit (deleteCached k c))" using only_removes_trans[OF only_removes_delete] by blast
    then show ?thesis using True c by (subst evictOverLimit.simps) simp
  next
    case False
    then have "evictOverLimit c = c" by (subst evictOverLimit.simps) (auto split: list.split)
    then show ?thesis by simp
  qed
qed

definition entry_bytes :: "(string \<times> cached_snapshot) list \<Rightarrow> int" where
  "entry_bytes al = sum_list (map (\<lambda>(k, e). cs_bytes e) al)"

definition cache_ok :: "'j preview_cache \<Rightarrow> bool" where
  "cache_ok c \<longleftrightarrow> distinct (map fst (cf_cache c)) \<and>
     (\<forall>(k, e) \<in> set (cf_cache c). 0 \<le> cs_bytes e \<and> cs_bytes e \<le> cf_maxEntryBytes c \<and> cs_realPath e = k) \<and>
     cf_cacheBytes c = entry_bytes (cf_cache c) \<and> 0 \<le> cf_maxEntries c \<and> 0 \<le> cf_maxBytes c"

definition within_limits :: "'j preview_cache \<Rightarrow> bool" where
  "within_limits c \<longleftrightarrow> int (length (cf_cache c)) \<le> cf_maxEntries c \<and> cf_cacheBytes c \<le> cf_maxBytes c"

lemma entry_bytes_nonneg: "(\<And>k e. (k, e) \<in> set al \<Longrightarrow> 0 \<le> cs_bytes e) \<Longrightarrow> 0 \<le> entry_bytes al"
  by (induction al) (fastforce simp: entry_bytes_def)+

lemma entry_bytes_delete:
  "distinct (map fst al) \<Longrightarrow> map_of al k = Some e \<Longrightarrow> entry_bytes (AList.delete k al) = entry_bytes al - cs_bytes e"
proof (induction al)
  case (Cons x al)
  show ?case
  proof (cases "fst x = k")
    case True
    then have "k \<notin> fst ` set al" using Cons.prems(1) by auto
    then have "AList.delete k al = al" by (simp add: delete_id)
    then show ?thesis using True Cons.prems(2) by (cases x) (auto simp: entry_bytes_def)
  next
    case False
    then show ?thesis using Cons by (auto simp: entry_bytes_def)
  qed
qed simp

lemma cache_ok_delete: "cache_ok c \<Longrightarrow> cache_ok (deleteCached k c)"
proof (cases "map_of (cf_cache c) k")
  case (Some e)
  assume ok: "cache_ok c"
  have "0 \<le> entry_bytes (AList.delete k (cf_cache c))"
    using ok set_delete[of k "cf_cache c"] by (intro entry_bytes_nonneg) (fastforce simp: cache_ok_def)
  then have "max 0 (cf_cacheBytes c - cs_bytes e) = entry_bytes (AList.delete k (cf_cache c))"
    using ok entry_bytes_delete[OF _ Some] by (simp add: cache_ok_def)
  then show ?thesis
    using ok set_delete[of k "cf_cache c"] Some distinct_delete[of "cf_cache c" k] by (auto simp: cache_ok_def deleteCached_def)
qed (simp add: deleteCached_def)

lemma cache_ok_sweep: "cache_ok c \<Longrightarrow> cache_ok (sweepExpired now c)"
proof -
  have "cache_ok d \<Longrightarrow> cache_ok (fold (\<lambda>(key, cached) c. if cs_expiresAt cached \<le> now then deleteCached key c else c) l d)"
    for l and d :: "'a preview_cache"
  proof (induction l arbitrary: d)
    case (Cons x l)
    then show ?case by (cases x) (simp add: cache_ok_delete)
  qed simp
  then show "cache_ok c \<Longrightarrow> cache_ok (sweepExpired now c)" by (simp add: sweepExpired_def)
qed

lemma evict_ok: "cache_ok c \<Longrightarrow> cache_ok (evictOverLimit c) \<and> within_limits (evictOverLimit c)"
proof (induction c rule: evictOverLimit.induct)
  case (1 c)
  show ?case
  proof (cases "int (length (cf_cache c)) > cf_maxEntries c \<or> cf_cacheBytes c > cf_maxBytes c")
    case True
    then have "cf_cache c \<noteq> []" using 1(2) by (auto simp: cache_ok_def entry_bytes_def)
    then obtain k e rest where c: "cf_cache c = (k, e) # rest" by (cases "cf_cache c") auto
    have "cache_ok (evictOverLimit (deleteCached k c)) \<and> within_limits (evictOverLimit (deleteCached k c))"
      using 1(1)[OF True c] cache_ok_delete[OF 1(2)] by blast
    then show ?thesis using True c by (subst (1 2) evictOverLimit.simps) simp
  next
    case False
    then have "evictOverLimit c = c" by (subst evictOverLimit.simps) simp
    then show ?thesis using False 1(2) by (simp add: within_limits_def)
  qed
qed

lemma within_limits_delete: "cache_ok c \<Longrightarrow> within_limits c \<Longrightarrow> within_limits (deleteCached k c)"
proof (cases "map_of (cf_cache c) k")
  case (Some e)
  assume ok: "cache_ok c" and w: "within_limits c"
  have "0 \<le> cs_bytes e" using ok map_of_SomeD[OF Some] by (auto simp: cache_ok_def)
  moreover have "length (AList.delete k (cf_cache c)) \<le> length (cf_cache c)" by (simp add: AList.delete_eq)
  ultimately show ?thesis using w ok Some by (auto simp: within_limits_def deleteCached_def cache_ok_def)
qed (simp add: deleteCached_def)

lemma within_limits_sweep: "cache_ok c \<Longrightarrow> within_limits c \<Longrightarrow> within_limits (sweepExpired now c)"
proof -
  have "cache_ok d \<Longrightarrow> within_limits d \<Longrightarrow>
      within_limits (fold (\<lambda>(key, cached) c. if cs_expiresAt cached \<le> now then deleteCached key c else c) l d)"
    for l and d :: "'a preview_cache"
  proof (induction l arbitrary: d)
    case (Cons x l)
    then show ?case by (cases x) (simp add: cache_ok_delete within_limits_delete)
  qed simp
  then show "cache_ok c \<Longrightarrow> within_limits c \<Longrightarrow> within_limits (sweepExpired now c)" by (simp add: sweepExpired_def)
qed

lemma deleted_key: "map_of (cf_cache (deleteCached k c)) k = None"
  by (auto simp: deleteCached_def delete_conv' split: option.split)

lemma update_new: "map_of al k = None \<Longrightarrow> AList.update k v al = al @ [(k, v)]"
  by (induction al) auto

lemma estimate_bytes_nonneg: "0 \<le> estimateSnapshotBytes v"
  by (simp add: estimateSnapshotBytes_def Let_def split: snapshot_payload.split)

lemma cache_ok_write:
  assumes "cache_ok c" and "within_limits c"
  shows "cache_ok (snd (writeSnapshot now v g c)) \<and> within_limits (snd (writeSnapshot now v g c))"
proof -
  let ?c = "sweepExpired now c"
  let ?k = "normalizePath ?c (fi_realPath v)"
  let ?d = "deleteCached ?k ?c"
  let ?e = "\<lparr>cs_realPath = ?k, cs_signature = fi_startSignature v, cs_generation = g,
      cs_expiresAt = now + cf_ttlMs ?d, cs_bytes = estimateSnapshotBytes v, cs_value = v\<rparr>"
  have c: "cache_ok ?c" "within_limits ?c" using assms by (simp_all add: cache_ok_sweep within_limits_sweep)
  have d: "cache_ok ?d" "cf_maxEntryBytes ?d = cf_maxEntryBytes ?c"
    using cache_ok_delete[OF c(1)] only_removes_delete[of ?c ?k] by (auto simp: only_removes_def same_setup_def)
  have "cache_ok (?d\<lparr>cf_cache := AList.update ?k ?e (cf_cache ?d), cf_cacheBytes := cf_cacheBytes ?d + estimateSnapshotBytes v\<rparr>)"
    if "estimateSnapshotBytes v \<le> cf_maxEntryBytes ?c"
  proof -
    have "?k \<notin> fst ` set (cf_cache ?d)" using deleted_key[of ?k ?c] by (simp add: map_of_eq_None_iff)
    then show ?thesis
      using d that estimate_bytes_nonneg[of v]
      by (auto simp: cache_ok_def entry_bytes_def update_new[OF deleted_key])
  qed
  note evict_ok[OF this]
  then show ?thesis using c by (simp add: writeSnapshot_def Let_def)
qed

lemma limits_step: "cache_ok c \<Longrightarrow> within_limits c \<Longrightarrow> cache_ok (cache_do c ev) \<and> within_limits (cache_do c ev)"
proof (cases ev)
  case (Ce_invalidate p)
  assume a: "cache_ok c" "within_limits c"
  have "cache_ok (snd (bumpGeneration q c)) \<and> within_limits (snd (bumpGeneration q c))" for q
    using a by (simp add: bumpGeneration_def Let_def cache_ok_def within_limits_def)
  then have "cache_ok (deleteCached q (snd (bumpGeneration q c))) \<and> within_limits (deleteCached q (snd (bumpGeneration q c)))" for q
    using cache_ok_delete within_limits_delete by blast
  moreover have "cache_ok (d\<lparr>cf_inflight := l\<rparr>) = cache_ok d" "within_limits (d\<lparr>cf_inflight := l\<rparr>) = within_limits d"
    for d :: "'a preview_cache" and l by (simp_all add: cache_ok_def within_limits_def)
  ultimately show ?thesis by (simp only: Ce_invalidate cache_do.simps cache_invalidatePath_def Let_def simp_thms)
next
  case (Ce_get now p sig)
  assume a: "cache_ok c" "within_limits c"
  then show ?thesis
    by (auto simp: Ce_get getCached_def Let_def cache_ok_sweep within_limits_sweep cache_ok_delete within_limits_delete split: option.split)
next
  case (Ce_write now v g)
  assume "cache_ok c" "within_limits c"
  then show ?thesis using cache_ok_write by (simp add: Ce_write)
qed (simp_all add: bumpGeneration_def setInflight_def deleteInflight_def cache_clear_def Let_def cache_ok_def within_limits_def
    entry_bytes_def)

text \<open>
  The cache keeps its limits: after every history it holds at most the configured number of entries and of bytes, no
  entry above the limit for one, its count of bytes is the sum over its entries, and its entries are of different paths.
\<close>

theorem cache_within_limits:
  "int (cacheSize (cache_run cwd options evs)) \<le> cf_maxEntries (cache_run cwd options evs) \<and>
   cf_cacheBytes (cache_run cwd options evs) = sum_list (map (\<lambda>(k, e). cs_bytes e) (cf_cache (cache_run cwd options evs))) \<and>
   cf_cacheBytes (cache_run cwd options evs) \<le> cf_maxBytes (cache_run cwd options evs) \<and>
   list_all (\<lambda>(k, e). cs_bytes e \<le> cf_maxEntryBytes (cache_run cwd options evs)) (cf_cache (cache_run cwd options evs)) \<and>
   distinct (map fst (cf_cache (cache_run cwd options evs)))"
proof -
  have "cache_ok (cache_run cwd options evs) \<and> within_limits (cache_run cwd options evs)"
  proof (induction evs rule: rev_induct)
    case Nil
    then show ?case by (simp add: cache_run_def cache_new_def cache_ok_def within_limits_def entry_bytes_def)
  next
    case (snoc ev evs)
    then show ?case using limits_step[of "cache_run cwd options evs" ev] by (simp add: cache_run_def)
  qed
  then show ?thesis by (auto simp: cache_ok_def within_limits_def cacheSize_def entry_bytes_def list_all_iff)
qed

section \<open>Hits are current\<close>

lemma resolve_absolute:
  assumes "is_absolute cwd"
  shows "posix_resolve cwd [v] = plain_path (path_segs False (resolve_from [] [v, cwd]))"
proof -
  have "is_absolute (resolve_from [] [v, cwd])" using assms by (cases v; cases cwd) (auto simp: is_absolute_def)
  then show ?thesis by (simp add: posix_resolve_def plain_path_def Let_def del: resolve_from.simps)
qed

lemma resolve_idem:
  assumes "is_absolute cwd"
  shows "posix_resolve cwd [posix_resolve cwd [p]] = posix_resolve cwd [p]"
proof -
  define ss where "ss = path_segs False (resolve_from [] [p, cwd])"
  have q: "posix_resolve cwd [p] = plain_path ss" using resolve_absolute[OF assms] by (simp add: ss_def)
  have "path_segs False (plain_path ss @ ''/'') = path_segs False (plain_path ss)"
    using split_append_slash[of "CHR ''/''" "plain_path ss" "[]"] by (simp add: path_segs_def push_seg_def)
  then have "path_segs False (plain_path ss @ ''/'') = ss" by (simp add: path_segs_plain path_segs_clean ss_def)
  moreover have "resolve_from [] [plain_path ss, cwd] = plain_path ss @ ''/''"
    by (simp add: plain_path_def is_absolute_def)
  ultimately have "posix_resolve cwd [plain_path ss] = plain_path ss"
    using resolve_absolute[OF assms, of "plain_path ss"] by (simp only:)
  then show ?thesis by (simp only: q)
qed

definition gen_of :: "'j preview_cache \<Rightarrow> string \<Rightarrow> nat" where
  "gen_of c k = opt_default 0 (map_of (cf_generations c) k)"

text \<open>The events that end what is known of a path.\<close>

fun touches :: "string \<Rightarrow> string \<Rightarrow> 'j cache_event \<Rightarrow> bool" where
  "touches cwd k (Ce_invalidate p) = (posix_resolve cwd [p] = k)"
| "touches cwd k (Ce_bump p) = (posix_resolve cwd [p] = k)"
| "touches cwd k Ce_clear = True"
| "touches cwd k _ = False"

lemma getGeneration_gen: "getGeneration p c = gen_of c (posix_resolve (cf_cwd c) [p])"
  by (simp add: getGeneration_def gen_of_def normalizePath_def)

lemma removes_gen: "only_removes c d \<Longrightarrow> gen_of d k = gen_of c k \<and> getGeneration p d = getGeneration p c"
  by (simp add: only_removes_def same_setup_def gen_of_def getGeneration_gen)

lemma get_removes: "only_removes c (snd (getCached now p sig c))"
proof -
  have "only_removes c (sweepExpired now c)" by (rule only_removes_sweep)
  moreover have "only_removes c (deleteCached k (sweepExpired now c))" for k
    by (rule only_removes_trans[OF only_removes_sweep only_removes_delete])
  ultimately show ?thesis by (simp add: getCached_def Let_def split: option.split)
qed

text \<open>The entry that an accepted write leaves.\<close>

definition entry_for :: "int \<Rightarrow> 'j preview_cache \<Rightarrow> snapshot_success \<Rightarrow> nat \<Rightarrow> cached_snapshot" where
  "entry_for now c v g = \<lparr>cs_realPath = normalizePath c (fi_realPath v), cs_signature = fi_startSignature v,
     cs_generation = g, cs_expiresAt = now + cf_ttlMs c, cs_bytes = estimateSnapshotBytes v, cs_value = v\<rparr>"

lemma removes_setup:
  "same_setup c w \<and> cf_generations w = cf_generations c \<Longrightarrow> only_removes w d \<Longrightarrow>
   same_setup c d \<and> cf_generations d = cf_generations c"
  by (simp add: only_removes_def same_setup_def)

lemma removes_set: "only_removes w d \<Longrightarrow> x \<in> set (cf_cache d) \<Longrightarrow> x \<in> set (cf_cache w)"
  by (auto simp: only_removes_def)

lemma write_effect:
  "same_setup c (snd (writeSnapshot now v g c)) \<and> cf_generations (snd (writeSnapshot now v g c)) = cf_generations c \<and>
   (fst (writeSnapshot now v g c) \<longrightarrow> fi_startSignature v = sn_endSignature v \<and> getGeneration (fi_realPath v) c = g) \<and>
   (\<forall>x \<in> set (cf_cache (snd (writeSnapshot now v g c))). x \<in> set (cf_cache c) \<or>
      fst (writeSnapshot now v g c) \<and> x = (normalizePath c (fi_realPath v), entry_for now c v g))"
proof -
  let ?c = "sweepExpired now c"
  let ?k = "normalizePath ?c (fi_realPath v)"
  let ?d = "deleteCached ?k ?c"
  let ?e = "\<lparr>cs_realPath = ?k, cs_signature = fi_startSignature v, cs_generation = g,
      cs_expiresAt = now + cf_ttlMs ?d, cs_bytes = estimateSnapshotBytes v, cs_value = v\<rparr>"
  let ?w = "?d\<lparr>cf_cache := AList.update ?k ?e (cf_cache ?d), cf_cacheBytes := cf_cacheBytes ?d + estimateSnapshotBytes v\<rparr>"
  have c: "only_removes c ?c" by (rule only_removes_sweep)
  have d: "only_removes c ?d" using only_removes_trans[OF c only_removes_delete] .
  have k: "?k = normalizePath c (fi_realPath v)" using c by (simp add: only_removes_def same_setup_def normalizePath_def)
  have e: "?e = entry_for now c v g" using d k by (simp add: only_removes_def same_setup_def entry_for_def)
  have gen: "getGeneration (fi_realPath v) ?c = getGeneration (fi_realPath v) c" using removes_gen[OF c] by blast
  have w: "same_setup c ?w \<and> cf_generations ?w = cf_generations c" using d by (simp add: only_removes_def same_setup_def)
  have ws: "x \<in> set (cf_cache c) \<or> x = (?k, ?e)" if "x \<in> set (cf_cache ?w)" for x
  proof -
    have "set (cf_cache ?w) = insert (?k, ?e) (set (cf_cache ?d))" by (simp add: update_new[OF deleted_key])
    then show ?thesis using that d unfolding only_removes_def by blast
  qed
  have ev: "only_removes ?w (evictOverLimit ?w)" by (rule only_removes_evict)
  show ?thesis
  proof (cases "isWritebackEligible ?c (fi_realPath v) g (fi_startSignature v) (sn_endSignature v) \<and>
      \<not> (estimateSnapshotBytes v > cf_maxEntryBytes ?c \<or> cf_maxEntries ?c = 0 \<or> cf_maxBytes ?c = 0)")
    case True
    then have r: "writeSnapshot now v g c = (True, evictOverLimit ?w)" by (simp add: writeSnapshot_def Let_def)
    have "same_setup c (evictOverLimit ?w) \<and> cf_generations (evictOverLimit ?w) = cf_generations c"
      by (rule removes_setup[OF w ev])
    moreover have "x \<in> set (cf_cache c) \<or> x = (normalizePath c (fi_realPath v), entry_for now c v g)"
      if "x \<in> set (cf_cache (evictOverLimit ?w))" for x
      using ws[OF removes_set[OF ev that]] by (simp only: arg_cong2[of _ _ _ _ Pair, OF k e])
    moreover have "fi_startSignature v = sn_endSignature v \<and> getGeneration (fi_realPath v) c = g"
      using True gen by (simp add: isWritebackEligible_def)
    ultimately show ?thesis unfolding r prod.sel by blast
  next
    case False
    then have r: "writeSnapshot now v g c = (False, ?c)" by (auto simp: writeSnapshot_def Let_def)
    show ?thesis unfolding r using c by (auto simp: only_removes_def)
  qed
qed

text \<open>One event: an entry stays, with what the event adds to the generation of its path, or was just written.\<close>

lemma invalidate_effect:
  assumes "is_absolute (cf_cwd c)"
  shows "same_setup c (cache_invalidatePath p c) \<and>
    gen_of (cache_invalidatePath p c) k = gen_of c k + (if posix_resolve (cf_cwd c) [p] = k then 1 else 0) \<and>
    set (cf_cache (cache_invalidatePath p c)) \<subseteq> set (cf_cache c)"
proof -
  let ?k = "posix_resolve (cf_cwd c) [p]"
  let ?b = "c\<lparr>cf_generations := AList.update ?k (gen_of c ?k + 1) (cf_generations c)\<rparr>"
  have b: "snd (bumpGeneration ?k c) = ?b"
    by (simp add: bumpGeneration_def Let_def getGeneration_gen normalizePath_def resolve_idem[OF assms])
  have d: "only_removes ?b (deleteCached ?k ?b)" by (rule only_removes_delete)
  have "gen_of ?b k = gen_of c k + (if ?k = k then 1 else 0)" by (simp add: gen_of_def update_conv')
  moreover have "cache_invalidatePath p c = (deleteCached ?k ?b)
      \<lparr>cf_inflight := filter (\<lambda>(key, job). \<not> starts_with key (?k @ ''::'')) (cf_inflight (deleteCached ?k ?b))\<rparr>"
    using b by (simp add: cache_invalidatePath_def Let_def normalizePath_def)
  ultimately show ?thesis using d by (simp add: only_removes_def same_setup_def gen_of_def)
qed

lemma event_effect:
  assumes "is_absolute (cf_cwd c)"
  shows "same_setup c (cache_do c ev) \<and>
    (\<forall>(k, e) \<in> set (cf_cache (cache_do c ev)).
       ((k, e) \<in> set (cf_cache c) \<or>
        (\<exists>now v g. ev = Ce_write now v g \<and> fst (writeSnapshot now v g c) \<and> k = normalizePath c (fi_realPath v) \<and>
           e = entry_for now c v g \<and> fi_startSignature v = sn_endSignature v \<and> gen_of c k = g))) \<and>
    (ev \<noteq> Ce_clear \<longrightarrow> (\<forall>k. gen_of (cache_do c ev) k = gen_of c k + (if touches (cf_cwd c) k ev then 1 else 0)))"
proof (cases ev)
  case (Ce_get now p sig)
  have r: "only_removes c (cache_do c ev)" using get_removes by (simp add: Ce_get)
  show ?thesis using r removes_gen[OF r] unfolding Ce_get by (auto simp: only_removes_def)
next
  case (Ce_write now v g)
  let ?d = "snd (writeSnapshot now v g c)"
  have w: "same_setup c ?d" "cf_generations ?d = cf_generations c"
    "fst (writeSnapshot now v g c) \<longrightarrow> fi_startSignature v = sn_endSignature v \<and> getGeneration (fi_realPath v) c = g"
    "\<forall>x \<in> set (cf_cache ?d). x \<in> set (cf_cache c) \<or>
      fst (writeSnapshot now v g c) \<and> x = (normalizePath c (fi_realPath v), entry_for now c v g)"
    using write_effect by blast+
  have gens: "gen_of ?d k = gen_of c k" for k using w(2) by (simp add: gen_of_def)
  have "(k, e) \<in> set (cf_cache c) \<or>
        (fst (writeSnapshot now v g c) \<and> k = normalizePath c (fi_realPath v) \<and>
           e = entry_for now c v g \<and> fi_startSignature v = sn_endSignature v \<and> gen_of c k = g)"
    if "(k, e) \<in> set (cf_cache ?d)" for k e
    using w(3) w(4)[rule_format, OF that] by (auto simp: getGeneration_gen normalizePath_def)
  then show ?thesis using w(1) gens unfolding Ce_write cache_do.simps touches.simps by auto
next
  case (Ce_invalidate p)
  show ?thesis using invalidate_effect[OF assms, of p] unfolding Ce_invalidate cache_do.simps touches.simps by auto
next
  case (Ce_bump p)
  show ?thesis
    by (simp add: Ce_bump bumpGeneration_def Let_def same_setup_def gen_of_def getGeneration_gen normalizePath_def
        resolve_idem[OF assms] update_conv')
qed (simp_all add: same_setup_def gen_of_def setInflight_def deleteInflight_def cache_clear_def)

lemma run_setup:
  assumes "is_absolute cwd"
  shows "same_setup (cache_new cwd options) (cache_run cwd options evs)"
proof (induction evs rule: rev_induct)
  case (snoc ev evs)
  then have "is_absolute (cf_cwd (cache_run cwd options evs))" using assms by (simp add: same_setup_def cache_new_def)
  then have "same_setup (cache_run cwd options evs) (cache_do (cache_run cwd options evs) ev)" using event_effect by blast
  then show ?case using snoc by (simp add: same_setup_def cache_run_def)
qed (simp add: same_setup_def cache_run_def)

definition cache_ttl :: "cache_options \<Rightarrow> int" where
  "cache_ttl options = max 0 (opt_default default_preview_read_cache_ttl_ms (cao_ttlMs options))"

definition written_by ::
  "string \<Rightarrow> cache_options \<Rightarrow> 'j cache_event list \<Rightarrow> string \<Rightarrow> cached_snapshot \<Rightarrow> int \<Rightarrow> 'j cache_event list \<Rightarrow> 'j cache_event list \<Rightarrow> bool" where
  "written_by cwd options evs k e now pre post \<longleftrightarrow>
     evs = pre @ Ce_write now (cs_value e) (cs_generation e) # post \<and>
     fst (writeSnapshot now (cs_value e) (cs_generation e) (cache_run cwd options pre)) \<and>
     posix_resolve cwd [fi_realPath (cs_value e)] = k \<and> cs_signature e = fi_startSignature (cs_value e) \<and>
     fi_startSignature (cs_value e) = sn_endSignature (cs_value e) \<and>
     cs_expiresAt e = now + cache_ttl options \<and>
     gen_of (cache_run cwd options evs) k = cs_generation e + length (filter (touches cwd k) post)"

lemma entries_written:
  assumes cwd: "is_absolute cwd"
  shows "(k, e) \<in> set (cf_cache (cache_run cwd options evs)) \<Longrightarrow> \<exists>now pre post. written_by cwd options evs k e now pre post"
proof (induction evs rule: rev_induct)
  case Nil
  then show ?case by (simp add: cache_run_def cache_new_def)
next
  case (snoc ev evs)
  let ?c = "cache_run cwd options evs"
  have conf: "cf_cwd ?c = cwd" "cf_ttlMs ?c = cache_ttl options"
    using run_setup[OF cwd, of options evs] by (simp_all add: same_setup_def cache_new_def cache_ttl_def)
  have run: "cache_run cwd options (evs @ [ev]) = cache_do ?c ev" by (simp add: cache_run_def)
  have eff: "(k, e) \<in> set (cf_cache ?c) \<or>
        (\<exists>now v g. ev = Ce_write now v g \<and> fst (writeSnapshot now v g ?c) \<and> k = normalizePath ?c (fi_realPath v) \<and>
           e = entry_for now ?c v g \<and> fi_startSignature v = sn_endSignature v \<and> gen_of ?c k = g)"
    and gens: "ev \<noteq> Ce_clear \<longrightarrow> gen_of (cache_do ?c ev) k = gen_of ?c k + (if touches cwd k ev then 1 else 0)"
    using event_effect[of ?c ev] cwd snoc.prems unfolding conf(1) run by blast+
  from eff show ?case
  proof
    assume "(k, e) \<in> set (cf_cache ?c)"
    then obtain now pre post where w: "written_by cwd options evs k e now pre post" using snoc.IH by blast
    have "ev \<noteq> Ce_clear" using snoc.prems by (auto simp: run cache_clear_def)
    moreover have "gen_of ?c k = cs_generation e + length (filter (touches cwd k) post)" using w unfolding written_by_def by blast
    ultimately have "gen_of (cache_do ?c ev) k = cs_generation e + length (filter (touches cwd k) (post @ [ev]))"
      using gens by simp
    moreover have "evs @ [ev] = pre @ Ce_write now (cs_value e) (cs_generation e) # (post @ [ev])"
      using w by (simp add: written_by_def)
    ultimately have "written_by cwd options (evs @ [ev]) k e now pre (post @ [ev])"
      using w unfolding written_by_def run by blast
    then show ?thesis by blast
  next
    assume "\<exists>now v g. ev = Ce_write now v g \<and> fst (writeSnapshot now v g ?c) \<and> k = normalizePath ?c (fi_realPath v) \<and>
           e = entry_for now ?c v g \<and> fi_startSignature v = sn_endSignature v \<and> gen_of ?c k = g"
    then obtain now v g where w: "ev = Ce_write now v g" "fst (writeSnapshot now v g ?c)" "k = normalizePath ?c (fi_realPath v)"
      "e = entry_for now ?c v g" "fi_startSignature v = sn_endSignature v" "gen_of ?c k = g" by blast
    have e: "cs_value e = v" "cs_generation e = g" "cs_signature e = fi_startSignature v" "cs_expiresAt e = now + cf_ttlMs ?c"
      using w(4) by (simp_all add: entry_for_def)
    have k: "posix_resolve cwd [fi_realPath v] = k" using w(3) by (simp add: normalizePath_def conf(1))
    have "gen_of (cache_do ?c ev) k = g" using gens w(6) by (simp add: w(1))
    then have "written_by cwd options (evs @ [ev]) k e now evs []"
      unfolding written_by_def run using w(1,2,5) e k conf(2) by simp
    then show ?thesis by blast
  qed
qed

text \<open>
  C38. A hit is current: what the cache returns for a path was written for that path with the signature that is asked for, at
  most its time to live ago, and since then the path was not invalidated; the file had the same signature before and after it was read.
\<close>

theorem cache_hit_is_current:
  assumes "is_absolute cwd" and "fst (getCached now p sig (cache_run cwd options evs)) = Some v"
  shows "\<exists>now' g pre post. evs = pre @ Ce_write now' v g # post \<and> fst (writeSnapshot now' v g (cache_run cwd options pre)) \<and>
    posix_resolve cwd [fi_realPath v] = posix_resolve cwd [p] \<and> fi_startSignature v = sig \<and> sn_endSignature v = sig \<and>
    now < now' + cache_ttl options \<and> filter (touches cwd (posix_resolve cwd [p])) post = []"
proof -
  let ?c = "cache_run cwd options evs"
  let ?s = "sweepExpired now ?c"
  let ?k = "posix_resolve cwd [p]"
  have r: "only_removes ?c ?s" by (rule only_removes_sweep)
  have conf: "cf_cwd ?s = cwd"
    using run_setup[OF assms(1), of options evs] r by (simp add: same_setup_def cache_new_def only_removes_def)
  obtain e where e: "map_of (cf_cache ?s) ?k = Some e" "now < cs_expiresAt e" "cs_signature e = sig"
      "cs_generation e = getGeneration ?k ?s" "cs_value e = v"
    using assms(2) by (auto simp: getCached_def Let_def normalizePath_def conf split: option.splits if_splits)
  have "(?k, e) \<in> set (cf_cache ?c)" using map_of_SomeD[OF e(1)] r by (auto simp: only_removes_def)
  then obtain now' pre post where w: "written_by cwd options evs ?k e now' pre post" using entries_written[OF assms(1)] by blast
  have "cs_generation e = gen_of ?c ?k"
    using e(4) removes_gen[OF r] by (simp add: getGeneration_gen conf resolve_idem[OF assms(1)])
  then have "filter (touches cwd ?k) post = []" using w by (simp add: written_by_def)
  then show ?thesis using w e by (auto simp: written_by_def)
qed

text \<open>
  A read that began before an invalidation is never kept: with the generation that the path had when the read began, the write
  is refused however late it comes, unless the cache was cleared in between.
\<close>

theorem late_write_refused:
  assumes "is_absolute cwd" and "Ce_invalidate p \<in> set evs" and "Ce_clear \<notin> set evs"
    and "posix_resolve cwd [p] = posix_resolve cwd [fi_realPath v]"
  shows "\<not> fst (writeSnapshot now v (getGeneration (fi_realPath v) (cache_run cwd options pre)) (cache_run cwd options (pre @ evs)))"
proof -
  let ?k = "posix_resolve cwd [fi_realPath v]"
  have cwd: "cf_cwd (cache_run cwd options l) = cwd" for l :: "'a cache_event list"
    using run_setup[OF assms(1), of options l] by (simp add: same_setup_def cache_new_def)
  have grow: "gen_of (cache_run cwd options (pre @ l)) ?k = gen_of (cache_run cwd options pre) ?k + length (filter (touches cwd ?k) l)"
    if "Ce_clear \<notin> set l" for l
    using that
  proof (induction l rule: rev_induct)
    case (snoc ev l)
    have "gen_of (cache_do (cache_run cwd options (pre @ l)) ev) ?k =
        gen_of (cache_run cwd options (pre @ l)) ?k + (if touches cwd ?k ev then 1 else 0)"
      using event_effect[of "cache_run cwd options (pre @ l)" ev] assms(1) snoc.prems unfolding cwd by auto
    moreover have "cache_run cwd options (pre @ l @ [ev]) = cache_do (cache_run cwd options (pre @ l)) ev" by (simp add: cache_run_def)
    ultimately show ?case using snoc by simp
  qed simp
  have "touches cwd ?k (Ce_invalidate p)" using assms(4) by simp
  then have "filter (touches cwd ?k) evs \<noteq> []" using assms(2) by (metis filter_empty_conv)
  then have "getGeneration (fi_realPath v) (cache_run cwd options (pre @ evs)) \<noteq> getGeneration (fi_realPath v) (cache_run cwd options pre)"
    using grow[OF assms(3)] by (simp add: getGeneration_gen cwd)
  then show ?thesis using write_effect by blast
qed

definition example_snapshot :: snapshot_success where
  "example_snapshot = \<lparr>fi_realPath = ''/d/a.md'', fi_startSignature = ''7:2'', fi_size = 2, fi_mtimeMs = 7, fi_fileName = ''a.md'',
     fi_classification = classifyFile ''/d/a.md'' 2, sn_endSignature = ''7:2'', sn_payload = Payload_text ''hi''\<rparr>"

definition default_cache_options :: cache_options where
  "default_cache_options = \<lparr>cao_ttlMs = None, cao_maxEntries = None, cao_maxBytes = None, cao_maxEntryBytes = None\<rparr>"

theorem cache_hit_is_current_witness:
  "\<exists>now' g pre post. [Ce_write 10 example_snapshot 0 :: unit cache_event] = pre @ Ce_write now' example_snapshot g # post \<and>
     (100 :: int) < now' + cache_ttl default_cache_options"
proof -
  have "fst (getCached 100 ''/d/./a.md'' ''7:2'' (cache_run ''/'' default_cache_options [Ce_write 10 example_snapshot 0 :: unit cache_event])) =
      Some example_snapshot"
    by code_simp
  from cache_hit_is_current[OF _ this] show ?thesis by (auto simp: is_absolute_def)
qed

theorem late_write_refused_witness:
  "\<not> fst (writeSnapshot 20 example_snapshot 0 (cache_run ''/'' default_cache_options [Ce_invalidate ''/d//a.md'' :: unit cache_event]))"
proof -
  have "posix_resolve ''/'' [''/d//a.md''] = posix_resolve ''/'' [fi_realPath example_snapshot]" by code_simp
  moreover have "getGeneration (fi_realPath example_snapshot) (cache_run ''/'' default_cache_options ([] :: unit cache_event list)) = 0"
    by code_simp
  ultimately show ?thesis
    using late_write_refused[of "''/''" "''/d//a.md''" "[Ce_invalidate ''/d//a.md'' :: unit cache_event]" example_snapshot 20
        default_cache_options "[]"]
    by (simp add: is_absolute_def)
qed

end
