(* ===== verification/PreviewCoordinator.thy ===== *)
theory PreviewCoordinator
  imports PreviewAdmission PreviewFanout PreviewCache
begin

text \<open>
  The coordinator of preview reads, \<open>src/src/daemon/file-preview-read-coordinator.ts\<close>, over the models of its
  parts: admission, worker pool, cache and dispatcher.  A request joins the preflight job of its path, then the
  snapshot job of its file; a job is a pool job and the continuation that waits for its promise.  A promise that the pool
  settled is resumed by an event of its own, in any order.  The drain of a shutdown
  (\<open>file-preview-read-shutdown.ts\<close>) is a list of requests with a deadline.  A message that is built only when
  it is sent is a recipe until then.
\<close>

section \<open>Data\<close>

record coordinator_error_codes =
  cec_queueFull :: string
  cec_timeout :: string
  cec_unavailable :: string
  cec_crashed :: string
  cec_staleRead :: string
  cec_invalidRequest :: string
  cec_internalError :: string

definition default_coordinator_error_codes :: coordinator_error_codes where
  "default_coordinator_error_codes = \<lparr>cec_queueFull = ''preview_worker_queue_full'', cec_timeout = ''preview_worker_timeout'',
     cec_unavailable = ''preview_worker_unavailable'', cec_crashed = ''preview_worker_crashed'', cec_staleRead = ''stale_read'',
     cec_invalidRequest = ''invalid_request'', cec_internalError = ''internal_error''\<rparr>"

datatype attachment_state = At_preflight string | At_snapshot string | At_cache string | At_terminal string

record external_request =
  er_requestId :: string
  er_rawPath :: string
  er_admittedAt :: int
  er_deadlineAt :: int
  er_terminal :: bool
  er_attachmentState :: "attachment_state option"

record preflight_job =
  pj_rawPath :: string
  pj_requestIds :: "string list"
  pj_startedAt :: int

record snapshot_job =
  sj_realPath :: string
  sj_startSignature :: string
  sj_resourceGeneration :: nat
  sj_requestIds :: "string list"
  sj_startedAt :: int

text \<open>What is assembled for a request: an error, with the path it was resolved to and what the worker said, or a snapshot.\<close>

datatype co_message =
  Msg_error string string "string option" string "worker_result option"
| Msg_result string string snapshot_success bool

datatype co_recipe = Ready co_message | Build_result string snapshot_success

datatype co_waiting = Wait_preflight string int | Wait_snapshot string int

record submit_result =
  sr_accepted :: bool
  sr_suppressed :: bool
  sr_invalid :: bool
  sr_admission :: "admission_decision option"

record coordinator =
  co_errorCodes :: coordinator_error_codes
  co_attachedCap :: int
  co_requests :: "(string \<times> external_request) list"
  co_preflights :: "(string \<times> preflight_job) list"
  co_snapshots :: "(string \<times> snapshot_job) list"
  co_fanout :: "co_recipe fanout"
  co_cache :: "snapshot_job preview_cache"
  co_admission :: admission_controller
  co_pool :: "(worker_input, worker_result) pool"
  co_waiting :: "(nat \<times> co_waiting) list"
  co_messages :: "(string option \<times> co_message) list"
  co_drains :: "(string list \<times> int) list"

record coordinator_options =
  coo_errorCodes :: coordinator_error_codes
  coo_attachedCap :: "int option"
  coo_admission :: admission_options
  coo_pool :: pool_options
  coo_cache :: cache_options
  coo_cwd :: string

definition coordinator_new :: "coordinator_options \<Rightarrow> coordinator" where
  "coordinator_new options =
    (let admission = admission_new (coo_admission options) in
     \<lparr>co_errorCodes = coo_errorCodes options,
      co_attachedCap = max 1 (opt_default (adm_attachedCap admission) (coo_attachedCap options)),
      co_requests = [], co_preflights = [], co_snapshots = [], co_fanout = fanout_new,
      co_cache = cache_new (coo_cwd options) (coo_cache options), co_admission = admission,
      co_pool = pool_new (pool_constructor (coo_pool options)), co_waiting = [], co_messages = [], co_drains = []\<rparr>)"

section \<open>Requests and the dispatcher\<close>

text \<open>An operation of the dispatcher, with the callback \<open>onTerminal\<close> for each request that it ended.\<close>

definition onTerminal :: "string \<Rightarrow> coordinator \<Rightarrow> coordinator" where
  "onTerminal requestId c = c\<lparr>co_requests := AList.delete requestId (co_requests c)\<rparr>"

definition with_fanout :: "co_recipe fan_event \<Rightarrow> coordinator \<Rightarrow> coordinator" where
  "with_fanout ev c =
    (let d = fan_do (co_fanout c) ev;
         ended = map fst (drop (length (fo_terminals (co_fanout c))) (fo_terminals d))
     in fold onTerminal ended (c\<lparr>co_fanout := d\<rparr>))"

definition answer_error :: "string \<Rightarrow> string \<Rightarrow> string option \<Rightarrow> string \<Rightarrow> worker_result option \<Rightarrow> co_recipe" where
  "answer_error requestId rawPath resolvedPath error workerError = Ready (Msg_error requestId rawPath resolvedPath error workerError)"

text \<open>A request of a job that is still open.\<close>

definition active_request :: "coordinator \<Rightarrow> string \<Rightarrow> external_request option" where
  "active_request c requestId =
    (case map_of (co_requests c) requestId of None \<Rightarrow> None | Some r \<Rightarrow> if er_terminal r then None else Some r)"

definition set_attachment :: "string \<Rightarrow> attachment_state \<Rightarrow> coordinator \<Rightarrow> coordinator" where
  "set_attachment requestId a c =
    c\<lparr>co_requests := AList.map_entry requestId (\<lambda>r. r\<lparr>er_attachmentState := Some a\<rparr>) (co_requests c)\<rparr>"

definition eligible :: "int \<Rightarrow> coordinator \<Rightarrow> string \<Rightarrow> bool" where
  "eligible now c requestId \<longleftrightarrow> (case active_request c requestId of None \<Rightarrow> False | Some r \<Rightarrow> \<not> er_deadlineAt r \<le> now)"

definition getEligibleRequestIds :: "int \<Rightarrow> string list \<Rightarrow> coordinator \<Rightarrow> string list" where
  "getEligibleRequestIds now requestIds c = filter (eligible now c) requestIds"

definition getWorkerDispatchDeadlineAt :: "int \<Rightarrow> string list \<Rightarrow> coordinator \<Rightarrow> int option" where
  "getWorkerDispatchDeadlineAt now requestIds c =
    fold (\<lambda>requestId deadlineAt. case active_request c requestId of
        None \<Rightarrow> deadlineAt
      | Some r \<Rightarrow> if er_deadlineAt r \<le> now then deadlineAt
          else Some (max (opt_default (er_deadlineAt r) deadlineAt) (er_deadlineAt r))) requestIds None"

definition finish_request :: "string \<Rightarrow> string option \<Rightarrow> string \<Rightarrow> worker_result option \<Rightarrow> string \<Rightarrow> coordinator \<Rightarrow> coordinator" where
  "finish_request reason resolvedPath error workerError requestId c =
    (case active_request c requestId of
       None \<Rightarrow> c
     | Some r \<Rightarrow> with_fanout (Fe_answer requestId (answer_error requestId (er_rawPath r) resolvedPath error workerError) reason) c)"

definition finishJobWithWorkerError :: "string list \<Rightarrow> string \<Rightarrow> worker_result \<Rightarrow> coordinator \<Rightarrow> coordinator" where
  "finishJobWithWorkerError requestIds error result c = fold (finish_request ''worker_error'' None error (Some result)) requestIds c"

definition finishJobWithError :: "string list \<Rightarrow> string \<Rightarrow> string option \<Rightarrow> coordinator \<Rightarrow> coordinator" where
  "finishJobWithError requestIds error resolvedPath c =
    fold (finish_request ''error'' (if truthy resolvedPath then resolvedPath else None) error None) requestIds c"

definition mapDispatchError :: "coordinator_error_codes \<Rightarrow> pool_error \<Rightarrow> string" where
  "mapDispatchError codes e =
    (case e of
       Pool_queue_full \<Rightarrow> cec_queueFull codes
     | Pool_crashed \<Rightarrow> cec_crashed codes
     | Pool_timeout \<Rightarrow> cec_timeout codes
     | Pool_shutdown \<Rightarrow> cec_unavailable codes
     | Pool_unavailable \<Rightarrow> cec_unavailable codes
     | Pool_stale_result \<Rightarrow> cec_staleRead codes)"

definition set_add :: "string \<Rightarrow> string list \<Rightarrow> string list" where
  "set_add x xs = (if x \<in> set xs then xs else xs @ [x])"

section \<open>Jobs\<close>

text \<open>A dispatch to the pool and the continuation of its promise.\<close>

definition dispatchWorker :: "pool_env \<Rightarrow> worker_input \<Rightarrow> int \<Rightarrow> co_waiting \<Rightarrow> coordinator \<Rightarrow> coordinator" where
  "dispatchWorker env inp deadlineAt w c =
    c\<lparr>co_pool := dispatch env inp (Some deadlineAt) (co_pool c), co_waiting := co_waiting c @ [(pp_dispatched (co_pool c), w)]\<rparr>"

definition end_preflight :: "string \<Rightarrow> coordinator \<Rightarrow> coordinator" where
  "end_preflight key c = c\<lparr>co_preflights := AList.delete key (co_preflights c)\<rparr>"

definition end_snapshot :: "string \<Rightarrow> coordinator \<Rightarrow> coordinator" where
  "end_snapshot key c = c\<lparr>co_snapshots := AList.delete key (co_snapshots c), co_cache := deleteInflight key (co_cache c)\<rparr>"

definition runPreflight :: "pool_env \<Rightarrow> string \<Rightarrow> preflight_job \<Rightarrow> coordinator \<Rightarrow> coordinator" where
  "runPreflight env key job c =
    (let startedAt = pe_now env in
     case getWorkerDispatchDeadlineAt startedAt (pj_requestIds job) c of
       None \<Rightarrow> end_preflight key c
     | Some deadlineAt \<Rightarrow> dispatchWorker env (In_preflight (pj_rawPath job)) deadlineAt (Wait_preflight key startedAt) c)"

definition attachToPreflight :: "pool_env \<Rightarrow> external_request \<Rightarrow> coordinator \<Rightarrow> coordinator" where
  "attachToPreflight env record c =
    (let key = er_rawPath record; i = er_requestId record in
     case map_of (co_preflights c) key of
       Some existing \<Rightarrow>
         if int (length (pj_requestIds existing)) \<ge> co_attachedCap c then
           with_fanout (Fe_force i (answer_error i key None (cec_queueFull (co_errorCodes c)) None) ''queue_full'') c
         else set_attachment i (At_preflight key)
           (c\<lparr>co_preflights := AList.update key (existing\<lparr>pj_requestIds := set_add i (pj_requestIds existing)\<rparr>) (co_preflights c)\<rparr>)
     | None \<Rightarrow>
         let job = \<lparr>pj_rawPath = key, pj_requestIds = [i], pj_startedAt = pe_now env\<rparr>
         in runPreflight env key job (set_attachment i (At_preflight key) (c\<lparr>co_preflights := AList.update key job (co_preflights c)\<rparr>)))"

definition runSnapshot :: "pool_env \<Rightarrow> string \<Rightarrow> snapshot_job \<Rightarrow> file_info \<Rightarrow> coordinator \<Rightarrow> coordinator" where
  "runSnapshot env key job preflight c =
    (let startedAt = pe_now env in
     case getWorkerDispatchDeadlineAt startedAt (sj_requestIds job) c of
       None \<Rightarrow> end_snapshot key c
     | Some deadlineAt \<Rightarrow> dispatchWorker env (In_snapshot preflight) deadlineAt (Wait_snapshot key startedAt) c)"

definition attachToSnapshot :: "pool_env \<Rightarrow> file_info \<Rightarrow> external_request \<Rightarrow> coordinator \<Rightarrow> coordinator" where
  "attachToSnapshot env preflight record c =
    (let i = er_requestId record;
         generation = getGeneration (fi_realPath preflight) (co_cache c);
         (cached, cache) = getCached (pe_now env) (fi_realPath preflight) (fi_startSignature preflight) (co_cache c);
         c = c\<lparr>co_cache := cache\<rparr>;
         key = makeSnapshotKey cache (fi_realPath preflight) (fi_startSignature preflight) generation
     in case cached of
          Some v \<Rightarrow>
            with_fanout (Fe_answer i (Ready (Msg_result i (er_rawPath record) v True)) ''success'')
              (set_attachment i (At_cache key) c)
        | None \<Rightarrow>
            (case map_of (co_snapshots c) key of
               Some existing \<Rightarrow>
                 if int (length (sj_requestIds existing)) \<ge> co_attachedCap c then
                   with_fanout (Fe_force i (answer_error i (er_rawPath record) (Some (fi_realPath preflight))
                     (cec_queueFull (co_errorCodes c)) None) ''queue_full'') c
                 else set_attachment i (At_snapshot key)
                   (c\<lparr>co_snapshots := AList.update key (existing\<lparr>sj_requestIds := set_add i (sj_requestIds existing)\<rparr>) (co_snapshots c)\<rparr>)
             | None \<Rightarrow>
                 let job = \<lparr>sj_realPath = fi_realPath preflight, sj_startSignature = fi_startSignature preflight,
                            sj_resourceGeneration = generation, sj_requestIds = [i], sj_startedAt = pe_now env\<rparr>
                 in runSnapshot env key job preflight (set_attachment i (At_snapshot key)
                      (c\<lparr>co_snapshots := AList.update key job (co_snapshots c), co_cache := setInflight key job (co_cache c)\<rparr>))))"

definition attach_active :: "pool_env \<Rightarrow> file_info \<Rightarrow> string \<Rightarrow> coordinator \<Rightarrow> coordinator" where
  "attach_active env preflight requestId c =
    (case active_request c requestId of None \<Rightarrow> c | Some record \<Rightarrow> attachToSnapshot env preflight record c)"

text \<open>What follows the \<open>await\<close> of \<open>runPreflight\<close> and of \<open>runSnapshot\<close>.\<close>

definition record_duration :: "int \<Rightarrow> int \<Rightarrow> coordinator \<Rightarrow> coordinator" where
  "record_duration now startedAt c =
    c\<lparr>co_admission := recordJobDuration (Some (of_int (now - startedAt))) (co_admission c)\<rparr>"

definition preflight_settled :: "pool_env \<Rightarrow> string \<Rightarrow> int \<Rightarrow> worker_result job_outcome \<Rightarrow> coordinator \<Rightarrow> coordinator" where
  "preflight_settled env key startedAt outcome c =
    (case map_of (co_preflights c) key of
       None \<Rightarrow> c
     | Some job \<Rightarrow>
         end_preflight key
           (case outcome of
              Job_rejected e \<Rightarrow> finishJobWithError (pj_requestIds job) (mapDispatchError (co_errorCodes c) e) None c
            | Job_resolved identity result \<Rightarrow>
                let c = record_duration (pe_now env) startedAt c in
                case result of
                  Res_error phase error reason \<Rightarrow> finishJobWithWorkerError (pj_requestIds job) error result c
                | Res_snapshot s \<Rightarrow> finishJobWithError (pj_requestIds job) (cec_internalError (co_errorCodes c)) None c
                | Res_preflight f \<Rightarrow> fold (attach_active env f) (pj_requestIds job) c))"

definition snapshot_settled :: "pool_env \<Rightarrow> string \<Rightarrow> int \<Rightarrow> worker_result job_outcome \<Rightarrow> coordinator \<Rightarrow> coordinator" where
  "snapshot_settled env key startedAt outcome c =
    (case map_of (co_snapshots c) key of
       None \<Rightarrow> c
     | Some job \<Rightarrow>
         end_snapshot key
           (case outcome of
              Job_rejected e \<Rightarrow>
                finishJobWithError (sj_requestIds job) (mapDispatchError (co_errorCodes c) e) (Some (sj_realPath job)) c
            | Job_resolved identity result \<Rightarrow>
                let c = record_duration (pe_now env) startedAt c in
                case result of
                  Res_error phase error reason \<Rightarrow> finishJobWithWorkerError (sj_requestIds job) error result c
                | Res_preflight f \<Rightarrow> finishJobWithError (sj_requestIds job) (cec_internalError (co_errorCodes c)) None c
                | Res_snapshot s \<Rightarrow>
                    if fi_startSignature s \<noteq> sn_endSignature s then
                      finishJobWithError (sj_requestIds job) (cec_staleRead (co_errorCodes c)) (Some (fi_realPath s)) c
                    else
                      let eligibleRequestIds = getEligibleRequestIds (pe_now env) (sj_requestIds job) c in
                      if eligibleRequestIds = [] then c
                      else fold (\<lambda>i. with_fanout (Fe_answer i (Build_result i s) ''success'')) eligibleRequestIds
                        (c\<lparr>co_cache := snd (writeSnapshot (pe_now env) s (sj_resourceGeneration job) (co_cache c))\<rparr>)))"

section \<open>Operations\<close>

definition co_submit :: "pool_env \<Rightarrow> json \<Rightarrow> json \<Rightarrow> coordinator \<Rightarrow> submit_result \<times> coordinator" where
  "co_submit env requestId path c =
    (let no = \<lparr>sr_accepted = False, sr_suppressed = False, sr_invalid = False, sr_admission = None\<rparr>; codes = co_errorCodes c in
     case requestId of
       JStr i \<Rightarrow>
         if i = [] then (no\<lparr>sr_suppressed := True\<rparr>, c)
         else
           let rawPath = (case path of JStr p \<Rightarrow> p | _ \<Rightarrow> []) in
           if rawPath = [] then
             (no\<lparr>sr_invalid := True\<rparr>, with_fanout (Fe_detached (answer_error i rawPath None (cec_invalidRequest codes) None)) c)
           else
             let admission = admission_decide (int (getQueueDepth (co_pool c))) (co_admission c) in
             if \<not> ad_admitted admission then
               (no\<lparr>sr_admission := Some admission\<rparr>,
                with_fanout (Fe_detached (answer_error i rawPath None (cec_queueFull codes) None)) c)
             else
               let (admittedAt, deadlineAt) = deadlineFromNow (pe_now env) (co_admission c);
                   record = \<lparr>er_requestId = i, er_rawPath = rawPath, er_admittedAt = admittedAt, er_deadlineAt = deadlineAt,
                             er_terminal = False, er_attachmentState = None\<rparr>;
                   c = c\<lparr>co_requests := AList.update i record (co_requests c)\<rparr>;
                   c = with_fanout (Fe_register i rawPath deadlineAt (answer_error i rawPath None (cec_timeout codes) None)) c
               in (no\<lparr>sr_accepted := True, sr_admission := Some admission\<rparr>, attachToPreflight env record c)
     | _ \<Rightarrow> (no\<lparr>sr_suppressed := True\<rparr>, c))"

definition getExternalRequest :: "string \<Rightarrow> coordinator \<Rightarrow> external_request option" where
  "getExternalRequest requestId c = map_of (co_requests c) requestId"

definition co_invalidatePath :: "string \<Rightarrow> coordinator \<Rightarrow> coordinator" where
  "co_invalidatePath realPath c = c\<lparr>co_cache := cache_invalidatePath realPath (co_cache c)\<rparr>"

definition co_resume :: "pool_env \<Rightarrow> nat \<Rightarrow> coordinator \<Rightarrow> coordinator" where
  "co_resume env n c =
    (case (map_of (co_waiting c) n, map_of (pp_settled (co_pool c)) n) of
       (Some w, Some outcome) \<Rightarrow>
         let c = c\<lparr>co_waiting := AList.delete n (co_waiting c)\<rparr> in
         (case w of
            Wait_preflight key startedAt \<Rightarrow> preflight_settled env key startedAt outcome c
          | Wait_snapshot key startedAt \<Rightarrow> snapshot_settled env key startedAt outcome c)
     | _ \<Rightarrow> c)"

text \<open>The next operation of the send chain; a message that is built now sees the request as it is now.\<close>

definition render :: "coordinator \<Rightarrow> co_recipe \<Rightarrow> co_message" where
  "render c recipe =
    (case recipe of
       Ready m \<Rightarrow> m
     | Build_result i s \<Rightarrow>
         (case map_of (co_requests c) i of
            None \<Rightarrow> Msg_error i [] None (cec_internalError (co_errorCodes c)) None
          | Some request \<Rightarrow> Msg_result (er_requestId request) (er_rawPath request) s False))"

definition co_send :: "int \<Rightarrow> coordinator \<Rightarrow> coordinator" where
  "co_send now c =
    (let sent = drop (length (fo_sent (co_fanout c))) (fo_sent (fan_run now (co_fanout c)))
     in (with_fanout (Fe_run now) c)\<lparr>co_messages := co_messages c @ map (\<lambda>(tag, recipe). (tag, render c recipe)) sent\<rparr>)"

section \<open>Shutdown\<close>

definition default_preview_read_shutdown_budget_ms :: int where "default_preview_read_shutdown_budget_ms = 1000"

definition shutdown_requests :: "pool_env \<Rightarrow> int \<Rightarrow> coordinator \<Rightarrow> coordinator" where
  "shutdown_requests env budgetMs c =
    (let activeIds = map (er_requestId \<circ> snd) (filter (\<lambda>(k, r). \<not> er_terminal r) (co_requests c))
     in c\<lparr>co_drains := co_drains c @ [(activeIds, pe_now env + max 0 budgetMs)]\<rparr>)"

definition sendUnavailable :: "string \<Rightarrow> coordinator \<Rightarrow> coordinator" where
  "sendUnavailable requestId c =
    (case map_of (co_requests c) requestId of
       None \<Rightarrow> c
     | Some r \<Rightarrow> with_fanout (Fe_force requestId (answer_error requestId (er_rawPath r) None (cec_unavailable (co_errorCodes c)) None)
         ''shutdown'') c)"

definition drain_ends :: "nat \<Rightarrow> coordinator \<Rightarrow> coordinator" where
  "drain_ends k c = c\<lparr>co_drains := take k (co_drains c) @ drop (Suc k) (co_drains c), co_pool := shutdown_begin (co_pool c)\<rparr>"

text \<open>The next round of a drain; past its deadline, at its end or when a flush takes too long, the pool is shut down.\<close>

definition drain_next :: "pool_env \<Rightarrow> nat \<Rightarrow> coordinator \<Rightarrow> coordinator" where
  "drain_next env k c =
    (case co_drains c ! k of
       ([], deadlineAt) \<Rightarrow> drain_ends k c
     | (i # rest, deadlineAt) \<Rightarrow>
         if deadlineAt - pe_now env \<le> 0 then drain_ends k c
         else sendUnavailable i (c\<lparr>co_drains := (co_drains c)[k := (rest, deadlineAt)]\<rparr>))"

section \<open>Events\<close>

datatype co_event =
  Co_submit json json
| Co_pool "(worker_input, worker_result) pool_event"
| Co_resume nat
| Co_timer string
| Co_send
| Co_invalidate string
| Co_shutdown int
| Co_drain nat
| Co_drain_timeout nat

text \<open>What happens in the pool by itself.\<close>

fun pool_internal :: "('i, 'r) pool_event \<Rightarrow> bool" where
  "pool_internal (Pe_dispatch inp d) = False"
| "pool_internal Pe_shutdown = False"
| "pool_internal _ = True"

fun co_step :: "coordinator \<Rightarrow> pool_env \<times> co_event \<Rightarrow> coordinator" where
  "co_step c (env, Co_submit requestId path) = snd (co_submit env requestId path c)"
| "co_step c (env, Co_pool ev) = (if pool_internal ev then c\<lparr>co_pool := pool_step (co_pool c) (env, ev)\<rparr> else c)"
| "co_step c (env, Co_resume n) = co_resume env n c"
| "co_step c (env, Co_timer i) = with_fanout (Fe_timer i) c"
| "co_step c (env, Co_send) = co_send (pe_now env) c"
| "co_step c (env, Co_invalidate p) = co_invalidatePath p c"
| "co_step c (env, Co_shutdown budgetMs) = shutdown_requests env budgetMs c"
| "co_step c (env, Co_drain k) = (if k < length (co_drains c) then drain_next env k c else c)"
| "co_step c (env, Co_drain_timeout k) = (if k < length (co_drains c) then drain_ends k c else c)"

definition co_run :: "coordinator_options \<Rightarrow> (pool_env \<times> co_event) list \<Rightarrow> coordinator" where
  "co_run options evs = foldl co_step (coordinator_new options) evs"

section \<open>The default coordinator\<close>

text \<open>
  The process-wide coordinator that the daemon's commands use: it keeps the callback of each request id and calls it with
  the first message for that id.  Callbacks are values of any type; the log holds their calls.  The random
  id of a new download handle is an argument.
\<close>

fun message_id :: "co_message \<Rightarrow> string" where
  "message_id (Msg_error i p rp e w) = i"
| "message_id (Msg_result i p s cached) = i"

definition default_response :: "policy_options \<Rightarrow> string \<Rightarrow> co_message \<Rightarrow> public_terminal" where
  "default_response opts newId m =
    (case m of
       Msg_error i rawPath resolvedPath e workerError \<Rightarrow>
         (blank_terminal i rawPath False [])\<lparr>pt_resolvedPath := (if truthy resolvedPath then resolvedPath else None), pt_error := Some e\<rparr>
     | Msg_result i rawPath s cached \<Rightarrow> assembleSnapshotTerminal opts newId i rawPath s)"

record 's default_coordinator =
  dc_senders :: "(string \<times> 's) list"
  dc_coordinator :: coordinator
  dc_delivered :: "('s \<times> co_message) list"

definition default_new :: "coordinator_options \<Rightarrow> 's default_coordinator" where
  "default_new options =
    \<lparr>dc_senders = [], dc_coordinator = coordinator_new (options\<lparr>coo_errorCodes := default_coordinator_error_codes\<rparr>), dc_delivered = []\<rparr>"

definition default_handle :: "pool_env \<Rightarrow> json \<Rightarrow> json \<Rightarrow> 's \<Rightarrow> 's default_coordinator \<Rightarrow> 's default_coordinator" where
  "default_handle env path requestId send d =
    (let d = (case requestId of
          JStr i \<Rightarrow> if i = [] then d else d\<lparr>dc_senders := AList.update i send (dc_senders d)\<rparr>
        | _ \<Rightarrow> d)
     in d\<lparr>dc_coordinator := snd (co_submit env requestId path (dc_coordinator d))\<rparr>)"

definition default_deliver :: "co_message \<Rightarrow> 's default_coordinator \<Rightarrow> 's default_coordinator" where
  "default_deliver m d =
    (case map_of (dc_senders d) (message_id m) of
       None \<Rightarrow> d
     | Some send \<Rightarrow> d\<lparr>dc_senders := AList.delete (message_id m) (dc_senders d), dc_delivered := dc_delivered d @ [(send, m)]\<rparr>)"

datatype 's default_event =
  De_handle json json 's
| De_event co_event
| De_shutdown_done

text \<open>An event of the coordinator, with the callbacks for what it sends.\<close>

definition default_follow :: "pool_env \<Rightarrow> co_event \<Rightarrow> 's default_coordinator \<Rightarrow> 's default_coordinator" where
  "default_follow env ev d =
    (let c = co_step (dc_coordinator d) (env, ev);
         sent = drop (length (co_messages (dc_coordinator d))) (co_messages c)
     in fold default_deliver (map snd sent) (d\<lparr>dc_coordinator := c\<rparr>))"

fun default_step :: "'s default_coordinator \<Rightarrow> pool_env \<times> 's default_event \<Rightarrow> 's default_coordinator" where
  "default_step d (env, De_handle path requestId send) = default_handle env path requestId send d"
| "default_step d (env, De_event ev) = (case ev of Co_submit i p \<Rightarrow> d | _ \<Rightarrow> default_follow env ev d)"
| "default_step d (env, De_shutdown_done) = d\<lparr>dc_senders := []\<rparr>"

definition default_run :: "coordinator_options \<Rightarrow> (pool_env \<times> 's default_event) list \<Rightarrow> 's default_coordinator" where
  "default_run options evs = foldl default_step (default_new options) evs"

end
