(* ===== verification/CoordinatorServed.thy ===== *)
theory CoordinatorServed
  imports PreviewCoordinator
begin

text \<open>
  The open requests of the coordinator: the requests and the dispatcher agree (\<open>linked\<close>); each operation keeps the
  requests that it does not answer served (\<open>keeps\<close>) and leaves those of its own job served (\<open>settles\<close>), while a job
  that is being finished counts for nobody; so every open request is served after every history.
\<close>

section \<open>The dispatcher and the requests agree\<close>

text \<open>The dispatcher's events that only end requests: no new registration, no cancel, no clear.\<close>

fun ends_only :: "'m fan_event \<Rightarrow> bool" where
  "ends_only (Fe_register i p t m) = False"
| "ends_only (Fe_cancel i r) = False"
| "ends_only Fe_clear = False"
| "ends_only _ = True"

text \<open>What one event leaves: every request that it ended is named, and no other is touched.\<close>

definition ended_by :: "'m fanout \<Rightarrow> 'm fanout \<Rightarrow> bool" where
  "ended_by d e \<longleftrightarrow> (\<exists>new. fo_terminals e = fo_terminals d @ new \<and> (\<forall>i. fan_has i e = (fan_has i d \<and> i \<notin> fst ` set new)))"

lemma ended_refl: "fo_terminals e = fo_terminals d \<Longrightarrow> fo_records e = fo_records d \<Longrightarrow> ended_by d e"
  by (simp add: ended_by_def fan_has_def)

lemma terminals_fields [simp]:
  "fo_terminals (fan_enqueue op d) = fo_terminals d" "fo_terminals (safeSend tag m d) = fo_terminals d"
  "fo_records (fan_enqueue op d) = fo_records d" "fo_records (safeSend tag m d) = fo_records d"
  by (simp_all add: fan_enqueue_def safeSend_def)

lemma ended_mark: "fan_wf d \<Longrightarrow> ended_by d (markTerminal i reason d)"
  by (cases "fan_has i d") (auto simp: ended_by_def fan_wf_mark fan_has_def[of _ "d\<lparr>fo_records := _, fo_terminals := _\<rparr>"] delete_conv' fan_has_def)

lemma ended_fields [simp]:
  "ended_by d (fan_enqueue op e) = ended_by d e" "ended_by d (safeSend tag m e) = ended_by d e"
  "ended_by (d\<lparr>fo_chain := ops\<rparr>) e = ended_by d e"
  by (simp_all add: ended_by_def)

lemma ended_self [simp]: "ended_by d d"
  by (simp add: ended_refl)

lemma fan_ended: "fan_wf d \<Longrightarrow> ends_only ev \<Longrightarrow> ended_by d (fan_do d ev)"
proof (cases ev)
  case (Fe_run now)
  assume wf: "fan_wf d"
  show ?thesis
  proof (cases "fo_chain d")
    case (Cons op ops)
    have "ended_by (d\<lparr>fo_chain := ops\<rparr>) (markTerminal i r (d\<lparr>fo_chain := ops\<rparr>))" for i r
      using wf by (intro ended_mark) simp
    then show ?thesis
      by (simp add: Fe_run fan_run_def Cons fan_perform_def ended_refl split: fan_operation.split option.split)
  qed (simp add: Fe_run fan_run_def)
qed (simp_all add: sendTerminal_def forceTerminal_def sendDetached_def timeoutRecord_def ended_mark split: option.split)

text \<open>The dispatcher holds a record for exactly the open requests, each under its own id.\<close>

definition linked :: "coordinator \<Rightarrow> bool" where
  "linked c \<longleftrightarrow> fan_wf (co_fanout c) \<and> distinct (map fst (co_requests c)) \<and>
     (\<forall>i. (map_of (co_requests c) i \<noteq> None) = fan_has i (co_fanout c)) \<and>
     (\<forall>i r. map_of (co_requests c) i = Some r \<longrightarrow> er_requestId r = i \<and> \<not> er_terminal r)"

lemma onTerminal_fold: "fold onTerminal ids c = c\<lparr>co_requests := fold AList.delete ids (co_requests c)\<rparr>"
  by (induction ids arbitrary: c) (simp_all add: onTerminal_def)

lemma map_of_deletes: "map_of (fold AList.delete ids al) i = (if i \<in> set ids then None else map_of al i)"
  by (induction ids arbitrary: al) (auto simp: delete_conv')

lemma distinct_deletes: "distinct (map fst al) \<Longrightarrow> distinct (map fst (fold AList.delete ids al))"
  by (induction ids arbitrary: al) (simp_all add: distinct_delete)

lemma with_fanout_fields [simp]:
  "co_fanout (with_fanout ev c) = fan_do (co_fanout c) ev" "co_preflights (with_fanout ev c) = co_preflights c"
  "co_snapshots (with_fanout ev c) = co_snapshots c" "co_waiting (with_fanout ev c) = co_waiting c"
  "co_pool (with_fanout ev c) = co_pool c" "co_cache (with_fanout ev c) = co_cache c"
  "co_admission (with_fanout ev c) = co_admission c" "co_errorCodes (with_fanout ev c) = co_errorCodes c"
  "co_attachedCap (with_fanout ev c) = co_attachedCap c" "co_messages (with_fanout ev c) = co_messages c"
  "co_drains (with_fanout ev c) = co_drains c"
  by (simp_all add: with_fanout_def Let_def onTerminal_fold)

lemma with_fanout_requests:
  assumes "linked c" and "ends_only ev"
  shows "map_of (co_requests (with_fanout ev c)) i = (if fan_has i (fan_do (co_fanout c) ev) then map_of (co_requests c) i else None)"
proof -
  obtain new where new: "fo_terminals (fan_do (co_fanout c) ev) = fo_terminals (co_fanout c) @ new"
      "fan_has i (fan_do (co_fanout c) ev) = (fan_has i (co_fanout c) \<and> i \<notin> fst ` set new)"
    using fan_ended[OF _ assms(2), of "co_fanout c"] assms(1) by (auto simp: linked_def ended_by_def)
  have "(map_of (co_requests c) i \<noteq> None) = fan_has i (co_fanout c)" using assms(1) unfolding linked_def by blast
  then show ?thesis by (auto simp: with_fanout_def Let_def onTerminal_fold map_of_deletes new)
qed

lemma linked_with_fanout:
  assumes "linked c" and "ends_only ev"
  shows "linked (with_fanout ev c)"
proof -
  have "distinct (map fst (co_requests (with_fanout ev c)))"
    using assms(1) by (simp add: with_fanout_def Let_def onTerminal_fold distinct_deletes linked_def)
  moreover have "ended_by (co_fanout c) (fan_do (co_fanout c) ev)" using assms fan_ended by (auto simp: linked_def)
  ultimately show ?thesis
    using assms(1) fan_wf_do by (auto simp: linked_def with_fanout_requests[OF assms] ended_by_def split: if_splits)
qed

lemma linked_has: "linked c \<Longrightarrow> fan_has i (co_fanout c) = (map_of (co_requests c) i \<noteq> None)"
  unfolding linked_def by blast

lemma linked_active: "linked c \<Longrightarrow> active_request c i = map_of (co_requests c) i"
  by (auto simp: active_request_def linked_def split: option.split)

section \<open>Where an open request stands\<close>

text \<open>
  A request is served by a job of its path or of its file whose promise is waited for, by an answer in the
  send chain, or it is left to its timer, for its deadline had passed at a clock reading of \<open>T\<close>.  A job that is being
  finished (its key in \<open>XP\<close> or \<open>XS\<close>) serves nobody.
\<close>

definition waits :: "coordinator \<Rightarrow> co_waiting set" where
  "waits c = ran (map_of (co_waiting c))"

definition preflight_serves :: "string set \<Rightarrow> coordinator \<Rightarrow> string \<Rightarrow> bool" where
  "preflight_serves XP c i \<longleftrightarrow> (\<exists>k job t. k \<notin> XP \<and> map_of (co_preflights c) k = Some job \<and> i \<in> set (pj_requestIds job) \<and>
     Wait_preflight k t \<in> waits c)"

definition snapshot_serves :: "string set \<Rightarrow> coordinator \<Rightarrow> string \<Rightarrow> bool" where
  "snapshot_serves XS c i \<longleftrightarrow> (\<exists>k job t. k \<notin> XS \<and> map_of (co_snapshots c) k = Some job \<and> i \<in> set (sj_requestIds job) \<and>
     Wait_snapshot k t \<in> waits c)"

definition answer_queued :: "coordinator \<Rightarrow> string \<Rightarrow> bool" where
  "answer_queued c i \<longleftrightarrow> (\<exists>m r. Fan_answer i m r \<in> set (fo_chain (co_fanout c)))"

definition overdue :: "int set \<Rightarrow> coordinator \<Rightarrow> string \<Rightarrow> bool" where
  "overdue T c i \<longleftrightarrow> (\<exists>r t. map_of (co_requests c) i = Some r \<and> t \<in> T \<and> er_deadlineAt r \<le> t)"

definition served :: "string set \<Rightarrow> string set \<Rightarrow> int set \<Rightarrow> coordinator \<Rightarrow> string \<Rightarrow> bool" where
  "served XP XS T c i \<longleftrightarrow> preflight_serves XP c i \<or> snapshot_serves XS c i \<or> answer_queued c i \<or> overdue T c i"

text \<open>
  The shape of a state: the two maps of requests agree, every job but the excluded ones is waited for, with ids of
  dispatches the pool has given, no job holds more requests than the cap, and every open request but the excluded
  ones is served.
\<close>

definition jobs_waited :: "string set \<Rightarrow> string set \<Rightarrow> coordinator \<Rightarrow> bool" where
  "jobs_waited XP XS c \<longleftrightarrow>
     (\<forall>k job. map_of (co_preflights c) k = Some job \<longrightarrow> k \<notin> XP \<longrightarrow> (\<exists>t. Wait_preflight k t \<in> waits c)) \<and>
     (\<forall>k job. map_of (co_snapshots c) k = Some job \<longrightarrow> k \<notin> XS \<longrightarrow> (\<exists>t. Wait_snapshot k t \<in> waits c)) \<and>
     fst ` set (co_waiting c) \<subseteq> {..<pp_dispatched (co_pool c)} \<and> distinct (map fst (co_waiting c))"

definition capped :: "coordinator \<Rightarrow> bool" where
  "capped c \<longleftrightarrow> 1 \<le> co_attachedCap c \<and>
     (\<forall>k job. map_of (co_preflights c) k = Some job \<longrightarrow> int (length (pj_requestIds job)) \<le> co_attachedCap c) \<and>
     (\<forall>k job. map_of (co_snapshots c) k = Some job \<longrightarrow> int (length (sj_requestIds job)) \<le> co_attachedCap c)"

definition co_ok :: "string set \<Rightarrow> string set \<Rightarrow> coordinator \<Rightarrow> bool" where
  "co_ok XP XS c \<longleftrightarrow> linked c \<and> jobs_waited XP XS c \<and> capped c"

text \<open>What a step leaves to the other requests: they stay served as long as they are open.\<close>

definition keeps :: "string set \<Rightarrow> string set \<Rightarrow> int set \<Rightarrow> coordinator \<Rightarrow> coordinator \<Rightarrow> bool" where
  "keeps XP XS T c c' \<longleftrightarrow> co_ok XP XS c' \<and>
     (\<forall>i r'. map_of (co_requests c') i = Some r' \<longrightarrow>
        (\<exists>r. map_of (co_requests c) i = Some r \<and> er_deadlineAt r = er_deadlineAt r' \<and> er_rawPath r = er_rawPath r')) \<and>
     (\<forall>i. map_of (co_requests c') i \<noteq> None \<longrightarrow> served XP XS T c i \<longrightarrow> served XP XS T c' i)"

lemma keeps_refl: "co_ok XP XS c \<Longrightarrow> keeps XP XS T c c"
  by (simp add: keeps_def)

lemma keeps_ok: "keeps XP XS T c c' \<Longrightarrow> co_ok XP XS c'"
  by (simp add: keeps_def)

lemma keeps_served: "keeps XP XS T c c' \<Longrightarrow> served XP XS T c i \<Longrightarrow> map_of (co_requests c') i \<noteq> None \<Longrightarrow> served XP XS T c' i"
  unfolding keeps_def by blast

lemma keeps_open: "keeps XP XS T c c' \<Longrightarrow> map_of (co_requests c') i \<noteq> None \<Longrightarrow> map_of (co_requests c) i \<noteq> None"
  unfolding keeps_def by blast

lemma keeps_trans:
  assumes "keeps XP XS T c c'" and "keeps XP XS T c' c''"
  shows "keeps XP XS T c c''"
proof -
  have "\<exists>r. map_of (co_requests c) i = Some r \<and> er_deadlineAt r = er_deadlineAt r'' \<and> er_rawPath r = er_rawPath r''"
    if "map_of (co_requests c'') i = Some r''" for i r''
    using assms that unfolding keeps_def by metis
  moreover have "served XP XS T c'' i" if "map_of (co_requests c'') i \<noteq> None" "served XP XS T c i" for i
    using keeps_served[OF assms(2)] keeps_served[OF assms(1)] keeps_open[OF assms(2)] that by blast
  ultimately show ?thesis using keeps_ok[OF assms(2)] unfolding keeps_def by blast
qed

lemma keeps_fold:
  assumes "\<And>x c. x \<in> set xs \<Longrightarrow> co_ok XP XS c \<Longrightarrow> keeps XP XS T c (f x c)" and "co_ok XP XS c"
  shows "keeps XP XS T c (fold f xs c)"
  using assms
proof (induction xs arbitrary: c)
  case (Cons x xs)
  have "keeps XP XS T c (f x c)" using Cons.prems by simp
  moreover have "keeps XP XS T (f x c) (fold f xs (f x c))"
    using Cons.IH[OF _ keeps_ok[OF calculation]] Cons.prems(1) by simp
  ultimately show ?case using keeps_trans by simp
qed (simp add: keeps_refl)

text \<open>After a fold, what each of its steps closed or got served is closed or served.\<close>

lemma fold_serves:
  assumes "\<And>x c. x \<in> set xs \<Longrightarrow> co_ok XP XS c \<Longrightarrow> keeps XP XS T c (f x c)" and "co_ok XP XS c"
    and "\<And>x c. x \<in> set xs \<Longrightarrow> co_ok XP XS c \<Longrightarrow> map_of (co_requests (f x c)) x \<noteq> None \<Longrightarrow> served XP XS T (f x c) x"
    and "x \<in> set xs" and "map_of (co_requests (fold f xs c)) x \<noteq> None"
  shows "served XP XS T (fold f xs c) x"
  using assms
proof (induction xs arbitrary: c)
  case (Cons y xs)
  have step: "keeps XP XS T c (f y c)" using Cons.prems by simp
  have rest: "keeps XP XS T (f y c) (fold f xs (f y c))" using Cons.prems(1) keeps_ok[OF step] by (intro keeps_fold) simp_all
  show ?case
  proof (cases "x \<in> set xs")
    case True
    then show ?thesis using Cons.IH[of "f y c"] Cons.prems keeps_ok[OF step] by simp
  next
    case False
    then have "x = y" using Cons.prems(4) by simp
    moreover have "map_of (co_requests (f y c)) x \<noteq> None" using keeps_open[OF rest] Cons.prems(5) by simp
    ultimately have "served XP XS T (f y c) x" using Cons.prems(2,3) by simp
    then show ?thesis using keeps_served[OF rest] Cons.prems(5) by simp
  qed
qed simp

section \<open>Each operation keeps the others served\<close>

lemma chain_run:
  assumes "fan_wf d" and "Fan_answer i m r \<in> set (fo_chain d)" and "fan_has i (fan_run now d)"
  shows "Fan_answer i m r \<in> set (fo_chain (fan_run now d))"
proof (cases "fo_chain d")
  case (Cons op ops)
  then have "op \<noteq> Fan_answer i m r" using run_answer_closes[OF assms(1)] assms(3) by metis
  then show ?thesis using assms(2) Cons by (simp add: run_chain)
qed (use assms in simp)

lemma chain_grows:
  "ends_only ev \<Longrightarrow> (\<forall>t. ev \<noteq> Fe_run t) \<Longrightarrow> set (fo_chain d) \<subseteq> set (fo_chain (fan_do d ev))"
  by (cases ev) (auto simp: sendTerminal_def forceTerminal_def sendDetached_def timeoutRecord_def fan_enqueue_def markTerminal_def
      split: option.split)

lemma answer_stays:
  assumes "fan_wf d" and "ends_only ev" and "Fan_answer i m r \<in> set (fo_chain d)" and "fan_has i (fan_do d ev)"
  shows "Fan_answer i m r \<in> set (fo_chain (fan_do d ev))"
proof (cases "\<exists>t. ev = Fe_run t")
  case True
  then show ?thesis using assms chain_run by auto
next
  case False
  then show ?thesis using chain_grows[OF assms(2)] assms(3) by blast
qed

lemma keeps_with_fanout:
  assumes "co_ok XP XS c" and "ends_only ev"
  shows "keeps XP XS T c (with_fanout ev c)"
proof -
  have l: "linked c" using assms(1) by (simp add: co_ok_def)
  note req = with_fanout_requests[OF l assms(2)]
  have "co_ok XP XS (with_fanout ev c)"
    using assms linked_with_fanout[OF l] by (simp add: co_ok_def jobs_waited_def capped_def waits_def)
  moreover have "served XP XS T (with_fanout ev c) i"
    if "map_of (co_requests (with_fanout ev c)) i \<noteq> None" "served XP XS T c i" for i
  proof -
    have has: "fan_has i (fan_do (co_fanout c) ev)" and same: "map_of (co_requests (with_fanout ev c)) i = map_of (co_requests c) i"
      using that(1) by (simp_all add: req split: if_splits)
    have "answer_queued c i \<Longrightarrow> answer_queued (with_fanout ev c) i"
      using answer_stays[OF _ assms(2) _ has] l unfolding answer_queued_def linked_def with_fanout_fields by blast
    then show ?thesis using that(2)
      unfolding served_def preflight_serves_def snapshot_serves_def overdue_def waits_def with_fanout_fields same by blast
  qed
  ultimately show ?thesis by (auto simp: keeps_def req split: if_splits)
qed

text \<open>A queued or forced answer serves its request.\<close>

lemma answer_serves:
  assumes "linked c" and "map_of (co_requests c) i \<noteq> None"
  shows "answer_queued (with_fanout (Fe_answer i m r) c) i"
  using assms linked_has[OF assms(1), of i] open_iff[of "co_fanout c" i]
  by (auto simp: answer_queued_def sendTerminal_def fan_enqueue_def linked_def)

lemma force_closes:
  assumes "linked c"
  shows "map_of (co_requests (with_fanout (Fe_force i m r) c)) i = None"
proof -
  have wf: "fan_wf (co_fanout c)" using assms by (simp add: linked_def)
  have "\<not> fan_has i (fan_do (co_fanout c) (Fe_force i m r))"
    using open_iff[OF wf, of i] by (simp add: forceTerminal_def fan_has_mark[OF wf])
  then show ?thesis using with_fanout_requests[OF assms, of "Fe_force i m r" i] by simp
qed

text \<open>Changes of a state that no other request sees.\<close>

lemma set_attachment_map:
  "map_of (co_requests (set_attachment j a c)) i =
    (if i = j then map_option (\<lambda>r. r\<lparr>er_attachmentState := Some a\<rparr>) (map_of (co_requests c) j) else map_of (co_requests c) i)"
  by (auto simp: set_attachment_def map_of_map_entry split: option.split)

lemma set_attachment_fields [simp]:
  "co_fanout (set_attachment j a c) = co_fanout c" "co_preflights (set_attachment j a c) = co_preflights c"
  "co_snapshots (set_attachment j a c) = co_snapshots c" "co_waiting (set_attachment j a c) = co_waiting c"
  "co_pool (set_attachment j a c) = co_pool c" "co_cache (set_attachment j a c) = co_cache c"
  "co_attachedCap (set_attachment j a c) = co_attachedCap c" "co_errorCodes (set_attachment j a c) = co_errorCodes c"
  "co_messages (set_attachment j a c) = co_messages c" "co_drains (set_attachment j a c) = co_drains c"
  "co_admission (set_attachment j a c) = co_admission c"
  by (simp_all add: set_attachment_def)

lemma keys_map_entry: "map fst (AList.map_entry k f al) = map fst al"
  by (induction al) auto

lemma linked_set_attachment: "linked c \<Longrightarrow> linked (set_attachment j a c)"
proof -
  assume l: "linked c"
  have "map fst (co_requests (set_attachment j a c)) = map fst (co_requests c)"
    by (simp add: set_attachment_def keys_map_entry)
  then show ?thesis using l unfolding linked_def set_attachment_fields set_attachment_map
    by (auto split: if_splits)
qed

text \<open>A change that keeps the requests, the chain and every job, and only adds waiters, keeps what is served.\<close>

definition same_requests :: "coordinator \<Rightarrow> coordinator \<Rightarrow> bool" where
  "same_requests c c' \<longleftrightarrow> co_fanout c' = co_fanout c \<and>
     (\<forall>i. map_option (\<lambda>r. (er_deadlineAt r, er_rawPath r)) (map_of (co_requests c') i)
        = map_option (\<lambda>r. (er_deadlineAt r, er_rawPath r)) (map_of (co_requests c) i))"

definition jobs_grow :: "string set \<Rightarrow> string set \<Rightarrow> coordinator \<Rightarrow> coordinator \<Rightarrow> bool" where
  "jobs_grow XP XS c c' \<longleftrightarrow>
     (\<forall>k job. k \<notin> XP \<longrightarrow> map_of (co_preflights c) k = Some job \<longrightarrow>
        (\<exists>job'. map_of (co_preflights c') k = Some job' \<and> set (pj_requestIds job) \<subseteq> set (pj_requestIds job'))) \<and>
     (\<forall>k job. k \<notin> XS \<longrightarrow> map_of (co_snapshots c) k = Some job \<longrightarrow>
        (\<exists>job'. map_of (co_snapshots c') k = Some job' \<and> set (sj_requestIds job) \<subseteq> set (sj_requestIds job'))) \<and>
     waits c \<subseteq> waits c'"

lemma keeps_grow:
  assumes "same_requests c c'" and "jobs_grow XP XS c c'" and "co_ok XP XS c'"
  shows "keeps XP XS T c c'"
proof -
  have req: "\<exists>r. map_of (co_requests c) i = Some r \<and> er_deadlineAt r = er_deadlineAt r' \<and> er_rawPath r = er_rawPath r'"
    if "map_of (co_requests c') i = Some r'" for i r'
  proof -
    have "map_option (\<lambda>r. (er_deadlineAt r, er_rawPath r)) (map_of (co_requests c) i) = Some (er_deadlineAt r', er_rawPath r')"
      using assms(1) that unfolding same_requests_def by (metis option.simps(9))
    then show ?thesis by auto
  qed
  have over: "overdue T c i \<Longrightarrow> overdue T c' i" for i
  proof -
    assume "overdue T c i"
    then obtain r t where r: "map_of (co_requests c) i = Some r" "t \<in> T" "er_deadlineAt r \<le> t" by (auto simp: overdue_def)
    have "map_option (\<lambda>r. (er_deadlineAt r, er_rawPath r)) (map_of (co_requests c') i) = Some (er_deadlineAt r, er_rawPath r)"
      using assms(1) r(1) unfolding same_requests_def by (metis option.simps(9))
    then show ?thesis using r by (auto simp: overdue_def)
  qed
  have "preflight_serves XP c i \<Longrightarrow> preflight_serves XP c' i" "snapshot_serves XS c i \<Longrightarrow> snapshot_serves XS c' i" for i
    using assms(2) unfolding preflight_serves_def snapshot_serves_def jobs_grow_def by (meson subsetD)+
  moreover have "answer_queued c i \<Longrightarrow> answer_queued c' i" for i
    using assms(1) by (simp add: answer_queued_def same_requests_def)
  ultimately have "served XP XS T c i \<Longrightarrow> served XP XS T c' i" for i
    using over unfolding served_def by blast
  then show ?thesis using req assms(3) unfolding keeps_def by blast
qed

lemma linked_same_requests:
  assumes "linked c" and "co_fanout c' = co_fanout c" and "co_requests c' = co_requests c"
  shows "linked c'"
  using assms(1) unfolding linked_def assms(2,3) .

lemma same_requests_set [simp]: "same_requests c (set_attachment i a c') = same_requests c c'"
  by (auto simp: same_requests_def set_attachment_map option.map_comp o_def)

lemma same_requests_same: "co_fanout c' = co_fanout c \<Longrightarrow> co_requests c' = co_requests c \<Longrightarrow> same_requests c c'"
  by (simp add: same_requests_def)

text \<open>A dispatch to the pool.\<close>

lemma dispatch_dispatched: "pp_dispatched (dispatch env inp d p) = Suc (pp_dispatched p)"
  using dispatched_step[of p "(env, Pe_dispatch inp d)"] by (simp add: dispatches_def)

lemma dispatchWorker_fields [simp]:
  "co_fanout (dispatchWorker env inp d w c) = co_fanout c" "co_requests (dispatchWorker env inp d w c) = co_requests c"
  "co_preflights (dispatchWorker env inp d w c) = co_preflights c" "co_snapshots (dispatchWorker env inp d w c) = co_snapshots c"
  "co_attachedCap (dispatchWorker env inp d w c) = co_attachedCap c" "co_cache (dispatchWorker env inp d w c) = co_cache c"
  "co_messages (dispatchWorker env inp d w c) = co_messages c"
  "pp_dispatched (co_pool (dispatchWorker env inp d w c)) = Suc (pp_dispatched (co_pool c))"
  by (simp_all add: dispatchWorker_def dispatch_dispatched)

lemma dispatchWorker_waits:
  assumes "jobs_waited XP XS c"
  shows "waits (dispatchWorker env inp d w c) = insert w (waits c)"
proof -
  have "pp_dispatched (co_pool c) \<notin> fst ` set (co_waiting c)" using assms by (auto simp: jobs_waited_def)
  then have "map_of (co_waiting c) (pp_dispatched (co_pool c)) = None" by (simp add: map_of_eq_None_iff)
  moreover from this have "map_of (co_waiting (dispatchWorker env inp d w c)) = (map_of (co_waiting c))(pp_dispatched (co_pool c) \<mapsto> w)"
    by (auto simp: dispatchWorker_def map_of_append map_add_def fun_eq_iff split: option.split)
  ultimately show ?thesis by (simp add: waits_def)
qed

lemma dispatchWorker_keys:
  assumes "jobs_waited XP XS c"
  shows "fst ` set (co_waiting (dispatchWorker env inp d w c)) \<subseteq> {..<Suc (pp_dispatched (co_pool c))}"
    and "distinct (map fst (co_waiting (dispatchWorker env inp d w c)))"
  using assms by (auto simp: dispatchWorker_def jobs_waited_def)

lemma waited_weaken: "jobs_waited XP XS c \<Longrightarrow> XP \<subseteq> XP' \<Longrightarrow> XS \<subseteq> XS' \<Longrightarrow> jobs_waited XP' XS' c"
  unfolding jobs_waited_def by (meson subsetD)

text \<open>The dispatch for a job with key \<open>k\<close> ends its exemption.\<close>

lemma dispatch_preflight_ok:
  assumes "jobs_waited (insert k XP) XS c" and "k \<notin> XP"
  shows "jobs_waited XP XS (dispatchWorker env inp d (Wait_preflight k t) c)"
  using assms dispatchWorker_keys[OF assms(1)]
  unfolding jobs_waited_def dispatchWorker_waits[OF assms(1)] dispatchWorker_fields by auto

lemma dispatch_snapshot_ok:
  assumes "jobs_waited XP (insert k XS) c"
  shows "jobs_waited XP XS (dispatchWorker env inp d (Wait_snapshot k t) c)"
  using assms dispatchWorker_keys[OF assms(1)]
  unfolding jobs_waited_def dispatchWorker_waits[OF assms(1)] dispatchWorker_fields by auto

lemma dispatch_grows:
  assumes "jobs_waited XP' XS' c"
  shows "jobs_grow XP XS c (dispatchWorker env inp d w c)"
  using assms unfolding jobs_grow_def dispatchWorker_fields dispatchWorker_waits[OF assms(1)] by auto

text \<open>Starting a job: its dispatch, or its end at once when nobody can still wait for it.\<close>

lemma dispatch_deadline_none:
  assumes "linked c"
  shows "getWorkerDispatchDeadlineAt now ids c = None \<longleftrightarrow> (\<forall>i \<in> set ids. overdue {now} c i \<or> map_of (co_requests c) i = None)"
proof -
  have "fold (\<lambda>requestId deadlineAt. case active_request c requestId of
        None \<Rightarrow> deadlineAt
      | Some r \<Rightarrow> if er_deadlineAt r \<le> now then deadlineAt
          else Some (max (opt_default (er_deadlineAt r) deadlineAt) (er_deadlineAt r))) ids d = None \<longleftrightarrow>
     d = None \<and> (\<forall>i \<in> set ids. overdue {now} c i \<or> map_of (co_requests c) i = None)" for d
    by (induction ids arbitrary: d) (auto simp: linked_active[OF assms] overdue_def split: option.splits)
  then show ?thesis by (simp add: getWorkerDispatchDeadlineAt_def)
qed

lemma overdue_mono: "overdue T c i \<Longrightarrow> T \<subseteq> T' \<Longrightarrow> overdue T' c i"
  unfolding overdue_def by blast

lemma served_mono: "served XP XS T c i \<Longrightarrow> T \<subseteq> T' \<Longrightarrow> served XP XS T' c i"
  unfolding served_def using overdue_mono by blast

lemma set_attachment_waits [simp]: "waits (set_attachment j a c) = waits c"
  by (simp add: waits_def)

lemma set_attachment_open: "(map_of (co_requests (set_attachment j a c)) i = None) = (map_of (co_requests c) i = None)"
  by (simp add: set_attachment_map)

lemma length_set_add: "length (set_add x xs) \<le> Suc (length xs)"
  by (simp add: set_add_def)

lemma set_set_add [simp]: "set (set_add x xs) = insert x (set xs)"
  by (auto simp: set_add_def)

lemma capped_preflight:
  assumes "capped c" and "int (length (pj_requestIds job)) \<le> co_attachedCap c"
  shows "capped (set_attachment i a (c\<lparr>co_preflights := AList.update k job (co_preflights c)\<rparr>))"
  using assms unfolding capped_def by (auto simp: update_conv' split: if_splits)

lemma waited_preflight:
  assumes "jobs_waited XP XS c"
  shows "jobs_waited (insert k XP) XS (set_attachment i a (c\<lparr>co_preflights := AList.update k job (co_preflights c)\<rparr>))"
  using assms unfolding jobs_waited_def waits_def by (auto simp: update_conv' split: if_splits)

lemma linked_preflight: "linked c \<Longrightarrow> linked (set_attachment i a (c\<lparr>co_preflights := ps\<rparr>))"
  by (rule linked_set_attachment, erule linked_same_requests) simp_all

lemma same_requests_preflight: "same_requests c (set_attachment i a (c\<lparr>co_preflights := ps\<rparr>))"
  by (simp add: same_requests_same)

lemma attach_existing_preflight:
  assumes ok: "co_ok {} {} c" and job: "map_of (co_preflights c) k = Some job"
    and room: "int (length (pj_requestIds job)) < co_attachedCap c"
    and c': "c' = set_attachment i a (c\<lparr>co_preflights := AList.update k (job\<lparr>pj_requestIds := set_add i (pj_requestIds job)\<rparr>) (co_preflights c)\<rparr>)"
  shows "keeps {} {} T c c' \<and> served {} {} T c' i"
proof -
  let ?job = "job\<lparr>pj_requestIds := set_add i (pj_requestIds job)\<rparr>"
  have l: "linked c" and w: "jobs_waited {} {} c" and cap: "capped c" using ok by (simp_all add: co_ok_def)
  obtain t where t: "Wait_preflight k t \<in> waits c" using w job unfolding jobs_waited_def by blast
  have waits: "waits c' = waits c" by (simp add: c' waits_def)
  have pre: "map_of (co_preflights c') = (map_of (co_preflights c))(k \<mapsto> ?job)" by (simp add: c' update_conv')
  have "jobs_waited {} {} c'"
    using w t unfolding jobs_waited_def waits pre by (auto simp: c' split: if_splits)
  moreover have "int (length (pj_requestIds ?job)) \<le> co_attachedCap c"
    using room length_set_add[of i "pj_requestIds job"] by simp
  ultimately have "co_ok {} {} c'"
    unfolding co_ok_def using capped_preflight[OF cap] linked_preflight[OF l] by (simp add: c')
  moreover have "jobs_grow {} {} c c'"
    unfolding jobs_grow_def pre waits using job by (auto simp: c')
  moreover have "preflight_serves {} c' i"
    unfolding preflight_serves_def pre waits using t by (intro exI[of _ k]) auto
  ultimately show ?thesis using keeps_grow same_requests_preflight by (simp add: served_def c')
qed

lemma start_preflight:
  assumes ok: "co_ok {} {} c" and "map_of (co_preflights c) k = None" and now: "pe_now env \<in> T"
    and job: "pj_requestIds job = [i]" and "map_of (co_requests c) i \<noteq> None"
    and c': "c' = runPreflight env k job (set_attachment i a (c\<lparr>co_preflights := AList.update k job (co_preflights c)\<rparr>))"
  shows "keeps {} {} T c c' \<and> served {} {} T c' i"
proof -
  let ?c = "set_attachment i a (c\<lparr>co_preflights := AList.update k job (co_preflights c)\<rparr>)"
  have l: "linked c" and w: "jobs_waited {} {} c" and cap: "capped c" using ok by (simp_all add: co_ok_def)
  have lc: "linked ?c" and wc: "jobs_waited {k} {} ?c" and wits: "waits ?c = waits c"
    using linked_preflight[OF l] waited_preflight[OF w] by (simp_all add: waits_def)
  have "1 \<le> co_attachedCap c" using cap by (simp add: capped_def)
  then have capc: "capped ?c" by (simp add: capped_preflight[OF cap] job)
  show ?thesis
  proof (cases "getWorkerDispatchDeadlineAt (pe_now env) [i] ?c")
    case None
    have c'': "c' = end_preflight k ?c" using None by (simp add: c' runPreflight_def job)
    have pre: "map_of (co_preflights c') = map_of (co_preflights c)"
      using assms(2) by (auto simp: c'' end_preflight_def delete_conv' update_conv' fun_eq_iff)
    have rest: "co_requests c' = co_requests ?c" "co_fanout c' = co_fanout ?c" "waits c' = waits c" "co_snapshots c' = co_snapshots c"
      "co_waiting c' = co_waiting c" "co_attachedCap c' = co_attachedCap c" "co_pool c' = co_pool c"
      by (simp_all add: c'' end_preflight_def waits_def)
    have "linked c'" using linked_same_requests[OF lc rest(2,1)] .
    then have "co_ok {} {} c'"
      using w cap unfolding co_ok_def jobs_waited_def capped_def pre rest by simp
    moreover have "same_requests c c'" using same_requests_preflight[of c i a] by (simp add: same_requests_def rest)
    moreover have "jobs_grow {} {} c c'" unfolding jobs_grow_def pre rest by blast
    moreover have "overdue {pe_now env} ?c i"
      using None dispatch_deadline_none[OF lc, of "pe_now env" "[i]"] assms(5) by (simp add: set_attachment_open)
    then have "overdue T c' i" using now overdue_mono[of "{pe_now env}" _ i T] by (simp add: overdue_def rest)
    ultimately show ?thesis using keeps_grow by (simp add: served_def)
  next
    case (Some d)
    have c'': "c' = dispatchWorker env (In_preflight (pj_rawPath job)) d (Wait_preflight k (pe_now env)) ?c"
      using Some by (simp add: c' runPreflight_def job)
    have waits: "waits c' = insert (Wait_preflight k (pe_now env)) (waits c)"
      by (simp only: c'' dispatchWorker_waits[OF wc] wits)
    have pre: "map_of (co_preflights c') = (map_of (co_preflights c))(k \<mapsto> job)" by (simp add: c'' update_conv')
    have "linked c'" using lc by (simp add: c'' linked_same_requests[of ?c])
    moreover have "jobs_waited {} {} c'" using dispatch_preflight_ok[OF wc] by (simp add: c'')
    moreover have "capped c'" using capc by (simp add: c'' capped_def)
    ultimately have "co_ok {} {} c'" by (simp add: co_ok_def)
    moreover have "same_requests c c'" using same_requests_preflight[of c i a] by (simp add: same_requests_def c'')
    moreover have "jobs_grow {} {} c c'" unfolding jobs_grow_def pre waits using assms(2) by (auto simp: c'')
    moreover have "preflight_serves {} c' i" unfolding preflight_serves_def pre waits using job by (intro exI[of _ k]) auto
    ultimately show ?thesis using keeps_grow by (simp add: served_def)
  qed
qed

lemma attachToPreflight_keeps:
  assumes "co_ok {} {} c" and "pe_now env \<in> T" and "map_of (co_requests c) (er_requestId record) \<noteq> None"
    and c': "c' = attachToPreflight env record c"
  shows "keeps {} {} T c c' \<and> (map_of (co_requests c') (er_requestId record) \<noteq> None \<longrightarrow> served {} {} T c' (er_requestId record))"
proof (cases "map_of (co_preflights c) (er_rawPath record)")
  case None
  then show ?thesis
    using start_preflight[OF assms(1) None assms(2) _ assms(3) refl] by (simp add: c' attachToPreflight_def Let_def)
next
  case (Some job)
  have l: "linked c" using assms(1) by (simp add: co_ok_def)
  show ?thesis
  proof (cases "int (length (pj_requestIds job)) \<ge> co_attachedCap c")
    case True
    then show ?thesis
      using keeps_with_fanout[OF assms(1)] force_closes[OF l] by (simp add: c' attachToPreflight_def Let_def Some)
  next
    case False
    then show ?thesis
      using attach_existing_preflight[OF assms(1) Some _ refl] by (simp add: c' attachToPreflight_def Let_def Some)
  qed
qed

text \<open>The same for the jobs of files; the job of a path that is just being finished may be exempt.\<close>

lemma keeps_same:
  assumes "co_ok XP XS c" and "co_fanout c' = co_fanout c" and "co_requests c' = co_requests c"
    and "co_preflights c' = co_preflights c" and "co_snapshots c' = co_snapshots c" and "co_waiting c' = co_waiting c"
    and "co_attachedCap c' = co_attachedCap c" and "pp_dispatched (co_pool c') = pp_dispatched (co_pool c)"
  shows "keeps XP XS T c c'"
proof -
  have w: "waits c' = waits c" by (simp add: waits_def assms(6))
  have "linked c'" using assms(1) linked_same_requests[OF _ assms(2,3)] by (simp add: co_ok_def)
  then have "co_ok XP XS c'"
    using assms(1) unfolding co_ok_def jobs_waited_def capped_def w assms(4-8) by simp
  then show ?thesis
    by (intro keeps_grow) (simp_all add: same_requests_same jobs_grow_def w assms(2-5))
qed

lemma keeps_cache: "co_ok XP XS c \<Longrightarrow> keeps XP XS T c (c\<lparr>co_cache := cache\<rparr>)"
  by (erule keeps_same) simp_all

lemma keeps_set_attachment:
  assumes "co_ok XP XS c"
  shows "keeps XP XS T c (set_attachment i a c)"
proof -
  have "co_ok XP XS (set_attachment i a c)"
    using assms linked_set_attachment unfolding co_ok_def jobs_waited_def capped_def by simp
  then show ?thesis by (intro keeps_grow) (simp_all add: same_requests_same jobs_grow_def)
qed

definition with_snapshot_job :: "string \<Rightarrow> snapshot_job \<Rightarrow> snapshot_job preview_cache \<Rightarrow> coordinator \<Rightarrow> coordinator" where
  "with_snapshot_job k job cache c = c\<lparr>co_snapshots := AList.update k job (co_snapshots c), co_cache := cache\<rparr>"

lemma with_snapshot_fields [simp]:
  "co_fanout (with_snapshot_job k job cache c) = co_fanout c" "co_requests (with_snapshot_job k job cache c) = co_requests c"
  "co_preflights (with_snapshot_job k job cache c) = co_preflights c" "co_waiting (with_snapshot_job k job cache c) = co_waiting c"
  "waits (with_snapshot_job k job cache c) = waits c" "co_pool (with_snapshot_job k job cache c) = co_pool c"
  "co_attachedCap (with_snapshot_job k job cache c) = co_attachedCap c"
  "map_of (co_snapshots (with_snapshot_job k job cache c)) = (map_of (co_snapshots c))(k \<mapsto> job)"
  by (simp_all add: with_snapshot_job_def waits_def update_conv')

lemma linked_snapshot: "linked c \<Longrightarrow> linked (set_attachment i a (with_snapshot_job k job cache c))"
  by (rule linked_set_attachment, erule linked_same_requests) simp_all

lemma same_requests_snapshot: "same_requests c (set_attachment i a (with_snapshot_job k job cache c))"
  by (simp add: same_requests_same)

lemma capped_snapshot:
  assumes "capped c" and "int (length (sj_requestIds job)) \<le> co_attachedCap c"
  shows "capped (set_attachment i a (with_snapshot_job k job cache c))"
  using assms unfolding capped_def by simp

lemma attach_existing_snapshot:
  assumes ok: "co_ok XP {} c" and job: "map_of (co_snapshots c) k = Some job"
    and room: "int (length (sj_requestIds job)) < co_attachedCap c"
    and c': "c' = set_attachment i a (with_snapshot_job k (job\<lparr>sj_requestIds := set_add i (sj_requestIds job)\<rparr>) cache c)"
  shows "keeps XP {} T c c' \<and> served XP {} T c' i"
proof -
  let ?job = "job\<lparr>sj_requestIds := set_add i (sj_requestIds job)\<rparr>"
  have l: "linked c" and w: "jobs_waited XP {} c" and cap: "capped c" using ok by (simp_all add: co_ok_def)
  obtain t where t: "Wait_snapshot k t \<in> waits c" using w job unfolding jobs_waited_def by blast
  have "jobs_waited XP {} c'"
    using w t unfolding jobs_waited_def by (auto simp: c' split: if_splits)
  moreover have "int (length (sj_requestIds ?job)) \<le> co_attachedCap c"
    using room length_set_add[of i "sj_requestIds job"] by simp
  ultimately have "co_ok XP {} c'"
    unfolding co_ok_def using capped_snapshot[OF cap] linked_snapshot[OF l] by (simp add: c')
  moreover have "jobs_grow XP {} c c'"
    unfolding jobs_grow_def using job by (auto simp: c')
  moreover have "snapshot_serves {} c' i"
    unfolding snapshot_serves_def using t by (intro exI[of _ k]) (auto simp: c')
  ultimately show ?thesis using keeps_grow same_requests_snapshot by (simp add: served_def c')
qed

lemma start_snapshot:
  assumes ok: "co_ok XP {} c" and "map_of (co_snapshots c) k = None" and now: "pe_now env \<in> T"
    and job: "sj_requestIds job = [i]" and "map_of (co_requests c) i \<noteq> None"
    and c': "c' = runSnapshot env k job f (set_attachment i a (with_snapshot_job k job cache c))"
  shows "keeps XP {} T c c' \<and> served XP {} T c' i"
proof -
  let ?c = "set_attachment i a (with_snapshot_job k job cache c)"
  have l: "linked c" and w: "jobs_waited XP {} c" and cap: "capped c" using ok by (simp_all add: co_ok_def)
  have lc: "linked ?c" using linked_snapshot[OF l] .
  have wc: "jobs_waited XP {k} ?c"
    using w unfolding jobs_waited_def by (auto split: if_splits)
  have "1 \<le> co_attachedCap c" using cap by (simp add: capped_def)
  then have capc: "capped ?c" by (simp add: capped_snapshot[OF cap] job)
  show ?thesis
  proof (cases "getWorkerDispatchDeadlineAt (pe_now env) [i] ?c")
    case None
    have c'': "c' = end_snapshot k ?c" using None by (simp add: c' runSnapshot_def job)
    have snap: "map_of (co_snapshots c') = map_of (co_snapshots c)"
      using assms(2) by (auto simp: c'' end_snapshot_def delete_conv' fun_eq_iff)
    have rest: "co_requests c' = co_requests ?c" "co_fanout c' = co_fanout ?c" "waits c' = waits c" "co_preflights c' = co_preflights c"
      "co_waiting c' = co_waiting c" "co_attachedCap c' = co_attachedCap c" "co_pool c' = co_pool c"
      by (simp_all add: c'' end_snapshot_def waits_def)
    have "linked c'" using linked_same_requests[OF lc rest(2,1)] .
    then have "co_ok XP {} c'"
      using w cap unfolding co_ok_def jobs_waited_def capped_def snap rest by simp
    moreover have "same_requests c c'" using same_requests_snapshot[of c i a] by (simp add: same_requests_def rest)
    moreover have "jobs_grow XP {} c c'" unfolding jobs_grow_def snap rest by blast
    moreover have "overdue {pe_now env} ?c i"
      using None dispatch_deadline_none[OF lc, of "pe_now env" "[i]"] assms(5) by (simp add: set_attachment_open)
    then have "overdue T c' i" using now overdue_mono[of "{pe_now env}" _ i T] by (simp add: overdue_def rest)
    ultimately show ?thesis using keeps_grow by (simp add: served_def)
  next
    case (Some d)
    have c'': "c' = dispatchWorker env (In_snapshot f) d (Wait_snapshot k (pe_now env)) ?c"
      using Some by (simp add: c' runSnapshot_def job)
    have waits: "waits c' = insert (Wait_snapshot k (pe_now env)) (waits c)"
      by (simp add: c'' dispatchWorker_waits[OF wc])
    have snap: "map_of (co_snapshots c') = (map_of (co_snapshots c))(k \<mapsto> job)" by (simp add: c'')
    have "linked c'" using lc by (simp add: c'' linked_same_requests[of ?c])
    moreover have "jobs_waited XP {} c'" using dispatch_snapshot_ok[OF wc] by (simp add: c'')
    moreover have "capped c'" using capc by (simp add: c'' capped_def)
    ultimately have "co_ok XP {} c'" by (simp add: co_ok_def)
    moreover have "same_requests c c'" using same_requests_snapshot[of c i a] by (simp add: same_requests_def c'')
    moreover have "jobs_grow XP {} c c'" unfolding jobs_grow_def snap waits using assms(2) by (auto simp: c'')
    moreover have "snapshot_serves {} c' i" unfolding snapshot_serves_def snap waits using job by (intro exI[of _ k]) auto
    ultimately show ?thesis using keeps_grow by (simp add: served_def)
  qed
qed

text \<open>The branches of \<open>attachToSnapshot\<close>.\<close>

definition new_snapshot_job :: "pool_env \<Rightarrow> file_info \<Rightarrow> string \<Rightarrow> coordinator \<Rightarrow> snapshot_job" where
  "new_snapshot_job env f i c = \<lparr>sj_realPath = fi_realPath f, sj_startSignature = fi_startSignature f,
     sj_resourceGeneration = getGeneration (fi_realPath f) (co_cache c), sj_requestIds = [i], sj_startedAt = pe_now env\<rparr>"

lemma attachToSnapshot_form:
  assumes "getCached (pe_now env) (fi_realPath f) (fi_startSignature f) (co_cache c) = (cached, cache)"
    and "k = makeSnapshotKey cache (fi_realPath f) (fi_startSignature f) (getGeneration (fi_realPath f) (co_cache c))"
    and "i = er_requestId r"
  shows "attachToSnapshot env f r c =
    (case cached of
       Some v \<Rightarrow> with_fanout (Fe_answer i (Ready (Msg_result i (er_rawPath r) v True)) ''success'')
         (set_attachment i (At_cache k) (c\<lparr>co_cache := cache\<rparr>))
     | None \<Rightarrow>
         (case map_of (co_snapshots c) k of
            None \<Rightarrow> runSnapshot env k (new_snapshot_job env f i c) f
              (set_attachment i (At_snapshot k) (with_snapshot_job k (new_snapshot_job env f i c)
                (setInflight k (new_snapshot_job env f i c) cache) c))
          | Some job \<Rightarrow>
              if int (length (sj_requestIds job)) \<ge> co_attachedCap c then
                with_fanout (Fe_force i (answer_error i (er_rawPath r) (Some (fi_realPath f)) (cec_queueFull (co_errorCodes c)) None)
                  ''queue_full'') (c\<lparr>co_cache := cache\<rparr>)
              else set_attachment i (At_snapshot k)
                (with_snapshot_job k (job\<lparr>sj_requestIds := set_add i (sj_requestIds job)\<rparr>) cache c)))"
proof -
  have same: "c\<lparr>co_cache := cache, co_snapshots := ss\<rparr> = c\<lparr>co_snapshots := ss, co_cache := cache\<rparr>" for ss
    by (rule coordinator.equality) simp_all
  show ?thesis
    by (simp add: attachToSnapshot_def Let_def assms with_snapshot_job_def new_snapshot_job_def same split: option.split)
qed

lemma attachToSnapshot_keeps:
  assumes ok: "co_ok XP {} c" and "pe_now env \<in> T" and "map_of (co_requests c) (er_requestId record) \<noteq> None"
    and c': "c' = attachToSnapshot env f record c"
  shows "keeps XP {} T c c' \<and> (map_of (co_requests c') (er_requestId record) \<noteq> None \<longrightarrow> served XP {} T c' (er_requestId record))"
proof -
  let ?i = "er_requestId record"
  obtain cached cache where got: "getCached (pe_now env) (fi_realPath f) (fi_startSignature f) (co_cache c) = (cached, cache)" by fastforce
  let ?c = "c\<lparr>co_cache := cache\<rparr>"
  let ?k = "makeSnapshotKey cache (fi_realPath f) (fi_startSignature f) (getGeneration (fi_realPath f) (co_cache c))"
  note form = attachToSnapshot_form[OF got refl refl, of "record"]
  have keep: "keeps XP {} T c ?c" and okc: "co_ok XP {} ?c" using keeps_cache[OF ok] keeps_ok by blast+
  have l: "linked ?c" using okc by (simp add: co_ok_def)
  show ?thesis
  proof (cases cached)
    case (Some v)
    let ?s = "set_attachment ?i (At_cache ?k) ?c"
    have s: "keeps XP {} T ?c ?s" by (rule keeps_set_attachment[OF okc])
    have e: "c' = with_fanout (Fe_answer ?i (Ready (Msg_result ?i (er_rawPath record) v True)) ''success'') ?s"
      by (simp add: c' form Some)
    have "keeps XP {} T ?s c'" using keeps_with_fanout[OF keeps_ok[OF s]] by (simp add: e)
    moreover have "answer_queued c' ?i" unfolding e
      using keeps_ok[OF s] assms(3) by (intro answer_serves) (simp_all add: co_ok_def set_attachment_open)
    ultimately show ?thesis using keeps_trans[OF keep keeps_trans[OF s]] by (simp add: served_def)
  next
    case None
    show ?thesis
    proof (cases "map_of (co_snapshots c) ?k")
      case No: None
      then show ?thesis
        using start_snapshot[OF ok No assms(2) _ assms(3)] by (simp add: c' form None new_snapshot_job_def)
    next
      case (Some job)
      show ?thesis
      proof (cases "int (length (sj_requestIds job)) \<ge> co_attachedCap c")
        case True
        have e: "c' = with_fanout (Fe_force ?i (answer_error ?i (er_rawPath record) (Some (fi_realPath f))
          (cec_queueFull (co_errorCodes c)) None) ''queue_full'') ?c"
          using True by (simp add: c' form None Some)
        have "keeps XP {} T ?c c'" using keeps_with_fanout[OF okc] by (simp add: e)
        then show ?thesis using keeps_trans[OF keep] force_closes[OF l] by (simp add: e)
      next
        case False
        then show ?thesis using attach_existing_snapshot[OF ok Some] by (simp add: c' form None Some)
      qed
    qed
  qed
qed

section \<open>The end of a job\<close>

lemma finish_request_keeps:
  assumes "co_ok XP XS c"
  shows "keeps XP XS T c (finish_request reason rp err we i c)"
  by (simp add: finish_request_def keeps_refl[OF assms] keeps_with_fanout[OF assms] split: option.split)

lemma finish_request_serves:
  assumes "co_ok XP XS c" and "map_of (co_requests (finish_request reason rp err we i c)) i \<noteq> None"
  shows "served XP XS T (finish_request reason rp err we i c) i"
proof -
  have l: "linked c" using assms(1) by (simp add: co_ok_def)
  show ?thesis
  proof (cases "map_of (co_requests c) i")
    case None
    then show ?thesis using assms(2) by (simp add: finish_request_def linked_active[OF l])
  next
    case (Some r)
    then show ?thesis using answer_serves[OF l, of i] by (simp add: finish_request_def linked_active[OF l] served_def)
  qed
qed

lemma attach_active_keeps:
  assumes "co_ok XP {} c" and "pe_now env \<in> T"
  shows "keeps XP {} T c (attach_active env f i c)"
    and "map_of (co_requests (attach_active env f i c)) i \<noteq> None \<Longrightarrow> served XP {} T (attach_active env f i c) i"
proof -
  have l: "linked c" using assms(1) by (simp add: co_ok_def)
  have both: "keeps XP {} T c (attach_active env f i c) \<and>
    (map_of (co_requests (attach_active env f i c)) i \<noteq> None \<longrightarrow> served XP {} T (attach_active env f i c) i)"
  proof (cases "map_of (co_requests c) i")
    case None
    then show ?thesis using keeps_refl[OF assms(1)] by (simp add: attach_active_def linked_active[OF l])
  next
    case (Some r)
    have i: "er_requestId r = i" using l Some unfolding linked_def by blast
    show ?thesis
      using attachToSnapshot_keeps[OF assms(1,2), of r "attachToSnapshot env f r c" f] Some
      by (simp add: i attach_active_def linked_active[OF l])
  qed
  from both show "keeps XP {} T c (attach_active env f i c)" by simp
  from both show "map_of (co_requests (attach_active env f i c)) i \<noteq> None \<Longrightarrow> served XP {} T (attach_active env f i c) i" by simp
qed

lemma keeps_duration: "co_ok XP XS c \<Longrightarrow> keeps XP XS T c (record_duration now t c)"
  by (erule keeps_same) (simp_all add: record_duration_def)

text \<open>A state that is left by a job with a list of requests: all of these are served, the others stay so.\<close>

definition settles :: "string set \<Rightarrow> string set \<Rightarrow> int set \<Rightarrow> string list \<Rightarrow> coordinator \<Rightarrow> coordinator \<Rightarrow> bool" where
  "settles XP XS T ids c c' \<longleftrightarrow> keeps XP XS T c c' \<and>
     (\<forall>i \<in> set ids. map_of (co_requests c') i \<noteq> None \<longrightarrow> served XP XS T c' i)"

lemma settles_fold:
  assumes "\<And>x c. x \<in> set xs \<Longrightarrow> co_ok XP XS c \<Longrightarrow> keeps XP XS T c (f x c)" and "co_ok XP XS c"
    and "\<And>x c. x \<in> set xs \<Longrightarrow> co_ok XP XS c \<Longrightarrow> map_of (co_requests (f x c)) x \<noteq> None \<Longrightarrow> served XP XS T (f x c) x"
  shows "settles XP XS T xs c (fold f xs c)"
  unfolding settles_def
proof (intro conjI ballI impI)
  show "keeps XP XS T c (fold f xs c)" by (rule keeps_fold) (fact assms)+
  show "served XP XS T (fold f xs c) i" if "i \<in> set xs" "map_of (co_requests (fold f xs c)) i \<noteq> None" for i
    by (rule fold_serves) (fact assms that)+
qed

lemma settles_after: "keeps XP XS T c c' \<Longrightarrow> settles XP XS T ids c' c'' \<Longrightarrow> settles XP XS T ids c c''"
  unfolding settles_def using keeps_trans by blast

lemma settles_error: "co_ok XP XS c \<Longrightarrow> settles XP XS T ids c (finishJobWithError ids e rp c)"
  unfolding finishJobWithError_def by (rule settles_fold) (simp_all add: finish_request_keeps finish_request_serves)

lemma settles_worker_error: "co_ok XP XS c \<Longrightarrow> settles XP XS T ids c (finishJobWithWorkerError ids e r c)"
  unfolding finishJobWithWorkerError_def by (rule settles_fold) (simp_all add: finish_request_keeps finish_request_serves)

text \<open>Answers go to the requests that still have time; the others are left to their timers.\<close>

lemma settles_success:
  assumes ok: "co_ok XP XS c" and now: "now \<in> T" and c': "keeps XP XS T c c'" and same: "co_requests c' = co_requests c"
    and ids': "ids' = getEligibleRequestIds now ids c"
  shows "settles XP XS T ids c (fold (\<lambda>i. with_fanout (Fe_answer i (g i) r)) ids' c')"
proof -
  let ?f = "\<lambda>i. with_fanout (Fe_answer i (g i) r)"
  let ?e = "fold ?f ids' c'"
  have step: "keeps XP XS T c (?f i c)" if "co_ok XP XS c" for i c by (rule keeps_with_fanout[OF that]) simp
  have serve: "served XP XS T (?f i c) i" if c: "co_ok XP XS c" and o: "map_of (co_requests (?f i c)) i \<noteq> None" for i c
  proof -
    have "map_of (co_requests c) i \<noteq> None" using keeps_open[OF step[OF c] o] .
    then have "answer_queued (?f i c) i" using c by (intro answer_serves) (simp_all add: co_ok_def)
    then show ?thesis by (simp add: served_def)
  qed
  have l: "linked c" using ok by (simp add: co_ok_def)
  have main: "settles XP XS T ids' c' ?e" using step keeps_ok[OF c'] serve by (intro settles_fold) blast+
  then have k: "keeps XP XS T c' ?e" by (simp add: settles_def)
  have "served XP XS T ?e i" if "i \<in> set ids" and o: "map_of (co_requests ?e) i \<noteq> None" for i
  proof (cases "i \<in> set ids'")
    case True
    then show ?thesis using main o unfolding settles_def by blast
  next
    case False
    have "map_of (co_requests c) i \<noteq> None" using keeps_open[OF k o] by (simp add: same)
    then have "overdue {now} c i" using False that(1)
      by (auto simp: ids' getEligibleRequestIds_def eligible_def linked_active[OF l] overdue_def split: option.splits)
    then have "overdue T c' i" using now overdue_mono[of "{now}" c i T] by (simp add: overdue_def same)
    then show ?thesis using keeps_served[OF k] o by (simp add: served_def)
  qed
  then show ?thesis using keeps_trans[OF c' k] unfolding settles_def by blast
qed

lemma settles_none:
  assumes ok: "co_ok XP XS c" and "now \<in> T" and "getEligibleRequestIds now ids c = []"
  shows "settles XP XS T ids c c"
  using settles_success[OF ok assms(2) keeps_refl[OF ok] refl refl, of ids "\<lambda>i. undefined" "[]"] assms(3) by simp

definition all_served :: "string set \<Rightarrow> string set \<Rightarrow> int set \<Rightarrow> coordinator \<Rightarrow> bool" where
  "all_served XP XS T c \<longleftrightarrow> co_ok XP XS c \<and> (\<forall>i. map_of (co_requests c) i \<noteq> None \<longrightarrow> served XP XS T c i)"

lemma all_served_keeps: "all_served XP XS T c \<Longrightarrow> keeps XP XS T c c' \<Longrightarrow> all_served XP XS T c'"
  unfolding all_served_def by (metis keeps_ok keeps_served keeps_open)

text \<open>The state in which the job with key \<open>k\<close> alone still holds its requests.\<close>

lemma settles_all:
  assumes "settles XP XS T ids c c'" and "\<And>i. map_of (co_requests c) i \<noteq> None \<Longrightarrow> served XP XS T c i \<or> i \<in> set ids"
  shows "all_served XP XS T c'"
  using assms unfolding all_served_def settles_def by (metis keeps_ok keeps_served keeps_open)

lemma end_preflight_served:
  assumes "all_served {k} XS T c"
  shows "all_served {} XS T (end_preflight k c)"
proof -
  let ?c = "end_preflight k c"
  have pre: "map_of (co_preflights ?c) = (map_of (co_preflights c))(k := None)"
    by (simp add: end_preflight_def delete_conv')
  have rest: "co_requests ?c = co_requests c" "co_fanout ?c = co_fanout c" "waits ?c = waits c" "co_snapshots ?c = co_snapshots c"
    "co_waiting ?c = co_waiting c" "co_attachedCap ?c = co_attachedCap c" "co_pool ?c = co_pool c"
    by (simp_all add: end_preflight_def waits_def)
  have ok: "linked c" "jobs_waited {k} XS c" "capped c" using assms by (simp_all add: all_served_def co_ok_def)
  have "linked ?c" using linked_same_requests[OF ok(1) rest(2,1)] .
  moreover have "jobs_waited {} XS ?c" using ok(2) unfolding jobs_waited_def pre rest by (auto split: if_splits)
  moreover have "capped ?c" using ok(3) unfolding capped_def pre rest by (auto split: if_splits)
  moreover have "served {} XS T ?c i" if "served {k} XS T c i" for i
  proof -
    have "preflight_serves {k} c i \<Longrightarrow> preflight_serves {} ?c i" unfolding preflight_serves_def pre rest by fastforce
    moreover have "snapshot_serves XS ?c i = snapshot_serves XS c i" "answer_queued ?c i = answer_queued c i" "overdue T ?c i = overdue T c i"
      by (simp_all add: snapshot_serves_def answer_queued_def overdue_def rest)
    ultimately show ?thesis using that unfolding served_def by blast
  qed
  ultimately show ?thesis using assms unfolding all_served_def co_ok_def rest by blast
qed

lemma end_snapshot_served:
  assumes "all_served XP {k} T c"
  shows "all_served XP {} T (end_snapshot k c)"
proof -
  let ?c = "end_snapshot k c"
  have snap: "map_of (co_snapshots ?c) = (map_of (co_snapshots c))(k := None)"
    by (simp add: end_snapshot_def delete_conv')
  have rest: "co_requests ?c = co_requests c" "co_fanout ?c = co_fanout c" "waits ?c = waits c" "co_preflights ?c = co_preflights c"
    "co_waiting ?c = co_waiting c" "co_attachedCap ?c = co_attachedCap c" "co_pool ?c = co_pool c"
    by (simp_all add: end_snapshot_def waits_def)
  have ok: "linked c" "jobs_waited XP {k} c" "capped c" using assms by (simp_all add: all_served_def co_ok_def)
  have "linked ?c" using linked_same_requests[OF ok(1) rest(2,1)] .
  moreover have "jobs_waited XP {} ?c" using ok(2) unfolding jobs_waited_def snap rest by (auto split: if_splits)
  moreover have "capped ?c" using ok(3) unfolding capped_def snap rest by (auto split: if_splits)
  moreover have "served XP {} T ?c i" if "served XP {k} T c i" for i
  proof -
    have "snapshot_serves {k} c i \<Longrightarrow> snapshot_serves {} ?c i" unfolding snapshot_serves_def snap rest by fastforce
    moreover have "preflight_serves XP ?c i = preflight_serves XP c i" "answer_queued ?c i = answer_queued c i" "overdue T ?c i = overdue T c i"
      by (simp_all add: preflight_serves_def answer_queued_def overdue_def rest)
    ultimately show ?thesis using that unfolding served_def by blast
  qed
  ultimately show ?thesis using assms unfolding all_served_def co_ok_def rest by blast
qed

text \<open>A job without its waiter: its requests are those that nobody else may serve.\<close>

definition left_by :: "string list \<Rightarrow> string set \<Rightarrow> string set \<Rightarrow> int set \<Rightarrow> coordinator \<Rightarrow> bool" where
  "left_by ids XP XS T c \<longleftrightarrow> co_ok XP XS c \<and>
     (\<forall>i. map_of (co_requests c) i \<noteq> None \<longrightarrow> served XP XS T c i \<or> i \<in> set ids)"

lemma left_settles: "left_by ids XP XS T c \<Longrightarrow> settles XP XS T ids c c' \<Longrightarrow> all_served XP XS T c'"
  unfolding left_by_def using settles_all by blast

lemma left_duration: "left_by ids XP XS T c \<Longrightarrow> settles XP XS T ids (record_duration now t c) c' \<Longrightarrow> all_served XP XS T c'"
  using left_settles settles_after[OF keeps_duration] unfolding left_by_def by blast

lemma duration_ok: "co_ok XP XS c \<Longrightarrow> co_ok XP XS (record_duration now t c)"
  using keeps_ok[OF keeps_duration] by blast

lemma settles_attach: "co_ok XP {} c \<Longrightarrow> pe_now env \<in> T \<Longrightarrow> settles XP {} T ids c (fold (attach_active env f) ids c)"
  by (rule settles_fold) (simp_all add: attach_active_keeps)

lemma preflight_settled_served:
  assumes l: "left_by (pj_requestIds job) {k} {} T c"
    and job: "map_of (co_preflights c) k = Some job" and now: "pe_now env \<in> T"
  shows "all_served {} {} T (preflight_settled env k t outcome c)"
proof -
  have ok: "co_ok {k} {} c" using l by (simp add: left_by_def)
  let ?d = "record_duration (pe_now env) t c"
  have okd: "co_ok {k} {} ?d" by (rule duration_ok[OF ok])
  let ?b = "case outcome of
      Job_rejected e \<Rightarrow> finishJobWithError (pj_requestIds job) (mapDispatchError (co_errorCodes c) e) None c
    | Job_resolved identity result \<Rightarrow> (case result of
          Res_error phase error reason \<Rightarrow> finishJobWithWorkerError (pj_requestIds job) error result ?d
        | Res_snapshot s \<Rightarrow> finishJobWithError (pj_requestIds job) (cec_internalError (co_errorCodes ?d)) None ?d
        | Res_preflight f \<Rightarrow> fold (attach_active env f) (pj_requestIds job) ?d)"
  have "all_served {k} {} T ?b"
  proof (cases outcome)
    case (Job_rejected e)
    then show ?thesis using left_settles[OF l settles_error[OF ok]] by simp
  next
    case (Job_resolved identity result)
    then show ?thesis
      using left_duration[OF l settles_error[OF okd]] left_duration[OF l settles_worker_error[OF okd]]
        left_duration[OF l settles_attach[OF okd now]] by (simp split: worker_result.split)
  qed
  then show ?thesis using end_preflight_served by (simp add: preflight_settled_def job Let_def cong: job_outcome.case_cong)
qed

lemma snapshot_settled_served:
  assumes l: "left_by (sj_requestIds job) {} {k} T c"
    and job: "map_of (co_snapshots c) k = Some job" and now: "pe_now env \<in> T"
  shows "all_served {} {} T (snapshot_settled env k t outcome c)"
proof -
  have ok: "co_ok {} {k} c" using l by (simp add: left_by_def)
  let ?d = "record_duration (pe_now env) t c" and ?ids = "sj_requestIds job"
  have okd: "co_ok {} {k} ?d" by (rule duration_ok[OF ok])
  have err: "all_served {} {k} T (finishJobWithError ?ids e rp ?d)" for e rp
    by (rule left_duration[OF l settles_error[OF okd]])
  have success: "all_served {} {k} T
      (if getEligibleRequestIds (pe_now env) ?ids ?d = [] then ?d
       else fold (\<lambda>i. with_fanout (Fe_answer i (g i) r)) (getEligibleRequestIds (pe_now env) ?ids ?d) (?d\<lparr>co_cache := cache\<rparr>))" for cache g r
    using left_duration[OF l settles_none[OF okd now]] left_duration[OF l settles_success[OF okd now keeps_cache[OF okd] _ refl]]
    by simp
  show ?thesis
  proof (cases outcome)
    case (Job_rejected e)
    then show ?thesis using end_snapshot_served[OF left_settles[OF l settles_error[OF ok]]] by (simp add: snapshot_settled_def job)
  next
    case (Job_resolved identity result)
    have w: "all_served {} {k} T (finishJobWithWorkerError ?ids e result ?d)" for e
      by (rule left_duration[OF l settles_worker_error[OF okd]])
    show ?thesis
    proof (cases result)
      case (Res_error phase e reason)
      then show ?thesis using end_snapshot_served[OF w] by (simp add: snapshot_settled_def job Job_resolved Let_def)
    next
      case (Res_preflight f)
      then show ?thesis using end_snapshot_served[OF err] by (simp add: snapshot_settled_def job Job_resolved Let_def)
    next
      case (Res_snapshot s)
      then show ?thesis using end_snapshot_served[OF err] end_snapshot_served[OF success]
        by (simp add: snapshot_settled_def job Job_resolved Let_def)
    qed
  qed
qed

section \<open>Steps\<close>

lemma delete_waiter:
  assumes "map_of (co_waiting c) n = Some w"
  shows "waits c \<subseteq> insert w (waits (c\<lparr>co_waiting := AList.delete n (co_waiting c)\<rparr>))"
proof
  fix x
  assume "x \<in> waits c"
  then obtain m where m: "map_of (co_waiting c) m = Some x" by (auto simp: waits_def ran_def)
  show "x \<in> insert w (waits (c\<lparr>co_waiting := AList.delete n (co_waiting c)\<rparr>))"
  proof (cases "m = n")
    case False
    then have "map_of (AList.delete n (co_waiting c)) m = Some x" using m by (simp add: delete_conv')
    then show ?thesis unfolding waits_def by (simp add: ranI)
  qed (use assms m in simp)
qed

lemma delete_waiter_keys:
  assumes "jobs_waited XP XS c"
  shows "fst ` set (AList.delete n (co_waiting c)) \<subseteq> {..<pp_dispatched (co_pool c)} \<and> distinct (map fst (AList.delete n (co_waiting c)))"
  using assms unfolding jobs_waited_def AList.delete_eq by (auto intro: distinct_map_filter)

lemma jobs_waitedI:
  assumes "\<And>k job. map_of (co_preflights c) k = Some job \<Longrightarrow> k \<notin> XP \<Longrightarrow> \<exists>t. Wait_preflight k t \<in> waits c"
    and "\<And>k job. map_of (co_snapshots c) k = Some job \<Longrightarrow> k \<notin> XS \<Longrightarrow> \<exists>t. Wait_snapshot k t \<in> waits c"
    and "fst ` set (co_waiting c) \<subseteq> {..<pp_dispatched (co_pool c)} \<and> distinct (map fst (co_waiting c))"
  shows "jobs_waited XP XS c"
  using assms unfolding jobs_waited_def by blast

lemma resume_left:
  assumes all: "all_served {} {} T c" and "map_of (co_waiting c) n = Some w"
    and XP: "XP = (case w of Wait_preflight k t \<Rightarrow> {k} | Wait_snapshot k t \<Rightarrow> {})"
    and XS: "XS = (case w of Wait_preflight k t \<Rightarrow> {} | Wait_snapshot k t \<Rightarrow> {k})"
    and ids: "ids = (case w of
        Wait_preflight k t \<Rightarrow> (case map_of (co_preflights c) k of None \<Rightarrow> [] | Some job \<Rightarrow> pj_requestIds job)
      | Wait_snapshot k t \<Rightarrow> (case map_of (co_snapshots c) k of None \<Rightarrow> [] | Some job \<Rightarrow> sj_requestIds job))"
  shows "left_by ids XP XS T (c\<lparr>co_waiting := AList.delete n (co_waiting c)\<rparr>)"
proof -
  let ?c = "c\<lparr>co_waiting := AList.delete n (co_waiting c)\<rparr>"
  note w = delete_waiter[OF assms(2)]
  have ok: "linked c" "jobs_waited {} {} c" "capped c" using all by (simp_all add: all_served_def co_ok_def)
  have "linked ?c" using linked_same_requests[OF ok(1)] by simp
  moreover have "jobs_waited XP XS ?c"
  proof (rule jobs_waitedI)
    show "\<exists>t. Wait_preflight k t \<in> waits ?c" if "map_of (co_preflights ?c) k = Some job" "k \<notin> XP" for k job
    proof -
      have "map_of (co_preflights c) k = Some job" using that(1) by simp
      then obtain t where t: "Wait_preflight k t \<in> waits c" using ok(2) unfolding jobs_waited_def by blast
      moreover have "w \<noteq> Wait_preflight k t" using that(2) XP by auto
      ultimately show ?thesis using w by blast
    qed
    show "\<exists>t. Wait_snapshot k t \<in> waits ?c" if "map_of (co_snapshots ?c) k = Some job" "k \<notin> XS" for k job
    proof -
      have "map_of (co_snapshots c) k = Some job" using that(1) by simp
      then obtain t where t: "Wait_snapshot k t \<in> waits c" using ok(2) unfolding jobs_waited_def by blast
      moreover have "w \<noteq> Wait_snapshot k t" using that(2) XS by auto
      ultimately show ?thesis using w by blast
    qed
  qed (use delete_waiter_keys[OF ok(2), of n] in simp)
  moreover have "capped ?c" using ok(3) by (simp add: capped_def)
  moreover have "served XP XS T ?c i \<or> i \<in> set ids" if all_i: "served {} {} T c i" for i
  proof -
    have "preflight_serves XP ?c i \<or> i \<in> set ids" if pre: "preflight_serves {} c i"
    proof -
      obtain k job t where k: "map_of (co_preflights c) k = Some job" "i \<in> set (pj_requestIds job)" "Wait_preflight k t \<in> waits c"
        using pre by (auto simp: preflight_serves_def)
      show ?thesis
      proof (cases "\<exists>t'. w = Wait_preflight k t'")
        case True
        then show ?thesis using k ids by auto
      next
        case False
        then have "Wait_preflight k t \<in> waits ?c" "k \<notin> XP" using w k(3) XP by (auto split: co_waiting.splits)
        then show ?thesis using k unfolding preflight_serves_def by auto
      qed
    qed
    moreover have "snapshot_serves XS ?c i \<or> i \<in> set ids" if snap: "snapshot_serves {} c i"
    proof -
      obtain k job t where k: "map_of (co_snapshots c) k = Some job" "i \<in> set (sj_requestIds job)" "Wait_snapshot k t \<in> waits c"
        using snap by (auto simp: snapshot_serves_def)
      show ?thesis
      proof (cases "\<exists>t'. w = Wait_snapshot k t'")
        case True
        then show ?thesis using k ids by auto
      next
        case False
        then have "Wait_snapshot k t \<in> waits ?c" "k \<notin> XS" using w k(3) XS by (auto split: co_waiting.splits)
        then show ?thesis using k unfolding snapshot_serves_def by auto
      qed
    qed
    moreover have "answer_queued ?c i = answer_queued c i" "overdue T ?c i = overdue T c i"
      by (simp_all add: answer_queued_def overdue_def)
    ultimately show ?thesis using all_i unfolding served_def by blast
  qed
  ultimately show ?thesis using all unfolding left_by_def co_ok_def all_served_def by simp
qed

lemma absent_served:
  assumes "left_by [] XP XS T c" and "\<And>k. k \<in> XP \<Longrightarrow> map_of (co_preflights c) k = None" and "\<And>k. k \<in> XS \<Longrightarrow> map_of (co_snapshots c) k = None"
  shows "all_served {} {} T c"
proof -
  have "preflight_serves XP c i \<Longrightarrow> preflight_serves {} c i" "snapshot_serves XS c i \<Longrightarrow> snapshot_serves {} c i" for i
    unfolding preflight_serves_def snapshot_serves_def by blast+
  then have "served XP XS T c i \<Longrightarrow> served {} {} T c i" for i unfolding served_def by blast
  moreover have "jobs_waited {} {} c"
    using assms unfolding left_by_def co_ok_def jobs_waited_def by (metis option.distinct(1))
  ultimately show ?thesis using assms(1) unfolding left_by_def co_ok_def all_served_def by simp
qed

lemma resume_served:
  assumes "all_served {} {} T c" and "pe_now env \<in> T"
  shows "all_served {} {} T (co_resume env n c)"
proof (cases "map_of (co_waiting c) n")
  case None
  then show ?thesis using assms(1) by (simp add: co_resume_def)
next
  case (Some w)
  let ?c = "c\<lparr>co_waiting := AList.delete n (co_waiting c)\<rparr>"
  show ?thesis
  proof (cases "map_of (pp_settled (co_pool c)) n")
    case None
    then show ?thesis using assms(1) Some by (simp add: co_resume_def)
  next
    case out: (Some outcome)
    show ?thesis
    proof (cases w)
      case (Wait_preflight k t)
      note left = resume_left[OF assms(1) Some refl refl refl, unfolded Wait_preflight co_waiting.case]
      have "all_served {} {} T (preflight_settled env k t outcome ?c)"
      proof (cases "map_of (co_preflights c) k")
        case None
        then show ?thesis using absent_served[OF left[simplified None option.case]] by (simp add: preflight_settled_def)
      next
        case (Some job)
        then show ?thesis using preflight_settled_served[OF left[unfolded Some option.case] _ assms(2)] by simp
      qed
      then show ?thesis by (simp add: co_resume_def Some out Wait_preflight)
    next
      case (Wait_snapshot k t)
      note left = resume_left[OF assms(1) Some refl refl refl, unfolded Wait_snapshot co_waiting.case]
      have "all_served {} {} T (snapshot_settled env k t outcome ?c)"
      proof (cases "map_of (co_snapshots c) k")
        case None
        then show ?thesis using absent_served[OF left[simplified None option.case]] by (simp add: snapshot_settled_def)
      next
        case (Some job)
        then show ?thesis using snapshot_settled_served[OF left[unfolded Some option.case] _ assms(2)] by simp
      qed
      then show ?thesis by (simp add: co_resume_def Some out Wait_snapshot)
    qed
  qed
qed

text \<open>A registration, of a new request or of one that is already open.\<close>

lemma register_fields:
  "fo_chain (snd (fan_register i p d m f)) = fo_chain f" "fo_terminals (snd (fan_register i p d m f)) = fo_terminals f"
  "fo_sent (snd (fan_register i p d m f)) = fo_sent f"
  "fan_has j (snd (fan_register i p d m f)) = (j = i \<or> fan_has j f)"
  by (auto simp: fan_register_def fan_has_def update_conv')

definition registered :: "external_request \<Rightarrow> co_recipe \<Rightarrow> coordinator \<Rightarrow> coordinator" where
  "registered record m c =
    with_fanout (Fe_register (er_requestId record) (er_rawPath record) (er_deadlineAt record) m)
      (c\<lparr>co_requests := AList.update (er_requestId record) record (co_requests c)\<rparr>)"

lemma registered_fields [simp]:
  "co_requests (registered record m c) = AList.update (er_requestId record) record (co_requests c)"
  "co_preflights (registered record m c) = co_preflights c" "co_snapshots (registered record m c) = co_snapshots c"
  "co_waiting (registered record m c) = co_waiting c" "waits (registered record m c) = waits c"
  "co_pool (registered record m c) = co_pool c" "co_attachedCap (registered record m c) = co_attachedCap c"
  "co_fanout (registered record m c) = snd (fan_register (er_requestId record) (er_rawPath record) (er_deadlineAt record) m (co_fanout c))"
  by (simp_all add: registered_def with_fanout_def register_fields waits_def)

lemma registered_ok:
  assumes "co_ok XP XS c" and "\<not> er_terminal record"
  shows "co_ok XP XS (registered record m c)"
proof -
  have l: "linked c" and w: "jobs_waited XP XS c" and cap: "capped c" using assms(1) by (simp_all add: co_ok_def)
  have "linked (registered record m c)"
    unfolding linked_def registered_fields register_fields
  proof (intro conjI allI impI)
    show "fan_wf (snd (fan_register (er_requestId record) (er_rawPath record) (er_deadlineAt record) m (co_fanout c)))"
      using l by (intro fan_wf_register) (simp add: linked_def)
    show "distinct (map fst (AList.update (er_requestId record) record (co_requests c)))"
      using l by (intro distinct_update) (simp add: linked_def)
    show "(map_of (AList.update (er_requestId record) record (co_requests c)) i \<noteq> None)
      = (i = er_requestId record \<or> fan_has i (co_fanout c))" for i
      by (simp add: update_conv' linked_has[OF l])
    show "er_requestId r = i" "\<not> er_terminal r"
      if "map_of (AList.update (er_requestId record) record (co_requests c)) i = Some r" for i r
      using that l assms(2) by (auto simp: update_conv' linked_def split: if_splits)
  qed
  then show ?thesis using w cap unfolding co_ok_def jobs_waited_def capped_def by simp
qed

lemma registered_served:
  assumes "served XP XS T c i" and "i \<noteq> er_requestId record"
  shows "served XP XS T (registered record m c) i"
  using assms unfolding served_def preflight_serves_def snapshot_serves_def answer_queued_def overdue_def registered_fields
    register_fields by (simp add: update_conv')

lemma submit_served:
  assumes all: "all_served {} {} T c" and "pe_now env \<in> T"
  shows "all_served {} {} T (snd (co_submit env requestId path c))"
proof -
  have ok: "co_ok {} {} c" using all by (simp add: all_served_def)
  have det: "all_served {} {} T (with_fanout (Fe_detached m) c)" for m
    by (rule all_served_keeps[OF all keeps_with_fanout[OF ok]]) simp
  have reg: "all_served {} {} T (attachToPreflight env record (registered record m c))" if "\<not> er_terminal record" for "record" m
  proof -
    let ?r = "registered record m c" and ?i = "er_requestId record"
    have okr: "co_ok {} {} ?r" by (rule registered_ok[OF ok that])
    have both: "keeps {} {} T ?r (attachToPreflight env record ?r) \<and>
      (map_of (co_requests (attachToPreflight env record ?r)) ?i \<noteq> None \<longrightarrow> served {} {} T (attachToPreflight env record ?r) ?i)"
      by (rule attachToPreflight_keeps[OF okr assms(2) _ refl]) (simp add: update_conv')
    have "settles {} {} T [?i] ?r (attachToPreflight env record ?r)" using both by (simp add: settles_def)
    moreover have "served {} {} T ?r i \<or> i \<in> set [?i]" if "map_of (co_requests ?r) i \<noteq> None" for i
      using that all registered_served[of "{}" "{}" T c i "record" m] by (cases "i = ?i") (auto simp: all_served_def update_conv')
    ultimately show ?thesis by (rule settles_all)
  qed
  show ?thesis
    using all det reg[of "\<lparr>er_requestId = i, er_rawPath = p, er_admittedAt = a, er_deadlineAt = d, er_terminal = False,
        er_attachmentState = None\<rparr>" for i p a d, unfolded registered_def, simplified]
    by (auto simp: co_submit_def Let_def split: json.split prod.split)
qed

text \<open>The send chain, the pool and the shutdown.\<close>

lemma send_served:
  assumes "all_served {} {} T c"
  shows "all_served {} {} T (co_send now c)"
proof -
  have "all_served {} {} T (with_fanout (Fe_run now) c)"
    by (rule all_served_keeps[OF assms keeps_with_fanout]) (use assms in \<open>simp_all add: all_served_def\<close>)
  then show ?thesis
    by (rule all_served_keeps, intro keeps_same)
      (simp_all add: co_send_def Let_def all_served_def)
qed

lemma same_served:
  assumes "all_served {} {} T c" and "co_fanout c' = co_fanout c" and "co_requests c' = co_requests c"
    and "co_preflights c' = co_preflights c" and "co_snapshots c' = co_snapshots c" and "co_waiting c' = co_waiting c"
    and "co_attachedCap c' = co_attachedCap c" and "pp_dispatched (co_pool c') = pp_dispatched (co_pool c)"
  shows "all_served {} {} T c'"
  by (rule all_served_keeps[OF assms(1)], rule keeps_same) (use assms in \<open>simp_all add: all_served_def\<close>)

lemma internal_dispatched: "pool_internal ev \<Longrightarrow> pp_dispatched (pool_step p (env, ev)) = pp_dispatched p"
  by (cases ev) (simp_all add: dispatched_step dispatches_def del: pool_step.simps)

lemma shutdown_dispatched: "pp_dispatched (shutdown_begin p) = pp_dispatched p"
  using dispatched_step[of p "(env, Pe_shutdown)" for env] by (simp add: dispatches_def)

lemma drain_served:
  assumes "all_served {} {} T c"
  shows "all_served {} {} T (drain_ends k c)" and "all_served {} {} T (drain_next env k c)"
proof -
  show ends: "all_served {} {} T (drain_ends k c)"
    by (rule same_served[OF assms]) (simp_all add: drain_ends_def shutdown_dispatched)
  have drains: "all_served {} {} T (c\<lparr>co_drains := ds\<rparr>)" for ds by (rule same_served[OF assms]) simp_all
  have "all_served {} {} T (sendUnavailable i (c\<lparr>co_drains := ds\<rparr>))" for i ds
    using drains[of ds] all_served_keeps[OF drains[of ds] keeps_with_fanout]
    by (auto simp: sendUnavailable_def all_served_def split: option.split)
  then show "all_served {} {} T (drain_next env k c)"
    using ends by (simp add: drain_next_def split: prod.split list.split)
qed

lemma all_served_mono: "all_served XP XS T c \<Longrightarrow> T \<subseteq> T' \<Longrightarrow> all_served XP XS T' c"
  unfolding all_served_def using served_mono by blast

lemma step_served:
  assumes "all_served {} {} T c" and "pe_now env \<in> T"
  shows "all_served {} {} T (co_step c (env, ev))"
proof (cases ev)
  case (Co_pool e)
  have "pool_internal e \<Longrightarrow> all_served {} {} T (c\<lparr>co_pool := pool_step (co_pool c) (env, e)\<rparr>)"
    by (rule same_served[OF assms(1)]) (simp_all add: internal_dispatched)
  then show ?thesis using assms(1) Co_pool by simp
next
  case (Co_timer i)
  have "all_served {} {} T (with_fanout (Fe_timer i) c)"
    by (rule all_served_keeps[OF assms(1) keeps_with_fanout]) (use assms in \<open>simp_all add: all_served_def\<close>)
  then show ?thesis using Co_timer by simp
next
  case (Co_invalidate p)
  show ?thesis using Co_invalidate by (simp add: co_invalidatePath_def) (rule same_served[OF assms(1)], simp_all)
next
  case (Co_shutdown b)
  show ?thesis using Co_shutdown by (simp add: shutdown_requests_def Let_def) (rule same_served[OF assms(1)], simp_all)
qed (use assms submit_served resume_served send_served drain_served in simp_all)

definition readings :: "(pool_env \<times> co_event) list \<Rightarrow> int set" where
  "readings evs = (\<lambda>(env, ev). pe_now env) ` set evs"

lemma new_served: "all_served {} {} T (coordinator_new options)"
  by (simp add: all_served_def co_ok_def linked_def jobs_waited_def capped_def coordinator_new_def Let_def)

lemma run_served: "all_served {} {} (readings evs) (co_run options evs)"
proof (induction evs rule: rev_induct)
  case Nil
  then show ?case by (simp add: co_run_def new_served)
next
  case (snoc x evs)
  obtain env ev where x: "x = (env, ev)" by fastforce
  have "all_served {} {} (readings (evs @ [x])) (co_run options evs)"
    by (rule all_served_mono[OF snoc.IH]) (auto simp: readings_def)
  then show ?case using step_served[of "readings (evs @ [x])" "co_run options evs" env ev]
    by (simp add: co_run_def x readings_def)
qed

end
