(* ===== verification/CoordinatorProps.thy ===== *)
theory CoordinatorProps
  imports CoordinatorServed
begin

text \<open>
  What holds of the coordinator of preview reads over every history of submissions, settled promises, timers,
  sends, invalidations and shutdowns.  An operation is what it tells its parts (\<open>tells\<close>), which carries the accounts
  of the dispatcher and of the pool over to the coordinator and to its callers.
\<close>

section \<open>What the dispatcher and the pool are told\<close>

text \<open>The dispatcher invents nothing: what holds of the messages it is given holds of those it sends.\<close>

fun op_all :: "(string option \<Rightarrow> 'm \<Rightarrow> bool) \<Rightarrow> 'm fan_operation \<Rightarrow> bool" where
  "op_all P (Fan_answer i m r) = P (Some i) m"
| "op_all P (Fan_send tag m) = P tag m"

fun event_all :: "(string option \<Rightarrow> 'm \<Rightarrow> bool) \<Rightarrow> 'm fan_event \<Rightarrow> bool" where
  "event_all P (Fe_register i p t m) = P (Some i) m"
| "event_all P (Fe_answer i m r) = P (Some i) m"
| "event_all P (Fe_force i m r) = P (Some i) m"
| "event_all P (Fe_detached m) = P None m"
| "event_all P _ = True"

definition fan_all :: "(string option \<Rightarrow> 'm \<Rightarrow> bool) \<Rightarrow> 'm fanout \<Rightarrow> bool" where
  "fan_all P d \<longleftrightarrow> (\<forall>(i, r) \<in> set (fo_records d). P (Some i) (fr_timeoutMessage r)) \<and> list_all (op_all P) (fo_chain d) \<and>
     list_all (\<lambda>(tag, m). P tag m) (fo_sent d)"

lemma fan_all_open: "fan_all P d \<Longrightarrow> open_record d i = Some r \<Longrightarrow> P (Some i) (fr_timeoutMessage r)"
  by (auto simp: fan_all_def open_record_def dest!: map_of_SomeD split: option.splits if_splits)

lemma fan_all_mark: "fan_all P d \<Longrightarrow> fan_all P (markTerminal i reason d)"
  by (auto simp: fan_all_def markTerminal_def AList.delete_eq split: option.split)

lemma fan_all_fields [simp]:
  "fan_all P (fan_enqueue op d) = (fan_all P d \<and> op_all P op)" "fan_all P (safeSend tag m d) = (fan_all P d \<and> P tag m)"
  by (auto simp: fan_all_def fan_enqueue_def safeSend_def)

lemma fan_all_tl: "fan_all P d \<Longrightarrow> fo_chain d = op # ops \<Longrightarrow> fan_all P (d\<lparr>fo_chain := ops\<rparr>) \<and> op_all P op"
  by (simp add: fan_all_def)

lemma fan_all_register: "fan_all P d \<Longrightarrow> P (Some i) m \<Longrightarrow> fan_all P (snd (fan_register i p t m d))"
  by (auto simp: fan_all_def fan_register_def update_absent)

lemma fan_all_run: "fan_all P d \<Longrightarrow> fan_all P (fan_run now d)"
proof (cases "fo_chain d")
  case (Cons op ops)
  assume "fan_all P d"
  then have t: "fan_all P (d\<lparr>fo_chain := ops\<rparr>)" "op_all P op" using fan_all_tl Cons by blast+
  show ?thesis
  proof (cases op)
    case (Fan_answer i m r)
    then show ?thesis using t fan_all_mark[OF t(1)] fan_all_open[OF t(1), of i]
      by (auto simp: fan_run_def Cons fan_perform_def split: option.split)
  next
    case (Fan_send tag m)
    then show ?thesis using t by (simp add: fan_run_def Cons fan_perform_def)
  qed
qed (simp add: fan_run_def)

lemma fan_all_do: "fan_all P d \<Longrightarrow> event_all P ev \<Longrightarrow> fan_all P (fan_do d ev)"
proof (cases ev)
  case (Fe_timer i)
  assume "fan_all P d"
  then show ?thesis using fan_all_mark fan_all_open[of P d i] by (auto simp: Fe_timer timeoutRecord_def split: option.split)
next
  case Fe_clear
  assume "fan_all P d"
  then show ?thesis by (simp add: Fe_clear fan_clear_def fan_all_def)
qed (simp_all add: fan_all_register fan_all_run sendTerminal_def forceTerminal_def sendDetached_def fan_cancel_def fan_all_mark)

lemma fan_all_foldl: "fan_all P d \<Longrightarrow> list_all (event_all P) evs \<Longrightarrow> fan_all P (foldl fan_do d evs)"
  by (induction evs arbitrary: d) (simp_all add: fan_all_do)

lemma outcomes_ends: "fan_wf d \<Longrightarrow> list_all ends_only evs \<Longrightarrow> outcomes i (foldl fan_do d evs) = outcomes i d"
proof (induction evs arbitrary: d)
  case (Cons ev evs)
  have "outcomes i (fan_do d ev) = outcomes i d"
    using outcomes_do[OF Cons.prems(1), of i ev] Cons.prems(2) by (cases ev) simp_all
  then show ?case using Cons.IH[OF fan_wf_do[OF Cons.prems(1)]] Cons.prems(2) by simp
qed simp

text \<open>An event of the dispatcher that sends nothing yet.\<close>

fun asks :: "'m fan_event \<Rightarrow> bool" where
  "asks (Fe_answer i m r) = True"
| "asks (Fe_force i m r) = True"
| "asks (Fe_detached m) = True"
| "asks (Fe_timer i) = True"
| "asks _ = False"

lemma asks_ends: "list_all asks evs \<Longrightarrow> list_all ends_only evs"
proof (induction evs)
  case (Cons ev evs)
  then show ?case by (cases ev) simp_all
qed simp

lemma sent_mark [simp]: "fo_sent (markTerminal i r d) = fo_sent d" "fo_sent (fan_enqueue op d) = fo_sent d"
  by (simp_all add: markTerminal_def fan_enqueue_def split: option.split)

lemma asks_sent: "list_all asks evs \<Longrightarrow> fo_sent (foldl fan_do d evs) = fo_sent d"
proof (induction evs arbitrary: d)
  case (Cons ev evs)
  have "fo_sent (fan_do d ev) = fo_sent d"
    using Cons.prems by (cases ev) (simp_all add: sendTerminal_def forceTerminal_def sendDetached_def timeoutRecord_def split: option.split)
  then show ?case using Cons by simp
qed simp

text \<open>A message about the request it answers, whose file did not change while it was read.\<close>

fun message_stable :: "co_message \<Rightarrow> bool" where
  "message_stable (Msg_error i p rp e w) = True"
| "message_stable (Msg_result i p s cached) = (fi_startSignature s = sn_endSignature s)"

fun recipe_ok :: "string option \<Rightarrow> co_recipe \<Rightarrow> bool" where
  "recipe_ok tag (Ready m) = (message_stable m \<and> (tag = None \<or> tag = Some (message_id m)))"
| "recipe_ok tag (Build_result i s) = (fi_startSignature s = sn_endSignature s \<and> tag = Some i)"

lemma recipe_ok_error [simp]: "recipe_ok tag (answer_error i p rp e w) = (tag = None \<or> tag = Some i)"
  by (simp add: answer_error_def)

definition cache_stable :: "'j preview_cache \<Rightarrow> bool" where
  "cache_stable c \<longleftrightarrow> list_all (\<lambda>(k, e). fi_startSignature (cs_value e) = sn_endSignature (cs_value e)) (cf_cache c)"

text \<open>A step of the coordinator as what it tells its parts.\<close>

definition tells :: "coordinator \<Rightarrow> coordinator \<Rightarrow> bool" where
  "tells c c' \<longleftrightarrow> (cache_stable (co_cache c) \<longrightarrow> cache_stable (co_cache c') \<and> co_messages c' = co_messages c \<and>
     (\<exists>fevs pevs. co_fanout c' = foldl fan_do (co_fanout c) fevs \<and> list_all asks fevs \<and> list_all (event_all recipe_ok) fevs \<and>
        co_pool c' = foldl pool_step (co_pool c) pevs))"

lemma tellsI:
  assumes "co_fanout c' = foldl fan_do (co_fanout c) fevs" and "list_all asks fevs" and "list_all (event_all recipe_ok) fevs"
    and "co_pool c' = foldl pool_step (co_pool c) pevs" and "co_messages c' = co_messages c"
    and "cache_stable (co_cache c) \<Longrightarrow> cache_stable (co_cache c')"
  shows "tells c c'"
  unfolding tells_def using assms by blast

lemma tells_same:
  assumes "co_fanout c' = co_fanout c" and "co_pool c' = co_pool c" and "co_messages c' = co_messages c"
    and "cache_stable (co_cache c) \<Longrightarrow> cache_stable (co_cache c')"
  shows "tells c c'"
  by (rule tellsI[of _ _ "[]" "[]"]) (use assms in simp_all)

text \<open>The cache may be taken to be stable.\<close>

lemma tells_stable: "(cache_stable (co_cache c) \<Longrightarrow> tells c c') \<Longrightarrow> tells c c'"
  unfolding tells_def by blast

lemma tells_refl [simp]: "tells c c"
  by (rule tells_same) simp_all

lemma tells_trans:
  assumes "tells c c'" and "tells c' c''"
  shows "tells c c''"
  unfolding tells_def
proof
  assume s: "cache_stable (co_cache c)"
  obtain f p where 1: "co_fanout c' = foldl fan_do (co_fanout c) f" "list_all asks f" "list_all (event_all recipe_ok) f"
      "co_pool c' = foldl pool_step (co_pool c) p" "cache_stable (co_cache c')" "co_messages c' = co_messages c"
    using assms(1) s unfolding tells_def by blast
  obtain f' p' where 2: "co_fanout c'' = foldl fan_do (co_fanout c') f'" "list_all asks f'" "list_all (event_all recipe_ok) f'"
      "co_pool c'' = foldl pool_step (co_pool c') p'" "cache_stable (co_cache c'')" "co_messages c'' = co_messages c'"
    using assms(2) 1(5) unfolding tells_def by blast
  have "co_fanout c'' = foldl fan_do (co_fanout c) (f @ f')" "co_pool c'' = foldl pool_step (co_pool c) (p @ p')"
    "list_all asks (f @ f')" "list_all (event_all recipe_ok) (f @ f')"
    using 1 2 by simp_all
  then show "cache_stable (co_cache c'') \<and> co_messages c'' = co_messages c \<and>
     (\<exists>fevs pevs. co_fanout c'' = foldl fan_do (co_fanout c) fevs \<and> list_all asks fevs \<and> list_all (event_all recipe_ok) fevs \<and>
        co_pool c'' = foldl pool_step (co_pool c) pevs)"
    using 1(6) 2(5,6) by metis
qed

lemma tells_fanout: "asks ev \<Longrightarrow> event_all recipe_ok ev \<Longrightarrow> tells c (with_fanout ev c)"
  by (rule tellsI[of _ _ "[ev]" "[]"]) simp_all

lemma tells_fold: "(\<And>x c. x \<in> set xs \<Longrightarrow> tells c (f x c)) \<Longrightarrow> tells c (fold f xs c)"
proof (induction xs arbitrary: c)
  case (Cons x xs)
  have "tells c (f x c)" "tells (f x c) (fold f xs (f x c))" using Cons by simp_all
  then show ?case using tells_trans by simp
qed simp

lemma tells_set_attachment: "tells c (set_attachment i a c)"
  by (rule tells_same) simp_all

lemma tells_dispatch: "tells c (dispatchWorker env inp d w c)"
  by (rule tellsI[of _ _ "[]" "[(env, Pe_dispatch inp (Some d))]"]) (simp_all add: dispatchWorker_def)

lemma tells_finish: "tells c (finish_request reason rp e w i c)"
  by (simp add: finish_request_def tells_fanout split: option.split)

lemma tells_error: "tells c (finishJobWithError ids e rp c)" "tells c (finishJobWithWorkerError ids e w c)"
  unfolding finishJobWithError_def finishJobWithWorkerError_def by (rule tells_fold, rule tells_finish)+

lemma stable_removes: "cache_stable c \<Longrightarrow> only_removes c d \<Longrightarrow> cache_stable d"
  by (auto simp: cache_stable_def list_all_iff dest: removes_set)

lemma stable_get: "cache_stable c \<Longrightarrow> cache_stable (snd (getCached now p sig c))"
  using stable_removes get_removes by blast

lemma stable_got:
  assumes "cache_stable c" and "fst (getCached now p sig c) = Some v"
  shows "fi_startSignature v = sn_endSignature v"
proof -
  have s: "cache_stable (sweepExpired now c)" by (rule stable_removes[OF assms(1) only_removes_sweep])
  obtain k e where "map_of (cf_cache (sweepExpired now c)) k = Some e" "cs_value e = v"
    using assms(2) by (auto simp: getCached_def Let_def split: option.splits if_splits)
  then show ?thesis using s by (auto simp: cache_stable_def list_all_iff dest!: map_of_SomeD)
qed

lemma stable_write: "cache_stable c \<Longrightarrow> cache_stable (snd (writeSnapshot now v g c))"
proof -
  assume c: "cache_stable c"
  have "fi_startSignature (cs_value (snd x)) = sn_endSignature (cs_value (snd x))"
    if "x \<in> set (cf_cache (snd (writeSnapshot now v g c)))" for x
    using that c write_effect[of c now v g] by (fastforce simp: cache_stable_def list_all_iff entry_for_def)
  then show ?thesis by (auto simp: cache_stable_def list_all_iff)
qed

text \<open>The operations of the coordinator.\<close>

lemmas tells_thens = tells_trans[OF tells_set_attachment] tells_trans[OF tells_dispatch]

lemma tells_preflights: "tells c (c\<lparr>co_preflights := ps\<rparr>)" "tells c (end_preflight k c)"
  by (rule tells_same, simp_all add: end_preflight_def)+

lemma tells_end_snapshot: "tells c (end_snapshot k c)"
  by (rule tells_same) (simp_all add: end_snapshot_def deleteInflight_def cache_stable_def)

lemma tells_run: "tells c (runPreflight env k job c)" "tells c (runSnapshot env k sjob f c)"
  by (simp_all add: runPreflight_def runSnapshot_def Let_def tells_preflights tells_end_snapshot tells_dispatch split: option.split)

lemma tells_attach_preflight: "tells c (attachToPreflight env r c)"
  unfolding attachToPreflight_def Let_def
  by (auto simp: tells_fanout split: option.split
      intro!: tells_trans[OF tells_trans[OF tells_preflights(1) tells_set_attachment] tells_run(1)] tells_trans[OF tells_preflights(1) tells_set_attachment])

lemma tells_attach_snapshot: "tells c (attachToSnapshot env f r c)"
proof (rule tells_stable)
  assume s: "cache_stable (co_cache c)"
  obtain cached cache where got: "getCached (pe_now env) (fi_realPath f) (fi_startSignature f) (co_cache c) = (cached, cache)" by fastforce
  have st: "cache_stable cache" "\<And>v. cached = Some v \<Longrightarrow> fi_startSignature v = sn_endSignature v"
    using stable_get[OF s, of "pe_now env" "fi_realPath f" "fi_startSignature f"] stable_got[OF s] got by (metis snd_conv, metis fst_conv)
  have cache: "tells c (c\<lparr>co_cache := cache\<rparr>)" by (rule tells_same) (simp_all add: st)
  have job: "tells c (with_snapshot_job k j cache c)" "tells c (with_snapshot_job k j (setInflight k j cache) c)" for k j
    using st(1) by (auto simp: with_snapshot_job_def setInflight_def cache_stable_def intro!: tells_same)
  note form = attachToSnapshot_form[OF got refl refl, of r]
  show "tells c (attachToSnapshot env f r c)"
  proof (cases cached)
    case (Some v)
    then show ?thesis using st(2) tells_trans[OF cache tells_trans[OF tells_set_attachment tells_fanout]] by (simp add: form)
  next
    case None
    then show ?thesis
      using tells_trans[OF job(2) tells_trans[OF tells_set_attachment tells_run(2)]] tells_trans[OF job(1) tells_set_attachment]
        tells_trans[OF cache tells_fanout] by (simp add: form split: option.split)
  qed
qed

lemma tells_duration: "tells c (record_duration now t c)"
  by (rule tells_same) (simp_all add: record_duration_def)

lemma tells_attach_active: "tells c (attach_active env f i c)"
  by (simp add: attach_active_def tells_attach_snapshot split: option.split)

lemma tells_answers:
  assumes "\<And>i. recipe_ok (Some i) (g i)"
  shows "tells c (fold (\<lambda>i. with_fanout (Fe_answer i (g i) r)) ids c)"
  by (rule tells_fold, rule tells_fanout) (simp_all add: assms)

lemma tells_preflight_settled: "tells c (preflight_settled env k t outcome c)"
proof (cases "map_of (co_preflights c) k")
  case (Some job)
  note fin = tells_trans[OF _ tells_preflights(2)] and dur = tells_trans[OF tells_duration]
  show ?thesis
  proof (cases outcome)
    case (Job_rejected e)
    show ?thesis by (simp add: preflight_settled_def Some Job_rejected) (rule fin, rule tells_error)
  next
    case (Job_resolved identity result)
    show ?thesis
    proof (cases result)
      case (Res_preflight f)
      show ?thesis by (simp add: preflight_settled_def Some Job_resolved Res_preflight Let_def)
        (rule fin, rule dur, rule tells_fold, rule tells_attach_active)
    qed (simp add: preflight_settled_def Some Job_resolved Let_def, rule fin, rule dur, rule tells_error)+
  qed
qed (simp add: preflight_settled_def)

lemma tells_snapshot_settled: "tells c (snapshot_settled env k t outcome c)"
proof (cases "map_of (co_snapshots c) k")
  case (Some job)
  note fin = tells_trans[OF _ tells_end_snapshot] and dur = tells_trans[OF tells_duration]
  have write_: "tells d (d\<lparr>co_cache := snd (writeSnapshot now s g (co_cache d))\<rparr>)" for d now s g
    by (rule tells_same) (simp_all add: stable_write)
  have success: "tells d (fold (\<lambda>i. with_fanout (Fe_answer i (Build_result i s) ''success'')) ids
      (d\<lparr>co_cache := snd (writeSnapshot now s g (co_cache d))\<rparr>))" if "fi_startSignature s = sn_endSignature s" for d ids s g now
    by (rule tells_trans[OF write_ tells_answers]) (simp add: that)
  show ?thesis
  proof (cases outcome)
    case (Job_rejected e)
    show ?thesis by (simp add: snapshot_settled_def Some Job_rejected) (rule fin, rule tells_error)
  next
    case (Job_resolved identity result)
    show ?thesis
    proof (cases result)
      case (Res_snapshot s)
      show ?thesis
        using fin[OF dur[OF success[of s]]] fin[OF dur[OF tells_error(1)]] fin[OF tells_duration]
        by (simp add: snapshot_settled_def Some Job_resolved Res_snapshot Let_def)
    qed (simp add: snapshot_settled_def Some Job_resolved Let_def, rule fin, rule dur, rule tells_error)+
  qed
qed (simp add: snapshot_settled_def)

lemma tells_resume: "tells c (co_resume env n c)"
proof -
  have "tells c (c\<lparr>co_waiting := ws\<rparr>)" for ws by (rule tells_same) simp_all
  then show ?thesis
    using tells_trans[OF _ tells_preflight_settled] tells_trans[OF _ tells_snapshot_settled]
    by (simp add: co_resume_def Let_def split: option.split co_waiting.split)
qed

text \<open>A submission only answers at once, or it registers its request and attaches it.\<close>

lemma submit_form:
  "(\<not> sr_accepted (fst (co_submit env requestId path c)) \<and> tells c (snd (co_submit env requestId path c))) \<or>
   (\<exists>r m. sr_accepted (fst (co_submit env requestId path c)) \<and> requestId = JStr (er_requestId r) \<and> \<not> er_terminal r \<and>
      recipe_ok (Some (er_requestId r)) m \<and> snd (co_submit env requestId path c) = attachToPreflight env r (registered r m c))"
proof (cases requestId)
  case (JStr i)
  have det: "tells c (with_fanout (Fe_detached (answer_error i p rp e w)) c)" for p rp e w
    by (rule tells_fanout) simp_all
  obtain a d where ad: "deadlineFromNow (pe_now env) (co_admission c) = (a, d)" by fastforce
  let ?p = "case path of JStr p \<Rightarrow> p | _ \<Rightarrow> []"
  let ?r = "\<lparr>er_requestId = i, er_rawPath = ?p, er_admittedAt = a, er_deadlineAt = d, er_terminal = False, er_attachmentState = None\<rparr>"
  show ?thesis
  proof (cases "i \<noteq> [] \<and> ?p \<noteq> [] \<and> ad_admitted (admission_decide (int (getQueueDepth (co_pool c))) (co_admission c))")
    case True
    have "sr_accepted (fst (co_submit env requestId path c)) \<and>
      snd (co_submit env requestId path c) = attachToPreflight env ?r (registered ?r (answer_error i ?p None (cec_timeout (co_errorCodes c)) None) c)"
      using True by (simp add: co_submit_def JStr Let_def ad registered_def)
    then show ?thesis using JStr
      by (intro disjI2 exI[of _ ?r] exI[of _ "answer_error i ?p None (cec_timeout (co_errorCodes c)) None"]) simp
  next
    case False
    then show ?thesis using det by (auto simp: co_submit_def JStr Let_def)
  qed
qed (simp_all add: co_submit_def Let_def)

text \<open>The account of a request: the accepted submissions that found it closed are its answers and its open record.\<close>

definition told :: "coordinator \<Rightarrow> bool" where
  "told c \<longleftrightarrow> cache_stable (co_cache c) \<and> linked c \<and> fan_all recipe_ok (co_fanout c) \<and>
     list_all (\<lambda>(tag, m). message_stable m \<and> (tag = None \<or> tag = Some (message_id m))) (co_messages c) \<and>
     map fst (co_messages c) = map fst (fo_sent (co_fanout c))"

lemma tells_told:
  assumes "told c" and "tells c c'" and "linked c'"
  shows "told c' \<and> outcomes i (co_fanout c') = outcomes i (co_fanout c) \<and> (\<exists>pevs. co_pool c' = foldl pool_step (co_pool c) pevs)"
proof -
  obtain fevs pevs where f: "co_fanout c' = foldl fan_do (co_fanout c) fevs" "list_all asks fevs" "list_all (event_all recipe_ok) fevs"
      "co_pool c' = foldl pool_step (co_pool c) pevs" "cache_stable (co_cache c')" "co_messages c' = co_messages c"
    using assms(1,2) unfolding tells_def told_def by blast
  have wf: "fan_wf (co_fanout c)" using assms(1) by (simp add: told_def linked_def)
  have "fo_sent (co_fanout c') = fo_sent (co_fanout c)" by (simp add: f(1) asks_sent[OF f(2)])
  moreover have "fan_all recipe_ok (co_fanout c')" using assms(1) fan_all_foldl[OF _ f(3)] by (simp add: f(1) told_def)
  ultimately have "told c'" using assms(1,3) f(5,6) by (simp add: told_def)
  moreover have "outcomes i (co_fanout c') = outcomes i (co_fanout c)"
    by (simp add: f(1) outcomes_ends[OF wf asks_ends[OF f(2)]])
  ultimately show ?thesis using f(4) by blast
qed

lemma registered_told:
  assumes "told c" and "co_ok {} {} c" and "\<not> er_terminal r" and "recipe_ok (Some (er_requestId r)) m"
  shows "told (registered r m c) \<and> outcomes i (co_fanout (registered r m c)) = outcomes i (co_fanout c)
      + (if er_requestId r = i \<and> getExternalRequest i c = None then 1 else 0)"
proof -
  let ?e = "Fe_register (er_requestId r) (er_rawPath r) (er_deadlineAt r) m"
  have l: "linked c" using assms(2) by (simp add: co_ok_def)
  then have wf: "fan_wf (co_fanout c)" by (simp add: linked_def)
  have lr: "linked (registered r m c)" using registered_ok[OF assms(2,3)] by (simp add: co_ok_def)
  have other: "co_cache (registered r m c) = co_cache c" "co_messages (registered r m c) = co_messages c"
    by (simp_all add: registered_def)
  have "fan_all recipe_ok (co_fanout (registered r m c))"
    using fan_all_register[where P = recipe_ok, OF _ assms(4)] assms(1) unfolding registered_fields told_def by blast
  then have "told (registered r m c)" using assms(1) lr by (simp add: told_def other register_fields)
  moreover have "outcomes i (co_fanout (registered r m c)) = outcomes i (co_fanout c)
      + (if er_requestId r = i \<and> getExternalRequest i c = None then 1 else 0)"
    using outcomes_do[OF wf, of i ?e] linked_has[OF l, of "er_requestId r"]
    by (auto simp: fan_register_def getExternalRequest_def fan_has_def)
  ultimately show ?thesis by simp
qed

lemma run_sent: "\<exists>new. fo_sent (fan_run now d) = fo_sent d @ new"
proof (cases "fo_chain d")
  case (Cons op ops)
  then show ?thesis
    by (cases op; cases "open_record d (case op of Fan_answer i m r \<Rightarrow> i | Fan_send tag m \<Rightarrow> [])")
      (simp_all add: fan_run_def fan_perform_def safeSend_def)
qed (simp add: fan_run_def)

lemma send_told:
  assumes "told c"
  shows "told (co_send now c) \<and> outcomes i (co_fanout (co_send now c)) = outcomes i (co_fanout c)"
proof -
  let ?d = "fan_run now (co_fanout c)" and ?c = "co_send now c"
  have l: "linked c" and wf: "fan_wf (co_fanout c)" and all: "fan_all recipe_ok (co_fanout c)"
    using assms unfolding told_def linked_def by blast+
  have f: "co_fanout ?c = ?d" "co_cache ?c = co_cache c" "co_requests ?c = co_requests (with_fanout (Fe_run now) c)"
    by (simp_all add: co_send_def Let_def)
  obtain new where new: "fo_sent ?d = fo_sent (co_fanout c) @ new" using run_sent by blast
  have m: "co_messages ?c = co_messages c @ map (\<lambda>(tag, recipe). (tag, render c recipe)) new"
    by (simp add: co_send_def Let_def new)
  have all': "fan_all recipe_ok ?d" by (rule fan_all_run[OF all])
  have rend: "message_stable (render c recipe) \<and> (tag = None \<or> tag = Some (message_id (render c recipe)))"
    if "recipe_ok tag recipe" for tag recipe
    using that l by (cases recipe) (auto simp: render_def linked_def split: option.split)
  have "list_all (\<lambda>(tag, recipe). recipe_ok tag recipe) new" using all' new by (simp add: fan_all_def)
  then have "list_all (\<lambda>(tag, m). message_stable m \<and> (tag = None \<or> tag = Some (message_id m)))
      (map (\<lambda>(tag, recipe). (tag, render c recipe)) new)"
    unfolding list_all_iff using rend by fastforce
  moreover have "map fst (map (\<lambda>(tag, recipe). (tag, render c recipe)) new) = map fst new" by (induction new) auto
  moreover have "linked ?c"
    by (rule linked_same_requests[OF linked_with_fanout[OF l, of "Fe_run now"]]) (simp_all add: f)
  ultimately have "told ?c" using assms all' by (simp add: told_def f m new)
  then show ?thesis using outcomes_run[OF wf] by (simp add: f)
qed

lemma stable_invalidate: "cache_stable c \<Longrightarrow> cache_stable (cache_invalidatePath p c)"
proof -
  assume c: "cache_stable c"
  let ?b = "snd (bumpGeneration (normalizePath c p) c)"
  have "cache_stable ?b" using c by (simp add: cache_stable_def bumpGeneration_def Let_def)
  then have "cache_stable (deleteCached (normalizePath c p) ?b)" using stable_removes only_removes_delete by blast
  then show ?thesis by (simp add: cache_invalidatePath_def Let_def cache_stable_def)
qed

section \<open>Histories\<close>

text \<open>How many submissions of a request were accepted when it was not open.\<close>

fun fresh_submits :: "string \<Rightarrow> coordinator \<Rightarrow> (pool_env \<times> co_event) list \<Rightarrow> nat" where
  "fresh_submits i c [] = 0"
| "fresh_submits i c ((env, ev) # evs) =
     (case ev of
        Co_submit requestId path \<Rightarrow>
          if requestId = JStr i \<and> sr_accepted (fst (co_submit env requestId path c)) \<and> getExternalRequest i c = None then 1 else 0
      | _ \<Rightarrow> 0) + fresh_submits i (co_step c (env, ev)) evs"

lemma fresh_append: "fresh_submits i c (evs @ evs') = fresh_submits i c evs + fresh_submits i (foldl co_step c evs) evs'"
  by (induction i c evs rule: fresh_submits.induct) simp_all

definition pool_reached :: "coordinator_options \<Rightarrow> (worker_input, worker_result) pool \<Rightarrow> bool" where
  "pool_reached options p \<longleftrightarrow> (\<exists>pevs. p = pool_run (pool_constructor (coo_pool options)) pevs)"

lemma reached_more: "pool_reached options p \<Longrightarrow> \<exists>es. q = foldl pool_step p es \<Longrightarrow> pool_reached options q"
  unfolding pool_reached_def pool_run_def by (metis foldl_append)

definition co_account :: "coordinator_options \<Rightarrow> coordinator \<Rightarrow> bool" where
  "co_account options c \<longleftrightarrow> told c \<and> pool_reached options (co_pool c)"

lemma step_account:
  assumes acc: "co_account options c" and all: "all_served {} {} T c" and now: "pe_now env \<in> T"
  shows "co_account options (co_step c (env, ev)) \<and>
    outcomes i (co_fanout (co_step c (env, ev))) = outcomes i (co_fanout c) + fresh_submits i c [(env, ev)]"
proof -
  let ?c' = "co_step c (env, ev)"
  have told: "told c" using acc by (simp add: co_account_def)
  have ok: "co_ok {} {} c" using all by (simp add: all_served_def)
  have "linked ?c'" using step_served[OF all now, of ev] by (simp add: all_served_def co_ok_def)
  then have by_tells: ?thesis if "tells c ?c'" "fresh_submits i c [(env, ev)] = 0"
    using tells_told[OF told that(1)] that(2) acc reached_more[of options "co_pool c"] by (simp add: co_account_def)
  show ?thesis
  proof (cases ev)
    case (Co_submit requestId path)
    from submit_form[of env requestId path c] show ?thesis
    proof (elim disjE exE conjE)
      assume "\<not> sr_accepted (fst (co_submit env requestId path c))" "tells c (snd (co_submit env requestId path c))"
      then show ?thesis using by_tells by (simp add: Co_submit)
    next
      fix r m
      assume r: "sr_accepted (fst (co_submit env requestId path c))" "requestId = JStr (er_requestId r)" "\<not> er_terminal r"
        "recipe_ok (Some (er_requestId r)) m" "snd (co_submit env requestId path c) = attachToPreflight env r (registered r m c)"
      note reg = registered_told[OF told ok r(3,4)]
      have "tells (registered r m c) ?c'" using r(5) by (simp add: Co_submit tells_attach_preflight)
      from tells_told[OF reg[THEN conjunct1] this \<open>linked ?c'\<close>, of i] show ?thesis
        using reg[of i] r(1,2) acc reached_more[of options "co_pool c"] by (auto simp: co_account_def Co_submit)
    qed
  next
    case (Co_pool e)
    have "tells c (c\<lparr>co_pool := pool_step (co_pool c) (env, e)\<rparr>)" by (rule tellsI[of _ _ "[]" "[(env, e)]"]) simp_all
    then show ?thesis using by_tells by (simp add: Co_pool)
  next
    case Co_send
    have "co_pool (co_send (pe_now env) c) = co_pool c" by (simp add: co_send_def Let_def)
    then show ?thesis using send_told[OF told, of "pe_now env" i] acc by (simp add: Co_send co_account_def)
  next
    case (Co_invalidate p)
    have "tells c (co_invalidatePath p c)"
      by (rule tells_same) (simp_all add: co_invalidatePath_def stable_invalidate)
    then show ?thesis using by_tells by (simp add: Co_invalidate)
  next
    case (Co_shutdown b)
    have "tells c (shutdown_requests env b c)" by (rule tells_same) (simp_all add: shutdown_requests_def Let_def)
    then show ?thesis using by_tells by (simp add: Co_shutdown)
  next
    case (Co_drain k)
    have "tells c (drain_ends k c)"
      by (rule tellsI[of _ _ "[]" "[(env, Pe_shutdown)]"]) (simp_all add: drain_ends_def)
    moreover have "tells c (sendUnavailable j (c\<lparr>co_drains := ds\<rparr>))" for j ds
    proof -
      have "tells c (c\<lparr>co_drains := ds\<rparr>)" by (rule tells_same) simp_all
      then show ?thesis using tells_trans[OF _ tells_fanout] by (simp add: sendUnavailable_def split: option.split)
    qed
    ultimately have "tells c ?c'" by (simp add: Co_drain drain_next_def split: prod.split list.split)
    then show ?thesis using by_tells by (simp add: Co_drain)
  next
    case (Co_drain_timeout k)
    have "tells c (drain_ends k c)"
      by (rule tellsI[of _ _ "[]" "[(env, Pe_shutdown)]"]) (simp_all add: drain_ends_def)
    then show ?thesis using by_tells by (simp add: Co_drain_timeout)
  qed (use by_tells tells_resume tells_fanout in simp_all)
qed

lemma run_account:
  "co_account options (co_run options evs) \<and>
   outcomes i (co_fanout (co_run options evs)) = fresh_submits i (coordinator_new options) evs"
proof (induction evs rule: rev_induct)
  case Nil
  have "linked (coordinator_new options)" using new_served[of "{}" options] by (simp add: all_served_def co_ok_def)
  then have "told (coordinator_new options)"
    by (simp add: told_def coordinator_new_def Let_def cache_new_def cache_stable_def fan_all_def fanout_new_def)
  moreover have "pool_reached options (co_pool (coordinator_new options))"
    unfolding pool_reached_def by (rule exI[of _ "[]"]) (simp add: coordinator_new_def Let_def pool_run_def)
  ultimately show ?case by (simp add: co_run_def co_account_def coordinator_new_def Let_def outcomes_def)
next
  case (snoc x evs)
  obtain env ev where x: "x = (env, ev)" by fastforce
  have "all_served {} {} (readings (evs @ [x])) (co_run options evs)"
    by (rule all_served_mono[OF run_served]) (auto simp: readings_def)
  moreover have "pe_now env \<in> readings (evs @ [x])" by (auto simp: readings_def x)
  ultimately show ?case
    using step_account[OF snoc.IH[THEN conjunct1], of _ env ev i] snoc.IH
    by (simp add: co_run_def x fresh_append)
qed

text \<open>The wait of a job is for a dispatch of the pool, which is in one place there.\<close>

lemma waited_in_pool:
  assumes "w \<in> waits (co_run options evs)"
  shows "\<exists>n. map_of (co_waiting (co_run options evs)) n = Some w \<and> count (job_places (co_pool (co_run options evs))) n = 1"
proof -
  let ?c = "co_run options evs"
  obtain n where n: "map_of (co_waiting ?c) n = Some w" using assms by (auto simp: waits_def ran_def)
  have "jobs_waited {} {} ?c" using run_served[of evs options] by (simp add: all_served_def co_ok_def)
  then have lt: "n < pp_dispatched (co_pool ?c)"
    using map_of_SomeD[OF n] by (force simp: jobs_waited_def)
  obtain pevs where p: "co_pool ?c = pool_run (pool_constructor (coo_pool options)) pevs"
    using run_account[of options evs] by (auto simp: co_account_def pool_reached_def)
  have "job_places (co_pool ?c) = mset [0..<pp_dispatched (co_pool ?c)]"
    unfolding p pool_run_def by (rule jobs_accounted[OF pool_new_inv]) (simp add: pool_new_def job_places_def)
  moreover have "count (mset [0..<m]) n = (if n < m then 1 else 0)" for m by (induction m) auto
  ultimately have "count (job_places (co_pool ?c)) n = 1" using lt by simp
  then show ?thesis using n by blast
qed

text \<open>The requests of the job that a continuation belongs to.\<close>

fun waiting_ids :: "coordinator \<Rightarrow> co_waiting \<Rightarrow> string list" where
  "waiting_ids c (Wait_preflight k t) = (case map_of (co_preflights c) k of None \<Rightarrow> [] | Some job \<Rightarrow> pj_requestIds job)"
| "waiting_ids c (Wait_snapshot k t) = (case map_of (co_snapshots c) k of None \<Rightarrow> [] | Some job \<Rightarrow> sj_requestIds job)"

text \<open>
  C39. No request is forgotten: after every history, each open request has a record in the dispatcher that is not
  terminal and whose timer is armed, and it is held by a job whose continuation waits for a dispatch that is in exactly one place of the pool, or its answer
  is in the send chain, or its deadline had passed at some event.
\<close>

theorem no_request_is_forgotten:
  assumes "getExternalRequest i (co_run options evs) = Some r"
  shows "(\<exists>f. map_of (fo_records (co_fanout (co_run options evs))) i = Some f \<and> fr_timer f \<and> \<not> fr_terminal f) \<and>
    ((\<exists>n w. map_of (co_waiting (co_run options evs)) n = Some w \<and> i \<in> set (waiting_ids (co_run options evs) w) \<and>
        count (job_places (co_pool (co_run options evs))) n = 1) \<or>
     (\<exists>m reason. Fan_answer i m reason \<in> set (fo_chain (co_fanout (co_run options evs)))) \<or>
     (\<exists>env ev. (env, ev) \<in> set evs \<and> er_deadlineAt r \<le> pe_now env))"
proof
  let ?c = "co_run options evs"
  have all: "all_served {} {} (readings evs) ?c" by (rule run_served)
  have l: "linked ?c" using all by (simp add: all_served_def co_ok_def)
  have "fan_has i (co_fanout ?c)" using assms linked_has[OF l] by (simp add: getExternalRequest_def)
  then obtain f where f: "map_of (fo_records (co_fanout ?c)) i = Some f" by (auto simp: fan_has_def)
  have "fan_wf (co_fanout ?c)" using l by (simp add: linked_def)
  then show "\<exists>f. map_of (fo_records (co_fanout ?c)) i = Some f \<and> fr_timer f \<and> \<not> fr_terminal f"
    using f fan_wf_armed by blast
  have "served {} {} (readings evs) ?c i" using all assms by (simp add: all_served_def getExternalRequest_def)
  then consider w where "w \<in> waits ?c" "i \<in> set (waiting_ids ?c w)" | "answer_queued ?c i" | "overdue (readings evs) ?c i"
    unfolding served_def preflight_serves_def snapshot_serves_def by (metis option.simps(5) waiting_ids.simps)
  then show "(\<exists>n w. map_of (co_waiting ?c) n = Some w \<and> i \<in> set (waiting_ids ?c w) \<and> count (job_places (co_pool ?c)) n = 1) \<or>
     (\<exists>m reason. Fan_answer i m reason \<in> set (fo_chain (co_fanout ?c))) \<or>
     (\<exists>env ev. (env, ev) \<in> set evs \<and> er_deadlineAt r \<le> pe_now env)"
  proof cases
    case (1 w)
    then show ?thesis using waited_in_pool[OF 1(1)] by blast
  next
    case 2
    then show ?thesis by (simp add: answer_queued_def)
  next
    case 3
    then show ?thesis using assms by (auto simp: overdue_def readings_def getExternalRequest_def)
  qed
qed

lemma count_tags: "length (filter (\<lambda>(tag, m). tag = x) xs) = length (filter (\<lambda>t. t = x) (map fst xs))"
  by (induction xs) auto

text \<open>
  C40. Every accepted request is answered once: the submissions of an id that were accepted while it was not open
  are as many as the messages sent for it, those waiting in the send chain, and the request that is
  open; resubmitting an open id adds no answer.
\<close>

theorem one_answer_per_submission:
  "length (filter (\<lambda>(tag, m). tag = Some i) (co_messages (co_run options evs))) +
   length (filter (\<lambda>op. case op of Fan_send tag m \<Rightarrow> tag = Some i | Fan_answer j m reason \<Rightarrow> False)
     (fo_chain (co_fanout (co_run options evs)))) +
   (if getExternalRequest i (co_run options evs) = None then 0 else 1) =
   fresh_submits i (coordinator_new options) evs"
proof -
  let ?c = "co_run options evs"
  have told: "told ?c" using run_account by (auto simp: co_account_def)
  have "map fst (co_messages ?c) = map fst (fo_sent (co_fanout ?c))" using told by (simp add: told_def)
  then have "length (filter (\<lambda>(tag, m). tag = Some i) (co_messages ?c)) = length (filter (\<lambda>(tag, m). tag = Some i) (fo_sent (co_fanout ?c)))"
    by (simp add: count_tags)
  moreover have "fan_has i (co_fanout ?c) = (getExternalRequest i ?c \<noteq> None)"
    using told linked_has by (simp add: told_def getExternalRequest_def)
  moreover have "outcomes i (co_fanout ?c) = fresh_submits i (coordinator_new options) evs" using run_account by blast
  ultimately show ?thesis unfolding outcomes_def answers_def by (cases "getExternalRequest i ?c = None") (simp_all only: if_True if_False simp_thms)
qed

text \<open>
  Answers are about their request and never stale: every message sent for a request carries its id, and every
  snapshot in it was read from a file with the same signature before and after.
\<close>

theorem answers_honest:
  "list_all (\<lambda>(tag, m). (case tag of None \<Rightarrow> True | Some i \<Rightarrow> message_id m = i) \<and>
     (case m of Msg_error i p rp e w \<Rightarrow> True | Msg_result i p s cached \<Rightarrow> fi_startSignature s = sn_endSignature s))
   (co_messages (co_run options evs))"
proof -
  have "list_all (\<lambda>(tag, m). message_stable m \<and> (tag = None \<or> tag = Some (message_id m))) (co_messages (co_run options evs))"
    using run_account by (auto simp: co_account_def told_def)
  then show ?thesis by (rule list.pred_mono_strong) (auto split: option.split co_message.split)
qed

theorem jobs_within_cap:
  "(case map_of (co_preflights (co_run options evs)) k of None \<Rightarrow> True
    | Some job \<Rightarrow> int (length (pj_requestIds job)) \<le> co_attachedCap (co_run options evs)) \<and>
   (case map_of (co_snapshots (co_run options evs)) k of None \<Rightarrow> True
    | Some job \<Rightarrow> int (length (sj_requestIds job)) \<le> co_attachedCap (co_run options evs))"
  using run_served[of evs options] by (auto simp: all_served_def co_ok_def capped_def split: option.split)

definition example_env :: "int \<Rightarrow> pool_env" where
  "example_env now = \<lparr>pe_now = now, pe_createWorker = (\<lambda>h g. True), pe_postMessage = (\<lambda>i. True)\<rparr>"

definition example_coordinator_options :: coordinator_options where
  "example_coordinator_options = \<lparr>coo_errorCodes = default_coordinator_error_codes, coo_attachedCap = Some 2,
     coo_admission = \<lparr>ado_workersTarget = None, ado_queueCap = None, ado_attachedCap = None, ado_deadlineMs = Some 5000,
       ado_safetyMarginMs = None, ado_tEstimateMs = None, ado_estimateSampleSize = None\<rparr>,
     coo_pool = \<lparr>po_workersTarget = Some 1, po_queueCap = None, po_restartBackoffMs = None, po_activeJobTimeoutMs = None,
       po_workerRecycleJobCount = None\<rparr>,
     coo_cache = default_cache_options, coo_cwd = ''/''\<rparr>"

text \<open>Two requests of one file, of which the second joins the job of the first.\<close>

definition example_requests :: "(pool_env \<times> co_event) list" where
  "example_requests = [(example_env 10, Co_submit (JStr ''a'') (JStr ''/x.md'')), (example_env 11, Co_submit (JStr ''b'') (JStr ''/x.md''))]"

lemma example_open:
  "map_option er_deadlineAt (getExternalRequest ''b'' (co_run example_coordinator_options example_requests)) = Some 5011"
  by code_simp

theorem no_request_is_forgotten_witness:
  "\<exists>r. getExternalRequest ''b'' (co_run example_coordinator_options example_requests) = Some r \<and>
     (\<exists>f. map_of (fo_records (co_fanout (co_run example_coordinator_options example_requests))) ''b'' = Some f \<and> fr_timer f)"
proof -
  obtain r where "getExternalRequest ''b'' (co_run example_coordinator_options example_requests) = Some r"
    using example_open by auto
  with no_request_is_forgotten[OF this] show ?thesis by blast
qed

section \<open>The default coordinator\<close>

text \<open>A callback with the messages that its request may still get: the calls so far and the place in the map.\<close>

definition callbacks :: "'s \<Rightarrow> 's default_coordinator \<Rightarrow> nat" where
  "callbacks x d = length (filter (\<lambda>(s, m). s = x) (dc_delivered d)) + length (filter (\<lambda>(i, s). s = x) (dc_senders d))"

fun hands_in :: "'s \<Rightarrow> pool_env \<times> 's default_event \<Rightarrow> bool" where
  "hands_in x (env, De_handle path requestId s) = (s = x)"
| "hands_in x (env, _) = False"

definition handles :: "'s \<Rightarrow> (pool_env \<times> 's default_event) list \<Rightarrow> nat" where
  "handles x evs = length (filter (hands_in x) evs)"

lemma count_update: "length (filter (\<lambda>(i, s). s = x) (AList.update k v al)) \<le> length (filter (\<lambda>(i, s). s = x) al) + (if v = x then 1 else 0)"
  by (induction al) auto

lemma count_delete:
  "map_of al k = Some v \<Longrightarrow> length (filter (\<lambda>(i, s). s = x) (AList.delete k al)) + (if v = x then 1 else 0) \<le> length (filter (\<lambda>(i, s). s = x) al)"
proof (induction al)
  case (Cons e al)
  have "length (filter (\<lambda>(i, s). s = x) (AList.delete k al)) \<le> length (filter (\<lambda>(i, s). s = x) al)"
    unfolding AList.delete_eq by (induction al) auto
  then show ?case using Cons by (auto split: if_splits)
qed simp

lemma callbacks_deliver: "callbacks x (default_deliver m d) \<le> callbacks x d"
  using count_delete[of "dc_senders d" "message_id m" _ x] by (auto simp: callbacks_def default_deliver_def split: option.split)

lemma callbacks_fold: "callbacks x (fold default_deliver ms d) \<le> callbacks x d"
proof (induction ms arbitrary: d)
  case (Cons m ms)
  show ?case using Cons[of "default_deliver m d"] callbacks_deliver[of x m d] by simp
qed simp

lemma default_event_step: "default_step d (env, De_event e) = d \<or> default_step d (env, De_event e) = default_follow env e d"
  by (cases e) simp_all

lemma callbacks_step:
  "callbacks x (default_step d (env, ev)) \<le> callbacks x d + (if hands_in x (env, ev) then 1 else 0)"
proof (cases ev)
  case (De_handle path requestId s)
  then show ?thesis using count_update[of x _ s "dc_senders d"] by (auto simp: default_handle_def callbacks_def split: json.split)
next
  case (De_event e)
  have "callbacks x (d\<lparr>dc_coordinator := c\<rparr>) = callbacks x d" for c by (simp add: callbacks_def)
  then have "callbacks x (default_follow env e d) \<le> callbacks x d"
    unfolding default_follow_def Let_def using callbacks_fold[of x] by metis
  then show ?thesis using default_event_step[of d env e] by (auto simp: De_event simp del: default_step.simps)
qed (simp add: callbacks_def)

lemma run_callbacks: "callbacks x (default_run options evs) \<le> handles x evs"
proof (induction evs rule: rev_induct)
  case (snoc e evs)
  obtain env ev where e: "e = (env, ev)" by fastforce
  have "callbacks x (default_run options (evs @ [e])) \<le> callbacks x (default_run options evs) + (if hands_in x e then 1 else 0)"
    using callbacks_step[of x "default_run options evs" env ev] by (simp add: default_run_def e)
  then show ?case using snoc by (simp add: handles_def split: if_splits)
qed (simp add: default_run_def default_new_def callbacks_def)

text \<open>
  Each caller gets at most one answer: over every history, a callback is called no more often than it
  was handed in.
\<close>

theorem callback_called_once:
  "length (filter (\<lambda>(s, m). s = x) (dc_delivered (default_run options evs))) \<le> handles x evs"
  using run_callbacks[of x options evs] by (simp add: callbacks_def)

text \<open>The callback in the map under an id was handed in for it.\<close>

definition given :: "(pool_env \<times> 's default_event) list \<Rightarrow> string \<Rightarrow> 's \<Rightarrow> bool" where
  "given evs i s \<longleftrightarrow> (\<exists>env path. (env, De_handle path (JStr i) s) \<in> set evs)"

definition senders_given :: "(pool_env \<times> 's default_event) list \<Rightarrow> 's default_coordinator \<Rightarrow> bool" where
  "senders_given evs d \<longleftrightarrow> (\<forall>(i, s) \<in> set (dc_senders d). given evs i s) \<and> (\<forall>(s, m) \<in> set (dc_delivered d). given evs (message_id m) s)"

lemma given_deliver: "senders_given evs d \<Longrightarrow> senders_given evs (default_deliver m d)"
  by (auto simp: senders_given_def default_deliver_def AList.delete_eq dest!: map_of_SomeD split: option.split)

lemma given_fold: "senders_given evs d \<Longrightarrow> senders_given evs (fold default_deliver ms d)"
  by (induction ms arbitrary: d) (simp_all add: given_deliver)

lemma set_update_senders: "set (AList.update k v al) \<subseteq> insert (k, v) (set al)"
  by (induction al) auto

lemma given_step:
  assumes "senders_given evs d"
  shows "senders_given (evs @ [(env, ev)]) (default_step d (env, ev))"
proof -
  have more: "senders_given (evs @ [(env, ev)]) d" using assms by (fastforce simp: senders_given_def given_def)
  show ?thesis
  proof (cases ev)
    case (De_handle path requestId s)
    show ?thesis
    proof (cases "\<exists>i. requestId = JStr i \<and> i \<noteq> []")
      case True
      then obtain i where i: "requestId = JStr i" "i \<noteq> []" by blast
      have "given (evs @ [(env, ev)]) i s" by (auto simp: given_def De_handle i)
      then show ?thesis using more set_update_senders[of i s "dc_senders d"]
        by (fastforce simp: De_handle default_handle_def i senders_given_def)
    next
      case False
      then have "dc_senders (default_step d (env, ev)) = dc_senders d" "dc_delivered (default_step d (env, ev)) = dc_delivered d"
        by (auto simp: De_handle default_handle_def split: json.split)
      then show ?thesis using more unfolding senders_given_def by simp
    qed
  next
    case (De_event e)
    have "senders_given (evs @ [(env, ev)]) (d\<lparr>dc_coordinator := c\<rparr>)" for c using more by (simp add: senders_given_def)
    then have "senders_given (evs @ [(env, ev)]) (default_follow env e d)"
      unfolding default_follow_def Let_def by (rule given_fold)
    then show ?thesis using more default_event_step[of d env e] by (auto simp: De_event simp del: default_step.simps)
  next
    case De_shutdown_done
    then show ?thesis using more by (simp add: senders_given_def)
  qed
qed

theorem callback_gets_its_request:
  "list_all (\<lambda>(s, m). given evs (message_id m) s) (dc_delivered (default_run options evs))"
proof -
  have "senders_given evs (default_run options evs)"
  proof (induction evs rule: rev_induct)
    case (snoc e evs)
    obtain env ev where "e = (env, ev)" by fastforce
    then show ?case using given_step[OF snoc] by (simp add: default_run_def)
  qed (simp add: default_run_def default_new_def senders_given_def)
  then show ?thesis by (auto simp: senders_given_def list_all_iff)
qed

end
