(* ===== verification/Versions.thy ===== *)
theory Versions
  imports JsValue "HOL-Library.Word" "HOL-Library.Product_Lexorder"
begin

text \<open>
  Versions of the product, \<open>src/shared/imcodes-version.ts\<close>, and the shared vocabulary of daemon upgrades,
  \<open>src/shared/daemon-upgrade.ts\<close>: which upgrades are offered, targets, sources, block reasons, retry delays.
  A run of digits is read as a number without bound; the code's numbers agree below \<open>2 ^ 53\<close>.
\<close>

section \<open>Parsing versions (imcodes-version.ts)\<close>

record version_parts =
  vp_major :: nat
  vp_minor :: nat
  vp_patch :: nat
  vp_prerelease :: "string list"

definition is_alnum :: "char \<Rightarrow> bool" where
  "is_alnum c \<longleftrightarrow> is_digit c \<or> is_upper c \<or> is_lower c"

text \<open>\<open>/^\d+$/\<close>\<close>

definition all_digits :: "string \<Rightarrow> bool" where
  "all_digits s \<longleftrightarrow> s \<noteq> [] \<and> list_all is_digit s"

text \<open>\<open>String(parsePart(part))\<close>\<close>

definition parsePart :: "string \<Rightarrow> string" where
  "parsePart v = (if all_digits v then nat_str (digits_val v) else js_lower v)"

definition prerelease_char :: "char \<Rightarrow> bool" where
  "prerelease_char c \<longleftrightarrow> is_alnum c \<or> c = CHR ''.'' \<or> c = CHR ''-''"

text \<open>\<open>/^(\d+)\.(\d+)\.(\d+)(?:-([0-9A-Za-z.-]+))?$/\<close>\<close>

definition m_digits :: "string matcher" where
  "m_digits = m_span is_digit 1 None"

definition m_prerelease :: "string option matcher" where
  "m_prerelease = m_alt (m_seq (m_lit ''-'') (m_bind (m_span prerelease_char 1 None) (\<lambda>p. m_ret (Some p)))) (m_ret None)"

definition m_version :: "(string \<times> string \<times> string \<times> string option) matcher" where
  "m_version = m_bind m_digits (\<lambda>a. m_seq (m_lit ''.'') (m_bind m_digits (\<lambda>b. m_seq (m_lit ''.'')
     (m_bind m_digits (\<lambda>c. m_bind m_prerelease (\<lambda>p. m_bind m_eos (\<lambda>_. m_ret (a, b, c, p))))))))"

definition parseImcodesVersion :: "string \<Rightarrow> version_parts option" where
  "parseImcodesVersion version =
    (case m_first m_version (js_trim version) of
       None \<Rightarrow> None
     | Some (a, b, c, p) \<Rightarrow> Some \<lparr>vp_major = digits_val a, vp_minor = digits_val b, vp_patch = digits_val c,
         vp_prerelease = (case p of None \<Rightarrow> [] | Some pre \<Rightarrow> map parsePart (js_split CHR ''.'' pre))\<rparr>)"

datatype release_channel = Channel_latest | Channel_dev

definition getReleaseChannel :: "string \<Rightarrow> release_channel" where
  "getReleaseChannel version =
    (case parseImcodesVersion version of
       Some parts \<Rightarrow> if vp_prerelease parts \<noteq> [] then Channel_dev else Channel_latest
     | None \<Rightarrow> Channel_latest)"

definition asReleaseChannel :: "string \<Rightarrow> release_channel option" where
  "asReleaseChannel v =
    (if v = ''latest'' then Some Channel_latest else if v = ''dev'' then Some Channel_dev else None)"

section \<open>Comparing versions\<close>

definition comparePrereleasePart :: "string \<Rightarrow> string \<Rightarrow> int" where
  "comparePrereleasePart a b =
    (if all_digits a \<and> all_digits b then
       (if digits_val a < digits_val b then -1 else if digits_val a > digits_val b then 1 else 0)
     else if all_digits a then -1
     else if all_digits b then 1
     else if a < b then -1 else if a > b then 1 else 0)"

text \<open>The loop over the parts of two prereleases.\<close>

fun compare_prereleases :: "string list \<Rightarrow> string list \<Rightarrow> int" where
  "compare_prereleases [] [] = 0"
| "compare_prereleases [] (b # bs) = -1"
| "compare_prereleases (a # as) [] = 1"
| "compare_prereleases (a # as) (b # bs) =
     (if comparePrereleasePart a b \<noteq> 0 then comparePrereleasePart a b else compare_prereleases as bs)"

definition compare_parts :: "version_parts \<Rightarrow> version_parts \<Rightarrow> int" where
  "compare_parts a b =
    (if vp_major a \<noteq> vp_major b then (if vp_major a < vp_major b then -1 else 1)
     else if vp_minor a \<noteq> vp_minor b then (if vp_minor a < vp_minor b then -1 else 1)
     else if vp_patch a \<noteq> vp_patch b then (if vp_patch a < vp_patch b then -1 else 1)
     else if vp_prerelease a = [] \<and> vp_prerelease b = [] then 0
     else if vp_prerelease a = [] then 1
     else if vp_prerelease b = [] then -1
     else compare_prereleases (vp_prerelease a) (vp_prerelease b))"

definition compareImcodesVersions :: "string \<Rightarrow> string \<Rightarrow> int option" where
  "compareImcodesVersions a b =
    (case (parseImcodesVersion a, parseImcodesVersion b) of
       (Some pa, Some pb) \<Rightarrow> Some (compare_parts pa pb)
     | _ \<Rightarrow> None)"

definition isImcodesVersionOutdated :: "string option \<Rightarrow> string option \<Rightarrow> bool" where
  "isImcodesVersionOutdated current target =
    (if \<not> truthy current \<or> \<not> truthy target then False
     else case compareImcodesVersions (the current) (the target) of None \<Rightarrow> False | Some c \<Rightarrow> c < 0)"

definition isLocalDevImcodesVersion :: "string \<Rightarrow> bool" where
  "isLocalDevImcodesVersion version = starts_with (js_trim version) ''0.''"

section \<open>Upgrade vocabulary (daemon-upgrade.ts)\<close>

definition daemon_upgrade_target_latest :: string where
  "daemon_upgrade_target_latest = ''latest''"

definition isDaemonAutoUpgradeDisabledByEnv :: "(string \<Rightarrow> string option) \<Rightarrow> bool" where
  "isDaemonAutoUpgradeDisabledByEnv env \<longleftrightarrow>
     env ''IMCODES_DISABLE_AUTO_UPGRADE'' = Some ''1'' \<or> env ''IMCODES_DISABLE_AUTO_UPGRADE'' = Some ''true''"

datatype upgrade_source = Src_auto | Src_manual | Src_replay

definition resolveDaemonUpgradeSource :: "json \<Rightarrow> upgrade_source" where
  "resolveDaemonUpgradeSource raw =
    (if raw = JStr ''manual'' then Src_manual else if raw = JStr ''replay'' then Src_replay else Src_auto)"

definition resolveDaemonUpgradeForce :: "json \<Rightarrow> upgrade_source \<Rightarrow> bool" where
  "resolveDaemonUpgradeForce rawForce source \<longleftrightarrow> source = Src_manual \<and> rawForce = JBool True"

definition isDaemonUpgradeAvailable :: "string option \<Rightarrow> string option \<Rightarrow> bool" where
  "isDaemonUpgradeAvailable current latest =
    (if \<not> truthy current \<or> \<not> truthy latest \<or> current = latest then False
     else if getReleaseChannel (the current) \<noteq> getReleaseChannel (the latest) then True
     else case compareImcodesVersions (the current) (the latest) of None \<Rightarrow> False | Some c \<Rightarrow> c < 0)"

definition isDaemonAutoUpgradeAvailable :: "string option \<Rightarrow> string option \<Rightarrow> bool" where
  "isDaemonAutoUpgradeAvailable current latest =
    (if \<not> truthy current \<or> \<not> truthy latest \<or> current = latest then False
     else if getReleaseChannel (the current) \<noteq> getReleaseChannel (the latest) then False
     else isImcodesVersionOutdated current latest)"

definition daemon_upgrade_busy_block_reasons :: "string list" where
  "daemon_upgrade_busy_block_reasons =
     [''p2p_active'', ''auto_deliver_active'', ''master_compaction_active'', ''transport_busy'', ''session_busy'']"

definition isDaemonUpgradeBusyBlockReason :: "string \<Rightarrow> bool" where
  "isDaemonUpgradeBusyBlockReason reason \<longleftrightarrow> reason \<in> set daemon_upgrade_busy_block_reasons"

definition isDaemonUpgradeDeferral :: "string option \<Rightarrow> bool" where
  "isDaemonUpgradeDeferral v \<longleftrightarrow> v = Some ''starting_up'' \<or> v = Some ''unclean_shutdown_recovery''"

definition isTimeGatedDaemonUpgradeReason :: "string option \<Rightarrow> bool" where
  "isTimeGatedDaemonUpgradeReason reason = isDaemonUpgradeDeferral reason"

definition isRetryableDaemonUpgradeBlockReason :: "string \<Rightarrow> bool" where
  "isRetryableDaemonUpgradeBlockReason reason \<longleftrightarrow>
     reason = ''already_in_progress'' \<or> reason = ''cooldown_active'' \<or> isDaemonUpgradeDeferral (Some reason)
     \<or> isDaemonUpgradeBusyBlockReason reason"

text \<open>A number of attempts that is not finite is \<open>None\<close>.\<close>

definition controlled_node_upgrade_retry_delays_ms :: "int list" where
  "controlled_node_upgrade_retry_delays_ms = [10 * 60000, 30 * 60000, 2 * 60 * 60000, 6 * 60 * 60000]"

definition controlledNodeUpgradeRetryDelayMs :: "int option \<Rightarrow> int" where
  "controlledNodeUpgradeRetryDelayMs attempts =
    (let made = opt_default 1 attempts;
         index = min (max (made - 1) 0) (int (length controlled_node_upgrade_retry_delays_ms) - 1)
     in controlled_node_upgrade_retry_delays_ms ! nat index)"

definition controlled_node_upgrade_stagger_max_ms :: int where
  "controlled_node_upgrade_stagger_max_ms = 15000"

text \<open>\<open>hash = (Math.imul(hash, 31) + serverId.charCodeAt(i)) >>> 0\<close>, a word of 32 bits.\<close>

definition stagger_hash :: "string \<Rightarrow> 32 word" where
  "stagger_hash serverId = foldl (\<lambda>hash c. hash * 31 + of_nat (char_code c)) 0 serverId"

definition controlledNodeUpgradeStaggerMs :: "string \<Rightarrow> int" where
  "controlledNodeUpgradeStaggerMs serverId = uint (stagger_hash serverId) mod controlled_node_upgrade_stagger_max_ms"

section \<open>Upgrade targets\<close>

text \<open>\<open>/^[0-9]+(?:\.[0-9]+){1,3}(?:-[0-9A-Za-z]+(?:\.[0-9A-Za-z]+)*)?$/\<close>\<close>

definition m_dot :: "(char \<Rightarrow> bool) \<Rightarrow> string matcher" where
  "m_dot P = m_seq (m_lit ''.'') (m_span P 1 None)"

definition m_target_prerelease :: "unit matcher" where
  "m_target_prerelease s =
     m_alt (m_seq (m_lit ''-'') (m_seq (m_span is_alnum 1 None) (m_bind (m_star (length s) (m_dot is_alnum)) (\<lambda>_. m_ret ()))))
       (m_ret ()) s"

definition m_target_version :: "unit matcher" where
  "m_target_version = m_seq (m_span is_digit 1 None)
     (m_seq (m_dot is_digit) (m_seq (m_star 2 (m_dot is_digit)) (m_seq m_target_prerelease m_eos)))"

definition daemon_upgrade_target_version_re :: "string \<Rightarrow> bool" where
  "daemon_upgrade_target_version_re v \<longleftrightarrow> m_target_version v \<noteq> []"

text \<open>A throw is \<open>None\<close>.\<close>

definition normalizeDaemonUpgradeTargetVersion :: "json \<Rightarrow> string option" where
  "normalizeDaemonUpgradeTargetVersion v =
    (if v = JUndefined \<or> v = JNull \<or> v = JStr '''' then Some daemon_upgrade_target_latest
     else case v of
       JStr s \<Rightarrow>
         let targetVersion = js_trim s in
         if targetVersion = daemon_upgrade_target_latest then Some targetVersion
         else if \<not> daemon_upgrade_target_version_re targetVersion then None
         else Some targetVersion
     | _ \<Rightarrow> None)"

definition shouldSendDaemonUpgradeTargetVersion :: "string \<Rightarrow> bool" where
  "shouldSendDaemonUpgradeTargetVersion targetVersion \<longleftrightarrow> targetVersion \<noteq> daemon_upgrade_target_latest"

text \<open>The value of an accepted message of a controlled node: the reason and the target.\<close>

definition validateControlledNodeUpgradeBlockedMessage :: "json \<Rightarrow> (string \<times> string option) option" where
  "validateControlledNodeUpgradeBlockedMessage v =
    (if \<not> is_record v then None
     else if jget v ''type'' \<noteq> JStr ''daemon.upgrade_blocked'' then None
     else case jget v ''reason'' of
       JStr reason \<Rightarrow>
         if length reason < 1 then None
         else if \<not> list_all (\<lambda>k. k = ''type'' \<or> k = ''reason'' \<or> k = ''targetVersion'') (map fst (jmembers v)) then None
         else
           let targetVersion = (case jget v ''targetVersion'' of
                 JStr t \<Rightarrow> if daemon_upgrade_target_version_re t then Some t else None
               | _ \<Rightarrow> None)
           in if jget v ''targetVersion'' \<noteq> JUndefined \<and> \<not> truthy targetVersion then None
              else Some (take 128 reason, targetVersion)
     | _ \<Rightarrow> None)"

section \<open>The order of versions\<close>

text \<open>A comparator of a linear order, with the results of the code.\<close>

definition cmp_of :: "'a::linorder \<Rightarrow> 'a \<Rightarrow> int" where
  "cmp_of x y = (if x < y then -1 else if y < x then 1 else 0)"

lemma cmp_of_simps [simp]:
  "cmp_of x y = 0 \<longleftrightarrow> x = y" "cmp_of x y < 0 \<longleftrightarrow> x < y" "0 < cmp_of x y \<longleftrightarrow> y < x" "cmp_of x y \<le> 0 \<longleftrightarrow> x \<le> y"
  "cmp_of x x = 0"
  by (auto simp: cmp_of_def)

lemma cmp_of_swap: "cmp_of y x = - cmp_of x y"
  by (auto simp: cmp_of_def)

lemma cmp_of_pair: "cmp_of (a, b) (c, d) = (if a \<noteq> c then cmp_of a c else cmp_of b d)"
  by (auto simp: cmp_of_def)

lemma cmp_of_list:
  "cmp_of [] [] = 0" "cmp_of [] (y # ys) = -1" "cmp_of (x # xs) [] = 1"
  "cmp_of (x # xs) (y # ys) = (if x \<noteq> y then cmp_of x y else cmp_of xs ys)"
  by (auto simp: cmp_of_def)

text \<open>
  The key of a part of a prerelease: numbers before words, by their values, words by their letters; and the
  key of a version, where a release comes after its prereleases.
\<close>

type_synonym part_key = "nat \<times> nat \<times> string"

definition part_key :: "string \<Rightarrow> part_key" where
  "part_key s = (if all_digits s then (0, digits_val s, []) else (1, 0, s))"

definition version_key :: "version_parts \<Rightarrow> nat \<times> nat \<times> nat \<times> nat \<times> part_key list" where
  "version_key v = (vp_major v, vp_minor v, vp_patch v, if vp_prerelease v = [] then 1 else 0, map part_key (vp_prerelease v))"

lemma part_cmp: "comparePrereleasePart a b = cmp_of (part_key a) (part_key b)"
  by (auto simp: comparePrereleasePart_def part_key_def cmp_of_def)

lemma prereleases_cmp: "compare_prereleases as bs = cmp_of (map part_key as) (map part_key bs)"
  by (induction as bs rule: compare_prereleases.induct) (auto simp: cmp_of_list part_cmp)

lemma parts_cmp: "compare_parts a b = cmp_of (version_key a) (version_key b)"
  unfolding compare_parts_def version_key_def
  by (simp add: cmp_of_pair prereleases_cmp) (auto simp: cmp_of_def)

text \<open>
  Versions are compared along one linear order: for every two strings, the comparison is that of the keys of
  what they parse to, and there is none when one of them is not a version.
\<close>

theorem compare_is_key_order:
  "compareImcodesVersions a b =
    (case (parseImcodesVersion a, parseImcodesVersion b) of
       (Some x, Some y) \<Rightarrow> Some (cmp_of (version_key x) (version_key y))
     | _ \<Rightarrow> None)"
  by (simp add: compareImcodesVersions_def parts_cmp split: option.split)

lemma compare_key: "compareImcodesVersions a b =
    (case (parseImcodesVersion a, parseImcodesVersion b) of
       (Some x, Some y) \<Rightarrow> Some (cmp_of (version_key x) (version_key y))
     | _ \<Rightarrow> None)"
  by (simp add: compareImcodesVersions_def parts_cmp split: option.split)

text \<open>Different parsed versions have different keys.\<close>

lemma char_code_lower: "is_upper c \<Longrightarrow> char_code (char_lower c) = char_code c + 32"
  by (auto simp: char_lower_def is_upper_def char_between_def of_char_of)

lemma is_digit_lower [simp]: "is_digit (char_lower c) = is_digit c"
proof (cases "is_upper c")
  case True
  then show ?thesis using char_code_lower[OF True] by (auto simp: is_digit_def is_upper_def char_between_def)
qed (simp add: char_lower_def)

lemma all_digits_lower [simp]: "all_digits (js_lower v) = all_digits v"
  by (simp add: all_digits_def list_all_iff)

lemma all_digits_nat_str [simp]: "all_digits (nat_str n)"
  using nat_str_digits by (simp add: all_digits_def list_all_iff)

definition canonical_part :: "string \<Rightarrow> bool" where
  "canonical_part s \<longleftrightarrow> (all_digits s \<longrightarrow> s = nat_str (digits_val s))"

lemma canonical_parsePart: "canonical_part (parsePart v)"
  by (simp add: parsePart_def canonical_part_def)

lemma part_key_inj: "canonical_part a \<Longrightarrow> canonical_part b \<Longrightarrow> part_key a = part_key b \<Longrightarrow> a = b"
  by (auto simp: part_key_def canonical_part_def split: if_splits)

lemma parsed_canonical:
  assumes "parseImcodesVersion s = Some v"
  shows "list_all canonical_part (vp_prerelease v)"
  using assms by (auto simp: parseImcodesVersion_def list_all_iff canonical_parsePart split: option.splits prod.splits)

lemma map_key_inj:
  "list_all canonical_part as \<Longrightarrow> list_all canonical_part bs \<Longrightarrow> map part_key as = map part_key bs \<Longrightarrow> as = bs"
proof (induction as arbitrary: bs)
  case (Cons a as)
  then show ?case by (cases bs) (auto dest: part_key_inj)
qed simp

text \<open>
  Two versions compare equal exactly when they parse to the same parts.
\<close>

theorem compare_equal_iff:
  "(compareImcodesVersions a b = Some 0) = (parseImcodesVersion a = parseImcodesVersion b \<and> parseImcodesVersion a \<noteq> None)"
proof (cases "parseImcodesVersion a")
  case (Some x)
  show ?thesis
  proof (cases "parseImcodesVersion b")
    case (Some y)
    have "version_key x = version_key y \<longleftrightarrow> x = y"
      using parsed_canonical[OF \<open>parseImcodesVersion a = Some x\<close>] parsed_canonical[OF Some]
      by (auto simp: version_key_def dest: map_key_inj)
    then show ?thesis using \<open>parseImcodesVersion a = Some x\<close> Some by (simp add: compare_key)
  qed (simp add: compare_key Some)
qed (simp add: compare_key)

section \<open>Automatic upgrades\<close>

lemma auto_upgrade_iff:
  "isDaemonAutoUpgradeAvailable (Some a) (Some b) \<Longrightarrow>
   getReleaseChannel a = getReleaseChannel b \<and>
   (\<exists>x y. parseImcodesVersion a = Some x \<and> parseImcodesVersion b = Some y \<and> version_key x < version_key y)"
  by (auto simp: isDaemonAutoUpgradeAvailable_def isImcodesVersionOutdated_def compare_key split: if_splits option.splits)

text \<open>
  C32. Automatic upgrades never go back or round: the upgrades that the server may start by itself form no cycle,
  however often the version on offer changes.
\<close>

theorem auto_upgrades_acyclic:
  "acyclic {(current, latest). isDaemonAutoUpgradeAvailable (Some current) (Some latest)}"
proof -
  let ?R = "{(a, b). isDaemonAutoUpgradeAvailable (Some a) (Some b)}"
  have step: "\<exists>x y. parseImcodesVersion a = Some x \<and> parseImcodesVersion b = Some y \<and> version_key x < version_key y"
    if "(a, b) \<in> ?R\<^sup>+" for a b
    using that
  proof (induction rule: trancl_induct)
    case (base y)
    then show ?case using auto_upgrade_iff by blast
  next
    case (step y z)
    then obtain p q where "parseImcodesVersion y = Some p" "parseImcodesVersion z = Some q" "version_key p < version_key q"
      using auto_upgrade_iff by blast
    then show ?case using step.IH by force
  qed
  show ?thesis
    unfolding acyclic_def using step by force
qed

text \<open>
  The card offers an upgrade across channels in both directions: that is a decision of the operator.
\<close>

lemma channel_switch_both_ways:
  "isDaemonUpgradeAvailable (Some ''2026.5.1'') (Some ''2026.4.1-dev.3'') \<and>
   isDaemonUpgradeAvailable (Some ''2026.4.1-dev.3'') (Some ''2026.5.1'')"
  by code_simp

section \<open>Delays\<close>

lemma retry_delay_cases:
  "controlledNodeUpgradeRetryDelayMs attempts =
    (let n = opt_default 1 attempts in
     if n \<le> 1 then 600000 else if n = 2 then 1800000 else if n = 3 then 7200000 else 21600000)"
proof -
  have "n \<le> 1 \<or> n = 2 \<or> n = 3 \<or> 4 \<le> n" for n :: int by auto
  then show ?thesis
    by (auto simp: controlledNodeUpgradeRetryDelayMs_def Let_def controlled_node_upgrade_retry_delays_ms_def
        min_def max_def numeral_eq_Suc dest: spec)
qed

lemma retry_delay_mono: "m \<le> n \<Longrightarrow> controlledNodeUpgradeRetryDelayMs (Some m) \<le> controlledNodeUpgradeRetryDelayMs (Some n)"
  by (simp add: retry_delay_cases Let_def)

lemma stagger_bounds: "0 \<le> controlledNodeUpgradeStaggerMs s \<and> controlledNodeUpgradeStaggerMs s < 15000"
  by (simp add: controlledNodeUpgradeStaggerMs_def controlled_node_upgrade_stagger_max_ms_def)

section \<open>Targets\<close>

text \<open>A target that was normalised once is kept as it is.\<close>

lemma js_trim_idem: "js_trim (js_trim s) = js_trim s"
proof -
  have start: "js_trim_start t = t" if "t = [] \<or> \<not> is_ws (hd t)" for t
    using that by (cases t) (auto simp: js_trim_start_def)
  let ?t = "js_trim_start s"
  have "?t = [] \<or> \<not> is_ws (hd ?t)" by (metis hd_dropWhile js_trim_start_def)
  have h: "js_trim s = [] \<or> \<not> is_ws (hd (js_trim s))"
  proof (cases "js_trim s = []")
    case False
    obtain r where r: "?t = js_trim s @ r"
      by (metis js_trim_def js_trim_end_def rev_append rev_rev_ident takeWhile_dropWhile_id)
    then have "hd (js_trim s) = hd ?t" "?t \<noteq> []" using False by auto
    then show ?thesis using \<open>?t = [] \<or> \<not> is_ws (hd ?t)\<close> by simp
  qed simp
  have "js_trim_end (js_trim_end t) = js_trim_end t" for t
    by (simp add: js_trim_end_def)
  then show ?thesis using start[OF h] by (metis js_trim_def)
qed

lemma trim_latest [simp]: "js_trim ''latest'' = ''latest''" "\<not> daemon_upgrade_target_version_re []"
  by code_simp+

lemma target_trim_fixed:
  "normalizeDaemonUpgradeTargetVersion v = Some t \<Longrightarrow> normalizeDaemonUpgradeTargetVersion (JStr t) = Some t"
  by (cases v) (auto simp: normalizeDaemonUpgradeTargetVersion_def daemon_upgrade_target_latest_def Let_def js_trim_idem
      split: if_splits)

end
