(* ===== verification/DaemonUpgrade.thy ===== *)
theory DaemonUpgrade
  imports Versions
begin

text \<open>
  Upgrades of a daemon as the server drives them: the coordinator of one daemon,
  \<open>src/server/src/ws/daemon-upgrade-coordinator.ts\<close>, and the gate that holds a target back until it can be
  downloaded, \<open>src/server/src/ws/daemon-upgrade-publication-gate.ts\<close>.  A lifecycle object is its index in
  \<open>up_states\<close>, which is also its id; a publication callback is the index of the lifecycle it resumes.  The
  closures of a request are a client number, and what they answer during an event is its
  \<open>upgrade_env\<close>.  Probes and timers of the gate are events.  The code never sets the timer of a lifecycle, and it
  is left out.
\<close>

section \<open>Data\<close>

datatype upgrade_status = Up_pending_offline | Up_pending_publication | Up_sent | Up_terminal_blocked | Up_superseded

record upgrade_input =
  ui_targetVersion :: json
  ui_source :: upgrade_source
  ui_force :: bool
  ui_skipPublicationGate :: bool
  ui_client :: nat

record upgrade_state =
  us_targetVersion :: string
  us_source :: upgrade_source
  us_force :: bool
  us_status :: upgrade_status
  us_createdAt :: int
  us_updatedAt :: int
  us_lastSentAt :: "int option"
  us_publicationResumeInput :: "upgrade_input option"
  us_publicationCallbackRegistered :: bool

datatype delivery_status =
  Dl_sent | Dl_pending_offline | Dl_already_in_progress | Dl_backoff | Dl_pending_publication | Dl_invalid_target

record upgrade_result =
  ur_ok :: bool
  ur_upgradeId :: "nat option"
  ur_targetVersion :: "string option"
  ur_deliveryStatus :: delivery_status
  ur_nextAttemptAt :: "int option"
  ur_reason :: "string option"

record upgrade_message =
  um_upgradeId :: nat
  um_source :: upgrade_source
  um_force :: bool
  um_targetVersion :: "string option"

record publication_record =
  pr_available :: bool
  pr_callbacks :: "nat list"
  pr_attempt :: nat
  pr_inFlight :: bool
  pr_timer :: bool
  pr_nextProbeAt :: "int option"
  pr_lastStatusCode :: "int option"

text \<open>The log of sent messages tells the client that sent and whether its request skips the gate.\<close>

record upgrade_system =
  up_states :: "upgrade_state list"
  up_current :: "nat option"
  up_gate :: "(string \<times> publication_record) list"
  up_sent :: "(nat \<times> bool \<times> upgrade_message) list"

record upgrade_env =
  ue_now :: int
  ue_ready :: "nat \<Rightarrow> bool"
  ue_stillCurrent :: "nat \<Rightarrow> bool"

definition upgrade_new :: upgrade_system where
  "upgrade_new = \<lparr>up_states = [], up_current = None, up_gate = [], up_sent = []\<rparr>"

abbreviation state_at :: "upgrade_system \<Rightarrow> nat \<Rightarrow> upgrade_state" where
  "state_at s h \<equiv> up_states s ! h"

definition set_state :: "nat \<Rightarrow> upgrade_state \<Rightarrow> upgrade_system \<Rightarrow> upgrade_system" where
  "set_state h st s = s\<lparr>up_states := (up_states s)[h := st]\<rparr>"

section \<open>The publication gate\<close>

definition default_retry_delays_ms :: "int list" where
  "default_retry_delays_ms = [15000, 30000, 60000, 120000, 300000]"

definition new_publication_record :: publication_record where
  "new_publication_record = \<lparr>pr_available = False, pr_callbacks = [], pr_attempt = 0, pr_inFlight = False, pr_timer = False,
     pr_nextProbeAt = None, pr_lastStatusCode = None\<rparr>"

type_synonym gate = "(string \<times> publication_record) list"

definition recordFor :: "string \<Rightarrow> gate \<Rightarrow> publication_record" where
  "recordFor targetVersion g = opt_default new_publication_record (map_of g targetVersion)"

definition startProbe :: "publication_record \<Rightarrow> publication_record" where
  "startProbe r = r\<lparr>pr_inFlight := True, pr_nextProbeAt := None\<rparr>"

datatype publication_result = Pub_available | Pub_pending "int option" string

text \<open>The callback is the lifecycle to resume, or \<open>None\<close>.\<close>

definition ensurePublished :: "string \<Rightarrow> nat option \<Rightarrow> gate \<Rightarrow> publication_result \<times> gate" where
  "ensurePublished targetVersion onPublished g =
    (if targetVersion = daemon_upgrade_target_latest then (Pub_available, g)
     else
       let r = recordFor targetVersion g;
           g = AList.update targetVersion r g
       in if pr_available r then (Pub_available, g)
       else
         let r = (case onPublished of None \<Rightarrow> r | Some h \<Rightarrow> r\<lparr>pr_callbacks := pr_callbacks r @ [h]\<rparr>);
             r = (if \<not> pr_inFlight r \<and> \<not> pr_timer r then startProbe r else r)
         in (Pub_pending (if pr_nextProbeAt r = Some 0 then None else pr_nextProbeAt r)
               (if pr_lastStatusCode r = Some 404 then ''target_version_not_published''
                else ''target_version_publication_pending''),
             AList.update targetVersion r g))"

definition scheduleRetry :: "int \<Rightarrow> publication_record \<Rightarrow> publication_record" where
  "scheduleRetry now r =
    (if pr_available r then r
     else r\<lparr>pr_attempt := pr_attempt r + 1,
            pr_nextProbeAt := Some (now + default_retry_delays_ms ! min (pr_attempt r) (length default_retry_delays_ms - 1)),
            pr_timer := True\<rparr>)"

section \<open>Sending\<close>

definition buildUpgradeMessage :: "nat \<Rightarrow> upgrade_state \<Rightarrow> upgrade_message" where
  "buildUpgradeMessage h st = \<lparr>um_upgradeId = h, um_source = us_source st,
     um_force = (us_source st = Src_manual \<and> us_force st),
     um_targetVersion = (if shouldSendDaemonUpgradeTargetVersion (us_targetVersion st) then Some (us_targetVersion st) else None)\<rparr>"

definition sendNow :: "nat \<Rightarrow> upgrade_input \<Rightarrow> int \<Rightarrow> upgrade_system \<Rightarrow> upgrade_system" where
  "sendNow h inp now s =
    (let st = (state_at s h)\<lparr>us_status := Up_sent, us_lastSentAt := Some now, us_updatedAt := now\<rparr>
     in (set_state h st s)\<lparr>up_sent := up_sent s @ [(ui_client inp, ui_skipPublicationGate inp, buildUpgradeMessage h st)]\<rparr>)"

definition resumeAfterPublication :: "upgrade_env \<Rightarrow> nat \<Rightarrow> upgrade_input \<Rightarrow> upgrade_system \<Rightarrow> upgrade_system" where
  "resumeAfterPublication env h inp s =
    (if up_current s \<noteq> Some h \<or> us_status (state_at s h) \<noteq> Up_pending_publication then s
     else if \<not> ue_ready env (ui_client inp) \<or> \<not> ue_stillCurrent env (ui_client inp) then s
     else sendNow h inp (ue_now env) s)"

text \<open>The callback that \<open>ensureTargetPublished\<close> registers.\<close>

definition publication_callback :: "upgrade_env \<Rightarrow> nat \<Rightarrow> upgrade_system \<Rightarrow> upgrade_system" where
  "publication_callback env h s =
    (let st = state_at s h;
         s = set_state h (st\<lparr>us_publicationCallbackRegistered := False, us_publicationResumeInput := None\<rparr>) s
     in case us_publicationResumeInput st of None \<Rightarrow> s | Some inp \<Rightarrow> resumeAfterPublication env h inp s)"

definition markPublished :: "upgrade_env \<Rightarrow> string \<Rightarrow> upgrade_system \<Rightarrow> upgrade_system" where
  "markPublished env targetVersion s =
    (let r = recordFor targetVersion (up_gate s);
         s = s\<lparr>up_gate := AList.update targetVersion
               (r\<lparr>pr_available := True, pr_timer := False, pr_inFlight := False, pr_nextProbeAt := None, pr_callbacks := []\<rparr>)
               (up_gate s)\<rparr>
     in fold (publication_callback env) (pr_callbacks r) s)"

definition ensureTargetPublished ::
  "nat \<Rightarrow> upgrade_input \<Rightarrow> int \<Rightarrow> upgrade_system \<Rightarrow> upgrade_result option \<times> upgrade_system" where
  "ensureTargetPublished h inp now s =
    (let st = state_at s h in
     if ui_skipPublicationGate inp then
       (None, set_state h (st\<lparr>us_publicationResumeInput := None, us_publicationCallbackRegistered := False\<rparr>) s)
     else
       let (publication, g) = ensurePublished (us_targetVersion st)
             (if us_publicationCallbackRegistered st then None else Some h) (up_gate s);
           s = s\<lparr>up_gate := g\<rparr>
       in case publication of
            Pub_available \<Rightarrow>
              (None, set_state h (st\<lparr>us_publicationResumeInput := None, us_publicationCallbackRegistered := False\<rparr>) s)
          | Pub_pending nextProbeAt reason \<Rightarrow>
              (Some \<lparr>ur_ok = True, ur_upgradeId = Some h, ur_targetVersion = Some (us_targetVersion st),
                 ur_deliveryStatus = Dl_pending_publication, ur_nextAttemptAt = nextProbeAt, ur_reason = Some reason\<rparr>,
               set_state h (st\<lparr>us_publicationResumeInput := Some inp, us_publicationCallbackRegistered := True,
                 us_status := Up_pending_publication, us_updatedAt := now\<rparr>) s))"

section \<open>Requests\<close>

definition supersedeCurrent :: "int \<Rightarrow> upgrade_system \<Rightarrow> upgrade_system" where
  "supersedeCurrent now s =
    (case up_current s of
       None \<Rightarrow> s
     | Some h \<Rightarrow> (set_state h ((state_at s h)\<lparr>us_status := Up_superseded, us_updatedAt := now\<rparr>) s)\<lparr>up_current := None\<rparr>)"

definition applyForce :: "upgrade_input \<Rightarrow> upgrade_state \<Rightarrow> upgrade_state" where
  "applyForce inp st =
    (if ui_source inp = Src_manual then st\<lparr>us_force := ui_force inp\<rparr>
     else if us_source st \<noteq> Src_manual then st\<lparr>us_force := False\<rparr>
     else st)"

definition upgrade_answer :: "nat option \<Rightarrow> string option \<Rightarrow> delivery_status \<Rightarrow> upgrade_result" where
  "upgrade_answer h v st = \<lparr>ur_ok = True, ur_upgradeId = h, ur_targetVersion = v, ur_deliveryStatus = st,
     ur_nextAttemptAt = None, ur_reason = None\<rparr>"

text \<open>The current lifecycle of a target.\<close>

definition current_for :: "string \<Rightarrow> upgrade_system \<Rightarrow> nat option" where
  "current_for v s = (case up_current s of Some h \<Rightarrow> if us_targetVersion (state_at s h) = v then Some h else None | None \<Rightarrow> None)"

definition new_lifecycle :: "string \<Rightarrow> upgrade_source \<Rightarrow> upgrade_status \<Rightarrow> int \<Rightarrow> upgrade_state" where
  "new_lifecycle v source status now =
    \<lparr>us_targetVersion = v, us_source = source, us_force = False, us_status = status, us_createdAt = now,
     us_updatedAt = now, us_lastSentAt = None, us_publicationResumeInput = None, us_publicationCallbackRegistered = False\<rparr>"

text \<open>The lifecycle that goes on, or a new one, becomes current.\<close>

definition lifecycle_for ::
  "nat option \<Rightarrow> string \<Rightarrow> upgrade_source \<Rightarrow> upgrade_status \<Rightarrow> int \<Rightarrow> upgrade_system \<Rightarrow> nat \<times> upgrade_system" where
  "lifecycle_for current v source status now s =
    (case current of
       Some h \<Rightarrow> (h, s\<lparr>up_current := Some h\<rparr>)
     | None \<Rightarrow> (length (up_states s),
         s\<lparr>up_states := up_states s @ [new_lifecycle v source status now], up_current := Some (length (up_states s))\<rparr>))"

text \<open>The lifecycle takes the source and the force of a request.\<close>

definition take_over :: "nat \<Rightarrow> upgrade_input \<Rightarrow> upgrade_source \<Rightarrow> int \<Rightarrow> upgrade_system \<Rightarrow> upgrade_system" where
  "take_over h inp source now s =
    set_state h ((applyForce inp ((state_at s h)\<lparr>us_source := source\<rparr>))\<lparr>us_updatedAt := now\<rparr>) s"

text \<open>The last part of \<open>request\<close>, for the lifecycle that goes on or a new one.\<close>

definition request_delivery ::
  "upgrade_env \<Rightarrow> upgrade_input \<Rightarrow> upgrade_source \<Rightarrow> nat option \<Rightarrow> string \<Rightarrow> upgrade_system \<Rightarrow> upgrade_result \<times> upgrade_system" where
  "request_delivery env inp source current v s =
    (let now = ue_now env;
         (h, s) = lifecycle_for current v source Up_pending_offline now s;
         s = take_over h inp source now s
     in if \<not> ue_ready env (ui_client inp) then
          (upgrade_answer (Some h) (Some v) Dl_pending_offline,
           set_state h ((state_at s h)\<lparr>us_status := Up_pending_offline\<rparr>) s)
        else case ensureTargetPublished h (inp\<lparr>ui_source := source\<rparr>) now s of
          (Some r, s) \<Rightarrow> (r, s)
        | (None, s) \<Rightarrow> (upgrade_answer (Some h) (Some v) Dl_sent, sendNow h (inp\<lparr>ui_source := source\<rparr>) now s))"

text \<open>The part of \<open>request\<close> after the supersessions, with the lifecycle of the target.\<close>

definition request_continue ::
  "upgrade_env \<Rightarrow> upgrade_input \<Rightarrow> nat option \<Rightarrow> string \<Rightarrow> upgrade_system \<Rightarrow> upgrade_result \<times> upgrade_system" where
  "request_continue env inp current v s =
    (let now = ue_now env;
         source = (case current of
             Some h \<Rightarrow> if us_source (state_at s h) = Src_manual \<and> ui_source inp \<noteq> Src_manual then Src_manual else ui_source inp
           | None \<Rightarrow> ui_source inp)
     in case current of
          None \<Rightarrow> request_delivery env inp source None v s
        | Some h \<Rightarrow>
            if us_status (state_at s h) = Up_pending_publication then
              let s = take_over h inp source now s in
              if \<not> ue_ready env (ui_client inp) then
                (upgrade_answer (Some h) (Some v) Dl_pending_offline,
                 set_state h ((state_at s h)\<lparr>us_status := Up_pending_offline\<rparr>) s)
              else (case ensureTargetPublished h (inp\<lparr>ui_source := source\<rparr>) now s of
                      (Some r, s) \<Rightarrow> (r, s)
                    | (None, s) \<Rightarrow> request_delivery env inp source (Some h) v s)
            else if us_status (state_at s h) \<noteq> Up_superseded \<and> us_status (state_at s h) \<noteq> Up_pending_offline then
              (upgrade_answer (Some h) (Some v) Dl_already_in_progress, s)
            else request_delivery env inp source (Some h) v s)"

text \<open>A manual request that outranks what is already out.\<close>

definition outranks :: "upgrade_input \<Rightarrow> upgrade_state \<Rightarrow> bool" where
  "outranks inp st \<longleftrightarrow> ui_source inp = Src_manual \<and> us_status st = Up_sent \<and>
     (us_source st \<noteq> Src_manual \<or> (ui_force inp \<and> \<not> us_force st))"

definition upgrade_request :: "upgrade_env \<Rightarrow> upgrade_input \<Rightarrow> upgrade_system \<Rightarrow> upgrade_result \<times> upgrade_system" where
  "upgrade_request env inp s =
    (case normalizeDaemonUpgradeTargetVersion (ui_targetVersion inp) of
       None \<Rightarrow> (\<lparr>ur_ok = False, ur_upgradeId = None, ur_targetVersion = None, ur_deliveryStatus = Dl_invalid_target,
                ur_nextAttemptAt = None, ur_reason = Some ''invalid_target_version''\<rparr>, s)
     | Some v \<Rightarrow>
         let now = ue_now env;
             current = current_for v s;
             s = (if current = None then supersedeCurrent now s else s)
         in case current of
              None \<Rightarrow> request_continue env inp None v s
            | Some h \<Rightarrow>
                if us_status (state_at s h) = Up_terminal_blocked then
                  if ui_source inp \<noteq> Src_manual then
                    ((upgrade_answer (Some h) (Some v) Dl_backoff)\<lparr>ur_reason := Some ''terminal_install_failure''\<rparr>, s)
                  else request_continue env inp None v (supersedeCurrent now s)
                else if outranks inp (state_at s h) then
                  request_continue env inp None v (supersedeCurrent now s)
                else request_continue env inp (Some h) v s)"

definition flushPending :: "upgrade_env \<Rightarrow> nat \<Rightarrow> bool \<Rightarrow> upgrade_system \<Rightarrow> upgrade_result option \<times> upgrade_system" where
  "flushPending env client skipGate s =
    (case up_current s of
       None \<Rightarrow> (None, s)
     | Some h \<Rightarrow>
         let st = state_at s h; now = ue_now env in
         if us_status st \<noteq> Up_pending_offline \<and> us_status st \<noteq> Up_pending_publication then (None, s)
         else if \<not> ue_ready env client then
           (Some (upgrade_answer (Some h) (Some (us_targetVersion st)) Dl_pending_offline), s)
         else
           let inp = \<lparr>ui_targetVersion = JStr (us_targetVersion st), ui_source = us_source st, ui_force = False,
                      ui_skipPublicationGate = skipGate, ui_client = client\<rparr>
           in case ensureTargetPublished h inp now s of
                (Some r, s) \<Rightarrow> (Some r, s)
              | (None, s) \<Rightarrow> (Some (upgrade_answer (Some h) (Some (us_targetVersion st)) Dl_sent), sendNow h inp now s))"

section \<open>Receipts, blocks and status\<close>

definition upgrade_snapshot :: "upgrade_system \<Rightarrow> (nat \<times> upgrade_state) option" where
  "upgrade_snapshot s = map_option (\<lambda>h. (h, state_at s h)) (up_current s)"

text \<open>The lifecycle is offered again: nothing of it is out or waits for a publication.\<close>

definition back_to_pending :: "nat \<Rightarrow> int \<Rightarrow> upgrade_system \<Rightarrow> upgrade_system" where
  "back_to_pending h now s = set_state h ((state_at s h)\<lparr>us_status := Up_pending_offline, us_updatedAt := now,
     us_publicationResumeInput := None, us_publicationCallbackRegistered := False\<rparr>) s"

definition releaseSentLifecycle :: "int \<Rightarrow> upgrade_system \<Rightarrow> bool \<times> upgrade_system" where
  "releaseSentLifecycle now s =
    (case up_current s of
       None \<Rightarrow> (False, s)
     | Some h \<Rightarrow> if us_status (state_at s h) \<noteq> Up_sent then (False, s) else (True, supersedeCurrent now s))"

definition deferAfterTransientBlock :: "int \<Rightarrow> upgrade_system \<Rightarrow> bool \<times> upgrade_system" where
  "deferAfterTransientBlock now s =
    (case up_current s of
       None \<Rightarrow> (False, s)
     | Some h \<Rightarrow>
         if us_status (state_at s h) = Up_terminal_blocked \<or> us_status (state_at s h) = Up_superseded then (False, s)
         else (True, back_to_pending h now s))"

definition prepareRetryAfterDaemonRestart :: "int \<Rightarrow> upgrade_system \<Rightarrow> bool \<times> upgrade_system" where
  "prepareRetryAfterDaemonRestart now s =
    (case up_current s of
       None \<Rightarrow> (False, s)
     | Some h \<Rightarrow> if us_status (state_at s h) \<noteq> Up_sent then (False, s) else (True, back_to_pending h now s))"

text \<open>Whether it is prepared; otherwise it is blocked.\<close>

definition prepareForLatchRescueRestart :: "int \<Rightarrow> upgrade_system \<Rightarrow> bool \<times> upgrade_system" where
  "prepareForLatchRescueRestart now s =
    (case up_current s of
       None \<Rightarrow> (True, s)
     | Some h \<Rightarrow>
         if us_status (state_at s h) = Up_terminal_blocked then (False, s)
         else if us_status (state_at s h) = Up_sent \<or> us_status (state_at s h) = Up_pending_publication then
           (True, back_to_pending h now s)
         else (True, s))"

definition blockTargetAfterTerminalFailure :: "json \<Rightarrow> int \<Rightarrow> upgrade_system \<Rightarrow> bool \<times> upgrade_system" where
  "blockTargetAfterTerminalFailure targetVersion now s =
    (case normalizeDaemonUpgradeTargetVersion targetVersion of
       None \<Rightarrow> (False, s)
     | Some v \<Rightarrow>
         let s = (if current_for v s = None then supersedeCurrent now s else s);
             (h, s) = lifecycle_for (up_current s) v Src_replay Up_terminal_blocked now s
         in (True, set_state h ((state_at s h)\<lparr>us_status := Up_terminal_blocked, us_updatedAt := now,
               us_publicationResumeInput := None, us_publicationCallbackRegistered := False\<rparr>) s))"

definition releaseTerminalBlock :: "json \<Rightarrow> int \<Rightarrow> upgrade_system \<Rightarrow> bool \<times> upgrade_system" where
  "releaseTerminalBlock targetVersion now s =
    (case normalizeDaemonUpgradeTargetVersion targetVersion of
       None \<Rightarrow> (False, s)
     | Some v \<Rightarrow> (case current_for v s of
         None \<Rightarrow> (False, s)
       | Some h \<Rightarrow> if us_status (state_at s h) \<noteq> Up_terminal_blocked then (False, s) else (True, supersedeCurrent now s)))"

definition sentLifecycleFor :: "json \<Rightarrow> upgrade_system \<Rightarrow> int option option" where
  "sentLifecycleFor targetVersion s =
    (case normalizeDaemonUpgradeTargetVersion targetVersion of
       None \<Rightarrow> None
     | Some v \<Rightarrow> (case current_for v s of
         None \<Rightarrow> None
       | Some h \<Rightarrow> if us_status (state_at s h) = Up_sent then Some (us_lastSentAt (state_at s h)) else None))"

definition hasManualLifecycleForTarget :: "json \<Rightarrow> upgrade_system \<Rightarrow> bool" where
  "hasManualLifecycleForTarget targetVersion s =
    (case normalizeDaemonUpgradeTargetVersion targetVersion of
       None \<Rightarrow> False
     | Some v \<Rightarrow> (case current_for v s of
         None \<Rightarrow> False
       | Some h \<Rightarrow> us_source (state_at s h) = Src_manual \<and> us_status (state_at s h) \<noteq> Up_terminal_blocked))"

text \<open>A failure id that is not a non-empty string is \<open>None\<close>; one of another coordinator is no index.\<close>

definition isTerminalFailureSupersededByManual :: "json \<Rightarrow> nat option \<Rightarrow> upgrade_system \<Rightarrow> bool" where
  "isTerminalFailureSupersededByManual targetVersion failureUpgradeId s =
    (case normalizeDaemonUpgradeTargetVersion targetVersion of
       None \<Rightarrow> False
     | Some v \<Rightarrow> failureUpgradeId \<noteq> None \<and> (case current_for v s of
         None \<Rightarrow> False
       | Some h \<Rightarrow> us_source (state_at s h) = Src_manual \<and> us_status (state_at s h) \<noteq> Up_terminal_blocked
           \<and> Some h \<noteq> failureUpgradeId))"

definition clearIfTargetVersionMatches :: "string option \<Rightarrow> upgrade_system \<Rightarrow> upgrade_system" where
  "clearIfTargetVersionMatches targetVersion s =
    (if \<not> truthy targetVersion then s
     else case normalizeDaemonUpgradeTargetVersion (JStr (the targetVersion)) of
       None \<Rightarrow> s
     | Some v \<Rightarrow> if current_for v s \<noteq> None then s\<lparr>up_current := None\<rparr> else s)"

text \<open>The argument is the parsed text, \<open>None\<close> when it does not parse.\<close>

definition parseQueuedUpgrade :: "json option \<Rightarrow> string option" where
  "parseQueuedUpgrade parsed =
    (case parsed of
       None \<Rightarrow> None
     | Some v \<Rightarrow> if v = JNull then None
         else if jget v ''type'' \<noteq> JStr ''daemon.upgrade'' then None
         else normalizeDaemonUpgradeTargetVersion (jget v ''targetVersion''))"

section \<open>Events\<close>

datatype probe_status = Probe_available | Probe_missing | Probe_error

datatype upgrade_event =
  Ue_request upgrade_input
| Ue_flush nat bool
| Ue_release_sent
| Ue_defer
| Ue_prepare_retry
| Ue_prepare_rescue
| Ue_block json
| Ue_release_block json
| Ue_clear "string option"
| Ue_probe string probe_status "int option"
| Ue_retry_timer string

definition gate_probe_result :: "upgrade_env \<Rightarrow> string \<Rightarrow> probe_status \<Rightarrow> int option \<Rightarrow> upgrade_system \<Rightarrow> upgrade_system" where
  "gate_probe_result env v status code s =
    (case map_of (up_gate s) v of
       None \<Rightarrow> s
     | Some r \<Rightarrow>
         if \<not> pr_inFlight r then s
         else
           let r = r\<lparr>pr_inFlight := False, pr_lastStatusCode := code\<rparr>;
               s' = s\<lparr>up_gate := AList.update v r (up_gate s)\<rparr>
           in if status = Probe_available then markPublished env v s'
              else s\<lparr>up_gate := AList.update v (scheduleRetry (ue_now env) r) (up_gate s)\<rparr>)"

definition gate_retry :: "string \<Rightarrow> upgrade_system \<Rightarrow> upgrade_system" where
  "gate_retry v s =
    (case map_of (up_gate s) v of
       None \<Rightarrow> s
     | Some r \<Rightarrow> if \<not> pr_timer r then s
         else s\<lparr>up_gate := AList.update v (startProbe (r\<lparr>pr_timer := False\<rparr>)) (up_gate s)\<rparr>)"

fun upgrade_step :: "upgrade_system \<Rightarrow> upgrade_env \<times> upgrade_event \<Rightarrow> upgrade_system" where
  "upgrade_step s (env, Ue_request inp) = snd (upgrade_request env inp s)"
| "upgrade_step s (env, Ue_flush client skipGate) = snd (flushPending env client skipGate s)"
| "upgrade_step s (env, Ue_release_sent) = snd (releaseSentLifecycle (ue_now env) s)"
| "upgrade_step s (env, Ue_defer) = snd (deferAfterTransientBlock (ue_now env) s)"
| "upgrade_step s (env, Ue_prepare_retry) = snd (prepareRetryAfterDaemonRestart (ue_now env) s)"
| "upgrade_step s (env, Ue_prepare_rescue) = snd (prepareForLatchRescueRestart (ue_now env) s)"
| "upgrade_step s (env, Ue_block v) = snd (blockTargetAfterTerminalFailure v (ue_now env) s)"
| "upgrade_step s (env, Ue_release_block v) = snd (releaseTerminalBlock v (ue_now env) s)"
| "upgrade_step s (env, Ue_clear v) = clearIfTargetVersionMatches v s"
| "upgrade_step s (env, Ue_probe v status code) = gate_probe_result env v status code s"
| "upgrade_step s (env, Ue_retry_timer v) = gate_retry v s"

definition upgrade_run :: "(upgrade_env \<times> upgrade_event) list \<Rightarrow> upgrade_system" where
  "upgrade_run evs = foldl upgrade_step upgrade_new evs"

section \<open>What every reachable coordinator keeps\<close>

definition pending :: "upgrade_status \<Rightarrow> bool" where
  "pending st \<longleftrightarrow> st = Up_pending_offline \<or> st = Up_pending_publication"

definition message_target :: "upgrade_message \<Rightarrow> string" where
  "message_target m = opt_default daemon_upgrade_target_latest (um_targetVersion m)"

definition published :: "string \<Rightarrow> gate \<Rightarrow> bool" where
  "published v g \<longleftrightarrow> v = daemon_upgrade_target_latest \<or> pr_available (recordFor v g)"

definition deliveries :: "nat \<Rightarrow> upgrade_system \<Rightarrow> nat" where
  "deliveries h s = length (filter (\<lambda>(c, k, m). um_upgradeId m = h) (up_sent s))"

text \<open>
  What an operator asked for: the targets of manual requests, and whether one of them was forced.
\<close>

type_synonym asked = "(string \<times> bool) set"

definition state_inv :: "asked \<Rightarrow> upgrade_state \<Rightarrow> bool" where
  "state_inv Q st \<longleftrightarrow>
     (us_source st = Src_manual \<longrightarrow> (us_targetVersion st, False) \<in> Q) \<and>
     (us_force st \<longrightarrow> us_source st = Src_manual \<and> (us_targetVersion st, True) \<in> Q) \<and>
     (\<forall>inp. us_publicationResumeInput st = Some inp \<longrightarrow> \<not> ui_skipPublicationGate inp)"

definition message_inv :: "asked \<Rightarrow> upgrade_system \<Rightarrow> nat \<times> bool \<times> upgrade_message \<Rightarrow> bool" where
  "message_inv Q s = (\<lambda>(c, k, m).
     um_upgradeId m < length (up_states s) \<and>
     message_target m = us_targetVersion (state_at s (um_upgradeId m)) \<and>
     (\<not> k \<longrightarrow> published (message_target m) (up_gate s)) \<and>
     (um_source m = Src_manual \<longrightarrow> (message_target m, False) \<in> Q) \<and>
     (um_force m \<longrightarrow> um_source m = Src_manual \<and> (message_target m, True) \<in> Q))"

definition gate_inv :: "upgrade_state list \<Rightarrow> gate \<Rightarrow> bool" where
  "gate_inv sts g \<longleftrightarrow> (\<forall>(v, r) \<in> set g. \<forall>h \<in> set (pr_callbacks r). h < length sts \<and> us_targetVersion (sts ! h) = v)"

definition upgrade_inv :: "nat \<Rightarrow> asked \<Rightarrow> upgrade_system \<Rightarrow> bool" where
  "upgrade_inv R Q s \<longleftrightarrow>
     (\<forall>h. up_current s = Some h \<longrightarrow> Suc h = length (up_states s) \<and> us_status (state_at s h) \<noteq> Up_superseded) \<and>
     (\<forall>h < length (up_states s). state_inv Q (state_at s h)) \<and>
     gate_inv (up_states s) (up_gate s) \<and>
     (\<forall>x \<in> set (up_sent s). message_inv Q s x) \<and>
     sorted (map (\<lambda>(c, k, m). um_upgradeId m) (up_sent s)) \<and>
     (\<forall>h < length (up_states s). deliveries h s + (if pending (us_status (state_at s h)) then 1 else 0) \<le> 1 + R)"

lemma set_state_fields [simp]:
  "up_current (set_state h st s) = up_current s" "up_gate (set_state h st s) = up_gate s"
  "up_sent (set_state h st s) = up_sent s" "up_states (set_state h st s) = (up_states s)[h := st]"
  "deliveries k (set_state h st s) = deliveries k s"
  by (simp_all add: set_state_def deliveries_def)

lemma invD:
  assumes "upgrade_inv R Q s"
  shows "up_current s = Some h \<Longrightarrow> h < length (up_states s)"
    and "up_current s = Some h \<Longrightarrow> us_status (state_at s h) \<noteq> Up_superseded"
    and "h < length (up_states s) \<Longrightarrow> state_inv Q (state_at s h)"
    and "gate_inv (up_states s) (up_gate s)"
  using assms by (auto simp: upgrade_inv_def)

lemma target_set: "us_targetVersion st = us_targetVersion (sts ! h) \<Longrightarrow> us_targetVersion (sts[h := st] ! k) = us_targetVersion (sts ! k)"
  by (cases "h < length sts"; cases "k = h") (simp_all add: list_update_beyond linorder_not_less)

lemma gate_inv_set: "gate_inv sts g \<Longrightarrow> us_targetVersion st = us_targetVersion (sts ! h) \<Longrightarrow> gate_inv (sts[h := st]) g"
  by (simp add: gate_inv_def target_set)

lemma message_inv_set:
  "message_inv Q s x \<Longrightarrow> us_targetVersion st = us_targetVersion (state_at s h) \<Longrightarrow> message_inv Q (set_state h st s) x"
  by (simp add: message_inv_def target_set split: prod.split)

text \<open>A lifecycle may change so long as it keeps its target, and becomes pending only when it may be sent once more.\<close>

lemma inv_set_state:
  assumes "upgrade_inv R Q s" and "h < length (up_states s)"
    and "us_targetVersion st = us_targetVersion (state_at s h)" and "state_inv Q st"
    and "us_status st = Up_superseded \<Longrightarrow> up_current s \<noteq> Some h"
    and "pending (us_status st) \<Longrightarrow> deliveries h s \<le> R"
  shows "upgrade_inv R Q (set_state h st s)"
proof -
  have "deliveries k s + (if pending (us_status ((up_states s)[h := st] ! k)) then 1 else 0) \<le> 1 + R"
    if "k < length (up_states s)" for k
    using assms(1,2,6) that by (cases "k = h") (auto simp: upgrade_inv_def; fastforce)+
  moreover have "state_inv Q ((up_states s)[h := st] ! k)" if "k < length (up_states s)" for k
    using assms(1,2,4) that by (cases "k = h") (auto simp: upgrade_inv_def)
  moreover have "Suc k = length (up_states s) \<and> us_status ((up_states s)[h := st] ! k) \<noteq> Up_superseded"
    if "up_current s = Some k" for k
    using assms(1,2,5) that by (cases "k = h") (auto simp: upgrade_inv_def)
  moreover have "message_inv Q (set_state h st s) x" if "x \<in> set (up_sent s)" for x
    using assms(1,3) that message_inv_set by (auto simp: upgrade_inv_def)
  moreover have "gate_inv ((up_states s)[h := st]) (up_gate s)"
    using gate_inv_set[OF invD(4)[OF assms(1)] assms(3)] .
  ultimately show ?thesis using assms(1) unfolding upgrade_inv_def by simp
qed

lemma pending_deliveries:
  assumes "upgrade_inv R Q s" and "h < length (up_states s)" and "pending (us_status (state_at s h))"
  shows "deliveries h s \<le> R"
  using assms unfolding upgrade_inv_def by fastforce

text \<open>Parts of the state that the invariant does not read.\<close>

lemma state_inv_fields [simp]:
  "state_inv Q (st\<lparr>us_status := x\<rparr>) = state_inv Q st" "state_inv Q (st\<lparr>us_updatedAt := y\<rparr>) = state_inv Q st"
  "state_inv Q (st\<lparr>us_lastSentAt := z\<rparr>) = state_inv Q st"
  "state_inv Q (st\<lparr>us_publicationCallbackRegistered := b\<rparr>) = state_inv Q st"
  by (simp_all add: state_inv_def)

lemma state_inv_resume:
  "state_inv Q st \<Longrightarrow> state_inv Q (st\<lparr>us_publicationResumeInput := None\<rparr>)"
  "state_inv Q st \<Longrightarrow> \<not> ui_skipPublicationGate inp \<Longrightarrow> state_inv Q (st\<lparr>us_publicationResumeInput := Some inp\<rparr>)"
  by (simp_all add: state_inv_def)

text \<open>Sending the current lifecycle while it is pending.\<close>

lemma inv_sendNow:
  assumes inv: "upgrade_inv R Q s" and cur: "up_current s = Some h" and pend: "pending (us_status (state_at s h))"
    and pub: "\<not> ui_skipPublicationGate inp \<Longrightarrow> published (us_targetVersion (state_at s h)) (up_gate s)"
  shows "upgrade_inv R Q (sendNow h inp now s)"
proof -
  let ?st = "(state_at s h)\<lparr>us_status := Up_sent, us_lastSentAt := Some now, us_updatedAt := now\<rparr>"
  let ?x = "(ui_client inp, ui_skipPublicationGate inp, buildUpgradeMessage h ?st)"
  let ?q = "set_state h ?st s"
  have h: "h < length (up_states s)" "Suc h = length (up_states s)" using inv cur by (auto simp: upgrade_inv_def)
  have q: "upgrade_inv R Q ?q"
    using inv h by (intro inv_set_state) (auto simp: pending_def upgrade_inv_def)
  have st: "state_inv Q (state_at s h)" using invD(3)[OF inv h(1)] .
  have target: "message_target (buildUpgradeMessage h ?st) = us_targetVersion (state_at s h)"
    by (simp add: message_target_def buildUpgradeMessage_def shouldSendDaemonUpgradeTargetVersion_def)
  have x: "message_inv Q ?q ?x"
    using st h pub target by (simp add: message_inv_def) (auto simp: buildUpgradeMessage_def state_inv_def)
  have ids: "um_upgradeId m \<le> h" if "(c, k, m) \<in> set (up_sent s)" for c k m
    using inv that h by (fastforce simp: upgrade_inv_def message_inv_def)
  have idx: "um_upgradeId (buildUpgradeMessage h ?st) = h" by (simp add: buildUpgradeMessage_def)
  have srt: "sorted (map (\<lambda>(c, k, m). um_upgradeId m) (up_sent s @ [?x]))"
    using inv ids idx by (auto simp: upgrade_inv_def sorted_append)
  have bound: "deliveries h s \<le> R" using pending_deliveries[OF inv h(1) pend] .
  have cnt: "deliveries k (?q\<lparr>up_sent := up_sent s @ [?x]\<rparr>) + (if pending (us_status (state_at ?q k)) then 1 else 0) \<le> 1 + R"
    if k: "k < length (up_states s)" for k
  proof (cases "k = h")
    case True
    then show ?thesis using bound h idx by (simp add: deliveries_def pending_def)
  next
    case False
    then have "deliveries k s + (if pending (us_status (state_at s k)) then 1 else 0) \<le> 1 + R"
      using inv k by (simp add: upgrade_inv_def)
    then show ?thesis using False idx by (simp add: deliveries_def)
  qed
  have msgs: "message_inv Q (?q\<lparr>up_sent := l\<rparr>) y = message_inv Q ?q y" for l y
    by (simp add: message_inv_def)
  have "sendNow h inp now s = ?q\<lparr>up_sent := up_sent s @ [?x]\<rparr>" by (simp add: sendNow_def Let_def)
  then show ?thesis
    using q x srt cnt msgs unfolding upgrade_inv_def by simp
qed

section \<open>The gate and the operations keep it\<close>

lemma inv_mono: "upgrade_inv R Q s \<Longrightarrow> R \<le> R' \<Longrightarrow> Q \<subseteq> Q' \<Longrightarrow> upgrade_inv R' Q' s"
  unfolding upgrade_inv_def state_inv_def message_inv_def
  by (intro conjI; clarsimp; fastforce)

lemma inv_gate:
  assumes "upgrade_inv R Q s" and "gate_inv (up_states s) g" and "\<And>v. published v (up_gate s) \<Longrightarrow> published v g"
  shows "upgrade_inv R Q (s\<lparr>up_gate := g\<rparr>)"
proof -
  have "message_inv Q (s\<lparr>up_gate := g\<rparr>) x" if "message_inv Q s x" for x
    using that assms(3) by (auto simp: message_inv_def split: prod.splits)
  then show ?thesis using assms(1,2) by (simp add: upgrade_inv_def deliveries_def)
qed

lemma recordFor_update: "recordFor v (AList.update w r g) = (if v = w then r else recordFor v g)"
  by (simp add: recordFor_def update_conv')

lemma set_update: "set (AList.update k v al) \<subseteq> insert (k, v) (set al)"
  by (induction al) auto

lemma gate_inv_update:
  assumes "gate_inv sts g" and "\<And>h. h \<in> set (pr_callbacks r) \<Longrightarrow> h < length sts \<and> us_targetVersion (sts ! h) = v"
  shows "gate_inv sts (AList.update v r g)"
  using assms set_update[of v r g] unfolding gate_inv_def by fastforce

lemma gate_inv_record: "gate_inv sts g \<Longrightarrow> h \<in> set (pr_callbacks (recordFor v g)) \<Longrightarrow> h < length sts \<and> us_targetVersion (sts ! h) = v"
  by (cases "map_of g v") (auto simp: recordFor_def new_publication_record_def gate_inv_def dest!: map_of_SomeD)

lemma ensurePublished_ok:
  assumes "ensurePublished v cb g = (res, g')" and "gate_inv sts g"
    and "\<And>h. cb = Some h \<Longrightarrow> h < length sts \<and> us_targetVersion (sts ! h) = v"
  shows "gate_inv sts g'" and "published w g \<Longrightarrow> published w g'" and "res = Pub_available \<Longrightarrow> published v g'"
proof -
  let ?r = "recordFor v g"
  let ?c = "case cb of None \<Rightarrow> ?r | Some h \<Rightarrow> ?r\<lparr>pr_callbacks := pr_callbacks ?r @ [h]\<rparr>"
  let ?p = "if \<not> pr_inFlight ?c \<and> \<not> pr_timer ?c then startProbe ?c else ?c"
  have cbs: "h < length sts \<and> us_targetVersion (sts ! h) = v" if "h \<in> set (pr_callbacks ?p)" for h
    using that gate_inv_record[OF assms(2), of h v] assms(3)[of h] by (auto simp: startProbe_def split: option.splits if_splits)
  have g': "g' = (if v = daemon_upgrade_target_latest then g
      else if pr_available ?r then AList.update v ?r g else AList.update v ?p (AList.update v ?r g))"
    and res: "res = Pub_available \<Longrightarrow> v = daemon_upgrade_target_latest \<or> pr_available ?r"
    using assms(1) by (auto simp: ensurePublished_def Let_def split: if_splits)
  have g1: "gate_inv sts (AList.update v ?r g)"
    by (rule gate_inv_update[OF assms(2)]) (rule gate_inv_record[OF assms(2)])
  have g2: "gate_inv sts (AList.update v ?p (AList.update v ?r g))"
    by (rule gate_inv_update[OF g1]) (rule cbs)
  show "gate_inv sts g'" using g1 g2 assms(2) by (simp add: g')
  have "pr_available ?p = pr_available ?r" by (auto simp: startProbe_def split: option.split)
  then show "published w g'" if "published w g"
    using that by (auto simp: g' published_def recordFor_update)
  show "published v g'" if "res = Pub_available"
    using res[OF that] by (auto simp: g' published_def recordFor_update)
qed

definition deliverable :: "nat \<Rightarrow> asked \<Rightarrow> string \<Rightarrow> nat \<Rightarrow> upgrade_system \<Rightarrow> bool" where
  "deliverable R Q v h s \<longleftrightarrow> upgrade_inv R Q s \<and> up_current s = Some h \<and> us_targetVersion (state_at s h) = v \<and>
     pending (us_status (state_at s h))"

lemma deliverable_len: "deliverable R Q v h s \<Longrightarrow> h < length (up_states s)"
  by (auto simp: deliverable_def dest: invD(1))

text \<open>Changing a lifecycle that may be sent.\<close>

lemma deliverable_set:
  assumes "deliverable R Q v h s" and "us_targetVersion st = v" and "state_inv Q st"
  shows "us_status st \<noteq> Up_superseded \<Longrightarrow> upgrade_inv R Q (set_state h st s)"
    and "pending (us_status st) \<Longrightarrow> deliverable R Q v h (set_state h st s)"
proof -
  have h: "h < length (up_states s)" using deliverable_len[OF assms(1)] .
  show inv: "upgrade_inv R Q (set_state h st s)" if "us_status st \<noteq> Up_superseded"
    using assms h that pending_deliveries[of R Q s h]
    by (intro inv_set_state) (auto simp: deliverable_def)
  show "deliverable R Q v h (set_state h st s)" if "pending (us_status st)"
    using assms h that inv by (auto simp: deliverable_def pending_def)
qed

lemma ensureTarget_ok:
  assumes d: "deliverable R Q v h s" and e: "ensureTargetPublished h inp now s = (res, s')"
  shows "upgrade_inv R Q s'"
    and "res = None \<Longrightarrow> deliverable R Q v h s' \<and> (ui_skipPublicationGate inp \<or> published v (up_gate s'))"
proof -
  let ?st = "state_at s h"
  have h: "h < length (up_states s)" and v: "us_targetVersion ?st = v" and inv: "upgrade_inv R Q s"
    using d deliverable_len[OF d] by (simp_all add: deliverable_def)
  have st: "state_inv Q ?st" using invD(3)[OF inv h] .
  have cleared: "state_inv Q (?st\<lparr>us_publicationResumeInput := None\<rparr>)"
    using st by (rule state_inv_resume(1))
  have stp: "pending (us_status ?st)" using d by (simp add: deliverable_def)
  have "upgrade_inv R Q s' \<and> (res = None \<longrightarrow> deliverable R Q v h s' \<and> (ui_skipPublicationGate inp \<or> published v (up_gate s')))"
  proof (cases "ui_skipPublicationGate inp")
    case True
    have "deliverable R Q v h (set_state h (?st\<lparr>us_publicationResumeInput := None, us_publicationCallbackRegistered := False\<rparr>) s)"
      by (rule deliverable_set(2)[OF d]) (simp_all add: v cleared stp)
    then show ?thesis using e True by (auto simp: ensureTargetPublished_def Let_def deliverable_def)
  next
    case False
    obtain pub g where p: "ensurePublished v (if us_publicationCallbackRegistered ?st then None else Some h) (up_gate s) = (pub, g)"
      by fastforce
    have cb: "k < length (up_states s) \<and> us_targetVersion (state_at s k) = v"
      if "(if us_publicationCallbackRegistered ?st then None else Some h) = Some k" for k
      using that h v by (auto split: if_splits)
    note gate = ensurePublished_ok[OF p invD(4)[OF inv] cb]
    let ?s = "s\<lparr>up_gate := g\<rparr>"
    have invg: "upgrade_inv R Q ?s" by (rule inv_gate[OF inv gate(1) gate(2)])
    have dg: "deliverable R Q v h ?s" using d invg by (simp add: deliverable_def)
    show ?thesis
    proof (cases pub)
      case Pub_available
      let ?c = "?st\<lparr>us_publicationResumeInput := None, us_publicationCallbackRegistered := False\<rparr>"
      have s': "s' = set_state h ?c ?s" "res = None"
        using e False p v Pub_available by (simp_all add: ensureTargetPublished_def Let_def)
      have "deliverable R Q v h (set_state h ?c ?s)"
        by (rule deliverable_set(2)[OF dg]) (simp_all add: v cleared stp)
      then show ?thesis using gate(3) Pub_available s' by (simp add: deliverable_def)
    next
      case (Pub_pending at reason)
      let ?c = "?st\<lparr>us_publicationResumeInput := Some inp, us_publicationCallbackRegistered := True,
        us_status := Up_pending_publication, us_updatedAt := now\<rparr>"
      have s': "s' = set_state h ?c ?s" "res \<noteq> None"
        using e False p v Pub_pending by (simp_all add: ensureTargetPublished_def Let_def) auto
      have "state_inv Q ?c" using st False by (simp add: state_inv_def)
      then have "upgrade_inv R Q (set_state h ?c ?s)"
        by (intro deliverable_set(1)[OF dg]) (simp_all add: v)
      then show ?thesis using s' by auto
    qed
  qed
  then show "upgrade_inv R Q s'" "res = None \<Longrightarrow> deliverable R Q v h s' \<and> (ui_skipPublicationGate inp \<or> published v (up_gate s'))"
    by simp_all
qed

lemma deliverable_send:
  "deliverable R Q v h s \<Longrightarrow> ui_skipPublicationGate inp \<or> published v (up_gate s) \<Longrightarrow> upgrade_inv R Q (sendNow h inp now s)"
  by (rule inv_sendNow) (auto simp: deliverable_def)

lemma inv_no_current: "upgrade_inv R Q s \<Longrightarrow> upgrade_inv R Q (s\<lparr>up_current := None\<rparr>)"
proof -
  have "message_inv Q (s\<lparr>up_current := c\<rparr>) x = message_inv Q s x" for c x by (simp add: message_inv_def)
  then show "upgrade_inv R Q s \<Longrightarrow> upgrade_inv R Q (s\<lparr>up_current := None\<rparr>)"
    by (simp add: upgrade_inv_def deliveries_def)
qed

lemma inv_supersede: "upgrade_inv R Q s \<Longrightarrow> upgrade_inv R Q (supersedeCurrent now s) \<and> up_current (supersedeCurrent now s) = None"
proof (cases "up_current s")
  case (Some h)
  assume inv: "upgrade_inv R Q s"
  let ?st = "(state_at s h)\<lparr>us_status := Up_superseded, us_updatedAt := now\<rparr>"
  have h: "h < length (up_states s)" using invD(1)[OF inv Some] .
  have "upgrade_inv R Q (set_state h ?st (s\<lparr>up_current := None\<rparr>))"
    using inv_no_current[OF inv] invD(3)[OF inv h] h by (intro inv_set_state) (simp_all add: pending_def)
  moreover have "supersedeCurrent now s = set_state h ?st (s\<lparr>up_current := None\<rparr>)"
    by (simp add: supersedeCurrent_def Some set_state_def)
  ultimately show ?thesis by simp
qed (simp add: supersedeCurrent_def)

lemma no_deliveries_new:
  assumes "upgrade_inv R Q s"
  shows "deliveries (length (up_states s)) s = 0"
  using assms by (fastforce simp: upgrade_inv_def message_inv_def deliveries_def filter_empty_conv)

lemma inv_new_lifecycle:
  assumes inv: "upgrade_inv R Q s" and st: "state_inv Q st" "us_status st \<noteq> Up_superseded"
  shows "upgrade_inv R Q (s\<lparr>up_states := up_states s @ [st], up_current := Some (length (up_states s))\<rparr>)" (is "upgrade_inv R Q ?q")
proof -
  have "message_inv Q ?q x" if "message_inv Q s x" for x
    using that by (auto simp: message_inv_def nth_append split: prod.splits)
  moreover have "gate_inv (up_states s @ [st]) (up_gate s)"
    using invD(4)[OF inv] by (fastforce simp: gate_inv_def nth_append)
  moreover have "deliveries h ?q + (if pending (us_status (state_at ?q h)) then 1 else 0) \<le> 1 + R"
    if "h < length (up_states ?q)" for h
  proof (cases "h < length (up_states s)")
    case True
    then show ?thesis using inv by (simp add: upgrade_inv_def deliveries_def nth_append)
  next
    case False
    then have "h = length (up_states s)" using that by simp
    then show ?thesis using no_deliveries_new[OF inv] by (simp add: deliveries_def)
  qed
  ultimately show ?thesis using inv st unfolding upgrade_inv_def by (simp add: nth_append)
qed

lemma lifecycle_ok:
  assumes "upgrade_inv R Q s" and "lifecycle_for cur v src status now s = (h, s')"
    and "cur = up_current s" and "cur = None \<longrightarrow> (src = Src_manual \<longrightarrow> (v, False) \<in> Q) \<and> status \<noteq> Up_superseded"
  shows "upgrade_inv R Q s'" "up_current s' = Some h" "h < length (up_states s')"
    and "cur = None \<Longrightarrow> state_at s' h = new_lifecycle v src status now" "cur = Some h' \<Longrightarrow> h = h' \<and> s' = s"
proof -
  have new: "upgrade_inv R Q (s\<lparr>up_states := up_states s @ [new_lifecycle v src status now], up_current := Some (length (up_states s))\<rparr>)"
    if "cur = None"
    using assms(1,4) that by (intro inv_new_lifecycle) (auto simp: state_inv_def new_lifecycle_def)
  have same: "s' = s \<and> h = k" if "cur = Some k" for k
    using that assms(2,3) by (auto simp: lifecycle_for_def)
  have none: "h = length (up_states s) \<and>
      s' = s\<lparr>up_states := up_states s @ [new_lifecycle v src status now], up_current := Some (length (up_states s))\<rparr>" if "cur = None"
    using that assms(2) by (auto simp: lifecycle_for_def)
  show "cur = None \<Longrightarrow> state_at s' h = new_lifecycle v src status now" using none by simp
  show "cur = Some h' \<Longrightarrow> h = h' \<and> s' = s" using same by simp
  show "upgrade_inv R Q s'" using new none same assms(1) by (cases cur) simp_all
  show cur': "up_current s' = Some h"
  proof (cases cur)
    case (Some k)
    then show ?thesis using same[OF Some] assms(3) by simp
  qed (use none in simp)
  show "h < length (up_states s')"
  proof (cases cur)
    case (Some k)
    then show ?thesis using same[OF Some] cur' invD(1)[OF assms(1)] by simp
  qed (use none in simp)
qed

text \<open>What a request means for the operators' wishes.\<close>

definition covered :: "asked \<Rightarrow> string \<Rightarrow> upgrade_input \<Rightarrow> bool" where
  "covered Q v inp \<longleftrightarrow> (ui_source inp = Src_manual \<longrightarrow> (v, False) \<in> Q \<and> (ui_force inp \<longrightarrow> (v, True) \<in> Q))"

lemma take_over_ok:
  assumes d: "deliverable R Q v h s" and c: "covered Q v inp"
    and src: "src = ui_source inp \<or> src = Src_manual \<and> us_source (state_at s h) = Src_manual"
  shows "deliverable R Q v h (take_over h inp src now s)"
proof -
  have h: "h < length (up_states s)" and v: "us_targetVersion (state_at s h) = v" and p: "pending (us_status (state_at s h))"
    using d deliverable_len[OF d] by (simp_all add: deliverable_def)
  have st: "state_inv Q (state_at s h)" using d h by (auto simp: deliverable_def intro: invD(3))
  let ?st = "(applyForce inp ((state_at s h)\<lparr>us_source := src\<rparr>))\<lparr>us_updatedAt := now\<rparr>"
  have "us_targetVersion ?st = v" "us_status ?st = us_status (state_at s h)" using v by (simp_all add: applyForce_def)
  moreover have "state_inv Q ?st"
    using st c src v by (auto simp: state_inv_def applyForce_def covered_def)
  ultimately show ?thesis using deliverable_set(2)[OF d, of ?st] p by (simp add: take_over_def)
qed

lemma request_delivery_ok:
  assumes inv: "upgrade_inv R Q s" and c: "covered Q v inp" and cur: "cur = up_current s"
    and some: "\<And>h. cur = Some h \<Longrightarrow> deliverable R Q v h s \<and> (src = ui_source inp \<or> src = Src_manual \<and> us_source (state_at s h) = Src_manual)"
    and none: "cur = None \<Longrightarrow> src = ui_source inp"
  shows "upgrade_inv R Q (snd (request_delivery env inp src cur v s))"
proof -
  obtain h s1 where l: "lifecycle_for cur v src Up_pending_offline (ue_now env) s = (h, s1)" by fastforce
  have sq: "cur = None \<longrightarrow> (src = Src_manual \<longrightarrow> (v, False) \<in> Q) \<and> Up_pending_offline \<noteq> Up_superseded"
    using none c by (auto simp: covered_def)
  note lc = lifecycle_ok[OF inv l cur sq]
  have d: "deliverable R Q v h s1 \<and> (src = ui_source inp \<or> src = Src_manual \<and> us_source (state_at s1 h) = Src_manual)"
  proof (cases cur)
    case None
    then show ?thesis using lc none by (auto simp: deliverable_def new_lifecycle_def pending_def)
  next
    case (Some k)
    then show ?thesis using lc(5)[OF Some] some[OF Some] by simp
  qed
  let ?s2 = "take_over h inp src (ue_now env) s1"
  have d2: "deliverable R Q v h ?s2" using take_over_ok[OF _ c, of R h s1 src] d by blast
  have st2: "state_inv Q (state_at ?s2 h)" "us_targetVersion (state_at ?s2 h) = v"
    using d2 deliverable_len[OF d2] by (auto simp: deliverable_def intro: invD(3))
  have off: "upgrade_inv R Q (set_state h ((state_at ?s2 h)\<lparr>us_status := Up_pending_offline\<rparr>) ?s2)"
    by (rule deliverable_set(1)[OF d2]) (simp_all add: st2)
  obtain res s3 where e: "ensureTargetPublished h (inp\<lparr>ui_source := src\<rparr>) (ue_now env) ?s2 = (res, s3)" by fastforce
  note en = ensureTarget_ok[OF d2 e]
  have send: "upgrade_inv R Q (sendNow h (inp\<lparr>ui_source := src\<rparr>) (ue_now env) s3)" if "res = None"
    using en(2)[OF that] by (intro deliverable_send) auto
  show ?thesis
    using off en(1) send by (simp add: request_delivery_def Let_def l e split: option.split)
qed

lemma pending_status: "pending st \<longleftrightarrow> st = Up_pending_publication \<or> st = Up_pending_offline"
  by (auto simp: pending_def)

lemma request_continue_ok:
  assumes inv: "upgrade_inv R Q s" and c: "covered Q v inp" and cur: "cur = up_current s"
    and v: "\<And>h. cur = Some h \<Longrightarrow> us_targetVersion (state_at s h) = v"
  shows "upgrade_inv R Q (snd (request_continue env inp cur v s))"
proof (cases cur)
  case None
  then have "upgrade_inv R Q (snd (request_delivery env inp (ui_source inp) None v s))"
    using cur by (intro request_delivery_ok[OF inv c]) auto
  then show ?thesis using None by (simp add: request_continue_def)
next
  case (Some h)
  define src where "src = (if us_source (state_at s h) = Src_manual \<and> ui_source inp \<noteq> Src_manual then Src_manual else ui_source inp)"
  have src: "src = ui_source inp \<or> src = Src_manual \<and> us_source (state_at s h) = Src_manual" by (auto simp: src_def)
  have eq: "request_continue env inp cur v s =
      (if us_status (state_at s h) = Up_pending_publication then
         let s = take_over h inp src (ue_now env) s in
         if \<not> ue_ready env (ui_client inp) then
           (upgrade_answer (Some h) (Some v) Dl_pending_offline, set_state h ((state_at s h)\<lparr>us_status := Up_pending_offline\<rparr>) s)
         else (case ensureTargetPublished h (inp\<lparr>ui_source := src\<rparr>) (ue_now env) s of
                 (Some r, s) \<Rightarrow> (r, s)
               | (None, s) \<Rightarrow> request_delivery env inp src (Some h) v s)
       else if us_status (state_at s h) \<noteq> Up_superseded \<and> us_status (state_at s h) \<noteq> Up_pending_offline then
         (upgrade_answer (Some h) (Some v) Dl_already_in_progress, s)
       else request_delivery env inp src (Some h) v s)"
    by (simp only: request_continue_def Let_def option.case Some src_def)
  have del: "deliverable R Q v h s" if "pending (us_status (state_at s h))"
    using that inv cur Some v[OF Some] by (simp add: deliverable_def)
  have direct: "upgrade_inv R Q (snd (request_delivery env inp src (Some h) v s))" if "pending (us_status (state_at s h))"
    by (rule request_delivery_ok[OF inv c]) (use del[OF that] src cur Some in auto)
  show ?thesis
  proof (cases "us_status (state_at s h) = Up_pending_publication")
    case True
    let ?s1 = "take_over h inp src (ue_now env) s"
    have d1: "deliverable R Q v h ?s1"
      using True by (intro take_over_ok[OF del c src]) (simp add: pending_def)
    have st1: "state_inv Q (state_at ?s1 h)" "us_targetVersion (state_at ?s1 h) = v"
      using d1 deliverable_len[OF d1] by (auto simp: deliverable_def intro: invD(3))
    have off: "upgrade_inv R Q (set_state h ((state_at ?s1 h)\<lparr>us_status := Up_pending_offline\<rparr>) ?s1)"
      by (rule deliverable_set(1)[OF d1]) (simp_all add: st1)
    obtain res s2 where e: "ensureTargetPublished h (inp\<lparr>ui_source := src\<rparr>) (ue_now env) ?s1 = (res, s2)" by fastforce
    note en = ensureTarget_ok[OF d1 e]
    have src1: "us_source (state_at ?s1 h) = src"
      using deliverable_len[OF d1] by (simp add: take_over_def applyForce_def)
    have src2: "us_source (state_at s2 h) = us_source (state_at ?s1 h)"
      using e deliverable_len[OF d1]
      by (auto simp: ensureTargetPublished_def Let_def split: if_splits prod.splits publication_result.splits)
    have "upgrade_inv R Q (snd (request_delivery env inp src (Some h) v s2))" if "res = None"
    proof (rule request_delivery_ok[OF en(1) c])
      show "Some h = up_current s2" using en(2)[OF that] by (simp add: deliverable_def)
      fix k assume "Some h = Some k"
      then show "deliverable R Q v k s2 \<and> (src = ui_source inp \<or> src = Src_manual \<and> us_source (state_at s2 k) = Src_manual)"
        using en(2)[OF that] src1 src2 src by auto
    qed simp
    then show ?thesis
      using True off en(1) by (simp add: eq Let_def e split: option.split)
  next
    case False
    have up: "up_current s = Some h" using cur Some by simp
    show ?thesis
      unfolding eq using False inv direct invD(2)[OF inv up] by (simp add: pending_def)
  qed
qed

lemma current_for_Some: "current_for v s = Some h \<longleftrightarrow> up_current s = Some h \<and> us_targetVersion (state_at s h) = v"
  by (auto simp: current_for_def split: option.splits)

lemma request_ok:
  assumes inv: "upgrade_inv R Q s"
    and c: "\<And>v. normalizeDaemonUpgradeTargetVersion (ui_targetVersion inp) = Some v \<Longrightarrow> covered Q v inp"
  shows "upgrade_inv R Q (snd (upgrade_request env inp s))"
proof (cases "normalizeDaemonUpgradeTargetVersion (ui_targetVersion inp)")
  case (Some v)
  have sup: "upgrade_inv R Q (snd (request_continue env inp None v (supersedeCurrent now s)))" for now
    using inv_supersede[OF inv] by (intro request_continue_ok[OF _ c[OF Some]]) auto
  show ?thesis
  proof (cases "current_for v s")
    case None
    then show ?thesis using sup by (simp add: upgrade_request_def Some Let_def)
  next
    case cur: (Some h)
    have "upgrade_inv R Q (snd (request_continue env inp (Some h) v s))"
      using cur by (intro request_continue_ok[OF inv c[OF Some]]) (auto simp: current_for_Some)
    then show ?thesis using sup inv by (simp add: upgrade_request_def Some cur Let_def)
  qed
qed (simp add: upgrade_request_def inv)

lemma upgrade_flush_ok:
  assumes inv: "upgrade_inv R Q s"
  shows "upgrade_inv R Q (snd (flushPending env client skip s))"
proof (cases "up_current s")
  case (Some h)
  let ?st = "state_at s h"
  let ?inp = "\<lparr>ui_targetVersion = JStr (us_targetVersion ?st), ui_source = us_source ?st, ui_force = False,
    ui_skipPublicationGate = skip, ui_client = client\<rparr>"
  show ?thesis
  proof (cases "pending (us_status ?st)")
    case True
    then have d: "deliverable R Q (us_targetVersion ?st) h s" using inv Some by (simp add: deliverable_def)
    obtain res s2 where e: "ensureTargetPublished h ?inp (ue_now env) s = (res, s2)" by fastforce
    note en = ensureTarget_ok[OF d e]
    have "upgrade_inv R Q (sendNow h ?inp (ue_now env) s2)" if "res = None"
      using en(2)[OF that] by (intro deliverable_send) auto
    then show ?thesis using inv en(1) Some by (simp add: flushPending_def Let_def e split: option.split)
  qed (use inv Some in \<open>auto simp: flushPending_def Let_def pending_def\<close>)
qed (simp add: flushPending_def inv)

text \<open>Putting a lifecycle back costs one of the returns.\<close>

lemma back_ok:
  assumes inv: "upgrade_inv R Q s" and h: "h < length (up_states s)"
  shows "upgrade_inv (Suc R) Q (back_to_pending h now s)"
proof -
  have "upgrade_inv (Suc R) Q s" using inv_mono[OF inv, of "Suc R" Q] by simp
  moreover have "deliveries h s \<le> Suc R" using inv h by (fastforce simp: upgrade_inv_def)
  ultimately show ?thesis
    using h invD(3)[OF inv h] unfolding back_to_pending_def by (intro inv_set_state) (simp_all add: state_inv_resume)
qed

lemma returns_ok:
  assumes "upgrade_inv R Q s"
  shows "upgrade_inv (Suc R) Q (snd (deferAfterTransientBlock now s))"
    and "upgrade_inv (Suc R) Q (snd (prepareRetryAfterDaemonRestart now s))"
    and "upgrade_inv (Suc R) Q (snd (prepareForLatchRescueRestart now s))"
  using back_ok[OF assms] invD(1)[OF assms] inv_mono[OF assms, of "Suc R" Q]
  by (auto simp: deferAfterTransientBlock_def prepareRetryAfterDaemonRestart_def prepareForLatchRescueRestart_def
      split: option.split)

lemma release_ok:
  assumes "upgrade_inv R Q s"
  shows "upgrade_inv R Q (snd (releaseSentLifecycle now s))" "upgrade_inv R Q (snd (releaseTerminalBlock v now s))"
    "upgrade_inv R Q (clearIfTargetVersionMatches w s)"
  using inv_supersede[OF assms] inv_no_current[OF assms] assms
  by (auto simp: releaseSentLifecycle_def releaseTerminalBlock_def clearIfTargetVersionMatches_def split: option.split)

lemma block_ok:
  assumes inv: "upgrade_inv R Q s"
  shows "upgrade_inv R Q (snd (blockTargetAfterTerminalFailure w now s))"
proof (cases "normalizeDaemonUpgradeTargetVersion w")
  case (Some v)
  let ?s1 = "if current_for v s = None then supersedeCurrent now s else s"
  have inv1: "upgrade_inv R Q ?s1" using inv inv_supersede[OF inv] by simp
  obtain h s2 where l: "lifecycle_for (up_current ?s1) v Src_replay Up_terminal_blocked now ?s1 = (h, s2)" by fastforce
  have "up_current ?s1 = None \<longrightarrow> (Src_replay = Src_manual \<longrightarrow> (v, False) \<in> Q) \<and> Up_terminal_blocked \<noteq> Up_superseded" by simp
  note lc = lifecycle_ok[OF inv1 l refl this]
  have "upgrade_inv R Q s2" "up_current s2 = Some h" "h < length (up_states s2)" using lc by simp_all
  then have "upgrade_inv R Q (set_state h ((state_at s2 h)\<lparr>us_status := Up_terminal_blocked, us_updatedAt := now,
      us_publicationResumeInput := None, us_publicationCallbackRegistered := False\<rparr>) s2)"
    using invD(3)[of R Q s2 h] by (intro inv_set_state) (simp_all add: state_inv_resume pending_def)
  then show ?thesis by (simp add: blockTargetAfterTerminalFailure_def Some Let_def l)
qed (simp add: blockTargetAfterTerminalFailure_def inv)

lemma callback_ok:
  assumes inv: "upgrade_inv R Q s" and h: "h < length (up_states s)" and v: "us_targetVersion (state_at s h) = v"
    and pub: "published v (up_gate s)"
  shows "upgrade_inv R Q (publication_callback env h s)" "up_gate (publication_callback env h s) = up_gate s"
    and "length (up_states (publication_callback env h s)) = length (up_states s)"
    and "us_targetVersion (state_at (publication_callback env h s) k) = us_targetVersion (state_at s k)"
proof -
  let ?st = "(state_at s h)\<lparr>us_publicationCallbackRegistered := False, us_publicationResumeInput := None\<rparr>"
  let ?q = "set_state h ?st s"
  have st: "state_inv Q (state_at s h)" using invD(3)[OF inv h] .
  have q: "upgrade_inv R Q ?q"
    using inv h st pending_deliveries[OF inv h] invD(2)[OF inv]
    by (intro inv_set_state) (auto simp: state_inv_def)
  have targets: "us_targetVersion (state_at ?q k) = us_targetVersion (state_at s k)" for k
    using target_set[of ?st "up_states s" h k] by simp
  have resume: "upgrade_inv R Q (resumeAfterPublication env h inp ?q)" for inp
    using q v h pub by (auto simp: resumeAfterPublication_def pending_def intro!: inv_sendNow)
  show "upgrade_inv R Q (publication_callback env h s)"
    using q resume by (simp add: publication_callback_def Let_def split: option.split)
  show "up_gate (publication_callback env h s) = up_gate s"
    by (simp add: publication_callback_def Let_def resumeAfterPublication_def sendNow_def split: option.split)
  show "length (up_states (publication_callback env h s)) = length (up_states s)"
    by (simp add: publication_callback_def Let_def resumeAfterPublication_def sendNow_def split: option.split)
  have "us_targetVersion (state_at (sendNow h inp now ?q) k) = us_targetVersion (state_at s k)" for inp now
    using target_set[of "(state_at ?q h)\<lparr>us_status := Up_sent, us_lastSentAt := Some now, us_updatedAt := now\<rparr>" "up_states ?q" h k]
      targets by (simp add: sendNow_def Let_def)
  then show "us_targetVersion (state_at (publication_callback env h s) k) = us_targetVersion (state_at s k)"
    using targets by (simp add: publication_callback_def Let_def resumeAfterPublication_def split: option.split)
qed

lemma callbacks_ok:
  "upgrade_inv R Q s \<Longrightarrow> \<forall>h \<in> set hs. h < length (up_states s) \<and> us_targetVersion (state_at s h) = v \<Longrightarrow>
   published v (up_gate s) \<Longrightarrow> upgrade_inv R Q (fold (publication_callback env) hs s)"
proof (induction hs arbitrary: s)
  case (Cons h hs)
  then have h: "h < length (up_states s)" "us_targetVersion (state_at s h) = v" by simp_all
  note cb = callback_ok[OF Cons.prems(1) h Cons.prems(3)]
  show ?case using Cons.IH[of "publication_callback env h s"] Cons.prems cb by simp
qed simp

lemma map_of_record: "map_of g v = Some r \<Longrightarrow> recordFor v g = r"
  by (simp add: recordFor_def)

lemma probe_ok:
  assumes inv: "upgrade_inv R Q s"
  shows "upgrade_inv R Q (gate_probe_result env v status code s)"
proof (cases "map_of (up_gate s) v")
  case (Some r)
  let ?r = "r\<lparr>pr_inFlight := False, pr_lastStatusCode := code\<rparr>"
  have g: "gate_inv (up_states s) (up_gate s)" using invD(4)[OF inv] .
  have cbs: "h < length (up_states s) \<and> us_targetVersion (state_at s h) = v" if "h \<in> set (pr_callbacks r)" for h
    using gate_inv_record[OF g, of h v] that by (simp add: map_of_record[OF Some])
  have mono: "published w (AList.update v r' (up_gate s))" if "published w (up_gate s)" "pr_available r \<Longrightarrow> pr_available r'" for w r'
    using that by (auto simp: published_def recordFor_update map_of_record[OF Some])
  let ?s1 = "s\<lparr>up_gate := AList.update v ?r (up_gate s)\<rparr>"
  let ?a = "?r\<lparr>pr_available := True, pr_timer := False, pr_inFlight := False, pr_nextProbeAt := None, pr_callbacks := []\<rparr>"
  have s1: "upgrade_inv R Q ?s1" using cbs mono by (intro inv_gate[OF inv] gate_inv_update[OF g]) simp_all
  let ?s2 = "?s1\<lparr>up_gate := AList.update v ?a (up_gate ?s1)\<rparr>"
  have s2: "upgrade_inv R Q ?s2"
    using invD(4)[OF s1] by (intro inv_gate[OF s1] gate_inv_update) (auto simp: published_def recordFor_update)
  have "upgrade_inv R Q (markPublished env v ?s1)"
    using callbacks_ok[OF s2, of "pr_callbacks r" v env] cbs
    by (simp add: markPublished_def Let_def recordFor_update published_def)
  moreover have "upgrade_inv R Q (s\<lparr>up_gate := AList.update v (scheduleRetry now ?r) (up_gate s)\<rparr>)" for now
  proof -
    have "pr_callbacks (scheduleRetry now ?r) = pr_callbacks r" "pr_available (scheduleRetry now ?r) = pr_available r"
      by (simp_all add: scheduleRetry_def)
    then show ?thesis using cbs mono by (intro inv_gate[OF inv] gate_inv_update[OF g]) simp_all
  qed
  ultimately show ?thesis using inv by (simp add: gate_probe_result_def Some Let_def)
qed (simp add: gate_probe_result_def inv)

lemma retry_ok:
  assumes inv: "upgrade_inv R Q s"
  shows "upgrade_inv R Q (gate_retry v s)"
proof (cases "map_of (up_gate s) v")
  case (Some r)
  have g: "gate_inv (up_states s) (up_gate s)" using invD(4)[OF inv] .
  have "h < length (up_states s) \<and> us_targetVersion (state_at s h) = v" if "h \<in> set (pr_callbacks r)" for h
    using gate_inv_record[OF g, of h v] that by (simp add: map_of_record[OF Some])
  then have "upgrade_inv R Q (s\<lparr>up_gate := AList.update v (startProbe (r\<lparr>pr_timer := False\<rparr>)) (up_gate s)\<rparr>)"
    by (intro inv_gate[OF inv] gate_inv_update[OF g])
      (auto simp: startProbe_def published_def recordFor_update map_of_record[OF Some])
  then show ?thesis using inv by (simp add: gate_retry_def Some)
qed (simp add: gate_retry_def inv)

section \<open>Histories\<close>

text \<open>What the operators asked for in a history, and how often the daemon put a delivery back.\<close>

definition asked_in :: "(upgrade_env \<times> upgrade_event) list \<Rightarrow> asked" where
  "asked_in evs = {(v, f). \<exists>env inp. (env, Ue_request inp) \<in> set evs \<and> ui_source inp = Src_manual \<and>
     normalizeDaemonUpgradeTargetVersion (ui_targetVersion inp) = Some v \<and> (f \<longrightarrow> ui_force inp)}"

definition is_return :: "upgrade_env \<times> upgrade_event \<Rightarrow> bool" where
  "is_return ev \<longleftrightarrow> snd ev = Ue_defer \<or> snd ev = Ue_prepare_retry \<or> snd ev = Ue_prepare_rescue"

definition returns :: "(upgrade_env \<times> upgrade_event) list \<Rightarrow> nat" where
  "returns evs = length (filter is_return evs)"

lemma upgrade_step_ok:
  assumes inv: "upgrade_inv R Q s"
  shows "upgrade_inv (R + returns [ev]) (Q \<union> asked_in [ev]) (upgrade_step s ev)"
proof -
  obtain env e where ev: "ev = (env, e)" by fastforce
  have inv': "upgrade_inv R (Q \<union> asked_in [ev]) s" using inv_mono[OF inv] by simp
  have c: "covered (Q \<union> asked_in [ev]) v inp"
    if "e = Ue_request inp" "normalizeDaemonUpgradeTargetVersion (ui_targetVersion inp) = Some v" for inp v
    using that by (auto simp: covered_def asked_in_def ev)
  show ?thesis
    using request_ok[OF inv' c] upgrade_flush_ok[OF inv'] returns_ok[OF inv'] release_ok[OF inv'] block_ok[OF inv'] probe_ok[OF inv'] retry_ok[OF inv']
    by (cases e) (simp_all add: ev returns_def is_return_def)
qed

lemma upgrade_run_ok: "upgrade_inv (returns evs) (asked_in evs) (upgrade_run evs)"
proof (induction evs rule: rev_induct)
  case Nil
  then show ?case by (simp add: upgrade_run_def upgrade_new_def upgrade_inv_def gate_inv_def)
next
  case (snoc ev evs)
  have "upgrade_inv (returns evs + returns [ev]) (asked_in evs \<union> asked_in [ev]) (upgrade_step (upgrade_run evs) ev)"
    using upgrade_step_ok[OF snoc.IH] .
  moreover have "asked_in evs \<union> asked_in [ev] = asked_in (evs @ [ev])" by (auto simp: asked_in_def)
  moreover have "returns (evs @ [ev]) = returns evs + returns [ev]" by (simp add: returns_def)
  ultimately show ?case by (simp add: upgrade_run_def)
qed

lemma run_messages: "x \<in> set (up_sent (upgrade_run evs)) \<Longrightarrow> message_inv (asked_in evs) (upgrade_run evs) x"
  using upgrade_run_ok[of evs] by (simp add: upgrade_inv_def)

text \<open>The gate opens only by a probe that found the package.\<close>

definition gate_open :: "string \<Rightarrow> upgrade_system \<Rightarrow> bool" where
  "gate_open v s \<longleftrightarrow> pr_available (recordFor v (up_gate s))"

lemma gate_open_fields [simp]:
  "gate_open v (set_state h st s) = gate_open v s" "gate_open v (s\<lparr>up_current := c\<rparr>) = gate_open v s"
  "gate_open v (s\<lparr>up_sent := l\<rparr>) = gate_open v s" "gate_open v (s\<lparr>up_states := sts\<rparr>) = gate_open v s"
  "gate_open v (s\<lparr>up_gate := g\<rparr>) = pr_available (recordFor v g)"
  by (simp_all add: gate_open_def)

lemma gate_open_send [simp]: "gate_open v (sendNow h inp now s) = gate_open v s"
  by (simp add: sendNow_def Let_def)

lemma gate_open_callback [simp]: "gate_open v (publication_callback env h s) = gate_open v s"
  by (simp add: publication_callback_def resumeAfterPublication_def Let_def split: option.split)

lemma gate_open_callbacks [simp]: "gate_open v (fold (publication_callback env) hs s) = gate_open v s"
  by (induction hs arbitrary: s) simp_all

lemma ensurePublished_opens_nothing:
  "pr_available (recordFor w (snd (ensurePublished v cb g))) = pr_available (recordFor w g)"
  by (cases "w = v") (auto simp: ensurePublished_def Let_def recordFor_update startProbe_def split: option.split)

lemma gate_open_ensure [simp]: "gate_open v (snd (ensureTargetPublished h inp now s)) = gate_open v s"
proof -
  let ?cb = "if us_publicationCallbackRegistered (state_at s h) then None else Some h"
  obtain r g where e: "ensurePublished (us_targetVersion (state_at s h)) ?cb (up_gate s) = (r, g)" by fastforce
  have "pr_available (recordFor v g) = gate_open v s"
    using ensurePublished_opens_nothing [of v "us_targetVersion (state_at s h)" ?cb "up_gate s"] e by (simp add: gate_open_def)
  then show ?thesis unfolding ensureTargetPublished_def Let_def e by (simp split: publication_result.split)
qed

lemma gate_open_supersede [simp]: "gate_open v (supersedeCurrent now s) = gate_open v s"
  by (simp add: supersedeCurrent_def split: option.split)

lemma gate_open_lifecycle [simp]: "gate_open v (snd (lifecycle_for c w source status now s)) = gate_open v s"
  by (simp add: lifecycle_for_def split: option.split)

lemma gate_open_take_over [simp]: "gate_open v (take_over h inp source now s) = gate_open v s"
  by (simp add: take_over_def)

lemma gate_open_delivery [simp]: "gate_open v (snd (request_delivery env inp source c w s)) = gate_open v s"
proof -
  obtain h s1 where l: "lifecycle_for c w source Up_pending_offline (ue_now env) s = (h, s1)" by fastforce
  let ?s2 = "take_over h inp source (ue_now env) s1"
  obtain r s3 where e: "ensureTargetPublished h (inp\<lparr>ui_source := source\<rparr>) (ue_now env) ?s2 = (r, s3)" by fastforce
  have "gate_open v s1 = gate_open v s" using gate_open_lifecycle [of v c w source Up_pending_offline "ue_now env" s] l by simp
  moreover have "gate_open v s3 = gate_open v ?s2"
    using gate_open_ensure [of v h "inp\<lparr>ui_source := source\<rparr>" "ue_now env" ?s2] e by simp
  ultimately show ?thesis by (simp add: request_delivery_def Let_def l e split: option.split)
qed

lemma gate_open_continue [simp]: "gate_open v (snd (request_continue env inp c w s)) = gate_open v s"
proof (cases c)
  case (Some h)
  let ?src = "if us_source (state_at s h) = Src_manual \<and> ui_source inp \<noteq> Src_manual then Src_manual else ui_source inp"
  let ?s1 = "take_over h inp ?src (ue_now env) s"
  obtain r s2 where e: "ensureTargetPublished h (inp\<lparr>ui_source := ?src\<rparr>) (ue_now env) ?s1 = (r, s2)" by fastforce
  have "gate_open v s2 = gate_open v ?s1"
    using gate_open_ensure [of v h "inp\<lparr>ui_source := ?src\<rparr>" "ue_now env" ?s1] e by simp
  then show ?thesis unfolding request_continue_def Some Let_def option.case e by (simp split: option.split)
qed (simp add: request_continue_def Let_def)

lemma gate_open_request [simp]: "gate_open v (snd (upgrade_request env inp s)) = gate_open v s"
  by (simp add: upgrade_request_def Let_def split: option.split)

lemma gate_open_flush [simp]: "gate_open v (snd (flushPending env client k s)) = gate_open v s"
proof -
  have "gate_open v s' = gate_open v s" if "ensureTargetPublished h inp now s = (r, s')" for h inp now r s'
    using gate_open_ensure [of v h inp now s] that by simp
  then show ?thesis by (auto simp: flushPending_def Let_def split: option.split prod.split)
qed

lemma gate_open_back [simp]: "gate_open v (back_to_pending h now s) = gate_open v s"
  by (simp add: back_to_pending_def)

lemma gate_open_block [simp]: "gate_open v (snd (blockTargetAfterTerminalFailure x now s)) = gate_open v s"
proof -
  have "gate_open v s' = gate_open v t" if "lifecycle_for c w source st now t = (h, s')" for c w source st h t s'
    using gate_open_lifecycle [of v c w source st now t] that by simp
  then show ?thesis by (auto simp: blockTargetAfterTerminalFailure_def Let_def split: option.split prod.split)
qed

lemma gate_open_probe:
  assumes "gate_open w (gate_probe_result env v status code s)"
  shows "gate_open w s \<or> (w = v \<and> status = Probe_available \<and> pr_inFlight (recordFor v (up_gate s)))"
proof (cases "map_of (up_gate s) v")
  case (Some r)
  then show ?thesis using assms
    by (auto simp: gate_probe_result_def Let_def markPublished_def recordFor_update map_of_record gate_open_def [of w s]
        scheduleRetry_def split: if_splits)
qed (use assms in \<open>simp add: gate_probe_result_def\<close>)

lemma gate_open_retry [simp]: "gate_open w (gate_retry v s) = gate_open w s"
  by (auto simp: gate_retry_def recordFor_update startProbe_def map_of_record gate_open_def [of w s] split: option.split)

lemma gate_open_step:
  assumes "gate_open w (upgrade_step s (env, ev))"
  shows "gate_open w s \<or> (\<exists>code. ev = Ue_probe w Probe_available code \<and> pr_inFlight (recordFor w (up_gate s)))"
proof (cases ev)
  case (Ue_probe v status code)
  then show ?thesis using assms gate_open_probe [of w env v status code s] by auto
qed (use assms in \<open>auto simp: releaseSentLifecycle_def deferAfterTransientBlock_def prepareRetryAfterDaemonRestart_def
      prepareForLatchRescueRestart_def releaseTerminalBlock_def clearIfTargetVersionMatches_def
      split: option.splits if_splits\<close>)

text \<open>A probe of a version that was in flight and found the package, at some point of a history.\<close>

definition found_by_probe :: "string \<Rightarrow> (upgrade_env \<times> upgrade_event) list \<Rightarrow> bool" where
  "found_by_probe v evs \<longleftrightarrow>
    (\<exists>before env code after. evs = before @ (env, Ue_probe v Probe_available code) # after \<and>
       pr_inFlight (recordFor v (up_gate (upgrade_run before))))"

lemma open_was_found: "gate_open v (upgrade_run evs) \<Longrightarrow> found_by_probe v evs"
proof (induction evs rule: rev_induct)
  case Nil
  then show ?case by (simp add: upgrade_run_def upgrade_new_def gate_open_def recordFor_def new_publication_record_def)
next
  case (snoc x evs)
  obtain env ev where x: "x = (env, ev)" by fastforce
  have "gate_open v (upgrade_step (upgrade_run evs) (env, ev))" using snoc.prems by (simp add: upgrade_run_def x)
  then consider "gate_open v (upgrade_run evs)"
    | code where "ev = Ue_probe v Probe_available code" "pr_inFlight (recordFor v (up_gate (upgrade_run evs)))"
    using gate_open_step by blast
  then show ?case
  proof cases
    case 1
    then obtain b e c a where "evs = b @ (e, Ue_probe v Probe_available c) # a" "pr_inFlight (recordFor v (up_gate (upgrade_run b)))"
      using snoc.IH by (auto simp: found_by_probe_def)
    then show ?thesis unfolding found_by_probe_def by (intro exI [of _ b] exI [of _ e] exI [of _ c] exI [of _ "a @ [x]"]) simp
  next
    case 2
    then show ?thesis unfolding found_by_probe_def x by blast
  qed
qed

section \<open>What the coordinator promises\<close>

text \<open>
  C33. Nothing is sent before it can be downloaded: after every history, each upgrade message sent by a request that
  does not skip the gate names the latest release or a version of which a probe that the gate had in flight reported the
  package as found, earlier in that history.
\<close>

theorem sent_only_when_published:
  assumes "(client, skips, m) \<in> set (up_sent (upgrade_run evs))"
  shows "skips \<or> message_target m = daemon_upgrade_target_latest \<or> found_by_probe (message_target m) evs"
  using run_messages [OF assms] open_was_found [of "message_target m" evs]
  by (auto simp: message_inv_def published_def gate_open_def)

definition probed_upgrade :: "(upgrade_env \<times> upgrade_event) list" where
  "probed_upgrade =
    (let env = \<lparr>ue_now = 1, ue_ready = \<lambda>_. True, ue_stillCurrent = \<lambda>_. True\<rparr>
     in [(env, Ue_request \<lparr>ui_targetVersion = JStr ''1.2.3'', ui_source = Src_manual, ui_force = False,
            ui_skipPublicationGate = False, ui_client = 0\<rparr>), (env, Ue_probe ''1.2.3'' Probe_available (Some 200))])"

theorem sent_only_when_published_witness:
  "found_by_probe ''1.2.3'' probed_upgrade"
proof -
  have "up_sent (upgrade_run probed_upgrade) = [(0, False, \<lparr>um_upgradeId = 0, um_source = Src_manual, um_force = False,
      um_targetVersion = Some ''1.2.3''\<rparr>)]"
    by code_simp
  then have "(0, False, \<lparr>um_upgradeId = 0, um_source = Src_manual, um_force = False, um_targetVersion = Some ''1.2.3''\<rparr>)
      \<in> set (up_sent (upgrade_run probed_upgrade))"
    by simp
  from sent_only_when_published [OF this] show ?thesis
    by (simp add: message_target_def daemon_upgrade_target_latest_def)
qed

text \<open>
  Only operators force: a message is marked manual only when an operator asked for its target, and it forces only
  when an operator asked to force that target; automatic and replayed requests never force, nor do they take the
  operator's wish away.
\<close>

theorem manual_only_when_asked:
  "list_all (\<lambda>(client, skips, m). if um_source m = Src_manual then (message_target m, um_force m) \<in> asked_in evs else \<not> um_force m)
     (up_sent (upgrade_run evs))"
proof -
  have "if um_source m = Src_manual then (message_target m, um_force m) \<in> asked_in evs else \<not> um_force m"
    if "(c, k, m) \<in> set (up_sent (upgrade_run evs))" for c k m
  proof -
    have "um_source m = Src_manual \<longrightarrow> (message_target m, False) \<in> asked_in evs"
      and "um_force m \<longrightarrow> um_source m = Src_manual \<and> (message_target m, True) \<in> asked_in evs"
      using run_messages[OF that] unfolding message_inv_def prod.case by blast+
    then show ?thesis by (cases "um_force m") auto
  qed
  then show ?thesis by (auto simp: list_all_iff)
qed

text \<open>
  A lifecycle that was superseded or cleared never sends again: the ids of the messages, in the order in which they
  are sent, never go back.
\<close>

theorem superseded_never_sends:
  "sorted (map (\<lambda>(client, skips, m). um_upgradeId m) (up_sent (upgrade_run evs)))"
  using upgrade_run_ok[of evs] by (simp add: upgrade_inv_def)

text \<open>
  A lifecycle is delivered once, and once more at most for each receipt or restart that put a delivery back: requests,
  reconnects and publication callbacks never deliver it twice.
\<close>

theorem delivered_once_per_return:
  "deliveries h (upgrade_run evs) \<le> 1 + returns evs"
proof (cases "h < length (up_states (upgrade_run evs))")
  case True
  then have "deliveries h (upgrade_run evs) + (if pending (us_status (state_at (upgrade_run evs) h)) then 1 else 0) \<le> 1 + returns evs"
    using upgrade_run_ok[of evs] unfolding upgrade_inv_def by blast
  then show ?thesis by linarith
next
  case False
  have "um_upgradeId m \<noteq> h" if "(c, k, m) \<in> set (up_sent (upgrade_run evs))" for c k m
    using run_messages[OF that] False by (auto simp: message_inv_def)
  then have "deliveries h (upgrade_run evs) = 0"
    by (auto simp: deliveries_def filter_empty_conv)
  then show ?thesis by simp
qed

section \<open>Terminal blocks\<close>

definition blocked :: "nat \<Rightarrow> string \<Rightarrow> upgrade_system \<Rightarrow> bool" where
  "blocked h v s \<longleftrightarrow> up_current s = Some h \<and> h < length (up_states s) \<and> us_status (state_at s h) = Up_terminal_blocked \<and>
     us_targetVersion (state_at s h) = v"

text \<open>Events that are neither an operator's request nor the end of the block nor about another target.\<close>

definition keeps_block :: "string \<Rightarrow> upgrade_event \<Rightarrow> bool" where
  "keeps_block v e \<longleftrightarrow> (case e of
       Ue_request inp \<Rightarrow> ui_source inp \<noteq> Src_manual \<and> normalizeDaemonUpgradeTargetVersion (ui_targetVersion inp) \<in> {None, Some v}
     | Ue_block w \<Rightarrow> normalizeDaemonUpgradeTargetVersion w \<in> {None, Some v}
     | Ue_release_block w \<Rightarrow> normalizeDaemonUpgradeTargetVersion w \<noteq> Some v
     | Ue_clear w \<Rightarrow> (case w of None \<Rightarrow> True | Some t \<Rightarrow> t = [] \<or> normalizeDaemonUpgradeTargetVersion (JStr t) \<noteq> Some v)
     | _ \<Rightarrow> True)"

lemma blocked_set:
  "blocked h v s \<Longrightarrow> us_status st = us_status (state_at s k) \<Longrightarrow> us_targetVersion st = us_targetVersion (state_at s k) \<Longrightarrow>
   blocked h v (set_state k st s)"
  by (cases "k = h") (simp_all add: blocked_def)

lemma blocked_gate [simp]: "blocked h v (s\<lparr>up_gate := g\<rparr>) = blocked h v s"
  by (simp add: blocked_def)

lemma blocked_callback:
  assumes "blocked h v s"
  shows "blocked h v (publication_callback env k s) \<and> up_sent (publication_callback env k s) = up_sent s"
proof -
  let ?q = "set_state k ((state_at s k)\<lparr>us_publicationCallbackRegistered := False, us_publicationResumeInput := None\<rparr>) s"
  have q: "blocked h v ?q" using assms by (intro blocked_set) simp_all
  have "resumeAfterPublication env k inp ?q = ?q" for inp
    using q by (auto simp: resumeAfterPublication_def blocked_def)
  then show ?thesis using q by (simp add: publication_callback_def Let_def split: option.split)
qed

lemma blocked_callbacks:
  "blocked h v s \<Longrightarrow> blocked h v (fold (publication_callback env) hs s) \<and> up_sent (fold (publication_callback env) hs s) = up_sent s"
proof (induction hs arbitrary: s)
  case (Cons k hs)
  then show ?case using blocked_callback[OF Cons.prems, of env k] by simp
qed simp

lemma blocked_probe:
  "blocked h v s \<Longrightarrow> blocked h v (gate_probe_result env w status code s) \<and> up_sent (gate_probe_result env w status code s) = up_sent s"
proof -
  assume b: "blocked h v s"
  have "blocked h v (markPublished env w (s\<lparr>up_gate := g\<rparr>)) \<and> up_sent (markPublished env w (s\<lparr>up_gate := g\<rparr>)) = up_sent s" for g
    using blocked_callbacks[of h v "s\<lparr>up_gate := g'\<rparr>" env "pr_callbacks (recordFor w g)" for g'] b
    by (simp add: markPublished_def Let_def)
  then show ?thesis using b by (simp add: gate_probe_result_def Let_def split: option.split)
qed

lemma blocked_current: "blocked h v s \<Longrightarrow> current_for w s = (if w = v then Some h else None)"
  by (auto simp: blocked_def current_for_def)

lemma blocked_request:
  "blocked h v s \<Longrightarrow> keeps_block v (Ue_request inp) \<Longrightarrow> snd (upgrade_request env inp s) = s"
  by (auto simp: keeps_block_def upgrade_request_def blocked_current Let_def) (auto simp: blocked_def)

lemma blocked_again:
  assumes "blocked h v s" and "keeps_block v (Ue_block w)"
  shows "blocked h v (snd (blockTargetAfterTerminalFailure w now s)) \<and>
    up_sent (snd (blockTargetAfterTerminalFailure w now s)) = up_sent s"
proof (cases "normalizeDaemonUpgradeTargetVersion w")
  case (Some u)
  then have u: "u = v" using assms(2) by (simp add: keeps_block_def)
  have l: "lifecycle_for (up_current s) v Src_replay Up_terminal_blocked now s = (h, s)"
    using assms(1) by (auto simp: lifecycle_for_def blocked_def)
  let ?st = "(state_at s h)\<lparr>us_status := Up_terminal_blocked, us_updatedAt := now, us_publicationResumeInput := None,
    us_publicationCallbackRegistered := False\<rparr>"
  have "snd (blockTargetAfterTerminalFailure w now s) = set_state h ?st s"
    using Some u blocked_current[OF assms(1), of v] by (simp add: blockTargetAfterTerminalFailure_def Let_def l)
  moreover have "blocked h v (set_state h ?st s)" using assms(1) by (intro blocked_set) (simp_all add: blocked_def)
  ultimately show ?thesis by simp
qed (simp add: blockTargetAfterTerminalFailure_def assms)

lemma blocked_step:
  assumes b: "blocked h v s" and k: "keeps_block v (snd ev)"
  shows "blocked h v (upgrade_step s ev) \<and> up_sent (upgrade_step s ev) = up_sent s"
proof -
  obtain env e where ev: "ev = (env, e)" by fastforce
  have cur: "up_current s = Some h" "us_status (state_at s h) = Up_terminal_blocked" using b by (simp_all add: blocked_def)
  show ?thesis
  proof (cases e)
    case (Ue_request inp)
    then show ?thesis using blocked_request[OF b] k b ev by simp
  next
    case (Ue_block w)
    then show ?thesis using blocked_again[OF b] k ev by simp
  next
    case (Ue_probe w status code)
    then show ?thesis using blocked_probe[OF b] ev by simp
  next
    case (Ue_release_block w)
    then show ?thesis using k b ev
      by (auto simp: keeps_block_def releaseTerminalBlock_def blocked_current[OF b] split: option.split)
  next
    case (Ue_clear w)
    then show ?thesis using k b ev
      by (auto simp: keeps_block_def clearIfTargetVersionMatches_def blocked_current[OF b] split: option.splits)
  qed (use cur b ev in \<open>auto simp: flushPending_def releaseSentLifecycle_def deferAfterTransientBlock_def
      prepareRetryAfterDaemonRestart_def prepareForLatchRescueRestart_def gate_retry_def Let_def split: option.split\<close>)
qed

text \<open>
  C34. A terminal failure is not retried behind the operator's back: while there is no request by hand, no
  request and no failure report for another target, and no release or clearing of this target (\<open>keeps_block\<close>), nothing is sent
  and the block stays, whatever automatic requests, reconnects, flushes, receipts, probes and timers come.
\<close>

theorem terminal_block_holds:
  assumes "up_current s = Some h" and "h < length (up_states s)" and "us_status (state_at s h) = Up_terminal_blocked"
    and "list_all (\<lambda>ev. keeps_block (us_targetVersion (state_at s h)) (snd ev)) evs"
  shows "up_sent (foldl upgrade_step s evs) = up_sent s \<and> up_current (foldl upgrade_step s evs) = Some h \<and>
    us_status (state_at (foldl upgrade_step s evs) h) = Up_terminal_blocked"
proof -
  have "blocked h v (foldl upgrade_step t evs) \<and> up_sent (foldl upgrade_step t evs) = up_sent t"
    if "blocked h v t" "list_all (\<lambda>ev. keeps_block v (snd ev)) evs" for v t
    using that
  proof (induction evs arbitrary: t)
    case (Cons ev evs)
    then show ?case using blocked_step[OF Cons.prems(1), of ev] by simp
  qed simp
  moreover have "blocked h (us_targetVersion (state_at s h)) s" using assms(1-3) by (simp add: blocked_def)
  ultimately show ?thesis using assms(4) by (auto simp: blocked_def)
qed

definition upgrade_example_env :: upgrade_env where
  "upgrade_example_env = \<lparr>ue_now = 7, ue_ready = (\<lambda>_. True), ue_stillCurrent = (\<lambda>_. True)\<rparr>"

definition auto_request :: "string \<Rightarrow> upgrade_input" where
  "auto_request v = \<lparr>ui_targetVersion = JStr v, ui_source = Src_auto, ui_force = False, ui_skipPublicationGate = False, ui_client = 1\<rparr>"

definition blocked_example :: upgrade_system where
  "blocked_example = upgrade_run [(upgrade_example_env, Ue_block (JStr ''2026.5.1''))]"

theorem terminal_block_holds_witness:
  "up_sent (foldl upgrade_step blocked_example
     [(upgrade_example_env, Ue_request (auto_request ''2026.5.1'')), (upgrade_example_env, Ue_flush 1 True)]) = []"
proof -
  have "up_current blocked_example = Some 0" "0 < length (up_states blocked_example)"
    "us_status (state_at blocked_example 0) = Up_terminal_blocked" "us_targetVersion (state_at blocked_example 0) = ''2026.5.1''"
    "up_sent blocked_example = []"
    by code_simp+
  moreover have "normalizeDaemonUpgradeTargetVersion (JStr ''2026.5.1'') = Some ''2026.5.1''" by code_simp
  ultimately show ?thesis
    using terminal_block_holds[of blocked_example 0 "[(upgrade_example_env, Ue_request (auto_request ''2026.5.1'')), (upgrade_example_env, Ue_flush 1 True)]"]
    by (simp add: keeps_block_def auto_request_def)
qed

end
