(* ===== verification/P2pWorkflow.thy ===== *)
theory P2pWorkflow
  imports JsValue StableSort "HOL-Library.Word"
begin

text \<open>
  The vocabulary of the peer-to-peer workflows under \<open>src/shared\<close>: the closed lists of
  \<open>p2p-workflow-constants.ts\<close>, the drafts and contracts of \<open>p2p-workflow-types.ts\<close>, the diagnostics of
  \<open>p2p-workflow-diagnostics.ts\<close>, canonical JSON and the policy hash of \<open>p2p-workflow-policy.ts\<close>, the artifact
  paths of \<open>p2p-workflow-artifact-paths.ts\<close> and the rules of a logic node (\<open>p2p-workflow-logic-evaluator.ts\<close>).
\<close>

unbundle bit_operations_syntax

section \<open>Closed lists\<close>

datatype node_kind = Nk_llm | Nk_logic | Nk_script

datatype preset_key = Pk_brainstorm | Pk_discuss | Pk_audit | Pk_review | Pk_plan | Pk_openspec_propose
  | Pk_proposal_audit | Pk_implementation | Pk_implementation_audit | Pk_custom

datatype dispatch_style = Ds_single_main | Ds_multi_dispatch

datatype edge_kind = Ek_default | Ek_conditional

datatype condition_kind = Ck_routing_key_equals | Ck_verdict_marker_equals | Ck_logic_marker_equals

datatype permission_scope = Ps_analysis_only | Ps_artifact_generation | Ps_implementation

datatype artifact_convention = Ac_none | Ac_explicit_paths | Ac_openspec_convention

definition p2p_node_kinds :: "(string \<times> node_kind) list" where
  "p2p_node_kinds = [(''llm'', Nk_llm), (''logic'', Nk_logic), (''script'', Nk_script)]"

definition p2p_preset_keys :: "(string \<times> preset_key) list" where
  "p2p_preset_keys =
    [(''brainstorm'', Pk_brainstorm), (''discuss'', Pk_discuss), (''audit'', Pk_audit), (''review'', Pk_review),
     (''plan'', Pk_plan), (''openspec_propose'', Pk_openspec_propose), (''proposal_audit'', Pk_proposal_audit),
     (''implementation'', Pk_implementation), (''implementation_audit'', Pk_implementation_audit),
     (''custom'', Pk_custom)]"

definition p2p_dispatch_styles :: "(string \<times> dispatch_style) list" where
  "p2p_dispatch_styles = [(''single_main'', Ds_single_main), (''multi_dispatch'', Ds_multi_dispatch)]"

definition p2p_edge_kinds :: "(string \<times> edge_kind) list" where
  "p2p_edge_kinds = [(''default'', Ek_default), (''conditional'', Ek_conditional)]"

definition p2p_condition_kinds :: "(string \<times> condition_kind) list" where
  "p2p_condition_kinds =
    [(''routing_key_equals'', Ck_routing_key_equals), (''verdict_marker_equals'', Ck_verdict_marker_equals),
     (''logic_marker_equals'', Ck_logic_marker_equals)]"

definition p2p_permission_scopes :: "(string \<times> permission_scope) list" where
  "p2p_permission_scopes =
    [(''analysis_only'', Ps_analysis_only), (''artifact_generation'', Ps_artifact_generation),
     (''implementation'', Ps_implementation)]"

definition p2p_artifact_conventions :: "(string \<times> artifact_convention) list" where
  "p2p_artifact_conventions =
    [(''none'', Ac_none), (''explicit_paths'', Ac_explicit_paths), (''openspec_convention'', Ac_openspec_convention)]"

definition p2p_start_context_source_kinds :: "string list" where
  "p2p_start_context_source_kinds =
    [''current_prompt'', ''associated_discussion_file'', ''recent_discussion_history'', ''file_reference'']"

definition p2p_workflow_kinds :: "string list" where
  "p2p_workflow_kinds = [''legacy'', ''combo'', ''advanced'']"

definition cap_workflow :: string where "cap_workflow = ''p2p.workflow.v1''"
definition cap_script_argv :: string where "cap_script_argv = ''p2p.workflow.script.argv.v1''"
definition cap_script_interpreter :: string where "cap_script_interpreter = ''p2p.workflow.script.interpreter.v1''"
definition cap_openspec_artifacts :: string where "cap_openspec_artifacts = ''p2p.workflow.openspec-artifacts.v1''"
definition cap_implementation :: string where "cap_implementation = ''p2p.workflow.implementation.v1''"

definition p2p_workflow_capabilities :: "string list" where
  "p2p_workflow_capabilities =
    [cap_workflow, cap_script_argv, cap_script_interpreter, cap_openspec_artifacts, cap_implementation]"

definition preset_default_permission_scope :: "preset_key \<Rightarrow> permission_scope" where
  "preset_default_permission_scope p =
    (case p of Pk_openspec_propose \<Rightarrow> Ps_artifact_generation | Pk_implementation \<Rightarrow> Ps_implementation
     | _ \<Rightarrow> Ps_analysis_only)"

definition preset_default_dispatch_style :: "preset_key \<Rightarrow> dispatch_style" where
  "preset_default_dispatch_style p =
    (if p \<in> {Pk_brainstorm, Pk_discuss, Pk_audit, Pk_review, Pk_plan} then Ds_multi_dispatch else Ds_single_main)"

text \<open>The value a JSON value names in a closed list; \<open>isOneOf(value, values)\<close> asks for one.\<close>

definition read_enum :: "(string \<times> 'a) list \<Rightarrow> json \<Rightarrow> 'a option" where
  "read_enum table v = (case v of JStr s \<Rightarrow> map_of table s | _ \<Rightarrow> None)"

definition isOneOf :: "json \<Rightarrow> (string \<times> 'a) list \<Rightarrow> bool" where
  "isOneOf v table \<longleftrightarrow> read_enum table v \<noteq> None"

text \<open>The literal an enumeration value is written as; the tables hold every value, so there is one.\<close>

definition enum_name :: "(string \<times> 'a) list \<Rightarrow> 'a \<Rightarrow> string" where
  "enum_name table x = (case filter (\<lambda>(n, y). y = x) table of (n, y) # rest \<Rightarrow> n | [] \<Rightarrow> [])"

section \<open>Diagnostics\<close>

datatype diagnostic_code =
  Dc_forbidden_envelope_field | Dc_unsupported_schema_version | Dc_unknown_future_schema_read_only
  | Dc_mixed_advanced_schema_fields | Dc_static_policy_mismatch_recompiled | Dc_missing_required_capability
  | Dc_capability_stale | Dc_capability_downgraded_during_run | Dc_invalid_launch_envelope
  | Dc_invalid_workflow_graph | Dc_invalid_routing_authority | Dc_invalid_edge_condition
  | Dc_loop_budget_exhausted | Dc_invalid_workflow_variable | Dc_invalid_prompt_append
  | Dc_missing_context_source | Dc_context_source_too_large | Dc_unsafe_artifact_path
  | Dc_artifact_identity_collision_resolved | Dc_artifact_baseline_too_large | Dc_artifact_baseline_mismatch
  | Dc_artifact_contract_not_satisfied | Dc_invalid_script_contract | Dc_script_executable_denied
  | Dc_script_machine_output_invalid | Dc_script_timeout | Dc_script_cancelled | Dc_daemon_busy
  | Dc_workflow_stale_after_restart | Dc_private_projection_field_dropped
  | Dc_legacy_progress_snapshot_sanitized | Dc_unknown_p2p_message | Dc_unmatched_edge_route

datatype diagnostic_phase = Dp_parse | Dp_compile | Dp_bind | Dp_execute | Dp_project | Dp_sanitize
  | Dp_server_ingress | Dp_web_validate

datatype diagnostic_severity = Sev_info | Sev_warning | Sev_error

definition diagnostic_code_names :: "(string \<times> diagnostic_code) list" where
  "diagnostic_code_names =
    [(''forbidden_envelope_field'', Dc_forbidden_envelope_field),
     (''unsupported_schema_version'', Dc_unsupported_schema_version),
     (''unknown_future_schema_read_only'', Dc_unknown_future_schema_read_only),
     (''mixed_advanced_schema_fields'', Dc_mixed_advanced_schema_fields),
     (''static_policy_mismatch_recompiled'', Dc_static_policy_mismatch_recompiled),
     (''missing_required_capability'', Dc_missing_required_capability),
     (''capability_stale'', Dc_capability_stale),
     (''capability_downgraded_during_run'', Dc_capability_downgraded_during_run),
     (''invalid_launch_envelope'', Dc_invalid_launch_envelope),
     (''invalid_workflow_graph'', Dc_invalid_workflow_graph),
     (''invalid_routing_authority'', Dc_invalid_routing_authority),
     (''invalid_edge_condition'', Dc_invalid_edge_condition),
     (''loop_budget_exhausted'', Dc_loop_budget_exhausted),
     (''invalid_workflow_variable'', Dc_invalid_workflow_variable),
     (''invalid_prompt_append'', Dc_invalid_prompt_append),
     (''missing_context_source'', Dc_missing_context_source),
     (''context_source_too_large'', Dc_context_source_too_large),
     (''unsafe_artifact_path'', Dc_unsafe_artifact_path),
     (''artifact_identity_collision_resolved'', Dc_artifact_identity_collision_resolved),
     (''artifact_baseline_too_large'', Dc_artifact_baseline_too_large),
     (''artifact_baseline_mismatch'', Dc_artifact_baseline_mismatch),
     (''artifact_contract_not_satisfied'', Dc_artifact_contract_not_satisfied),
     (''invalid_script_contract'', Dc_invalid_script_contract),
     (''script_executable_denied'', Dc_script_executable_denied),
     (''script_machine_output_invalid'', Dc_script_machine_output_invalid),
     (''script_timeout'', Dc_script_timeout),
     (''script_cancelled'', Dc_script_cancelled),
     (''daemon_busy'', Dc_daemon_busy),
     (''workflow_stale_after_restart'', Dc_workflow_stale_after_restart),
     (''private_projection_field_dropped'', Dc_private_projection_field_dropped),
     (''legacy_progress_snapshot_sanitized'', Dc_legacy_progress_snapshot_sanitized),
     (''unknown_p2p_message'', Dc_unknown_p2p_message),
     (''unmatched_edge_route'', Dc_unmatched_edge_route)]"

fun diagnostic_phase_matrix :: "diagnostic_code \<Rightarrow> diagnostic_phase list" where
  "diagnostic_phase_matrix Dc_forbidden_envelope_field = [Dp_parse]"
| "diagnostic_phase_matrix Dc_unsupported_schema_version = [Dp_parse, Dp_web_validate]"
| "diagnostic_phase_matrix Dc_unknown_future_schema_read_only = [Dp_web_validate]"
| "diagnostic_phase_matrix Dc_mixed_advanced_schema_fields = [Dp_parse, Dp_web_validate]"
| "diagnostic_phase_matrix Dc_static_policy_mismatch_recompiled = [Dp_bind]"
| "diagnostic_phase_matrix Dc_missing_required_capability = [Dp_bind, Dp_execute, Dp_web_validate]"
| "diagnostic_phase_matrix Dc_capability_stale = [Dp_bind, Dp_web_validate]"
| "diagnostic_phase_matrix Dc_capability_downgraded_during_run = [Dp_execute]"
| "diagnostic_phase_matrix Dc_invalid_launch_envelope = [Dp_parse]"
| "diagnostic_phase_matrix Dc_invalid_workflow_graph = [Dp_compile]"
| "diagnostic_phase_matrix Dc_invalid_routing_authority = [Dp_compile]"
| "diagnostic_phase_matrix Dc_invalid_edge_condition = [Dp_compile]"
| "diagnostic_phase_matrix Dc_loop_budget_exhausted = [Dp_execute]"
| "diagnostic_phase_matrix Dc_invalid_workflow_variable = [Dp_compile, Dp_execute]"
| "diagnostic_phase_matrix Dc_invalid_prompt_append = [Dp_compile]"
| "diagnostic_phase_matrix Dc_missing_context_source = [Dp_bind, Dp_execute]"
| "diagnostic_phase_matrix Dc_context_source_too_large = [Dp_bind, Dp_execute]"
| "diagnostic_phase_matrix Dc_unsafe_artifact_path = [Dp_compile, Dp_bind, Dp_execute]"
| "diagnostic_phase_matrix Dc_artifact_identity_collision_resolved = [Dp_bind]"
| "diagnostic_phase_matrix Dc_artifact_baseline_too_large = [Dp_bind]"
| "diagnostic_phase_matrix Dc_artifact_baseline_mismatch = [Dp_execute]"
| "diagnostic_phase_matrix Dc_artifact_contract_not_satisfied = [Dp_execute]"
| "diagnostic_phase_matrix Dc_invalid_script_contract = [Dp_compile, Dp_bind]"
| "diagnostic_phase_matrix Dc_script_executable_denied = [Dp_bind, Dp_execute]"
| "diagnostic_phase_matrix Dc_script_machine_output_invalid = [Dp_execute]"
| "diagnostic_phase_matrix Dc_script_timeout = [Dp_execute]"
| "diagnostic_phase_matrix Dc_script_cancelled = [Dp_execute]"
| "diagnostic_phase_matrix Dc_daemon_busy = [Dp_bind]"
| "diagnostic_phase_matrix Dc_workflow_stale_after_restart = [Dp_bind, Dp_execute]"
| "diagnostic_phase_matrix Dc_private_projection_field_dropped = [Dp_sanitize]"
| "diagnostic_phase_matrix Dc_legacy_progress_snapshot_sanitized = [Dp_sanitize]"
| "diagnostic_phase_matrix Dc_unknown_p2p_message = [Dp_server_ingress]"
| "diagnostic_phase_matrix Dc_unmatched_edge_route = [Dp_execute]"

definition warning_codes :: "diagnostic_code set" where
  "warning_codes = {Dc_artifact_identity_collision_resolved, Dc_static_policy_mismatch_recompiled,
     Dc_private_projection_field_dropped, Dc_legacy_progress_snapshot_sanitized}"

record diagnostic_extras =
  dx_summary :: "string option"
  dx_nodeId :: "string option"
  dx_runId :: "string option"
  dx_fieldPath :: "string option"

record workflow_diagnostic = diagnostic_extras +
  wd_code :: diagnostic_code
  wd_phase :: diagnostic_phase
  wd_severity :: diagnostic_severity
  wd_messageKey :: string

text \<open>The extras the code passes: a path, a summary, both or none.\<close>

definition no_extras :: diagnostic_extras where
  "no_extras = \<lparr>dx_summary = None, dx_nodeId = None, dx_runId = None, dx_fieldPath = None\<rparr>"

definition at_field :: "string \<Rightarrow> diagnostic_extras" where
  "at_field path = no_extras\<lparr>dx_fieldPath := Some path\<rparr>"

definition with_summary :: "string \<Rightarrow> diagnostic_extras" where
  "with_summary text' = no_extras\<lparr>dx_summary := Some text'\<rparr>"

definition at_field_because :: "string \<Rightarrow> string \<Rightarrow> diagnostic_extras" where
  "at_field_because path text' = no_extras\<lparr>dx_summary := Some text', dx_fieldPath := Some path\<rparr>"

definition makeP2pWorkflowDiagnostic ::
  "diagnostic_code \<Rightarrow> diagnostic_phase option \<Rightarrow> diagnostic_extras \<Rightarrow> workflow_diagnostic" where
  "makeP2pWorkflowDiagnostic code phase ex =
    diagnostic_extras.extend ex
      \<lparr>wd_code = code,
       wd_phase = (case phase of Some p \<Rightarrow> p | None \<Rightarrow> hd (diagnostic_phase_matrix code)),
       wd_severity = (if code \<in> warning_codes then Sev_warning else Sev_error),
       wd_messageKey = ''p2p.workflow.diagnostics.'' @ enum_name diagnostic_code_names code\<rparr>"

definition makeP2pWorkflowWarning ::
  "diagnostic_code \<Rightarrow> diagnostic_phase option \<Rightarrow> diagnostic_extras \<Rightarrow> workflow_diagnostic" where
  "makeP2pWorkflowWarning code phase ex = (makeP2pWorkflowDiagnostic code phase ex)\<lparr>wd_severity := Sev_warning\<rparr>"

abbreviation diag :: "diagnostic_code \<Rightarrow> diagnostic_phase \<Rightarrow> diagnostic_extras \<Rightarrow> workflow_diagnostic" where
  "diag code phase ex \<equiv> makeP2pWorkflowDiagnostic code (Some phase) ex"

text \<open>\<open>diagnostics.some((diagnostic) => diagnostic.severity === 'error')\<close>\<close>

definition has_error :: "workflow_diagnostic list \<Rightarrow> bool" where
  "has_error ds \<longleftrightarrow> list_ex (\<lambda>d. wd_severity d = Sev_error) ds"

lemma diagnostic_simps [simp]:
  "wd_code (makeP2pWorkflowDiagnostic c p ex) = c"
  "wd_severity (makeP2pWorkflowDiagnostic c p ex) = (if c \<in> warning_codes then Sev_warning else Sev_error)"
  "wd_phase (makeP2pWorkflowDiagnostic c (Some ph) ex) = ph"
  "dx_fieldPath (makeP2pWorkflowDiagnostic c p ex) = dx_fieldPath ex"
  "dx_runId (makeP2pWorkflowDiagnostic c p ex) = dx_runId ex"
  "wd_code (makeP2pWorkflowWarning c p ex) = c"
  "wd_severity (makeP2pWorkflowWarning c p ex) = Sev_warning"
  by (simp_all add: makeP2pWorkflowDiagnostic_def makeP2pWorkflowWarning_def diagnostic_extras.defs)

lemma has_error_simps [simp]:
  "\<not> has_error []"
  "has_error (d # ds) \<longleftrightarrow> wd_severity d = Sev_error \<or> has_error ds"
  "has_error (ds @ es) \<longleftrightarrow> has_error ds \<or> has_error es"
  by (auto simp: has_error_def)

section \<open>Canonical JSON and its hash\<close>

text \<open>
  \<open>canonicalize\<close>: the members of every object in the order of their names, without those that are
  \<open>undefined\<close>.  (An engine prints members with integer names first; no object that is hashed here has one but
  for the ids of edges.)
\<close>

fun canonicalize :: "json \<Rightarrow> json" where
  "canonicalize JUndefined = JNull"
| "canonicalize JNull = JNull"
| "canonicalize (JBool b) = JBool b"
| "canonicalize (JNum n) = JNum n"
| "canonicalize (JStr s) = JStr s"
| "canonicalize (JArr xs) = JArr (map canonicalize xs)"
| "canonicalize (JObj kvs) =
     JObj (sort_key fst (map (\<lambda>(k, v). (k, canonicalize v)) (filter (\<lambda>(k, v). v \<noteq> JUndefined) kvs)))"

text \<open>\<open>JSON.stringify\<close>, on values without \<open>undefined\<close>.\<close>

definition hex_digit :: "nat \<Rightarrow> char" where
  "hex_digit d = (if d < 10 then char_of (48 + d) else char_of (87 + d))"

definition nul :: char where "nul = char_of (0::nat)"
definition back_slash :: char where "back_slash = char_of (92::nat)"
definition double_quote :: char where "double_quote = char_of (34::nat)"

definition json_escape :: "char \<Rightarrow> string" where
  "json_escape c =
    (let n = char_code c :: nat in
     if n = 34 then [back_slash, c] else if n = 92 then [c, c]
     else if n = 8 then [back_slash, CHR ''b''] else if n = 12 then [back_slash, CHR ''f'']
     else if n = 10 then [back_slash, CHR ''n''] else if n = 13 then [back_slash, CHR ''r'']
     else if n = 9 then [back_slash, CHR ''t'']
     else if n < 32 then back_slash # ''u00'' @ [hex_digit (n div 16), hex_digit (n mod 16)]
     else [c])"

definition json_quote :: "string \<Rightarrow> string" where
  "json_quote s = double_quote # concat (map json_escape s) @ [double_quote]"

fun json_text :: "json \<Rightarrow> string" where
  "json_text JUndefined = ''null''"
| "json_text JNull = ''null''"
| "json_text (JBool b) = (if b then ''true'' else ''false'')"
| "json_text (JNum (JFin i)) = int_str i"
| "json_text (JNum _) = ''null''"
| "json_text (JStr s) = json_quote s"
| "json_text (JArr xs) = ''['' @ js_join '','' (map json_text xs) @ '']''"
| "json_text (JObj kvs) =
     ''{'' @ js_join '','' (map (\<lambda>(k, v). json_quote k @ '':'' @ json_text v) kvs) @ ''}''"

definition stableStringify :: "json \<Rightarrow> string" where
  "stableStringify v = json_text (canonicalize v)"

text \<open>FNV-1a on 64 bits, printed with sixteen hexadecimal digits.\<close>

fun hex_str :: "nat \<Rightarrow> string" where
  "hex_str n = (if n < 16 then [hex_digit n] else hex_str (n div 16) @ [hex_digit (n mod 16)])"

declare hex_str.simps [simp del]

definition fnv_step :: "64 word \<Rightarrow> char \<Rightarrow> 64 word" where
  "fnv_step h c = (h XOR of_nat (char_code c)) * 0x100000001b3"

definition stableHash :: "string \<Rightarrow> string" where
  "stableHash s =
    (let hex = hex_str (unat (foldl fnv_step 0xcbf29ce484222325 s))
     in ''fnv1a64:'' @ replicate (16 - length hex) CHR ''0'' @ hex)"

section \<open>Static policy\<close>

record static_policy =
  sp_policyVersion :: int
  sp_maxNodes :: int
  sp_maxEdges :: int
  sp_maxLoopBudget :: int
  sp_allowedExecutables :: "string list"
  sp_allowInterpreterScripts :: bool
  sp_allowOpenSpecArtifacts :: bool
  sp_allowImplementationPermission :: bool
  sp_maxPromptAppendBytes :: int
  sp_maxAdvancedRuns :: int
  sp_maxScripts :: int
  sp_policyHash :: "string option"

definition max_prompt_append_bytes :: int where
  "max_prompt_append_bytes = 16 * 1024"

definition default_p2p_static_policy :: static_policy where
  "default_p2p_static_policy =
    \<lparr>sp_policyVersion = 1, sp_maxNodes = 64, sp_maxEdges = 128, sp_maxLoopBudget = 8, sp_allowedExecutables = [],
     sp_allowInterpreterScripts = False, sp_allowOpenSpecArtifacts = False,
     sp_allowImplementationPermission = False, sp_maxPromptAppendBytes = max_prompt_append_bytes,
     sp_maxAdvancedRuns = 2, sp_maxScripts = 4, sp_policyHash = None\<rparr>"

text \<open>\<open>Array.prototype.sort\<close> on strings: the order of their code units.\<close>

definition canonicalizeP2pStaticPolicy :: "static_policy \<Rightarrow> static_policy" where
  "canonicalizeP2pStaticPolicy p =
    p\<lparr>sp_policyHash := None, sp_allowedExecutables := sort (sp_allowedExecutables p)\<rparr>"

definition jint :: "int \<Rightarrow> json" where "jint i = JNum (JFin i)"

definition policy_json :: "static_policy \<Rightarrow> json" where
  "policy_json p =
    JObj ([(''policyVersion'', jint (sp_policyVersion p)), (''maxNodes'', jint (sp_maxNodes p)),
      (''maxEdges'', jint (sp_maxEdges p)), (''maxLoopBudget'', jint (sp_maxLoopBudget p)),
      (''allowedExecutables'', JArr (map JStr (sp_allowedExecutables p))),
      (''allowInterpreterScripts'', JBool (sp_allowInterpreterScripts p)),
      (''allowOpenSpecArtifacts'', JBool (sp_allowOpenSpecArtifacts p)),
      (''allowImplementationPermission'', JBool (sp_allowImplementationPermission p)),
      (''maxPromptAppendBytes'', jint (sp_maxPromptAppendBytes p)),
      (''concurrency'', JObj [(''maxAdvancedRuns'', jint (sp_maxAdvancedRuns p)), (''maxScripts'', jint (sp_maxScripts p))])]
     @ opt_member ''policyHash'' JStr (sp_policyHash p))"

definition hashP2pStaticPolicy :: "static_policy \<Rightarrow> string" where
  "hashP2pStaticPolicy p = stableHash (stableStringify (policy_json (canonicalizeP2pStaticPolicy p)))"

text \<open>
  \<open>buildDefaultP2pStaticPolicy(overrides)\<close>: the argument is the default policy with the overrides; whatever hash
  they carry is replaced by the hash of the rest.
\<close>

definition buildDefaultP2pStaticPolicy :: "static_policy \<Rightarrow> static_policy" where
  "buildDefaultP2pStaticPolicy p = p\<lparr>sp_policyHash := Some (hashP2pStaticPolicy p)\<rparr>"

section \<open>Artifact paths\<close>

definition is_letter :: "char \<Rightarrow> bool" where
  "is_letter c \<longleftrightarrow> is_lower c \<or> is_upper c"

text \<open>\<open>/^[a-zA-Z]:/\<close>\<close>

definition drive_prefix :: "string \<Rightarrow> bool" where
  "drive_prefix p = (case p of c # d # rest \<Rightarrow> is_letter c \<and> d = CHR '':'' | _ \<Rightarrow> False)"

definition isP2pArtifactRelativePath :: "string \<Rightarrow> bool" where
  "isP2pArtifactRelativePath p =
    (if p = [] \<or> nul \<in> set p then False
     else if starts_with p ''/'' \<or> starts_with p ''~'' \<or> back_slash \<in> set p then False
     else if drive_prefix p \<or> starts_with p ''//'' then False
     else list_all (\<lambda>s. s \<noteq> [] \<and> s \<noteq> ''.'' \<and> s \<noteq> ''..'') (js_split CHR ''/'' p))"

definition getP2pArtifactPathDepth :: "string \<Rightarrow> int" where
  "getP2pArtifactPathDepth p = int (length (filter (\<lambda>s. s \<noteq> []) (js_split CHR ''/'' p)))"

definition isSafeRelativeArtifactPath :: "string \<Rightarrow> bool" where
  "isSafeRelativeArtifactPath p =
    (if p = [] \<or> starts_with p ''/'' \<or> starts_with p ''~'' \<or> nul \<in> set p \<or> back_slash \<in> set p then False
     else if drive_prefix p \<or> starts_with p ''//'' then False
     else list_all (\<lambda>s. s \<noteq> [] \<and> s \<noteq> ''.'' \<and> s \<noteq> ''..'') (js_split CHR ''/'' p))"

datatype 'a validation = V_ok 'a "workflow_diagnostic list" | V_bad "workflow_diagnostic list"

definition validateP2pArtifactRelativePath :: "json \<Rightarrow> string \<Rightarrow> string validation" where
  "validateP2pArtifactRelativePath input fieldPath =
    (case input of
       JStr p \<Rightarrow>
         if \<not> isP2pArtifactRelativePath p
         then V_bad [diag Dc_unsafe_artifact_path Dp_compile (at_field fieldPath)]
         else V_ok p []
     | _ \<Rightarrow> V_bad [diag Dc_unsafe_artifact_path Dp_compile
              (at_field_because fieldPath ''Artifact path must be a string.'')])"

section \<open>Logic nodes\<close>

datatype variable_value = Vv_str string | Vv_num js_number | Vv_bool bool | Vv_list "string list"

datatype logic_condition = Variable_equals string string | Variable_present string | Variable_truthy string

record logic_rule =
  lr_if :: "logic_condition option"
  lr_emit :: string

record logic_contract =
  lc_rules :: "logic_rule list"
  lc_default :: string

fun condition_name :: "logic_condition \<Rightarrow> string" where
  "condition_name (Variable_equals n e) = n"
| "condition_name (Variable_present n) = n"
| "condition_name (Variable_truthy n) = n"

definition prototype_pollution_keys :: "string set" where
  "prototype_pollution_keys = {''__proto__'', ''constructor'', ''prototype''}"

fun number_text :: "js_number \<Rightarrow> string" where
  "number_text (JFin i) = int_str i"
| "number_text JNaN = ''NaN''"
| "number_text JPosInf = ''Infinity''"
| "number_text JNegInf = ''-Infinity''"

definition stringifyVariable :: "variable_value \<Rightarrow> string" where
  "stringifyVariable v =
    (case v of Vv_str s \<Rightarrow> s | Vv_num n \<Rightarrow> number_text n | Vv_bool b \<Rightarrow> if b then ''true'' else ''false''
     | Vv_list xs \<Rightarrow> json_text (JArr (map JStr xs)))"

definition variable_truthy :: "variable_value \<Rightarrow> bool" where
  "variable_truthy v =
    (case v of Vv_str s \<Rightarrow> s \<noteq> [] | Vv_num n \<Rightarrow> n \<noteq> JFin 0 \<and> n \<noteq> JNaN | Vv_bool b \<Rightarrow> b | Vv_list xs \<Rightarrow> xs \<noteq> [])"

text \<open>The snapshot of the variables is an object without a prototype.\<close>

definition matchRule :: "logic_rule \<Rightarrow> (string \<rightharpoonup> variable_value) \<Rightarrow> bool" where
  "matchRule rule variables =
    (case lr_if rule of
       None \<Rightarrow> True
     | Some cond \<Rightarrow>
         if condition_name cond \<in> prototype_pollution_keys then False
         else (case variables (condition_name cond) of
             None \<Rightarrow> False
           | Some v \<Rightarrow> (case cond of
               Variable_present n \<Rightarrow> True
             | Variable_truthy n \<Rightarrow> variable_truthy v
             | Variable_equals n e \<Rightarrow> stringifyVariable v = e)))"

record logic_result =
  le_marker :: string
  le_matchedRuleIndex :: int

fun evaluate_from :: "int \<Rightarrow> logic_rule list \<Rightarrow> string \<Rightarrow> (string \<rightharpoonup> variable_value) \<Rightarrow> logic_result" where
  "evaluate_from i [] dflt variables = \<lparr>le_marker = dflt, le_matchedRuleIndex = - 1\<rparr>"
| "evaluate_from i (rule # rules) dflt variables =
     (if matchRule rule variables then \<lparr>le_marker = lr_emit rule, le_matchedRuleIndex = i\<rparr>
      else evaluate_from (i + 1) rules dflt variables)"

definition evaluateP2pLogic :: "logic_contract \<Rightarrow> (string \<rightharpoonup> variable_value) \<Rightarrow> logic_result" where
  "evaluateP2pLogic c variables = evaluate_from 0 (lc_rules c) (lc_default c) variables"

text \<open>\<open>/^[\x21-\x7e]+$/\<close>\<close>

definition visible_ascii :: "string \<Rightarrow> bool" where
  "visible_ascii s \<longleftrightarrow> s \<noteq> [] \<and> list_all (\<lambda>c. 33 \<le> char_code c \<and> char_code c \<le> 126) s"

definition isValidMarker :: "string \<Rightarrow> bool" where
  "isValidMarker s = (if s = [] \<or> 128 < length s then False else visible_ascii s)"

definition is_ident_start :: "char \<Rightarrow> bool" where "is_ident_start c \<longleftrightarrow> is_letter c \<or> c = CHR ''_''"
definition is_ident_char :: "char \<Rightarrow> bool" where "is_ident_char c \<longleftrightarrow> is_ident_start c \<or> is_digit c"

definition is_identifier :: "string \<Rightarrow> bool" where
  "is_identifier s = (case s of [] \<Rightarrow> False | c # cs \<Rightarrow> is_ident_start c \<and> list_all is_ident_char cs)"

record logic_issue =
  li_fieldPath :: string
  li_summary :: string

definition issue :: "string \<Rightarrow> string \<Rightarrow> logic_issue" where
  "issue path text' = \<lparr>li_fieldPath = path, li_summary = text'\<rparr>"

text \<open>A string a JSON value holds that passes a test, and the text of an index.\<close>

definition jstr_where :: "(string \<Rightarrow> bool) \<Rightarrow> json \<Rightarrow> bool" where
  "jstr_where P v = (case v of JStr s \<Rightarrow> P s | _ \<Rightarrow> False)"

definition at_index :: "string \<Rightarrow> nat \<Rightarrow> string" where
  "at_index path i = path @ ''['' @ nat_str i @ '']''"

definition validate_condition :: "json \<Rightarrow> string \<Rightarrow> logic_issue list" where
  "validate_condition cond path =
    (if jget cond ''kind'' \<notin> {JStr ''variable_equals'', JStr ''variable_present'', JStr ''variable_truthy''}
     then [issue (path @ ''.if.kind'') ''Unsupported condition kind.'']
     else
       (if \<not> jstr_where (\<lambda>n. length n \<noteq> 0 \<and> length n \<le> 64 \<and> is_identifier n \<and> n \<notin> prototype_pollution_keys)
              (jget cond ''name'')
        then [issue (path @ ''.if.name'') ''name must be a non-empty identifier and not a prototype-pollution key.''] else []) @
       (if jget cond ''kind'' = JStr ''variable_equals'' \<and> \<not> jstr_where (\<lambda>e. length e \<le> 128) (jget cond ''equals'')
        then [issue (path @ ''.if.equals'') ''equals must be a string of at most 128 bytes.''] else []))"

definition validateRule :: "json \<Rightarrow> string \<Rightarrow> logic_issue list" where
  "validateRule rule path =
    (if \<not> is_record rule then [issue path ''Rule must be an object.'']
     else
       (if \<not> jstr_where isValidMarker (jget rule ''emit'')
        then [issue (path @ ''.emit'') ''emit must be visible-ASCII (1-128 bytes).''] else []) @
       (if jget rule ''if'' = JUndefined then []
        else if \<not> is_record (jget rule ''if'')
        then [issue (path @ ''.if'') ''if clause must be an object when present.'']
        else validate_condition (jget rule ''if'') path))"

definition validateP2pLogicContract :: "json \<Rightarrow> string \<Rightarrow> logic_issue list" where
  "validateP2pLogicContract contract basePath =
    (if \<not> is_record contract then [issue basePath ''Logic contract must be an object.'']
     else if \<not> is_jarr (jget contract ''rules'') then [issue (basePath @ ''.rules'') ''rules must be an array.'']
     else
       (if 32 < length (jitems (jget contract ''rules''))
        then [issue (basePath @ ''.rules'') ''Logic node may declare at most 32 rules.''] else []) @
       (if \<not> jstr_where isValidMarker (jget contract ''default'')
        then [issue (basePath @ ''.default'') ''default marker must be visible-ASCII (1-128 bytes).''] else []) @
       concat (map (\<lambda>(i, rule). validateRule rule (at_index (basePath @ ''.rules'') i))
         (enumerate 0 (jitems (jget contract ''rules'')))))"

text \<open>A contract of the draft as the type \<open>P2pLogicNodeContract\<close> reads it.\<close>

definition read_condition :: "json \<Rightarrow> logic_condition option" where
  "read_condition v =
    (case (jget v ''kind'', jget v ''name'', jget v ''equals'') of
       (JStr k, JStr n, e) \<Rightarrow>
         if k = ''variable_present'' then Some (Variable_present n)
         else if k = ''variable_truthy'' then Some (Variable_truthy n)
         else if k = ''variable_equals'' then (case e of JStr s \<Rightarrow> Some (Variable_equals n s) | _ \<Rightarrow> None)
         else None
     | _ \<Rightarrow> None)"

definition read_rule :: "json \<Rightarrow> logic_rule option" where
  "read_rule v =
    (case jget v ''emit'' of
       JStr e \<Rightarrow>
         if jget v ''if'' = JUndefined then Some \<lparr>lr_if = None, lr_emit = e\<rparr>
         else map_option (\<lambda>c. \<lparr>lr_if = Some c, lr_emit = e\<rparr>) (read_condition (jget v ''if''))
     | _ \<Rightarrow> None)"

fun read_all :: "('a \<Rightarrow> 'b option) \<Rightarrow> 'a list \<Rightarrow> 'b list option" where
  "read_all f [] = Some []"
| "read_all f (x # xs) =
     (case f x of None \<Rightarrow> None | Some y \<Rightarrow> map_option (\<lambda>ys. y # ys) (read_all f xs))"

definition read_logic :: "json \<Rightarrow> logic_contract option" where
  "read_logic v =
    (case (jget v ''rules'', jget v ''default'') of
       (JArr rs, JStr d) \<Rightarrow> map_option (\<lambda>rules. \<lparr>lc_rules = rules, lc_default = d\<rparr>) (read_all read_rule rs)
     | _ \<Rightarrow> None)"

section \<open>Facts\<close>

lemma canonicalize_defined [simp]: "canonicalize v \<noteq> JUndefined"
  by (cases v) auto

lemma canonical_members_map:
  assumes "\<And>k v. (k, v) \<in> set kvs \<Longrightarrow> f v = v"
  shows "map (\<lambda>(k, v). (k, f v)) kvs = kvs"
  using assms by (induction kvs) auto

lemma canonicalize_idem: "canonicalize (canonicalize v) = canonicalize v"
proof (induction v rule: canonicalize.induct)
  case (6 xs)
  then show ?case by simp
next
  case (7 kvs)
  let ?m = "map (\<lambda>(k, v). (k, canonicalize v)) (filter (\<lambda>(k, v). v \<noteq> JUndefined) kvs)"
  have all: "filter (\<lambda>(k, v). v \<noteq> JUndefined) (sort_key fst ?m) = sort_key fst ?m"
    by (rule filter_True) auto
  have same: "map (\<lambda>(k, v). (k, canonicalize v)) (sort_key fst ?m) = sort_key fst ?m"
  proof (rule canonical_members_map)
    fix k v assume "(k, v) \<in> set (sort_key fst ?m)"
    then obtain u where u: "(k, u) \<in> set kvs" "u \<noteq> JUndefined" "v = canonicalize u" by auto
    show "canonicalize v = v" unfolding u(3) using 7 u(1,2) by auto
  qed
  show ?case by (simp add: all same sort_key_id_if_sorted)
qed simp_all

lemma canonicalize_order:
  assumes "distinct (map fst kvs)" and "mset kvs = mset kvs'"
  shows "canonicalize (JObj kvs) = canonicalize (JObj kvs')"
proof -
  let ?f = "\<lambda>kvs. map (\<lambda>(k, v). (k, canonicalize v)) (filter (\<lambda>(k, v). v \<noteq> JUndefined) kvs)"
  have m: "mset (?f kvs) = mset (?f kvs')" using assms(2) by simp
  have "inj_on fst (set (?f kvs))"
    using assms(1) by (auto simp: inj_on_def dest: eq_key_imp_eq_value)
  then have "sort_key fst (?f kvs) = sort_key fst (?f kvs')"
    by (intro sort_key_inj_key_eq) (simp_all only: mset_sort m sorted_sort_key)
  then show ?thesis by simp
qed

lemma length_hex_str: "0 < k \<Longrightarrow> n < 16 ^ k \<Longrightarrow> length (hex_str n) \<le> k"
proof (induction n arbitrary: k rule: hex_str.induct)
  case (1 n)
  show ?case
  proof (cases "n < 16")
    case True
    then show ?thesis using 1 by (simp add: hex_str.simps [of n])
  next
    case False
    obtain j where k: "k = Suc j" using 1(2) by (cases k) auto
    with False 1(3) have "0 < j" by (cases j) auto
    moreover have "n div 16 < 16 ^ j" using 1(3) k by (simp add: less_mult_imp_div_less mult.commute)
    ultimately have "length (hex_str (n div 16)) \<le> j" using 1(1) False by blast
    then show ?thesis using False k by (simp add: hex_str.simps [of n])
  qed
qed

definition lower_hex :: "char \<Rightarrow> bool" where
  "lower_hex c \<longleftrightarrow> is_digit c \<or> char_between CHR ''a'' CHR ''f'' c"

lemma hex_digit_lower: "d < 16 \<Longrightarrow> lower_hex (hex_digit d)"
  by (auto simp: lower_hex_def hex_digit_def is_digit_def char_between_def of_char_of)

lemma hex_str_lower: "list_all lower_hex (hex_str n)"
  by (induction n rule: hex_str.induct) (simp add: hex_str.simps hex_digit_lower)

lemma stable_hash_shape:
  "starts_with (stableHash s) ''fnv1a64:'' \<and> length (stableHash s) = 24 \<and> list_all lower_hex (drop 8 (stableHash s))"
proof -
  let ?h = "hex_str (unat (foldl fnv_step 0xcbf29ce484222325 s))"
  have "unat (foldl fnv_step 0xcbf29ce484222325 s) < 16 ^ 16"
    using unsigned_less [of "foldl fnv_step 0xcbf29ce484222325 s", where ?'a = nat] by simp
  then have "length ?h \<le> 16" by (intro length_hex_str) simp_all
  moreover have "lower_hex CHR ''0''" by (simp add: lower_hex_def is_digit_def char_between_def)
  ultimately show ?thesis
    using hex_str_lower [of "unat (foldl fnv_step 0xcbf29ce484222325 s)"]
    by (auto simp: stableHash_def Let_def list_all_iff set_replicate_conv_if)
qed

lemma policy_hash_order:
  assumes "mset xs = mset (sp_allowedExecutables p)"
  shows "hashP2pStaticPolicy (p\<lparr>sp_allowedExecutables := xs, sp_policyHash := h\<rparr>) = hashP2pStaticPolicy p"
proof -
  have "sort xs = sort (sp_allowedExecutables p)" using assms by (metis sort_key_inj_key_eq inj_on_id2 properties_for_sort mset_sort sorted_sort)
  then show ?thesis by (simp add: hashP2pStaticPolicy_def canonicalizeP2pStaticPolicy_def)
qed

lemma safe_path_same: "isSafeRelativeArtifactPath = isP2pArtifactRelativePath"
  by (rule ext) (auto simp: isSafeRelativeArtifactPath_def isP2pArtifactRelativePath_def)

lemma evaluate_from_spec:
  "(le_matchedRuleIndex (evaluate_from i rules d vars) = - 1 \<and> le_marker (evaluate_from i rules d vars) = d \<and>
      list_all (\<lambda>r. \<not> matchRule r vars) rules) \<or>
   (\<exists>k < length rules. le_matchedRuleIndex (evaluate_from i rules d vars) = i + int k \<and>
      le_marker (evaluate_from i rules d vars) = lr_emit (rules ! k) \<and> matchRule (rules ! k) vars \<and>
      list_all (\<lambda>r. \<not> matchRule r vars) (take k rules))"
proof (induction i rules d vars rule: evaluate_from.induct)
  case (1 i dflt variables)
  then show ?case by simp
next
  case (2 i rule rules dflt variables)
  show ?case
  proof (cases "matchRule rule variables")
    case True
    then show ?thesis by (intro disjI2 exI [of _ 0]) simp
  next
    case False
    with 2 show ?thesis
      by (auto intro: exI [of _ "Suc k" for k])
  qed
qed

lemma read_all_Some:
  "(\<And>x. x \<in> set xs \<Longrightarrow> f x \<noteq> None) \<Longrightarrow> read_all f xs = Some (map (the \<circ> f) xs)"
  by (induction xs) force+


lemma jstr_where_elim: "jstr_where P v \<Longrightarrow> (\<And>s. v = JStr s \<Longrightarrow> P s \<Longrightarrow> Q) \<Longrightarrow> Q"
  by (cases v) (auto simp: jstr_where_def)

lemma validated_condition:
  assumes "validate_condition cond path = []"
  shows "\<exists>c. read_condition cond = Some c"
proof -
  have k: "jget cond ''kind'' \<in> {JStr ''variable_equals'', JStr ''variable_present'', JStr ''variable_truthy''}"
    using assms by (auto simp: validate_condition_def split: if_splits)
  moreover obtain n where "jget cond ''name'' = JStr n"
    using assms k by (auto simp: validate_condition_def split: if_splits elim: jstr_where_elim)
  moreover have "jget cond ''kind'' = JStr ''variable_equals'' \<Longrightarrow> \<exists>e. jget cond ''equals'' = JStr e"
    using assms k by (auto simp: validate_condition_def split: if_splits elim: jstr_where_elim)
  ultimately show ?thesis by (auto simp: read_condition_def)
qed

lemma validated_rule:
  assumes "validateRule rule path = []"
  shows "\<exists>r. read_rule rule = Some r \<and> isValidMarker (lr_emit r)"
proof -
  obtain e where e: "jget rule ''emit'' = JStr e" "isValidMarker e"
    using assms by (auto simp: validateRule_def split: if_splits elim: jstr_where_elim)
  have "jget rule ''if'' = JUndefined \<or> validate_condition (jget rule ''if'') path = []"
    using assms by (auto simp: validateRule_def split: if_splits)
  then show ?thesis using e by (auto simp: read_rule_def dest!: validated_condition)
qed

lemma enumerate_nth: "x \<in> set xs \<Longrightarrow> \<exists>i. (i, x) \<in> set (enumerate n xs)"
  by (induction xs arbitrary: n) auto

lemma validated_logic:
  assumes "validateP2pLogicContract contract path = []"
  shows "\<exists>c. read_logic contract = Some c \<and> length (lc_rules c) \<le> 32 \<and> isValidMarker (lc_default c) \<and>
    list_all (\<lambda>r. isValidMarker (lr_emit r)) (lc_rules c)"
proof -
  have rec: "is_record contract" and arr: "is_jarr (jget contract ''rules'')"
    using assms by (auto simp: validateP2pLogicContract_def split: if_splits)
  obtain rs where rs: "jget contract ''rules'' = JArr rs" using arr by (cases "jget contract ''rules''") auto
  have len: "length rs \<le> 32" using assms rec rs by (auto simp: validateP2pLogicContract_def split: if_splits)
  obtain d where d: "jget contract ''default'' = JStr d" "isValidMarker d"
    using assms rec rs by (auto simp: validateP2pLogicContract_def split: if_splits elim: jstr_where_elim)
  have rule: "\<exists>r. read_rule x = Some r \<and> isValidMarker (lr_emit r)" if x: "x \<in> set rs" for x
  proof -
    obtain i where "(i, x) \<in> set (enumerate 0 rs)" using enumerate_nth [OF x] by blast
    then have "validateRule x (at_index (path @ ''.rules'') i) = []"
      using assms rec rs by (auto simp: validateP2pLogicContract_def split: if_splits)
    then show ?thesis by (rule validated_rule)
  qed
  then have "read_all read_rule rs = Some (map (the \<circ> read_rule) rs)" by (intro read_all_Some) force
  moreover have "list_all (\<lambda>r. isValidMarker (lr_emit r)) (map (the \<circ> read_rule) rs)"
    using rule by (fastforce simp: list_all_iff)
  ultimately show ?thesis using rs d len by (simp add: read_logic_def)
qed

lemma logic_emits_declared:
  "le_marker (evaluateP2pLogic c vars) \<in> insert (lc_default c) (lr_emit ` set (lc_rules c))"
  using evaluate_from_spec [of 0 "lc_rules c" "lc_default c" vars] by (auto simp: evaluateP2pLogic_def)

end
