(* ===== verification/P2pValidate.thy ===== *)
theory P2pValidate
  imports P2pWorkflow PreviewFiles
begin

text \<open>
  What the daemon accepts of a workflow: the validators of \<open>src/shared/p2p-workflow-validators.ts\<close> (launch
  envelope, draft, variables, nodes, edges, artifacts, start context, projections) and of
  \<open>p2p-workflow-script.ts\<close> (script contracts and the machine output of a script), on parsed JSON.  Strings are
  read as their bytes; the texts of diagnostics are abridged where they print a value.
\<close>

section \<open>Tests on JSON values\<close>

definition jinteger :: "json \<Rightarrow> int option" where
  "jinteger v = (case v of JNum (JFin i) \<Rightarrow> Some i | _ \<Rightarrow> None)"

definition integer_where :: "(int \<Rightarrow> bool) \<Rightarrow> json \<Rightarrow> bool" where
  "integer_where P v = (case jinteger v of Some i \<Rightarrow> P i | None \<Rightarrow> False)"

definition string_in :: "string list \<Rightarrow> json \<Rightarrow> bool" where
  "string_in ss v = jstr_where (\<lambda>s. s \<in> set ss) v"

definition hasAnyOwn :: "json \<Rightarrow> string list \<Rightarrow> bool" where
  "hasAnyOwn v keys = list_ex (jhas v) keys"

definition complain :: "bool \<Rightarrow> workflow_diagnostic \<Rightarrow> workflow_diagnostic list" where
  "complain bad d = (if bad then [d] else [])"

definition ends_with :: "string \<Rightarrow> string \<Rightarrow> bool" where
  "ends_with s p = starts_with (rev s) (rev p)"

text \<open>\<open>String(v)\<close>\<close>

fun js_string :: "json \<Rightarrow> string" where
  "js_string JUndefined = ''undefined''"
| "js_string JNull = ''null''"
| "js_string (JBool b) = (if b then ''true'' else ''false'')"
| "js_string (JNum n) = number_text n"
| "js_string (JStr s) = s"
| "js_string (JArr xs) =
     js_join '','' (map (\<lambda>x. if x = JUndefined \<or> x = JNull then [] else js_string x) xs)"
| "js_string (JObj kvs) = ''[object Object]''"

section \<open>Forbidden fields\<close>

definition forbidden_envelope_field_names :: "string list" where
  "forbidden_envelope_field_names =
    [''compiledWorkflow'', ''boundWorkflow'', ''privateRuntimeState'', ''runtimePrivateState'', ''rawPrompt'',
     ''rawPromptText'', ''scriptRawOutputs'', ''rawScriptOutput'', ''artifactBaselines'',
     ''privateArtifactBaselines'', ''editorCache'', ''hiddenEditorCache'', ''env'', ''environment'', ''token'',
     ''accessToken'', ''refreshToken'', ''apiKey'', ''secret'']"

definition forbidden_key :: "string \<Rightarrow> bool" where
  "forbidden_key key \<longleftrightarrow>
    (let k = js_lower key in
     key \<in> set forbidden_envelope_field_names \<or> ends_with k ''token'' \<or> ends_with k ''secret'' \<or>
     ends_with k ''apikey'' \<or> k = ''env'' \<or> k = ''environment'')"

definition or_dollar :: "string \<Rightarrow> string" where
  "or_dollar path = (if path = [] then ''$'' else path)"

definition member_path :: "string \<Rightarrow> string \<Rightarrow> string" where
  "member_path path key = (if path = [] then key else path @ ''.'' @ key)"

text \<open>
  \<open>findForbiddenEnvelopeField\<close>: the count of containers is threaded through; a value that was parsed from JSON
  shares none of them, so the set of those already visited never holds one.
\<close>

fun find_forbidden :: "json \<Rightarrow> string \<Rightarrow> nat \<Rightarrow> nat \<Rightarrow> string option \<times> nat"
  and find_in_items :: "json list \<Rightarrow> nat \<Rightarrow> string \<Rightarrow> nat \<Rightarrow> nat \<Rightarrow> string option \<times> nat"
  and find_in_members :: "(string \<times> json) list \<Rightarrow> string \<Rightarrow> nat \<Rightarrow> nat \<Rightarrow> string option \<times> nat" where
  "find_forbidden (JStr s) path depth nodes = (if 262144 < int (length s) then Some (or_dollar path) else None, nodes)"
| "find_forbidden (JArr xs) path depth nodes =
     (if 32 < depth \<or> 5000 < int (Suc nodes) then (Some (or_dollar path), Suc nodes)
      else if 1000 < int (length xs) then (Some (or_dollar path), Suc nodes)
      else find_in_items xs 0 path depth (Suc nodes))"
| "find_forbidden (JObj kvs) path depth nodes =
     (if 32 < depth \<or> 5000 < int (Suc nodes) then (Some (or_dollar path), Suc nodes)
      else find_in_members kvs path depth (Suc nodes))"
| "find_forbidden _ path depth nodes = (None, nodes)"
| "find_in_items [] i path depth nodes = (None, nodes)"
| "find_in_items (x # xs) i path depth nodes =
     (case find_forbidden x (at_index path i) (Suc depth) nodes of
        (Some p, n) \<Rightarrow> (Some p, n)
      | (None, n) \<Rightarrow> find_in_items xs (Suc i) path depth n)"
| "find_in_members [] path depth nodes = (None, nodes)"
| "find_in_members ((k, v) # kvs) path depth nodes =
     (if forbidden_key k then (Some (member_path path k), nodes)
      else (case find_forbidden v (member_path path k) (Suc depth) nodes of
          (Some p, n) \<Rightarrow> (Some p, n)
        | (None, n) \<Rightarrow> find_in_members kvs path depth n))"

definition findForbiddenEnvelopeField :: "json \<Rightarrow> string option" where
  "findForbiddenEnvelopeField v = fst (find_forbidden v [] 0 0)"

section \<open>Script contracts\<close>

definition default_script_caps :: "(string \<times> int) list" where
  "default_script_caps = [(''stdinBytes'', 64 * 1024), (''stdoutBytes'', 256 * 1024), (''stderrBytes'', 128 * 1024),
     (''machineOutputBytes'', 128 * 1024)]"

text \<open>
  \<open>key in caps\<close> also holds for the names that every object inherits; then the caps get a member of that name
  (but a number cannot become the prototype).
\<close>

fun normalize_caps_from :: "(string \<times> int) list \<Rightarrow> (string \<times> json) list \<Rightarrow> (string \<times> int) list option" where
  "normalize_caps_from caps [] = Some caps"
| "normalize_caps_from caps ((k, v) # kvs) =
     (if map_of caps k = None \<and> k \<notin> set object_prototype_members then None
      else if \<not> integer_where (\<lambda>i. 0 \<le> i) v then None
      else normalize_caps_from (if k = ''__proto__'' then caps else AList.update k (the (jinteger v)) caps) kvs)"

definition normalizeScriptCaps :: "json \<Rightarrow> (string \<times> int) list option" where
  "normalizeScriptCaps v =
    (if v = JUndefined then Some default_script_caps
     else if \<not> is_record v then None
     else normalize_caps_from default_script_caps (jmembers v))"

definition is_env_char :: "char \<Rightarrow> bool" where
  "is_env_char c \<longleftrightarrow> is_upper c \<or> is_digit c \<or> c = CHR ''_''"

definition isSafeEnvironmentName :: "json \<Rightarrow> bool" where
  "isSafeEnvironmentName v = jstr_where (\<lambda>s. case s of [] \<Rightarrow> False | c # cs \<Rightarrow>
      (is_upper c \<or> c = CHR ''_'') \<and> list_all is_env_char cs \<and> length cs \<le> 127) v"

datatype command_kind = Cmd_argv | Cmd_interpreter

record script_contract =
  sc_commandKind :: command_kind
  sc_argv :: "string list"
  sc_interpreter :: "string option"
  sc_stdin :: "string option"
  sc_envAllowlist :: "string list option"
  sc_requiredMachineOutput :: "bool option"
  sc_timeoutMs :: "int option"
  sc_caps :: "(string \<times> int) list"

definition jtext :: "json \<Rightarrow> string" where
  "jtext v = (case v of JStr s \<Rightarrow> s | _ \<Rightarrow> [])"

definition as_string :: "json \<Rightarrow> string option" where
  "as_string v = (case v of JStr s \<Rightarrow> Some s | _ \<Rightarrow> None)"

definition invalidScriptContract :: "string \<Rightarrow> 'a validation" where
  "invalidScriptContract path = V_bad [diag Dc_invalid_script_contract Dp_compile (at_field path)]"

definition script_command_kind :: "json \<Rightarrow> command_kind option" where
  "script_command_kind input =
    (let k = jnullish (jget input ''commandKind'') (JStr ''argv'')
     in if k = JStr ''argv'' then Some Cmd_argv else if k = JStr ''interpreter'' then Some Cmd_interpreter else None)"

definition validateP2pScriptContract :: "json \<Rightarrow> string \<Rightarrow> script_contract validation" where
  "validateP2pScriptContract input fieldPath =
    (if \<not> is_record input then invalidScriptContract fieldPath
     else case script_command_kind input of
       None \<Rightarrow> invalidScriptContract (fieldPath @ ''.commandKind'')
     | Some commandKind \<Rightarrow>
        let argv = jget input ''argv'' in
        if \<not> is_jarr argv \<or> jitems argv = [] \<or> \<not> is_jstr (hd (jitems argv)) \<or> hd (jitems argv) = JStr []
        then invalidScriptContract (fieldPath @ ''.argv'')
        else if list_ex (\<lambda>e. \<not> is_jstr e) (jitems argv) then invalidScriptContract (fieldPath @ ''.argv'')
        else if commandKind = Cmd_interpreter \<and> \<not> jstr_where (\<lambda>s. s \<noteq> []) (jget input ''interpreter'')
        then invalidScriptContract (fieldPath @ ''.interpreter'')
        else (case normalizeScriptCaps (jget input ''caps'') of
            None \<Rightarrow> invalidScriptContract (fieldPath @ ''.caps'')
          | Some caps \<Rightarrow>
             if jstr_where (\<lambda>s. the (map_of caps ''stdinBytes'') < int (length s)) (jget input ''stdin'')
             then invalidScriptContract (fieldPath @ ''.stdin'')
             else if is_jarr (jget input ''envAllowlist'') \<and>
               \<not> list_all isSafeEnvironmentName (jitems (jget input ''envAllowlist''))
             then invalidScriptContract (fieldPath @ ''.envAllowlist'')
             else if jget input ''timeoutMs'' \<noteq> JUndefined \<and> \<not> integer_where (\<lambda>i. 0 < i) (jget input ''timeoutMs'')
             then invalidScriptContract (fieldPath @ ''.timeoutMs'')
             else V_ok
               \<lparr>sc_commandKind = commandKind, sc_argv = map jtext (jitems argv),
                sc_interpreter = (if commandKind = Cmd_interpreter then as_string (jget input ''interpreter'') else None),
                sc_stdin = as_string (jget input ''stdin''),
                sc_envAllowlist = (case jget input ''envAllowlist'' of JArr xs \<Rightarrow> Some (map jtext xs) | _ \<Rightarrow> None),
                sc_requiredMachineOutput = (case jget input ''requiredMachineOutput'' of JBool b \<Rightarrow> Some b | _ \<Rightarrow> None),
                sc_timeoutMs = jinteger (jget input ''timeoutMs''), sc_caps = caps\<rparr> []))"

section \<open>Variables\<close>

definition is_variable_char :: "char \<Rightarrow> bool" where
  "is_variable_char c \<longleftrightarrow> is_lower c \<or> is_digit c \<or> c = CHR ''_''"

text \<open>\<open>/^[a-z][a-z0-9_]{0,63}$/\<close>\<close>

definition is_variable_name :: "string \<Rightarrow> bool" where
  "is_variable_name s = (case s of [] \<Rightarrow> False | c # cs \<Rightarrow> is_lower c \<and> list_all is_variable_char cs \<and> length cs \<le> 63)"

fun is_variable_value :: "json \<Rightarrow> bool" where
  "is_variable_value (JStr s) = True"
| "is_variable_value (JNum n) = True"
| "is_variable_value (JBool b) = True"
| "is_variable_value (JArr xs) = list_all is_jstr xs"
| "is_variable_value _ = False"

definition max_variable_bytes :: int where "max_variable_bytes = 8 * 1024"

text \<open>One variable of the list, with the names seen before it.\<close>

definition validate_variable :: "string list \<Rightarrow> nat \<Rightarrow> json \<Rightarrow> string list \<times> workflow_diagnostic list" where
  "validate_variable seen i v =
    (let bad = \<lambda>ex. diag Dc_invalid_workflow_variable Dp_compile ex; path = at_index ''variables'' i in
     if \<not> is_record v then (seen, [bad (at_field path)])
     else
       let named = jstr_where is_variable_name (jget v ''name'');
           duplicate = named \<and> string_in seen (jget v ''name'');
           name_issue = (if \<not> named then [bad (at_field (path @ ''.name''))]
             else if duplicate then [bad (at_field_because (path @ ''.name'') ''Duplicate workflow variable.'')] else []);
           value_issue = (if \<not> is_variable_value (jget v ''value'') then [bad (at_field (path @ ''.value''))]
             else if max_variable_bytes < int (length (json_text (jget v ''value'')))
             then [bad (at_field_because (path @ ''.value'') ''Workflow variable exceeds byte limit.'')] else [])
       in (if named \<and> \<not> duplicate then seen @ [jtext (jget v ''name'')] else seen, name_issue @ value_issue))"

fun validate_variables_from :: "string list \<Rightarrow> nat \<Rightarrow> json list \<Rightarrow> workflow_diagnostic list" where
  "validate_variables_from seen i [] = []"
| "validate_variables_from seen i (v # vs) =
     (case validate_variable seen i v of (seen', ds) \<Rightarrow> ds @ validate_variables_from seen' (Suc i) vs)"

definition validateP2pWorkflowVariables :: "json list \<Rightarrow> workflow_diagnostic list" where
  "validateP2pWorkflowVariables vs =
    complain (64 < length vs)
      (diag Dc_invalid_workflow_variable Dp_compile (with_summary ''Too many workflow variables.'')) @
    validate_variables_from [] 0 vs"

section \<open>The machine output of a script\<close>

definition script_machine_output_kind :: string where
  "script_machine_output_kind = ''p2p_script_machine_output_v1''"

definition isVariablesRecord :: "json \<Rightarrow> bool" where
  "isVariablesRecord v \<longleftrightarrow> is_record v \<and>
    list_all (\<lambda>(k, e). is_variable_name k \<and> is_variable_value e \<and> int (length (json_text e)) \<le> max_variable_bytes) (jmembers v)"

definition isArtifactOutputArray :: "json \<Rightarrow> bool" where
  "isArtifactOutputArray v \<longleftrightarrow> is_jarr v \<and>
    list_all (\<lambda>e. is_record e \<and> jstr_where isP2pArtifactRelativePath (jget e ''path'') \<and>
      (jget e ''sha256'' = JUndefined \<or> is_jstr (jget e ''sha256''))) (jitems v)"

definition isP2pScriptMachineOutputFrame :: "json \<Rightarrow> bool" where
  "isP2pScriptMachineOutputFrame v =
    (if \<not> is_record v \<or> jget v ''kind'' \<noteq> JStr script_machine_output_kind then False
     else if jget v ''status'' \<noteq> JUndefined \<and> jget v ''status'' \<noteq> JStr ''ok'' \<and> jget v ''status'' \<noteq> JStr ''fail'' then False
     else if jget v ''routingKey'' \<noteq> JUndefined \<and> \<not> is_jstr (jget v ''routingKey'') then False
     else if jget v ''displaySummary'' \<noteq> JUndefined \<and> \<not> is_jstr (jget v ''displaySummary'') then False
     else if jget v ''variables'' \<noteq> JUndefined \<and> \<not> isVariablesRecord (jget v ''variables'') then False
     else if jget v ''artifacts'' \<noteq> JUndefined \<and> \<not> isArtifactOutputArray (jget v ''artifacts'') then False
     else True)"

definition hasRequiredFields :: "json \<Rightarrow> string list \<Rightarrow> bool" where
  "hasRequiredFields frame needed = list_all (\<lambda>f. jget frame f \<noteq> JUndefined) needed"

record parse_options =
  po_strict :: bool
  po_maxTotalBytes :: int
  po_maxFrameBytes :: int
  po_requiredFields :: "string list"

definition default_parse_options :: parse_options where
  "default_parse_options =
    \<lparr>po_strict = False, po_maxTotalBytes = 128 * 1024, po_maxFrameBytes = 16 * 1024, po_requiredFields = []\<rparr>"

datatype machine_output =
  Mo_ok "json list" json "workflow_diagnostic list" bool
| Mo_bad "workflow_diagnostic list" bool

definition machineOutputDiagnostic :: "string \<Rightarrow> bool \<Rightarrow> workflow_diagnostic" where
  "machineOutputDiagnostic text' strict =
    (if strict then diag Dc_script_machine_output_invalid Dp_execute (with_summary text')
     else makeP2pWorkflowWarning Dc_script_machine_output_invalid (Some Dp_execute) (with_summary text'))"

text \<open>\<open>split(/\r?\n/)\<close>, without the lines that are blank.\<close>

definition drop_cr :: "string \<Rightarrow> string" where
  "drop_cr s = (if s \<noteq> [] \<and> char_code (last s) = (13::nat) then butlast s else s)"

definition output_lines :: "string \<Rightarrow> string list" where
  "output_lines s =
    (let ps = js_split nl s in filter (\<lambda>l. js_trim l \<noteq> []) (map drop_cr (butlast ps) @ [last ps]))"

text \<open>What one line is: a frame, or why it is not.  \<open>JSON.parse\<close> is the parameter, \<open>None\<close> where it throws.\<close>

definition classify_line :: "(string \<Rightarrow> json option) \<Rightarrow> parse_options \<Rightarrow> nat \<Rightarrow> string \<Rightarrow> string + json" where
  "classify_line jparse opts n line =
    (if po_maxFrameBytes opts < int (length line)
     then Inl (''line '' @ nat_str n @ '' exceeds frame byte cap ('' @ nat_str (length line) @ ''/'' @
       int_str (po_maxFrameBytes opts) @ '').'')
     else (case jparse line of
         None \<Rightarrow> Inl (''line '' @ nat_str n @ '' is not valid JSON.'')
       | Some v \<Rightarrow>
           if \<not> isP2pScriptMachineOutputFrame v \<or> \<not> hasRequiredFields v (po_requiredFields opts)
           then Inl (''line '' @ nat_str n @ '' is not a valid '' @ script_machine_output_kind @ '' frame.'')
           else Inr v))"

fun parse_lines :: "(string \<Rightarrow> json option) \<Rightarrow> parse_options \<Rightarrow> nat \<Rightarrow> string list \<Rightarrow> json list \<Rightarrow>
    workflow_diagnostic list \<Rightarrow> workflow_diagnostic list + (json list \<times> workflow_diagnostic list)" where
  "parse_lines jparse opts n [] frames ds = Inr (frames, ds)"
| "parse_lines jparse opts n (line # lines) frames ds =
     (case classify_line jparse opts n line of
        Inl why \<Rightarrow>
          let d = machineOutputDiagnostic why (po_strict opts)
          in if po_strict opts then Inl [d] else parse_lines jparse opts (Suc n) lines frames (ds @ [d])
      | Inr frame \<Rightarrow> parse_lines jparse opts (Suc n) lines (frames @ [frame]) ds)"

text \<open>The part of the input that ends with the last line break, \<open>slice(0, lastIndexOf('\n') + 1)\<close>.\<close>

definition whole_lines :: "string \<Rightarrow> string" where
  "whole_lines s = rev (dropWhile (\<lambda>c. c \<noteq> nl) (rev s))"

text \<open>
  \<open>byteSlice\<close>: a prefix of the UTF-8 bytes through \<open>TextDecoder\<close>.  The decoder drops a leading byte order mark and
  reads a character that the cut left incomplete as U+FFFD; then all U+FFFD at the end are removed, also those that the
  input had.  The bytes are those of a string, so only the last character can be incomplete.
\<close>

definition byte_order_mark :: string where
  "byte_order_mark = map char_of [0xEF, 0xBB, 0xBF :: nat]"

definition replacement_character :: string where
  "replacement_character = map char_of [0xEF, 0xBF, 0xBD :: nat]"

definition utf8_length :: "char \<Rightarrow> nat" where
  "utf8_length c = (let n = char_code c :: nat in if n < 0xC0 then 1 else if n < 0xE0 then 2 else if n < 0xF0 then 3 else 4)"

fun decode_bytes :: "string \<Rightarrow> string" where
  "decode_bytes [] = []"
| "decode_bytes (c # cs) =
     (if length cs < utf8_length c - 1 then replacement_character
      else c # take (utf8_length c - 1) cs @ decode_bytes (drop (utf8_length c - 1) cs))"

definition drop_byte_order_mark :: "string \<Rightarrow> string" where
  "drop_byte_order_mark s = (if starts_with s byte_order_mark then drop 3 s else s)"

text \<open>The loop that removes U+FFFD from the end, on the reversed string.\<close>

fun drop_replacements :: "string \<Rightarrow> string" where
  "drop_replacements (a # b # c # s) = (if [c, b, a] = replacement_character then drop_replacements s else a # b # c # s)"
| "drop_replacements s = s"

definition byteSlice :: "string \<Rightarrow> int \<Rightarrow> string" where
  "byteSlice value maxBytes =
    (if int (length value) \<le> maxBytes then value
     else let encoded = take (nat (if maxBytes < 0 then int (length value) + maxBytes else maxBytes)) value
          in rev (drop_replacements (rev (decode_bytes (drop_byte_order_mark encoded)))))"

definition invalidMachineOutput :: "string \<Rightarrow> bool \<Rightarrow> machine_output" where
  "invalidMachineOutput text' truncated =
    Mo_bad [diag Dc_script_machine_output_invalid Dp_execute (with_summary text')] truncated"

definition parseP2pScriptMachineOutput :: "(string \<Rightarrow> json option) \<Rightarrow> string \<Rightarrow> parse_options \<Rightarrow> machine_output" where
  "parseP2pScriptMachineOutput jparse input opts =
    (let over = po_maxTotalBytes opts < int (length input) in
     if over \<and> po_strict opts
     then invalidMachineOutput (''machine output exceeds total byte cap ('' @ nat_str (length input) @ ''/'' @
       int_str (po_maxTotalBytes opts) @ '').'') False
     else
       let parseInput = (if over then whole_lines (byteSlice input (po_maxTotalBytes opts)) else input);
           ds = (if over then [makeP2pWorkflowWarning Dc_script_machine_output_invalid (Some Dp_execute)
             (with_summary (''machine output truncated at '' @ int_str (po_maxTotalBytes opts) @
               '' bytes; some trailing frames discarded.''))] else [])
       in (case parse_lines jparse opts 1 (output_lines parseInput) [] ds of
           Inl bad \<Rightarrow> Mo_bad bad False
         | Inr (frames, ds) \<Rightarrow>
             if frames = [] then invalidMachineOutput ''no valid machine output frames were found.'' over
             else Mo_ok frames (last frames) ds over))"

section \<open>Drafts\<close>

definition validateP2pArtifactContract :: "json \<Rightarrow> string \<Rightarrow> workflow_diagnostic list" where
  "validateP2pArtifactContract input fieldPath =
    (let bad = \<lambda>path. diag Dc_unsafe_artifact_path Dp_compile (at_field path) in
     if \<not> is_record input then [bad fieldPath]
     else
       complain (\<not> isOneOf (jget input ''convention'') p2p_artifact_conventions) (bad (fieldPath @ ''.convention'')) @
       complain (jget input ''permissionScope'' \<noteq> JUndefined \<and> \<not> isOneOf (jget input ''permissionScope'') p2p_permission_scopes)
         (bad (fieldPath @ ''.permissionScope'')) @
       complain (jget input ''symlinkPolicy'' \<noteq> JUndefined \<and>
           \<not> string_in [''reject_all'', ''allow_existing_under_root''] (jget input ''symlinkPolicy''))
         (bad (fieldPath @ ''.symlinkPolicy'')) @
       (let paths = jget input ''paths'' in
        if \<not> is_jarr paths \<or> jitems paths = [] \<or> 200 < length (jitems paths) then [bad (fieldPath @ ''.paths'')]
        else concat (map (\<lambda>(i, p).
            complain (\<not> jstr_where (\<lambda>s. isP2pArtifactRelativePath s \<and> getP2pArtifactPathDepth s \<le> 8) p)
              (bad (at_index (fieldPath @ ''.paths'') i))) (enumerate 0 (jitems paths)))))"

definition is_openspec :: "json \<Rightarrow> bool" where
  "is_openspec artifact \<longleftrightarrow> is_record artifact \<and> jget artifact ''convention'' = JStr ''openspec_convention''"

definition validateNodeCombination :: "json \<Rightarrow> string \<Rightarrow> workflow_diagnostic list" where
  "validateNodeCombination node fieldPath =
    (case (read_enum p2p_node_kinds (jget node ''nodeKind''), read_enum p2p_preset_keys (jget node ''preset''),
           read_enum p2p_permission_scopes (jnullish (jget node ''permissionScope'') (JStr ''analysis_only''))) of
       (Some kind, Some preset, Some scope) \<Rightarrow>
         let artifacts = jitems (jget node ''artifacts'');
             make = \<lambda>sub text'. diag Dc_invalid_workflow_graph Dp_compile
               (at_field_because (if sub = [] then fieldPath else fieldPath @ ''.'' @ sub) text');
             preset_name = enum_name p2p_preset_keys preset; scope_name = enum_name p2p_permission_scopes scope
         in (case kind of
             Nk_logic \<Rightarrow>
               complain (preset \<noteq> Pk_custom) (make ''preset'' (''logic node requires preset='' @ ''custom, got '' @ preset_name)) @
               complain (scope \<noteq> Ps_analysis_only)
                 (make ''permissionScope'' (''logic node requires permissionScope=analysis_only, got '' @ scope_name))
           | Nk_script \<Rightarrow>
               complain (preset \<noteq> Pk_custom) (make ''preset'' (''script node requires preset='' @ ''custom, got '' @ preset_name))
           | Nk_llm \<Rightarrow>
               if preset \<in> {Pk_audit, Pk_proposal_audit, Pk_implementation_audit}
               then complain (scope \<noteq> Ps_analysis_only) (make ''permissionScope''
                 (''preset '' @ preset_name @ '' requires permissionScope=analysis_only, got '' @ scope_name))
               else if preset = Pk_openspec_propose
               then if scope \<noteq> Ps_artifact_generation
                 then [make ''permissionScope''
                   (''preset openspec_propose requires permissionScope=artifact_generation, got '' @ scope_name)]
                 else complain (\<not> list_ex is_openspec artifacts) (make ''artifacts''
                   ''preset openspec_propose requires an artifact with convention=openspec_convention.'')
               else if preset = Pk_implementation
               then complain (scope \<noteq> Ps_implementation) (make ''permissionScope''
                 (''preset implementation requires permissionScope=implementation, got '' @ scope_name))
               else if scope = Ps_analysis_only then []
               else if scope = Ps_artifact_generation
               then complain (artifacts = []) (make ''artifacts''
                 ''permissionScope=artifact_generation requires at least one artifact contract.'')
               else [make [] (''Invalid nodeKind/preset/permissionScope combination: llm/'' @ preset_name @ ''/'' @ scope_name)])
     | _ \<Rightarrow> [])"

definition script_diagnostics :: "script_contract validation \<Rightarrow> workflow_diagnostic list" where
  "script_diagnostics r = (case r of V_ok c ds \<Rightarrow> ds | V_bad ds \<Rightarrow> ds)"

definition nonblank :: "json \<Rightarrow> bool" where
  "nonblank v = jstr_where (\<lambda>s. js_trim s \<noteq> []) v"

definition over_prompt_budget :: "json \<Rightarrow> bool" where
  "over_prompt_budget v = jstr_where (\<lambda>s. max_prompt_append_bytes < int (length s)) v"

definition validateNodeDraft :: "json \<Rightarrow> string \<Rightarrow> workflow_diagnostic list" where
  "validateNodeDraft node fieldPath =
    (let graph = \<lambda>path. diag Dc_invalid_workflow_graph Dp_compile (at_field path);
         field = \<lambda>f. jget node f
     in
     if \<not> is_record node then [graph fieldPath]
     else
       complain (\<not> nonblank (field ''id'')) (graph (fieldPath @ ''.id'')) @
       complain (\<not> isOneOf (field ''nodeKind'') p2p_node_kinds) (graph (fieldPath @ ''.nodeKind'')) @
       complain (\<not> isOneOf (field ''preset'') p2p_preset_keys) (graph (fieldPath @ ''.preset'')) @
       complain (field ''dispatchStyle'' \<noteq> JUndefined \<and> \<not> isOneOf (field ''dispatchStyle'') p2p_dispatch_styles)
         (graph (fieldPath @ ''.dispatchStyle'')) @
       complain (field ''permissionScope'' \<noteq> JUndefined \<and> \<not> isOneOf (field ''permissionScope'') p2p_permission_scopes)
         (graph (fieldPath @ ''.permissionScope'')) @
       validateNodeCombination node fieldPath @
       complain (over_prompt_budget (field ''promptAppend''))
         (diag Dc_invalid_prompt_append Dp_compile (at_field (fieldPath @ ''.promptAppend''))) @
       complain (over_prompt_budget (field ''summaryPromptOverride''))
         (diag Dc_invalid_prompt_append Dp_compile (at_field (fieldPath @ ''.summaryPromptOverride''))) @
       (if field ''nodeKind'' = JStr ''script''
        then script_diagnostics (validateP2pScriptContract (field ''script'') (fieldPath @ ''.script''))
        else complain (field ''script'' \<noteq> JUndefined)
          (diag Dc_invalid_script_contract Dp_compile (at_field (fieldPath @ ''.script'')))) @
       (if field ''artifacts'' = JUndefined then []
        else if \<not> is_jarr (field ''artifacts'')
        then [diag Dc_unsafe_artifact_path Dp_compile (at_field (fieldPath @ ''.artifacts''))]
        else concat (map (\<lambda>(i, a). validateP2pArtifactContract a (at_index (fieldPath @ ''.artifacts'') i))
          (enumerate 0 (jitems (field ''artifacts''))))))"

definition validateEdgeCondition :: "json \<Rightarrow> string \<Rightarrow> workflow_diagnostic list" where
  "validateEdgeCondition cond fieldPath =
    (if \<not> is_record cond then [diag Dc_invalid_edge_condition Dp_compile (at_field fieldPath)]
     else if \<not> isOneOf (jget cond ''kind'') p2p_condition_kinds
     then [diag Dc_invalid_edge_condition Dp_compile (at_field (fieldPath @ ''.kind''))]
     else if \<not> jstr_where (\<lambda>s. s \<noteq> []) (jget cond ''equals'')
     then [diag Dc_invalid_edge_condition Dp_compile (at_field (fieldPath @ ''.equals''))]
     else [])"

definition validateEdgeDraft :: "json \<Rightarrow> string \<Rightarrow> workflow_diagnostic list" where
  "validateEdgeDraft edge fieldPath =
    (let graph = \<lambda>path. diag Dc_invalid_workflow_graph Dp_compile (at_field path) in
     if \<not> is_record edge then [graph fieldPath]
     else
       concat (map (\<lambda>key. complain (\<not> nonblank (jget edge key)) (graph (fieldPath @ ''.'' @ key)))
         [''id'', ''fromNodeId'', ''toNodeId'']) @
       complain (\<not> isOneOf (jget edge ''edgeKind'') p2p_edge_kinds) (graph (fieldPath @ ''.edgeKind'')) @
       (if jget edge ''edgeKind'' = JStr ''conditional''
        then validateEdgeCondition (jget edge ''condition'') (fieldPath @ ''.condition'') else []))"

definition short_text_max_bytes :: int where "short_text_max_bytes = 4 * 1024"

definition is_hex_either :: "char \<Rightarrow> bool" where
  "is_hex_either c \<longleftrightarrow> is_digit c \<or> char_between CHR ''a'' CHR ''f'' c \<or> char_between CHR ''A'' CHR ''F'' c"

definition validateDiscussionOffset :: "json \<Rightarrow> string \<Rightarrow> workflow_diagnostic list" where
  "validateDiscussionOffset input fieldPath =
    (let bad = \<lambda>path. diag Dc_missing_context_source Dp_bind (at_field path) in
     if \<not> is_record input then [bad fieldPath]
     else
       complain (\<not> integer_where (\<lambda>i. 0 \<le> i) (jget input ''byteOffset'')) (bad (fieldPath @ ''.byteOffset'')) @
       complain (\<not> jstr_where (\<lambda>s. 8 \<le> length s \<and> length s \<le> 64 \<and> list_all is_hex_either s) (jget input ''sha256Prefix''))
         (bad (fieldPath @ ''.sha256Prefix'')) @
       complain (\<not> integer_where (\<lambda>i. 0 \<le> i) (jget input ''sizeAtOffset'')) (bad (fieldPath @ ''.sizeAtOffset'')))"

text \<open>One source of the start context, with the ids seen before it.\<close>

definition validate_source :: "string list \<Rightarrow> string \<Rightarrow> json \<Rightarrow> string list \<times> workflow_diagnostic list" where
  "validate_source seen path src =
    (let missing = \<lambda>p. diag Dc_missing_context_source Dp_bind (at_field p); field = \<lambda>f. jget src f in
     if \<not> is_record src then (seen, [missing path])
     else
       let id_ok = jstr_where (\<lambda>s. js_trim s \<noteq> [] \<and> int (length s) \<le> short_text_max_bytes \<and> s \<notin> set seen) (field ''id'') in
       (if id_ok then seen @ [jtext (field ''id'')] else seen,
        complain (\<not> string_in p2p_start_context_source_kinds (field ''kind'')) (missing (path @ ''.kind'')) @
        complain (\<not> id_ok) (missing (path @ ''.id'')) @
        complain (field ''maxBytes'' \<noteq> JUndefined \<and> \<not> integer_where (\<lambda>i. 0 \<le> i \<and> i \<le> 512 * 1024) (field ''maxBytes''))
          (diag Dc_context_source_too_large Dp_bind (at_field (path @ ''.maxBytes''))) @
        complain (field ''missingBehavior'' \<noteq> JUndefined \<and> \<not> string_in [''fail'', ''skip''] (field ''missingBehavior''))
          (missing (path @ ''.missingBehavior'')) @
        complain (field ''binaryBehavior'' \<noteq> JUndefined \<and> \<not> string_in [''fail'', ''skip''] (field ''binaryBehavior''))
          (missing (path @ ''.binaryBehavior'')) @
        complain (field ''order'' \<noteq> JUndefined \<and> jinteger (field ''order'') = None) (missing (path @ ''.order'')) @
        complain ((field ''kind'' = JStr ''file_reference'' \<or> field ''path'' \<noteq> JUndefined) \<and>
            \<not> jstr_where isP2pArtifactRelativePath (field ''path''))
          (diag Dc_unsafe_artifact_path Dp_bind (at_field (path @ ''.path''))) @
        (if field ''discussionOffset'' \<noteq> JUndefined
         then validateDiscussionOffset (field ''discussionOffset'') (path @ ''.discussionOffset'') else [])))"

fun validate_sources_from :: "string list \<Rightarrow> string \<Rightarrow> nat \<Rightarrow> json list \<Rightarrow> workflow_diagnostic list" where
  "validate_sources_from seen path i [] = []"
| "validate_sources_from seen path i (v # vs) =
     (case validate_source seen (at_index path i) v of
        (seen', ds) \<Rightarrow> ds @ validate_sources_from seen' path (Suc i) vs)"

definition validateP2pWorkflowStartContext :: "json \<Rightarrow> string \<Rightarrow> workflow_diagnostic list" where
  "validateP2pWorkflowStartContext input fieldPath =
    (if \<not> is_record input \<or> \<not> is_jarr (jget input ''sources'')
     then [diag Dc_missing_context_source Dp_bind (at_field fieldPath)]
     else
       complain (jget input ''maxTotalBytes'' \<noteq> JUndefined \<and>
           \<not> integer_where (\<lambda>i. 0 \<le> i \<and> i \<le> 1024 * 1024) (jget input ''maxTotalBytes''))
         (diag Dc_context_source_too_large Dp_bind (at_field (fieldPath @ ''.maxTotalBytes''))) @
       validate_sources_from [] (fieldPath @ ''.sources'') 0 (jitems (jget input ''sources'')))"

definition draft_diagnostics :: "json \<Rightarrow> workflow_diagnostic list" where
  "draft_diagnostics input =
    (let graph = \<lambda>path. diag Dc_invalid_workflow_graph Dp_compile (at_field path); field = \<lambda>f. jget input f in
       complain (\<not> nonblank (field ''id'')) (graph ''id'') @
       (if \<not> is_jarr (field ''nodes'') \<or> jitems (field ''nodes'') = [] then [graph ''nodes'']
        else concat (map (\<lambda>(i, n). validateNodeDraft n (at_index ''nodes'' i)) (enumerate 0 (jitems (field ''nodes''))))) @
       (if \<not> is_jarr (field ''edges'') then [graph ''edges'']
        else concat (map (\<lambda>(i, e). validateEdgeDraft e (at_index ''edges'' i)) (enumerate 0 (jitems (field ''edges''))))) @
       (if field ''variables'' = JUndefined then []
        else if \<not> is_jarr (field ''variables'')
        then [diag Dc_invalid_workflow_variable Dp_compile (at_field ''variables'')]
        else validateP2pWorkflowVariables (jitems (field ''variables''))) @
       (if field ''startContext'' = JUndefined then []
        else validateP2pWorkflowStartContext (field ''startContext'') ''startContext''))"

definition validateP2pWorkflowDraft :: "json \<Rightarrow> json validation" where
  "validateP2pWorkflowDraft input =
    (if \<not> is_record input
     then V_bad [diag Dc_invalid_workflow_graph Dp_compile (with_summary ''Draft must be an object.'')]
     else if jget input ''schemaVersion'' \<noteq> jint 1
     then V_bad [diag Dc_unsupported_schema_version Dp_compile (at_field ''schemaVersion'')]
     else
       let ds = draft_diagnostics input in if has_error ds then V_bad ds else V_ok input ds)"

section \<open>Launch envelopes\<close>

definition old_advanced_fields :: "string list" where
  "old_advanced_fields = [''advancedPresetKey'', ''advancedRounds'', ''advancedRunTimeoutMinutes'', ''contextReducer'']"

definition hasOldAdvancedFields :: "json \<Rightarrow> bool" where
  "hasOldAdvancedFields v \<longleftrightarrow> is_record v \<and> hasAnyOwn v (old_advanced_fields @ [''oldAdvanced''])"

definition hasNewWorkflowFields :: "json \<Rightarrow> bool" where
  "hasNewWorkflowFields v \<longleftrightarrow> is_record v \<and> hasAnyOwn v [''workflowSchemaVersion'', ''workflowKind'', ''advancedDraft'',
     ''launchContext'', ''requiredDaemonCapabilities'', ''expectedStaticPolicyHash'']"

text \<open>\<open>/^[\x21-\x7e]{1,128}$/\<close>\<close>

definition is_request_id :: "string \<Rightarrow> bool" where
  "is_request_id s \<longleftrightarrow> visible_ascii s \<and> length s \<le> 128"

fun validate_capabilities_from :: "string list \<Rightarrow> string \<Rightarrow> nat \<Rightarrow> json list \<Rightarrow> workflow_diagnostic list" where
  "validate_capabilities_from seen path i [] = []"
| "validate_capabilities_from seen path i (c # cs) =
     (if \<not> jstr_where (\<lambda>s. s \<in> set p2p_workflow_capabilities \<and> s \<notin> set seen) c
      then diag Dc_missing_required_capability Dp_web_validate (at_field (at_index path i)) #
        validate_capabilities_from seen path (Suc i) cs
      else validate_capabilities_from (seen @ [jtext c]) path (Suc i) cs)"

definition validateP2pRequiredDaemonCapabilities :: "json \<Rightarrow> string \<Rightarrow> workflow_diagnostic list" where
  "validateP2pRequiredDaemonCapabilities input fieldPath =
    (if \<not> is_jarr input then [diag Dc_missing_required_capability Dp_web_validate (at_field fieldPath)]
     else validate_capabilities_from [] fieldPath 0 (jitems input))"

definition validateP2pWorkflowLaunchContext :: "json \<Rightarrow> string \<Rightarrow> workflow_diagnostic list" where
  "validateP2pWorkflowLaunchContext input fieldPath =
    (let bad = \<lambda>path. diag Dc_invalid_launch_envelope Dp_parse (at_field path) in
     if \<not> is_record input then [bad fieldPath]
     else
       complain (jget input ''requestId'' \<noteq> JUndefined \<and> \<not> jstr_where is_request_id (jget input ''requestId''))
         (bad (fieldPath @ ''.requestId'')) @
       concat (map (\<lambda>key. complain (jget input key \<noteq> JUndefined \<and>
           \<not> jstr_where (\<lambda>s. int (length s) \<le> short_text_max_bytes) (jget input key)) (bad (fieldPath @ ''.'' @ key)))
         [''runId'', ''sessionName'', ''projectRoot'', ''userText'', ''locale'']))"

fun validate_executables_from :: "string list \<Rightarrow> nat \<Rightarrow> json list \<Rightarrow> workflow_diagnostic list" where
  "validate_executables_from seen i [] = []"
| "validate_executables_from seen i (e # es) =
     (let path = at_index ''allowedExecutables'' i in
      if \<not> jstr_where (\<lambda>s. s \<noteq> [] \<and> length s \<le> 256 \<and> visible_ascii s) e
      then diag Dc_invalid_launch_envelope Dp_parse (at_field path) # validate_executables_from seen (Suc i) es
      else if string_in seen e
      then diag Dc_invalid_launch_envelope Dp_parse (at_field_because path ''Duplicate allowedExecutables entry.'') #
        validate_executables_from seen (Suc i) es
      else validate_executables_from (seen @ [jtext e]) (Suc i) es)"

definition envelope_field_diagnostics :: "json \<Rightarrow> workflow_diagnostic list" where
  "envelope_field_diagnostics input =
    (let bad = \<lambda>path. diag Dc_invalid_launch_envelope Dp_parse (at_field path); field = \<lambda>f. jget input f in
     (if field ''requiredDaemonCapabilities'' = JUndefined then []
      else validateP2pRequiredDaemonCapabilities (field ''requiredDaemonCapabilities'') ''requiredDaemonCapabilities'') @
     complain (field ''expectedStaticPolicyHash'' \<noteq> JUndefined \<and>
         \<not> jstr_where (\<lambda>s. s \<noteq> [] \<and> length s \<le> 128 \<and> is_request_id s) (field ''expectedStaticPolicyHash''))
       (bad ''expectedStaticPolicyHash'') @
     (if field ''launchContext'' = JUndefined then []
      else validateP2pWorkflowLaunchContext (field ''launchContext'') ''launchContext'') @
     complain (field ''migrationPolicy'' \<noteq> JUndefined \<and>
         (\<not> is_record (field ''migrationPolicy'') \<or>
          jget (field ''migrationPolicy'') ''kind'' \<noteq> JStr ''materialize_old_advanced'' \<or> \<not> is_record (field ''oldAdvanced'')))
       (bad ''migrationPolicy'') @
     (if field ''allowedExecutables'' = JUndefined then []
      else if \<not> is_jarr (field ''allowedExecutables'') \<or> 64 < length (jitems (field ''allowedExecutables''))
      then [bad ''allowedExecutables'']
      else validate_executables_from [] 0 (jitems (field ''allowedExecutables''))))"

definition mixes_schemas :: "json \<Rightarrow> bool" where
  "mixes_schemas input \<longleftrightarrow>
    (let oldAdvancedAtTop = hasAnyOwn input old_advanced_fields; oldAdvancedNested = is_record (jget input ''oldAdvanced'');
         newWorkflow = hasNewWorkflowFields input \<or> is_record (jget input ''advancedDraft'');
         hasOldOnlyInput = oldAdvancedAtTop \<or> oldAdvancedNested
     in hasOldOnlyInput \<and> newWorkflow \<and> \<not> oldAdvancedNested \<or> hasOldOnlyInput \<and> is_record (jget input ''advancedDraft''))"

definition newer_than :: "int \<Rightarrow> json \<Rightarrow> bool" where
  "newer_than known v = (case v of JNum n \<Rightarrow> js_lt (JFin known) n | _ \<Rightarrow> False)"

definition validateP2pWorkflowLaunchEnvelope :: "json \<Rightarrow> json validation" where
  "validateP2pWorkflowLaunchEnvelope input =
    (let bad = \<lambda>ex. V_bad [diag Dc_invalid_launch_envelope Dp_parse ex] in
     if \<not> is_record input then bad (with_summary ''Envelope must be an object.'')
     else case findForbiddenEnvelopeField input of
       Some path \<Rightarrow> V_bad [diag Dc_forbidden_envelope_field Dp_parse (at_field path)]
     | None \<Rightarrow>
       if mixes_schemas input then V_bad [diag Dc_mixed_advanced_schema_fields Dp_parse no_extras]
       else if jget input ''workflowSchemaVersion'' \<noteq> jint 1
       then if newer_than 1 (jget input ''workflowSchemaVersion'')
         then V_bad [diag Dc_unsupported_schema_version Dp_parse no_extras]
         else bad (with_summary ''Unsupported or missing workflow schema version.'')
       else if \<not> string_in p2p_workflow_kinds (jget input ''workflowKind'') then bad (at_field ''workflowKind'')
       else
         let ds = envelope_field_diagnostics input in
         if jget input ''advancedDraft'' = JUndefined then if has_error ds then V_bad ds else V_ok input ds
         else (case validateP2pWorkflowDraft (jget input ''advancedDraft'') of
             V_bad ds' \<Rightarrow> V_bad (ds @ ds')
           | V_ok _ ds' \<Rightarrow> if has_error (ds @ ds') then V_bad (ds @ ds') else V_ok input (ds @ ds')))"

section \<open>Projections\<close>

definition projection_statuses :: "string list" where
  "projection_statuses = [''queued'', ''running'', ''blocked'', ''completed'', ''failed'', ''cancelled'', ''stale'']"

definition isWorkflowDiagnosticLike :: "json \<Rightarrow> bool" where
  "isWorkflowDiagnosticLike v \<longleftrightarrow> is_record v \<and> string_in (map fst diagnostic_code_names) (jget v ''code'') \<and>
     is_jstr (jget v ''phase'') \<and> string_in [''info'', ''warning'', ''error''] (jget v ''severity'') \<and>
     is_jstr (jget v ''messageKey'')"

definition validateProjectionLike :: "json \<Rightarrow> string \<Rightarrow> bool \<Rightarrow> workflow_diagnostic list" where
  "validateProjectionLike input fieldPath persisted =
    (let bad = \<lambda>path. diag Dc_invalid_launch_envelope Dp_parse (at_field path); field = \<lambda>f. jget input f in
     if \<not> is_record input then [bad fieldPath]
     else
       complain (field ''projectionVersion'' \<noteq> jint 1)
         (diag Dc_unsupported_schema_version Dp_web_validate (at_field (fieldPath @ ''.projectionVersion''))) @
       concat (map (\<lambda>key. complain (\<not> jstr_where (\<lambda>s. s \<noteq> []) (field key)) (bad (fieldPath @ ''.'' @ key)))
         [''runId'', ''workflowId'', ''updatedAt'']) @
       complain (js_string (field ''status'') \<notin> set projection_statuses) (bad (fieldPath @ ''.status'')) @
       complain (field ''currentNodeId'' \<noteq> JUndefined \<and> \<not> is_jstr (field ''currentNodeId'')) (bad (fieldPath @ ''.currentNodeId'')) @
       complain (\<not> is_jarr (field ''completedNodeIds'') \<or>
           list_ex (\<lambda>x. \<not> jstr_where (\<lambda>s. s \<noteq> []) x) (jitems (field ''completedNodeIds'')))
         (bad (fieldPath @ ''.completedNodeIds'')) @
       complain (\<not> is_jarr (field ''diagnostics'') \<or>
           list_ex (\<lambda>x. \<not> isWorkflowDiagnosticLike x) (jitems (field ''diagnostics'')))
         (bad (fieldPath @ ''.diagnostics'')) @
       complain (persisted \<and> (field ''capabilitySnapshot'' \<noteq> JUndefined \<or> field ''artifactSummaries'' \<noteq> JUndefined \<or>
           field ''nodeSummaries'' \<noteq> JUndefined))
         (diag Dc_forbidden_envelope_field Dp_parse (at_field fieldPath)))"

definition validateP2pWorkflowStatusProjection :: "json \<Rightarrow> json validation" where
  "validateP2pWorkflowStatusProjection input =
    (let ds = validateProjectionLike input ''projection'' False in if has_error ds then V_bad ds else V_ok input ds)"

definition validateP2pPersistedWorkflowSnapshot :: "json \<Rightarrow> json validation" where
  "validateP2pPersistedWorkflowSnapshot input =
    (let ds = validateProjectionLike input ''snapshot'' True in if has_error ds then V_bad ds else V_ok input ds)"

definition isFutureWorkflowSchema :: "json \<Rightarrow> bool" where
  "isFutureWorkflowSchema input =
    (let newer = \<lambda>v. jfinite v \<and> newer_than 1 v in
     if \<not> is_record input then False
     else if newer (jget input ''schemaVersion'') then True
     else if newer (jget input ''workflowSchemaVersion'') then True
     else if newer (jget input ''projectionVersion'') then True
     else is_record (jget input ''advancedDraft'') \<and> newer (jget (jget input ''advancedDraft'') ''schemaVersion''))"

section \<open>What the scan for forbidden fields decides\<close>

text \<open>The containers of a value, and what the scan asks of every part of it.\<close>

fun containers :: "json \<Rightarrow> nat" where
  "containers (JArr xs) = Suc (sum_list (map containers xs))"
| "containers (JObj kvs) = Suc (sum_list (map (\<lambda>(k, v). containers v) kvs))"
| "containers _ = 0"

fun admissible_part :: "nat \<Rightarrow> json \<Rightarrow> bool" where
  "admissible_part d (JStr s) = (int (length s) \<le> 262144)"
| "admissible_part d (JArr xs) = (d \<le> 32 \<and> int (length xs) \<le> 1000 \<and> list_all (admissible_part (Suc d)) xs)"
| "admissible_part d (JObj kvs) = (d \<le> 32 \<and> list_all (\<lambda>(k, v). \<not> forbidden_key k \<and> admissible_part (Suc d) v) kvs)"
| "admissible_part d _ = True"

lemma find_forbidden_decides:
  "(fst (find_forbidden v path d n) = None \<longleftrightarrow> admissible_part d v \<and> (containers v = 0 \<or> n + containers v \<le> 5000)) \<and>
   (fst (find_forbidden v path d n) = None \<longrightarrow> snd (find_forbidden v path d n) = n + containers v)"
  "(fst (find_in_items xs i path d n) = None \<longleftrightarrow>
      list_all (admissible_part (Suc d)) xs \<and> (sum_list (map containers xs) = 0 \<or> n + sum_list (map containers xs) \<le> 5000)) \<and>
   (fst (find_in_items xs i path d n) = None \<longrightarrow> snd (find_in_items xs i path d n) = n + sum_list (map containers xs))"
  "(fst (find_in_members kvs path d n) = None \<longleftrightarrow>
      list_all (\<lambda>(k, v). \<not> forbidden_key k \<and> admissible_part (Suc d) v) kvs \<and>
      (sum_list (map (\<lambda>(k, v). containers v) kvs) = 0 \<or> n + sum_list (map (\<lambda>(k, v). containers v) kvs) \<le> 5000)) \<and>
   (fst (find_in_members kvs path d n) = None \<longrightarrow>
      snd (find_in_members kvs path d n) = n + sum_list (map (\<lambda>(k, v). containers v) kvs))"
proof (induction v path d n and xs i path d n and kvs path d n rule: find_forbidden_find_in_items_find_in_members.induct)
  case (2 xs path depth nodes)
  then show ?case by (auto simp del: sum_list_eq_0_iff split: if_splits)
next
  case (3 kvs path depth nodes)
  then show ?case by (auto simp del: sum_list_eq_0_iff split: if_splits)
next
  case (6 x xs i path depth nodes)
  obtain r m where f: "find_forbidden x (at_index path i) (Suc depth) nodes = (r, m)" by force
  show ?case
  proof (cases r)
    case None
    with 6 f have "m = nodes + containers x" "admissible_part (Suc depth) x" "containers x = 0 \<or> m \<le> 5000" by auto
    with None f 6(2) [OF f [symmetric] None] show ?thesis
      by (cases "containers x = 0") (simp_all del: sum_list_eq_0_iff, arith+)
  next
    case (Some p)
    with 6(1) f have "\<not> (admissible_part (Suc depth) x \<and> (containers x = 0 \<or> nodes + containers x \<le> 5000))" by auto
    with Some f show ?thesis by (auto simp del: sum_list_eq_0_iff)
  qed
next
  case (8 k v kvs path depth nodes)
  show ?case
  proof (cases "forbidden_key k")
    case False
    obtain r m where f: "find_forbidden v (member_path path k) (Suc depth) nodes = (r, m)" by force
    show ?thesis
    proof (cases r)
      case None
      with 8(1) [OF False] f have "m = nodes + containers v" "admissible_part (Suc depth) v" "containers v = 0 \<or> m \<le> 5000" by auto
      with None False f 8(2) [OF False f [symmetric] None] show ?thesis
        by (cases "containers v = 0") (simp_all del: sum_list_eq_0_iff, arith+)
    next
      case (Some p)
      with 8(1) [OF False] f have "\<not> (admissible_part (Suc depth) v \<and> (containers v = 0 \<or> nodes + containers v \<le> 5000))" by auto
      with Some False f show ?thesis by (auto simp del: sum_list_eq_0_iff)
    qed
  qed simp
qed (auto simp del: sum_list_eq_0_iff split: if_splits)

lemma forbidden_field_none:
  "findForbiddenEnvelopeField v = None \<longleftrightarrow> admissible_part 0 v \<and> containers v \<le> 5000"
  using find_forbidden_decides(1) [of v "[]" 0 0] by (auto simp: findForbiddenEnvelopeField_def)

lemma admissible_keys: "key_in k v \<Longrightarrow> admissible_part d v \<Longrightarrow> \<not> forbidden_key k"
  by (induction k v arbitrary: d rule: key_in.induct) (fastforce simp: list_all_iff)+

lemma accepted_envelopeE:
  assumes "validateP2pWorkflowLaunchEnvelope v = V_ok e ds"
  shows "e = v" "is_record v" "findForbiddenEnvelopeField v = None" "\<not> mixes_schemas v"
    "jget v ''workflowSchemaVersion'' = jint 1" "\<not> has_error ds"
    "jget v ''advancedDraft'' = JUndefined \<or> (\<exists>ds'. validateP2pWorkflowDraft (jget v ''advancedDraft'') = V_ok (jget v ''advancedDraft'') ds')"
    "has_error (envelope_field_diagnostics v) = False"
proof -
  note d = assms [unfolded validateP2pWorkflowLaunchEnvelope_def Let_def]
  have draft: "validateP2pWorkflowDraft x = V_ok y es \<Longrightarrow> y = x" for x y es
    by (auto simp: validateP2pWorkflowDraft_def Let_def split: if_splits)
  show rec: "is_record v" and none: "findForbiddenEnvelopeField v = None"
    using d by (auto split: if_splits option.splits)
  show mix: "\<not> mixes_schemas v" and version: "jget v ''workflowSchemaVersion'' = jint 1"
    using d rec none by (auto split: if_splits)
  have kind: "string_in p2p_workflow_kinds (jget v ''workflowKind'')"
    using d rec none mix version by (auto split: if_splits)
  note d' = d [simplified rec none mix version kind, simplified]
  show "e = v" "\<not> has_error ds" "has_error (envelope_field_diagnostics v) = False"
    using d' by (auto split: if_splits validation.splits)
  show "jget v ''advancedDraft'' = JUndefined \<or>
      (\<exists>ds'. validateP2pWorkflowDraft (jget v ''advancedDraft'') = V_ok (jget v ''advancedDraft'') ds')"
    using d' by (auto split: if_splits validation.splits dest: draft)
qed

section \<open>The machine output\<close>

definition line_frame :: "(string \<Rightarrow> json option) \<Rightarrow> parse_options \<Rightarrow> string \<Rightarrow> json option" where
  "line_frame jparse opts line = (case classify_line jparse opts 0 line of Inr v \<Rightarrow> Some v | Inl _ \<Rightarrow> None)"

lemma classify_frame:
  "(case classify_line jparse opts n line of Inr v \<Rightarrow> Some v | Inl _ \<Rightarrow> None) = line_frame jparse opts line"
  by (auto simp: line_frame_def classify_line_def split: option.splits)

lemma classify_Inr: "classify_line jparse opts n line = Inr v \<longleftrightarrow> line_frame jparse opts line = Some v"
  unfolding classify_frame [symmetric, of _ _ _ n] by (cases "classify_line jparse opts n line") auto

lemma parse_lines_lenient:
  assumes "\<not> po_strict opts"
  shows "\<exists>es. parse_lines jparse opts n lines fs ds = Inr (fs @ List.map_filter (line_frame jparse opts) lines, ds @ es) \<and>
    (es = [] \<longleftrightarrow> list_all (\<lambda>l. line_frame jparse opts l \<noteq> None) lines)"
proof (induction lines arbitrary: n fs ds)
  case Nil
  then show ?case by (simp add: map_filter_simps)
next
  case (Cons l lines)
  show ?case
  proof (cases "classify_line jparse opts n l")
    case (Inl why)
    then have "line_frame jparse opts l = None"
      using classify_Inr [of jparse opts n l] by (cases "line_frame jparse opts l") auto
    with Inl assms Cons [of "Suc n" fs "ds @ [machineOutputDiagnostic why False]"] show ?thesis
      by (auto simp: map_filter_simps)
  next
    case (Inr v)
    then have "line_frame jparse opts l = Some v" by (simp add: classify_Inr)
    with Inr assms Cons [of "Suc n" "fs @ [v]" ds] show ?thesis by (auto simp: map_filter_simps)
  qed
qed

lemma parse_lines_strict:
  assumes "po_strict opts"
  shows "list_all (\<lambda>l. line_frame jparse opts l \<noteq> None) lines \<Longrightarrow>
      parse_lines jparse opts n lines fs ds = Inr (fs @ List.map_filter (line_frame jparse opts) lines, ds)"
    and "\<not> list_all (\<lambda>l. line_frame jparse opts l \<noteq> None) lines \<Longrightarrow> \<exists>bad. parse_lines jparse opts n lines fs ds = Inl bad"
proof (induction lines arbitrary: n fs ds)
  case Nil
  { case 1 show ?case by (simp add: map_filter_simps) next case 2 then show ?case by simp }
next
  case (Cons l lines)
  show "list_all (\<lambda>l. line_frame jparse opts l \<noteq> None) (l # lines) \<Longrightarrow>
      parse_lines jparse opts n (l # lines) fs ds = Inr (fs @ List.map_filter (line_frame jparse opts) (l # lines), ds)"
    for n fs ds
    using Cons.IH(1) by (auto simp: map_filter_simps classify_Inr [THEN iffD2])
  show "\<not> list_all (\<lambda>l. line_frame jparse opts l \<noteq> None) (l # lines) \<Longrightarrow>
      \<exists>bad. parse_lines jparse opts n (l # lines) fs ds = Inl bad" for n fs ds
  proof (cases "classify_line jparse opts n l")
    case (Inr v)
    assume "\<not> list_all (\<lambda>l. line_frame jparse opts l \<noteq> None) (l # lines)"
    moreover have "line_frame jparse opts l = Some v" using Inr by (rule classify_Inr [THEN iffD1])
    ultimately show ?thesis using Cons.IH(2) by (simp add: Inr)
  qed (simp add: assms)
qed

lemma decode_bytes_prefix:
  "\<exists>p. prefix p s \<and> (decode_bytes s = p \<or> decode_bytes s = p @ replacement_character)"
proof (induction s rule: decode_bytes.induct)
  case (2 c cs)
  let ?n = "utf8_length c - 1"
  show ?case
  proof (cases "length cs < ?n")
    case False
    then obtain p where p: "prefix p (drop ?n cs)"
        "decode_bytes (drop ?n cs) = p \<or> decode_bytes (drop ?n cs) = p @ replacement_character"
      using 2 by blast
    then have "prefix (c # take ?n cs @ p) (c # cs)" by (metis Cons_prefix_Cons append_take_drop_id same_prefix_prefix)
    then show ?thesis using p(2) False by (intro exI [of _ "c # take ?n cs @ p"]) auto
  qed (auto intro: exI [of _ "[]"])
qed simp

lemma drop_replacements_suffix: "suffix (drop_replacements s) s"
proof (induction s rule: drop_replacements.induct)
  case (1 a b c s)
  then show ?case by (auto intro: suffix_ConsI)
qed simp_all

lemma drop_replacements_once:
  "suffix (drop_replacements (rev (p @ replacement_character))) (rev p)"
  using drop_replacements_suffix [of "rev p"] by (simp add: replacement_character_def)

lemma byteSlice_prefix:
  assumes "m < int (length s)"
  shows "prefix (byteSlice s m) (drop_byte_order_mark s)"
proof -
  define e where "e = take (nat (if m < 0 then int (length s) + m else m)) s"
  obtain p where p: "prefix p (drop_byte_order_mark e)"
      "decode_bytes (drop_byte_order_mark e) = p \<or> decode_bytes (drop_byte_order_mark e) = p @ replacement_character"
    using decode_bytes_prefix by blast
  have b: "byteSlice s m = rev (drop_replacements (rev (decode_bytes (drop_byte_order_mark e))))"
    using assms by (simp add: byteSlice_def e_def Let_def)
  have "suffix (drop_replacements (rev (decode_bytes (drop_byte_order_mark e)))) (rev p)"
    using p(2) drop_replacements_suffix [of "rev p"] drop_replacements_once [of p] by auto
  then have bp: "prefix (byteSlice s m) p" unfolding b suffix_to_prefix by simp
  define n where "n = nat (if m < 0 then int (length s) + m else m)"
  have en: "e = take n s" by (simp add: e_def n_def)
  show ?thesis
  proof (cases "starts_with s byte_order_mark")
    case True
    then obtain r where s: "s = byte_order_mark @ r" by (auto simp: starts_with_iff prefix_def)
    have len: "length byte_order_mark = 3" by (simp add: byte_order_mark_def)
    show ?thesis
    proof (cases "3 \<le> n")
      case True
      then have "e = byte_order_mark @ take (n - 3) r" by (simp add: en s len)
      then have "drop_byte_order_mark e = take (n - 3) r" "drop_byte_order_mark s = r"
        by (simp_all add: drop_byte_order_mark_def starts_with_iff s len)
      then show ?thesis using bp p(1) by (metis prefix_order.trans take_is_prefix)
    next
      case False
      then have "n = 0 \<or> n = 1 \<or> n = 2" by auto
      then have "drop_replacements (rev (decode_bytes (drop_byte_order_mark e))) = []"
        unfolding en s by (elim disjE) (simp_all add: byte_order_mark_def drop_byte_order_mark_def utf8_length_def
            replacement_character_def Let_def numeral_2_eq_2)
      then show ?thesis by (simp add: b)
    qed
  next
    case False
    then have "\<not> starts_with e byte_order_mark"
      unfolding en starts_with_iff by (metis append.assoc append_take_drop_id)
    then show ?thesis using bp p(1) False unfolding drop_byte_order_mark_def en
      by (simp add: take_is_prefix) (metis prefix_order.trans take_is_prefix)
  qed
qed

lemma whole_lines_prefix: "prefix (whole_lines s) s"
  unfolding whole_lines_def by (metis rev_append rev_rev_ident prefixI takeWhile_dropWhile_id)

lemma whole_lines_end: "whole_lines s = [] \<or> (\<exists>a. whole_lines s = a @ [nl])"
  unfolding whole_lines_def
  by (metis (mono_tags, lifting) dropWhile_eq_Cons_conv list.exhaust rev.simps(1) rev.simps(2))

lemma output_lines_prefix:
  assumes "prefix w s" and "w = [] \<or> (\<exists>a. w = a @ [nl])"
  shows "prefix (output_lines w) (output_lines s)"
  using assms(2)
proof
  assume "w = []"
  then show ?thesis by (simp add: output_lines_def Let_def js_trim_def js_trim_start_def js_trim_end_def)
next
  assume "\<exists>a. w = a @ [nl]"
  then obtain a where a: "w = a @ [nl]" ..
  obtain r where s: "s = w @ r" using assms(1) by (auto simp: prefix_def)
  have w: "js_split nl w = js_split nl a @ [[]]" using split_append_slash [of nl a "[]"] by (simp add: a)
  have sp: "js_split nl s = js_split nl a @ js_split nl r" using split_append_slash [of nl a r] by (simp add: s a)
  show ?thesis
    unfolding output_lines_def Let_def w sp
    by (simp add: butlast_append js_trim_def js_trim_start_def js_trim_end_def)
qed

lemma map_filter_prefix: "prefix xs ys \<Longrightarrow> prefix (List.map_filter f xs) (List.map_filter f ys)"
  by (auto simp: prefix_def map_filter_def)

section \<open>Properties\<close>

text \<open>
  C13. The scan of a launch envelope for forbidden fields decides exactly what it is meant to: it lets a value
  through if and only if no key at any depth is forbidden, no string is over 256 KiB, no array over 1000 items, no
  part more than 32 levels deep, and the value has at most 5000 objects and arrays.
\<close>

theorem forbidden_scan_exact:
  "findForbiddenEnvelopeField v = None \<longleftrightarrow> admissible_part 0 v \<and> containers v \<le> 5000"
  by (rule forbidden_field_none)

text \<open>
  C14. An accepted launch envelope carries no forbidden field anywhere: no key at any depth, whatever it is nested
  in, is in the list of private fields or ends in token, secret or apikey; the value returned is the one received, of
  version 1, without errors, and an old configuration is not mixed with a draft.
\<close>

theorem accepted_envelope_is_public:
  assumes "validateP2pWorkflowLaunchEnvelope v = V_ok e ds"
  shows "e = v \<and> (\<nexists>k. key_in k v \<and> forbidden_key k) \<and> containers v \<le> 5000 \<and>
    jget v ''workflowSchemaVersion'' = jint 1 \<and> \<not> mixes_schemas v \<and> \<not> has_error ds"
  using accepted_envelopeE [OF assms] admissible_keys by (auto simp: forbidden_field_none)

definition sample_envelope :: json where
  "sample_envelope = JObj [(''workflowSchemaVersion'', jint 1), (''workflowKind'', JStr ''advanced''),
     (''launchContext'', JObj [(''requestId'', JStr ''r1'')])]"

lemma sample_envelope_accepted: "validateP2pWorkflowLaunchEnvelope sample_envelope = V_ok sample_envelope []"
  by code_simp

theorem accepted_envelope_is_public_witness:
  "sample_envelope = sample_envelope \<and> (\<nexists>k. key_in k sample_envelope \<and> forbidden_key k) \<and> containers sample_envelope \<le> 5000 \<and>
    jget sample_envelope ''workflowSchemaVersion'' = jint 1 \<and> \<not> mixes_schemas sample_envelope \<and> \<not> has_error []"
  by (rule accepted_envelope_is_public [OF sample_envelope_accepted])

lemma line_frame_mode [simp]:
  "line_frame jparse (opts\<lparr>po_strict := b\<rparr>) = line_frame jparse opts"
  "line_frame jparse (opts\<lparr>po_maxTotalBytes := n\<rparr>) = line_frame jparse opts"
  by (rule ext; simp add: line_frame_def classify_line_def cong: option.case_cong)+

lemma all_frames_length:
  "list_all (\<lambda>l. f l \<noteq> None) ls \<Longrightarrow> length (List.map_filter f ls) = length ls"
  by (induction ls) (auto simp: map_filter_simps)

text \<open>
  Strict parsing of a script's output is lenient parsing without losses: output that the strict parser accepts
  gives the same frames and the same final frame in lenient mode, without a warning and without truncation, and every
  line of it that is not blank is one of the frames.
\<close>

theorem strict_output_is_lenient:
  assumes "parseP2pScriptMachineOutput jparse s opts = Mo_ok fs f ds t" and "po_strict opts"
  shows "parseP2pScriptMachineOutput jparse s (opts\<lparr>po_strict := False\<rparr>) = Mo_ok fs f [] False \<and>
    ds = [] \<and> \<not> t \<and> length fs = length (output_lines s)"
proof -
  have fits: "\<not> po_maxTotalBytes opts < int (length s)"
    using assms by (auto simp: parseP2pScriptMachineOutput_def invalidMachineOutput_def Let_def split: if_splits)
  let ?ls = "output_lines s"
  have all: "list_all (\<lambda>l. line_frame jparse opts l \<noteq> None) ?ls"
    using assms parse_lines_strict(2) [of opts jparse ?ls 1 "[]" "[]"] fits
    by (fastforce simp: parseP2pScriptMachineOutput_def Let_def split: sum.splits)
  obtain es where es: "parse_lines jparse (opts\<lparr>po_strict := False\<rparr>) 1 ?ls [] [] =
      Inr (List.map_filter (line_frame jparse opts) ?ls, es)" "es = []"
    using parse_lines_lenient [of "opts\<lparr>po_strict := False\<rparr>" jparse 1 ?ls "[]" "[]"] all by auto
  show ?thesis
    using assms fits all es parse_lines_strict(1) [OF assms(2) all, of 1 "[]" "[]"]
    by (auto simp: parseP2pScriptMachineOutput_def invalidMachineOutput_def Let_def all_frames_length split: if_splits)
qed

definition sample_frame :: json where
  "sample_frame = JObj [(''kind'', JStr script_machine_output_kind), (''routingKey'', JStr ''go'')]"

definition sample_parse :: "string \<Rightarrow> json option" where
  "sample_parse s = (if s = ''{}'' then Some sample_frame else None)"

lemma sample_output_strict:
  "parseP2pScriptMachineOutput sample_parse ''{}'' (default_parse_options\<lparr>po_strict := True\<rparr>) = Mo_ok [sample_frame] sample_frame [] False"
  by code_simp

theorem strict_output_is_lenient_witness:
  "parseP2pScriptMachineOutput sample_parse ''{}'' (default_parse_options\<lparr>po_strict := True, po_strict := False\<rparr>) =
      Mo_ok [sample_frame] sample_frame [] False \<and>
    ([] :: workflow_diagnostic list) = [] \<and> \<not> False \<and> length [sample_frame] = length (output_lines ''{}'')"
  by (rule strict_output_is_lenient [OF sample_output_strict]) (simp add: default_parse_options_def)

text \<open>
  C18. Cutting over-long output never tears a frame: in lenient mode the frames of cut output are a prefix of those that
  the whole output gives without its leading byte order mark (which the cut removes), and where nothing was cut they
  are all the frames of the output.
\<close>

theorem cut_output_keeps_frames_whole:
  assumes "parseP2pScriptMachineOutput jparse s opts = Mo_ok fs f ds t" and "\<not> po_strict opts"
  shows "(if t then prefix fs (List.map_filter (line_frame jparse opts) (output_lines (drop_byte_order_mark s)))
      else fs = List.map_filter (line_frame jparse opts) (output_lines s)) \<and> f = last fs \<and>
    (t \<longleftrightarrow> po_maxTotalBytes opts < int (length s))"
proof -
  define text' where "text' = (if po_maxTotalBytes opts < int (length s) then whole_lines (byteSlice s (po_maxTotalBytes opts)) else s)"
  have "fs = List.map_filter (line_frame jparse opts) (output_lines text') \<and> f = last fs \<and> t = (po_maxTotalBytes opts < int (length s))"
  proof -
    let ?ds = "if po_maxTotalBytes opts < int (length s) then [makeP2pWorkflowWarning Dc_script_machine_output_invalid (Some Dp_execute)
             (with_summary (''machine output truncated at '' @ int_str (po_maxTotalBytes opts) @
               '' bytes; some trailing frames discarded.''))] else []"
    obtain es where "parse_lines jparse opts 1 (output_lines text') [] ?ds = Inr (List.map_filter (line_frame jparse opts) (output_lines text'), ?ds @ es)"
      using parse_lines_lenient [OF assms(2), of jparse 1 "output_lines text'" "[]" ?ds] by auto
    then show ?thesis using assms
    by (auto simp: parseP2pScriptMachineOutput_def invalidMachineOutput_def Let_def text'_def split: if_splits)
  qed
  moreover have "prefix (output_lines text') (output_lines (drop_byte_order_mark s))" if "po_maxTotalBytes opts < int (length s)"
  proof (rule output_lines_prefix)
    show "prefix text' (drop_byte_order_mark s)"
      using that byteSlice_prefix [OF that] whole_lines_prefix prefix_order.trans by (auto simp: text'_def)
    show "text' = [] \<or> (\<exists>a. text' = a @ [nl])" using that whole_lines_end by (simp add: text'_def)
  qed
  ultimately show ?thesis by (auto simp: text'_def intro: map_filter_prefix)
qed

lemma sample_output_cut:
  "parseP2pScriptMachineOutput sample_parse (''{}'' @ [nl] @ ''{}'') (default_parse_options\<lparr>po_maxTotalBytes := 4\<rparr>) =
    Mo_ok [sample_frame] sample_frame [makeP2pWorkflowWarning Dc_script_machine_output_invalid (Some Dp_execute)
      (with_summary (''machine output truncated at 4 bytes; some trailing frames discarded.''))] True"
  by code_simp

theorem cut_output_keeps_frames_whole_witness:
  "prefix [sample_frame] (List.map_filter (line_frame sample_parse (default_parse_options\<lparr>po_maxTotalBytes := 4\<rparr>))
      (output_lines (drop_byte_order_mark (''{}'' @ [nl] @ ''{}''))))"
  using cut_output_keeps_frames_whole [OF sample_output_cut] by (simp add: default_parse_options_def)

end
