(* ===== verification/P2pCompile.thy ===== *)
theory P2pCompile
  imports P2pValidate
begin

text \<open>
  From a draft to a compiled workflow: \<open>src/shared/p2p-workflow-compiler.ts\<close>.  A draft arrives as JSON; what the
  validators check is read into records, what they do not check (titles, the root, loop budgets, routing
  authorities, script and logic contracts) is kept as it came.  The collation of \<open>localeCompare\<close> is a parameter.
\<close>

section \<open>Drafts\<close>

record artifact_contract =
  ac_convention :: artifact_convention
  ac_paths :: "string list"
  ac_json :: json

record node_draft =
  nd_id :: string
  nd_title :: json
  nd_nodeKind :: node_kind
  nd_preset :: preset_key
  nd_dispatchStyle :: "dispatch_style option"
  nd_permissionScope :: "permission_scope option"
  nd_promptAppend :: json
  nd_summaryPromptOverride :: json
  nd_timeoutMs :: json
  nd_routingAuthority :: json
  nd_script :: json
  nd_logic :: json
  nd_artifacts :: "artifact_contract list"

record edge_draft =
  ed_id :: string
  ed_fromNodeId :: string
  ed_toNodeId :: string
  ed_edgeKind :: edge_kind
  ed_condition :: "(condition_kind \<times> string) option"
  ed_json :: json

record variable_definition =
  vd_name :: string
  vd_value :: variable_value
  vd_json :: json

record workflow_draft =
  dr_id :: string
  dr_nodes :: "node_draft list"
  dr_edges :: "edge_draft list"
  dr_rootNodeId :: json
  dr_variables :: "variable_definition list"
  dr_loopBudgets :: json

definition read_optional :: "(string \<times> 'a) list \<Rightarrow> json \<Rightarrow> 'a option option" where
  "read_optional table v = (if v = JUndefined then Some None else map_option Some (read_enum table v))"

definition read_artifact :: "json \<Rightarrow> artifact_contract option" where
  "read_artifact v =
    (case (read_enum p2p_artifact_conventions (jget v ''convention''), read_all as_string (jitems (jget v ''paths''))) of
       (Some c, Some ps) \<Rightarrow> Some \<lparr>ac_convention = c, ac_paths = ps, ac_json = v\<rparr>
     | _ \<Rightarrow> None)"

definition read_node :: "json \<Rightarrow> node_draft option" where
  "read_node v =
    (case (as_string (jget v ''id''), read_enum p2p_node_kinds (jget v ''nodeKind''),
           read_enum p2p_preset_keys (jget v ''preset''), read_optional p2p_dispatch_styles (jget v ''dispatchStyle''),
           read_optional p2p_permission_scopes (jget v ''permissionScope''),
           read_all read_artifact (jitems (jget v ''artifacts''))) of
       (Some i, Some k, Some p, Some ds, Some ps, Some arts) \<Rightarrow> Some
         \<lparr>nd_id = i, nd_title = jget v ''title'', nd_nodeKind = k, nd_preset = p, nd_dispatchStyle = ds,
          nd_permissionScope = ps, nd_promptAppend = jget v ''promptAppend'',
          nd_summaryPromptOverride = jget v ''summaryPromptOverride'', nd_timeoutMs = jget v ''timeoutMs'',
          nd_routingAuthority = jget v ''routingAuthority'', nd_script = jget v ''script'', nd_logic = jget v ''logic'',
          nd_artifacts = arts\<rparr>
     | _ \<Rightarrow> None)"

definition read_edge_condition :: "json \<Rightarrow> (condition_kind \<times> string) option" where
  "read_edge_condition v =
    (case (read_enum p2p_condition_kinds (jget v ''kind''), jget v ''equals'') of
       (Some k, JStr s) \<Rightarrow> Some (k, s) | _ \<Rightarrow> None)"

definition read_edge :: "json \<Rightarrow> edge_draft option" where
  "read_edge v =
    (case (as_string (jget v ''id''), as_string (jget v ''fromNodeId''), as_string (jget v ''toNodeId''),
           read_enum p2p_edge_kinds (jget v ''edgeKind'')) of
       (Some i, Some f, Some t, Some k) \<Rightarrow> Some
         \<lparr>ed_id = i, ed_fromNodeId = f, ed_toNodeId = t, ed_edgeKind = k,
          ed_condition = read_edge_condition (jget v ''condition''), ed_json = v\<rparr>
     | _ \<Rightarrow> None)"

definition read_variable_value :: "json \<Rightarrow> variable_value option" where
  "read_variable_value v =
    (case v of JStr s \<Rightarrow> Some (Vv_str s) | JNum n \<Rightarrow> Some (Vv_num n) | JBool b \<Rightarrow> Some (Vv_bool b)
     | JArr xs \<Rightarrow> map_option Vv_list (read_all as_string xs) | _ \<Rightarrow> None)"

definition read_variable :: "json \<Rightarrow> variable_definition option" where
  "read_variable v =
    (case (as_string (jget v ''name''), read_variable_value (jget v ''value'')) of
       (Some n, Some x) \<Rightarrow> Some \<lparr>vd_name = n, vd_value = x, vd_json = v\<rparr> | _ \<Rightarrow> None)"

definition read_draft :: "json \<Rightarrow> workflow_draft option" where
  "read_draft v =
    (case (as_string (jget v ''id''), read_all read_node (jitems (jget v ''nodes'')),
           read_all read_edge (jitems (jget v ''edges'')), read_all read_variable (jitems (jget v ''variables''))) of
       (Some i, Some ns, Some es, Some vs) \<Rightarrow> Some
         \<lparr>dr_id = i, dr_nodes = ns, dr_edges = es, dr_rootNodeId = jget v ''rootNodeId'', dr_variables = vs,
          dr_loopBudgets = jget v ''loopBudgets''\<rparr>
     | _ \<Rightarrow> None)"

section \<open>The graph\<close>

definition node_ids :: "workflow_draft \<Rightarrow> string list" where
  "node_ids d = map nd_id (dr_nodes d)"

definition outgoing :: "edge_kind \<Rightarrow> string \<Rightarrow> edge_draft list \<Rightarrow> edge_draft list" where
  "outgoing kind n es = filter (\<lambda>e. ed_fromNodeId e = n \<and> ed_edgeKind e = kind) es"

definition findRootNodeId :: "workflow_draft \<Rightarrow> json" where
  "findRootNodeId d =
    (if jtruthy (dr_rootNodeId d) then dr_rootNodeId d
     else
       let targets = map ed_toNodeId (dr_edges d); roots = filter (\<lambda>i. i \<notin> set targets) (node_ids d)
       in if length roots = 1 then JStr (hd roots) else JNull)"

definition draft_root :: "workflow_draft \<Rightarrow> json" where
  "draft_root d = jnullish (dr_rootNodeId d) (findRootNodeId d)"

text \<open>One round over the edges, and rounds until nothing changes.\<close>

definition reach_pass :: "edge_draft list \<Rightarrow> string list \<Rightarrow> string list" where
  "reach_pass es r = foldl (\<lambda>r e. if ed_fromNodeId e \<in> set r \<and> ed_toNodeId e \<notin> set r then r @ [ed_toNodeId e] else r) r es"

lemma reach_pass_extends: "\<exists>ts. reach_pass es r = r @ ts \<and> set ts \<subseteq> ed_toNodeId ` set es - set r"
proof (induction es arbitrary: r)
  case Nil
  then show ?case by (simp add: reach_pass_def)
next
  case (Cons e es)
  let ?r = "if ed_fromNodeId e \<in> set r \<and> ed_toNodeId e \<notin> set r then r @ [ed_toNodeId e] else r"
  have "reach_pass (e # es) r = reach_pass es ?r" by (simp add: reach_pass_def)
  moreover obtain ts where "reach_pass es ?r = ?r @ ts" "set ts \<subseteq> ed_toNodeId ` set es - set ?r" using Cons by blast
  ultimately show ?case by (auto split: if_splits)
qed

function collect_from :: "edge_draft list \<Rightarrow> string list \<Rightarrow> string list" where
  "collect_from es r = (let r' = reach_pass es r in if r' = r then r else collect_from es r')"
  by pat_completeness auto

termination
proof (relation "measure (\<lambda>(es, r). card (ed_toNodeId ` set es - set r))")
  fix es r r'
  assume r': "r' = reach_pass es r" and ne: "r' \<noteq> r"
  obtain ts where ts: "reach_pass es r = r @ ts" "set ts \<subseteq> ed_toNodeId ` set es - set r" using reach_pass_extends by blast
  with r' ne obtain t where "t \<in> set ts" by (cases ts) auto
  then have "ed_toNodeId ` set es - set r' \<subset> ed_toNodeId ` set es - set r" using ts r' by auto
  then show "((es, r'), es, r) \<in> measure (\<lambda>(es, r). card (ed_toNodeId ` set es - set r))"
    by (simp add: psubset_card_mono)
qed simp

declare collect_from.simps [simp del]

definition collectReachable :: "string \<Rightarrow> edge_draft list \<Rightarrow> string list" where
  "collectReachable start es = collect_from es [start]"

section \<open>Diagnostics of a draft\<close>

definition graph_issue :: "string \<Rightarrow> string \<Rightarrow> workflow_diagnostic" where
  "graph_issue path text' = diag Dc_invalid_workflow_graph Dp_compile (at_field_because path text')"

definition condition_values :: "edge_draft list \<Rightarrow> string list" where
  "condition_values es = sort (concat (map (\<lambda>e. case ed_condition e of Some (k, v) \<Rightarrow> if v = [] then [] else [v] | None \<Rightarrow> []) es))"

definition authority_json :: "string \<Rightarrow> string \<Rightarrow> string list \<Rightarrow> json" where
  "authority_json kind field vs = JObj [(''kind'', JStr kind), (field, JArr (map JStr vs))]"

definition deriveRoutingAuthority :: "node_draft \<Rightarrow> edge_draft list \<Rightarrow> json" where
  "deriveRoutingAuthority n es =
    (let conditionalEdges = outgoing Ek_conditional (nd_id n) es in
     if conditionalEdges = [] then JObj [(''kind'', JStr ''none'')]
     else (case nd_nodeKind n of
         Nk_script \<Rightarrow> authority_json ''script_routing_key'' ''allowedKeys'' (condition_values conditionalEdges)
       | Nk_logic \<Rightarrow> authority_json ''logic_marker'' ''allowedMarkers'' (condition_values conditionalEdges)
       | Nk_llm \<Rightarrow> authority_json ''audit_verdict_marker'' ''allowedMarkers'' (condition_values conditionalEdges)))"

definition routing_authority :: "node_draft \<Rightarrow> edge_draft list \<Rightarrow> json" where
  "routing_authority n es = jnullish (nd_routingAuthority n) (deriveRoutingAuthority n es)"

fun duplicate_ids :: "string \<Rightarrow> string \<Rightarrow> string list \<Rightarrow> string list \<Rightarrow> workflow_diagnostic list" where
  "duplicate_ids kind text' seen [] = []"
| "duplicate_ids kind text' seen (i # ids) =
     complain (i \<in> set seen) (graph_issue (kind @ ''.'' @ i) text') @ duplicate_ids kind text' (i # seen) ids"

fun edge_issues :: "string list \<Rightarrow> string list \<Rightarrow> edge_draft list \<Rightarrow> workflow_diagnostic list" where
  "edge_issues ids seen [] = []"
| "edge_issues ids seen (e # es) =
     complain (ed_id e \<in> set seen) (graph_issue (''edges.'' @ ed_id e) ''Duplicate edge id.'') @
     complain (ed_fromNodeId e \<notin> set ids \<or> ed_toNodeId e \<notin> set ids)
       (graph_issue (''edges.'' @ ed_id e) ''Edge points to missing node.'') @
     edge_issues ids (ed_id e # seen) es"

definition logic_issues :: "node_draft \<Rightarrow> workflow_diagnostic list" where
  "logic_issues n =
    (let path = ''nodes.'' @ nd_id n @ ''.logic'' in
     if nd_nodeKind n = Nk_logic
     then if \<not> jtruthy (nd_logic n) then [graph_issue path ''Logic node MUST declare a `logic` contract.'']
       else map (\<lambda>i. graph_issue (li_fieldPath i) (li_summary i)) (validateP2pLogicContract (nd_logic n) path)
     else complain (nd_logic n \<noteq> JUndefined)
       (graph_issue path ''Only nodeKind: logic nodes may declare a `logic` contract.''))"

definition node_issues :: "edge_draft list \<Rightarrow> node_draft \<Rightarrow> workflow_diagnostic list" where
  "node_issues es n =
    (let path = ''nodes.'' @ nd_id n; defaults = outgoing Ek_default (nd_id n) es;
         conditionals = outgoing Ek_conditional (nd_id n) es
     in logic_issues n @
        complain (1 < length defaults) (graph_issue path ''Multiple default edges are not supported.'') @
        (if conditionals = [] then []
         else
           complain (1 < length conditionals) (graph_issue path
             (''Multiple conditional outgoing edges ('' @ nat_str (length conditionals) @
              '') are not supported in v1; declare at most one per node.'')) @
           complain (jget (routing_authority n es) ''kind'' = JStr ''none'')
             (diag Dc_invalid_routing_authority Dp_compile (at_field (path @ ''.routingAuthority''))) @
           concat (map (\<lambda>e. complain (ed_condition e = None)
             (diag Dc_invalid_edge_condition Dp_compile (at_field (''edges.'' @ ed_id e @ ''.condition'')))) conditionals)))"

definition is_openspec_contract :: "artifact_contract \<Rightarrow> bool" where
  "is_openspec_contract a \<longleftrightarrow> ac_convention a = Ac_openspec_convention"

definition validateGraphShape :: "workflow_draft \<Rightarrow> workflow_diagnostic list" where
  "validateGraphShape d =
    (let ids = node_ids d; es = dr_edges d; root = draft_root d;
         openspecNodeIds = map nd_id (filter (\<lambda>n. list_ex is_openspec_contract (nd_artifacts n)) (dr_nodes d))
     in
       complain (1 < length openspecNodeIds) (diag Dc_invalid_workflow_graph Dp_compile (with_summary
         (''At most one node may declare an openspec_convention artifact contract per workflow (found: '' @
          js_join '', '' openspecNodeIds @ '').''))) @
       duplicate_ids ''nodes'' ''Duplicate node id.'' [] ids @
       edge_issues ids [] es @
       complain (\<not> jtruthy root \<or> \<not> string_in ids root)
         (graph_issue ''rootNodeId'' ''Workflow must have exactly one root.'') @
       concat (map (node_issues es) (dr_nodes d)) @
       (if jtruthy root
        then concat (map (\<lambda>n. complain (\<not> (is_jstr root \<and> nd_id n \<in> set (collectReachable (jtext root) es)))
          (graph_issue (''nodes.'' @ nd_id n) ''Unreachable node.'')) (dr_nodes d))
        else []))"

text \<open>
  \<open>budgets?.[id]\<close> on the budgets of a draft, which the code takes for a plain object: a member that it does not have
  may be inherited.  What is inherited is a function or an object; an empty object stands for it, for nothing but its
  being no number is ever used.
\<close>

definition read_member :: "(string \<times> json) list \<Rightarrow> string \<Rightarrow> json" where
  "read_member kvs k =
    (case map_of kvs k of Some v \<Rightarrow> v
     | None \<Rightarrow> if k \<in> set object_prototype_members then JObj [] else JUndefined)"

definition budget_read :: "json \<Rightarrow> string \<Rightarrow> json" where
  "budget_read budgets k = (if budgets = JUndefined \<or> budgets = JNull then JUndefined else read_member (jmembers budgets) k)"

text \<open>\<open>new Map(nodes.map((node, index) => [node.id, index]))\<close>: of equal ids the last one counts.\<close>

definition node_order :: "string list \<Rightarrow> string \<Rightarrow> nat option" where
  "node_order ids i = map_of (rev (zip ids [0..<length ids])) i"

definition backward_edge :: "string list \<Rightarrow> edge_draft \<Rightarrow> bool" where
  "backward_edge ids e =
    (case (node_order ids (ed_fromNodeId e), node_order ids (ed_toNodeId e)) of
       (Some f, Some t) \<Rightarrow> t \<le> f | _ \<Rightarrow> False)"

definition edge_budget_issues :: "workflow_draft \<Rightarrow> edge_draft \<Rightarrow> workflow_diagnostic list" where
  "edge_budget_issues d e =
    (let ids = node_ids d; path = ''loopBudgets.'' @ ed_id e; budget = budget_read (dr_loopBudgets d) (ed_id e) in
     if node_order ids (ed_fromNodeId e) = None \<or> node_order ids (ed_toNodeId e) = None then []
     else
       complain (backward_edge ids e \<and> budget = JUndefined)
         (graph_issue path ''Backward edges require edge-scoped loop budgets.'') @
       complain (budget \<noteq> JUndefined \<and> \<not> integer_where (\<lambda>i. 0 \<le> i) budget)
         (graph_issue path ''Loop budget must be a non-negative integer.''))"

definition validateLoopBudgets :: "workflow_draft \<Rightarrow> workflow_diagnostic list" where
  "validateLoopBudgets d =
    concat (map (edge_budget_issues d) (dr_edges d)) @
    concat (map (\<lambda>k. complain (k \<notin> set (map ed_id (dr_edges d)))
      (graph_issue (''loopBudgets.'' @ k) ''Loop budgets must be keyed by edge id.'')) (map fst (jmembers (dr_loopBudgets d))))"

section \<open>The compiled workflow\<close>

record compiled_node =
  cn_id :: string
  cn_title :: json
  cn_nodeKind :: node_kind
  cn_preset :: preset_key
  cn_dispatchStyle :: "dispatch_style option"
  cn_permissionScope :: permission_scope
  cn_promptAppend :: json
  cn_summaryPromptOverride :: json
  cn_routingAuthority :: json
  cn_script :: json
  cn_logic :: json
  cn_artifacts :: "artifact_contract list"

record compiled_workflow =
  cw_workflowId :: string
  cw_rootNodeId :: string
  cw_nodes :: "compiled_node list"
  cw_edges :: "edge_draft list"
  cw_variables :: "variable_definition list"
  cw_loopBudgets :: "(string \<times> json) list"
  cw_derivedRequiredCapabilities :: "string list"
  cw_staticPolicyHash :: string
  cw_workflowContractHash :: string
  cw_diagnostics :: "workflow_diagnostic list"

text \<open>\<open>...(x ? { k: x } : {})\<close>\<close>

definition keep_truthy :: "json \<Rightarrow> json" where
  "keep_truthy v = (if jtruthy v then v else JUndefined)"

definition compileNode :: "edge_draft list \<Rightarrow> node_draft \<Rightarrow> compiled_node" where
  "compileNode es n =
    \<lparr>cn_id = nd_id n, cn_title = keep_truthy (nd_title n), cn_nodeKind = nd_nodeKind n, cn_preset = nd_preset n,
     cn_dispatchStyle = nd_dispatchStyle n,
     cn_permissionScope = opt_default Ps_analysis_only (nd_permissionScope n),
     cn_promptAppend = keep_truthy (nd_promptAppend n),
     cn_summaryPromptOverride = keep_truthy (nd_summaryPromptOverride n),
     cn_routingAuthority = routing_authority n es, cn_script = keep_truthy (nd_script n),
     cn_logic = keep_truthy (nd_logic n), cn_artifacts = nd_artifacts n\<rparr>"

definition deriveRequiredCapabilities :: "compiled_node list \<Rightarrow> string list" where
  "deriveRequiredCapabilities ns =
    sort ([cap_workflow] @
      (if list_ex (\<lambda>n. cn_nodeKind n = Nk_script) ns then [cap_script_argv] else []) @
      (if list_ex (\<lambda>n. cn_nodeKind n = Nk_script \<and> jget (cn_script n) ''commandKind'' = JStr ''interpreter'') ns
       then [cap_script_interpreter] else []) @
      (if list_ex (\<lambda>n. list_ex is_openspec_contract (cn_artifacts n)) ns then [cap_openspec_artifacts] else []) @
      (if list_ex (\<lambda>n. cn_permissionScope n = Ps_implementation) ns then [cap_implementation] else []))"

text \<open>\<open>output[key] = ...\<close> with the key \<open>__proto__\<close> sets no member.\<close>

definition sortedRecord :: "(string \<times> json) list \<Rightarrow> (string \<times> json) list" where
  "sortedRecord kvs = sort_key fst (filter (\<lambda>(k, v). k \<noteq> ''__proto__'') kvs)"

definition compiled_node_json :: "compiled_node \<Rightarrow> json" where
  "compiled_node_json n =
    JObj [(''id'', JStr (cn_id n)), (''title'', cn_title n),
      (''nodeKind'', JStr (enum_name p2p_node_kinds (cn_nodeKind n))),
      (''preset'', JStr (enum_name p2p_preset_keys (cn_preset n))),
      (''dispatchStyle'', case cn_dispatchStyle n of None \<Rightarrow> JUndefined | Some x \<Rightarrow> JStr (enum_name p2p_dispatch_styles x)),
      (''permissionScope'', JStr (enum_name p2p_permission_scopes (cn_permissionScope n))),
      (''promptAppend'', cn_promptAppend n), (''summaryPromptOverride'', cn_summaryPromptOverride n),
      (''routingAuthority'', cn_routingAuthority n), (''script'', cn_script n), (''logic'', cn_logic n),
      (''artifacts'', JArr (map ac_json (cn_artifacts n)))]"

definition contract_json :: "compiled_workflow \<Rightarrow> json" where
  "contract_json w =
    JObj [(''schemaVersion'', jint 1), (''workflowId'', JStr (cw_workflowId w)), (''rootNodeId'', JStr (cw_rootNodeId w)),
      (''nodes'', JArr (map compiled_node_json (cw_nodes w))), (''edges'', JArr (map ed_json (cw_edges w))),
      (''variables'', JArr (map vd_json (cw_variables w))), (''loopBudgets'', JObj (cw_loopBudgets w)),
      (''derivedRequiredCapabilities'', JArr (map JStr (cw_derivedRequiredCapabilities w))),
      (''staticPolicyHash'', JStr (cw_staticPolicyHash w))]"

definition compile_diagnostics :: "workflow_draft \<Rightarrow> static_policy \<Rightarrow> workflow_diagnostic list" where
  "compile_diagnostics d p =
    complain (sp_maxNodes p < int (length (dr_nodes d)) \<or> sp_maxEdges p < int (length (dr_edges d)))
      (diag Dc_invalid_workflow_graph Dp_compile (with_summary ''Workflow exceeds static policy size limits.'')) @
    validateGraphShape d @ validateP2pWorkflowVariables (map vd_json (dr_variables d)) @ validateLoopBudgets d"

definition assemble_workflow :: "(string \<Rightarrow> string \<Rightarrow> int) \<Rightarrow> workflow_draft \<Rightarrow> static_policy \<Rightarrow> compiled_workflow" where
  "assemble_workflow lc d p =
    (let nodes = map (compileNode (dr_edges d)) (js_sort_by (\<lambda>a b. lc (nd_id a) (nd_id b)) (dr_nodes d));
         w = \<lparr>cw_workflowId = dr_id d, cw_rootNodeId = jtext (draft_root d), cw_nodes = nodes,
           cw_edges = js_sort_by (\<lambda>a b. lc (ed_id a) (ed_id b)) (dr_edges d),
           cw_variables = js_sort_by (\<lambda>a b. lc (vd_name a) (vd_name b)) (dr_variables d),
           cw_loopBudgets = sortedRecord (jmembers (dr_loopBudgets d)),
           cw_derivedRequiredCapabilities = deriveRequiredCapabilities nodes,
           cw_staticPolicyHash = hashP2pStaticPolicy p, cw_workflowContractHash = [], cw_diagnostics = []\<rparr>
     in w\<lparr>cw_workflowContractHash := stableHash (stableStringify (contract_json w))\<rparr>)"

text \<open>
  A draft that the validators accept can be read (\<^const>\<open>read_draft\<close>, see below), so the second case of the
  match does not occur.
\<close>

definition compileP2pWorkflowDraft ::
  "(string \<Rightarrow> string \<Rightarrow> int) \<Rightarrow> json \<Rightarrow> static_policy \<Rightarrow> compiled_workflow validation" where
  "compileP2pWorkflowDraft lc input p =
    (case validateP2pWorkflowDraft input of
       V_bad ds \<Rightarrow> V_bad ds
     | V_ok _ ds \<Rightarrow>
         (case read_draft input of
            None \<Rightarrow> V_bad ds
          | Some d \<Rightarrow>
              let all = ds @ compile_diagnostics d p
              in if has_error all then V_bad all else V_ok (assemble_workflow lc d p) all))"

section \<open>What the validators accept can be read\<close>

lemma error_codes [simp]:
  "Dc_invalid_workflow_graph \<notin> warning_codes" "Dc_unsafe_artifact_path \<notin> warning_codes"
  "Dc_invalid_workflow_variable \<notin> warning_codes" "Dc_invalid_edge_condition \<notin> warning_codes"
  "Dc_invalid_script_contract \<notin> warning_codes" "Dc_invalid_prompt_append \<notin> warning_codes"
  "Dc_missing_context_source \<notin> warning_codes" "Dc_context_source_too_large \<notin> warning_codes"
  "Dc_invalid_routing_authority \<notin> warning_codes" "Dc_invalid_launch_envelope \<notin> warning_codes"
  "Dc_missing_required_capability \<notin> warning_codes" "Dc_script_executable_denied \<notin> warning_codes"
  "Dc_daemon_busy \<notin> warning_codes"
  by (simp_all add: warning_codes_def)

lemma complain_nil [simp]: "has_error (complain b (diag c ph ex)) \<longleftrightarrow> b \<and> c \<notin> warning_codes"
  by (simp add: complain_def)

lemma has_error_concat: "has_error (concat dss) \<longleftrightarrow> list_ex has_error dss"
  by (induction dss) auto

lemma no_error_enumerate:
  "\<not> has_error (concat (map (\<lambda>(i, x). f x (g i)) (enumerate n xs))) \<Longrightarrow> x \<in> set xs \<Longrightarrow> \<exists>path. \<not> has_error (f x path)"
  using enumerate_nth [of x xs n] by (force simp: has_error_concat list_ex_iff)

lemma as_string_where: "jstr_where P v \<Longrightarrow> \<exists>s. as_string v = Some s \<and> P s"
  by (cases v) (auto simp: jstr_where_def as_string_def)

lemma read_all_exists: "(\<And>x. x \<in> set xs \<Longrightarrow> \<exists>y. f x = Some y) \<Longrightarrow> \<exists>ys. read_all f xs = Some ys"
  by (induction xs) force+

lemma accepted_artifact:
  assumes "\<not> has_error (validateP2pArtifactContract a path)"
  shows "\<exists>x. read_artifact a = Some x"
proof -
  have rec: "is_record a" using assms by (rule contrapos_np) (simp add: validateP2pArtifactContract_def)
  note d = assms [unfolded validateP2pArtifactContract_def Let_def, simplified rec, simplified]
  obtain c where c: "read_enum p2p_artifact_conventions (jget a ''convention'') = Some c"
    using d by (auto simp: isOneOf_def)
  have items: "is_jarr (jget a ''paths'')" using d by (auto split: if_splits)
  have "\<exists>s. as_string p = Some s" if p: "p \<in> set (jitems (jget a ''paths''))" for p
  proof -
    have "\<not> has_error (concat (map (\<lambda>(i, p). complain (\<not> jstr_where (\<lambda>s. isP2pArtifactRelativePath s \<and> getP2pArtifactPathDepth s \<le> 8) p)
              (diag Dc_unsafe_artifact_path Dp_compile (at_field (at_index (path @ ''.paths'') i)))) (enumerate 0 (jitems (jget a ''paths'')))))"
      using d items p by (auto split: if_splits)
    from no_error_enumerate [where g = "\<lambda>i. i" and f = "\<lambda>p i. complain (\<not> jstr_where (\<lambda>s. isP2pArtifactRelativePath s \<and> getP2pArtifactPathDepth s \<le> 8) p)
              (diag Dc_unsafe_artifact_path Dp_compile (at_field (at_index (path @ ''.paths'') i)))", OF this p]
    show ?thesis by (auto dest: as_string_where)
  qed
  then obtain ps where "read_all as_string (jitems (jget a ''paths'')) = Some ps" using read_all_exists by metis
  with c show ?thesis by (simp add: read_artifact_def)
qed

lemma nonblank_string: "nonblank v \<Longrightarrow> \<exists>s. as_string v = Some s \<and> js_trim s \<noteq> []"
  unfolding nonblank_def by (rule as_string_where)

lemma read_optional_accepts: "\<not> (v \<noteq> JUndefined \<and> \<not> isOneOf v table) \<Longrightarrow> \<exists>x. read_optional table v = Some x"
  by (auto simp: read_optional_def isOneOf_def)

lemma accepted_node:
  assumes "\<not> has_error (validateNodeDraft n path)"
  shows "\<exists>x. read_node n = Some x"
proof -
  have rec: "is_record n" using assms by (rule contrapos_np) (simp add: validateNodeDraft_def)
  note d = assms [unfolded validateNodeDraft_def Let_def, simplified rec, simplified]
  obtain i where i: "as_string (jget n ''id'') = Some i" using d nonblank_string by blast
  obtain k pr where k: "read_enum p2p_node_kinds (jget n ''nodeKind'') = Some k"
      "read_enum p2p_preset_keys (jget n ''preset'') = Some pr"
    using d by (auto simp: isOneOf_def)
  obtain st sc where st: "read_optional p2p_dispatch_styles (jget n ''dispatchStyle'') = Some st"
      "read_optional p2p_permission_scopes (jget n ''permissionScope'') = Some sc"
    using d read_optional_accepts by metis
  have "\<exists>y. read_artifact a = Some y" if a: "a \<in> set (jitems (jget n ''artifacts''))" for a
  proof -
    have "jget n ''artifacts'' \<noteq> JUndefined" using a by (cases "jget n ''artifacts''") auto
    moreover have "is_jarr (jget n ''artifacts'')" using a by (cases "jget n ''artifacts''") auto
    ultimately have "\<not> has_error (concat (map (\<lambda>(i, a). validateP2pArtifactContract a (at_index (path @ ''.artifacts'') i))
        (enumerate 0 (jitems (jget n ''artifacts'')))))"
      using d by auto
    from no_error_enumerate [where f = validateP2pArtifactContract and g = "\<lambda>i. at_index (path @ ''.artifacts'') i", OF this a]
    show ?thesis by (elim exE) (rule accepted_artifact)
  qed
  then obtain arts where "read_all read_artifact (jitems (jget n ''artifacts'')) = Some arts" using read_all_exists [of "jitems (jget n ''artifacts'')" read_artifact] by blast
  with i k st show ?thesis by (simp add: read_node_def)
qed

lemma accepted_edge:
  assumes "\<not> has_error (validateEdgeDraft e path)"
  shows "\<exists>x. read_edge e = Some x \<and>
    (ed_edgeKind x = Ek_conditional \<longrightarrow> (\<exists>k v. ed_condition x = Some (k, v) \<and> v \<noteq> []))"
proof -
  have rec: "is_record e" using assms by (rule contrapos_np) (simp add: validateEdgeDraft_def)
  note d = assms [unfolded validateEdgeDraft_def Let_def, simplified rec, simplified]
  obtain i f t where ids: "as_string (jget e ''id'') = Some i" "as_string (jget e ''fromNodeId'') = Some f"
      "as_string (jget e ''toNodeId'') = Some t"
    using d nonblank_string by blast
  obtain k where k: "read_enum p2p_edge_kinds (jget e ''edgeKind'') = Some k" using d by (auto simp: isOneOf_def)
  have "\<exists>c v. read_edge_condition (jget e ''condition'') = Some (c, v) \<and> v \<noteq> []" if "k = Ek_conditional"
  proof -
    have "jget e ''edgeKind'' = JStr ''conditional''"
      using k that by (auto simp: read_enum_def p2p_edge_kinds_def split: json.splits if_splits)
    then have "\<not> has_error (validateEdgeCondition (jget e ''condition'') (path @ ''.condition''))" using d by auto
    then have "isOneOf (jget (jget e ''condition'') ''kind'') p2p_condition_kinds"
        "jstr_where (\<lambda>s. s \<noteq> []) (jget (jget e ''condition'') ''equals'')"
      by (simp_all add: validateEdgeCondition_def split: if_splits)
    then obtain c v where "read_enum p2p_condition_kinds (jget (jget e ''condition'') ''kind'') = Some c"
        "jget (jget e ''condition'') ''equals'' = JStr v" "v \<noteq> []"
      by (auto simp: isOneOf_def elim: jstr_where_elim)
    then show ?thesis by (simp add: read_edge_condition_def)
  qed
  with ids k show ?thesis by (simp add: read_edge_def)
qed

lemma accepted_variable:
  assumes "\<not> has_error (snd (validate_variable seen i v))"
  shows "\<exists>x. read_variable v = Some x"
proof -
  have rec: "is_record v" using assms by (rule contrapos_np) (simp add: validate_variable_def)
  have named: "jstr_where is_variable_name (jget v ''name'')"
    using assms rec by (auto simp: validate_variable_def Let_def split: if_splits)
  have "is_variable_value (jget v ''value'')"
    using assms rec by (auto simp: validate_variable_def Let_def split: if_splits)
  moreover have "list_all is_jstr xs \<Longrightarrow> \<exists>ss. read_all as_string xs = Some ss" for xs
    by (rule read_all_exists) (auto simp: list_all_iff as_string_def is_jstr.simps elim!: is_jstr.elims dest!: bspec)
  ultimately have "\<exists>x. read_variable_value (jget v ''value'') = Some x"
    by (cases "jget v ''value''") (auto simp: read_variable_value_def)
  with named show ?thesis by (auto simp: read_variable_def dest!: as_string_where)
qed

lemma accepted_variables:
  "\<not> has_error (validate_variables_from seen i vs) \<Longrightarrow> \<exists>xs. read_all read_variable vs = Some xs"
proof (induction vs arbitrary: seen i)
  case (Cons v vs)
  obtain seen' ds where v: "validate_variable seen i v = (seen', ds)" by force
  with Cons.prems have "\<not> has_error ds" "\<not> has_error (validate_variables_from seen' (Suc i) vs)" by auto
  then obtain x xs where "read_variable v = Some x" "read_all read_variable vs = Some xs"
    using accepted_variable [of seen i v] v Cons.IH [of seen' "Suc i"] by auto
  then show ?case by simp
qed simp

lemma read_all_Some_iff: "read_all f xs = Some ys \<longleftrightarrow> list_all2 (\<lambda>x y. f x = Some y) xs ys"
proof (induction xs arbitrary: ys)
  case Nil
  then show ?case by auto
next
  case (Cons x xs)
  then show ?case by (cases ys) (auto split: option.splits)
qed

text \<open>What the accepted draft is, as a record.\<close>

definition conditions_given :: "workflow_draft \<Rightarrow> bool" where
  "conditions_given d \<longleftrightarrow>
    list_all (\<lambda>e. ed_edgeKind e = Ek_conditional \<longrightarrow> (case ed_condition e of Some (k, v) \<Rightarrow> v \<noteq> [] | None \<Rightarrow> False)) (dr_edges d)"

lemma accepted_draft:
  assumes "validateP2pWorkflowDraft input = V_ok v ds"
  shows "v = input \<and> \<not> has_error ds \<and> (\<exists>d. read_draft input = Some d \<and> dr_nodes d \<noteq> [] \<and> conditions_given d)"
proof -
  have rec: "is_record input" and version: "jget input ''schemaVersion'' = jint 1"
      and ok: "\<not> has_error (draft_diagnostics input)" and eq: "v = input" "ds = draft_diagnostics input"
    using assms by (auto simp: validateP2pWorkflowDraft_def Let_def split: if_splits)
  note d = ok [unfolded draft_diagnostics_def Let_def, simplified]
  obtain i where i: "as_string (jget input ''id'') = Some i" using d nonblank_string by blast
  have nodes: "is_jarr (jget input ''nodes'')" "jitems (jget input ''nodes'') \<noteq> []"
    using d by (auto split: if_splits)
  have "\<exists>y. read_node n = Some y" if n: "n \<in> set (jitems (jget input ''nodes''))" for n
  proof -
    have "\<not> has_error (concat (map (\<lambda>(i, n). validateNodeDraft n (at_index ''nodes'' i)) (enumerate 0 (jitems (jget input ''nodes'')))))"
      using d nodes by auto
    from no_error_enumerate [where f = validateNodeDraft and g = "\<lambda>i. at_index ''nodes'' i", OF this n]
    show ?thesis by (elim exE) (rule accepted_node)
  qed
  then obtain ns where ns: "read_all read_node (jitems (jget input ''nodes'')) = Some ns" using read_all_exists [of "jitems (jget input ''nodes'')" read_node] by blast
  have e: "\<exists>x. read_edge n = Some x \<and> (ed_edgeKind x = Ek_conditional \<longrightarrow> (\<exists>k v. ed_condition x = Some (k, v) \<and> v \<noteq> []))"
    if n: "n \<in> set (jitems (jget input ''edges''))" for n
  proof -
    have "is_jarr (jget input ''edges'')" using d by (auto split: if_splits)
    then have "\<not> has_error (concat (map (\<lambda>(i, n). validateEdgeDraft n (at_index ''edges'' i)) (enumerate 0 (jitems (jget input ''edges'')))))"
      using d by auto
    from no_error_enumerate [where f = validateEdgeDraft and g = "\<lambda>i. at_index ''edges'' i", OF this n]
    show ?thesis by (elim exE) (rule accepted_edge)
  qed
  then obtain es where es: "read_all read_edge (jitems (jget input ''edges'')) = Some es" using read_all_exists [of "jitems (jget input ''edges'')" read_edge] by blast
  have "\<exists>vs. read_all read_variable (jitems (jget input ''variables'')) = Some vs"
  proof (cases "is_jarr (jget input ''variables'')")
    case True
    then have "\<not> has_error (validateP2pWorkflowVariables (jitems (jget input ''variables'')))"
      using d by (cases "jget input ''variables''") auto
    then show ?thesis using accepted_variables by (auto simp: validateP2pWorkflowVariables_def)
  next
    case False
    then show ?thesis by (cases "jget input ''variables''") auto
  qed
  then obtain vs where vs: "read_all read_variable (jitems (jget input ''variables'')) = Some vs" ..
  let ?d = "\<lparr>dr_id = i, dr_nodes = ns, dr_edges = es, dr_rootNodeId = jget input ''rootNodeId'', dr_variables = vs,
          dr_loopBudgets = jget input ''loopBudgets''\<rparr>"
  have "read_draft input = Some ?d" using i ns es vs by (simp add: read_draft_def)
  moreover have "ns \<noteq> []" using ns nodes by (auto simp: read_all_Some_iff)
  moreover have "conditions_given ?d"
    unfolding conditions_given_def list_all_iff
  proof
    fix x assume "x \<in> set (dr_edges ?d)"
    then obtain j where "j \<in> set (jitems (jget input ''edges''))" "read_edge j = Some x"
      using es by (force simp: read_all_Some_iff list_all2_conv_all_nth in_set_conv_nth)
    with e show "ed_edgeKind x = Ek_conditional \<longrightarrow> (case ed_condition x of Some (k, v) \<Rightarrow> v \<noteq> [] | None \<Rightarrow> False)"
      by fastforce
  qed
  ultimately show ?thesis using eq ok by auto
qed

section \<open>Reachability\<close>

definition edge_rel :: "edge_draft list \<Rightarrow> (string \<times> string) set" where
  "edge_rel es = (\<lambda>e. (ed_fromNodeId e, ed_toNodeId e)) ` set es"

lemma reach_pass_sound: "set (reach_pass es r) \<subseteq> (edge_rel es)\<^sup>* `` set r"
proof (induction es arbitrary: r)
  case Nil
  then show ?case by (auto simp: reach_pass_def)
next
  case (Cons e es)
  let ?r = "if ed_fromNodeId e \<in> set r \<and> ed_toNodeId e \<notin> set r then r @ [ed_toNodeId e] else r"
  have sub: "edge_rel es \<subseteq> edge_rel (e # es)" by (auto simp: edge_rel_def)
  have "set (reach_pass (e # es) r) = set (reach_pass es ?r)" by (simp add: reach_pass_def)
  also have "\<dots> \<subseteq> (edge_rel (e # es))\<^sup>* `` set ?r" using Cons.IH [of ?r] rtrancl_mono [OF sub] by fast
  also have "\<dots> \<subseteq> (edge_rel (e # es))\<^sup>* `` ((edge_rel (e # es))\<^sup>* `` set r)"
    by (rule Image_mono) (auto simp: edge_rel_def intro: r_into_rtrancl)
  finally show ?case by (auto intro: rtrancl_trans)
qed

lemma reach_pass_fixed: "reach_pass es r = r \<Longrightarrow> (a, b) \<in> edge_rel es \<Longrightarrow> a \<in> set r \<Longrightarrow> b \<in> set r"
proof (induction es)
  case Nil
  then show ?case by (simp add: edge_rel_def)
next
  case (Cons e es)
  let ?r = "if ed_fromNodeId e \<in> set r \<and> ed_toNodeId e \<notin> set r then r @ [ed_toNodeId e] else r"
  have p: "reach_pass (e # es) r = reach_pass es ?r" by (simp add: reach_pass_def)
  obtain ts where "reach_pass es ?r = ?r @ ts" using reach_pass_extends by blast
  with p Cons.prems(1) have "?r = r" by (auto split: if_splits)
  with p Cons show ?case by (auto simp: edge_rel_def split: if_splits)
qed

lemma collect_from_reaches: "set (collect_from es r) = (edge_rel es)\<^sup>* `` set r"
proof (induction es r rule: collect_from.induct)
  case (1 es r)
  show ?case
  proof (cases "reach_pass es r = r")
    case True
    have "y \<in> set r" if "(x, y) \<in> (edge_rel es)\<^sup>*" "x \<in> set r" for x y
      using that by (induction rule: rtrancl_induct) (auto intro: reach_pass_fixed [OF True])
    with True show ?thesis by (auto simp: collect_from.simps [of es r])
  next
    case False
    obtain ts where ts: "reach_pass es r = r @ ts" using reach_pass_extends by blast
    have "set (collect_from es r) = (edge_rel es)\<^sup>* `` set (reach_pass es r)"
      using 1 [OF refl False] False by (simp add: collect_from.simps [of es r] Let_def)
    also have "\<dots> = (edge_rel es)\<^sup>* `` set r"
    proof
      have "(edge_rel es)\<^sup>* `` set (reach_pass es r) \<subseteq> (edge_rel es)\<^sup>* `` ((edge_rel es)\<^sup>* `` set r)"
        by (rule Image_mono [OF subset_refl reach_pass_sound])
      also have "\<dots> \<subseteq> (edge_rel es)\<^sup>* `` set r" by (auto intro: rtrancl_trans)
      finally show "(edge_rel es)\<^sup>* `` set (reach_pass es r) \<subseteq> (edge_rel es)\<^sup>* `` set r" .
    qed (auto simp: ts)
    finally show ?thesis .
  qed
qed

lemma collect_reachable: "set (collectReachable i es) = {j. (i, j) \<in> (edge_rel es)\<^sup>*}"
  by (auto simp: collectReachable_def collect_from_reaches)

section \<open>What compilation ensures\<close>

lemma graph_issue_error [simp]:
  "has_error (complain b (graph_issue path t)) \<longleftrightarrow> b" "wd_severity (graph_issue path t) = Sev_error"
  by (simp_all add: graph_issue_def complain_def)

lemma duplicate_ids_none:
  "\<not> has_error (duplicate_ids kind t seen ids) \<longleftrightarrow> distinct ids \<and> set ids \<inter> set seen = {}"
  by (induction ids arbitrary: seen) auto

lemma edge_issues_none:
  "\<not> has_error (edge_issues ids seen es) \<longleftrightarrow>
    distinct (map ed_id es) \<and> set (map ed_id es) \<inter> set seen = {} \<and>
    (\<forall>e \<in> set es. ed_fromNodeId e \<in> set ids \<and> ed_toNodeId e \<in> set ids)"
  by (induction es arbitrary: seen) auto

lemma map_of_insort_key: "map_of (insort_key fst x xs) = (map_of xs)(fst x \<mapsto> snd x)"
  by (induction xs) (auto simp: fun_eq_iff)

lemma map_of_sort_key: "map_of (sort_key fst xs) = map_of xs"
proof (induction xs)
  case (Cons x xs)
  then show ?case by (cases x) (simp add: map_of_insort_key)
qed simp

lemma map_of_sortedRecord: "k \<noteq> ''__proto__'' \<Longrightarrow> map_of (sortedRecord kvs) k = map_of kvs k"
proof -
  assume k: "k \<noteq> ''__proto__''"
  have "map_of (filter (\<lambda>(k, v). k \<noteq> ''__proto__'') kvs) k = map_of kvs k"
    using k by (induction kvs) auto
  then show ?thesis by (simp add: sortedRecord_def map_of_sort_key)
qed

lemma node_order_distinct: "distinct ids \<Longrightarrow> node_order ids i = Some k \<longleftrightarrow> k < length ids \<and> ids ! k = i"
proof -
  assume d: "distinct ids"
  have dz: "distinct (map fst (rev (zip ids [0..<length ids])))" using d by (simp add: rev_map [symmetric])
  have "node_order ids i = Some k \<longleftrightarrow> (i, k) \<in> set (zip ids [0..<length ids])"
    unfolding node_order_def using map_of_eq_Some_iff [OF dz] by simp
  also have "\<dots> \<longleftrightarrow> k < length ids \<and> ids ! k = i" by (auto simp: in_set_zip)
  finally show ?thesis .
qed

text \<open>
  A compiled workflow is well formed, in the order in which its draft lists the nodes: ids are unique, edges join
  nodes, every node can be reached from the root, a node has at most one edge of each kind, conditional edges have
  a condition, a logic node has a readable contract, and an edge that does not go forward has a budget.
\<close>

definition workflow_ok :: "string list \<Rightarrow> compiled_workflow \<Rightarrow> bool" where
  "workflow_ok ids w \<longleftrightarrow>
    distinct ids \<and> set ids = cn_id ` set (cw_nodes w) \<and> distinct (map cn_id (cw_nodes w)) \<and>
    distinct (map ed_id (cw_edges w)) \<and>
    (\<forall>e \<in> set (cw_edges w). ed_fromNodeId e \<in> set ids \<and> ed_toNodeId e \<in> set ids) \<and>
    cw_rootNodeId w \<noteq> [] \<and> cw_rootNodeId w \<in> set ids \<and> (\<forall>i \<in> set ids. (cw_rootNodeId w, i) \<in> (edge_rel (cw_edges w))\<^sup>*) \<and>
    (\<forall>i. length (outgoing Ek_default i (cw_edges w)) \<le> 1 \<and> length (outgoing Ek_conditional i (cw_edges w)) \<le> 1) \<and>
    (\<forall>e \<in> set (cw_edges w). ed_edgeKind e = Ek_conditional \<longrightarrow> (\<exists>k v. ed_condition e = Some (k, v) \<and> v \<noteq> [])) \<and>
    (\<forall>n \<in> set (cw_nodes w). cn_nodeKind n = Nk_logic \<longrightarrow>
      (\<exists>c. read_logic (cn_logic n) = Some c \<and> isValidMarker (lc_default c) \<and> list_all (\<lambda>r. isValidMarker (lr_emit r)) (lc_rules c))) \<and>
    (\<forall>e \<in> set (cw_edges w). backward_edge ids e \<longrightarrow> ed_id e \<noteq> ''__proto__'' \<longrightarrow>
      (\<exists>b. map_of (cw_loopBudgets w) (ed_id e) = Some (jint b) \<and> 0 \<le> b))"

lemma length_filter_sort [simp]: "length (filter P (js_sort_by cmp xs)) = length (filter P xs)"
  by (metis mset_filter mset_js_sort_by size_mset)

lemma assemble_fields [simp]:
  "cw_edges (assemble_workflow lc d p) = js_sort_by (\<lambda>a b. lc (ed_id a) (ed_id b)) (dr_edges d)"
  "cw_nodes (assemble_workflow lc d p) =
     map (compileNode (dr_edges d)) (js_sort_by (\<lambda>a b. lc (nd_id a) (nd_id b)) (dr_nodes d))"
  "cw_rootNodeId (assemble_workflow lc d p) = jtext (draft_root d)"
  "cw_loopBudgets (assemble_workflow lc d p) = sortedRecord (jmembers (dr_loopBudgets d))"
  "cw_derivedRequiredCapabilities (assemble_workflow lc d p) = deriveRequiredCapabilities (cw_nodes (assemble_workflow lc d p))"
  "cw_staticPolicyHash (assemble_workflow lc d p) = hashP2pStaticPolicy p"
  "cw_diagnostics (assemble_workflow lc d p) = []"
  by (simp_all add: assemble_workflow_def Let_def)

lemma cn_id_compile [simp]: "cn_id (compileNode es n) = nd_id n" "cn_nodeKind (compileNode es n) = nd_nodeKind n"
  by (simp_all add: compileNode_def)

lemma node_issues_none:
  assumes "\<not> has_error (node_issues es n)"
  shows "length (outgoing Ek_default (nd_id n) es) \<le> 1 \<and> length (outgoing Ek_conditional (nd_id n) es) \<le> 1 \<and>
    \<not> has_error (logic_issues n)"
  using assms by (auto simp: node_issues_def Let_def has_error_concat split: if_splits)

lemma logic_issues_none:
  assumes "\<not> has_error (logic_issues n)" and "nd_nodeKind n = Nk_logic"
  shows "\<exists>c. read_logic (cn_logic (compileNode es n)) = Some c \<and> isValidMarker (lc_default c) \<and>
    list_all (\<lambda>r. isValidMarker (lr_emit r)) (lc_rules c)"
proof -
  have t: "jtruthy (nd_logic n)" using assms by (auto simp: logic_issues_def Let_def split: if_splits)
  moreover have "validateP2pLogicContract (nd_logic n) (''nodes.'' @ nd_id n @ ''.logic'') = []"
  proof (rule ccontr)
    assume "validateP2pLogicContract (nd_logic n) (''nodes.'' @ nd_id n @ ''.logic'') \<noteq> []"
    then obtain i is' where "validateP2pLogicContract (nd_logic n) (''nodes.'' @ nd_id n @ ''.logic'') = i # is'"
      by (meson neq_Nil_conv)
    with assms t show False by (simp add: logic_issues_def)
  qed
  ultimately show ?thesis using validated_logic by (fastforce simp: compileNode_def keep_truthy_def)
qed

lemma backward_budget:
  assumes "\<not> has_error (edge_budget_issues d e)" and "backward_edge (node_ids d) e" and "ed_id e \<noteq> ''__proto__''"
  shows "\<exists>b. map_of (sortedRecord (jmembers (dr_loopBudgets d))) (ed_id e) = Some (jint b) \<and> 0 \<le> b"
proof -
  have "node_order (node_ids d) (ed_fromNodeId e) \<noteq> None" "node_order (node_ids d) (ed_toNodeId e) \<noteq> None"
    using assms(2) by (auto simp: backward_edge_def split: option.splits)
  with assms(1,2) have ne: "budget_read (dr_loopBudgets d) (ed_id e) \<noteq> JUndefined"
      and int: "integer_where (\<lambda>i. 0 \<le> i) (budget_read (dr_loopBudgets d) (ed_id e))"
    by (auto simp: edge_budget_issues_def Let_def)
  have "map_of (jmembers (dr_loopBudgets d)) (ed_id e) = Some (budget_read (dr_loopBudgets d) (ed_id e))"
    using ne int by (auto simp: budget_read_def read_member_def integer_where_def jinteger_def split: option.splits if_splits)
  with int assms(3) show ?thesis
    by (auto simp: map_of_sortedRecord integer_where_def jinteger_def jint_def split: json.splits js_number.splits option.splits)
qed

lemma compile_ok:
  assumes ok: "\<not> has_error (compile_diagnostics d p)" and cond: "conditions_given d"
  shows "workflow_ok (node_ids d) (assemble_workflow lc d p) \<and>
    int (length (dr_nodes d)) \<le> sp_maxNodes p \<and> int (length (dr_edges d)) \<le> sp_maxEdges p"
proof -
  have g: "\<not> has_error (validateGraphShape d)" and b: "\<not> has_error (validateLoopBudgets d)"
      and size: "int (length (dr_nodes d)) \<le> sp_maxNodes p" "int (length (dr_edges d)) \<le> sp_maxEdges p"
    using ok by (auto simp: compile_diagnostics_def)
  note g = g [unfolded validateGraphShape_def Let_def, simplified]
  have ids: "distinct (node_ids d)" using g by (simp add: duplicate_ids_none)
  have es: "distinct (map ed_id (dr_edges d))"
      "\<forall>e \<in> set (dr_edges d). ed_fromNodeId e \<in> set (node_ids d) \<and> ed_toNodeId e \<in> set (node_ids d)"
    using g by (auto simp: edge_issues_none)
  obtain r where r: "draft_root d = JStr r" "r \<in> set (node_ids d)" "jtruthy (draft_root d)"
    using g by (auto simp: string_in_def elim: jstr_where_elim)
  have nodes: "\<not> has_error (node_issues (dr_edges d) n)" if "n \<in> set (dr_nodes d)" for n
    using g that by (auto simp: has_error_concat list_ex_iff)
  have reach: "(r, i) \<in> (edge_rel (dr_edges d))\<^sup>*" if "i \<in> set (node_ids d)" for i
    using g r that by (auto simp: has_error_concat list_ex_iff node_ids_def jtext_def collect_reachable)
  have out: "length (outgoing k i (dr_edges d)) \<le> 1" for k i
  proof (cases "i \<in> set (node_ids d)")
    case True
    then obtain n where "n \<in> set (dr_nodes d)" "i = nd_id n" by (auto simp: node_ids_def)
    with node_issues_none [OF nodes] show ?thesis by (cases k) auto
  next
    case False
    with es have "outgoing k i (dr_edges d) = []" by (auto simp: outgoing_def filter_empty_conv)
    then show ?thesis by simp
  qed
  have budget: "\<not> has_error (edge_budget_issues d e)" if "e \<in> set (dr_edges d)" for e
    using b that by (auto simp: validateLoopBudgets_def has_error_concat list_ex_iff)
  have rel: "edge_rel (js_sort_by cmp es) = edge_rel es" for cmp es by (simp add: edge_rel_def)
  show ?thesis
    unfolding workflow_ok_def assemble_fields
  proof (intro conjI)
    show "set (node_ids d) = cn_id ` set (map (compileNode (dr_edges d)) (js_sort_by (\<lambda>a b. lc (nd_id a) (nd_id b)) (dr_nodes d)))"
      by (force simp: node_ids_def)
    show "distinct (map cn_id (map (compileNode (dr_edges d)) (js_sort_by (\<lambda>a b. lc (nd_id a) (nd_id b)) (dr_nodes d))))"
      using ids by (simp add: node_ids_def comp_def)
    show "\<forall>i\<in>set (node_ids d). (jtext (draft_root d), i) \<in> (edge_rel (js_sort_by (\<lambda>a b. lc (ed_id a) (ed_id b)) (dr_edges d)))\<^sup>*"
      using reach r by (simp add: rel jtext_def)
    show "\<forall>i. length (outgoing Ek_default i (js_sort_by (\<lambda>a b. lc (ed_id a) (ed_id b)) (dr_edges d))) \<le> 1 \<and>
        length (outgoing Ek_conditional i (js_sort_by (\<lambda>a b. lc (ed_id a) (ed_id b)) (dr_edges d))) \<le> 1"
      using out by (simp add: outgoing_def)
    show "\<forall>e\<in>set (js_sort_by (\<lambda>a b. lc (ed_id a) (ed_id b)) (dr_edges d)).
        ed_edgeKind e = Ek_conditional \<longrightarrow> (\<exists>k v. ed_condition e = Some (k, v) \<and> v \<noteq> [])"
      using cond by (auto simp: conditions_given_def list_all_iff split: option.splits)
    show "\<forall>n\<in>set (map (compileNode (dr_edges d)) (js_sort_by (\<lambda>a b. lc (nd_id a) (nd_id b)) (dr_nodes d))).
        cn_nodeKind n = Nk_logic \<longrightarrow> (\<exists>c. read_logic (cn_logic n) = Some c \<and> isValidMarker (lc_default c) \<and>
          list_all (\<lambda>r. isValidMarker (lr_emit r)) (lc_rules c))"
      using node_issues_none [OF nodes] logic_issues_none by fastforce
    show "\<forall>e\<in>set (js_sort_by (\<lambda>a b. lc (ed_id a) (ed_id b)) (dr_edges d)). backward_edge (node_ids d) e \<longrightarrow>
        ed_id e \<noteq> ''__proto__'' \<longrightarrow>
        (\<exists>b. map_of (sortedRecord (jmembers (dr_loopBudgets d))) (ed_id e) = Some (jint b) \<and> 0 \<le> b)"
      using backward_budget budget by simp
  qed (use ids es r size in \<open>simp_all add: jtext_def\<close>)
qed

lemma compiled_fromE:
  assumes "compileP2pWorkflowDraft lc input p = V_ok w ds"
  obtains d where "read_draft input = Some d" "w = assemble_workflow lc d p" "workflow_ok (node_ids d) w"
    "int (length (dr_nodes d)) \<le> sp_maxNodes p" "int (length (dr_edges d)) \<le> sp_maxEdges p" "dr_nodes d \<noteq> []"
proof -
  obtain v ds0 where v: "validateP2pWorkflowDraft input = V_ok v ds0"
    using assms by (auto simp: compileP2pWorkflowDraft_def split: validation.splits)
  obtain d where d: "read_draft input = Some d" "dr_nodes d \<noteq> []" "conditions_given d" using accepted_draft [OF v] by blast
  have "w = assemble_workflow lc d p" "\<not> has_error (compile_diagnostics d p)"
    using assms v d by (auto simp: compileP2pWorkflowDraft_def Let_def split: if_splits)
  then show ?thesis using that d compile_ok by blast
qed

lemma reach_pass_distinct: "distinct r \<Longrightarrow> distinct (reach_pass es r)"
  unfolding reach_pass_def by (induction es arbitrary: r) auto

lemma collect_from_distinct: "distinct r \<Longrightarrow> distinct (collect_from es r)"
proof (induction es r rule: collect_from.induct)
  case (1 es r)
  then show ?case using reach_pass_distinct [of r es] by (subst collect_from.simps) (simp add: Let_def)
qed

text \<open>
  C15. The reachable nodes that the compiler collects by rounds over the edges are the reflexive transitive closure
  of the edges from the start, each listed once.
\<close>

theorem reachable_nodes_exact:
  "set (collectReachable i es) = {j. (i, j) \<in> (edge_rel es)\<^sup>*} \<and> distinct (collectReachable i es)"
  by (simp add: collect_reachable) (simp add: collectReachable_def collect_from_distinct)

definition sample_node :: "string \<Rightarrow> string \<Rightarrow> string \<Rightarrow> string \<Rightarrow> json" where
  "sample_node i kind preset scope =
    JObj [(''id'', JStr i), (''nodeKind'', JStr kind), (''preset'', JStr preset), (''permissionScope'', JStr scope)]"

definition sample_edge :: "string \<Rightarrow> string \<Rightarrow> string \<Rightarrow> (string \<times> json) list \<Rightarrow> json" where
  "sample_edge i f t extra =
    JObj ([(''id'', JStr i), (''fromNodeId'', JStr f), (''toNodeId'', JStr t)] @ extra)"

definition sample_default :: "(string \<times> json) list" where
  "sample_default = [(''edgeKind'', JStr ''default'')]"

definition sample_rework :: "(string \<times> json) list" where
  "sample_rework = [(''edgeKind'', JStr ''conditional''),
     (''condition'', JObj [(''kind'', JStr ''verdict_marker_equals''), (''equals'', JStr ''REWORK'')])]"

definition sample_draft :: json where
  "sample_draft = JObj [(''schemaVersion'', jint 1), (''id'', JStr ''w''), (''rootNodeId'', JStr ''plan''),
     (''nodes'', JArr [sample_node ''plan'' ''llm'' ''plan'' ''analysis_only'',
        sample_node ''audit'' ''llm'' ''audit'' ''analysis_only'', sample_node ''close'' ''llm'' ''review'' ''analysis_only'']),
     (''edges'', JArr [sample_edge ''a'' ''plan'' ''audit'' sample_default, sample_edge ''b'' ''audit'' ''close'' sample_default,
        sample_edge ''c'' ''audit'' ''plan'' sample_rework]),
     (''loopBudgets'', JObj [(''c'', jint 2)])]"

definition code_order :: "string \<Rightarrow> string \<Rightarrow> int" where
  "code_order a b = (if a < b then - 1 else if b < a then 1 else 0)"

lemma sample_draft_valid: "validateP2pWorkflowDraft sample_draft = V_ok sample_draft []"
  by code_simp

definition sample_read :: workflow_draft where
  "sample_read = the (read_draft sample_draft)"

lemma sample_draft_read: "read_draft sample_draft = Some sample_read"
  unfolding sample_read_def by code_simp

lemma sample_compile_ok: "compile_diagnostics sample_read default_p2p_static_policy = []"
  unfolding sample_read_def by code_simp

lemma sample_compiled:
  "compileP2pWorkflowDraft code_order sample_draft default_p2p_static_policy =
    V_ok (assemble_workflow code_order sample_read default_p2p_static_policy) []"
  by (simp add: compileP2pWorkflowDraft_def sample_draft_valid sample_draft_read sample_compile_ok)

text \<open>
  C6. A workflow that compiles is well formed: it has nodes, no more than the policy's limits, its ids are unique, its
  edges join its nodes, every node is reachable from its root, no node has two edges of a kind, every conditional edge
  has a condition, every logic node's contract can be evaluated and emits only markers, and every edge that goes back
  in the draft's order has a budget that is a natural number, except one with the id \<open>__proto__\<close>, whose budget is lost.
\<close>

theorem compiled_workflow_well_formed:
  assumes "compileP2pWorkflowDraft lc input p = V_ok w ds"
  shows "\<exists>d. read_draft input = Some d \<and> workflow_ok (node_ids d) w \<and> cw_nodes w \<noteq> [] \<and>
    int (length (cw_nodes w)) \<le> sp_maxNodes p \<and> int (length (cw_edges w)) \<le> sp_maxEdges p"
proof -
  obtain d where d: "read_draft input = Some d" "w = assemble_workflow lc d p" "workflow_ok (node_ids d) w"
      "int (length (dr_nodes d)) \<le> sp_maxNodes p" "int (length (dr_edges d)) \<le> sp_maxEdges p" "dr_nodes d \<noteq> []"
    using assms by (rule compiled_fromE)
  from d(1,3-6) show ?thesis by (intro exI [of _ d]) (simp add: d(2))
qed

theorem compiled_workflow_well_formed_witness:
  "\<exists>d. read_draft sample_draft = Some d \<and>
    workflow_ok (node_ids d) (assemble_workflow code_order sample_read default_p2p_static_policy) \<and>
    cw_nodes (assemble_workflow code_order sample_read default_p2p_static_policy) \<noteq> [] \<and>
    int (length (cw_nodes (assemble_workflow code_order sample_read default_p2p_static_policy))) \<le>
      sp_maxNodes default_p2p_static_policy \<and>
    int (length (cw_edges (assemble_workflow code_order sample_read default_p2p_static_policy))) \<le>
      sp_maxEdges default_p2p_static_policy"
  by (rule compiled_workflow_well_formed [OF sample_compiled])

text \<open>
   Compilation answers with a reason: a draft that is turned down carries an error, one that compiles carries none.
\<close>

theorem compile_verdict_has_reason:
  "case compileP2pWorkflowDraft lc input p of V_ok w ds \<Rightarrow> \<not> has_error ds | V_bad ds \<Rightarrow> has_error ds"
proof (cases "validateP2pWorkflowDraft input")
  case (V_ok v ds)
  from accepted_draft [OF V_ok] V_ok show ?thesis by (auto simp: compileP2pWorkflowDraft_def Let_def)
next
  case (V_bad ds)
  then show ?thesis by (auto simp: compileP2pWorkflowDraft_def validateP2pWorkflowDraft_def Let_def warning_codes_def split: if_splits)
qed

end
