(* ===== verification/P2pLaunch.thy ===== *)
theory P2pLaunch
  imports P2pCompile
begin

text \<open>
  From an accepted launch to a run: the daemon's policy (\<open>src/src/daemon/p2p-workflow-static-policy.ts\<close>), binding a
  compiled workflow (\<open>p2p-workflow-bind.ts\<close>), the check before a dangerous node (\<open>p2p-workflow-policy-recheck.ts\<close>),
  script slots (\<open>p2p-workflow-script-concurrency.ts\<close>), admission (\<open>p2p-launch-admission.ts\<close>), the rounds that
  \<open>command-handler.ts\<close> makes of a compiled workflow and the plan that \<open>shared/p2p-advanced.ts\<close> resolves from
  them.  The texts of prompts are left out.
\<close>

section \<open>The daemon's policy\<close>

text \<open>What a server link offers; a link that lacks an accessor has \<open>None\<close>.\<close>

record link_view =
  sl_capabilities :: "string list option"
  sl_serverId :: "string option"
  sl_helloEpoch :: "int option"
  sl_helloSentAt :: "int option"

record capability_snapshot =
  cs_daemonId :: string
  cs_capabilities :: "string list"
  cs_helloEpoch :: int
  cs_sentAt :: int

definition getCurrentDaemonWorkflowCapabilities :: "link_view \<Rightarrow> string list" where
  "getCurrentDaemonWorkflowCapabilities link = (case sl_capabilities link of Some cs \<Rightarrow> sort cs | None \<Rightarrow> [])"

definition readCachedHelloSnapshot :: "link_view \<Rightarrow> capability_snapshot" where
  "readCachedHelloSnapshot link =
    \<lparr>cs_daemonId = opt_default ''local-daemon'' (sl_serverId link),
     cs_capabilities = getCurrentDaemonWorkflowCapabilities link,
     cs_helloEpoch = opt_default 0 (sl_helloEpoch link), cs_sentAt = opt_default 0 (sl_helloSentAt link)\<rparr>"

definition loadDaemonP2pStaticPolicy :: "link_view \<Rightarrow> static_policy" where
  "loadDaemonP2pStaticPolicy link =
    (let caps = set (getCurrentDaemonWorkflowCapabilities link) in
     buildDefaultP2pStaticPolicy (default_p2p_static_policy
       \<lparr>sp_allowedExecutables := [], sp_allowOpenSpecArtifacts := cap_openspec_artifacts \<in> caps,
        sp_allowImplementationPermission := cap_implementation \<in> caps,
        sp_allowInterpreterScripts := cap_script_interpreter \<in> caps\<rparr>))"

definition daemonAdvertisesBaseWorkflowCapability :: "link_view \<Rightarrow> bool" where
  "daemonAdvertisesBaseWorkflowCapability link \<longleftrightarrow> cap_workflow \<in> set (getCurrentDaemonWorkflowCapabilities link)"

section \<open>Binding\<close>

record bind_context =
  bc_runId :: string
  bc_requestId :: "string option"
  bc_repoRoot :: string
  bc_participants :: "(string \<times> string option) list"
  bc_serverId :: "string option"
  bc_sessionName :: string
  bc_capabilitySnapshot :: capability_snapshot
  bc_policySnapshot :: static_policy
  bc_accepted :: bool

record bound_workflow =
  bw_compiled :: compiled_workflow
  bw_bindContext :: bind_context
  bw_diagnostics :: "workflow_diagnostic list"

datatype bind_failure = Bf_daemon_busy | Bf_missing_required_capability

datatype bind_result =
  Bind_ok bound_workflow "workflow_diagnostic list"
| Bind_failed bind_failure "workflow_diagnostic list"

definition bind_issue :: "diagnostic_code \<Rightarrow> string \<Rightarrow> string \<Rightarrow> string \<Rightarrow> string \<Rightarrow> workflow_diagnostic" where
  "bind_issue code runId nodeId path text' =
    diag code Dp_bind \<lparr>dx_summary = Some text', dx_nodeId = Some nodeId, dx_runId = Some runId, dx_fieldPath = Some path\<rparr>"

definition script_executable :: "json \<Rightarrow> json" where
  "script_executable script =
    (if jget script ''commandKind'' = JStr ''interpreter'' then jget script ''interpreter''
     else (case jitems (jget script ''argv'') of [] \<Rightarrow> JUndefined | a # as \<Rightarrow> a))"

definition node_policy_issues :: "static_policy \<Rightarrow> string \<Rightarrow> compiled_node \<Rightarrow> workflow_diagnostic list" where
  "node_policy_issues p runId n =
    (let path = ''nodes.'' @ cn_id n in
     complain (cn_permissionScope n = Ps_implementation \<and> \<not> sp_allowImplementationPermission p)
       (bind_issue Dc_missing_required_capability runId (cn_id n) (path @ ''.permissionScope'')
         ''Daemon policy does not allow implementation permission.'') @
     complain (list_ex is_openspec_contract (cn_artifacts n) \<and> \<not> sp_allowOpenSpecArtifacts p)
       (bind_issue Dc_missing_required_capability runId (cn_id n) (path @ ''.artifacts'')
         ''Daemon policy does not allow OpenSpec artifact writes.'') @
     (if jtruthy (cn_script n)
      then
        complain (jget (cn_script n) ''commandKind'' = JStr ''interpreter'' \<and> \<not> sp_allowInterpreterScripts p)
          (bind_issue Dc_script_executable_denied runId (cn_id n) (path @ ''.script.commandKind'')
            ''Daemon policy does not allow interpreter scripts.'') @
        complain (\<not> jstr_where (\<lambda>s. s \<noteq> [] \<and> s \<in> set (sp_allowedExecutables p)) (script_executable (cn_script n)))
          (bind_issue Dc_script_executable_denied runId (cn_id n) (path @ ''.script.argv[0]'')
            (''Executable '' @ js_string (jnullish (script_executable (cn_script n)) (JStr ''<missing>'')) @
             '' is not allowlisted by daemon policy.''))
      else []))"

definition validateCompiledWorkflowAgainstBindPolicy :: "compiled_workflow \<Rightarrow> bind_context \<Rightarrow> workflow_diagnostic list" where
  "validateCompiledWorkflowAgainstBindPolicy w c =
    concat (map (node_policy_issues (bc_policySnapshot c) (bc_runId c)) (cw_nodes w))"

text \<open>\<open>[...new Set(xs)]\<close>: the first of equal elements stays.\<close>

definition js_unique :: "'a list \<Rightarrow> 'a list" where
  "js_unique xs = rev (remdups (rev xs))"

definition getMissingP2pWorkflowCapabilities :: "compiled_workflow \<Rightarrow> bind_context \<Rightarrow> string list" where
  "getMissingP2pWorkflowCapabilities w c =
    filter (\<lambda>cap. cap \<notin> set (cs_capabilities (bc_capabilitySnapshot c)))
      (js_unique (cap_workflow # cw_derivedRequiredCapabilities w))"

definition bindP2pCompiledWorkflow :: "compiled_workflow \<Rightarrow> bind_context \<Rightarrow> bind_result" where
  "bindP2pCompiledWorkflow w c =
    (let ds = cw_diagnostics w; missing = getMissingP2pWorkflowCapabilities w c;
         policyDiagnostics = validateCompiledWorkflowAgainstBindPolicy w c
     in
     if \<not> bc_accepted c
     then Bind_failed Bf_daemon_busy (ds @ [diag Dc_daemon_busy Dp_bind
       \<lparr>dx_summary = Some ''daemon_busy'', dx_nodeId = None, dx_runId = Some (bc_runId c), dx_fieldPath = None\<rparr>])
     else if missing \<noteq> []
     then Bind_failed Bf_missing_required_capability (ds @ [diag Dc_missing_required_capability Dp_bind
       \<lparr>dx_summary = Some (''Missing required capabilities: '' @ js_join '', '' missing), dx_nodeId = None,
        dx_runId = Some (bc_runId c), dx_fieldPath = Some ''capabilitySnapshot.capabilities''\<rparr>])
     else if has_error policyDiagnostics then Bind_failed Bf_missing_required_capability (ds @ policyDiagnostics)
     else Bind_ok \<lparr>bw_compiled = w, bw_bindContext = c, bw_diagnostics = ds @ policyDiagnostics\<rparr> (ds @ policyDiagnostics))"

section \<open>The check before a dangerous node\<close>

datatype recheck =
  Recheck_ok
| Missing_capability string workflow_diagnostic
| Downgraded_field string workflow_diagnostic

definition policy_allow_flags :: "(string \<times> (static_policy \<Rightarrow> bool)) list" where
  "policy_allow_flags = [(''allowOpenSpecArtifacts'', sp_allowOpenSpecArtifacts),
     (''allowImplementationPermission'', sp_allowImplementationPermission),
     (''allowInterpreterScripts'', sp_allowInterpreterScripts)]"

definition findPolicyDowngrade :: "static_policy \<Rightarrow> static_policy \<Rightarrow> (string \<times> string) option" where
  "findPolicyDowngrade bound current =
    (case filter (\<lambda>(f, get). get bound \<and> \<not> get current) policy_allow_flags of
       (f, get) # rest \<Rightarrow> Some (''currentDaemonPolicy.'' @ f, ''Policy flag '' @ f @ '' was true at bind but is now false'')
     | [] \<Rightarrow>
         (case filter (\<lambda>e. e \<notin> set (sp_allowedExecutables current)) (sp_allowedExecutables bound) of
            e # rest \<Rightarrow> Some (''currentDaemonPolicy.allowedExecutables'',
              ''Executable '' @ e @ '' was allowlisted at bind but is no longer allowed'')
          | [] \<Rightarrow> None))"

record recheck_args =
  ra_requiredCapabilities :: "string list"
  ra_bindCapabilitySnapshot :: "string list"
  ra_currentDaemonCapabilities :: "string list"
  ra_boundPolicySnapshot :: "static_policy option"
  ra_currentDaemonPolicy :: "static_policy option"
  ra_runId :: "string option"
  ra_nodeId :: "string option"

definition recheckDangerousNodeCapabilities :: "recheck_args \<Rightarrow> recheck" where
  "recheckDangerousNodeCapabilities a =
    (let current = set (ra_currentDaemonCapabilities a); snapshot = set (ra_bindCapabilitySnapshot a);
         located = \<lambda>path text'. \<lparr>dx_summary = Some text', dx_nodeId = ra_nodeId a, dx_runId = ra_runId a, dx_fieldPath = Some path\<rparr>
     in case filter (\<lambda>c. c \<notin> current) (ra_requiredCapabilities a) of
       c # rest \<Rightarrow> Missing_capability c
         (if c \<in> snapshot
          then diag Dc_capability_downgraded_during_run Dp_execute (located ''currentDaemonPolicy.capabilities''
            (''Capability '' @ c @ '' was present at bind but is no longer available''))
          else diag Dc_missing_required_capability Dp_execute (located ''currentDaemonPolicy.capabilities''
            (''Required capability '' @ c @ '' is missing'')))
     | [] \<Rightarrow>
         (case (ra_boundPolicySnapshot a, ra_currentDaemonPolicy a) of
            (Some bound, Some cur) \<Rightarrow>
              (case findPolicyDowngrade bound cur of
                 Some (path, text') \<Rightarrow> Downgraded_field path
                   (diag Dc_capability_downgraded_during_run Dp_execute (located path text'))
               | None \<Rightarrow> Recheck_ok)
          | _ \<Rightarrow> Recheck_ok))"

text \<open>
  \<open>recheckDangerousRoundOrFail\<close>: without a link the capabilities that were bound are taken to hold still.
\<close>

definition live_link :: "bound_workflow \<Rightarrow> link_view option \<Rightarrow> link_view" where
  "live_link b link =
    opt_default \<lparr>sl_capabilities = Some (cs_capabilities (bc_capabilitySnapshot (bw_bindContext b))),
      sl_serverId = None, sl_helloEpoch = None, sl_helloSentAt = None\<rparr> link"

definition recheckDangerousRound :: "bound_workflow \<Rightarrow> link_view option \<Rightarrow> string \<Rightarrow> string \<Rightarrow> recheck" where
  "recheckDangerousRound b link runId roundId =
    recheckDangerousNodeCapabilities
      \<lparr>ra_requiredCapabilities = cw_derivedRequiredCapabilities (bw_compiled b),
       ra_bindCapabilitySnapshot = cs_capabilities (bc_capabilitySnapshot (bw_bindContext b)),
       ra_currentDaemonCapabilities = getCurrentDaemonWorkflowCapabilities (live_link b link),
       ra_boundPolicySnapshot = Some (bc_policySnapshot (bw_bindContext b)),
       ra_currentDaemonPolicy = Some (loadDaemonP2pStaticPolicy (live_link b link)),
       ra_runId = Some runId, ra_nodeId = Some roundId\<rparr>"

section \<open>Script slots\<close>

record slot_result =
  sr_ok :: bool
  sr_inUse :: int
  sr_capacity :: int

definition max_active_scripts :: int where "max_active_scripts = 4"

definition acquireScriptSlot :: "int \<Rightarrow> int \<times> slot_result" where
  "acquireScriptSlot active =
    (if max_active_scripts \<le> active then (active, \<lparr>sr_ok = False, sr_inUse = active, sr_capacity = max_active_scripts\<rparr>)
     else (active + 1, \<lparr>sr_ok = True, sr_inUse = active + 1, sr_capacity = max_active_scripts\<rparr>))"

definition releaseScriptSlot :: "int \<Rightarrow> int" where
  "releaseScriptSlot active = (if 0 < active then active - 1 else active)"

section \<open>Admission\<close>

record auto_deliver_lock =
  al_runId :: string
  al_owningMainSessionName :: string
  al_generation :: int
  al_stage :: "string option"
  al_roundIndex :: "int option"
  al_selectedTeamComboId :: "string option"
  al_activeOpenSpecPromptId :: "string option"

datatype launch_kind = Lk_manual | Lk_cron | Lk_supervision | Lk_openspec_auto_deliver

record auto_deliver_metadata =
  am_runId :: string
  am_owningMainSessionName :: string
  am_generation :: int
  am_stage :: string
  am_roundIndex :: "int option"
  am_selectedTeamComboId :: "string option"
  am_activeOpenSpecPromptId :: "string option"

record launch_origin =
  lo_kind :: launch_kind
  lo_autoDeliver :: "auto_deliver_metadata option"

type_synonym auto_deliver_locks = "string \<rightharpoonup> auto_deliver_lock"

datatype admission = Admitted | Auto_deliver_active string string

definition registerAutoDeliverP2pLock :: "auto_deliver_lock \<Rightarrow> auto_deliver_locks \<Rightarrow> auto_deliver_locks" where
  "registerAutoDeliverP2pLock l locks = locks(al_owningMainSessionName l \<mapsto> l)"

definition releaseAutoDeliverP2pLock :: "string \<Rightarrow> string option \<Rightarrow> auto_deliver_locks \<Rightarrow> auto_deliver_locks \<times> bool" where
  "releaseAutoDeliverP2pLock owner runId locks =
    (case locks owner of
       None \<Rightarrow> (locks, False)
     | Some l \<Rightarrow> if truthy runId \<and> runId \<noteq> Some (al_runId l) then (locks, False) else (locks(owner := None), True))"

definition getAutoDeliverP2pLock :: "string \<Rightarrow> auto_deliver_locks \<Rightarrow> auto_deliver_lock option" where
  "getAutoDeliverP2pLock owner locks = locks owner"

definition holds_lock :: "auto_deliver_metadata \<Rightarrow> auto_deliver_lock \<Rightarrow> bool" where
  "holds_lock m l \<longleftrightarrow>
    am_runId m = al_runId l \<and> am_owningMainSessionName m = al_owningMainSessionName l \<and>
    am_generation m = al_generation l \<and>
    al_stage l \<noteq> None \<and> Some (am_stage m) = al_stage l \<and>
    al_roundIndex l \<noteq> None \<and> am_roundIndex m = al_roundIndex l \<and>
    al_selectedTeamComboId l \<noteq> None \<and> am_selectedTeamComboId m = al_selectedTeamComboId l \<and>
    al_activeOpenSpecPromptId l \<noteq> None \<and> am_activeOpenSpecPromptId m = al_activeOpenSpecPromptId l"

definition evaluateP2pLaunchAdmission :: "auto_deliver_locks \<Rightarrow> string \<Rightarrow> launch_origin option \<Rightarrow> admission" where
  "evaluateP2pLaunchAdmission locks mainSession origin =
    (case locks mainSession of
       None \<Rightarrow> Admitted
     | Some l \<Rightarrow>
         let autoDeliver = (case origin of
             Some og \<Rightarrow> if lo_kind og = Lk_openspec_auto_deliver then lo_autoDeliver og else None | None \<Rightarrow> None)
         in (case autoDeliver of
             Some m \<Rightarrow> if holds_lock m l then Admitted else Auto_deliver_active (al_runId l) (al_owningMainSessionName l)
           | None \<Rightarrow> Auto_deliver_active (al_runId l) (al_owningMainSessionName l)))"

section \<open>Rounds\<close>

datatype round_preset = Rp_discussion | Rp_openspec_propose | Rp_proposal_audit | Rp_implementation
  | Rp_implementation_audit | Rp_custom

datatype verdict_policy = Vp_none | Vp_smart_gate | Vp_forced_rework

record jump_rule =
  jr_targetRoundId :: string
  jr_marker :: "string option"
  jr_minTriggers :: int
  jr_maxTriggers :: json

record advanced_round =
  ar_id :: string
  ar_title :: json
  ar_preset :: round_preset
  ar_executionMode :: dispatch_style
  ar_permissionScope :: permission_scope
  ar_timeoutMinutes :: "int option"
  ar_artifactOutputs :: "string list option"
  ar_promptAppend :: json
  ar_verdictPolicy :: "verdict_policy option"
  ar_jumpRule :: "jump_rule option"
  ar_nodeKind :: "node_kind option"
  ar_script :: json
  ar_routingAuthority :: json
  ar_artifactConvention :: "string option"

definition find_node :: "compiled_workflow \<Rightarrow> string \<Rightarrow> compiled_node option" where
  "find_node w i = map_of (rev (map (\<lambda>n. (cn_id n, n)) (cw_nodes w))) i"

lemma find_node_Some: "find_node w i = Some n \<Longrightarrow> n \<in> set (cw_nodes w) \<and> cn_id n = i"
  by (auto simp: find_node_def dest: map_of_SomeD)

definition default_targets :: "compiled_workflow \<Rightarrow> string \<Rightarrow> string list" where
  "default_targets w i = map ed_toNodeId (outgoing Ek_default i (cw_edges w))"

text \<open>
  The ids in the order in which \<open>orderCompiledNodesForExecution\<close> visits them; what is left to visit is on a stack.
\<close>

function visit_order :: "compiled_workflow \<Rightarrow> string list \<Rightarrow> string list \<Rightarrow> string list" where
  "visit_order w [] visited = visited"
| "visit_order w (i # rest) visited =
     (if i \<in> set visited \<or> find_node w i = None then visit_order w rest visited
      else visit_order w (default_targets w i @ rest) (visited @ [i]))"
  by pat_completeness auto

termination
proof (relation "measures [\<lambda>(w, st, vis). card (cn_id ` set (cw_nodes w) - set vis), \<lambda>(w, st, vis). length st]")
  fix w :: compiled_workflow and i rest visited
  assume "\<not> (i \<in> set visited \<or> find_node w i = None)"
  then have "i \<in> cn_id ` set (cw_nodes w) - set visited" by (auto dest: find_node_Some)
  then have "card (cn_id ` set (cw_nodes w) - set (visited @ [i])) < card (cn_id ` set (cw_nodes w) - set visited)"
    by (intro psubset_card_mono) auto
  then show "((w, default_targets w i @ rest, visited @ [i]), w, i # rest, visited)
      \<in> measures [\<lambda>(w, st, vis). card (cn_id ` set (cw_nodes w) - set vis), \<lambda>(w, st, vis). length st]"
    by simp
qed auto

definition orderCompiledNodesForExecution :: "compiled_workflow \<Rightarrow> compiled_node list" where
  "orderCompiledNodesForExecution w =
    (let visited = (if cw_rootNodeId w \<noteq> [] then visit_order w [cw_rootNodeId w] [] else [])
     in map (the \<circ> find_node w) visited @ filter (\<lambda>n. cn_id n \<notin> set visited) (cw_nodes w))"

definition mapConditionalEdgeToJumpRule ::
  "edge_draft option \<Rightarrow> (string \<times> json) list \<Rightarrow> jump_rule option \<times> verdict_policy" where
  "mapConditionalEdgeToJumpRule edge budgets =
    (case edge of
       None \<Rightarrow> (None, Vp_none)
     | Some e \<Rightarrow>
         let loopBudget = read_member budgets (ed_id e);
             marker = (if map_option snd (ed_condition e) = Some ''PASS'' then ''PASS'' else ''REWORK'')
         in if loopBudget = JUndefined then (None, Vp_forced_rework)
            else (Some \<lparr>jr_targetRoundId = ed_toNodeId e, jr_marker = Some marker, jr_minTriggers = 0,
                    jr_maxTriggers = loopBudget\<rparr>, Vp_forced_rework))"

definition roundPresetFromWorkflowPreset :: "preset_key \<Rightarrow> round_preset" where
  "roundPresetFromWorkflowPreset p =
    (case p of Pk_openspec_propose \<Rightarrow> Rp_openspec_propose | Pk_proposal_audit \<Rightarrow> Rp_proposal_audit
     | Pk_implementation \<Rightarrow> Rp_implementation | Pk_implementation_audit \<Rightarrow> Rp_implementation_audit
     | Pk_custom \<Rightarrow> Rp_custom | _ \<Rightarrow> Rp_discussion)"

definition conditional_edge :: "compiled_workflow \<Rightarrow> string \<Rightarrow> edge_draft option" where
  "conditional_edge w i =
    (case outgoing Ek_conditional i (cw_edges w) of [] \<Rightarrow> None | e # es \<Rightarrow> Some e)"

definition mapCompiledNodeToLegacyRound :: "compiled_workflow \<Rightarrow> compiled_node \<Rightarrow> advanced_round" where
  "mapCompiledNodeToLegacyRound w n =
    (case mapConditionalEdgeToJumpRule (conditional_edge w (cn_id n)) (cw_loopBudgets w) of (jumpRule, verdictPolicy) \<Rightarrow>
      \<lparr>ar_id = cn_id n, ar_title = jnullish (cn_title n) (JStr (cn_id n)),
       ar_preset = roundPresetFromWorkflowPreset (cn_preset n),
       ar_executionMode = (if cn_dispatchStyle n = Some Ds_multi_dispatch then Ds_multi_dispatch else Ds_single_main),
       ar_permissionScope = cn_permissionScope n, ar_timeoutMinutes = None,
       ar_artifactOutputs = (if cn_artifacts n = [] then None else Some (sort (concat (map ac_paths (cn_artifacts n))))),
       ar_promptAppend = cn_promptAppend n, ar_verdictPolicy = Some verdictPolicy, ar_jumpRule = jumpRule,
       ar_nodeKind = Some (cn_nodeKind n), ar_script = cn_script n, ar_routingAuthority = cn_routingAuthority n,
       ar_artifactConvention = (case cn_artifacts n of [] \<Rightarrow> None
         | a # as \<Rightarrow> Some (enum_name p2p_artifact_conventions (ac_convention a)))\<rparr>)"

definition compiledWorkflowToLegacyAdvancedRounds :: "compiled_workflow \<Rightarrow> advanced_round list" where
  "compiledWorkflowToLegacyAdvancedRounds w = map (mapCompiledNodeToLegacyRound w) (orderCompiledNodesForExecution w)"

section \<open>The plan of a run\<close>

record resolved_round =
  rr_id :: string
  rr_title :: json
  rr_preset :: round_preset
  rr_executionMode :: dispatch_style
  rr_permissionScope :: permission_scope
  rr_timeoutMinutes :: int
  rr_timeoutMs :: int
  rr_promptAppend :: string
  rr_verdictPolicy :: verdict_policy
  rr_jumpRule :: "jump_rule option"
  rr_initiatorOnly :: bool
  rr_initiatorSummary :: bool
  rr_requiresVerdict :: bool
  rr_allowRouting :: bool
  rr_artifactOutputs :: "string list"
  rr_artifactConvention :: string
  rr_nodeKind :: "node_kind option"
  rr_script :: json
  rr_routingAuthority :: json

definition default_hop_timeout_minutes :: int where "default_hop_timeout_minutes = 8"
definition default_advanced_run_timeout_minutes :: int where "default_advanced_run_timeout_minutes = 30"

definition defaultArtifactConvention :: "advanced_round \<Rightarrow> string" where
  "defaultArtifactConvention r =
    (if ar_preset r = Rp_openspec_propose \<and> opt_default [] (ar_artifactOutputs r) = [] then ''openspec_convention''
     else if ar_permissionScope r = Ps_artifact_generation then ''explicit'' else ''none'')"

definition round_convention :: "advanced_round \<Rightarrow> string" where
  "round_convention r = opt_default (defaultArtifactConvention r) (ar_artifactConvention r)"

definition round_verdict_policy :: "advanced_round \<Rightarrow> verdict_policy" where
  "round_verdict_policy r = opt_default Vp_none (ar_verdictPolicy r)"

text \<open>A prompt that is neither a string nor missing has no \<open>trim\<close>, which throws.\<close>

definition normalizeAdvancedRound :: "advanced_round \<Rightarrow> string + resolved_round" where
  "normalizeAdvancedRound r =
    (let verdictPolicy = round_verdict_policy r; artifactConvention = round_convention r;
         outputs = opt_default [] (ar_artifactOutputs r);
         minutes = opt_default default_hop_timeout_minutes (ar_timeoutMinutes r);
         multi = (ar_executionMode r = Ds_multi_dispatch);
         requiresVerdict = (verdictPolicy \<noteq> Vp_none);
         resolved = \<lambda>prompt. \<lparr>rr_id = ar_id r, rr_title = ar_title r, rr_preset = ar_preset r,
           rr_executionMode = ar_executionMode r, rr_permissionScope = ar_permissionScope r,
           rr_timeoutMinutes = minutes, rr_timeoutMs = minutes * 60000, rr_promptAppend = prompt,
           rr_verdictPolicy = verdictPolicy, rr_jumpRule = ar_jumpRule r, rr_initiatorOnly = \<not> multi,
           rr_initiatorSummary = multi, rr_requiresVerdict = requiresVerdict,
           rr_allowRouting = (ar_preset r \<noteq> Rp_proposal_audit \<and> requiresVerdict \<and> ar_jumpRule r \<noteq> None),
           rr_artifactOutputs = (if artifactConvention = ''openspec_convention'' \<and> outputs = []
             then [''openspec/changes''] else outputs),
           rr_artifactConvention = artifactConvention, rr_nodeKind = ar_nodeKind r, rr_script = ar_script r,
           rr_routingAuthority = ar_routingAuthority r\<rparr>
     in case ar_promptAppend r of
          JStr s \<Rightarrow> Inr (resolved (js_trim s))
        | JUndefined \<Rightarrow> Inr (resolved [])
        | JNull \<Rightarrow> Inr (resolved [])
        | _ \<Rightarrow> Inl ''round.promptAppend?.trim is not a function'')"

fun validateAdvancedRoundIds :: "string list \<Rightarrow> advanced_round list \<Rightarrow> string option" where
  "validateAdvancedRoundIds seen [] = None"
| "validateAdvancedRoundIds seen (r # rs) =
     (if js_trim (ar_id r) = [] then Some ''Advanced P2P round ids must be non-empty''
      else if ar_id r \<in> set seen then Some (''Duplicate advanced P2P round id: '' @ ar_id r)
      else validateAdvancedRoundIds (ar_id r # seen) rs)"

text \<open>\<open>a < b\<close> on what may be no number: then it is false.\<close>

definition num_less :: "json \<Rightarrow> int \<Rightarrow> bool" where
  "num_less v i = (case v of JNum n \<Rightarrow> js_lt n (JFin i) | _ \<Rightarrow> False)"

fun js_findIndex :: "('a \<Rightarrow> bool) \<Rightarrow> 'a list \<Rightarrow> int" where
  "js_findIndex P [] = - 1"
| "js_findIndex P (x # xs) = (if P x then 0 else let i = js_findIndex P xs in if i < 0 then i else i + 1)"

definition quoted :: "string \<Rightarrow> string" where
  "quoted s = double_quote # s @ [double_quote]"

definition round_error :: "advanced_round list \<Rightarrow> advanced_round \<Rightarrow> string option" where
  "round_error rounds r =
    (if ar_permissionScope r = Ps_artifact_generation \<and> round_convention r = ''explicit'' \<and>
        opt_default [] (ar_artifactOutputs r) = []
     then Some (''Artifact-generation round '' @ quoted (ar_id r) @ '' must declare artifact outputs'')
     else if round_verdict_policy r = Vp_forced_rework \<and> ar_jumpRule r = None
     then Some (''forced_rework round '' @ quoted (ar_id r) @ '' requires a jumpRule'')
     else case ar_jumpRule r of
       None \<Rightarrow> None
     | Some j \<Rightarrow>
         if round_verdict_policy r = Vp_forced_rework \<and> jr_minTriggers j < 0
         then Some (''forced_rework round '' @ quoted (ar_id r) @ '' has invalid minTriggers'')
         else if round_verdict_policy r = Vp_forced_rework \<and> num_less (jr_maxTriggers j) (jr_minTriggers j)
         then Some (''forced_rework round '' @ quoted (ar_id r) @ '' has invalid maxTriggers'')
         else if jr_targetRoundId j \<notin> set (map ar_id rounds)
         then Some (''Round '' @ quoted (ar_id r) @ '' jumps to unknown target '' @ quoted (jr_targetRoundId j))
         else if js_findIndex (\<lambda>x. ar_id x = ar_id r) rounds \<le> js_findIndex (\<lambda>x. ar_id x = jr_targetRoundId j) rounds
         then Some (''Round '' @ quoted (ar_id r) @ '' must jump backward to an earlier round'')
         else if ar_preset r = Rp_proposal_audit then Some ''proposal_audit cannot drive routing in v1''
         else None)"

fun first_error :: "('a \<Rightarrow> string option) \<Rightarrow> 'a list \<Rightarrow> string option" where
  "first_error f [] = None"
| "first_error f (x # xs) = (case f x of Some e \<Rightarrow> Some e | None \<Rightarrow> first_error f xs)"

definition validateAdvancedRounds :: "advanced_round list \<Rightarrow> string option" where
  "validateAdvancedRounds rounds =
    (case validateAdvancedRoundIds [] rounds of Some e \<Rightarrow> Some e | None \<Rightarrow> first_error (round_error rounds) rounds)"

fun sum_all :: "('a \<Rightarrow> 'e + 'b) \<Rightarrow> 'a list \<Rightarrow> 'e + 'b list" where
  "sum_all f [] = Inr []"
| "sum_all f (x # xs) =
     (case f x of Inl e \<Rightarrow> Inl e
      | Inr y \<Rightarrow> (case sum_all f xs of Inl e \<Rightarrow> Inl e | Inr ys \<Rightarrow> Inr (y # ys)))"

record resolved_plan =
  pl_rounds :: "resolved_round list"
  pl_overallRunTimeoutMinutes :: int

definition openspec_preset_round ::
  "string \<Rightarrow> string \<Rightarrow> round_preset \<Rightarrow> dispatch_style \<Rightarrow> permission_scope \<Rightarrow> int \<Rightarrow> advanced_round" where
  "openspec_preset_round i title preset mode scope minutes =
    \<lparr>ar_id = i, ar_title = JStr title, ar_preset = preset, ar_executionMode = mode, ar_permissionScope = scope,
     ar_timeoutMinutes = Some minutes, ar_artifactOutputs = None, ar_promptAppend = JUndefined,
     ar_verdictPolicy = Some Vp_none, ar_jumpRule = None, ar_nodeKind = None, ar_script = JUndefined,
     ar_routingAuthority = JUndefined, ar_artifactConvention = None\<rparr>"

definition createOpenSpecPreset :: "advanced_round list" where
  "createOpenSpecPreset =
    [openspec_preset_round ''discussion'' ''Discussion'' Rp_discussion Ds_multi_dispatch Ps_analysis_only 5,
     openspec_preset_round ''openspec_propose'' ''OpenSpec Propose'' Rp_openspec_propose Ds_single_main Ps_artifact_generation 8,
     openspec_preset_round ''proposal_audit'' ''Proposal Audit'' Rp_proposal_audit Ds_single_main Ps_analysis_only 6,
     openspec_preset_round ''implementation'' ''Implementation'' Rp_implementation Ds_multi_dispatch Ps_implementation 8,
     (openspec_preset_round ''implementation_audit'' ''Implementation Audit'' Rp_implementation_audit Ds_single_main
        Ps_analysis_only 6)
       \<lparr>ar_verdictPolicy := Some Vp_smart_gate,
        ar_jumpRule := Some \<lparr>jr_targetRoundId = ''implementation'', jr_marker = Some ''REWORK'', jr_minTriggers = 0,
          jr_maxTriggers = jint 2\<rparr>\<rparr>]"

text \<open>The advanced part of \<open>resolveP2pRoundPlan\<close>; a thrown error is its message.\<close>

definition resolveP2pRoundPlan :: "string option \<Rightarrow> advanced_round list \<Rightarrow> int option \<Rightarrow> string + resolved_plan" where
  "resolveP2pRoundPlan presetKey advancedRounds timeoutMinutes =
    (if truthy presetKey \<and> presetKey \<noteq> Some ''openspec'' \<and> advancedRounds = []
     then Inl (''Unknown advanced P2P preset: '' @ the presetKey)
     else
       let presetRounds = (if presetKey = Some ''openspec'' then createOpenSpecPreset else []);
           rawRounds = (if advancedRounds \<noteq> [] then advancedRounds else presetRounds)
       in if rawRounds = [] then Inl ''Advanced P2P requires at least one round''
          else (case validateAdvancedRounds rawRounds of
              Some e \<Rightarrow> Inl e
            | None \<Rightarrow> (case sum_all normalizeAdvancedRound rawRounds of
                Inl e \<Rightarrow> Inl e
              | Inr rs \<Rightarrow> Inr \<lparr>pl_rounds = rs,
                  pl_overallRunTimeoutMinutes = opt_default default_advanced_run_timeout_minutes timeoutMinutes\<rparr>)))"

section \<open>Configurations of the old schema\<close>

definition round_presets :: "(string \<times> round_preset) list" where
  "round_presets = [(''discussion'', Rp_discussion), (''openspec_propose'', Rp_openspec_propose),
     (''proposal_audit'', Rp_proposal_audit), (''implementation'', Rp_implementation),
     (''implementation_audit'', Rp_implementation_audit), (''custom'', Rp_custom)]"

definition verdict_policies :: "(string \<times> verdict_policy) list" where
  "verdict_policies = [(''none'', Vp_none), (''smart_gate'', Vp_smart_gate), (''forced_rework'', Vp_forced_rework)]"

definition normalizeOldPreset :: "round_preset \<Rightarrow> string" where
  "normalizeOldPreset p = (if p = Rp_discussion then ''discuss'' else enum_name round_presets p)"

definition nodeKindForRound :: "advanced_round \<Rightarrow> string" where
  "nodeKindForRound r = (if ar_permissionScope r = Ps_implementation \<and> ar_preset r = Rp_custom then ''script'' else ''llm'')"

definition old_round_node :: "advanced_round \<Rightarrow> json" where
  "old_round_node r =
    (let outputs = opt_default [] (ar_artifactOutputs r) in
     JObj ([(''id'', JStr (ar_id r)), (''title'', ar_title r), (''nodeKind'', JStr (nodeKindForRound r)),
       (''preset'', JStr (normalizeOldPreset (ar_preset r))),
       (''dispatchStyle'', JStr (enum_name p2p_dispatch_styles (ar_executionMode r))),
       (''permissionScope'', JStr (enum_name p2p_permission_scopes (ar_permissionScope r)))] @
      (if jtruthy (ar_promptAppend r) then [(''promptAppend'', ar_promptAppend r)] else []) @
      (case ar_timeoutMinutes r of Some m \<Rightarrow> if m \<noteq> 0 then [(''timeoutMs'', jint (m * 60000))] else [] | None \<Rightarrow> []) @
      [(''artifacts'', JArr (if ar_permissionScope r = Ps_artifact_generation
         then [JObj [(''convention'', JStr (if ar_preset r = Rp_openspec_propose then ''openspec_convention'' else ''explicit_paths'')),
           (''paths'', JArr (map JStr (if outputs \<noteq> [] then sort outputs else [''openspec/changes'']))),
           (''permissionScope'', JStr ''artifact_generation''), (''symlinkPolicy'', JStr ''reject_all'')]]
         else []))]))"

definition chain_edge_id :: "string \<Rightarrow> string \<Rightarrow> string" where
  "chain_edge_id a b = ''edge_'' @ a @ ''_to_'' @ b"

fun chain_edges :: "advanced_round list \<Rightarrow> json list" where
  "chain_edges (r # r' # rs) =
     JObj [(''id'', JStr (chain_edge_id (ar_id r) (ar_id r'))), (''fromNodeId'', JStr (ar_id r)),
       (''toNodeId'', JStr (ar_id r')), (''edgeKind'', JStr ''default'')] # chain_edges (r' # rs)"
| "chain_edges _ = []"

definition rework_edge_id :: "advanced_round \<Rightarrow> jump_rule \<Rightarrow> string" where
  "rework_edge_id r j = chain_edge_id (ar_id r) (jr_targetRoundId j) @ ''_rework''"

fun rework_edges :: "advanced_round list \<Rightarrow> json list" where
  "rework_edges [] = []"
| "rework_edges (r # rs) =
     (case ar_jumpRule r of
        None \<Rightarrow> rework_edges rs
      | Some j \<Rightarrow> JObj [(''id'', JStr (rework_edge_id r j)), (''fromNodeId'', JStr (ar_id r)),
          (''toNodeId'', JStr (jr_targetRoundId j)), (''edgeKind'', JStr ''conditional''),
          (''condition'', JObj [(''kind'', JStr ''verdict_marker_equals''),
             (''equals'', JStr (opt_default ''REWORK'' (jr_marker j)))])] # rework_edges rs)"

definition rework_budgets :: "advanced_round list \<Rightarrow> (string \<times> json) list" where
  "rework_budgets rs = foldl (\<lambda>b r. case ar_jumpRule r of None \<Rightarrow> b
     | Some j \<Rightarrow> AList.update (rework_edge_id r j) (jr_maxTriggers j) b) [] rs"

definition materializeOldAdvancedConfigToWorkflowDraft :: "string option \<Rightarrow> advanced_round list \<Rightarrow> string + json" where
  "materializeOldAdvancedConfigToWorkflowDraft presetKey advancedRounds =
    (let rounds = (if advancedRounds \<noteq> [] then advancedRounds
         else if presetKey = Some ''openspec'' then createOpenSpecPreset else [])
     in if rounds = [] then Inl ''Old advanced P2P materialization requires advancedPresetKey or advancedRounds''
        else Inr (JObj [(''schemaVersion'', jint 1),
          (''id'', JStr (if truthy presetKey then ''old_'' @ the presetKey else ''old_custom_advanced'')),
          (''title'', JStr (if truthy presetKey then ''Old advanced preset: '' @ the presetKey else ''Old advanced workflow'')),
          (''nodes'', JArr (map old_round_node rounds)), (''edges'', JArr (chain_edges rounds @ rework_edges rounds)),
          (''rootNodeId'', JStr (ar_id (hd rounds))), (''variables'', JArr []),
          (''loopBudgets'', JObj (rework_budgets rounds))]))"

text \<open>
  The rounds of an old configuration as the type \<open>P2pAdvancedRound\<close> has them; the code does not check them, and
  what does not have that type (\<open>None\<close>) is outside the model.
\<close>

definition read_jump_rule :: "json \<Rightarrow> jump_rule option option" where
  "read_jump_rule v =
    (if v = JUndefined then Some None
     else (case (as_string (jget v ''targetRoundId''), jinteger (jget v ''minTriggers'')) of
         (Some t, Some m) \<Rightarrow> Some (Some \<lparr>jr_targetRoundId = t, jr_marker = as_string (jget v ''marker''), jr_minTriggers = m,
           jr_maxTriggers = jget v ''maxTriggers''\<rparr>)
       | _ \<Rightarrow> None))"

definition read_advanced_round :: "json \<Rightarrow> advanced_round option" where
  "read_advanced_round v =
    (case (as_string (jget v ''id''), read_enum round_presets (jget v ''preset''),
           read_enum p2p_dispatch_styles (jget v ''executionMode''),
           read_enum p2p_permission_scopes (jget v ''permissionScope''),
           read_all as_string (jitems (jget v ''artifactOutputs'')),
           read_optional verdict_policies (jget v ''verdictPolicy''), read_jump_rule (jget v ''jumpRule'')) of
       (Some i, Some p, Some m, Some s, Some outs, Some vp, Some jr) \<Rightarrow> Some
         \<lparr>ar_id = i, ar_title = jget v ''title'', ar_preset = p, ar_executionMode = m, ar_permissionScope = s,
          ar_timeoutMinutes = jinteger (jget v ''timeoutMinutes''),
          ar_artifactOutputs = (if is_jarr (jget v ''artifactOutputs'') then Some outs else None),
          ar_promptAppend = jget v ''promptAppend'', ar_verdictPolicy = vp, ar_jumpRule = jr, ar_nodeKind = None,
          ar_script = JUndefined, ar_routingAuthority = JUndefined, ar_artifactConvention = None\<rparr>
     | _ \<Rightarrow> None)"

section \<open>Preparing a launch\<close>

record launch_request =
  lq_cmd :: json
  lq_sessionName :: string
  lq_targets :: "(string \<times> string) list"
  lq_userText :: string
  lq_locale :: "string option"
  lq_projectDir :: string
  lq_commandId :: string

datatype prepared_launch =
  Prepared "advanced_round list" "int option" "bound_workflow option" "workflow_diagnostic list"
| Not_prepared "workflow_diagnostic list"

definition not_nullish :: "json \<Rightarrow> bool" where
  "not_nullish v \<longleftrightarrow> v \<noteq> JUndefined \<and> v \<noteq> JNull"

definition hasOldAdvancedLaunchFields :: "json \<Rightarrow> bool" where
  "hasOldAdvancedLaunchFields cmd \<longleftrightarrow>
    list_ex (\<lambda>k. not_nullish (jget cmd k))
      [''p2pAdvancedPresetKey'', ''p2pAdvancedRounds'', ''p2pAdvancedRunTimeoutMinutes'', ''p2pContextReducer'']"

definition explicit_envelope :: "json \<Rightarrow> json" where
  "explicit_envelope cmd = jnullish (jget cmd ''p2pWorkflowLaunchEnvelope'') (jget cmd ''workflowLaunchEnvelope'')"

definition member_if :: "(json \<Rightarrow> bool) \<Rightarrow> string \<Rightarrow> json \<Rightarrow> (string \<times> json) list" where
  "member_if P k v = (if P v then [(k, v)] else [])"

fun is_jnum :: "json \<Rightarrow> bool" where
  "is_jnum (JNum n) = True"
| "is_jnum _ = False"

definition buildAdvancedLaunchEnvelopeFromCommand :: "launch_request \<Rightarrow> json option" where
  "buildAdvancedLaunchEnvelopeFromCommand q =
    (let cmd = lq_cmd q in
     if is_record (explicit_envelope cmd) then Some (explicit_envelope cmd)
     else if \<not> hasOldAdvancedLaunchFields cmd then None
     else Some (JObj [(''workflowSchemaVersion'', jint 1), (''workflowKind'', JStr ''advanced''),
       (''oldAdvanced'', JObj (member_if is_jstr ''advancedPresetKey'' (jget cmd ''p2pAdvancedPresetKey'') @
          member_if is_jarr ''advancedRounds'' (jget cmd ''p2pAdvancedRounds'') @
          member_if is_jnum ''advancedRunTimeoutMinutes'' (jget cmd ''p2pAdvancedRunTimeoutMinutes'') @
          member_if is_record ''contextReducer'' (jget cmd ''p2pContextReducer''))),
       (''migrationPolicy'', JObj [(''kind'', JStr ''materialize_old_advanced'')]),
       (''launchContext'', JObj ([(''requestId'', JStr (lq_commandId q)), (''sessionName'', JStr (lq_sessionName q)),
          (''projectRoot'', JStr (lq_projectDir q)), (''userText'', JStr (lq_userText q))] @
          opt_member ''locale'' JStr (lq_locale q)))]))"

definition makeBindRuntimeContext :: "launch_request \<Rightarrow> string \<Rightarrow> link_view \<Rightarrow> static_policy \<Rightarrow> bool \<Rightarrow> bind_context" where
  "makeBindRuntimeContext q runId link p accepted =
    \<lparr>bc_runId = runId, bc_requestId = Some (lq_commandId q), bc_repoRoot = lq_projectDir q,
     bc_participants = (lq_sessionName q, None) # map (\<lambda>(s, m). (s, Some m)) (lq_targets q),
     bc_serverId = sl_serverId link, bc_sessionName = lq_sessionName q,
     bc_capabilitySnapshot = readCachedHelloSnapshot link, bc_policySnapshot = p, bc_accepted = accepted\<rparr>"

text \<open>The draft of an envelope: its own, or the one its old configuration becomes.\<close>

definition launch_draft :: "json \<Rightarrow> json validation" where
  "launch_draft envelope =
    (let old = jget envelope ''oldAdvanced''; bad = \<lambda>ex. V_bad [diag Dc_invalid_launch_envelope Dp_parse ex] in
     if jtruthy (jget envelope ''advancedDraft'') then V_ok (jget envelope ''advancedDraft'') []
     else if \<not> jtruthy old then bad (at_field ''advancedDraft'')
     else if jget (jget envelope ''migrationPolicy'') ''kind'' \<noteq> JStr ''materialize_old_advanced''
     then bad (at_field ''migrationPolicy'')
     else (case read_all read_advanced_round (jitems (jget old ''advancedRounds'')) of
         None \<Rightarrow> bad no_extras
       | Some rounds \<Rightarrow>
           (case materializeOldAdvancedConfigToWorkflowDraft (as_string (jget old ''advancedPresetKey'')) rounds of
              Inl e \<Rightarrow> bad (with_summary e) | Inr d \<Rightarrow> V_ok d [])))"

definition launch_policy :: "json \<Rightarrow> link_view \<Rightarrow> static_policy" where
  "launch_policy envelope link =
    (let base = loadDaemonP2pStaticPolicy link;
         allowed = sort (js_unique (map jtext (filter is_jstr (jitems (jget envelope ''allowedExecutables'')))))
     in if allowed \<noteq> [] then buildDefaultP2pStaticPolicy (base\<lparr>sp_allowedExecutables := allowed\<rparr>) else base)"

definition policy_mismatch :: "json \<Rightarrow> static_policy \<Rightarrow> workflow_diagnostic list" where
  "policy_mismatch envelope p =
    (case jget envelope ''expectedStaticPolicyHash'' of
       JStr h \<Rightarrow> complain (h \<noteq> [] \<and> Some h \<noteq> sp_policyHash p) (diag Dc_static_policy_mismatch_recompiled Dp_bind
         (at_field_because ''expectedStaticPolicyHash'' (''Launch envelope referenced static policy '' @ h @
           '' but daemon recompiled with current policy '' @ opt_default ''<unhashed>'' (sp_policyHash p) @ ''.'')))
     | _ \<Rightarrow> [])"

definition timeout_ms :: "json \<Rightarrow> int option" where
  "timeout_ms v = map_option (\<lambda>i. i * 60000) (jinteger v)"

definition prepareAdvancedWorkflowLaunch ::
  "(string \<Rightarrow> string \<Rightarrow> int) \<Rightarrow> launch_request \<Rightarrow> link_view \<Rightarrow> int \<Rightarrow> string \<Rightarrow> prepared_launch" where
  "prepareAdvancedWorkflowLaunch lc q link activeAdvancedRuns runId =
    (case buildAdvancedLaunchEnvelopeFromCommand q of
       None \<Rightarrow> Prepared [] None None []
     | Some envelope \<Rightarrow>
        if (jtruthy (jget (lq_cmd q) ''p2pWorkflowLaunchEnvelope'') \<or> jtruthy (jget (lq_cmd q) ''workflowLaunchEnvelope''))
           \<and> hasOldAdvancedLaunchFields (lq_cmd q)
        then Not_prepared [diag Dc_mixed_advanced_schema_fields Dp_parse no_extras]
        else (case validateP2pWorkflowLaunchEnvelope envelope of
           V_bad ds \<Rightarrow> Not_prepared ds
         | V_ok _ envelopeDs \<Rightarrow>
            (case launch_draft envelope of
               V_bad ds \<Rightarrow> Not_prepared ds
             | V_ok draft _ \<Rightarrow>
                (case validateP2pWorkflowDraft draft of
                   V_bad ds \<Rightarrow> Not_prepared ds
                 | V_ok _ _ \<Rightarrow>
                    let p = launch_policy envelope link; mismatch = policy_mismatch envelope p in
                    (case compileP2pWorkflowDraft lc draft p of
                       V_bad ds \<Rightarrow> Not_prepared (mismatch @ ds)
                     | V_ok w compileDs \<Rightarrow>
                        let context = makeBindRuntimeContext q runId link p (activeAdvancedRuns < sp_maxAdvancedRuns p) in
                        (case bindP2pCompiledWorkflow w context of
                           Bind_failed why ds \<Rightarrow> Not_prepared (mismatch @ ds)
                         | Bind_ok b bindDs \<Rightarrow>
                             Prepared (compiledWorkflowToLegacyAdvancedRounds w)
                               (timeout_ms (jget (jget envelope ''oldAdvanced'') ''advancedRunTimeoutMinutes''))
                               (Some b) (envelopeDs @ mismatch @ compileDs @ bindDs)))))))"

text \<open>
  What \<open>startP2pRun\<close> makes of it: the plan of the run.  The handler passes the key of the preset along, but only
  with at least one round, and then the key plays no role.
\<close>

definition ceil_div :: "int \<Rightarrow> int \<Rightarrow> int" where
  "ceil_div a b = - ((- a) div b)"

definition plan_of_launch :: "advanced_round list \<Rightarrow> int option \<Rightarrow> string + resolved_plan" where
  "plan_of_launch rounds timeoutMs = resolveP2pRoundPlan None rounds (map_option (\<lambda>ms. ceil_div ms 60000) timeoutMs)"

end
