(* ===== verification/P2pLaunchProps.thy ===== *)
theory P2pLaunchProps
  imports P2pLaunch
begin

text \<open>
  What a launch ensures: binding grants a node nothing that the daemon does not offer, the rounds of a compiled
  workflow are its nodes, and which workflows can be planned.  The examples of the witnesses are at the end of each
  section.
\<close>

section \<open>What binding ensures\<close>

text \<open>A node asks for no more than the policy grants.\<close>

definition node_granted :: "static_policy \<Rightarrow> compiled_node \<Rightarrow> bool" where
  "node_granted p n \<longleftrightarrow>
    (cn_permissionScope n = Ps_implementation \<longrightarrow> sp_allowImplementationPermission p) \<and>
    (list_ex is_openspec_contract (cn_artifacts n) \<longrightarrow> sp_allowOpenSpecArtifacts p) \<and>
    (jtruthy (cn_script n) \<longrightarrow>
      (jget (cn_script n) ''commandKind'' = JStr ''interpreter'' \<longrightarrow> sp_allowInterpreterScripts p) \<and>
      (\<exists>x \<in> set (sp_allowedExecutables p). script_executable (cn_script n) = JStr x))"

lemma node_policy_issues_none: "\<not> has_error (node_policy_issues p runId n) \<Longrightarrow> node_granted p n"
  by (auto simp: node_policy_issues_def node_granted_def Let_def bind_issue_def split: if_splits elim!: jstr_where_elim)

lemma set_js_unique [simp]: "set (js_unique xs) = set xs"
  by (simp add: js_unique_def)

lemma set_capabilities [simp]:
  "set (getCurrentDaemonWorkflowCapabilities link) = (case sl_capabilities link of Some cs \<Rightarrow> set cs | None \<Rightarrow> {})"
  by (simp add: getCurrentDaemonWorkflowCapabilities_def split: option.splits)

lemma bound_is_granted:
  assumes "bindP2pCompiledWorkflow w c = Bind_ok b ds"
  shows "bw_compiled b = w \<and> bw_bindContext b = c \<and> bc_accepted c \<and>
    insert cap_workflow (set (cw_derivedRequiredCapabilities w)) \<subseteq> set (cs_capabilities (bc_capabilitySnapshot c)) \<and>
    (\<forall>n \<in> set (cw_nodes w). node_granted (bc_policySnapshot c) n)"
proof -
  have ok: "bc_accepted c" "getMissingP2pWorkflowCapabilities w c = []"
      "\<not> has_error (validateCompiledWorkflowAgainstBindPolicy w c)" "bw_compiled b = w" "bw_bindContext b = c"
    using assms by (auto simp: bindP2pCompiledWorkflow_def Let_def split: if_splits)
  have "node_granted (bc_policySnapshot c) n" if "n \<in> set (cw_nodes w)" for n
    using ok(3) that node_policy_issues_none
    by (auto simp: validateCompiledWorkflowAgainstBindPolicy_def has_error_concat list_ex_iff)
  with ok show ?thesis by (auto simp: getMissingP2pWorkflowCapabilities_def filter_empty_conv)
qed

lemma string_items: "jtext ` {j \<in> set js. is_jstr j} = {x. JStr x \<in> set js}"
proof -
  have "x \<in> jtext ` {j \<in> set js. is_jstr j} \<longleftrightarrow> JStr x \<in> set js" for x
    by (force simp: jtext_def is_jstr.simps elim!: is_jstr.elims)
  then show ?thesis by blast
qed

lemma launch_policy_flags [simp]:
  "sp_allowImplementationPermission (launch_policy envelope link) \<longleftrightarrow> cap_implementation \<in> set (getCurrentDaemonWorkflowCapabilities link)"
  "sp_allowOpenSpecArtifacts (launch_policy envelope link) \<longleftrightarrow> cap_openspec_artifacts \<in> set (getCurrentDaemonWorkflowCapabilities link)"
  "sp_allowInterpreterScripts (launch_policy envelope link) \<longleftrightarrow> cap_script_interpreter \<in> set (getCurrentDaemonWorkflowCapabilities link)"
  "set (sp_allowedExecutables (launch_policy envelope link)) = {x. JStr x \<in> set (jitems (jget envelope ''allowedExecutables''))}"
  "sp_maxAdvancedRuns (launch_policy envelope link) = 2"
proof -
  have "sort (js_unique (map jtext (filter is_jstr js))) = [] \<longleftrightarrow> {x. JStr x \<in> set js} = {}" for js
    by (metis string_items set_js_unique set_sort list.set_map set_filter set_empty)
  then show "set (sp_allowedExecutables (launch_policy envelope link)) = {x. JStr x \<in> set (jitems (jget envelope ''allowedExecutables''))}"
    using string_items by (simp add: launch_policy_def Let_def loadDaemonP2pStaticPolicy_def buildDefaultP2pStaticPolicy_def)
qed (simp_all add: launch_policy_def Let_def loadDaemonP2pStaticPolicy_def buildDefaultP2pStaticPolicy_def default_p2p_static_policy_def)

lemma preparedE:
  assumes "prepareAdvancedWorkflowLaunch lc q link activeAdvancedRuns runId = Prepared rounds t (Some b) ds"
  obtains envelope draft ds0 ds1 where "buildAdvancedLaunchEnvelopeFromCommand q = Some envelope"
    "compileP2pWorkflowDraft lc draft (launch_policy envelope link) = V_ok (bw_compiled b) ds0"
    "bindP2pCompiledWorkflow (bw_compiled b) (makeBindRuntimeContext q runId link (launch_policy envelope link)
      (activeAdvancedRuns < sp_maxAdvancedRuns (launch_policy envelope link))) = Bind_ok b ds1"
    "rounds = compiledWorkflowToLegacyAdvancedRounds (bw_compiled b)"
proof -
  obtain envelope where e: "buildAdvancedLaunchEnvelopeFromCommand q = Some envelope"
    using assms by (auto simp: prepareAdvancedWorkflowLaunch_def split: option.splits)
  obtain draft ds2 where d: "launch_draft envelope = V_ok draft ds2"
    using assms e by (auto simp: prepareAdvancedWorkflowLaunch_def split: validation.splits if_splits)
  let ?p = "launch_policy envelope link"
  let ?c = "makeBindRuntimeContext q runId link ?p (activeAdvancedRuns < sp_maxAdvancedRuns ?p)"
  obtain w ds0 where w: "compileP2pWorkflowDraft lc draft ?p = V_ok w ds0"
    using assms e d by (auto simp: prepareAdvancedWorkflowLaunch_def Let_def split: validation.splits if_splits)
  have "\<exists>ds1. bindP2pCompiledWorkflow w ?c = Bind_ok b ds1 \<and> rounds = compiledWorkflowToLegacyAdvancedRounds w"
    using assms e d w
    by (auto simp: prepareAdvancedWorkflowLaunch_def Let_def split: validation.splits if_splits bind_result.splits)
  then obtain ds1 where b: "bindP2pCompiledWorkflow w ?c = Bind_ok b ds1" "rounds = compiledWorkflowToLegacyAdvancedRounds w"
    by blast
  with bound_is_granted [OF b(1)] w e show ?thesis using that by metis
qed


section \<open>The order of the rounds\<close>

lemma visit_order_extends:
  "\<exists>vs. visit_order w st vis = vis @ vs \<and> (\<forall>i \<in> set vs. find_node w i \<noteq> None) \<and> (distinct vis \<longrightarrow> distinct (vis @ vs))"
proof (induction w st vis rule: visit_order.induct)
  case (1 w visited)
  then show ?case by simp
next
  case (2 w i rest visited)
  show ?case
  proof (cases "i \<in> set visited \<or> find_node w i = None")
    case True
    with 2(1) show ?thesis by simp
  next
    case False
    from 2(2) [OF False] obtain vs where "visit_order w (default_targets w i @ rest) (visited @ [i]) = (visited @ [i]) @ vs"
        "\<forall>i \<in> set vs. find_node w i \<noteq> None" "distinct (visited @ [i]) \<longrightarrow> distinct ((visited @ [i]) @ vs)"
      by blast
    with False show ?thesis by (intro exI [of _ "i # vs"]) auto
  qed
qed

lemma find_node_distinct: "distinct (map cn_id (cw_nodes w)) \<Longrightarrow> n \<in> set (cw_nodes w) \<Longrightarrow> find_node w (cn_id n) = Some n"
proof -
  assume d: "distinct (map cn_id (cw_nodes w))" and n: "n \<in> set (cw_nodes w)"
  have "distinct (map fst (rev (map (\<lambda>n. (cn_id n, n)) (cw_nodes w))))"
    using d by (simp add: rev_map [symmetric] comp_def)
  with n show ?thesis by (auto simp: find_node_def)
qed

definition visited_ids :: "compiled_workflow \<Rightarrow> string list" where
  "visited_ids w = (if cw_rootNodeId w \<noteq> [] then visit_order w [cw_rootNodeId w] [] else [])"

lemma visited_ids_found: "distinct (visited_ids w)" "i \<in> set (visited_ids w) \<Longrightarrow> find_node w i \<noteq> None"
  using visit_order_extends [of w "[cw_rootNodeId w]" "[]"] by (auto simp: visited_ids_def)

lemma order_alt:
  "orderCompiledNodesForExecution w =
    map (the \<circ> find_node w) (visited_ids w) @ filter (\<lambda>n. cn_id n \<notin> set (visited_ids w)) (cw_nodes w)"
  by (simp add: orderCompiledNodesForExecution_def visited_ids_def)

lemma order_permutes:
  assumes "distinct (map cn_id (cw_nodes w))"
  shows "mset (orderCompiledNodesForExecution w) = mset (cw_nodes w)"
proof -
  let ?v = "visited_ids w"
  have nodes: "distinct (cw_nodes w)" using assms by (simp add: distinct_map)
  have inv: "cn_id ((the \<circ> find_node w) i) = i" "(the \<circ> find_node w) i \<in> set (cw_nodes w)" if "i \<in> set ?v" for i
    using visited_ids_found(2) [OF that] find_node_Some by force+
  have "inj_on (the \<circ> find_node w) (set ?v)" using inv(1) by (metis inj_onI)
  then have d: "distinct (map (the \<circ> find_node w) ?v)" using visited_ids_found(1) by (simp only: distinct_map)
  moreover have sets: "set (map (the \<circ> find_node w) ?v) = {n \<in> set (cw_nodes w). cn_id n \<in> set ?v}"
  proof
    show "set (map (the \<circ> find_node w) ?v) \<subseteq> {n \<in> set (cw_nodes w). cn_id n \<in> set ?v}" using inv by auto
    show "{n \<in> set (cw_nodes w). cn_id n \<in> set ?v} \<subseteq> set (map (the \<circ> find_node w) ?v)"
      using find_node_distinct [OF assms] by force
  qed
  have "distinct (orderCompiledNodesForExecution w)"
    unfolding order_alt distinct_append using d sets nodes by auto
  moreover have "set (orderCompiledNodesForExecution w) = set (cw_nodes w)"
    unfolding order_alt set_append sets by auto
  ultimately show ?thesis using nodes set_eq_iff_mset_eq_distinct by blast
qed

lemma hd_visit_order: "find_node w i \<noteq> None \<Longrightarrow> \<exists>vs. visit_order w [i] [] = i # vs"
  using visit_order_extends [of w "default_targets w i" "[i]"] by auto

lemma rounds_ids [simp]: "map ar_id (compiledWorkflowToLegacyAdvancedRounds w) = map cn_id (orderCompiledNodesForExecution w)"
  by (simp add: compiledWorkflowToLegacyAdvancedRounds_def mapCompiledNodeToLegacyRound_def comp_def split: prod.splits)

text \<open>
  C16. The rounds of a compiled workflow are its nodes, each once, and its root comes first.
\<close>

theorem execution_order_is_complete:
  assumes "workflow_ok ids w"
  shows "mset (orderCompiledNodesForExecution w) = mset (cw_nodes w) \<and>
    map ar_id (compiledWorkflowToLegacyAdvancedRounds w) = map cn_id (orderCompiledNodesForExecution w) \<and>
    hd (map ar_id (compiledWorkflowToLegacyAdvancedRounds w)) = cw_rootNodeId w"
proof (intro conjI)
  have d: "distinct (map cn_id (cw_nodes w))" and r: "cw_rootNodeId w \<in> cn_id ` set (cw_nodes w)"
      and root: "cw_rootNodeId w \<noteq> []"
    using assms unfolding workflow_ok_def by blast+
  show "mset (orderCompiledNodesForExecution w) = mset (cw_nodes w)" using d by (rule order_permutes)
  show "map ar_id (compiledWorkflowToLegacyAdvancedRounds w) = map cn_id (orderCompiledNodesForExecution w)" by simp
  obtain n where "n \<in> set (cw_nodes w)" "cw_rootNodeId w = cn_id n" using r by auto
  moreover from this obtain vs where "visit_order w [cn_id n] [] = cn_id n # vs"
    using hd_visit_order find_node_distinct [OF d] by blast
  ultimately show "hd (map ar_id (compiledWorkflowToLegacyAdvancedRounds w)) = cw_rootNodeId w"
    unfolding rounds_ids order_alt using root by (simp add: visited_ids_def find_node_distinct [OF d])
qed

lemma sample_workflow_ok:
  "workflow_ok (node_ids sample_read) (assemble_workflow code_order sample_read default_p2p_static_policy)"
proof -
  have "conditions_given sample_read" unfolding sample_read_def by code_simp
  then show ?thesis using compile_ok [of sample_read default_p2p_static_policy code_order] sample_compile_ok by simp
qed

theorem execution_order_is_complete_witness:
  "let w = assemble_workflow code_order sample_read default_p2p_static_policy in
    mset (orderCompiledNodesForExecution w) = mset (cw_nodes w) \<and>
    map ar_id (compiledWorkflowToLegacyAdvancedRounds w) = map cn_id (orderCompiledNodesForExecution w) \<and>
    hd (map ar_id (compiledWorkflowToLegacyAdvancedRounds w)) = cw_rootNodeId w"
  unfolding Let_def by (rule execution_order_is_complete [OF sample_workflow_ok])

section \<open>What a plan ensures\<close>

lemma first_error_None: "first_error f xs = None \<longleftrightarrow> (\<forall>x \<in> set xs. f x = None)"
  by (induction xs) (auto split: option.splits)

lemma sum_all_Inr: "sum_all f xs = Inr ys \<longleftrightarrow> list_all2 (\<lambda>x y. f x = Inr y) xs ys"
proof (induction xs arbitrary: ys)
  case (Cons x xs)
  have "sum_all f xs = Inr zs \<Longrightarrow> list_all2 (\<lambda>x y. f x = Inr y) xs zs' \<Longrightarrow> zs' = zs" for zs zs'
    using Cons [of zs'] by simp
  with Cons show ?case by (cases ys) (auto split: sum.splits)
qed auto

lemma planned:
  assumes "plan_of_launch rounds t = Inr plan"
  shows "rounds \<noteq> [] \<and> validateAdvancedRoundIds [] rounds = None \<and> (\<forall>r \<in> set rounds. round_error rounds r = None) \<and>
    list_all2 (\<lambda>x y. normalizeAdvancedRound x = Inr y) rounds (pl_rounds plan)"
  using assms
  by (auto simp: plan_of_launch_def resolveP2pRoundPlan_def truthy_def validateAdvancedRounds_def first_error_None sum_all_Inr
        split: if_splits option.splits sum.splits)

lemma normalized_id: "normalizeAdvancedRound r = Inr x \<Longrightarrow> rr_id x = ar_id r \<and> rr_nodeKind x = ar_nodeKind r \<and>
    rr_permissionScope x = ar_permissionScope r \<and> rr_jumpRule x = ar_jumpRule r"
  by (auto simp: normalizeAdvancedRound_def Let_def split: json.splits)

lemma planned_ids: "plan_of_launch rounds t = Inr plan \<Longrightarrow> map rr_id (pl_rounds plan) = map ar_id rounds"
proof -
  assume "plan_of_launch rounds t = Inr plan"
  then have "list_all2 (\<lambda>x y. normalizeAdvancedRound x = Inr y) rounds (pl_rounds plan)" using planned by blast
  then show ?thesis by (induction rule: list_all2_induct) (auto dest: normalized_id)
qed

lemma js_findIndex_map: "js_findIndex (\<lambda>x. f x = i) xs = js_findIndex (\<lambda>j. j = i) (map f xs)"
  by (induction xs) (auto simp: Let_def)

lemma single_outgoing:
  assumes "length (outgoing k i es) \<le> 1" "e \<in> set es" "ed_edgeKind e = k" "ed_fromNodeId e = i"
  shows "outgoing k i es = [e]"
proof -
  have "e \<in> set (outgoing k i es)" using assms by (simp add: outgoing_def)
  with assms(1) show ?thesis by (cases "outgoing k i es") auto
qed

text \<open>
  C17. A run is planned only if every conditional edge has a loop budget and goes back in the order of the rounds, and
  does not leave a proposal audit; what compilation accepts beyond that cannot be started.
\<close>

theorem planned_conditional_edges_go_back:
  assumes "workflow_ok ids w" and "plan_of_launch (compiledWorkflowToLegacyAdvancedRounds w) t = Inr plan"
    and "e \<in> set (cw_edges w)" and "ed_edgeKind e = Ek_conditional"
  shows "read_member (cw_loopBudgets w) (ed_id e) \<noteq> JUndefined \<and>
    js_findIndex (\<lambda>r. rr_id r = ed_toNodeId e) (pl_rounds plan) < js_findIndex (\<lambda>r. rr_id r = ed_fromNodeId e) (pl_rounds plan) \<and>
    (\<exists>n \<in> set (cw_nodes w). cn_id n = ed_fromNodeId e \<and> cn_preset n \<noteq> Pk_proposal_audit)"
proof -
  let ?rs = "compiledWorkflowToLegacyAdvancedRounds w"
  have d: "distinct (map cn_id (cw_nodes w))" and from_node: "ed_fromNodeId e \<in> cn_id ` set (cw_nodes w)"
      and one: "length (outgoing Ek_conditional (ed_fromNodeId e) (cw_edges w)) \<le> 1"
    using assms(1,3) unfolding workflow_ok_def by blast+
  have edge: "conditional_edge w (ed_fromNodeId e) = Some e"
    using single_outgoing [OF one assms(3,4)] by (simp add: conditional_edge_def)
  have err: "\<forall>r \<in> set ?rs. round_error ?rs r = None" using planned [OF assms(2)] by blast
  have ix: "js_findIndex (\<lambda>r. rr_id r = i) (pl_rounds plan) = js_findIndex (\<lambda>r. ar_id r = i) ?rs" for i
    using js_findIndex_map planned_ids [OF assms(2)] by metis
  have node: "read_member (cw_loopBudgets w) (ed_id e) \<noteq> JUndefined \<and>
      js_findIndex (\<lambda>r. ar_id r = ed_toNodeId e) ?rs < js_findIndex (\<lambda>r. ar_id r = ed_fromNodeId e) ?rs \<and>
      cn_preset n \<noteq> Pk_proposal_audit"
    if n: "n \<in> set (cw_nodes w)" "cn_id n = ed_fromNodeId e" for n
  proof -
    have "n \<in> set (orderCompiledNodesForExecution w)" using n order_permutes [OF d] by (metis mset_eq_setD)
    then have "mapCompiledNodeToLegacyRound w n \<in> set ?rs" by (simp add: compiledWorkflowToLegacyAdvancedRounds_def)
    then have "round_error ?rs (mapCompiledNodeToLegacyRound w n) = None" using err by blast
    then show ?thesis
      using n(2) edge
      by (auto simp: round_error_def mapCompiledNodeToLegacyRound_def mapConditionalEdgeToJumpRule_def Let_def
            round_verdict_policy_def roundPresetFromWorkflowPreset_def split: if_splits)
  qed
  obtain n where "n \<in> set (cw_nodes w)" "cn_id n = ed_fromNodeId e" using from_node by auto
  with node [OF this] show ?thesis unfolding ix by blast
qed


text \<open>The rounds do not depend on the hashes; examples are computed without them.\<close>

definition unhashed :: "compiled_workflow \<Rightarrow> compiled_workflow" where
  "unhashed w = w\<lparr>cw_staticPolicyHash := [], cw_workflowContractHash := []\<rparr>"

lemma unhashed_graph [simp]:
  "find_node (unhashed w) = find_node w" "default_targets (unhashed w) = default_targets w"
  "cw_nodes (unhashed w) = cw_nodes w" "cw_edges (unhashed w) = cw_edges w" "cw_rootNodeId (unhashed w) = cw_rootNodeId w"
  by (simp_all add: unhashed_def fun_eq_iff find_node_def default_targets_def)

lemma visit_order_unhashed: "visit_order (unhashed w) st vis = visit_order w st vis"
  by (induction w st vis rule: visit_order.induct) simp_all

lemma rounds_unhashed: "compiledWorkflowToLegacyAdvancedRounds (unhashed w) = compiledWorkflowToLegacyAdvancedRounds w"
proof -
  have "mapCompiledNodeToLegacyRound (unhashed w) = mapCompiledNodeToLegacyRound w"
    by (simp add: fun_eq_iff mapCompiledNodeToLegacyRound_def conditional_edge_def unhashed_def)
  then show ?thesis
    by (simp add: compiledWorkflowToLegacyAdvancedRounds_def orderCompiledNodesForExecution_def visit_order_unhashed)
qed

definition bare_workflow :: "(string \<Rightarrow> string \<Rightarrow> int) \<Rightarrow> workflow_draft \<Rightarrow> compiled_workflow" where
  "bare_workflow lc d =
    (let nodes = map (compileNode (dr_edges d)) (js_sort_by (\<lambda>a b. lc (nd_id a) (nd_id b)) (dr_nodes d)) in
     \<lparr>cw_workflowId = dr_id d, cw_rootNodeId = jtext (draft_root d), cw_nodes = nodes,
      cw_edges = js_sort_by (\<lambda>a b. lc (ed_id a) (ed_id b)) (dr_edges d),
      cw_variables = js_sort_by (\<lambda>a b. lc (vd_name a) (vd_name b)) (dr_variables d),
      cw_loopBudgets = sortedRecord (jmembers (dr_loopBudgets d)),
      cw_derivedRequiredCapabilities = deriveRequiredCapabilities nodes,
      cw_staticPolicyHash = [], cw_workflowContractHash = [], cw_diagnostics = []\<rparr>)"

lemma unhashed_assembled: "unhashed (assemble_workflow lc d p) = bare_workflow lc d"
  by (simp add: unhashed_def assemble_workflow_def bare_workflow_def Let_def)

lemma assembled_rounds:
  "compiledWorkflowToLegacyAdvancedRounds (assemble_workflow lc d p) = compiledWorkflowToLegacyAdvancedRounds (bare_workflow lc d)"
  by (metis rounds_unhashed unhashed_assembled)

definition sample_plan :: resolved_plan where
  "sample_plan = projr (plan_of_launch (compiledWorkflowToLegacyAdvancedRounds (bare_workflow code_order sample_read)) None)"

lemma sample_planned: "plan_of_launch (compiledWorkflowToLegacyAdvancedRounds (bare_workflow code_order sample_read)) None = Inr sample_plan"
  unfolding sample_plan_def sample_read_def by code_simp


definition sample_back_edge :: edge_draft where
  "sample_back_edge = the (read_edge (sample_edge ''c'' ''audit'' ''plan'' sample_rework))"

lemma sample_back_edge_in:
  "sample_back_edge \<in> set (cw_edges (assemble_workflow code_order sample_read default_p2p_static_policy))"
  "ed_edgeKind sample_back_edge = Ek_conditional"
proof -
  have "sample_back_edge \<in> set (dr_edges sample_read)" unfolding sample_read_def sample_back_edge_def by code_simp
  then show "sample_back_edge \<in> set (cw_edges (assemble_workflow code_order sample_read default_p2p_static_policy))"
    by (metis assemble_fields(1) mset_js_sort_by set_mset_mset)
  show "ed_edgeKind sample_back_edge = Ek_conditional" unfolding sample_back_edge_def by code_simp
qed

lemma sample_planned_assembled:
  "plan_of_launch (compiledWorkflowToLegacyAdvancedRounds (assemble_workflow code_order sample_read p)) None = Inr sample_plan"
  by (simp only: assembled_rounds sample_planned)

theorem planned_conditional_edges_go_back_witness:
  "read_member (cw_loopBudgets (assemble_workflow code_order sample_read default_p2p_static_policy)) (ed_id sample_back_edge)
      \<noteq> JUndefined \<and>
    js_findIndex (\<lambda>r. rr_id r = ed_toNodeId sample_back_edge) (pl_rounds sample_plan) <
      js_findIndex (\<lambda>r. rr_id r = ed_fromNodeId sample_back_edge) (pl_rounds sample_plan) \<and>
    (\<exists>n \<in> set (cw_nodes (assemble_workflow code_order sample_read default_p2p_static_policy)).
      cn_id n = ed_fromNodeId sample_back_edge \<and> cn_preset n \<noteq> Pk_proposal_audit)"
  by (rule planned_conditional_edges_go_back [OF sample_workflow_ok sample_planned_assembled sample_back_edge_in])

text \<open>A branch that goes forward passes compilation and binding, and then there is no plan for it.\<close>

definition sample_branch :: json where
  "sample_branch = JObj [(''schemaVersion'', jint 1), (''id'', JStr ''w''), (''rootNodeId'', JStr ''audit''),
     (''nodes'', JArr [sample_node ''audit'' ''llm'' ''audit'' ''analysis_only'',
        sample_node ''fix'' ''llm'' ''custom'' ''analysis_only'', sample_node ''ship'' ''llm'' ''review'' ''analysis_only'']),
     (''edges'', JArr [sample_edge ''a'' ''audit'' ''ship'' sample_default, sample_edge ''b'' ''audit'' ''fix'' sample_rework,
        sample_edge ''c'' ''fix'' ''ship'' sample_default])]"

definition sample_branch_read :: workflow_draft where
  "sample_branch_read = the (read_draft sample_branch)"

lemma forward_branch_compiles:
  "compileP2pWorkflowDraft code_order sample_branch default_p2p_static_policy =
    V_ok (assemble_workflow code_order sample_branch_read default_p2p_static_policy) []"
proof -
  have "validateP2pWorkflowDraft sample_branch = V_ok sample_branch []" by code_simp
  moreover have "read_draft sample_branch = Some sample_branch_read" unfolding sample_branch_read_def by code_simp
  moreover have "compile_diagnostics sample_branch_read default_p2p_static_policy = []"
    unfolding sample_branch_read_def by code_simp
  ultimately show ?thesis by (simp add: compileP2pWorkflowDraft_def)
qed

lemma forward_branch_has_no_plan:
  "plan_of_launch (compiledWorkflowToLegacyAdvancedRounds (assemble_workflow code_order sample_branch_read p)) None =
    Inl (''forced_rework round '' @ quoted ''audit'' @ '' requires a jumpRule'')"
  unfolding assembled_rounds sample_branch_read_def by code_simp

section \<open>A prepared launch\<close>

text \<open>
  C5. A launch that is prepared runs a bound workflow that asks for nothing the daemon does not offer: all its
  capabilities are advertised, fewer than two advanced runs are active, a node writes, produces OpenSpec artifacts or
  runs an interpreter only if the daemon advertises that, and every script starts an executable of the envelope's
  list.  The rounds are those of that workflow.
\<close>

theorem prepared_launch_is_granted:
  assumes "prepareAdvancedWorkflowLaunch lc q link activeAdvancedRuns runId = Prepared rounds t (Some b) ds"
  shows "rounds = compiledWorkflowToLegacyAdvancedRounds (bw_compiled b) \<and> activeAdvancedRuns < 2 \<and>
    insert cap_workflow (set (cw_derivedRequiredCapabilities (bw_compiled b))) \<subseteq> set (getCurrentDaemonWorkflowCapabilities link) \<and>
    list_all (node_granted (default_p2p_static_policy
      \<lparr>sp_allowImplementationPermission := cap_implementation \<in> set (getCurrentDaemonWorkflowCapabilities link),
       sp_allowOpenSpecArtifacts := cap_openspec_artifacts \<in> set (getCurrentDaemonWorkflowCapabilities link),
       sp_allowInterpreterScripts := cap_script_interpreter \<in> set (getCurrentDaemonWorkflowCapabilities link),
       sp_allowedExecutables := map jtext (filter is_jstr
         (jitems (jget (the (buildAdvancedLaunchEnvelopeFromCommand q)) ''allowedExecutables'')))\<rparr>))
      (cw_nodes (bw_compiled b))"
proof -
  obtain envelope draft ds0 ds1 where e: "buildAdvancedLaunchEnvelopeFromCommand q = Some envelope"
    and "compileP2pWorkflowDraft lc draft (launch_policy envelope link) = V_ok (bw_compiled b) ds0"
    and b: "bindP2pCompiledWorkflow (bw_compiled b) (makeBindRuntimeContext q runId link (launch_policy envelope link)
      (activeAdvancedRuns < sp_maxAdvancedRuns (launch_policy envelope link))) = Bind_ok b ds1"
    and r: "rounds = compiledWorkflowToLegacyAdvancedRounds (bw_compiled b)"
    using assms by (rule preparedE)
  have "jtext ` {j \<in> set js. is_jstr j} = {x. JStr x \<in> set js}" for js by (rule string_items)
  then have same: "node_granted (launch_policy envelope link) n \<Longrightarrow> node_granted (default_p2p_static_policy
      \<lparr>sp_allowImplementationPermission := cap_implementation \<in> set (getCurrentDaemonWorkflowCapabilities link),
       sp_allowOpenSpecArtifacts := cap_openspec_artifacts \<in> set (getCurrentDaemonWorkflowCapabilities link),
       sp_allowInterpreterScripts := cap_script_interpreter \<in> set (getCurrentDaemonWorkflowCapabilities link),
       sp_allowedExecutables := map jtext (filter is_jstr (jitems (jget envelope ''allowedExecutables'')))\<rparr>) n" for n
    by (simp add: node_granted_def del: set_capabilities)
  from bound_is_granted [OF b] r e same show ?thesis
    by (simp add: makeBindRuntimeContext_def readCachedHelloSnapshot_def list_all_iff del: set_capabilities)
qed

definition sample_link :: link_view where
  "sample_link = \<lparr>sl_capabilities = Some [cap_workflow, cap_script_argv], sl_serverId = Some ''d'', sl_helloEpoch = Some 1,
     sl_helloSentAt = Some 1\<rparr>"

definition sample_script_draft :: json where
  "sample_script_draft = JObj [(''schemaVersion'', jint 1), (''id'', JStr ''w''),
     (''nodes'', JArr [sample_node ''plan'' ''llm'' ''plan'' ''analysis_only'',
        JObj [(''id'', JStr ''check''), (''nodeKind'', JStr ''script''), (''preset'', JStr ''custom''),
          (''script'', JObj [(''commandKind'', JStr ''argv''), (''argv'', JArr [JStr ''make'', JStr ''test''])])]]),
     (''edges'', JArr [sample_edge ''a'' ''plan'' ''check'' sample_default])]"

definition sample_script_read :: workflow_draft where
  "sample_script_read = the (read_draft sample_script_draft)"

definition sample_launch_envelope :: json where
  "sample_launch_envelope = JObj [(''workflowSchemaVersion'', jint 1), (''workflowKind'', JStr ''advanced''),
     (''launchContext'', JObj [(''requestId'', JStr ''r1'')]), (''advancedDraft'', sample_script_draft),
     (''allowedExecutables'', JArr [JStr ''make''])]"

definition sample_request :: launch_request where
  "sample_request = \<lparr>lq_cmd = JObj [(''p2pWorkflowLaunchEnvelope'', sample_launch_envelope)], lq_sessionName = ''s'', lq_targets = [],
     lq_userText = ''go'', lq_locale = None, lq_projectDir = ''/p'', lq_commandId = ''c1''\<rparr>"

lemma sample_script_compiles: "sp_maxNodes p = 64 \<Longrightarrow> sp_maxEdges p = 128 \<Longrightarrow>
  compileP2pWorkflowDraft code_order sample_script_draft p = V_ok (assemble_workflow code_order sample_script_read p) []"
proof -
  assume "sp_maxNodes p = 64" "sp_maxEdges p = 128"
  then have "compile_diagnostics sample_script_read p = compile_diagnostics sample_script_read default_p2p_static_policy"
    by (simp add: compile_diagnostics_def default_p2p_static_policy_def)
  moreover have "compile_diagnostics sample_script_read default_p2p_static_policy = []"
    unfolding sample_script_read_def by code_simp
  moreover have "validateP2pWorkflowDraft sample_script_draft = V_ok sample_script_draft []" by code_simp
  moreover have "read_draft sample_script_draft = Some sample_script_read" unfolding sample_script_read_def by code_simp
  ultimately show ?thesis by (simp add: compileP2pWorkflowDraft_def)
qed

lemma sample_launch_policy:
  "launch_policy sample_launch_envelope sample_link =
    default_p2p_static_policy\<lparr>sp_allowedExecutables := [''make''],
      sp_policyHash := Some (hashP2pStaticPolicy (loadDaemonP2pStaticPolicy sample_link\<lparr>sp_allowedExecutables := [''make'']\<rparr>))\<rparr>"
proof -
  have "sort (js_unique (map jtext (filter is_jstr (jitems (jget sample_launch_envelope ''allowedExecutables''))))) = [''make'']"
    by code_simp
  moreover have "loadDaemonP2pStaticPolicy sample_link =
      default_p2p_static_policy\<lparr>sp_policyHash := Some (hashP2pStaticPolicy default_p2p_static_policy)\<rparr>"
    by (simp add: loadDaemonP2pStaticPolicy_def buildDefaultP2pStaticPolicy_def sample_link_def default_p2p_static_policy_def
          cap_workflow_def cap_script_argv_def cap_openspec_artifacts_def cap_implementation_def cap_script_interpreter_def)
  ultimately show ?thesis by (simp add: launch_policy_def Let_def buildDefaultP2pStaticPolicy_def)
qed

definition sample_bound :: bound_workflow where
  "sample_bound =
    \<lparr>bw_compiled = assemble_workflow code_order sample_script_read (launch_policy sample_launch_envelope sample_link),
     bw_bindContext = makeBindRuntimeContext sample_request ''run'' sample_link (launch_policy sample_launch_envelope sample_link) True,
     bw_diagnostics = []\<rparr>"

lemma sample_binds:
  "bindP2pCompiledWorkflow (bw_compiled sample_bound) (bw_bindContext sample_bound) = Bind_ok sample_bound []"
proof -
  have caps: "deriveRequiredCapabilities (cw_nodes (bare_workflow code_order sample_script_read)) = [cap_script_argv, cap_workflow]"
    unfolding sample_script_read_def by code_simp
  have nodes: "concat (map (node_policy_issues (default_p2p_static_policy\<lparr>sp_allowedExecutables := [''make'']\<rparr>) ''run'')
      (cw_nodes (bare_workflow code_order sample_script_read))) = []"
    unfolding sample_script_read_def by code_simp
  have same: "node_policy_issues (p\<lparr>sp_policyHash := h\<rparr>) = node_policy_issues p" for p h
    by (simp add: fun_eq_iff node_policy_issues_def Let_def)
  let ?w = "assemble_workflow code_order sample_script_read (launch_policy sample_launch_envelope sample_link)"
  have bare: "cw_nodes ?w = cw_nodes (bare_workflow code_order sample_script_read)"
    by (metis unhashed_assembled unhashed_graph(3))
  have "cw_derivedRequiredCapabilities ?w = [cap_script_argv, cap_workflow]"
    using caps bare by (simp only: assemble_fields(5))
  then have missing: "getMissingP2pWorkflowCapabilities ?w (bw_bindContext sample_bound) = []"
    by (simp add: getMissingP2pWorkflowCapabilities_def sample_bound_def makeBindRuntimeContext_def readCachedHelloSnapshot_def
          sample_link_def filter_empty_conv)
  have "validateCompiledWorkflowAgainstBindPolicy ?w (bw_bindContext sample_bound) = []"
    unfolding validateCompiledWorkflowAgainstBindPolicy_def bare
    using nodes by (simp add: sample_bound_def makeBindRuntimeContext_def sample_launch_policy same)
  with missing show ?thesis
    by (simp add: bindP2pCompiledWorkflow_def Let_def sample_bound_def makeBindRuntimeContext_def)
qed

lemma sample_prepared:
  "prepareAdvancedWorkflowLaunch code_order sample_request sample_link 0 ''run'' =
    Prepared (compiledWorkflowToLegacyAdvancedRounds (bw_compiled sample_bound)) None (Some sample_bound) []"
proof -
  let ?p = "launch_policy sample_launch_envelope sample_link"
  have e: "buildAdvancedLaunchEnvelopeFromCommand sample_request = Some sample_launch_envelope" by code_simp
  have old: "hasOldAdvancedLaunchFields (lq_cmd sample_request) = False" by code_simp
  have ve: "validateP2pWorkflowLaunchEnvelope sample_launch_envelope = V_ok sample_launch_envelope []" by code_simp
  have d: "launch_draft sample_launch_envelope = V_ok sample_script_draft []" by code_simp
  have vd: "validateP2pWorkflowDraft sample_script_draft = V_ok sample_script_draft []" by code_simp
  have c: "compileP2pWorkflowDraft code_order sample_script_draft ?p = V_ok (bw_compiled sample_bound) []"
    by (simp add: sample_script_compiles sample_launch_policy default_p2p_static_policy_def sample_bound_def)
  have h: "jget sample_launch_envelope ''expectedStaticPolicyHash'' = JUndefined"
      "timeout_ms (jget (jget sample_launch_envelope ''oldAdvanced'') ''advancedRunTimeoutMinutes'') = None" by code_simp+
  have b: "bindP2pCompiledWorkflow (bw_compiled sample_bound)
      (makeBindRuntimeContext sample_request ''run'' sample_link ?p True) = Bind_ok sample_bound []"
    using sample_binds by (simp add: sample_bound_def)
  show ?thesis
    by (simp add: prepareAdvancedWorkflowLaunch_def e old ve d vd c h b policy_mismatch_def)
qed

theorem prepared_launch_is_granted_witness:
  "compiledWorkflowToLegacyAdvancedRounds (bw_compiled sample_bound) =
      compiledWorkflowToLegacyAdvancedRounds (bw_compiled sample_bound) \<and> (0 :: int) < 2 \<and>
    insert cap_workflow (set (cw_derivedRequiredCapabilities (bw_compiled sample_bound))) \<subseteq>
      set (getCurrentDaemonWorkflowCapabilities sample_link) \<and>
    list_all (node_granted (default_p2p_static_policy
      \<lparr>sp_allowImplementationPermission := cap_implementation \<in> set (getCurrentDaemonWorkflowCapabilities sample_link),
       sp_allowOpenSpecArtifacts := cap_openspec_artifacts \<in> set (getCurrentDaemonWorkflowCapabilities sample_link),
       sp_allowInterpreterScripts := cap_script_interpreter \<in> set (getCurrentDaemonWorkflowCapabilities sample_link),
       sp_allowedExecutables := map jtext (filter is_jstr
         (jitems (jget (the (buildAdvancedLaunchEnvelopeFromCommand sample_request)) ''allowedExecutables'')))\<rparr>))
      (cw_nodes (bw_compiled sample_bound))"
  by (rule prepared_launch_is_granted [OF sample_prepared])

end
