(* ===== verification/P2pRun.thy ===== *)
theory P2pRun
  imports P2pLaunch
begin

text \<open>
  The loop that executes the rounds of an advanced run: \<open>executeAdvancedChain\<close> of
  \<open>src/src/daemon/p2p-orchestrator.ts\<close>, one visit of a round at a time.  What agents, scripts, the file system and
  the clock answer during a visit is an input of the visit.  The texts of prompts, the discussion file, the helper
  diagnostics and the final summary are not modelled.
\<close>

section \<open>Verdicts\<close>

text \<open>\<open>/<!--\s*P2P_VERDICT:\s*(PASS|REWORK)\s*-->/\<close>, and its last match.\<close>

definition m_verdict :: "string matcher" where
  "m_verdict = m_seq (m_lit ''<!--'') (m_seq (m_span is_ws 0 None) (m_seq (m_lit ''P2P_VERDICT:'')
     (m_seq (m_span is_ws 0 None) (m_bind (m_alt (m_lit ''PASS'') (m_lit ''REWORK''))
       (\<lambda>v. m_seq (m_span is_ws 0 None) (m_seq (m_lit ''-->'') (m_ret v)))))))"

text \<open>Matches do not overlap; a match cannot be empty, so every second match starts behind the first.\<close>

function all_verdicts :: "string \<Rightarrow> string list" where
  "all_verdicts [] = []"
| "all_verdicts (c # cs) =
     (case m_verdict (c # cs) of
        [] \<Rightarrow> all_verdicts cs
      | (v, r) # ms \<Rightarrow> if length r < length (c # cs) then v # all_verdicts r else [])"
  by pat_completeness auto
termination by (relation "measure length") auto

definition parseVerdictFromContent :: "string \<Rightarrow> string option" where
  "parseVerdictFromContent content = (case rev (all_verdicts content) of [] \<Rightarrow> None | v # vs \<Rightarrow> Some v)"

section \<open>Counters\<close>

text \<open>
  \<open>record[key] = (record[key] ?? 0) + 1\<close> on a plain object: a member that is inherited is no number, and then \<open>+\<close>
  makes a string.
\<close>

definition counter_next :: "json \<Rightarrow> json" where
  "counter_next v = (case v of JUndefined \<Rightarrow> jint 1 | JNull \<Rightarrow> jint 1 | JNum (JFin i) \<Rightarrow> jint (i + 1) | _ \<Rightarrow> JStr ''1'')"

definition counter_inc :: "string \<Rightarrow> (string \<times> json) list \<Rightarrow> (string \<times> json) list" where
  "counter_inc k kvs = (if k = ''__proto__'' then kvs else AList.update k (counter_next (read_member kvs k)) kvs)"

text \<open>
  \<open>useCount >= budget\<close>: a comparison of a number with a function, an object or its text is false; of two that are no
  numbers it compares their texts, of which the count's begins with the budget's.
\<close>

definition budget_spent :: "json \<Rightarrow> json \<Rightarrow> bool" where
  "budget_spent useCount budget =
    (case (useCount, budget) of
       (JNum (JFin u), JNum (JFin b)) \<Rightarrow> b \<le> u
     | (JNum _, _) \<Rightarrow> False
     | (_, JNum _) \<Rightarrow> False
     | _ \<Rightarrow> True)"

section \<open>State\<close>

record routing_entry =
  re_fromRoundId :: string
  re_toRoundId :: string
  re_trigger :: "string option"
  re_atStep :: int

record run_state =
  rn_roundIndex :: int
  rn_executionStep :: int
  rn_attemptCounts :: "(string \<times> json) list"
  rn_jumpCounts :: "(string \<times> json) list"
  rn_edgeUseCounts :: "(string \<times> json) list option"
  rn_scriptRetryCounts :: "(string \<times> json) list option"
  rn_variables :: "(string \<times> variable_value) list"
  rn_routingHistory :: "routing_entry list"

datatype run_outcome = Going | Stopped | Rounds_done | Run_failed string

record run_config =
  cf_runId :: string
  cf_rounds :: "resolved_round list"
  cf_bound :: "bound_workflow option"

datatype script_outcome = Script_ok "json option" | Script_failed "diagnostic_code list" | Script_threw

text \<open>What happens during one visit of a round.\<close>

record visit_input =
  vi_cancelled :: bool
  vi_pastDeadline :: bool
  vi_link :: "link_view option"
  vi_baselineOk :: bool
  vi_stopped :: bool
  vi_activeScripts :: int
  vi_script :: script_outcome
  vi_segment :: string
  vi_artifactsOk :: bool

definition initial_run :: "run_config \<Rightarrow> run_state" where
  "initial_run cf =
    \<lparr>rn_roundIndex = 0, rn_executionStep = 0, rn_attemptCounts = [], rn_jumpCounts = [], rn_edgeUseCounts = None,
     rn_scriptRetryCounts = None,
     rn_variables = (case cf_bound cf of None \<Rightarrow> []
       | Some b \<Rightarrow> foldl (\<lambda>m v. AList.update (vd_name v) (vd_value v) m) [] (cw_variables (bw_compiled b))),
     rn_routingHistory = []\<rparr>"

definition routing_history_retention :: nat where "routing_history_retention = 500"

definition pushRoutingHistory :: "routing_entry \<Rightarrow> run_state \<Rightarrow> run_state" where
  "pushRoutingHistory e s =
    (let h = rn_routingHistory s @ [e] in s\<lparr>rn_routingHistory := drop (length h - routing_history_retention) h\<rparr>)"

section \<open>Scripts and logic\<close>

definition isRoundDangerous :: "resolved_round \<Rightarrow> bool" where
  "isRoundDangerous r =
    (if rr_permissionScope r = Ps_implementation \<or> rr_permissionScope r = Ps_artifact_generation then True
     else if rr_nodeKind r = Some Nk_script then True
     else if rr_artifactConvention r \<noteq> [] \<and> rr_artifactConvention r \<noteq> ''none'' then True
     else False)"

definition script_retry_attempts :: int where "script_retry_attempts = 3"

definition retriable_codes :: "diagnostic_code set" where
  "retriable_codes = {Dc_script_timeout, Dc_daemon_busy}"

datatype script_dispatch =
  Sd_not_a_script
| Sd_ok "string option" "(string \<times> json) list"
| Sd_retry
| Sd_fail string

text \<open>\<open>dispatchScriptRoundOrFail\<close>, with the counts of failed attempts.\<close>

definition script_contract_of :: "bound_workflow \<Rightarrow> resolved_round \<Rightarrow> json option" where
  "script_contract_of b r =
    (let fallback = find_node (bw_compiled b) (rr_id r);
         isScript = rr_nodeKind r = Some Nk_script \<or> map_option cn_nodeKind fallback = Some Nk_script;
         contract = jnullish (rr_script r) (case fallback of None \<Rightarrow> JUndefined | Some n \<Rightarrow> cn_script n)
     in if isScript \<and> jtruthy contract then Some contract else None)"

definition script_attempts :: "run_state \<Rightarrow> string \<Rightarrow> json" where
  "script_attempts s i = jnullish (read_member (opt_default [] (rn_scriptRetryCounts s)) i) (jint 0)"

definition attempts_remain :: "json \<Rightarrow> bool" where
  "attempts_remain v = num_less v (script_retry_attempts - 1)"

definition dispatchScriptRound :: "run_config \<Rightarrow> visit_input \<Rightarrow> resolved_round \<Rightarrow> run_state \<Rightarrow> run_state \<times> script_dispatch" where
  "dispatchScriptRound cf inp r s =
    (case cf_bound cf of
       None \<Rightarrow> (s, Sd_not_a_script)
     | Some b \<Rightarrow>
        (case script_contract_of b r of
           None \<Rightarrow> (s, Sd_not_a_script)
         | Some contract \<Rightarrow>
            if \<not> sr_ok (snd (acquireScriptSlot (vi_activeScripts inp))) then (s, Sd_fail ''failed'')
            else (case vi_script inp of
                Script_threw \<Rightarrow> (s, Sd_fail ''failed'')
              | Script_failed codes \<Rightarrow>
                  let retriable = codes \<noteq> [] \<and> list_all (\<lambda>c. c \<in> retriable_codes) codes;
                      remain = attempts_remain (script_attempts s (rr_id r));
                      s' = s\<lparr>rn_scriptRetryCounts := Some (counter_inc (rr_id r) (opt_default [] (rn_scriptRetryCounts s)))\<rparr>
                  in (s', if retriable \<and> remain then Sd_retry else Sd_fail ''failed'')
              | Script_ok frame \<Rightarrow>
                  (s, Sd_ok
                    (case frame of Some f \<Rightarrow> (case jget f ''routingKey'' of JStr k \<Rightarrow> if k \<noteq> [] then Some k else None | _ \<Rightarrow> None)
                     | None \<Rightarrow> None)
                    (case frame of Some f \<Rightarrow> jmembers (jget f ''variables'') | None \<Rightarrow> [])))))"

definition acceptable_variable :: "json \<Rightarrow> bool" where
  "acceptable_variable v =
    (case v of JStr s \<Rightarrow> True | JNum n \<Rightarrow> True | JBool b \<Rightarrow> True
     | JArr xs \<Rightarrow> length xs \<le> 64 \<and> list_all (\<lambda>x. jstr_where (\<lambda>s. int (length s) \<le> 8 * 1024) x) xs
     | _ \<Rightarrow> False)"

text \<open>The patch of a script's variables; a name or value that does not pass is dropped.\<close>

fun patch_variables :: "(string \<times> json) list \<Rightarrow> (string \<times> variable_value) list \<Rightarrow> (string \<times> variable_value) list" where
  "patch_variables [] vars = vars"
| "patch_variables ((k, v) # kvs) vars =
     patch_variables kvs
       (if is_variable_name k \<and> acceptable_variable v
        then (case read_variable_value v of Some x \<Rightarrow> AList.update k x vars | None \<Rightarrow> vars) else vars)"

section \<open>Routing\<close>

record route =
  rt_routingKey :: "string option"
  rt_verdict :: "string option"
  rt_logicMarker :: "string option"

definition edge_value :: "route \<Rightarrow> condition_kind \<Rightarrow> string option" where
  "edge_value rt k =
    (case k of Ck_routing_key_equals \<Rightarrow> rt_routingKey rt | Ck_verdict_marker_equals \<Rightarrow> rt_verdict rt
     | Ck_logic_marker_equals \<Rightarrow> rt_logicMarker rt)"

definition edge_use_count :: "run_state \<Rightarrow> string \<Rightarrow> json" where
  "edge_use_count s i =
    (case rn_edgeUseCounts s of None \<Rightarrow> jint 0 | Some m \<Rightarrow> jnullish (read_member m i) (jint 0))"

definition edge_budget :: "compiled_workflow \<Rightarrow> string \<Rightarrow> json" where
  "edge_budget w i = jnullish (read_member (cw_loopBudgets w) i) (JNum JPosInf)"

definition edge_taken :: "compiled_workflow \<Rightarrow> run_state \<Rightarrow> route \<Rightarrow> edge_draft \<Rightarrow> bool" where
  "edge_taken w s rt e =
    (case ed_condition e of
       None \<Rightarrow> False
     | Some (k, v) \<Rightarrow> \<not> budget_spent (edge_use_count s (ed_id e)) (edge_budget w (ed_id e)) \<and> edge_value rt k = Some v)"

definition choose_conditional :: "compiled_workflow \<Rightarrow> run_state \<Rightarrow> route \<Rightarrow> string \<Rightarrow> edge_draft option" where
  "choose_conditional w s rt i =
    (case filter (edge_taken w s rt) (outgoing Ek_conditional i (cw_edges w)) of [] \<Rightarrow> None | e # es \<Rightarrow> Some e)"

definition legacy_jump :: "run_state \<Rightarrow> resolved_round \<Rightarrow> string option \<Rightarrow> string option" where
  "legacy_jump s r verdict =
    (case (rr_allowRouting r, rr_jumpRule r) of
       (True, Some j) \<Rightarrow>
         let jumpCount = jnullish (read_member (rn_jumpCounts s) (rr_id r)) (jint 0);
             below = (case (jumpCount, jr_maxTriggers j) of (JNum a, JNum b) \<Rightarrow> js_lt a b | _ \<Rightarrow> False);
             marked = (verdict = Some (opt_default ''REWORK'' (jr_marker j)))
         in if below \<and> (rr_verdictPolicy r = Vp_forced_rework \<and> num_less jumpCount (jr_minTriggers j) \<or> marked)
            then Some (jr_targetRoundId j) else None
     | _ \<Rightarrow> None)"

definition round_index :: "run_config \<Rightarrow> string \<Rightarrow> int" where
  "round_index cf i = js_findIndex (\<lambda>r. rr_id r = i) (cf_rounds cf)"

text \<open>Following an edge or a jump to a round: counters, retries, history and the index.\<close>

definition use_edge :: "string option \<Rightarrow> run_state \<Rightarrow> run_state" where
  "use_edge edgeId s =
    (case edgeId of None \<Rightarrow> s
     | Some i \<Rightarrow> s\<lparr>rn_edgeUseCounts := Some (counter_inc i (opt_default [] (rn_edgeUseCounts s)))\<rparr>)"

definition go_to :: "run_config \<Rightarrow> resolved_round \<Rightarrow> string \<Rightarrow> string option \<Rightarrow> run_state \<Rightarrow> run_state" where
  "go_to cf r target trigger s =
    (pushRoutingHistory \<lparr>re_fromRoundId = rr_id r, re_toRoundId = target, re_trigger = trigger, re_atStep = rn_executionStep s\<rparr>
      (s\<lparr>rn_scriptRetryCounts := map_option (filter (\<lambda>(k, v). k \<noteq> target)) (rn_scriptRetryCounts s)\<rparr>))
      \<lparr>rn_roundIndex := round_index cf target\<rparr>"

definition count_jump :: "resolved_round \<Rightarrow> run_state \<Rightarrow> run_state" where
  "count_jump r s = s\<lparr>rn_jumpCounts := counter_inc (rr_id r) (rn_jumpCounts s)\<rparr>"

definition route_compiled :: "run_config \<Rightarrow> compiled_workflow \<Rightarrow> resolved_round \<Rightarrow> route \<Rightarrow> run_state \<Rightarrow> run_state \<times> run_outcome" where
  "route_compiled cf w r rt s =
    (case choose_conditional w s rt (rr_id r) of
       Some e \<Rightarrow>
         (go_to cf r (ed_toNodeId e) (case ed_condition e of Some (k, v) \<Rightarrow> edge_value rt k | None \<Rightarrow> None)
            (use_edge (Some (ed_id e)) (count_jump r s)), Going)
     | None \<Rightarrow>
         (case outgoing Ek_default (rr_id r) (cw_edges w) of
            [e] \<Rightarrow>
              let s' = go_to cf r (ed_toNodeId e) (Some ''default'') (use_edge (Some (ed_id e)) s)
              in (s', if rn_roundIndex s' < 0 then Run_failed ''failed'' else Going)
          | [] \<Rightarrow> if outgoing Ek_conditional (rr_id r) (cw_edges w) \<noteq> [] then (s, Run_failed ''failed'')
              else (s, Rounds_done)
          | _ \<Rightarrow> (s, Run_failed ''failed'')))"

definition route_legacy :: "run_config \<Rightarrow> resolved_round \<Rightarrow> string option \<Rightarrow> run_state \<Rightarrow> run_state \<times> run_outcome" where
  "route_legacy cf r verdict s =
    (case legacy_jump s r verdict of
       Some target \<Rightarrow> (go_to cf r target verdict (count_jump r s), Going)
     | None \<Rightarrow> (s\<lparr>rn_roundIndex := rn_roundIndex s + 1\<rparr>, Going))"

definition effective_verdict :: "resolved_round \<Rightarrow> string \<Rightarrow> string option" where
  "effective_verdict r segment =
    (if rr_requiresVerdict r \<and> rr_nodeKind r \<noteq> Some Nk_script \<and> rr_nodeKind r \<noteq> Some Nk_logic
     then Some (opt_default ''REWORK'' (parseVerdictFromContent segment)) else None)"

section \<open>One visit\<close>

text \<open>
  The work of a round, until its route is known: a failure, a retry, a stop, or the route.  A run is stopped while its
  context is reduced, before the script or the logic of a round, or while its agents work.
\<close>

datatype round_work = Work_failed string | Work_retry | Work_stopped | Work_route "string option" "string option" string

definition do_round :: "run_config \<Rightarrow> visit_input \<Rightarrow> resolved_round \<Rightarrow> run_state \<Rightarrow> run_state \<times> round_work" where
  "do_round cf inp r s =
    (if vi_stopped inp then (s, Work_stopped)
     else case dispatchScriptRound cf inp r s of
       (s', Sd_fail why) \<Rightarrow> (s', Work_failed why)
     | (s', Sd_retry) \<Rightarrow> (s', Work_retry)
     | (s', Sd_ok key patch) \<Rightarrow>
         (s'\<lparr>rn_variables := patch_variables patch (rn_variables s')\<rparr>, Work_route key None [])
     | (s', Sd_not_a_script) \<Rightarrow>
         if rr_nodeKind r = Some Nk_logic
         then (case Option.bind (cf_bound cf) (\<lambda>b. Option.bind (find_node (bw_compiled b) (rr_id r)) (\<lambda>n. read_logic (cn_logic n))) of
             None \<Rightarrow> (s', Work_failed ''failed'')
           | Some c \<Rightarrow> (s', Work_route None (Some (le_marker (evaluateP2pLogic c (map_of (rn_variables s'))))) []))
         else (s', Work_route None None (vi_segment inp)))"

definition enter_round :: "resolved_round \<Rightarrow> run_state \<Rightarrow> run_state" where
  "enter_round r s =
    s\<lparr>rn_executionStep := rn_executionStep s + 1, rn_attemptCounts := counter_inc (rr_id r) (rn_attemptCounts s)\<rparr>"

definition recheck_fails :: "run_config \<Rightarrow> visit_input \<Rightarrow> resolved_round \<Rightarrow> bool" where
  "recheck_fails cf inp r =
    (case cf_bound cf of None \<Rightarrow> False
     | Some b \<Rightarrow> isRoundDangerous r \<and> recheckDangerousRound b (vi_link inp) (cf_runId cf) (rr_id r) \<noteq> Recheck_ok)"

definition visit_round :: "run_config \<Rightarrow> visit_input \<Rightarrow> run_state \<Rightarrow> run_state \<times> run_outcome" where
  "visit_round cf inp s =
    (if int (length (cf_rounds cf)) \<le> rn_roundIndex s then (s, Rounds_done)
     else if vi_cancelled inp then (s, Stopped)
     else if vi_pastDeadline inp then (s, Run_failed ''timed_out'')
     else if rn_roundIndex s < 0 then (s, Run_failed ''dispatch_failed'')
     else
       let r = cf_rounds cf ! nat (rn_roundIndex s); s1 = enter_round r s in
       if recheck_fails cf inp r then (s1, Run_failed ''capability_downgraded_during_run'')
       else if \<not> vi_baselineOk inp then (s1, Run_failed ''failed'')
       else (case do_round cf inp r s1 of
           (s2, Work_failed why) \<Rightarrow> (s2, Run_failed why)
         | (s2, Work_retry) \<Rightarrow> (s2, Going)
         | (s2, Work_stopped) \<Rightarrow> (s2, Stopped)
         | (s2, Work_route key marker segment) \<Rightarrow>
             if \<not> vi_artifactsOk inp then (s2, Run_failed ''failed'')
             else
               let verdict = effective_verdict r segment in
               (case cf_bound cf of
                  Some b \<Rightarrow> route_compiled cf (bw_compiled b) r
                    \<lparr>rt_routingKey = key, rt_verdict = verdict, rt_logicMarker = marker\<rparr> s2
                | None \<Rightarrow> route_legacy cf r verdict s2)))"

fun run_visits :: "run_config \<Rightarrow> visit_input list \<Rightarrow> run_state \<Rightarrow> run_state \<times> run_outcome" where
  "run_visits cf [] s = (s, Going)"
| "run_visits cf (inp # inps) s =
     (case visit_round cf inp s of (s', Going) \<Rightarrow> run_visits cf inps s' | result \<Rightarrow> result)"

text \<open>The run of a bound workflow.\<close>

definition start_bound :: "string \<Rightarrow> bound_workflow \<Rightarrow> string + run_config" where
  "start_bound runId b =
    (case plan_of_launch (compiledWorkflowToLegacyAdvancedRounds (bw_compiled b)) None of
       Inl e \<Rightarrow> Inl e
     | Inr plan \<Rightarrow> Inr \<lparr>cf_runId = runId, cf_rounds = pl_rounds plan, cf_bound = Some b\<rparr>)"

end
