(* ===== verification/P2pRunProps.thy ===== *)
theory P2pRunProps
  imports P2pRun P2pLaunchProps
begin

text \<open>
  What a run does with its rounds: counters, where a visit may lead, the measure by which a run without default edges
  that go back ends, the budgets of conditional edges, and two ways in which runs fail their purpose: a loop of default
  edges that no budget stops, and scripts that the check before them always turns down.
\<close>

section \<open>Counters\<close>

definition counts_ok :: "(string \<times> json) list \<Rightarrow> bool" where
  "counts_ok m \<longleftrightarrow>
    (\<forall>k v. k \<notin> set object_prototype_members \<longrightarrow> map_of m k = Some v \<longrightarrow> (\<exists>u \<ge> 0. v = jint u))"

definition count_of :: "(string \<times> json) list \<Rightarrow> string \<Rightarrow> int" where
  "count_of m k = (case map_of m k of Some v \<Rightarrow> the (jinteger v) | None \<Rightarrow> 0)"

lemma jinteger_jint [simp]: "jinteger (jint i) = Some i"
  by (simp add: jinteger_def jint_def)

lemma jint_eq [simp]: "jint i = jint j \<longleftrightarrow> i = j" "jint i \<noteq> JUndefined" "jint i \<noteq> JNull" "JUndefined \<noteq> jint i" "JNull \<noteq> jint i"
  by (simp_all add: jint_def)

lemma counts_ok_read:
  assumes "counts_ok m" and "k \<notin> set object_prototype_members"
  shows "jnullish (read_member m k) (jint 0) = jint (count_of m k) \<and> 0 \<le> count_of m k"
proof (cases "map_of m k")
  case None
  then show ?thesis using assms(2) by (simp add: read_member_def jnullish_def count_of_def)
next
  case (Some v)
  then obtain u where "v = jint u" "0 \<le> u" using assms by (auto simp: counts_ok_def)
  with Some show ?thesis by (simp add: read_member_def jnullish_def count_of_def)
qed

lemma counts_ok_inc:
  assumes "counts_ok m"
  shows "counts_ok (counter_inc k m)"
    and "j \<notin> set object_prototype_members \<Longrightarrow> count_of (counter_inc k m) j = count_of m j + (if j = k then 1 else 0)"
proof -
  have incr: "counter_next (read_member m k) = jint (count_of m k + 1) \<and> 0 \<le> count_of m k" if np: "k \<notin> set object_prototype_members"
  proof (cases "map_of m k")
    case None
    then show ?thesis using np by (simp add: read_member_def count_of_def counter_next_def)
  next
    case (Some v)
    then obtain u where "v = jint u" "0 \<le> u" using assms np unfolding counts_ok_def by blast
    with Some show ?thesis by (simp add: read_member_def count_of_def counter_next_def jint_def jinteger_def)
  qed
  have proto: "''__proto__'' \<in> set object_prototype_members" by (simp add: object_prototype_members_def)
  show "counts_ok (counter_inc k m)"
    using assms incr by (auto simp: counts_ok_def counter_inc_def update_conv')
  show "count_of (counter_inc k m) j = count_of m j + (if j = k then 1 else 0)" if "j \<notin> set object_prototype_members"
    using that incr proto by (auto simp: counter_inc_def update_conv' count_of_def)
qed

abbreviation use_counts :: "run_state \<Rightarrow> (string \<times> json) list" where
  "use_counts s \<equiv> opt_default [] (rn_edgeUseCounts s)"

lemma edge_use_count_alt: "edge_use_count s k = jnullish (read_member (use_counts s) k) (jint 0)"
  if "k \<notin> set object_prototype_members"
  using that by (cases "rn_edgeUseCounts s") (simp_all add: edge_use_count_def read_member_def jnullish_def)

lemma state_frames [simp]:
  "rn_edgeUseCounts (go_to cf r t tr s) = rn_edgeUseCounts s" "rn_edgeUseCounts (count_jump r s) = rn_edgeUseCounts s"
  "rn_edgeUseCounts (enter_round r s) = rn_edgeUseCounts s"
  "rn_scriptRetryCounts (count_jump r s) = rn_scriptRetryCounts s" "rn_scriptRetryCounts (enter_round r s) = rn_scriptRetryCounts s"
  "rn_scriptRetryCounts (use_edge x s) = rn_scriptRetryCounts s"
  "rn_roundIndex (enter_round r s) = rn_roundIndex s" "rn_routingHistory (enter_round r s) = rn_routingHistory s"
  "rn_roundIndex (go_to cf r t tr s) = round_index cf t"
  "rn_scriptRetryCounts (go_to cf r t tr s) = map_option (filter (\<lambda>(k, v). k \<noteq> t)) (rn_scriptRetryCounts s)"
  "rn_edgeUseCounts (use_edge (Some i) s) = Some (counter_inc i (use_counts s))"
  by (simp_all add: go_to_def pushRoutingHistory_def Let_def count_jump_def enter_round_def use_edge_def split: option.splits)

section \<open>Rounds and indices\<close>

lemma js_findIndex_found:
  assumes "\<exists>x \<in> set xs. P x"
  shows "0 \<le> js_findIndex P xs \<and> js_findIndex P xs < int (length xs) \<and> P (xs ! nat (js_findIndex P xs))"
  using assms
proof (induction xs)
  case (Cons x xs)
  show ?case
  proof (cases "P x")
    case False
    with Cons have "0 \<le> js_findIndex P xs \<and> js_findIndex P xs < int (length xs) \<and> P (xs ! nat (js_findIndex P xs))" by auto
    with False show ?thesis by (simp add: Let_def nat_add_distrib)
  qed simp
qed simp

text \<open>A run of a compiled workflow: its rounds are the nodes.\<close>

definition runs_workflow :: "string list \<Rightarrow> compiled_workflow \<Rightarrow> run_config \<Rightarrow> bool" where
  "runs_workflow ids w cf \<longleftrightarrow> workflow_ok ids w \<and> map_option bw_compiled (cf_bound cf) = Some w \<and>
    mset (map rr_id (cf_rounds cf)) = mset ids"

lemma start_runs:
  assumes "workflow_ok ids (bw_compiled b)" and "start_bound runId b = Inr cf"
  shows "runs_workflow ids (bw_compiled b) cf \<and> cf_bound cf = Some b"
proof -
  let ?w = "bw_compiled b"
  obtain plan where plan: "plan_of_launch (compiledWorkflowToLegacyAdvancedRounds ?w) None = Inr plan"
      "cf = \<lparr>cf_runId = runId, cf_rounds = pl_rounds plan, cf_bound = Some b\<rparr>"
    using assms(2) by (auto simp: start_bound_def split: sum.splits)
  have d: "distinct (map cn_id (cw_nodes ?w))" "distinct ids" "set ids = cn_id ` set (cw_nodes ?w)"
    using assms(1) unfolding workflow_ok_def by blast+
  have "mset (map rr_id (cf_rounds cf)) = image_mset cn_id (mset (orderCompiledNodesForExecution ?w))"
    using planned_ids [OF plan(1)] plan(2) by (simp only: rounds_ids run_config.simps mset_map [symmetric])
  also have "\<dots> = mset (map cn_id (cw_nodes ?w))" by (simp add: order_permutes [OF d(1)])
  also have "\<dots> = mset ids" using d using set_eq_iff_mset_eq_distinct [of "map cn_id (cw_nodes ?w)" ids] by simp
  finally show ?thesis using assms(1) plan(2) by (simp add: runs_workflow_def)
qed

definition current_id :: "run_config \<Rightarrow> run_state \<Rightarrow> string" where
  "current_id cf s = rr_id (cf_rounds cf ! nat (rn_roundIndex s))"

lemma goes_to:
  assumes "runs_workflow ids w cf" and "t \<in> set ids"
  shows "0 \<le> round_index cf t \<and> round_index cf t < int (length (cf_rounds cf)) \<and> rr_id (cf_rounds cf ! nat (round_index cf t)) = t"
proof -
  have "t \<in> set (map rr_id (cf_rounds cf))" using assms by (metis runs_workflow_def set_mset_mset)
  then have "\<exists>r \<in> set (cf_rounds cf). rr_id r = t" by auto
  from js_findIndex_found [OF this] show ?thesis by (simp add: round_index_def)
qed


section \<open>What a visit does\<close>

lemma do_round_frame:
  assumes "do_round cf inp r s = (s', x)"
  shows "rn_roundIndex s' = rn_roundIndex s \<and> rn_edgeUseCounts s' = rn_edgeUseCounts s \<and>
    rn_routingHistory s' = rn_routingHistory s \<and>
    (case x of Work_route k m g \<Rightarrow> rn_scriptRetryCounts s' = rn_scriptRetryCounts s
     | Work_retry \<Rightarrow> attempts_remain (script_attempts s (rr_id r)) \<and>
         rn_scriptRetryCounts s' = Some (counter_inc (rr_id r) (opt_default [] (rn_scriptRetryCounts s)))
     | _ \<Rightarrow> True)"
  using assms
  by (auto simp: do_round_def dispatchScriptRound_def Let_def
        split: prod.splits script_dispatch.splits option.splits script_outcome.splits if_splits)

text \<open>Where a visit that does not end the run leads: it stays for a retry, or it follows an edge of the node.\<close>

lemma visit_cases:
  assumes run: "runs_workflow ids w cf" and visit: "visit_round cf inp s = (s', Going)" and pos: "0 \<le> rn_roundIndex s"
  obtains (retry) "rn_roundIndex s' = rn_roundIndex s" "rn_edgeUseCounts s' = rn_edgeUseCounts s"
      "attempts_remain (script_attempts s (current_id cf s))"
      "rn_scriptRetryCounts s' = Some (counter_inc (current_id cf s) (opt_default [] (rn_scriptRetryCounts s)))"
  | (edge) e where "e \<in> set (cw_edges w)" "ed_fromNodeId e = current_id cf s"
      "ed_edgeKind e = Ek_conditional \<Longrightarrow> \<not> budget_spent (edge_use_count s (ed_id e)) (edge_budget w (ed_id e))"
      "rn_roundIndex s' = round_index cf (ed_toNodeId e)" "use_counts s' = counter_inc (ed_id e) (use_counts s)"
      "rn_scriptRetryCounts s' = map_option (filter (\<lambda>(k, v). k \<noteq> ed_toNodeId e)) (rn_scriptRetryCounts s)"
      "rn_roundIndex s < int (length (cf_rounds cf))"
proof -
  let ?r = "cf_rounds cf ! nat (rn_roundIndex s)"
  have inside: "rn_roundIndex s < int (length (cf_rounds cf))" using visit by (auto simp: visit_round_def split: if_splits)
  obtain b where b: "cf_bound cf = Some b" "bw_compiled b = w" using run by (auto simp: runs_workflow_def)
  obtain s2 x where d: "do_round cf inp ?r (enter_round ?r s) = (s2, x)" by force
  note frame = do_round_frame [OF d]
  have attempts: "script_attempts (enter_round ?r s) i = script_attempts s i" for i by (simp add: script_attempts_def)
  show thesis
  proof (cases x)
    case Work_retry
    then have "s' = s2" using visit d pos by (auto simp: visit_round_def Let_def split: if_splits)
    with frame Work_retry attempts show thesis by (intro retry) (simp_all add: current_id_def)
  next
    case (Work_route key marker segment)
    let ?rt = "\<lparr>rt_routingKey = key, rt_verdict = effective_verdict ?r segment, rt_logicMarker = marker\<rparr>"
    have rc: "route_compiled cf w ?r ?rt s2 = (s', Going)"
      using visit d pos b Work_route by (auto simp: visit_round_def Let_def split: if_splits)
    have same: "rn_edgeUseCounts s2 = rn_edgeUseCounts s" "rn_scriptRetryCounts s2 = rn_scriptRetryCounts s"
      using frame Work_route by simp_all
    show thesis
    proof (cases "choose_conditional w s2 ?rt (rr_id ?r)")
      case (Some e)
      then obtain es where "filter (edge_taken w s2 ?rt) (outgoing Ek_conditional (rr_id ?r) (cw_edges w)) = e # es"
        by (auto simp: choose_conditional_def split: list.splits)
      then have "e \<in> set (filter (edge_taken w s2 ?rt) (outgoing Ek_conditional (rr_id ?r) (cw_edges w)))"
        by (metis list.set_intros(1))
      then have e: "e \<in> set (cw_edges w)" "ed_fromNodeId e = rr_id ?r" "edge_taken w s2 ?rt e"
        by (auto simp: outgoing_def)
      moreover have "edge_use_count s2 = edge_use_count s" using same by (simp add: fun_eq_iff edge_use_count_def)
      ultimately show thesis using rc Some same inside
        by (intro edge [of e]) (auto simp: route_compiled_def edge_taken_def current_id_def split: option.splits)
    next
      case None
      then obtain e where e: "outgoing Ek_default (rr_id ?r) (cw_edges w) = [e]"
          "s' = go_to cf ?r (ed_toNodeId e) (Some ''default'') (use_edge (Some (ed_id e)) s2)"
        using rc by (auto simp: route_compiled_def Let_def split: list.splits if_splits)
      then have "e \<in> set (outgoing Ek_default (rr_id ?r) (cw_edges w))" by simp
      then have "e \<in> set (cw_edges w)" "ed_fromNodeId e = rr_id ?r" "ed_edgeKind e = Ek_default" by (auto simp: outgoing_def)
      with e same inside show thesis by (intro edge [of e]) (simp_all add: current_id_def)
    qed
  qed (use visit d pos in \<open>auto simp: visit_round_def Let_def split: if_splits\<close>)
qed


section \<open>Retries\<close>

definition retries_ok :: "run_config \<Rightarrow> run_state \<Rightarrow> bool" where
  "retries_ok cf s \<longleftrightarrow> map_of (opt_default [] (rn_scriptRetryCounts s)) ''__proto__'' = None \<and>
    (\<forall>n. script_attempts s (current_id cf s) = JNum n \<longrightarrow> (\<exists>k \<ge> 0. n = JFin k))"

definition retries_left :: "run_config \<Rightarrow> run_state \<Rightarrow> nat" where
  "retries_left cf s = nat (2 - opt_default 2 (jinteger (script_attempts s (current_id cf s))))"

lemma retries_left_le: "retries_ok cf s \<Longrightarrow> retries_left cf s \<le> 2"
  by (cases "script_attempts s (current_id cf s)") (auto simp: retries_ok_def retries_left_def jinteger_def)

lemma retry_counts:
  assumes "retries_ok cf s" and "attempts_remain (script_attempts s (current_id cf s))"
    and "rn_roundIndex s' = rn_roundIndex s"
    and "rn_scriptRetryCounts s' = Some (counter_inc (current_id cf s) (opt_default [] (rn_scriptRetryCounts s)))"
  shows "retries_ok cf s' \<and> retries_left cf s' < retries_left cf s"
proof -
  let ?i = "current_id cf s" and ?m = "opt_default [] (rn_scriptRetryCounts s)"
  have i: "current_id cf s' = ?i" using assms(3) by (simp add: current_id_def)
  obtain k where k: "script_attempts s ?i = jint k" "0 \<le> k" "k < 2"
    using assms(1,2)
    by (auto simp: attempts_remain_def num_less_def retries_ok_def script_retry_attempts_def jint_def split: json.splits)
  have proto: "map_of ?m ''__proto__'' = None" using assms(1) by (simp add: retries_ok_def)
  have np: "?i \<noteq> ''__proto__''"
  proof
    assume "?i = ''__proto__''"
    with k(1) proto show False
      by (simp add: script_attempts_def read_member_def jnullish_def jint_def object_prototype_members_def)
  qed
  have "counter_next (read_member ?m ?i) = jint (k + 1)"
    using k(1) by (auto simp: script_attempts_def jnullish_def counter_next_def jint_def split: if_splits)
  then have "script_attempts s' ?i = jint (k + 1)"
    using assms(4) np by (simp add: script_attempts_def counter_inc_def read_member_def update_conv' jnullish_def)
  moreover have "map_of (opt_default [] (rn_scriptRetryCounts s')) ''__proto__'' = None"
    using assms(4) np proto by (simp add: counter_inc_def update_conv')
  ultimately show ?thesis using i k by (auto simp: retries_ok_def retries_left_def jint_def jinteger_def)
qed

lemma fresh_counts:
  assumes "map_of (opt_default [] (rn_scriptRetryCounts s)) ''__proto__'' = None"
    and "map_of (opt_default [] (rn_scriptRetryCounts s)) (current_id cf s) = None"
  shows "retries_ok cf s \<and> retries_left cf s \<le> 2"
  using assms by (auto simp: retries_ok_def retries_left_def script_attempts_def read_member_def jnullish_def jint_def jinteger_def)

lemma map_of_filter_key: "map_of (filter (\<lambda>(k, v). k \<noteq> t) m) i = (if i = t then None else map_of m i)"
  by (induction m) auto

section \<open>Loop budgets\<close>

definition back_edges :: "string list \<Rightarrow> compiled_workflow \<Rightarrow> edge_draft list" where
  "back_edges ids w = filter (\<lambda>e. ed_edgeKind e = Ek_conditional \<and> backward_edge ids e) (cw_edges w)"

definition edge_limit :: "compiled_workflow \<Rightarrow> edge_draft \<Rightarrow> int" where
  "edge_limit w e = opt_default 0 (jinteger (read_member (cw_loopBudgets w) (ed_id e)))"

definition spare_uses :: "string list \<Rightarrow> compiled_workflow \<Rightarrow> (string \<times> json) list \<Rightarrow> nat" where
  "spare_uses ids w m = sum_list (map (\<lambda>e. nat (edge_limit w e - count_of m (ed_id e))) (back_edges ids w))"

text \<open>No edge that spends a budget has the name of an inherited member.\<close>

definition plain_rework_ids :: "string list \<Rightarrow> compiled_workflow \<Rightarrow> bool" where
  "plain_rework_ids ids w \<longleftrightarrow> list_all (\<lambda>e. ed_id e \<notin> set object_prototype_members) (back_edges ids w)"

lemma back_edge_budget:
  assumes "workflow_ok ids w" and "plain_rework_ids ids w" and "e \<in> set (back_edges ids w)"
  shows "edge_budget w (ed_id e) = jint (edge_limit w e) \<and> 0 \<le> edge_limit w e"
proof -
  have e: "e \<in> set (cw_edges w)" "backward_edge ids e" "ed_id e \<noteq> ''__proto__''"
    using assms(2,3) by (auto simp: back_edges_def plain_rework_ids_def list_all_iff object_prototype_members_def)
  then obtain b where "map_of (cw_loopBudgets w) (ed_id e) = Some (jint b)" "0 \<le> b"
    using assms(1) unfolding workflow_ok_def by blast
  then show ?thesis by (simp add: edge_budget_def edge_limit_def read_member_def jnullish_def)
qed

lemma sum_one_less:
  assumes "distinct xs" and "x \<in> set xs" and "\<And>y. y \<in> set xs \<Longrightarrow> y \<noteq> x \<Longrightarrow> g y = f y" and "Suc (g x) = f x"
  shows "Suc (sum_list (map g xs)) = sum_list (map f xs)"
  using assms
proof (induction xs)
  case (Cons a xs)
  show ?case
  proof (cases "a = x")
    case True
    then have "map g xs = map f xs" using Cons.prems by auto
    then have "sum_list (map g xs) = sum_list (map f xs)" by (rule arg_cong)
    with True Cons.prems(4) show ?thesis by simp
  next
    case False
    with Cons.prems have "Suc (sum_list (map g xs)) = sum_list (map f xs)" by (intro Cons.IH) auto
    with False Cons.prems show ?thesis by simp
  qed
qed simp

lemma spare_uses_step:
  assumes ok: "workflow_ok ids w" "plain_rework_ids ids w" and m: "counts_ok m" and e: "e \<in> set (cw_edges w)"
    and spent: "e \<in> set (back_edges ids w) \<Longrightarrow> \<not> budget_spent (jint (count_of m (ed_id e))) (edge_budget w (ed_id e))"
  shows "if e \<in> set (back_edges ids w) then Suc (spare_uses ids w (counter_inc (ed_id e) m)) = spare_uses ids w m
    else spare_uses ids w (counter_inc (ed_id e) m) = spare_uses ids w m"
proof -
  have d: "distinct (map ed_id (cw_edges w))" using ok(1) unfolding workflow_ok_def by blast
  have plain: "ed_id x \<notin> set object_prototype_members" if "x \<in> set (back_edges ids w)" for x
    using ok(2) that by (simp add: plain_rework_ids_def list_all_iff)
  note inc = counts_ok_inc(2) [OF m plain]
  have other: "ed_id x \<noteq> ed_id e" if "x \<in> set (back_edges ids w)" "x \<noteq> e" for x
    using d e that by (auto simp: back_edges_def distinct_map inj_on_def)
  show ?thesis
  proof (cases "e \<in> set (back_edges ids w)")
    case True
    with spent [OF True] back_edge_budget [OF ok True] have "count_of m (ed_id e) < edge_limit w e"
      by (simp add: budget_spent_def jint_def)
    moreover have "distinct (back_edges ids w)" using d by (simp add: back_edges_def distinct_map)
    ultimately have "Suc (spare_uses ids w (counter_inc (ed_id e) m)) = spare_uses ids w m"
      unfolding spare_uses_def by (intro sum_one_less [OF _ True]) (auto simp: inc other True)
    with True show ?thesis by simp
  next
    case False
    then have "map (\<lambda>x. nat (edge_limit w x - count_of (counter_inc (ed_id e) m) (ed_id x))) (back_edges ids w) =
        map (\<lambda>x. nat (edge_limit w x - count_of m (ed_id x))) (back_edges ids w)"
      using other by (auto simp: inc)
    then have "spare_uses ids w (counter_inc (ed_id e) m) = spare_uses ids w m"
      unfolding spare_uses_def by (rule arg_cong)
    with False show ?thesis by simp
  qed
qed


section \<open>Loops of visits\<close>

text \<open>
  What a loop that makes one visit after the other, as long as the outcome is to go on, promises: an invariant that
  visits keep holds until the last visit, and where visits decrease a measure, enough of them end the loop.
\<close>

locale visit_loop =
  fixes run :: "'i list \<Rightarrow> 's \<Rightarrow> 's \<times> 'o" and visit :: "'i \<Rightarrow> 's \<Rightarrow> 's \<times> 'o" and going :: 'o and inv :: "'s \<Rightarrow> bool"
  assumes run_Nil: "run [] s = (s, going)"
    and run_Cons: "run (i # is) s = (if snd (visit i s) = going then run is (fst (visit i s)) else visit i s)"
    and visit_inv: "inv s \<Longrightarrow> visit i s = (s', going) \<Longrightarrow> inv s'"
begin

lemma run_inv: "inv s \<Longrightarrow> run is s = (s', going) \<Longrightarrow> inv s'"
proof (induction "is" arbitrary: s)
  case Nil
  then show ?case by (simp add: run_Nil)
next
  case (Cons i "is")
  then have v: "visit i s = (fst (visit i s), going)" by (auto simp: run_Cons prod_eq_iff split: if_splits)
  have "inv (fst (visit i s))" by (rule visit_inv [OF Cons.prems(1) v])
  moreover have "snd (visit i s) = going" using v by (metis snd_conv)
  ultimately show ?case using Cons by (simp add: run_Cons)
qed

lemma run_last:
  "inv s \<Longrightarrow> run is s = (s', x) \<Longrightarrow> x \<noteq> going \<Longrightarrow> \<exists>t i. inv t \<and> visit i t = (s', x)"
proof (induction "is" arbitrary: s)
  case Nil
  then show ?case by (simp add: run_Nil)
next
  case (Cons i "is")
  show ?case
  proof (cases "snd (visit i s) = going")
    case True
    then have "inv (fst (visit i s))" using Cons.prems(1) visit_inv by (metis prod.collapse)
    with True Cons show ?thesis by (simp add: run_Cons)
  next
    case False
    with Cons.prems show ?thesis by (auto simp: run_Cons)
  qed
qed

end

locale decreasing_visit_loop = visit_loop +
  fixes left :: "'s \<Rightarrow> nat"
  assumes visit_decreases: "inv s \<Longrightarrow> visit i s = (s', going) \<Longrightarrow> left s' < left s"
begin

lemma run_ends: "inv s \<Longrightarrow> left s < length is \<Longrightarrow> snd (run is s) \<noteq> going"
proof (induction "is" arbitrary: s)
  case (Cons i "is")
  show ?case
  proof (cases "snd (visit i s) = going")
    case True
    then have "visit i s = (fst (visit i s), going)" by (simp add: prod_eq_iff)
    with visit_inv visit_decreases Cons.prems(1) have "inv (fst (visit i s))" "left (fst (visit i s)) < left s" by blast+
    with True Cons show ?thesis by (simp add: run_Cons)
  qed (simp add: run_Cons)
qed simp

end

lemma run_visits_Cons:
  "run_visits cf (inp # inps) s =
    (if snd (visit_round cf inp s) = Going then run_visits cf inps (fst (visit_round cf inp s)) else visit_round cf inp s)"
  by (auto split: prod.splits run_outcome.splits)

section \<open>Progress\<close>

definition run_ok :: "run_config \<Rightarrow> run_state \<Rightarrow> bool" where
  "run_ok cf s \<longleftrightarrow> 0 \<le> rn_roundIndex s \<and> rn_roundIndex s < int (length (cf_rounds cf)) \<and>
    counts_ok (use_counts s) \<and> retries_ok cf s"

definition position_of :: "string list \<Rightarrow> string \<Rightarrow> nat" where
  "position_of ids i = the (node_order ids i)"

definition run_measure :: "string list \<Rightarrow> compiled_workflow \<Rightarrow> run_config \<Rightarrow> run_state \<Rightarrow> nat" where
  "run_measure ids w cf s =
    3 * (spare_uses ids w (use_counts s) * length ids + (length ids - 1 - position_of ids (current_id cf s))) + retries_left cf s"

lemma run_ok_step:
  assumes run: "runs_workflow ids w cf" and ok: "run_ok cf s"
    and visit: "visit_round cf inp s = (s', Going)"
  shows "run_ok cf s' \<and> retries_left cf s' \<le> 2"
proof -
  have "0 \<le> rn_roundIndex s" using ok by (simp add: run_ok_def)
  with run visit show ?thesis
  proof (cases rule: visit_cases)
    case retry
    with ok retry_counts [of cf s s'] retries_left_le [of cf s'] show ?thesis by (simp add: run_ok_def)
  next
    case (edge e)
    have "ed_toNodeId e \<in> set ids" using run edge(1) unfolding runs_workflow_def workflow_ok_def by blast
    note to = goes_to [OF run this]
    then have id: "current_id cf s' = ed_toNodeId e" using edge(4) by (simp add: current_id_def)
    have "map_of (opt_default [] (rn_scriptRetryCounts s')) i =
        (if i = ed_toNodeId e then None else map_of (opt_default [] (rn_scriptRetryCounts s)) i)" for i
      using edge(6) by (cases "rn_scriptRetryCounts s") (simp_all add: map_of_filter_key)
    with ok id have "retries_ok cf s' \<and> retries_left cf s' \<le> 2"
      by (intro fresh_counts) (simp_all add: run_ok_def retries_ok_def)
    moreover have "counts_ok (use_counts s')"
      using ok edge(5) counts_ok_inc(1) by (simp add: run_ok_def)
    ultimately show ?thesis using to edge(4) by (simp add: run_ok_def)
  qed
qed

lemma position_of:
  assumes "distinct ids" and "i \<in> set ids"
  shows "node_order ids i = Some (position_of ids i) \<and> position_of ids i < length ids"
proof -
  obtain k where "k < length ids" "ids ! k = i" using assms(2) by (auto simp: in_set_conv_nth)
  with node_order_distinct [OF assms(1)] have "node_order ids i = Some k" by blast
  with node_order_distinct [OF assms(1), of i k] show ?thesis by (simp add: position_of_def)
qed

lemma measure_decreases:
  fixes b b' n p p' r r' :: nat
  assumes "r' \<le> 2" and "p < n" and "p' < n" and "Suc b' = b \<or> b' = b \<and> p < p'"
  shows "3 * (b' * n + (n - 1 - p')) + r' < 3 * (b * n + (n - 1 - p)) + r"
proof -
  have "Suc (b' * n + (n - 1 - p')) \<le> b * n + (n - 1 - p)" using assms by auto
  moreover have "Suc x \<le> y \<Longrightarrow> 3 * x + r' < 3 * y + r" for x y :: nat using assms(1) by linarith
  ultimately show ?thesis by blast
qed

text \<open>Default edges that all go forward.\<close>

definition forward_defaults :: "string list \<Rightarrow> compiled_workflow \<Rightarrow> bool" where
  "forward_defaults ids w \<longleftrightarrow> list_all (\<lambda>e. ed_edgeKind e = Ek_default \<longrightarrow> \<not> backward_edge ids e) (cw_edges w)"

lemma run_progress:
  assumes run: "runs_workflow ids w cf" and plain: "plain_rework_ids ids w" and forward: "forward_defaults ids w"
    and ok: "run_ok cf s" and visit: "visit_round cf inp s = (s', Going)"
  shows "run_measure ids w cf s' < run_measure ids w cf s"
proof -
  have w: "workflow_ok ids w" "distinct ids" using run unfolding runs_workflow_def workflow_ok_def by blast+
  have "0 \<le> rn_roundIndex s" using ok by (simp add: run_ok_def)
  with run visit show ?thesis
  proof (cases rule: visit_cases)
    case retry
    then have "current_id cf s' = current_id cf s" by (simp add: current_id_def)
    with retry ok retry_counts [of cf s s'] show ?thesis by (auto simp: run_ok_def run_measure_def)
  next
    case (edge e)
    have ends: "ed_fromNodeId e \<in> set ids" "ed_toNodeId e \<in> set ids" using w(1) edge(1) unfolding workflow_ok_def by blast+
    have id: "current_id cf s' = ed_toNodeId e" using goes_to [OF run ends(2)] edge(4) by (simp add: current_id_def)
    have counts: "counts_ok (use_counts s)" using ok by (simp add: run_ok_def)
    have count: "edge_use_count s (ed_id e) = jint (count_of (use_counts s) (ed_id e))" if "e \<in> set (back_edges ids w)"
      using that plain counts counts_ok_read edge_use_count_alt by (metis plain_rework_ids_def list_all_iff)
    note from_pos = position_of [OF w(2) ends(1)] and to_pos = position_of [OF w(2) ends(2)]
    have "Suc (spare_uses ids w (use_counts s')) = spare_uses ids w (use_counts s) \<or>
        spare_uses ids w (use_counts s') = spare_uses ids w (use_counts s) \<and>
          position_of ids (ed_fromNodeId e) < position_of ids (ed_toNodeId e)"
    proof (cases "e \<in> set (back_edges ids w)")
      case True
      then have "ed_edgeKind e = Ek_conditional" by (simp add: back_edges_def)
      with True show ?thesis using spare_uses_step [OF w(1) plain counts edge(1)] edge(3,5) count [OF True] by (simp split: if_splits)
    next
      case False
      then have "\<not> backward_edge ids e"
        using forward edge(1) by (cases "ed_edgeKind e") (auto simp: back_edges_def forward_defaults_def list_all_iff)
      then have "position_of ids (ed_fromNodeId e) < position_of ids (ed_toNodeId e)"
        using from_pos to_pos by (simp add: backward_edge_def)
      with False show ?thesis using spare_uses_step [OF w(1) plain counts edge(1)] edge(5) by (simp split: if_splits)
    qed
    with from_pos to_pos run_ok_step [OF run ok visit] show ?thesis
      unfolding run_measure_def id using edge(2) by (intro measure_decreases) simp_all
  qed
qed

definition forward_run :: "string list \<Rightarrow> compiled_workflow \<Rightarrow> run_config \<Rightarrow> run_state \<Rightarrow> bool" where
  "forward_run ids w cf s \<longleftrightarrow> runs_workflow ids w cf \<and> plain_rework_ids ids w \<and> forward_defaults ids w \<and> run_ok cf s"

interpretation forward: decreasing_visit_loop "run_visits cf" "visit_round cf" Going "forward_run ids w cf" "run_measure ids w cf"
  for ids w cf
proof unfold_locales
  fix i s s' assume *: "forward_run ids w cf s" "visit_round cf i s = (s', Going)"
  then show "forward_run ids w cf s'" using run_ok_step by (auto simp: forward_run_def)
  from * show "run_measure ids w cf s' < run_measure ids w cf s" using run_progress by (auto simp: forward_run_def)
qed (rule run_visits.simps(1) run_visits_Cons)+

text \<open>The visits that are enough: three for every position, in as many passes as the budgets allow, and one more.\<close>

definition visit_bound :: "string list \<Rightarrow> compiled_workflow \<Rightarrow> nat" where
  "visit_bound ids w = 3 * ((sum_list (map (\<lambda>e. nat (edge_limit w e)) (back_edges ids w)) + 1) * length ids)"

lemma initial_ok:
  assumes "runs_workflow ids w cf"
  shows "run_ok cf (initial_run cf) \<and> run_measure ids w cf (initial_run cf) < visit_bound ids w"
proof -
  have w: "distinct ids" "cw_rootNodeId w \<in> set ids" using assms unfolding runs_workflow_def workflow_ok_def by blast+
  have len: "length (cf_rounds cf) = length ids" using assms unfolding runs_workflow_def by (metis length_map size_mset)
  have "ids \<noteq> []" using w(2) by auto
  then have n: "0 < length ids" by simp
  have fields: "use_counts (initial_run cf) = []" "rn_scriptRetryCounts (initial_run cf) = None" "rn_roundIndex (initial_run cf) = 0"
    by (simp_all add: initial_run_def)
  have r: "retries_ok cf (initial_run cf) \<and> retries_left cf (initial_run cf) \<le> 2" by (rule fresh_counts) (simp_all add: fields)
  have arith: "k \<le> 2 \<Longrightarrow> 0 < m \<Longrightarrow> 3 * (m - Suc p) + k < 3 * m" for k m p :: nat by arith
  have "spare_uses ids w [] = sum_list (map (\<lambda>e. nat (edge_limit w e)) (back_edges ids w))"
    by (simp add: spare_uses_def count_of_def)
  then have "run_measure ids w cf (initial_run cf) < visit_bound ids w"
    using r n arith by (simp add: run_measure_def visit_bound_def fields)
  with r n len show ?thesis by (simp add: run_ok_def fields counts_ok_def)
qed


section \<open>Properties of runs\<close>

text \<open>
  C7. A run of a compiled workflow ends by itself where no default edge goes back and no conditional edge that goes back has
  for its id the name of an inherited member of a plain object, such as \<open>constructor\<close>: whatever agents, scripts and the
  clock answer, after three visits for each node and each pass that the loop budgets allow the run has left its loop.
  With such an id it may go on until its deadline (\<open>inherited_edge_id_has_no_budget\<close>).
\<close>

theorem forward_runs_end:
  assumes "workflow_ok ids (bw_compiled b)" and "start_bound runId b = Inr cf"
    and "plain_rework_ids ids (bw_compiled b)" and "forward_defaults ids (bw_compiled b)"
    and "visit_bound ids (bw_compiled b) \<le> length inps"
  shows "snd (run_visits cf inps (initial_run cf)) \<noteq> Going"
proof -
  have run: "runs_workflow ids (bw_compiled b) cf" using start_runs [OF assms(1,2)] by blast
  from initial_ok [OF run] assms(3-5) run show ?thesis
    by (intro forward.run_ends [of ids "bw_compiled b"]) (auto simp: forward_run_def)
qed

text \<open>Counts stay within budgets.\<close>

definition within_budgets :: "compiled_workflow \<Rightarrow> run_state \<Rightarrow> bool" where
  "within_budgets w s \<longleftrightarrow>
    (\<forall>e \<in> set (cw_edges w). \<forall>n. ed_edgeKind e = Ek_conditional \<longrightarrow> ed_id e \<notin> set object_prototype_members \<longrightarrow> edge_budget w (ed_id e) = jint n \<longrightarrow> 0 \<le> n \<longrightarrow>
      count_of (use_counts s) (ed_id e) \<le> n)"

lemma visit_within_budgets:
  assumes run: "runs_workflow ids w cf" and ok: "run_ok cf s" and within: "within_budgets w s"
    and visit: "visit_round cf inp s = (s', Going)"
  shows "within_budgets w s'"
proof -
  have d: "distinct (map ed_id (cw_edges w))" using run unfolding runs_workflow_def workflow_ok_def by blast
  have "0 \<le> rn_roundIndex s" using ok by (simp add: run_ok_def)
  with run visit show ?thesis
  proof (cases rule: visit_cases)
    case retry
    with within show ?thesis by (simp add: within_budgets_def)
  next
    case (edge e)
    have counts: "counts_ok (use_counts s)" using ok by (simp add: run_ok_def)
    note inc = counts_ok_inc(2) [OF counts]
    show ?thesis
      unfolding within_budgets_def
    proof (intro ballI allI impI)
      fix x n assume x: "x \<in> set (cw_edges w)" "ed_edgeKind x = Ek_conditional" "ed_id x \<notin> set object_prototype_members"
        "edge_budget w (ed_id x) = jint n" "0 \<le> n"
      have le: "count_of (use_counts s) (ed_id x) \<le> n" using within x by (simp add: within_budgets_def)
      show "count_of (use_counts s') (ed_id x) \<le> n"
      proof (cases "ed_id x = ed_id e")
        case True
        then have xe: "x = e" using d x(1) edge(1) by (auto simp: distinct_map inj_on_def)
        have "edge_use_count s (ed_id x) = jint (count_of (use_counts s) (ed_id x))"
          using counts_ok_read [OF counts x(3)] edge_use_count_alt [OF x(3)] by simp
        with xe x edge(3) have "count_of (use_counts s) (ed_id e) < n" by (simp add: budget_spent_def jint_def)
        with True x(3) show ?thesis by (simp add: edge(5) inc)
      next
        case False
        with le x(3) show ?thesis by (simp add: edge(5) inc)
      qed
    qed
  qed
qed

lemma visit_keeps_history:
  "length (rn_routingHistory s) \<le> 500 \<Longrightarrow> length (rn_routingHistory (fst (visit_round cf inp s))) \<le> 500"
proof -
  assume h: "length (rn_routingHistory s) \<le> 500"
  let ?r = "cf_rounds cf ! nat (rn_roundIndex s)"
  obtain s2 x where d: "do_round cf inp ?r (enter_round ?r s) = (s2, x)" by force
  have "rn_routingHistory s2 = rn_routingHistory s" using do_round_frame [OF d] by simp
  with h have s2: "length (rn_routingHistory s2) \<le> 500" by simp
  have g: "length (rn_routingHistory (go_to cf r t tr s')) \<le> 500" for r t tr s'
    by (simp add: go_to_def pushRoutingHistory_def Let_def routing_history_retention_def)
  have legacy: "length (rn_routingHistory (fst (route_legacy cf ?r v s2))) \<le> 500" for v
    using s2 g by (simp add: route_legacy_def split: option.splits)
  have compiled: "length (rn_routingHistory (fst (route_compiled cf w ?r rt s2))) \<le> 500" for w rt
    using s2 g by (simp add: route_compiled_def Let_def split: option.splits list.splits)
  show ?thesis
    using h s2 legacy compiled
    by (cases x) (simp_all add: visit_round_def Let_def d split: option.splits)
qed


definition budgeted_run :: "string list \<Rightarrow> compiled_workflow \<Rightarrow> run_config \<Rightarrow> run_state \<Rightarrow> bool" where
  "budgeted_run ids w cf s \<longleftrightarrow> runs_workflow ids w cf \<and> run_ok cf s \<and> within_budgets w s \<and>
    length (rn_routingHistory s) \<le> 500"

interpretation budgeted: visit_loop "run_visits cf" "visit_round cf" Going "budgeted_run ids w cf" for ids w cf
proof unfold_locales
  fix i s s' assume *: "budgeted_run ids w cf s" "visit_round cf i s = (s', Going)"
  then have "length (rn_routingHistory s') \<le> 500" using visit_keeps_history [of s cf i] by (simp add: budgeted_run_def)
  with * show "budgeted_run ids w cf s'"
    using run_ok_step [OF _ _ *(2)] visit_within_budgets [OF _ _ _ *(2)] unfolding budgeted_run_def by blast
qed (rule run_visits.simps(1) run_visits_Cons)+

text \<open>
  C8. As long as a run goes on, it has followed a conditional edge no more often than the edge's loop budget says, unless
  the id of the edge is the name of an inherited member of a plain object (\<open>inherited_edge_id_has_no_budget\<close> shows why), and
  it keeps at most 500 entries of routing history.
\<close>

theorem conditional_edges_keep_their_budget:
  assumes "workflow_ok ids (bw_compiled b)" and "start_bound runId b = Inr cf"
    and "run_visits cf inps (initial_run cf) = (s, Going)"
    and "e \<in> set (cw_edges (bw_compiled b))" and "ed_edgeKind e = Ek_conditional" and "ed_id e \<notin> set object_prototype_members"
    and "read_member (cw_loopBudgets (bw_compiled b)) (ed_id e) = jint n" and "0 \<le> n"
  shows "(\<exists>u. edge_use_count s (ed_id e) = jint u \<and> 0 \<le> u \<and> u \<le> n) \<and> length (rn_routingHistory s) \<le> 500"
proof -
  have run: "runs_workflow ids (bw_compiled b) cf" using start_runs [OF assms(1,2)] by blast
  have "budgeted_run ids (bw_compiled b) cf (initial_run cf)"
    using run initial_ok [OF run] by (simp add: budgeted_run_def within_budgets_def initial_run_def count_of_def)
  from budgeted.run_inv [OF this assms(3)]
  have ok: "run_ok cf s" "within_budgets (bw_compiled b) s" "length (rn_routingHistory s) \<le> 500"
    by (simp_all add: budgeted_run_def)
  have "counts_ok (use_counts s)" using ok(1) by (simp add: run_ok_def)
  then have count: "edge_use_count s (ed_id e) = jint (count_of (use_counts s) (ed_id e)) \<and> 0 \<le> count_of (use_counts s) (ed_id e)"
    using counts_ok_read [OF _ assms(6)] edge_use_count_alt [OF assms(6)] by simp
  have "edge_budget (bw_compiled b) (ed_id e) = jint n" using assms(7) by (simp add: edge_budget_def jnullish_def)
  then have "count_of (use_counts s) (ed_id e) \<le> n" using ok(2) assms(4-6,8) by (simp add: within_budgets_def)
  with count ok(3) show ?thesis by blast
qed

definition sample_context :: bind_context where
  "sample_context = makeBindRuntimeContext sample_request ''run'' sample_link default_p2p_static_policy True"

definition sample_run_bound :: bound_workflow where
  "sample_run_bound = \<lparr>bw_compiled = bare_workflow code_order sample_read, bw_bindContext = sample_context, bw_diagnostics = []\<rparr>"

definition sample_run :: run_config where
  "sample_run = \<lparr>cf_runId = ''run'', cf_rounds = pl_rounds sample_plan, cf_bound = Some sample_run_bound\<rparr>"

definition quiet_visit :: visit_input where
  "quiet_visit = \<lparr>vi_cancelled = False, vi_pastDeadline = False, vi_link = None, vi_baselineOk = True, vi_stopped = False,
     vi_activeScripts = 0, vi_script = Script_threw, vi_segment = ''<!-- P2P_VERDICT: REWORK -->'', vi_artifactsOk = True\<rparr>"

lemma workflow_ok_unhashed [simp]: "workflow_ok ids (unhashed w) = workflow_ok ids w"
  by (simp add: workflow_ok_def unhashed_def)

lemma sample_run_facts:
  "workflow_ok (node_ids sample_read) (bw_compiled sample_run_bound)" "start_bound ''run'' sample_run_bound = Inr sample_run"
  "plain_rework_ids (node_ids sample_read) (bw_compiled sample_run_bound)" "forward_defaults (node_ids sample_read) (bw_compiled sample_run_bound)"
  "visit_bound (node_ids sample_read) (bw_compiled sample_run_bound) = 27"
proof -
  show "workflow_ok (node_ids sample_read) (bw_compiled sample_run_bound)"
    using sample_workflow_ok workflow_ok_unhashed unhashed_assembled by (metis sample_run_bound_def bound_workflow.select_convs(1))
  show "start_bound ''run'' sample_run_bound = Inr sample_run"
    by (simp add: start_bound_def sample_run_def sample_run_bound_def sample_planned)
  show "plain_rework_ids (node_ids sample_read) (bw_compiled sample_run_bound)" "forward_defaults (node_ids sample_read) (bw_compiled sample_run_bound)"
    "visit_bound (node_ids sample_read) (bw_compiled sample_run_bound) = 27"
    unfolding sample_run_bound_def bound_workflow.select_convs sample_read_def by code_simp+
qed

theorem forward_runs_end_witness:
  "snd (run_visits sample_run (replicate 27 quiet_visit) (initial_run sample_run)) \<noteq> Going"
  by (rule forward_runs_end [OF sample_run_facts(1-4)]) (simp add: sample_run_facts)

definition sample_run_state :: run_state where
  "sample_run_state = fst (run_visits sample_run (replicate 3 quiet_visit) (initial_run sample_run))"

lemma sample_run_goes_on:
  "run_visits sample_run (replicate 3 quiet_visit) (initial_run sample_run) = (sample_run_state, Going)"
proof -
  have "snd (run_visits sample_run (replicate 3 quiet_visit) (initial_run sample_run)) = Going"
    unfolding sample_run_def sample_run_bound_def sample_context_def by code_simp
  then show ?thesis unfolding sample_run_state_def by (metis prod.collapse)
qed

theorem conditional_edges_keep_their_budget_witness:
  "(\<exists>u. edge_use_count sample_run_state ''c'' = jint u \<and> 0 \<le> u \<and> u \<le> 2) \<and> length (rn_routingHistory sample_run_state) \<le> 500"
proof -
  have e: "sample_back_edge \<in> set (cw_edges (bw_compiled sample_run_bound))"
      "read_member (cw_loopBudgets (bw_compiled sample_run_bound)) (ed_id sample_back_edge) = jint 2" "ed_id sample_back_edge = ''c''"
    unfolding sample_run_bound_def bound_workflow.select_convs sample_read_def sample_back_edge_def by code_simp+
  show ?thesis
    using conditional_edges_keep_their_budget [OF sample_run_facts(1,2) sample_run_goes_on e(1) sample_back_edge_in(2) _ e(2)]
    by (simp add: e(3) object_prototype_members_def)
qed


section \<open>A loop of default edges\<close>

text \<open>
  A visit that nothing disturbs: no cancel, the deadline not reached, no stop, and files that can be read and written.
  Everything else of the visit is open: the link, what the agents answer, and how many scripts run.
\<close>

definition undisturbed :: "visit_input \<Rightarrow> bool" where
  "undisturbed inp \<longleftrightarrow> \<not> vi_cancelled inp \<and> \<not> vi_pastDeadline inp \<and> vi_baselineOk inp \<and> \<not> vi_stopped inp \<and> vi_artifactsOk inp"

lemma undisturbed_llm_visit:
  assumes "undisturbed inp" and b: "cf_bound cf = Some b" and idx: "0 \<le> rn_roundIndex s" "rn_roundIndex s < int (length (cf_rounds cf))"
    and r: "cf_rounds cf ! nat (rn_roundIndex s) = r" and llm: "rr_nodeKind r = Some Nk_llm" "\<not> isRoundDangerous r"
    and node: "map_option cn_nodeKind (find_node (bw_compiled b) (rr_id r)) \<noteq> Some Nk_script"
  shows "visit_round cf inp s = route_compiled cf (bw_compiled b) r
    \<lparr>rt_routingKey = None, rt_verdict = effective_verdict r (vi_segment inp), rt_logicMarker = None\<rparr> (enter_round r s)"
proof -
  have "script_contract_of b r = None" using llm(1) node by (auto simp: script_contract_of_def Let_def)
  then have "do_round cf inp r (enter_round r s) = (enter_round r s, Work_route None None (vi_segment inp))"
    using assms(1) b llm(1) by (simp add: do_round_def dispatchScriptRound_def undisturbed_def)
  moreover have "\<not> recheck_fails cf inp r" using b llm(2) by (simp add: recheck_fails_def)
  ultimately show ?thesis
    using assms(1) b idx r by (simp add: visit_round_def Let_def undisturbed_def)
qed

lemma undisturbed_default_visit:
  assumes "undisturbed inp" and "cf_bound cf = Some b" and "0 \<le> rn_roundIndex s" "rn_roundIndex s < int (length (cf_rounds cf))"
    and "cf_rounds cf ! nat (rn_roundIndex s) = r" and "rr_nodeKind r = Some Nk_llm" "\<not> isRoundDangerous r"
    and "map_option cn_nodeKind (find_node (bw_compiled b) (rr_id r)) \<noteq> Some Nk_script"
    and out: "outgoing Ek_conditional (rr_id r) (cw_edges (bw_compiled b)) = []"
      "outgoing Ek_default (rr_id r) (cw_edges (bw_compiled b)) = [e]" "0 \<le> round_index cf (ed_toNodeId e)"
  shows "visit_round cf inp s =
    (go_to cf r (ed_toNodeId e) (Some ''default'') (use_edge (Some (ed_id e)) (enter_round r s)), Going)"
  using undisturbed_llm_visit [OF assms(1-8)] out by (simp add: route_compiled_def choose_conditional_def Let_def)

lemma run_visits_append:
  "run_visits cf (xs @ ys) s = (case run_visits cf xs s of (s', Going) \<Rightarrow> run_visits cf ys s' | result \<Rightarrow> result)"
  by (induction xs arbitrary: s) (auto split: prod.splits run_outcome.splits)

definition sample_loop :: json where
  "sample_loop = JObj [(''schemaVersion'', jint 1), (''id'', JStr ''w''), (''rootNodeId'', JStr ''draft''),
     (''nodes'', JArr [sample_node ''draft'' ''llm'' ''plan'' ''analysis_only'',
        sample_node ''review'' ''llm'' ''review'' ''analysis_only'']),
     (''edges'', JArr [sample_edge ''a'' ''draft'' ''review'' sample_default, sample_edge ''b'' ''review'' ''draft'' sample_default]),
     (''loopBudgets'', JObj [(''b'', jint 1)])]"

definition sample_loop_read :: workflow_draft where
  "sample_loop_read = the (read_draft sample_loop)"

definition sample_loop_bound :: bound_workflow where
  "sample_loop_bound = \<lparr>bw_compiled = assemble_workflow code_order sample_loop_read default_p2p_static_policy,
     bw_bindContext = sample_context, bw_diagnostics = []\<rparr>"

definition sample_loop_plan :: resolved_plan where
  "sample_loop_plan = projr (plan_of_launch (compiledWorkflowToLegacyAdvancedRounds (bare_workflow code_order sample_loop_read)) None)"

definition sample_loop_run :: run_config where
  "sample_loop_run = \<lparr>cf_runId = ''run'', cf_rounds = pl_rounds sample_loop_plan, cf_bound = Some sample_loop_bound\<rparr>"

lemma sample_loop_compiles:
  "compileP2pWorkflowDraft code_order sample_loop default_p2p_static_policy = V_ok (bw_compiled sample_loop_bound) []"
proof -
  have "validateP2pWorkflowDraft sample_loop = V_ok sample_loop []" by code_simp
  moreover have "read_draft sample_loop = Some sample_loop_read" unfolding sample_loop_read_def by code_simp
  moreover have "compile_diagnostics sample_loop_read default_p2p_static_policy = []"
    unfolding sample_loop_read_def by code_simp
  ultimately show ?thesis by (simp add: compileP2pWorkflowDraft_def sample_loop_bound_def)
qed

lemma sample_loop_starts: "start_bound ''run'' sample_loop_bound = Inr sample_loop_run"
proof -
  have "plan_of_launch (compiledWorkflowToLegacyAdvancedRounds (bare_workflow code_order sample_loop_read)) None = Inr sample_loop_plan"
    unfolding sample_loop_plan_def sample_loop_read_def by code_simp
  then show ?thesis by (simp add: start_bound_def sample_loop_run_def sample_loop_bound_def assembled_rounds)
qed

text \<open>The graph of the loop, without the hashes of the workflow.\<close>

definition draft_round :: resolved_round where "draft_round = cf_rounds sample_loop_run ! 0"
definition review_round :: resolved_round where "review_round = cf_rounds sample_loop_run ! 1"

lemma sample_loop_graph:
  "cw_edges (bw_compiled sample_loop_bound) = cw_edges (bare_workflow code_order sample_loop_read)"
  "find_node (bw_compiled sample_loop_bound) = find_node (bare_workflow code_order sample_loop_read)"
  by (simp_all add: sample_loop_bound_def flip: unhashed_assembled [of _ _ default_p2p_static_policy])

lemma sample_loop_rounds:
  "length (cf_rounds sample_loop_run) = 2" "rr_id draft_round = ''draft''" "rr_id review_round = ''review''"
  "rr_nodeKind draft_round = Some Nk_llm" "rr_nodeKind review_round = Some Nk_llm"
  "\<not> isRoundDangerous draft_round" "\<not> isRoundDangerous review_round"
  "round_index sample_loop_run ''draft'' = 0" "round_index sample_loop_run ''review'' = 1"
  unfolding draft_round_def review_round_def round_index_def sample_loop_run_def run_config.select_convs sample_loop_plan_def sample_loop_read_def
  by code_simp+

lemma sample_loop_at: "cf_rounds sample_loop_run ! 0 = draft_round" "cf_rounds sample_loop_run ! Suc 0 = review_round"
    "cf_bound sample_loop_run = Some sample_loop_bound"
  by (simp_all add: draft_round_def review_round_def sample_loop_run_def)

lemma sample_loop_edges:
  "map_option cn_nodeKind (find_node (bare_workflow code_order sample_loop_read) ''draft'') = Some Nk_llm"
  "map_option cn_nodeKind (find_node (bare_workflow code_order sample_loop_read) ''review'') = Some Nk_llm"
  "outgoing Ek_conditional ''draft'' (cw_edges (bare_workflow code_order sample_loop_read)) = []"
  "outgoing Ek_conditional ''review'' (cw_edges (bare_workflow code_order sample_loop_read)) = []"
  "outgoing Ek_default ''draft'' (cw_edges (bare_workflow code_order sample_loop_read)) =
    [the (read_edge (sample_edge ''a'' ''draft'' ''review'' sample_default))]"
  "outgoing Ek_default ''review'' (cw_edges (bare_workflow code_order sample_loop_read)) =
    [the (read_edge (sample_edge ''b'' ''review'' ''draft'' sample_default))]"
  "ed_id (the (read_edge (sample_edge ''a'' ''draft'' ''review'' sample_default))) = ''a''"
  "ed_id (the (read_edge (sample_edge ''b'' ''review'' ''draft'' sample_default))) = ''b''"
  "ed_toNodeId (the (read_edge (sample_edge ''a'' ''draft'' ''review'' sample_default))) = ''review''"
  "ed_toNodeId (the (read_edge (sample_edge ''b'' ''review'' ''draft'' sample_default))) = ''draft''"
  unfolding sample_loop_read_def by code_simp+

lemma loop_from_draft:
  assumes "undisturbed inp" and "rn_roundIndex s = 0"
  shows "\<exists>s'. visit_round sample_loop_run inp s = (s', Going) \<and> rn_roundIndex s' = 1 \<and> use_counts s' = counter_inc ''a'' (use_counts s)"
proof -
  let ?e = "the (read_edge (sample_edge ''a'' ''draft'' ''review'' sample_default))"
  have "visit_round sample_loop_run inp s =
      (go_to sample_loop_run draft_round (ed_toNodeId ?e) (Some ''default'') (use_edge (Some (ed_id ?e)) (enter_round draft_round s)), Going)"
    by (rule undisturbed_default_visit [OF assms(1), of _ sample_loop_bound])
      (simp_all add: assms(2) sample_loop_rounds sample_loop_edges sample_loop_graph sample_loop_at)
  then show ?thesis by (simp add: sample_loop_rounds sample_loop_edges)
qed

lemma loop_from_review:
  assumes "undisturbed inp" and "rn_roundIndex s = 1"
  shows "\<exists>s'. visit_round sample_loop_run inp s = (s', Going) \<and> rn_roundIndex s' = 0 \<and> use_counts s' = counter_inc ''b'' (use_counts s)"
proof -
  let ?e = "the (read_edge (sample_edge ''b'' ''review'' ''draft'' sample_default))"
  have "visit_round sample_loop_run inp s =
      (go_to sample_loop_run review_round (ed_toNodeId ?e) (Some ''default'') (use_edge (Some (ed_id ?e)) (enter_round review_round s)), Going)"
    by (rule undisturbed_default_visit [OF assms(1), of _ sample_loop_bound])
      (simp_all add: assms(2) sample_loop_rounds sample_loop_edges sample_loop_graph sample_loop_at)
  then show ?thesis by (simp add: sample_loop_rounds sample_loop_edges)
qed

text \<open>The place of the run and how often it went back, after a number of visits.\<close>

definition loop_state :: "nat \<Rightarrow> run_state \<Rightarrow> bool" where
  "loop_state n s \<longleftrightarrow> rn_roundIndex s = int (n mod 2) \<and> counts_ok (use_counts s) \<and> count_of (use_counts s) ''b'' = int (n div 2)"

lemma loop_step:
  assumes "undisturbed inp" and "loop_state n s"
  shows "\<exists>s'. visit_round sample_loop_run inp s = (s', Going) \<and> loop_state (Suc n) s'"
proof -
  have c: "counts_ok (use_counts s)" using assms(2) by (simp add: loop_state_def)
  have plain: "''a'' \<notin> set object_prototype_members" "''b'' \<notin> set object_prototype_members"
    by (simp_all add: object_prototype_members_def)
  show ?thesis
  proof (cases "even n")
    case True
    then obtain m where m: "n = 2 * m" by blast
    then have "rn_roundIndex s = 0" using assms(2) by (simp add: loop_state_def)
    from loop_from_draft [OF assms(1) this] obtain s' where s': "visit_round sample_loop_run inp s = (s', Going)"
        "rn_roundIndex s' = 1" "use_counts s' = counter_inc ''a'' (use_counts s)" by blast
    then show ?thesis using assms(2) m counts_ok_inc [OF c] plain by (simp add: loop_state_def)
  next
    case False
    then obtain m where m: "n = 2 * m + 1" using oddE by blast
    then have "rn_roundIndex s = 1" using assms(2) by (simp add: loop_state_def)
    from loop_from_review [OF assms(1) this] obtain s' where s': "visit_round sample_loop_run inp s = (s', Going)"
        "rn_roundIndex s' = 0" "use_counts s' = counter_inc ''b'' (use_counts s)" by blast
    then show ?thesis using assms(2) m counts_ok_inc [OF c] plain by (simp add: loop_state_def)
  qed
qed

lemma loop_passes:
  "list_all undisturbed inps \<Longrightarrow>
   \<exists>s. run_visits sample_loop_run inps (initial_run sample_loop_run) = (s, Going) \<and> loop_state (length inps) s"
proof (induction inps rule: rev_induct)
  case Nil
  then show ?case by (simp add: loop_state_def initial_run_def counts_ok_def count_of_def)
next
  case (snoc inp inps)
  then obtain s where s: "run_visits sample_loop_run inps (initial_run sample_loop_run) = (s, Going)" "loop_state (length inps) s"
    by auto
  obtain s' where s': "visit_round sample_loop_run inp s = (s', Going)" "loop_state (Suc (length inps)) s'"
    using loop_step [OF _ s(2)] snoc.prems by auto
  then show ?case by (simp add: run_visits_append s(1))
qed

text \<open>
  C12. Loop budgets do not stop a loop of default edges.  The draft with the two nodes draft and review, default
  edges there and back and a budget of one for the way back compiles and starts, and as long as nothing disturbs it (no
  cancel, no stop, no failing file, the deadline of the run not reached) the run goes on, whatever its agents answer:
  after any number of visits it is still going, and it has followed the edge with the budget of one at every second visit.
\<close>

theorem default_loop_ignores_its_budget:
  assumes "list_all undisturbed inps"
  shows "compileP2pWorkflowDraft code_order sample_loop default_p2p_static_policy = V_ok (bw_compiled sample_loop_bound) [] \<and>
    budget_read (jget sample_loop ''loopBudgets'') ''b'' = jint 1 \<and>
    start_bound ''run'' sample_loop_bound = Inr sample_loop_run \<and>
    (\<exists>s. run_visits sample_loop_run inps (initial_run sample_loop_run) = (s, Going) \<and>
      edge_use_count s ''b'' = jint (int (length inps div 2)))"
proof (intro conjI)
  obtain s where s: "run_visits sample_loop_run inps (initial_run sample_loop_run) = (s, Going)" "loop_state (length inps) s"
    using loop_passes [OF assms] by blast
  then have c: "counts_ok (use_counts s)" "count_of (use_counts s) ''b'' = int (length inps div 2)" by (simp_all add: loop_state_def)
  have plain: "''b'' \<notin> set object_prototype_members" by (simp add: object_prototype_members_def)
  have "edge_use_count s ''b'' = jint (int (length inps div 2))"
    using edge_use_count_alt [OF plain, of s] counts_ok_read [OF c(1) plain] c(2) by simp
  with s(1) show "\<exists>s. run_visits sample_loop_run inps (initial_run sample_loop_run) = (s, Going) \<and>
      edge_use_count s ''b'' = jint (int (length inps div 2))" by blast
  show "budget_read (jget sample_loop ''loopBudgets'') ''b'' = jint 1" by code_simp
qed (rule sample_loop_compiles sample_loop_starts)+

theorem default_loop_ignores_its_budget_witness:
  "\<exists>s. run_visits sample_loop_run (replicate 1000 quiet_visit) (initial_run sample_loop_run) = (s, Going) \<and>
     edge_use_count s ''b'' = jint 500"
proof -
  have "list_all undisturbed (replicate 1000 quiet_visit)" by (simp add: list_all_iff undisturbed_def quiet_visit_def)
  from default_loop_ignores_its_budget [OF this] show ?thesis by simp
qed

section \<open>Scripts\<close>

lemma recheck_refuses_allowlists:
  assumes "sp_allowedExecutables (bc_policySnapshot (bw_bindContext b)) \<noteq> []"
  shows "recheckDangerousRound b link runId i \<noteq> Recheck_ok"
proof -
  have "sp_allowedExecutables (loadDaemonP2pStaticPolicy l) = []" for l
    by (simp add: loadDaemonP2pStaticPolicy_def Let_def buildDefaultP2pStaticPolicy_def)
  then obtain path text' where "findPolicyDowngrade (bc_policySnapshot (bw_bindContext b))
      (loadDaemonP2pStaticPolicy (live_link b link)) = Some (path, text')"
    using assms by (fastforce simp: findPolicyDowngrade_def filter_empty_conv split: list.splits)
  then show ?thesis
    by (auto simp: recheckDangerousRound_def recheckDangerousNodeCapabilities_def Let_def split: list.splits option.splits)
qed

text \<open>
  C11. Scripts never run.  Binding lets a workflow with a script through only if the launch envelope allows its
  executable; but the check before every dangerous round, which script rounds are, compares this list with a daemon
  policy whose list is always empty, and so ends the run there, whatever the link offers: a visit of a dangerous round
  fails closed before any work, if it does not stop even earlier.
\<close>

theorem scripts_never_start:
  assumes "prepareAdvancedWorkflowLaunch lc q link activeAdvancedRuns runId = Prepared rounds t (Some b) ds"
    and "n \<in> set (cw_nodes (bw_compiled b))" and "jtruthy (cn_script n)"
    and "cf_bound cf = Some b" and "isRoundDangerous (cf_rounds cf ! nat (rn_roundIndex s))"
  shows "visit_round cf inp s \<in>
    {(s, Rounds_done), (s, Stopped), (s, Run_failed ''timed_out''), (s, Run_failed ''dispatch_failed''),
     (enter_round (cf_rounds cf ! nat (rn_roundIndex s)) s, Run_failed ''capability_downgraded_during_run'')}"
proof -
  obtain envelope draft ds0 ds1 where
      b: "bindP2pCompiledWorkflow (bw_compiled b) (makeBindRuntimeContext q runId link (launch_policy envelope link)
      (activeAdvancedRuns < sp_maxAdvancedRuns (launch_policy envelope link))) = Bind_ok b ds1"
    using assms(1) by (rule preparedE)
  have "node_granted (bc_policySnapshot (bw_bindContext b)) n" using bound_is_granted [OF b] assms(2) by metis
  then have "sp_allowedExecutables (bc_policySnapshot (bw_bindContext b)) \<noteq> []"
    using assms(3) by (auto simp: node_granted_def)
  then have "recheck_fails cf inp (cf_rounds cf ! nat (rn_roundIndex s))"
    using assms(4,5) recheck_refuses_allowlists by (simp add: recheck_fails_def)
  then show ?thesis by (simp add: visit_round_def Let_def)
qed

definition sample_script_run :: run_config where
  "sample_script_run = \<lparr>cf_runId = ''run'', cf_rounds = pl_rounds (projr (plan_of_launch (compiledWorkflowToLegacyAdvancedRounds (bare_workflow code_order sample_script_read)) None)),
     cf_bound = Some sample_bound\<rparr>"


definition sample_script_state :: run_state where
  "sample_script_state = (initial_run sample_script_run)\<lparr>rn_roundIndex := 1\<rparr>"

theorem scripts_never_start_witness:
  "visit_round sample_script_run quiet_visit sample_script_state \<in>
    {(sample_script_state, Rounds_done), (sample_script_state, Stopped), (sample_script_state, Run_failed ''timed_out''),
     (sample_script_state, Run_failed ''dispatch_failed''),
     (enter_round (cf_rounds sample_script_run ! nat (rn_roundIndex sample_script_state)) sample_script_state,
      Run_failed ''capability_downgraded_during_run'')}"
proof -
  have "list_ex (\<lambda>n. jtruthy (cn_script n)) (cw_nodes (bare_workflow code_order sample_script_read))"
    unfolding sample_script_read_def by code_simp
  moreover have "cw_nodes (bw_compiled sample_bound) = cw_nodes (bare_workflow code_order sample_script_read)"
    by (metis sample_bound_def bound_workflow.select_convs(1) unhashed_assembled unhashed_graph(3))
  ultimately obtain n where n: "n \<in> set (cw_nodes (bw_compiled sample_bound))" "jtruthy (cn_script n)"
    by (auto simp: list_ex_iff)
  have "isRoundDangerous (pl_rounds (projr (plan_of_launch (compiledWorkflowToLegacyAdvancedRounds (bare_workflow code_order sample_script_read)) None)) ! 1)"
    unfolding sample_script_read_def by code_simp
  then have dangerous: "isRoundDangerous (cf_rounds sample_script_run ! nat (rn_roundIndex sample_script_state))"
    by (simp add: sample_script_run_def sample_script_state_def)
  have "cf_bound sample_script_run = Some sample_bound" by (simp add: sample_script_run_def)
  from scripts_never_start [OF sample_prepared n this dangerous] show ?thesis .
qed

end
