(* ===== verification/P2pEdgeIds.thy ===== *)
theory P2pEdgeIds
  imports P2pRunProps
begin

text \<open>
  Edge ids that are names of inherited members of a plain object.  The orchestrator counts the uses of an edge in a plain
  object, \<open>run.compiledEdgeUseCounts?.[edge.id] ?? 0\<close> of \<open>src/src/daemon/p2p-orchestrator.ts\<close>: for an id such as
  \<open>constructor\<close> it reads the inherited function, then the text that adding one to it makes, and neither is ever at
  least the budget.  The validators and the compiler accept such an id.
\<close>

text \<open>What a count reads, once any edge was used: the inherited member, or a text.\<close>

definition no_number :: "string \<Rightarrow> run_state \<Rightarrow> bool" where
  "no_number i s \<longleftrightarrow> (case rn_edgeUseCounts s of None \<Rightarrow> True
     | Some m \<Rightarrow> read_member m i = JObj [] \<or> read_member m i = JStr ''1'')"

lemma no_number_fields [simp]:
  "no_number i (enter_round r s) = no_number i s" "no_number i (count_jump r s) = no_number i s"
  "no_number i (go_to cf r t tr s) = no_number i s"
  by (simp_all add: no_number_def)

lemma no_number_use:
  assumes "i \<in> set object_prototype_members" and "no_number i s"
  shows "no_number i (use_edge (Some k) s)"
proof -
  have "read_member (counter_inc k m) i = JObj [] \<or> read_member (counter_inc k m) i = JStr ''1''"
    if "read_member m i = JObj [] \<or> read_member m i = JStr ''1''" for m
    using that assms(1) by (auto simp: counter_inc_def read_member_def update_conv' counter_next_def split: option.splits)
  moreover have "read_member [] i = JObj []" using assms(1) by (simp add: read_member_def)
  ultimately show ?thesis using assms(2) by (cases "rn_edgeUseCounts s") (auto simp: no_number_def)
qed

text \<open>The budget of such an edge is never spent, as soon as any edge was used.\<close>

lemma never_spent:
  assumes "no_number i s" and "rn_edgeUseCounts s \<noteq> None"
  shows "\<not> budget_spent (edge_use_count s i) (JNum n)"
  using assms by (auto simp: no_number_def edge_use_count_def jnullish_def budget_spent_def split: option.splits)

section \<open>A draft with such an id\<close>

definition inherited_draft :: json where
  "inherited_draft = JObj [(''schemaVersion'', jint 1), (''id'', JStr ''w''), (''rootNodeId'', JStr ''plan''),
     (''nodes'', JArr [sample_node ''plan'' ''llm'' ''plan'' ''analysis_only'',
        sample_node ''audit'' ''llm'' ''audit'' ''analysis_only'', sample_node ''close'' ''llm'' ''review'' ''analysis_only'']),
     (''edges'', JArr [sample_edge ''a'' ''plan'' ''audit'' sample_default, sample_edge ''b'' ''audit'' ''close'' sample_default,
        sample_edge ''constructor'' ''audit'' ''plan'' sample_rework]),
     (''loopBudgets'', JObj [(''constructor'', jint 1)])]"

definition inherited_read :: workflow_draft where
  "inherited_read = the (read_draft inherited_draft)"

definition inherited_bound :: bound_workflow where
  "inherited_bound = \<lparr>bw_compiled = assemble_workflow code_order inherited_read default_p2p_static_policy,
     bw_bindContext = sample_context, bw_diagnostics = []\<rparr>"

definition inherited_plan :: resolved_plan where
  "inherited_plan = projr (plan_of_launch (compiledWorkflowToLegacyAdvancedRounds (bare_workflow code_order inherited_read)) None)"

definition inherited_run :: run_config where
  "inherited_run = \<lparr>cf_runId = ''run'', cf_rounds = pl_rounds inherited_plan, cf_bound = Some inherited_bound\<rparr>"

lemma inherited_compile_ok: "compile_diagnostics inherited_read default_p2p_static_policy = []"
  unfolding inherited_read_def by code_simp

lemma inherited_compiles:
  "compileP2pWorkflowDraft code_order inherited_draft default_p2p_static_policy = V_ok (bw_compiled inherited_bound) []"
proof -
  have "validateP2pWorkflowDraft inherited_draft = V_ok inherited_draft []" by code_simp
  moreover have "read_draft inherited_draft = Some inherited_read" unfolding inherited_read_def by code_simp
  ultimately show ?thesis by (simp add: compileP2pWorkflowDraft_def inherited_bound_def inherited_compile_ok)
qed

lemma inherited_starts: "start_bound ''run'' inherited_bound = Inr inherited_run"
proof -
  have "plan_of_launch (compiledWorkflowToLegacyAdvancedRounds (bare_workflow code_order inherited_read)) None = Inr inherited_plan"
    unfolding inherited_plan_def inherited_read_def by code_simp
  then show ?thesis by (simp add: start_bound_def inherited_run_def inherited_bound_def assembled_rounds)
qed

lemma inherited_ok: "workflow_ok (node_ids inherited_read) (bw_compiled inherited_bound)"
proof -
  have "conditions_given inherited_read" unfolding inherited_read_def by code_simp
  then show ?thesis
    using compile_ok [of inherited_read default_p2p_static_policy code_order] inherited_compile_ok by (simp add: inherited_bound_def)
qed

abbreviation inherited_graph :: compiled_workflow where
  "inherited_graph \<equiv> bare_workflow code_order inherited_read"

lemma inherited_graph:
  "cw_edges (bw_compiled inherited_bound) = cw_edges inherited_graph"
  "find_node (bw_compiled inherited_bound) = find_node inherited_graph"
  by (simp_all add: inherited_bound_def flip: unhashed_assembled [of _ _ default_p2p_static_policy])

lemma inherited_budgets: "cw_loopBudgets (bw_compiled inherited_bound) = cw_loopBudgets inherited_graph"
proof -
  have "cw_loopBudgets (unhashed w) = cw_loopBudgets w" for w by (simp add: unhashed_def)
  then show ?thesis unfolding inherited_bound_def bound_workflow.select_convs by (metis unhashed_assembled)
qed

definition plan_round :: resolved_round where "plan_round = cf_rounds inherited_run ! 0"
definition audit_round :: resolved_round where "audit_round = cf_rounds inherited_run ! 1"

lemma inherited_rounds:
  "length (cf_rounds inherited_run) = 3" "rr_id plan_round = ''plan''" "rr_id audit_round = ''audit''"
  "rr_nodeKind plan_round = Some Nk_llm" "rr_nodeKind audit_round = Some Nk_llm" "rr_requiresVerdict audit_round"
  "\<not> isRoundDangerous plan_round" "\<not> isRoundDangerous audit_round"
  "round_index inherited_run ''plan'' = 0" "round_index inherited_run ''audit'' = 1"
  unfolding plan_round_def audit_round_def round_index_def inherited_run_def run_config.select_convs inherited_plan_def inherited_read_def
  by code_simp+

lemma inherited_at: "cf_rounds inherited_run ! 0 = plan_round" "cf_rounds inherited_run ! Suc 0 = audit_round"
    "cf_bound inherited_run = Some inherited_bound"
  by (simp_all add: plan_round_def audit_round_def inherited_run_def)

definition there :: edge_draft where "there = the (read_edge (sample_edge ''a'' ''plan'' ''audit'' sample_default))"
definition again :: edge_draft where "again = the (read_edge (sample_edge ''constructor'' ''audit'' ''plan'' sample_rework))"

lemma inherited_edges:
  "map_option cn_nodeKind (find_node inherited_graph ''plan'') = Some Nk_llm"
  "map_option cn_nodeKind (find_node inherited_graph ''audit'') = Some Nk_llm"
  "outgoing Ek_conditional ''plan'' (cw_edges inherited_graph) = []" "outgoing Ek_default ''plan'' (cw_edges inherited_graph) = [there]"
  "outgoing Ek_conditional ''audit'' (cw_edges inherited_graph) = [again]"
  "read_member (cw_loopBudgets inherited_graph) ''constructor'' = jint 1"
  "ed_id there = ''a''" "ed_toNodeId there = ''audit''" "ed_id again = ''constructor''" "ed_toNodeId again = ''plan''"
  "ed_condition again = Some (Ck_verdict_marker_equals, ''REWORK'')"
  unfolding there_def again_def inherited_read_def by code_simp+

lemma forward_inherited: "forward_defaults (node_ids inherited_read) (bw_compiled inherited_bound)"
  "visit_bound (node_ids inherited_read) (bw_compiled inherited_bound) = 18"
proof -
  have "forward_defaults (node_ids inherited_read) inherited_graph" "visit_bound (node_ids inherited_read) inherited_graph = 18"
    unfolding inherited_read_def by code_simp+
  then show "forward_defaults (node_ids inherited_read) (bw_compiled inherited_bound)"
    "visit_bound (node_ids inherited_read) (bw_compiled inherited_bound) = 18"
    by (simp_all add: forward_defaults_def visit_bound_def back_edges_def edge_limit_def inherited_graph inherited_budgets)
qed

text \<open>The audit asks for rework whenever no verdict that passes is its last one.\<close>

definition reworks :: "visit_input \<Rightarrow> bool" where
  "reworks inp \<longleftrightarrow> undisturbed inp \<and> opt_default ''REWORK'' (parseVerdictFromContent (vi_segment inp)) = ''REWORK''"

lemma plan_visit:
  assumes "reworks inp" and "rn_roundIndex s = 0" and "no_number ''constructor'' s"
  shows "\<exists>s'. visit_round inherited_run inp s = (s', Going) \<and> rn_roundIndex s' = 1 \<and> no_number ''constructor'' s' \<and>
    rn_edgeUseCounts s' \<noteq> None"
proof -
  have "visit_round inherited_run inp s =
      (go_to inherited_run plan_round (ed_toNodeId there) (Some ''default'') (use_edge (Some (ed_id there)) (enter_round plan_round s)), Going)"
    by (rule undisturbed_default_visit [of _ _ inherited_bound])
      (use assms in \<open>simp_all add: reworks_def inherited_rounds inherited_edges inherited_graph inherited_at\<close>)
  then show ?thesis using assms(3) no_number_use [of "''constructor''" "enter_round plan_round s" "''a''"]
    by (simp add: inherited_rounds inherited_edges object_prototype_members_def)
qed

lemma audit_visit:
  assumes "reworks inp" and "rn_roundIndex s = 1" and "no_number ''constructor'' s" and "rn_edgeUseCounts s \<noteq> None"
  shows "\<exists>s'. visit_round inherited_run inp s = (s', Going) \<and> rn_roundIndex s' = 0 \<and> no_number ''constructor'' s'"
proof -
  let ?rt = "\<lparr>rt_routingKey = None, rt_verdict = effective_verdict audit_round (vi_segment inp), rt_logicMarker = None\<rparr>"
  have v: "visit_round inherited_run inp s = route_compiled inherited_run (bw_compiled inherited_bound) audit_round ?rt (enter_round audit_round s)"
    by (rule undisturbed_llm_visit)
      (use assms in \<open>simp_all add: reworks_def inherited_rounds inherited_edges inherited_graph inherited_at\<close>)
  have rework: "effective_verdict audit_round (vi_segment inp) = Some ''REWORK''"
    using assms(1) by (simp add: effective_verdict_def inherited_rounds reworks_def)
  have "edge_budget (bw_compiled inherited_bound) ''constructor'' = jint 1"
    by (simp add: edge_budget_def jnullish_def inherited_budgets inherited_edges)
  then have "edge_taken (bw_compiled inherited_bound) (enter_round audit_round s) ?rt again"
    using never_spent [of "''constructor''" "enter_round audit_round s" "JFin 1"] assms(3,4) rework
    by (simp add: edge_taken_def inherited_edges edge_value_def jint_def)
  then have "choose_conditional (bw_compiled inherited_bound) (enter_round audit_round s) ?rt (rr_id audit_round) = Some again"
    by (simp add: choose_conditional_def inherited_rounds inherited_edges inherited_graph)
  then show ?thesis
    using v assms(3) no_number_use [of "''constructor''" "count_jump audit_round (enter_round audit_round s)" "''constructor''"]
    by (simp add: route_compiled_def inherited_edges inherited_rounds object_prototype_members_def)
qed

definition inherited_state :: "nat \<Rightarrow> run_state \<Rightarrow> bool" where
  "inherited_state n s \<longleftrightarrow> rn_roundIndex s = int (n mod 2) \<and> no_number ''constructor'' s \<and> (odd n \<longrightarrow> rn_edgeUseCounts s \<noteq> None)"

lemma inherited_step:
  assumes "reworks inp" and "inherited_state n s"
  shows "\<exists>s'. visit_round inherited_run inp s = (s', Going) \<and> inherited_state (Suc n) s'"
proof (cases "even n")
  case True
  then have "rn_roundIndex s = 0" "no_number ''constructor'' s" using assms(2) by (auto simp: inherited_state_def even_iff_mod_2_eq_zero)
  from plan_visit [OF assms(1) this] True show ?thesis by (auto simp: inherited_state_def mod_Suc)
next
  case False
  then have "rn_roundIndex s = 1" "no_number ''constructor'' s" "rn_edgeUseCounts s \<noteq> None"
    using assms(2) by (auto simp: inherited_state_def odd_iff_mod_2_eq_one)
  from audit_visit [OF assms(1) this] False show ?thesis by (auto simp: inherited_state_def mod_Suc)
qed

lemma inherited_goes_on:
  "list_all reworks inps \<Longrightarrow>
   \<exists>s. run_visits inherited_run inps (initial_run inherited_run) = (s, Going) \<and> inherited_state (length inps) s"
proof (induction inps rule: rev_induct)
  case Nil
  then show ?case by (simp add: inherited_state_def initial_run_def no_number_def)
next
  case (snoc inp inps)
  then obtain s where s: "run_visits inherited_run inps (initial_run inherited_run) = (s, Going)" "inherited_state (length inps) s"
    by auto
  then show ?case using inherited_step [of inp "length inps" s] snoc.prems by (auto simp: run_visits_append)
qed

text \<open>
  An edge whose id is the name of an inherited member has no budget.  The draft with the nodes plan, audit and close, where
  the edge with the id constructor leads from the audit back to the plan for a rework verdict, with a budget of one, passes the
  validator, compiles without a diagnostic, is well formed, has only default edges that go forward, and starts.  The bound of
  its visits is 18, but as long as nothing disturbs the run (no cancel or stop, no failing file, the deadline not reached)
  and the audits ask for rework, it is still going after any number of visits.
\<close>

theorem inherited_edge_id_has_no_budget:
  assumes "list_all reworks inps"
  shows "compileP2pWorkflowDraft code_order inherited_draft default_p2p_static_policy = V_ok (bw_compiled inherited_bound) [] \<and>
    budget_read (jget inherited_draft ''loopBudgets'') ''constructor'' = jint 1 \<and>
    workflow_ok (node_ids inherited_read) (bw_compiled inherited_bound) \<and>
    forward_defaults (node_ids inherited_read) (bw_compiled inherited_bound) \<and>
    visit_bound (node_ids inherited_read) (bw_compiled inherited_bound) = 18 \<and>
    start_bound ''run'' inherited_bound = Inr inherited_run \<and>
    snd (run_visits inherited_run inps (initial_run inherited_run)) = Going"
proof (intro conjI)
  show "snd (run_visits inherited_run inps (initial_run inherited_run)) = Going"
    using inherited_goes_on [OF assms] by auto
  show "budget_read (jget inherited_draft ''loopBudgets'') ''constructor'' = jint 1" by code_simp
qed (rule inherited_compiles inherited_ok forward_inherited inherited_starts)+

lemma quiet_reworks: "reworks quiet_visit"
proof -
  have "parseVerdictFromContent (vi_segment quiet_visit) = Some ''REWORK''" by code_simp
  then show ?thesis by (simp add: reworks_def undisturbed_def) (simp add: quiet_visit_def)
qed

theorem inherited_edge_id_has_no_budget_witness:
  "snd (run_visits inherited_run (replicate 1000 quiet_visit) (initial_run inherited_run)) = Going"
proof -
  have "list_all reworks (replicate 1000 quiet_visit)" by (simp add: list_all_iff quiet_reworks)
  from inherited_edge_id_has_no_budget [OF this] show ?thesis by blast
qed

end
