(* ===== verification/P2pCompletion.thy ===== *)
theory P2pCompletion
  imports P2pRunProps
begin

text \<open>
  When a run completes: only at a node that no edge leaves, which the built-in OpenSpec preset does not have once its
  rounds are turned into a graph.
\<close>

section \<open>Completion\<close>

lemma visit_in_range:
  assumes "runs_workflow ids w cf" and "0 \<le> rn_roundIndex s" and "rn_roundIndex s < int (length (cf_rounds cf))"
    and "visit_round cf inp s = (s', Going)"
  shows "0 \<le> rn_roundIndex s' \<and> rn_roundIndex s' < int (length (cf_rounds cf))"
  using assms(1,4,2)
proof (cases rule: visit_cases)
  case retry
  with assms show ?thesis by simp
next
  case (edge e)
  have "ed_toNodeId e \<in> set ids" using assms(1) edge(1) unfolding runs_workflow_def workflow_ok_def by blast
  with goes_to [OF assms(1)] edge(4) show ?thesis by simp
qed

lemma visit_completes:
  assumes run: "runs_workflow ids w cf" and pos: "0 \<le> rn_roundIndex s" "rn_roundIndex s < int (length (cf_rounds cf))"
    and visit: "visit_round cf inp s = (s', Rounds_done)"
  shows "rn_roundIndex s' = rn_roundIndex s \<and> outgoing Ek_default (current_id cf s') (cw_edges w) = [] \<and> outgoing Ek_conditional (current_id cf s') (cw_edges w) = []"
proof -
  let ?r = "cf_rounds cf ! nat (rn_roundIndex s)"
  obtain b where b: "cf_bound cf = Some b" "bw_compiled b = w" using run by (auto simp: runs_workflow_def)
  obtain s2 x where d: "do_round cf inp ?r (enter_round ?r s) = (s2, x)" by force
  have same: "rn_roundIndex s2 = rn_roundIndex s" using do_round_frame [OF d] by simp
  obtain rt where rc: "route_compiled cf w ?r rt s2 = (s', Rounds_done)"
    using visit d pos b by (cases x) (auto simp: visit_round_def Let_def split: if_splits)
  show ?thesis
  proof (cases "choose_conditional w s2 rt (rr_id ?r)")
    case None
    with rc have "s' = s2" "outgoing Ek_default (rr_id ?r) (cw_edges w) = []" "outgoing Ek_conditional (rr_id ?r) (cw_edges w) = []"
      by (auto simp: route_compiled_def Let_def split: list.splits if_splits)
    with same show ?thesis by (simp add: current_id_def)
  qed (use rc in \<open>simp add: route_compiled_def\<close>)
qed

definition ranged_run :: "string list \<Rightarrow> compiled_workflow \<Rightarrow> run_config \<Rightarrow> run_state \<Rightarrow> bool" where
  "ranged_run ids w cf s \<longleftrightarrow> runs_workflow ids w cf \<and> 0 \<le> rn_roundIndex s \<and> rn_roundIndex s < int (length (cf_rounds cf))"

interpretation ranged: visit_loop "run_visits cf" "visit_round cf" Going "ranged_run ids w cf" for ids w cf
proof unfold_locales
  fix i s s' assume "ranged_run ids w cf s" "visit_round cf i s = (s', Going)"
  then show "ranged_run ids w cf s'" using visit_in_range unfolding ranged_run_def by blast
qed (rule run_visits.simps(1) run_visits_Cons)+

lemma run_completes:
  assumes run: "runs_workflow ids w cf" and ends_at: "run_visits cf inps (initial_run cf) = (s, Rounds_done)"
  shows "outgoing Ek_default (current_id cf s) (cw_edges w) = [] \<and> outgoing Ek_conditional (current_id cf s) (cw_edges w) = [] \<and>
    current_id cf s \<in> set ids"
proof -
  have "ranged_run ids w cf (initial_run cf)" using initial_ok [OF run] run by (simp add: ranged_run_def run_ok_def)
  then obtain t i where t: "ranged_run ids w cf t" "visit_round cf i t = (s, Rounds_done)" using ranged.run_last ends_at by blast
  note ends = visit_completes [OF run _ _ t(2)]
  have "nat (rn_roundIndex t) < length (cf_rounds cf)" using t(1) by (auto simp: ranged_run_def)
  then have "current_id cf s \<in> set (map rr_id (cf_rounds cf))" using t(1) ends by (simp add: ranged_run_def current_id_def)
  then have "current_id cf s \<in> set ids" using run unfolding runs_workflow_def by (metis set_mset_mset)
  with t(1) ends show ?thesis by (simp add: ranged_run_def)
qed

text \<open>
  C9. A run of a compiled workflow completes only at a node that no edge leaves.
\<close>

theorem runs_complete_only_at_the_end:
  assumes "workflow_ok ids (bw_compiled b)" and "start_bound runId b = Inr cf"
    and "run_visits cf inps (initial_run cf) = (s, Rounds_done)"
  shows "\<exists>i \<in> set ids. current_id cf s = i \<and> outgoing Ek_default i (cw_edges (bw_compiled b)) = [] \<and>
    outgoing Ek_conditional i (cw_edges (bw_compiled b)) = []"
proof -
  have run: "runs_workflow ids (bw_compiled b) cf" using start_runs [OF assms(1,2)] by blast
  from run_completes [OF this assms(3)] show ?thesis by simp
qed


definition passing_visit :: visit_input where
  "passing_visit = quiet_visit\<lparr>vi_segment := ''<!-- P2P_VERDICT: PASS -->''\<rparr>"

definition sample_done_state :: run_state where
  "sample_done_state = fst (run_visits sample_run (replicate 3 passing_visit) (initial_run sample_run))"

lemma sample_run_completes:
  "run_visits sample_run (replicate 3 passing_visit) (initial_run sample_run) = (sample_done_state, Rounds_done)"
proof -
  have "snd (run_visits sample_run (replicate 3 passing_visit) (initial_run sample_run)) = Rounds_done"
    unfolding sample_run_def sample_run_bound_def sample_context_def by code_simp
  then show ?thesis unfolding sample_done_state_def by (metis prod.collapse)
qed

theorem runs_complete_only_at_the_end_witness:
  "\<exists>i \<in> set (node_ids sample_read). current_id sample_run sample_done_state = i \<and>
    outgoing Ek_default i (cw_edges (bw_compiled sample_run_bound)) = [] \<and>
    outgoing Ek_conditional i (cw_edges (bw_compiled sample_run_bound)) = []"
  by (rule runs_complete_only_at_the_end [OF sample_run_facts(1,2) sample_run_completes])

section \<open>The OpenSpec preset\<close>

definition openspec_link :: link_view where
  "openspec_link = \<lparr>sl_capabilities = Some [cap_workflow, cap_openspec_artifacts, cap_implementation], sl_serverId = Some ''d'',
     sl_helloEpoch = Some 1, sl_helloSentAt = Some 1\<rparr>"

definition openspec_request :: launch_request where
  "openspec_request = \<lparr>lq_cmd = JObj [(''p2pAdvancedPresetKey'', JStr ''openspec'')], lq_sessionName = ''s'', lq_targets = [],
     lq_userText = ''go'', lq_locale = None, lq_projectDir = ''/p'', lq_commandId = ''c1''\<rparr>"

definition openspec_envelope :: json where
  "openspec_envelope = the (buildAdvancedLaunchEnvelopeFromCommand openspec_request)"

definition openspec_draft :: json where
  "openspec_draft = projr (materializeOldAdvancedConfigToWorkflowDraft (Some ''openspec'') [])"

definition openspec_read :: workflow_draft where
  "openspec_read = the (read_draft openspec_draft)"

definition openspec_bound :: bound_workflow where
  "openspec_bound =
    \<lparr>bw_compiled = assemble_workflow code_order openspec_read (launch_policy openspec_envelope openspec_link),
     bw_bindContext = makeBindRuntimeContext openspec_request ''run'' openspec_link (launch_policy openspec_envelope openspec_link) True,
     bw_diagnostics = []\<rparr>"

definition openspec_plan :: resolved_plan where
  "openspec_plan = projr (plan_of_launch (compiledWorkflowToLegacyAdvancedRounds (bare_workflow code_order openspec_read)) None)"

definition openspec_run :: run_config where
  "openspec_run = \<lparr>cf_runId = ''run'', cf_rounds = pl_rounds openspec_plan, cf_bound = Some openspec_bound\<rparr>"

lemma openspec_policy:
  "launch_policy openspec_envelope openspec_link =
    default_p2p_static_policy\<lparr>sp_allowOpenSpecArtifacts := True, sp_allowImplementationPermission := True,
      sp_policyHash := Some (hashP2pStaticPolicy (default_p2p_static_policy
        \<lparr>sp_allowOpenSpecArtifacts := True, sp_allowImplementationPermission := True\<rparr>))\<rparr>"
proof -
  have "sort (js_unique (map jtext (filter is_jstr (jitems (jget openspec_envelope ''allowedExecutables''))))) = []"
    unfolding openspec_envelope_def by code_simp
  moreover have "loadDaemonP2pStaticPolicy openspec_link =
      default_p2p_static_policy\<lparr>sp_allowOpenSpecArtifacts := True, sp_allowImplementationPermission := True,
        sp_policyHash := Some (hashP2pStaticPolicy (default_p2p_static_policy
          \<lparr>sp_allowOpenSpecArtifacts := True, sp_allowImplementationPermission := True\<rparr>))\<rparr>"
    by (simp add: loadDaemonP2pStaticPolicy_def buildDefaultP2pStaticPolicy_def openspec_link_def default_p2p_static_policy_def
          cap_workflow_def cap_script_argv_def cap_openspec_artifacts_def cap_implementation_def cap_script_interpreter_def)
  ultimately show ?thesis by (simp add: launch_policy_def Let_def)
qed

lemma openspec_compile_ok: "compile_diagnostics openspec_read default_p2p_static_policy = []" "conditions_given openspec_read"
  unfolding openspec_read_def openspec_draft_def by code_simp+

lemma openspec_limits: "sp_maxNodes p = 64 \<Longrightarrow> sp_maxEdges p = 128 \<Longrightarrow> compile_diagnostics openspec_read p = []"
  using openspec_compile_ok(1) by (simp add: compile_diagnostics_def default_p2p_static_policy_def)

lemma openspec_compiles:
  "compileP2pWorkflowDraft code_order openspec_draft (launch_policy openspec_envelope openspec_link) = V_ok (bw_compiled openspec_bound) []"
  "workflow_ok (node_ids openspec_read) (bw_compiled openspec_bound)"
proof -
  have "validateP2pWorkflowDraft openspec_draft = V_ok openspec_draft []" unfolding openspec_draft_def by code_simp
  moreover have "read_draft openspec_draft = Some openspec_read" unfolding openspec_read_def openspec_draft_def by code_simp
  moreover have d: "compile_diagnostics openspec_read (launch_policy openspec_envelope openspec_link) = []"
    by (rule openspec_limits) (simp_all add: openspec_policy default_p2p_static_policy_def)
  ultimately show "compileP2pWorkflowDraft code_order openspec_draft (launch_policy openspec_envelope openspec_link) =
      V_ok (bw_compiled openspec_bound) []"
    by (simp add: compileP2pWorkflowDraft_def openspec_bound_def)
  show "workflow_ok (node_ids openspec_read) (bw_compiled openspec_bound)"
    using compile_ok [of openspec_read "launch_policy openspec_envelope openspec_link" code_order] d openspec_compile_ok(2)
    by (simp add: openspec_bound_def)
qed

lemma openspec_bare:
  "cw_nodes (bw_compiled openspec_bound) = cw_nodes (bare_workflow code_order openspec_read)"
  "cw_edges (bw_compiled openspec_bound) = cw_edges (bare_workflow code_order openspec_read)"
  by (simp_all add: openspec_bound_def
        flip: unhashed_assembled [of _ _ "launch_policy openspec_envelope openspec_link"] del: assemble_fields)


lemma openspec_binds:
  "bindP2pCompiledWorkflow (bw_compiled openspec_bound) (bw_bindContext openspec_bound) = Bind_ok openspec_bound []"
proof -
  have "deriveRequiredCapabilities (cw_nodes (bare_workflow code_order openspec_read)) =
      [cap_implementation, cap_openspec_artifacts, cap_workflow]"
    unfolding openspec_read_def openspec_draft_def by code_simp
  then have caps: "cw_derivedRequiredCapabilities (bw_compiled openspec_bound) = [cap_implementation, cap_openspec_artifacts, cap_workflow]"
    by (simp add: openspec_bare(1) [symmetric]) (simp add: openspec_bound_def)
  have "concat (map (node_policy_issues (default_p2p_static_policy
      \<lparr>sp_allowOpenSpecArtifacts := True, sp_allowImplementationPermission := True\<rparr>) ''run'')
      (cw_nodes (bare_workflow code_order openspec_read))) = []"
    unfolding openspec_read_def openspec_draft_def by code_simp
  moreover have "node_policy_issues (p\<lparr>sp_policyHash := h\<rparr>) = node_policy_issues p" for p h
    by (simp add: fun_eq_iff node_policy_issues_def Let_def)
  ultimately have "validateCompiledWorkflowAgainstBindPolicy (bw_compiled openspec_bound) (bw_bindContext openspec_bound) = []"
    unfolding validateCompiledWorkflowAgainstBindPolicy_def openspec_bare
    by (simp add: openspec_bound_def makeBindRuntimeContext_def openspec_policy)
  moreover have "getMissingP2pWorkflowCapabilities (bw_compiled openspec_bound) (bw_bindContext openspec_bound) = []"
    using caps by (simp add: getMissingP2pWorkflowCapabilities_def openspec_bound_def makeBindRuntimeContext_def
          readCachedHelloSnapshot_def openspec_link_def filter_empty_conv)
  moreover have "bc_accepted (bw_bindContext openspec_bound)" "cw_diagnostics (bw_compiled openspec_bound) = []"
    "bw_diagnostics openspec_bound = []"
    by (simp_all add: openspec_bound_def makeBindRuntimeContext_def)
  ultimately show ?thesis by (simp add: bindP2pCompiledWorkflow_def Let_def)
qed

lemma openspec_prepared:
  "prepareAdvancedWorkflowLaunch code_order openspec_request openspec_link 0 ''run'' =
    Prepared (compiledWorkflowToLegacyAdvancedRounds (bw_compiled openspec_bound)) None (Some openspec_bound) []"
proof -
  let ?p = "launch_policy openspec_envelope openspec_link"
  have e: "buildAdvancedLaunchEnvelopeFromCommand openspec_request = Some openspec_envelope"
    unfolding openspec_envelope_def by code_simp
  have no: "jtruthy (jget (lq_cmd openspec_request) ''p2pWorkflowLaunchEnvelope'') = False"
      "jtruthy (jget (lq_cmd openspec_request) ''workflowLaunchEnvelope'') = False" by code_simp+
  have ve: "validateP2pWorkflowLaunchEnvelope openspec_envelope = V_ok openspec_envelope []"
    unfolding openspec_envelope_def by code_simp
  have d: "launch_draft openspec_envelope = V_ok openspec_draft []" unfolding openspec_envelope_def openspec_draft_def by code_simp
  have vd: "validateP2pWorkflowDraft openspec_draft = V_ok openspec_draft []" unfolding openspec_draft_def by code_simp
  have h: "jget openspec_envelope ''expectedStaticPolicyHash'' = JUndefined"
      "timeout_ms (jget (jget openspec_envelope ''oldAdvanced'') ''advancedRunTimeoutMinutes'') = None"
    unfolding openspec_envelope_def by code_simp+
  have b: "bindP2pCompiledWorkflow (bw_compiled openspec_bound)
      (makeBindRuntimeContext openspec_request ''run'' openspec_link ?p True) = Bind_ok openspec_bound []"
    using openspec_binds by (simp add: openspec_bound_def)
  show ?thesis
    by (simp add: prepareAdvancedWorkflowLaunch_def e no ve d vd openspec_compiles(1) h b policy_mismatch_def)
qed

lemma openspec_starts: "start_bound ''run'' openspec_bound = Inr openspec_run"
proof -
  have "plan_of_launch (compiledWorkflowToLegacyAdvancedRounds (bare_workflow code_order openspec_read)) None = Inr openspec_plan"
    unfolding openspec_plan_def openspec_read_def openspec_draft_def by code_simp
  then show ?thesis by (simp add: start_bound_def openspec_run_def openspec_bound_def assembled_rounds)
qed

lemma openspec_all_left:
  "list_all (\<lambda>i. outgoing Ek_default i (cw_edges (bare_workflow code_order openspec_read)) \<noteq> [] \<or>
    outgoing Ek_conditional i (cw_edges (bare_workflow code_order openspec_read)) \<noteq> []) (node_ids openspec_read)"
  unfolding openspec_read_def openspec_draft_def by code_simp

lemma openspec_times:
  "map rr_timeoutMinutes (pl_rounds openspec_plan) = [8, 8, 8, 8, 8]"
  "map rr_timeoutMinutes (pl_rounds (projr (resolveP2pRoundPlan (Some ''openspec'') [] None))) = [5, 8, 6, 8, 6]"
  "map rr_id (pl_rounds openspec_plan) = map rr_id (pl_rounds (projr (resolveP2pRoundPlan (Some ''openspec'') [] None)))"
  unfolding openspec_plan_def openspec_read_def openspec_draft_def by code_simp+

text \<open>
  C10. The OpenSpec preset cannot complete.  A command that asks for it is prepared, bound and started, but the last
  round, the audit of the implementation, has only the conditional edge that goes back for rework, and so has no way
  out: whatever the agents answer, the run never leaves its loop as completed.  (The graph run fails closed where no
  edge matches, which an audit that passes is.)
\<close>

theorem openspec_preset_never_completes:
  "prepareAdvancedWorkflowLaunch code_order openspec_request openspec_link 0 ''run'' =
      Prepared (compiledWorkflowToLegacyAdvancedRounds (bw_compiled openspec_bound)) None (Some openspec_bound) [] \<and>
    start_bound ''run'' openspec_bound = Inr openspec_run \<and>
    (\<forall>inps. snd (run_visits openspec_run inps (initial_run openspec_run)) \<noteq> Rounds_done)"
proof (intro conjI allI notI)
  fix inps assume "snd (run_visits openspec_run inps (initial_run openspec_run)) = Rounds_done"
  then obtain s where s: "run_visits openspec_run inps (initial_run openspec_run) = (s, Rounds_done)" by (metis prod.collapse)
  have run: "runs_workflow (node_ids openspec_read) (bw_compiled openspec_bound) openspec_run"
    using start_runs [OF openspec_compiles(2) openspec_starts] by blast
  show False using run_completes [OF run s] openspec_all_left by (auto simp: list_all_iff openspec_bare)
qed (rule openspec_prepared openspec_starts)+

end
