(* ===== verification/Spec2Isabelle.thy ===== *)
theory Spec2Isabelle
  imports Prelude Autofix AuditSeverity Checklist Marker TaskPair TaskPairApply TaskPairLegacy TaskPairProps
    JsValue TransportQueue QueueWire TimelineMerge Journal CoreLaneInbox AckOutbox
    RateLimits PreviewFanout PreviewPool PreviewAdmission PreviewFiles PreviewWorker PreviewCache
    PreviewCoordinator CoordinatorServed CoordinatorProps Versions DaemonUpgrade
    StableSort P2pWorkflow P2pValidate P2pCompile P2pLaunch P2pLaunchProps P2pRun P2pRunProps P2pEdgeIds P2pCompletion
begin

text \<open>
  Verification of the core logic of IM.codes, a controller of coding agents: a daemon on the machine that
  runs the agents (\<open>src/src\<close>), a server that relays between daemons and browsers (\<open>src/server\<close>), a
  web client (\<open>src/web\<close>), and the contracts that all three share (\<open>src/shared\<close>).

  \<^bold>\<open>Parts and theories.\<close>

  \<^item> Task pairs: work units with an executor and an auditor, moved by one-line markers in the text of the
    agents.  \<open>Marker\<close> models the fences of \<open>shared/markdown-fence.ts\<close> and the scanner of
    \<open>shared/task-pair.ts\<close>; \<open>Checklist\<close> the brief checklist (\<open>task-pair-checklist.ts\<close>);
    \<open>AuditSeverity\<close> severities (\<open>audit-convergence.ts\<close>) and the judgement of verdicts;
    \<open>TaskPair\<close> the pair record, its wire projection and scheduling (\<open>task-pair-suspension.ts\<close>);
    \<open>TaskPairApply\<close> the transition \<open>applyTaskPairMarker\<close>, verb by verb; \<open>TaskPairLegacy\<close> what
    changes pairs besides markers, the import of legacy tasks (\<open>src/daemon/task-pairs/legacy-import.ts\<close>) and the writes of the
    daemon itself (\<open>service.ts\<close>, \<open>scheduler.ts\<close> there); \<open>TaskPairProps\<close> the reachable pairs and what holds of them.
  \<^item> Auto-fix: \<open>Autofix\<close> models the state machine, the decisions and the loop of \<open>src/autofix\<close>.
  \<^item> Transport queue: \<open>TransportQueue\<close> the reducer with which a browser follows the daemon's queue of
    messages (\<open>transport-queue-reducer.ts\<close>); \<open>QueueWire\<close> the projection of stored entries to the wire
    and the check of what arrives (\<open>transport-queue-privacy.ts\<close>, \<open>transport-queue-wire.ts\<close>).
  \<^item> Timeline: \<open>TimelineMerge\<close> models \<open>shared/timeline/merge.ts\<close>: which version of an event a window
    keeps, and how cached and incoming events make a window.
  \<^item> Crash-safe mailboxes: \<open>Journal\<close> the append-only files of JSON lines, \<open>CoreLaneInbox\<close> the inbox of the
    link worker, \<open>AckOutbox\<close> the outbox of acknowledgements, with flushes and collections that others interleave
    at each \<open>await\<close>.
  \<^item> Limits of the server: \<open>RateLimits\<close> the sliding windows, single-use token ids, lockouts, limits of
    shared sessions, routes of acknowledgements and the timestamp window.
  \<^item> Preview reads of the daemon (\<open>src/src/daemon/file-preview-*.ts\<close>): \<open>PreviewAdmission\<close> decides whether
    a read can finish in time, \<open>PreviewPool\<close> runs it on a worker thread, \<open>PreviewFanout\<close> sends one answer for
    each request.  \<open>PreviewFiles\<close> models canonical paths, the denied directories, the classes of files and the
    public error codes; \<open>PreviewWorker\<close> what a worker does with a request and the answer made from its result;
    \<open>PreviewCache\<close> the cache of snapshots with its generations.  \<open>PreviewCoordinator\<close> composes them: requests join
    the job of their path, then the job of their file; \<open>CoordinatorServed\<close> and \<open>CoordinatorProps\<close> prove what holds of it.
  \<^item> Upgrades of the daemon: \<open>Versions\<close> models versions, their order and the vocabulary of upgrades
    (\<open>imcodes-version.ts\<close>, \<open>daemon-upgrade.ts\<close>); \<open>DaemonUpgrade\<close> the server's coordinator of one daemon and
    the gate that waits for the package to be published.
  \<^item> Workflows of several agents (P2P).  A user draws a graph of nodes and edges; a launch validates, compiles and
    binds it and runs it round by round.  \<open>P2pWorkflow\<close> models the vocabulary, diagnostics, static policy with its
    hash, artifact paths and logic contracts (\<open>p2p-workflow-constants.ts\<close>, \<open>-diagnostics.ts\<close>, \<open>-policy.ts\<close>,
    \<open>-artifact-paths.ts\<close>, \<open>-logic-evaluator.ts\<close>); \<open>P2pValidate\<close> script contracts, machine output and the
    validators (\<open>-script.ts\<close>, \<open>-validators.ts\<close>); \<open>P2pCompile\<close> the compiler; \<open>P2pLaunch\<close> policy of the
    daemon, binding, rechecks, admission, plans, old configurations (\<open>p2p-advanced.ts\<close>,
    \<open>p2p-workflow-materialize.ts\<close>) and \<open>prepareAdvancedWorkflowLaunch\<close> of \<open>command-handler.ts\<close>; \<open>P2pRun\<close> the
    loop \<open>executeAdvancedChain\<close> of \<open>p2p-orchestrator.ts\<close>, one visit of a round at a time.  \<open>P2pLaunchProps\<close>,
    \<open>P2pRunProps\<close> and \<open>P2pCompletion\<close> prove what holds of launches, of runs and of how they end, \<open>P2pEdgeIds\<close> what
    edge ids like \<open>constructor\<close> do to a run;
    \<open>StableSort\<close> holds the laws of sorting that the compiler and the timeline share.

  \<^bold>\<open>Conventions.\<close>  \<open>Prelude\<close> and \<open>JsValue\<close> hold what the code uses of JavaScript.  A string is its
  list of bytes, so lengths and case mapping agree with the code on ASCII text.  Numbers that the code treats
  as integers are \<open>int\<close>, durations \<open>rat\<close>; where a value may be \<open>NaN\<close> or infinite it is a \<open>js_number\<close>.
  A \<open>Map\<close> is an association list in its order of insertion, a parsed value a \<open>json\<close>.  A regular
  expression is a matcher built in the order of its pattern.  Throws, rejected promises and early returns
  are values of sums and options.  The clock is an argument, one value for each event.  Timers, sockets,
  workers and callbacks are events, and theorems about histories hold for every sequence of them.
  What a component sends or logs is a field of its state.  \<open>localeCompare\<close> is a parameter
  with the laws of an order.

  \<^bold>\<open>What is shown.\<close>  Task pairs: only an auditor or authority passes a pair, and only with its material
  (a pair that was imported as passed has none); done and cancelled pairs come back only through the queue; message caps and counters stay consistent; a
  checklist update parses to the wanted boxes.  Auto-fix: runs of transitions are bounded, and the loop never
  leaves planning.  Queue view: ended messages stay ended, the epoch changes only by a reset;
  the wire check accepts exactly the raw values that read as public events.  Timeline: a delete is final, a merge
  duplicates nothing and loses only by its bound, windows keep their bounds but in one case.  Mailboxes: reopening gives
  back what was there, for the inbox on a journal of finished lines, for the outbox under every interleaving in which no flush
  fails on an entry that it held while others removed it; both exceptions are theorems.  Limits: no window grants more than its limit, the pruned windows
  decide as the whole history does, routes refine a map.  Previews: each accepted request has one outcome,
  each job is in one place, the pool works while jobs wait, results reach their job; the path policy allows nothing
  in a denied directory and no file there passes the preflight, errors carry public codes only; the
  cache keeps its limits, a hit is current and a late write is refused; the coordinator forgets no request, answers each once and honestly,
  and calls no callback twice.  Upgrades: those the server
  starts by itself never form a cycle, nothing is sent before it is published, only operators force, each lifecycle is
  delivered once for each time it is offered, and a terminal failure is not retried by itself.  Workflows: the scan of
  envelopes is exact and an accepted one is public, cut output keeps its frames whole, a draft that compiles is well
  formed and its rounds are its nodes, a prepared launch asks for nothing that is not granted, a run ends where its
  default edges go forward, keeps the budgets of conditional edges (both but for edge ids that a plain object inherits) and
  completes only where no edge leaves.  Where the code
  does not do what its comments say, a theorem shows the behaviour.

  Interfaces are locales, interpreted on the models: \<open>event_reducer\<close> (a state that follows events),
  \<open>journal_store\<close> (a memory and a file that reads back to it), \<open>window_limiter\<close> (a state that grants events
  by their times), \<open>visit_loop\<close> (a loop that goes on as long as its visits say so) and \<open>decreasing_visit_loop\<close>
  (one that ends).

  \<^bold>\<open>Bounds and fuel.\<close>  Matchers and scanners recurse on their input; where a loop consumes a varying part
  of it, the fuel is the length of the input plus one, which each step shortens.  The auto-fix loop takes
  the number of iterations as its argument.  The pump of the pool terminates by the length of its queue and
  then the slots left.  The traversals of a workflow terminate by the nodes not yet visited; a run is a list of
  visits, and the bound on its length counts three visits for each node and each pass that the budgets allow.

  \<^bold>\<open>Not modelled.\<close>  Text for people and models (prompts, guidance, error messages where no one reads them),
  logging and metrics, the user interface, native shells, adapters of agent processes, SQL and HTTP
  handlers, terminals and git.  Of Node's paths only the posix flavour is modelled, \<open>path.win32\<close> is a parameter, and the
  registry of download handles is left out.  Disk writes of the outbox are done in the order in which the code
  chains them and are taken to succeed.  Objects that the merge mutates are taken not to be shared between its arguments.  Of workflows: what
  agents, scripts, files and the clock do is the input of a visit; prompts, summaries, helper diagnostics, the
  discussion file, artifact checks beyond their outcome, status projections, the library of workflows and the chains
  of the older modes are left out.
\<close>

end
